(* ===== verification/Prelude.thy ===== *)
theory Prelude
  imports Main "HOL-Library.Word" "HOL-Library.AList"
begin

unbundle bit_operations_syntax

text \<open>
  The vocabulary of Go that the component theories share: fixed-width integers as words,
  byte slices and their big-endian encoding (\<open>encoding/binary\<close>), slices with a nil value,
  checked indexing, the outcome of a method that may return an error or panic, built-in maps
  with their number of entries, and the skip/take loop that the paging functions repeat.
  The generic lemmas the components use are proved here once.
\<close>

section \<open>Types\<close>

type_synonym u8 = "8 word"
type_synonym u16 = "16 word"
type_synonym u32 = "32 word"
type_synonym u64 = "64 word"

text \<open>A \<open>float64\<close> that is stored and not computed with: its bit pattern; 0 is the number 0.\<close>

type_synonym float64 = "64 word"

text \<open>Integer division truncates toward zero.\<close>

definition trunc_div :: "int \<Rightarrow> int \<Rightarrow> int" where
  "trunc_div x y = sgn x * sgn y * (\<bar>x\<bar> div \<bar>y\<bar>)"

text \<open>A \<open>chainhash.Hash\<close> is an array of 32 bytes; \<open>HashSize\<close> is its length.\<close>

type_synonym Hash = "u8 list"

definition HashSize :: nat where
  "HashSize = 32"

definition zeroHash :: Hash where
  "zeroHash = replicate HashSize 0"

definition wf_hash :: "Hash \<Rightarrow> bool" where
  "wf_hash h \<longleftrightarrow> length h = HashSize"

text \<open>
  What a Go method that writes to its receiver leaves behind: it returns normally, returns an
  error value, or panics. The receiver after the call is returned next to it, since a method
  that returns an error may already have written to it.
\<close>

datatype 'e status = Ok | Err 'e | Panic

text \<open>The result of a function that writes to nothing.\<close>

datatype ('a, 'e) go_result = Ret 'a | Fail 'e | Panics

named_theorems go_simps \<open>unfolding rules of the Go vocabulary\<close>

section \<open>Slices\<close>

text \<open>A slice may be nil (\<open>None\<close>), which is not the same value as an empty slice.\<close>

type_synonym 'a slice = "'a list option"

fun elems :: "'a slice \<Rightarrow> 'a list" where
  "elems None = []"
| "elems (Some xs) = xs"

lemma elems_Some_iff: "xs \<noteq> None \<Longrightarrow> xs = Some (elems xs)"
  by (cases xs) simp_all

text \<open>Indexing panics out of range; \<open>None\<close> stands for the panic.\<close>

definition idx :: "'a list \<Rightarrow> int \<Rightarrow> 'a option" where
  "idx xs i = (if 0 \<le> i \<and> i < int (length xs) then Some (xs ! nat i) else None)"

lemma idx_nat [simp]: "i < length xs \<Longrightarrow> idx xs (int i) = Some (xs ! i)"
  by (simp add: idx_def)

lemma idx_None_iff: "idx xs i = None \<longleftrightarrow> i < 0 \<or> int (length xs) \<le> i"
  by (auto simp: idx_def)

text \<open>\<open>xs[s:e]\<close> for indices already known to be in range.\<close>

definition subslice :: "'a list \<Rightarrow> nat \<Rightarrow> nat \<Rightarrow> 'a list" where
  "subslice xs s e = drop s (take e xs)"

lemma length_subslice [simp]: "length (subslice xs s e) = min e (length xs) - s"
  by (simp add: subslice_def)

lemma subslice_eq_take_drop: "subslice xs s e = take (e - s) (drop s xs)"
  by (simp add: subslice_def drop_take)

section \<open>Big-endian integers\<close>

text \<open>\<open>binary.BigEndian.PutUint64\<close> and \<open>Uint64\<close>, the latter on its first eight bytes.\<close>

definition put64 :: "u64 \<Rightarrow> u8 list" where
  "put64 w = map (\<lambda>i. ucast (drop_bit (8 * i) w)) [7, 6, 5, 4, 3, 2, 1, 0]"

definition get64 :: "u8 list \<Rightarrow> u64" where
  "get64 bs = foldl (\<lambda>acc b. push_bit 8 acc OR ucast b) 0 (take 8 bs)"

lemma length_put64 [simp]: "length (put64 w) = 8"
  by (simp add: put64_def)

lemma put64_not_Nil [simp]: "put64 w \<noteq> []"
  by (simp add: put64_def)

lemma put64_step:
  fixes w :: u64
  shows "push_bit 8 (drop_bit (8 + k) w) OR ucast (ucast (drop_bit k w) :: u8) = drop_bit k w"
proof (rule bit_word_eqI)
  fix n
  assume "n < LENGTH(64)"
  then show "bit (push_bit 8 (drop_bit (8 + k) w) OR ucast (ucast (drop_bit k w) :: u8)) n
      = bit (drop_bit k w) n"
    by (cases "n < 8") (auto simp: bit_or_iff bit_push_bit_iff bit_drop_bit_eq bit_ucast_iff)
qed

lemma put64_top:
  fixes w :: u64
  shows "ucast (ucast (drop_bit 56 w) :: u8) = drop_bit 56 w"
proof -
  have "drop_bit 64 w = 0"
    by (rule bit_word_eqI) (auto simp: bit_drop_bit_eq dest: bit_imp_le_length)
  with put64_step [of 56 w] show ?thesis by simp
qed

lemma get64_put64 [simp]: "get64 (put64 w @ bs) = w"
  using put64_step [of 48 w] put64_step [of 40 w] put64_step [of 32 w] put64_step [of 24 w]
    put64_step [of 16 w] put64_step [of 8 w] put64_step [of 0 w]
  by (simp add: put64_def get64_def put64_top)

lemma get64_put64_only [simp]: "get64 (put64 w) = w"
  using get64_put64 [of w "[]"] by simp

section \<open>Paging\<close>

text \<open>
  The loop of the row paging functions: rows that fail the filter are passed over, the first
  \<open>offset\<close> others are counted in \<open>skipped\<close>, and the next ones are appended to \<open>out\<close> until
  its length is \<open>N\<close>.
\<close>

fun page_loop :: "('a \<Rightarrow> bool) \<Rightarrow> nat \<Rightarrow> nat \<Rightarrow> nat \<Rightarrow> 'a list \<Rightarrow> 'a list \<Rightarrow> 'a list" where
  "page_loop keep N offset skipped out [] = out"
| "page_loop keep N offset skipped out (row # rows) =
     (if \<not> keep row then page_loop keep N offset skipped out rows
      else if skipped < offset then page_loop keep N offset (Suc skipped) out rows
      else if length (out @ [row]) = N then out @ [row]
      else page_loop keep N offset skipped (out @ [row]) rows)"

lemma page_loop_gen:
  assumes "length out < N"
  shows "page_loop keep N offset skipped out rows
    = out @ take (N - length out) (drop (offset - skipped) (filter keep rows))"
  using assms
proof (induction rows arbitrary: skipped out)
  case (Cons row rows)
  show ?case
  proof (cases "keep row \<and> \<not> skipped < offset")
    case True
    have "N - length out = Suc (N - Suc (length out))"
      using Cons.prems by simp
    with True show ?thesis
      using Cons.prems Cons.IH [of "out @ [row]" skipped] by auto
  next
    case False
    then show ?thesis
      using Cons.prems Cons.IH [of out] by (auto simp: Suc_diff_Suc [symmetric])
  qed
qed simp

lemma page_loop_eq: "0 < N \<Longrightarrow>
    page_loop keep N offset 0 [] rows = take N (drop offset (filter keep rows))"
  by (simp add: page_loop_gen)

lemma page_loop_no_rows: "filter keep rows = [] \<Longrightarrow> page_loop keep N offset skipped out rows = out"
  by (induction rows) (auto split: if_splits)

section \<open>Maps\<close>

text \<open>
  The built-in map: lookup, assignment, \<open>delete\<close> and \<open>len\<close>, and the keys that \<open>range\<close>
  visits. The laws are what the components rely on; the counting lemmas are proved from them.
\<close>

locale go_map =
  fixes empty :: 'm
    and get :: "'m \<Rightarrow> 'k \<Rightarrow> 'v option"
    and put :: "'k \<Rightarrow> 'v \<Rightarrow> 'm \<Rightarrow> 'm"
    and del :: "'k \<Rightarrow> 'm \<Rightarrow> 'm"
    and keys :: "'m \<Rightarrow> 'k list"
    and invar :: "'m \<Rightarrow> bool"
  assumes get_empty: "get empty k = None"
    and get_put: "get (put k v m) k' = (if k' = k then Some v else get m k')"
    and get_del: "get (del k m) k' = (if k' = k then None else get m k')"
    and keys_get: "invar m \<Longrightarrow> set (keys m) = {k. get m k \<noteq> None}"
    and keys_distinct: "invar m \<Longrightarrow> distinct (keys m)"
    and invar_empty: "invar empty"
    and invar_put: "invar m \<Longrightarrow> invar (put k v m)"
    and invar_del: "invar m \<Longrightarrow> invar (del k m)"
begin

lemma length_keys: "invar m \<Longrightarrow> length (keys m) = card {k. get m k \<noteq> None}"
  using keys_get keys_distinct distinct_card by metis

lemma finite_keys: "invar m \<Longrightarrow> finite {k. get m k \<noteq> None}"
  using keys_get by (metis List.finite_set)

lemma length_put: "invar m \<Longrightarrow>
    length (keys (put k v m)) = length (keys m) + (if get m k = None then 1 else 0)"
proof -
  assume inv: "invar m"
  have "{k'. get (put k v m) k' \<noteq> None} = insert k {k'. get m k' \<noteq> None}"
    by (auto simp: get_put)
  with inv finite_keys [OF inv] show ?thesis
    by (simp only: length_keys invar_put) (auto simp: card_insert_if)
qed

lemma length_del: "invar m \<Longrightarrow>
    length (keys (del k m)) = length (keys m) - (if get m k = None then 0 else 1)"
proof -
  assume inv: "invar m"
  have "{k'. get (del k m) k' \<noteq> None} = {k'. get m k' \<noteq> None} - {k}"
    by (auto simp: get_del)
  with inv finite_keys [OF inv] show ?thesis
    by (simp only: length_keys invar_del) (auto simp: card_Diff_singleton_if)
qed

end

text \<open>The model's maps are association lists with distinct keys, in no particular order.\<close>

type_synonym ('k, 'v) gomap = "('k \<times> 'v) list"

definition mget :: "('k, 'v) gomap \<Rightarrow> 'k \<Rightarrow> 'v option" where
  "mget m k = map_of m k"

definition mput :: "'k \<Rightarrow> 'v \<Rightarrow> ('k, 'v) gomap \<Rightarrow> ('k, 'v) gomap" where
  "mput k v m = AList.update k v m"

definition mdel :: "'k \<Rightarrow> ('k, 'v) gomap \<Rightarrow> ('k, 'v) gomap" where
  "mdel k m = AList.delete k m"

definition mkeys :: "('k, 'v) gomap \<Rightarrow> 'k list" where
  "mkeys m = map fst m"

definition wf_map :: "('k, 'v) gomap \<Rightarrow> bool" where
  "wf_map m \<longleftrightarrow> distinct (map fst m)"

interpretation gm: go_map "[]" mget mput mdel mkeys wf_map
  by unfold_locales
    (auto simp: mget_def mput_def mdel_def mkeys_def wf_map_def AList.update_conv'
      AList.delete_conv' AList.distinct_update AList.distinct_delete map_of_eq_None_iff
      not_None_eq [symmetric] simp del: not_None_eq)

lemmas gomap_simps [simp] = gm.get_empty gm.get_put gm.get_del gm.invar_empty gm.invar_put gm.invar_del

lemma length_mkeys [simp]: "length (mkeys m) = length m"
  by (simp add: mkeys_def)

lemma length_mput: "wf_map m \<Longrightarrow> length (mput k v m) = length m + (if mget m k = None then 1 else 0)"
  using gm.length_put [of m k v] by simp

lemma length_mdel: "wf_map m \<Longrightarrow> length (mdel k m) = length m - (if mget m k = None then 0 else 1)"
  using gm.length_del [of m k] by simp

lemma mdel_notin: "mget m k = None \<Longrightarrow> mdel k m = m"
  by (simp add: mget_def mdel_def map_of_eq_None_iff AList.delete_id)

lemma mget_in_set: "mget m k = Some v \<Longrightarrow> (k, v) \<in> set m"
  by (simp add: mget_def map_of_SomeD)

lemma in_set_mget: "wf_map m \<Longrightarrow> (k, v) \<in> set m \<Longrightarrow> mget m k = Some v"
  by (simp add: mget_def wf_map_def)

lemma wf_map_Cons: "wf_map ((k, v) # m) \<longleftrightarrow> mget m k = None \<and> wf_map m"
  by (simp add: wf_map_def mget_def map_of_eq_None_iff)

section \<open>Replaying a log\<close>

text \<open>The state after applying the first entries of a log, and what it takes to undo them.\<close>

definition replay :: "('s \<Rightarrow> 'd \<Rightarrow> 's) \<Rightarrow> 's \<Rightarrow> 'd list \<Rightarrow> 's" where
  "replay app s ds = foldl app s ds"

fun log_ok :: "('s \<Rightarrow> 'd \<Rightarrow> 's) \<Rightarrow> ('s \<Rightarrow> 'd \<Rightarrow> bool) \<Rightarrow> 's \<Rightarrow> 'd list \<Rightarrow> bool" where
  "log_ok app ok s [] \<longleftrightarrow> True"
| "log_ok app ok s (d # ds) \<longleftrightarrow> ok s d \<and> log_ok app ok (app s d) ds"

lemma replay_Nil [simp]: "replay app s [] = s"
  by (simp add: replay_def)

lemma replay_append [simp]: "replay app s (ds @ es) = replay app (replay app s ds) es"
  by (simp add: replay_def)

lemma replay_Cons [simp]: "replay app s (d # ds) = replay app (app s d) ds"
  by (simp add: replay_def)

lemma replay_take_Suc: "i < length ds \<Longrightarrow>
    replay app s (take (Suc i) ds) = app (replay app s (take i ds)) (ds ! i)"
  by (simp add: take_Suc_conv_app_nth)

lemma log_ok_append: "log_ok app ok s (ds @ es) \<longleftrightarrow>
    log_ok app ok s ds \<and> log_ok app ok (replay app s ds) es"
  by (induction ds arbitrary: s) auto

lemma log_ok_nth: "log_ok app ok s ds \<Longrightarrow> i < length ds \<Longrightarrow> ok (replay app s (take i ds)) (ds ! i)"
proof -
  assume "log_ok app ok s ds" and i: "i < length ds"
  then have "log_ok app ok s (take i ds @ ds ! i # drop (Suc i) ds)"
    by (simp add: id_take_nth_drop [symmetric])
  then show ?thesis by (simp add: log_ok_append)
qed

lemma log_ok_take: "log_ok app ok s ds \<Longrightarrow> log_ok app ok s (take n ds)"
  by (metis append_take_drop_id log_ok_append)

text \<open>
  A log whose entries can be undone: undoing an admissible entry restores the state it was
  applied to. Then every prefix of the log can be reached from every other one.
\<close>

locale reversible_log =
  fixes app :: "'s \<Rightarrow> 'd \<Rightarrow> 's"
    and undo :: "'s \<Rightarrow> 'd \<Rightarrow> 's"
    and ok :: "'s \<Rightarrow> 'd \<Rightarrow> bool"
  assumes undo_app: "ok s d \<Longrightarrow> undo (app s d) d = s"
begin

lemma step_forward: "i < length ds \<Longrightarrow>
    app (replay app s (take i ds)) (ds ! i) = replay app s (take (Suc i) ds)"
  by (simp add: replay_take_Suc)

lemma step_back: "log_ok app ok s ds \<Longrightarrow> i < length ds \<Longrightarrow>
    undo (replay app s (take (Suc i) ds)) (ds ! i) = replay app s (take i ds)"
  by (simp add: replay_take_Suc undo_app log_ok_nth)

lemma undo_all: "log_ok app ok s ds \<Longrightarrow> replay undo (replay app s ds) (rev ds) = s"
  by (induction ds arbitrary: s) (auto simp: undo_app)

end

end
