(* ===== verification/TicketPool.thy ===== *)
theory TicketPool
  imports Prelude
begin

text \<open>
  The live ticket pool of \<open>stakedb/ticketpool.go\<close>: a slice of pool diffs, a cursor that points to
  the next diff to apply, the pool map the applied diffs add up to, and the on-disk store of the
  diffs. The first part models the methods of \<open>TicketPool\<close>, the second the byte format of a
  stored diff and the loop that reads the store back, the third proves the methods correct
  against the pool that replaying the first \<open>n\<close> diffs gives.

  The mutex is not modelled: every exported method holds it, so calls are sequential. The badger
  database is the parameter \<open>dbSet\<close> (one write transaction of a key and a value). Log lines are
  left out. The pool map is a set of hashes, \<open>len(tp.pool)\<close> its cardinality.
\<close>

section \<open>Data\<close>

record PoolDiff =
  In :: "Hash list"
  Out :: "Hash list"

record 'db TicketPool =
  cursor :: int
  tip :: int
  diffs :: "PoolDiff list"
  pool :: "Hash set"
  diffDB :: 'db

datatype tp_error =
    DoesNotBuildOn int int
  | CursorAtTip
  | AdvanceSize int int int
  | AdvancePastTip
  | CursorAtGenesis
  | RetreatSize int int
  | InvalidDestination int
  | NotConnected int int
  | StoreFailed string

section \<open>Moving the cursor\<close>

definition applyDiff :: "Hash list \<Rightarrow> Hash list \<Rightarrow> Hash set \<Rightarrow> Hash set" where
  "applyDiff ins outs p = foldl (\<lambda>q h. q - {h}) (foldl (\<lambda>q h. insert h q) p ins) outs"

definition maxCursor :: "'db TicketPool \<Rightarrow> int" where
  "maxCursor tp = (if tip tp = 0 then 0 else tip tp - 1)"

definition advance :: "'db TicketPool \<Rightarrow> 'db TicketPool \<times> tp_error status" where
  "advance tp =
     (if cursor tp > maxCursor tp then (tp, Err CursorAtTip)
      else case idx (diffs tp) (cursor tp) of
        None \<Rightarrow> (tp, Panic)
      | Some diffToNext \<Rightarrow>
          (let initPoolSize = int (card (pool tp));
               expectedFinalSize = initPoolSize + int (length (In diffToNext)) - int (length (Out diffToNext));
               tp' = tp\<lparr>pool := applyDiff (In diffToNext) (Out diffToNext) (pool tp),
                        cursor := cursor tp + 1\<rparr>
           in if int (card (pool tp')) \<noteq> expectedFinalSize
              then (tp', Err (AdvanceSize (int (card (pool tp'))) expectedFinalSize (cursor tp' - 1)))
              else (tp', Ok)))"

definition retreat :: "'db TicketPool \<Rightarrow> 'db TicketPool \<times> tp_error status" where
  "retreat tp =
     (if cursor tp = 0 then (tp, Err CursorAtGenesis)
      else case idx (diffs tp) (cursor tp - 1) of
        None \<Rightarrow> (tp, Panic)
      | Some diffFromPrev \<Rightarrow>
          (let initPoolSize = int (card (pool tp));
               expectedFinalSize = initPoolSize - int (length (In diffFromPrev)) + int (length (Out diffFromPrev));
               tp' = tp\<lparr>pool := applyDiff (Out diffFromPrev) (In diffFromPrev) (pool tp),
                        cursor := cursor tp - 1\<rparr>
           in if int (card (pool tp')) \<noteq> expectedFinalSize
              then (tp', Err (RetreatSize (int (card (pool tp'))) expectedFinalSize))
              else (tp', Ok)))"

lemma advance_Ok_cursor: "advance tp = (tp', Ok) \<Longrightarrow> cursor tp' = cursor tp + 1"
  by (auto simp: advance_def Let_def split: if_splits option.splits)

lemma retreat_Ok_cursor: "retreat tp = (tp', Ok) \<Longrightarrow> cursor tp' = cursor tp - 1"
  by (auto simp: retreat_def Let_def split: if_splits option.splits)

text \<open>The loops \<open>for height > tp.cursor\<close> and \<open>for tp.cursor > height\<close>, which stop at the first error.\<close>

function advance_loop :: "int \<Rightarrow> 'db TicketPool \<Rightarrow> 'db TicketPool \<times> tp_error status" where
  "advance_loop height tp =
     (if height > cursor tp
      then (case advance tp of
              (tp', Ok) \<Rightarrow> advance_loop height tp'
            | (tp', st) \<Rightarrow> (tp', st))
      else (tp, Ok))"
  by pat_completeness auto
termination
  by (relation "measure (\<lambda>(height, tp). nat (height - cursor tp))") (auto dest!: advance_Ok_cursor [OF sym])

function retreat_loop :: "int \<Rightarrow> 'db TicketPool \<Rightarrow> 'db TicketPool \<times> tp_error status" where
  "retreat_loop height tp =
     (if cursor tp > height
      then (case retreat tp of
              (tp', Ok) \<Rightarrow> retreat_loop height tp'
            | (tp', st) \<Rightarrow> (tp', st))
      else (tp, Ok))"
  by pat_completeness auto
termination
  by (relation "measure (\<lambda>(height, tp). nat (cursor tp - height))") (auto dest!: retreat_Ok_cursor [OF sym])

declare advance_loop.simps [simp del] retreat_loop.simps [simp del]

definition advanceTo :: "int \<Rightarrow> 'db TicketPool \<Rightarrow> 'db TicketPool \<times> tp_error status" where
  "advanceTo height tp =
     (if height > tip tp then (tp, Err AdvancePastTip) else advance_loop height tp)"

definition retreatTo :: "int \<Rightarrow> 'db TicketPool \<Rightarrow> 'db TicketPool \<times> tp_error status" where
  "retreatTo height tp =
     (if height < 0 \<or> height > tip tp then (tp, Err (InvalidDestination height))
      else retreat_loop height tp)"

definition AdvanceToTip :: "'db TicketPool \<Rightarrow> 'db TicketPool \<times> int \<times> tp_error status" where
  "AdvanceToTip tp = (case advanceTo (tip tp) tp of (tp', st) \<Rightarrow> (tp', cursor tp', st))"

definition Tip :: "'db TicketPool \<Rightarrow> int" where
  "Tip tp = tip tp"

definition Cursor :: "'db TicketPool \<Rightarrow> int" where
  "Cursor tp = cursor tp"

definition currentPool :: "'db TicketPool \<Rightarrow> Hash set \<times> int" where
  "currentPool tp = (pool tp, cursor tp)"

definition CurrentPool :: "'db TicketPool \<Rightarrow> Hash set \<times> int" where
  "CurrentPool tp = currentPool tp"

definition CurrentPoolSize :: "'db TicketPool \<Rightarrow> nat" where
  "CurrentPoolSize tp = card (pool tp)"

definition Pool :: "int \<Rightarrow> 'db TicketPool \<Rightarrow> 'db TicketPool \<times> (Hash set option \<times> tp_error status)" where
  "Pool height tp =
     (if height > tip tp then (tp, None, Err (NotConnected height (tip tp)))
      else case advance_loop height tp of
        (tp1, Ok) \<Rightarrow>
          (case retreat_loop height tp1 of
             (tp2, Ok) \<Rightarrow> (tp2, Some (fst (currentPool tp2)), Ok)
           | (tp2, st) \<Rightarrow> (tp2, None, st))
      | (tp1, st) \<Rightarrow> (tp1, None, st))"

section \<open>Growing and trimming the log\<close>

definition tp_append :: "PoolDiff \<Rightarrow> 'db TicketPool \<Rightarrow> 'db TicketPool" where
  "tp_append diff tp = tp\<lparr>tip := tip tp + 1, diffs := diffs tp @ [diff]\<rparr>"

text \<open>
  \<open>trim\<close>: an error of \<open>retreatTo\<close> is only logged. Taking the last element of an empty slice
  panics, which the first test rules out.
\<close>

definition trim :: "'db TicketPool \<Rightarrow> 'db TicketPool \<times> (int \<times> PoolDiff) \<times> tp_error status" where
  "trim tp =
     (if tip tp = 0 \<or> diffs tp = [] then (tp, (tip tp, \<lparr>In = [], Out = []\<rparr>), Ok)
      else
        let tp1 = tp\<lparr>tip := tip tp - 1\<rparr>;
            newMaxCursor = maxCursor tp1;
            (tp2, st) = (if cursor tp1 > newMaxCursor then retreatTo newMaxCursor tp1 else (tp1, Ok))
        in case st of
             Panic \<Rightarrow> (tp2, (tip tp2, \<lparr>In = [], Out = []\<rparr>), Panic)
           | _ \<Rightarrow>
             let undo = last (diffs tp2);
                 tp3 = tp2\<lparr>diffs := butlast (diffs tp2)\<rparr>
             in (tp3, (tip tp3, undo), Ok))"

text \<open>\<open>encodeDiff\<close>: the two lengths as big-endian words, each followed by its hashes.\<close>

definition encodeDiff :: "PoolDiff \<Rightarrow> u8 list" where
  "encodeDiff diff =
     put64 (of_nat (length (In diff))) @ concat (In diff) @
     put64 (of_nat (length (Out diff))) @ concat (Out diff)"

type_synonym 'db db_write = "u8 list \<Rightarrow> u8 list \<Rightarrow> 'db \<Rightarrow> string + 'db"

definition storeDiff ::
  "'db db_write \<Rightarrow> PoolDiff \<Rightarrow> int \<Rightarrow> 'db TicketPool \<Rightarrow> 'db TicketPool \<times> tp_error status" where
  "storeDiff dbSet diff height tp =
     (case dbSet (put64 (of_int height)) (encodeDiff diff) (diffDB tp) of
        Inl e \<Rightarrow> (tp, Err (StoreFailed e))
      | Inr db \<Rightarrow> (tp\<lparr>diffDB := db\<rparr>, Ok))"

definition Append ::
  "'db db_write \<Rightarrow> PoolDiff \<Rightarrow> int \<Rightarrow> 'db TicketPool \<Rightarrow> 'db TicketPool \<times> tp_error status" where
  "Append dbSet diff height tp =
     (if height \<noteq> tip tp + 1 then (tp, Err (DoesNotBuildOn height (tip tp)))
      else storeDiff dbSet diff height (tp_append diff tp))"

definition AppendAndAdvancePool ::
  "'db db_write \<Rightarrow> PoolDiff \<Rightarrow> int \<Rightarrow> 'db TicketPool \<Rightarrow> 'db TicketPool \<times> tp_error status" where
  "AppendAndAdvancePool dbSet diff height tp =
     (if height \<noteq> tip tp + 1 then (tp, Err (DoesNotBuildOn height (tip tp)))
      else case storeDiff dbSet diff height (tp_append diff tp) of
             (tp', Ok) \<Rightarrow> advance tp'
           | (tp', st) \<Rightarrow> (tp', st))"

text \<open>The pool that \<open>NewTicketPool\<close> constructs from the diffs it has loaded.\<close>

definition NewTicketPool :: "PoolDiff list \<Rightarrow> 'db \<Rightarrow> 'db TicketPool" where
  "NewTicketPool poolDiffs db =
     \<lparr>cursor = 0, tip = int (length poolDiffs), diffs = poolDiffs, pool = {}, diffDB = db\<rparr>"

section \<open>The replayed pool and the invariant\<close>

text \<open>A diff as a function on pools, its inverse, and the condition under which a block makes it.\<close>

definition apply_diff :: "Hash set \<Rightarrow> PoolDiff \<Rightarrow> Hash set" where
  "apply_diff p d = applyDiff (In d) (Out d) p"

definition unapply_diff :: "Hash set \<Rightarrow> PoolDiff \<Rightarrow> Hash set" where
  "unapply_diff p d = applyDiff (Out d) (In d) p"

definition diff_ok :: "Hash set \<Rightarrow> PoolDiff \<Rightarrow> bool" where
  "diff_ok p d \<longleftrightarrow> finite p \<and> distinct (In d) \<and> distinct (Out d) \<and>
     set (In d) \<inter> p = {} \<and> set (Out d) \<subseteq> p \<union> set (In d)"

definition pool_at :: "PoolDiff list \<Rightarrow> nat \<Rightarrow> Hash set" where
  "pool_at ds n = replay apply_diff {} (take n ds)"

definition diffs_ok :: "PoolDiff list \<Rightarrow> bool" where
  "diffs_ok ds \<longleftrightarrow> log_ok apply_diff diff_ok {} ds"

definition tp_inv :: "'db TicketPool \<Rightarrow> bool" where
  "tp_inv tp \<longleftrightarrow> tip tp = int (length (diffs tp)) \<and> 0 \<le> cursor tp \<and> cursor tp \<le> tip tp \<and>
     diffs_ok (diffs tp) \<and> pool tp = pool_at (diffs tp) (nat (cursor tp))"

lemma applyDiff_eq: "applyDiff ins outs p = (p \<union> set ins) - set outs"
proof -
  have *: "foldl (\<lambda>q h. insert h q) p ins = p \<union> set ins" for p :: "Hash set"
    by (induction ins arbitrary: p) auto
  have "foldl (\<lambda>q h. q - {h}) q outs = q - set outs" for q :: "Hash set"
    by (induction outs arbitrary: q) auto
  with * show ?thesis by (simp add: applyDiff_def)
qed

lemma finite_apply_diff: "finite p \<Longrightarrow> finite (apply_diff p d)"
  by (simp add: apply_diff_def applyDiff_eq)

lemma finite_pool_at: "finite (pool_at ds n)"
proof -
  have "finite p \<Longrightarrow> finite (replay apply_diff p es)" for p es
    by (induction es arbitrary: p) (auto simp: finite_apply_diff)
  then show ?thesis by (simp add: pool_at_def)
qed

interpretation tp_log: reversible_log apply_diff unapply_diff diff_ok
  by unfold_locales (auto simp: apply_diff_def unapply_diff_def diff_ok_def applyDiff_eq)

text \<open>The size test of \<open>advance\<close> and of \<open>retreat\<close> passes for a diff that a block can make.\<close>

lemma card_apply_diff:
  assumes "diff_ok p d"
  shows "int (card (apply_diff p d)) = int (card p) + int (length (In d)) - int (length (Out d))"
proof -
  from assms have "finite p" "set (In d) \<inter> p = {}" "set (Out d) \<subseteq> p \<union> set (In d)"
    and c: "card (set (In d)) = length (In d)" "card (set (Out d)) = length (Out d)"
    by (auto simp: diff_ok_def distinct_card)
  then have "card (p \<union> set (In d)) = card p + length (In d)"
    and "card ((p \<union> set (In d)) - set (Out d)) = card (p \<union> set (In d)) - length (Out d)"
    and "length (Out d) \<le> card (p \<union> set (In d))"
    using card_mono [of "p \<union> set (In d)" "set (Out d)"]
    by (auto simp: card_Un_disjoint card_Diff_subset Int_commute)
  then show ?thesis by (simp add: apply_diff_def applyDiff_eq)
qed

lemma tp_invD:
  assumes "tp_inv tp"
  shows "tip tp = int (length (diffs tp))" "0 \<le> cursor tp" "cursor tp \<le> tip tp"
    "diffs_ok (diffs tp)" "pool tp = pool_at (diffs tp) (nat (cursor tp))"
  using assms by (simp_all add: tp_inv_def)

lemma pool_at_Suc: "i < length ds \<Longrightarrow> pool_at ds (Suc i) = apply_diff (pool_at ds i) (ds ! i)"
  by (simp add: pool_at_def replay_take_Suc)

lemma diffs_ok_nth: "diffs_ok ds \<Longrightarrow> i < length ds \<Longrightarrow> diff_ok (pool_at ds i) (ds ! i)"
  by (simp add: diffs_ok_def pool_at_def log_ok_nth)

lemma pool_at_back: "diffs_ok ds \<Longrightarrow> i < length ds \<Longrightarrow>
    unapply_diff (pool_at ds (Suc i)) (ds ! i) = pool_at ds i"
  unfolding diffs_ok_def pool_at_def by (rule tp_log.step_back)

section \<open>The methods against the replayed pool\<close>

text \<open>The state in which the cursor is at a given height and the pool is the one of that height.\<close>

definition at_height :: "int \<Rightarrow> 'db TicketPool \<Rightarrow> 'db TicketPool" where
  "at_height h tp = tp\<lparr>pool := pool_at (diffs tp) (nat h), cursor := h\<rparr>"

lemma at_height_simps [simp]:
  "cursor (at_height h tp) = h" "tip (at_height h tp) = tip tp" "diffs (at_height h tp) = diffs tp"
  "pool (at_height h tp) = pool_at (diffs tp) (nat h)" "diffDB (at_height h tp) = diffDB tp"
  "at_height h (at_height h' tp) = at_height h tp"
  by (simp_all add: at_height_def)

lemma at_height_self: "tp_inv tp \<Longrightarrow> at_height (cursor tp) tp = tp"
  by (simp add: at_height_def tp_inv_def)

lemma tp_inv_at_height: "tp_inv tp \<Longrightarrow> 0 \<le> h \<Longrightarrow> h \<le> tip tp \<Longrightarrow> tp_inv (at_height h tp)"
  by (simp add: tp_inv_def)

lemma advance_step:
  assumes inv: "tp_inv tp" and c: "cursor tp < tip tp"
  shows "advance tp = (at_height (cursor tp + 1) tp, Ok)"
proof -
  note i = tp_invD [OF inv]
  let ?n = "nat (cursor tp)"
  have n: "?n < length (diffs tp)" "cursor tp = int ?n" "nat (cursor tp + 1) = Suc ?n"
    using i c by simp_all
  then have idx: "idx (diffs tp) (cursor tp) = Some (diffs tp ! ?n)" by (metis idx_nat)
  have d: "applyDiff (In (diffs tp ! ?n)) (Out (diffs tp ! ?n)) (pool tp) = pool_at (diffs tp) (Suc ?n)"
    using n(1) i(5) by (simp add: pool_at_Suc apply_diff_def)
  have s: "int (card (pool_at (diffs tp) (Suc ?n))) = int (card (pool tp))
      + int (length (In (diffs tp ! ?n))) - int (length (Out (diffs tp ! ?n)))"
    using card_apply_diff [OF diffs_ok_nth [OF i(4) n(1)]] i(5) by (simp only: pool_at_Suc n(1))
  have "\<not> maxCursor tp < cursor tp" using i(1,2) c by (auto simp: maxCursor_def)
  then show ?thesis using idx d s n(3) by (simp add: advance_def Let_def at_height_def)
qed

lemma retreat_step:
  assumes inv: "tp_inv tp" and c: "0 < cursor tp"
  shows "retreat tp = (at_height (cursor tp - 1) tp, Ok)"
proof -
  note i = tp_invD [OF inv]
  let ?n = "nat (cursor tp - 1)"
  have n: "?n < length (diffs tp)" "cursor tp - 1 = int ?n" "nat (cursor tp) = Suc ?n"
    using i c by simp_all
  then have idx: "idx (diffs tp) (cursor tp - 1) = Some (diffs tp ! ?n)" by (metis idx_nat)
  have d: "applyDiff (Out (diffs tp ! ?n)) (In (diffs tp ! ?n)) (pool tp) = pool_at (diffs tp) ?n"
    using pool_at_back [OF i(4) n(1)] by (simp only: unapply_diff_def i(5) n(3))
  have s: "int (card (pool_at (diffs tp) ?n)) = int (card (pool tp))
      - int (length (In (diffs tp ! ?n))) + int (length (Out (diffs tp ! ?n)))"
    using card_apply_diff [OF diffs_ok_nth [OF i(4) n(1)]] by (simp add: i(5) n(3) pool_at_Suc n(1))
  show ?thesis using idx d s c by (simp add: retreat_def Let_def at_height_def)
qed

lemma advance_loop_eq: "tp_inv tp \<Longrightarrow> h \<le> tip tp \<Longrightarrow>
    advance_loop h tp = (at_height (max h (cursor tp)) tp, Ok)"
proof (induction h tp rule: advance_loop.induct)
  case (1 h tp)
  show ?case
  proof (cases "h > cursor tp")
    case True
    let ?tp = "at_height (cursor tp + 1) tp"
    have step: "advance tp = (?tp, Ok)" using 1 True by (simp add: advance_step)
    have "tp_inv ?tp" using 1 True by (auto intro!: tp_inv_at_height simp: tp_invD(2))
    then have "advance_loop h ?tp = (at_height (max h (cursor tp + 1)) tp, Ok)"
      using "1.IH" [OF True step [symmetric]] 1 by simp
    moreover have "max h (cursor tp + 1) = max h (cursor tp)" using True by simp
    ultimately show ?thesis using True step by (simp add: advance_loop.simps [of h tp])
  next
    case False
    with 1 show ?thesis by (simp add: advance_loop.simps [of h tp] at_height_self max_def)
  qed
qed

lemma retreat_loop_eq: "tp_inv tp \<Longrightarrow> 0 \<le> h \<Longrightarrow>
    retreat_loop h tp = (at_height (min h (cursor tp)) tp, Ok)"
proof (induction h tp rule: retreat_loop.induct)
  case (1 h tp)
  show ?case
  proof (cases "cursor tp > h")
    case True
    let ?tp = "at_height (cursor tp - 1) tp"
    have step: "retreat tp = (?tp, Ok)" using 1 True by (simp add: retreat_step)
    have "tp_inv ?tp" using 1 True tp_invD(3) [of tp] by (auto intro!: tp_inv_at_height)
    then have "retreat_loop h ?tp = (at_height (min h (cursor tp - 1)) tp, Ok)"
      using "1.IH" [OF True step [symmetric]] 1 by simp
    moreover have "min h (cursor tp - 1) = min h (cursor tp)" using True by simp
    ultimately show ?thesis using True step by (simp add: retreat_loop.simps [of h tp])
  next
    case False
    with 1 show ?thesis by (simp add: retreat_loop.simps [of h tp] at_height_self min_def)
  qed
qed

lemma retreat_loop_negative: "tp_inv tp \<Longrightarrow> h < 0 \<Longrightarrow>
    retreat_loop h tp = (at_height 0 tp, Err CursorAtGenesis)"
proof (induction h tp rule: retreat_loop.induct)
  case (1 h tp)
  have c: "h < cursor tp" using 1 tp_invD(2) [of tp] by simp
  show ?case
  proof (cases "cursor tp = 0")
    case True
    then have "retreat tp = (tp, Err CursorAtGenesis)" by (simp add: retreat_def)
    with c have "retreat_loop h tp = (tp, Err CursorAtGenesis)"
      by (subst retreat_loop.simps) simp
    moreover have "at_height 0 tp = tp" using at_height_self [OF "1.prems"(1)] by (simp only: True)
    ultimately show ?thesis by simp
  next
    case False
    let ?tp = "at_height (cursor tp - 1) tp"
    have pos: "0 < cursor tp" using False 1 tp_invD(2) [of tp] by simp
    have step: "retreat tp = (?tp, Ok)" using 1 pos by (simp add: retreat_step)
    have "tp_inv ?tp" using 1 pos tp_invD(3) [of tp] by (auto intro!: tp_inv_at_height)
    then show ?thesis
      using "1.IH" [OF c step [symmetric]] 1 c step by (simp add: retreat_loop.simps [of h tp])
  qed
qed

lemma AdvanceToTip_eq: "tp_inv tp \<Longrightarrow> AdvanceToTip tp = (at_height (tip tp) tp, tip tp, Ok)"
  using tp_invD(3) [of tp] by (simp add: AdvanceToTip_def advanceTo_def advance_loop_eq max_def)

lemma Pool_eq:
  assumes "tp_inv tp" and "0 \<le> h" and "h \<le> tip tp"
  shows "Pool h tp = (at_height h tp, Some (pool_at (diffs tp) (nat h)), Ok)"
proof -
  let ?m = "max h (cursor tp)"
  have "tp_inv (at_height ?m tp)"
    using assms tp_invD(2,3) [of tp] by (auto intro!: tp_inv_at_height)
  then show ?thesis
    using assms by (simp add: Pool_def advance_loop_eq retreat_loop_eq currentPool_def)
qed

lemma Pool_negative: "tp_inv tp \<Longrightarrow> h < 0 \<Longrightarrow> Pool h tp = (at_height 0 tp, None, Err CursorAtGenesis)"
  using tp_invD(2,3) [of tp] advance_loop_eq [of tp h] retreat_loop_negative [of tp h]
  by (simp add: Pool_def max_absorb2 at_height_self)

lemma Pool_beyond: "tip tp < h \<Longrightarrow> Pool h tp = (tp, None, Err (NotConnected h (tip tp)))"
  by (simp add: Pool_def)

subsection \<open>Append and trim\<close>

lemma pool_at_append: "n \<le> length ds \<Longrightarrow> pool_at (ds @ es) n = pool_at ds n"
  by (simp add: pool_at_def)

lemma pool_at_butlast: "n < length ds \<Longrightarrow> pool_at (butlast ds) n = pool_at ds n"
  by (simp add: pool_at_def take_butlast)

lemma diffs_ok_snoc: "diffs_ok (ds @ [d]) \<longleftrightarrow> diffs_ok ds \<and> diff_ok (pool_at ds (length ds)) d"
  by (simp add: diffs_ok_def log_ok_append pool_at_def)

lemma diffs_ok_butlast: "diffs_ok ds \<Longrightarrow> diffs_ok (butlast ds)"
  by (simp add: diffs_ok_def log_ok_take butlast_conv_take)

text \<open>What a diff must satisfy to be appended: it can be made by a block on top of the tip.\<close>

definition diff_fits :: "'db TicketPool \<Rightarrow> PoolDiff \<Rightarrow> bool" where
  "diff_fits tp d \<longleftrightarrow> diff_ok (pool_at (diffs tp) (length (diffs tp))) d"

lemma tp_append_inv: "tp_inv tp \<Longrightarrow> diff_fits tp d \<Longrightarrow> tp_inv (tp_append d tp)"
  by (simp add: tp_inv_def tp_append_def diff_fits_def diffs_ok_snoc pool_at_append nat_le_iff)

lemma tp_inv_diffDB [simp]: "tp_inv (tp\<lparr>diffDB := db\<rparr>) \<longleftrightarrow> tp_inv tp"
  by (simp add: tp_inv_def)

lemma storeDiff_inv: "tp_inv tp \<Longrightarrow> storeDiff dbSet d h tp = (tp', st) \<Longrightarrow> tp_inv tp'"
  by (auto simp: storeDiff_def split: sum.splits)

lemma Append_inv: "tp_inv tp \<Longrightarrow> diff_fits tp d \<Longrightarrow> Append dbSet d h tp = (tp', st) \<Longrightarrow> tp_inv tp'"
  by (auto simp: Append_def split: if_splits intro: storeDiff_inv tp_append_inv)

lemma advance_inv: "tp_inv tp \<Longrightarrow> advance tp = (tp', st) \<Longrightarrow> tp_inv tp'"
proof (cases "cursor tp < tip tp")
  case True
  assume "tp_inv tp" and "advance tp = (tp', st)"
  with True show ?thesis
    using tp_invD(2) [of tp] by (auto simp: advance_step intro!: tp_inv_at_height)
next
  case False
  assume inv: "tp_inv tp" and adv: "advance tp = (tp', st)"
  note i = tp_invD [OF inv]
  have "idx (diffs tp) (cursor tp) = None" using False i by (simp add: idx_None_iff)
  with adv have "tp' = tp" by (simp add: advance_def split: if_splits)
  with inv show ?thesis by simp
qed

lemma AppendAndAdvancePool_inv: "tp_inv tp \<Longrightarrow> diff_fits tp d \<Longrightarrow>
    AppendAndAdvancePool dbSet d h tp = (tp', st) \<Longrightarrow> tp_inv tp'"
  using storeDiff_inv [OF tp_append_inv, of tp d dbSet d h] advance_inv
  by (auto simp: AppendAndAdvancePool_def split: if_splits prod.splits status.splits)

lemma Pool_inv: "tp_inv tp \<Longrightarrow> Pool h tp = (tp', r) \<Longrightarrow> tp_inv tp'"
  using Pool_eq [of tp h] Pool_negative [of tp h] Pool_beyond [of tp h] tp_invD(2,3) [of tp]
  by (cases "h < 0"; cases "tip tp < h") (auto intro!: tp_inv_at_height)

lemma AdvanceToTip_inv: "tp_inv tp \<Longrightarrow> AdvanceToTip tp = (tp', r) \<Longrightarrow> tp_inv tp'"
  using tp_invD(2,3) [of tp] by (auto simp: AdvanceToTip_eq intro!: tp_inv_at_height)

lemma NewTicketPool_inv: "diffs_ok ds \<Longrightarrow> tp_inv (NewTicketPool ds db)"
  by (simp add: NewTicketPool_def tp_inv_def pool_at_def)

text \<open>
  The whole effect of \<open>trim\<close>: the last diff is removed and returned, and the cursor moves back to
  the largest index into the remaining slice if it is beyond it.
\<close>

definition trimmed :: "'db TicketPool \<Rightarrow> 'db TicketPool" where
  "trimmed tp = (let c = min (cursor tp) (max 0 (tip tp - 2)) in
     tp\<lparr>pool := pool_at (diffs tp) (nat c), cursor := c, tip := tip tp - 1, diffs := butlast (diffs tp)\<rparr>)"

lemma retreat_loop_tip: "cursor tp - h < int n \<Longrightarrow>
    retreat_loop h (tp\<lparr>tip := t\<rparr>) = (case retreat_loop h tp of (tp', st) \<Rightarrow> (tp'\<lparr>tip := t\<rparr>, st))"
proof (induction n arbitrary: tp)
  case (Suc n)
  have r: "retreat (tp\<lparr>tip := t\<rparr>) = (case retreat tp of (tp', st) \<Rightarrow> (tp'\<lparr>tip := t\<rparr>, st))"
    by (auto simp: retreat_def Let_def split: option.splits)
  show ?case
  proof (cases "retreat tp")
    case (Pair tp' st)
    then show ?thesis
      using r Suc.IH [of tp'] Suc.prems retreat_Ok_cursor [of tp tp']
      by (cases st) (auto simp: retreat_loop.simps [of h tp] retreat_loop.simps [of h "tp\<lparr>tip := t\<rparr>"])
  qed
qed (simp add: retreat_loop.simps)

lemma trim_eq:
  assumes inv: "tp_inv tp" and t: "0 < tip tp"
  shows "trim tp = (trimmed tp, (tip tp - 1, last (diffs tp)), Ok)"
proof -
  note i = tp_invD [OF inv]
  have ne: "diffs tp \<noteq> []" "tip tp \<noteq> 0" using i t by auto
  let ?m = "maxCursor (tp\<lparr>tip := tip tp - 1\<rparr>)"
  have m: "?m = max 0 (tip tp - 2)" using t by (auto simp: maxCursor_def max_def)
  have bound: "0 \<le> ?m" "?m \<le> tip tp - 1" using t m by auto
  show ?thesis
  proof (cases "cursor tp > ?m")
    case True
    have "retreat_loop ?m (tp\<lparr>tip := tip tp - 1\<rparr>)
        = (at_height (min ?m (cursor tp)) tp\<lparr>tip := tip tp - 1\<rparr>, Ok)"
      using retreat_loop_tip [of tp ?m "Suc (nat (cursor tp - ?m))"] retreat_loop_eq [OF inv bound(1)]
        True by simp
    then show ?thesis
      using True ne bound(2) m
      by (simp add: trim_def trimmed_def retreatTo_def Let_def at_height_def min_absorb1 min_absorb2)
  next
    case False
    then have c: "min (cursor tp) (max 0 (tip tp - 2)) = cursor tp" using m i(2) by auto
    have "trimmed tp = (at_height (cursor tp) tp)\<lparr>tip := tip tp - 1, diffs := butlast (diffs tp)\<rparr>"
      unfolding trimmed_def Let_def c by (simp add: at_height_def)
    then show ?thesis
      using False ne at_height_self [OF inv] by (simp add: trim_def Let_def)
  qed
qed

lemma trim_empty: "tip tp = 0 \<Longrightarrow> trim tp = (tp, (0, \<lparr>In = [], Out = []\<rparr>), Ok)"
  by (simp add: trim_def)

lemma trimmed_inv:
  assumes inv: "tp_inv tp" and t: "0 < tip tp"
  shows "tp_inv (trimmed tp)"
proof -
  note i = tp_invD [OF inv]
  define c where "c = min (cursor tp) (max 0 (tip tp - 2))"
  have c: "0 \<le> c" "c \<le> tip tp - 1"
    using i(2,3) t unfolding c_def by linarith+
  then have p: "pool_at (butlast (diffs tp)) (nat c) = pool_at (diffs tp) (nat c)"
    using i(1) t by (intro pool_at_butlast) simp
  have l: "int (length (butlast (diffs tp))) = tip tp - 1"
    using i(1) t by (cases "diffs tp") auto
  have "trimmed tp = tp\<lparr>pool := pool_at (diffs tp) (nat c), cursor := c, tip := tip tp - 1,
      diffs := butlast (diffs tp)\<rparr>"
    by (simp add: trimmed_def Let_def c_def)
  then show ?thesis
    using c l p diffs_ok_butlast [OF i(4)] by (simp add: tp_inv_def)
qed

lemma trim_inv: "tp_inv tp \<Longrightarrow> trim tp = (tp', r) \<Longrightarrow> tp_inv tp'"
  using tp_invD(1) [of tp] by (cases "tip tp = 0") (auto simp: trim_empty trim_eq trimmed_inv)

section \<open>Reachable pools\<close>

text \<open>
  The steps a client can make. A diff is appended either at a height that does not build on the
  tip, which is refused, or with a diff that a block on top of the tip can make.
\<close>

inductive tp_step :: "'db db_write \<Rightarrow> 'db TicketPool \<Rightarrow> 'db TicketPool \<Rightarrow> bool" for dbSet where
  step_append: "diff_fits tp d \<or> h \<noteq> tip tp + 1 \<Longrightarrow> Append dbSet d h tp = (tp', st) \<Longrightarrow>
    tp_step dbSet tp tp'"
| step_append_advance: "diff_fits tp d \<or> h \<noteq> tip tp + 1 \<Longrightarrow>
    AppendAndAdvancePool dbSet d h tp = (tp', st) \<Longrightarrow> tp_step dbSet tp tp'"
| step_trim: "trim tp = (tp', r) \<Longrightarrow> tp_step dbSet tp tp'"
| step_pool: "Pool h tp = (tp', r') \<Longrightarrow> tp_step dbSet tp tp'"
| step_tip: "AdvanceToTip tp = (tp', r'') \<Longrightarrow> tp_step dbSet tp tp'"

inductive tp_reachable :: "'db db_write \<Rightarrow> 'db TicketPool \<Rightarrow> bool" for dbSet where
  loaded: "diffs_ok ds \<Longrightarrow> tp_reachable dbSet (NewTicketPool ds db)"
| stepped: "tp_reachable dbSet tp \<Longrightarrow> tp_step dbSet tp tp' \<Longrightarrow> tp_reachable dbSet tp'"

lemma Append_refused: "h \<noteq> tip tp + 1 \<Longrightarrow> Append dbSet d h tp = (tp, Err (DoesNotBuildOn h (tip tp)))"
  by (simp add: Append_def)

lemma AppendAndAdvancePool_refused: "h \<noteq> tip tp + 1 \<Longrightarrow>
    AppendAndAdvancePool dbSet d h tp = (tp, Err (DoesNotBuildOn h (tip tp)))"
  by (simp add: AppendAndAdvancePool_def)

lemma tp_step_inv: "tp_step dbSet tp tp' \<Longrightarrow> tp_inv tp \<Longrightarrow> tp_inv tp'"
proof (induction rule: tp_step.induct)
  case (step_append tp d h tp' st)
  then show ?case by (cases "h = tip tp + 1") (auto simp: Append_refused intro: Append_inv)
next
  case (step_append_advance tp d h tp' st)
  then show ?case
    by (cases "h = tip tp + 1") (auto simp: AppendAndAdvancePool_refused intro: AppendAndAdvancePool_inv)
qed (auto intro: trim_inv Pool_inv AdvanceToTip_inv)

lemma tp_reachable_inv: "tp_reachable dbSet tp \<Longrightarrow> tp_inv tp"
  by (induction rule: tp_reachable.induct) (auto intro: NewTicketPool_inv tp_step_inv)

section \<open>Properties\<close>

text \<open>A small log for the witnesses: two tickets enter, one leaves as a third enters.\<close>

definition ticket :: "nat \<Rightarrow> Hash" where
  "ticket n = replicate 32 (of_nat n)"

definition demo_diffs :: "PoolDiff list" where
  "demo_diffs = [\<lparr>In = [ticket 1, ticket 2], Out = []\<rparr>, \<lparr>In = [ticket 3], Out = [ticket 1]\<rparr>]"

lemma ticket_distinct [simp]: "ticket 1 \<noteq> ticket 2" "ticket 1 \<noteq> ticket 3" "ticket 2 \<noteq> ticket 3"
  "ticket 2 \<noteq> ticket 1" "ticket 3 \<noteq> ticket 1" "ticket 3 \<noteq> ticket 2"
  "ticket (Suc 0) \<noteq> ticket 2" "ticket (Suc 0) \<noteq> ticket 3" "ticket 2 \<noteq> ticket (Suc 0)"
  "ticket 3 \<noteq> ticket (Suc 0)"
  by (simp_all add: ticket_def)

lemma demo_diffs_ok: "diffs_ok demo_diffs"
  by (simp add: diffs_ok_def demo_diffs_def diff_ok_def apply_diff_def applyDiff_eq)

text \<open>
  C1. In every state that the exported methods can reach, asking for the pool at a height between
  0 and the tip succeeds, returns exactly the tickets that replaying the first diffs up to that
  height gives, wherever the cursor was before, leaves the cursor at that height, and changes
  neither the diffs nor the tip.
\<close>

theorem Pool_correct:
  assumes "tp_reachable dbSet tp" and "0 \<le> h" and "h \<le> tip tp"
  shows "Pool h tp = (tp\<lparr>pool := pool_at (diffs tp) (nat h), cursor := h\<rparr>,
    Some (pool_at (diffs tp) (nat h)), Ok)"
  using Pool_eq [OF tp_reachable_inv [OF assms(1)] assms(2,3)] by (simp add: at_height_def)

lemma Pool_correct_witness:
  "fst (snd (Pool 2 (NewTicketPool demo_diffs ()))) = Some {ticket 2, ticket 3}"
proof -
  have r: "tp_reachable (\<lambda>k v. Inr) (NewTicketPool demo_diffs ())"
    by (rule tp_reachable.loaded) (rule demo_diffs_ok)
  show ?thesis
    using Pool_correct [OF r, of 2]
    by (auto simp: NewTicketPool_def pool_at_def demo_diffs_def apply_diff_def applyDiff_eq)
qed

text \<open>
  The state of a pool stays consistent under every sequence of exported calls, failed ones
  included: the tip is the number of diffs, the cursor lies between 0 and the tip, the log is
  well formed and the pool map is the replay of the diffs before the cursor.
\<close>

theorem reachable_consistent:
  assumes "tp_reachable dbSet tp"
  shows "tip tp = int (length (diffs tp)) \<and> 0 \<le> cursor tp \<and> cursor tp \<le> tip tp \<and>
    diffs_ok (diffs tp) \<and> pool tp = pool_at (diffs tp) (nat (cursor tp))"
  using tp_reachable_inv [OF assms] by (simp add: tp_inv_def)

lemma reachable_consistent_witness:
  "\<exists>tp :: unit TicketPool. tp_reachable (\<lambda>k v. Inr) tp \<and> cursor tp = 2 \<and> pool tp = pool_at demo_diffs 2"
proof -
  let ?new = "NewTicketPool demo_diffs ()"
  have r0: "tp_reachable (\<lambda>k v. Inr) ?new"
    by (rule tp_reachable.loaded) (rule demo_diffs_ok)
  obtain tp c st where adv: "AdvanceToTip ?new = (tp, c, st)" by (cases "AdvanceToTip ?new")
  then have "tp_reachable (\<lambda>k v. Inr) tp"
    using r0 tp_reachable.stepped tp_step.step_tip by metis
  moreover from adv have "cursor tp = 2" "diffs tp = demo_diffs"
    using AdvanceToTip_eq [OF tp_reachable_inv [OF r0]]
    by (auto simp: NewTicketPool_def demo_diffs_def)
  ultimately show ?thesis using reachable_consistent [of "\<lambda>k v. Inr" tp] by auto
qed

text \<open>
  Removing the end diff in a reachable, non-empty pool returns that diff and the new tip, never
  reports an error, keeps the other diffs, and moves the cursor to the last index of the slice that
  remains if it was beyond it, with the pool map of that height. So a pool at its tip is left one
  diff short of the new tip.
\<close>

theorem trim_correct:
  assumes "tp_reachable dbSet tp" and "0 < tip tp"
  shows "\<exists>tp'. trim tp = (tp', (tip tp - 1, last (diffs tp)), Ok) \<and>
    diffs tp' = butlast (diffs tp) \<and> tip tp' = tip tp - 1 \<and>
    cursor tp' = min (cursor tp) (max 0 (tip tp' - 1)) \<and>
    pool tp' = pool_at (diffs tp') (nat (cursor tp'))"
proof -
  have inv: "tp_inv tp" using assms(1) by (rule tp_reachable_inv)
  then have "pool (trimmed tp) = pool_at (diffs (trimmed tp)) (nat (cursor (trimmed tp)))"
    using trimmed_inv [OF _ assms(2)] by (simp add: tp_inv_def)
  then show ?thesis
    using trim_eq [OF inv assms(2)] by (simp add: trimmed_def Let_def)
qed

lemma trim_correct_witness:
  "\<exists>tp'. trim (NewTicketPool demo_diffs ()) = (tp', (1, \<lparr>In = [ticket 3], Out = [ticket 1]\<rparr>), Ok)"
proof -
  have r: "tp_reachable (\<lambda>k v. Inr) (NewTicketPool demo_diffs ())"
    by (rule tp_reachable.loaded) (rule demo_diffs_ok)
  show ?thesis using trim_correct [OF r] by (auto simp: NewTicketPool_def demo_diffs_def)
qed

text \<open>
  A diff appended at the height after the tip and trimmed again is returned unchanged, and the
  diffs and the tip are what they were before.
\<close>

theorem append_trim_roundtrip:
  assumes "tp_reachable dbSet tp" and "diff_fits tp d" and "Append dbSet d (tip tp + 1) tp = (tp1, Ok)"
  shows "\<exists>tp2. trim tp1 = (tp2, (tip tp, d), Ok) \<and> diffs tp2 = diffs tp \<and> tip tp2 = tip tp"
proof -
  have inv: "tp_inv tp" using assms(1) by (rule tp_reachable_inv)
  have 1: "diffs tp1 = diffs tp @ [d]" "tip tp1 = tip tp + 1"
    using assms(3) by (auto simp: Append_def storeDiff_def tp_append_def split: sum.splits)
  have "tp_inv tp1" using Append_inv [OF inv assms(2,3)] .
  moreover have "0 < tip tp1" using 1 tp_invD(2,3) [OF inv] by simp
  ultimately show ?thesis using trim_eq [of tp1] 1 by (simp add: trimmed_def Let_def)
qed

lemma append_trim_roundtrip_witness:
  "\<exists>tp1 tp2. Append (\<lambda>k v. Inr) (hd demo_diffs) 1 (NewTicketPool [] ()) = (tp1, Ok) \<and>
     trim tp1 = (tp2, (0, hd demo_diffs), Ok) \<and> diffs tp2 = []"
proof -
  let ?new = "NewTicketPool [] ()"
  have r: "tp_reachable (\<lambda>k v. Inr) ?new"
    by (rule tp_reachable.loaded) (simp add: diffs_ok_def)
  have f: "diff_fits ?new (hd demo_diffs)"
    by (simp add: diff_fits_def NewTicketPool_def pool_at_def diff_ok_def demo_diffs_def)
  obtain tp1 where a: "Append (\<lambda>k v. Inr) (hd demo_diffs) 1 ?new = (tp1, Ok)"
    by (simp add: Append_def storeDiff_def NewTicketPool_def)
  moreover have "tip ?new = 0" by (simp add: NewTicketPool_def)
  ultimately show ?thesis
    using append_trim_roundtrip [OF r f] by (auto simp: NewTicketPool_def)
qed

end
