(* ===== verification/PoolStore.thy ===== *)
theory PoolStore
  imports TicketPool
begin

text \<open>
  The on-disk form of the pool diffs (\<open>stakedb/ticketpool.go\<close>): \<open>encodeDiff\<close> writes a diff as
  bytes, \<open>loadAllPoolDiffsV1\<close> iterates over the database in key order and reads every diff back.
  The iterator of the badger database is the list of the items it yields; an item whose value
  cannot be fetched has the value \<open>None\<close>. The reader of \<open>bytes\<close> is the list of the bytes that
  are still to be read: past the end it is empty, \<open>Read\<close> then reports EOF, and \<open>Len\<close> is 0.
\<close>

section \<open>Reading\<close>

datatype load_error =
    ValueFetch
  | InLenEOF | InLenShort nat
  | OutLenNegativeOffset | OutLenEOF
  | InHashEOF | InHashShort nat
  | OutHashEOF | OutHashShort nat
  | Remaining nat

text \<open>
  \<open>make([]chainhash.Hash, n)\<close> panics when the slice does not fit the address space of the
  runtime, which is 48 bits on the 64-bit platforms.
\<close>

definition maxHashes :: nat where
  "maxHashes = 2 ^ 48 div 32"

text \<open>\<open>hashReader.Read\<close> into a hash: EOF at the end, a short read before it.\<close>

definition readHash :: "load_error \<Rightarrow> (nat \<Rightarrow> load_error) \<Rightarrow> u8 list \<Rightarrow> load_error + Hash \<times> u8 list" where
  "readHash eof short r =
     (if r = [] then Inl eof
      else if min HashSize (length r) \<noteq> HashSize then Inl (short (length r))
      else Inr (take HashSize r, drop HashSize r))"

fun readHashes ::
  "load_error \<Rightarrow> (nat \<Rightarrow> load_error) \<Rightarrow> nat \<Rightarrow> u8 list \<Rightarrow> load_error + Hash list \<times> u8 list" where
  "readHashes eof short 0 r = Inr ([], r)"
| "readHashes eof short (Suc n) r =
     (case readHash eof short r of
        Inl e \<Rightarrow> Inl e
      | Inr (h, r') \<Rightarrow>
          (case readHashes eof short n r' of
             Inl e \<Rightarrow> Inl e
           | Inr (hs, r'') \<Rightarrow> Inr (h # hs, r'')))"

text \<open>\<open>hashReader.ReadAt\<close> of eight bytes at a signed 64-bit offset.\<close>

definition readAt8 :: "u8 list \<Rightarrow> u64 \<Rightarrow> load_error + u8 list" where
  "readAt8 v off =
     (if sint off < 0 then Inl OutLenNegativeOffset
      else if int (length v) < sint off + 8 then Inl OutLenEOF
      else Inr (take 8 (drop (nat (sint off)) v)))"

text \<open>The body of the loop of \<open>loadAllPoolDiffsV1\<close> that decodes one value.\<close>

definition decodeDiff :: "u8 list \<Rightarrow> (PoolDiff, load_error) go_result" where
  "decodeDiff v =
     (if v = [] then Fail InLenEOF
      else if min 8 (length v) \<noteq> 8 then Fail (InLenShort (length v))
      else
        let inLen = get64 (take 8 v) in
        case readAt8 v (8 + inLen * 32) of
          Inl e \<Rightarrow> Fail e
        | Inr outLenBytes \<Rightarrow>
            let outLen = get64 outLenBytes in
            if unat inLen > maxHashes \<or> unat outLen > maxHashes then Panics
            else
              (case readHashes InHashEOF InHashShort (unat inLen) (drop 8 v) of
                 Inl e \<Rightarrow> Fail e
               | Inr (ins, r1) \<Rightarrow>
                   (case readHashes OutHashEOF OutHashShort (unat outLen) (drop 8 r1) of
                      Inl e \<Rightarrow> Fail e
                    | Inr (outs, r2) \<Rightarrow>
                        if length r2 \<noteq> 0 then Fail (Remaining (length r2))
                        else Ret \<lparr>In = ins, Out = outs\<rparr>)))"

record db_item =
  itemKey :: "u8 list"
  itemMeta :: u8
  itemValue :: "u8 list option"

text \<open>
  The loop over the iterator. It carries \<open>lastheight\<close> and the two slices it appends to, which are
  returned next to an error as well. Reading the height of a key shorter than eight bytes panics,
  as does a gap between two heights.
\<close>

fun load_loop ::
  "u64 \<Rightarrow> PoolDiff list \<Rightarrow> u64 list \<Rightarrow> db_item list
     \<Rightarrow> (PoolDiff list \<times> u64 list \<times> u64) \<times> load_error status" where
  "load_loop lastheight ds hs [] = ((ds, hs, lastheight), Ok)"
| "load_loop lastheight ds hs (item # items) =
     (if itemMeta item = 1 then load_loop lastheight ds hs items
      else if length (itemKey item) < 8 then ((ds, hs, lastheight), Panic)
      else
        let height = get64 (itemKey item) in
        case itemValue item of
          None \<Rightarrow> ((ds, hs, lastheight), Err ValueFetch)
        | Some v \<Rightarrow>
            (case decodeDiff v of
               Fail e \<Rightarrow> ((ds, hs, lastheight), Err e)
             | Panics \<Rightarrow> ((ds, hs, lastheight), Panic)
             | Ret d \<Rightarrow>
                 if lastheight + 1 \<noteq> height then ((ds @ [d], hs, lastheight), Panic)
                 else load_loop height (ds @ [d]) (hs @ [height]) items))"

definition loadAllPoolDiffsV1 :: "db_item list \<Rightarrow> (PoolDiff list \<times> u64 list) \<times> load_error status" where
  "loadAllPoolDiffsV1 items =
     (case load_loop 0 [] [] items of
        ((ds, hs, lastheight), Ok) \<Rightarrow>
          if length ds > 0 \<and> (of_nat (length ds) :: u64) \<noteq> lastheight then ((ds, hs), Panic)
          else ((ds, hs), Ok)
      | ((ds, hs, lastheight), st) \<Rightarrow> ((ds, hs), st))"

section \<open>Round trip of a diff\<close>

text \<open>Diffs that exist in memory: every hash has 32 bytes and the slices fit the address space.\<close>

definition storable :: "PoolDiff \<Rightarrow> bool" where
  "storable d \<longleftrightarrow> (\<forall>h \<in> set (In d) \<union> set (Out d). wf_hash h) \<and>
     length (In d) \<le> maxHashes \<and> length (Out d) \<le> maxHashes"

lemma readHashes_concat:
  assumes "\<forall>h \<in> set hs. wf_hash h"
  shows "readHashes eof short (length hs) (concat hs @ r) = Inr (hs, r)"
  using assms
  by (induction hs) (auto simp: readHash_def wf_hash_def HashSize_def)

lemma length_concat_hashes: "\<forall>h \<in> set hs. wf_hash h \<Longrightarrow> length (concat hs) = 32 * length hs"
  by (induction hs) (auto simp: wf_hash_def HashSize_def)

lemma unat_of_hash_count: "n \<le> maxHashes \<Longrightarrow> unat (of_nat n :: u64) = n"
  by (simp add: unat_of_nat maxHashes_def)

lemma sint_out_offset:
  assumes "n \<le> maxHashes"
  shows "sint (8 + of_nat n * 32 :: u64) = 8 + 32 * int n"
proof -
  have "sint (word_of_int (8 + 32 * int n) :: u64) = 8 + 32 * int n"
    using assms by (simp only: sint_sbintrunc') (simp add: maxHashes_def signed_take_bit_int_eq_self)
  then show ?thesis by (simp add: mult.commute)
qed

lemma decode_encode:
  assumes "storable d"
  shows "decodeDiff (encodeDiff d) = Ret d"
proof -
  have hashes: "\<forall>h \<in> set (In d). wf_hash h" "\<forall>h \<in> set (Out d). wf_hash h"
    and counts: "length (In d) \<le> maxHashes" "length (Out d) \<le> maxHashes"
    using assms by (auto simp: storable_def)
  let ?tail = "put64 (of_nat (length (Out d))) @ concat (Out d)"
  have v: "encodeDiff d = put64 (of_nat (length (In d))) @ concat (In d) @ ?tail"
    by (simp add: encodeDiff_def)
  have head: "take 8 (encodeDiff d) = put64 (of_nat (length (In d)))"
    "drop 8 (encodeDiff d) = concat (In d) @ ?tail"
    by (simp_all add: v)
  have out: "readAt8 (encodeDiff d) (8 + of_nat (length (In d)) * 32)
      = Inr (put64 (of_nat (length (Out d))))"
    using sint_out_offset [OF counts(1)] length_concat_hashes [OF hashes(1)]
    by (simp add: readAt8_def v nat_add_distrib nat_mult_distrib)
  have ins: "readHashes InHashEOF InHashShort (length (In d)) (concat (In d) @ ?tail) = Inr (In d, ?tail)"
    by (rule readHashes_concat [OF hashes(1)])
  have outs: "readHashes OutHashEOF OutHashShort (length (Out d)) (concat (Out d)) = Inr (Out d, [])"
    using readHashes_concat [OF hashes(2), of _ _ "[]"] by simp
  show ?thesis
    using head out ins outs counts unat_of_hash_count
    by (simp add: decodeDiff_def v)
qed

section \<open>Round trip of the store\<close>

text \<open>
  The items of a store that holds the diffs of the heights from \<open>n + 1\<close> on: the key is the height,
  big endian, so that the iteration in key order is the order of the heights.
\<close>

fun stored_items :: "nat \<Rightarrow> PoolDiff list \<Rightarrow> db_item list" where
  "stored_items n [] = []"
| "stored_items n (d # ds) =
     \<lparr>itemKey = put64 (of_nat (Suc n)), itemMeta = 0, itemValue = Some (encodeDiff d)\<rparr> # stored_items (Suc n) ds"

definition version_item :: db_item where
  "version_item = \<lparr>itemKey = map (\<lambda>c. of_nat c) [118, 101, 114, 115, 105, 111, 110], itemMeta = 1, itemValue = Some [0, 0, 0, 1]\<rparr>"

definition heights_from :: "nat \<Rightarrow> nat \<Rightarrow> u64 list" where
  "heights_from n k = map of_nat [Suc n..<Suc n + k]"

lemma heights_from_Suc: "heights_from n (Suc k) = of_nat (Suc n) # heights_from (Suc n) k"
proof -
  have "[Suc n..<Suc n + Suc k] = Suc n # [Suc (Suc n)..<Suc n + Suc k]"
    by (rule upt_conv_Cons) simp
  then show ?thesis by (simp add: heights_from_def del: upt_Suc)
qed

lemma heights_from_0 [simp]: "heights_from n 0 = []"
  by (simp add: heights_from_def)

lemma load_stored_items:
  assumes "\<forall>d \<in> set ds. storable d"
  shows "load_loop (of_nat n) acc hs (stored_items n ds)
    = ((acc @ ds, hs @ heights_from n (length ds), of_nat (n + length ds)), Ok)"
  using assms
proof (induction ds arbitrary: n acc hs)
  case (Cons d ds)
  have h: "(1 + word_of_nat n :: u64) = word_of_nat (Suc n)" by simp
  show ?case
    using Cons.prems Cons.IH [of "Suc n" "acc @ [d]" "hs @ [of_nat (Suc n)]"]
    by (simp add: decode_encode heights_from_Suc add.commute)
qed simp

lemma load_loop_append_meta: "itemMeta item = 1 \<Longrightarrow>
    load_loop l ds hs (items @ [item]) = load_loop l ds hs items"
  by (induction l ds hs items rule: load_loop.induct)
    (auto simp: Let_def split: option.splits go_result.splits)

lemma load_stored:
  assumes "\<forall>d \<in> set ds. storable d"
  shows "loadAllPoolDiffsV1 (stored_items 0 ds @ [version_item]) = ((ds, heights_from 0 (length ds)), Ok)"
proof -
  have "load_loop 0 [] [] (stored_items 0 ds @ [version_item])
      = ((ds, heights_from 0 (length ds), of_nat (length ds)), Ok)"
    using load_stored_items [OF assms, of 0 "[]" "[]"]
    by (simp add: load_loop_append_meta version_item_def)
  then show ?thesis by (simp add: loadAllPoolDiffsV1_def)
qed

text \<open>Whatever is read without an error or a panic are heights without a gap, starting at 1.\<close>

lemma load_loop_heights:
  assumes "load_loop (of_nat n) acc (heights_from 0 n) items = ((ds, hs, l), Ok)"
    and "length acc = n"
  shows "hs = heights_from 0 (length ds) \<and> l = of_nat (length ds)"
  using assms
proof (induction items arbitrary: n acc)
  case (Cons item items)
  show ?case
  proof (cases "itemMeta item = 1")
    case True
    with Cons show ?thesis by simp
  next
    case False
    then obtain v d where v: "itemValue item = Some v" "decodeDiff v = Ret d"
      and key: "\<not> length (itemKey item) < 8" and next_h: "get64 (itemKey item) = of_nat (Suc n)"
      using Cons.prems(1)
      by (auto simp: Let_def add.commute split: option.splits go_result.splits if_splits)
    have "heights_from 0 n @ [of_nat (Suc n)] = heights_from 0 (Suc n)"
      by (simp add: heights_from_def)
    then have "load_loop (of_nat (Suc n)) (acc @ [d]) (heights_from 0 (Suc n)) items = ((ds, hs, l), Ok)"
      using Cons.prems(1) False v key next_h by (simp add: add.commute)
    then show ?thesis using Cons.IH [of "Suc n" "acc @ [d]"] Cons.prems(2) by simp
  qed
qed simp

section \<open>Properties\<close>

definition demo_diff :: PoolDiff where
  "demo_diff = \<lparr>In = [ticket 1, ticket 2], Out = [ticket 3]\<rparr>"

lemma demo_diff_storable: "storable demo_diff"
  by (simp add: storable_def demo_diff_def wf_hash_def ticket_def HashSize_def maxHashes_def)

text \<open>
  Decoding the bytes that \<open>encodeDiff\<close> writes for a diff of 32-byte hashes returns that diff.
\<close>

theorem encode_decode_roundtrip:
  assumes "\<forall>h \<in> set (In d) \<union> set (Out d). length h = 32"
    and "length (In d) \<le> 2 ^ 43" and "length (Out d) \<le> 2 ^ 43"
  shows "decodeDiff (encodeDiff d) = Ret d"
  by (rule decode_encode) (use assms in \<open>auto simp: storable_def wf_hash_def HashSize_def maxHashes_def\<close>)

lemma encode_decode_roundtrip_witness: "decodeDiff (encodeDiff demo_diff) = Ret demo_diff"
  by (rule encode_decode_roundtrip) (simp_all add: demo_diff_def ticket_def)

text \<open>
  Reading back a store that holds a diff for each height from 1 on, in key order and with the
  version entry, returns those diffs in order with the heights 1, 2, and so on, and no error.
\<close>

theorem store_load_roundtrip:
  assumes "\<forall>d \<in> set ds. storable d"
  shows "loadAllPoolDiffsV1 (stored_items 0 ds @ [version_item])
    = ((ds, map of_nat [1..<Suc (length ds)]), Ok)"
  using load_stored [OF assms] by (simp add: heights_from_def)

lemma store_load_roundtrip_witness:
  "loadAllPoolDiffsV1 (stored_items 0 [demo_diff, demo_diff] @ [version_item])
    = (([demo_diff, demo_diff], [1, 2]), Ok)"
  using store_load_roundtrip [of "[demo_diff, demo_diff]"] demo_diff_storable
  by (simp add: upt_rec)

text \<open>
  Whatever the database holds, a load that ends without an error and without a panic has read
  one diff for every height from 1 on, with no gap and no repetition.
\<close>

theorem loaded_heights_contiguous:
  assumes "loadAllPoolDiffsV1 items = ((ds, hs), Ok)"
  shows "hs = map of_nat [1..<Suc (length ds)]"
proof -
  obtain ds' hs' l where "load_loop 0 [] [] items = ((ds', hs', l), Ok)" "ds' = ds" "hs' = hs"
    using assms by (auto simp: loadAllPoolDiffsV1_def split: prod.splits status.splits if_splits)
  then show ?thesis
    using load_loop_heights [of 0 "[]" items] by (simp add: heights_from_def)
qed

lemma loaded_heights_contiguous_witness:
  "\<exists>hs. loadAllPoolDiffsV1 (stored_items 0 [demo_diff] @ [version_item]) = (([demo_diff], hs), Ok) \<and> hs = [1]"
proof -
  have "loadAllPoolDiffsV1 (stored_items 0 [demo_diff] @ [version_item])
      = (([demo_diff], heights_from 0 1), Ok)"
    using load_stored [of "[demo_diff]"] demo_diff_storable by simp
  with loaded_heights_contiguous [OF this] show ?thesis by (simp add: upt_rec)
qed

end
