(* ===== verification/AddressRows.thy ===== *)
theory AddressRows
  imports Prelude
begin

text \<open>
  The rows of the addresses table and the functions that page, count and merge them
  (\<open>db/dbtypes/types.go\<close>): the full rows \<open>AddressRow\<close>, their in-memory form
  \<open>AddressRowCompact\<close>, the rows merged by transaction \<open>AddressRowMerged\<close>, and the rows of the
  other chains.

  The package \<open>chainhash\<close> is a parameter: \<open>parse\<close> is \<open>NewHashFromStr\<close>, \<open>None\<close> for the nil
  pointer that comes with an error, and \<open>print\<close> is \<open>Hash.String\<close>. A time is its Unix second.
  The fields of the compact and of the merged rows carry a prefix, since the three structs share
  their field names.
\<close>

section \<open>View types\<close>

datatype AddrTxnViewType =
    AddrTxnAll
  | AddrTxnCredit
  | AddrTxnDebit
  | AddrMergedTxnDebit
  | AddrMergedTxnCredit
  | AddrMergedTxn
  | AddrUnspentTxn
  | AddrTxnUnknown

fun view_String :: "AddrTxnViewType \<Rightarrow> string" where
  "view_String AddrTxnAll = ''all''"
| "view_String AddrTxnCredit = ''credit''"
| "view_String AddrTxnDebit = ''debit''"
| "view_String AddrMergedTxnDebit = ''merged_debit''"
| "view_String AddrMergedTxnCredit = ''merged_credit''"
| "view_String AddrMergedTxn = ''merged''"
| "view_String AddrUnspentTxn = ''unspent''"
| "view_String AddrTxnUnknown = ''unknown''"

datatype row_error =
    UnrecognizedView AddrTxnViewType
  | NonMergedView AddrTxnViewType
  | InvalidRange int int
  | MergedRowInInput

fun view_IsMerged :: "AddrTxnViewType \<Rightarrow> (bool, row_error) go_result" where
  "view_IsMerged AddrTxnAll = Ret False"
| "view_IsMerged AddrTxnCredit = Ret False"
| "view_IsMerged AddrTxnDebit = Ret False"
| "view_IsMerged AddrUnspentTxn = Ret False"
| "view_IsMerged AddrMergedTxn = Ret True"
| "view_IsMerged AddrMergedTxnCredit = Ret True"
| "view_IsMerged AddrMergedTxnDebit = Ret True"
| "view_IsMerged AddrTxnUnknown = Fail (UnrecognizedView AddrTxnUnknown)"

text \<open>\<open>strings.ToLower\<close> on the ASCII letters.\<close>

definition lower_char :: "char \<Rightarrow> char" where
  "lower_char c = (if 65 \<le> (of_char c :: nat) \<and> (of_char c :: nat) \<le> 90
     then char_of ((of_char c :: nat) + 32) else c)"

definition AddrTxnViewTypeFromStr :: "string \<Rightarrow> AddrTxnViewType" where
  "AddrTxnViewTypeFromStr txnType =
     (let t = map lower_char txnType in
      if t = ''all'' then AddrTxnAll
      else if t = ''credit'' \<or> t = ''credits'' then AddrTxnCredit
      else if t = ''debit'' \<or> t = ''debits'' then AddrTxnDebit
      else if t = ''merged_debit'' \<or> t = ''merged debit'' then AddrMergedTxnDebit
      else if t = ''merged_credit'' \<or> t = ''merged credit'' then AddrMergedTxnCredit
      else if t = ''merged'' then AddrMergedTxn
      else if t = ''unspent'' then AddrUnspentTxn
      else AddrTxnUnknown)"

section \<open>Rows\<close>

record AddressRow =
  Address :: string
  ValidMainChain :: bool
  MatchingTxHash :: string
  IsFunding :: bool
  TxBlockTime :: int
  TxHash :: string
  TxVinVoutIndex :: u32
  Value :: u64
  VinVoutDbID :: u64
  MergedCount :: u64
  TxType :: u16
  AtomsCredit :: u64
  AtomsDebit :: u64

record AddressRowCompact =
  cAddress :: string
  cTxBlockTime :: int
  cMatchingTxHash :: Hash
  cTxHash :: Hash
  cTxVinVoutIndex :: u32
  cTxType :: u16
  cValidMainChain :: bool
  cIsFunding :: bool
  cValue :: u64

record AddressRowMerged =
  mAddress :: string
  mTxBlockTime :: int
  mTxHash :: Hash
  mAtomsCredit :: u64
  mAtomsDebit :: u64
  mMergedCount :: u32
  mTxType :: u16
  mValidMainChain :: bool

record MutilchainAddressRow =
  xAddress :: string
  xFundingTxDbID :: u64
  xFundingTxHash :: string
  xFundingTxVoutIndex :: u32
  xVoutDbID :: u64
  xValue :: u64
  xSpendingTxDbID :: u64
  xSpendingTxHash :: string
  xSpendingTxVinIndex :: u32
  xVinDbID :: u64
  xCredit :: u64
  xDebit :: u64

definition row_IsMerged :: "AddressRow \<Rightarrow> bool" where
  "row_IsMerged r \<longleftrightarrow> MergedCount r > 0"

definition merged_IsFunding :: "AddressRowMerged \<Rightarrow> bool" where
  "merged_IsFunding arm \<longleftrightarrow> mAtomsCredit arm > mAtomsDebit arm"

definition merged_Value :: "AddressRowMerged \<Rightarrow> u64" where
  "merged_Value arm =
     (if mAtomsCredit arm > mAtomsDebit arm then mAtomsCredit arm - mAtomsDebit arm
      else mAtomsDebit arm - mAtomsCredit arm)"

definition IsZeroHash :: "Hash \<Rightarrow> bool" where
  "IsZeroHash h \<longleftrightarrow> h = zeroHash"

section \<open>Counting and paging full rows\<close>

text \<open>
  The paging functions are called with counts that are not negative: \<open>SliceAddressRows\<close> tests
  them, and so do the callers in the address cache.
\<close>

fun CountCreditDebitRows :: "AddressRow list \<Rightarrow> nat \<times> nat" where
  "CountCreditDebitRows [] = (0, 0)"
| "CountCreditDebitRows (r # rows) =
     (case CountCreditDebitRows rows of (numCredit, numDebit) \<Rightarrow>
        if IsFunding r then (Suc numCredit, numDebit) else (numCredit, Suc numDebit))"

fun CountUnspentCreditRows :: "AddressRow list \<Rightarrow> nat \<times> nat" where
  "CountUnspentCreditRows [] = (0, 0)"
| "CountUnspentCreditRows (r # rows) =
     (case CountUnspentCreditRows rows of (numCredit, numDebit) \<Rightarrow>
        if IsFunding r \<and> MatchingTxHash r = [] then (Suc numCredit, numDebit)
        else (numCredit, numDebit))"

definition SliceAddressRowsAll :: "AddressRow slice \<Rightarrow> nat \<Rightarrow> nat \<Rightarrow> AddressRow slice" where
  "SliceAddressRowsAll rows N offset =
     (case rows of
        None \<Rightarrow> None
      | Some rs \<Rightarrow>
          if offset \<ge> length rs then Some []
          else
            let end = min (offset + N) (length rs)
            in if offset < end then Some (subslice rs offset end) else Some [])"

definition MutilchainSliceAddressRowsAll ::
  "MutilchainAddressRow slice \<Rightarrow> nat \<Rightarrow> nat \<Rightarrow> MutilchainAddressRow slice" where
  "MutilchainSliceAddressRowsAll rows N offset =
     (case rows of
        None \<Rightarrow> None
      | Some rs \<Rightarrow>
          if offset \<ge> length rs then Some []
          else
            let end = min (offset + N) (length rs)
            in if offset < end then Some (subslice rs offset end) else Some [])"

definition SliceAddressCreditRows :: "AddressRow slice \<Rightarrow> nat \<Rightarrow> nat \<Rightarrow> AddressRow slice" where
  "SliceAddressCreditRows rows N offset =
     (case rows of
        None \<Rightarrow> None
      | Some rs \<Rightarrow>
          if offset \<ge> length rs then Some []
          else
            let numCreditRows = fst (CountCreditDebitRows rs);
                N' = (if numCreditRows < N then numCreditRows else N)
            in if offset \<ge> numCreditRows then None
               else Some (page_loop IsFunding N' offset 0 [] rs))"

definition SliceAddressUnspentCreditRows :: "AddressRow slice \<Rightarrow> nat \<Rightarrow> nat \<Rightarrow> AddressRow slice" where
  "SliceAddressUnspentCreditRows rows N offset =
     (case rows of
        None \<Rightarrow> None
      | Some rs \<Rightarrow>
          if offset \<ge> length rs then Some []
          else
            let numCreditRows = fst (CountUnspentCreditRows rs);
                N' = (if numCreditRows < N then numCreditRows else N)
            in if offset \<ge> numCreditRows then None
               else Some (page_loop IsFunding N' offset 0 [] rs))"

definition SliceAddressDebitRows :: "AddressRow slice \<Rightarrow> nat \<Rightarrow> nat \<Rightarrow> AddressRow slice" where
  "SliceAddressDebitRows rows N offset =
     (case rows of
        None \<Rightarrow> None
      | Some rs \<Rightarrow>
          if offset \<ge> length rs then Some []
          else
            let numDebitRows = snd (CountCreditDebitRows rs);
                N' = (if numDebitRows < N then numDebitRows else N)
            in if offset \<ge> numDebitRows then None
               else Some (page_loop (\<lambda>r. \<not> IsFunding r) N' offset 0 [] rs))"

section \<open>Merging by transaction\<close>

text \<open>
  \<open>hashMap\<close> maps a transaction hash to the pointer to its merged row, modelled as the index of the
  row in \<open>mergedRows\<close>.
\<close>

record merge_state =
  hashMap :: "(Hash, nat) gomap"
  mergedRows :: "AddressRowMerged list"

definition merge_init :: merge_state where
  "merge_init = \<lparr>hashMap = [], mergedRows = []\<rparr>"

definition new_merged :: "AddressRowCompact \<Rightarrow> AddressRowMerged" where
  "new_merged r =
     \<lparr>mAddress = cAddress r, mTxBlockTime = cTxBlockTime r, mTxHash = cTxHash r,
      mAtomsCredit = (if cIsFunding r then cValue r else 0),
      mAtomsDebit = (if cIsFunding r then 0 else cValue r),
      mMergedCount = 1, mTxType = cTxType r, mValidMainChain = cValidMainChain r\<rparr>"

definition add_merged :: "AddressRowCompact \<Rightarrow> AddressRowMerged \<Rightarrow> AddressRowMerged" where
  "add_merged r row =
     (let row' = row\<lparr>mMergedCount := mMergedCount row + 1\<rparr> in
      if cIsFunding r then row'\<lparr>mAtomsCredit := mAtomsCredit row' + cValue r\<rparr>
      else row'\<lparr>mAtomsDebit := mAtomsDebit row' + cValue r\<rparr>)"

definition merge_insert :: "AddressRowCompact \<Rightarrow> merge_state \<Rightarrow> merge_state" where
  "merge_insert r st =
     \<lparr>hashMap = mput (cTxHash r) (length (mergedRows st)) (hashMap st),
      mergedRows = mergedRows st @ [new_merged r]\<rparr>"

definition merge_update :: "nat \<Rightarrow> AddressRowCompact \<Rightarrow> merge_state \<Rightarrow> merge_state" where
  "merge_update i r st = st\<lparr>mergedRows := (mergedRows st)[i := add_merged r (mergedRows st ! i)]\<rparr>"

definition merge_step :: "AddressRowCompact \<Rightarrow> merge_state \<Rightarrow> merge_state" where
  "merge_step r st =
     (case mget (hashMap st) (cTxHash r) of
        None \<Rightarrow> merge_insert r st
      | Some i \<Rightarrow> merge_update i r st)"

definition MergeRowsCompact :: "AddressRowCompact list \<Rightarrow> AddressRowMerged list" where
  "MergeRowsCompact rows = mergedRows (foldl (\<lambda>st r. merge_step r st) merge_init rows)"

text \<open>The fields of a full row that merging reads, with its parsed hash.\<close>

definition merge_view :: "Hash \<Rightarrow> AddressRow \<Rightarrow> AddressRowCompact" where
  "merge_view h r =
     \<lparr>cAddress = Address r, cTxBlockTime = TxBlockTime r, cMatchingTxHash = zeroHash, cTxHash = h,
      cTxVinVoutIndex = TxVinVoutIndex r, cTxType = TxType r, cValidMainChain = ValidMainChain r,
      cIsFunding = IsFunding r, cValue = Value r\<rparr>"

fun MergeRows_loop ::
  "(string \<Rightarrow> Hash option) \<Rightarrow> merge_state \<Rightarrow> AddressRow list \<Rightarrow> (AddressRowMerged list, row_error) go_result" where
  "MergeRows_loop parse st [] = Ret (mergedRows st)"
| "MergeRows_loop parse st (r # rows) =
     (if MergedCount r \<noteq> 0 then Fail MergedRowInInput
      else case parse (TxHash r) of
        None \<Rightarrow> MergeRows_loop parse st rows
      | Some h \<Rightarrow> MergeRows_loop parse (merge_step (merge_view h r) st) rows)"

definition MergeRows ::
  "(string \<Rightarrow> Hash option) \<Rightarrow> AddressRow list \<Rightarrow> (AddressRowMerged list, row_error) go_result" where
  "MergeRows parse rows = MergeRows_loop parse merge_init rows"

text \<open>The closure \<open>wrongDirection\<close> of the merged views, none for the other ones.\<close>

fun wrongDirection :: "AddrTxnViewType \<Rightarrow> (bool \<Rightarrow> bool) option" where
  "wrongDirection AddrMergedTxn = Some (\<lambda>_. False)"
| "wrongDirection AddrMergedTxnCredit = Some (\<lambda>f. \<not> f)"
| "wrongDirection AddrMergedTxnDebit = Some (\<lambda>f. f)"
| "wrongDirection _ = None"

record range_state =
  skipped :: nat
  seen :: "(Hash, unit) gomap"
  merging :: merge_state

definition range_init :: range_state where
  "range_init = \<lparr>skipped = 0, seen = [], merging = merge_init\<rparr>"

text \<open>The body of the two range loops, for a row in the right direction.\<close>

definition range_step :: "nat \<Rightarrow> nat \<Rightarrow> AddressRowCompact \<Rightarrow> range_state \<Rightarrow> range_state" where
  "range_step N offset r st =
     (case mget (hashMap (merging st)) (cTxHash r) of
        None \<Rightarrow>
          if length (mergedRows (merging st)) = N then st
          else if skipped st < offset then
            (if mget (seen st) (cTxHash r) = None
             then st\<lparr>skipped := Suc (skipped st), seen := mput (cTxHash r) () (seen st)\<rparr>
             else st)
          else st\<lparr>merging := merge_insert r (merging st)\<rparr>
      | Some i \<Rightarrow> st\<lparr>merging := merge_update i r (merging st)\<rparr>)"

fun MergeRowsCompactRange_loop ::
  "(bool \<Rightarrow> bool) \<Rightarrow> nat \<Rightarrow> nat \<Rightarrow> range_state \<Rightarrow> AddressRowCompact list \<Rightarrow> range_state" where
  "MergeRowsCompactRange_loop wrong N offset st [] = st"
| "MergeRowsCompactRange_loop wrong N offset st (r # rows) =
     (if wrong (cIsFunding r) then MergeRowsCompactRange_loop wrong N offset st rows
      else MergeRowsCompactRange_loop wrong N offset (range_step N offset r st) rows)"

definition MergeRowsCompactRange ::
  "AddressRowCompact list \<Rightarrow> int \<Rightarrow> int \<Rightarrow> AddrTxnViewType \<Rightarrow> AddressRowMerged slice" where
  "MergeRowsCompactRange rows N offset txnView =
     (if offset < 0 \<or> N < 0 then None
      else case wrongDirection txnView of
        None \<Rightarrow> None
      | Some wrong \<Rightarrow>
          if N = 0 \<or> length rows = 0 then Some []
          else Some (mergedRows (merging
            (MergeRowsCompactRange_loop wrong (nat N) (nat offset) range_init rows))))"

fun MergeRowsRange_loop ::
  "(string \<Rightarrow> Hash option) \<Rightarrow> (bool \<Rightarrow> bool) \<Rightarrow> nat \<Rightarrow> nat \<Rightarrow> range_state \<Rightarrow> AddressRow list
     \<Rightarrow> (AddressRowMerged list, row_error) go_result" where
  "MergeRowsRange_loop parse wrong N offset st [] = Ret (mergedRows (merging st))"
| "MergeRowsRange_loop parse wrong N offset st (r # rows) =
     (if wrong (IsFunding r) then MergeRowsRange_loop parse wrong N offset st rows
      else if MergedCount r \<noteq> 0 then Fail MergedRowInInput
      else case parse (TxHash r) of
        None \<Rightarrow> MergeRowsRange_loop parse wrong N offset st rows
      | Some h \<Rightarrow>
          MergeRowsRange_loop parse wrong N offset (range_step N offset (merge_view h r) st) rows)"

definition MergeRowsRange ::
  "(string \<Rightarrow> Hash option) \<Rightarrow> AddressRow list \<Rightarrow> int \<Rightarrow> int \<Rightarrow> AddrTxnViewType
     \<Rightarrow> (AddressRowMerged slice, row_error) go_result" where
  "MergeRowsRange parse rows N offset txnView =
     (if offset < 0 \<or> N < 0 then Fail (InvalidRange N offset)
      else case wrongDirection txnView of
        None \<Rightarrow> Fail (UnrecognizedView txnView)
      | Some wrong \<Rightarrow>
          if N = 0 \<or> length rows = 0 then Ret (Some [])
          else
            (case MergeRowsRange_loop parse wrong (nat N) (nat offset) range_init rows of
               Ret ms \<Rightarrow> Ret (Some ms)
             | Fail e \<Rightarrow> Fail e
             | Panics \<Rightarrow> Panics))"

section \<open>Counting merged rows\<close>

fun CountMergedRows_loop ::
  "(bool \<Rightarrow> bool) \<Rightarrow> (string, unit) gomap \<Rightarrow> nat \<Rightarrow> AddressRow list \<Rightarrow> (nat, row_error) go_result" where
  "CountMergedRows_loop wrong merged numMerged [] = Ret numMerged"
| "CountMergedRows_loop wrong merged numMerged (r # rows) =
     (if MergedCount r \<noteq> 0 then Fail MergedRowInInput
      else if wrong (IsFunding r) then CountMergedRows_loop wrong merged numMerged rows
      else if mget merged (TxHash r) = None
      then CountMergedRows_loop wrong (mput (TxHash r) () merged) (Suc numMerged) rows
      else CountMergedRows_loop wrong merged numMerged rows)"

definition CountMergedRows :: "AddressRow list \<Rightarrow> AddrTxnViewType \<Rightarrow> (nat, row_error) go_result" where
  "CountMergedRows rows txnView =
     (case wrongDirection txnView of
        None \<Rightarrow> Fail (NonMergedView txnView)
      | Some wrong \<Rightarrow> CountMergedRows_loop wrong [] 0 rows)"

fun CountMergedRowsCompact_loop ::
  "(bool \<Rightarrow> bool) \<Rightarrow> (Hash, unit) gomap \<Rightarrow> nat \<Rightarrow> AddressRowCompact list \<Rightarrow> nat" where
  "CountMergedRowsCompact_loop wrong merged numMerged [] = numMerged"
| "CountMergedRowsCompact_loop wrong merged numMerged (r # rows) =
     (if wrong (cIsFunding r) then CountMergedRowsCompact_loop wrong merged numMerged rows
      else if mget merged (cTxHash r) = None
      then CountMergedRowsCompact_loop wrong (mput (cTxHash r) () merged) (Suc numMerged) rows
      else CountMergedRowsCompact_loop wrong merged numMerged rows)"

definition CountMergedRowsCompact ::
  "AddressRowCompact list \<Rightarrow> AddrTxnViewType \<Rightarrow> (nat, row_error) go_result" where
  "CountMergedRowsCompact rows txnView =
     (case wrongDirection txnView of
        None \<Rightarrow> Fail (NonMergedView txnView)
      | Some wrong \<Rightarrow> Ret (CountMergedRowsCompact_loop wrong [] 0 rows))"

section \<open>Conversions\<close>

text \<open>
  \<open>CompactRows\<close> returns nil at the first transaction hash that does not parse, and dereferences
  the matching hash without a test, so a matching hash that does not parse panics.
\<close>

fun CompactRows_loop ::
  "(string \<Rightarrow> Hash option) \<Rightarrow> AddressRowCompact list \<Rightarrow> AddressRow list
     \<Rightarrow> (AddressRowCompact slice, row_error) go_result" where
  "CompactRows_loop parse compact [] = Ret (Some compact)"
| "CompactRows_loop parse compact (r # rows) =
     (case parse (TxHash r) of
        None \<Rightarrow> Ret None
      | Some hash \<Rightarrow>
          (case parse (MatchingTxHash r) of
             None \<Rightarrow> Panics
           | Some mhash \<Rightarrow>
               CompactRows_loop parse (compact @
                 [\<lparr>cAddress = Address r, cTxBlockTime = TxBlockTime r, cMatchingTxHash = mhash,
                   cTxHash = hash, cTxVinVoutIndex = TxVinVoutIndex r, cTxType = TxType r,
                   cValidMainChain = ValidMainChain r, cIsFunding = IsFunding r, cValue = Value r\<rparr>]) rows))"

definition CompactRows ::
  "(string \<Rightarrow> Hash option) \<Rightarrow> AddressRow list \<Rightarrow> (AddressRowCompact slice, row_error) go_result" where
  "CompactRows parse rows = CompactRows_loop parse [] rows"

definition uncompact_row :: "(Hash \<Rightarrow> string) \<Rightarrow> AddressRowCompact \<Rightarrow> AddressRow" where
  "uncompact_row print r =
     \<lparr>Address = cAddress r, ValidMainChain = cValidMainChain r,
      MatchingTxHash = (if \<not> IsZeroHash (cMatchingTxHash r) then print (cMatchingTxHash r) else []),
      IsFunding = cIsFunding r, TxBlockTime = cTxBlockTime r, TxHash = print (cTxHash r),
      TxVinVoutIndex = cTxVinVoutIndex r, Value = cValue r, VinVoutDbID = 0, MergedCount = 0,
      TxType = cTxType r, AtomsCredit = 0, AtomsDebit = 0\<rparr>"

definition UncompactRows :: "(Hash \<Rightarrow> string) \<Rightarrow> AddressRowCompact slice \<Rightarrow> AddressRow slice" where
  "UncompactRows print compact = map_option (map (uncompact_row print)) compact"

definition uncompact_merged_row :: "(Hash \<Rightarrow> string) \<Rightarrow> AddressRowMerged \<Rightarrow> AddressRow" where
  "uncompact_merged_row print r =
     \<lparr>Address = mAddress r, ValidMainChain = mValidMainChain r, MatchingTxHash = [],
      IsFunding = merged_IsFunding r, TxBlockTime = mTxBlockTime r, TxHash = print (mTxHash r),
      TxVinVoutIndex = 0, Value = merged_Value r, VinVoutDbID = 0,
      MergedCount = scast (mMergedCount r), TxType = mTxType r, AtomsCredit = 0, AtomsDebit = 0\<rparr>"

definition UncompactMergedRows :: "(Hash \<Rightarrow> string) \<Rightarrow> AddressRowMerged slice \<Rightarrow> AddressRow slice" where
  "UncompactMergedRows print merged = map_option (map (uncompact_merged_row print)) merged"

section \<open>Paging a view\<close>

definition SliceAddressRows ::
  "(string \<Rightarrow> Hash option) \<Rightarrow> (Hash \<Rightarrow> string) \<Rightarrow> AddressRow slice \<Rightarrow> int \<Rightarrow> int \<Rightarrow> AddrTxnViewType
     \<Rightarrow> (AddressRow slice, row_error) go_result" where
  "SliceAddressRows parse print rows N offset txnView =
     (if offset < 0 \<or> N < 0 then Fail (InvalidRange offset N)
      else
        let numRows = int (length (elems rows)) in
        if N = 0 \<or> numRows = 0 \<or> offset \<ge> numRows then Ret (Some [])
        else case txnView of
          AddrTxnAll \<Rightarrow> Ret (SliceAddressRowsAll rows (nat N) (nat offset))
        | AddrTxnCredit \<Rightarrow> Ret (SliceAddressCreditRows rows (nat N) (nat offset))
        | AddrTxnDebit \<Rightarrow> Ret (SliceAddressDebitRows rows (nat N) (nat offset))
        | AddrUnspentTxn \<Rightarrow> Ret (SliceAddressUnspentCreditRows rows (nat N) (nat offset))
        | AddrTxnUnknown \<Rightarrow> Fail (UnrecognizedView txnView)
        | _ \<Rightarrow>
            (case MergeRowsRange parse (elems rows) N offset txnView of
               Ret merged \<Rightarrow> Ret (UncompactMergedRows print merged)
             | Fail e \<Rightarrow> Fail e
             | Panics \<Rightarrow> Panics))"

definition MutilchainSliceAddressRows ::
  "MutilchainAddressRow slice \<Rightarrow> int \<Rightarrow> int \<Rightarrow> AddrTxnViewType
     \<Rightarrow> (MutilchainAddressRow slice, row_error) go_result" where
  "MutilchainSliceAddressRows rows N offset txnView =
     (if offset < 0 \<or> N < 0 then Fail (InvalidRange offset N)
      else
        let numRows = int (length (elems rows)) in
        if N = 0 \<or> numRows = 0 \<or> offset \<ge> numRows then Ret (Some [])
        else Ret (MutilchainSliceAddressRowsAll rows (nat N) (nat offset)))"

end
