(* ===== verification/RowMerge.thy ===== *)
theory RowMerge
  imports AddressRows
begin

text \<open>
  What the functions of \<open>AddressRows\<close> compute. Merging is specified without the hash map: one row
  per transaction hash, in the order of the first appearances, that sums the group of rows with
  that hash. Counting, paging and the range functions are compared with that specification.
\<close>

section \<open>First appearances\<close>

definition firsts :: "'a list \<Rightarrow> 'a list" where
  "firsts xs = rev (remdups (rev xs))"

lemma firsts_Nil [simp]: "firsts [] = []"
  by (simp add: firsts_def)

lemma firsts_snoc: "firsts (xs @ [x]) = (if x \<in> set xs then firsts xs else firsts xs @ [x])"
  by (simp add: firsts_def)

lemma set_firsts [simp]: "set (firsts xs) = set xs"
  by (simp add: firsts_def)

lemma distinct_firsts [simp]: "distinct (firsts xs)"
  by (simp add: firsts_def)

lemma firsts_eq_Nil [simp]: "firsts xs = [] \<longleftrightarrow> xs = []"
  by (simp add: firsts_def)

lemma firsts_append: "set xs \<inter> set ys = {} \<Longrightarrow> firsts (xs @ ys) = firsts xs @ firsts ys"
  by (induction ys rule: rev_induct) (auto simp: firsts_snoc append_assoc [symmetric] simp del: append_assoc)

section \<open>The specification of merging\<close>

definition group_of :: "AddressRowCompact list \<Rightarrow> Hash \<Rightarrow> AddressRowCompact list" where
  "group_of rows h = filter (\<lambda>r. cTxHash r = h) rows"

definition credits :: "AddressRowCompact list \<Rightarrow> u64" where
  "credits rows = sum_list (map cValue (filter cIsFunding rows))"

definition debits :: "AddressRowCompact list \<Rightarrow> u64" where
  "debits rows = sum_list (map cValue (filter (\<lambda>r. \<not> cIsFunding r) rows))"

definition group_merged :: "AddressRowCompact list \<Rightarrow> Hash \<Rightarrow> AddressRowMerged" where
  "group_merged rows h =
     (let g = group_of rows h; r = hd g in
      \<lparr>mAddress = cAddress r, mTxBlockTime = cTxBlockTime r, mTxHash = h,
       mAtomsCredit = credits g, mAtomsDebit = debits g, mMergedCount = of_nat (length g),
       mTxType = cTxType r, mValidMainChain = cValidMainChain r\<rparr>)"

definition tx_hashes :: "AddressRowCompact list \<Rightarrow> Hash list" where
  "tx_hashes rows = firsts (map cTxHash rows)"

definition merged_spec :: "AddressRowCompact list \<Rightarrow> AddressRowMerged list" where
  "merged_spec rows = map (group_merged rows) (tx_hashes rows)"

lemma group_of_snoc: "group_of (rows @ [r]) h = group_of rows h @ (if cTxHash r = h then [r] else [])"
  by (simp add: group_of_def)

lemma group_of_Nil_iff: "group_of rows h = [] \<longleftrightarrow> h \<notin> cTxHash ` set rows"
  by (auto simp: group_of_def filter_empty_conv)

lemma credits_append [simp]: "credits (rows @ rows') = credits rows + credits rows'"
  by (simp add: credits_def)

lemma debits_append [simp]: "debits (rows @ rows') = debits rows + debits rows'"
  by (simp add: debits_def)

lemma credits_debits_single [simp]:
  "credits [r] = (if cIsFunding r then cValue r else 0)"
  "debits [r] = (if cIsFunding r then 0 else cValue r)"
  "credits [] = 0" "debits [] = 0"
  by (simp_all add: credits_def debits_def)

lemma group_merged_other: "cTxHash r \<noteq> h \<Longrightarrow> group_merged (rows @ [r]) h = group_merged rows h"
  by (simp add: group_merged_def group_of_snoc)

lemma group_merged_new: "cTxHash r \<notin> cTxHash ` set rows \<Longrightarrow>
    group_merged (rows @ [r]) (cTxHash r) = new_merged r"
  by (simp add: group_merged_def group_of_snoc group_of_Nil_iff [THEN iffD2] new_merged_def)

lemma group_merged_more: "cTxHash r \<in> cTxHash ` set rows \<Longrightarrow>
    group_merged (rows @ [r]) (cTxHash r) = add_merged r (group_merged rows (cTxHash r))"
  using group_of_Nil_iff [of rows "cTxHash r"]
  by (auto simp: group_merged_def group_of_snoc add_merged_def Let_def)

lemma tx_hashes_snoc: "tx_hashes (rows @ [r]) =
    (if cTxHash r \<in> cTxHash ` set rows then tx_hashes rows else tx_hashes rows @ [cTxHash r])"
  by (simp add: tx_hashes_def firsts_snoc)

lemma set_tx_hashes [simp]: "set (tx_hashes rows) = cTxHash ` set rows"
  by (simp add: tx_hashes_def)

lemma distinct_tx_hashes [simp]: "distinct (tx_hashes rows)"
  by (simp add: tx_hashes_def)

lemma tx_hashes_Nil [simp]: "tx_hashes [] = []"
  by (simp add: tx_hashes_def)

lemma merged_spec_Nil [simp]: "merged_spec [] = []"
  by (simp add: merged_spec_def)

lemma length_merged_spec: "length (merged_spec rows) = length (tx_hashes rows)"
  by (simp add: merged_spec_def)

lemma merged_spec_new: "cTxHash r \<notin> cTxHash ` set rows \<Longrightarrow>
    merged_spec (rows @ [r]) = merged_spec rows @ [new_merged r]"
  by (auto simp: merged_spec_def tx_hashes_snoc group_merged_new intro!: group_merged_other)

lemma merged_spec_more:
  assumes "cTxHash r \<in> cTxHash ` set rows" and i: "i < length (tx_hashes rows)" "tx_hashes rows ! i = cTxHash r"
  shows "merged_spec (rows @ [r]) = (merged_spec rows)[i := add_merged r (merged_spec rows ! i)]"
proof (rule nth_equalityI)
  fix j
  assume j: "j < length (merged_spec (rows @ [r]))"
  then have j': "j < length (tx_hashes rows)"
    using assms(1) by (simp add: length_merged_spec tx_hashes_snoc)
  show "merged_spec (rows @ [r]) ! j = (merged_spec rows)[i := add_merged r (merged_spec rows ! i)] ! j"
  proof (cases "j = i")
    case True
    with assms j' show ?thesis
      by (simp add: merged_spec_def tx_hashes_snoc group_merged_more)
  next
    case False
    with i j' have "tx_hashes rows ! j \<noteq> cTxHash r"
      using nth_eq_iff_index_eq [OF distinct_tx_hashes j' i(1)] by simp
    with assms j' False show ?thesis
      by (simp add: merged_spec_def tx_hashes_snoc group_merged_other)
  qed
qed (use assms in \<open>simp add: length_merged_spec tx_hashes_snoc\<close>)

section \<open>The loops against the specification\<close>

text \<open>The hash map points to the position of the merged row of each hash seen so far.\<close>

definition merge_inv :: "AddressRowCompact list \<Rightarrow> merge_state \<Rightarrow> bool" where
  "merge_inv rows st \<longleftrightarrow> mergedRows st = merged_spec rows \<and>
     (\<forall>h i. mget (hashMap st) h = Some i \<longleftrightarrow> i < length (tx_hashes rows) \<and> tx_hashes rows ! i = h)"

lemma merge_inv_init: "merge_inv [] merge_init"
  by (simp add: merge_inv_def merge_init_def)

lemma merge_inv_iff: "merge_inv rows st \<Longrightarrow>
    mget (hashMap st) h = Some i \<longleftrightarrow> i < length (tx_hashes rows) \<and> tx_hashes rows ! i = h"
  by (simp add: merge_inv_def)

lemma merge_inv_hit: "merge_inv rows st \<Longrightarrow> mget (hashMap st) h = Some i \<Longrightarrow>
    h \<in> cTxHash ` set rows \<and> i < length (tx_hashes rows) \<and> tx_hashes rows ! i = h"
  by (metis merge_inv_iff nth_mem set_tx_hashes)

lemma merge_inv_miss:
  assumes "merge_inv rows st"
  shows "mget (hashMap st) h = None \<longleftrightarrow> h \<notin> cTxHash ` set rows"
proof -
  have "mget (hashMap st) h = None \<longleftrightarrow> \<not> (\<exists>i. mget (hashMap st) h = Some i)"
    by (cases "mget (hashMap st) h") simp_all
  also have "\<dots> \<longleftrightarrow> h \<notin> set (tx_hashes rows)"
    by (simp only: merge_inv_iff [OF assms] in_set_conv_nth)
  finally show ?thesis by simp
qed

lemma merge_inv_insert:
  assumes inv: "merge_inv rows st" and new: "cTxHash r \<notin> cTxHash ` set rows"
  shows "merge_inv (rows @ [r]) (merge_insert r st)"
proof -
  let ?n = "length (tx_hashes rows)"
  have hashes: "tx_hashes (rows @ [r]) = tx_hashes rows @ [cTxHash r]"
    using new by (simp add: tx_hashes_snoc)
  have old: "tx_hashes rows ! i \<noteq> cTxHash r" if "i < ?n" for i
    using that new nth_mem set_tx_hashes by metis
  have len: "length (mergedRows st) = ?n"
    using inv by (simp add: merge_inv_def length_merged_spec)
  have "mget (hashMap (merge_insert r st)) h = Some i \<longleftrightarrow>
      i < length (tx_hashes rows @ [cTxHash r]) \<and> (tx_hashes rows @ [cTxHash r]) ! i = h" for h i
    using old [of i] len merge_inv_iff [OF inv, of h i]
    by (auto simp: merge_insert_def nth_append less_Suc_eq)
  moreover have "mergedRows (merge_insert r st) = merged_spec (rows @ [r])"
    using inv new by (simp add: merge_insert_def merge_inv_def merged_spec_new)
  ultimately show ?thesis by (simp add: merge_inv_def hashes)
qed

lemma merge_inv_update:
  assumes inv: "merge_inv rows st" and hit: "mget (hashMap st) (cTxHash r) = Some i"
  shows "merge_inv (rows @ [r]) (merge_update i r st)"
proof -
  note h = merge_inv_hit [OF inv hit]
  have "tx_hashes (rows @ [r]) = tx_hashes rows"
    using h by (simp add: tx_hashes_snoc)
  then show ?thesis
    using merged_spec_more [of r rows i] h inv by (simp add: merge_inv_def merge_update_def)
qed

lemma merge_inv_step: "merge_inv rows st \<Longrightarrow> merge_inv (rows @ [r]) (merge_step r st)"
  using merge_inv_miss [of rows st "cTxHash r"]
  by (cases "mget (hashMap st) (cTxHash r)")
    (simp_all add: merge_step_def merge_inv_insert merge_inv_update)

lemma merge_inv_fold: "merge_inv rows st \<Longrightarrow>
    merge_inv (rows @ rows') (foldl (\<lambda>st r. merge_step r st) st rows')"
proof (induction rows' arbitrary: rows st)
  case (Cons r rows')
  then show ?case using merge_inv_step [of rows st r] by fastforce
qed simp

lemma MergeRowsCompact_eq_spec: "MergeRowsCompact rows = merged_spec rows"
  using merge_inv_fold [OF merge_inv_init, of rows] by (simp add: MergeRowsCompact_def merge_inv_def)

text \<open>\<open>MergeRows\<close>: the rows whose hash parses, as compact rows.\<close>

definition parsed_rows :: "(string \<Rightarrow> Hash option) \<Rightarrow> AddressRow list \<Rightarrow> AddressRowCompact list" where
  "parsed_rows parse rows = List.map_filter (\<lambda>r. map_option (\<lambda>h. merge_view h r) (parse (TxHash r))) rows"

lemma parsed_rows_simps [simp]:
  "parsed_rows parse [] = []"
  "parsed_rows parse (r # rows) =
     (case parse (TxHash r) of None \<Rightarrow> parsed_rows parse rows
      | Some h \<Rightarrow> merge_view h r # parsed_rows parse rows)"
  by (simp_all add: parsed_rows_def map_filter_simps split: option.splits)

lemma MergeRows_loop_eq: "MergeRows_loop parse st rows =
    (if \<exists>r \<in> set rows. MergedCount r \<noteq> 0 then Fail MergedRowInInput
     else Ret (mergedRows (foldl (\<lambda>st r. merge_step r st) st (parsed_rows parse rows))))"
  by (induction rows arbitrary: st) (auto split: option.splits)

lemma MergeRows_eq: "MergeRows parse rows =
    (if \<exists>r \<in> set rows. MergedCount r \<noteq> 0 then Fail MergedRowInInput
     else Ret (merged_spec (parsed_rows parse rows)))"
  by (simp add: MergeRows_def MergeRows_loop_eq flip: MergeRowsCompact_eq_spec)
    (simp add: MergeRowsCompact_def)

section \<open>Sums\<close>

lemma sum_list_update_add:
  fixes f :: "'a \<Rightarrow> 'b::comm_monoid_add"
  shows "i < length xs \<Longrightarrow> f x = f (xs ! i) + d \<Longrightarrow>
    sum_list (map f (xs[i := x])) = sum_list (map f xs) + d"
proof (induction xs arbitrary: i)
  case (Cons y ys)
  then show ?case by (cases i) (auto simp: ac_simps)
qed simp

lemma merged_sums:
  "sum_list (map mAtomsCredit (merged_spec rows)) = credits rows \<and>
   sum_list (map mAtomsDebit (merged_spec rows)) = debits rows"
proof (induction rows rule: rev_induct)
  case (snoc r rows)
  show ?case
  proof (cases "cTxHash r \<in> cTxHash ` set rows")
    case False
    with snoc show ?thesis by (simp add: merged_spec_new new_merged_def)
  next
    case True
    then have "cTxHash r \<in> set (tx_hashes rows)" by simp
    then obtain i where i: "i < length (tx_hashes rows)" "tx_hashes rows ! i = cTxHash r"
      by (meson in_set_conv_nth)
    let ?m = "merged_spec rows ! i"
    have "mAtomsCredit (add_merged r ?m) = mAtomsCredit ?m + credits [r]"
      "mAtomsDebit (add_merged r ?m) = mAtomsDebit ?m + debits [r]"
      by (simp_all add: add_merged_def Let_def)
    with snoc i show ?thesis
      by (simp add: merged_spec_more [OF True i] length_merged_spec sum_list_update_add)
  qed
qed simp

section \<open>The range functions\<close>

text \<open>The rows in the direction of a view, and those left after the first \<open>k\<close> distinct hashes.\<close>

definition right_rows :: "(bool \<Rightarrow> bool) \<Rightarrow> AddressRowCompact list \<Rightarrow> AddressRowCompact list" where
  "right_rows wrong rows = filter (\<lambda>r. \<not> wrong (cIsFunding r)) rows"

fun after_skip :: "Hash set \<Rightarrow> nat \<Rightarrow> AddressRowCompact list \<Rightarrow> AddressRowCompact list" where
  "after_skip S k [] = []"
| "after_skip S k (r # rows) =
     (if k = 0 then r # rows
      else if cTxHash r \<in> S then after_skip S k rows
      else after_skip (insert (cTxHash r) S) (k - 1) rows)"

lemma after_skip_0 [simp]: "after_skip S 0 rows = rows"
  by (cases rows) simp_all

lemma range_loop_foldl: "MergeRowsCompactRange_loop wrong N offset st rows =
    foldl (\<lambda>st r. range_step N offset r st) st (right_rows wrong rows)"
  by (induction rows arbitrary: st) (auto simp: right_rows_def)

text \<open>While rows are skipped nothing is merged.\<close>

lemma range_skip:
  assumes "\<And>h. mget (seen st) h \<noteq> None \<longleftrightarrow> h \<in> S" and "skipped st + k = offset"
    and "merging st = merge_init" and "0 < N"
  shows "\<exists>st'. foldl (\<lambda>st r. range_step N offset r st) st rows
      = foldl (\<lambda>st r. range_step N offset r st) st' (after_skip S k rows) \<and>
    merging st' = merge_init \<and> (after_skip S k rows = [] \<or> skipped st' = offset)"
  using assms(1,2,3)
proof (induction rows arbitrary: st S k)
  case (Cons r rows)
  let ?h = "cTxHash r"
  have miss: "mget (hashMap (merging st)) ?h = None" "length (mergedRows (merging st)) \<noteq> N"
    using Cons.prems(3) assms(4) by (simp_all add: merge_init_def)
  consider "k = 0" | "k \<noteq> 0" "?h \<in> S" | "k \<noteq> 0" "?h \<notin> S" by blast
  then show ?case
  proof cases
    case 1
    then show ?thesis using Cons.prems by auto
  next
    case 2
    have "range_step N offset r st = st"
      using 2 miss Cons.prems(1) [of ?h] Cons.prems(2) by (auto simp: range_step_def)
    then show ?thesis using 2 Cons.IH [OF Cons.prems] by simp
  next
    case 3
    let ?st = "st\<lparr>skipped := Suc (skipped st), seen := mput ?h () (seen st)\<rparr>"
    have "range_step N offset r st = ?st"
      using 3 miss Cons.prems(1) [of ?h] Cons.prems(2) by (simp add: range_step_def)
    moreover have "\<And>h. mget (seen ?st) h \<noteq> None \<longleftrightarrow> h \<in> insert ?h S"
      using Cons.prems(1) by simp
    ultimately show ?thesis
      using 3 Cons.IH [of ?st "insert ?h S" "k - 1"] Cons.prems(2,3) by simp
  qed
qed auto

text \<open>Afterwards the rows of the first \<open>N\<close> hashes are merged and the others are dropped.\<close>

definition trunc_inv :: "nat \<Rightarrow> AddressRowCompact list \<Rightarrow> merge_state \<Rightarrow> bool" where
  "trunc_inv N rows st \<longleftrightarrow> mergedRows st = take N (merged_spec rows) \<and>
     (\<forall>h i. mget (hashMap st) h = Some i \<longleftrightarrow>
        i < N \<and> i < length (tx_hashes rows) \<and> tx_hashes rows ! i = h)"

lemma trunc_inv_of_merge_inv: "merge_inv rows st \<Longrightarrow> length (tx_hashes rows) \<le> N \<Longrightarrow> trunc_inv N rows st"
  by (auto simp: trunc_inv_def merge_inv_def length_merged_spec)

lemma merge_inv_of_trunc_inv: "trunc_inv N rows st \<Longrightarrow> length (tx_hashes rows) \<le> N \<Longrightarrow> merge_inv rows st"
  by (auto simp: trunc_inv_def merge_inv_def length_merged_spec)

lemma trunc_inv_hit:
  assumes inv: "trunc_inv N rows st" and hit: "mget (hashMap st) (cTxHash r) = Some i"
  shows "trunc_inv N (rows @ [r]) (merge_update i r st)"
proof -
  have i: "i < N" "i < length (tx_hashes rows)" "tx_hashes rows ! i = cTxHash r"
    using inv hit by (simp_all add: trunc_inv_def)
  then have old: "cTxHash r \<in> cTxHash ` set rows"
    by (metis nth_mem set_tx_hashes)
  have "tx_hashes (rows @ [r]) = tx_hashes rows" using old by (simp add: tx_hashes_snoc)
  then show ?thesis
    using inv i merged_spec_more [OF old i(2,3)]
    by (simp add: trunc_inv_def merge_update_def take_update_swap)
qed

lemma trunc_inv_full:
  assumes inv: "trunc_inv N rows st" and miss: "mget (hashMap st) (cTxHash r) = None"
    and full: "length (mergedRows st) = N"
  shows "trunc_inv N (rows @ [r]) st"
proof -
  have N: "N \<le> length (tx_hashes rows)"
    using inv full by (simp add: trunc_inv_def length_merged_spec)
  show ?thesis
  proof (cases "cTxHash r \<in> cTxHash ` set rows")
    case False
    with inv N show ?thesis
      by (auto simp: trunc_inv_def merged_spec_new tx_hashes_snoc length_merged_spec nth_append)
  next
    case True
    then have "cTxHash r \<in> set (tx_hashes rows)" by simp
    then obtain i where i: "i < length (tx_hashes rows)" "tx_hashes rows ! i = cTxHash r"
      by (meson in_set_conv_nth)
    have "i < N \<Longrightarrow> mget (hashMap st) (cTxHash r) = Some i"
      using inv i by (simp add: trunc_inv_def)
    with miss have "\<not> i < N" by auto
    then have "take N (merged_spec (rows @ [r])) = take N (merged_spec rows)"
      by (simp add: merged_spec_more [OF True i])
    with True inv show ?thesis by (simp add: trunc_inv_def tx_hashes_snoc)
  qed
qed

lemma trunc_inv_new:
  assumes inv: "trunc_inv N rows st" and miss: "mget (hashMap st) (cTxHash r) = None"
    and room: "length (mergedRows st) \<noteq> N"
  shows "trunc_inv N (rows @ [r]) (merge_insert r st)"
proof -
  have N: "length (tx_hashes rows) < N"
    using inv room by (simp add: trunc_inv_def length_merged_spec)
  then have m: "merge_inv rows st"
    by (intro merge_inv_of_trunc_inv [OF inv]) simp
  then have "cTxHash r \<notin> cTxHash ` set rows"
    using merge_inv_miss miss by metis
  then have "merge_inv (rows @ [r]) (merge_insert r st)"
    by (rule merge_inv_insert [OF m])
  then show ?thesis
    by (rule trunc_inv_of_merge_inv) (use N in \<open>simp add: tx_hashes_snoc\<close>)
qed

lemma range_take:
  assumes "trunc_inv N rows (merging st)" and "skipped st = offset"
  shows "trunc_inv N (rows @ rows') (merging (foldl (\<lambda>st r. range_step N offset r st) st rows'))"
  using assms
proof (induction rows' arbitrary: rows st)
  case (Cons r rows')
  let ?st = "range_step N offset r st"
  have "trunc_inv N (rows @ [r]) (merging ?st)" "skipped ?st = offset"
    using Cons.prems trunc_inv_hit [of N rows "merging st" r] trunc_inv_full [of N rows "merging st" r]
      trunc_inv_new [of N rows "merging st" r]
    by (auto simp: range_step_def split: option.splits)
  then show ?case using Cons.IH [of "rows @ [r]" ?st] by simp
qed simp

lemma trunc_inv_init: "trunc_inv N [] merge_init"
  by (simp add: trunc_inv_def merge_init_def)

lemma range_fold_eq:
  assumes "0 < N"
  shows "mergedRows (merging (foldl (\<lambda>st r. range_step N offset r st) range_init rows))
    = take N (merged_spec (after_skip {} offset rows))"
proof -
  obtain st' where st': "foldl (\<lambda>st r. range_step N offset r st) range_init rows
      = foldl (\<lambda>st r. range_step N offset r st) st' (after_skip {} offset rows)"
    and m: "merging st' = merge_init"
    and d: "after_skip {} offset rows = [] \<or> skipped st' = offset"
    using range_skip [of range_init "{}" offset offset N rows] assms
    by (auto simp: range_init_def)
  show ?thesis
  proof (cases "after_skip {} offset rows = []")
    case True
    then show ?thesis by (simp add: st' m merge_init_def)
  next
    case False
    with d have "skipped st' = offset" by simp
    then show ?thesis
      using range_take [of N "[]" st' offset "after_skip {} offset rows"] trunc_inv_init [of N]
      by (simp add: st' m trunc_inv_def)
  qed
qed

lemma MergeRowsCompactRange_eq:
  assumes "wrongDirection v = Some wrong" and "0 \<le> offset" and "0 \<le> N"
  shows "MergeRowsCompactRange rows N offset v
    = Some (take (nat N) (merged_spec (after_skip {} (nat offset) (right_rows wrong rows))))"
proof (cases "0 < nat N")
  case True
  then show ?thesis
    using assms range_fold_eq [OF True, of "nat offset" "right_rows wrong rows"]
    by (auto simp: MergeRowsCompactRange_def range_loop_foldl right_rows_def)
qed (use assms in \<open>simp add: MergeRowsCompactRange_def\<close>)

text \<open>The full-row version computes the same window of the rows whose hash parses.\<close>

lemma parsed_right: "right_rows wrong (parsed_rows parse rows)
    = parsed_rows parse (filter (\<lambda>r. \<not> wrong (IsFunding r)) rows)"
  by (induction rows) (auto simp: right_rows_def merge_view_def split: option.splits)

lemma MergeRowsRange_loop_eq: "MergeRowsRange_loop parse wrong N offset st rows =
    (if \<exists>r \<in> set rows. \<not> wrong (IsFunding r) \<and> MergedCount r \<noteq> 0 then Fail MergedRowInInput
     else Ret (mergedRows (merging (foldl (\<lambda>st r. range_step N offset r st) st
       (right_rows wrong (parsed_rows parse rows))))))"
  by (induction rows arbitrary: st) (auto simp: right_rows_def merge_view_def split: option.splits)

lemma MergeRowsRange_eq:
  assumes "\<forall>r \<in> set rows. MergedCount r = 0"
  shows "MergeRowsRange parse rows N offset v =
    (if offset < 0 \<or> N < 0 then Fail (InvalidRange N offset)
     else if wrongDirection v = None then Fail (UnrecognizedView v)
     else Ret (MergeRowsCompactRange (parsed_rows parse rows) N offset v))"
proof (cases "wrongDirection v")
  case (Some wrong)
  have "0 < nat N \<Longrightarrow> MergeRowsRange_loop parse wrong (nat N) (nat offset) range_init rows
      = Ret (take (nat N) (merged_spec (after_skip {} (nat offset)
          (right_rows wrong (parsed_rows parse rows)))))"
    using assms by (simp add: MergeRowsRange_loop_eq range_fold_eq)
  then show ?thesis
    using Some MergeRowsCompactRange_eq [OF Some, of offset N "parsed_rows parse rows"]
    by (auto simp: MergeRowsRange_def right_rows_def)
qed (simp add: MergeRowsRange_def)

text \<open>When no skipped hash comes back, the window is the one of the merged list.\<close>

lemma group_merged_append_left: "h \<notin> cTxHash ` set ys \<Longrightarrow> group_merged (xs @ ys) h = group_merged xs h"
  using group_of_Nil_iff [of ys h] by (simp add: group_merged_def group_of_def)

lemma group_merged_append_right: "h \<notin> cTxHash ` set xs \<Longrightarrow> group_merged (xs @ ys) h = group_merged ys h"
  using group_of_Nil_iff [of xs h] by (simp add: group_merged_def group_of_def)

lemma merged_spec_append: "cTxHash ` set xs \<inter> cTxHash ` set ys = {} \<Longrightarrow>
    merged_spec (xs @ ys) = merged_spec xs @ merged_spec ys"
  by (auto simp: merged_spec_def tx_hashes_def firsts_append
      intro!: group_merged_append_left group_merged_append_right)

lemma after_skip_split:
  assumes "finite S"
  shows "\<exists>pre. rows = pre @ after_skip S k rows \<and> card (cTxHash ` set pre - S) \<le> k \<and>
    (after_skip S k rows = [] \<or> card (cTxHash ` set pre - S) = k)"
  using assms
proof (induction rows arbitrary: S k)
  case (Cons r rows)
  let ?h = "cTxHash r"
  consider "k = 0" | "k \<noteq> 0" "?h \<in> S" | "k \<noteq> 0" "?h \<notin> S" by blast
  then show ?case
  proof cases
    case 1
    then show ?thesis by (intro exI [of _ "[]"]) simp
  next
    case 2
    then obtain pre where "rows = pre @ after_skip S k rows" "card (cTxHash ` set pre - S) \<le> k"
      "after_skip S k rows = [] \<or> card (cTxHash ` set pre - S) = k"
      using Cons by blast
    with 2 show ?thesis by (intro exI [of _ "r # pre"]) (simp add: insert_Diff_if)
  next
    case 3
    let ?S = "insert ?h S"
    obtain pre where pre: "rows = pre @ after_skip ?S (k - 1) rows" "card (cTxHash ` set pre - ?S) \<le> k - 1"
      "after_skip ?S (k - 1) rows = [] \<or> card (cTxHash ` set pre - ?S) = k - 1"
      using Cons.IH [of ?S "k - 1"] Cons.prems by blast
    have "insert ?h (cTxHash ` set pre) - S = insert ?h (cTxHash ` set pre - ?S)"
      using 3 by auto
    then have "card (cTxHash ` set (r # pre) - S) = Suc (card (cTxHash ` set pre - ?S))"
      by simp
    with 3 pre show ?thesis by (intro exI [of _ "r # pre"]) auto
  qed
qed simp

lemma length_tx_hashes: "length (tx_hashes rows) = card (cTxHash ` set rows)"
  using distinct_card [OF distinct_tx_hashes [of rows]] by simp

text \<open>The hashes that are skipped: the first \<open>k\<close> distinct ones.\<close>

lemma window_of_merged:
  assumes "\<forall>r \<in> set (after_skip {} k rows). cTxHash r \<notin> set (take k (tx_hashes rows))"
  shows "merged_spec (after_skip {} k rows) = drop k (merged_spec rows)"
proof -
  let ?post = "after_skip {} k rows"
  obtain pre where pre: "rows = pre @ ?post" "card (cTxHash ` set pre) \<le> k"
    "?post = [] \<or> card (cTxHash ` set pre) = k"
    using after_skip_split [of "{}" rows k] by auto
  show ?thesis
  proof (cases "?post = []")
    case True
    with pre show ?thesis by (simp add: length_merged_spec length_tx_hashes)
  next
    case False
    then have k: "length (tx_hashes pre) = k" using pre(3) by (simp add: length_tx_hashes)
    obtain rest where "tx_hashes rows = tx_hashes pre @ rest"
    proof -
      have "\<exists>rest. tx_hashes (pre @ ys) = tx_hashes pre @ rest" for ys
      proof (induction ys rule: rev_induct)
        case (snoc y ys)
        then show ?case using tx_hashes_snoc [of "pre @ ys" y] by auto
      qed simp
      with pre(1) that show thesis by metis
    qed
    then have "set (take k (tx_hashes rows)) = cTxHash ` set pre"
      using k by simp
    then have out: "\<forall>r \<in> set ?post. cTxHash r \<notin> cTxHash ` set pre"
      using assms by simp
    have "cTxHash ` set pre \<inter> cTxHash ` set ?post = {}"
    proof (rule Int_emptyI)
      fix h assume h: "h \<in> cTxHash ` set pre" "h \<in> cTxHash ` set ?post"
      from h(2) obtain r where r: "r \<in> set ?post" "h = cTxHash r" by (rule imageE)
      with out h(1) show False by simp
    qed
    then have "merged_spec rows = merged_spec pre @ merged_spec ?post"
      using merged_spec_append pre(1) by metis
    then show ?thesis using k by (simp add: length_merged_spec)
  qed
qed

section \<open>Counting and paging\<close>

lemma count_loop_eq:
  assumes "\<And>h. mget sn h \<noteq> None \<longleftrightarrow> h \<in> cTxHash ` set done_rows"
  shows "CountMergedRowsCompact_loop wrong sn (length (tx_hashes done_rows)) rows
    = length (tx_hashes (done_rows @ right_rows wrong rows))"
  using assms
proof (induction rows arbitrary: sn done_rows)
  case (Cons r rows)
  consider "wrong (cIsFunding r)" | "\<not> wrong (cIsFunding r)" "cTxHash r \<in> cTxHash ` set done_rows"
    | "\<not> wrong (cIsFunding r)" "cTxHash r \<notin> cTxHash ` set done_rows" by blast
  then show ?case
  proof cases
    case 1
    then show ?thesis using Cons.IH [OF Cons.prems] by (simp add: right_rows_def)
  next
    case 2
    have "mget sn (cTxHash r) = Some ()" using 2 Cons.prems [of "cTxHash r"] by simp
    moreover have IH: "CountMergedRowsCompact_loop wrong sn (length (tx_hashes (done_rows @ [r]))) rows
        = length (tx_hashes ((done_rows @ [r]) @ right_rows wrong rows))"
      by (rule Cons.IH) (use 2 Cons.prems in auto)
    ultimately show ?thesis
      using 2 IH by (simp add: tx_hashes_snoc right_rows_def)
  next
    case 3
    have "mget sn (cTxHash r) = None" using 3 Cons.prems by blast
    moreover have "\<And>h. mget (mput (cTxHash r) () sn) h \<noteq> None \<longleftrightarrow> h \<in> cTxHash ` set (done_rows @ [r])"
      using 3 Cons.prems by simp
    ultimately show ?thesis
      using 3 Cons.IH [of "mput (cTxHash r) () sn" "done_rows @ [r]"]
      by (simp add: tx_hashes_snoc right_rows_def)
  qed
qed (simp add: right_rows_def)

lemma CountMergedRowsCompact_loop_init: "CountMergedRowsCompact_loop wrong [] 0 rows
    = length (merged_spec (right_rows wrong rows))"
  using count_loop_eq [of "[]" "[]" wrong rows] by (simp add: length_merged_spec)

lemma CountCreditDebitRows_eq: "CountCreditDebitRows rows
    = (length (filter IsFunding rows), length (filter (\<lambda>r. \<not> IsFunding r) rows))"
  by (induction rows) auto

lemma CountUnspentCreditRows_eq: "CountUnspentCreditRows rows
    = (length (filter (\<lambda>r. IsFunding r \<and> MatchingTxHash r = []) rows), 0)"
  by (induction rows) auto

lemma page_min:
  assumes "0 < N" and "offset < length (filter keep rows)"
  shows "page_loop keep (if length (filter keep rows) < N then length (filter keep rows) else N)
      offset 0 [] rows = take N (drop offset (filter keep rows))"
proof -
  have "0 < length (filter keep rows)" using assms(2) by linarith
  from page_loop_eq [OF this, of keep offset rows] page_loop_eq [OF assms(1), of keep offset rows]
  show ?thesis by simp
qed

text \<open>The rows a view of regular rows shows.\<close>

fun view_keep :: "AddrTxnViewType \<Rightarrow> AddressRow \<Rightarrow> bool" where
  "view_keep AddrTxnAll r = True"
| "view_keep AddrTxnCredit r = IsFunding r"
| "view_keep AddrTxnDebit r = (\<not> IsFunding r)"
| "view_keep AddrUnspentTxn r = (IsFunding r \<and> MatchingTxHash r = [])"
| "view_keep _ r = False"

lemma view_keep_unspent: "view_keep AddrUnspentTxn = (\<lambda>r. IsFunding r \<and> MatchingTxHash r = [])"
  by (rule ext) simp

lemma view_keep_direction: "view_keep AddrTxnCredit = IsFunding" "view_keep AddrTxnDebit = (\<lambda>r. \<not> IsFunding r)"
  by (rule ext, simp)+

lemma drop_filter_past: "length rows \<le> n \<Longrightarrow> drop n (filter keep rows) = []"
  by (meson drop_all le_trans length_filter_le)

lemma SliceAllRows: "0 < N \<Longrightarrow> elems (SliceAddressRowsAll (Some rs) N offset) = take N (drop offset rs)"
  by (auto simp: SliceAddressRowsAll_def subslice_eq_take_drop Let_def min_def)

lemma SliceCreditRows:
  assumes "0 < N"
  shows "elems (SliceAddressCreditRows (Some rs) N offset) = take N (drop offset (filter IsFunding rs))"
  using page_min [OF assms, of offset IsFunding rs]
  by (simp add: SliceAddressCreditRows_def CountCreditDebitRows_eq Let_def drop_filter_past not_le)

lemma SliceDebitRows:
  assumes "0 < N"
  shows "elems (SliceAddressDebitRows (Some rs) N offset)
    = take N (drop offset (filter (\<lambda>r. \<not> IsFunding r) rs))"
  using page_min [OF assms, of offset "\<lambda>r. \<not> IsFunding r" rs]
  by (simp add: SliceAddressDebitRows_def CountCreditDebitRows_eq Let_def drop_filter_past not_le)

section \<open>Conversions\<close>

lemma CompactRows_loop_uncompact:
  assumes "\<And>h. wf_hash h \<Longrightarrow> parse (print h) = Some h" and "parse [] = Some zeroHash"
    and "\<forall>c \<in> set cs. wf_hash (cTxHash c) \<and> wf_hash (cMatchingTxHash c)"
  shows "CompactRows_loop parse acc (map (uncompact_row print) cs) = Ret (Some (acc @ cs))"
  using assms(3)
proof (induction cs arbitrary: acc)
  case (Cons c cs)
  let ?r = "uncompact_row print c"
  have "parse (MatchingTxHash ?r) = Some (cMatchingTxHash c)" "parse (TxHash ?r) = Some (cTxHash c)"
    using Cons.prems assms by (simp_all add: uncompact_row_def IsZeroHash_def)
  moreover have "\<lparr>cAddress = Address ?r, cTxBlockTime = TxBlockTime ?r,
      cMatchingTxHash = cMatchingTxHash c, cTxHash = cTxHash c,
      cTxVinVoutIndex = TxVinVoutIndex ?r, cTxType = TxType ?r,
      cValidMainChain = ValidMainChain ?r, cIsFunding = IsFunding ?r, cValue = Value ?r\<rparr> = c"
    by (simp add: uncompact_row_def)
  ultimately show ?case
    using Cons.prems Cons.IH [of "acc @ [c]"] by simp
qed simp

text \<open>A row that went through its compact form loses only the fields the compact form lacks.\<close>

definition forget_ids :: "AddressRow \<Rightarrow> AddressRow" where
  "forget_ids r = r\<lparr>VinVoutDbID := 0, MergedCount := 0, AtomsCredit := 0, AtomsDebit := 0\<rparr>"

lemma CompactRows_loop_ok:
  assumes "\<forall>r \<in> set rows. \<exists>h m. parse (TxHash r) = Some h \<and> print h = TxHash r \<and>
      parse (MatchingTxHash r) = Some m \<and> (if IsZeroHash m then [] else print m) = MatchingTxHash r"
  shows "\<exists>cs. CompactRows_loop parse acc rows = Ret (Some (acc @ cs)) \<and>
    map (uncompact_row print) cs = map forget_ids rows"
  using assms
proof (induction rows arbitrary: acc)
  case (Cons r rows)
  then obtain h m where hm: "parse (TxHash r) = Some h" "print h = TxHash r"
    "parse (MatchingTxHash r) = Some m" "(if IsZeroHash m then [] else print m) = MatchingTxHash r"
    by auto
  let ?c = "\<lparr>cAddress = Address r, cTxBlockTime = TxBlockTime r, cMatchingTxHash = m,
    cTxHash = h, cTxVinVoutIndex = TxVinVoutIndex r, cTxType = TxType r,
    cValidMainChain = ValidMainChain r, cIsFunding = IsFunding r, cValue = Value r\<rparr>"
  have c: "uncompact_row print ?c = forget_ids r"
    using hm(2,4) by (simp add: uncompact_row_def forget_ids_def split: if_splits)
  obtain cs where cs: "CompactRows_loop parse (acc @ [?c]) rows = Ret (Some ((acc @ [?c]) @ cs))"
    "map (uncompact_row print) cs = map forget_ids rows"
    using Cons.IH [of "acc @ [?c]"] Cons.prems by auto
  with hm(1,3) c show ?case by (intro exI [of _ "?c # cs"]) simp
qed simp

lemma merged_Value_eq: "uint (merged_Value m) = \<bar>uint (mAtomsCredit m) - uint (mAtomsDebit m)\<bar>"
  by (auto simp: merged_Value_def uint_minus_simple_alt uint_sub_if' word_less_def)

section \<open>Properties\<close>

text \<open>Rows of the transactions \<open>a\<close> and \<open>b\<close> for the witnesses.\<close>

definition demo_row :: "nat \<Rightarrow> bool \<Rightarrow> u64 \<Rightarrow> AddressRowCompact" where
  "demo_row n funding v =
     \<lparr>cAddress = ''addr'', cTxBlockTime = 0, cMatchingTxHash = zeroHash, cTxHash = replicate 32 (of_nat n),
      cTxVinVoutIndex = 0, cTxType = 0, cValidMainChain = True, cIsFunding = funding, cValue = v\<rparr>"

definition demo_merged :: "nat \<Rightarrow> u64 \<Rightarrow> u64 \<Rightarrow> u32 \<Rightarrow> AddressRowMerged" where
  "demo_merged n c d k =
     \<lparr>mAddress = ''addr'', mTxBlockTime = 0, mTxHash = replicate 32 (of_nat n), mAtomsCredit = c,
      mAtomsDebit = d, mMergedCount = k, mTxType = 0, mValidMainChain = True\<rparr>"

text \<open>
  C24. Merging compact rows gives exactly one row per transaction hash, in the order in which the
  hashes first appear. Each carries the fields of the first row of its group, the number of rows in
  the group, and the sums of its crediting and of its debiting values.
\<close>

theorem MergeRowsCompact_groups:
  "MergeRowsCompact rows =
     map (\<lambda>h. let g = filter (\<lambda>r. cTxHash r = h) rows in
       \<lparr>mAddress = cAddress (hd g), mTxBlockTime = cTxBlockTime (hd g), mTxHash = h,
        mAtomsCredit = sum_list (map cValue (filter cIsFunding g)),
        mAtomsDebit = sum_list (map cValue (filter (\<lambda>r. \<not> cIsFunding r) g)),
        mMergedCount = of_nat (length g), mTxType = cTxType (hd g),
        mValidMainChain = cValidMainChain (hd g)\<rparr>)
     (firsts (map cTxHash rows))"
  by (simp add: MergeRowsCompact_eq_spec merged_spec_def tx_hashes_def group_merged_def [abs_def]
      group_of_def credits_def debits_def Let_def)

text \<open>
  Merging loses no value: over all merged rows the credits add up to the values of the funding
  rows, and the debits to the values of the spending rows, in 64-bit arithmetic.
\<close>

theorem MergeRowsCompact_conserves_value:
  "sum_list (map mAtomsCredit (MergeRowsCompact rows)) = sum_list (map cValue (filter cIsFunding rows)) \<and>
   sum_list (map mAtomsDebit (MergeRowsCompact rows))
     = sum_list (map cValue (filter (\<lambda>r. \<not> cIsFunding r) rows))"
  using merged_sums [of rows] by (simp add: MergeRowsCompact_eq_spec credits_def debits_def)

text \<open>
  Merging full rows is refused when one of them is already merged; otherwise it is the merge of
  the rows whose transaction hash parses.
\<close>

theorem MergeRows_correct:
  "MergeRows parse rows =
     (if \<exists>r \<in> set rows. MergedCount r \<noteq> 0 then Fail MergedRowInInput
      else Ret (MergeRowsCompact (parsed_rows parse rows)))"
  by (simp add: MergeRows_eq MergeRowsCompact_eq_spec)

text \<open>
  The count for a merged view is the number of rows that merging the rows of that view gives.
\<close>

theorem CountMergedRowsCompact_correct:
  assumes "wrongDirection v = Some wrong"
  shows "CountMergedRowsCompact rows v
    = Ret (length (MergeRowsCompact (filter (\<lambda>r. \<not> wrong (cIsFunding r)) rows)))"
  using assms
  by (simp add: CountMergedRowsCompact_def CountMergedRowsCompact_loop_init MergeRowsCompact_eq_spec
      right_rows_def)

lemma CountMergedRowsCompact_correct_witness:
  "CountMergedRowsCompact [demo_row 1 True 5, demo_row 1 False 2, demo_row 2 True 1] AddrMergedTxnCredit
    = Ret (length (MergeRowsCompact [demo_row 1 True 5, demo_row 2 True 1]))"
  using CountMergedRowsCompact_correct [of AddrMergedTxnCredit "\<lambda>f. \<not> f"
      "[demo_row 1 True 5, demo_row 1 False 2, demo_row 2 True 1]"]
  by (simp add: demo_row_def)

text \<open>
  A page of a merged view is the window of the full merged list that the count and the offset
  name, provided no row behind the skipped part has one of the hashes that were skipped. The first
  page needs no such condition.
\<close>

theorem MergeRowsCompactRange_window:
  assumes "wrongDirection v = Some wrong" and "0 \<le> offset" and "0 \<le> N"
    and "right = filter (\<lambda>r. \<not> wrong (cIsFunding r)) rows"
    and "\<forall>r \<in> set (after_skip {} (nat offset) right).
      cTxHash r \<notin> set (take (nat offset) (firsts (map cTxHash right)))"
  shows "MergeRowsCompactRange rows N offset v
    = Some (take (nat N) (drop (nat offset) (MergeRowsCompact right)))"
  using MergeRowsCompactRange_eq [OF assms(1-3), of rows] assms(4,5)
    window_of_merged [of "nat offset" right]
  by (simp add: MergeRowsCompact_eq_spec right_rows_def tx_hashes_def)

lemma MergeRowsCompactRange_window_witness:
  "MergeRowsCompactRange [demo_row 1 True 5, demo_row 2 True 1, demo_row 2 False 3] 1 1 AddrMergedTxn
    = Some [demo_merged 2 1 3 2]"
proof -
  let ?rows = "[demo_row 1 True 5, demo_row 2 True 1, demo_row 2 False 3]"
  have h: "cTxHash (demo_row n f v) = replicate 32 (of_nat n)" for n f v
    by (simp add: demo_row_def)
  have "\<forall>r \<in> set (after_skip {} 1 ?rows). cTxHash r \<notin> set (take 1 (firsts (map cTxHash ?rows)))"
    by (simp add: firsts_def h)
  then have "MergeRowsCompactRange ?rows 1 1 AddrMergedTxn = Some (take 1 (drop 1 (MergeRowsCompact ?rows)))"
    using MergeRowsCompactRange_window [of AddrMergedTxn "\<lambda>_. False" 1 1 ?rows ?rows] by simp
  then show ?thesis
    by (simp add: MergeRowsCompact_eq_spec merged_spec_def tx_hashes_def firsts_def group_merged_def
        group_of_def credits_def debits_def demo_row_def demo_merged_def Let_def)
qed

text \<open>
  What a page of a merged view is in general: the rows up to the one with the last skipped hash
  are dropped, and the rest is merged as if it were the whole input. So a skipped transaction with a
  further row comes back as a partial row, and a page can repeat part of the page before it: of two
  rows of one transaction and one of another, the second page of size 1 shows the first
  transaction again, with one of its two rows.
\<close>

theorem MergeRowsCompactRange_skips_rows:
  "(0 \<le> offset \<and> 0 \<le> N \<longrightarrow>
      MergeRowsCompactRange rows N offset AddrMergedTxn
        = Some (take (nat N) (MergeRowsCompact (after_skip {} (nat offset) rows)))) \<and>
   MergeRowsCompactRange [demo_row 1 True 5, demo_row 1 True 7, demo_row 2 True 1] 1 1 AddrMergedTxn
     = Some [demo_merged 1 7 0 1] \<and>
   take 1 (drop 1 (MergeRowsCompact [demo_row 1 True 5, demo_row 1 True 7, demo_row 2 True 1]))
     = [demo_merged 2 1 0 1]"
proof -
  have "0 \<le> offset \<and> 0 \<le> N \<longrightarrow> MergeRowsCompactRange rows N offset AddrMergedTxn
      = Some (take (nat N) (MergeRowsCompact (after_skip {} (nat offset) rows)))"
    for offset N :: int and rows
    using MergeRowsCompactRange_eq [of AddrMergedTxn "\<lambda>_. False" offset N rows]
    by (simp add: MergeRowsCompact_eq_spec right_rows_def)
  then show ?thesis
    by (simp add: MergeRowsCompact_eq_spec merged_spec_def tx_hashes_def firsts_def group_merged_def
        group_of_def credits_def debits_def demo_row_def demo_merged_def Let_def)
qed

lemma MergeRowsCompactRange_skips_rows_witness:
  "MergeRowsCompactRange [demo_row 1 True 5, demo_row 1 True 7] 5 1 AddrMergedTxn
    = Some [demo_merged 1 7 0 1]"
  using MergeRowsCompactRange_skips_rows [of 1 5 "[demo_row 1 True 5, demo_row 1 True 7]"]
  by (simp add: MergeRowsCompact_eq_spec merged_spec_def tx_hashes_def firsts_def group_merged_def
      group_of_def credits_def debits_def demo_row_def demo_merged_def Let_def)

text \<open>
  Paging the regular rows: a page of the views of all, of the crediting and of the debiting rows
  is the window of the rows that the view keeps.
\<close>

theorem SliceAddressRows_page:
  assumes "v \<in> {AddrTxnAll, AddrTxnCredit, AddrTxnDebit}" and "0 \<le> N" and "0 \<le> offset"
  shows "\<exists>page. SliceAddressRows parse print (Some rows) N offset v = Ret page \<and>
    elems page = take (nat N) (drop (nat offset) (filter (view_keep v) rows))"
proof (cases "N = 0 \<or> length rows = 0 \<or> int (length rows) \<le> offset")
  case True
  then have "SliceAddressRows parse print (Some rows) N offset v = Ret (Some [])"
    using assms(2,3) by (auto simp: SliceAddressRows_def)
  moreover have "take (nat N) (drop (nat offset) (filter (view_keep v) rows)) = []"
    using True drop_filter_past [of rows "nat offset" "view_keep v"] assms(2,3)
    by (elim disjE) (simp_all add: le_nat_iff)
  ultimately show ?thesis by simp
next
  case False
  then have "0 < nat N" using assms(2) by simp
  then show ?thesis
    using False assms SliceAllRows [of "nat N" rows "nat offset"]
      SliceCreditRows [of "nat N" rows "nat offset"] SliceDebitRows [of "nat N" rows "nat offset"]
    by (auto simp: SliceAddressRows_def view_keep_direction Let_def)
qed

definition full_row :: "bool \<Rightarrow> string \<Rightarrow> u64 \<Rightarrow> AddressRow" where
  "full_row funding matching v =
     \<lparr>Address = ''addr'', ValidMainChain = True, MatchingTxHash = matching, IsFunding = funding,
      TxBlockTime = 0, TxHash = ''t'', TxVinVoutIndex = 0, Value = v, VinVoutDbID = 0,
      MergedCount = 0, TxType = 0, AtomsCredit = 0, AtomsDebit = 0\<rparr>"

lemma SliceAddressRows_page_witness:
  "\<exists>page. SliceAddressRows (\<lambda>_. None) (\<lambda>_. []) (Some [full_row False [] 1, full_row True [] 2, full_row True [] 3])
      1 1 AddrTxnCredit = Ret page \<and> elems page = [full_row True [] 3]"
  using SliceAddressRows_page [of AddrTxnCredit 1 1 "\<lambda>_. None" "\<lambda>_. []"
      "[full_row False [] 1, full_row True [] 2, full_row True [] 3]"]
  by (simp add: full_row_def)

text \<open>
  The view of the unspent credits counts the unspent rows but pages over all the crediting ones:
  a page is a window of the crediting rows of at most as many rows as there are unspent ones. With a
  spent credit in front, the page of size 1 shows that spent credit and not the unspent one.
\<close>

theorem SliceAddressUnspentCreditRows_shows_spent:
  "SliceAddressRows parse print (Some rows) N offset AddrUnspentTxn =
     (if offset < 0 \<or> N < 0 then Fail (InvalidRange offset N)
      else if N = 0 \<or> int (length rows) \<le> offset then Ret (Some [])
      else if int (length (filter (view_keep AddrUnspentTxn) rows)) \<le> offset then Ret None
      else Ret (Some (take (min (nat N) (length (filter (view_keep AddrUnspentTxn) rows)))
        (drop (nat offset) (filter IsFunding rows))))) \<and>
   SliceAddressRows parse print (Some [full_row True ''spender'' 5, full_row True [] 7]) 1 0 AddrUnspentTxn
     = Ret (Some [full_row True ''spender'' 5])"
proof -
  have gen: "SliceAddressRows parse print (Some rows) N offset AddrUnspentTxn =
     (if offset < 0 \<or> N < 0 then Fail (InvalidRange offset N)
      else if N = 0 \<or> int (length rows) \<le> offset then Ret (Some [])
      else if int (length (filter (view_keep AddrUnspentTxn) rows)) \<le> offset then Ret None
      else Ret (Some (take (min (nat N) (length (filter (view_keep AddrUnspentTxn) rows)))
        (drop (nat offset) (filter IsFunding rows)))))" for rows offset N
  proof (cases "offset < 0 \<or> N < 0 \<or> N = 0 \<or> int (length rows) \<le> offset
      \<or> int (length (filter (view_keep AddrUnspentTxn) rows)) \<le> offset")
    case True
    then show ?thesis
      by (auto simp: SliceAddressRows_def SliceAddressUnspentCreditRows_def CountUnspentCreditRows_eq
          view_keep_unspent le_nat_iff Let_def)
  next
    case False
    let ?n = "length (filter (view_keep AddrUnspentTxn) rows)"
    have n: "0 < min (nat N) ?n" "nat offset < ?n" "\<not> length rows \<le> nat offset"
      using False by linarith+
    have "(if ?n < nat N then ?n else nat N) = min (nat N) ?n" by simp
    with False n page_loop_eq [OF n(1), of IsFunding "nat offset" rows] show ?thesis
      by (auto simp: SliceAddressRows_def SliceAddressUnspentCreditRows_def CountUnspentCreditRows_eq
          view_keep_unspent Let_def)
  qed
  show ?thesis by (subst (1 2) gen) (simp add: full_row_def)
qed

text \<open>
  Compacting the rows that uncompacting made gives the compact rows back, when a hash parses from
  its printed form and the empty string parses to the zero hash, as the hash package documents.
\<close>

theorem compact_uncompact_roundtrip:
  assumes "\<And>h. length h = 32 \<Longrightarrow> parse (print h) = Some h" and "parse [] = Some zeroHash"
    and "\<forall>c \<in> set cs. length (cTxHash c) = 32 \<and> length (cMatchingTxHash c) = 32"
  shows "CompactRows parse (elems (UncompactRows print (Some cs))) = Ret (Some cs)"
  using CompactRows_loop_uncompact [of parse print cs "[]"] assms
  by (simp add: CompactRows_def UncompactRows_def wf_hash_def HashSize_def)

text \<open>A hash package for the witness: every byte is printed as the character of its code.\<close>

definition demo_print :: "Hash \<Rightarrow> string" where
  "demo_print h = map (\<lambda>b. char_of (unat b)) h"

definition demo_parse :: "string \<Rightarrow> Hash option" where
  "demo_parse s = (if s = [] then Some zeroHash else Some (map (\<lambda>c. of_nat (of_char c)) s))"

lemma demo_parse_print: "length h = 32 \<Longrightarrow> demo_parse (demo_print h) = Some h"
proof -
  assume "length h = 32"
  moreover have "word_of_nat (of_char (char_of (unat b) :: char)) = b" for b :: u8
    using unsigned_less [of b, where 'a = nat] by simp
  ultimately show ?thesis
    by (auto simp: demo_parse_def demo_print_def o_def)
qed

lemma compact_uncompact_roundtrip_witness:
  "CompactRows demo_parse (elems (UncompactRows demo_print (Some [demo_row 1 True 5])))
    = Ret (Some [demo_row 1 True 5])"
  by (rule compact_uncompact_roundtrip)
    (auto simp: demo_parse_print demo_parse_def [of "[]"] demo_row_def zeroHash_def HashSize_def)

end
