(* ===== verification/CacheItems.thy ===== *)
theory CacheItems
  imports RowMerge
begin

text \<open>
  The unit of cached address data and the row functions of \<open>db/cache/addresscache.go\<close>: the lock
  per address, counting and paging of compact, merged and other-chain rows, the two item types with
  their accessors, \<open>Transactions\<close>, and the setters that tie an item to a block.

  The mutex of an item is not modelled. \<open>ChartsData\<close> is a type variable: the cache stores such
  values and never reads them. A \<open>float64\<close> that is only stored is its bit pattern.
\<close>

section \<open>The lock per address\<close>

text \<open>
  A \<open>CacheLock\<close> holds a channel for every locked address. Channels are numbered as they are made;
  \<open>closed\<close> are the closed ones. \<open>done\<close> deletes the entry of the address, whoever holds it, and closes
  the channel it was made for, which panics when it is closed already. When \<open>TryLock\<close> reports busy,
  its \<open>done\<close> does nothing.
\<close>

record CacheLock =
  addrs :: "(string, nat) gomap"
  nextChan :: nat
  closed :: "nat list"

definition NewCacheLock :: CacheLock where
  "NewCacheLock = \<lparr>addrs = [], nextChan = 0, closed = []\<rparr>"

datatype done_fn = NoOp | Release string nat

definition cl_hold :: "string \<Rightarrow> CacheLock \<Rightarrow> CacheLock \<times> done_fn" where
  "cl_hold addr cl =
     (cl\<lparr>addrs := mput addr (nextChan cl) (addrs cl), nextChan := Suc (nextChan cl)\<rparr>,
      Release addr (nextChan cl))"

definition TryLock :: "string \<Rightarrow> CacheLock \<Rightarrow> CacheLock \<times> bool \<times> nat option \<times> done_fn" where
  "TryLock addr cl =
     (case mget (addrs cl) addr of
        Some wait \<Rightarrow> (cl, True, Some wait, NoOp)
      | None \<Rightarrow> (case cl_hold addr cl of (cl', d) \<Rightarrow> (cl', False, None, d)))"

fun run_done :: "done_fn \<Rightarrow> CacheLock \<Rightarrow> CacheLock \<times> unit status" where
  "run_done NoOp cl = (cl, Ok)"
| "run_done (Release addr ch) cl =
     (let cl' = cl\<lparr>addrs := mdel addr (addrs cl)\<rparr> in
      if ch \<in> set (closed cl) then (cl', Panic) else (cl'\<lparr>closed := ch # closed cl'\<rparr>, Ok))"

section \<open>Counting and paging rows\<close>

fun CountCreditDebitRowsCompact :: "AddressRowCompact list \<Rightarrow> nat \<times> nat" where
  "CountCreditDebitRowsCompact [] = (0, 0)"
| "CountCreditDebitRowsCompact (r # rows) =
     (case CountCreditDebitRowsCompact rows of (numCredit, numDebit) \<Rightarrow>
        if cIsFunding r then (Suc numCredit, numDebit) else (numCredit, Suc numDebit))"

fun CountUnspentCreditRowsCompact :: "AddressRowCompact list \<Rightarrow> nat" where
  "CountUnspentCreditRowsCompact [] = 0"
| "CountUnspentCreditRowsCompact (r # rows) =
     (if cIsFunding r \<and> IsZeroHash (cMatchingTxHash r) then Suc (CountUnspentCreditRowsCompact rows)
      else CountUnspentCreditRowsCompact rows)"

fun CountCreditDebitRowsMerged :: "AddressRowMerged list \<Rightarrow> nat \<times> nat" where
  "CountCreditDebitRowsMerged [] = (0, 0)"
| "CountCreditDebitRowsMerged (r # rows) =
     (case CountCreditDebitRowsMerged rows of (numCredit, numDebit) \<Rightarrow>
        if merged_IsFunding r then (Suc numCredit, numDebit) else (numCredit, Suc numDebit))"

definition addressRows :: "AddressRowCompact slice \<Rightarrow> nat \<Rightarrow> nat \<Rightarrow> AddressRowCompact slice" where
  "addressRows rows N offset =
     (case rows of
        None \<Rightarrow> None
      | Some rs \<Rightarrow>
          if offset \<ge> length rs then Some []
          else
            let end = min (offset + N) (length rs)
            in if offset < end then Some (subslice rs offset end) else Some [])"

definition MutilchainAddressRows :: "MutilchainAddressRow slice \<Rightarrow> nat \<Rightarrow> nat \<Rightarrow> MutilchainAddressRow slice" where
  "MutilchainAddressRows rows N offset =
     (case rows of
        None \<Rightarrow> None
      | Some rs \<Rightarrow>
          if offset \<ge> length rs then Some []
          else
            let end = min (offset + N) (length rs)
            in if offset < end then Some (subslice rs offset end) else Some [])"

definition creditAddressRows :: "AddressRowCompact slice \<Rightarrow> nat \<Rightarrow> nat \<Rightarrow> AddressRowCompact slice" where
  "creditAddressRows rows N offset =
     (case rows of
        None \<Rightarrow> None
      | Some rs \<Rightarrow>
          if offset \<ge> length rs then Some []
          else
            let numCreditRows = fst (CountCreditDebitRowsCompact rs);
                N' = (if numCreditRows < N then numCreditRows else N)
            in if offset \<ge> numCreditRows then None
               else Some (page_loop cIsFunding N' offset 0 [] rs))"

definition creditAddressRowsMerged :: "AddressRowMerged slice \<Rightarrow> nat \<Rightarrow> nat \<Rightarrow> AddressRowMerged slice" where
  "creditAddressRowsMerged rows N offset =
     (case rows of
        None \<Rightarrow> None
      | Some rs \<Rightarrow>
          if offset \<ge> length rs then Some []
          else
            let numCreditRows = fst (CountCreditDebitRowsMerged rs);
                N' = (if numCreditRows < N then numCreditRows else N)
            in if offset \<ge> numCreditRows then None
               else Some (page_loop merged_IsFunding N' offset 0 [] rs))"

definition debitAddressRows :: "AddressRowCompact slice \<Rightarrow> nat \<Rightarrow> nat \<Rightarrow> AddressRowCompact slice" where
  "debitAddressRows rows N offset =
     (case rows of
        None \<Rightarrow> None
      | Some rs \<Rightarrow>
          if offset \<ge> length rs then Some []
          else
            let numDebitRows = snd (CountCreditDebitRowsCompact rs);
                N' = (if numDebitRows < N then numDebitRows else N)
            in Some (page_loop (\<lambda>r. \<not> cIsFunding r) N' offset 0 [] rs))"

definition debitAddressRowsMerged :: "AddressRowMerged slice \<Rightarrow> nat \<Rightarrow> nat \<Rightarrow> AddressRowMerged slice" where
  "debitAddressRowsMerged rows N offset =
     (case rows of
        None \<Rightarrow> None
      | Some rs \<Rightarrow>
          if offset \<ge> length rs then Some []
          else
            let numDebitRows = snd (CountCreditDebitRowsMerged rs);
                N' = (if numDebitRows < N then numDebitRows else N)
            in Some (page_loop (\<lambda>r. \<not> merged_IsFunding r) N' offset 0 [] rs))"

definition unspentCreditAddressRows :: "AddressRowCompact slice \<Rightarrow> nat \<Rightarrow> nat \<Rightarrow> AddressRowCompact slice" where
  "unspentCreditAddressRows rows N offset =
     (case rows of
        None \<Rightarrow> None
      | Some rs \<Rightarrow>
          if offset \<ge> length rs then Some []
          else
            let numUnspentCreditRows = CountUnspentCreditRowsCompact rs;
                N' = (if numUnspentCreditRows < N then numUnspentCreditRows else N)
            in if offset \<ge> numUnspentCreditRows then None
               else Some (page_loop (\<lambda>r. cIsFunding r \<and> IsZeroHash (cMatchingTxHash r)) N' offset 0 [] rs))"

text \<open>The functions for the other chains. The first two skip and take, and test nothing else.\<close>

definition mutilchainCreditAddressRows :: "MutilchainAddressRow slice \<Rightarrow> nat \<Rightarrow> nat \<Rightarrow> MutilchainAddressRow slice" where
  "mutilchainCreditAddressRows rows N offset =
     (case rows of
        None \<Rightarrow> None
      | Some rs \<Rightarrow>
          if offset \<ge> length rs then Some [] else Some (page_loop (\<lambda>_. True) N offset 0 [] rs))"

definition mutilchainDebitAddressRows :: "MutilchainAddressRow slice \<Rightarrow> nat \<Rightarrow> nat \<Rightarrow> MutilchainAddressRow slice" where
  "mutilchainDebitAddressRows rows N offset =
     (case rows of
        None \<Rightarrow> None
      | Some rs \<Rightarrow>
          if offset \<ge> length rs then Some [] else Some (page_loop (\<lambda>_. True) N offset 0 [] rs))"

definition unspentMutilchainCreditAddressRows ::
  "MutilchainAddressRow slice \<Rightarrow> nat \<Rightarrow> nat \<Rightarrow> MutilchainAddressRow slice" where
  "unspentMutilchainCreditAddressRows rows N offset =
     (case rows of
        None \<Rightarrow> None
      | Some rs \<Rightarrow>
          if offset \<ge> length rs then Some []
          else Some (page_loop (\<lambda>r. \<not> (xFundingTxHash r \<noteq> [] \<and> xSpendingTxHash r \<noteq> [])) N offset 0 [] rs))"

definition AllCreditAddressRows :: "AddressRow list \<Rightarrow> AddressRow list" where
  "AllCreditAddressRows rows =
     (if fst (CountCreditDebitRows rows) = 0 then []
      else foldl (\<lambda>out r. if IsFunding r then out @ [r] else out) [] rows)"

definition AllDebitAddressRows :: "AddressRow list \<Rightarrow> AddressRow list" where
  "AllDebitAddressRows rows =
     (if snd (CountCreditDebitRows rows) = 0 then []
      else foldl (\<lambda>out r. if \<not> IsFunding r then out @ [r] else out) [] rows)"

text \<open>The row slices that travel as an \<open>interface{}\<close>; any other dynamic type is \<open>RowsOther\<close>.\<close>

datatype tx_rows =
    RowsCompact "AddressRowCompact slice"
  | RowsMerged "AddressRowMerged slice"
  | RowsOther

fun CreditAddressRows :: "tx_rows \<Rightarrow> nat \<Rightarrow> nat \<Rightarrow> tx_rows option" where
  "CreditAddressRows (RowsCompact r) N offset = Some (RowsCompact (creditAddressRows r N offset))"
| "CreditAddressRows (RowsMerged r) N offset = Some (RowsMerged (creditAddressRowsMerged r N offset))"
| "CreditAddressRows RowsOther N offset = None"

fun DebitAddressRows :: "tx_rows \<Rightarrow> nat \<Rightarrow> nat \<Rightarrow> tx_rows option" where
  "DebitAddressRows (RowsCompact r) N offset = Some (RowsCompact (debitAddressRows r N offset))"
| "DebitAddressRows (RowsMerged r) N offset = Some (RowsMerged (debitAddressRowsMerged r N offset))"
| "DebitAddressRows RowsOther N offset = None"

section \<open>Cache items\<close>

record AddressBalance =
  balAddress :: string
  NumSpent :: int
  NumUnspent :: int
  TotalSpent :: int
  TotalUnspent :: int
  TotalReceived :: int
  FromStake :: float64
  ToStake :: float64

definition zero_balance :: AddressBalance where
  "zero_balance = \<lparr>balAddress = [], NumSpent = 0, NumUnspent = 0, TotalSpent = 0, TotalUnspent = 0,
     TotalReceived = 0, FromStake = 0, ToStake = 0\<rparr>"

record AddressTxnOutput =
  outAddress :: string
  outPkScript :: string
  outTxHash :: Hash
  outVout :: u32
  outHeight :: int
  outBlockTime :: int
  outAtoms :: int

record MutilchainAddressTxnOutput =
  xoutAddress :: string
  xoutPkScript :: string
  xoutTxHash :: string
  xoutVout :: u32
  xoutHeight :: int
  xoutBlockTime :: int
  xoutAtoms :: int

datatype HistoryChart = TxsType | AmountFlow | ChartUnknown

definition NumIntervals :: int where
  "NumIntervals = 5"

record 'c TxHistory =
  TypeByInterval :: "'c option list"
  AmtFlowByInterval :: "'c option list"

definition new_history :: "'c TxHistory" where
  "new_history = \<lparr>TypeByInterval = replicate 5 None, AmtFlowByInterval = replicate 5 None\<rparr>"

definition TxHistory_Clear :: "'c TxHistory \<Rightarrow> 'c TxHistory" where
  "TxHistory_Clear th =
     th\<lparr>TypeByInterval := foldl (\<lambda>xs i. xs[i := None]) (TypeByInterval th) [0..<nat NumIntervals],
        AmtFlowByInterval := foldl (\<lambda>xs i. xs[i := None]) (AmtFlowByInterval th) [0..<nat NumIntervals]\<rparr>"

record BlockID =
  bHash :: Hash
  bHeight :: int

record MutilchainBlockID =
  xbHash :: string
  xbHeight :: int

record 'c AddressCacheItem =
  balance :: "AddressBalance option"
  rows :: "AddressRowCompact slice"
  utxos :: "AddressTxnOutput slice"
  history :: "'c TxHistory"
  height :: int
  hash :: Hash

record 'c MutilchainAddressCacheItem =
  xbalance :: "AddressBalance option"
  xrows :: "MutilchainAddressRow slice"
  xutxos :: "MutilchainAddressTxnOutput slice"
  xhistory :: "'c TxHistory"
  xheight :: int
  xhash :: string

text \<open>The zero items at a block, which the composite literals of the code start from.\<close>

definition new_item :: "BlockID \<Rightarrow> 'c AddressCacheItem" where
  "new_item block = \<lparr>balance = None, rows = None, utxos = None, history = new_history,
     height = bHeight block, hash = bHash block\<rparr>"

definition new_xitem :: "MutilchainBlockID \<Rightarrow> 'c MutilchainAddressCacheItem" where
  "new_xitem block = \<lparr>xbalance = None, xrows = None, xutxos = None, xhistory = new_history,
     xheight = xbHeight block, xhash = xbHash block\<rparr>"

definition NewBlockID :: "Hash \<Rightarrow> int \<Rightarrow> BlockID" where
  "NewBlockID h n = \<lparr>bHash = h, bHeight = n\<rparr>"

definition NewMutilchainBlockID :: "string \<Rightarrow> int \<Rightarrow> MutilchainBlockID" where
  "NewMutilchainBlockID h n = \<lparr>xbHash = h, xbHeight = n\<rparr>"

definition blockID :: "'c AddressCacheItem \<Rightarrow> BlockID" where
  "blockID d = \<lparr>bHash = hash d, bHeight = height d\<rparr>"

definition mutilchainBlockID :: "'c MutilchainAddressCacheItem \<Rightarrow> MutilchainBlockID" where
  "mutilchainBlockID d = \<lparr>xbHash = xhash d, xbHeight = xheight d\<rparr>"

definition BlockHash :: "'c AddressCacheItem \<Rightarrow> Hash" where
  "BlockHash d = hash d"

definition MutilchainBlockHash :: "'c MutilchainAddressCacheItem \<Rightarrow> string" where
  "MutilchainBlockHash d = xhash d"

definition BlockHeight :: "'c AddressCacheItem \<Rightarrow> int" where
  "BlockHeight d = height d"

definition MutilchainBlockHeight :: "'c MutilchainAddressCacheItem \<Rightarrow> int" where
  "MutilchainBlockHeight d = xheight d"

definition item_Balance :: "'c AddressCacheItem \<Rightarrow> AddressBalance option \<times> BlockID option" where
  "item_Balance d = (if balance d = None then (None, None) else (balance d, Some (blockID d)))"

definition item_MutilchainBalance ::
  "'c MutilchainAddressCacheItem \<Rightarrow> AddressBalance option \<times> MutilchainBlockID option" where
  "item_MutilchainBalance d =
     (if xbalance d = None then (None, None) else (xbalance d, Some (mutilchainBlockID d)))"

definition item_UTXOs :: "'c AddressCacheItem \<Rightarrow> AddressTxnOutput slice \<times> BlockID option" where
  "item_UTXOs d = (if utxos d = None then (None, None) else (utxos d, Some (blockID d)))"

text \<open>The grouping is a signed byte; a negative one indexes the array out of range and panics.\<close>

definition item_HistoryChart ::
  "HistoryChart \<Rightarrow> int \<Rightarrow> 'c AddressCacheItem \<Rightarrow> ('c option \<times> BlockID option, unit) go_result" where
  "item_HistoryChart addrChart chartGrouping d =
     (if chartGrouping \<ge> NumIntervals then Ret (None, None)
      else
        let cd = (case addrChart of
              TxsType \<Rightarrow> idx (TypeByInterval (history d)) chartGrouping
            | AmountFlow \<Rightarrow> idx (AmtFlowByInterval (history d)) chartGrouping
            | ChartUnknown \<Rightarrow> Some None)
        in case cd of
             None \<Rightarrow> Panics
           | Some None \<Rightarrow> Ret (None, None)
           | Some (Some c) \<Rightarrow> Ret (Some c, Some (blockID d)))"

definition item_Rows :: "'c AddressCacheItem \<Rightarrow> AddressRowCompact slice \<times> BlockID option" where
  "item_Rows d = (if rows d = None then (None, None) else (rows d, Some (blockID d)))"

definition item_NumRows :: "'c AddressCacheItem \<Rightarrow> int \<times> BlockID option" where
  "item_NumRows d =
     (case rows d of None \<Rightarrow> (-1, None) | Some rs \<Rightarrow> (int (length rs), Some (blockID d)))"

text \<open>\<open>setBlock\<close> compares the hash alone.\<close>

definition setBlock :: "BlockID \<Rightarrow> 'c AddressCacheItem \<Rightarrow> 'c AddressCacheItem" where
  "setBlock block d =
     (if bHash block = hash d then d
      else d\<lparr>hash := bHash block, height := bHeight block, utxos := None,
             history := TxHistory_Clear (history d), balance := None, rows := None\<rparr>)"

definition SetRows :: "BlockID \<Rightarrow> AddressRowCompact slice \<Rightarrow> 'c AddressCacheItem \<Rightarrow> 'c AddressCacheItem" where
  "SetRows block rs d = (setBlock block d)\<lparr>rows := rs\<rparr>"

definition SetUTXOs :: "BlockID \<Rightarrow> AddressTxnOutput slice \<Rightarrow> 'c AddressCacheItem \<Rightarrow> 'c AddressCacheItem" where
  "SetUTXOs block us d = (setBlock block d)\<lparr>utxos := us\<rparr>"

definition SetBalance :: "BlockID \<Rightarrow> AddressBalance option \<Rightarrow> 'c AddressCacheItem \<Rightarrow> 'c AddressCacheItem" where
  "SetBalance block bal d = (setBlock block d)\<lparr>balance := bal\<rparr>"

section \<open>Transactions of an item\<close>

text \<open>
  The year and the month of a Unix second in UTC, in the proleptic Gregorian calendar of the
  \<open>time\<close> package: years are counted from March in eras of 400 years.
\<close>

definition civil_year_month :: "int \<Rightarrow> int \<times> int" where
  "civil_year_month secs =
     (let z = secs div 86400 + 719468;
          era = z div 146097;
          doe = z mod 146097;
          yoe = (doe - doe div 1460 + doe div 36524 - doe div 146096) div 365;
          doy = doe - (365 * yoe + yoe div 4 - yoe div 100);
          mp = (5 * doy + 2) div 153;
          m = (if mp < 10 then mp + 3 else mp - 9)
      in (yoe + era * 400 + (if m \<le> 2 then 1 else 0), m))"

datatype ac_error =
    InvalidOffsetOrN int int
  | InvalidTxView AddrTxnViewType
  | UnrecognizedTxView AddrTxnViewType
  | WrongRowType

definition rows_of_period :: "int \<Rightarrow> int \<Rightarrow> AddressRowCompact list \<Rightarrow> AddressRowCompact list" where
  "rows_of_period year month rs =
     (if year = 0 then rs
      else if month = 0
      then foldl (\<lambda>out r. if fst (civil_year_month (cTxBlockTime r)) = year then out @ [r] else out) [] rs
      else foldl (\<lambda>out r. if civil_year_month (cTxBlockTime r) = (year, month) then out @ [r] else out) [] rs)"

definition item_Transactions ::
  "int \<Rightarrow> int \<Rightarrow> AddrTxnViewType \<Rightarrow> int \<Rightarrow> int \<Rightarrow> 'c AddressCacheItem
     \<Rightarrow> (tx_rows \<times> BlockID option, ac_error) go_result" where
  "item_Transactions N offset txnView year month d =
     (if offset < 0 \<or> N < 0 then Fail (InvalidOffsetOrN offset N)
      else case view_IsMerged txnView of
        Fail _ \<Rightarrow> Fail (InvalidTxView txnView)
      | Panics \<Rightarrow> Panics
      | Ret merged \<Rightarrow>
          (case rows d of
             None \<Rightarrow> Ret (if merged then RowsMerged None else RowsCompact None, None)
           | Some rs \<Rightarrow>
               let numRows = int (length rs) in
               if N = 0 \<or> numRows = 0 \<or> offset \<ge> numRows
               then Ret (if merged then RowsMerged (Some []) else RowsCompact (Some []), Some (blockID d))
               else
                 let rowData = rows_of_period year month rs in
                 (case txnView of
                    AddrTxnAll \<Rightarrow> Ret (RowsCompact (addressRows (Some rowData) (nat N) (nat offset)), Some (blockID d))
                  | AddrTxnCredit \<Rightarrow> Ret (RowsCompact (creditAddressRows (Some rowData) (nat N) (nat offset)), Some (blockID d))
                  | AddrTxnDebit \<Rightarrow> Ret (RowsCompact (debitAddressRows (Some rowData) (nat N) (nat offset)), Some (blockID d))
                  | AddrUnspentTxn \<Rightarrow> Ret (RowsCompact (unspentCreditAddressRows (Some rowData) (nat N) (nat offset)), Some (blockID d))
                  | AddrTxnUnknown \<Rightarrow> Fail (UnrecognizedTxView txnView)
                  | _ \<Rightarrow> Ret (RowsMerged (MergeRowsCompactRange rowData N offset txnView), Some (blockID d)))))"

definition item_MutilchainTransactions ::
  "int \<Rightarrow> int \<Rightarrow> AddrTxnViewType \<Rightarrow> 'c MutilchainAddressCacheItem
     \<Rightarrow> (MutilchainAddressRow slice \<times> MutilchainBlockID option, ac_error) go_result" where
  "item_MutilchainTransactions N offset txnView d =
     (if offset < 0 \<or> N < 0 then Fail (InvalidOffsetOrN offset N)
      else case xrows d of
        None \<Rightarrow> Ret (None, None)
      | Some rs \<Rightarrow>
          let numRows = int (length rs) in
          if N = 0 \<or> numRows = 0 \<or> offset \<ge> numRows then Ret (None, Some (mutilchainBlockID d))
          else
            (case txnView of
               AddrTxnAll \<Rightarrow> Ret (MutilchainAddressRows (Some rs) (nat N) (nat offset), Some (mutilchainBlockID d))
             | AddrTxnCredit \<Rightarrow> Ret (mutilchainCreditAddressRows (Some rs) (nat N) (nat offset), Some (mutilchainBlockID d))
             | AddrTxnDebit \<Rightarrow> Ret (mutilchainDebitAddressRows (Some rs) (nat N) (nat offset), Some (mutilchainBlockID d))
             | AddrUnspentTxn \<Rightarrow> Ret (unspentMutilchainCreditAddressRows (Some rs) (nat N) (nat offset), Some (mutilchainBlockID d))
             | _ \<Rightarrow> Fail (UnrecognizedTxView txnView)))"

section \<open>Lemmas\<close>

lemma foldl_filter: "foldl (\<lambda>out r. if P r then out @ [r] else out) acc xs = acc @ filter P xs"
  by (induction xs arbitrary: acc) auto

lemma AllCreditAddressRows_eq: "AllCreditAddressRows rs = filter IsFunding rs"
  by (simp add: AllCreditAddressRows_def CountCreditDebitRows_eq foldl_filter)

lemma AllDebitAddressRows_eq: "AllDebitAddressRows rs = filter (\<lambda>r. \<not> IsFunding r) rs"
  by (simp add: AllDebitAddressRows_def CountCreditDebitRows_eq foldl_filter)

lemma CountCreditDebitRowsCompact_eq: "CountCreditDebitRowsCompact rs
    = (length (filter cIsFunding rs), length (filter (\<lambda>r. \<not> cIsFunding r) rs))"
  by (induction rs) auto

lemma CountCreditDebitRowsMerged_eq: "CountCreditDebitRowsMerged rs
    = (length (filter merged_IsFunding rs), length (filter (\<lambda>r. \<not> merged_IsFunding r) rs))"
  by (induction rs) auto

lemma CountUnspentCreditRowsCompact_eq: "CountUnspentCreditRowsCompact rs
    = length (filter (\<lambda>r. cIsFunding r \<and> IsZeroHash (cMatchingTxHash r)) rs)"
  by (induction rs) auto

definition in_period :: "int \<Rightarrow> int \<Rightarrow> AddressRowCompact \<Rightarrow> bool" where
  "in_period year month r \<longleftrightarrow> year = 0 \<or>
     (month = 0 \<and> fst (civil_year_month (cTxBlockTime r)) = year) \<or>
     (month \<noteq> 0 \<and> civil_year_month (cTxBlockTime r) = (year, month))"

lemma rows_of_period_eq: "rows_of_period year month rs = filter (in_period year month) rs"
proof -
  have "year = 0 \<Longrightarrow> in_period year month = (\<lambda>_. True)"
    "year \<noteq> 0 \<Longrightarrow> month = 0 \<Longrightarrow>
       in_period year month = (\<lambda>r. fst (civil_year_month (cTxBlockTime r)) = year)"
    "year \<noteq> 0 \<Longrightarrow> month \<noteq> 0 \<Longrightarrow>
       in_period year month = (\<lambda>r. civil_year_month (cTxBlockTime r) = (year, month))"
    by (auto simp: in_period_def)
  then show ?thesis by (simp add: rows_of_period_def foldl_filter)
qed

text \<open>The rows that a view of compact rows shows.\<close>

definition compact_keep :: "AddrTxnViewType \<Rightarrow> AddressRowCompact \<Rightarrow> bool" where
  "compact_keep v r =
     (case v of
        AddrTxnAll \<Rightarrow> True
      | AddrTxnCredit \<Rightarrow> cIsFunding r
      | AddrTxnDebit \<Rightarrow> \<not> cIsFunding r
      | AddrUnspentTxn \<Rightarrow> cIsFunding r \<and> IsZeroHash (cMatchingTxHash r)
      | _ \<Rightarrow> False)"

lemma compact_keep_eqs:
  "compact_keep AddrTxnAll = (\<lambda>_. True)" "compact_keep AddrTxnCredit = cIsFunding"
  "compact_keep AddrTxnDebit = (\<lambda>r. \<not> cIsFunding r)"
  "compact_keep AddrUnspentTxn = (\<lambda>r. cIsFunding r \<and> IsZeroHash (cMatchingTxHash r))"
  by (rule ext, simp add: compact_keep_def)+

lemma addressRows_page: "0 < N \<Longrightarrow> elems (addressRows (Some rs) N offset) = take N (drop offset rs)"
  by (auto simp: addressRows_def subslice_eq_take_drop Let_def min_def)

lemma MutilchainAddressRows_page: "0 < N \<Longrightarrow>
    elems (MutilchainAddressRows (Some rs) N offset) = take N (drop offset rs)"
  by (auto simp: MutilchainAddressRows_def subslice_eq_take_drop Let_def min_def)

lemma creditAddressRows_page: "0 < N \<Longrightarrow>
    elems (creditAddressRows (Some rs) N offset) = take N (drop offset (filter cIsFunding rs))"
  using page_min [of N offset cIsFunding rs]
  by (simp add: creditAddressRows_def CountCreditDebitRowsCompact_eq Let_def drop_filter_past not_le)

lemma creditAddressRowsMerged_page: "0 < N \<Longrightarrow>
    elems (creditAddressRowsMerged (Some rs) N offset) = take N (drop offset (filter merged_IsFunding rs))"
  using page_min [of N offset merged_IsFunding rs]
  by (simp add: creditAddressRowsMerged_def CountCreditDebitRowsMerged_eq Let_def drop_filter_past not_le)

lemma unspentCreditAddressRows_page: "0 < N \<Longrightarrow> elems (unspentCreditAddressRows (Some rs) N offset)
    = take N (drop offset (filter (\<lambda>r. cIsFunding r \<and> IsZeroHash (cMatchingTxHash r)) rs))"
  using page_min [of N offset "\<lambda>r. cIsFunding r \<and> IsZeroHash (cMatchingTxHash r)" rs]
  by (simp add: unspentCreditAddressRows_def CountUnspentCreditRowsCompact_eq Let_def drop_filter_past not_le)

text \<open>The debit functions have no early return for an offset past the matching rows.\<close>

lemma page_min_any:
  assumes "0 < N"
  shows "page_loop keep (if length (filter keep rs) < N then length (filter keep rs) else N)
      offset 0 [] rs = take N (drop offset (filter keep rs))"
proof (cases "filter keep rs = []")
  case True
  then show ?thesis by (simp add: page_loop_no_rows)
next
  case False
  then have "0 < length (filter keep rs)" by simp
  from page_loop_eq [OF this, of keep offset rs] page_loop_eq [OF assms, of keep offset rs]
  show ?thesis by simp
qed

lemma debitAddressRows_page: "0 < N \<Longrightarrow> elems (debitAddressRows (Some rs) N offset)
    = take N (drop offset (filter (\<lambda>r. \<not> cIsFunding r) rs))"
  using page_min_any [of N "\<lambda>r. \<not> cIsFunding r" rs offset]
  by (simp add: debitAddressRows_def CountCreditDebitRowsCompact_eq Let_def drop_filter_past)

lemma debitAddressRowsMerged_page: "0 < N \<Longrightarrow> elems (debitAddressRowsMerged (Some rs) N offset)
    = take N (drop offset (filter (\<lambda>r. \<not> merged_IsFunding r) rs))"
  using page_min_any [of N "\<lambda>r. \<not> merged_IsFunding r" rs offset]
  by (simp add: debitAddressRowsMerged_def CountCreditDebitRowsMerged_eq Let_def drop_filter_past)

lemma mutilchainCredit_page: "0 < N \<Longrightarrow>
    elems (mutilchainCreditAddressRows (Some rs) N offset) = take N (drop offset rs)"
  by (simp add: mutilchainCreditAddressRows_def page_loop_eq)

lemma mutilchainDebit_page: "0 < N \<Longrightarrow>
    elems (mutilchainDebitAddressRows (Some rs) N offset) = take N (drop offset rs)"
  by (simp add: mutilchainDebitAddressRows_def page_loop_eq)

lemma item_Transactions_eq:
  assumes "rows d = Some rs" and "v \<in> {AddrTxnAll, AddrTxnCredit, AddrTxnDebit, AddrUnspentTxn}"
    and "0 \<le> N" and "0 \<le> offset"
  shows "\<exists>page. item_Transactions N offset v year month d = Ret (RowsCompact page, Some (blockID d)) \<and>
    elems page = take (nat N) (drop (nat offset) (filter (compact_keep v) (filter (in_period year month) rs)))"
proof (cases "N = 0 \<or> length rs = 0 \<or> int (length rs) \<le> offset")
  case True
  then have "item_Transactions N offset v year month d = Ret (RowsCompact (Some []), Some (blockID d))"
    using assms by (auto simp: item_Transactions_def Let_def)
  moreover have "take (nat N) (drop (nat offset) (filter (compact_keep v) (filter (in_period year month) rs))) = []"
    using True drop_filter_past [of rs "nat offset" "\<lambda>r. in_period year month r \<and> compact_keep v r"] assms(3,4)
    by (elim disjE) (simp_all add: le_nat_iff)
  ultimately show ?thesis by simp
next
  case False
  then have "0 < nat N" using assms(3) by simp
  then show ?thesis
    using False assms
    by (auto simp: item_Transactions_def Let_def rows_of_period_eq compact_keep_eqs addressRows_page
        creditAddressRows_page debitAddressRows_page unspentCreditAddressRows_page simp del: filter_filter)
qed

section \<open>The lock\<close>

text \<open>Callers that run every \<open>done\<close> they were given at most once.\<close>

inductive cl_step :: "CacheLock \<times> (string \<times> nat) list \<Rightarrow> CacheLock \<times> (string \<times> nat) list \<Rightarrow> bool" where
  acquire: "TryLock addr cl = (cl', False, None, Release addr ch) \<Longrightarrow>
    cl_step (cl, holders) (cl', (addr, ch) # holders)"
| release: "(addr, ch) \<in> set holders \<Longrightarrow> run_done (Release addr ch) cl = (cl', st) \<Longrightarrow>
    cl_step (cl, holders) (cl', removeAll (addr, ch) holders)"

inductive cl_reachable :: "CacheLock \<times> (string \<times> nat) list \<Rightarrow> bool" where
  new_lock: "cl_reachable (NewCacheLock, [])"
| more: "cl_reachable s \<Longrightarrow> cl_step s s' \<Longrightarrow> cl_reachable s'"

definition cl_inv :: "CacheLock \<Rightarrow> (string \<times> nat) list \<Rightarrow> bool" where
  "cl_inv cl holders \<longleftrightarrow> distinct (map fst holders) \<and>
     (\<forall>a ch. mget (addrs cl) a = Some ch \<longleftrightarrow> (a, ch) \<in> set holders) \<and>
     (\<forall>(a, ch) \<in> set holders. ch < nextChan cl \<and> ch \<notin> set (closed cl)) \<and>
     distinct (map snd holders) \<and> (\<forall>ch \<in> set (closed cl). ch < nextChan cl)"

lemma cl_inv_acquire:
  assumes inv: "cl_inv cl holders" and t: "TryLock addr cl = (cl', False, None, Release addr ch)"
  shows "cl_inv cl' ((addr, ch) # holders)"
proof -
  have miss: "mget (addrs cl) addr = None" and ch: "ch = nextChan cl"
    and cl': "cl' = cl\<lparr>addrs := mput addr (nextChan cl) (addrs cl), nextChan := Suc (nextChan cl)\<rparr>"
    using t by (auto simp: TryLock_def cl_hold_def split: option.splits)
  have fresh: "addr \<notin> fst ` set holders"
    using inv miss by (auto simp: cl_inv_def) (metis option.distinct(1))
  have "nextChan cl \<notin> snd ` set holders" "nextChan cl \<notin> set (closed cl)"
    using inv by (auto simp: cl_inv_def)
  with inv fresh show ?thesis
    unfolding cl_inv_def cl' ch by (auto simp: rev_image_eqI less_Suc_eq)
qed

lemma cl_inv_release:
  assumes inv: "cl_inv cl holders" and h: "(addr, ch) \<in> set holders"
  shows "run_done (Release addr ch) cl
      = (cl\<lparr>addrs := mdel addr (addrs cl), closed := ch # closed cl\<rparr>, Ok)"
    and "cl_inv (cl\<lparr>addrs := mdel addr (addrs cl), closed := ch # closed cl\<rparr>) (removeAll (addr, ch) holders)"
proof -
  have open_ch: "ch \<notin> set (closed cl)" "ch < nextChan cl" using inv h by (auto simp: cl_inv_def)
  show "run_done (Release addr ch) cl
      = (cl\<lparr>addrs := mdel addr (addrs cl), closed := ch # closed cl\<rparr>, Ok)"
    using open_ch by simp
  have "inj_on fst (set holders)" "inj_on snd (set holders)"
    using inv by (simp_all add: cl_inv_def distinct_map)
  then have other: "\<And>a c. (a, c) \<in> set holders \<Longrightarrow> (a, c) \<noteq> (addr, ch) \<Longrightarrow> a \<noteq> addr \<and> c \<noteq> ch"
    using h by (metis fst_conv snd_conv inj_onD)
  have d: "distinct (map fst (removeAll (addr, ch) holders))" "distinct (map snd (removeAll (addr, ch) holders))"
    using inv by (auto simp: cl_inv_def distinct_map inj_on_def distinct_removeAll)
  show "cl_inv (cl\<lparr>addrs := mdel addr (addrs cl), closed := ch # closed cl\<rparr>) (removeAll (addr, ch) holders)"
    using inv open_ch d other by (auto simp: cl_inv_def)
qed

lemma cl_step_inv: "cl_step s s' \<Longrightarrow> cl_inv (fst s) (snd s) \<Longrightarrow> cl_inv (fst s') (snd s')"
proof (induction rule: cl_step.induct)
  case (acquire addr cl cl' ch holders)
  then show ?case by (simp add: cl_inv_acquire)
next
  case (release addr ch holders cl cl' st)
  then show ?case using cl_inv_release [of cl holders addr ch] by (simp del: run_done.simps)
qed

lemma cl_reachable_inv: "cl_reachable s \<Longrightarrow> cl_inv (fst s) (snd s)"
proof (induction rule: cl_reachable.induct)
  case new_lock
  then show ?case by (simp add: cl_inv_def NewCacheLock_def)
qed (rule cl_step_inv)

section \<open>Properties\<close>

text \<open>
  A page of the cached transactions of an address, for the views of regular rows and with or
  without a restriction to a year or a month, is the window of the rows of the period that the view
  keeps, together with the block the item belongs to. The view of unspent credits is right here.
\<close>

theorem item_Transactions_page:
  assumes "rows d = Some rs" and "v \<in> {AddrTxnAll, AddrTxnCredit, AddrTxnDebit, AddrUnspentTxn}"
    and "0 \<le> N" and "0 \<le> offset"
  shows "\<exists>page. item_Transactions N offset v year month d
      = Ret (RowsCompact page, Some \<lparr>bHash = hash d, bHeight = height d\<rparr>) \<and>
    elems page = take (nat N) (drop (nat offset)
      (filter (\<lambda>r. in_period year month r \<and> compact_keep v r) rs))"
  using item_Transactions_eq [OF assms, of year month] by (simp add: blockID_def)

definition demo_item :: "unit AddressCacheItem" where
  "demo_item = (new_item \<lparr>bHash = zeroHash, bHeight = 7\<rparr>)
     \<lparr>rows := Some [demo_row 1 True 5, demo_row 1 False 2, demo_row 2 True 1]\<rparr>"

lemma civil_epoch: "civil_year_month 0 = (1970, 1)"
  by code_simp

lemma civil_leap_day: "civil_year_month 1709164800 = (2024, 2)"
  by code_simp

lemma item_Transactions_page_witness:
  "\<exists>page. item_Transactions 1 1 AddrTxnCredit 1970 1 demo_item
      = Ret (RowsCompact page, Some \<lparr>bHash = zeroHash, bHeight = 7\<rparr>) \<and> elems page = [demo_row 2 True 1]"
proof -
  let ?rs = "[demo_row 1 True 5, demo_row 1 False 2, demo_row 2 True 1]"
  have keep: "(in_period 1970 1 (demo_row n f v) \<and> compact_keep AddrTxnCredit (demo_row n f v)) = f" for n f v
    by (simp add: in_period_def demo_row_def civil_epoch compact_keep_def)
  have d: "rows demo_item = Some ?rs" "hash demo_item = zeroHash" "height demo_item = 7"
    by (simp_all add: demo_item_def new_item_def)
  have v: "AddrTxnCredit \<in> {AddrTxnAll, AddrTxnCredit, AddrTxnDebit, AddrUnspentTxn}" by simp
  show ?thesis
    using item_Transactions_page [OF d(1) v, of 1 1 1970 1] by (simp add: keep d)
qed

text \<open>
  For the other chains the views of the credits and of the debits are not filtered: a page of
  either is the window of all rows, as for the view of all.
\<close>

theorem item_MutilchainTransactions_unfiltered:
  assumes "xrows d = Some rs" and "v \<in> {AddrTxnAll, AddrTxnCredit, AddrTxnDebit}"
    and "0 \<le> N" and "0 \<le> offset"
  shows "\<exists>page. item_MutilchainTransactions N offset v d
      = Ret (page, Some \<lparr>xbHash = xhash d, xbHeight = xheight d\<rparr>) \<and>
    elems page = take (nat N) (drop (nat offset) rs)"
proof (cases "N = 0 \<or> length rs = 0 \<or> int (length rs) \<le> offset")
  case True
  then have "item_MutilchainTransactions N offset v d = Ret (None, Some (mutilchainBlockID d))"
    using assms by (auto simp: item_MutilchainTransactions_def Let_def)
  moreover have "take (nat N) (drop (nat offset) rs) = []"
    using True assms(3,4) by (elim disjE) (simp_all add: le_nat_iff)
  ultimately show ?thesis by (simp add: mutilchainBlockID_def)
next
  case False
  then have "0 < nat N" using assms(3) by simp
  then show ?thesis
    using False assms
    by (auto simp: item_MutilchainTransactions_def Let_def mutilchainBlockID_def MutilchainAddressRows_page
        mutilchainCredit_page mutilchainDebit_page)
qed

definition demo_xrow :: "u64 \<Rightarrow> u64 \<Rightarrow> MutilchainAddressRow" where
  "demo_xrow c d = \<lparr>xAddress = ''addr'', xFundingTxDbID = 0, xFundingTxHash = ''f'', xFundingTxVoutIndex = 0,
     xVoutDbID = 0, xValue = c, xSpendingTxDbID = 0, xSpendingTxHash = [], xSpendingTxVinIndex = 0,
     xVinDbID = 0, xCredit = c, xDebit = d\<rparr>"

lemma item_MutilchainTransactions_unfiltered_witness:
  "\<exists>page. item_MutilchainTransactions 5 0 AddrTxnDebit
      ((new_xitem \<lparr>xbHash = ''h'', xbHeight = 3\<rparr> :: unit MutilchainAddressCacheItem)\<lparr>xrows := Some [demo_xrow 4 0]\<rparr>)
      = Ret (page, Some \<lparr>xbHash = ''h'', xbHeight = 3\<rparr>) \<and> elems page = [demo_xrow 4 0]"
  using item_MutilchainTransactions_unfiltered [of "(new_xitem \<lparr>xbHash = ''h'', xbHeight = 3\<rparr>)
      \<lparr>xrows := Some [demo_xrow 4 0]\<rparr>" "[demo_xrow 4 0]" AddrTxnDebit 5 0]
  by (simp add: new_xitem_def)

text \<open>
  C33. When callers run each \<open>done\<close> at most once, the lock of an address has one holder at a time:
  the entries of the lock are exactly the locks that are held, no address is held twice, and the
  channel of a held lock is open. Running the \<open>done\<close> of a holder succeeds, so it never closes a
  channel twice, and the address can then be locked again.
\<close>

theorem CacheLock_exclusive:
  assumes "cl_reachable (cl, holders)"
  shows "distinct (map fst holders) \<and>
    (\<forall>a ch. mget (addrs cl) a = Some ch \<longleftrightarrow> (a, ch) \<in> set holders) \<and>
    (\<forall>a ch. (a, ch) \<in> set holders \<longrightarrow> ch \<notin> set (closed cl) \<and>
       (\<exists>cl'. run_done (Release a ch) cl = (cl', Ok) \<and> fst (snd (TryLock a cl')) = False))"
proof -
  have inv: "cl_inv cl holders" using cl_reachable_inv [OF assms] by simp
  have step: "(a, ch) \<in> set holders \<Longrightarrow> ch \<notin> set (closed cl) \<and>
      (\<exists>cl'. run_done (Release a ch) cl = (cl', Ok) \<and> fst (snd (TryLock a cl')) = False)" for a ch
    using cl_inv_release(1) [OF inv, of a ch] inv
    by (auto simp: cl_inv_def TryLock_def cl_hold_def simp del: run_done.simps)
  show ?thesis using inv step by (simp add: cl_inv_def del: run_done.simps)
qed

lemma CacheLock_exclusive_witness:
  "\<exists>cl. fst (TryLock ''a'' NewCacheLock) = cl \<and> mget (addrs cl) ''a'' = Some 0 \<and>
     (\<exists>cl'. run_done (Release ''a'' 0) cl = (cl', Ok))"
proof -
  obtain cl where t: "TryLock ''a'' NewCacheLock = (cl, False, None, Release ''a'' 0)"
    by (simp add: TryLock_def cl_hold_def NewCacheLock_def)
  have "cl_reachable (cl, [(''a'', 0)])"
    by (rule cl_reachable.more [OF cl_reachable.new_lock cl_step.acquire [OF t]])
  from CacheLock_exclusive [OF this] t show ?thesis by auto
qed

end
