(* ===== verification/AddressCache.thy ===== *)
theory AddressCache
  imports CacheItems
begin

text \<open>
  The address cache of \<open>db/cache/addresscache.go\<close>: the map of items of the main chain and the two
  maps of the other chains, their capacities, the eviction loops, and every operation that reads,
  stores or clears data.

  The mutex is not modelled: every operation holds it while it touches the maps. A map may be nil,
  which can be read but not written. The order in which \<open>range\<close> visits a map is not defined, so it
  is the parameter \<open>ord\<close>, any arrangement of the keys. An eviction loop ends each scan of the map
  with a smaller map or with the same one, so an order that depends on the keys alone covers every
  run up to the first scan that changes nothing, and the scans after it change nothing either.

  The eviction loops may not end. They take fuel, one unit for each scan, and \<open>NoReturn\<close> stands for
  a run that has not ended with the fuel given.
\<close>

section \<open>Results\<close>

datatype 'a run = Done 'a | Crash | NoReturn

fun run_map :: "('a \<Rightarrow> 'b) \<Rightarrow> 'a run \<Rightarrow> 'b run" where
  "run_map f (Done x) = Done (f x)"
| "run_map f Crash = Crash"
| "run_map f NoReturn = NoReturn"

section \<open>The cache\<close>

record cacheMetrics =
  rowHits :: nat
  rowMisses :: nat
  utxoHits :: nat
  utxoMisses :: nat
  balanceHits :: nat
  balanceMisses :: nat
  historyHits :: nat
  historyMisses :: nat

definition no_metrics :: cacheMetrics where
  "no_metrics = \<lparr>rowHits = 0, rowMisses = 0, utxoHits = 0, utxoMisses = 0, balanceHits = 0,
     balanceMisses = 0, historyHits = 0, historyMisses = 0\<rparr>"

definition rowHit :: "cacheMetrics \<Rightarrow> cacheMetrics" where
  "rowHit cm = cm\<lparr>rowHits := Suc (rowHits cm)\<rparr>"

definition rowMiss :: "cacheMetrics \<Rightarrow> cacheMetrics" where
  "rowMiss cm = cm\<lparr>rowMisses := Suc (rowMisses cm)\<rparr>"

definition utxoHit :: "cacheMetrics \<Rightarrow> cacheMetrics" where
  "utxoHit cm = cm\<lparr>utxoHits := Suc (utxoHits cm)\<rparr>"

definition utxoMiss :: "cacheMetrics \<Rightarrow> cacheMetrics" where
  "utxoMiss cm = cm\<lparr>utxoMisses := Suc (utxoMisses cm)\<rparr>"

definition balanceHit :: "cacheMetrics \<Rightarrow> cacheMetrics" where
  "balanceHit cm = cm\<lparr>balanceHits := Suc (balanceHits cm)\<rparr>"

definition balanceMiss :: "cacheMetrics \<Rightarrow> cacheMetrics" where
  "balanceMiss cm = cm\<lparr>balanceMisses := Suc (balanceMisses cm)\<rparr>"

definition historyHit :: "cacheMetrics \<Rightarrow> cacheMetrics" where
  "historyHit cm = cm\<lparr>historyHits := Suc (historyHits cm)\<rparr>"

definition historyMiss :: "cacheMetrics \<Rightarrow> cacheMetrics" where
  "historyMiss cm = cm\<lparr>historyMisses := Suc (historyMisses cm)\<rparr>"

type_synonym 'c item_map = "(string, 'c AddressCacheItem) gomap"
type_synonym 'c xitem_map = "(string, 'c MutilchainAddressCacheItem) gomap"

text \<open>The field \<open>a\<close> of the code is \<open>a_map\<close>.\<close>

record 'c AddressCache =
  a_map :: "'c item_map option"
  a_ltc :: "'c xitem_map option"
  a_btc :: "'c xitem_map option"
  cap :: int
  cap_btc :: int
  cap_ltc :: int
  capAddr :: int
  capAddr_btc :: int
  capAddr_ltc :: int
  maxUTXOsPerAddr :: int
  metrics :: cacheMetrics
  ProjectAddress :: string

definition approxTxnOutSize :: int where
  "approxTxnOutSize = 180"

definition TYPELTC :: string where
  "TYPELTC = ''ltc''"

definition TYPEBTC :: string where
  "TYPEBTC = ''btc''"

definition NewAddressCache :: "int \<Rightarrow> int \<Rightarrow> int \<Rightarrow> 'c AddressCache" where
  "NewAddressCache rowCapacity addressCapacity utxoCapacityBytes =
     \<lparr>a_map = Some [], a_ltc = None, a_btc = None, cap = rowCapacity, cap_btc = 0, cap_ltc = 0,
      capAddr = addressCapacity, capAddr_btc = 0, capAddr_ltc = 0,
      maxUTXOsPerAddr = (if addressCapacity > 0
        then trunc_div (trunc_div utxoCapacityBytes approxTxnOutSize) addressCapacity else 0),
      metrics = no_metrics, ProjectAddress = []\<rparr>"

definition NewMutilchainAddressCache :: "int \<Rightarrow> int \<Rightarrow> int \<Rightarrow> string \<Rightarrow> 'c AddressCache" where
  "NewMutilchainAddressCache rowCapacity addressCapacity utxoCapacityBytes chainType =
     (let ac = (NewAddressCache rowCapacity addressCapacity utxoCapacityBytes)\<lparr>a_map := None\<rparr> in
      if chainType = TYPELTC then ac\<lparr>a_ltc := Some []\<rparr>
      else if chainType = TYPEBTC then ac\<lparr>a_btc := Some []\<rparr>
      else ac\<lparr>a_map := Some []\<rparr>)"

text \<open>A nil map reads as an empty one.\<close>

definition items :: "'c AddressCache \<Rightarrow> 'c item_map" where
  "items ac = elems (a_map ac)"

definition set_items :: "'c item_map \<Rightarrow> 'c AddressCache \<Rightarrow> 'c AddressCache" where
  "set_items m ac = ac\<lparr>a_map := (if a_map ac = None then None else Some m)\<rparr>"

text \<open>\<open>ac.a[addr] = aci\<close>, which panics on a nil map.\<close>

definition assign_item :: "string \<Rightarrow> 'c AddressCacheItem \<Rightarrow> 'c AddressCache \<Rightarrow> 'c AddressCache option" where
  "assign_item addr aci ac =
     (case a_map ac of None \<Rightarrow> None | Some m \<Rightarrow> Some (ac\<lparr>a_map := Some (mput addr aci m)\<rparr>))"

definition addressCacheItem :: "string \<Rightarrow> 'c AddressCache \<Rightarrow> 'c AddressCacheItem option" where
  "addressCacheItem addr ac = mget (items ac) addr"

text \<open>For an unknown chain the code returns a new zero item.\<close>

definition MutilchainAddressCacheItem_of ::
  "string \<Rightarrow> string \<Rightarrow> 'c AddressCache \<Rightarrow> 'c MutilchainAddressCacheItem option" where
  "MutilchainAddressCacheItem_of addr chainType ac =
     (if chainType = TYPEBTC then mget (elems (a_btc ac)) addr
      else if chainType = TYPELTC then mget (elems (a_ltc ac)) addr
      else Some (new_xitem \<lparr>xbHash = [], xbHeight = 0\<rparr>))"

definition GetMutilchainAddresCacheItemMap :: "string \<Rightarrow> 'c AddressCache \<Rightarrow> 'c xitem_map option" where
  "GetMutilchainAddresCacheItemMap chainType ac =
     (if chainType = TYPEBTC then a_btc ac
      else if chainType = TYPELTC then a_ltc ac
      else Some [])"

definition GetMutilchainCap :: "string \<Rightarrow> 'c AddressCache \<Rightarrow> int" where
  "GetMutilchainCap chainType ac =
     (if chainType = TYPEBTC then cap_btc ac else if chainType = TYPELTC then cap_ltc ac else cap ac)"

definition GetMutilchainAddrCap :: "string \<Rightarrow> 'c AddressCache \<Rightarrow> int" where
  "GetMutilchainAddrCap chainType ac =
     (if chainType = TYPEBTC then capAddr_btc ac else if chainType = TYPELTC then capAddr_ltc ac
      else capAddr ac)"

text \<open>Storing back the map of a chain, after deletions from it.\<close>

definition set_xitems :: "string \<Rightarrow> 'c xitem_map \<Rightarrow> 'c AddressCache \<Rightarrow> 'c AddressCache" where
  "set_xitems chainType m ac =
     (if chainType = TYPEBTC then ac\<lparr>a_btc := (if a_btc ac = None then None else Some m)\<rparr>
      else if chainType = TYPELTC then ac\<lparr>a_ltc := (if a_ltc ac = None then None else Some m)\<rparr>
      else ac)"

definition DeleteCacheItemMap :: "string \<Rightarrow> string \<Rightarrow> 'c AddressCache \<Rightarrow> 'c AddressCache" where
  "DeleteCacheItemMap key chainType ac =
     (if chainType = TYPEBTC then ac\<lparr>a_btc := map_option (mdel key) (a_btc ac)\<rparr>
      else if chainType = TYPELTC then ac\<lparr>a_ltc := map_option (mdel key) (a_ltc ac)\<rparr>
      else ac)"

definition setMutilchainCacheItemOnMap ::
  "string \<Rightarrow> 'c MutilchainAddressCacheItem \<Rightarrow> string \<Rightarrow> 'c AddressCache \<Rightarrow> 'c AddressCache option" where
  "setMutilchainCacheItemOnMap addr value chainType ac =
     (if chainType = TYPEBTC
      then (case a_btc ac of None \<Rightarrow> None | Some m \<Rightarrow> Some (ac\<lparr>a_btc := Some (mput addr value m)\<rparr>))
      else if chainType = TYPELTC
      then (case a_ltc ac of None \<Rightarrow> None | Some m \<Rightarrow> Some (ac\<lparr>a_ltc := Some (mput addr value m)\<rparr>))
      else Some ac)"

section \<open>Lengths\<close>

definition total_of :: "('i \<Rightarrow> nat) \<Rightarrow> (string, 'i) gomap \<Rightarrow> nat" where
  "total_of n m = sum_list (map (\<lambda>(addr, aci). n aci) m)"

definition num_rows :: "'c AddressCacheItem \<Rightarrow> nat" where
  "num_rows aci = length (elems (rows aci))"

definition num_xrows :: "'c MutilchainAddressCacheItem \<Rightarrow> nat" where
  "num_xrows aci = length (elems (xrows aci))"

definition cache_length :: "'c AddressCache \<Rightarrow> nat \<times> nat \<times> nat" where
  "cache_length ac =
     (length (items ac), total_of num_rows (items ac),
      total_of (\<lambda>aci. length (elems (utxos aci))) (items ac))"

definition mutilchainlength :: "string \<Rightarrow> 'c AddressCache \<Rightarrow> nat \<times> nat \<times> nat" where
  "mutilchainlength chainType ac =
     (let m = elems (GetMutilchainAddresCacheItemMap chainType ac) in
      (length m, total_of num_xrows m, total_of (\<lambda>aci. length (elems (xutxos aci))) m))"

definition NumAddresses :: "'c AddressCache \<Rightarrow> nat" where
  "NumAddresses ac = length (items ac)"

section \<open>Eviction\<close>

text \<open>
  One scan of a map in the first eviction loop: the first item that is not protected is deleted; at a
  protected item the loop is left if the map has one entry, and the scan goes on otherwise. The second
  loop also passes over items without rows, before it looks at the protection.
\<close>

datatype scan = LeaveLoop | Evict string | ScanEnd

fun addr_scan :: "(string \<Rightarrow> bool) \<Rightarrow> nat \<Rightarrow> string list \<Rightarrow> scan" where
  "addr_scan prot n [] = ScanEnd"
| "addr_scan prot n (k # ks) =
     (if prot k then (if n = 1 then LeaveLoop else addr_scan prot n ks) else Evict k)"

fun row_scan :: "(string \<Rightarrow> bool) \<Rightarrow> (string \<Rightarrow> nat) \<Rightarrow> nat \<Rightarrow> string list \<Rightarrow> scan" where
  "row_scan prot nrows n [] = ScanEnd"
| "row_scan prot nrows n (k # ks) =
     (if nrows k = 0 then row_scan prot nrows n ks
      else if prot k then (if n = 1 then LeaveLoop else row_scan prot nrows n ks)
      else Evict k)"

fun clear_addrs ::
  "nat \<Rightarrow> (string list \<Rightarrow> string list) \<Rightarrow> (string \<Rightarrow> bool) \<Rightarrow> int \<Rightarrow> (string, 'i) gomap
     \<Rightarrow> (string, 'i) gomap run" where
  "clear_addrs 0 ord prot capA m = NoReturn"
| "clear_addrs (Suc fuel) ord prot capA m =
     (if int (length m) \<ge> capA
      then (case addr_scan prot (length m) (ord (mkeys m)) of
              LeaveLoop \<Rightarrow> Done m
            | Evict k \<Rightarrow> clear_addrs fuel ord prot capA (mdel k m)
            | ScanEnd \<Rightarrow> clear_addrs fuel ord prot capA m)
      else Done m)"

definition rows_at :: "('i \<Rightarrow> nat) \<Rightarrow> (string, 'i) gomap \<Rightarrow> string \<Rightarrow> nat" where
  "rows_at n m k = (case mget m k of None \<Rightarrow> 0 | Some aci \<Rightarrow> n aci)"

fun clear_rows ::
  "nat \<Rightarrow> (string list \<Rightarrow> string list) \<Rightarrow> (string \<Rightarrow> bool) \<Rightarrow> ('i \<Rightarrow> nat) \<Rightarrow> int \<Rightarrow> int
     \<Rightarrow> (string, 'i) gomap \<Rightarrow> (string, 'i) gomap run" where
  "clear_rows 0 ord prot n capR numRows m = NoReturn"
| "clear_rows (Suc fuel) ord prot n capR numRows m =
     (if total_of n m > 0 \<and> int (total_of n m) + numRows > capR
      then (case row_scan prot (rows_at n m) (length m) (ord (mkeys m)) of
              LeaveLoop \<Rightarrow> Done m
            | Evict k \<Rightarrow> clear_rows fuel ord prot n capR numRows (mdel k m)
            | ScanEnd \<Rightarrow> clear_rows fuel ord prot n capR numRows m)
      else Done m)"

definition purge_to_fit ::
  "nat \<Rightarrow> (string list \<Rightarrow> string list) \<Rightarrow> (string \<Rightarrow> bool) \<Rightarrow> ('i \<Rightarrow> nat) \<Rightarrow> int \<Rightarrow> int \<Rightarrow> int
     \<Rightarrow> (string, 'i) gomap \<Rightarrow> ((string, 'i) gomap \<times> bool) run" where
  "purge_to_fit fuel ord prot n capR capA numRows m =
     (if capR < 1 \<or> capA < 1 then Done (m, False)
      else case clear_addrs fuel ord prot capA m of
        Done m1 \<Rightarrow>
          (case clear_rows fuel ord prot n capR numRows m1 of
             Done m2 \<Rightarrow> Done (m2, int (total_of n m2) + numRows \<le> capR \<and> int (length m2) < capA)
           | Crash \<Rightarrow> Crash
           | NoReturn \<Rightarrow> NoReturn)
      | Crash \<Rightarrow> Crash
      | NoReturn \<Rightarrow> NoReturn)"

definition purgeRowsToFit ::
  "nat \<Rightarrow> (string list \<Rightarrow> string list) \<Rightarrow> int \<Rightarrow> 'c AddressCache \<Rightarrow> ('c AddressCache \<times> bool) run" where
  "purgeRowsToFit fuel ord numRows ac =
     run_map (\<lambda>(m, haveSpace). (set_items m ac, haveSpace))
       (purge_to_fit fuel ord (\<lambda>k. k = ProjectAddress ac) num_rows (cap ac) (capAddr ac) numRows (items ac))"

text \<open>The maps of the other chains have no protected address.\<close>

definition purgeMutilchainRowsToFit ::
  "nat \<Rightarrow> (string list \<Rightarrow> string list) \<Rightarrow> int \<Rightarrow> string \<Rightarrow> 'c AddressCache \<Rightarrow> ('c AddressCache \<times> bool) run" where
  "purgeMutilchainRowsToFit fuel ord numRows chainType ac =
     run_map (\<lambda>(m, haveSpace). (set_xitems chainType m ac, haveSpace))
       (purge_to_fit fuel ord (\<lambda>_. False) num_xrows (GetMutilchainCap chainType ac)
         (GetMutilchainAddrCap chainType ac) numRows (elems (GetMutilchainAddresCacheItemMap chainType ac)))"

section \<open>Storing\<close>

definition addCacheItem ::
  "nat \<Rightarrow> (string list \<Rightarrow> string list) \<Rightarrow> string \<Rightarrow> 'c AddressCacheItem \<Rightarrow> 'c AddressCache
     \<Rightarrow> ('c AddressCache \<times> bool) run" where
  "addCacheItem fuel ord addr aci ac =
     (if cap ac < 1 \<or> capAddr ac < 1 then Done (ac, False)
      else
        let alreadyStored = (case mget (items ac) addr of None \<Rightarrow> 0 | Some aci0 \<Rightarrow> int (num_rows aci0))
        in case purgeRowsToFit fuel ord (int (num_rows aci) - alreadyStored) ac of
             Done (ac', haveSpace) \<Rightarrow>
               if haveSpace
               then (case assign_item addr aci ac' of None \<Rightarrow> Crash | Some ac'' \<Rightarrow> Done (ac'', True))
               else Done (ac', False)
           | Crash \<Rightarrow> Crash
           | NoReturn \<Rightarrow> NoReturn)"

definition addMutilchainCacheItem ::
  "nat \<Rightarrow> (string list \<Rightarrow> string list) \<Rightarrow> string \<Rightarrow> 'c MutilchainAddressCacheItem \<Rightarrow> string
     \<Rightarrow> 'c AddressCache \<Rightarrow> ('c AddressCache \<times> bool) run" where
  "addMutilchainCacheItem fuel ord addr aci chainType ac =
     (if GetMutilchainCap chainType ac < 1 \<or> GetMutilchainAddrCap chainType ac < 1 then Done (ac, False)
      else if chainType \<noteq> TYPEBTC \<and> chainType \<noteq> TYPELTC then Done (ac, False)
      else
        let alreadyStored = (case mget (elems (GetMutilchainAddresCacheItemMap chainType ac)) addr of
              None \<Rightarrow> 0 | Some aci0 \<Rightarrow> int (num_xrows aci0))
        in case purgeMutilchainRowsToFit fuel ord (int (num_xrows aci) - alreadyStored) chainType ac of
             Done (ac', haveSpace) \<Rightarrow>
               if haveSpace
               then (case setMutilchainCacheItemOnMap addr aci chainType ac' of
                       None \<Rightarrow> Crash | Some ac'' \<Rightarrow> Done (ac'', True))
               else Done (ac', False)
           | Crash \<Rightarrow> Crash
           | NoReturn \<Rightarrow> NoReturn)"

text \<open>
  Writing to an item through its pointer. When the item was evicted in the meantime the write goes to
  an item that no map holds, and the cache is as before.
\<close>

definition update_item ::
  "string \<Rightarrow> 'c AddressCacheItem \<Rightarrow> 'c AddressCache \<Rightarrow> 'c AddressCache" where
  "update_item addr aci ac =
     (if mget (items ac) addr = None then ac else set_items (mput addr aci (items ac)) ac)"

definition update_xitem ::
  "string \<Rightarrow> 'c MutilchainAddressCacheItem \<Rightarrow> string \<Rightarrow> 'c AddressCache \<Rightarrow> 'c AddressCache" where
  "update_xitem addr aci chainType ac =
     (let m = elems (GetMutilchainAddresCacheItemMap chainType ac) in
      if mget m addr = None then ac else set_xitems chainType (mput addr aci m) ac)"

definition setCacheItemRows ::
  "nat \<Rightarrow> (string list \<Rightarrow> string list) \<Rightarrow> string \<Rightarrow> AddressRowCompact slice \<Rightarrow> BlockID option
     \<Rightarrow> 'c AddressCache \<Rightarrow> ('c AddressCache \<times> bool) run" where
  "setCacheItemRows fuel ord addr rs block ac =
     (case block of
        None \<Rightarrow> Done (ac, False)
      | Some b \<Rightarrow>
          if cap ac < 1 \<or> capAddr ac < 1 then Done (ac, False)
          else
            (case mget (items ac) addr of
               None \<Rightarrow> addCacheItem fuel ord addr ((new_item b)\<lparr>rows := rs\<rparr>) ac
             | Some aci \<Rightarrow>
                 if BlockHash aci \<noteq> bHash b
                 then addCacheItem fuel ord addr ((new_item b)\<lparr>rows := rs\<rparr>) ac
                 else
                   let alreadyStored = num_rows aci in
                   if rows aci \<noteq> None \<and> alreadyStored = length (elems rs) then Done (ac, True)
                   else
                     (case purgeRowsToFit fuel ord (int (length (elems rs)) - int alreadyStored) ac of
                        Done (ac', haveSpace) \<Rightarrow>
                          if haveSpace then Done (update_item addr (aci\<lparr>rows := rs\<rparr>) ac', True)
                          else Done (ac', False)
                      | Crash \<Rightarrow> Crash
                      | NoReturn \<Rightarrow> NoReturn)))"

definition setMutilchainCacheItemRows ::
  "nat \<Rightarrow> (string list \<Rightarrow> string list) \<Rightarrow> string \<Rightarrow> MutilchainAddressRow slice
     \<Rightarrow> MutilchainBlockID option \<Rightarrow> string \<Rightarrow> 'c AddressCache \<Rightarrow> ('c AddressCache \<times> bool) run" where
  "setMutilchainCacheItemRows fuel ord addr rs block chainType ac =
     (case block of
        None \<Rightarrow> Done (ac, False)
      | Some b \<Rightarrow>
          if GetMutilchainCap chainType ac < 1 \<or> GetMutilchainAddrCap chainType ac < 1 then Done (ac, False)
          else if chainType \<noteq> TYPEBTC \<and> chainType \<noteq> TYPELTC then Done (ac, False)
          else
            (case mget (elems (GetMutilchainAddresCacheItemMap chainType ac)) addr of
               None \<Rightarrow> addMutilchainCacheItem fuel ord addr ((new_xitem b)\<lparr>xrows := rs\<rparr>) chainType ac
             | Some aci \<Rightarrow>
                 if MutilchainBlockHash aci \<noteq> xbHash b
                 then addMutilchainCacheItem fuel ord addr ((new_xitem b)\<lparr>xrows := rs\<rparr>) chainType ac
                 else
                   let alreadyStored = num_xrows aci in
                   if xrows aci \<noteq> None \<and> alreadyStored = length (elems rs) then Done (ac, True)
                   else
                     (case purgeMutilchainRowsToFit fuel ord
                          (int (length (elems rs)) - int alreadyStored) chainType ac of
                        Done (ac', haveSpace) \<Rightarrow>
                          if haveSpace then Done (update_xitem addr (aci\<lparr>xrows := rs\<rparr>) chainType ac', True)
                          else Done (ac', False)
                      | Crash \<Rightarrow> Crash
                      | NoReturn \<Rightarrow> NoReturn)))"

definition StoreRowsCompact ::
  "nat \<Rightarrow> (string list \<Rightarrow> string list) \<Rightarrow> string \<Rightarrow> AddressRowCompact slice \<Rightarrow> BlockID option
     \<Rightarrow> 'c AddressCache \<Rightarrow> ('c AddressCache \<times> bool) run" where
  "StoreRowsCompact fuel ord addr rs block ac =
     (if block = None \<or> cap ac < 1 \<or> capAddr ac < 1 then Done (ac, False)
      else
        let rs' = (if rs = None then Some [] else rs)
        in setCacheItemRows fuel ord addr rs' block ac)"

definition StoreRows ::
  "(string \<Rightarrow> Hash option) \<Rightarrow> nat \<Rightarrow> (string list \<Rightarrow> string list) \<Rightarrow> string \<Rightarrow> AddressRow slice
     \<Rightarrow> BlockID option \<Rightarrow> 'c AddressCache \<Rightarrow> ('c AddressCache \<times> bool) run" where
  "StoreRows parse fuel ord addr rs block ac =
     (if block = None \<or> cap ac < 1 \<or> capAddr ac < 1 then Done (ac, False)
      else case rs of
        None \<Rightarrow> StoreRowsCompact fuel ord addr (Some []) block ac
      | Some full \<Rightarrow>
          (case CompactRows parse full of
             Ret rowsCompact \<Rightarrow> StoreRowsCompact fuel ord addr rowsCompact block ac
           | _ \<Rightarrow> Crash))"

definition StoreMutilchainRows ::
  "nat \<Rightarrow> (string list \<Rightarrow> string list) \<Rightarrow> string \<Rightarrow> MutilchainAddressRow slice
     \<Rightarrow> MutilchainBlockID option \<Rightarrow> string \<Rightarrow> 'c AddressCache \<Rightarrow> ('c AddressCache \<times> bool) run" where
  "StoreMutilchainRows fuel ord addr rs block chainType ac =
     (if block = None \<or> GetMutilchainCap chainType ac < 1 \<or> GetMutilchainAddrCap chainType ac < 1
      then Done (ac, False)
      else setMutilchainCacheItemRows fuel ord addr rs block chainType ac)"

text \<open>
  \<open>StoreHistoryChart\<close> adds the item first and then writes through the pointer. A negative grouping
  indexes the array out of range, which panics.
\<close>

definition set_chart :: "HistoryChart \<Rightarrow> int \<Rightarrow> 'c \<Rightarrow> 'c AddressCacheItem \<Rightarrow> ('c AddressCacheItem \<times> bool) run" where
  "set_chart addrChart chartGrouping cd aci =
     (case addrChart of
        TxsType \<Rightarrow>
          if idx (TypeByInterval (history aci)) chartGrouping = None then Crash
          else Done (aci\<lparr>history := (history aci)\<lparr>TypeByInterval :=
                 (TypeByInterval (history aci))[nat chartGrouping := Some cd]\<rparr>\<rparr>, True)
      | AmountFlow \<Rightarrow>
          if idx (AmtFlowByInterval (history aci)) chartGrouping = None then Crash
          else Done (aci\<lparr>history := (history aci)\<lparr>AmtFlowByInterval :=
                 (AmtFlowByInterval (history aci))[nat chartGrouping := Some cd]\<rparr>\<rparr>, True)
      | ChartUnknown \<Rightarrow> Done (aci, False))"

definition StoreHistoryChart ::
  "nat \<Rightarrow> (string list \<Rightarrow> string list) \<Rightarrow> 'c \<Rightarrow> string \<Rightarrow> HistoryChart \<Rightarrow> int \<Rightarrow> 'c option
     \<Rightarrow> BlockID option \<Rightarrow> 'c AddressCache \<Rightarrow> ('c AddressCache \<times> bool) run" where
  "StoreHistoryChart fuel ord emptyChart addr addrChart chartGrouping cd block ac =
     (case block of
        None \<Rightarrow> Done (ac, False)
      | Some b \<Rightarrow>
          if cap ac < 1 \<or> capAddr ac < 1 then Done (ac, False)
          else if chartGrouping \<ge> NumIntervals then Done (ac, False)
          else
            let chart = (case cd of None \<Rightarrow> emptyChart | Some c \<Rightarrow> c);
                write = (\<lambda>aci ac. run_map (\<lambda>(aci', ok). (update_item addr aci' ac, ok))
                                   (set_chart addrChart chartGrouping chart aci))
            in
            (case mget (items ac) addr of
               None \<Rightarrow>
                 (case addCacheItem fuel ord addr (new_item b) ac of
                    Done (ac', added) \<Rightarrow> if added then write (new_item b) ac' else Done (ac', False)
                  | Crash \<Rightarrow> Crash
                  | NoReturn \<Rightarrow> NoReturn)
             | Some aci \<Rightarrow> write aci ac))"

definition balance_or_new :: "string \<Rightarrow> AddressBalance option \<Rightarrow> AddressBalance" where
  "balance_or_new addr bal = (case bal of None \<Rightarrow> zero_balance\<lparr>balAddress := addr\<rparr> | Some b \<Rightarrow> b)"

definition StoreBalance ::
  "nat \<Rightarrow> (string list \<Rightarrow> string list) \<Rightarrow> string \<Rightarrow> AddressBalance option \<Rightarrow> BlockID option
     \<Rightarrow> 'c AddressCache \<Rightarrow> ('c AddressCache \<times> bool) run" where
  "StoreBalance fuel ord addr bal block ac =
     (case block of
        None \<Rightarrow> Done (ac, False)
      | Some b \<Rightarrow>
          if cap ac < 1 \<or> capAddr ac < 1 then Done (ac, False)
          else
            let add = addCacheItem fuel ord addr ((new_item b)\<lparr>balance := Some (balance_or_new addr bal)\<rparr>) ac
            in
            (case mget (items ac) addr of
               None \<Rightarrow> add
             | Some aci \<Rightarrow>
                 if BlockHash aci \<noteq> bHash b then add
                 else Done (update_item addr (aci\<lparr>balance := Some (balance_or_new addr bal)\<rparr>) ac, True)))"

definition StoreMutilchainBalance ::
  "nat \<Rightarrow> (string list \<Rightarrow> string list) \<Rightarrow> string \<Rightarrow> AddressBalance option \<Rightarrow> MutilchainBlockID option
     \<Rightarrow> string \<Rightarrow> 'c AddressCache \<Rightarrow> ('c AddressCache \<times> bool) run" where
  "StoreMutilchainBalance fuel ord addr bal block chainType ac =
     (case block of
        None \<Rightarrow> Done (ac, False)
      | Some b \<Rightarrow>
          if GetMutilchainCap chainType ac < 1 \<or> GetMutilchainAddrCap chainType ac < 1 then Done (ac, False)
          else
            let add = addMutilchainCacheItem fuel ord addr
              ((new_xitem b)\<lparr>xbalance := Some (balance_or_new addr bal)\<rparr>) chainType ac
            in
            (case mget (elems (GetMutilchainAddresCacheItemMap chainType ac)) addr of
               None \<Rightarrow> add
             | Some aci \<Rightarrow>
                 if MutilchainBlockHash aci \<noteq> xbHash b then add
                 else Done (update_xitem addr (aci\<lparr>xbalance := Some (balance_or_new addr bal)\<rparr>) chainType ac, True)))"

definition StoreUTXOs ::
  "nat \<Rightarrow> (string list \<Rightarrow> string list) \<Rightarrow> string \<Rightarrow> AddressTxnOutput slice \<Rightarrow> BlockID option
     \<Rightarrow> 'c AddressCache \<Rightarrow> ('c AddressCache \<times> bool) run" where
  "StoreUTXOs fuel ord addr us block ac =
     (case block of
        None \<Rightarrow> Done (ac, False)
      | Some b \<Rightarrow>
          if cap ac < 1 \<or> capAddr ac < 1 then Done (ac, False)
          else if int (length (elems us)) > maxUTXOsPerAddr ac \<and> addr \<noteq> ProjectAddress ac then Done (ac, False)
          else
            let us' = (if us = None then Some [] else us) in
            (case mget (items ac) addr of
               None \<Rightarrow> addCacheItem fuel ord addr ((new_item b)\<lparr>utxos := us'\<rparr>) ac
             | Some aci \<Rightarrow> Done (update_item addr (aci\<lparr>utxos := us'\<rparr>) ac, True)))"

section \<open>Clearing\<close>

definition ClearAll :: "'c AddressCache \<Rightarrow> 'c AddressCache \<times> nat" where
  "ClearAll ac = (ac\<lparr>a_map := Some []\<rparr>, length (items ac))"

fun Clear_loop :: "string list \<Rightarrow> nat \<Rightarrow> 'c AddressCache \<Rightarrow> 'c AddressCache \<times> nat" where
  "Clear_loop [] numCleared ac = (ac, numCleared)"
| "Clear_loop (addr # as) numCleared ac =
     (if mget (items ac) addr = None then Clear_loop as numCleared ac
      else Clear_loop as (Suc numCleared) (set_items (mdel addr (items ac)) ac))"

definition Clear :: "string slice \<Rightarrow> 'c AddressCache \<Rightarrow> 'c AddressCache \<times> nat" where
  "Clear sl ac =
     (case sl of
        None \<Rightarrow> ClearAll ac
      | Some as \<Rightarrow> if as = [] then (ac, 0) else Clear_loop as 0 ac)"

definition ClearUTXOs :: "string \<Rightarrow> 'c AddressCache \<Rightarrow> 'c AddressCache" where
  "ClearUTXOs addr ac =
     (case mget (items ac) addr of
        None \<Rightarrow> ac
      | Some aci \<Rightarrow> update_item addr (aci\<lparr>utxos := None\<rparr>) ac)"

definition ClearRows :: "string \<Rightarrow> 'c AddressCache \<Rightarrow> 'c AddressCache" where
  "ClearRows addr ac =
     (case mget (items ac) addr of
        None \<Rightarrow> ac
      | Some aci \<Rightarrow> update_item addr (aci\<lparr>rows := None\<rparr>) ac)"

definition ClearMutilchainRows :: "string \<Rightarrow> string \<Rightarrow> 'c AddressCache \<Rightarrow> 'c AddressCache" where
  "ClearMutilchainRows addr chainType ac =
     (if chainType \<noteq> TYPEBTC \<and> chainType \<noteq> TYPELTC then ac
      else case mget (elems (GetMutilchainAddresCacheItemMap chainType ac)) addr of
        None \<Rightarrow> ac
      | Some aci \<Rightarrow> update_xitem addr (aci\<lparr>xrows := None\<rparr>) chainType ac)"

section \<open>Reading\<close>

definition count :: "(cacheMetrics \<Rightarrow> cacheMetrics) \<Rightarrow> 'c AddressCache \<Rightarrow> 'c AddressCache" where
  "count f ac = ac\<lparr>metrics := f (metrics ac)\<rparr>"

definition Balance :: "string \<Rightarrow> 'c AddressCache \<Rightarrow> 'c AddressCache \<times> AddressBalance option \<times> BlockID option" where
  "Balance addr ac =
     (case addressCacheItem addr ac of
        None \<Rightarrow> (count balanceMiss ac, None, None)
      | Some aci \<Rightarrow> (count balanceHit ac, item_Balance aci))"

definition MutilchainBalance ::
  "string \<Rightarrow> string \<Rightarrow> 'c AddressCache \<Rightarrow> 'c AddressCache \<times> AddressBalance option \<times> MutilchainBlockID option" where
  "MutilchainBalance addr chainType ac =
     (case MutilchainAddressCacheItem_of addr chainType ac of
        None \<Rightarrow> (count balanceMiss ac, None, None)
      | Some aci \<Rightarrow> (count balanceHit ac, item_MutilchainBalance aci))"

definition UTXOs :: "string \<Rightarrow> 'c AddressCache \<Rightarrow> 'c AddressCache \<times> AddressTxnOutput slice \<times> BlockID option" where
  "UTXOs addr ac =
     (case addressCacheItem addr ac of
        None \<Rightarrow> (count utxoMiss ac, None, None)
      | Some aci \<Rightarrow> (count utxoHit ac, item_UTXOs aci))"

definition HistoryChart_of ::
  "string \<Rightarrow> HistoryChart \<Rightarrow> int \<Rightarrow> 'c AddressCache
     \<Rightarrow> ('c AddressCache \<times> 'c option \<times> BlockID option) run" where
  "HistoryChart_of addr addrChart chartGrouping ac =
     (case addressCacheItem addr ac of
        None \<Rightarrow> Done (count historyMiss ac, None, None)
      | Some aci \<Rightarrow>
          (case item_HistoryChart addrChart chartGrouping aci of
             Ret (Some cd, Some bid) \<Rightarrow> Done (count historyHit ac, Some cd, Some bid)
           | Ret _ \<Rightarrow> Done (count historyMiss ac, None, None)
           | _ \<Rightarrow> Crash))"

definition Rows :: "string \<Rightarrow> 'c AddressCache \<Rightarrow> 'c AddressCache \<times> AddressRowCompact slice \<times> BlockID option" where
  "Rows addr ac =
     (case addressCacheItem addr ac of
        None \<Rightarrow> (count rowMiss ac, None, None)
      | Some aci \<Rightarrow> (count rowHit ac, item_Rows aci))"

definition NumRows :: "string \<Rightarrow> 'c AddressCache \<Rightarrow> int \<times> BlockID option" where
  "NumRows addr ac =
     (case addressCacheItem addr ac of None \<Rightarrow> (-1, None) | Some aci \<Rightarrow> item_NumRows aci)"

text \<open>The four results of a transaction query: the cache with its counts, and rows, block or error.\<close>

definition TransactionsMerged ::
  "string \<Rightarrow> int \<Rightarrow> int \<Rightarrow> AddrTxnViewType \<Rightarrow> int \<Rightarrow> int \<Rightarrow> 'c AddressCache
     \<Rightarrow> 'c AddressCache \<times> (AddressRowMerged slice \<times> BlockID option, ac_error) go_result" where
  "TransactionsMerged addr N offset txnType year month ac =
     (case addressCacheItem addr ac of
        None \<Rightarrow> (count rowMiss ac, Ret (None, None))
      | Some aci \<Rightarrow>
          (count rowHit ac,
           case item_Transactions N offset txnType year month aci of
             Ret (RowsMerged r, bid) \<Rightarrow> Ret (r, bid)
           | Ret _ \<Rightarrow> Fail WrongRowType
           | Fail e \<Rightarrow> Fail e
           | Panics \<Rightarrow> Panics))"

definition TransactionsCompact ::
  "string \<Rightarrow> int \<Rightarrow> int \<Rightarrow> AddrTxnViewType \<Rightarrow> int \<Rightarrow> int \<Rightarrow> 'c AddressCache
     \<Rightarrow> 'c AddressCache \<times> (AddressRowCompact slice \<times> BlockID option, ac_error) go_result" where
  "TransactionsCompact addr N offset txnType year month ac =
     (case addressCacheItem addr ac of
        None \<Rightarrow> (count rowMiss ac, Ret (None, None))
      | Some aci \<Rightarrow>
          (count rowHit ac,
           case item_Transactions N offset txnType year month aci of
             Ret (RowsCompact r, bid) \<Rightarrow> Ret (r, bid)
           | Ret _ \<Rightarrow> Fail WrongRowType
           | Fail e \<Rightarrow> Fail e
           | Panics \<Rightarrow> Panics))"

definition MutilchainTransactionsCompact ::
  "string \<Rightarrow> int \<Rightarrow> int \<Rightarrow> AddrTxnViewType \<Rightarrow> string \<Rightarrow> 'c AddressCache
     \<Rightarrow> 'c AddressCache \<times> (MutilchainAddressRow slice \<times> MutilchainBlockID option, ac_error) go_result" where
  "MutilchainTransactionsCompact addr N offset txnType chainType ac =
     (case MutilchainAddressCacheItem_of addr chainType ac of
        None \<Rightarrow> (count rowMiss ac, Ret (None, None))
      | Some aci \<Rightarrow> (count rowHit ac, item_MutilchainTransactions N offset txnType aci))"

text \<open>
  \<open>TransactionsYearMonth\<close> uncompacts what the two functions return; on an error it returns the
  uncompacted nil slice next to it.
\<close>

definition TransactionsYearMonth ::
  "(Hash \<Rightarrow> string) \<Rightarrow> string \<Rightarrow> int \<Rightarrow> int \<Rightarrow> AddrTxnViewType \<Rightarrow> int \<Rightarrow> int \<Rightarrow> 'c AddressCache
     \<Rightarrow> 'c AddressCache \<times> (AddressRow slice \<times> BlockID option, ac_error) go_result" where
  "TransactionsYearMonth print addr N offset txnType year month ac =
     (case view_IsMerged txnType of
        Ret True \<Rightarrow>
          (case TransactionsMerged addr N offset txnType year month ac of
             (ac', Ret (r, bid)) \<Rightarrow> (ac', Ret (UncompactMergedRows print r, bid))
           | (ac', Fail e) \<Rightarrow> (ac', Fail e)
           | (ac', Panics) \<Rightarrow> (ac', Panics))
      | Ret False \<Rightarrow>
          (case TransactionsCompact addr N offset txnType year month ac of
             (ac', Ret (r, bid)) \<Rightarrow> (ac', Ret (UncompactRows print r, bid))
           | (ac', Fail e) \<Rightarrow> (ac', Fail e)
           | (ac', Panics) \<Rightarrow> (ac', Panics))
      | _ \<Rightarrow> (ac, Fail (InvalidTxView txnType)))"

definition Transactions ::
  "(Hash \<Rightarrow> string) \<Rightarrow> string \<Rightarrow> int \<Rightarrow> int \<Rightarrow> AddrTxnViewType \<Rightarrow> 'c AddressCache
     \<Rightarrow> 'c AddressCache \<times> (AddressRow slice \<times> BlockID option, ac_error) go_result" where
  "Transactions print addr N offset txnType ac = TransactionsYearMonth print addr N offset txnType 0 0 ac"

end
