(* ===== verification/CacheEviction.thy ===== *)
theory CacheEviction
  imports AddressCache
begin

text \<open>
  The eviction loops of the address cache: what they keep, what they remove, when they end, and the
  promise of \<open>purge_to_fit\<close> when it reports space.
\<close>

section \<open>Totals\<close>

lemma total_of_Nil [simp]: "total_of n [] = 0"
  by (simp add: total_of_def)

lemma total_of_Cons [simp]: "total_of n ((k, v) # m) = n v + total_of n m"
  by (simp add: total_of_def)

lemma mdel_Cons: "mdel k ((k', v) # m) = (if k' = k then mdel k m else (k', v) # mdel k m)"
  by (simp add: mdel_def)

lemma mput_Cons: "mput k v ((k', v') # m) = (if k' = k then (k, v) # m else (k', v') # mput k v m)"
  by (simp add: mput_def)

lemma mget_Cons: "mget ((k', v) # m) k = (if k' = k then Some v else mget m k)"
  by (simp add: mget_def)

lemma total_of_split: "wf_map m \<Longrightarrow> total_of n m = rows_at n m k + total_of n (mdel k m)"
proof (induction m)
  case (Cons e m)
  obtain k' v where e: "e = (k', v)" by (cases e)
  then have "mget m k' = None" "wf_map m" using Cons.prems by (auto simp: wf_map_Cons)
  then show ?case
    using Cons.IH by (auto simp: e mdel_Cons mget_Cons rows_at_def mdel_notin)
qed (simp add: rows_at_def mdel_def)

lemma total_of_mput: "wf_map m \<Longrightarrow> total_of n (mput k v m) = n v + total_of n (mdel k m)"
proof (induction m)
  case (Cons e m)
  obtain k' v' where e: "e = (k', v')" by (cases e)
  then have "mget m k' = None" "wf_map m" using Cons.prems by (auto simp: wf_map_Cons)
  then show ?case
    using Cons.IH by (auto simp: e mdel_Cons mput_Cons mdel_notin)
qed (simp add: mput_def mdel_def)

lemma rows_at_mdel: "rows_at n (mdel k m) k' = (if k' = k then 0 else rows_at n m k')"
  by (simp add: rows_at_def)

lemma total_of_mdel_le: "wf_map m \<Longrightarrow> total_of n (mdel k m) \<le> total_of n m"
  using total_of_split [of m n k] by simp

lemma rows_at_le_total: "wf_map m \<Longrightarrow> rows_at n m k \<le> total_of n m"
  using total_of_split [of m n k] by simp

lemma total_of_0: "wf_map m \<Longrightarrow> (\<And>k. rows_at n m k = 0) \<Longrightarrow> total_of n m = 0"
proof (induction m)
  case (Cons e m)
  obtain k v where e: "e = (k, v)" by (cases e)
  then have m: "mget m k = None" "wf_map m" using Cons.prems by (auto simp: wf_map_Cons)
  have "n v = 0" using Cons.prems(2) [of k] by (simp add: e rows_at_def mget_Cons)
  moreover have "rows_at n m k' = 0" for k'
    using Cons.prems(2) [of k'] m(1) by (cases "k' = k") (simp_all add: e rows_at_def mget_Cons)
  ultimately show ?case using Cons.IH m by (simp add: e)
qed simp

lemma total_of_only:
  assumes "wf_map m" and "\<And>k. k \<noteq> p \<Longrightarrow> rows_at n m k = 0"
  shows "total_of n m = rows_at n m p"
proof -
  have "total_of n (mdel p m) = 0"
    by (rule total_of_0) (use assms in \<open>simp_all add: rows_at_mdel\<close>)
  then show ?thesis using total_of_split [OF assms(1), of n p] by simp
qed

lemma in_mkeys: "wf_map m \<Longrightarrow> k \<in> set (mkeys m) \<longleftrightarrow> mget m k \<noteq> None"
  using gm.keys_get by blast

lemma rows_at_pos: "0 < rows_at n m k \<Longrightarrow> mget m k \<noteq> None"
  by (auto simp: rows_at_def split: option.splits)

lemma one_key:
  assumes "wf_map m" "length m = 1" "mget m k \<noteq> None" "mget m k' \<noteq> None"
  shows "k' = k"
proof -
  obtain e where "m = [e]" using assms(2) by (auto simp: length_Suc_conv)
  with assms(3,4) show ?thesis by (cases e) (auto simp: mget_Cons split: if_splits)
qed

lemma two_keys_length:
  assumes "wf_map m" "mget m k \<noteq> None" "mget m k' \<noteq> None" "k \<noteq> k'"
  shows "length m \<noteq> 1"
proof
  assume "length m = 1"
  from one_key [OF assms(1) this assms(2,3)] assms(4) show False by simp
qed

lemma other_key:
  assumes "wf_map m" "length m \<noteq> 1" "mget m k \<noteq> None"
  shows "\<exists>k'. k' \<noteq> k \<and> mget m k' \<noteq> None"
proof (rule ccontr)
  assume "\<not> ?thesis"
  then have "\<And>k'. mget m k' \<noteq> None \<longleftrightarrow> k' = k" using assms(3) by metis
  then have "\<And>k'. k' \<in> set (mkeys m) \<longleftrightarrow> k' \<in> {k}"
    unfolding in_mkeys [OF assms(1)] by simp
  then have "set (mkeys m) = {k}" by (rule set_eqI)
  then have "length (mkeys m) = 1"
    using distinct_card [OF gm.keys_distinct [OF assms(1)]] by simp
  with assms(2) show False by simp
qed

lemma mdel_shorter: "wf_map m \<Longrightarrow> mget m k \<noteq> None \<Longrightarrow> length (mdel k m) < length m"
  by (cases m) (auto simp: length_mdel)

section \<open>Scans\<close>

definition ord_ok :: "(string list \<Rightarrow> string list) \<Rightarrow> bool" where
  "ord_ok ord \<longleftrightarrow> (\<forall>ks. set (ord ks) = set ks)"

lemma addr_scan_Evict: "addr_scan prot n ks = Evict k \<Longrightarrow> k \<in> set ks \<and> \<not> prot k"
  by (induction ks) (auto split: if_splits)

lemma addr_scan_ScanEnd: "addr_scan prot n ks = ScanEnd \<Longrightarrow> (\<forall>k \<in> set ks. prot k \<and> n \<noteq> 1)"
  by (induction ks) (auto split: if_splits)

lemma row_scan_Evict: "row_scan prot nrows n ks = Evict k \<Longrightarrow> k \<in> set ks \<and> \<not> prot k \<and> 0 < nrows k"
  by (induction ks) (auto split: if_splits)

lemma row_scan_ScanEnd: "row_scan prot nrows n ks = ScanEnd \<Longrightarrow>
    (\<forall>k \<in> set ks. nrows k = 0 \<or> (prot k \<and> n \<noteq> 1))"
  by (induction ks) (auto split: if_splits)

lemma row_scan_LeaveLoop: "row_scan prot nrows n ks = LeaveLoop \<Longrightarrow> n = 1"
  by (induction ks) (auto split: if_splits)

section \<open>What the loops keep\<close>

text \<open>
  \<open>evicted prot m m'\<close>: \<open>m'\<close> is what is left of \<open>m\<close> after deleting items that are not protected.
\<close>

definition evicted :: "(string \<Rightarrow> bool) \<Rightarrow> (string, 'i) gomap \<Rightarrow> (string, 'i) gomap \<Rightarrow> bool" where
  "evicted prot m m' \<longleftrightarrow> wf_map m' \<and> length m' \<le> length m \<and>
     (\<forall>k. mget m' k = mget m k \<or> (mget m' k = None \<and> \<not> prot k))"

lemma evicted_refl: "wf_map m \<Longrightarrow> evicted prot m m"
  by (simp add: evicted_def)

lemma evicted_trans: "evicted prot m m' \<Longrightarrow> evicted prot m' m'' \<Longrightarrow> evicted prot m m''"
  by (auto simp: evicted_def) metis+

lemma evicted_mdel: "wf_map m \<Longrightarrow> \<not> prot k \<Longrightarrow> evicted prot m (mdel k m)"
  by (auto simp: evicted_def length_mdel)

lemma clear_addrs_evicts: "clear_addrs fuel ord prot capA m = Done m' \<Longrightarrow> wf_map m \<Longrightarrow> evicted prot m m'"
proof (induction fuel arbitrary: m)
  case (Suc fuel)
  show ?case
  proof (cases "addr_scan prot (length m) (ord (mkeys m))")
    case (Evict k)
    then have "evicted prot m (mdel k m)"
      using addr_scan_Evict [OF Evict] by (intro evicted_mdel [OF Suc.prems(2)]) blast
    moreover have "m' = m \<or> evicted prot (mdel k m) m'"
      using Suc Evict by (auto split: if_splits)
    ultimately show ?thesis using evicted_trans evicted_refl [OF Suc.prems(2)] by blast
  qed (use Suc in \<open>auto simp: evicted_refl split: if_splits\<close>)
qed simp

lemma clear_rows_evicts: "clear_rows fuel ord prot n capR numRows m = Done m' \<Longrightarrow> wf_map m \<Longrightarrow>
    evicted prot m m'"
proof (induction fuel arbitrary: m)
  case (Suc fuel)
  show ?case
  proof (cases "row_scan prot (rows_at n m) (length m) (ord (mkeys m))")
    case (Evict k)
    then have "evicted prot m (mdel k m)"
      using row_scan_Evict [OF Evict] by (intro evicted_mdel [OF Suc.prems(2)]) blast
    moreover have "m' = m \<or> evicted prot (mdel k m) m'"
      using Suc Evict by (auto split: if_splits)
    ultimately show ?thesis using evicted_trans evicted_refl [OF Suc.prems(2)] by blast
  qed (use Suc in \<open>auto simp: evicted_refl split: if_splits\<close>)
qed simp

lemma purge_evicts:
  assumes "purge_to_fit fuel ord prot n capR capA numRows m = Done (m', b)" and "wf_map m"
  shows "evicted prot m m'"
proof (cases "capR < 1 \<or> capA < 1")
  case True
  with assms show ?thesis by (simp add: purge_to_fit_def evicted_refl)
next
  case False
  then obtain m1 where m1: "clear_addrs fuel ord prot capA m = Done m1"
    "clear_rows fuel ord prot n capR numRows m1 = Done m'"
    using assms(1) by (auto simp: purge_to_fit_def split: run.splits)
  have "evicted prot m m1" using clear_addrs_evicts [OF m1(1) assms(2)] .
  moreover from this have "wf_map m1" by (simp add: evicted_def)
  then have "evicted prot m1 m'" by (rule clear_rows_evicts [OF m1(2)])
  ultimately show ?thesis by (rule evicted_trans)
qed

lemma purge_space: "purge_to_fit fuel ord prot n capR capA numRows m = Done (m', True) \<Longrightarrow>
    int (total_of n m') + numRows \<le> capR \<and> int (length m') < capA"
  by (auto simp: purge_to_fit_def split: if_splits run.splits)

lemma clear_not_Crash:
  "clear_addrs fuel ord prot capA m \<noteq> Crash" "clear_rows fuel ord prot n capR numRows m \<noteq> Crash"
proof -
  show "clear_addrs fuel ord prot capA m \<noteq> Crash"
    by (induction fuel arbitrary: m) (auto split: scan.splits)
  show "clear_rows fuel ord prot n capR numRows m \<noteq> Crash"
    by (induction fuel arbitrary: m) (auto split: scan.splits)
qed

section \<open>When the loops end\<close>

lemma clear_addrs_returns:
  assumes "ord_ok ord" and "1 \<le> capA" and "\<And>k k'. prot k \<Longrightarrow> prot k' \<Longrightarrow> k = k'"
  shows "wf_map m \<Longrightarrow> length m < fuel \<Longrightarrow> \<exists>m'. clear_addrs fuel ord prot capA m = Done m'"
proof (induction fuel arbitrary: m)
  case (Suc fuel)
  show ?case
  proof (cases "addr_scan prot (length m) (ord (mkeys m))")
    case (Evict k)
    have "mget m k \<noteq> None"
      using addr_scan_Evict [OF Evict] assms(1) in_mkeys [OF Suc.prems(1)] by (simp add: ord_ok_def)
    then have "length (mdel k m) < fuel" using Suc.prems mdel_shorter by fastforce
    with Evict Suc show ?thesis by simp
  next
    case ScanEnd
    have all: "\<And>k. mget m k \<noteq> None \<Longrightarrow> prot k \<and> length m \<noteq> 1"
      using addr_scan_ScanEnd [OF ScanEnd] assms(1) in_mkeys [OF Suc.prems(1)] by (auto simp: ord_ok_def)
    have "m = []"
    proof (cases m)
      case (Cons e m')
      then have k: "mget m (fst e) \<noteq> None" by (cases e) (simp add: mget_Cons)
      then obtain k' where "k' \<noteq> fst e" "mget m k' \<noteq> None"
        using other_key [OF Suc.prems(1) _ k] all by blast
      with k all assms(3) show ?thesis by metis
    qed
    with assms(2) show ?thesis by simp
  qed simp
qed simp

text \<open>
  The state in which the second loop cannot end: the protected item alone has too many rows, and an
  item without rows is there too, which the scan passes over.
\<close>

definition stuck :: "string \<Rightarrow> ('i \<Rightarrow> nat) \<Rightarrow> int \<Rightarrow> int \<Rightarrow> (string, 'i) gomap \<Rightarrow> bool" where
  "stuck p n capR numRows m \<longleftrightarrow> 0 < rows_at n m p \<and> int (rows_at n m p) + numRows > capR \<and>
     (\<exists>k. mget m k \<noteq> None \<and> rows_at n m k = 0)"

lemma stuck_mdel: "stuck p n capR numRows (mdel k m) \<Longrightarrow> k \<noteq> p \<Longrightarrow> stuck p n capR numRows m"
  by (auto simp: stuck_def rows_at_mdel split: if_splits)

lemma stuck_mdel': "stuck p n capR numRows m \<Longrightarrow> 0 < rows_at n m k \<Longrightarrow> k \<noteq> p \<Longrightarrow>
    stuck p n capR numRows (mdel k m)"
proof -
  assume s: "stuck p n capR numRows m" and k: "0 < rows_at n m k" "k \<noteq> p"
  then obtain k' where "mget m k' \<noteq> None" "rows_at n m k' = 0" by (auto simp: stuck_def)
  with k have "mget (mdel k m) k' \<noteq> None \<and> rows_at n (mdel k m) k' = 0" by (auto simp: rows_at_mdel)
  moreover have "rows_at n (mdel k m) p = rows_at n m p" using k by (simp add: rows_at_mdel)
  ultimately show ?thesis using s unfolding stuck_def by metis
qed

lemma clear_rows_returns:
  assumes "ord_ok ord"
  shows "wf_map m \<Longrightarrow> length m < fuel \<Longrightarrow> \<not> stuck p n capR numRows m \<Longrightarrow>
    \<exists>m'. clear_rows fuel ord (\<lambda>k. k = p) n capR numRows m = Done m'"
proof (induction fuel arbitrary: m)
  case (Suc fuel)
  let ?scan = "row_scan (\<lambda>k. k = p) (rows_at n m) (length m) (ord (mkeys m))"
  show ?case
  proof (cases ?scan)
    case (Evict k)
    have k: "0 < rows_at n m k" "k \<noteq> p" using row_scan_Evict [OF Evict] by auto
    then have "mget m k \<noteq> None" by (simp add: rows_at_pos)
    then have "length (mdel k m) < fuel" using Suc.prems mdel_shorter by fastforce
    moreover have "\<not> stuck p n capR numRows (mdel k m)"
      using stuck_mdel k(2) Suc.prems(3) by blast
    ultimately show ?thesis using Evict Suc by simp
  next
    case ScanEnd
    have all: "\<And>k. mget m k \<noteq> None \<Longrightarrow> rows_at n m k = 0 \<or> (k = p \<and> length m \<noteq> 1)"
      using row_scan_ScanEnd [OF ScanEnd] assms in_mkeys [OF Suc.prems(1)] by (auto simp: ord_ok_def)
    then have others: "\<And>k. k \<noteq> p \<Longrightarrow> rows_at n m k = 0"
      using rows_at_pos by (metis gr0I)
    then have total: "total_of n m = rows_at n m p"
      by (rule total_of_only [OF Suc.prems(1)])
    have "\<not> (0 < total_of n m \<and> int (total_of n m) + numRows > capR)"
    proof
      assume big: "0 < total_of n m \<and> int (total_of n m) + numRows > capR"
      then have p: "mget m p \<noteq> None" using rows_at_pos total by metis
      then have "length m \<noteq> 1" using all [OF p] big total by auto
      then obtain k where "k \<noteq> p" "mget m k \<noteq> None" using other_key [OF Suc.prems(1) _ p] by blast
      with big total others have "stuck p n capR numRows m" by (auto simp: stuck_def)
      with Suc.prems(3) show False by blast
    qed
    then show ?thesis by auto
  qed simp
qed simp

lemma clear_rows_stuck:
  assumes "ord_ok ord"
  shows "wf_map m \<Longrightarrow> stuck p n capR numRows m \<Longrightarrow>
    clear_rows fuel ord (\<lambda>k. k = p) n capR numRows m = NoReturn"
proof (induction fuel arbitrary: m)
  case (Suc fuel)
  let ?scan = "row_scan (\<lambda>k. k = p) (rows_at n m) (length m) (ord (mkeys m))"
  have s: "0 < rows_at n m p" "int (rows_at n m p) + numRows > capR"
    using Suc.prems(2) by (auto simp: stuck_def)
  obtain k where k: "mget m k \<noteq> None" "rows_at n m k = 0" using Suc.prems(2) by (auto simp: stuck_def)
  have "k \<noteq> p" using s(1) k(2) by auto
  then have len: "length m \<noteq> 1"
    using two_keys_length [OF Suc.prems(1) k(1)] rows_at_pos [OF s(1)] by blast
  have big: "0 < total_of n m \<and> int (total_of n m) + numRows > capR"
    using s rows_at_le_total [OF Suc.prems(1), of n p] by linarith
  show ?case
  proof (cases ?scan)
    case LeaveLoop
    with len show ?thesis using row_scan_LeaveLoop by blast
  next
    case (Evict k')
    then have "stuck p n capR numRows (mdel k' m)"
      using row_scan_Evict [OF Evict] stuck_mdel' [OF Suc.prems(2)] by blast
    with Evict big Suc show ?thesis by simp
  next
    case ScanEnd
    with big Suc show ?thesis by simp
  qed
qed simp

text \<open>A map without a protected item never gets stuck.\<close>

lemma clear_rows_returns_unprotected:
  assumes "ord_ok ord"
  shows "wf_map m \<Longrightarrow> length m < fuel \<Longrightarrow>
    \<exists>m'. clear_rows fuel ord (\<lambda>_. False) n capR numRows m = Done m'"
proof (induction fuel arbitrary: m)
  case (Suc fuel)
  let ?scan = "row_scan (\<lambda>_. False) (rows_at n m) (length m) (ord (mkeys m))"
  show ?case
  proof (cases ?scan)
    case (Evict k)
    have "0 < rows_at n m k" using row_scan_Evict [OF Evict] by auto
    then have "mget m k \<noteq> None" by (simp add: rows_at_pos)
    then have "length (mdel k m) < fuel" using Suc.prems mdel_shorter by fastforce
    then show ?thesis using Evict Suc by simp
  next
    case ScanEnd
    have "\<And>k. mget m k \<noteq> None \<Longrightarrow> rows_at n m k = 0"
      using row_scan_ScanEnd [OF ScanEnd] assms in_mkeys [OF Suc.prems(1)] by (auto simp: ord_ok_def)
    then have "total_of n m = 0"
      using total_of_0 [OF Suc.prems(1)] rows_at_pos by (metis gr0I)
    then show ?thesis by simp
  qed simp
qed simp

end
