(* ===== verification/CacheContract.thy ===== *)
theory CacheContract
  imports CacheEviction
begin

text \<open>
  The operations of the address cache against its contract: the capacities, what a store leaves
  behind and what a read then returns, and when a store returns at all.
\<close>

section \<open>The map of items\<close>

lemma items_set_items [simp]: "items (set_items m ac) = (if a_map ac = None then [] else m)"
  by (simp add: items_def set_items_def)

lemma set_items_twice [simp]: "set_items m (set_items m' ac) = set_items m ac"
  by (simp add: set_items_def)

lemma set_items_fields [simp]:
  "cap (set_items m ac) = cap ac" "capAddr (set_items m ac) = capAddr ac"
  "ProjectAddress (set_items m ac) = ProjectAddress ac"
  "maxUTXOsPerAddr (set_items m ac) = maxUTXOsPerAddr ac"
  "cap_btc (set_items m ac) = cap_btc ac" "cap_ltc (set_items m ac) = cap_ltc ac"
  "capAddr_btc (set_items m ac) = capAddr_btc ac" "capAddr_ltc (set_items m ac) = capAddr_ltc ac"
  "a_btc (set_items m ac) = a_btc ac" "a_ltc (set_items m ac) = a_ltc ac"
  "metrics (set_items m ac) = metrics ac"
  "a_map (set_items m ac) = None \<longleftrightarrow> a_map ac = None"
  by (simp_all add: set_items_def)

lemma set_items_self: "set_items (items ac) ac = ac"
  by (cases "a_map ac") (simp_all add: set_items_def items_def)

lemma assign_item_eq: "assign_item addr aci ac =
    (if a_map ac = None then None else Some (set_items (mput addr aci (items ac)) ac))"
  by (cases "a_map ac") (simp_all add: assign_item_def set_items_def items_def)

lemma update_item_eq: "update_item addr aci ac =
    (if mget (items ac) addr = None then ac else set_items (mput addr aci (items ac)) ac)"
  by (simp add: update_item_def)

lemma items_not_nil: "mget (items ac) addr \<noteq> None \<Longrightarrow> a_map ac \<noteq> None"
  by (cases "a_map ac") (auto simp: items_def)

text \<open>Maps that a store may leave behind.\<close>

definition fits :: "'c item_map \<Rightarrow> 'c AddressCache \<Rightarrow> bool" where
  "fits m ac \<longleftrightarrow> wf_map m \<and> int (length m) \<le> max 0 (capAddr ac)"

definition stores :: "'c AddressCache \<Rightarrow> ('c AddressCache \<times> bool) run \<Rightarrow> bool" where
  "stores ac r \<longleftrightarrow> (\<forall>ac' b. r = Done (ac', b) \<longrightarrow> (\<exists>m. fits m ac \<and> ac' = set_items m ac))"

lemma stores_same: "fits (items ac) ac \<Longrightarrow> stores ac (Done (ac, b))"
  by (auto simp: stores_def set_items_self intro!: exI [of _ "items ac"])

lemma stores_Crash [simp]: "stores ac Crash" "stores ac NoReturn"
  by (simp_all add: stores_def)

lemma fits_set_items [simp]: "fits m' (set_items m ac) \<longleftrightarrow> fits m' ac"
  by (simp add: fits_def)

lemma fits_mput_present: "fits m ac \<Longrightarrow> mget m addr \<noteq> None \<Longrightarrow> fits (mput addr aci m) ac"
  by (auto simp: fits_def length_mput)

lemma stores_update: "fits (items ac') ac \<Longrightarrow> ac' = set_items m ac \<Longrightarrow>
    stores ac (Done (update_item addr aci ac', b))"
proof -
  assume f: "fits (items ac') ac" and ac': "ac' = set_items m ac"
  have same: "set_items m' ac' = set_items m' ac" for m'
    by (simp only: ac' set_items_twice)
  show ?thesis
  proof (cases "mget (items ac') addr = None")
    case True
    have "ac' = set_items (items ac') ac" using set_items_self [of ac'] same by simp
    with True f show ?thesis by (auto simp: stores_def update_item_def)
  next
    case False
    then have "update_item addr aci ac' = set_items (mput addr aci (items ac')) ac"
      by (simp only: update_item_def if_False same)
    moreover have "fits (mput addr aci (items ac')) ac" using f False by (rule fits_mput_present)
    ultimately show ?thesis by (auto simp: stores_def)
  qed
qed

lemma stores_update_self: "fits (items ac) ac \<Longrightarrow> stores ac (Done (update_item addr aci ac, b))"
  using stores_update [of ac ac "items ac"] by (simp add: set_items_self)

lemma purgeRowsToFit_Done:
  assumes "purgeRowsToFit fuel ord numRows ac = Done (ac', b)" and "fits (items ac) ac"
  shows "\<exists>m. ac' = set_items m ac \<and> fits (items ac') ac \<and>
    evicted (\<lambda>k. k = ProjectAddress ac) (items ac) (items ac') \<and>
    (b \<longrightarrow> int (total_of num_rows (items ac')) + numRows \<le> cap ac \<and> int (length (items ac')) < capAddr ac)"
proof -
  let ?p = "purge_to_fit fuel ord (\<lambda>k. k = ProjectAddress ac) num_rows (cap ac) (capAddr ac) numRows (items ac)"
  obtain m where m: "?p = Done (m, b)" "ac' = set_items m ac"
    using assms(1) by (cases ?p) (auto simp: purgeRowsToFit_def)
  have ev: "evicted (\<lambda>k. k = ProjectAddress ac) (items ac) m"
    using purge_evicts [OF m(1)] assms(2) by (simp add: fits_def)
  have items: "items ac' = m"
  proof (cases "a_map ac")
    case None
    then have "items ac = []" by (simp add: items_def)
    with ev None m(2) show ?thesis by (simp add: evicted_def)
  qed (simp add: m(2))
  have "b \<longrightarrow> int (total_of num_rows m) + numRows \<le> cap ac \<and> int (length m) < capAddr ac"
    using m(1) purge_space [of fuel ord _ num_rows "cap ac" "capAddr ac" numRows "items ac" m] by auto
  with ev assms(2) m(2) items show ?thesis
    by (auto simp: fits_def evicted_def intro!: exI [of _ m])
qed

lemma addCacheItem_Done:
  assumes "addCacheItem fuel ord addr aci ac = Done (ac', True)" and "fits (items ac) ac"
  shows "\<exists>ac1. evicted (\<lambda>k. k = ProjectAddress ac) (items ac) (items ac1) \<and>
    fits (mput addr aci (items ac1)) ac \<and>
    ac' = set_items (mput addr aci (items ac1)) ac \<and> a_map ac \<noteq> None \<and>
    int (total_of num_rows (items ac1)) + (int (num_rows aci)
      - (case mget (items ac) addr of None \<Rightarrow> 0 | Some aci0 \<Rightarrow> int (num_rows aci0))) \<le> cap ac"
proof -
  let ?n = "int (num_rows aci) - (case mget (items ac) addr of None \<Rightarrow> 0 | Some aci0 \<Rightarrow> int (num_rows aci0))"
  obtain ac1 where ac1: "purgeRowsToFit fuel ord ?n ac = Done (ac1, True)" "assign_item addr aci ac1 = Some ac'"
    using assms(1) by (auto simp: addCacheItem_def Let_def split: if_splits run.splits option.splits)
  obtain m where m: "ac1 = set_items m ac" "fits (items ac1) ac"
    and ev: "evicted (\<lambda>k. k = ProjectAddress ac) (items ac) (items ac1)"
    and room: "int (total_of num_rows (items ac1)) + ?n \<le> cap ac" "int (length (items ac1)) < capAddr ac"
    using purgeRowsToFit_Done [OF ac1(1) assms(2)] by auto
  have "fits (mput addr aci (items ac1)) ac"
    using m(2) room(2) by (auto simp: fits_def length_mput)
  moreover have "a_map ac \<noteq> None" "ac' = set_items (mput addr aci (items ac1)) ac"
    using ac1(2) m(1) by (auto simp: assign_item_eq split: if_splits)
  ultimately show ?thesis using ev room(1) by blast
qed

lemma addCacheItem_stores:
  assumes "fits (items ac) ac"
  shows "stores ac (addCacheItem fuel ord addr aci ac)"
  unfolding stores_def
proof (intro allI impI)
  fix ac' b
  assume r: "addCacheItem fuel ord addr aci ac = Done (ac', b)"
  show "\<exists>m. fits m ac \<and> ac' = set_items m ac"
  proof (cases b)
    case True
    with r have "addCacheItem fuel ord addr aci ac = Done (ac', True)" by simp
    from addCacheItem_Done [OF this assms] show ?thesis by auto
  next
    case False
    then have "ac' = ac \<or> (\<exists>n. purgeRowsToFit fuel ord n ac = Done (ac', False))"
      using r by (auto simp: addCacheItem_def Let_def split: if_splits run.splits option.splits)
    then show ?thesis
    proof
      assume "ac' = ac"
      then show ?thesis using assms set_items_self by metis
    next
      assume "\<exists>n. purgeRowsToFit fuel ord n ac = Done (ac', False)"
      then obtain n m where "ac' = set_items m ac" "fits (items ac') ac"
        using purgeRowsToFit_Done assms by blast
      then have "ac' = set_items (items ac') ac" using set_items_self [of ac'] by simp
      with \<open>fits (items ac') ac\<close> show ?thesis by blast
    qed
  qed
qed

lemma setCacheItemRows_stores:
  assumes "fits (items ac) ac"
  shows "stores ac (setCacheItemRows fuel ord addr rs block ac)"
proof -
  have *: "stores ac (case purgeRowsToFit fuel ord n ac of
      Done (ac', haveSpace) \<Rightarrow>
        if haveSpace then Done (update_item addr aci ac', True) else Done (ac', False)
    | Crash \<Rightarrow> Crash | NoReturn \<Rightarrow> NoReturn)" for n aci
  proof (cases "purgeRowsToFit fuel ord n ac")
    case (Done x)
    obtain ac' b where x: "x = (ac', b)" by (cases x)
    obtain m where m: "ac' = set_items m ac" "fits (items ac') ac"
      using purgeRowsToFit_Done [of fuel ord n ac ac' b] Done x assms by auto
    have "ac' = set_items (items ac') ac" using set_items_self [of ac'] m(1) by simp
    with m have "stores ac (Done (ac', False))" unfolding stores_def by blast
    then show ?thesis using Done x stores_update [OF m(2,1)] by simp
  qed simp_all
  show ?thesis
    using * addCacheItem_stores [OF assms] stores_same [OF assms]
    by (auto simp: setCacheItemRows_def Let_def split: option.splits)
qed

lemma StoreRowsCompact_stores: "fits (items ac) ac \<Longrightarrow> stores ac (StoreRowsCompact fuel ord addr rs block ac)"
  by (auto simp: StoreRowsCompact_def Let_def intro: stores_same setCacheItemRows_stores)

lemma StoreRows_stores: "fits (items ac) ac \<Longrightarrow> stores ac (StoreRows parse fuel ord addr full block ac)"
  by (auto simp: StoreRows_def split: option.splits go_result.splits
      intro: stores_same StoreRowsCompact_stores)

lemma StoreBalance_stores: "fits (items ac) ac \<Longrightarrow> stores ac (StoreBalance fuel ord addr bal block ac)"
  by (auto simp: StoreBalance_def Let_def split: option.splits
      intro: stores_same addCacheItem_stores stores_update_self)

lemma StoreUTXOs_stores: "fits (items ac) ac \<Longrightarrow> stores ac (StoreUTXOs fuel ord addr us block ac)"
  by (auto simp: StoreUTXOs_def Let_def split: option.splits
      intro: stores_same addCacheItem_stores stores_update_self)

lemma StoreHistoryChart_stores:
  assumes "fits (items ac) ac"
  shows "stores ac (StoreHistoryChart fuel ord chart0 addr c g cd block ac)"
proof -
  have w: "stores ac (run_map (\<lambda>(aci', ok). (update_item addr aci' ac', ok)) (set_chart c g chart aci))"
    if "fits (items ac') ac" "ac' = set_items m ac" for ac' m chart aci
    by (cases "set_chart c g chart aci") (auto intro: stores_update [OF that])
  show ?thesis
  proof (cases "block = None \<or> cap ac < 1 \<or> capAddr ac < 1 \<or> g \<ge> NumIntervals")
    case True
    then show ?thesis using stores_same [OF assms] by (auto simp: StoreHistoryChart_def split: option.splits)
  next
    case False
    then obtain b where b: "block = Some b" by auto
    let ?chart = "case cd of None \<Rightarrow> chart0 | Some x \<Rightarrow> x"
    show ?thesis
    proof (cases "mget (items ac) addr")
      case (Some aci)
      then show ?thesis
        using False b w [OF assms set_items_self [symmetric], of ?chart aci]
        by (simp add: StoreHistoryChart_def Let_def)
    next
      case None
      show ?thesis
      proof (cases "addCacheItem fuel ord addr (new_item b) ac")
        case (Done x)
        obtain ac' added where x: "x = (ac', added)" by (cases x)
        obtain m where m: "fits m ac" "ac' = set_items m ac"
          using addCacheItem_stores [OF assms, of fuel ord addr "new_item b"] Done x
          by (auto simp: stores_def)
        then have "fits (items ac') ac" by (simp add: fits_def wf_map_def)
        then show ?thesis
          using False None b Done x m w [OF _ m(2), of ?chart "new_item b"]
          by (auto simp: StoreHistoryChart_def Let_def stores_def)
      qed (use False None b in \<open>simp_all add: StoreHistoryChart_def Let_def\<close>)
    qed
  qed
qed

section \<open>Reachable caches\<close>

definition ac_ok :: "'c AddressCache \<Rightarrow> bool" where
  "ac_ok ac \<longleftrightarrow> fits (items ac) ac \<and> cap_btc ac = 0 \<and> cap_ltc ac = 0 \<and>
     elems (a_btc ac) = [] \<and> elems (a_ltc ac) = []"

lemma StoreMutilchainRows_refused: "cap_btc ac < 1 \<Longrightarrow> cap_ltc ac < 1 \<Longrightarrow>
    StoreMutilchainRows fuel ord addr rs block chainType ac = Done (ac, False)"
  by (auto simp: StoreMutilchainRows_def setMutilchainCacheItemRows_def GetMutilchainCap_def
      split: option.splits)

lemma StoreMutilchainBalance_refused: "cap_btc ac < 1 \<Longrightarrow> cap_ltc ac < 1 \<Longrightarrow>
    StoreMutilchainBalance fuel ord addr bal block chainType ac = Done (ac, False)"
  by (auto simp: StoreMutilchainBalance_def addMutilchainCacheItem_def GetMutilchainCap_def
      GetMutilchainAddresCacheItemMap_def Let_def split: option.splits)

lemma ClearMutilchainRows_none: "ac_ok ac \<Longrightarrow> ClearMutilchainRows addr chainType ac = ac"
  by (simp add: ClearMutilchainRows_def GetMutilchainAddresCacheItemMap_def ac_ok_def)

lemma ac_ok_set_items: "ac_ok ac \<Longrightarrow> fits m ac \<Longrightarrow> ac_ok (set_items m ac)"
  by (simp add: ac_ok_def fits_def wf_map_def)

lemma ac_ok_fits: "ac_ok ac \<Longrightarrow> fits (items ac) ac"
  by (simp add: ac_ok_def)

lemma ac_ok_stores: "ac_ok ac \<Longrightarrow> stores ac r \<Longrightarrow> r = Done (ac', b) \<Longrightarrow> ac_ok ac'"
  by (auto simp: stores_def intro: ac_ok_set_items)

lemma count_fields [simp]:
  "items (count f ac) = items ac" "cap (count f ac) = cap ac" "capAddr (count f ac) = capAddr ac"
  "cap_btc (count f ac) = cap_btc ac" "cap_ltc (count f ac) = cap_ltc ac"
  "a_btc (count f ac) = a_btc ac" "a_ltc (count f ac) = a_ltc ac"
  by (simp_all add: count_def items_def)

lemma ac_ok_count [simp]: "ac_ok (count f ac) \<longleftrightarrow> ac_ok ac"
  by (simp add: ac_ok_def fits_def)

lemma Clear_loop_eq: "a_map ac \<noteq> None \<Longrightarrow> wf_map (items ac) \<Longrightarrow> Clear_loop as n ac = (ac', n') \<Longrightarrow>
    wf_map (items ac') \<and> ac' = set_items (items ac') ac \<and> length (items ac') + n' = length (items ac) + n \<and>
    (\<forall>k. mget (items ac') k = (if k \<in> set as then None else mget (items ac) k))"
proof (induction as arbitrary: n ac)
  case (Cons addr as)
  show ?case
  proof (cases "mget (items ac) addr")
    case None
    then show ?thesis using Cons.IH [OF Cons.prems(1,2)] Cons.prems(3) by auto
  next
    case (Some aci)
    let ?ac = "set_items (mdel addr (items ac)) ac"
    have i: "items ?ac = mdel addr (items ac)" using Cons.prems(1) by auto
    have len: "Suc (length (mdel addr (items ac))) = length (items ac)"
      using Some Cons.prems(2) mdel_shorter [of "items ac" addr] by (simp add: length_mdel)
    have "wf_map (items ac') \<and> ac' = set_items (items ac') ?ac \<and>
        length (items ac') + n' = length (items ?ac) + Suc n \<and>
        (\<forall>k. mget (items ac') k = (if k \<in> set as then None else mget (items ?ac) k))"
      by (rule Cons.IH) (use Some Cons.prems i in simp_all)
    then show ?thesis using len i by auto
  qed
qed (auto simp: set_items_self)

inductive ac_step :: "'c AddressCache \<Rightarrow> 'c AddressCache \<Rightarrow> bool" where
  st_rows: "StoreRows parse fuel ord addr full block ac = Done (ac', b) \<Longrightarrow> ac_step ac ac'"
| st_compact: "StoreRowsCompact fuel ord addr rs block ac = Done (ac', b) \<Longrightarrow> ac_step ac ac'"
| st_balance: "StoreBalance fuel ord addr bal block ac = Done (ac', b) \<Longrightarrow> ac_step ac ac'"
| st_utxos: "StoreUTXOs fuel ord addr us block ac = Done (ac', b) \<Longrightarrow> ac_step ac ac'"
| st_chart: "StoreHistoryChart fuel ord chart0 addr c g cd block ac = Done (ac', b) \<Longrightarrow> ac_step ac ac'"
| st_xrows: "StoreMutilchainRows fuel ord addr xrs xblock ct ac = Done (ac', b) \<Longrightarrow> ac_step ac ac'"
| st_xbalance: "StoreMutilchainBalance fuel ord addr bal xblock ct ac = Done (ac', b) \<Longrightarrow> ac_step ac ac'"
| st_clear: "Clear sl ac = (ac', n) \<Longrightarrow> ac_step ac ac'"
| st_clear_all: "ClearAll ac = (ac', n) \<Longrightarrow> ac_step ac ac'"
| st_clear_utxos: "ac_step ac (ClearUTXOs addr ac)"
| st_clear_rows: "ac_step ac (ClearRows addr ac)"
| st_clear_xrows: "ac_step ac (ClearMutilchainRows addr ct ac)"
| st_read_balance: "Balance addr ac = (ac', r1) \<Longrightarrow> ac_step ac ac'"
| st_read_xbalance: "MutilchainBalance addr ct ac = (ac', r2) \<Longrightarrow> ac_step ac ac'"
| st_read_utxos: "UTXOs addr ac = (ac', r3) \<Longrightarrow> ac_step ac ac'"
| st_read_rows: "Rows addr ac = (ac', r4) \<Longrightarrow> ac_step ac ac'"
| st_read_chart: "HistoryChart_of addr c g ac = Done (ac', r5) \<Longrightarrow> ac_step ac ac'"
| st_transactions: "TransactionsYearMonth print addr N offset v year month ac = (ac', r6) \<Longrightarrow> ac_step ac ac'"
| st_xtransactions: "MutilchainTransactionsCompact addr N offset v ct ac = (ac', r7) \<Longrightarrow> ac_step ac ac'"

text \<open>The project address is set once, before the cache is used.\<close>

inductive ac_reachable :: "'c AddressCache \<Rightarrow> bool" where
  new_cache: "ac_reachable ((NewAddressCache rowCapacity addressCapacity utxoCapacityBytes)\<lparr>ProjectAddress := p\<rparr>)"
| new_mutilchain_cache:
    "ac_reachable ((NewMutilchainAddressCache rowCapacity addressCapacity utxoCapacityBytes ct)\<lparr>ProjectAddress := p\<rparr>)"
| ac_stepped: "ac_reachable ac \<Longrightarrow> ac_step ac ac' \<Longrightarrow> ac_reachable ac'"

lemma fits_Nil: "fits [] ac"
  by (simp add: fits_def)

lemma ac_ok_update_item: "ac_ok ac \<Longrightarrow> ac_ok (update_item addr aci ac)"
  using ac_ok_set_items [of ac "mput addr aci (items ac)"] fits_mput_present [of "items ac" ac addr aci]
  by (auto simp: update_item_def ac_ok_fits)

lemma ac_ok_ClearAll: "ac_ok ac \<Longrightarrow> ac_ok (fst (ClearAll ac))"
  by (simp add: ClearAll_def ac_ok_def items_def fits_def)

lemma ac_ok_Clear:
  assumes "ac_ok ac" and "Clear sl ac = (ac', n)"
  shows "ac_ok ac'"
proof (cases sl)
  case None
  then show ?thesis using assms ac_ok_ClearAll [of ac] by (simp add: Clear_def)
next
  case (Some as)
  show ?thesis
  proof (cases "as = [] \<or> a_map ac = None")
    case True
    have nil: "a_map ac = None \<Longrightarrow> Clear_loop ks 0 ac = (ac, 0)" for ks
      by (induction ks) (simp_all add: items_def)
    have "ac' = ac"
    proof (cases "as = []")
      case False
      then show ?thesis using nil [of as] True assms(2) Some by (simp add: Clear_def)
    qed (use assms(2) Some in \<open>simp add: Clear_def\<close>)
    then show ?thesis using assms(1) by simp
  next
    case False
    then have loop: "Clear_loop as 0 ac = (ac', n)" using assms(2) Some by (simp add: Clear_def)
    have wf: "wf_map (items ac)" using assms(1) by (simp add: ac_ok_def fits_def)
    from False Clear_loop_eq [OF _ wf loop] have "wf_map (items ac')" "ac' = set_items (items ac') ac"
      "length (items ac') + n = length (items ac)" by simp_all
    then show ?thesis
      using ac_ok_set_items [OF assms(1), of "items ac'"] assms(1) by (simp add: ac_ok_def fits_def)
  qed
qed

lemma TransactionsYearMonth_cache: "TransactionsYearMonth print addr N offset v year month ac = (ac', r) \<Longrightarrow>
    ac' = ac \<or> ac' = count rowHit ac \<or> ac' = count rowMiss ac"
  by (cases v; cases "addressCacheItem addr ac")
    (auto simp: TransactionsYearMonth_def TransactionsMerged_def TransactionsCompact_def
      split: go_result.splits prod.splits)

lemma ac_step_ok: "ac_step ac ac' \<Longrightarrow> ac_ok ac \<Longrightarrow> ac_ok ac'"
proof (induction rule: ac_step.induct)
  case (st_xrows fuel ord addr xrs xblock ct ac ac' b)
  then show ?case by (simp add: StoreMutilchainRows_refused ac_ok_def)
next
  case (st_xbalance fuel ord addr bal xblock ct ac ac' b)
  then show ?case by (simp add: StoreMutilchainBalance_refused ac_ok_def)
next
  case (st_clear_all ac ac' n)
  then show ?case using ac_ok_ClearAll [of ac] by simp
next
  case (st_clear_utxos ac addr)
  then show ?case by (simp add: ClearUTXOs_def ac_ok_update_item split: option.splits)
next
  case (st_clear_rows ac addr)
  then show ?case by (simp add: ClearRows_def ac_ok_update_item split: option.splits)
next
  case (st_transactions print addr N offset v year month ac ac' r6)
  then show ?case using TransactionsYearMonth_cache by fastforce
next
  case (st_read_chart addr c g ac ac' r5)
  then show ?case
    by (auto simp: HistoryChart_of_def split: option.splits go_result.splits prod.splits)
next
  case (st_rows parse fuel ord addr full block ac ac' b)
  then show ?case by (blast intro: ac_ok_stores StoreRows_stores ac_ok_fits)
next
  case (st_compact fuel ord addr rs block ac ac' b)
  then show ?case by (blast intro: ac_ok_stores StoreRowsCompact_stores ac_ok_fits)
next
  case (st_balance fuel ord addr bal block ac ac' b)
  then show ?case by (blast intro: ac_ok_stores StoreBalance_stores ac_ok_fits)
next
  case (st_utxos fuel ord addr us block ac ac' b)
  then show ?case by (blast intro: ac_ok_stores StoreUTXOs_stores ac_ok_fits)
next
  case (st_chart fuel ord chart0 addr c g cd block ac ac' b)
  then show ?case by (blast intro: ac_ok_stores StoreHistoryChart_stores ac_ok_fits)
next
  case (st_clear sl ac ac' n)
  then show ?case by (blast intro: ac_ok_Clear)
qed (auto simp: ClearMutilchainRows_none Balance_def MutilchainBalance_def UTXOs_def Rows_def
    MutilchainTransactionsCompact_def split: option.splits prod.splits)

lemma ac_reachable_ok: "ac_reachable ac \<Longrightarrow> ac_ok ac"
proof (induction rule: ac_reachable.induct)
  case (new_cache rowCapacity addressCapacity utxoCapacityBytes p)
  show ?case by (simp add: NewAddressCache_def ac_ok_def items_def fits_def)
next
  case (new_mutilchain_cache rowCapacity addressCapacity utxoCapacityBytes ct p)
  show ?case
    by (simp add: NewMutilchainAddressCache_def NewAddressCache_def ac_ok_def items_def fits_def Let_def)
qed (rule ac_step_ok)

section \<open>Properties\<close>

text \<open>
  The number of cached addresses never exceeds the address capacity, whatever sequence of stores,
  clears and reads is run on a new cache and whatever order the maps are visited in, and no address is
  cached twice.
\<close>

theorem address_capacity_kept:
  assumes "ac_reachable ac"
  shows "int (NumAddresses ac) \<le> max 0 (capAddr ac) \<and> distinct (map fst (items ac))"
  using ac_reachable_ok [OF assms] by (simp add: ac_ok_def fits_def wf_map_def NumAddresses_def)

definition demo_cache :: "int \<Rightarrow> int \<Rightarrow> unit AddressCache" where
  "demo_cache rowCap addrCap = (NewAddressCache rowCap addrCap 0)\<lparr>ProjectAddress := ''p''\<rparr>"

definition demo_block :: "nat \<Rightarrow> BlockID" where
  "demo_block n = \<lparr>bHash = replicate 32 (of_nat n), bHeight = int n\<rparr>"

lemma demo_reachable: "ac_reachable (demo_cache r n)"
  unfolding demo_cache_def by (rule ac_reachable.new_cache)

lemmas demo_eval = demo_cache_def NewAddressCache_def StoreBalance_def StoreRowsCompact_def setCacheItemRows_def
  addCacheItem_def purgeRowsToFit_def purge_to_fit_def eval_nat_numeral items_def set_items_def assign_item_def
  update_item_def num_rows_def new_item_def demo_block_def BlockHash_def mput_def mget_def mkeys_def mdel_def
  rows_at_def total_of_def Let_def

lemma address_capacity_kept_witness:
  "\<exists>ac. StoreBalance 5 (\<lambda>ks. ks) ''q'' None (Some (demo_block 1)) (demo_cache 3 1) = Done (ac, True) \<and>
     NumAddresses ac = 1 \<and> int (NumAddresses ac) \<le> max 0 (capAddr ac)"
proof -
  obtain ac where st: "StoreBalance 5 (\<lambda>ks. ks) ''q'' None (Some (demo_block 1)) (demo_cache 3 1) = Done (ac, True)"
    and n: "NumAddresses ac = 1"
    by (simp add: demo_eval NumAddresses_def)
  have "ac_reachable ac"
    by (rule ac_reachable.ac_stepped [OF demo_reachable ac_step.st_balance [OF st]])
  with address_capacity_kept [of ac] st n show ?thesis by auto
qed

text \<open>
  In every cache that the constructors make, the row and address capacities of the other chains
  are 0, so that storing rows or a balance for them is refused and changes nothing, and their maps stay
  empty: the caches of the other chains, the one made for them included, never hold anything.
\<close>

theorem other_chains_never_cached:
  assumes "ac_reachable ac"
  shows "StoreMutilchainRows fuel ord addr rs block chainType ac = Done (ac, False) \<and>
    StoreMutilchainBalance fuel ord addr bal block chainType ac = Done (ac, False) \<and>
    mutilchainlength TYPEBTC ac = (0, 0, 0) \<and> mutilchainlength TYPELTC ac = (0, 0, 0)"
  using ac_reachable_ok [OF assms]
  by (simp add: ac_ok_def StoreMutilchainRows_refused StoreMutilchainBalance_refused mutilchainlength_def
      GetMutilchainAddresCacheItemMap_def TYPEBTC_def TYPELTC_def)

lemma other_chains_never_cached_witness:
  "StoreMutilchainBalance 9 (\<lambda>ks. ks) ''q'' None (Some \<lparr>xbHash = ''h'', xbHeight = 1\<rparr>) TYPEBTC
      ((NewMutilchainAddressCache 1000 100 5000 TYPEBTC :: unit AddressCache)\<lparr>ProjectAddress := []\<rparr>)
    = Done ((NewMutilchainAddressCache 1000 100 5000 TYPEBTC)\<lparr>ProjectAddress := []\<rparr>, False)"
  using other_chains_never_cached [OF ac_reachable.new_mutilchain_cache] by blast

text \<open>
  Making room ends, below the address capacity, exactly when not both of these hold: the rows of
  the project address alone, with the rows to add, exceed the row capacity, and some cached address has
  no rows. In that state the eviction loop runs for ever, with the lock of the cache held. In every
  other state one scan more than there are cached addresses is enough.
\<close>

theorem purgeRowsToFit_ends_iff:
  assumes "ac_reachable ac" and "ord_ok ord" and "1 \<le> cap ac" and "int (NumAddresses ac) < capAddr ac"
  shows "((\<exists>fuel r. purgeRowsToFit fuel ord numRows ac = Done r) \<longleftrightarrow>
      \<not> (\<exists>aci. mget (items ac) (ProjectAddress ac) = Some aci \<and> 0 < num_rows aci \<and>
           int (num_rows aci) + numRows > cap ac \<and>
           (\<exists>k aci'. mget (items ac) k = Some aci' \<and> num_rows aci' = 0))) \<and>
    ((\<exists>fuel r. purgeRowsToFit fuel ord numRows ac = Done r) \<longleftrightarrow>
      (\<exists>r. purgeRowsToFit (Suc (NumAddresses ac)) ord numRows ac = Done r))"
proof -
  let ?m = "items ac" and ?p = "ProjectAddress ac"
  let ?stuck = "stuck ?p num_rows (cap ac) numRows ?m"
  have wf: "wf_map ?m" using ac_reachable_ok [OF assms(1)] by (simp add: ac_ok_def fits_def)
  have addrs: "clear_addrs (Suc fuel) ord prot (capAddr ac) ?m = Done ?m" for fuel prot
    using assms(4) by (simp add: NumAddresses_def)
  have stuck_iff: "?stuck \<longleftrightarrow> (\<exists>aci. mget ?m ?p = Some aci \<and> 0 < num_rows aci \<and>
      int (num_rows aci) + numRows > cap ac \<and> (\<exists>k aci'. mget ?m k = Some aci' \<and> num_rows aci' = 0))"
    unfolding stuck_def rows_at_def by (auto split: option.splits)
  have cA: "\<not> capAddr ac < 1" using assms(4) by (simp add: NumAddresses_def)
  have yes: "\<exists>r. purgeRowsToFit (Suc (NumAddresses ac)) ord numRows ac = Done r" if free: "\<not> ?stuck"
  proof -
    obtain m' where "clear_rows (Suc (length ?m)) ord (\<lambda>k. k = ?p) num_rows (cap ac) numRows ?m = Done m'"
      using clear_rows_returns [OF assms(2) wf lessI free] by blast
    then show ?thesis
      using assms(3) cA addrs by (simp add: purgeRowsToFit_def purge_to_fit_def NumAddresses_def del: clear_rows.simps clear_addrs.simps)
  qed
  have no: "purgeRowsToFit fuel ord numRows ac = NoReturn" if "?stuck" for fuel
  proof (cases fuel)
    case (Suc f)
    show ?thesis
      using assms(3) cA addrs [of f] clear_rows_stuck [OF assms(2) wf that, of fuel] Suc
      by (simp add: purgeRowsToFit_def purge_to_fit_def del: clear_rows.simps clear_addrs.simps)
  qed (use assms(3) cA in \<open>simp add: purgeRowsToFit_def purge_to_fit_def\<close>)
  show ?thesis
    unfolding stuck_iff [symmetric] using yes no by (cases ?stuck) auto
qed

definition demo_rows :: "nat \<Rightarrow> AddressRowCompact slice" where
  "demo_rows n = Some (map (\<lambda>i. demo_row i True 1) [0..<n])"

lemma length_demo_rows [simp]: "length (elems (demo_rows n)) = n"
  by (simp add: demo_rows_def)

lemma demo_rows_not_nil [simp]: "demo_rows n \<noteq> None"
  by (simp add: demo_rows_def)

lemma purgeRowsToFit_ends_iff_witness:
  "\<exists>ac. ac_reachable ac \<and> NumAddresses ac = 2 \<and>
     \<not> (\<exists>fuel r. purgeRowsToFit fuel (\<lambda>ks. ks) 1 (ac :: unit AddressCache) = Done r)"
proof -
  obtain ac1 where 1: "StoreRowsCompact 5 (\<lambda>ks. ks) ''p'' (demo_rows 2) (Some (demo_block 1)) (demo_cache 2 5) = Done (ac1, True)"
    and ac1: "ac1 = set_items [(''p'', (new_item (demo_block 1))\<lparr>rows := demo_rows 2\<rparr>)] (demo_cache 2 5)"
    by (simp add: demo_eval)
  obtain ac where 2: "StoreBalance 5 (\<lambda>ks. ks) ''q'' None (Some (demo_block 1)) ac1 = Done (ac, True)"
    and ac: "items ac = [(''p'', (new_item (demo_block 1))\<lparr>rows := demo_rows 2\<rparr>),
      (''q'', (new_item (demo_block 1))\<lparr>balance := Some (balance_or_new ''q'' None)\<rparr>)]"
      "cap ac = 2" "capAddr ac = 5" "ProjectAddress ac = ''p''"
    by (simp add: ac1 demo_eval)
  have r: "ac_reachable ac"
    by (rule ac_reachable.ac_stepped [OF ac_reachable.ac_stepped [OF demo_reachable ac_step.st_compact [OF 1]]
          ac_step.st_balance [OF 2]])
  have o: "ord_ok (\<lambda>ks. ks)" by (simp add: ord_ok_def)
  have n: "NumAddresses ac = 2" using ac(1) by (simp add: NumAddresses_def)
  have q: "mget (items ac) ''p'' = Some ((new_item (demo_block 1))\<lparr>rows := demo_rows 2\<rparr>)"
    "mget (items ac) ''q'' = Some ((new_item (demo_block 1))\<lparr>balance := Some (balance_or_new ''q'' None)\<rparr>)"
    by (simp_all add: ac(1) mget_def)
  have e: "\<exists>k aci'. mget (items ac) k = Some aci' \<and> num_rows aci' = 0"
    by (rule exI [of _ "''q''"]) (simp add: q num_rows_def new_item_def)
  define it :: "unit AddressCacheItem" where "it = (new_item (demo_block 1))\<lparr>rows := demo_rows 2\<rparr>"
  have it: "mget (items ac) ''p'' = Some it" "num_rows it = 2"
    unfolding it_def using q(1) by (simp_all add: num_rows_def del: length_0_conv)
  have "\<exists>aci. mget (items ac) (ProjectAddress ac) = Some aci \<and> 0 < num_rows aci \<and>
      int (num_rows aci) + 1 > cap ac \<and> (\<exists>k aci'. mget (items ac) k = Some aci' \<and> num_rows aci' = 0)"
    using it e by (simp add: ac(2,4))
  moreover have "1 \<le> cap ac" "int (NumAddresses ac) < capAddr ac" using ac n by simp_all
  ultimately show ?thesis using purgeRowsToFit_ends_iff [OF r o, of 1] r n by blast
qed

text \<open>
  Storing the rows of an address that is not cached, or is cached at another block, and being told
  of success: a read then returns exactly these rows with this block; every other address has kept its
  item or lost it, and the project address has kept it. If the address was not cached, the rows in the
  cache are within the row capacity.
\<close>

theorem StoreRowsCompact_fresh:
  fixes ac :: "'c AddressCache"
  assumes "ac_reachable ac" and "\<forall>aci. mget (items ac) addr = Some aci \<longrightarrow> hash aci \<noteq> bHash b"
    and "StoreRowsCompact fuel ord addr rs (Some b) ac = Done (ac', True)"
  shows "snd (Rows addr ac') = (Some (elems rs), Some b) \<and>
    (\<forall>k. k \<noteq> addr \<longrightarrow> mget (items ac') k = None \<or> mget (items ac') k = mget (items ac) k) \<and>
    (addr \<noteq> ProjectAddress ac \<longrightarrow>
       mget (items ac') (ProjectAddress ac) = mget (items ac) (ProjectAddress ac)) \<and>
    (mget (items ac) addr = None \<longrightarrow> int (total_of num_rows (items ac')) \<le> cap ac')"
proof -
  let ?aci = "(new_item b :: 'c AddressCacheItem)\<lparr>rows := Some (elems rs)\<rparr>"
  have fits: "fits (items ac) ac" using ac_reachable_ok [OF assms(1)] by (rule ac_ok_fits)
  have rs: "(if rs = None then Some [] else rs) = Some (elems rs)" by (cases rs) simp_all
  have add: "addCacheItem fuel ord addr ?aci ac = Done (ac', True)"
    using assms(2,3)
    by (auto simp: StoreRowsCompact_def setCacheItemRows_def rs Let_def BlockHash_def
        split: if_splits option.splits)
  obtain ac1 where ev: "evicted (\<lambda>k. k = ProjectAddress ac) (items ac) (items ac1)"
    and ac': "ac' = set_items (mput addr ?aci (items ac1)) ac" "a_map ac \<noteq> None"
    and room: "int (total_of num_rows (items ac1)) + (int (num_rows ?aci)
      - (case mget (items ac) addr of None \<Rightarrow> 0 | Some aci0 \<Rightarrow> int (num_rows aci0))) \<le> cap ac"
    using addCacheItem_Done [OF add fits] by blast
  have i: "items ac' = mput addr ?aci (items ac1)" using ac' by auto
  have "snd (Rows addr ac') = (Some (elems rs), Some b)"
    by (simp add: Rows_def addressCacheItem_def i item_Rows_def blockID_def new_item_def)
  moreover have "mget (items ac') k = None \<or> mget (items ac') k = mget (items ac) k" if "k \<noteq> addr" for k
    using ev that by (auto simp: i evicted_def)
  moreover have "addr \<noteq> ProjectAddress ac \<Longrightarrow>
      mget (items ac') (ProjectAddress ac) = mget (items ac) (ProjectAddress ac)"
    using ev by (auto simp: i evicted_def)
  moreover have "int (total_of num_rows (items ac')) \<le> cap ac'" if none: "mget (items ac) addr = None"
  proof -
    have "mget (items ac1) addr = None" "wf_map (items ac1)"
      using ev none by (auto simp: evicted_def) (metis none)
    then have "total_of num_rows (items ac') = num_rows ?aci + total_of num_rows (items ac1)"
      by (simp add: i total_of_mput mdel_notin)
    then show ?thesis using room none ac'(1) by simp
  qed
  ultimately show ?thesis by blast
qed

lemma StoreRowsCompact_fresh_witness:
  "\<exists>ac'. StoreRowsCompact 5 (\<lambda>ks. ks) ''x'' (demo_rows 2) (Some (demo_block 1)) (demo_cache 3 5)
      = Done (ac', True) \<and> snd (Rows ''x'' ac') = (Some (elems (demo_rows 2)), Some (demo_block 1))"
proof -
  obtain ac' where st: "StoreRowsCompact 5 (\<lambda>ks. ks) ''x'' (demo_rows 2) (Some (demo_block 1)) (demo_cache 3 5)
      = Done (ac', True)"
    by (simp add: demo_eval)
  have "\<forall>aci. mget (items (demo_cache 3 5)) ''x'' = Some aci \<longrightarrow> hash aci \<noteq> bHash (demo_block 1)"
    by (simp add: demo_cache_def NewAddressCache_def items_def)
  from StoreRowsCompact_fresh [OF demo_reachable this st] st show ?thesis by blast
qed

text \<open>
  The row capacity can be exceeded. The rows that the stored item replaces are counted as room,
  but the item may itself be evicted while room is made, and then the room is counted twice: with a
  capacity of 3 rows, 2 rows of one address and 1 of another, storing 3 rows of the first at a new
  block reports success and leaves 4.
\<close>

theorem row_capacity_exceeded:
  "\<exists>ac ac' :: unit AddressCache. ac_reachable ac \<and> cap ac = 3 \<and> total_of num_rows (items ac) = 3 \<and>
     StoreRowsCompact 5 (\<lambda>ks. ks) ''x'' (demo_rows 3) (Some (demo_block 2)) ac = Done (ac', True) \<and>
     total_of num_rows (items ac') = 4 \<and> cap ac' = 3"
proof -
  obtain ac1 where 1: "StoreRowsCompact 5 (\<lambda>ks. ks) ''x'' (demo_rows 2) (Some (demo_block 1)) (demo_cache 3 5) = Done (ac1, True)"
    and ac1: "ac1 = set_items [(''x'', (new_item (demo_block 1))\<lparr>rows := demo_rows 2\<rparr>)] (demo_cache 3 5)"
    by (simp add: demo_eval)
  obtain ac where 2: "StoreRowsCompact 5 (\<lambda>ks. ks) ''y'' (demo_rows 1) (Some (demo_block 1)) ac1 = Done (ac, True)"
    and ac: "ac = set_items [(''x'', (new_item (demo_block 1))\<lparr>rows := demo_rows 2\<rparr>),
      (''y'', (new_item (demo_block 1))\<lparr>rows := demo_rows 1\<rparr>)] (demo_cache 3 5)"
    by (simp add: ac1 demo_eval demo_rows_def)
  have r: "ac_reachable ac"
    by (rule ac_reachable.ac_stepped [OF ac_reachable.ac_stepped [OF demo_reachable ac_step.st_compact [OF 1]]
          ac_step.st_compact [OF 2]])
  obtain ac' where "StoreRowsCompact 5 (\<lambda>ks. ks) ''x'' (demo_rows 3) (Some (demo_block 2)) ac = Done (ac', True)"
    "total_of num_rows (items ac') = 4" "cap ac' = 3"
    by (simp add: ac demo_eval demo_rows_def)
  moreover have "cap ac = 3" "total_of num_rows (items ac) = 3"
    by (simp_all add: ac demo_eval demo_rows_def)
  ultimately show ?thesis using r by blast
qed

text \<open>
  Storing the rows of an address that is cached at the same block makes room for one more address
  first, which can evict the very item it is about to write to: with an address capacity of 1, rows
  stored after the balance are reported as stored and the address is no longer cached at all.
\<close>

theorem rows_stored_in_evicted_item:
  "\<exists>ac ac' :: unit AddressCache. ac_reachable ac \<and>
     StoreRowsCompact 5 (\<lambda>ks. ks) ''x'' (demo_rows 1) (Some (demo_block 1)) ac = Done (ac', True) \<and>
     fst (NumRows ''x'' ac') = -1 \<and> NumAddresses ac' = 0"
proof -
  obtain ac where 1: "StoreBalance 5 (\<lambda>ks. ks) ''x'' None (Some (demo_block 1)) (demo_cache 3 1) = Done (ac, True)"
    and ac: "ac = set_items [(''x'', (new_item (demo_block 1))\<lparr>balance := Some (balance_or_new ''x'' None)\<rparr>)]
      (demo_cache 3 1)"
    by (simp add: demo_eval)
  have r: "ac_reachable ac"
    by (rule ac_reachable.ac_stepped [OF demo_reachable ac_step.st_balance [OF 1]])
  obtain ac' where "StoreRowsCompact 5 (\<lambda>ks. ks) ''x'' (demo_rows 1) (Some (demo_block 1)) ac = Done (ac', True)"
    "fst (NumRows ''x'' ac') = -1" "NumAddresses ac' = 0"
    by (simp add: ac demo_eval demo_rows_def NumRows_def NumAddresses_def addressCacheItem_def)
  with r show ?thesis by blast
qed

text \<open>
  Clearing a list of addresses removes exactly these, counts the ones that were cached, and keeps
  the items of all others.
\<close>

theorem Clear_correct:
  assumes "ac_reachable ac" and "a_map ac \<noteq> None" and "Clear (Some as) ac = (ac', n)"
  shows "NumAddresses ac' + n = NumAddresses ac \<and>
    (\<forall>k. mget (items ac') k = (if k \<in> set as then None else mget (items ac) k))"
proof (cases "as = []")
  case True
  then show ?thesis using assms(3) by (simp add: Clear_def)
next
  case False
  then have "Clear_loop as 0 ac = (ac', n)" using assms(3) by (simp add: Clear_def)
  moreover have "wf_map (items ac)" using ac_reachable_ok [OF assms(1)] by (simp add: ac_ok_def fits_def)
  ultimately show ?thesis using Clear_loop_eq assms(2) by (fastforce simp: NumAddresses_def)
qed

lemma Clear_correct_witness:
  "\<exists>ac ac' :: unit AddressCache. NumAddresses ac = 1 \<and> Clear (Some [''x'', ''q'', ''x'']) ac = (ac', 1) \<and>
     NumAddresses ac' + 1 = NumAddresses ac"
proof -
  obtain ac where st: "StoreBalance 5 (\<lambda>ks. ks) ''x'' None (Some (demo_block 1)) (demo_cache 3 2) = Done (ac, True)"
    and ac: "ac = set_items [(''x'', (new_item (demo_block 1))\<lparr>balance := Some (balance_or_new ''x'' None)\<rparr>)]
      (demo_cache 3 2)"
    by (simp add: demo_eval)
  have r: "ac_reachable ac"
    by (rule ac_reachable.ac_stepped [OF demo_reachable ac_step.st_balance [OF st]])
  obtain ac' where c: "Clear (Some [''x'', ''q'', ''x'']) ac = (ac', 1)"
    by (simp add: ac Clear_def demo_eval)
  have "a_map ac \<noteq> None" "NumAddresses ac = 1"
    by (simp_all add: ac demo_cache_def NewAddressCache_def NumAddresses_def)
  with Clear_correct [OF r _ c] c show ?thesis by blast
qed

end
