(* ===== verification/BlockHeap.thy ===== *)
theory BlockHeap
  imports Prelude "HOL-Library.Multiset"
begin

text \<open>
  The heap of the block priority queue (\<open>api/types/apicache.go\<close>): \<open>BlockPriorityQueue\<close> is the
  \<open>heap.Interface\<close> of the standard package \<open>container/heap\<close>, whose routines are modelled here over
  the two operations they call, \<open>Less\<close> on two elements and \<open>Swap\<close> on two positions. \<open>Swap\<close> of the
  queue writes the new position into both elements, which is the parameter \<open>setIdx\<close>.

  The locale states what a comparator must satisfy. Inside it the routines are proved to keep the
  elements and to establish the heap property.
\<close>

section \<open>The routines of container/heap\<close>

definition hswap :: "(nat \<Rightarrow> 'a \<Rightarrow> 'a) \<Rightarrow> nat \<Rightarrow> nat \<Rightarrow> 'a list \<Rightarrow> 'a list" where
  "hswap setIdx i j xs =
     (let ys = xs[i := xs ! j, j := xs ! i]; zs = ys[i := setIdx i (ys ! i)]
      in zs[j := setIdx j (zs ! j)])"

function up :: "('a \<Rightarrow> 'a \<Rightarrow> bool) \<Rightarrow> (nat \<Rightarrow> 'a \<Rightarrow> 'a) \<Rightarrow> nat \<Rightarrow> 'a list \<Rightarrow> 'a list" where
  "up lessFn setIdx j xs =
     (let i = (j - 1) div 2 in
      if i = j \<or> \<not> lessFn (xs ! j) (xs ! i) then xs
      else up lessFn setIdx i (hswap setIdx i j xs))"
  by pat_completeness auto
termination
  by (relation "measure (\<lambda>(less', setIdx, j, xs). j)") (auto simp: Let_def)

text \<open>The smaller child of \<open>i\<close> among the first \<open>n\<close> elements.\<close>

definition min_child :: "('a \<Rightarrow> 'a \<Rightarrow> bool) \<Rightarrow> nat \<Rightarrow> nat \<Rightarrow> 'a list \<Rightarrow> nat" where
  "min_child lessFn n i xs =
     (let j1 = 2 * i + 1; j2 = j1 + 1 in if j2 < n \<and> lessFn (xs ! j2) (xs ! j1) then j2 else j1)"

function down ::
  "('a \<Rightarrow> 'a \<Rightarrow> bool) \<Rightarrow> (nat \<Rightarrow> 'a \<Rightarrow> 'a) \<Rightarrow> nat \<Rightarrow> nat \<Rightarrow> 'a list \<Rightarrow> 'a list \<times> nat" where
  "down lessFn setIdx n i xs =
     (if 2 * i + 1 \<ge> n then (xs, i)
      else
        let j = min_child lessFn n i xs in
        if \<not> lessFn (xs ! j) (xs ! i) then (xs, i)
        else down lessFn setIdx n j (hswap setIdx i j xs))"
  by pat_completeness auto
termination
  by (relation "measure (\<lambda>(less', setIdx, n, i, xs). n - i)") (auto simp: min_child_def Let_def)

declare up.simps [simp del] down.simps [simp del]

text \<open>\<open>down\<close> of the package also returns whether the element moved, which is \<open>i > i0\<close>.\<close>

definition hinit :: "('a \<Rightarrow> 'a \<Rightarrow> bool) \<Rightarrow> (nat \<Rightarrow> 'a \<Rightarrow> 'a) \<Rightarrow> 'a list \<Rightarrow> 'a list" where
  "hinit lessFn setIdx xs =
     foldl (\<lambda>ys i. fst (down lessFn setIdx (length ys) i ys)) xs (rev [0..<length xs div 2])"

definition hfix :: "('a \<Rightarrow> 'a \<Rightarrow> bool) \<Rightarrow> (nat \<Rightarrow> 'a \<Rightarrow> 'a) \<Rightarrow> nat \<Rightarrow> 'a list \<Rightarrow> 'a list" where
  "hfix lessFn setIdx i xs =
     (case down lessFn setIdx (length xs) i xs of
        (ys, j) \<Rightarrow> if j > i then ys else up lessFn setIdx i ys)"

text \<open>\<open>heap.Push\<close> after the queue has appended the element, \<open>heap.Remove\<close> before \<open>Pop\<close>.\<close>

definition hpush :: "('a \<Rightarrow> 'a \<Rightarrow> bool) \<Rightarrow> (nat \<Rightarrow> 'a \<Rightarrow> 'a) \<Rightarrow> 'a list \<Rightarrow> 'a list" where
  "hpush lessFn setIdx xs = up lessFn setIdx (length xs - 1) xs"

definition hremove :: "('a \<Rightarrow> 'a \<Rightarrow> bool) \<Rightarrow> (nat \<Rightarrow> 'a \<Rightarrow> 'a) \<Rightarrow> nat \<Rightarrow> 'a list \<Rightarrow> 'a list" where
  "hremove lessFn setIdx i xs =
     (let n = length xs - 1 in
      if n \<noteq> i
      then (case down lessFn setIdx n i (hswap setIdx i n xs) of
              (ys, j) \<Rightarrow> if j > i then ys else up lessFn setIdx i ys)
      else xs)"

section \<open>Heaps\<close>

text \<open>The parent of a position, and elements up to the position they record.\<close>

definition parent :: "nat \<Rightarrow> nat" where
  "parent k = (k - 1) div 2"

definition erase :: "(nat \<Rightarrow> 'a \<Rightarrow> 'a) \<Rightarrow> 'a \<Rightarrow> 'a" where
  "erase setIdx x = setIdx 0 x"

definition heap_elems :: "(nat \<Rightarrow> 'a \<Rightarrow> 'a) \<Rightarrow> 'a list \<Rightarrow> 'a multiset" where
  "heap_elems setIdx xs = mset (map (erase setIdx) xs)"

text \<open>Every element records the position it is at.\<close>

definition pos_ok :: "(nat \<Rightarrow> 'a \<Rightarrow> 'a) \<Rightarrow> 'a list \<Rightarrow> bool" where
  "pos_ok setIdx xs \<longleftrightarrow> (\<forall>k < length xs. setIdx k (xs ! k) = xs ! k)"

definition edge_ok :: "('a \<Rightarrow> 'a \<Rightarrow> bool) \<Rightarrow> 'a list \<Rightarrow> nat \<Rightarrow> bool" where
  "edge_ok lessFn xs k \<longleftrightarrow> \<not> lessFn (xs ! k) (xs ! parent k)"

text \<open>Every element of the first \<open>n\<close> whose parent is at \<open>lo\<close> or behind is not less than its parent.\<close>

definition heap_from :: "('a \<Rightarrow> 'a \<Rightarrow> bool) \<Rightarrow> nat \<Rightarrow> nat \<Rightarrow> 'a list \<Rightarrow> bool" where
  "heap_from lessFn lo n xs \<longleftrightarrow> (\<forall>k. 0 < k \<longrightarrow> k < n \<longrightarrow> lo \<le> parent k \<longrightarrow> edge_ok lessFn xs k)"

definition is_heap :: "('a \<Rightarrow> 'a \<Rightarrow> bool) \<Rightarrow> 'a list \<Rightarrow> bool" where
  "is_heap lessFn xs \<longleftrightarrow> heap_from lessFn 0 (length xs) xs"

text \<open>The heap property but for the element at \<open>i\<close>.\<close>

definition hole :: "('a \<Rightarrow> 'a \<Rightarrow> bool) \<Rightarrow> nat \<Rightarrow> nat \<Rightarrow> nat \<Rightarrow> 'a list \<Rightarrow> bool" where
  "hole lessFn lo n i xs \<longleftrightarrow>
     (\<forall>k. 0 < k \<longrightarrow> k < n \<longrightarrow> lo \<le> parent k \<longrightarrow> k \<noteq> i \<longrightarrow> parent k \<noteq> i \<longrightarrow> edge_ok lessFn xs k) \<and>
     (\<forall>k. 0 < k \<longrightarrow> k < n \<longrightarrow> parent k = i \<longrightarrow> 0 < i \<longrightarrow> lo \<le> parent i \<longrightarrow>
        \<not> lessFn (xs ! k) (xs ! parent i))"

definition up_hole :: "('a \<Rightarrow> 'a \<Rightarrow> bool) \<Rightarrow> nat \<Rightarrow> nat \<Rightarrow> 'a list \<Rightarrow> bool" where
  "up_hole lessFn n j xs \<longleftrightarrow>
     (\<forall>k. 0 < k \<longrightarrow> k < n \<longrightarrow> k \<noteq> j \<longrightarrow> edge_ok lessFn xs k) \<and>
     (\<forall>k. 0 < k \<longrightarrow> k < n \<longrightarrow> parent k = j \<longrightarrow> 0 < j \<longrightarrow> \<not> lessFn (xs ! k) (xs ! parent j))"

lemma parent_less: "0 < k \<Longrightarrow> parent k < k"
  by (simp add: parent_def)

lemma parent_children: "0 < k \<Longrightarrow> parent k = i \<longleftrightarrow> k = 2 * i + 1 \<or> k = 2 * i + 2"
  by (auto simp: parent_def)

section \<open>What the routines keep\<close>

text \<open>
  Whatever the comparator answers, the routines only swap elements: they keep the elements up to the
  recorded positions, and that the recorded positions are right.
\<close>

locale heap_swaps =
  fixes lessFn :: "'a \<Rightarrow> 'a \<Rightarrow> bool"
    and setIdx :: "nat \<Rightarrow> 'a \<Rightarrow> 'a"
  assumes setIdx_setIdx: "setIdx i (setIdx j x) = setIdx i x"
begin

lemma length_hswap [simp]: "length (hswap setIdx i j xs) = length xs"
  by (simp add: hswap_def Let_def)

lemma hswap_nth:
  assumes "i < length xs" "j < length xs" "i \<noteq> j" "k < length xs"
  shows "hswap setIdx i j xs ! k =
    (if k = i then setIdx i (xs ! j) else if k = j then setIdx j (xs ! i) else xs ! k)"
  using assms by (simp add: hswap_def Let_def nth_list_update)

lemma erase_setIdx [simp]: "erase setIdx (setIdx i x) = erase setIdx x"
  by (simp add: erase_def setIdx_setIdx)

lemma heap_elems_hswap:
  assumes "i < length xs" "j < length xs"
  shows "heap_elems setIdx (hswap setIdx i j xs) = heap_elems setIdx xs"
proof -
  have "map (erase setIdx) (hswap setIdx i j xs) = (map (erase setIdx) xs)[i := map (erase setIdx) xs ! j, j := map (erase setIdx) xs ! i]"
    using assms
    by (auto simp: hswap_def Let_def map_update nth_list_update intro!: nth_equalityI)
  then show ?thesis
    using mset_swap [of j "map (erase setIdx) xs" i] assms by (simp add: heap_elems_def)
qed

lemma min_child_bounds:
  assumes "2 * i + 1 < n"
  shows "min_child lessFn n i xs < n" "0 < min_child lessFn n i xs" "parent (min_child lessFn n i xs) = i"
    "i < min_child lessFn n i xs"
  using assms by (auto simp: min_child_def Let_def parent_def)

lemma down_step: "2 * i + 1 < n \<Longrightarrow> lessFn (xs ! min_child lessFn n i xs) (xs ! i) \<Longrightarrow>
    down lessFn setIdx n i xs
      = down lessFn setIdx n (min_child lessFn n i xs) (hswap setIdx i (min_child lessFn n i xs) xs)"
  by (subst down.simps) (simp add: Let_def)

lemma down_stop: "\<not> (2 * i + 1 < n \<and> lessFn (xs ! min_child lessFn n i xs) (xs ! i)) \<Longrightarrow>
    down lessFn setIdx n i xs = (xs, i)"
  by (subst down.simps) (auto simp: Let_def)

text \<open>What holds of a swap with the smaller child and is kept by it holds of \<open>down\<close>.\<close>

lemma down_induct:
  assumes stop: "\<And>i xs. \<not> (2 * i + 1 < n \<and> lessFn (xs ! min_child lessFn n i xs) (xs ! i)) \<Longrightarrow> P i xs (xs, i)"
    and step: "\<And>i xs r. 2 * i + 1 < n \<Longrightarrow> lessFn (xs ! min_child lessFn n i xs) (xs ! i) \<Longrightarrow>
      P (min_child lessFn n i xs) (hswap setIdx i (min_child lessFn n i xs) xs) r \<Longrightarrow> P i xs r"
  shows "P i xs (down lessFn setIdx n i xs)"
proof (induction "n - i" arbitrary: i xs rule: less_induct)
  case less
  show ?case
  proof (cases "2 * i + 1 < n \<and> lessFn (xs ! min_child lessFn n i xs) (xs ! i)")
    case True
    then have c: "2 * i + 1 < n" and l: "lessFn (xs ! min_child lessFn n i xs) (xs ! i)" by auto
    have "n - min_child lessFn n i xs < n - i" using min_child_bounds [OF c, of xs] by linarith
    from step [OF c l less.hyps [OF this]] show ?thesis by (simp only: down_step [OF c l])
  next
    case False
    from stop [OF this] show ?thesis by (simp only: down_stop [OF False])
  qed
qed

lemma down_length: "length (fst (down lessFn setIdx n i xs)) = length xs"
  by (rule down_induct [where P = "\<lambda>i xs r. length (fst r) = length xs"]) simp_all

lemma down_elems: "n \<le> length xs \<longrightarrow> heap_elems setIdx (fst (down lessFn setIdx n i xs)) = heap_elems setIdx xs"
proof (rule down_induct [where P = "\<lambda>i xs r. n \<le> length xs \<longrightarrow> heap_elems setIdx (fst r) = heap_elems setIdx xs"], simp)
  fix i xs r
  assume c: "2 * i + 1 < n" and
    r: "n \<le> length (hswap setIdx i (min_child lessFn n i xs) xs) \<longrightarrow>
      heap_elems setIdx (fst r) = heap_elems setIdx (hswap setIdx i (min_child lessFn n i xs) xs)"
  show "n \<le> length xs \<longrightarrow> heap_elems setIdx (fst r) = heap_elems setIdx xs"
    using r min_child_bounds [OF c, of xs] by (simp add: heap_elems_hswap)
qed

lemma down_ge: "i \<le> snd (down lessFn setIdx n i xs)"
proof (rule down_induct [where P = "\<lambda>i xs r. i \<le> snd r"])
  fix i xs and r :: "'a list \<times> nat"
  assume "2 * i + 1 < n" "min_child lessFn n i xs \<le> snd r"
  then show "i \<le> snd r" using min_child_bounds(4) [of i n xs] by linarith
qed simp

lemma up_step: "0 < j \<Longrightarrow> lessFn (xs ! j) (xs ! parent j) \<Longrightarrow>
    up lessFn setIdx j xs = up lessFn setIdx (parent j) (hswap setIdx (parent j) j xs)"
  using parent_less [of j] by (subst up.simps) (auto simp: Let_def parent_def)

lemma up_stop: "\<not> (0 < j \<and> lessFn (xs ! j) (xs ! parent j)) \<Longrightarrow> up lessFn setIdx j xs = xs"
  by (subst up.simps) (auto simp: Let_def parent_def)

lemma up_induct:
  assumes stop: "\<And>j xs. \<not> (0 < j \<and> lessFn (xs ! j) (xs ! parent j)) \<Longrightarrow> P j xs xs"
    and step: "\<And>j xs r. 0 < j \<Longrightarrow> lessFn (xs ! j) (xs ! parent j) \<Longrightarrow>
      P (parent j) (hswap setIdx (parent j) j xs) r \<Longrightarrow> P j xs r"
  shows "P j xs (up lessFn setIdx j xs)"
proof (induction j arbitrary: xs rule: less_induct)
  case (less j)
  show ?case
  proof (cases "0 < j \<and> lessFn (xs ! j) (xs ! parent j)")
    case True
    then have c: "0 < j" and l: "lessFn (xs ! j) (xs ! parent j)" by auto
    from step [OF c l less.IH [OF parent_less [OF c]]] show ?thesis by (simp only: up_step [OF c l])
  next
    case False
    from stop [OF this] show ?thesis by (simp only: up_stop [OF False])
  qed
qed

lemma up_length [simp]: "length (up lessFn setIdx j xs) = length xs"
  by (rule up_induct [where P = "\<lambda>j xs r. length r = length xs"]) simp_all

lemma up_elems: "j < length xs \<longrightarrow> heap_elems setIdx (up lessFn setIdx j xs) = heap_elems setIdx xs"
proof (rule up_induct [where P = "\<lambda>j xs r. j < length xs \<longrightarrow> heap_elems setIdx r = heap_elems setIdx xs"], simp)
  fix j xs r
  assume "0 < j" and
    "parent j < length (hswap setIdx (parent j) j xs) \<longrightarrow> heap_elems setIdx r = heap_elems setIdx (hswap setIdx (parent j) j xs)"
  then show "j < length xs \<longrightarrow> heap_elems setIdx r = heap_elems setIdx xs"
    using parent_less [of j] by (auto simp: heap_elems_hswap)
qed

lemma pos_ok_hswap: "pos_ok setIdx xs \<Longrightarrow> i < length xs \<Longrightarrow> j < length xs \<Longrightarrow> i \<noteq> j \<Longrightarrow> pos_ok setIdx (hswap setIdx i j xs)"
  by (simp add: pos_ok_def hswap_nth setIdx_setIdx)

lemma down_pos: "pos_ok setIdx xs \<and> n \<le> length xs \<longrightarrow> pos_ok setIdx (fst (down lessFn setIdx n i xs))"
proof (rule down_induct [where P = "\<lambda>i xs r. pos_ok setIdx xs \<and> n \<le> length xs \<longrightarrow> pos_ok setIdx (fst r)"], simp)
  fix i xs r
  assume c: "2 * i + 1 < n" and
    r: "pos_ok setIdx (hswap setIdx i (min_child lessFn n i xs) xs) \<and>
      n \<le> length (hswap setIdx i (min_child lessFn n i xs) xs) \<longrightarrow> pos_ok setIdx (fst r)"
  show "pos_ok setIdx xs \<and> n \<le> length xs \<longrightarrow> pos_ok setIdx (fst r)"
    using r min_child_bounds [OF c, of xs] pos_ok_hswap [of xs i "min_child lessFn n i xs"] by auto
qed

lemma up_pos: "pos_ok setIdx xs \<and> j < length xs \<longrightarrow> pos_ok setIdx (up lessFn setIdx j xs)"
proof (rule up_induct [where P = "\<lambda>j xs r. pos_ok setIdx xs \<and> j < length xs \<longrightarrow> pos_ok setIdx r"], simp)
  fix j xs r
  assume "0 < j" and
    "pos_ok setIdx (hswap setIdx (parent j) j xs) \<and> parent j < length (hswap setIdx (parent j) j xs) \<longrightarrow> pos_ok setIdx r"
  then show "pos_ok setIdx xs \<and> j < length xs \<longrightarrow> pos_ok setIdx r"
    using parent_less [of j] pos_ok_hswap [of xs "parent j" j] by auto
qed

lemma down_beyond: "n \<le> length xs \<and> n \<le> k \<and> k < length xs \<longrightarrow> fst (down lessFn setIdx n i xs) ! k = xs ! k"
proof (rule down_induct [where P = "\<lambda>i xs r. n \<le> length xs \<and> n \<le> k \<and> k < length xs \<longrightarrow> fst r ! k = xs ! k"], simp)
  fix i xs and r :: "'a list \<times> nat"
  assume c: "2 * i + 1 < n" and
    r: "n \<le> length (hswap setIdx i (min_child lessFn n i xs) xs) \<and> n \<le> k \<and>
      k < length (hswap setIdx i (min_child lessFn n i xs) xs) \<longrightarrow>
      fst r ! k = hswap setIdx i (min_child lessFn n i xs) xs ! k"
  show "n \<le> length xs \<and> n \<le> k \<and> k < length xs \<longrightarrow> fst r ! k = xs ! k"
    using r min_child_bounds [OF c, of xs] by (auto simp: hswap_nth)
qed

lemma up_beyond: "j < k \<and> k < length xs \<longrightarrow> up lessFn setIdx j xs ! k = xs ! k"
proof (rule up_induct [where P = "\<lambda>j xs r. j < k \<and> k < length xs \<longrightarrow> r ! k = xs ! k"], simp)
  fix j xs and r :: "'a list"
  assume "0 < j" and
    "parent j < k \<and> k < length (hswap setIdx (parent j) j xs) \<longrightarrow> r ! k = hswap setIdx (parent j) j xs ! k"
  then show "j < k \<and> k < length xs \<longrightarrow> r ! k = xs ! k"
    using parent_less [of j] by (auto simp: hswap_nth)
qed

lemma hfix_keeps:
  assumes "i < length xs"
  shows "heap_elems setIdx (hfix lessFn setIdx i xs) = heap_elems setIdx xs" "length (hfix lessFn setIdx i xs) = length xs"
    "pos_ok setIdx xs \<Longrightarrow> pos_ok setIdx (hfix lessFn setIdx i xs)"
proof -
  obtain ys j where d: "down lessFn setIdx (length xs) i xs = (ys, j)" by (cases "down lessFn setIdx (length xs) i xs")
  then have ys: "length ys = length xs" "heap_elems setIdx ys = heap_elems setIdx xs" "pos_ok setIdx xs \<longrightarrow> pos_ok setIdx ys"
    using down_length [of "length xs" i xs] down_elems [of "length xs" xs i] down_pos [of xs "length xs" i]
    by simp_all
  show "heap_elems setIdx (hfix lessFn setIdx i xs) = heap_elems setIdx xs" "length (hfix lessFn setIdx i xs) = length xs"
    "pos_ok setIdx xs \<Longrightarrow> pos_ok setIdx (hfix lessFn setIdx i xs)"
    using d ys assms up_elems [of i ys] up_pos [of ys i] by (simp_all add: hfix_def)
qed

lemma hpush_elems: "xs \<noteq> [] \<Longrightarrow> heap_elems setIdx (hpush lessFn setIdx xs) = heap_elems setIdx xs"
  using up_elems [of "length xs - 1" xs] by (simp add: hpush_def)

lemma hpush_pos: "pos_ok setIdx xs \<Longrightarrow> xs \<noteq> [] \<Longrightarrow> pos_ok setIdx (hpush lessFn setIdx xs)"
  using up_pos [of xs "length xs - 1"] by (simp add: hpush_def)

lemma hpush_length: "length (hpush lessFn setIdx xs) = length xs"
  by (simp add: hpush_def)

lemma hinit_keeps:
  "length (hinit lessFn setIdx xs) = length xs \<and> heap_elems setIdx (hinit lessFn setIdx xs) = heap_elems setIdx xs \<and>
   (pos_ok setIdx xs \<longrightarrow> pos_ok setIdx (hinit lessFn setIdx xs))"
proof -
  have "length (foldl (\<lambda>ys i. fst (down lessFn setIdx (length ys) i ys)) xs is) = length xs \<and>
      heap_elems setIdx (foldl (\<lambda>ys i. fst (down lessFn setIdx (length ys) i ys)) xs is) = heap_elems setIdx xs \<and>
      (pos_ok setIdx xs \<longrightarrow>
        pos_ok setIdx (foldl (\<lambda>ys i. fst (down lessFn setIdx (length ys) i ys)) xs is))" for "is"
  proof (induction "is" arbitrary: xs)
    case (Cons i "is")
    then show ?case
      using down_length [of "length xs" i xs] down_elems [of "length xs" xs i] down_pos [of xs "length xs" i] by simp
  qed simp
  then show ?thesis by (simp add: hinit_def)
qed

lemma hremove_keeps:
  assumes pos: "pos_ok setIdx xs" and i: "i < length xs"
  defines "ys \<equiv> hremove lessFn setIdx i xs"
  shows "pos_ok setIdx ys \<and> length ys = length xs \<and> erase setIdx (last ys) = erase setIdx (xs ! i) \<and>
    heap_elems setIdx ys = heap_elems setIdx xs"
proof -
  let ?n = "length xs - 1"
  have ne: "xs \<noteq> []" using i by auto
  show ?thesis
  proof (cases "?n = i")
    case True
    then have "ys = xs" by (simp add: ys_def hremove_def)
    then show ?thesis using True pos ne by (simp add: last_conv_nth)
  next
    case False
    let ?sw = "hswap setIdx i ?n xs"
    have b: "i < ?n" "?n < length xs" using False i by auto
    have swn: "?sw ! ?n = setIdx ?n (xs ! i)" using hswap_nth [of i xs ?n ?n] b by simp
    obtain zs j where d: "down lessFn setIdx ?n i ?sw = (zs, j)" by (cases "down lessFn setIdx ?n i ?sw")
    then have ys: "ys = (if j > i then zs else up lessFn setIdx i zs)"
      using False by (simp add: ys_def hremove_def Let_def)
    have zs: "length zs = length xs" "heap_elems setIdx zs = heap_elems setIdx xs" "pos_ok setIdx zs"
      "zs ! ?n = setIdx ?n (xs ! i)"
      using down_length [of ?n i ?sw] down_elems [of ?n ?sw i] down_pos [of ?sw ?n i] d b
        pos_ok_hswap [OF pos, of i ?n] down_beyond [of ?n ?sw ?n i] swn
      by (simp_all add: heap_elems_hswap)
    have ys': "length ys = length xs" "heap_elems setIdx ys = heap_elems setIdx xs" "pos_ok setIdx ys"
      "ys ! ?n = setIdx ?n (xs ! i)"
      using ys zs up_elems [of i zs] up_pos [of zs i] up_beyond [of i ?n zs] b by auto
    then have "last ys = setIdx ?n (xs ! i)"
      using ne by (metis last_conv_nth length_0_conv)
    then show ?thesis using ys' by simp
  qed
qed

end

section \<open>The contract of a comparator\<close>

text \<open>
  With a strict weak order that does not look at the recorded position, the routines establish the
  heap property, and the root is a least element.
\<close>

locale heap_order = heap_swaps +
  assumes asym: "lessFn x y \<Longrightarrow> \<not> lessFn y x"
    and negtrans: "\<not> lessFn x y \<Longrightarrow> \<not> lessFn y z \<Longrightarrow> \<not> lessFn x z"
    and less_set1: "lessFn (setIdx i x) y = lessFn x y"
    and less_set2: "lessFn x (setIdx i y) = lessFn x y"
begin

lemma less_setIdx: "lessFn (setIdx i x) (setIdx j y) = lessFn x y"
  by (simp add: less_set1 less_set2)

lemma trans: "lessFn x y \<Longrightarrow> lessFn y z \<Longrightarrow> lessFn x z"
  using asym negtrans by blast

lemma holeD1: "hole lessFn lo n i xs \<Longrightarrow> 0 < k \<Longrightarrow> k < n \<Longrightarrow> lo \<le> parent k \<Longrightarrow> k \<noteq> i \<Longrightarrow> parent k \<noteq> i \<Longrightarrow>
    \<not> lessFn (xs ! k) (xs ! parent k)"
  by (simp add: hole_def edge_ok_def)

lemma holeD2: "hole lessFn lo n i xs \<Longrightarrow> 0 < k \<Longrightarrow> k < n \<Longrightarrow> parent k = i \<Longrightarrow> 0 < i \<Longrightarrow> lo \<le> parent i \<Longrightarrow>
    \<not> lessFn (xs ! k) (xs ! parent i)"
  by (simp add: hole_def)

lemma min_child_min:
  assumes "2 * i + 1 < n" "0 < k" "k < n" "parent k = i"
  shows "\<not> lessFn (xs ! k) (xs ! min_child lessFn n i xs)"
  using assms asym negtrans [of "xs ! k" "xs ! k"]
  by (auto simp: min_child_def Let_def parent_children)

text \<open>Moving the element down one level.\<close>

lemma hole_down:
  assumes h: "hole lessFn lo n i xs" and n: "n \<le> length xs" and c: "2 * i + 1 < n" and lo: "lo \<le> i"
    and l: "lessFn (xs ! min_child lessFn n i xs) (xs ! i)"
  defines "j \<equiv> min_child lessFn n i xs"
  defines "ys \<equiv> hswap setIdx i j xs"
  shows "hole lessFn lo n j ys" "edge_ok lessFn ys j"
proof -
  note b = min_child_bounds [OF c, of xs, folded j_def]
  have ys: "ys ! k = (if k = i then setIdx i (xs ! j) else if k = j then setIdx j (xs ! i) else xs ! k)"
    if "k < n" for k
    unfolding ys_def using hswap_nth [of i xs j k] that b n by simp
  have i: "i < n" using b by simp
  show "edge_ok lessFn ys j"
    using ys [OF b(1)] ys [OF i] b asym l
    by (auto simp: edge_ok_def less_setIdx j_def [symmetric])
  show "hole lessFn lo n j ys"
    unfolding hole_def
  proof (intro conjI allI impI)
    fix k
    assume k: "0 < k" "k < n" "lo \<le> parent k" "k \<noteq> j" "parent k \<noteq> j"
    have pk: "parent k < n" using parent_less [OF k(1)] k(2) by simp
    consider "k = i" | "k \<noteq> i" "parent k = i" | "k \<noteq> i" "parent k \<noteq> i" by blast
    then show "edge_ok lessFn ys k"
    proof cases
      case 1
      then have "\<not> lessFn (xs ! j) (xs ! parent i)"
        using holeD2 [OF h b(2,1,3)] k by simp
      then show ?thesis
        using 1 ys [OF k(2)] ys [OF pk] k parent_less [OF k(1)] by (simp add: edge_ok_def less_set1)
    next
      case 2
      then have "\<not> lessFn (xs ! k) (xs ! j)"
        using min_child_min [OF c k(1,2)] by (simp add: j_def)
      then show ?thesis
        using 2 ys [OF k(2)] ys [OF pk] k by (simp add: edge_ok_def less_set2)
    next
      case 3
      then show ?thesis
        using holeD1 [OF h k(1-3)] ys [OF k(2)] ys [OF pk] k by (simp add: edge_ok_def)
    qed
  next
    fix k
    assume k: "0 < k" "k < n" "parent k = j" "0 < j" "lo \<le> parent j"
    have ki: "k \<noteq> i" "k \<noteq> j" "parent k \<noteq> i" using parent_less [OF k(1)] k(3) b(4) by auto
    have "lo \<le> parent k" using k(3) b(4) lo by simp
    then have "\<not> lessFn (xs ! k) (xs ! j)"
      using holeD1 [OF h k(1,2) _ ki(1,3)] k(3) by simp
    then show "\<not> lessFn (ys ! k) (ys ! parent j)"
      using ys [OF k(2)] ys [OF i] ki b(3) by (simp add: less_set2)
  qed
qed

text \<open>
  The element sinks to where it belongs: if it moved, the whole range is a heap, and otherwise
  everything but the edge above it is.
\<close>

lemma down_done:
  assumes h: "hole lessFn lo n i xs" and "n \<le> length xs"
    and stop: "\<not> (2 * i + 1 < n \<and> lessFn (xs ! min_child lessFn n i xs) (xs ! i))"
    and k: "0 < k" "k < n" "lo \<le> parent k" "k \<noteq> i"
  shows "edge_ok lessFn xs k"
proof (cases "parent k = i")
  case True
  then have c: "2 * i + 1 < n" using k by (auto simp: parent_children)
  then have "\<not> lessFn (xs ! min_child lessFn n i xs) (xs ! i)" using stop by simp
  then show ?thesis
    using negtrans [OF min_child_min [OF c k(1,2) True]] True by (simp add: edge_ok_def)
qed (use h k holeD1 [of lo n i xs k] in \<open>simp add: edge_ok_def\<close>)

lemma down_moved: "hole lessFn lo n i xs \<and> (edge_ok lessFn xs i \<or> i = 0 \<or> \<not> lo \<le> parent i) \<and> n \<le> length xs \<and> lo \<le> i \<longrightarrow>
    heap_from lessFn lo n (fst (down lessFn setIdx n i xs))"
proof (rule down_induct [where P = "\<lambda>i xs r. hole lessFn lo n i xs \<and> (edge_ok lessFn xs i \<or> i = 0 \<or> \<not> lo \<le> parent i) \<and>
      n \<le> length xs \<and> lo \<le> i \<longrightarrow> heap_from lessFn lo n (fst r)"]; intro impI; elim conjE)
  fix i xs
  assume stop: "\<not> (2 * i + 1 < n \<and> lessFn (xs ! min_child lessFn n i xs) (xs ! i))"
    and h: "hole lessFn lo n i xs" "n \<le> length xs" and e: "edge_ok lessFn xs i \<or> i = 0 \<or> \<not> lo \<le> parent i"
  have "edge_ok lessFn xs k" if "0 < k" "k < n" "lo \<le> parent k" for k
    using down_done [OF h stop that] e that by (cases "k = i") auto
  then show "heap_from lessFn lo n (fst (xs, i))" by (simp add: heap_from_def)
next
  fix i xs r
  let ?j = "min_child lessFn n i xs"
  assume c: "2 * i + 1 < n" and l: "lessFn (xs ! ?j) (xs ! i)"
    and IH: "hole lessFn lo n ?j (hswap setIdx i ?j xs) \<and>
      (edge_ok lessFn (hswap setIdx i ?j xs) ?j \<or> ?j = 0 \<or> \<not> lo \<le> parent ?j) \<and>
      n \<le> length (hswap setIdx i ?j xs) \<and> lo \<le> ?j \<longrightarrow> heap_from lessFn lo n (fst r)"
    and h: "hole lessFn lo n i xs" "n \<le> length xs" "lo \<le> i"
  show "heap_from lessFn lo n (fst r)"
    using IH hole_down [OF h(1,2) c h(3) l] min_child_bounds(4) [OF c, of xs] h by simp
qed

lemma down_result:
  assumes "hole lessFn lo n i xs" "n \<le> length xs" "lo \<le> i" and d: "down lessFn setIdx n i xs = (ys, j)"
  shows "i < j \<Longrightarrow> heap_from lessFn lo n ys"
    and "\<not> i < j \<Longrightarrow> ys = xs \<and> (\<forall>k. 0 < k \<longrightarrow> k < n \<longrightarrow> lo \<le> parent k \<longrightarrow> k \<noteq> i \<longrightarrow> edge_ok lessFn xs k)"
proof -
  let ?j = "min_child lessFn n i xs"
  have moves: "i < j \<and> heap_from lessFn lo n ys" if c: "2 * i + 1 < n" and l: "lessFn (xs ! ?j) (xs ! i)"
  proof -
    note b = min_child_bounds [OF c, of xs]
    note h = hole_down [OF assms(1,2) c assms(3) l]
    have "down lessFn setIdx n ?j (hswap setIdx i ?j xs) = (ys, j)"
      using d by (simp only: down_step [OF c l])
    then show ?thesis
      using down_moved [of lo n ?j "hswap setIdx i ?j xs"] down_ge [of ?j n "hswap setIdx i ?j xs"] h b assms(2,3)
      by simp
  qed
  show "i < j \<Longrightarrow> heap_from lessFn lo n ys"
    using moves d down_stop [of i n xs] by (metis Pair_inject less_irrefl)
  show "\<not> i < j \<Longrightarrow> ys = xs \<and> (\<forall>k. 0 < k \<longrightarrow> k < n \<longrightarrow> lo \<le> parent k \<longrightarrow> k \<noteq> i \<longrightarrow> edge_ok lessFn xs k)"
    using moves d down_stop [of i n xs] down_done [OF assms(1,2)] by (metis Pair_inject)
qed

lemma hole_up:
  assumes h: "up_hole lessFn n j xs" and n: "n \<le> length xs" "j < n" "0 < j" and l: "lessFn (xs ! j) (xs ! parent j)"
  shows "up_hole lessFn n (parent j) (hswap setIdx (parent j) j xs)"
proof -
  let ?i = "parent j"
  let ?ys = "hswap setIdx ?i j xs"
  have i: "?i < j" using n(3) by (rule parent_less)
  have ys: "?ys ! k = (if k = ?i then setIdx ?i (xs ! j) else if k = j then setIdx j (xs ! ?i) else xs ! k)"
    if "k < n" for k
    using hswap_nth [of ?i xs j k] that i n by simp
  have A: "\<And>k. 0 < k \<Longrightarrow> k < n \<Longrightarrow> k \<noteq> j \<Longrightarrow> \<not> lessFn (xs ! k) (xs ! parent k)"
    and B: "\<And>k. 0 < k \<Longrightarrow> k < n \<Longrightarrow> parent k = j \<Longrightarrow> \<not> lessFn (xs ! k) (xs ! ?i)"
    using h n(3) by (auto simp: up_hole_def edge_ok_def)
  show ?thesis
    unfolding up_hole_def
  proof (intro conjI allI impI)
    fix k
    assume k: "0 < k" "k < n" "k \<noteq> ?i"
    have pk: "parent k < n" using parent_less [OF k(1)] k(2) by simp
    consider "k = j" | "k \<noteq> j" "parent k = j" | "k \<noteq> j" "parent k = ?i" | "k \<noteq> j" "parent k \<noteq> j" "parent k \<noteq> ?i"
      by blast
    then show "edge_ok lessFn ?ys k"
    proof cases
      case 1
      then show ?thesis using ys [OF k(2)] ys [OF pk] i asym [OF l] by (simp add: edge_ok_def less_setIdx)
    next
      case 2
      then show ?thesis using ys [OF k(2)] ys [OF pk] k i B [OF k(1,2)] by (simp add: edge_ok_def less_set2)
    next
      case 3
      then have "\<not> lessFn (xs ! k) (xs ! ?i)" using A [OF k(1,2)] by simp
      then have "\<not> lessFn (xs ! k) (xs ! j)" using l trans by blast
      then show ?thesis using 3 ys [OF k(2)] ys [OF pk] k by (simp add: edge_ok_def less_set2)
    next
      case 4
      then show ?thesis using A [OF k(1,2)] ys [OF k(2)] ys [OF pk] k by (simp add: edge_ok_def)
    qed
  next
    fix k
    assume k: "0 < k" "k < n" "parent k = ?i" "0 < ?i"
    have i': "?i < n" "?i \<noteq> j" using i n by auto
    have top: "\<not> lessFn (xs ! ?i) (xs ! parent ?i)" using A [OF k(4) i'(1)] i'(2) by simp
    have p: "parent ?i < ?i" using k(4) by (rule parent_less)
    then have pn: "parent ?i < n" "parent ?i \<noteq> ?i" "parent ?i \<noteq> j" using i i' by auto
    have ki: "k \<noteq> ?i" using parent_less [OF k(1)] k(3) by auto
    show "\<not> lessFn (?ys ! k) (?ys ! parent ?i)"
    proof (cases "k = j")
      case True
      then show ?thesis using ys [OF k(2)] ys [OF pn(1)] pn ki top by (simp add: less_set1)
    next
      case False
      then have "\<not> lessFn (xs ! k) (xs ! ?i)" using A [OF k(1,2)] k(3) by simp
      then have "\<not> lessFn (xs ! k) (xs ! parent ?i)" using top by (rule negtrans)
      then show ?thesis using False ys [OF k(2)] ys [OF pn(1)] pn ki by simp
    qed
  qed
qed

lemma up_heap: "up_hole lessFn n j xs \<and> n \<le> length xs \<and> j < n \<longrightarrow> heap_from lessFn 0 n (up lessFn setIdx j xs)"
proof (rule up_induct [where P = "\<lambda>j xs r. up_hole lessFn n j xs \<and> n \<le> length xs \<and> j < n \<longrightarrow> heap_from lessFn 0 n r"];
    intro impI; elim conjE)
  fix j xs
  assume stop: "\<not> (0 < j \<and> lessFn (xs ! j) (xs ! parent j))" and h: "up_hole lessFn n j xs"
  have "edge_ok lessFn xs k" if "0 < k" "k < n" for k
    using stop h that by (cases "k = j") (auto simp: up_hole_def edge_ok_def)
  then show "heap_from lessFn 0 n xs" by (simp add: heap_from_def)
next
  fix j xs r
  assume c: "0 < j" and l: "lessFn (xs ! j) (xs ! parent j)"
    and IH: "up_hole lessFn n (parent j) (hswap setIdx (parent j) j xs) \<and>
      n \<le> length (hswap setIdx (parent j) j xs) \<and> parent j < n \<longrightarrow> heap_from lessFn 0 n r"
    and h: "up_hole lessFn n j xs" "n \<le> length xs" "j < n"
  show "heap_from lessFn 0 n r"
    using IH hole_up [OF h c l] parent_less [OF c] h by simp
qed

lemma is_heap_edge: "is_heap lessFn xs \<Longrightarrow> 0 < k \<Longrightarrow> k < length xs \<Longrightarrow> \<not> lessFn (xs ! k) (xs ! parent k)"
  by (simp add: is_heap_def heap_from_def edge_ok_def)

text \<open>The root of a heap is a least element.\<close>

lemma heap_root: "is_heap lessFn xs \<Longrightarrow> k < length xs \<Longrightarrow> \<not> lessFn (xs ! k) (xs ! 0)"
proof (induction k rule: less_induct)
  case (less k)
  show ?case
  proof (cases "k = 0")
    case True
    then show ?thesis using asym by auto
  next
    case False
    then have "0 < k" by simp
    then show ?thesis
      using negtrans [OF is_heap_edge [OF less.prems(1)] less.IH [OF parent_less]] less.prems parent_less [of k]
      by simp
  qed
qed

lemma down_up_heap:
  assumes h: "hole lessFn 0 n i xs" and n: "n \<le> length xs" "i < n"
  shows "heap_from lessFn 0 n (case down lessFn setIdx n i xs of (ys, j) \<Rightarrow> if j > i then ys else up lessFn setIdx i ys)"
proof -
  obtain ys j where d: "down lessFn setIdx n i xs = (ys, j)" by (cases "down lessFn setIdx n i xs")
  note r = down_result [OF h n(1) le0 d]
  show ?thesis
  proof (cases "i < j")
    case True
    then show ?thesis using r(1) d by simp
  next
    case False
    then have ys: "ys = xs" and e: "\<And>k. 0 < k \<Longrightarrow> k < n \<Longrightarrow> k \<noteq> i \<Longrightarrow> edge_ok lessFn xs k" using r(2) by auto
    have "up_hole lessFn n i xs" using e holeD2 [OF h] by (auto simp: up_hole_def)
    then show ?thesis using up_heap [of n i xs] n False d ys by simp
  qed
qed

lemma hole_update:
  assumes "is_heap lessFn xs"
  shows "hole lessFn 0 (length xs) i (xs[i := y])"
  unfolding hole_def
proof (intro conjI allI impI)
  fix k
  assume "0 < k" "k < length xs" "k \<noteq> i" "parent k \<noteq> i"
  then show "edge_ok lessFn (xs[i := y]) k"
    using is_heap_edge [OF assms, of k] by (simp add: edge_ok_def)
next
  fix k
  assume k: "0 < k" "k < length xs" "parent k = i" "0 < i"
  have ki: "k \<noteq> i" "parent i \<noteq> i" "i < length xs"
    using parent_less [OF k(1)] parent_less [OF k(4)] k by auto
  have "\<not> lessFn (xs ! k) (xs ! i)" using is_heap_edge [OF assms k(1,2)] k(3) by simp
  moreover have "\<not> lessFn (xs ! i) (xs ! parent i)" using is_heap_edge [OF assms k(4) ki(3)] .
  ultimately show "\<not> lessFn (xs[i := y] ! k) (xs[i := y] ! parent i)"
    using negtrans ki by simp
qed

lemma hfix_heap:
  assumes "is_heap lessFn xs" "i < length xs"
  shows "is_heap lessFn (hfix lessFn setIdx i (xs[i := y]))"
proof -
  obtain ys j where d: "down lessFn setIdx (length xs) i (xs[i := y]) = (ys, j)"
    by (cases "down lessFn setIdx (length xs) i (xs[i := y])")
  have "length ys = length xs" using down_length [of "length xs" i "xs[i := y]"] d by simp
  then show ?thesis
    using down_up_heap [OF hole_update [OF assms(1)], of i y] d assms(2)
    by (simp add: is_heap_def hfix_def split: if_splits)
qed

lemma hpush_heap:
  assumes "is_heap lessFn xs"
  shows "is_heap lessFn (hpush lessFn setIdx (xs @ [x]))"
proof -
  have "edge_ok lessFn (xs @ [x]) k" if "0 < k" "k < length xs" for k
    using is_heap_edge [OF assms that] parent_less [OF that(1)] that by (simp add: edge_ok_def nth_append)
  moreover have "parent k \<noteq> length xs" if "0 < k" "k < Suc (length xs)" for k
    using parent_less [OF that(1)] that by simp
  ultimately have "up_hole lessFn (Suc (length xs)) (length xs) (xs @ [x])"
    by (auto simp: up_hole_def less_Suc_eq)
  then show ?thesis
    using up_heap [of "Suc (length xs)" "length xs" "xs @ [x]"] by (simp add: hpush_def is_heap_def)
qed

lemma hinit_step:
  assumes "heap_from lessFn (Suc i) (length xs) xs"
  shows "heap_from lessFn i (length xs) (fst (down lessFn setIdx (length xs) i xs))"
proof -
  have h: "hole lessFn i (length xs) i xs"
    using assms parent_less [of i] by (auto simp: hole_def heap_from_def)
  obtain ys j where d: "down lessFn setIdx (length xs) i xs = (ys, j)" by (cases "down lessFn setIdx (length xs) i xs")
  note r = down_result [OF h order_refl order_refl d]
  show ?thesis
  proof (cases "i < j")
    case False
    then have "ys = xs" "\<And>k. 0 < k \<Longrightarrow> k < length xs \<Longrightarrow> i \<le> parent k \<Longrightarrow> edge_ok lessFn xs k"
      using r(2) parent_less [of i] by (auto; metis leD)+
    then show ?thesis using d by (simp add: heap_from_def)
  qed (use r(1) d in simp)
qed

lemma hinit_fold: "m \<le> length xs \<Longrightarrow> heap_from lessFn m (length xs) xs \<Longrightarrow>
    (let ys = foldl (\<lambda>ys i. fst (down lessFn setIdx (length ys) i ys)) xs (rev [0..<m]) in
      heap_from lessFn 0 (length xs) ys \<and> length ys = length xs \<and> heap_elems setIdx ys = heap_elems setIdx xs \<and>
      (pos_ok setIdx xs \<longrightarrow> pos_ok setIdx ys))"
proof (induction m arbitrary: xs)
  case (Suc m)
  let ?ys = "fst (down lessFn setIdx (length xs) m xs)"
  have "length ?ys = length xs" "heap_elems setIdx ?ys = heap_elems setIdx xs" "pos_ok setIdx xs \<longrightarrow> pos_ok setIdx ?ys"
    "heap_from lessFn m (length xs) ?ys"
    using hinit_step [OF Suc.prems(2)] down_elems [of "length xs" xs m] down_pos [of xs "length xs" m]
    by (simp_all add: down_length)
  then show ?case using Suc.IH [of ?ys] Suc.prems(1) by (simp add: Let_def)
qed (simp add: Let_def)

lemma hinit_ok:
  "is_heap lessFn (hinit lessFn setIdx xs)" "length (hinit lessFn setIdx xs) = length xs"
  "heap_elems setIdx (hinit lessFn setIdx xs) = heap_elems setIdx xs" "pos_ok setIdx xs \<Longrightarrow> pos_ok setIdx (hinit lessFn setIdx xs)"
proof -
  have "heap_from lessFn (length xs div 2) (length xs) xs"
    by (auto simp: heap_from_def parent_def)
  from hinit_fold [OF _ this]
  show "is_heap lessFn (hinit lessFn setIdx xs)" "length (hinit lessFn setIdx xs) = length xs"
    "heap_elems setIdx (hinit lessFn setIdx xs) = heap_elems setIdx xs" "pos_ok setIdx xs \<Longrightarrow> pos_ok setIdx (hinit lessFn setIdx xs)"
    by (auto simp: hinit_def is_heap_def Let_def)
qed

text \<open>After \<open>heap.Remove\<close> and the \<open>Pop\<close> of the queue the removed element is gone and the rest is a heap.\<close>

lemma hremove_heap:
  assumes heap: "is_heap lessFn xs" and i: "i < length xs"
  shows "is_heap lessFn (butlast (hremove lessFn setIdx i xs))"
proof -
  let ?n = "length xs - 1" and ?ys = "hremove lessFn setIdx i xs"
  have but: "is_heap lessFn (butlast zs)" if "heap_from lessFn 0 ?n zs" "length zs = length xs" for zs
  proof -
    have "butlast zs ! k = zs ! k \<and> butlast zs ! parent k = zs ! parent k" if "0 < k" "k < ?n" for k
      using that parent_less [OF that(1)] \<open>length zs = length xs\<close> by (simp add: nth_butlast)
    with that show ?thesis by (simp add: is_heap_def heap_from_def edge_ok_def)
  qed
  show ?thesis
  proof (cases "?n = i")
    case True
    then have "?ys = xs" by (simp add: hremove_def)
    moreover have "heap_from lessFn 0 ?n xs"
      using is_heap_edge [OF heap] by (simp add: heap_from_def edge_ok_def)
    ultimately show ?thesis using but by simp
  next
    case False
    let ?sw = "hswap setIdx i ?n xs"
    have b: "i < ?n" "?n < length xs" using False i by auto
    have sw: "?sw ! k = (if k = i then setIdx i (xs ! ?n) else xs ! k)" if "k < ?n" for k
      using hswap_nth [of i xs ?n k] that b by simp
    have h: "hole lessFn 0 ?n i ?sw"
      unfolding hole_def
    proof (intro conjI allI impI)
      fix k
      assume k: "0 < k" "k < ?n" "k \<noteq> i" "parent k \<noteq> i"
      then have "parent k < ?n" using parent_less [of k] by simp
      then show "edge_ok lessFn ?sw k" using is_heap_edge [OF heap, of k] k sw by (simp add: edge_ok_def)
    next
      fix k
      assume k: "0 < k" "k < ?n" "parent k = i" "0 < i"
      have ki: "k \<noteq> i" "parent i \<noteq> i" "parent i < ?n"
        using parent_less [OF k(1)] parent_less [OF k(4)] k b by auto
      have "\<not> lessFn (xs ! k) (xs ! i)" using is_heap_edge [OF heap k(1)] k by simp
      moreover have "\<not> lessFn (xs ! i) (xs ! parent i)" using is_heap_edge [OF heap k(4) i] .
      ultimately show "\<not> lessFn (?sw ! k) (?sw ! parent i)" using negtrans sw ki k by simp
    qed
    obtain zs j where d: "down lessFn setIdx ?n i ?sw = (zs, j)" by (cases "down lessFn setIdx ?n i ?sw")
    then have ys: "?ys = (if j > i then zs else up lessFn setIdx i zs)"
      using False by (simp add: hremove_def Let_def)
    have "length zs = length xs" using down_length [of ?n i ?sw] d by simp
    then have "length ?ys = length xs" using ys by simp
    moreover have "heap_from lessFn 0 ?n ?ys" using down_up_heap [OF h] b d ys by simp
    ultimately show ?thesis using but by blast
  qed
qed

end

end
