(* ===== verification/PoolInfoCache.thy ===== *)
theory PoolInfoCache
  imports Prelude
begin

text \<open>
  The cache of ticket pool information by block hash (\<open>PoolInfoCache\<close> of \<open>stakedb/stakedb.go\<close>): a map
  and the queue of its hashes in the order in which they were stored, which says what to give up.
\<close>

section \<open>Data\<close>

record TicketPoolInfo =
  tpiHeight :: u32
  tpiSize :: u32
  tpiValue :: float64
  tpiValAvg :: float64
  tpiWinners :: "string list"

record PoolInfoCache =
  poolInfoMap :: "(Hash, TicketPoolInfo) gomap"
  expireQueue :: "Hash list"
  maxSize :: int

datatype pic_error = SizeLessThan2 int

section \<open>Operations\<close>

definition NewPoolInfoCache :: "int \<Rightarrow> pic_error + PoolInfoCache" where
  "NewPoolInfoCache sz =
    (if sz < 2 then Inl (SizeLessThan2 sz)
     else Inr \<lparr>poolInfoMap = [], expireQueue = [], maxSize = sz\<rparr>)"

definition pic_Get :: "Hash \<Rightarrow> PoolInfoCache \<Rightarrow> TicketPoolInfo option" where
  "pic_Get h c = mget (poolInfoMap c) h"

text \<open>The oldest hash goes when the queue would reach \<open>maxSize\<close>; \<open>expireQueue[0]\<close> panics if there is none.\<close>

definition pic_Set :: "Hash \<Rightarrow> TicketPoolInfo \<Rightarrow> PoolInfoCache \<Rightarrow> PoolInfoCache option" where
  "pic_Set h p c =
    (let c1 = c\<lparr>poolInfoMap := mput h p (poolInfoMap c)\<rparr>
     in if int (length (expireQueue c1)) + 1 \<ge> maxSize c1
        then (case expireQueue c1 of
            [] \<Rightarrow> None
          | expireHash # q \<Rightarrow>
              Some (c1\<lparr>expireQueue := q @ [h], poolInfoMap := mdel expireHash (poolInfoMap c1)\<rparr>))
        else Some (c1\<lparr>expireQueue := expireQueue c1 @ [h]\<rparr>))"

fun expire_loop :: "int \<Rightarrow> Hash list \<Rightarrow> (Hash, TicketPoolInfo) gomap \<Rightarrow>
    (Hash list \<times> (Hash, TicketPoolInfo) gomap) option" where
  "expire_loop sz q m =
    (if int (length q) \<ge> sz
     then (case q of [] \<Rightarrow> None | expireHash # q' \<Rightarrow> expire_loop sz q' (mdel expireHash m))
     else Some (q, m))"

declare expire_loop.simps [simp del]

text \<open>The error, and the cache after the call; \<open>None\<close> for the panic on an empty queue.\<close>

definition SetCapacity :: "int \<Rightarrow> PoolInfoCache \<Rightarrow> (PoolInfoCache \<times> pic_error option) option" where
  "SetCapacity sz c =
    (if sz < 2 then Some (c, Some (SizeLessThan2 sz))
     else case expire_loop sz (expireQueue c) (poolInfoMap c) of
       None \<Rightarrow> None
     | Some (q, m) \<Rightarrow> Some (c\<lparr>maxSize := sz, expireQueue := q, poolInfoMap := m\<rparr>, None))"

section \<open>Invariant\<close>

definition pic_inv :: "PoolInfoCache \<Rightarrow> bool" where
  "pic_inv c \<longleftrightarrow> wf_map (poolInfoMap c) \<and> 2 \<le> maxSize c \<and> int (length (expireQueue c)) < maxSize c \<and>
    (\<forall>h. mget (poolInfoMap c) h \<noteq> None \<longrightarrow> h \<in> set (expireQueue c))"

lemma pic_inv_keys: "pic_inv c \<Longrightarrow> h \<notin> set (expireQueue c) \<Longrightarrow> mget (poolInfoMap c) h = None"
  by (auto simp: pic_inv_def)

lemma NewPoolInfoCache_inv: "NewPoolInfoCache sz = Inr c \<Longrightarrow> pic_inv c"
  by (auto simp: NewPoolInfoCache_def pic_inv_def split: if_splits)

text \<open>Storing never panics and keeps the cache below its capacity.\<close>

lemma pic_Set_inv:
  assumes "pic_inv c"
  obtains c' where "pic_Set h p c = Some c'" "pic_inv c'"
proof (cases "expireQueue c")
  case Nil
  with assms have "pic_Set h p c = Some (c\<lparr>poolInfoMap := mput h p (poolInfoMap c), expireQueue := [h]\<rparr>)"
    by (simp add: pic_Set_def pic_inv_def Let_def)
  moreover have "pic_inv (c\<lparr>poolInfoMap := mput h p (poolInfoMap c), expireQueue := [h]\<rparr>)"
    using assms Nil by (auto simp: pic_inv_def)
  ultimately show ?thesis by (rule that)
next
  case (Cons e q)
  show ?thesis
  proof (cases "int (length (expireQueue c)) + 1 \<ge> maxSize c")
    case True
    have "pic_inv (c\<lparr>expireQueue := q @ [h], poolInfoMap := mdel e (mput h p (poolInfoMap c))\<rparr>)"
      using assms Cons by (auto simp: pic_inv_def)
    with True Cons show ?thesis
      by (intro that) (auto simp: pic_Set_def Let_def)
  next
    case False
    have "pic_inv (c\<lparr>poolInfoMap := mput h p (poolInfoMap c), expireQueue := expireQueue c @ [h]\<rparr>)"
      using assms False by (auto simp: pic_inv_def)
    with False show ?thesis
      by (intro that) (auto simp: pic_Set_def Let_def)
  qed
qed

lemma expire_loop_inv:
  assumes "2 \<le> sz" "wf_map m" "\<forall>h. mget m h \<noteq> None \<longrightarrow> h \<in> set q"
  obtains q' m' where "expire_loop sz q m = Some (q', m')" "wf_map m'" "int (length q') < sz"
    "\<forall>h. mget m' h \<noteq> None \<longrightarrow> h \<in> set q'"
  using assms
proof (induction q arbitrary: m thesis)
  case Nil
  then show ?case
    by (auto simp: expire_loop.simps)
next
  case (Cons e q)
  show ?case
  proof (cases "int (length (e # q)) \<ge> sz")
    case True
    obtain q' m' where *: "expire_loop sz q (mdel e m) = Some (q', m')" "wf_map m'"
      "int (length q') < sz" "\<forall>h. mget m' h \<noteq> None \<longrightarrow> h \<in> set q'"
      by (rule Cons.IH [of "mdel e m"]) (use Cons.prems in auto)
    show ?thesis
      by (rule Cons.prems(1) [OF _ *(2-4)]) (use True * in \<open>simp add: expire_loop.simps [of sz "e # q"]\<close>)
  next
    case False
    then show ?thesis
      by (intro Cons.prems(1) [of "e # q" m]) (use Cons.prems in \<open>simp_all add: expire_loop.simps\<close>)
  qed
qed

lemma SetCapacity_inv:
  assumes "pic_inv c"
  obtains c' e where "SetCapacity sz c = Some (c', e)" "pic_inv c'"
proof (cases "sz < 2")
  case True
  with assms show ?thesis
    by (intro that) (auto simp: SetCapacity_def)
next
  case False
  obtain q' m' where *: "expire_loop sz (expireQueue c) (poolInfoMap c) = Some (q', m')" "wf_map m'"
      "int (length q') < sz" "\<forall>h. mget m' h \<noteq> None \<longrightarrow> h \<in> set q'"
    by (rule expire_loop_inv [of sz "poolInfoMap c" "expireQueue c"])
      (use assms False in \<open>auto simp: pic_inv_def\<close>)
  then have "pic_inv (c\<lparr>maxSize := sz, expireQueue := q', poolInfoMap := m'\<rparr>)"
    using False by (simp add: pic_inv_def)
  with * False show ?thesis
    by (intro that) (auto simp: SetCapacity_def)
qed

section \<open>What the cache holds\<close>

fun pic_Sets :: "(Hash \<times> TicketPoolInfo) list \<Rightarrow> PoolInfoCache \<Rightarrow> PoolInfoCache option" where
  "pic_Sets [] c = Some c"
| "pic_Sets ((h, p) # kvs) c = (case pic_Set h p c of None \<Rightarrow> None | Some c' \<Rightarrow> pic_Sets kvs c')"

text \<open>The last \<open>maxSize - 1\<close> of the stored entries, while no hash is stored twice.\<close>

definition holds_last :: "(Hash \<times> TicketPoolInfo) list \<Rightarrow> PoolInfoCache \<Rightarrow> bool" where
  "holds_last kvs c \<longleftrightarrow> pic_inv c \<and> distinct (map fst kvs) \<and>
    expireQueue c = drop (length kvs - nat (maxSize c - 1)) (map fst kvs) \<and>
    (\<forall>h. mget (poolInfoMap c) h = map_of (drop (length kvs - nat (maxSize c - 1)) kvs) h)"

lemma map_of_distinct_snoc:
  "distinct (map fst (xs @ [(h, p)])) \<Longrightarrow>
    map_of (xs @ [(h, p)]) k = (if k = h then Some p else map_of xs k)"
proof -
  assume "distinct (map fst (xs @ [(h, p)]))"
  then have "map_of xs h = None"
    by (simp add: map_of_eq_None_iff)
  then show ?thesis
    by (cases "map_of xs k") (auto simp: map_add_def)
qed

lemma map_of_distinct_tl:
  "distinct (map fst (x # xs)) \<Longrightarrow> map_of xs k = (if k = fst x then None else map_of (x # xs) k)"
  by (cases x) (auto simp: map_of_eq_None_iff)

lemma holds_last_Set:
  assumes held: "holds_last kvs c" and fresh: "h \<notin> fst ` set kvs"
  obtains c' where "pic_Set h p c = Some c'" "maxSize c' = maxSize c" "holds_last (kvs @ [(h, p)]) c'"
proof -
  let ?k = "nat (maxSize c - 1)"
  let ?ds = "drop (length kvs - ?k) kvs"
  have inv: "pic_inv c" and dist: "distinct (map fst kvs)" and q: "expireQueue c = map fst ?ds"
    and m: "\<And>k. mget (poolInfoMap c) k = map_of ?ds k"
    using held by (auto simp: holds_last_def drop_map)
  have dsd: "distinct (map fst (?ds @ [(h, p)]))"
    using dist fresh by (auto simp: drop_map [symmetric] dest: in_set_dropD)
  have k: "0 < ?k" "maxSize c = int ?k + 1"
    using inv by (auto simp: pic_inv_def)
  obtain c' where c': "pic_Set h p c = Some c'" "pic_inv c'"
    using pic_Set_inv [OF inv] by metis
  show ?thesis
  proof (cases "length ?ds = ?k")
    case True
    then obtain e ds where ds: "?ds = e # ds"
      using k by (cases ?ds) auto
    have room: "drop (Suc (length kvs) - ?k) (kvs @ [(h, p)]) = ds @ [(h, p)]"
    proof -
      have "?k \<le> length kvs"
        using True by simp
      moreover have "drop (Suc (length kvs - ?k)) kvs = ds"
        using ds by (metis drop_Suc list.sel(3) tl_drop)
      ultimately show ?thesis
        using k by (simp add: Suc_diff_le)
    qed
    have "int (length (expireQueue c)) + 1 \<ge> maxSize c"
      using True k(2) q by simp
    then have "c' = c\<lparr>expireQueue := map fst ds @ [h],
        poolInfoMap := mdel (fst e) (mput h p (poolInfoMap c))\<rparr>"
      using c'(1) q ds by (simp add: pic_Set_def Let_def)
    moreover have "map_of (ds @ [(h, p)]) a
        = (if a = fst e then None else if a = h then Some p else map_of (e # ds) a)" for a
    proof -
      have "distinct (map fst (e # ds @ [(h, p)]))" "distinct (map fst ((e # ds) @ [(h, p)]))"
        using dsd ds by simp_all
      then show ?thesis
        using map_of_distinct_tl [of e "ds @ [(h, p)]" a] map_of_distinct_snoc [of "e # ds" h p a]
        by (simp only: append_Cons)
    qed
    ultimately have "maxSize c' = maxSize c" "expireQueue c' = map fst (ds @ [(h, p)])"
      "\<forall>k. mget (poolInfoMap c') k = map_of (ds @ [(h, p)]) k"
      using m ds by auto
    moreover from this(1) room have
      "drop (length (kvs @ [(h, p)]) - nat (maxSize c' - 1)) (kvs @ [(h, p)]) = ds @ [(h, p)]"
      by (simp only: length_append_singleton)
    ultimately have "holds_last (kvs @ [(h, p)]) c'"
      unfolding holds_last_def drop_map using c'(2) dist fresh by (simp only:) simp
    then show ?thesis
      using c' \<open>maxSize c' = maxSize c\<close> by (intro that [of c']) simp_all
  next
    case False
    then have short: "length kvs - ?k = 0" "Suc (length kvs) - ?k = 0" "length kvs < ?k"
      by auto
    then have "\<not> int (length (expireQueue c)) + 1 \<ge> maxSize c"
      using k(2) q by simp
    then have "c' = c\<lparr>poolInfoMap := mput h p (poolInfoMap c), expireQueue := map fst kvs @ [h]\<rparr>"
      using c'(1) q short by (simp add: pic_Set_def Let_def)
    with short have "maxSize c' = maxSize c" "expireQueue c' = map fst (kvs @ [(h, p)])"
      "\<forall>k. mget (poolInfoMap c') k = map_of (kvs @ [(h, p)]) k"
      using m dsd map_of_distinct_snoc [of kvs h p] by simp_all
    then show ?thesis
      using c' short dist fresh by (intro that [of c']) (simp_all add: holds_last_def)
  qed
qed


lemma holds_last_Sets:
  assumes "holds_last kvs c" "distinct (map fst (kvs @ new))"
  obtains c' where "pic_Sets new c = Some c'" "maxSize c' = maxSize c" "holds_last (kvs @ new) c'"
  using assms
proof (induction new arbitrary: kvs c thesis)
  case (Cons x new)
  obtain h p where x: "x = (h, p)" by (cases x)
  have "h \<notin> fst ` set kvs"
    using Cons.prems(3) x by auto
  then obtain c1 where c1: "pic_Set h p c = Some c1" "maxSize c1 = maxSize c" "holds_last (kvs @ [x]) c1"
    using holds_last_Set [OF Cons.prems(2)] x by metis
  obtain c' where c': "pic_Sets new c1 = Some c'" "maxSize c' = maxSize c1"
      "holds_last ((kvs @ [x]) @ new) c'"
    by (rule Cons.IH [OF _ c1(3)]) (use Cons.prems(3) in auto)
  show ?case
    by (rule Cons.prems(1) [of c']) (use c1 c' x in simp_all)
qed simp

text \<open>
  A cache of size \<open>n\<close> holds the last \<open>n - 1\<close> entries that were stored, when no hash is stored
  twice: the documented size is never reached.
\<close>

theorem pool_info_fifo:
  assumes "NewPoolInfoCache sz = Inr c" "distinct (map fst kvs)"
  shows "\<exists>c'. pic_Sets kvs c = Some c' \<and>
    (\<forall>h. pic_Get h c' = map_of (drop (length kvs - nat (sz - 1)) kvs) h)"
proof -
  have "maxSize c = sz" "holds_last [] c"
    using assms(1) NewPoolInfoCache_inv [OF assms(1)]
    by (auto simp: NewPoolInfoCache_def holds_last_def split: if_splits)
  then show ?thesis
    using holds_last_Sets [of "[]" c kvs] assms(2)
    by (metis append_Nil holds_last_def pic_Get_def)
qed

definition pool_info :: "u32 \<Rightarrow> TicketPoolInfo" where
  "pool_info h = \<lparr>tpiHeight = h, tpiSize = 0, tpiValue = 0, tpiValAvg = 0, tpiWinners = []\<rparr>"

theorem pool_info_fifo_witness:
  "\<exists>c'. pic_Sets [([1], pool_info 1), ([2], pool_info 2), ([3], pool_info 3)]
      \<lparr>poolInfoMap = [], expireQueue = [], maxSize = 3\<rparr> = Some c' \<and>
    pic_Get [1] c' = None \<and> pic_Get [2] c' = Some (pool_info 2)"
proof -
  have "NewPoolInfoCache 3 = Inr \<lparr>poolInfoMap = [], expireQueue = [], maxSize = 3\<rparr>"
    by (simp add: NewPoolInfoCache_def)
  from pool_info_fifo [OF this, of "[([1], pool_info 1), ([2], pool_info 2), ([3], pool_info 3)]"]
  show ?thesis by auto
qed

text \<open>
  Storing a hash that is still in the queue puts it there twice, and the entry goes with the older
  of the two: here the entry that was just stored.
\<close>

lemma pic_Set_again_loses_entry:
  assumes "NewPoolInfoCache 2 = Inr c" "pic_Set h p c = Some c1" "pic_Set h p' c1 = Some c2"
  shows "pic_Get h c2 = None"
  using assms by (auto simp: NewPoolInfoCache_def pic_Set_def pic_Get_def Let_def)

end
