(* ===== verification/BlockCache.thy ===== *)
theory BlockCache
  imports BlockHeap PoolInfoCache
begin

text \<open>
  The block cache of \<open>api/types/apicache.go\<close>: cached blocks, the block priority queue that decides
  which block gives way to a new one, and \<open>APICache\<close>, which keeps the blocks by hash and the hashes
  of the main chain by height.

  The blocks in the queue and the blocks in the cache are different objects in the code too: every
  insertion makes one for each. The clock is a parameter, the list of the times that the calls of
  \<open>time.Now\<close> in an operation return, in nanoseconds. \<open>chainhash\<close> is the parameter \<open>parse\<close>, \<open>None\<close> for
  the nil pointer that comes with an error. The mutexes and the watcher goroutine are left out; the
  watcher calls \<open>Reheap\<close>. A panic leaves the state as it was, since nothing recovers from it.
\<close>

section \<open>Blocks\<close>

record BlockDataBasic =
  sumHeight :: u32
  sumSize :: u32
  sumHash :: string
  sumDifficulty :: float64
  sumStakeDiff :: float64
  sumTime :: int
  sumNumTx :: u32
  sumMiningFee :: "int option"
  sumTotalSent :: "int option"
  sumPoolInfo :: "TicketPoolInfo option"

text \<open>Of the fee information, a type of the RPC package, the code reads the height.\<close>

record StakeInfoExtended =
  siHash :: string
  siFeeHeight :: u32
  siStakeDiff :: float64
  siPriceWindowNum :: int
  siIdxBlockInWindow :: int
  siPoolInfo :: "TicketPoolInfo option"

record CachedBlock =
  cbHeight :: u32
  cbHash :: string
  cbSummary :: "BlockDataBasic option"
  cbStakeInfo :: "StakeInfoExtended option"
  accesses :: int
  accessTime :: int
  heapIdx :: int

text \<open>Height, hash and mismatch; \<open>None\<close> for the nil dereference when both are nil.\<close>

definition checkBlockHeightHash ::
  "BlockDataBasic option \<Rightarrow> StakeInfoExtended option \<Rightarrow> (u32 \<times> string \<times> bool) option" where
  "checkBlockHeightHash summary stakeInfo =
     (case summary of
        None \<Rightarrow>
          (case stakeInfo of
             None \<Rightarrow> None
           | Some si \<Rightarrow> Some (siFeeHeight si, siHash si, False))
      | Some s \<Rightarrow>
          (case stakeInfo of
             None \<Rightarrow> Some (sumHeight s, sumHash s, False)
           | Some si \<Rightarrow>
               if sumHeight s \<noteq> siFeeHeight si then Some (sumHeight s, sumHash s, True)
               else if sumHash s \<noteq> siHash si then Some (sumHeight s, sumHash s, True)
               else Some (sumHeight s, sumHash s, False)))"

definition newCachedBlock :: "BlockDataBasic option \<Rightarrow> StakeInfoExtended option \<Rightarrow> CachedBlock option" where
  "newCachedBlock summary stakeInfo =
     (if summary = None \<and> stakeInfo = None then None
      else case checkBlockHeightHash summary stakeInfo of
        Some (height, hash, False) \<Rightarrow>
          Some \<lparr>cbHeight = height, cbHash = hash, cbSummary = summary, cbStakeInfo = stakeInfo,
                accesses = 0, accessTime = 0, heapIdx = -1\<rparr>
      | _ \<Rightarrow> None)"

definition Access :: "int \<Rightarrow> CachedBlock \<Rightarrow> CachedBlock" where
  "Access now b = b\<lparr>accesses := accesses b + 1, accessTime := now\<rparr>"

definition setHeapIdx :: "nat \<Rightarrow> CachedBlock \<Rightarrow> CachedBlock" where
  "setHeapIdx i b = b\<lparr>heapIdx := int i\<rparr>"

section \<open>Comparators\<close>

type_synonym less_fn = "CachedBlock \<Rightarrow> CachedBlock \<Rightarrow> bool"

definition LessByHeight :: less_fn where
  "LessByHeight bi bj \<longleftrightarrow> cbHeight bi < cbHeight bj"

definition LessByAccessCount :: less_fn where
  "LessByAccessCount bi bj \<longleftrightarrow> accesses bi < accesses bj"

definition LessByAccessTime :: less_fn where
  "LessByAccessTime bi bj \<longleftrightarrow> accessTime bi < accessTime bj"

definition LessByAccessCountThenHeight :: less_fn where
  "LessByAccessCountThenHeight bi bj \<longleftrightarrow>
     (if accesses bi = accesses bj then LessByHeight bi bj else LessByAccessCount bi bj)"

definition MakeLessByAccessTimeThenCount :: "int \<Rightarrow> less_fn" where
  "MakeLessByAccessTimeThenCount millisecondsBinned bi bj =
     (let millisecondThreshold = millisecondsBinned * 1000000;
          epochDiff = trunc_div (accessTime bi - accessTime bj) millisecondThreshold
      in if epochDiff = 0 then LessByAccessCount bi bj else LessByAccessTime bi bj)"

section \<open>The queue\<close>

record BlockPriorityQueue =
  bh :: "CachedBlock list"
  pqCapacity :: nat
  needsReheap :: bool
  minHeight :: int
  maxHeight :: int
  lessFn :: less_fn
  lastAccess :: int

definition MaxUint32 :: int where
  "MaxUint32 = 4294967295"

definition NewBlockPriorityQueue :: "nat \<Rightarrow> BlockPriorityQueue" where
  "NewBlockPriorityQueue capacity =
     \<lparr>bh = [], pqCapacity = capacity, needsReheap = False, minHeight = MaxUint32, maxHeight = -1,
      lessFn = MakeLessByAccessTimeThenCount 1, lastAccess = 0\<rparr>"

definition pq_Len :: "BlockPriorityQueue \<Rightarrow> nat" where
  "pq_Len pq = length (bh pq)"

definition pq_Less :: "BlockPriorityQueue \<Rightarrow> nat \<Rightarrow> nat \<Rightarrow> bool" where
  "pq_Less pq i j = lessFn pq (bh pq ! i) (bh pq ! j)"

definition pq_Swap :: "nat \<Rightarrow> nat \<Rightarrow> BlockPriorityQueue \<Rightarrow> BlockPriorityQueue" where
  "pq_Swap i j pq = pq\<lparr>bh := hswap setHeapIdx i j (bh pq)\<rparr>"

definition pq_SetLessFn :: "less_fn \<Rightarrow> BlockPriorityQueue \<Rightarrow> BlockPriorityQueue" where
  "pq_SetLessFn f pq = pq\<lparr>lessFn := f\<rparr>"

definition updateMinMax :: "u32 \<Rightarrow> BlockPriorityQueue \<Rightarrow> BlockPriorityQueue" where
  "updateMinMax h pq =
     (let pq1 = (if uint h > maxHeight pq then pq\<lparr>maxHeight := uint h\<rparr> else pq)
      in if uint h < minHeight pq1 then pq1\<lparr>minHeight := uint h\<rparr> else pq1)"

definition RescanMinMax :: "BlockPriorityQueue \<Rightarrow> BlockPriorityQueue" where
  "RescanMinMax pq = foldl (\<lambda>q b. updateMinMax (cbHeight b) q) pq (bh pq)"

definition RescanMinMaxForAdd :: "u32 \<Rightarrow> BlockPriorityQueue \<Rightarrow> BlockPriorityQueue" where
  "RescanMinMaxForAdd height pq = updateMinMax height pq"

definition RescanMinMaxForRemove :: "u32 \<Rightarrow> BlockPriorityQueue \<Rightarrow> BlockPriorityQueue" where
  "RescanMinMaxForRemove height pq =
     (if uint height = minHeight pq \<or> uint height = maxHeight pq then RescanMinMax pq else pq)"

definition RescanMinMaxForUpdate :: "u32 \<Rightarrow> u32 \<Rightarrow> BlockPriorityQueue \<Rightarrow> BlockPriorityQueue" where
  "RescanMinMaxForUpdate heightAdd heightRemove pq =
     updateMinMax heightAdd
       (if (uint heightRemove = minHeight pq \<and> heightAdd \<ge> heightRemove)
          \<or> (uint heightRemove = maxHeight pq \<and> heightAdd \<le> heightRemove)
        then RescanMinMax pq else pq)"

text \<open>\<open>Push\<close> appends a block made from the data, \<open>None\<close> when making it fails with a nil dereference.\<close>

definition pq_Push ::
  "int \<Rightarrow> BlockDataBasic option \<Rightarrow> StakeInfoExtended option \<Rightarrow> BlockPriorityQueue
     \<Rightarrow> BlockPriorityQueue option" where
  "pq_Push now summary stakeInfo pq =
     (case newCachedBlock summary stakeInfo of
        None \<Rightarrow> None
      | Some b0 \<Rightarrow>
          let b = (Access now b0)\<lparr>heapIdx := int (length (bh pq))\<rparr>;
              pq1 = updateMinMax (cbHeight b) pq
          in Some (pq1\<lparr>bh := bh pq1 @ [b], lastAccess := accessTime b\<rparr>))"

text \<open>\<open>heap.Push\<close>, \<open>heap.Init\<close>, \<open>heap.Fix\<close> and \<open>heap.Remove\<close> on the queue.\<close>

definition heap_Push ::
  "int \<Rightarrow> BlockDataBasic option \<Rightarrow> StakeInfoExtended option \<Rightarrow> BlockPriorityQueue
     \<Rightarrow> BlockPriorityQueue option" where
  "heap_Push now summary stakeInfo pq =
     map_option (\<lambda>pq1. pq1\<lparr>bh := hpush (lessFn pq1) setHeapIdx (bh pq1)\<rparr>) (pq_Push now summary stakeInfo pq)"

definition heap_Init :: "BlockPriorityQueue \<Rightarrow> BlockPriorityQueue" where
  "heap_Init pq = pq\<lparr>bh := hinit (lessFn pq) setHeapIdx (bh pq)\<rparr>"

definition heap_Fix :: "nat \<Rightarrow> BlockPriorityQueue \<Rightarrow> BlockPriorityQueue" where
  "heap_Fix i pq = pq\<lparr>bh := hfix (lessFn pq) setHeapIdx i (bh pq)\<rparr>"

definition pq_Pop :: "BlockPriorityQueue \<Rightarrow> BlockPriorityQueue" where
  "pq_Pop pq = pq\<lparr>bh := butlast (bh pq)\<rparr>"

definition heap_Remove :: "nat \<Rightarrow> BlockPriorityQueue \<Rightarrow> BlockPriorityQueue" where
  "heap_Remove i pq = pq_Pop (pq\<lparr>bh := hremove (lessFn pq) setHeapIdx i (bh pq)\<rparr>)"

definition Reheap :: "BlockPriorityQueue \<Rightarrow> BlockPriorityQueue" where
  "Reheap pq = heap_Init (pq\<lparr>needsReheap := False\<rparr>)"

fun reset_blocks :: "int \<Rightarrow> nat \<Rightarrow> CachedBlock list \<Rightarrow> CachedBlock list" where
  "reset_blocks now i [] = []"
| "reset_blocks now i (b # bs) =
     b\<lparr>heapIdx := int i, accesses := 1, accessTime := now\<rparr> # reset_blocks now (Suc i) bs"

definition ResetHeap :: "int \<Rightarrow> CachedBlock list \<Rightarrow> BlockPriorityQueue \<Rightarrow> BlockPriorityQueue" where
  "ResetHeap now blocks pq =
     (let pq1 = foldl (\<lambda>q b. updateMinMax (cbHeight b) q) (pq\<lparr>maxHeight := -1, minHeight := MaxUint32\<rparr>) blocks
      in heap_Init (pq1\<lparr>bh := reset_blocks now 0 blocks, needsReheap := False\<rparr>))"

text \<open>\<open>UpdateBlock\<close> of the block at a position; \<open>heap.Fix\<close> is called with the position it records.\<close>

definition UpdateBlock ::
  "int \<Rightarrow> nat \<Rightarrow> BlockDataBasic option \<Rightarrow> StakeInfoExtended option \<Rightarrow> BlockPriorityQueue
     \<Rightarrow> BlockPriorityQueue option" where
  "UpdateBlock now i summary stakeInfo pq =
     (case checkBlockHeightHash summary stakeInfo of
        None \<Rightarrow> None
      | Some (heightAdded, hash, mismatch) \<Rightarrow>
          if mismatch then Some pq
          else
            let b = bh pq ! i;
                heightRemoved = cbHeight b;
                b' = Access now (b\<lparr>cbHeight := heightAdded, cbHash := hash, cbSummary := summary,
                                   cbStakeInfo := stakeInfo, accesses := 0\<rparr>);
                pq1 = pq\<lparr>bh := (bh pq)[i := b']\<rparr>
            in if heapIdx b' < 0 \<or> heapIdx b' \<ge> int (length (bh pq1)) then None
               else
                 let pq2 = RescanMinMaxForUpdate heightAdded heightRemoved (heap_Fix (nat (heapIdx b')) pq1)
                 in Some (pq2\<lparr>lastAccess := accessTime b'\<rparr>))"

type_synonym insert_result = "bool \<times> Hash option \<times> int"

definition Insert ::
  "(string \<Rightarrow> Hash option) \<Rightarrow> (nat \<Rightarrow> int) \<Rightarrow> BlockDataBasic option \<Rightarrow> StakeInfoExtended option
     \<Rightarrow> BlockPriorityQueue \<Rightarrow> (BlockPriorityQueue \<times> insert_result) option" where
  "Insert parse now summary stakeInfo pq =
     (if pqCapacity pq = 0 then Some (pq, False, None, -1)
      else if summary = None \<and> stakeInfo = None then Some (pq, False, None, -1)
      else if pqCapacity pq \<le> pq_Len pq then
        (case newCachedBlock summary stakeInfo of
           None \<Rightarrow> None
         | Some b0 \<Rightarrow>
             let cachedBlock = (Access (now 0) b0)\<lparr>heapIdx := 0\<rparr> in
             if lessFn pq (bh pq ! 0) cachedBlock then
               let removedBlockHash = parse (cbHash (bh pq ! 0));
                   removedBlockHeight = cbHeight (bh pq ! 0)
               in (case UpdateBlock (now 1) 0 summary stakeInfo pq of
                     None \<Rightarrow> None
                   | Some pq1 \<Rightarrow>
                       Some (if removedBlockHash \<noteq> None then pq1\<lparr>lastAccess := now 2\<rparr> else pq1,
                             True, removedBlockHash, uint removedBlockHeight))
             else Some (pq, False, None, -1))
      else
        (case checkBlockHeightHash summary stakeInfo of
           None \<Rightarrow> None
         | Some (height, _, mismatch) \<Rightarrow>
             if mismatch then Some (pq, False, None, -1)
             else
               (case heap_Push (now 0) summary stakeInfo pq of
                  None \<Rightarrow> None
                | Some pq1 \<Rightarrow> Some ((RescanMinMaxForAdd height pq1)\<lparr>lastAccess := now 1\<rparr>, True, None, -1))))"

definition RemoveIndex :: "nat \<Rightarrow> BlockPriorityQueue \<Rightarrow> BlockPriorityQueue" where
  "RemoveIndex i pq =
     (let removedHeight = cbHeight (bh pq ! i) in RescanMinMaxForRemove removedHeight (heap_Remove i pq))"

definition RemoveBlock :: "CachedBlock \<Rightarrow> BlockPriorityQueue \<Rightarrow> BlockPriorityQueue" where
  "RemoveBlock b pq =
     (if heapIdx b > 0 \<and> heapIdx b < int (pq_Len pq)
      then (if cbHash (bh pq ! nat (heapIdx b)) = cbHash b then RemoveIndex (nat (heapIdx b)) pq else pq)
      else pq)"

definition setAccessTime :: "int \<Rightarrow> BlockPriorityQueue \<Rightarrow> BlockPriorityQueue" where
  "setAccessTime t pq = pq\<lparr>lastAccess := t\<rparr>"

definition setNeedsReheap :: "bool \<Rightarrow> BlockPriorityQueue \<Rightarrow> BlockPriorityQueue" where
  "setNeedsReheap needReheap pq = pq\<lparr>needsReheap := needReheap\<rparr>"

definition doesNeedReheap :: "int \<Rightarrow> BlockPriorityQueue \<Rightarrow> bool" where
  "doesNeedReheap now pq \<longleftrightarrow> needsReheap pq \<and> now - lastAccess pq > 7 * 1000000000"

section \<open>The cache\<close>

record APICache =
  isEnabled :: bool
  capacity :: nat
  blockCache :: "(Hash, CachedBlock) gomap"
  MainchainBlocks :: "(int, Hash) gomap"
  expireQueue :: BlockPriorityQueue
  hits :: nat
  misses :: nat

definition NewAPICache :: "nat \<Rightarrow> APICache" where
  "NewAPICache c =
     \<lparr>isEnabled = False, capacity = c, blockCache = [], MainchainBlocks = [],
      expireQueue = NewBlockPriorityQueue c, hits = 0, misses = 0\<rparr>"

definition SetLessFn :: "less_fn \<Rightarrow> APICache \<Rightarrow> APICache" where
  "SetLessFn f apic = apic\<lparr>expireQueue := pq_SetLessFn f (expireQueue apic)\<rparr>"

definition Enable :: "APICache \<Rightarrow> APICache" where
  "Enable apic = apic\<lparr>isEnabled := True\<rparr>"

definition Disable :: "APICache \<Rightarrow> APICache" where
  "Disable apic = apic\<lparr>isEnabled := False\<rparr>"

definition IsEnabled :: "APICache \<Rightarrow> bool" where
  "IsEnabled apic = isEnabled apic"

definition UtilizationBlocks :: "APICache \<Rightarrow> nat" where
  "UtilizationBlocks apic = length (blockCache apic)"

text \<open>
  The common end of the two store functions: make the block, insert it into the queue, delete the
  block that the queue gave up, and add the new one. \<open>None\<close> is a panic.
\<close>

definition insert_block ::
  "(string \<Rightarrow> Hash option) \<Rightarrow> (nat \<Rightarrow> int) \<Rightarrow> Hash \<Rightarrow> u32 \<Rightarrow> BlockDataBasic option
     \<Rightarrow> StakeInfoExtended option \<Rightarrow> APICache \<Rightarrow> APICache option" where
  "insert_block parse now hash height summary stakeInfo apic =
     (case newCachedBlock summary stakeInfo of
        None \<Rightarrow> None
      | Some b0 \<Rightarrow>
          let cachedBlock = Access (now 0) b0 in
          (case Insert parse (\<lambda>i. now (Suc i)) summary stakeInfo (expireQueue apic) of
             None \<Rightarrow> None
           | Some (pq, wasAdded, removedBlock, removedHeight) \<Rightarrow>
               let apic1 = apic\<lparr>expireQueue := pq\<rparr>;
                   apic2 = (case removedBlock of
                       None \<Rightarrow> apic1
                     | Some h \<Rightarrow> apic1\<lparr>blockCache := mdel h (blockCache apic1),
                                       MainchainBlocks := mdel removedHeight (MainchainBlocks apic1)\<rparr>)
               in Some (if wasAdded
                        then apic2\<lparr>blockCache := mput hash cachedBlock (blockCache apic2),
                                   MainchainBlocks := mput (uint height) hash (MainchainBlocks apic2)\<rparr>
                        else apic2)))"

definition StoreBlockSummary ::
  "(string \<Rightarrow> Hash option) \<Rightarrow> (nat \<Rightarrow> int) \<Rightarrow> BlockDataBasic \<Rightarrow> APICache \<Rightarrow> APICache option" where
  "StoreBlockSummary parse now blockSummary apic =
     (if \<not> IsEnabled apic then Some apic
      else case parse (sumHash blockSummary) of
        None \<Rightarrow> None
      | Some hash \<Rightarrow>
          (case mget (blockCache apic) hash of
             Some b \<Rightarrow>
               if cbSummary b \<noteq> None then Some apic
               else Some (apic\<lparr>blockCache := mput hash (b\<lparr>cbSummary := Some blockSummary\<rparr>) (blockCache apic)\<rparr>)
           | None \<Rightarrow> insert_block parse now hash (sumHeight blockSummary) (Some blockSummary) None apic))"

definition StoreStakeInfo ::
  "(string \<Rightarrow> Hash option) \<Rightarrow> (nat \<Rightarrow> int) \<Rightarrow> StakeInfoExtended \<Rightarrow> APICache \<Rightarrow> APICache option" where
  "StoreStakeInfo parse now stakeInfo apic =
     (if \<not> IsEnabled apic then Some apic
      else case parse (siHash stakeInfo) of
        None \<Rightarrow> None
      | Some hash \<Rightarrow>
          (case mget (blockCache apic) hash of
             Some b \<Rightarrow>
               if cbStakeInfo b = None
               then Some (apic\<lparr>blockCache := mput hash (b\<lparr>cbStakeInfo := Some stakeInfo\<rparr>) (blockCache apic)\<rparr>)
               else Some apic
           | None \<Rightarrow> insert_block parse now hash (siFeeHeight stakeInfo) None (Some stakeInfo) apic))"

text \<open>The test of the error is the wrong way round: a hash that parses is not deleted, and one that
does not is dereferenced.\<close>

definition removeCachedBlock :: "(string \<Rightarrow> Hash option) \<Rightarrow> CachedBlock option \<Rightarrow> APICache \<Rightarrow> APICache option" where
  "removeCachedBlock parse cachedBlock apic =
     (case cachedBlock of
        None \<Rightarrow> Some apic
      | Some b \<Rightarrow>
          let apic1 = apic\<lparr>expireQueue := RemoveBlock b (expireQueue apic)\<rparr> in
          if parse (cbHash b) = None then None
          else Some (apic1\<lparr>MainchainBlocks := mdel (uint (cbHeight b)) (MainchainBlocks apic1)\<rparr>))"

definition RemoveCachedBlock :: "(string \<Rightarrow> Hash option) \<Rightarrow> CachedBlock option \<Rightarrow> APICache \<Rightarrow> APICache option" where
  "RemoveCachedBlock parse cachedBlock apic = removeCachedBlock parse cachedBlock apic"

definition getCachedBlockByHash :: "int \<Rightarrow> Hash \<Rightarrow> APICache \<Rightarrow> APICache \<times> CachedBlock option" where
  "getCachedBlockByHash now hash apic =
     (case mget (blockCache apic) hash of
        Some b \<Rightarrow>
          let b' = Access now b in
          (apic\<lparr>blockCache := mput hash b' (blockCache apic),
                expireQueue := setAccessTime now (setNeedsReheap True (expireQueue apic)),
                hits := Suc (hits apic)\<rparr>, Some b')
      | None \<Rightarrow> (apic\<lparr>misses := Suc (misses apic)\<rparr>, None))"

definition RemoveCachedBlockByHeight ::
  "(string \<Rightarrow> Hash option) \<Rightarrow> int \<Rightarrow> int \<Rightarrow> APICache \<Rightarrow> APICache option" where
  "RemoveCachedBlockByHeight parse now height apic =
     (case mget (MainchainBlocks apic) height of
        None \<Rightarrow> Some apic
      | Some hash \<Rightarrow>
          (case getCachedBlockByHash now hash apic of
             (apic1, cb) \<Rightarrow> removeCachedBlock parse cb apic1))"

definition blockHash :: "int \<Rightarrow> APICache \<Rightarrow> Hash option" where
  "blockHash height apic = mget (MainchainBlocks apic) height"

definition GetBlockHash :: "(Hash \<Rightarrow> string) \<Rightarrow> int \<Rightarrow> APICache \<Rightarrow> string" where
  "GetBlockHash print height apic =
     (if \<not> IsEnabled apic then []
      else case blockHash height apic of None \<Rightarrow> [] | Some hash \<Rightarrow> print hash)"

definition GetCachedBlockByHeight :: "int \<Rightarrow> int \<Rightarrow> APICache \<Rightarrow> APICache \<times> CachedBlock option" where
  "GetCachedBlockByHeight now height apic =
     (case mget (MainchainBlocks apic) height of
        None \<Rightarrow> (apic, None)
      | Some hash \<Rightarrow> getCachedBlockByHash now hash apic)"

definition GetCachedBlockByHashStr ::
  "(string \<Rightarrow> Hash option) \<Rightarrow> int \<Rightarrow> string \<Rightarrow> APICache \<Rightarrow> APICache \<times> CachedBlock option" where
  "GetCachedBlockByHashStr parse now hashStr apic =
     (case parse hashStr of None \<Rightarrow> (apic, None) | Some hash \<Rightarrow> getCachedBlockByHash now hash apic)"

definition GetCachedBlockByHash ::
  "(string \<Rightarrow> Hash option) \<Rightarrow> (Hash \<Rightarrow> string) \<Rightarrow> int \<Rightarrow> Hash \<Rightarrow> APICache \<Rightarrow> APICache \<times> CachedBlock option" where
  "GetCachedBlockByHash parse print now hash apic =
     (if parse (print hash) = None then (apic, None) else getCachedBlockByHash now hash apic)"

text \<open>\<open>int32\<close> of an unsigned size keeps the bits.\<close>

definition GetBlockSize :: "int \<Rightarrow> int \<Rightarrow> APICache \<Rightarrow> APICache \<times> int" where
  "GetBlockSize now height apic =
     (if \<not> IsEnabled apic then (apic, -1)
      else case GetCachedBlockByHeight now height apic of
        (apic', cb) \<Rightarrow>
          (apic', case Option.bind cb cbSummary of None \<Rightarrow> -1 | Some s \<Rightarrow> sint (sumSize s)))"

definition GetBlockSummary :: "int \<Rightarrow> int \<Rightarrow> APICache \<Rightarrow> APICache \<times> BlockDataBasic option" where
  "GetBlockSummary now height apic =
     (if \<not> IsEnabled apic then (apic, None)
      else case GetCachedBlockByHeight now height apic of (apic', cb) \<Rightarrow> (apic', Option.bind cb cbSummary))"

definition GetStakeInfo :: "int \<Rightarrow> int \<Rightarrow> APICache \<Rightarrow> APICache \<times> StakeInfoExtended option" where
  "GetStakeInfo now height apic =
     (if \<not> IsEnabled apic then (apic, None)
      else case GetCachedBlockByHeight now height apic of (apic', cb) \<Rightarrow> (apic', Option.bind cb cbStakeInfo))"

definition GetStakeInfoByHash ::
  "(string \<Rightarrow> Hash option) \<Rightarrow> int \<Rightarrow> string \<Rightarrow> APICache \<Rightarrow> APICache \<times> StakeInfoExtended option" where
  "GetStakeInfoByHash parse now hash apic =
     (if \<not> IsEnabled apic then (apic, None)
      else case GetCachedBlockByHashStr parse now hash apic of (apic', cb) \<Rightarrow> (apic', Option.bind cb cbStakeInfo))"

definition GetBlockSummaryByHash ::
  "(string \<Rightarrow> Hash option) \<Rightarrow> int \<Rightarrow> string \<Rightarrow> APICache \<Rightarrow> APICache \<times> BlockDataBasic option" where
  "GetBlockSummaryByHash parse now hash apic =
     (if \<not> IsEnabled apic then (apic, None)
      else case GetCachedBlockByHashStr parse now hash apic of (apic', cb) \<Rightarrow> (apic', Option.bind cb cbSummary))"

end
