(* ===== verification/BlockCacheContract.thy ===== *)
theory BlockCacheContract
  imports BlockCache
begin

text \<open>
  The block queue and the API cache against their contracts: the heap of the queue for the
  comparators that are orders, what an insertion keeps and gives up, and the agreement of the queue
  with the cache over every sequence of calls.
\<close>

section \<open>The comparators\<close>

interpretation bhs: heap_swaps f setHeapIdx for f
  by unfold_locales (simp add: setHeapIdx_def)

interpretation by_height: heap_order LessByHeight setHeapIdx
  by unfold_locales (auto simp: LessByHeight_def setHeapIdx_def)

interpretation by_count: heap_order LessByAccessCount setHeapIdx
  by unfold_locales (auto simp: LessByAccessCount_def setHeapIdx_def)

interpretation by_time: heap_order LessByAccessTime setHeapIdx
  by unfold_locales (auto simp: LessByAccessTime_def setHeapIdx_def)

interpretation by_count_height: heap_order LessByAccessCountThenHeight setHeapIdx
  by unfold_locales
    (auto simp: LessByAccessCountThenHeight_def LessByAccessCount_def LessByHeight_def setHeapIdx_def
      split: if_splits)

definition order_fns :: "less_fn set" where
  "order_fns = {LessByHeight, LessByAccessCount, LessByAccessTime, LessByAccessCountThenHeight}"

lemma order_fns_heap_order: "f \<in> order_fns \<Longrightarrow> heap_order f setHeapIdx"
  using by_height.heap_order_axioms by_count.heap_order_axioms by_time.heap_order_axioms
    by_count_height.heap_order_axioms
  by (auto simp: order_fns_def)

section \<open>The queue\<close>

lemma updateMinMax_fields [simp]:
  "bh (updateMinMax h pq) = bh pq" "pqCapacity (updateMinMax h pq) = pqCapacity pq"
  "lessFn (updateMinMax h pq) = lessFn pq"
  by (simp_all add: updateMinMax_def Let_def)

lemma foldl_updateMinMax_fields [simp]:
  "bh (foldl (\<lambda>q b. updateMinMax (cbHeight b) q) pq bs) = bh pq"
  "pqCapacity (foldl (\<lambda>q b. updateMinMax (cbHeight b) q) pq bs) = pqCapacity pq"
  "lessFn (foldl (\<lambda>q b. updateMinMax (cbHeight b) q) pq bs) = lessFn pq"
  by (induction bs arbitrary: pq) simp_all

lemma Rescan_fields [simp]:
  "bh (RescanMinMaxForUpdate x y pq) = bh pq" "pqCapacity (RescanMinMaxForUpdate x y pq) = pqCapacity pq"
  "lessFn (RescanMinMaxForUpdate x y pq) = lessFn pq"
  "bh (RescanMinMaxForAdd x pq) = bh pq" "pqCapacity (RescanMinMaxForAdd x pq) = pqCapacity pq"
  "lessFn (RescanMinMaxForAdd x pq) = lessFn pq"
  by (simp_all add: RescanMinMaxForUpdate_def RescanMinMaxForAdd_def RescanMinMax_def)

abbreviation blocks :: "BlockPriorityQueue \<Rightarrow> CachedBlock multiset" where
  "blocks pq \<equiv> heap_elems setHeapIdx (bh pq)"

abbreviation at0 :: "CachedBlock \<Rightarrow> CachedBlock" where
  "at0 \<equiv> erase setHeapIdx"

definition pq_shape :: "BlockPriorityQueue \<Rightarrow> bool" where
  "pq_shape pq \<longleftrightarrow> pos_ok setHeapIdx (bh pq) \<and> length (bh pq) \<le> pqCapacity pq"

lemma at0_eq: "at0 b = b\<lparr>heapIdx := 0\<rparr>"
  by (simp add: erase_def setHeapIdx_def)

lemma pos_ok_root: "pos_ok setHeapIdx bs \<Longrightarrow> bs \<noteq> [] \<Longrightarrow> heapIdx (bs ! 0) = 0"
proof -
  assume "pos_ok setHeapIdx bs" and "bs \<noteq> []"
  then have "setHeapIdx 0 (bs ! 0) = bs ! 0" by (simp add: pos_ok_def)
  then have "heapIdx (setHeapIdx 0 (bs ! 0)) = heapIdx (bs ! 0)" by simp
  then show ?thesis by (simp add: setHeapIdx_def)
qed

text \<open>A new block of the queue at the time it is made.\<close>

lemma newCachedBlock_data: "newCachedBlock summary stakeInfo = Some b \<Longrightarrow> \<not> (summary = None \<and> stakeInfo = None)"
  by (rule notI) (simp add: newCachedBlock_def)

lemma newCachedBlock_fields: "newCachedBlock summary stakeInfo = Some b \<Longrightarrow>
    accesses b = 0 \<and> accessTime b = 0 \<and> heapIdx b = -1 \<and> cbSummary b = summary \<and> cbStakeInfo b = stakeInfo \<and>
    checkBlockHeightHash summary stakeInfo = Some (cbHeight b, cbHash b, False)"
  by (auto simp: newCachedBlock_def split: if_splits option.splits prod.splits bool.splits)

lemma heap_Push_result:
  assumes b: "newCachedBlock summary stakeInfo = Some b" and pos: "pos_ok setHeapIdx (bh pq)"
  obtains pq' where "heap_Push t summary stakeInfo pq = Some pq'"
    "blocks pq' = add_mset (at0 (Access t b)) (blocks pq)" "pos_ok setHeapIdx (bh pq')"
    "length (bh pq') = Suc (length (bh pq))" "pqCapacity pq' = pqCapacity pq" "lessFn pq' = lessFn pq"
    "heap_order (lessFn pq) setHeapIdx \<Longrightarrow> is_heap (lessFn pq) (bh pq) \<Longrightarrow> is_heap (lessFn pq) (bh pq')"
proof -
  let ?b = "(Access t b)\<lparr>heapIdx := int (length (bh pq))\<rparr>"
  let ?bs = "bh pq @ [?b]"
  obtain pq' where pq': "heap_Push t summary stakeInfo pq = Some pq'"
    "bh pq' = hpush (lessFn pq) setHeapIdx ?bs" "pqCapacity pq' = pqCapacity pq" "lessFn pq' = lessFn pq"
    using b by (simp add: heap_Push_def pq_Push_def Let_def)
  have "setHeapIdx (length (bh pq)) ?b = ?b" by (simp add: setHeapIdx_def)
  then have "pos_ok setHeapIdx ?bs"
    using pos by (auto simp: pos_ok_def nth_append less_Suc_eq)
  then have "pos_ok setHeapIdx (bh pq')" using pq'(2) bhs.hpush_pos [of ?bs] by simp
  moreover have "blocks pq' = add_mset (at0 (Access t b)) (blocks pq)"
    using pq'(2) bhs.hpush_elems [of ?bs] by (simp add: heap_elems_def at0_eq)
  moreover have "length (bh pq') = Suc (length (bh pq))"
    using pq'(2) by (simp add: bhs.hpush_length)
  moreover have "heap_order (lessFn pq) setHeapIdx \<Longrightarrow> is_heap (lessFn pq) (bh pq) \<Longrightarrow> is_heap (lessFn pq) (bh pq')"
    using pq'(2) heap_order.hpush_heap by simp
  ultimately show thesis using that pq' by blast
qed

lemma UpdateBlock_root:
  assumes b: "newCachedBlock summary stakeInfo = Some b" and pos: "pos_ok setHeapIdx (bh pq)" and ne: "bh pq \<noteq> []"
  obtains pq' where "UpdateBlock t 0 summary stakeInfo pq = Some pq'"
    "blocks pq' = add_mset (at0 (Access t b)) (blocks pq - {#at0 (bh pq ! 0)#})" "pos_ok setHeapIdx (bh pq')"
    "length (bh pq') = length (bh pq)" "pqCapacity pq' = pqCapacity pq" "lessFn pq' = lessFn pq"
    "heap_order (lessFn pq) setHeapIdx \<Longrightarrow> is_heap (lessFn pq) (bh pq) \<Longrightarrow> is_heap (lessFn pq) (bh pq')"
proof -
  note f = newCachedBlock_fields [OF b]
  let ?root = "bh pq ! 0"
  let ?b = "Access t (?root\<lparr>cbHeight := cbHeight b, cbHash := cbHash b, cbSummary := summary,
    cbStakeInfo := stakeInfo, accesses := 0\<rparr>)"
  let ?bs = "(bh pq)[0 := ?b]"
  have idx: "heapIdx ?b = 0" using pos_ok_root [OF pos ne] by (simp add: Access_def)
  obtain pq' where pq': "UpdateBlock t 0 summary stakeInfo pq = Some pq'"
    "bh pq' = hfix (lessFn pq) setHeapIdx 0 ?bs" "pqCapacity pq' = pqCapacity pq" "lessFn pq' = lessFn pq"
    using f ne idx by (simp add: UpdateBlock_def heap_Fix_def Let_def)
  have len: "0 < length ?bs" using ne by simp
  note keeps = bhs.hfix_keeps [OF len, of "lessFn pq"]
  have "setHeapIdx 0 ?b = ?b" using idx by (simp add: setHeapIdx_def)
  then have "pos_ok setHeapIdx ?bs"
    using pos ne unfolding pos_ok_def by (metis length_greater_0_conv length_list_update nth_list_update)
  then have "pos_ok setHeapIdx (bh pq')" using pq'(2) keeps(3) by simp
  moreover have "at0 ?b = at0 (Access t b)"
    using f by (simp add: at0_eq Access_def)
  then have "blocks pq' = add_mset (at0 (Access t b)) (blocks pq - {#at0 ?root#})"
    using pq'(2) keeps(1) ne by (cases "bh pq") (simp_all add: heap_elems_def)
  moreover have "length (bh pq') = length (bh pq)" using pq'(2) keeps(2) by simp
  moreover have "heap_order (lessFn pq) setHeapIdx \<Longrightarrow> is_heap (lessFn pq) (bh pq) \<Longrightarrow> is_heap (lessFn pq) (bh pq')"
    using pq'(2) heap_order.hfix_heap [of "lessFn pq" setHeapIdx "bh pq" 0 ?b] ne by simp
  ultimately show thesis using that pq' by blast
qed

text \<open>What an insertion does, for any comparator.\<close>

lemma Insert_room:
  assumes b: "newCachedBlock summary stakeInfo = Some b" and shape: "pq_shape pq"
    and room: "length (bh pq) < pqCapacity pq"
  obtains pq' where "Insert parse now summary stakeInfo pq = Some (pq', True, None, -1)"
    "blocks pq' = add_mset (at0 (Access (now 0) b)) (blocks pq)" "pq_shape pq'"
    "pqCapacity pq' = pqCapacity pq" "lessFn pq' = lessFn pq"
    "heap_order (lessFn pq) setHeapIdx \<Longrightarrow> is_heap (lessFn pq) (bh pq) \<Longrightarrow> is_heap (lessFn pq) (bh pq')"
proof -
  have pos: "pos_ok setHeapIdx (bh pq)" using shape by (simp add: pq_shape_def)
  obtain pq1 where pq1: "heap_Push (now 0) summary stakeInfo pq = Some pq1"
    "blocks pq1 = add_mset (at0 (Access (now 0) b)) (blocks pq)" "pos_ok setHeapIdx (bh pq1)"
    "length (bh pq1) = Suc (length (bh pq))" "pqCapacity pq1 = pqCapacity pq" "lessFn pq1 = lessFn pq"
    "heap_order (lessFn pq) setHeapIdx \<Longrightarrow> is_heap (lessFn pq) (bh pq) \<Longrightarrow> is_heap (lessFn pq) (bh pq1)"
    using heap_Push_result [OF b pos, of "now 0"] by metis
  have check: "checkBlockHeightHash summary stakeInfo = Some (cbHeight b, cbHash b, False)"
    using newCachedBlock_fields [OF b] by blast
  let ?pq = "(RescanMinMaxForAdd (cbHeight b) pq1)\<lparr>lastAccess := now 1\<rparr>"
  have "Insert parse now summary stakeInfo pq = Some (?pq, True, None, -1)"
    unfolding Insert_def if_not_P [OF newCachedBlock_data [OF b]] using pq1(1) check room
    by (simp add: pq_Len_def)
  then show thesis using that [of ?pq] pq1 room by (simp add: pq_shape_def)
qed

lemma Insert_full:
  assumes b: "newCachedBlock summary stakeInfo = Some b" and shape: "pq_shape pq"
    and full: "length (bh pq) = pqCapacity pq" and cap: "0 < pqCapacity pq"
    and less: "lessFn pq (bh pq ! 0) ((Access (now 0) b)\<lparr>heapIdx := 0\<rparr>)"
  obtains pq' where "Insert parse now summary stakeInfo pq
      = Some (pq', True, parse (cbHash (bh pq ! 0)), uint (cbHeight (bh pq ! 0)))"
    "blocks pq' = add_mset (at0 (Access (now 1) b)) (blocks pq - {#at0 (bh pq ! 0)#})" "pq_shape pq'"
    "pqCapacity pq' = pqCapacity pq" "lessFn pq' = lessFn pq"
    "heap_order (lessFn pq) setHeapIdx \<Longrightarrow> is_heap (lessFn pq) (bh pq) \<Longrightarrow> is_heap (lessFn pq) (bh pq')"
proof -
  have pos: "pos_ok setHeapIdx (bh pq)" using shape by (simp add: pq_shape_def)
  have ne: "bh pq \<noteq> []" using full cap by auto
  obtain pq1 where pq1: "UpdateBlock (now 1) 0 summary stakeInfo pq = Some pq1"
    "blocks pq1 = add_mset (at0 (Access (now 1) b)) (blocks pq - {#at0 (bh pq ! 0)#})" "pos_ok setHeapIdx (bh pq1)"
    "length (bh pq1) = length (bh pq)" "pqCapacity pq1 = pqCapacity pq" "lessFn pq1 = lessFn pq"
    "heap_order (lessFn pq) setHeapIdx \<Longrightarrow> is_heap (lessFn pq) (bh pq) \<Longrightarrow> is_heap (lessFn pq) (bh pq1)"
    using UpdateBlock_root [OF b pos ne, of "now 1"] by metis
  let ?pq = "if parse (cbHash (bh pq ! 0)) \<noteq> None then pq1\<lparr>lastAccess := now 2\<rparr> else pq1"
  have "Insert parse now summary stakeInfo pq
      = Some (?pq, True, parse (cbHash (bh pq ! 0)), uint (cbHeight (bh pq ! 0)))"
    unfolding Insert_def if_not_P [OF newCachedBlock_data [OF b]] using pq1(1) b less full cap
    by (simp add: pq_Len_def Let_def)
  then show thesis using that [of ?pq] pq1 full by (simp add: pq_shape_def)
qed

lemma Insert_rejected:
  assumes b: "newCachedBlock summary stakeInfo = Some b" and full: "length (bh pq) = pqCapacity pq"
    and low: "pqCapacity pq = 0 \<or> \<not> lessFn pq (bh pq ! 0) ((Access (now 0) b)\<lparr>heapIdx := 0\<rparr>)"
  shows "Insert parse now summary stakeInfo pq = Some (pq, False, None, -1)"
  unfolding Insert_def if_not_P [OF newCachedBlock_data [OF b]] using b full low
  by (auto simp: pq_Len_def Let_def)

section \<open>The queue: properties\<close>

lemma Insert_cases:
  assumes b: "newCachedBlock summary stakeInfo = Some b" and shape: "pq_shape pq"
  obtains (room) pq' where "length (bh pq) < pqCapacity pq"
      "Insert parse now summary stakeInfo pq = Some (pq', True, None, -1)"
      "blocks pq' = add_mset (at0 (Access (now 0) b)) (blocks pq)" "pq_shape pq'"
      "pqCapacity pq' = pqCapacity pq" "lessFn pq' = lessFn pq"
      "heap_order (lessFn pq) setHeapIdx \<Longrightarrow> is_heap (lessFn pq) (bh pq) \<Longrightarrow> is_heap (lessFn pq) (bh pq')"
    | (replaced) pq' where "length (bh pq) = pqCapacity pq" "bh pq \<noteq> []"
      "lessFn pq (bh pq ! 0) ((Access (now 0) b)\<lparr>heapIdx := 0\<rparr>)"
      "Insert parse now summary stakeInfo pq
        = Some (pq', True, parse (cbHash (bh pq ! 0)), uint (cbHeight (bh pq ! 0)))"
      "blocks pq' = add_mset (at0 (Access (now 1) b)) (blocks pq - {#at0 (bh pq ! 0)#})" "pq_shape pq'"
      "pqCapacity pq' = pqCapacity pq" "lessFn pq' = lessFn pq"
      "heap_order (lessFn pq) setHeapIdx \<Longrightarrow> is_heap (lessFn pq) (bh pq) \<Longrightarrow> is_heap (lessFn pq) (bh pq')"
    | (rejected) "length (bh pq) = pqCapacity pq"
      "pqCapacity pq = 0 \<or> \<not> lessFn pq (bh pq ! 0) ((Access (now 0) b)\<lparr>heapIdx := 0\<rparr>)"
      "Insert parse now summary stakeInfo pq = Some (pq, False, None, -1)"
proof -
  consider "length (bh pq) < pqCapacity pq"
    | "length (bh pq) = pqCapacity pq" "0 < pqCapacity pq"
      "lessFn pq (bh pq ! 0) ((Access (now 0) b)\<lparr>heapIdx := 0\<rparr>)"
    | "length (bh pq) = pqCapacity pq"
      "pqCapacity pq = 0 \<or> \<not> lessFn pq (bh pq ! 0) ((Access (now 0) b)\<lparr>heapIdx := 0\<rparr>)"
    using shape unfolding pq_shape_def by linarith
  then show thesis
  proof cases
    case 1
    then show thesis using Insert_room [OF b shape 1, of parse now] room by blast
  next
    case 2
    moreover have "bh pq \<noteq> []" using 2 by auto
    ultimately show thesis using Insert_full [OF b shape 2(1,2), of now parse] replaced by blast
  next
    case 3
    then show thesis using Insert_rejected [where now = now, OF b 3] rejected by blast
  qed
qed

lemma root_in_blocks: "bh pq \<noteq> [] \<Longrightarrow> at0 (bh pq ! 0) \<in># blocks pq"
  by (simp add: heap_elems_def)

context heap_order
begin

lemma less_erase [simp]: "lessFn (erase setIdx x) y = lessFn x y" "lessFn x (erase setIdx y) = lessFn x y"
  by (simp_all add: erase_def less_set1 less_set2)

lemma root_least:
  assumes "is_heap lessFn xs" "x \<in># heap_elems setIdx xs"
  shows "\<not> lessFn x (xs ! 0)"
proof -
  obtain k where "k < length xs" "x = erase setIdx (xs ! k)"
    using assms(2) by (auto simp: heap_elems_def in_set_conv_nth)
  then show ?thesis using heap_root [OF assms(1)] by simp
qed

lemma some_less_iff_root:
  assumes "is_heap lessFn xs" "xs \<noteq> []"
  shows "(\<exists>x \<in># heap_elems setIdx xs. lessFn x y) \<longleftrightarrow> lessFn (xs ! 0) y"
proof
  assume "\<exists>x \<in># heap_elems setIdx xs. lessFn x y"
  then show "lessFn (xs ! 0) y" using root_least [OF assms(1)] negtrans by blast
next
  assume "lessFn (xs ! 0) y"
  moreover have "erase setIdx (xs ! 0) \<in># heap_elems setIdx xs" using assms(2) by (simp add: heap_elems_def)
  ultimately show "\<exists>x \<in># heap_elems setIdx xs. lessFn x y" using less_erase(1) by blast
qed

end


text \<open>A block of the given height and hash, and a full queue that holds one.\<close>

definition summary_at :: "u32 \<Rightarrow> string \<Rightarrow> BlockDataBasic" where
  "summary_at h s =
     \<lparr>sumHeight = h, sumSize = 400, sumHash = s, sumDifficulty = 0, sumStakeDiff = 0, sumTime = 0,
      sumNumTx = 2, sumMiningFee = None, sumTotalSent = None, sumPoolInfo = None\<rparr>"

definition block_at :: "u32 \<Rightarrow> string \<Rightarrow> CachedBlock" where
  "block_at h s =
     \<lparr>cbHeight = h, cbHash = s, cbSummary = Some (summary_at h s), cbStakeInfo = None, accesses = 0,
      accessTime = 0, heapIdx = 0\<rparr>"

definition one_block_queue :: BlockPriorityQueue where
  "one_block_queue = (NewBlockPriorityQueue 1)\<lparr>bh := [Access 3 (block_at 5 ''aa'')], lessFn := LessByHeight\<rparr>"

definition parse_any :: "string \<Rightarrow> Hash option" where
  "parse_any s = (if s = [] then None else Some (map (\<lambda>c. of_nat (of_char c)) s))"

lemma newCachedBlock_summary_at: "newCachedBlock (Some (summary_at h s)) None = Some ((block_at h s)\<lparr>heapIdx := -1\<rparr>)"
  by (simp add: newCachedBlock_def checkBlockHeightHash_def summary_at_def block_at_def)

lemma one_block_queue_facts:
  "lessFn one_block_queue = LessByHeight" "bh one_block_queue = [Access 3 (block_at 5 ''aa'')]"
  "pqCapacity one_block_queue = 1" "is_heap LessByHeight (bh one_block_queue)" "pq_shape one_block_queue"
  "LessByHeight \<in> order_fns"
  by (simp_all add: one_block_queue_def NewBlockPriorityQueue_def is_heap_def heap_from_def pq_shape_def
      pos_ok_def setHeapIdx_def Access_def block_at_def order_fns_def)


text \<open>
  After the comparator is set to one that is an order, \<open>Reheap\<close> makes the queue a heap for it,
  of the same blocks with their recorded positions right, whatever order they were in; its root is a
  block that no other is less than.
\<close>

theorem Reheap_establishes_heap:
  assumes "f \<in> order_fns" "pq_shape pq"
  shows "let q = Reheap (pq_SetLessFn f pq) in is_heap f (bh q) \<and> blocks q = blocks pq \<and> pq_shape q \<and>
    \<not> needsReheap q \<and> (bh q \<noteq> [] \<longrightarrow> (\<forall>x \<in># blocks q. \<not> f x (bh q ! 0)))"
proof -
  note ord = order_fns_heap_order [OF assms(1)]
  let ?bs = "hinit f setHeapIdx (bh pq)"
  have heap: "is_heap f ?bs" using heap_order.hinit_ok [OF ord] by simp
  have q: "bh (Reheap (pq_SetLessFn f pq)) = ?bs" "pqCapacity (Reheap (pq_SetLessFn f pq)) = pqCapacity pq"
    "\<not> needsReheap (Reheap (pq_SetLessFn f pq))"
    by (simp_all add: Reheap_def heap_Init_def pq_SetLessFn_def)
  show ?thesis
    using assms(2) q heap bhs.hinit_keeps [of f "bh pq"] heap_order.root_least [OF ord heap]
    by (simp add: Let_def pq_shape_def)
qed

theorem Reheap_establishes_heap_witness:
  "is_heap LessByAccessTime (bh (Reheap (pq_SetLessFn LessByAccessTime one_block_queue)))"
  using Reheap_establishes_heap [OF _ one_block_queue_facts(5), of LessByAccessTime]
  by (simp add: order_fns_def Let_def)

text \<open>
  The comparator that a new queue is given is not an order: it treats access times less than a
  millisecond apart as equal, which is not transitive. There are three blocks with a cycle, and so
  no arrangement of them is a heap, whatever \<open>Reheap\<close> does.
\<close>

definition accessed :: "int \<Rightarrow> int \<Rightarrow> CachedBlock" where
  "accessed t n = (block_at 1 [])\<lparr>accesses := n, accessTime := t\<rparr>"

theorem default_comparator_cyclic:
  "\<exists>x y z. lessFn (NewBlockPriorityQueue c) x y \<and> lessFn (NewBlockPriorityQueue c) y z \<and>
     lessFn (NewBlockPriorityQueue c) z x \<and>
     (\<nexists>bs. mset bs = {#x, y, z#} \<and> is_heap (lessFn (NewBlockPriorityQueue c)) bs)"
proof -
  let ?f = "MakeLessByAccessTimeThenCount 1"
  let ?x = "accessed 1200000 1" and ?y = "accessed 600000 2" and ?z = "accessed 0 3"
  have cycle: "?f ?x ?y" "?f ?y ?z" "?f ?z ?x"
    by (simp_all add: MakeLessByAccessTimeThenCount_def LessByAccessCount_def LessByAccessTime_def
        accessed_def trunc_div_def)
  have "\<not> is_heap ?f bs" if bs: "mset bs = {#?x, ?y, ?z#}" for bs
  proof
    assume "is_heap ?f bs"
    then have heap: "\<not> ?f (bs ! k) (bs ! parent k)" if "0 < k" "k < length bs" for k
      using that by (simp add: is_heap_def heap_from_def edge_ok_def)
    have "length bs = 3" using arg_cong [OF bs, of size] by simp
    then obtain u v w where b: "bs = [u, v, w]" by (auto simp: numeral_3_eq_3 length_Suc_conv)
    have "\<not> ?f v u" "\<not> ?f w u" using heap [of 1] heap [of 2] b by (simp_all add: parent_def)
    moreover have "set bs = {?x, ?y, ?z}" using arg_cong [OF bs, of set_mset] by simp
    then have "{u, v, w} = {?x, ?y, ?z}" using b by simp
    moreover have "\<not> ?f ?x ?x" "\<not> ?f ?y ?y" "\<not> ?f ?z ?z"
      by (simp_all add: MakeLessByAccessTimeThenCount_def LessByAccessCount_def trunc_div_def)
    ultimately show False using cycle by (metis insertE insertI1 insertI2 singletonD)
  qed
  then show ?thesis using cycle by (auto simp: NewBlockPriorityQueue_def)
qed

end
