(* ===== verification/BlockCacheSync.thy ===== *)
theory BlockCacheSync
  imports BlockCacheContract
begin

text \<open>
  The agreement of the block queue with the API cache. The calls on an \<open>APICache\<close> are the steps of a
  relation; what holds of the new cache and is kept by every step holds of every cache there is. The
  invariant compares the two structures entry by entry: the parsed hash and the height of the blocks
  in the queue and in the cache are the same multiset.
\<close>

section \<open>Entries of a map\<close>

lemma mset_mdel: "wf_map m \<Longrightarrow> mget m k = Some v \<Longrightarrow> mset m = add_mset (k, v) (mset (mdel k m))"
proof (induction m)
  case (Cons p m)
  obtain k' v' where p: "p = (k', v')" by (cases p)
  show ?case
  proof (cases "k' = k")
    case True
    then have "mget m k = None" using Cons.prems p by (simp add: wf_map_Cons)
    then have "mdel k m = m" by (rule mdel_notin)
    then show ?thesis using Cons.prems p True by (simp add: mget_def mdel_def)
  next
    case False
    then show ?thesis using Cons p by (simp add: wf_map_Cons) (simp add: mget_def mdel_def)
  qed
qed (simp add: mget_def)

lemma mset_mput: "wf_map m \<Longrightarrow> mset (mput k v m) = add_mset (k, v) (mset (mdel k m))"
proof (induction m)
  case (Cons p m)
  obtain k' v' where p: "p = (k', v')" by (cases p)
  show ?case
  proof (cases "k' = k")
    case True
    then have "mget m k = None" using Cons.prems p by (simp add: wf_map_Cons)
    then have "mdel k m = m" by (rule mdel_notin)
    then show ?thesis using p True by (simp add: mput_def mdel_def)
  next
    case False
    then show ?thesis using Cons p by (simp add: wf_map_Cons) (simp add: mput_def mdel_def)
  qed
qed (simp add: mput_def mdel_def)

lemma mset_mput_new: "wf_map m \<Longrightarrow> mget m k = None \<Longrightarrow> mset (mput k v m) = add_mset (k, v) (mset m)"
  by (simp add: mset_mput mdel_notin)

section \<open>The steps\<close>

text \<open>
  A block that is given to \<open>RemoveCachedBlock\<close> was returned by a lookup, so its heap index is the
  -1 it was made with: only the queue writes heap indices, into its own blocks.
\<close>

inductive api_step :: "(string \<Rightarrow> Hash option) \<Rightarrow> (Hash \<Rightarrow> string) \<Rightarrow> APICache \<Rightarrow> APICache \<Rightarrow> bool"
  for parse print where
  store_summary: "StoreBlockSummary parse now s a = Some a' \<Longrightarrow> api_step parse print a a'"
| store_stake: "StoreStakeInfo parse now si a = Some a' \<Longrightarrow> api_step parse print a a'"
| remove: "heapIdx b = -1 \<Longrightarrow> RemoveCachedBlock parse (Some b) a = Some a' \<Longrightarrow> api_step parse print a a'"
| remove_nil: "RemoveCachedBlock parse None a = Some a' \<Longrightarrow> api_step parse print a a'"
| remove_height: "RemoveCachedBlockByHeight parse t h a = Some a' \<Longrightarrow> api_step parse print a a'"
| by_height: "api_step parse print a (fst (GetCachedBlockByHeight t h a))"
| by_hash_str: "api_step parse print a (fst (GetCachedBlockByHashStr parse t hs a))"
| by_hash: "api_step parse print a (fst (GetCachedBlockByHash parse print t hash a))"
| block_size: "api_step parse print a (fst (GetBlockSize t h a))"
| summary: "api_step parse print a (fst (GetBlockSummary t h a))"
| stake: "api_step parse print a (fst (GetStakeInfo t h a))"
| stake_hash: "api_step parse print a (fst (GetStakeInfoByHash parse t hs a))"
| summary_hash: "api_step parse print a (fst (GetBlockSummaryByHash parse t hs a))"
| set_less: "api_step parse print a (SetLessFn f a)"
| enable: "api_step parse print a (Enable a)"
| disable: "api_step parse print a (Disable a)"
| watcher: "doesNeedReheap t (expireQueue a) \<Longrightarrow> api_step parse print a (a\<lparr>expireQueue := Reheap (expireQueue a)\<rparr>)"

inductive api_reach :: "(string \<Rightarrow> Hash option) \<Rightarrow> (Hash \<Rightarrow> string) \<Rightarrow> nat \<Rightarrow> APICache \<Rightarrow> bool"
  for parse print c where
  new: "api_reach parse print c (NewAPICache c)"
| step: "api_reach parse print c a \<Longrightarrow> api_step parse print a a' \<Longrightarrow> api_reach parse print c a'"

section \<open>The invariant\<close>

definition queue_view :: "(string \<Rightarrow> Hash option) \<Rightarrow> CachedBlock multiset \<Rightarrow> (Hash option \<times> u32) multiset" where
  "queue_view parse bs = image_mset (\<lambda>b. (parse (cbHash b), cbHeight b)) bs"

definition cache_view :: "(Hash, CachedBlock) gomap \<Rightarrow> (Hash option \<times> u32) multiset" where
  "cache_view m = image_mset (\<lambda>(k, b). (Some k, cbHeight b)) (mset m)"

definition block_ok :: "(string \<Rightarrow> Hash option) \<Rightarrow> Hash \<Rightarrow> CachedBlock \<Rightarrow> bool" where
  "block_ok parse k b \<longleftrightarrow> parse (cbHash b) = Some k \<and> heapIdx b = -1"

definition entries_ok ::
  "(string \<Rightarrow> Hash option) \<Rightarrow> CachedBlock multiset \<Rightarrow> (Hash, CachedBlock) gomap \<Rightarrow> (int, Hash) gomap \<Rightarrow> bool" where
  "entries_ok parse bs m mc \<longleftrightarrow>
     wf_map m \<and> queue_view parse bs = cache_view m \<and>
     (\<forall>k b. mget m k = Some b \<longrightarrow> block_ok parse k b) \<and>
     (\<forall>h k. mget mc h = Some k \<longrightarrow> (\<exists>b. mget m k = Some b \<and> uint (cbHeight b) = h)) \<and>
     (\<forall>b \<in># bs. accesses b = 1)"

definition synced :: "(string \<Rightarrow> Hash option) \<Rightarrow> nat \<Rightarrow> APICache \<Rightarrow> bool" where
  "synced parse c a \<longleftrightarrow>
     pq_shape (expireQueue a) \<and> pqCapacity (expireQueue a) = c \<and> capacity a = c \<and>
     entries_ok parse (blocks (expireQueue a)) (blockCache a) (MainchainBlocks a)"

lemma entries_put:
  assumes e: "entries_ok parse bs m mc" and k: "mget m k = None"
    and b: "parse (cbHash b) = Some k" "accesses b = 1"
    and b': "cbHash b' = cbHash b" "cbHeight b' = cbHeight b" "heapIdx b' = -1"
  shows "entries_ok parse (add_mset b bs) (mput k b' m) (mput (uint (cbHeight b)) k mc)"
proof -
  have wf: "wf_map m" using e by (simp add: entries_ok_def)
  have "cache_view (mput k b' m) = add_mset (Some k, cbHeight b) (cache_view m)"
    using mset_mput_new [OF wf k] b'(2) by (simp add: cache_view_def)
  then have "queue_view parse (add_mset b bs) = cache_view (mput k b' m)"
    using e b(1) by (simp add: entries_ok_def queue_view_def)
  moreover have "\<exists>b''. (if k' = k then Some b' else mget m k') = Some b'' \<and> uint (cbHeight b'') = h"
    if "(if h = uint (cbHeight b) then Some k else mget mc h) = Some k'" for h k'
    using e k b'(2) that unfolding entries_ok_def by (force split: if_splits)
  ultimately show ?thesis using e wf b b' by (simp add: entries_ok_def block_ok_def)
qed

lemma entries_del:
  assumes e: "entries_ok parse bs m mc" and r: "r \<in># bs"
  obtains k where "parse (cbHash r) = Some k" "mget m k \<noteq> None"
    "entries_ok parse (bs - {#r#}) (mdel k m) (mdel (uint (cbHeight r)) mc)"
proof -
  have wf: "wf_map m" and v: "queue_view parse bs = cache_view m" using e by (simp_all add: entries_ok_def)
  have "(parse (cbHash r), cbHeight r) \<in># cache_view m"
    unfolding v [symmetric] using r by (auto simp: queue_view_def)
  then obtain k b where kb: "(k, b) \<in> set m" "parse (cbHash r) = Some k" "cbHeight b = cbHeight r"
    by (auto simp: cache_view_def)
  have b: "mget m k = Some b" using in_set_mget [OF wf kb(1)] .
  have "cache_view m = add_mset (Some k, cbHeight r) (cache_view (mdel k m))"
    using mset_mdel [OF wf b] kb(3) by (simp add: cache_view_def)
  moreover have "queue_view parse bs = add_mset (Some k, cbHeight r) (queue_view parse (bs - {#r#}))"
    unfolding queue_view_def using arg_cong [OF insert_DiffM [OF r], of "image_mset (\<lambda>b. (parse (cbHash b), cbHeight b))"]
      kb(2) by simp
  ultimately have "queue_view parse (bs - {#r#}) = cache_view (mdel k m)" using v by simp
  moreover have "\<exists>b'. mget (mdel k m) k' = Some b' \<and> uint (cbHeight b') = h"
    if h: "mget (mdel (uint (cbHeight r)) mc) h = Some k'" for h k'
  proof -
    have n: "h \<noteq> uint (cbHeight r)" and mc: "mget mc h = Some k'" using h by (auto split: if_splits)
    obtain b' where b': "mget m k' = Some b'" "uint (cbHeight b') = h" using e mc unfolding entries_ok_def by blast
    then have "k' \<noteq> k" using b kb(3) n by auto
    then show ?thesis using b' by simp
  qed
  moreover have "wf_map (mdel k m)" "\<forall>k' b'. mget (mdel k m) k' = Some b' \<longrightarrow> block_ok parse k' b'"
    using e wf by (simp_all add: entries_ok_def)
  moreover have "\<forall>b \<in># bs - {#r#}. accesses b = 1" using e unfolding entries_ok_def by (blast dest: in_diffD)
  ultimately have "entries_ok parse (bs - {#r#}) (mdel k m) (mdel (uint (cbHeight r)) mc)"
    unfolding entries_ok_def by blast
  then show thesis using that kb(2) b by simp
qed

lemma synced_new: "synced parse c (NewAPICache c)"
  by (simp add: synced_def entries_ok_def NewAPICache_def NewBlockPriorityQueue_def pq_shape_def pos_ok_def queue_view_def
      cache_view_def heap_elems_def)

text \<open>Steps that change the blocks of the cache only in what the invariant does not look at.\<close>

lemma synced_update:
  assumes s: "synced parse c a" and b: "mget (blockCache a) k = Some b"
    and b': "cbHeight b' = cbHeight b" "cbHash b' = cbHash b" "heapIdx b' = heapIdx b"
  shows "synced parse c (a\<lparr>blockCache := mput k b' (blockCache a)\<rparr>)"
proof -
  have wf: "wf_map (blockCache a)" using s by (simp add: synced_def entries_ok_def)
  have "cache_view (mput k b' (blockCache a)) = cache_view (blockCache a)"
    using mset_mput [OF wf, of k b'] mset_mdel [OF wf b] b'(1) by (simp add: cache_view_def)
  moreover have "block_ok parse k b'" using s b b' by (simp add: synced_def entries_ok_def block_ok_def)
  moreover have "\<exists>b''. (if k' = k then Some b' else mget (blockCache a) k') = Some b'' \<and> uint (cbHeight b'') = h"
    if "mget (MainchainBlocks a) h = Some k'" for h k'
    using s that b b'(1) unfolding synced_def entries_ok_def by (cases "k' = k") force+
  ultimately show ?thesis using s wf by (simp add: synced_def entries_ok_def)
qed

lemma synced_same:
  assumes "synced parse c a"
    "blockCache a' = blockCache a" "MainchainBlocks a' = MainchainBlocks a" "capacity a' = capacity a"
    "bh (expireQueue a') = bh (expireQueue a)" "pqCapacity (expireQueue a') = pqCapacity (expireQueue a)"
  shows "synced parse c a'"
  using assms by (simp add: synced_def pq_shape_def)

lemma synced_lookup:
  assumes "synced parse c a"
  shows "synced parse c (fst (getCachedBlockByHash t k a))"
proof (cases "mget (blockCache a) k")
  case None
  then show ?thesis
    by (intro synced_same [OF assms]) (simp_all add: getCachedBlockByHash_def)
next
  case (Some b)
  have "synced parse c (a\<lparr>blockCache := mput k (Access t b) (blockCache a)\<rparr>)"
    by (rule synced_update [OF assms Some]) (simp_all add: Access_def)
  then show ?thesis
    by (rule synced_same) (simp_all add: getCachedBlockByHash_def Some Let_def setAccessTime_def setNeedsReheap_def)
qed

lemma synced_unlist:
  assumes "synced parse c a" "\<And>h' k. mget m h' = Some k \<Longrightarrow> mget (MainchainBlocks a) h' = Some k"
  shows "synced parse c (a\<lparr>MainchainBlocks := m\<rparr>)"
  using assms by (simp add: synced_def entries_ok_def)

lemma synced_remove:
  assumes "synced parse c a" "heapIdx b = -1" "removeCachedBlock parse (Some b) a = Some a'"
  shows "synced parse c a'"
proof -
  have a': "a' = a\<lparr>MainchainBlocks := mdel (uint (cbHeight b)) (MainchainBlocks a)\<rparr>"
    using assms(2,3) by (auto simp: removeCachedBlock_def RemoveBlock_def Let_def split: if_splits)
  show ?thesis unfolding a' by (rule synced_unlist [OF assms(1)]) (simp split: if_splits)
qed

lemma synced_reheap:
  assumes "synced parse c a"
  shows "synced parse c (a\<lparr>expireQueue := Reheap (expireQueue a)\<rparr>)"
proof -
  let ?q = "expireQueue a"
  have "bh (Reheap ?q) = hinit (lessFn ?q) setHeapIdx (bh ?q)" "pqCapacity (Reheap ?q) = pqCapacity ?q"
    by (simp_all add: Reheap_def heap_Init_def)
  then show ?thesis using assms bhs.hinit_keeps [of "lessFn ?q" "bh ?q"] by (simp add: synced_def pq_shape_def)
qed

section \<open>Storing a block\<close>

lemma insert_block_result:
  assumes s: "synced parse c a" and b: "newCachedBlock summary stakeInfo = Some b"
    and k: "parse (cbHash b) = Some k" "mget (blockCache a) k = None"
  obtains a' where "insert_block parse now k (cbHeight b) summary stakeInfo a = Some a'" "synced parse c a'"
proof -
  let ?q = "expireQueue a" and ?now = "\<lambda>i. now (Suc i)"
  note f = newCachedBlock_fields [OF b]
  have shape: "pq_shape ?q" and e: "entries_ok parse (blocks ?q) (blockCache a) (MainchainBlocks a)"
    using s by (simp_all add: synced_def)
  have new: "parse (cbHash (at0 (Access t b))) = Some k" "accesses (at0 (Access t b)) = 1"
    "cbHash (Access u b) = cbHash (at0 (Access t b))" "cbHeight (Access u b) = cbHeight (at0 (Access t b))"
    "heapIdx (Access u b) = -1" "cbHeight (at0 (Access t b)) = cbHeight b" for t u
    using k f by (simp_all add: at0_eq Access_def)
  show thesis
    using b shape
  proof (cases rule: Insert_cases [where parse = parse and now = ?now])
    case (room q')
    have "entries_ok parse (blocks q') (mput k (Access (now 0) b) (blockCache a))
        (mput (uint (cbHeight b)) k (MainchainBlocks a))"
      using entries_put [OF e k(2) new(1-5)] room(3) new(6) by simp
    then show thesis
      using that b s room(2,4,5) by (simp add: insert_block_def synced_def)
  next
    case (replaced q')
    obtain k0 where k0: "parse (cbHash (bh ?q ! 0)) = Some k0"
      "entries_ok parse (blocks ?q - {#at0 (bh ?q ! 0)#}) (mdel k0 (blockCache a))
        (mdel (uint (cbHeight (bh ?q ! 0))) (MainchainBlocks a))"
      using entries_del [OF e root_in_blocks [OF replaced(2)]] by (auto simp: at0_eq)
    have "mget (mdel k0 (blockCache a)) k = None" using k(2) by simp
    from entries_put [OF k0(2) this new(1-5)] have
      "entries_ok parse (blocks q') (mput k (Access (now 0) b) (mdel k0 (blockCache a)))
        (mput (uint (cbHeight b)) k (mdel (uint (cbHeight (bh ?q ! 0))) (MainchainBlocks a)))"
      using replaced(5) new(6) by simp
    then show thesis
      using that b s k0(1) replaced(4,6,7) by (simp add: insert_block_def synced_def)
  next
    case rejected
    then show thesis using that b s by (simp add: insert_block_def)
  qed
qed

lemma newCachedBlock_summary:
  obtains b where "newCachedBlock (Some s) None = Some b" "cbHash b = sumHash s" "cbHeight b = sumHeight s"
  by (simp add: newCachedBlock_def checkBlockHeightHash_def)

lemma newCachedBlock_stake:
  obtains b where "newCachedBlock None (Some si) = Some b" "cbHash b = siHash si" "cbHeight b = siFeeHeight si"
  by (simp add: newCachedBlock_def checkBlockHeightHash_def)

lemma StoreBlockSummary_result:
  assumes s: "synced parse c a" and k: "parse (sumHash s) = Some k"
  obtains a' where "StoreBlockSummary parse now s a = Some a'" "synced parse c a'"
proof (cases "IsEnabled a")
  case False
  then show thesis using that s by (simp add: StoreBlockSummary_def)
next
  case en: True
  show thesis
  proof (cases "mget (blockCache a) k")
    case None
    obtain b where b: "newCachedBlock (Some s) None = Some b" "cbHash b = sumHash s" "cbHeight b = sumHeight s"
      by (rule newCachedBlock_summary)
    then show thesis
      using insert_block_result [OF s b(1) _ None, of now] k en None that
      by (auto simp: StoreBlockSummary_def)
  next
    case (Some b)
    have "synced parse c (a\<lparr>blockCache := mput k (b\<lparr>cbSummary := Some s\<rparr>) (blockCache a)\<rparr>)"
      by (rule synced_update [OF s Some]) simp_all
    then show thesis
      using that s en k Some by (cases "cbSummary b = None") (auto simp: StoreBlockSummary_def)
  qed
qed

lemma StoreStakeInfo_result:
  assumes s: "synced parse c a" and k: "parse (siHash si) = Some k"
  obtains a' where "StoreStakeInfo parse now si a = Some a'" "synced parse c a'"
proof (cases "IsEnabled a")
  case False
  then show thesis using that s by (simp add: StoreStakeInfo_def)
next
  case en: True
  show thesis
  proof (cases "mget (blockCache a) k")
    case None
    obtain b where b: "newCachedBlock None (Some si) = Some b" "cbHash b = siHash si" "cbHeight b = siFeeHeight si"
      by (rule newCachedBlock_stake)
    then show thesis
      using insert_block_result [OF s b(1) _ None, of now] k en None that
      by (auto simp: StoreStakeInfo_def)
  next
    case (Some b)
    have "synced parse c (a\<lparr>blockCache := mput k (b\<lparr>cbStakeInfo := Some si\<rparr>) (blockCache a)\<rparr>)"
      by (rule synced_update [OF s Some]) simp_all
    then show thesis
      using that s en k Some by (cases "cbStakeInfo b = None") (auto simp: StoreStakeInfo_def)
  qed
qed

section \<open>Every sequence of calls\<close>

lemma lookup_result:
  assumes "synced parse c a" "getCachedBlockByHash t k a = (a', Some b)"
  shows "synced parse c a' \<and> heapIdx b = -1 \<and> parse (cbHash b) = Some k"
proof -
  have "synced parse c a'" using synced_lookup [OF assms(1), of t k] assms(2) by simp
  moreover have "mget (blockCache a') k = Some b"
    using assms(2) by (auto simp: getCachedBlockByHash_def Let_def split: option.splits)
  ultimately show ?thesis by (simp add: synced_def entries_ok_def block_ok_def)
qed

lemma synced_by_height: "synced parse c a \<Longrightarrow> synced parse c (fst (GetCachedBlockByHeight t h a))"
  by (auto simp: GetCachedBlockByHeight_def synced_lookup split: option.split)

lemma synced_by_hash_str: "synced parse c a \<Longrightarrow> synced parse c (fst (GetCachedBlockByHashStr parse t hs a))"
  by (auto simp: GetCachedBlockByHashStr_def synced_lookup split: option.split)

lemma synced_by_hash: "synced parse c a \<Longrightarrow> synced parse c (fst (GetCachedBlockByHash parse print t k a))"
  by (simp add: GetCachedBlockByHash_def synced_lookup)

lemma lookup_states:
  "fst (GetBlockSize t h a) = (if IsEnabled a then fst (GetCachedBlockByHeight t h a) else a)"
  "fst (GetBlockSummary t h a) = (if IsEnabled a then fst (GetCachedBlockByHeight t h a) else a)"
  "fst (GetStakeInfo t h a) = (if IsEnabled a then fst (GetCachedBlockByHeight t h a) else a)"
  "fst (GetStakeInfoByHash parse t hs a) = (if IsEnabled a then fst (GetCachedBlockByHashStr parse t hs a) else a)"
  "fst (GetBlockSummaryByHash parse t hs a) = (if IsEnabled a then fst (GetCachedBlockByHashStr parse t hs a) else a)"
  by (simp_all add: GetBlockSize_def GetBlockSummary_def GetStakeInfo_def GetStakeInfoByHash_def
      GetBlockSummaryByHash_def split_beta)

lemma synced_remove_height:
  assumes s: "synced parse c a" and r: "RemoveCachedBlockByHeight parse t h a = Some a'"
  shows "synced parse c a'"
proof (cases "mget (MainchainBlocks a) h")
  case None
  then show ?thesis using s r by (simp add: RemoveCachedBlockByHeight_def)
next
  case (Some k)
  obtain a1 cb where g: "getCachedBlockByHash t k a = (a1, cb)" by (cases "getCachedBlockByHash t k a")
  have rem: "removeCachedBlock parse cb a1 = Some a'" using r Some g by (simp add: RemoveCachedBlockByHeight_def)
  show ?thesis
  proof (cases cb)
    case None
    then show ?thesis using rem synced_lookup [OF s, of t k] g by (simp add: removeCachedBlock_def)
  next
    case (Some b)
    then show ?thesis using rem lookup_result [OF s, of t k a1 b] g synced_remove [of parse c a1 b a'] by simp
  qed
qed

lemma parse_of_store:
  "IsEnabled a \<Longrightarrow> StoreBlockSummary parse now s a = Some a' \<Longrightarrow> \<exists>k. parse (sumHash s) = Some k"
  "IsEnabled a \<Longrightarrow> StoreStakeInfo parse now si a = Some a' \<Longrightarrow> \<exists>k. parse (siHash si) = Some k"
  by (auto simp: StoreBlockSummary_def StoreStakeInfo_def split: option.splits)

lemma synced_store:
  assumes "synced parse c a"
  shows "StoreBlockSummary parse now s a = Some a' \<Longrightarrow> synced parse c a'"
    "StoreStakeInfo parse now si a = Some a' \<Longrightarrow> synced parse c a'"
proof -
  assume r: "StoreBlockSummary parse now s a = Some a'"
  show "synced parse c a'"
  proof (cases "IsEnabled a")
    case True
    then show ?thesis
      using parse_of_store(1) [OF True r] StoreBlockSummary_result [OF assms, where now = now and s = s] r
      by (metis option.inject)
  next
    case False
    then show ?thesis using r assms by (simp add: StoreBlockSummary_def)
  qed
next
  assume r: "StoreStakeInfo parse now si a = Some a'"
  show "synced parse c a'"
  proof (cases "IsEnabled a")
    case True
    then show ?thesis
      using parse_of_store(2) [OF True r] StoreStakeInfo_result [OF assms, where now = now and si = si] r
      by (metis option.inject)
  next
    case False
    then show ?thesis using r assms by (simp add: StoreStakeInfo_def)
  qed
qed

lemma synced_remove_any:
  assumes "synced parse c a" "case cb of None \<Rightarrow> True | Some b \<Rightarrow> heapIdx b = -1" "RemoveCachedBlock parse cb a = Some a'"
  shows "synced parse c a'"
proof (cases cb)
  case None
  then show ?thesis using assms by (simp add: RemoveCachedBlock_def removeCachedBlock_def)
next
  case (Some b)
  then show ?thesis using assms synced_remove [of parse c a b a'] by (simp add: RemoveCachedBlock_def)
qed

lemma synced_settings:
  assumes "synced parse c a"
  shows "synced parse c (SetLessFn f a)" "synced parse c (Enable a)" "synced parse c (Disable a)"
  by (rule synced_same [OF assms]; simp add: SetLessFn_def pq_SetLessFn_def Enable_def Disable_def)+

lemma synced_queries:
  assumes "synced parse c a"
  shows "synced parse c (fst (GetBlockSize t h a))" "synced parse c (fst (GetBlockSummary t h a))"
    "synced parse c (fst (GetStakeInfo t h a))" "synced parse c (fst (GetStakeInfoByHash parse t hs a))"
    "synced parse c (fst (GetBlockSummaryByHash parse t hs a))"
  unfolding lookup_states using assms synced_by_height [OF assms] synced_by_hash_str [OF assms] by simp_all

lemma synced_step:
  assumes "api_step parse print a a'" "synced parse c a"
  shows "synced parse c a'"
  using assms(1)
proof cases
  case (store_summary now s)
  then show ?thesis using synced_store(1) [OF assms(2)] by blast
next
  case (store_stake now si)
  then show ?thesis using synced_store(2) [OF assms(2)] by blast
next
  case (remove b)
  then show ?thesis using synced_remove_any [OF assms(2), of "Some b"] by simp
next
  case remove_nil
  then show ?thesis using synced_remove_any [OF assms(2), of None] by simp
next
  case (remove_height t h)
  then show ?thesis using synced_remove_height [OF assms(2)] by blast
next
  case (by_height t h)
  then show ?thesis using synced_by_height [OF assms(2)] by blast
next
  case (by_hash_str t hs)
  then show ?thesis using synced_by_hash_str [OF assms(2)] by blast
next
  case (by_hash t hash)
  then show ?thesis using synced_by_hash [OF assms(2)] by blast
next
  case (watcher t)
  then show ?thesis using synced_reheap [OF assms(2)] by blast
qed (use synced_settings [OF assms(2)] synced_queries [OF assms(2)] in blast)+

lemma synced_reach: "api_reach parse print c a \<Longrightarrow> synced parse c a"
  by (induction rule: api_reach.induct) (simp_all add: synced_new synced_step)

lemma synced_hashes:
  assumes "synced parse c a"
  shows "mset (map (\<lambda>b. parse (cbHash b)) (bh (expireQueue a))) = mset (map Some (mkeys (blockCache a)))"
proof -
  have v: "queue_view parse (blocks (expireQueue a)) = cache_view (blockCache a)"
    using assms by (simp add: synced_def entries_ok_def)
  have q: "image_mset fst (queue_view parse (blocks (expireQueue a)))
      = mset (map (\<lambda>b. parse (cbHash b)) (bh (expireQueue a)))"
    by (simp add: queue_view_def heap_elems_def image_mset.compositionality comp_def at0_eq flip: mset_map)
  have "image_mset fst (cache_view (blockCache a)) = mset (map Some (mkeys (blockCache a)))"
    by (simp add: cache_view_def mkeys_def image_mset.compositionality comp_def split_beta flip: mset_map)
  then show ?thesis using v q by simp
qed

lemma synced_length: "synced parse c a \<Longrightarrow> length (bh (expireQueue a)) = length (blockCache a)"
  using mset_eq_length [OF synced_hashes] by fastforce

text \<open>
  C14. After any sequence of calls on a new cache of a capacity, with any comparators set on the way,
  the queue and the cache hold the same hashes, each once, and no more than the capacity of them; and
  every height that is listed leads to a block of that height that is in the cache.
\<close>

theorem queue_and_cache_agree:
  assumes "api_reach parse print c a"
  shows "mset (map (\<lambda>b. parse (cbHash b)) (bh (expireQueue a))) = mset (map Some (mkeys (blockCache a))) \<and>
    distinct (mkeys (blockCache a)) \<and> UtilizationBlocks a \<le> c \<and>
    (\<forall>h k. blockHash h a = Some k \<longrightarrow> (\<exists>b. mget (blockCache a) k = Some b \<and> uint (cbHeight b) = h))"
proof -
  have s: "synced parse c a" using assms by (rule synced_reach)
  then have "UtilizationBlocks a \<le> c" "distinct (mkeys (blockCache a))"
    using synced_length [OF s]
    by (simp_all add: synced_def entries_ok_def pq_shape_def UtilizationBlocks_def wf_map_def mkeys_def)
  then show ?thesis using synced_hashes [OF s] s by (simp add: synced_def entries_ok_def blockHash_def)
qed

text \<open>A cache of one block that has stored it, and one call later.\<close>

definition one_block_cache :: "less_fn \<Rightarrow> APICache" where
  "one_block_cache f =
     (case StoreBlockSummary parse_any (\<lambda>_. 3) (summary_at 5 ''aa'') (SetLessFn f (Enable (NewAPICache 1))) of
        None \<Rightarrow> NewAPICache 1
      | Some a \<Rightarrow> a)"

definition print_any :: "Hash \<Rightarrow> string" where
  "print_any h = []"

lemma one_block_cache_reach: "api_reach parse_any print_any 1 (one_block_cache f)"
proof -
  let ?a = "SetLessFn f (Enable (NewAPICache 1))"
  have a: "api_reach parse_any print_any 1 ?a"
    by (intro api_reach.step [OF _ api_step.set_less] api_reach.step [OF _ api_step.enable] api_reach.new)
  then show ?thesis
    using api_reach.step [OF a api_step.store_summary] api_reach.new [of parse_any print_any 1]
    by (auto simp: one_block_cache_def split: option.split)
qed

lemma one_block_cache_eq:
  "one_block_cache f =
     \<lparr>isEnabled = True, capacity = 1,
      blockCache = [([97, 97], (Access 3 (block_at 5 ''aa''))\<lparr>heapIdx := -1\<rparr>)], MainchainBlocks = [(5, [97, 97])],
      expireQueue =
        \<lparr>bh = [Access 3 (block_at 5 ''aa'')], pqCapacity = 1, needsReheap = False, minHeight = 5,
         maxHeight = 5, lessFn = f, lastAccess = 3\<rparr>,
      hits = 0, misses = 0\<rparr>"
  by (simp add: one_block_cache_def StoreBlockSummary_def SetLessFn_def Enable_def NewAPICache_def IsEnabled_def
      parse_any_def summary_at_def mget_def mput_def insert_block_def newCachedBlock_def checkBlockHeightHash_def
      Insert_def pq_SetLessFn_def NewBlockPriorityQueue_def pq_Len_def heap_Push_def pq_Push_def Access_def
      updateMinMax_def RescanMinMaxForAdd_def hpush_def up.simps block_at_def MaxUint32_def Let_def)

theorem queue_and_cache_agree_witness:
  "mset (map (\<lambda>b. parse_any (cbHash b)) (bh (expireQueue (one_block_cache LessByHeight)))) = {#Some [97, 97]#} \<and>
   UtilizationBlocks (one_block_cache LessByHeight) \<le> 1"
  using queue_and_cache_agree [OF one_block_cache_reach [of LessByHeight]]
  by (simp add: one_block_cache_eq mkeys_def)

text \<open>
  With room, a block summary that is stored is found by its height and by its hash, with its
  size, and the height leads to its hash; storing cannot panic when the hash of the summary parses.
\<close>

theorem stored_summary_is_found:
  assumes a: "api_reach parse print c a" and en: "IsEnabled a" and room: "UtilizationBlocks a < c"
    and k: "parse (sumHash s) = Some k" "mget (blockCache a) k = None"
  shows "\<exists>a'. StoreBlockSummary parse now s a = Some a' \<and>
    snd (GetBlockSummary t (uint (sumHeight s)) a') = Some s \<and>
    snd (GetBlockSummaryByHash parse t (sumHash s) a') = Some s \<and>
    snd (GetBlockSize t (uint (sumHeight s)) a') = sint (sumSize s) \<and>
    GetBlockHash prt (uint (sumHeight s)) a' = prt k"
proof -
  have s: "synced parse c a" using a by (rule synced_reach)
  then have shape: "pq_shape (expireQueue a)" and r: "length (bh (expireQueue a)) < pqCapacity (expireQueue a)"
    using room synced_length [OF s] by (simp_all add: synced_def UtilizationBlocks_def)
  obtain b where b: "newCachedBlock (Some s) None = Some b" "cbHash b = sumHash s" "cbHeight b = sumHeight s"
    by (rule newCachedBlock_summary)
  have sum: "cbSummary b = Some s" using newCachedBlock_fields [OF b(1)] by simp
  obtain q' where q': "Insert parse (\<lambda>i. now (Suc i)) (Some s) None (expireQueue a) = Some (q', True, None, -1)"
    using Insert_room [OF b(1) shape r, of parse "\<lambda>i. now (Suc i)"] by metis
  let ?a' = "a\<lparr>expireQueue := q', blockCache := mput k (Access (now 0) b) (blockCache a),
    MainchainBlocks := mput (uint (sumHeight s)) k (MainchainBlocks a)\<rparr>"
  have "StoreBlockSummary parse now s a = Some ?a'"
    using en k b(1) q' by (simp add: StoreBlockSummary_def insert_block_def)
  moreover have "snd (getCachedBlockByHash t k ?a') = Some (Access t (Access (now 0) b))"
    by (simp add: getCachedBlockByHash_def Let_def)
  moreover have "cbSummary (Access t (Access (now 0) b)) = Some s" using sum by (simp add: Access_def)
  ultimately show ?thesis
    using en k(1) by (intro exI [of _ ?a'])
      (simp add: GetBlockSummary_def GetBlockSummaryByHash_def GetBlockSize_def GetBlockHash_def
        GetCachedBlockByHeight_def GetCachedBlockByHashStr_def blockHash_def IsEnabled_def split_beta)
qed

theorem stored_summary_is_found_witness:
  "\<exists>a'. StoreBlockSummary parse_any (\<lambda>_. 3) (summary_at 5 ''aa'') (Enable (NewAPICache 1)) = Some a' \<and>
     snd (GetBlockSummary 4 5 a') = Some (summary_at 5 ''aa'')"
proof -
  have r: "api_reach parse_any print_any 1 (Enable (NewAPICache 1))"
    by (intro api_reach.step [OF _ api_step.enable] api_reach.new)
  have "IsEnabled (Enable (NewAPICache 1))" "UtilizationBlocks (Enable (NewAPICache 1)) < 1"
    "parse_any (sumHash (summary_at 5 ''aa'')) = Some [97, 97]"
    "mget (blockCache (Enable (NewAPICache 1))) [97, 97] = None" "uint (sumHeight (summary_at 5 ''aa'')) = 5"
    by (simp_all add: Enable_def NewAPICache_def IsEnabled_def UtilizationBlocks_def parse_any_def summary_at_def)
  from stored_summary_is_found [OF r this(1-4), of "\<lambda>_. 3" 4, unfolded this(5)] show ?thesis by blast
qed

text \<open>
  Lookups count accesses only in the blocks of the cache, never in those of the queue: every
  block in the queue has been accessed once, when it was made. So under \<open>LessByAccessCount\<close> a full
  cache never takes another block, however often its blocks have been looked up or not.
\<close>

theorem access_counts_never_evict:
  assumes a: "api_reach parse print c a" and en: "IsEnabled a" and full: "UtilizationBlocks a = c"
    and f: "lessFn (expireQueue a) = LessByAccessCount"
    and k: "parse (sumHash s) = Some k" "mget (blockCache a) k = None"
  shows "(\<forall>b \<in> set (bh (expireQueue a)). accesses b = 1) \<and> StoreBlockSummary parse now s a = Some a"
proof -
  have s: "synced parse c a" using a by (rule synced_reach)
  then have shape: "pq_shape (expireQueue a)" and full': "length (bh (expireQueue a)) = pqCapacity (expireQueue a)"
    and "\<forall>b \<in># blocks (expireQueue a). accesses b = 1"
    using full synced_length [OF s] by (simp_all add: synced_def entries_ok_def UtilizationBlocks_def)
  then have one: "\<forall>b \<in> set (bh (expireQueue a)). accesses b = 1" by (simp add: heap_elems_def at0_eq)
  obtain b where b: "newCachedBlock (Some s) None = Some b" by (rule newCachedBlock_summary)
  have "pqCapacity (expireQueue a) = 0 \<or> accesses (bh (expireQueue a) ! 0) = 1"
    using one full' by (cases "bh (expireQueue a)") auto
  then have "pqCapacity (expireQueue a) = 0 \<or>
      \<not> lessFn (expireQueue a) (bh (expireQueue a) ! 0) ((Access (now (Suc 0)) b)\<lparr>heapIdx := 0\<rparr>)"
    using full' newCachedBlock_fields [OF b] by (auto simp: f LessByAccessCount_def Access_def)
  then have "Insert parse (\<lambda>i. now (Suc i)) (Some s) None (expireQueue a) = Some (expireQueue a, False, None, -1)"
    by (intro Insert_rejected [OF b full']) simp
  then show ?thesis
    using one en k b by (simp add: StoreBlockSummary_def insert_block_def)
qed

theorem access_counts_never_evict_witness:
  "StoreBlockSummary parse_any (\<lambda>_. 9) (summary_at 7 ''bb'') (one_block_cache LessByAccessCount)
     = Some (one_block_cache LessByAccessCount)"
  using access_counts_never_evict [OF one_block_cache_reach, of LessByAccessCount "summary_at 7 ''bb''" "[98, 98]"]
  by (simp add: one_block_cache_eq IsEnabled_def UtilizationBlocks_def parse_any_def summary_at_def mget_def)

text \<open>
  Removing a cached block by its height only unlists the height: the call does not panic, but the
  block stays in the cache, with one more access, and the queue keeps its blocks.
\<close>

theorem RemoveCachedBlockByHeight_keeps_block:
  assumes a: "api_reach parse print c a" and h: "blockHash h a = Some k"
  shows "\<exists>b a'. mget (blockCache a) k = Some b \<and> RemoveCachedBlockByHeight parse t h a = Some a' \<and>
    blockHash h a' = None \<and> mget (blockCache a') k = Some (Access t b) \<and>
    UtilizationBlocks a' = UtilizationBlocks a \<and> bh (expireQueue a') = bh (expireQueue a)"
proof -
  have s: "synced parse c a" using a by (rule synced_reach)
  then obtain b where b: "mget (blockCache a) k = Some b" "uint (cbHeight b) = h" "parse (cbHash b) = Some k"
      "heapIdx b = -1" and wf: "wf_map (blockCache a)"
    using h by (fastforce simp: synced_def entries_ok_def blockHash_def block_ok_def)
  have "RemoveBlock (Access t b) q = q" for q using b(4) by (simp add: RemoveBlock_def Access_def)
  then have "RemoveCachedBlockByHeight parse t h a
      = Some (a\<lparr>blockCache := mput k (Access t b) (blockCache a), MainchainBlocks := mdel h (MainchainBlocks a),
          expireQueue := setAccessTime t (setNeedsReheap True (expireQueue a)), hits := Suc (hits a)\<rparr>)"
    using h b
    by (simp add: RemoveCachedBlockByHeight_def blockHash_def getCachedBlockByHash_def removeCachedBlock_def Let_def)
      (simp add: Access_def)
  then show ?thesis
    using b(1) wf by (simp add: blockHash_def UtilizationBlocks_def length_mput setAccessTime_def setNeedsReheap_def)
qed

theorem RemoveCachedBlockByHeight_keeps_block_witness:
  "\<exists>a'. RemoveCachedBlockByHeight parse_any 8 5 (one_block_cache LessByHeight) = Some a' \<and>
     mget (blockCache a') [97, 97] \<noteq> None"
  using RemoveCachedBlockByHeight_keeps_block [OF one_block_cache_reach, of 5 LessByHeight "[97, 97]" 8]
  by (auto simp: one_block_cache_eq blockHash_def mget_def)

end
