(* ===== verification/Chain.thy ===== *)
theory Chain
  imports Prelude
begin

text \<open>
  The types that the followers of the block chain exchange: block headers (of dcrd's \<open>wire\<close> package, with
  the fields that are read) and the description of a reorganisation (\<open>txhelpers.ReorgData\<close>).
\<close>

type_synonym i32 = "32 word"
type_synonym i64 = "64 word"

text \<open>\<open>hdrHash\<close> is the result of \<open>BlockHash\<close>, which the library computes from the header.\<close>

record BlockHeader =
  hdrHash :: Hash
  hdrPrev :: Hash
  hdrHeight :: u32

record ReorgData =
  ReorgAncestor :: Hash
  OldChainHead :: Hash
  OldChainHeight :: i32
  OldChain :: "Hash list"
  NewChainHead :: Hash
  NewChainHeight :: i32
  NewChain :: "Hash list"

end
