(* ===== verification/StakeDB.thy ===== *)
theory StakeDB
  imports TicketPool PoolInfoCache Chain
begin

text \<open>
  The stake database (\<open>stakedb/stakedb.go\<close>, with the block helpers of \<open>txhelpers/staketree.go\<close>): the best
  stake node, the database that holds it, the cache of live tickets with the value of the pool, and the
  ticket pool, moved together by connecting and disconnecting blocks.

  The stake node and its database belong to dcrd's \<open>stake\<close> and \<open>database\<close> packages, so they are types
  of their own and their operations are fields of \<open>stake_env\<close>; so are the predicates on transactions,
  the hash of a header and floating-point arithmetic. The node that is asked over RPC is a \<open>client\<close>,
  an argument of every call, since its answers change with time. \<open>Inl\<close> is an error with its message.
  The mutexes are left out; the goroutines that signal waiters are in the state until they run.
\<close>

section \<open>Data\<close>

text \<open>
  A transaction of the stake tree: its hash, the hashes of the previous outpoints of its inputs, the
  values of its outputs, and its bytes, which the predicates of the library read.
\<close>

record stx =
  stxHash :: Hash
  stxPrevs :: "Hash list"
  stxValues :: "i64 list"
  stxBytes :: "u8 list"

record Block =
  bHeader :: BlockHeader
  STransactions :: "stx list"

definition block_height :: "Block \<Rightarrow> int" where
  "block_height b = uint (hdrHeight (bHeader b))"

definition block_hash :: "Block \<Rightarrow> Hash" where
  "block_hash b = hdrHash (bHeader b)"

record client =
  GetBlockHash :: "int \<Rightarrow> string + Hash"
  GetBlock :: "Hash \<Rightarrow> string + Block"
  GetBlockHeader :: "Hash \<Rightarrow> string + BlockHeader"
  GetRawTransaction :: "Hash \<Rightarrow> string + stx"

text \<open>
  A nil node next to a nil error is \<open>Inr None\<close>. \<open>headerIV\<close> is \<open>BlockHeaderBytes\<close> followed by
  \<open>CalcHash256PRNGIV\<close>; \<open>chainState\<close> gives the bytes under the key of the chain state.
\<close>

record ('n, 'u, 'db, 'p) stake_env =
  IsSStx :: "stx \<Rightarrow> bool"
  IsSSGen :: "stx \<Rightarrow> bool"
  IsSSRtx :: "stx \<Rightarrow> bool"
  headerIV :: "Block \<Rightarrow> string + Hash"
  nodeHeight :: "'n \<Rightarrow> u32"
  Winners :: "'n \<Rightarrow> Hash list"
  LiveTickets :: "'n \<Rightarrow> Hash list"
  ExpiredByBlock :: "'n \<Rightarrow> Hash list"
  nodePoolSize :: "'n \<Rightarrow> int"
  UndoData :: "'n \<Rightarrow> 'u"
  ConnectNode :: "'n \<Rightarrow> Hash \<Rightarrow> Hash list \<Rightarrow> Hash list \<Rightarrow> Hash list \<Rightarrow> string + 'n option"
  DisconnectNode :: "'n \<Rightarrow> Hash \<Rightarrow> 'db \<Rightarrow> string + 'n option"
  chainState :: "'db \<Rightarrow> u8 list option"
  WriteConnectedBestNode :: "'n \<Rightarrow> Hash \<Rightarrow> 'db \<Rightarrow> string + 'db"
  WriteDisconnectedBestNode :: "'n \<Rightarrow> Hash \<Rightarrow> 'u \<Rightarrow> 'db \<Rightarrow> string + 'db"
  dbSet :: "'p db_write"
  TicketMaturity :: int
  toCoin :: "i64 \<Rightarrow> float64"
  divFloat :: "float64 \<Rightarrow> int \<Rightarrow> float64"
  printHash :: "Hash \<Rightarrow> string"

text \<open>
  A channel of capacity one is a number; \<open>chans\<close> has the value in its buffer, if there is one (nil is
  \<open>None\<close>). \<open>signals\<close> are the started calls of \<open>signalWaiters\<close> that have not run yet.
\<close>

record ('n, 'db, 'p) StakeDatabase =
  StakeDB :: 'db
  BestNode :: "'n option"
  blockCache :: "(int, Block) gomap"
  liveTicketCache :: "(Hash, i64) gomap"
  poolValue :: i64
  poolInfo :: PoolInfoCache
  PoolDB :: "'p TicketPool"
  heightWaiters :: "(int, nat list) gomap"
  chans :: "(nat, Hash option) gomap"
  signals :: "(int \<times> Hash) list"
  nextChan :: nat

datatype sdb_error =
    RPCError string
  | SerializeHeader string
  | StakeNodeError string
  | NilConnectedNode
  | NilDisconnectedNode
  | StakeDBError string
  | MissingChainState
  | CannotConnect int int
  | PoolDBError tp_error
  | HeightMismatch int int
  | NotLoaded string

section \<open>The stake transactions of a block\<close>

definition TicketsInBlock :: "(stx \<Rightarrow> bool) \<Rightarrow> Block \<Rightarrow> Hash list \<times> stx list" where
  "TicketsInBlock isSStx bl =
    (let ticketTxns = filter isSStx (STransactions bl) in (map stxHash ticketTxns, ticketTxns))"

text \<open>The hashes of the previous outpoint of input \<open>i\<close>; \<open>None\<close> when a transaction has no such input.\<close>

fun prev_hashes :: "(stx \<Rightarrow> bool) \<Rightarrow> int \<Rightarrow> stx list \<Rightarrow> Hash list option" where
  "prev_hashes keep i [] = Some []"
| "prev_hashes keep i (tx # txs) =
    (if keep tx
     then (case idx (stxPrevs tx) i of
         None \<Rightarrow> None
       | Some h \<Rightarrow> map_option ((#) h) (prev_hashes keep i txs))
     else prev_hashes keep i txs)"

definition TicketsSpentInBlock :: "(stx \<Rightarrow> bool) \<Rightarrow> Block \<Rightarrow> Hash list option" where
  "TicketsSpentInBlock isSSGen bl = prev_hashes isSSGen 1 (STransactions bl)"

definition RevokedTicketsInBlock :: "(stx \<Rightarrow> bool) \<Rightarrow> Block \<Rightarrow> Hash list option" where
  "RevokedTicketsInBlock isSSRtx bl = prev_hashes isSSRtx 0 (STransactions bl)"

definition VotesInBlock :: "(stx \<Rightarrow> bool) \<Rightarrow> Block \<Rightarrow> Hash list" where
  "VotesInBlock isSSGen bl = map stxHash (filter isSSGen (STransactions bl))"

text \<open>\<open>TxOut[0].Value\<close> of every ticket; \<open>None\<close> when one has no output.\<close>

fun ticket_values :: "stx list \<Rightarrow> i64 list option" where
  "ticket_values [] = Some []"
| "ticket_values (tx # txs) =
    (case idx (stxValues tx) 0 of
       None \<Rightarrow> None
     | Some v \<Rightarrow> map_option ((#) v) (ticket_values txs))"

section \<open>Reading the state\<close>

definition Height :: "('n, 'u, 'db, 'p) stake_env \<Rightarrow> ('n, 'db, 'p) StakeDatabase \<Rightarrow> u32" where
  "Height env db = (case BestNode db of None \<Rightarrow> 0 | Some n \<Rightarrow> nodeHeight env n)"

definition get32le :: "u8 list \<Rightarrow> u32" where
  "get32le bs = foldr (\<lambda>b acc. push_bit 8 acc OR ucast b) (take 4 bs) 0"

text \<open>\<open>dbState\<close> slices the bytes of the chain state, which panics (\<open>None\<close>) when there are too few.\<close>

definition dbState :: "('n, 'u, 'db, 'p) stake_env \<Rightarrow> 'db \<Rightarrow> (sdb_error + u32 \<times> Hash) option" where
  "dbState env sdb =
    (case chainState env sdb of
       None \<Rightarrow> Some (Inl MissingChainState)
     | Some v \<Rightarrow>
         if length v < HashSize + 4 then None
         else Some (Inr (get32le (subslice v HashSize (HashSize + 4)), take HashSize v)))"

definition getBlock :: "client \<Rightarrow> Hash \<Rightarrow> sdb_error + Block" where
  "getBlock cl h = map_sum RPCError id (GetBlock cl h)"

definition getHeader :: "client \<Rightarrow> Hash \<Rightarrow> sdb_error + BlockHeader" where
  "getHeader cl h = map_sum RPCError id (GetBlockHeader cl h)"

fun sum_bind :: "'e + 'a \<Rightarrow> ('a \<Rightarrow> 'e + 'b) \<Rightarrow> 'e + 'b" where
  "sum_bind (Inl e) f = Inl e"
| "sum_bind (Inr x) f = f x"

definition DBTipBlockHeader ::
    "('n, 'u, 'db, 'p) stake_env \<Rightarrow> client \<Rightarrow> 'db \<Rightarrow> (sdb_error + BlockHeader) option" where
  "DBTipBlockHeader env cl sdb =
    map_option (\<lambda>st. sum_bind st (\<lambda>(_, h). getHeader cl h)) (dbState env sdb)"

definition DBPrevBlockHeader ::
    "('n, 'u, 'db, 'p) stake_env \<Rightarrow> client \<Rightarrow> 'db \<Rightarrow> (sdb_error + BlockHeader) option" where
  "DBPrevBlockHeader env cl sdb =
    map_option (\<lambda>st. sum_bind st (\<lambda>(_, h). sum_bind (getHeader cl h)
      (\<lambda>parentHeader. getHeader cl (hdrPrev parentHeader)))) (dbState env sdb)"

definition DBTipBlock ::
    "('n, 'u, 'db, 'p) stake_env \<Rightarrow> client \<Rightarrow> 'db \<Rightarrow> (sdb_error + Block) option" where
  "DBTipBlock env cl sdb = map_option (\<lambda>st. sum_bind st (\<lambda>(_, h). getBlock cl h)) (dbState env sdb)"

definition dbPrevBlock ::
    "('n, 'u, 'db, 'p) stake_env \<Rightarrow> client \<Rightarrow> 'db \<Rightarrow> (sdb_error + Block) option" where
  "dbPrevBlock env cl sdb =
    map_option (\<lambda>st. sum_bind st (\<lambda>(_, h). sum_bind (getHeader cl h)
      (\<lambda>parentHeader. getBlock cl (hdrPrev parentHeader)))) (dbState env sdb)"

definition BlockCached :: "int \<Rightarrow> ('n, 'db, 'p) StakeDatabase \<Rightarrow> Block option" where
  "BlockCached ind db = mget (blockCache db) ind"

definition getBlockByHeight :: "client \<Rightarrow> int \<Rightarrow> sdb_error + Block" where
  "getBlockByHeight cl height =
    (case GetBlockHash cl height of Inl e \<Rightarrow> Inl (RPCError e) | Inr h \<Rightarrow> getBlock cl h)"

text \<open>The block of the cache or of the node, nil (\<open>None\<close>) on an error, and whether it was cached.\<close>

definition block :: "client \<Rightarrow> int \<Rightarrow> ('n, 'db, 'p) StakeDatabase \<Rightarrow> Block option \<times> bool" where
  "block cl ind db =
    (case BlockCached ind db of
       Some b \<Rightarrow> (Some b, True)
     | None \<Rightarrow> (case getBlockByHeight cl ind of Inl _ \<Rightarrow> (None, False) | Inr b \<Rightarrow> (Some b, False)))"

definition ForgetBlock :: "int \<Rightarrow> ('n, 'db, 'p) StakeDatabase \<Rightarrow> ('n, 'db, 'p) StakeDatabase" where
  "ForgetBlock ind db = db\<lparr>blockCache := mdel ind (blockCache db)\<rparr>"

text \<open>Go converts the 64-bit integers to the width of the field.\<close>

definition makePoolInfo ::
    "('n, 'u, 'db, 'p) stake_env \<Rightarrow> i64 \<Rightarrow> int \<Rightarrow> Hash list \<Rightarrow> u32 \<Rightarrow> TicketPoolInfo" where
  "makePoolInfo env value poolSize winningTickets height =
    (let poolCoin = toCoin env value
     in \<lparr>tpiHeight = height, tpiSize = of_int poolSize, tpiValue = poolCoin,
         tpiValAvg = (if poolSize > 0 then divFloat env poolCoin poolSize else 0),
         tpiWinners = map (printHash env) winningTickets\<rparr>)"

definition PoolInfoBest ::
    "('n, 'u, 'db, 'p) stake_env \<Rightarrow> ('n, 'db, 'p) StakeDatabase \<Rightarrow> TicketPoolInfo option" where
  "PoolInfoBest env db =
    (case BestNode db of
       None \<Rightarrow> None
     | Some n \<Rightarrow> Some (makePoolInfo env (poolValue db) (nodePoolSize env n) (Winners env n) (nodeHeight env n)))"

definition PoolInfo :: "Hash \<Rightarrow> ('n, 'db, 'p) StakeDatabase \<Rightarrow> TicketPoolInfo option" where
  "PoolInfo h db = pic_Get h (poolInfo db)"

definition PoolAtHeight ::
    "int \<Rightarrow> ('n, 'db, 'p) StakeDatabase \<Rightarrow> ('n, 'db, 'p) StakeDatabase \<times> Hash set option \<times> tp_error status" where
  "PoolAtHeight height db =
    (case Pool height (PoolDB db) of (tp, p, st) \<Rightarrow> (db\<lparr>PoolDB := tp\<rparr>, p, st))"

definition PoolAtHash ::
    "client \<Rightarrow> Hash \<Rightarrow> ('n, 'db, 'p) StakeDatabase \<Rightarrow>
      ('n, 'db, 'p) StakeDatabase \<times> Hash set option \<times> sdb_error status" where
  "PoolAtHash cl h db =
    (case GetBlockHeader cl h of
       Inl e \<Rightarrow> (db, None, Err (RPCError e))
     | Inr header \<Rightarrow>
         (case PoolAtHeight (uint (hdrHeight header)) db of
            (db', p, Ok) \<Rightarrow> (db', p, Ok)
          | (db', p, Err e) \<Rightarrow> (db', p, Err (PoolDBError e))
          | (db', p, Panic) \<Rightarrow> (db', p, Panic)))"

section \<open>The cache of live tickets\<close>

text \<open>
  The value of an entering ticket: the given one, or that of the node. The outer option is \<open>None\<close> for a
  panic (no first output, index out of range), the inner one when the node has an error, which is logged.
\<close>

definition ticket_value :: "client \<Rightarrow> i64 list option \<Rightarrow> nat \<Rightarrow> Hash \<Rightarrow> i64 option option" where
  "ticket_value cl inVals i h =
    (case inVals of
       None \<Rightarrow> (case GetRawTransaction cl h of
           Inl _ \<Rightarrow> Some None
         | Inr tx \<Rightarrow> map_option Some (idx (stxValues tx) 0))
     | Some vals \<Rightarrow> map_option Some (idx vals (int i)))"

fun add_tickets :: "client \<Rightarrow> i64 list option \<Rightarrow> nat \<Rightarrow> Hash list \<Rightarrow> (Hash, i64) gomap \<times> i64 \<Rightarrow>
    ((Hash, i64) gomap \<times> i64) option" where
  "add_tickets cl inVals i [] mv = Some mv"
| "add_tickets cl inVals i (h # hs) mv =
    (if mget (fst mv) h \<noteq> None then add_tickets cl inVals (Suc i) hs mv
     else case ticket_value cl inVals i h of
       None \<Rightarrow> None
     | Some None \<Rightarrow> add_tickets cl inVals (Suc i) hs mv
     | Some (Some val) \<Rightarrow> add_tickets cl inVals (Suc i) hs (mput h val (fst mv), snd mv + val))"

fun remove_tickets :: "Hash list \<Rightarrow> (Hash, i64) gomap \<times> i64 \<Rightarrow> (Hash, i64) gomap \<times> i64" where
  "remove_tickets [] mv = mv"
| "remove_tickets (h # hs) mv =
    (case mget (fst mv) h of
       None \<Rightarrow> remove_tickets hs mv
     | Some valOut \<Rightarrow> remove_tickets hs (mdel h (fst mv), snd mv - valOut))"

definition sdb_applyDiff :: "client \<Rightarrow> PoolDiff \<Rightarrow> i64 list option \<Rightarrow>
    ('n, 'db, 'p) StakeDatabase \<Rightarrow> ('n, 'db, 'p) StakeDatabase option" where
  "sdb_applyDiff cl poolDiff inVals db =
    (case add_tickets cl inVals 0 (In poolDiff) (liveTicketCache db, poolValue db) of
       None \<Rightarrow> None
     | Some mv \<Rightarrow> (case remove_tickets (Out poolDiff) mv of
         (m, v) \<Rightarrow> Some (db\<lparr>liveTicketCache := m, poolValue := v\<rparr>)))"

definition sdb_undoDiff :: "client \<Rightarrow> PoolDiff \<Rightarrow>
    ('n, 'db, 'p) StakeDatabase \<Rightarrow> ('n, 'db, 'p) StakeDatabase option" where
  "sdb_undoDiff cl poolDiff db = sdb_applyDiff cl \<lparr>In = Out poolDiff, Out = In poolDiff\<rparr> None db"

text \<open>
  The requests for all live tickets, in order: a failed one is skipped and its error kept, a
  transaction with another hash panics. \<open>PopulateLiveTicketCache\<close> returns the last error.
\<close>

fun populate_loop :: "client \<Rightarrow> Hash list \<Rightarrow> (Hash, i64) gomap \<times> i64 \<Rightarrow> string option \<Rightarrow>
    (((Hash, i64) gomap \<times> i64) \<times> string option) option" where
  "populate_loop cl [] mv err = Some (mv, err)"
| "populate_loop cl (h # hs) mv err =
    (case GetRawTransaction cl h of
       Inl e \<Rightarrow> populate_loop cl hs mv (Some e)
     | Inr ticketTx \<Rightarrow>
         if stxHash ticketTx \<noteq> h then None
         else case idx (stxValues ticketTx) 0 of
           None \<Rightarrow> None
         | Some val \<Rightarrow> populate_loop cl hs (mput h val (fst mv), snd mv + val) err)"

definition PopulateLiveTicketCache :: "('n, 'u, 'db, 'p) stake_env \<Rightarrow> client \<Rightarrow>
    ('n, 'db, 'p) StakeDatabase \<Rightarrow> ('n, 'db, 'p) StakeDatabase \<times> sdb_error status" where
  "PopulateLiveTicketCache env cl db =
    (case BestNode db of
       None \<Rightarrow> (db, Panic)
     | Some n \<Rightarrow> (case populate_loop cl (LiveTickets env n) ([], 0) None of
         None \<Rightarrow> (db, Panic)
       | Some ((m, v), err) \<Rightarrow>
           (db\<lparr>liveTicketCache := m, poolValue := v\<rparr>,
            case err of None \<Rightarrow> Ok | Some e \<Rightarrow> Err (RPCError e))))"

section \<open>Waiting for a height\<close>

text \<open>
  \<open>WaitForHeight\<close> reads the height first and registers its channel after that; the two are separate
  critical sections. The first result is the channel; \<open>None\<close> is the panic for a missing block.
\<close>

definition new_chan :: "('n, 'db, 'p) StakeDatabase \<Rightarrow> ('n, 'db, 'p) StakeDatabase \<times> nat" where
  "new_chan db = (db\<lparr>nextChan := Suc (nextChan db)\<rparr>, nextChan db)"

definition register :: "int \<Rightarrow> nat \<Rightarrow> ('n, 'db, 'p) StakeDatabase \<Rightarrow> ('n, 'db, 'p) StakeDatabase" where
  "register height c db = db\<lparr>heightWaiters :=
     mput height ((case mget (heightWaiters db) height of None \<Rightarrow> [] | Some cs \<Rightarrow> cs) @ [c])
       (heightWaiters db)\<rparr>"

definition WaitForHeight_at :: "client \<Rightarrow> int \<Rightarrow> int \<Rightarrow>
    ('n, 'db, 'p) StakeDatabase \<Rightarrow> (('n, 'db, 'p) StakeDatabase \<times> nat) option" where
  "WaitForHeight_at cl dbHeight height db =
    (case new_chan db of (db1, c) \<Rightarrow>
       if dbHeight > height then Some (db1\<lparr>chans := mput c None (chans db1)\<rparr>, c)
       else if dbHeight = height
       then (case fst (block cl height db1) of
           None \<Rightarrow> None
         | Some b \<Rightarrow>
             Some ((register height c db1)\<lparr>signals := signals db1 @ [(height, block_hash b)]\<rparr>, c))
       else Some (register height c db1, c))"

definition WaitForHeight :: "('n, 'u, 'db, 'p) stake_env \<Rightarrow> client \<Rightarrow> int \<Rightarrow>
    ('n, 'db, 'p) StakeDatabase \<Rightarrow> (('n, 'db, 'p) StakeDatabase \<times> nat) option" where
  "WaitForHeight env cl height db = WaitForHeight_at cl (uint (Height env db)) height db"

text \<open>Sending to a full channel panics.\<close>

fun send_all :: "Hash \<Rightarrow> nat list \<Rightarrow> (nat, Hash option) gomap \<Rightarrow> (nat, Hash option) gomap option" where
  "send_all h [] m = Some m"
| "send_all h (c # cs) m = (if mget m c \<noteq> None then None else send_all h cs (mput c (Some h) m))"

definition signalWaiters :: "int \<Rightarrow> Hash \<Rightarrow>
    ('n, 'db, 'p) StakeDatabase \<Rightarrow> ('n, 'db, 'p) StakeDatabase option" where
  "signalWaiters height blockhash db =
    (case send_all blockhash
         (case mget (heightWaiters db) height of None \<Rightarrow> [] | Some cs \<Rightarrow> cs) (chans db) of
       None \<Rightarrow> None
     | Some m \<Rightarrow> Some (db\<lparr>chans := m, heightWaiters := mdel height (heightWaiters db)\<rparr>))"

section \<open>Connecting blocks\<close>

definition connectBlock :: "('n, 'u, 'db, 'p) stake_env \<Rightarrow> Block \<Rightarrow> Hash list \<Rightarrow> Hash list \<Rightarrow> Hash list \<Rightarrow>
    ('n, 'db, 'p) StakeDatabase \<Rightarrow> ('n, 'db, 'p) StakeDatabase \<times> sdb_error status" where
  "connectBlock env b spent revoked maturing db =
    (case headerIV env b of
       Inl e \<Rightarrow> (db, Err (SerializeHeader e))
     | Inr iv \<Rightarrow> (case BestNode db of
         None \<Rightarrow> (db, Panic)
       | Some n \<Rightarrow> (case ConnectNode env n iv spent revoked maturing of
           Inl e \<Rightarrow> (db, Err (StakeNodeError e))
         | Inr None \<Rightarrow> (db, Err NilConnectedNode)
         | Inr (Some bestNode) \<Rightarrow>
             (let db1 = db\<lparr>BestNode := Some bestNode\<rparr>
              in case WriteConnectedBestNode env bestNode (block_hash b) (StakeDB db1) of
                   Inl e \<Rightarrow> (db1, Err (StakeDBError e))
                 | Inr sdb \<Rightarrow> (db1\<lparr>StakeDB := sdb\<rparr>, Ok)))))"

text \<open>
  The tickets that mature: those of the block \<open>TicketMaturity\<close> blocks before, with their values. The
  block leaves the cache. A block that is nil, because the node had an error, is dereferenced.
\<close>

definition maturing_tickets :: "('n, 'u, 'db, 'p) stake_env \<Rightarrow> client \<Rightarrow> int \<Rightarrow>
    ('n, 'db, 'p) StakeDatabase \<Rightarrow> (('n, 'db, 'p) StakeDatabase \<times> Hash list \<times> i64 list option) option" where
  "maturing_tickets env cl maturingHeight db =
    (if maturingHeight \<ge> 0
     then (case block cl maturingHeight db of (maturingBlock, wasCached) \<Rightarrow>
       (let db1 = (if wasCached then ForgetBlock maturingHeight db else db)
        in case maturingBlock of
             None \<Rightarrow> None
           | Some mb \<Rightarrow> (case TicketsInBlock (IsSStx env) mb of (hs, txs) \<Rightarrow>
               map_option (\<lambda>vals. (db1, hs, Some vals)) (ticket_values txs))))
     else Some (db, [], None))"

text \<open>What \<open>ConnectBlock\<close> does once the best node is connected.\<close>

definition finish_connect :: "('n, 'u, 'db, 'p) stake_env \<Rightarrow> client \<Rightarrow> Block \<Rightarrow> Hash list \<Rightarrow> Hash list \<Rightarrow>
    i64 list option \<Rightarrow> int \<Rightarrow> ('n, 'db, 'p) StakeDatabase \<Rightarrow> ('n, 'db, 'p) StakeDatabase \<times> sdb_error status" where
  "finish_connect env cl b winners maturing vals bestNodeHeight db =
    (case BestNode db of
       None \<Rightarrow> (db, Panic)
     | Some n \<Rightarrow>
         (let poolDiff = \<lparr>In = maturing, Out = winners @ ExpiredByBlock env n\<rparr>;
              db1 = db\<lparr>signals := signals db @ [(block_height b, block_hash b)]\<rparr>
          in case sdb_applyDiff cl poolDiff vals db1 of
               None \<Rightarrow> (db1, Panic)
             | Some db2 \<Rightarrow>
                 (let pib = makePoolInfo env (poolValue db2) (nodePoolSize env n) (Winners env n)
                        (of_int (block_height b))
                  in case pic_Set (block_hash b) pib (poolInfo db2) of
                       None \<Rightarrow> (db2, Panic)
                     | Some pic \<Rightarrow>
                         (case Append (dbSet env) poolDiff (bestNodeHeight + 1) (PoolDB db2) of
                            (tp, st) \<Rightarrow> (db2\<lparr>poolInfo := pic, PoolDB := tp\<rparr>,
                              case st of Ok \<Rightarrow> Ok | Err e \<Rightarrow> Err (PoolDBError e) | Panic \<Rightarrow> Panic)))))"

definition ConnectBlock :: "('n, 'u, 'db, 'p) stake_env \<Rightarrow> client \<Rightarrow> Block \<Rightarrow>
    ('n, 'db, 'p) StakeDatabase \<Rightarrow> ('n, 'db, 'p) StakeDatabase \<times> sdb_error status" where
  "ConnectBlock env cl b db =
    (let height = block_height b
     in case maturing_tickets env cl (height - TicketMaturity env) db of
          None \<Rightarrow> (db, Panic)
        | Some (db1, maturing, vals) \<Rightarrow>
            (let db2 = db1\<lparr>blockCache := mput height b (blockCache db1)\<rparr>
             in case (RevokedTicketsInBlock (IsSSRtx env) b, TicketsSpentInBlock (IsSSGen env) b, BestNode db2) of
                  (Some revoked, Some voted, Some n) \<Rightarrow>
                    (let bestNodeHeight = uint (nodeHeight env n)
                     in if height \<le> bestNodeHeight
                        then (if height = bestNodeHeight
                              then (case dbState env (StakeDB db2) of
                                  None \<Rightarrow> (db2, Panic)
                                | Some (Inr (_, tipHash)) \<Rightarrow>
                                    if tipHash = block_hash b then (db2, Ok)
                                    else (db2, Err (CannotConnect height bestNodeHeight))
                                | Some (Inl _) \<Rightarrow> (db2, Err (CannotConnect height bestNodeHeight)))
                              else (db2, Err (CannotConnect height bestNodeHeight)))
                        else (let winners = Winners env n
                              in case connectBlock env b voted revoked maturing db2 of
                                   (db3, Ok) \<Rightarrow> finish_connect env cl b winners maturing vals bestNodeHeight db3
                                 | (db3, st) \<Rightarrow> (db3, st)))
                | _ \<Rightarrow> (db2, Panic)))"

definition ConnectBlockHash :: "('n, 'u, 'db, 'p) stake_env \<Rightarrow> client \<Rightarrow> Hash \<Rightarrow>
    ('n, 'db, 'p) StakeDatabase \<Rightarrow> ('n, 'db, 'p) StakeDatabase \<times> Block option \<times> sdb_error status" where
  "ConnectBlockHash env cl h db =
    (case GetBlock cl h of
       Inl e \<Rightarrow> (db, None, Err (RPCError e))
     | Inr b \<Rightarrow> (case ConnectBlock env cl b db of (db', st) \<Rightarrow> (db', Some b, st)))"

section \<open>Disconnecting blocks\<close>

text \<open>The pool is trimmed down to the height of the parent; the diffs are collected in order.\<close>

function trim_loop :: "int \<Rightarrow> int \<Rightarrow> 'p TicketPool \<Rightarrow> PoolDiff list \<Rightarrow> ('p TicketPool \<times> PoolDiff list) option" where
  "trim_loop parentHeight poolDBTip tp undoDiffs =
    (if poolDBTip > parentHeight
     then (case trim tp of (tp', (newTip, undoDiff), st) \<Rightarrow>
       if st = Panic then None
       else if newTip \<ge> poolDBTip then None
       else trim_loop parentHeight newTip tp' (undoDiffs @ [undoDiff]))
     else Some (tp, undoDiffs))"
  by pat_completeness auto
termination
  by (relation "measure (\<lambda>(parentHeight, poolDBTip, _). nat (poolDBTip - parentHeight))") auto

declare trim_loop.simps [simp del]

fun undo_all :: "client \<Rightarrow> PoolDiff list \<Rightarrow> ('n, 'db, 'p) StakeDatabase \<Rightarrow>
    ('n, 'db, 'p) StakeDatabase option" where
  "undo_all cl [] db = Some db"
| "undo_all cl (d # ds) db =
    (case sdb_undoDiff cl d db of None \<Rightarrow> None | Some db' \<Rightarrow> undo_all cl ds db')"

text \<open>The part of \<open>disconnectBlock\<close> after the pool and the cache: the node and its database.\<close>

definition disconnect_node :: "('n, 'u, 'db, 'p) stake_env \<Rightarrow> Block \<Rightarrow> 'n \<Rightarrow>
    ('n, 'db, 'p) StakeDatabase \<Rightarrow> ('n, 'db, 'p) StakeDatabase \<times> sdb_error status" where
  "disconnect_node env parentBlock n db =
    (case headerIV env parentBlock of
       Inl e \<Rightarrow> (db, Err (SerializeHeader e))
     | Inr parentIV \<Rightarrow> (case DisconnectNode env n parentIV (StakeDB db) of
         Inl e \<Rightarrow> (db, Err (StakeNodeError e))
       | Inr None \<Rightarrow> (db, Err NilDisconnectedNode)
       | Inr (Some parentNode) \<Rightarrow>
           (let db1 = db\<lparr>BestNode := Some parentNode\<rparr>
            in case WriteDisconnectedBestNode env parentNode (block_hash parentBlock) (UndoData env n)
                   (StakeDB db1) of
                 Inl e \<Rightarrow> (db1, Err (StakeDBError e))
               | Inr sdb \<Rightarrow> (db1\<lparr>StakeDB := sdb\<rparr>, Ok))))"

definition disconnectBlock :: "('n, 'u, 'db, 'p) stake_env \<Rightarrow> client \<Rightarrow> bool \<Rightarrow>
    ('n, 'db, 'p) StakeDatabase \<Rightarrow> ('n, 'db, 'p) StakeDatabase \<times> sdb_error status" where
  "disconnectBlock env cl neglectCache db =
    (case BestNode db of
       None \<Rightarrow> (db, Panic)
     | Some n \<Rightarrow> (case dbPrevBlock env cl (StakeDB db) of
         None \<Rightarrow> (db, Panic)
       | Some (Inl e) \<Rightarrow> (db, Err e)
       | Some (Inr parentBlock) \<Rightarrow>
           if block_height parentBlock \<noteq> uint (nodeHeight env n) - 1 then (db, Panic)
           else case trim_loop (block_height parentBlock) (tip (PoolDB db)) (PoolDB db) [] of
             None \<Rightarrow> (db, Panic)
           | Some (tp, undoDiffs) \<Rightarrow>
               (let db1 = db\<lparr>PoolDB := tp\<rparr>
                in case (if neglectCache then Some db1 else undo_all cl undoDiffs db1) of
                     None \<Rightarrow> (db1, Panic)
                   | Some db2 \<Rightarrow> disconnect_node env parentBlock n db2)))"

definition DisconnectBlock :: "('n, 'u, 'db, 'p) stake_env \<Rightarrow> client \<Rightarrow> bool \<Rightarrow>
    ('n, 'db, 'p) StakeDatabase \<Rightarrow> ('n, 'db, 'p) StakeDatabase \<times> sdb_error status" where
  "DisconnectBlock env cl neglectCache db = disconnectBlock env cl neglectCache db"

fun disconnect_times :: "('n, 'u, 'db, 'p) stake_env \<Rightarrow> client \<Rightarrow> nat \<Rightarrow>
    ('n, 'db, 'p) StakeDatabase \<Rightarrow> ('n, 'db, 'p) StakeDatabase \<times> sdb_error status" where
  "disconnect_times env cl 0 db = (db, Ok)"
| "disconnect_times env cl (Suc k) db =
    (case disconnectBlock env cl False db of
       (db', Ok) \<Rightarrow> disconnect_times env cl k db'
     | (db', st) \<Rightarrow> (db', st))"

text \<open>No block is disconnected for a count that is not positive.\<close>

definition DisconnectBlocks :: "('n, 'u, 'db, 'p) stake_env \<Rightarrow> client \<Rightarrow> int \<Rightarrow>
    ('n, 'db, 'p) StakeDatabase \<Rightarrow> ('n, 'db, 'p) StakeDatabase \<times> sdb_error status" where
  "DisconnectBlocks env cl count db = disconnect_times env cl (nat count) db"

text \<open>The loop of \<open>Rewind\<close> has no bound of its own: \<open>None\<close> stands for a run that does not end.\<close>

partial_function (option) Rewind :: "('n, 'u, 'db, 'p) stake_env \<Rightarrow> client \<Rightarrow> int \<Rightarrow> bool \<Rightarrow>
    ('n, 'db, 'p) StakeDatabase \<Rightarrow> (('n, 'db, 'p) StakeDatabase \<times> sdb_error status) option" where
  "Rewind env cl to neglectCache db =
    (if to < uint (Height env db)
     then (case DisconnectBlock env cl neglectCache db of
         (db', Ok) \<Rightarrow>
           if tip (PoolDB db') \<noteq> uint (Height env db')
           then Some (db', Err (HeightMismatch (uint (Height env db')) (tip (PoolDB db'))))
           else Rewind env cl to neglectCache db'
       | (db', st) \<Rightarrow> Some (db', st))
     else Some (db, Ok))"

section \<open>Settings\<close>

definition SetPoolInfo :: "Hash \<Rightarrow> TicketPoolInfo \<Rightarrow>
    ('n, 'db, 'p) StakeDatabase \<Rightarrow> ('n, 'db, 'p) StakeDatabase option" where
  "SetPoolInfo blockHash tpi db =
    map_option (\<lambda>c. db\<lparr>poolInfo := c\<rparr>) (pic_Set blockHash tpi (poolInfo db))"

definition SetPoolCacheCapacity :: "int \<Rightarrow> ('n, 'db, 'p) StakeDatabase \<Rightarrow>
    (('n, 'db, 'p) StakeDatabase \<times> pic_error option) option" where
  "SetPoolCacheCapacity c db =
    map_option (\<lambda>(pic, e). (db\<lparr>poolInfo := pic\<rparr>, e)) (SetCapacity c (poolInfo db))"

definition sdb_PoolSize :: "('n, 'u, 'db, 'p) stake_env \<Rightarrow> ('n, 'db, 'p) StakeDatabase \<Rightarrow> int option" where
  "sdb_PoolSize env db = map_option (nodePoolSize env) (BestNode db)"

end
