(* ===== verification/StakeDBContract.thy ===== *)
theory StakeDBContract
  imports StakeDB
begin

text \<open>
  What the stake database promises: its state is a function of the chain of connected blocks, and
  connecting and disconnecting a block are adding and removing the last block of that chain. The
  chain is a list that starts with the genesis block. What is relied on of dcrd's \<open>stake\<close> package
  (a node is determined by its chain, and disconnecting undoes connecting) is \<open>stake_package\<close>.
\<close>

section \<open>Chains\<close>

definition chain_ok :: "Block list \<Rightarrow> bool" where
  "chain_ok c \<longleftrightarrow> c \<noteq> [] \<and> (\<forall>i < length c. block_height (c ! i) = int i \<and>
     (i > 0 \<longrightarrow> hdrPrev (bHeader (c ! i)) = block_hash (c ! (i - 1))))"

lemma chain_ok_length: "chain_ok c \<Longrightarrow> int (length c) \<le> 2 ^ 32"
proof -
  assume c: "chain_ok c"
  then have "int (length c - 1) = uint (hdrHeight (bHeader (c ! (length c - 1))))"
    by (auto simp: chain_ok_def block_height_def)
  also have "\<dots> < 2 ^ 32"
    using uint_lt2p [of "hdrHeight (bHeader (c ! (length c - 1)))"] by simp
  finally show ?thesis
    using c by (auto simp: chain_ok_def)
qed

lemma chain_ok_snoc:
  assumes "chain_ok (c @ [b])" "c \<noteq> []"
  shows "chain_ok c" "block_height b = int (length c)" "hdrPrev (bHeader b) = block_hash (last c)"
proof -
  have *: "block_height ((c @ [b]) ! i) = int i"
    "i > 0 \<Longrightarrow> hdrPrev (bHeader ((c @ [b]) ! i)) = block_hash ((c @ [b]) ! (i - 1))"
    if "i < Suc (length c)" for i
    using assms(1) that by (auto simp: chain_ok_def)
  show "chain_ok c"
    unfolding chain_ok_def
  proof (intro conjI allI impI)
    fix i
    assume i: "i < length c"
    show "block_height (c ! i) = int i"
      using *(1) [of i] i by (simp add: nth_append)
    show "hdrPrev (bHeader (c ! i)) = block_hash (c ! (i - 1))" if "0 < i"
      using *(2) [of i] i that by (simp add: nth_append less_imp_diff_less)
  qed fact
  show "block_height b = int (length c)"
    using *(1) [of "length c"] by simp
  show "hdrPrev (bHeader b) = block_hash (last c)"
    using *(2) [of "length c"] assms(2) by (simp add: nth_append last_conv_nth)
qed

lemma chain_ok_height: "chain_ok c \<Longrightarrow> i < length c \<Longrightarrow> block_height (c ! i) = int i"
  by (simp add: chain_ok_def)

lemma chain_ok_last: "chain_ok c \<Longrightarrow> block_height (last c) = int (length c) - 1"
  by (cases c) (auto simp: chain_ok_def last_conv_nth)

text \<open>The tickets that mature with the last block of a chain, and the diff that it makes.\<close>

definition matures :: "('n, 'u, 'db, 'p) stake_env \<Rightarrow> Block list \<Rightarrow> Hash list" where
  "matures env c =
    (let mh = int (length c) - 1 - TicketMaturity env
     in if 0 \<le> mh then fst (TicketsInBlock (IsSStx env) (c ! nat mh)) else [])"

definition block_diff :: "('n, 'u, 'db, 'p) stake_env \<Rightarrow> (Block list \<Rightarrow> 'n) \<Rightarrow> Block list \<Rightarrow> Block \<Rightarrow> PoolDiff" where
  "block_diff env node_of c b =
    \<lparr>In = matures env (c @ [b]), Out = Winners env (node_of c) @ ExpiredByBlock env (node_of (c @ [b]))\<rparr>"

definition chain_diffs :: "('n, 'u, 'db, 'p) stake_env \<Rightarrow> (Block list \<Rightarrow> 'n) \<Rightarrow> Block list \<Rightarrow> PoolDiff list" where
  "chain_diffs env node_of c =
    map (\<lambda>i. block_diff env node_of (take (Suc i) c) (c ! Suc i)) [0..<length c - 1]"

lemma chain_diffs_single [simp]: "chain_diffs env node_of [g] = []"
  by (simp add: chain_diffs_def)

lemma length_chain_diffs [simp]: "length (chain_diffs env node_of c) = length c - 1"
  by (simp add: chain_diffs_def)

lemma chain_diffs_snoc:
  assumes "c \<noteq> []"
  shows "chain_diffs env node_of (c @ [b]) = chain_diffs env node_of c @ [block_diff env node_of c b]"
proof -
  obtain n where n: "length c = Suc n"
    using assms by (cases c) auto
  have "map (\<lambda>i. block_diff env node_of (take (Suc i) (c @ [b])) ((c @ [b]) ! Suc i)) [0..<n]
      = map (\<lambda>i. block_diff env node_of (take (Suc i) c) (c ! Suc i)) [0..<n]"
    using n by (intro map_cong) (auto simp: nth_append)
  then show ?thesis
    using n by (simp add: chain_diffs_def nth_append)
qed

section \<open>What is relied on\<close>

abbreviation live :: "('n, 'u, 'db, 'p) stake_env \<Rightarrow> (Block list \<Rightarrow> 'n) \<Rightarrow> Block list \<Rightarrow> Hash set" where
  "live env node_of c \<equiv> set (LiveTickets env (node_of c))"

text \<open>
  One block on top of a chain: the stake node of the longer chain is the connected one, its tickets
  are those of the shorter one with the maturing ones and without the chosen and expired ones, and the
  database that holds one chain can be brought to hold the other. \<open>holds\<close> is a relation between the
  database and the chain whose node and undo data it contains.
\<close>

definition connects :: "('n, 'u, 'db, 'p) stake_env \<Rightarrow> (Block list \<Rightarrow> 'n) \<Rightarrow> ('db \<Rightarrow> Block list \<Rightarrow> bool) \<Rightarrow>
    Block list \<Rightarrow> Block \<Rightarrow> bool" where
  "connects env node_of holds c b \<longleftrightarrow>
    (\<exists>iv voted revoked. headerIV env b = Inr iv \<and>
       TicketsSpentInBlock (IsSSGen env) b = Some voted \<and>
       RevokedTicketsInBlock (IsSSRtx env) b = Some revoked \<and>
       ConnectNode env (node_of c) iv voted revoked (matures env (c @ [b])) = Inr (Some (node_of (c @ [b])))) \<and>
    diff_ok (live env node_of c) (block_diff env node_of c b) \<and>
    live env node_of (c @ [b]) = apply_diff (live env node_of c) (block_diff env node_of c b) \<and>
    (\<forall>sdb. holds sdb c \<longrightarrow> (\<exists>sdb'. WriteConnectedBestNode env (node_of (c @ [b])) (block_hash b) sdb = Inr sdb' \<and>
       holds sdb' (c @ [b])))"

definition disconnects :: "('n, 'u, 'db, 'p) stake_env \<Rightarrow> (Block list \<Rightarrow> 'n) \<Rightarrow> ('db \<Rightarrow> Block list \<Rightarrow> bool) \<Rightarrow>
    Block list \<Rightarrow> Block \<Rightarrow> bool" where
  "disconnects env node_of holds c b \<longleftrightarrow>
    (\<exists>iv. headerIV env (last c) = Inr iv \<and>
       (\<forall>sdb. holds sdb (c @ [b]) \<longrightarrow>
          DisconnectNode env (node_of (c @ [b])) iv sdb = Inr (Some (node_of c)) \<and>
          (\<exists>sdb'. WriteDisconnectedBestNode env (node_of c) (block_hash (last c))
               (UndoData env (node_of (c @ [b]))) sdb = Inr sdb' \<and> holds sdb' c)))"

definition stake_package :: "('n, 'u, 'db, 'p) stake_env \<Rightarrow> (Block list \<Rightarrow> 'n) \<Rightarrow> ('db \<Rightarrow> Block list \<Rightarrow> bool) \<Rightarrow>
    Block list set \<Rightarrow> bool" where
  "stake_package env node_of holds V \<longleftrightarrow> 0 < TicketMaturity env \<and>
    (\<forall>c \<in> V. chain_ok c \<and> nodeHeight env (node_of c) = of_nat (length c - 1) \<and>
       (length c = 1 \<longrightarrow> LiveTickets env (node_of c) = []) \<and>
       (\<forall>sdb. holds sdb c \<longrightarrow> dbState env sdb = Some (Inr (of_nat (length c - 1), block_hash (last c))))) \<and>
    (\<forall>c b. c \<noteq> [] \<and> c @ [b] \<in> V \<longrightarrow>
       c \<in> V \<and> connects env node_of holds c b \<and> disconnects env node_of holds c b)"

text \<open>What the client answers: the blocks of a chain by hash, by height, and the price of tickets.\<close>

definition knows :: "client \<Rightarrow> Block \<Rightarrow> bool" where
  "knows cl b \<longleftrightarrow> GetBlock cl (block_hash b) = Inr b \<and> GetBlockHeader cl (block_hash b) = Inr (bHeader b)"

definition main_chain_at :: "client \<Rightarrow> Block list \<Rightarrow> int \<Rightarrow> bool" where
  "main_chain_at cl c i \<longleftrightarrow> 0 \<le> i \<and> i < int (length c) \<and>
     GetBlockHash cl i = Inr (block_hash (c ! nat i)) \<and> knows cl (c ! nat i)"

definition tx_price :: "(Hash \<Rightarrow> i64) \<Rightarrow> stx \<Rightarrow> bool" where
  "tx_price price tx \<longleftrightarrow> idx (stxValues tx) 0 = Some (price (stxHash tx))"

definition knows_price :: "client \<Rightarrow> (Hash \<Rightarrow> i64) \<Rightarrow> Hash \<Rightarrow> bool" where
  "knows_price cl price h \<longleftrightarrow> (\<exists>tx. GetRawTransaction cl h = Inr tx \<and> stxHash tx = h \<and> tx_price price tx)"

section \<open>The cache of live tickets\<close>

definition priced :: "(Hash \<Rightarrow> i64) \<Rightarrow> Hash set \<Rightarrow> (Hash, i64) gomap \<times> i64 \<Rightarrow> bool" where
  "priced price L mv \<longleftrightarrow> finite L \<and> wf_map (fst mv) \<and>
     (\<forall>h. mget (fst mv) h = (if h \<in> L then Some (price h) else None)) \<and> snd mv = (\<Sum>h\<in>L. price h)"

lemma priced_insert:
  "priced price L mv \<Longrightarrow> h \<notin> L \<Longrightarrow>
    priced price (insert h L) (mput h (price h) (fst mv), snd mv + price h)"
  by (auto simp: priced_def)

lemma priced_delete:
  "priced price L mv \<Longrightarrow> h \<in> L \<Longrightarrow> priced price (L - {h}) (mdel h (fst mv), snd mv - price h)"
  by (auto simp: priced_def sum_diff1)

lemma add_tickets_priced:
  assumes "priced price L mv"
    and "\<forall>k < length hs. ticket_value cl inVals (i + k) (hs ! k) = Some (Some (price (hs ! k)))"
  obtains mv' where "add_tickets cl inVals i hs mv = Some mv'" "priced price (L \<union> set hs) mv'"
  using assms
proof (induction hs arbitrary: i L mv thesis)
  case (Cons h hs)
  have rest: "\<forall>k < length hs. ticket_value cl inVals (Suc i + k) (hs ! k) = Some (Some (price (hs ! k)))"
    using Cons.prems(3) by auto
  have val: "ticket_value cl inVals i h = Some (Some (price h))"
    using Cons.prems(3) by auto
  show ?case
  proof (cases "h \<in> L")
    case True
    obtain mv' where "add_tickets cl inVals (Suc i) hs mv = Some mv'" "priced price (L \<union> set hs) mv'"
      using Cons.IH [OF _ Cons.prems(2) rest] by metis
    with True Cons.prems(2) show ?thesis
      by (intro Cons.prems(1) [of mv']) (auto simp: priced_def insert_absorb)
  next
    case False
    obtain mv' where "add_tickets cl inVals (Suc i) hs (mput h (price h) (fst mv), snd mv + price h) = Some mv'"
      "priced price (insert h L \<union> set hs) mv'"
      using Cons.IH [OF _ priced_insert [OF Cons.prems(2) False] rest] by metis
    with False Cons.prems(2) val show ?thesis
      by (intro Cons.prems(1) [of mv']) (auto simp: priced_def)
  qed
qed simp

lemma remove_tickets_priced:
  "priced price L mv \<Longrightarrow> priced price (L - set hs) (remove_tickets hs mv)"
proof (induction hs arbitrary: L mv)
  case (Cons h hs)
  show ?case
  proof (cases "h \<in> L")
    case True
    with Cons show ?thesis
      using Cons.IH [OF priced_delete [OF Cons.prems True]]
      by (simp add: priced_def Diff_insert2 [symmetric] Diff_insert [symmetric])
  next
    case False
    with Cons.prems Cons.IH [OF Cons.prems] show ?thesis
      by (simp add: priced_def)
  qed
qed simp

text \<open>The cache after a diff is the cache of the pool after the diff.\<close>

lemma sdb_applyDiff_priced:
  assumes "priced price L (liveTicketCache db, poolValue db)"
    and "\<forall>k < length (In d). ticket_value cl inVals k (In d ! k) = Some (Some (price (In d ! k)))"
  obtains m v where "sdb_applyDiff cl d inVals db = Some (db\<lparr>liveTicketCache := m, poolValue := v\<rparr>)"
    "priced price (apply_diff L d) (m, v)"
proof -
  obtain mv where mv: "add_tickets cl inVals 0 (In d) (liveTicketCache db, poolValue db) = Some mv"
    "priced price (L \<union> set (In d)) mv"
    using add_tickets_priced [OF assms(1), of "In d" cl inVals 0] assms(2) by auto
  obtain m v where r: "remove_tickets (Out d) mv = (m, v)"
    by fastforce
  have "priced price (apply_diff L d) (m, v)"
    using r remove_tickets_priced [OF mv(2), of "Out d"] by (simp add: apply_diff_def applyDiff_eq)
  moreover have "sdb_applyDiff cl d inVals db = Some (db\<lparr>liveTicketCache := m, poolValue := v\<rparr>)"
    using mv r by (simp add: sdb_applyDiff_def)
  ultimately show ?thesis
    using that by blast
qed

lemma sdb_undoDiff_priced:
  assumes "priced price (apply_diff L d) (liveTicketCache db, poolValue db)" "diff_ok L d"
    and "\<forall>h \<in> set (Out d). knows_price cl price h"
  obtains m v where "sdb_undoDiff cl d db = Some (db\<lparr>liveTicketCache := m, poolValue := v\<rparr>)"
    "priced price L (m, v)"
proof -
  have "apply_diff (apply_diff L d) \<lparr>In = Out d, Out = In d\<rparr> = L"
    using tp_log.undo_app [OF assms(2)] by (simp add: apply_diff_def unapply_diff_def)
  moreover have "ticket_value cl None k (Out d ! k) = Some (Some (price (Out d ! k)))"
    if "k < length (Out d)" for k
    using assms(3) nth_mem [OF that] by (auto simp: ticket_value_def knows_price_def tx_price_def)
  ultimately obtain m v where "sdb_undoDiff cl d db = Some (db\<lparr>liveTicketCache := m, poolValue := v\<rparr>)"
    "priced price L (m, v)"
    using sdb_applyDiff_priced [OF assms(1), of "\<lparr>In = Out d, Out = In d\<rparr>" cl None]
    by (simp add: sdb_undoDiff_def) blast
  then show ?thesis
    using that by blast
qed

section \<open>The state and its chain\<close>

text \<open>The cached blocks below the tip are those of the chain; higher ones may be left over.\<close>

definition cached_on :: "Block list \<Rightarrow> (int, Block) gomap \<Rightarrow> bool" where
  "cached_on c m \<longleftrightarrow> wf_map m \<and>
     (\<forall>k b. mget m k = Some b \<and> k < int (length c) \<longrightarrow> 0 \<le> k \<and> b = c ! nat k)"

definition sdb_rel :: "('n, 'u, 'db, 'p) stake_env \<Rightarrow> (Block list \<Rightarrow> 'n) \<Rightarrow> ('db \<Rightarrow> Block list \<Rightarrow> bool) \<Rightarrow>
    (Hash \<Rightarrow> i64) \<Rightarrow> Block list \<Rightarrow> ('n, 'db, 'p) StakeDatabase \<Rightarrow> bool" where
  "sdb_rel env node_of holds price c db \<longleftrightarrow>
    BestNode db = Some (node_of c) \<and> holds (StakeDB db) c \<and>
    priced price (live env node_of c) (liveTicketCache db, poolValue db) \<and>
    tp_inv (PoolDB db) \<and> diffs (PoolDB db) = chain_diffs env node_of c \<and>
    cached_on c (blockCache db) \<and> pic_inv (poolInfo db)"

lemma sdb_relD:
  assumes "sdb_rel env node_of holds price c db"
  shows "BestNode db = Some (node_of c)" "holds (StakeDB db) c"
    "priced price (live env node_of c) (liveTicketCache db, poolValue db)"
    "tp_inv (PoolDB db)" "diffs (PoolDB db) = chain_diffs env node_of c" "cached_on c (blockCache db)"
    "pic_inv (poolInfo db)"
  using assms by (simp_all add: sdb_rel_def)

lemma cached_onD:
  "cached_on c m \<Longrightarrow> wf_map m"
  "cached_on c m \<Longrightarrow> mget m k = Some b \<Longrightarrow> k < int (length c) \<Longrightarrow> 0 \<le> k \<and> b = c ! nat k"
  by (auto simp: cached_on_def)

lemma cached_on_sub:
  "cached_on c m \<Longrightarrow> wf_map m' \<Longrightarrow> \<forall>k. mget m' k = None \<or> mget m' k = mget m k \<Longrightarrow> cached_on c m'"
  unfolding cached_on_def by (metis option.distinct(1))

lemma cached_on_put: "cached_on c m \<Longrightarrow> cached_on (c @ [b]) (mput (int (length c)) b m)"
  by (auto simp: cached_on_def nth_append nat_less_iff)

lemma cached_on_above: "cached_on c m \<Longrightarrow> int (length c) \<le> k \<Longrightarrow> cached_on c (mput k b m)"
  by (auto simp: cached_on_def)

lemma cached_on_prefix: "cached_on (c @ bs) m \<Longrightarrow> cached_on c m"
  unfolding cached_on_def
proof (elim conjE, intro conjI allI impI)
  fix k b
  assume all: "\<forall>k b. mget m k = Some b \<and> k < int (length (c @ bs)) \<longrightarrow> 0 \<le> k \<and> b = (c @ bs) ! nat k"
    and k: "mget m k = Some b \<and> k < int (length c)"
  then have *: "0 \<le> k \<and> b = (c @ bs) ! nat k"
    by auto
  then show "0 \<le> k" "b = c ! nat k"
    using k by (auto simp: nth_append nat_less_iff)
qed

lemma sdb_rel_tip: "sdb_rel env node_of holds price c db \<Longrightarrow> tip (PoolDB db) = int (length c - 1)"
  using sdb_relD(4,5) tp_invD(1) length_chain_diffs by metis

text \<open>What \<open>stake_package\<close> gives for one chain and one block.\<close>

lemma stake_packageD:
  assumes "stake_package env node_of holds V"
  shows "0 < TicketMaturity env"
    and "c \<in> V \<Longrightarrow> chain_ok c"
    and "c \<in> V \<Longrightarrow> nodeHeight env (node_of c) = of_nat (length c - 1)"
    and "[g] \<in> V \<Longrightarrow> LiveTickets env (node_of [g]) = []"
    and "c \<in> V \<Longrightarrow> holds sdb c \<Longrightarrow> dbState env sdb = Some (Inr (of_nat (length c - 1), block_hash (last c)))"
    and "c \<noteq> [] \<Longrightarrow> c @ [b] \<in> V \<Longrightarrow> c \<in> V"
    and "c \<noteq> [] \<Longrightarrow> c @ [b] \<in> V \<Longrightarrow> connects env node_of holds c b"
    and "c \<noteq> [] \<Longrightarrow> c @ [b] \<in> V \<Longrightarrow> disconnects env node_of holds c b"
  using assms unfolding stake_package_def by auto

lemma uint_tip_height:
  assumes "stake_package env node_of holds V" "c \<in> V"
  shows "uint (nodeHeight env (node_of c)) = int (length c) - 1"
proof -
  note c = stake_packageD(2) [OF assms]
  have "length c - 1 < 2 ^ 32" "0 < length c"
    using chain_ok_length [OF c] c by (auto simp: chain_ok_def)
  then show ?thesis
    using stake_packageD(3) [OF assms]
    by (cases c) (simp_all add: uint_nat unat_of_nat take_bit_nat_eq_self)
qed

text \<open>The replay of the diffs of a chain is the set of live tickets of its node.\<close>

lemma pool_at_chain_diffs:
  assumes "stake_package env node_of holds V" "c \<in> V"
  shows "pool_at (chain_diffs env node_of c) (length c - 1) = live env node_of c \<and>
    diffs_ok (chain_diffs env node_of c)"
  using assms(2)
proof (induction c rule: rev_induct)
  case Nil
  then show ?case
    using stake_packageD(2) [OF assms(1)] by (auto simp: chain_ok_def)
next
  case (snoc b c)
  show ?case
  proof (cases "c = []")
    case True
    then show ?thesis
      using stake_packageD(4) [OF assms(1)] snoc.prems by (simp add: pool_at_def diffs_ok_def)
  next
    case False
    note con = stake_packageD(7) [OF assms(1) False snoc.prems]
    have IH: "pool_at (chain_diffs env node_of c) (length c - 1) = live env node_of c"
      "diffs_ok (chain_diffs env node_of c)"
      using snoc.IH stake_packageD(6) [OF assms(1) False snoc.prems] by auto
    let ?ds = "chain_diffs env node_of c"
    have "pool_at (?ds @ [block_diff env node_of c b]) (Suc (length ?ds))
        = apply_diff (pool_at ?ds (length ?ds)) (block_diff env node_of c b)"
      by (simp add: pool_at_Suc pool_at_append del: length_chain_diffs)
    then show ?thesis
      using False IH con by (simp add: chain_diffs_snoc diffs_ok_snoc connects_def)
  qed
qed

section \<open>Connecting a block\<close>

text \<open>The prices in the blocks, and the block in which the maturing tickets are found.\<close>

definition prices_in :: "('n, 'u, 'db, 'p) stake_env \<Rightarrow> (Hash \<Rightarrow> i64) \<Rightarrow> Block list \<Rightarrow> bool" where
  "prices_in env price c \<longleftrightarrow> (\<forall>b \<in> set c. \<forall>tx \<in> set (STransactions b). IsSStx env tx \<longrightarrow> tx_price price tx)"

definition can_mature :: "('n, 'u, 'db, 'p) stake_env \<Rightarrow> client \<Rightarrow> Block list \<Rightarrow>
    ('n, 'db, 'p) StakeDatabase \<Rightarrow> bool" where
  "can_mature env cl c db \<longleftrightarrow>
    (let mh = int (length c) - TicketMaturity env
     in 0 \<le> mh \<longrightarrow> mget (blockCache db) mh \<noteq> None \<or> main_chain_at cl c mh)"

definition pool_writes :: "('n, 'u, 'db, 'p) stake_env \<Rightarrow> bool" where
  "pool_writes env \<longleftrightarrow> (\<forall>k v d. \<exists>d'. dbSet env k v d = Inr d')"

lemma ticket_values_priced:
  "\<forall>tx \<in> set txs. tx_price price tx \<Longrightarrow> ticket_values txs = Some (map (price \<circ> stxHash) txs)"
  by (induction txs) (auto simp: tx_price_def)

lemma block_on_chain:
  assumes "cached_on c (blockCache db)" "0 \<le> k" "k < int (length c)"
    and "mget (blockCache db) k \<noteq> None \<or> main_chain_at cl c k"
  shows "fst (block cl k db) = Some (c ! nat k)"
proof (cases "mget (blockCache db) k")
  case None
  with assms(4) show ?thesis
    by (auto simp: block_def BlockCached_def getBlockByHeight_def getBlock_def main_chain_at_def knows_def)
next
  case (Some b)
  with cached_onD(2) [OF assms(1) Some assms(3)] show ?thesis
    by (simp add: block_def BlockCached_def)
qed

lemma maturing_tickets_chain:
  assumes cached: "cached_on c (blockCache db)" and pos: "0 < TicketMaturity env"
    and mature: "can_mature env cl c db" and prices: "prices_in env price c"
  obtains m vals where
    "maturing_tickets env cl (int (length c) - TicketMaturity env) db
      = Some (db\<lparr>blockCache := m\<rparr>, matures env (c @ [b]), vals)"
    "wf_map m" "\<forall>k. mget m k = None \<or> mget m k = mget (blockCache db) k"
    "\<forall>k < length (matures env (c @ [b])).
       ticket_value cl vals k (matures env (c @ [b]) ! k) = Some (Some (price (matures env (c @ [b]) ! k)))"
proof (cases "0 \<le> int (length c) - TicketMaturity env")
  case True
  let ?mh = "int (length c) - TicketMaturity env"
  let ?txs = "filter (IsSStx env) (STransactions (c ! nat ?mh))"
  define m where "m = (if snd (block cl ?mh db) then mdel ?mh (blockCache db) else blockCache db)"
  have mh: "?mh < int (length c)" "nat ?mh < length c"
    using pos True by auto
  have blk: "fst (block cl ?mh db) = Some (c ! nat ?mh)"
    using block_on_chain [OF cached True mh(1)] mature True by (simp add: can_mature_def Let_def)
  have mat: "matures env (c @ [b]) = map stxHash ?txs"
    using True mh(2) by (simp add: matures_def TicketsInBlock_def Let_def nth_append)
  have vals: "ticket_values ?txs = Some (map (price \<circ> stxHash) ?txs)"
    using prices mh(2) by (intro ticket_values_priced) (auto simp: prices_in_def)
  show ?thesis
  proof (rule that [of m "Some (map (price \<circ> stxHash) ?txs)"])
    show "maturing_tickets env cl ?mh db
        = Some (db\<lparr>blockCache := m\<rparr>, matures env (c @ [b]), Some (map (price \<circ> stxHash) ?txs))"
      using True blk vals mat
      by (auto simp: maturing_tickets_def m_def ForgetBlock_def TicketsInBlock_def Let_def split: prod.split)
    show "wf_map m" "\<forall>k. mget m k = None \<or> mget m k = mget (blockCache db) k"
      using cached_onD(1) [OF cached] by (auto simp: m_def)
    show "\<forall>k < length (matures env (c @ [b])). ticket_value cl (Some (map (price \<circ> stxHash) ?txs)) k
        (matures env (c @ [b]) ! k) = Some (Some (price (matures env (c @ [b]) ! k)))"
      unfolding mat by (simp add: ticket_value_def)
  qed
next
  case False
  then have "matures env (c @ [b]) = []"
    by (simp add: matures_def)
  then show ?thesis
    using False cached_onD(1) [OF cached]
    by (intro that [of "blockCache db" None]) (simp_all add: maturing_tickets_def)
qed

text \<open>The part of \<open>ConnectBlock\<close> after the best node has been connected.\<close>

lemma finish_connect_chain:
  assumes node: "BestNode db = Some (node_of (c @ [b]))" and held: "holds (StakeDB db) (c @ [b])"
    and cache: "priced price (live env node_of c) (liveTicketCache db, poolValue db)"
    and pool: "tp_inv (PoolDB db)" "diffs (PoolDB db) = chain_diffs env node_of c"
    and blocks: "cached_on (c @ [b]) (blockCache db)"
    and info: "pic_inv (poolInfo db)"
    and vals: "\<forall>k < length (matures env (c @ [b])).
       ticket_value cl vals k (matures env (c @ [b]) ! k) = Some (Some (price (matures env (c @ [b]) ! k)))"
    and con: "connects env node_of holds c b" and c: "c \<noteq> []"
    and fits: "pool_at (chain_diffs env node_of c) (length c - 1) = live env node_of c"
    and writes: "pool_writes env"
  obtains db' where
    "finish_connect env cl b (Winners env (node_of c)) (matures env (c @ [b])) vals (int (length c) - 1) db
      = (db', Ok)"
    "sdb_rel env node_of holds price (c @ [b]) db'"
    "signals db' = signals db @ [(block_height b, block_hash b)]"
    "heightWaiters db' = heightWaiters db" "chans db' = chans db"
    "PoolDB db' = (tp_append (block_diff env node_of c b) (PoolDB db))\<lparr>diffDB := diffDB (PoolDB db')\<rparr>"
proof -
  let ?d = "block_diff env node_of c b"
  let ?db1 = "db\<lparr>signals := signals db @ [(block_height b, block_hash b)]\<rparr>"
  have "priced price (live env node_of c) (liveTicketCache ?db1, poolValue ?db1)"
    using cache by simp
  moreover have "\<forall>k < length (In ?d). ticket_value cl vals k (In ?d ! k) = Some (Some (price (In ?d ! k)))"
    using vals by (simp add: block_diff_def)
  ultimately obtain m v where mv: "sdb_applyDiff cl ?d vals ?db1 = Some (?db1\<lparr>liveTicketCache := m, poolValue := v\<rparr>)"
    "priced price (apply_diff (live env node_of c) ?d) (m, v)"
    by (rule sdb_applyDiff_priced)
  obtain pic where pic: "pic_Set (block_hash b) (makePoolInfo env v (nodePoolSize env (node_of (c @ [b])))
      (Winners env (node_of (c @ [b]))) (of_int (block_height b))) (poolInfo db) = Some pic" "pic_inv pic"
    using pic_Set_inv [OF info] by metis
  obtain d' where d': "dbSet env (put64 (of_int (int (length c)))) (encodeDiff ?d)
      (diffDB (tp_append ?d (PoolDB db))) = Inr d'"
    using writes unfolding pool_writes_def by blast
  have tip: "tip (PoolDB db) = int (length c) - 1"
    using tp_invD(1) [OF pool(1)] pool(2) c by (cases c) auto
  have app: "Append (dbSet env) ?d (int (length c) - 1 + 1) (PoolDB db)
      = (tp_append ?d (PoolDB db)\<lparr>diffDB := d'\<rparr>, Ok)"
    using tip d' by (simp add: Append_def storeDiff_def)
  have inv: "tp_inv (tp_append ?d (PoolDB db))"
    using con fits pool by (intro tp_append_inv) (simp_all add: diff_fits_def connects_def)
  define db' where "db' = ?db1\<lparr>liveTicketCache := m, poolValue := v, poolInfo := pic,
    PoolDB := tp_append ?d (PoolDB db)\<lparr>diffDB := d'\<rparr>\<rparr>"
  have "finish_connect env cl b (Winners env (node_of c)) (matures env (c @ [b])) vals (int (length c) - 1) db
      = (db', Ok)"
    using mv(1) pic(1) app node by (simp add: finish_connect_def Let_def block_diff_def db'_def)
  moreover have "sdb_rel env node_of holds price (c @ [b]) db'"
    using node held mv(2) inv pool(2) blocks pic(2) con c
    by (simp add: sdb_rel_def db'_def connects_def tp_append_def chain_diffs_snoc)
  ultimately show ?thesis
    using that [of db'] by (simp add: db'_def)
qed

lemma ConnectBlock_chain:
  assumes pkg: "stake_package env node_of holds V" and c: "c \<noteq> []" "c @ [b] \<in> V"
    and rel: "sdb_rel env node_of holds price c db"
    and mature: "can_mature env cl c db" and prices: "prices_in env price c"
    and writes: "pool_writes env"
  obtains db' where "ConnectBlock env cl b db = (db', Ok)"
    "sdb_rel env node_of holds price (c @ [b]) db'"
    "signals db' = signals db @ [(block_height b, block_hash b)]"
    "heightWaiters db' = heightWaiters db" "chans db' = chans db"
    "PoolDB db' = (tp_append (block_diff env node_of c b) (PoolDB db))\<lparr>diffDB := diffDB (PoolDB db')\<rparr>"
proof -
  note p = stake_packageD [OF pkg]
  note r = sdb_relD [OF rel]
  have cV: "c \<in> V" and con: "connects env node_of holds c b"
    using p(6,7) c by auto
  have hb: "block_height b = int (length c)"
    using chain_ok_snoc [OF p(2) [OF c(2)] c(1)] by simp
  obtain m vals where mat: "maturing_tickets env cl (int (length c) - TicketMaturity env) db
      = Some (db\<lparr>blockCache := m\<rparr>, matures env (c @ [b]), vals)"
    "wf_map m" "\<forall>k. mget m k = None \<or> mget m k = mget (blockCache db) k"
    "\<forall>k < length (matures env (c @ [b])).
       ticket_value cl vals k (matures env (c @ [b]) ! k) = Some (Some (price (matures env (c @ [b]) ! k)))"
    by (rule maturing_tickets_chain [OF r(6) p(1) mature prices, where b = b])
  obtain iv voted revoked where lib: "headerIV env b = Inr iv"
    "TicketsSpentInBlock (IsSSGen env) b = Some voted" "RevokedTicketsInBlock (IsSSRtx env) b = Some revoked"
    "ConnectNode env (node_of c) iv voted revoked (matures env (c @ [b])) = Inr (Some (node_of (c @ [b])))"
    using con by (auto simp: connects_def)
  obtain sdb' where sdb': "WriteConnectedBestNode env (node_of (c @ [b])) (block_hash b) (StakeDB db) = Inr sdb'"
    "holds sdb' (c @ [b])"
    using con r(2) by (auto simp: connects_def)
  define db3 where "db3 = db\<lparr>blockCache := mput (int (length c)) b m, BestNode := Some (node_of (c @ [b])),
    StakeDB := sdb'\<rparr>"
  have conn: "connectBlock env b voted revoked (matures env (c @ [b]))
      (db\<lparr>blockCache := mput (int (length c)) b m\<rparr>) = (db3, Ok)"
    using lib sdb'(1) r(1) by (simp add: connectBlock_def Let_def db3_def)
  have blocks: "cached_on (c @ [b]) (blockCache db3)"
    using cached_on_put [OF cached_on_sub [OF r(6) mat(2,3)]] by (simp add: db3_def)
  obtain db' where fin:
    "finish_connect env cl b (Winners env (node_of c)) (matures env (c @ [b])) vals (int (length c) - 1) db3
      = (db', Ok)"
    "sdb_rel env node_of holds price (c @ [b]) db'"
    "signals db' = signals db3 @ [(block_height b, block_hash b)]"
    "heightWaiters db' = heightWaiters db3" "chans db' = chans db3"
    "PoolDB db' = (tp_append (block_diff env node_of c b) (PoolDB db3))\<lparr>diffDB := diffDB (PoolDB db')\<rparr>"
    by (rule finish_connect_chain [where db = db3 and node_of = node_of and c = c and b = b
          and holds = holds and price = price and env = env and cl = cl and vals = vals])
      (use r mat con c writes blocks pool_at_chain_diffs [OF pkg cV] sdb' in \<open>simp_all add: db3_def\<close>)
  have "ConnectBlock env cl b db = (db', Ok)"
    using mat(1) lib(2,3) conn fin(1) r(1) hb uint_tip_height [OF pkg cV]
    by (simp add: ConnectBlock_def Let_def)
  then show ?thesis
    using fin that [of db'] by (simp add: db3_def)
qed

end
