(* ===== verification/StakeDBReorg.thy ===== *)
theory StakeDBReorg
  imports StakeDBContract
begin

text \<open>
  Disconnecting blocks, the errors in the middle of both operations, and what the chain monitor makes
  of them (\<open>stakedb/chainmonitor.go\<close>): the switch of the stake database to a side chain.
\<close>

section \<open>Disconnecting a block\<close>

definition serves_tip :: "client \<Rightarrow> Block list \<Rightarrow> Block \<Rightarrow> bool" where
  "serves_tip cl c b \<longleftrightarrow> GetBlockHeader cl (block_hash b) = Inr (bHeader b) \<and>
    GetBlock cl (block_hash (last c)) = Inr (last c)"

definition serves_prices :: "('n, 'u, 'db, 'p) stake_env \<Rightarrow> client \<Rightarrow> (Block list \<Rightarrow> 'n) \<Rightarrow> (Hash \<Rightarrow> i64) \<Rightarrow>
    Block list \<Rightarrow> Block \<Rightarrow> bool" where
  "serves_prices env cl node_of price c b \<longleftrightarrow>
    (\<forall>h \<in> set (Out (block_diff env node_of c b)). knows_price cl price h)"

lemma trim_loop_done: "tipHeight \<le> parentHeight \<Longrightarrow> trim_loop parentHeight tipHeight tp ds = Some (tp, ds)"
  by (simp add: trim_loop.simps)

lemma trim_loop_one:
  assumes "tp_inv tp" "0 < tip tp"
  shows "trim_loop (tip tp - 1) (tip tp) tp [] = Some (trimmed tp, [last (diffs tp)])"
  using trim_eq [OF assms] by (subst trim_loop.simps) (simp add: trim_loop_done)

text \<open>The state without the cache of tickets, which \<open>neglectCache\<close> leaves alone.\<close>

definition sdb_base :: "('n, 'u, 'db, 'p) stake_env \<Rightarrow> (Block list \<Rightarrow> 'n) \<Rightarrow> ('db \<Rightarrow> Block list \<Rightarrow> bool) \<Rightarrow>
    Block list \<Rightarrow> ('n, 'db, 'p) StakeDatabase \<Rightarrow> bool" where
  "sdb_base env node_of holds c db \<longleftrightarrow>
    BestNode db = Some (node_of c) \<and> holds (StakeDB db) c \<and>
    tp_inv (PoolDB db) \<and> diffs (PoolDB db) = chain_diffs env node_of c"

lemma sdb_rel_base: "sdb_rel env node_of holds price c db \<Longrightarrow> sdb_base env node_of holds c db"
  by (simp add: sdb_rel_def sdb_base_def)

lemma base_tip: "sdb_base env node_of holds c db \<Longrightarrow> tip (PoolDB db) = int (length c - 1)"
  unfolding sdb_base_def using tp_invD(1) length_chain_diffs by metis

lemma dbPrevBlock_chain:
  assumes "stake_package env node_of holds V" "c \<noteq> []" "c @ [b] \<in> V" "holds sdb (c @ [b])"
    and "serves_tip cl c b"
  shows "dbPrevBlock env cl sdb = Some (Inr (last c))"
  using stake_packageD(5) [OF assms(1,3,4)] chain_ok_snoc(3) [OF stake_packageD(2) [OF assms(1,3)] assms(2)]
    assms(5)
  by (simp add: dbPrevBlock_def serves_tip_def getHeader_def getBlock_def)

lemma disconnect_guard:
  assumes "stake_package env node_of holds V" "c \<noteq> []" "c @ [b] \<in> V"
  shows "block_height (last c) = uint (nodeHeight env (node_of (c @ [b]))) - 1"
    "block_height (last c) = int (length c) - 1"
  using uint_tip_height [OF assms(1,3)] chain_ok_last [of c]
    chain_ok_snoc(1) [OF stake_packageD(2) [OF assms(1,3)] assms(2)] by simp_all

lemma disconnect_node_chain:
  assumes "stake_package env node_of holds V" "c \<noteq> []" "c @ [b] \<in> V" "holds (StakeDB db) (c @ [b])"
  obtains sdb' where "holds sdb' c"
    "disconnect_node env (last c) (node_of (c @ [b])) db
      = (db\<lparr>BestNode := Some (node_of c), StakeDB := sdb'\<rparr>, Ok)"
proof -
  obtain iv sdb' where "headerIV env (last c) = Inr iv"
    "DisconnectNode env (node_of (c @ [b])) iv (StakeDB db) = Inr (Some (node_of c))"
    "WriteDisconnectedBestNode env (node_of c) (block_hash (last c))
       (UndoData env (node_of (c @ [b]))) (StakeDB db) = Inr sdb'" "holds sdb' c"
    using stake_packageD(8) [OF assms(1-3)] assms(4) unfolding disconnects_def by metis
  then show ?thesis
    using that [of sdb'] by (simp add: disconnect_node_def Let_def)
qed

text \<open>The pool and the cache, before the node is disconnected.\<close>

lemma undo_last:
  assumes pkg: "stake_package env node_of holds V" and c: "c \<noteq> []" "c @ [b] \<in> V"
    and cache: "priced price (live env node_of (c @ [b])) (liveTicketCache db, poolValue db)"
    and prices: "serves_prices env cl node_of price c b"
  obtains m v where
    "undo_all cl [block_diff env node_of c b] db = Some (db\<lparr>liveTicketCache := m, poolValue := v\<rparr>)"
    "priced price (live env node_of c) (m, v)"
proof -
  have con: "connects env node_of holds c b"
    using stake_packageD(7) [OF pkg] c by auto
  then have "priced price (apply_diff (live env node_of c) (block_diff env node_of c b))
      (liveTicketCache db, poolValue db)" "diff_ok (live env node_of c) (block_diff env node_of c b)"
    using cache by (simp_all add: connects_def)
  then obtain m v where "sdb_undoDiff cl (block_diff env node_of c b) db
      = Some (db\<lparr>liveTicketCache := m, poolValue := v\<rparr>)" "priced price (live env node_of c) (m, v)"
    using sdb_undoDiff_priced prices unfolding serves_prices_def by blast
  then show ?thesis
    using that by simp
qed

lemma trimmed_chain:
  assumes "sdb_base env node_of holds (c @ [b]) db" "c \<noteq> []"
  shows "trim_loop (int (length c) - 1) (tip (PoolDB db)) (PoolDB db) []
      = Some (trimmed (PoolDB db), [block_diff env node_of c b])"
    and "tp_inv (trimmed (PoolDB db))" "diffs (trimmed (PoolDB db)) = chain_diffs env node_of c"
proof -
  have tip: "tip (PoolDB db) = int (length c)" "0 < tip (PoolDB db)"
    using base_tip [OF assms(1)] assms(2) by auto
  have d: "diffs (PoolDB db) = chain_diffs env node_of c @ [block_diff env node_of c b]" "tp_inv (PoolDB db)"
    using assms by (simp_all add: sdb_base_def chain_diffs_snoc)
  show "trim_loop (int (length c) - 1) (tip (PoolDB db)) (PoolDB db) []
      = Some (trimmed (PoolDB db), [block_diff env node_of c b])"
    using trim_loop_one [OF d(2) tip(2)] d(1) tip(1) by simp
  show "tp_inv (trimmed (PoolDB db))" "diffs (trimmed (PoolDB db)) = chain_diffs env node_of c"
    using trimmed_inv [OF d(2) tip(2)] d(1) by (simp_all add: trimmed_def Let_def)
qed

lemma disconnectBlock_base:
  assumes pkg: "stake_package env node_of holds V" and c: "c \<noteq> []" "c @ [b] \<in> V"
    and base: "sdb_base env node_of holds (c @ [b]) db" and tip: "serves_tip cl c b"
  obtains sdb' where "holds sdb' c"
    "disconnectBlock env cl True db
      = (db\<lparr>PoolDB := trimmed (PoolDB db), BestNode := Some (node_of c), StakeDB := sdb'\<rparr>, Ok)"
proof -
  have held: "holds (StakeDB (db\<lparr>PoolDB := trimmed (PoolDB db)\<rparr>)) (c @ [b])"
    and node: "BestNode db = Some (node_of (c @ [b]))"
    using base by (simp_all add: sdb_base_def)
  obtain sdb' where "holds sdb' c"
    "disconnect_node env (last c) (node_of (c @ [b])) (db\<lparr>PoolDB := trimmed (PoolDB db)\<rparr>)
      = (db\<lparr>PoolDB := trimmed (PoolDB db), BestNode := Some (node_of c), StakeDB := sdb'\<rparr>, Ok)"
    using disconnect_node_chain [OF pkg c held] by (metis (no_types))
  then show ?thesis
    using that dbPrevBlock_chain [OF pkg c _ tip, of "StakeDB db"] held node
      disconnect_guard [OF pkg c] trimmed_chain(1) [OF base c(1)]
    by (simp add: disconnectBlock_def Let_def)
qed

lemma disconnectBlock_chain:
  assumes pkg: "stake_package env node_of holds V" and c: "c \<noteq> []" "c @ [b] \<in> V"
    and rel: "sdb_rel env node_of holds price (c @ [b]) db" and tip: "serves_tip cl c b"
    and prices: "serves_prices env cl node_of price c b"
  obtains m v sdb' where "holds sdb' c" "priced price (live env node_of c) (m, v)"
    "disconnectBlock env cl False db
      = (db\<lparr>PoolDB := trimmed (PoolDB db), liveTicketCache := m, poolValue := v,
            BestNode := Some (node_of c), StakeDB := sdb'\<rparr>, Ok)"
proof -
  note base = sdb_rel_base [OF rel]
  let ?db1 = "db\<lparr>PoolDB := trimmed (PoolDB db)\<rparr>"
  obtain m v where undo:
    "undo_all cl [block_diff env node_of c b] ?db1 = Some (?db1\<lparr>liveTicketCache := m, poolValue := v\<rparr>)"
    "priced price (live env node_of c) (m, v)"
    by (rule undo_last [OF pkg c _ prices, where db = ?db1]) (use sdb_relD(3) [OF rel] in simp_all)
  have held: "holds (StakeDB (?db1\<lparr>liveTicketCache := m, poolValue := v\<rparr>)) (c @ [b])"
    and node: "BestNode db = Some (node_of (c @ [b]))"
    using base by (simp_all add: sdb_base_def)
  obtain sdb' where "holds sdb' c"
    "disconnect_node env (last c) (node_of (c @ [b])) (?db1\<lparr>liveTicketCache := m, poolValue := v\<rparr>)
      = (db\<lparr>PoolDB := trimmed (PoolDB db), liveTicketCache := m, poolValue := v,
            BestNode := Some (node_of c), StakeDB := sdb'\<rparr>, Ok)"
    using disconnect_node_chain [OF pkg c held] by (metis (no_types))
  then show ?thesis
    using that [of sdb' m v] undo dbPrevBlock_chain [OF pkg c _ tip, of "StakeDB db"] held node
      disconnect_guard [OF pkg c] trimmed_chain(1) [OF base c(1)]
    by (simp add: disconnectBlock_def Let_def del: undo_all.simps)
qed

lemma disconnect_rel:
  assumes "sdb_rel env node_of holds price (c @ [b]) db" "c \<noteq> []" "holds sdb' c"
    "priced price (live env node_of c) (m, v)"
  shows "sdb_rel env node_of holds price c
    (db\<lparr>PoolDB := trimmed (PoolDB db), liveTicketCache := m, poolValue := v,
        BestNode := Some (node_of c), StakeDB := sdb'\<rparr>)"
  using sdb_relD [OF assms(1)] trimmed_chain(2,3) [OF sdb_rel_base [OF assms(1)] assms(2)] assms(3,4)
    cached_on_prefix [of c "[b]"]
  by (simp add: sdb_rel_def)

section \<open>The chain monitor\<close>

datatype switch_error =
    NoSideChain
  | GetBlockHashFailed int string
  | CatchUpFailed Hash int sdb_error
  | DisconnectFailed sdb_error
  | FailedToRewind int int
  | ConnectingFailed Hash sdb_error
  | NotAtDBTip int int

definition ChainMonitor_ConnectBlock :: "('n, 'u, 'db, 'p) stake_env \<Rightarrow> client \<Rightarrow> BlockHeader \<Rightarrow>
    ('n, 'db, 'p) StakeDatabase \<Rightarrow> ('n, 'db, 'p) StakeDatabase \<times> sdb_error status" where
  "ChainMonitor_ConnectBlock env cl header db =
    (case ConnectBlockHash env cl (hdrHash header) db of (db', _, st) \<Rightarrow> (db', st))"

text \<open>The catch-up to the common ancestor: \<open>k\<close> blocks of the node's main chain from height \<open>h\<close> on.\<close>

fun catch_up :: "('n, 'u, 'db, 'p) stake_env \<Rightarrow> client \<Rightarrow> nat \<Rightarrow> int \<Rightarrow>
    ('n, 'db, 'p) StakeDatabase \<Rightarrow> ('n, 'db, 'p) StakeDatabase \<times> switch_error status" where
  "catch_up env cl 0 h db = (db, Ok)"
| "catch_up env cl (Suc k) h db =
    (case GetBlockHash cl h of
       Inl e \<Rightarrow> (db, Err (GetBlockHashFailed h e))
     | Inr hash \<Rightarrow> (case ConnectBlockHash env cl hash db of
         (db', _, Ok) \<Rightarrow> catch_up env cl k (h + 1) db'
       | (db', _, Err e) \<Rightarrow> (db', Err (CatchUpFailed hash h e))
       | (db', _, Panic) \<Rightarrow> (db', Panic)))"

text \<open>
  The blocks of the new chain, with the height and hash of the block that was connected last. When
  one cannot be connected the tip of the database is looked up for the result.
\<close>

fun connect_new :: "('n, 'u, 'db, 'p) stake_env \<Rightarrow> client \<Rightarrow> Hash list \<Rightarrow> int \<Rightarrow> Hash option \<Rightarrow>
    ('n, 'db, 'p) StakeDatabase \<Rightarrow> ('n, 'db, 'p) StakeDatabase \<times> i32 \<times> Hash option \<times> switch_error status" where
  "connect_new env cl [] tipHeight tipHash db =
    (let mainTip = uint (Height env db)
     in if mainTip \<noteq> tipHeight then (db, of_int mainTip, tipHash, Err (NotAtDBTip tipHeight mainTip))
        else (db, of_int mainTip, tipHash, Ok))"
| "connect_new env cl (hash # hs) tipHeight tipHash db =
    (case ConnectBlockHash env cl hash db of
       (db', Some b, Ok) \<Rightarrow> connect_new env cl hs (block_height b) (Some (block_hash b)) db'
     | (db', None, Ok) \<Rightarrow> (db', 0, None, Panic)
     | (db', _, Panic) \<Rightarrow> (db', 0, None, Panic)
     | (db', _, Err e) \<Rightarrow>
         (case DBTipBlockHeader env cl (StakeDB db') of
            None \<Rightarrow> (db', 0, None, Panic)
          | Some (Inl _) \<Rightarrow> (db', of_int (uint (Height env db')), None, Err (ConnectingFailed hash e))
          | Some (Inr currentBlockHdr) \<Rightarrow>
              (db', of_int (uint (Height env db')), Some (hdrHash currentBlockHdr), Err (ConnectingFailed hash e))))"

definition switchToSideChain :: "('n, 'u, 'db, 'p) stake_env \<Rightarrow> client \<Rightarrow> ReorgData option \<Rightarrow>
    ('n, 'db, 'p) StakeDatabase \<Rightarrow> ('n, 'db, 'p) StakeDatabase \<times> i32 \<times> Hash option \<times> switch_error status" where
  "switchToSideChain env cl reorgData db =
    (case reorgData of
       None \<Rightarrow> (db, 0, None, Err NoSideChain)
     | Some r \<Rightarrow>
         if NewChain r = [] then (db, 0, None, Err NoSideChain)
         else
           (let commonAncestorHeight = sint (NewChainHeight r) - int (length (NewChain r));
                mainTip = uint (Height env db);
                moved =
                  (if mainTip < commonAncestorHeight
                   then catch_up env cl (nat (commonAncestorHeight - mainTip)) (mainTip + 1) db
                   else (case DisconnectBlocks env cl (mainTip - commonAncestorHeight) db of
                       (db', Ok) \<Rightarrow> (db', Ok)
                     | (db', Err e) \<Rightarrow> (db', Err (DisconnectFailed e))
                     | (db', Panic) \<Rightarrow> (db', Panic)))
            in case moved of
                 (db1, Ok) \<Rightarrow>
                   if uint (Height env db1) \<noteq> commonAncestorHeight
                   then (db1, 0, None, Err (FailedToRewind (uint (Height env db1)) commonAncestorHeight))
                   else connect_new env cl (NewChain r) 0 None db1
               | (db1, st) \<Rightarrow> (db1, 0, None, st)))"

text \<open>\<open>ReorgHandler\<close> only logs a tip that is not the expected one.\<close>

definition stake_ReorgHandler :: "('n, 'u, 'db, 'p) stake_env \<Rightarrow> client \<Rightarrow> ReorgData \<Rightarrow>
    ('n, 'db, 'p) StakeDatabase \<Rightarrow> ('n, 'db, 'p) StakeDatabase \<times> switch_error status" where
  "stake_ReorgHandler env cl reorg db =
    (case switchToSideChain env cl (Some reorg) db of (db', _, _, st) \<Rightarrow> (db', st))"

section \<open>Following the node\<close>

definition node_on_chain :: "client \<Rightarrow> Block list \<Rightarrow> bool" where
  "node_on_chain cl full \<longleftrightarrow>
    (\<forall>i < length full. GetBlockHash cl (int i) = Inr (block_hash (full ! i)) \<and> knows cl (full ! i))"

lemma valid_prefix:
  assumes "stake_package env node_of holds V" "c \<noteq> []"
  shows "c @ bs \<in> V \<Longrightarrow> c \<in> V"
proof (induction bs rule: rev_induct)
  case (snoc b bs)
  then show ?case
    using stake_packageD(6) [OF assms(1), of "c @ bs" b] assms(2) by auto
qed simp

lemma sdb_rel_Height:
  assumes "stake_package env node_of holds V" "c \<in> V" "sdb_rel env node_of holds price c db"
  shows "uint (Height env db) = int (length c) - 1"
  using uint_tip_height [OF assms(1,2)] sdb_relD(1) [OF assms(3)] by (simp add: Height_def)

lemma can_mature_prefix:
  assumes "node_on_chain cl (c @ rest)" "0 < TicketMaturity env"
  shows "can_mature env cl c db"
proof (cases "0 \<le> int (length c) - TicketMaturity env")
  case True
  let ?mh = "int (length c) - TicketMaturity env"
  have "nat ?mh < length c" "nat ?mh < length (c @ rest)" "int (nat ?mh) = ?mh"
    using True assms(2) by auto
  then have "main_chain_at cl c ?mh"
    using assms(1) [unfolded node_on_chain_def, rule_format, of "nat ?mh"] True
    by (simp add: main_chain_at_def nth_append)
  then show ?thesis
    by (simp add: can_mature_def)
qed (simp add: can_mature_def)

lemma ConnectBlockHash_chain:
  assumes pkg: "stake_package env node_of holds V" and c: "c \<noteq> []" "c @ b # rest \<in> V"
    and rel: "sdb_rel env node_of holds price c db"
    and node: "node_on_chain cl (c @ b # rest)" and prices: "prices_in env price (c @ b # rest)"
    and writes: "pool_writes env"
  obtains db' where "ConnectBlockHash env cl (block_hash b) db = (db', Some b, Ok)"
    "sdb_rel env node_of holds price (c @ [b]) db'"
proof -
  have V: "c @ [b] \<in> V"
    using valid_prefix [OF pkg, of "c @ [b]" rest] c by simp
  have know: "knows cl b"
    using node [unfolded node_on_chain_def, rule_format, of "length c"] by simp
  have pc: "prices_in env price c"
    using prices by (auto simp: prices_in_def)
  obtain db' where "ConnectBlock env cl b db = (db', Ok)" "sdb_rel env node_of holds price (c @ [b]) db'"
    using ConnectBlock_chain [OF pkg c(1) V rel can_mature_prefix [OF node stake_packageD(1) [OF pkg]] pc writes]
    by metis
  then show ?thesis
    using that know by (simp add: ConnectBlockHash_def knows_def)
qed

lemma catch_up_chain:
  assumes pkg: "stake_package env node_of holds V" and c: "c \<noteq> []" "c @ bs @ rest \<in> V"
    and rel: "sdb_rel env node_of holds price c db"
    and node: "node_on_chain cl (c @ bs @ rest)" and prices: "prices_in env price (c @ bs @ rest)"
    and writes: "pool_writes env"
  obtains db' where "catch_up env cl (length bs) (int (length c)) db = (db', Ok)"
    "sdb_rel env node_of holds price (c @ bs) db'"
  using c rel node prices
proof (induction bs arbitrary: c db thesis)
  case (Cons b bs)
  obtain db1 where db1: "ConnectBlockHash env cl (block_hash b) db = (db1, Some b, Ok)"
    "sdb_rel env node_of holds price (c @ [b]) db1"
    using ConnectBlockHash_chain [OF pkg Cons.prems(2) _ Cons.prems(4), of b "bs @ rest"] Cons.prems writes
    by (metis append_Cons)
  have "GetBlockHash cl (int (length c)) = Inr (block_hash b)"
    using Cons.prems(5) [unfolded node_on_chain_def, rule_format, of "length c"] by simp
  moreover obtain db' where "catch_up env cl (length bs) (int (length (c @ [b]))) db1 = (db', Ok)"
    "sdb_rel env node_of holds price ((c @ [b]) @ bs) db'"
    using Cons.IH [OF _ _ _ db1(2)] Cons.prems by auto
  ultimately show ?case
    using Cons.prems(1) [of db'] db1(1) by (simp add: add.commute)
qed simp

lemma connect_new_chain:
  assumes pkg: "stake_package env node_of holds V" and c: "c \<noteq> []" "c @ bs \<in> V"
    and rel: "sdb_rel env node_of holds price c db"
    and node: "node_on_chain cl (c @ bs)" and prices: "prices_in env price (c @ bs)"
    and writes: "pool_writes env"
    and tips: "bs = [] \<Longrightarrow> tipHeight = int (length c) - 1"
  obtains db' where
    "connect_new env cl (map block_hash bs) tipHeight tipHash db
      = (db', of_int (int (length (c @ bs)) - 1), (if bs = [] then tipHash else Some (block_hash (last bs))), Ok)"
    "sdb_rel env node_of holds price (c @ bs) db'"
  using c rel node prices tips
proof (induction bs arbitrary: c db tipHeight tipHash thesis)
  case Nil
  then show ?case
    using sdb_rel_Height [OF pkg _ Nil.prems(4)] by simp
next
  case (Cons b bs)
  obtain db1 where db1: "ConnectBlockHash env cl (block_hash b) db = (db1, Some b, Ok)"
    "sdb_rel env node_of holds price (c @ [b]) db1"
    using ConnectBlockHash_chain [OF pkg Cons.prems(2,3,4,5,6) writes] by metis
  have V: "c @ [b] \<in> V"
    using valid_prefix [OF pkg, of "c @ [b]" bs] Cons.prems(3) by simp
  have hb: "block_height b = int (length c)"
    using chain_ok_snoc [OF stake_packageD(2) [OF pkg V] Cons.prems(2)] by simp
  obtain db' where
    "connect_new env cl (map block_hash bs) (block_height b) (Some (block_hash b)) db1
      = (db', of_int (int (length ((c @ [b]) @ bs)) - 1),
         (if bs = [] then Some (block_hash b) else Some (block_hash (last bs))), Ok)"
    "sdb_rel env node_of holds price ((c @ [b]) @ bs) db'"
    using Cons.IH [OF _ _ _ db1(2), of "block_height b" "Some (block_hash b)"] Cons.prems hb by auto
  then show ?case
    using Cons.prems(1) [of db'] db1(1) by auto
qed

lemma disconnect_times_chain:
  assumes pkg: "stake_package env node_of holds V" and c: "c \<noteq> []" "c @ bs \<in> V"
    and rel: "sdb_rel env node_of holds price (c @ bs) db"
    and tips: "\<forall>o1 b o2. bs = o1 @ b # o2 \<longrightarrow> serves_tip cl (c @ o1) b \<and> serves_prices env cl node_of price (c @ o1) b"
  obtains db' where "disconnect_times env cl (length bs) db = (db', Ok)"
    "sdb_rel env node_of holds price c db'"
  using c rel tips
proof (induction bs arbitrary: db thesis rule: rev_induct)
  case (snoc b bs)
  have ne: "c @ bs \<noteq> []" and V: "(c @ bs) @ [b] \<in> V" and rel: "sdb_rel env node_of holds price ((c @ bs) @ [b]) db"
    using snoc.prems by auto
  have srv: "serves_tip cl (c @ bs) b" "serves_prices env cl node_of price (c @ bs) b"
    using snoc.prems(5) by auto
  obtain m v sdb' where dis: "holds sdb' (c @ bs)" "priced price (live env node_of (c @ bs)) (m, v)"
    "disconnectBlock env cl False db
      = (db\<lparr>PoolDB := trimmed (PoolDB db), liveTicketCache := m, poolValue := v,
            BestNode := Some (node_of (c @ bs)), StakeDB := sdb'\<rparr>, Ok)"
    using disconnectBlock_chain [OF pkg ne V rel srv] by metis
  obtain db' where "disconnect_times env cl (length bs)
      (db\<lparr>PoolDB := trimmed (PoolDB db), liveTicketCache := m, poolValue := v,
            BestNode := Some (node_of (c @ bs)), StakeDB := sdb'\<rparr>) = (db', Ok)"
    "sdb_rel env node_of holds price c db'"
  proof (rule snoc.IH [OF _ snoc.prems(2) _ disconnect_rel [OF rel ne dis(1,2)]])
    show "c @ bs \<in> V"
      using valid_prefix [OF pkg ne, of "[b]"] V by simp
    show "\<forall>o1 b' o2. bs = o1 @ b' # o2 \<longrightarrow>
        serves_tip cl (c @ o1) b' \<and> serves_prices env cl node_of price (c @ o1) b'"
      using snoc.prems(5) by auto
  qed
  then show ?case
    using snoc.prems(1) [of db'] dis(3) by simp
qed simp

end
