(* ===== verification/StakeDBSync.thy ===== *)
theory StakeDBSync
  imports StakeDBReorg
begin

text \<open>
  The properties of the stake database and its chain monitor, with an example library whose node is
  the chain itself: two chains that part after the second block, and one ticket that matures in the
  third block and is chosen in the fourth.
\<close>

section \<open>An example\<close>

definition hash_of :: "u8 \<Rightarrow> Hash" where
  "hash_of k = replicate 32 k"

definition ex_ticket :: stx where
  "ex_ticket = \<lparr>stxHash = hash_of 101, stxPrevs = [], stxValues = [5], stxBytes = [1]\<rparr>"

definition ex_vote :: stx where
  "ex_vote = \<lparr>stxHash = hash_of 102, stxPrevs = [hash_of 0, hash_of 101], stxValues = [], stxBytes = [2]\<rparr>"

definition ex_block :: "u8 \<Rightarrow> u8 \<Rightarrow> u32 \<Rightarrow> stx list \<Rightarrow> Block" where
  "ex_block h p i txs = \<lparr>bHeader = \<lparr>hdrHash = hash_of h, hdrPrev = hash_of p, hdrHeight = i\<rparr>, STransactions = txs\<rparr>"

definition bG :: Block where
  "bG = ex_block 1 0 0 []"

definition b1 :: Block where
  "b1 = ex_block 2 1 1 [ex_ticket]"

definition b2 :: Block where
  "b2 = ex_block 3 2 2 []"

definition x2 :: Block where
  "x2 = ex_block 4 2 2 []"

definition x3 :: Block where
  "x3 = ex_block 5 4 3 [ex_vote]"


definition ex_blocks :: "Block list" where
  "ex_blocks = [bG, b1, b2, x2, x3]"

definition ex_env :: "(Block list, unit, Block list, unit) stake_env" where
  "ex_env =
    \<lparr>IsSStx = (\<lambda>tx. stxBytes tx = [1]), IsSSGen = (\<lambda>tx. stxBytes tx = [2]), IsSSRtx = (\<lambda>tx. stxBytes tx = [3]),
     headerIV = (\<lambda>b. Inr (block_hash b)),
     nodeHeight = (\<lambda>n. of_nat (length n - 1)),
     Winners = (\<lambda>n. if length n = 3 then [hash_of 101] else []),
     LiveTickets = (\<lambda>n. if length n = 3 then [hash_of 101] else []),
     ExpiredByBlock = (\<lambda>n. []), nodePoolSize = (\<lambda>n. if length n = 3 then 1 else 0), UndoData = (\<lambda>n. ()),
     ConnectNode = (\<lambda>n iv _ _ _.
       Inr (map_option (\<lambda>b. n @ [b]) (List.find (\<lambda>b. block_hash b = iv) ex_blocks))),
     DisconnectNode = (\<lambda>n iv _. Inr (Some (butlast n))),
     chainState = (\<lambda>sdb. Some (block_hash (last sdb) @ [of_nat (length sdb - 1), 0, 0, 0])),
     WriteConnectedBestNode = (\<lambda>n _ _. Inr n), WriteDisconnectedBestNode = (\<lambda>n _ _ _. Inr n),
     dbSet = (\<lambda>_ _ d. Inr d), TicketMaturity = 1,
     toCoin = (\<lambda>v. v), divFloat = (\<lambda>v _. v), printHash = (\<lambda>_. [])\<rparr>"

definition ex_chains :: "Block list set" where
  "ex_chains = {[bG], [bG, b1], [bG, b1, b2], [bG, b1, x2], [bG, b1, x2, x3]}"

definition ex_price :: "Hash \<Rightarrow> i64" where
  "ex_price h = 5"

text \<open>The client after the reorganisation: the chain by height is the new one, all blocks are known.\<close>

definition ex_client :: client where
  "ex_client =
    \<lparr>GetBlockHash = (\<lambda>i. if 0 \<le> i \<and> i < 4 then Inr (block_hash ([bG, b1, x2, x3] ! nat i)) else Inl []),
     GetBlock = (\<lambda>h. case List.find (\<lambda>b. block_hash b = h) ex_blocks of None \<Rightarrow> Inl [] | Some b \<Rightarrow> Inr b),
     GetBlockHeader = (\<lambda>h. case List.find (\<lambda>b. block_hash b = h) ex_blocks of
       None \<Rightarrow> Inl [] | Some b \<Rightarrow> Inr (bHeader b)),
     GetRawTransaction = (\<lambda>h. if h = hash_of 101 then Inr ex_ticket else Inl [])\<rparr>"

lemmas ex_defs = bG_def b1_def b2_def x2_def x3_def ex_block_def block_hash_def block_height_def

lemma hash_of_eq [simp]: "hash_of j = hash_of k \<longleftrightarrow> j = k"
  by (simp add: hash_of_def)

lemma length_hash_of [simp]: "length (hash_of k) = HashSize"
  by (simp add: hash_of_def HashSize_def)

lemma ex_state:
  assumes "c \<in> ex_chains"
  shows "dbState ex_env c = Some (Inr (of_nat (length c - 1), block_hash (last c)))"
proof -
  have len: "length (block_hash (last c)) = HashSize"
    using assms by (auto simp: ex_chains_def ex_defs)
  have "get32le [of_nat (length c - 1), 0, 0, 0] = of_nat (length c - 1)"
    using assms by (auto simp: ex_chains_def get32le_def)
  then show ?thesis
    using len by (simp add: dbState_def ex_env_def subslice_def)
qed

lemma ex_steps:
  "c \<noteq> [] \<and> c @ [b] \<in> ex_chains \<longleftrightarrow>
    (c, b) \<in> {([bG], b1), ([bG, b1], b2), ([bG, b1], x2), ([bG, b1, x2], x3)}"
  by (auto simp: ex_chains_def snoc_eq_iff_butlast)

lemma ex_chain_ok: "c \<in> ex_chains \<Longrightarrow> chain_ok c"
  unfolding ex_chains_def insert_iff empty_iff
  by (elim disjE) (simp_all add: chain_ok_def ex_defs All_less_Suc)

lemma ex_find [simp]:
  "List.find (\<lambda>b. block_hash b = hash_of 2) ex_blocks = Some b1"
  "List.find (\<lambda>b. block_hash b = hash_of 3) ex_blocks = Some b2"
  "List.find (\<lambda>b. block_hash b = hash_of 4) ex_blocks = Some x2"
  "List.find (\<lambda>b. block_hash b = hash_of 5) ex_blocks = Some x3"
  by (simp_all add: ex_blocks_def ex_defs)

lemma ex_hash [simp]:
  "block_hash bG = hash_of 1" "block_hash b1 = hash_of 2" "block_hash b2 = hash_of 3"
  "block_hash x2 = hash_of 4" "block_hash x3 = hash_of 5"
  by (simp_all add: ex_defs)

lemma ex_txs [simp]:
  "STransactions bG = []" "STransactions b1 = [ex_ticket]" "STransactions b2 = []"
  "STransactions x2 = []" "STransactions x3 = [ex_vote]"
  by (simp_all add: ex_defs)

lemma ex_kinds [simp]:
  "stxBytes ex_ticket = [1]" "stxBytes ex_vote = [2]" "stxHash ex_ticket = hash_of 101"
  "idx (stxPrevs ex_vote) 1 = Some (hash_of 101)"
  by (simp_all add: ex_ticket_def ex_vote_def idx_def)

lemma ex_connects:
  assumes "(c, b) \<in> {([bG], b1), ([bG, b1], b2), ([bG, b1], x2), ([bG, b1, x2], x3)}"
  shows "connects ex_env id (\<lambda>sdb c. sdb = c) c b"
proof -
  note defs = connects_def ex_env_def TicketsSpentInBlock_def RevokedTicketsInBlock_def matures_def
    TicketsInBlock_def block_diff_def diff_ok_def apply_diff_def applyDiff_eq Let_def
  have "connects ex_env id (\<lambda>sdb c. sdb = c) [bG] b1" by (simp add: defs)
  moreover have "connects ex_env id (\<lambda>sdb c. sdb = c) [bG, b1] b2" by (simp add: defs)
  moreover have "connects ex_env id (\<lambda>sdb c. sdb = c) [bG, b1] x2" by (simp add: defs)
  moreover have "connects ex_env id (\<lambda>sdb c. sdb = c) [bG, b1, x2] x3" by (simp add: defs)
  ultimately show ?thesis
    using assms by blast
qed

lemma ex_package: "stake_package ex_env id (\<lambda>sdb c. sdb = c) ex_chains"
proof -
  have "disconnects ex_env id (\<lambda>sdb c. sdb = c) c b" for c b
    by (simp add: disconnects_def ex_env_def)
  moreover have "c \<in> ex_chains" if "c \<noteq> [] \<and> c @ [b] \<in> ex_chains" for c b
    using that unfolding ex_steps by (auto simp: ex_chains_def)
  moreover have "LiveTickets ex_env (id c) = []" if "length c = 1" for c
    using that by (simp add: ex_env_def)
  ultimately show ?thesis
    unfolding stake_package_def ex_steps
    using ex_chain_ok ex_state ex_connects ex_steps by (auto simp: ex_env_def)
qed

text \<open>The state of the database at the tip of the old chain.\<close>

definition ex_pool :: "Block list \<Rightarrow> unit TicketPool" where
  "ex_pool c = NewTicketPool (chain_diffs ex_env id c) ()"

definition ex_db :: "Block list \<Rightarrow> (Block list, Block list, unit) StakeDatabase" where
  "ex_db c = \<lparr>StakeDB = c, BestNode = Some c, blockCache = [],
     liveTicketCache = (if length c = 3 then [(hash_of 101, 5)] else []),
     poolValue = (if length c = 3 then 5 else 0),
     poolInfo = \<lparr>poolInfoMap = [], expireQueue = [], maxSize = 513\<rparr>,
     PoolDB = ex_pool c, heightWaiters = [], chans = [], signals = [], nextChan = 0\<rparr>"

lemma ex_rel: "c \<in> ex_chains \<Longrightarrow> sdb_rel ex_env id (\<lambda>sdb c. sdb = c) ex_price c (ex_db c)"
  using NewTicketPool_inv [of "chain_diffs ex_env id c" "()"] pool_at_chain_diffs [OF ex_package, of c]
  by (auto simp: sdb_rel_def ex_db_def ex_pool_def priced_def ex_env_def cached_on_def pic_inv_def
      ex_price_def wf_map_def mget_def NewTicketPool_def)

lemma ex_writes: "pool_writes ex_env"
  by (simp add: pool_writes_def ex_env_def)

lemma ex_prices: "set c \<subseteq> set ex_blocks \<Longrightarrow> prices_in ex_env ex_price c"
  by (auto simp: prices_in_def ex_blocks_def ex_env_def ex_defs ex_ticket_def ex_vote_def tx_price_def
      ex_price_def idx_def)

lemma ex_node: "node_on_chain ex_client [bG, b1, x2, x3]"
  by (simp add: node_on_chain_def knows_def ex_client_def ex_blocks_def ex_defs All_less_Suc)

section \<open>Connecting and disconnecting\<close>

text \<open>
  C2. Refinement: the stake database implements a chain of blocks. From a state that stands for a
  chain, connecting a block that extends it ends in a state that stands for the longer chain, with
  node, database, ticket cache, pool value and ticket pool all at the new tip, and starts the signal of
  the waiters for its height.
\<close>

theorem ConnectBlock_refines:
  assumes "stake_package env node_of holds V" "c \<noteq> []" "c @ [b] \<in> V"
    and "sdb_rel env node_of holds price c db"
    and "can_mature env cl c db" "prices_in env price c" "pool_writes env"
  shows "\<exists>db'. ConnectBlock env cl b db = (db', Ok) \<and> sdb_rel env node_of holds price (c @ [b]) db' \<and>
    signals db' = signals db @ [(block_height b, block_hash b)]"
  using ConnectBlock_chain [OF assms] by metis

theorem ConnectBlock_refines_witness:
  "\<exists>db'. ConnectBlock ex_env ex_client x3 (ex_db [bG, b1, x2]) = (db', Ok) \<and>
    BestNode db' = Some [bG, b1, x2, x3] \<and> poolValue db' = 0 \<and> tip (PoolDB db') = 3"
proof -
  let ?c = "[bG, b1, x2]"
  have V: "?c @ [x3] \<in> ex_chains" "?c \<in> ex_chains"
    by (simp_all add: ex_chains_def)
  have mature: "can_mature ex_env ex_client ?c (ex_db ?c)"
    by (rule can_mature_prefix [of _ _ "[x3]"]) (use ex_node stake_packageD(1) [OF ex_package] in simp_all)
  have prices: "prices_in ex_env ex_price ?c"
    by (rule ex_prices) (simp add: ex_blocks_def)
  obtain db' where db': "ConnectBlock ex_env ex_client x3 (ex_db ?c) = (db', Ok)"
    "sdb_rel ex_env id (\<lambda>sdb c. sdb = c) ex_price (?c @ [x3]) db'"
    using ConnectBlock_refines [OF ex_package _ V(1) ex_rel [OF V(2)] mature prices ex_writes] by auto
  have "poolValue db' = 0"
    using sdb_relD(3) [OF db'(2)] by (simp add: priced_def ex_env_def)
  then show ?thesis
    using db' sdb_relD(1) [OF db'(2)] sdb_rel_tip [OF db'(2)] by simp
qed

text \<open>
  C30. Round trip: disconnecting the block that was just connected brings back the best node, the value
  of the pool, the cached tickets with their prices, and the diffs and the tip of the ticket pool.
\<close>

theorem connect_disconnect_roundtrip:
  assumes "stake_package env node_of holds V" "c \<noteq> []" "c @ [b] \<in> V"
    and "sdb_rel env node_of holds price c db"
    and "can_mature env cl c db" "prices_in env price c" "pool_writes env"
    and "serves_tip cl c b" "serves_prices env cl node_of price c b"
  shows "\<exists>db1 db2. ConnectBlock env cl b db = (db1, Ok) \<and> DisconnectBlock env cl False db1 = (db2, Ok) \<and>
    sdb_rel env node_of holds price c db2 \<and> BestNode db2 = BestNode db \<and> poolValue db2 = poolValue db \<and>
    (\<forall>h. mget (liveTicketCache db2) h = mget (liveTicketCache db) h) \<and>
    diffs (PoolDB db2) = diffs (PoolDB db) \<and> tip (PoolDB db2) = tip (PoolDB db)"
proof -
  obtain db1 where db1: "ConnectBlock env cl b db = (db1, Ok)" "sdb_rel env node_of holds price (c @ [b]) db1"
    using ConnectBlock_chain [OF assms(1-7)] by metis
  obtain m v sdb' where d: "holds sdb' c" "priced price (live env node_of c) (m, v)"
    "disconnectBlock env cl False db1
      = (db1\<lparr>PoolDB := trimmed (PoolDB db1), liveTicketCache := m, poolValue := v,
            BestNode := Some (node_of c), StakeDB := sdb'\<rparr>, Ok)" (is "_ = (?db2, Ok)")
    using disconnectBlock_chain [OF assms(1-3) db1(2) assms(8,9)] by metis
  have rel: "sdb_rel env node_of holds price c ?db2"
    by (rule disconnect_rel [OF db1(2) assms(2) d(1,2)])
  have "tip (PoolDB ?db2) = tip (PoolDB db)"
    using sdb_rel_tip [OF rel] sdb_rel_tip [OF assms(4)] by simp
  then show ?thesis
    using db1(1) d(3) rel sdb_relD(1,3,5) [OF rel] sdb_relD(1,3,5) [OF assms(4)]
    by (intro exI [of _ db1] exI [of _ ?db2]) (simp add: DisconnectBlock_def priced_def)
qed

lemma ex_serves:
  "serves_tip ex_client [bG, b1] b2" "serves_prices ex_env ex_client id ex_price [bG, b1] b2"
  "serves_tip ex_client [bG, b1, x2] x3" "serves_prices ex_env ex_client id ex_price [bG, b1, x2] x3"
  by (simp_all add: serves_tip_def serves_prices_def block_diff_def ex_env_def ex_client_def knows_price_def
      tx_price_def ex_price_def ex_ticket_def idx_def)

theorem connect_disconnect_roundtrip_witness:
  "\<exists>db1 db2. ConnectBlock ex_env ex_client x3 (ex_db [bG, b1, x2]) = (db1, Ok) \<and>
    DisconnectBlock ex_env ex_client False db1 = (db2, Ok) \<and>
    mget (liveTicketCache db2) (hash_of 101) = Some 5 \<and> poolValue db2 = 5"
proof -
  let ?c = "[bG, b1, x2]"
  have V: "?c @ [x3] \<in> ex_chains" "?c \<in> ex_chains"
    by (simp_all add: ex_chains_def)
  have mature: "can_mature ex_env ex_client ?c (ex_db ?c)"
    by (rule can_mature_prefix [of _ _ "[x3]"]) (use ex_node stake_packageD(1) [OF ex_package] in simp_all)
  have prices: "prices_in ex_env ex_price ?c"
    by (rule ex_prices) (simp add: ex_blocks_def)
  have "mget (liveTicketCache (ex_db ?c)) (hash_of 101) = Some 5" "poolValue (ex_db ?c) = 5"
    by (simp_all add: ex_db_def mget_def)
  then show ?thesis
    using connect_disconnect_roundtrip [OF ex_package _ V(1) ex_rel [OF V(2)] mature prices ex_writes
        ex_serves(3,4)] by auto
qed

section \<open>Errors in the middle\<close>

text \<open>
  When the stake node cannot be disconnected, the ticket pool and the cache have already been taken
  back. Calling again after the error completes the disconnection, with the result of a call without
  the error.
\<close>

theorem disconnect_retry:
  assumes "stake_package env node_of holds V" "c \<noteq> []" "c @ [b] \<in> V"
    and "sdb_rel env node_of holds price (c @ [b]) db" "serves_tip cl c b"
    and "serves_prices env cl node_of price c b"
  shows "\<exists>db1. DisconnectBlock (env\<lparr>DisconnectNode := \<lambda>_ _ _. Inl e\<rparr>) cl False db = (db1, Err (StakeNodeError e)) \<and>
    tip (PoolDB db1) = tip (PoolDB db) - 1 \<and> BestNode db1 = BestNode db \<and>
    DisconnectBlock env cl False db1 = DisconnectBlock env cl False db"
proof -
  let ?env = "env\<lparr>DisconnectNode := \<lambda>_ _ _. Inl e\<rparr>"
  note base = sdb_rel_base [OF assms(4)]
  let ?t = "trimmed (PoolDB db)"
  have node: "BestNode db = Some (node_of (c @ [b]))" and held: "holds (StakeDB db) (c @ [b])"
    using sdb_relD(1,2) [OF assms(4)] by auto
  obtain m v where undo: "undo_all cl [block_diff env node_of c b] (db\<lparr>PoolDB := ?t\<rparr>)
      = Some (db\<lparr>PoolDB := ?t, liveTicketCache := m, poolValue := v\<rparr>)" (is "_ = Some ?db1")
    using undo_last [OF assms(1-3) _ assms(6), of "db\<lparr>PoolDB := ?t\<rparr>"] sdb_relD(3) [OF assms(4)]
    by (simp del: undo_all.simps) blast
  note prev = dbPrevBlock_chain [OF assms(1-3) held assms(5)]
  have prev': "dbPrevBlock ?env cl (StakeDB db) = Some (Inr (last c))"
    using prev by (simp add: dbPrevBlock_def dbState_def)
  note guard = disconnect_guard [OF assms(1-3)]
  obtain iv where iv: "headerIV env (last c) = Inr iv"
    using stake_packageD(8) [OF assms(1-3)] unfolding disconnects_def by metis
  have tips: "tip ?t = int (length c) - 1" "tip (PoolDB db) = int (length c)"
    using base_tip [OF base] by (simp_all add: trimmed_def Let_def)
  have fail: "disconnectBlock ?env cl False db = (?db1, Err (StakeNodeError e))"
    using node prev' guard trimmed_chain(1) [OF base assms(2)] undo iv
    by (simp add: disconnectBlock_def disconnect_node_def Let_def del: undo_all.simps)
  have "?db1\<lparr>PoolDB := ?t\<rparr> = ?db1"
    by (cases db) simp
  moreover have "disconnectBlock env cl False ?db1
      = disconnect_node env (last c) (node_of (c @ [b])) (?db1\<lparr>PoolDB := ?t\<rparr>)"
    using node prev guard tips(1) by (simp add: disconnectBlock_def Let_def trim_loop_done)
  ultimately have "disconnectBlock env cl False ?db1 = disconnect_node env (last c) (node_of (c @ [b])) ?db1"
    by (simp only:)
  moreover have "disconnectBlock env cl False db = disconnect_node env (last c) (node_of (c @ [b])) ?db1"
    using node prev guard trimmed_chain(1) [OF base assms(2)] undo
    by (simp add: disconnectBlock_def Let_def del: undo_all.simps)
  ultimately show ?thesis
    using fail tips by (intro exI [of _ ?db1]) (simp add: DisconnectBlock_def)
qed

theorem disconnect_retry_witness:
  "\<exists>db1. DisconnectBlock (ex_env\<lparr>DisconnectNode := \<lambda>_ _ _. Inl ''e''\<rparr>) ex_client False (ex_db [bG, b1, b2])
      = (db1, Err (StakeNodeError ''e'')) \<and> tip (PoolDB db1) = 1 \<and>
    DisconnectBlock ex_env ex_client False db1 = DisconnectBlock ex_env ex_client False (ex_db [bG, b1, b2])"
proof -
  have V: "[bG, b1] @ [b2] \<in> ex_chains" and rel:
    "sdb_rel ex_env id (\<lambda>sdb c. sdb = c) ex_price ([bG, b1] @ [b2]) (ex_db [bG, b1, b2])"
    using ex_rel [of "[bG, b1, b2]"] by (simp_all add: ex_chains_def)
  have "tip (PoolDB (ex_db [bG, b1, b2])) = 2"
    using sdb_rel_tip [OF rel] by simp
  with disconnect_retry [OF ex_package _ V rel ex_serves(1,2), of "''e''"] show ?thesis
    by auto
qed

text \<open>
  C39. When the stake database cannot be written, the best node has already been advanced. Then the
  node is one block ahead of its database for good: connecting the block again is refused, and an
  attempt to disconnect it panics.
\<close>

theorem failed_write_wedges:
  assumes "stake_package env node_of holds V" "(c @ [a]) @ [b] \<in> V" "c \<noteq> []"
    and "sdb_rel env node_of holds price (c @ [a]) db"
    and "node_on_chain cl (c @ [a])" "prices_in env price (c @ [a])"
    and "block_hash a \<noteq> block_hash b"
  shows "\<exists>db1. ConnectBlock (env\<lparr>WriteConnectedBestNode := \<lambda>_ _ _. Inl e\<rparr>) cl b db = (db1, Err (StakeDBError e)) \<and>
    BestNode db1 = Some (node_of ((c @ [a]) @ [b])) \<and> tip (PoolDB db1) = tip (PoolDB db) \<and>
    snd (ConnectBlock env cl b db1) = Err (CannotConnect (int (length c) + 1) (int (length c) + 1)) \<and>
    snd (DisconnectBlock env cl neglectCache db1) = Panic"
proof -
  let ?c = "c @ [a]"
  let ?env = "env\<lparr>WriteConnectedBestNode := \<lambda>_ _ _. Inl e\<rparr>"
  note p = stake_packageD [OF assms(1)]
  note r = sdb_relD [OF assms(4)]
  have cV: "?c \<in> V" "c \<in> V" and con: "connects env node_of holds ?c b"
    using p(6) [of ?c b] p(6) [OF assms(3), of a] p(7) [of ?c b] assms(2) by auto
  have hb: "block_height b = int (length c) + 1"
    using chain_ok_snoc [OF p(2) [OF assms(2)]] by simp
  have mature: "can_mature env cl ?c db'" for db'
    using can_mature_prefix [of cl ?c "[]"] assms(5) p(1) by simp
  obtain m vals where mat: "maturing_tickets env cl (int (length ?c) - TicketMaturity env) db
      = Some (db\<lparr>blockCache := m\<rparr>, matures env (?c @ [b]), vals)"
    "wf_map m" "\<forall>k. mget m k = None \<or> mget m k = mget (blockCache db) k"
    using maturing_tickets_chain [OF r(6) p(1) mature assms(6)] by metis
  obtain iv voted revoked where lib: "headerIV env b = Inr iv"
    "TicketsSpentInBlock (IsSSGen env) b = Some voted" "RevokedTicketsInBlock (IsSSRtx env) b = Some revoked"
    "ConnectNode env (node_of ?c) iv voted revoked (matures env (?c @ [b])) = Inr (Some (node_of (?c @ [b])))"
    using con by (auto simp: connects_def)
  define db1 where "db1 = db\<lparr>blockCache := mput (int (length ?c)) b m, BestNode := Some (node_of (?c @ [b]))\<rparr>"
  have heights: "uint (nodeHeight env (node_of ?c)) = int (length c)"
    "uint (nodeHeight env (node_of (?c @ [b]))) = int (length c) + 1"
    using uint_tip_height [OF assms(1) cV(1)] uint_tip_height [OF assms(1) assms(2)] by simp_all
  have mat': "maturing_tickets ?env cl (int (length ?c) - TicketMaturity env) db
      = Some (db\<lparr>blockCache := m\<rparr>, matures env (?c @ [b]), vals)"
  proof -
    have "IsSStx ?env = IsSStx env" "TicketMaturity ?env = TicketMaturity env"
      by simp_all
    then show ?thesis
      using mat(1) unfolding maturing_tickets_def by (simp only:)
  qed
  have "ConnectBlock ?env cl b db = (db1, Err (StakeDBError e))"
    using mat' lib r(1) hb heights
    by (simp add: ConnectBlock_def connectBlock_def Let_def db1_def add.commute)
  moreover have "snd (ConnectBlock env cl b db1) = Err (CannotConnect (int (length c) + 1) (int (length c) + 1))"
  proof -
    have "cached_on ?c (blockCache db1)"
      using cached_on_above [OF cached_on_sub [OF r(6) mat(2,3)], of "int (length ?c)" b] by (simp add: db1_def)
    then obtain m' vals' where "maturing_tickets env cl (int (length ?c) - TicketMaturity env) db1
        = Some (db1\<lparr>blockCache := m'\<rparr>, matures env (?c @ [b]), vals')"
      using maturing_tickets_chain [OF _ p(1) mature assms(6)] by metis
    moreover have "dbState env (StakeDB db) = Some (Inr (of_nat (length ?c - 1), block_hash a))"
      using p(5) [OF cV(1) r(2)] by simp
    ultimately show ?thesis
      using lib hb heights assms(7) by (simp add: ConnectBlock_def Let_def db1_def add.commute)
  qed
  moreover have "snd (DisconnectBlock env cl neglectCache db1) = Panic"
  proof -
    have "knows cl a" "knows cl (last c)"
      using assms(5) [unfolded node_on_chain_def, rule_format, of "length c"]
        assms(5) [unfolded node_on_chain_def, rule_format, of "length c - 1"] assms(3)
      by (simp_all add: nth_append last_conv_nth)
    then have "dbPrevBlock env cl (StakeDB db) = Some (Inr (last c))"
      using dbPrevBlock_chain [OF assms(1,3) cV(1) r(2)] by (simp add: serves_tip_def knows_def)
    then show ?thesis
      using heights disconnect_guard(2) [OF assms(1,3) cV(1)]
      by (simp add: DisconnectBlock_def disconnectBlock_def db1_def)
  qed
  ultimately show ?thesis
    by (intro exI [of _ db1]) (simp add: db1_def)
qed

theorem failed_write_wedges_witness:
  "\<exists>db1. ConnectBlock (ex_env\<lparr>WriteConnectedBestNode := \<lambda>_ _ _. Inl ''disk full''\<rparr>) ex_client x3
      (ex_db [bG, b1, x2]) = (db1, Err (StakeDBError ''disk full'')) \<and>
    snd (ConnectBlock ex_env ex_client x3 db1) = Err (CannotConnect 3 3) \<and>
    snd (DisconnectBlock ex_env ex_client False db1) = Panic"
proof -
  have V: "([bG, b1] @ [x2]) @ [x3] \<in> ex_chains" and rel:
    "sdb_rel ex_env id (\<lambda>sdb c. sdb = c) ex_price ([bG, b1] @ [x2]) (ex_db [bG, b1, x2])"
    using ex_rel [of "[bG, b1, x2]"] by (simp_all add: ex_chains_def)
  have node: "node_on_chain ex_client ([bG, b1] @ [x2])"
    using ex_node by (simp add: node_on_chain_def All_less_Suc)
  have prices: "prices_in ex_env ex_price ([bG, b1] @ [x2])"
    by (rule ex_prices) (simp add: ex_blocks_def)
  show ?thesis
    using failed_write_wedges [OF ex_package V _ rel node prices, of "''disk full''" False] by auto
qed

text \<open>
  A block that is refused because it does not extend the tip has by then replaced the cached block
  of its height. The tickets that mature later are those of the refused block, not those of the chain.
\<close>

theorem refused_block_matures:
  assumes "stake_package env node_of holds V" "c \<in> V" "sdb_rel env node_of holds price c db"
    and "block_height b < int (length c) - 1"
    and "maturing_tickets env cl (block_height b - TicketMaturity env) db = Some (db0, ms, vals)"
    and "RevokedTicketsInBlock (IsSSRtx env) b = Some revoked" "TicketsSpentInBlock (IsSSGen env) b = Some voted"
    and "blockCache db0 = blockCache db" "BestNode db0 = BestNode db"
    and "ticket_values (snd (TicketsInBlock (IsSStx env) b)) = Some vs"
  shows "\<exists>db1 db2. ConnectBlock env cl b db = (db1, Err (CannotConnect (block_height b) (int (length c) - 1))) \<and>
    maturing_tickets env cl (block_height b) db1 = Some (db2, fst (TicketsInBlock (IsSStx env) b), Some vs)"
proof -
  let ?db1 = "db0\<lparr>blockCache := mput (block_height b) b (blockCache db0)\<rparr>"
  have "0 \<le> block_height b"
    by (simp add: block_height_def)
  have "ConnectBlock env cl b db = (?db1, Err (CannotConnect (block_height b) (int (length c) - 1)))"
    using assms(3-10) uint_tip_height [OF assms(1,2)] by (simp add: ConnectBlock_def Let_def sdb_rel_def)
  moreover have "maturing_tickets env cl (block_height b) ?db1
      = Some (ForgetBlock (block_height b) ?db1, fst (TicketsInBlock (IsSStx env) b), Some vs)"
    using \<open>0 \<le> block_height b\<close> assms(10)
    by (cases "TicketsInBlock (IsSStx env) b") (simp add: maturing_tickets_def block_def BlockCached_def)
  ultimately show ?thesis
    by blast
qed

theorem refused_block_matures_witness:
  "\<exists>db1 db2. ConnectBlock ex_env ex_client (ex_block 9 1 1 []) (ex_db [bG, b1, b2])
      = (db1, Err (CannotConnect 1 2)) \<and>
    maturing_tickets ex_env ex_client 1 db1 = Some (db2, [], Some []) \<and>
    fst (TicketsInBlock (IsSStx ex_env) b1) = [hash_of 101]"
proof -
  let ?b = "ex_block 9 1 1 []" and ?db = "ex_db [bG, b1, b2]"
  have V: "[bG, b1, b2] \<in> ex_chains"
    by (simp add: ex_chains_def)
  have h: "block_height ?b = 1"
    by (simp add: ex_defs)
  have empty: "STransactions ?b = []"
    by (simp add: ex_defs)
  have m: "maturing_tickets ex_env ex_client (block_height ?b - TicketMaturity ex_env) ?db = Some (?db, [], Some [])"
    by (simp add: maturing_tickets_def ex_env_def h block_def BlockCached_def ex_db_def getBlockByHeight_def
        getBlock_def ex_client_def TicketsInBlock_def mget_def ex_blocks_def)
  have votes: "RevokedTicketsInBlock (IsSSRtx ex_env) ?b = Some []" "TicketsSpentInBlock (IsSSGen ex_env) ?b = Some []"
    by (simp_all add: RevokedTicketsInBlock_def TicketsSpentInBlock_def empty)
  have vals: "ticket_values (snd (TicketsInBlock (IsSStx ex_env) ?b)) = Some []"
    "fst (TicketsInBlock (IsSStx ex_env) ?b) = []"
    by (simp_all add: TicketsInBlock_def empty)
  have "fst (TicketsInBlock (IsSStx ex_env) b1) = [hash_of 101]"
    by (simp add: TicketsInBlock_def ex_env_def)
  then show ?thesis
    using refused_block_matures [OF ex_package V ex_rel [OF V] _ m votes refl refl vals(1)] vals(2) h by simp
qed

section \<open>Switching to a side chain\<close>

text \<open>The old blocks that are above the common part can still be asked for.\<close>

definition serves_old :: "('n, 'u, 'db, 'p) stake_env \<Rightarrow> client \<Rightarrow> (Block list \<Rightarrow> 'n) \<Rightarrow> (Hash \<Rightarrow> i64) \<Rightarrow>
    Block list \<Rightarrow> Block list \<Rightarrow> bool" where
  "serves_old env cl node_of price common old \<longleftrightarrow>
    (\<forall>o1 b o2. old = o1 @ b # o2 \<longrightarrow>
       serves_tip cl (common @ o1) b \<and> serves_prices env cl node_of price (common @ o1) b)"

definition reorg_to :: "ReorgData \<Rightarrow> Block list \<Rightarrow> Block list \<Rightarrow> bool" where
  "reorg_to r common new \<longleftrightarrow> NewChain r = map block_hash new \<and>
    sint (NewChainHeight r) = int (length (common @ new)) - 1"

lemma switch_chain:
  assumes pkg: "stake_package env node_of holds V" and ne: "common \<noteq> []" "new \<noteq> []" and V: "common @ new \<in> V"
    and node: "node_on_chain cl (common @ new)" and prices: "prices_in env price (common @ new)"
    and writes: "pool_writes env" and reorg: "reorg_to r common new"
    and rel: "sdb_rel env node_of holds price c db" and c: "c \<in> V" "c \<noteq> []"
    and where_c: "(\<exists>old. c = common @ old \<and> serves_old env cl node_of price common old) \<or>
      (\<exists>rest. common = c @ rest)"
  obtains db' where
    "switchToSideChain env cl (Some r) db
      = (db', of_int (int (length (common @ new)) - 1), Some (block_hash (last new)), Ok)"
    "sdb_rel env node_of holds price (common @ new) db'"
proof -
  have cV: "common \<in> V"
    using valid_prefix [OF pkg ne(1) V] .
  let ?h = "int (length common) - 1"
  have heights: "sint (NewChainHeight r) - int (length (NewChain r)) = ?h" "NewChain r \<noteq> []"
    using reorg ne by (simp_all add: reorg_to_def)
  have tip: "uint (Height env db) = int (length c) - 1"
    by (rule sdb_rel_Height [OF pkg c(1) rel])
  obtain db1 where db1: "(if uint (Height env db) < ?h
       then catch_up env cl (nat (?h - uint (Height env db))) (uint (Height env db) + 1) db
       else (case DisconnectBlocks env cl (uint (Height env db) - ?h) db of
           (db', Ok) \<Rightarrow> (db', Ok)
         | (db', Err e) \<Rightarrow> (db', Err (DisconnectFailed e))
         | (db', Panic) \<Rightarrow> (db', Panic))) = (db1, Ok)"
    "sdb_rel env node_of holds price common db1"
    using where_c
  proof (elim disjE exE conjE)
    fix old
    assume old: "c = common @ old" "serves_old env cl node_of price common old"
    have "nat (int (length c) - 1 - ?h) = length old"
      using old(1) by simp
    moreover obtain db1 where "disconnect_times env cl (length old) db = (db1, Ok)"
      "sdb_rel env node_of holds price common db1"
      using disconnect_times_chain [OF pkg ne(1)] c(1) rel old unfolding serves_old_def by metis
    moreover have "\<not> uint (Height env db) < ?h"
      using tip old(1) by simp
    ultimately show ?thesis
      using that [of db1] tip by (simp add: DisconnectBlocks_def)
  next
    fix rest
    assume rest: "common = c @ rest"
    show ?thesis
    proof (cases "rest = []")
      case True
      then show ?thesis
        using that [of db] tip rest rel by (simp add: DisconnectBlocks_def)
    next
      case False
      have "nat (?h - uint (Height env db)) = length rest" "uint (Height env db) + 1 = int (length c)"
        using tip rest by simp_all
      moreover obtain db1 where "catch_up env cl (length rest) (int (length c)) db = (db1, Ok)"
        "sdb_rel env node_of holds price (c @ rest) db1"
        using catch_up_chain [OF pkg c(2) _ rel _ _ writes, of rest new] V node prices rest by auto
      moreover have "uint (Height env db) < ?h"
        using tip rest False by (cases rest) auto
      ultimately show ?thesis
        using that [of db1] rest by simp
    qed
  qed
  have tip1: "uint (Height env db1) = ?h"
    by (rule sdb_rel_Height [OF pkg cV db1(2)])
  obtain db' where "connect_new env cl (map block_hash new) 0 None db1
      = (db', of_int (int (length (common @ new)) - 1), Some (block_hash (last new)), Ok)"
    "sdb_rel env node_of holds price (common @ new) db'"
    using connect_new_chain [OF pkg ne(1) V db1(2) node prices writes, of 0 None] ne(2) by auto
  moreover have "NewChain r = map block_hash new"
    using reorg by (simp add: reorg_to_def)
  moreover have "switchToSideChain env cl (Some r) db = connect_new env cl (NewChain r) 0 None db1"
    unfolding switchToSideChain_def Let_def heights(1) option.case if_not_P [OF heights(2)] db1(1)
      prod.case status.case using tip1 by simp
  ultimately show ?thesis
    using that [of db'] by (simp only:)
qed

lemma stake_handler_chain:
  assumes "stake_package env node_of holds V" "common \<noteq> []" "new \<noteq> []" "common @ new \<in> V"
    and "node_on_chain cl (common @ new)" "prices_in env price (common @ new)" "pool_writes env"
    and "reorg_to r common new" "sdb_rel env node_of holds price c db" "c \<in> V" "c \<noteq> []"
    and "(\<exists>old. c = common @ old \<and> serves_old env cl node_of price common old) \<or> (\<exists>rest. common = c @ rest)"
  shows "\<exists>db'. stake_ReorgHandler env cl r db = (db', Ok) \<and> sdb_rel env node_of holds price (common @ new) db' \<and>
    uint (Height env db') = sint (NewChainHeight r)"
proof -
  obtain db' where "switchToSideChain env cl (Some r) db
      = (db', of_int (int (length (common @ new)) - 1), Some (block_hash (last new)), Ok)"
    "sdb_rel env node_of holds price (common @ new) db'"
    using switch_chain [OF assms] by metis
  then show ?thesis
    using sdb_rel_Height [OF assms(1,4)] assms(8) by (simp add: stake_ReorgHandler_def reorg_to_def)
qed

text \<open>
  C3. After a reorganisation the stake database stands for the new chain, wherever it was before: at the
  tip of the old chain, from which it is disconnected to the common ancestor, or below the ancestor,
  from where it catches up.
\<close>

theorem stake_ReorgHandler_follows:
  assumes "stake_package env node_of holds V" "common \<noteq> []" "new \<noteq> []" "common @ new \<in> V"
    and "node_on_chain cl (common @ new)" "prices_in env price (common @ new)" "pool_writes env"
    and "reorg_to r common new" "sdb_rel env node_of holds price c db" "c \<in> V" "c \<noteq> []"
    and "(\<exists>old. c = common @ old \<and> serves_old env cl node_of price common old) \<or> (\<exists>rest. common = c @ rest)"
  shows "\<exists>db'. stake_ReorgHandler env cl r db = (db', Ok) \<and> sdb_rel env node_of holds price (common @ new) db' \<and>
    uint (Height env db') = sint (NewChainHeight r)"
  by (rule stake_handler_chain [OF assms])

theorem stake_ReorgHandler_follows_witness:
  "\<exists>db'. stake_ReorgHandler ex_env ex_client
      \<lparr>ReorgAncestor = hash_of 2, OldChainHead = hash_of 3, OldChainHeight = 2, OldChain = [hash_of 3],
       NewChainHead = hash_of 5, NewChainHeight = 3, NewChain = [hash_of 4, hash_of 5]\<rparr>
      (ex_db [bG, b1, b2]) = (db', Ok) \<and> BestNode db' = Some [bG, b1, x2, x3] \<and> tip (PoolDB db') = 3"
proof -
  let ?r = "\<lparr>ReorgAncestor = hash_of 2, OldChainHead = hash_of 3, OldChainHeight = 2, OldChain = [hash_of 3],
       NewChainHead = hash_of 5, NewChainHeight = 3, NewChain = [hash_of 4, hash_of 5]\<rparr>"
  have V: "[bG, b1] @ [x2, x3] \<in> ex_chains" "[bG, b1, b2] \<in> ex_chains"
    by (simp_all add: ex_chains_def)
  have node: "node_on_chain ex_client ([bG, b1] @ [x2, x3])"
    using ex_node by simp
  have prices: "prices_in ex_env ex_price ([bG, b1] @ [x2, x3])"
    by (rule ex_prices) (simp add: ex_blocks_def)
  have reorg: "reorg_to ?r [bG, b1] [x2, x3]"
    by (simp add: reorg_to_def)
  have old: "serves_old ex_env ex_client id ex_price [bG, b1] [b2]"
    using ex_serves by (auto simp: serves_old_def Cons_eq_append_conv)
  obtain db' where "stake_ReorgHandler ex_env ex_client ?r (ex_db [bG, b1, b2]) = (db', Ok)"
    "sdb_rel ex_env id (\<lambda>sdb c. sdb = c) ex_price ([bG, b1] @ [x2, x3]) db'"
    using stake_ReorgHandler_follows [OF ex_package _ _ V(1) node prices ex_writes reorg ex_rel [OF V(2)] V(2)] old
    by auto
  then show ?thesis
    using sdb_relD(1) sdb_rel_tip by fastforce
qed

end
