(* ===== verification/StakeRecover.thy ===== *)
theory StakeRecover
  imports StakeDBSync
begin

text \<open>
  Starting the stake database (\<open>NewStakeDatabase\<close> and \<open>LoadAndRecover\<close> of \<open>stakedb/stakedb.go\<close>): the
  stake node and the ticket pool are stored separately and may be at different heights, so the higher
  one is taken back to the lower one. Opening the two stores and closing them after an error are left
  out: the functions start from the state that opening has produced. Nothing bounds the loops, so they
  are partial functions: \<open>None\<close> stands for a run that does not end.
\<close>

section \<open>The loops\<close>

text \<open>\<open>for heightStakeDB > heightTicketPool\<close>: the error is that of \<open>DisconnectBlock\<close>.\<close>

partial_function (option) roll_back_node :: "('n, 'u, 'db, 'p) stake_env \<Rightarrow> client \<Rightarrow>
    ('n, 'db, 'p) StakeDatabase \<Rightarrow> (('n, 'db, 'p) StakeDatabase \<times> sdb_error status) option" where
  "roll_back_node env cl db =
    (if uint (Height env db) > tip (PoolDB db)
     then (case DisconnectBlock env cl True db of
         (db', Ok) \<Rightarrow> roll_back_node env cl db'
       | (db', st) \<Rightarrow> Some (db', st))
     else Some (db, Ok))"

text \<open>\<open>for heightTicketPool > heightStakeDB\<close>: the pool and its height after trimming.\<close>

partial_function (option) trim_pool :: "int \<Rightarrow> int \<Rightarrow> 'p TicketPool \<Rightarrow>
    ('p TicketPool \<times> int \<times> tp_error status) option" where
  "trim_pool heightStakeDB heightTicketPool tp =
    (if heightTicketPool > heightStakeDB
     then (case trim tp of (tp', (newTip, _), st) \<Rightarrow>
       if st = Panic then Some (tp', newTip, Panic) else trim_pool heightStakeDB newTip tp')
     else Some (tp, heightTicketPool, Ok))"

definition sync_heights :: "('n, 'u, 'db, 'p) stake_env \<Rightarrow> client \<Rightarrow>
    ('n, 'db, 'p) StakeDatabase \<Rightarrow> (('n, 'db, 'p) StakeDatabase \<times> sdb_error status) option" where
  "sync_heights env cl db =
    (case roll_back_node env cl db of
       None \<Rightarrow> None
     | Some (db1, Ok) \<Rightarrow>
         (let heightStakeDB = uint (Height env db1)
          in case trim_pool heightStakeDB (tip (PoolDB db1)) (PoolDB db1) of
               None \<Rightarrow> None
             | Some (tp, heightTicketPool, trimSt) \<Rightarrow>
                 (let db2 = db1\<lparr>PoolDB := tp\<rparr>
                  in if trimSt = Panic then Some (db2, Panic)
                     else if heightTicketPool \<noteq> heightStakeDB
                     then Some (db2, Err (HeightMismatch heightStakeDB heightTicketPool))
                     else Some (db2, Ok)))
     | Some (db1, st) \<Rightarrow> Some (db1, st))"

text \<open>
  The height that is returned with an error of the two loops: that of the pool when a block could not be
  disconnected, which leaves the pool alone, and -1 or the height of the node when the heights differ.
\<close>

definition failed_height :: "('n, 'db, 'p) StakeDatabase \<Rightarrow> sdb_error status \<Rightarrow> int" where
  "failed_height db st =
    (case st of
       Err (HeightMismatch heightStakeDB heightTicketPool) \<Rightarrow>
         if heightTicketPool > heightStakeDB then heightStakeDB else -1
     | _ \<Rightarrow> tip (PoolDB db))"

text \<open>The heights are compared and brought together, the pool is advanced to its tip, the cache filled.\<close>

definition NewStakeDatabase :: "('n, 'u, 'db, 'p) stake_env \<Rightarrow> client \<Rightarrow>
    ('n, 'db, 'p) StakeDatabase \<Rightarrow> (('n, 'db, 'p) StakeDatabase \<times> int \<times> sdb_error status) option" where
  "NewStakeDatabase env cl db =
    (case (if uint (Height env db) \<noteq> tip (PoolDB db) then sync_heights env cl db else Some (db, Ok)) of
       None \<Rightarrow> None
     | Some (db1, Ok) \<Rightarrow>
         (case AdvanceToTip (PoolDB db1) of
            (tp, height, Ok) \<Rightarrow>
              (case PopulateLiveTicketCache env cl (db1\<lparr>PoolDB := tp\<rparr>) of (db2, st) \<Rightarrow> Some (db2, height, st))
          | (tp, height, Err e) \<Rightarrow> Some (db1\<lparr>PoolDB := tp\<rparr>, height, Err (PoolDBError e))
          | (tp, height, Panic) \<Rightarrow> Some (db1\<lparr>PoolDB := tp\<rparr>, height, Panic))
     | Some (db1, st) \<Rightarrow> Some (db1, failed_height db1 st, st))"

text \<open>\<open>for toHeight < heightStakeDB\<close>, with the comparison of the heights after every block.\<close>

partial_function (option) rewind_both :: "('n, 'u, 'db, 'p) stake_env \<Rightarrow> client \<Rightarrow> int \<Rightarrow>
    ('n, 'db, 'p) StakeDatabase \<Rightarrow> (('n, 'db, 'p) StakeDatabase \<times> sdb_error status) option" where
  "rewind_both env cl toHeight db =
    (if toHeight < uint (Height env db)
     then (case DisconnectBlock env cl True db of
         (db', Ok) \<Rightarrow>
           if tip (PoolDB db') \<noteq> uint (Height env db')
           then Some (db', Err (HeightMismatch (uint (Height env db')) (tip (PoolDB db'))))
           else rewind_both env cl toHeight db'
       | (db', st) \<Rightarrow> Some (db', st))
     else Some (db, Ok))"

definition LoadAndRecover :: "('n, 'u, 'db, 'p) stake_env \<Rightarrow> client \<Rightarrow> int \<Rightarrow>
    ('n, 'db, 'p) StakeDatabase \<Rightarrow> (('n, 'db, 'p) StakeDatabase \<times> sdb_error status) option" where
  "LoadAndRecover env cl toHeight0 db =
    (let toHeight1 = (if toHeight0 < 0 then 0 else toHeight0);
         toHeight2 = (if toHeight1 > uint (Height env db) then uint (Height env db) else toHeight1);
         toHeight = (if toHeight2 > tip (PoolDB db) then tip (PoolDB db) else toHeight2)
     in case sync_heights env cl db of
          None \<Rightarrow> None
        | Some (db1, Ok) \<Rightarrow>
            (case rewind_both env cl toHeight db1 of
               None \<Rightarrow> None
             | Some (db2, Ok) \<Rightarrow>
                 (case AdvanceToTip (PoolDB db2) of
                    (tp, stopHeight, Ok) \<Rightarrow> Some (PopulateLiveTicketCache env cl (db2\<lparr>PoolDB := tp\<rparr>))
                  | (tp, stopHeight, Panic) \<Rightarrow> Some (db2\<lparr>PoolDB := tp\<rparr>, Panic)
                  | (tp, stopHeight, Err _) \<Rightarrow>
                      (case Rewind env cl (stopHeight - 1) True (db2\<lparr>PoolDB := tp\<rparr>) of
                         None \<Rightarrow> None
                       | Some (db3, Ok) \<Rightarrow> Some (PopulateLiveTicketCache env cl db3)
                       | Some (db3, st) \<Rightarrow> Some (db3, st)))
             | Some (db2, st) \<Rightarrow> Some (db2, st))
        | Some (db1, st) \<Rightarrow> Some (db1, st))"

section \<open>Two stores at different heights\<close>

text \<open>What opening gives: the node is that of one chain, the diffs are those of another.\<close>

definition opened :: "('n, 'u, 'db, 'p) stake_env \<Rightarrow> (Block list \<Rightarrow> 'n) \<Rightarrow> ('db \<Rightarrow> Block list \<Rightarrow> bool) \<Rightarrow>
    Block list \<Rightarrow> Block list \<Rightarrow> ('n, 'db, 'p) StakeDatabase \<Rightarrow> bool" where
  "opened env node_of holds c p db \<longleftrightarrow>
    BestNode db = Some (node_of c) \<and> holds (StakeDB db) c \<and>
    tp_inv (PoolDB db) \<and> diffs (PoolDB db) = chain_diffs env node_of p"

lemma opened_same: "opened env node_of holds c c db \<longleftrightarrow> sdb_base env node_of holds c db"
  by (simp add: opened_def sdb_base_def)

lemma opened_heights:
  assumes "stake_package env node_of holds V" "c \<in> V" "p \<noteq> []" "opened env node_of holds c p db"
  shows "uint (Height env db) = int (length c) - 1" "tip (PoolDB db) = int (length p) - 1"
proof -
  show "uint (Height env db) = int (length c) - 1"
    using uint_tip_height [OF assms(1,2)] assms(4) by (simp add: Height_def opened_def)
  show "tip (PoolDB db) = int (length p) - 1"
    using assms(3,4) tp_invD(1) [of "PoolDB db"] by (cases p) (auto simp: opened_def)
qed

definition serves_base :: "client \<Rightarrow> Block list \<Rightarrow> Block list \<Rightarrow> bool" where
  "serves_base cl c bs \<longleftrightarrow> (\<forall>o1 b o2. bs = o1 @ b # o2 \<longrightarrow> serves_tip cl (c @ o1) b)"

text \<open>Above the pool the node is disconnected alone.\<close>

lemma disconnect_above:
  assumes pkg: "stake_package env node_of holds V" and c: "c \<noteq> []" "c @ [b] \<in> V"
    and open_db: "opened env node_of holds (c @ [b]) p db" and p: "p \<noteq> []" "length p \<le> length c"
    and tip: "serves_tip cl c b"
  obtains db' where "DisconnectBlock env cl True db = (db', Ok)" "opened env node_of holds c p db'"
proof -
  have held: "holds (StakeDB db) (c @ [b])" and node: "BestNode db = Some (node_of (c @ [b]))"
    using open_db by (simp_all add: opened_def)
  obtain sdb' where n: "holds sdb' c"
    "disconnect_node env (last c) (node_of (c @ [b])) db = (db\<lparr>BestNode := Some (node_of c), StakeDB := sdb'\<rparr>, Ok)"
    using disconnect_node_chain [OF pkg c held] by metis
  have t: "tip (PoolDB db) \<le> int (length c) - 1"
    using opened_heights(2) [OF pkg c(2) p(1) open_db] p(2) by simp
  have "DisconnectBlock env cl True db = (db\<lparr>BestNode := Some (node_of c), StakeDB := sdb'\<rparr>, Ok)"
    using node dbPrevBlock_chain [OF pkg c held tip] disconnect_guard [OF pkg c] t n(2)
    by (simp add: DisconnectBlock_def disconnectBlock_def trim_loop_done)
  then show ?thesis
    using that n(1) open_db by (simp add: opened_def)
qed

lemma roll_back_node_chain:
  assumes pkg: "stake_package env node_of holds V" and p: "p \<noteq> []" "p @ bs \<in> V"
    and "opened env node_of holds (p @ bs) p db" "serves_base cl p bs"
  obtains db' where "roll_back_node env cl db = Some (db', Ok)" "opened env node_of holds p p db'"
  using assms(3-)
proof (induction bs arbitrary: db thesis rule: rev_induct)
  case Nil
  have "uint (Height env db) = int (length p) - 1" "tip (PoolDB db) = int (length p) - 1"
    using opened_heights [OF pkg _ p(1)] Nil.prems(2,3) by auto
  then show ?case
    using Nil.prems(1) [of db] Nil.prems(3) by (simp add: roll_back_node.simps)
next
  case (snoc b bs)
  have V: "(p @ bs) @ [b] \<in> V" and o: "opened env node_of holds ((p @ bs) @ [b]) p db"
    and tip: "serves_tip cl (p @ bs) b" and rest: "serves_base cl p bs"
    using snoc.prems by (auto simp: serves_base_def)
  obtain db1 where db1: "DisconnectBlock env cl True db = (db1, Ok)" "opened env node_of holds (p @ bs) p db1"
    using disconnect_above [OF pkg _ V o p(1) _ tip] p(1) by auto
  have "p @ bs \<in> V"
    using valid_prefix [OF pkg, of "p @ bs" "[b]"] V p(1) by simp
  then obtain db' where "roll_back_node env cl db1 = Some (db', Ok)" "opened env node_of holds p p db'"
    using snoc.IH [OF _ _ db1(2) rest] by metis
  moreover have "uint (Height env db) > tip (PoolDB db)"
    using opened_heights [OF pkg V p(1) o] by simp
  ultimately show ?case
    using db1(1) by (intro snoc.prems(1) [of db']) (simp_all add: roll_back_node.simps [of env cl db])
qed

text \<open>Trimming a longer pool down to the chain of the node.\<close>

lemma trimmed_diffs:
  assumes "tp_inv tp" "diffs tp = chain_diffs env node_of (c @ [b])" "c \<noteq> []"
  shows "trim tp = (trimmed tp, (int (length c) - 1, block_diff env node_of c b), Ok)"
    "tp_inv (trimmed tp)" "diffs (trimmed tp) = chain_diffs env node_of c"
    "tip (trimmed tp) = int (length c) - 1" "tip tp = int (length c)"
proof -
  have tip: "tip tp = int (length c)" "0 < tip tp"
    using assms tp_invD(1) [OF assms(1)] by simp_all
  show "tip tp = int (length c)"
    by (rule tip(1))
  show "trim tp = (trimmed tp, (int (length c) - 1, block_diff env node_of c b), Ok)"
    using trim_eq [OF assms(1) tip(2)] tip(1) assms(2,3) by (simp add: chain_diffs_snoc)
  show "tp_inv (trimmed tp)" "diffs (trimmed tp) = chain_diffs env node_of c"
    "tip (trimmed tp) = int (length c) - 1"
    using trimmed_inv [OF assms(1) tip(2)] assms(2,3) tip(1)
    by (simp_all add: trimmed_def Let_def chain_diffs_snoc)
qed

lemma trim_pool_chain:
  assumes "c \<noteq> []" "tp_inv tp" "diffs tp = chain_diffs env node_of (c @ bs)"
  obtains tp' where "trim_pool (int (length c) - 1) (tip tp) tp = Some (tp', int (length c) - 1, Ok)"
    "tp_inv tp'" "diffs tp' = chain_diffs env node_of c"
  using assms(2,3)
proof (induction bs arbitrary: tp thesis rule: rev_induct)
  case Nil
  have "tip tp = int (length c) - 1"
    using Nil.prems(3) assms(1) tp_invD(1) [OF Nil.prems(2)] by (cases c) auto
  then show ?case
    using Nil.prems by (intro Nil.prems(1) [of tp]) (simp_all add: trim_pool.simps)
next
  case (snoc b bs)
  note t = trimmed_diffs [of tp env node_of "c @ bs" b]
  have d: "diffs tp = chain_diffs env node_of ((c @ bs) @ [b])"
    using snoc.prems(3) by simp
  obtain tp' where "trim_pool (int (length c) - 1) (tip (trimmed tp)) (trimmed tp) = Some (tp', int (length c) - 1, Ok)"
    "tp_inv tp'" "diffs tp' = chain_diffs env node_of c"
    using snoc.IH [OF _ t(2,3)] snoc.prems(2) d assms(1) by auto
  then show ?case
    using t(1,4,5) snoc.prems(2) d assms(1)
    by (intro snoc.prems(1) [of tp']) (simp_all add: trim_pool.simps [of _ "int (length c) + int (length bs)" tp])
qed

text \<open>One store is a continuation of the other; both end at the shorter one.\<close>

definition continues :: "client \<Rightarrow> Block list \<Rightarrow> Block list \<Rightarrow> Block list \<Rightarrow> bool" where
  "continues cl c p d \<longleftrightarrow> (\<exists>bs. c = p @ bs \<and> d = p \<and> serves_base cl p bs) \<or> (\<exists>bs. p = c @ bs \<and> d = c)"

lemma sync_heights_chain:
  assumes pkg: "stake_package env node_of holds V" and ne: "c \<noteq> []" "p \<noteq> []" and V: "c \<in> V" "d \<in> V"
    and open_db: "opened env node_of holds c p db" and cont: "continues cl c p d"
  obtains db' where "sync_heights env cl db = Some (db', Ok)" "sdb_base env node_of holds d db'"
proof -
  have d: "d \<noteq> []" "int (length d) - 1 \<le> uint (Height env db)"
    using cont ne opened_heights(1) [OF pkg V(1) ne(2) open_db] by (auto simp: continues_def)
  obtain db1 where db1: "roll_back_node env cl db = Some (db1, Ok)" "opened env node_of holds d p db1"
    using cont unfolding continues_def
  proof (elim disjE exE conjE)
    fix bs
    assume "c = p @ bs" "d = p" "serves_base cl p bs"
    then show ?thesis
      using that roll_back_node_chain [OF pkg ne(2), of bs db cl] V(1) open_db by metis
  next
    fix bs
    assume "p = c @ bs" "d = c"
    moreover from this have "\<not> tip (PoolDB db) < uint (Height env db)"
      using opened_heights [OF pkg V(1) ne(2) open_db] by simp
    ultimately show ?thesis
      using that [of db] open_db by (simp add: roll_back_node.simps)
  qed
  obtain bs where bs: "p = d @ bs"
    using cont by (auto simp: continues_def)
  have h: "uint (Height env db1) = int (length d) - 1"
    using opened_heights(1) [OF pkg V(2) ne(2) db1(2)] .
  obtain tp where "trim_pool (int (length d) - 1) (tip (PoolDB db1)) (PoolDB db1) = Some (tp, int (length d) - 1, Ok)"
    "tp_inv tp" "diffs tp = chain_diffs env node_of d"
    using trim_pool_chain [OF d(1), of "PoolDB db1" env node_of bs] db1(2) bs by (auto simp: opened_def)
  then show ?thesis
    using that [of "db1\<lparr>PoolDB := tp\<rparr>"] db1 h by (simp add: sync_heights_def Let_def sdb_base_def opened_def)
qed

lemma populate_loop_priced:
  assumes "priced price L mv" "distinct hs" "set hs \<inter> L = {}" "\<forall>h \<in> set hs. knows_price cl price h"
  obtains mv' where "populate_loop cl hs mv err = Some (mv', err)" "priced price (L \<union> set hs) mv'"
  using assms
proof (induction hs arbitrary: L mv thesis)
  case (Cons h hs)
  have ins: "priced price (insert h L) (mput h (price h) (fst mv), snd mv + price h)"
    using priced_insert [OF Cons.prems(2)] Cons.prems(4) by auto
  obtain mv' where "populate_loop cl hs (mput h (price h) (fst mv), snd mv + price h) err = Some (mv', err)"
    "priced price (insert h L \<union> set hs) mv'"
  proof (rule Cons.IH [OF _ ins])
    show "distinct hs" "set hs \<inter> insert h L = {}" "\<forall>h \<in> set hs. knows_price cl price h"
      using Cons.prems(3-5) by auto
  qed (use that in blast)+
  moreover obtain tx where "GetRawTransaction cl h = Inr tx" "stxHash tx = h" "idx (stxValues tx) 0 = Some (price h)"
    using Cons.prems(5) by (auto simp: knows_price_def tx_price_def)
  ultimately show ?case
    by (intro Cons.prems(1) [of mv']) simp_all
qed simp

lemma PopulateLiveTicketCache_chain:
  assumes "sdb_base env node_of holds c db" "distinct (LiveTickets env (node_of c))"
    and "\<forall>h \<in> live env node_of c. knows_price cl price h"
  obtains m v where "PopulateLiveTicketCache env cl db = (db\<lparr>liveTicketCache := m, poolValue := v\<rparr>, Ok)"
    "priced price (live env node_of c) (m, v)"
proof -
  have "priced price {} ([], 0)"
    by (simp add: priced_def)
  then obtain mv where "populate_loop cl (LiveTickets env (node_of c)) ([], 0) None = Some (mv, None)"
    "priced price (live env node_of c) mv"
    using populate_loop_priced [OF _ assms(2)] assms(3) by (metis Int_empty_right sup_bot_left)
  then show ?thesis
    using that [of "snd mv" "fst mv"] assms(1)
    by (simp add: PopulateLiveTicketCache_def sdb_base_def split: prod.split)
qed

lemma AdvanceToTip_chain:
  assumes "sdb_base env node_of holds c db"
  obtains tp where "AdvanceToTip (PoolDB db) = (tp, tip (PoolDB db), Ok)"
    "sdb_base env node_of holds c (db\<lparr>PoolDB := tp\<rparr>)" "cursor tp = tip tp" "tip tp = tip (PoolDB db)"
proof -
  have inv: "tp_inv (PoolDB db)"
    using assms by (simp add: sdb_base_def)
  then have "tp_inv (at_height (tip (PoolDB db)) (PoolDB db))"
    by (rule tp_inv_at_height) (use tp_invD(2,3) [OF inv] in linarith)+
  then show ?thesis
    using that [OF AdvanceToTip_eq [OF inv]] assms by (simp add: sdb_base_def)
qed

lemma rewind_both_chain:
  assumes pkg: "stake_package env node_of holds V" and c: "c \<noteq> []" "c @ bs \<in> V"
    and "sdb_base env node_of holds (c @ bs) db" "serves_base cl c bs"
  obtains db' where "rewind_both env cl (int (length c) - 1) db = Some (db', Ok)"
    "sdb_base env node_of holds c db'"
  using assms(3-)
proof (induction bs arbitrary: db thesis rule: rev_induct)
  case Nil
  have "uint (Height env db) = int (length c) - 1"
    using opened_heights(1) [OF pkg _ c(1)] Nil.prems(2,3) by (auto simp: opened_same [symmetric])
  then show ?case
    using Nil.prems(1) [of db] Nil.prems(3) by (simp add: rewind_both.simps)
next
  case (snoc b bs)
  have V: "(c @ bs) @ [b] \<in> V" "c @ bs \<in> V" and base: "sdb_base env node_of holds ((c @ bs) @ [b]) db"
    and tip: "serves_tip cl (c @ bs) b" and rest: "serves_base cl c bs"
    using snoc.prems valid_prefix [OF pkg, of "c @ bs" "[b]"] c(1) by (auto simp: serves_base_def)
  obtain sdb' where dis: "holds sdb' (c @ bs)"
    "disconnectBlock env cl True db = (db\<lparr>PoolDB := trimmed (PoolDB db),
       BestNode := Some (node_of (c @ bs)), StakeDB := sdb'\<rparr>, Ok)" (is "_ = (?db1, Ok)")
    using disconnectBlock_base [OF pkg _ V(1) base tip] c(1) by auto
  have base1: "sdb_base env node_of holds (c @ bs) ?db1"
    using dis(1) trimmed_chain(2,3) [OF base] c(1) by (simp add: sdb_base_def)
  obtain db' where "rewind_both env cl (int (length c) - 1) ?db1 = Some (db', Ok)"
    "sdb_base env node_of holds c db'"
    using snoc.IH [OF _ V(2) base1 rest] by metis
  moreover have "uint (Height env db) = int (length c) + int (length bs)"
    using opened_heights(1) [OF pkg V(1)] base c(1) by (auto simp: opened_same [symmetric])
  moreover have "uint (Height env ?db1) = tip (PoolDB ?db1)"
    using opened_heights [OF pkg V(2) _ base1 [folded opened_same]] c(1) by simp
  ultimately show ?case
    using dis(2)
    by (intro snoc.prems(1) [of db']) (simp_all add: rewind_both.simps [of env cl _ db] DisconnectBlock_def)
qed

section \<open>Properties\<close>

text \<open>The state that stands for a chain, up to the caches that opening starts afresh.\<close>

definition recovered :: "('n, 'u, 'db, 'p) stake_env \<Rightarrow> (Block list \<Rightarrow> 'n) \<Rightarrow> ('db \<Rightarrow> Block list \<Rightarrow> bool) \<Rightarrow>
    (Hash \<Rightarrow> i64) \<Rightarrow> Block list \<Rightarrow> ('n, 'db, 'p) StakeDatabase \<Rightarrow> bool" where
  "recovered env node_of holds price c db \<longleftrightarrow> sdb_base env node_of holds c db \<and>
    priced price (live env node_of c) (liveTicketCache db, poolValue db) \<and>
    cursor (PoolDB db) = tip (PoolDB db)"

text \<open>
  C29. The recovery at start-up ends, and succeeds: when node and ticket pool were stored at different
  heights of one chain, both end at the lower height, the pool advanced to it, the cache and the value
  of the pool those of its live tickets.
\<close>

theorem NewStakeDatabase_recovers:
  assumes "stake_package env node_of holds V" "c \<noteq> []" "p \<noteq> []" "c \<in> V" "d \<in> V"
    and "opened env node_of holds c p db" "continues cl c p d"
    and "distinct (LiveTickets env (node_of d))" "\<forall>h \<in> live env node_of d. knows_price cl price h"
  shows "\<exists>db'. NewStakeDatabase env cl db = Some (db', int (length d) - 1, Ok) \<and>
    recovered env node_of holds price d db'"
proof -
  obtain db1 where db1: "(if uint (Height env db) \<noteq> tip (PoolDB db) then sync_heights env cl db
      else Some (db, Ok)) = Some (db1, Ok)" "sdb_base env node_of holds d db1"
  proof (cases "uint (Height env db) = tip (PoolDB db)")
    case True
    then have "length c = length p"
      using opened_heights [OF assms(1,4,3,6)] by simp
    then have "c = d" "p = d"
      using assms(7) by (auto simp: continues_def)
    then show ?thesis
      using that [of db] True assms(6) by (simp add: opened_same)
  next
    case False
    then show ?thesis
      using sync_heights_chain [OF assms(1-7)] that by metis
  qed
  obtain tp where tp: "AdvanceToTip (PoolDB db1) = (tp, tip (PoolDB db1), Ok)"
    "sdb_base env node_of holds d (db1\<lparr>PoolDB := tp\<rparr>)" "cursor tp = tip tp" "tip tp = tip (PoolDB db1)"
    by (rule AdvanceToTip_chain [OF db1(2)])
  have "tip (PoolDB db1) = int (length d) - 1"
    using base_tip [OF db1(2)] assms(2,3,7) by (cases d) (auto simp: continues_def)
  moreover obtain m v where
    "PopulateLiveTicketCache env cl (db1\<lparr>PoolDB := tp\<rparr>)
      = (db1\<lparr>PoolDB := tp, liveTicketCache := m, poolValue := v\<rparr>, Ok)"
    "priced price (live env node_of d) (m, v)"
    using PopulateLiveTicketCache_chain [OF tp(2) assms(8,9)] by metis
  ultimately show ?thesis
    using db1(1) tp by (auto simp: NewStakeDatabase_def recovered_def sdb_base_def)
qed

definition ex_opened :: "Block list \<Rightarrow> Block list \<Rightarrow> (Block list, Block list, unit) StakeDatabase" where
  "ex_opened c p = (ex_db c)\<lparr>PoolDB := ex_pool p\<rparr>"

lemma ex_is_opened:
  assumes "c \<in> ex_chains" "p \<in> ex_chains"
  shows "opened ex_env id (\<lambda>sdb c. sdb = c) c p (ex_opened c p)"
  using sdb_relD [OF ex_rel [OF assms(1)]] sdb_relD(4,5) [OF ex_rel [OF assms(2)]]
  by (simp add: opened_def ex_opened_def ex_db_def)

lemma ex_serves_base: "serves_base ex_client [bG, b1] [b2]" "serves_base ex_client [bG, b1] [x2]"
  by (auto simp: serves_base_def serves_tip_def ex_client_def Cons_eq_append_conv ex_blocks_def)

theorem NewStakeDatabase_recovers_witness:
  "\<exists>db'. NewStakeDatabase ex_env ex_client (ex_opened [bG, b1, b2] [bG, b1]) = Some (db', 1, Ok) \<and>
    BestNode db' = Some [bG, b1] \<and> tip (PoolDB db') = 1 \<and> poolValue db' = 0"
proof -
  have V: "[bG, b1, b2] \<in> ex_chains" "[bG, b1] \<in> ex_chains"
    by (simp_all add: ex_chains_def)
  have cont: "continues ex_client [bG, b1, b2] [bG, b1] [bG, b1]"
    using ex_serves_base(1) by (auto simp: continues_def)
  have live: "LiveTickets ex_env (id [bG, b1]) = []"
    by (simp add: ex_env_def)
  obtain db' where "NewStakeDatabase ex_env ex_client (ex_opened [bG, b1, b2] [bG, b1]) = Some (db', 1, Ok)"
    "recovered ex_env id (\<lambda>sdb c. sdb = c) ex_price [bG, b1] db'"
    using NewStakeDatabase_recovers [OF ex_package _ _ V ex_is_opened [OF V] cont, of ex_price] live by auto
  then show ?thesis
    using base_tip [of ex_env id "\<lambda>sdb c. sdb = c" "[bG, b1]" db'] live
    by (auto simp: recovered_def priced_def sdb_base_def)
qed

text \<open>
  \<open>LoadAndRecover\<close> ends, and both stores are at the requested height, or at the lower one of the
  two when that is less.
\<close>

theorem LoadAndRecover_rewinds:
  assumes "stake_package env node_of holds V" "c \<noteq> []" "p \<noteq> []" "c \<in> V" "e @ bs \<in> V" "e \<noteq> []"
    and "opened env node_of holds c p db" "continues cl c p (e @ bs)" "serves_base cl e bs"
    and "int (length e) - 1 = min (max 0 toHeight) (min (int (length c)) (int (length p)) - 1)"
    and "distinct (LiveTickets env (node_of e))" "\<forall>h \<in> live env node_of e. knows_price cl price h"
  shows "\<exists>db'. LoadAndRecover env cl toHeight db = Some (db', Ok) \<and> recovered env node_of holds price e db'"
proof -
  note h = opened_heights [OF assms(1,4,3,7)]
  obtain db1 where db1: "sync_heights env cl db = Some (db1, Ok)" "sdb_base env node_of holds (e @ bs) db1"
    using sync_heights_chain [OF assms(1-5,7,8)] by metis
  obtain db2 where db2: "rewind_both env cl (int (length e) - 1) db1 = Some (db2, Ok)"
    "sdb_base env node_of holds e db2"
    by (rule rewind_both_chain [OF assms(1,6,5) db1(2) assms(9)])
  obtain tp where tp: "AdvanceToTip (PoolDB db2) = (tp, tip (PoolDB db2), Ok)"
    "sdb_base env node_of holds e (db2\<lparr>PoolDB := tp\<rparr>)" "cursor tp = tip tp"
    using AdvanceToTip_chain [OF db2(2)] by metis
  obtain m v where pop:
    "PopulateLiveTicketCache env cl (db2\<lparr>PoolDB := tp\<rparr>)
      = (db2\<lparr>PoolDB := tp, liveTicketCache := m, poolValue := v\<rparr>, Ok)"
    "priced price (live env node_of e) (m, v)"
    using PopulateLiveTicketCache_chain [OF tp(2) assms(11,12)] by metis
  define t0 where "t0 = (if toHeight < 0 then 0 else toHeight)"
  define t1 where "t1 = (if t0 > uint (Height env db) then uint (Height env db) else t0)"
  define t2 where "t2 = (if t1 > tip (PoolDB db) then tip (PoolDB db) else t1)"
  have "t2 = int (length e) - 1"
    using assms(10) h unfolding t0_def t1_def t2_def by auto
  then have "LoadAndRecover env cl toHeight db = Some (PopulateLiveTicketCache env cl (db2\<lparr>PoolDB := tp\<rparr>))"
    unfolding LoadAndRecover_def Let_def t0_def [symmetric] t1_def [symmetric] t2_def [symmetric]
    using db1(1) db2(1) tp(1) by simp
  then show ?thesis
    using pop tp by (auto simp: recovered_def sdb_base_def)
qed

theorem LoadAndRecover_rewinds_witness:
  "\<exists>db'. LoadAndRecover ex_env ex_client 1 (ex_opened [bG, b1, x2] [bG, b1, x2, x3]) = Some (db', Ok) \<and>
    BestNode db' = Some [bG, b1] \<and> tip (PoolDB db') = 1"
proof -
  have V: "[bG, b1, x2] \<in> ex_chains" "[bG, b1, x2, x3] \<in> ex_chains" "[bG, b1] @ [x2] \<in> ex_chains"
    by (simp_all add: ex_chains_def)
  have cont: "continues ex_client [bG, b1, x2] [bG, b1, x2, x3] ([bG, b1] @ [x2])"
    by (auto simp: continues_def)
  have live: "LiveTickets ex_env (id [bG, b1]) = []"
    by (simp add: ex_env_def)
  obtain db' where "LoadAndRecover ex_env ex_client 1 (ex_opened [bG, b1, x2] [bG, b1, x2, x3]) = Some (db', Ok)"
    "recovered ex_env id (\<lambda>sdb c. sdb = c) ex_price [bG, b1] db'"
    using LoadAndRecover_rewinds [OF ex_package _ _ V(1,3) _ ex_is_opened [OF V(1,2)] cont ex_serves_base(2),
        of 1 ex_price] live by auto
  then show ?thesis
    using base_tip [of ex_env id "\<lambda>sdb c. sdb = c" "[bG, b1]" db'] by (auto simp: recovered_def sdb_base_def)
qed

end
