(* ===== verification/StakeWait.thy ===== *)
theory StakeWait
  imports StakeDB
begin

text \<open>
  Waiting for a height (\<open>WaitForHeight\<close> and \<open>signalWaiters\<close> of \<open>stakedb/stakedb.go\<close>): a send to a
  channel that is full would panic, so every channel must be signalled at most once.
\<close>

definition waiters :: "('n, 'db, 'p) StakeDatabase \<Rightarrow> int \<Rightarrow> nat list" where
  "waiters db h = (case mget (heightWaiters db) h of None \<Rightarrow> [] | Some cs \<Rightarrow> cs)"

definition wait_inv :: "('n, 'db, 'p) StakeDatabase \<Rightarrow> bool" where
  "wait_inv db \<longleftrightarrow>
    (\<forall>h. distinct (waiters db h) \<and> (\<forall>c \<in> set (waiters db h). c < nextChan db \<and> mget (chans db) c = None)) \<and>
    (\<forall>h h'. h \<noteq> h' \<longrightarrow> set (waiters db h) \<inter> set (waiters db h') = {}) \<and>
    (\<forall>c. mget (chans db) c \<noteq> None \<longrightarrow> c < nextChan db)"

text \<open>The calls, in any order; a waiter may be registered with a height that was read before.\<close>

inductive wait_step :: "('n, 'db, 'p) StakeDatabase \<Rightarrow> ('n, 'db, 'p) StakeDatabase \<Rightarrow> bool" where
  wait: "WaitForHeight_at cl dbHeight h db = Some (db', c) \<Longrightarrow> wait_step db db'"
| signal: "signalWaiters h blockhash db = Some db' \<Longrightarrow> wait_step db db'"
| other: "heightWaiters db' = heightWaiters db \<Longrightarrow> chans db' = chans db \<Longrightarrow> nextChan db' = nextChan db \<Longrightarrow>
    wait_step db db'"

inductive_cases wait_stepE: "wait_step db db'"

inductive wait_reachable :: "('n, 'db, 'p) StakeDatabase \<Rightarrow> bool" where
  start: "heightWaiters db = [] \<Longrightarrow> chans db = [] \<Longrightarrow> wait_reachable db"
| step: "wait_reachable db \<Longrightarrow> wait_step db db' \<Longrightarrow> wait_reachable db'"

lemma waiters_register:
  "waiters (register h c db) h' = (if h' = h then waiters db h @ [c] else waiters db h')"
  by (simp add: waiters_def register_def)

lemma wait_inv_register:
  assumes "wait_inv db"
  shows "wait_inv (register h (nextChan db) (db\<lparr>nextChan := Suc (nextChan db)\<rparr>))" (is "wait_inv ?db")
proof -
  have w: "waiters ?db h' = (if h' = h then waiters db h @ [nextChan db] else waiters db h')" for h'
    unfolding waiters_register by (simp add: waiters_def)
  have new: "nextChan db \<notin> set (waiters db h')" "mget (chans db) (nextChan db) = None" for h'
    using assms by (auto simp: wait_inv_def)
  show ?thesis
    unfolding wait_inv_def w using assms new by (auto simp: wait_inv_def register_def less_Suc_eq)
qed

lemma WaitForHeight_at_inv:
  assumes "wait_inv db" "WaitForHeight_at cl dbHeight h db = Some (db', c)"
  shows "wait_inv db'"
proof -
  let ?db1 = "db\<lparr>nextChan := Suc (nextChan db)\<rparr>"
  note reg = wait_inv_register [OF assms(1), of h]
  consider (past) "db' = ?db1\<lparr>chans := mput (nextChan db) None (chans db)\<rparr>"
    | (now) s where "db' = (register h (nextChan db) ?db1)\<lparr>signals := s\<rparr>"
    | (later) "db' = register h (nextChan db) ?db1"
    using assms(2) by (auto simp: WaitForHeight_at_def new_chan_def split: if_splits option.splits)
  then show ?thesis
  proof cases
    case past
    then have "waiters db' = waiters db"
      by (simp add: waiters_def fun_eq_iff)
    then show ?thesis
      using assms(1) past by (auto simp: wait_inv_def less_Suc_eq)
  next
    case now
    then show ?thesis
      using reg by (simp add: wait_inv_def waiters_def)
  qed (use reg in simp)
qed

lemma send_all_empty:
  assumes "distinct cs" "\<forall>c \<in> set cs. mget m c = None"
  obtains m' where "send_all h cs m = Some m'"
    "\<And>c. mget m' c = (if c \<in> set cs then Some (Some h) else mget m c)"
proof -
  have "\<exists>m'. send_all h cs m = Some m' \<and> (\<forall>c. mget m' c = (if c \<in> set cs then Some (Some h) else mget m c))"
    using assms
  proof (induction cs arbitrary: m)
    case (Cons c cs)
    then have "\<exists>m'. send_all h cs (mput c (Some h) m) = Some m' \<and>
        (\<forall>a. mget m' a = (if a \<in> set cs then Some (Some h) else mget (mput c (Some h) m) a))"
      by (intro Cons.IH) auto
    with Cons.prems show ?case
      by auto
  qed simp
  then show ?thesis
    using that by auto
qed

lemma signalWaiters_inv:
  assumes "wait_inv db"
  obtains db' where "signalWaiters h blockhash db = Some db'" "wait_inv db'"
    "\<forall>c \<in> set (waiters db h). mget (chans db') c = Some (Some blockhash)"
proof -
  obtain m where m: "send_all blockhash (waiters db h) (chans db) = Some m"
    "\<And>c. mget m c = (if c \<in> set (waiters db h) then Some (Some blockhash) else mget (chans db) c)"
    using send_all_empty [of "waiters db h" "chans db" blockhash] assms by (auto simp: wait_inv_def)
  let ?db = "db\<lparr>chans := m, heightWaiters := mdel h (heightWaiters db)\<rparr>"
  have w: "waiters ?db h' = (if h' = h then [] else waiters db h')" for h'
    by (simp add: waiters_def)
  have apart: "h' \<noteq> h \<Longrightarrow> c \<in> set (waiters db h') \<Longrightarrow> c \<notin> set (waiters db h)" for h' c
    using assms unfolding wait_inv_def by blast
  have "wait_inv ?db"
    unfolding wait_inv_def w using assms m(2) by (auto simp: wait_inv_def dest: apart)
  moreover have "signalWaiters h blockhash db = Some ?db"
    using m(1) by (simp add: signalWaiters_def waiters_def)
  ultimately show ?thesis
    using that m(2) by simp
qed

lemma wait_reachable_inv: "wait_reachable db \<Longrightarrow> wait_inv db"
proof (induction rule: wait_reachable.induct)
  case (start db)
  then show ?case
    by (simp add: wait_inv_def waiters_def)
next
  case (step db db')
  from \<open>wait_step db db'\<close> show ?case
  proof (cases rule: wait_step.cases)
    case (wait cl dbHeight h c)
    then show ?thesis
      using WaitForHeight_at_inv step.IH by metis
  next
    case (signal h blockhash)
    then show ?thesis
      using signalWaiters_inv [OF step.IH] by (metis option.inject)
  next
    case other
    then show ?thesis
      using step.IH by (simp add: wait_inv_def waiters_def)
  qed
qed

text \<open>
  However the calls interleave, signalling a height never panics on a full channel, and every
  channel that waits for the height then holds the hash of the block.
\<close>

theorem signalWaiters_never_panics:
  assumes "wait_reachable db"
  shows "\<exists>db'. signalWaiters h blockhash db = Some db' \<and>
    (\<forall>c \<in> set (waiters db h). mget (chans db') c = Some (Some blockhash))"
  using signalWaiters_inv [OF wait_reachable_inv [OF assms]] by metis

definition wait_start :: "(unit, unit, unit) StakeDatabase" where
  "wait_start = \<lparr>StakeDB = (), BestNode = None, blockCache = [], liveTicketCache = [], poolValue = 0,
     poolInfo = \<lparr>poolInfoMap = [], expireQueue = [], maxSize = 2\<rparr>, PoolDB = NewTicketPool [] (),
     heightWaiters = [], chans = [], signals = [], nextChan = 0\<rparr>"

definition no_client :: client where
  "no_client = \<lparr>GetBlockHash = (\<lambda>_. Inl []), GetBlock = (\<lambda>_. Inl []), GetBlockHeader = (\<lambda>_. Inl []),
     GetRawTransaction = (\<lambda>_. Inl [])\<rparr>"

lemma wait_one: "WaitForHeight_at no_client 6 7 wait_start =
    Some (register 7 0 (wait_start\<lparr>nextChan := 1\<rparr>), 0)"
  by (simp add: WaitForHeight_at_def new_chan_def wait_start_def)

theorem signalWaiters_never_panics_witness:
  "\<exists>db'. signalWaiters 7 [1] (register 7 0 (wait_start\<lparr>nextChan := 1\<rparr>)) = Some db' \<and>
    mget (chans db') 0 = Some (Some [1])"
proof -
  have "wait_reachable (register 7 0 (wait_start\<lparr>nextChan := 1\<rparr>))"
    by (rule wait_reachable.step [OF wait_reachable.start wait_step.wait [OF wait_one]])
      (simp_all add: wait_start_def)
  from signalWaiters_never_panics [OF this, of 7 "[1]"] show ?thesis
    by (auto simp: waiters_register)
qed

text \<open>
  The height is read before the channel is registered. A block that is connected and signalled in
  between is missed: the channel is registered for a height that has been reached, and no signal for
  it is under way.
\<close>

lemma WaitForHeight_misses_block:
  assumes "signals db = []"
  shows "\<exists>db' c. WaitForHeight_at cl (h - 1) h db = Some (db', c) \<and> c \<in> set (waiters db' h) \<and> signals db' = []"
  using assms by (simp add: WaitForHeight_at_def new_chan_def waiters_register) (simp add: register_def)

end

