(* ===== verification/Ancestor.thy ===== *)
theory Ancestor
  imports Chain
begin

text \<open>
  Following chains back through the node (\<open>rpcutils/rpcclient.go\<close>): the common ancestor of two tips,
  the blocks of a side chain, and the length of the part of the database that was orphaned. The node
  is a parameter: what it answers for a hash or a height, \<open>None\<close> where the call returns an error.
\<close>

section \<open>Common ancestor\<close>

definition maxAncestorChainLength :: int where
  "maxAncestorChainLength = 8192"

datatype ancestor_error =
    NilClient
  | FailedToGetBlock Hash
  | ErrAncestorAtGenesis
  | ErrAncestorMaxChainLength

text \<open>The three results and the error; a nil error is \<open>None\<close>. The last constructor is the panic.\<close>

datatype ancestor_result =
    Ancestor "Hash option" "Hash list" "Hash list" "ancestor_error option"
  | BrokeTheCode

text \<open>
  One run of the loop from the current hashes, the chains collected so far and the number of steps
  that were counted.
\<close>

function CommonAncestor_loop ::
    "(Hash \<Rightarrow> BlockHeader option) \<Rightarrow> int \<Rightarrow> Hash \<Rightarrow> Hash \<Rightarrow> Hash list \<Rightarrow> Hash list \<Rightarrow> ancestor_result" where
  "CommonAncestor_loop GetBlock len hashA hashB chainA chainB =
    (if maxAncestorChainLength \<le> len then Ancestor None [] [] (Some ErrAncestorMaxChainLength)
     else case GetBlock hashA of
       None \<Rightarrow> Ancestor None [] [] (Some (FailedToGetBlock hashA))
     | Some blockA \<Rightarrow> (case GetBlock hashB of
         None \<Rightarrow> Ancestor None [] [] (Some (FailedToGetBlock hashB))
       | Some blockB \<Rightarrow>
           if hdrHeight blockB < hdrHeight blockA
           then CommonAncestor_loop GetBlock (len + 1) (hdrPrev blockA) hashB (hashA # chainA) chainB
           else if hdrHeight blockA < hdrHeight blockB
           then CommonAncestor_loop GetBlock (len + 1) hashA (hdrPrev blockB) chainA (hashB # chainB)
           else if hdrHeight blockB \<noteq> hdrHeight blockA then BrokeTheCode
           else if hdrPrev blockA = zeroHash
           then Ancestor None (hashA # chainA) (hashB # chainB) (Some ErrAncestorAtGenesis)
           else if hdrPrev blockA = hdrPrev blockB
           then Ancestor (Some (hdrPrev blockA)) (hashA # chainA) (hashB # chainB) None
           else CommonAncestor_loop GetBlock (len + 1) (hdrPrev blockA) (hdrPrev blockB)
                  (hashA # chainA) (hashB # chainB)))"
  by pat_completeness auto
termination
  by (relation "measure (\<lambda>(_, len, _). nat (maxAncestorChainLength - len))") auto

declare CommonAncestor_loop.simps [simp del]

fun CommonAncestor :: "(Hash \<Rightarrow> BlockHeader option) option \<Rightarrow> Hash \<Rightarrow> Hash \<Rightarrow> ancestor_result" where
  "CommonAncestor None hashA hashB = Ancestor None [] [] (Some NilClient)"
| "CommonAncestor (Some GetBlock) hashA hashB = CommonAncestor_loop GetBlock 0 hashA hashB [] []"

text \<open>A run of the loop ends without reaching the panic, for every node.\<close>

lemma CommonAncestor_loop_no_panic:
  "CommonAncestor_loop GetBlock len hashA hashB chainA chainB \<noteq> BrokeTheCode"
  by (induction GetBlock len hashA hashB chainA chainB rule: CommonAncestor_loop.induct)
    (subst CommonAncestor_loop.simps, auto split: option.splits)

subsection \<open>Paths of blocks\<close>

text \<open>
  What the node knows of a block: the hashes of its chain from the genesis block on. The zero hash
  is the previous block of the genesis block only, and the heights fit into 32 bits.
\<close>

definition known_path :: "(Hash \<Rightarrow> BlockHeader option) \<Rightarrow> Hash list \<Rightarrow> bool" where
  "known_path GetBlock p \<longleftrightarrow> p \<noteq> [] \<and> length p < 2 ^ 32 \<and> zeroHash \<notin> set p \<and>
     (\<forall>i < length p. GetBlock (p ! i) =
        Some \<lparr>hdrHash = p ! i, hdrPrev = (if i = 0 then zeroHash else p ! (i - 1)), hdrHeight = of_nat i\<rparr>)"

fun common_prefix :: "'a list \<Rightarrow> 'a list \<Rightarrow> nat" where
  "common_prefix (x # xs) (y # ys) = (if x = y then Suc (common_prefix xs ys) else 0)"
| "common_prefix _ _ = 0"

lemma common_prefix_nth: "i < common_prefix xs ys \<Longrightarrow> xs ! i = ys ! i"
  by (induction xs ys arbitrary: i rule: common_prefix.induct)
    (auto simp: nth_Cons split: if_splits nat.splits)

lemma common_prefix_neq:
  "common_prefix xs ys < length xs \<Longrightarrow> common_prefix xs ys < length ys \<Longrightarrow>
    xs ! common_prefix xs ys \<noteq> ys ! common_prefix xs ys"
  by (induction xs ys rule: common_prefix.induct) auto

lemma common_prefix_le: "common_prefix xs ys \<le> length xs" "common_prefix xs ys \<le> length ys"
  by (induction xs ys rule: common_prefix.induct) auto

lemma known_pathD:
  assumes "known_path GetBlock p" "i < length p"
  shows "GetBlock (p ! i) =
    Some \<lparr>hdrHash = p ! i, hdrPrev = (if i = 0 then zeroHash else p ! (i - 1)), hdrHeight = of_nat i\<rparr>"
  using assms by (simp add: known_path_def)

lemma known_path_nonzero: "known_path GetBlock p \<Longrightarrow> i < length p \<Longrightarrow> p ! i \<noteq> zeroHash"
  by (auto simp: known_path_def in_set_conv_nth)

lemma known_path_length: "known_path GetBlock p \<Longrightarrow> 0 < length p \<and> length p < 2 ^ 32"
  by (simp add: known_path_def)

lemma height_less_iff:
  "i < 2 ^ 32 \<Longrightarrow> j < 2 ^ 32 \<Longrightarrow> (of_nat i :: u32) < of_nat j \<longleftrightarrow> i < j"
  by (simp add: word_less_nat_alt unat_of_nat take_bit_nat_eq_self)

lemma height_eq_iff:
  "i < 2 ^ 32 \<Longrightarrow> j < 2 ^ 32 \<Longrightarrow> (of_nat i :: u32) = of_nat j \<longleftrightarrow> i = j"
  by (metis height_less_iff less_irrefl nat_neq_iff)

text \<open>Two known paths agree below any place where they agree.\<close>

lemma known_paths_agree_below:
  assumes "known_path GetBlock p" "known_path GetBlock q" "i < length p" "i < length q"
    "p ! i = q ! i" "j \<le> i"
  shows "p ! j = q ! j"
  using assms(3-6)
proof (induction i)
  case (Suc i)
  then show ?case
    using known_pathD [OF assms(1), of "Suc i"] known_pathD [OF assms(2), of "Suc i"]
    by (auto simp: le_Suc_eq)
qed simp

lemma known_paths_agree_iff:
  assumes "known_path GetBlock p" "known_path GetBlock q" "i < length p" "i < length q"
  shows "p ! i = q ! i \<longleftrightarrow> i < common_prefix p q"
  using common_prefix_nth [of i p q] common_prefix_neq [of p q]
    known_paths_agree_below [OF assms, of "common_prefix p q"] assms(3,4)
  by (meson linorder_not_less order.strict_trans1)

subsection \<open>What is found\<close>

text \<open>The height at which the two chains part, which is at most that of the lower tip.\<close>

definition fork_height :: "Hash list \<Rightarrow> Hash list \<Rightarrow> nat" where
  "fork_height p q = min (common_prefix p q) (min (length p) (length q) - 1)"

definition ancestor_of :: "Hash list \<Rightarrow> Hash list \<Rightarrow> ancestor_result" where
  "ancestor_of p q =
    (let n = fork_height p q
     in if maxAncestorChainLength < int (max (length p) (length q)) - int n
        then Ancestor None [] [] (Some ErrAncestorMaxChainLength)
        else if n = 0 then Ancestor None p q (Some ErrAncestorAtGenesis)
        else Ancestor (Some (p ! (n - 1))) (drop n p) (drop n q) None)"

lemma CommonAncestor_loop_path:
  assumes paths: "known_path GetBlock p" "known_path GetBlock q"
    and "i < length p" "j < length q" "fork_height p q \<le> i" "fork_height p q \<le> j"
  shows "CommonAncestor_loop GetBlock (int (max (length p) (length q)) - 1 - int (max i j))
      (p ! i) (q ! j) (drop (Suc i) p) (drop (Suc j) q) = ancestor_of p q"
  using assms(3-6)
proof (induction "i + j" arbitrary: i j rule: less_induct)
  case less
  let ?n = "fork_height p q"
  let ?max = "int (max (length p) (length q))"
  note step = CommonAncestor_loop.simps [of GetBlock "?max - 1 - int (max i j)" "p ! i" "q ! j"]
  note A = known_pathD [OF paths(1) less.prems(1)] and B = known_pathD [OF paths(2) less.prems(2)]
  have cons: "p ! i # drop (Suc i) p = drop i p" "q ! j # drop (Suc j) q = drop j q"
    using less.prems by (simp_all add: Cons_nth_drop_Suc)
  have small: "i < 2 ^ 32" "j < 2 ^ 32"
    using less.prems known_path_length paths by (meson less_trans)+
  show ?case
  proof (cases "maxAncestorChainLength \<le> ?max - 1 - int (max i j)")
    case True
    then have "maxAncestorChainLength < ?max - int ?n"
      using less.prems(3) by linarith
    with True show ?thesis
      unfolding step by (simp add: ancestor_of_def Let_def)
  next
    case in_bounds: False
    consider "j < i" | "i < j" | "i = j" by linarith
    then show ?thesis
    proof cases
      case 1
      then have "CommonAncestor_loop GetBlock (?max - 1 - int (max (i - 1) j)) (p ! (i - 1)) (q ! j)
          (drop (Suc (i - 1)) p) (drop (Suc j) q) = ancestor_of p q"
        using less.prems by (intro less.hyps) auto
      moreover have "?max - 1 - int (max i j) + 1 = ?max - 1 - int (max (i - 1) j)"
        using 1 by auto
      ultimately show ?thesis
        using 1 in_bounds A B small unfolding step by (simp add: cons height_less_iff)
    next
      case 2
      then have "CommonAncestor_loop GetBlock (?max - 1 - int (max i (j - 1))) (p ! i) (q ! (j - 1))
          (drop (Suc i) p) (drop (Suc (j - 1)) q) = ancestor_of p q"
        using less.prems by (intro less.hyps) auto
      moreover have "?max - 1 - int (max i j) + 1 = ?max - 1 - int (max i (j - 1))"
        using 2 by auto
      ultimately show ?thesis
        using 2 in_bounds A B small unfolding step by (simp add: cons height_less_iff)
    next
      case 3
      show ?thesis
      proof (cases "i = 0 \<or> p ! (i - 1) = q ! (i - 1)")
        case True
        then have "?n = i"
          using 3 less.prems known_paths_agree_iff [OF paths, of "i - 1"]
          by (auto simp: fork_height_def)
        moreover have "i \<noteq> 0 \<Longrightarrow> p ! (i - 1) \<noteq> zeroHash"
          using known_path_nonzero [OF paths(1), of "i - 1"] less.prems(1) by simp
        ultimately show ?thesis
          using True in_bounds A B cons unfolding 3 [symmetric] step [folded 3]
          by (cases "i = 0") (simp_all add: ancestor_of_def Let_def)
      next
        case False
        then have "\<not> i - 1 < common_prefix p q"
          using 3 less.prems known_paths_agree_iff [OF paths, of "i - 1"] by simp
        then have "?n \<le> i - 1"
          by (simp add: fork_height_def)
        moreover obtain i' where i': "i = Suc i'"
          using False by (cases i) auto
        ultimately have "CommonAncestor_loop GetBlock (?max - 1 - int (max i' i')) (p ! i') (q ! i')
            (drop (Suc i') p) (drop (Suc i') q) = ancestor_of p q"
          using 3 less.prems by (intro less.hyps) auto
        then have "CommonAncestor_loop GetBlock (?max - 1 - int (max i i) + 1) (p ! i') (q ! i')
            (drop i p) (drop i q) = ancestor_of p q"
          by (simp add: i' algebra_simps)
        moreover have "p ! i' \<noteq> zeroHash" "p ! i' \<noteq> q ! i'"
          using known_path_nonzero [OF paths(1), of i'] less.prems(1) False i' by simp_all
        moreover have "\<not> maxAncestorChainLength \<le> ?max - 1 - int (max i i)"
          using in_bounds 3 by simp
        moreover have "GetBlock (p ! i) = Some \<lparr>hdrHash = p ! i, hdrPrev = p ! i', hdrHeight = of_nat i\<rparr>"
          "GetBlock (q ! i) = Some \<lparr>hdrHash = q ! i, hdrPrev = q ! i', hdrHeight = of_nat i\<rparr>"
          using A B unfolding 3 [symmetric] i' by simp_all
        ultimately show ?thesis
          using cons unfolding 3 [symmetric] step [folded 3] by simp
      qed
    qed
  qed
qed

lemma CommonAncestor_loop_tips:
  assumes "known_path GetBlock p" "known_path GetBlock q"
  shows "CommonAncestor (Some GetBlock) (last p) (last q) = ancestor_of p q"
proof -
  have ne: "p \<noteq> []" "q \<noteq> []"
    using assms by (auto simp: known_path_def)
  have "int (max (length p) (length q)) - 1 - int (max (length p - 1) (length q - 1)) = 0"
    using ne by (cases p; cases q) (auto simp: max_def)
  moreover have "fork_height p q \<le> length p - 1" "fork_height p q \<le> length q - 1"
    by (auto simp: fork_height_def)
  ultimately show ?thesis
    using CommonAncestor_loop_path [OF assms, of "length p - 1" "length q - 1"] ne
    by (simp add: last_conv_nth)
qed

text \<open>
  For two tips whose chains the node knows, the result is the last block before the fork with
  the blocks of both chains after it, unless more than \<open>maxAncestorChainLength\<close> steps are needed, or
  the chains share no block below the tips. A tip is never the ancestor: when one tip lies on the
  other chain, the ancestor is its previous block.
\<close>

theorem CommonAncestor_correct:
  assumes "known_path GetBlock p" "known_path GetBlock q"
  shows "CommonAncestor (Some GetBlock) (last p) (last q) = ancestor_of p q"
  by (rule CommonAncestor_loop_tips [OF assms])

text \<open>A node with two chains that part after the block with hash 2: 1-2-3-4 and 1-2-5.\<close>

definition example_node :: "Hash \<Rightarrow> BlockHeader option" where
  "example_node h =
    (if h = [1] then Some \<lparr>hdrHash = h, hdrPrev = zeroHash, hdrHeight = 0\<rparr>
     else if h = [2] then Some \<lparr>hdrHash = h, hdrPrev = [1], hdrHeight = 1\<rparr>
     else if h = [3] then Some \<lparr>hdrHash = h, hdrPrev = [2], hdrHeight = 2\<rparr>
     else if h = [4] then Some \<lparr>hdrHash = h, hdrPrev = [3], hdrHeight = 3\<rparr>
     else if h = [5] then Some \<lparr>hdrHash = h, hdrPrev = [2], hdrHeight = 2\<rparr>
     else None)"

lemma zeroHash_neq: "length h \<noteq> HashSize \<Longrightarrow> zeroHash \<noteq> h" "length h \<noteq> HashSize \<Longrightarrow> h \<noteq> zeroHash"
  by (auto simp: zeroHash_def)

lemma HashSize_big [simp]: "Suc 0 \<noteq> HashSize" "1 \<noteq> HashSize"
  by (simp_all add: HashSize_def)

lemma example_paths: "known_path example_node [[1], [2], [3], [4]]" "known_path example_node [[1], [2], [5]]"
  by (simp_all add: known_path_def example_node_def zeroHash_neq All_less_Suc)

theorem CommonAncestor_correct_witness:
  "CommonAncestor (Some example_node) [4] [5] = Ancestor (Some [2]) [[3], [4]] [[5]] None"
  using CommonAncestor_correct [OF example_paths]
  by (simp add: ancestor_of_def fork_height_def maxAncestorChainLength_def Let_def)

section \<open>Side chains\<close>

text \<open>The fields of a verbose header that are read; the hashes are strings.\<close>

record verbose_header =
  Confirmations :: int
  PreviousHash :: string

datatype side_chain_error = HeaderFailed string | TipNotOnSideChain

text \<open>The status of a chain tip and its other fields.\<close>

record 'a chain_tip =
  Status :: string
  Tip :: 'a

definition sideChainTips :: "'a chain_tip list \<Rightarrow> 'a chain_tip list" where
  "sideChainTips allTips =
    filter (\<lambda>tip. Status tip \<in> {''valid-headers'', ''valid-fork''}) allTips"

text \<open>
  \<open>GetBlockHeaderVerboseByString\<close>: parse the hash, then ask the node. \<open>parse\<close> is
  \<open>chainhash.NewHashFromStr\<close>.
\<close>

definition GetBlockHeaderVerboseByString ::
    "(string \<Rightarrow> Hash option) \<Rightarrow> (Hash \<Rightarrow> verbose_header option) \<Rightarrow> string \<Rightarrow> verbose_header option" where
  "GetBlockHeaderVerboseByString parse getHeader h =
    (case parse h of None \<Rightarrow> None | Some blockhash \<Rightarrow> getHeader blockhash)"

text \<open>The exchange of elements from both ends, for the indices \<open>i\<close> up to \<open>N / 2\<close>.\<close>

fun reverse_loop :: "'a list \<Rightarrow> nat \<Rightarrow> nat \<Rightarrow> 'a list" where
  "reverse_loop s i 0 = s"
| "reverse_loop s i (Suc k) =
    (let j = length s - 1 - i in reverse_loop (s[i := s ! j, j := s ! i]) (Suc i) k)"

definition reverseStringSlice :: "'a list \<Rightarrow> 'a list" where
  "reverseStringSlice s = reverse_loop s 0 (length s div 2)"

text \<open>
  The loop of \<open>SideChainFull\<close> follows previous hashes for as long as the blocks are on a side chain;
  nothing bounds it, so it is a partial function. Its result is the slice before it is reversed.
\<close>

partial_function (option) SideChain_loop ::
    "(string \<Rightarrow> verbose_header option) \<Rightarrow> string \<Rightarrow> string \<Rightarrow> string list \<Rightarrow>
      (side_chain_error + string list) option" where
  "SideChain_loop header tipHash h sideChain =
    (case header h of
       None \<Rightarrow> Some (Inl (HeaderFailed h))
     | Some hdr \<Rightarrow>
         if Confirmations hdr \<noteq> -1
         then (if h = tipHash then Some (Inl TipNotOnSideChain) else Some (Inr sideChain))
         else SideChain_loop header tipHash (PreviousHash hdr) (sideChain @ [h]))"

definition SideChainFull ::
    "(string \<Rightarrow> verbose_header option) \<Rightarrow> string \<Rightarrow> (side_chain_error + string list) option" where
  "SideChainFull header tipHash =
    map_option (map_sum id reverseStringSlice) (SideChain_loop header tipHash tipHash [])"

lemma reverse_loop_nth:
  assumes "2 * (i + k) \<le> length s" "m < length s"
  shows "reverse_loop s i k ! m =
    (if i \<le> m \<and> m < i + k \<or> i \<le> length s - 1 - m \<and> length s - 1 - m < i + k
     then s ! (length s - 1 - m) else s ! m)"
  using assms
proof (induction k arbitrary: i s)
  case (Suc k)
  let ?s = "s[i := s ! (length s - 1 - i), length s - 1 - i := s ! i]"
  have "reverse_loop s i (Suc k) ! m = reverse_loop ?s (Suc i) k ! m"
    by (simp add: Let_def)
  also have "\<dots> = (if Suc i \<le> m \<and> m < Suc i + k \<or>
      Suc i \<le> length s - 1 - m \<and> length s - 1 - m < Suc i + k
      then ?s ! (length s - 1 - m) else ?s ! m)"
    using Suc.IH [of "Suc i" ?s] Suc.prems by simp
  finally show ?case
    using Suc.prems by (auto simp: nth_list_update)
qed auto

lemma length_reverse_loop [simp]: "length (reverse_loop s i k) = length s"
  by (induction s i k rule: reverse_loop.induct) (simp_all add: Let_def)

text \<open>The exchange from both ends is the reversal, for slices of even and of odd length.\<close>

lemma reverseStringSlice_rev: "reverseStringSlice s = rev s"
proof (rule nth_equalityI)
  fix m
  assume m: "m < length (reverseStringSlice s)"
  show "reverseStringSlice s ! m = rev s ! m"
  proof (cases "m < length s div 2 \<or> length s - 1 - m < length s div 2")
    case True
    with m show ?thesis
      by (simp add: reverseStringSlice_def reverse_loop_nth rev_nth)
  next
    case False
    then have "length s - 1 - m = m"
      using m by (simp add: reverseStringSlice_def) linarith
    with False m show ?thesis
      by (auto simp: reverseStringSlice_def reverse_loop_nth rev_nth)
  qed
qed (simp add: reverseStringSlice_def)

text \<open>The hashes of a side chain in ascending order, on top of a block of the main chain.\<close>

fun side_chain_on :: "(string \<Rightarrow> verbose_header option) \<Rightarrow> string \<Rightarrow> string list \<Rightarrow> bool" where
  "side_chain_on header anc [] \<longleftrightarrow> (\<exists>hdr. header anc = Some hdr \<and> Confirmations hdr \<noteq> -1)"
| "side_chain_on header anc (h # hs) \<longleftrightarrow> side_chain_on header anc [] \<and>
     (\<forall>i < Suc (length hs). header ((h # hs) ! i) =
        Some \<lparr>Confirmations = -1, PreviousHash = (if i = 0 then anc else (h # hs) ! (i - 1))\<rparr>)"

lemma side_chain_on_snoc:
  "side_chain_on header anc (hs @ [h]) \<longleftrightarrow> side_chain_on header anc hs \<and>
    header h = Some \<lparr>Confirmations = -1, PreviousHash = last (anc # hs)\<rparr>"
  by (cases hs) (auto simp: All_less_Suc nth_append last_conv_nth nth_Cons')

lemma SideChain_loop_chain:
  assumes "side_chain_on header anc hs" "anc \<noteq> tip"
  shows "SideChain_loop header tip (last (anc # hs)) acc = Some (Inr (acc @ rev hs))"
  using assms
proof (induction hs arbitrary: acc rule: rev_induct)
  case Nil
  then show ?case by (subst SideChain_loop.simps) auto
next
  case (snoc h hs)
  then show ?case
    by (subst SideChain_loop.simps) (simp add: side_chain_on_snoc)
qed

text \<open>
  The blocks of a side chain are returned in ascending order without the block of the main chain
  on which it stands; the loop ends.
\<close>

theorem SideChainFull_correct:
  assumes "side_chain_on header anc hs" "hs \<noteq> []"
  shows "SideChainFull header (last hs) = Some (Inr hs)"
proof -
  obtain h0 hs0 where hs: "hs = hs0 @ [h0]"
    using assms(2) by (metis append_butlast_last_id)
  have "anc \<noteq> h0"
    using assms(1) side_chain_on_snoc [of header anc hs0 h0] unfolding hs
    by (cases hs0) auto
  then show ?thesis
    using SideChain_loop_chain [OF assms(1), of h0 "[]"] hs
    by (simp add: SideChainFull_def reverseStringSlice_rev)
qed

theorem SideChainFull_correct_witness:
  "SideChainFull ((\<lambda>_. None)(''m'' \<mapsto> \<lparr>Confirmations = 3, PreviousHash = ''l''\<rparr>,
      ''a'' \<mapsto> \<lparr>Confirmations = -1, PreviousHash = ''m''\<rparr>,
      ''b'' \<mapsto> \<lparr>Confirmations = -1, PreviousHash = ''a''\<rparr>)) ''b'' = Some (Inr [''a'', ''b''])"
  using SideChainFull_correct [of _ "''m''" "[''a'', ''b'']"] by (simp add: All_less_Suc)

section \<open>Orphaned tip\<close>

datatype orphan_error = NoDBBlock int | NoNodeBlock int | NoCommonAncestor

text \<open>
  The result, the error and whether the warning of an abnormal depth was logged. \<open>done\<close> tells
  whether the context was cancelled when the height was looked at, \<open>print\<close> is \<open>Hash.String\<close>.
\<close>

function Orphaned_loop ::
    "(int \<Rightarrow> bool) \<Rightarrow> (Hash \<Rightarrow> string) \<Rightarrow> (int \<Rightarrow> Hash option) \<Rightarrow> int \<Rightarrow> (int \<Rightarrow> string option) \<Rightarrow>
      int \<Rightarrow> bool \<Rightarrow> int \<times> orphan_error option \<times> bool" where
  "Orphaned_loop cancelled print GetBlockHash tipHeight hashFunc commonHeight warned =
    (if cancelled commonHeight then (0, None, warned)
     else case hashFunc commonHeight of
       None \<Rightarrow> (-1, Some (NoDBBlock commonHeight), warned)
     | Some dbHash \<Rightarrow> (case GetBlockHash commonHeight of
         None \<Rightarrow> (-1, Some (NoNodeBlock commonHeight), warned)
       | Some dcrdHash \<Rightarrow>
           if print dcrdHash = dbHash then (tipHeight - commonHeight, None, warned)
           else if commonHeight - 1 < 0 then (-1, Some NoCommonAncestor, warned)
           else Orphaned_loop cancelled print GetBlockHash tipHeight hashFunc (commonHeight - 1)
                  (warned \<or> commonHeight - 1 - tipHeight = 7)))"
  by pat_completeness auto
termination
  by (relation "measure (\<lambda>(_, _, _, _, _, commonHeight, _). nat commonHeight)") auto

declare Orphaned_loop.simps [simp del]

definition OrphanedTipLength ::
    "(int \<Rightarrow> bool) \<Rightarrow> (Hash \<Rightarrow> string) \<Rightarrow> (int \<Rightarrow> Hash option) \<Rightarrow> int \<Rightarrow> (int \<Rightarrow> string option) \<Rightarrow>
      int \<times> orphan_error option \<times> bool" where
  "OrphanedTipLength cancelled print GetBlockHash tipHeight hashFunc =
    Orphaned_loop cancelled print GetBlockHash tipHeight hashFunc tipHeight False"

text \<open>The loop goes down from the height at which the two sides still differ.\<close>

definition differs ::
    "(int \<Rightarrow> bool) \<Rightarrow> (Hash \<Rightarrow> string) \<Rightarrow> (int \<Rightarrow> Hash option) \<Rightarrow> (int \<Rightarrow> string option) \<Rightarrow> int \<Rightarrow> bool" where
  "differs cancelled print GetBlockHash hashFunc k \<longleftrightarrow> \<not> cancelled k \<and>
     (\<exists>d h. hashFunc k = Some d \<and> GetBlockHash k = Some h \<and> print h \<noteq> d)"

lemma Orphaned_loop_down:
  assumes "k \<le> tipHeight" "0 \<le> c" "c \<le> k"
    "\<forall>i. c < i \<and> i \<le> k \<longrightarrow> differs cancelled print GetBlockHash hashFunc i"
  shows "Orphaned_loop cancelled print GetBlockHash tipHeight hashFunc k w
    = Orphaned_loop cancelled print GetBlockHash tipHeight hashFunc c w"
  using assms
proof (induction "nat (k - c)" arbitrary: k)
  case (Suc n)
  then have "differs cancelled print GetBlockHash hashFunc k"
    by auto
  moreover have positive: "\<not> k < 1"
    using Suc.prems Suc.hyps(2) by auto
  ultimately obtain d h where "\<not> cancelled k" "hashFunc k = Some d" "GetBlockHash k = Some h" "print h \<noteq> d"
    by (auto simp: differs_def)
  moreover have "Orphaned_loop cancelled print GetBlockHash tipHeight hashFunc (k - 1) w
    = Orphaned_loop cancelled print GetBlockHash tipHeight hashFunc c w"
    using Suc by auto
  ultimately show ?case
    using Suc.prems(1-3) positive by (subst Orphaned_loop.simps) simp
qed simp

text \<open>
  When database and node agree at a height and differ at every higher one up to the tip, the
  result is the number of blocks above it, and no warning is logged, however many these are.
\<close>

theorem OrphanedTipLength_correct:
  assumes "0 \<le> c" "c \<le> tipHeight"
    and "\<forall>i. c < i \<and> i \<le> tipHeight \<longrightarrow> differs cancelled print GetBlockHash hashFunc i"
    and "\<not> cancelled c" "GetBlockHash c = Some h" "hashFunc c = Some (print h)"
  shows "OrphanedTipLength cancelled print GetBlockHash tipHeight hashFunc = (tipHeight - c, None, False)"
  unfolding OrphanedTipLength_def Orphaned_loop_down [OF order_refl assms(1-3)]
  using assms(4-6) by (subst Orphaned_loop.simps) simp

theorem OrphanedTipLength_correct_witness:
  "OrphanedTipLength (\<lambda>_. False) (\<lambda>h. if h = [1] then ''a'' else ''b'')
     (\<lambda>i. if i < 3 then Some [1] else Some [2]) 12 (\<lambda>_. Some ''a'') = (10, None, False)"
proof -
  have "\<forall>i. 2 < i \<and> i \<le> 12 \<longrightarrow> differs (\<lambda>_. False) (\<lambda>h. if h = [1] then ''a'' else ''b'')
      (\<lambda>i. if i < 3 then Some [1] else Some [2]) (\<lambda>_. Some ''a'') i"
    by (auto simp: differs_def)
  from OrphanedTipLength_correct [OF _ _ this, of "[1]"] show ?thesis
    by simp
qed

end
