(* ===== verification/Notifier.thy ===== *)
theory Notifier
  imports Ancestor
begin

text \<open>
  The notifier (\<open>cmd/dcrdata/internal/notification/notifier.go\<close>): it takes the notifications of dcrd one
  at a time, checks that a new block connects to the last one, fetches the blocks that were missed, and
  runs the registered groups of handlers. Handlers are abstract: what one does to the state of the
  program and how it ends is a parameter. The handlers of a group run concurrently and must not depend
  on each other; they are run in the order in which they were registered. The deadline of a group is
  the outcome \<open>TimedOut\<close> of a handler.
\<close>

section \<open>Data\<close>

record BranchTips =
  btOldChainHead :: Hash
  btOldChainHeight :: i32
  btNewChainHead :: Hash
  btNewChainHeight :: i32

text \<open>\<open>recorded\<close> is a history variable: the headers with which \<open>processBlock\<close> moved \<open>previous\<close> on.\<close>

record 'h Notifier =
  tx :: "'h list list"
  block :: "'h list list"
  reorg :: "'h list list"
  previousHash :: Hash
  previousHeight :: u32
  recorded :: "BlockHeader list"

record DCRDNode =
  nodeBlockHash :: "int \<Rightarrow> Hash option"
  nodeBlock :: "Hash \<Rightarrow> BlockHeader option"

datatype outcome = Completed | Failed | TimedOut

record ('h, 't, 's) handler_env =
  onBlock :: "'h \<Rightarrow> BlockHeader \<Rightarrow> 's \<Rightarrow> 's \<times> outcome"
  onReorg :: "'h \<Rightarrow> ReorgData \<Rightarrow> 's \<Rightarrow> 's \<times> outcome"
  onTx :: "'h \<Rightarrow> 't \<Rightarrow> 's \<Rightarrow> 's \<times> outcome"

datatype 't message = BlockMsg BlockHeader | ReorgMsg BranchTips | TxMsg 't

definition maxBlockCatchUp :: int where
  "maxBlockCatchUp = 2000"

section \<open>Registration\<close>

definition NewNotifier :: "'h Notifier" where
  "NewNotifier = \<lparr>tx = [], block = [], reorg = [], previousHash = zeroHash, previousHeight = 0, recorded = []\<rparr>"

definition RegisterTxHandlerGroup :: "'h list \<Rightarrow> 'h Notifier \<Rightarrow> 'h Notifier" where
  "RegisterTxHandlerGroup handlers n = n\<lparr>tx := tx n @ [handlers]\<rparr>"

definition RegisterBlockHandlerGroup :: "'h list \<Rightarrow> 'h Notifier \<Rightarrow> 'h Notifier" where
  "RegisterBlockHandlerGroup handlers n = n\<lparr>block := block n @ [handlers]\<rparr>"

definition RegisterReorgHandlerGroup :: "'h list \<Rightarrow> 'h Notifier \<Rightarrow> 'h Notifier" where
  "RegisterReorgHandlerGroup handlers n = n\<lparr>reorg := reorg n @ [handlers]\<rparr>"

definition SetPreviousBlock :: "Hash \<Rightarrow> u32 \<Rightarrow> 'h Notifier \<Rightarrow> 'h Notifier" where
  "SetPreviousBlock prevHash prevHeight n = n\<lparr>previousHash := prevHash, previousHeight := prevHeight\<rparr>"

definition record_block :: "BlockHeader \<Rightarrow> 'h Notifier \<Rightarrow> 'h Notifier" where
  "record_block bh n = (SetPreviousBlock (hdrHash bh) (hdrHeight bh) n)\<lparr>recorded := recorded n @ [bh]\<rparr>"

section \<open>Running handlers\<close>

fun worse :: "outcome \<Rightarrow> outcome \<Rightarrow> outcome" where
  "worse TimedOut _ = TimedOut"
| "worse _ TimedOut = TimedOut"
| "worse Failed _ = Failed"
| "worse _ Failed = Failed"
| "worse Completed Completed = Completed"

fun run_group :: "('h \<Rightarrow> 'a \<Rightarrow> 's \<Rightarrow> 's \<times> outcome) \<Rightarrow> 'a \<Rightarrow> 'h list \<Rightarrow> 's \<Rightarrow> 's \<times> outcome" where
  "run_group f a [] s = (s, Completed)"
| "run_group f a (h # hs) s =
    (case f h a s of (s1, o1) \<Rightarrow> (case run_group f a hs s1 of (s2, o2) \<Rightarrow> (s2, worse o1 o2)))"

text \<open>The block handlers stop at the first group that fails or does not end in time.\<close>

fun block_groups :: "('h \<Rightarrow> 'a \<Rightarrow> 's \<Rightarrow> 's \<times> outcome) \<Rightarrow> 'a \<Rightarrow> 'h list list \<Rightarrow> 's \<Rightarrow> 's \<times> bool" where
  "block_groups f a [] s = (s, True)"
| "block_groups f a (g # gs) s =
    (case run_group f a g s of
       (s1, Completed) \<Rightarrow> block_groups f a gs s1
     | (s1, Failed) \<Rightarrow> (s1, False)
     | (s1, TimedOut) \<Rightarrow> (s1, False))"

text \<open>The other groups go on after an error, which is logged, but not after the deadline.\<close>

fun other_groups :: "('h \<Rightarrow> 'a \<Rightarrow> 's \<Rightarrow> 's \<times> outcome) \<Rightarrow> 'a \<Rightarrow> 'h list list \<Rightarrow> 's \<Rightarrow> 's \<times> bool" where
  "other_groups f a [] s = (s, True)"
| "other_groups f a (g # gs) s =
    (case run_group f a g s of
       (s1, TimedOut) \<Rightarrow> (s1, False)
     | (s1, _) \<Rightarrow> other_groups f a gs s1)"

definition runBlockHandlers :: "('h, 't, 's) handler_env \<Rightarrow> BlockHeader \<Rightarrow> 'h Notifier \<Rightarrow> 's \<Rightarrow> 's \<times> bool" where
  "runBlockHandlers env bh n s = block_groups (onBlock env) bh (block n) s"

definition processTx :: "('h, 't, 's) handler_env \<Rightarrow> 't \<Rightarrow> 'h Notifier \<Rightarrow> 's \<Rightarrow> 's" where
  "processTx env msg n s = fst (other_groups (onTx env) msg (tx n) s)"

section \<open>Blocks\<close>

text \<open>The replay of \<open>k\<close> missed blocks from height \<open>h\<close> on; the flag tells whether it was complete.\<close>

fun catch_up_loop :: "('h, 't, 's) handler_env \<Rightarrow> DCRDNode \<Rightarrow> nat \<Rightarrow> int \<Rightarrow> 'h Notifier \<Rightarrow> 's \<Rightarrow>
    'h Notifier \<times> 's \<times> bool" where
  "catch_up_loop env node 0 h n s = (n, s, True)"
| "catch_up_loop env node (Suc k) h n s =
    (case nodeBlockHash node h of
       None \<Rightarrow> (n, s, False)
     | Some hash \<Rightarrow> (case nodeBlock node hash of
         None \<Rightarrow> (n, s, False)
       | Some hdr \<Rightarrow> (case runBlockHandlers env hdr n s of
           (s1, False) \<Rightarrow> (n, s1, False)
         | (s1, True) \<Rightarrow> catch_up_loop env node k (h + 1) (record_block hdr n) s1)))"

definition catchUpMissedBlocks :: "('h, 't, 's) handler_env \<Rightarrow> DCRDNode \<Rightarrow> BlockHeader \<Rightarrow>
    'h Notifier \<Rightarrow> 's \<Rightarrow> 'h Notifier \<times> 's \<times> bool" where
  "catchUpMissedBlocks env node bh n s =
    (if previousHash n = zeroHash \<or> hdrHeight bh \<le> previousHeight n + 1 then (n, s, False)
     else
       (let gap = uint (hdrHeight bh) - uint (previousHeight n) - 1
        in if gap > maxBlockCatchUp then (n, s, False)
           else case nodeBlockHash node (uint (previousHeight n)) of
             None \<Rightarrow> (n, s, False)
           | Some mainHash \<Rightarrow>
               if mainHash \<noteq> previousHash n then (n, s, False)
               else catch_up_loop env node (nat gap) (uint (previousHeight n) + 1) n s))"

definition finish_block :: "('h, 't, 's) handler_env \<Rightarrow> BlockHeader \<Rightarrow> 'h Notifier \<Rightarrow> 's \<Rightarrow> 'h Notifier \<times> 's" where
  "finish_block env bh n s =
    (case runBlockHandlers env bh n s of
       (s1, True) \<Rightarrow> (record_block bh n, s1)
     | (s1, False) \<Rightarrow> (n, s1))"

definition processBlock :: "('h, 't, 's) handler_env \<Rightarrow> DCRDNode \<Rightarrow> BlockHeader \<Rightarrow>
    'h Notifier \<Rightarrow> 's \<Rightarrow> 'h Notifier \<times> 's" where
  "processBlock env node bh n s =
    (if hdrPrev bh \<noteq> previousHash n
     then (case catchUpMissedBlocks env node bh n s of
         (n1, s1, False) \<Rightarrow> (n1, s1)
       | (n1, s1, True) \<Rightarrow>
           if hdrPrev bh \<noteq> previousHash n1 then (n1, s1) else finish_block env bh n1 s1)
     else finish_block env bh n s)"

section \<open>Reorganisations\<close>

definition signalReorg :: "('h, 't, 's) handler_env \<Rightarrow> DCRDNode \<Rightarrow> BranchTips \<Rightarrow>
    'h Notifier \<Rightarrow> 's \<Rightarrow> 'h Notifier \<times> 's" where
  "signalReorg env node d n s =
    (case CommonAncestor (Some (nodeBlock node)) (btNewChainHead d) (btOldChainHead d) of
       Ancestor (Some ancestor) newChain oldChain None \<Rightarrow>
         (let r = \<lparr>ReorgAncestor = ancestor, OldChainHead = btOldChainHead d, OldChainHeight = btOldChainHeight d,
                   OldChain = oldChain, NewChainHead = btNewChainHead d, NewChainHeight = btNewChainHeight d,
                   NewChain = newChain\<rparr>
          in case other_groups (onReorg env) r (reorg n) s of
               (s1, False) \<Rightarrow> (n, s1)
             | (s1, True) \<Rightarrow> (SetPreviousBlock (btNewChainHead d) (ucast (btNewChainHeight d)) n, s1))
     | _ \<Rightarrow> (n, s))"

text \<open>The queue of all notifications: one is finished before the next one is taken.\<close>

definition handle_message :: "('h, 't, 's) handler_env \<Rightarrow> DCRDNode \<Rightarrow> 't message \<Rightarrow>
    'h Notifier \<times> 's \<Rightarrow> 'h Notifier \<times> 's" where
  "handle_message env node msg ns =
    (case msg of
       BlockMsg bh \<Rightarrow> processBlock env node bh (fst ns) (snd ns)
     | ReorgMsg d \<Rightarrow> signalReorg env node d (fst ns) (snd ns)
     | TxMsg t \<Rightarrow> (fst ns, processTx env t (fst ns) (snd ns)))"

text \<open>Every message comes with the node as it is while the message is handled.\<close>

fun superQueue :: "('h, 't, 's) handler_env \<Rightarrow> (DCRDNode \<times> 't message) list \<Rightarrow>
    'h Notifier \<times> 's \<Rightarrow> 'h Notifier \<times> 's" where
  "superQueue env [] ns = ns"
| "superQueue env ((node, msg) # q) ns = superQueue env q (handle_message env node msg ns)"

section \<open>What is recorded\<close>

text \<open>Headers that follow each other, and the tip after them.\<close>

fun links :: "Hash \<Rightarrow> BlockHeader list \<Rightarrow> bool" where
  "links h [] \<longleftrightarrow> True"
| "links h (b # bs) \<longleftrightarrow> hdrPrev b = h \<and> links (hdrHash b) bs"

fun tip_after :: "Hash \<times> u32 \<Rightarrow> BlockHeader list \<Rightarrow> Hash \<times> u32" where
  "tip_after p [] = p"
| "tip_after p (b # bs) = tip_after (hdrHash b, hdrHeight b) bs"

lemma links_append: "links h (xs @ ys) \<longleftrightarrow> links h xs \<and> links (fst (tip_after (h, i) xs)) ys"
  by (induction xs arbitrary: h i) auto

lemma tip_after_append [simp]: "tip_after p (xs @ ys) = tip_after (tip_after p xs) ys"
  by (induction xs arbitrary: p) auto

lemma tip_after_last: "bs \<noteq> [] \<Longrightarrow> tip_after p bs = (hdrHash (last bs), hdrHeight (last bs))"
  by (induction bs arbitrary: p rule: rev_induct) auto

text \<open>The step from one notifier to another: the same handlers, and some more blocks recorded.\<close>

definition moves :: "'h Notifier \<Rightarrow> BlockHeader list \<Rightarrow> 'h Notifier \<Rightarrow> bool" where
  "moves n bs n' \<longleftrightarrow> recorded n' = recorded n @ bs \<and> links (previousHash n) bs \<and>
    (previousHash n', previousHeight n') = tip_after (previousHash n, previousHeight n) bs \<and>
    tx n' = tx n \<and> block n' = block n \<and> reorg n' = reorg n"

lemma moves_none [simp]: "moves n [] n"
  by (simp add: moves_def)

lemma moves_refl: "\<exists>bs. moves n bs n"
  using moves_none by blast

lemma moves_trans:
  assumes "moves n bs n1" "moves n1 cs n2"
  shows "moves n (bs @ cs) n2"
proof -
  have "tip_after (previousHash n, previousHeight n) bs = (previousHash n1, previousHeight n1)"
    using assms(1) by (simp add: moves_def)
  then show ?thesis
    using assms by (simp add: moves_def links_append [of _ _ _ "previousHeight n"])
qed

lemma moves_record: "hdrPrev b = previousHash n \<Longrightarrow> moves n [b] (record_block b n)"
  by (simp add: moves_def record_block_def SetPreviousBlock_def)

text \<open>A node whose blocks at consecutive heights are linked.\<close>

definition node_linked :: "DCRDNode \<Rightarrow> bool" where
  "node_linked node \<longleftrightarrow> (\<forall>h hash hdr. nodeBlockHash node h = Some hash \<and> nodeBlock node hash = Some hdr \<longrightarrow>
     hdrHash hdr = hash \<and> uint (hdrHeight hdr) = h \<and>
     (0 < h \<longrightarrow> nodeBlockHash node (h - 1) = Some (hdrPrev hdr)))"

lemma catch_up_loop_moves:
  assumes "node_linked node" "nodeBlockHash node (h - 1) = Some (previousHash n)" "0 < h"
  shows "\<exists>bs n' s' ok. catch_up_loop env node k h n s = (n', s', ok) \<and> moves n bs n'"
  using assms
proof (induction k arbitrary: h n s)
  case (Suc k)
  show ?case
  proof (cases "nodeBlockHash node h")
    case (Some hash)
    show ?thesis
    proof (cases "nodeBlock node hash")
      case hdr: (Some hdr)
      have hdr_ok: "hdrHash hdr = hash" "hdrPrev hdr = previousHash n"
        using Suc.prems Some hdr unfolding node_linked_def by (metis option.inject)+
      obtain s1 r where run: "runBlockHandlers env hdr n s = (s1, r)"
        by fastforce
      show ?thesis
      proof (cases r)
        case True
        have "nodeBlockHash node (h + 1 - 1) = Some (previousHash (record_block hdr n))"
          using Some hdr_ok by (simp add: record_block_def SetPreviousBlock_def)
        then obtain bs n' s' ok where IH: "catch_up_loop env node k (h + 1) (record_block hdr n) s1 = (n', s', ok)"
          "moves (record_block hdr n) bs n'"
          using Suc.IH [OF Suc.prems(1), of "h + 1" "record_block hdr n" s1] Suc.prems(3) by auto
        have "moves n ([hdr] @ bs) n'"
          using moves_trans [OF moves_record IH(2)] hdr_ok by simp
        then show ?thesis
          using Some hdr run True IH(1) by auto
      qed (use Some hdr run moves_refl in auto)
    qed (use Some moves_refl in auto)
  qed (use moves_refl in auto)
qed (use moves_refl in auto)

lemma finish_block_moves:
  assumes "hdrPrev bh = previousHash n"
  shows "\<exists>bs. moves n bs (fst (finish_block env bh n s))"
proof (cases "runBlockHandlers env bh n s")
  case (Pair s1 r)
  then show ?thesis
    using moves_record [OF assms] moves_refl [of n] by (cases r) (auto simp: finish_block_def)
qed

lemma processBlock_moves:
  assumes "node_linked node"
  shows "\<exists>bs. moves n bs (fst (processBlock env node bh n s))"
proof (cases "hdrPrev bh = previousHash n")
  case True
  then show ?thesis
    using finish_block_moves [OF True] by (simp add: processBlock_def)
next
  case False
  obtain n1 s1 ok where cu: "catchUpMissedBlocks env node bh n s = (n1, s1, ok)"
    using prod_cases3 by blast
  have "\<exists>bs. moves n bs n1"
  proof (cases "n1 = n")
    case False
    then have "nodeBlockHash node (uint (previousHeight n)) = Some (previousHash n)"
      "catch_up_loop env node (nat (uint (hdrHeight bh) - uint (previousHeight n) - 1))
        (uint (previousHeight n) + 1) n s = (n1, s1, ok)"
      using cu by (auto simp: catchUpMissedBlocks_def Let_def split: if_splits option.splits)
    then show ?thesis
      using catch_up_loop_moves [OF assms, of "uint (previousHeight n) + 1" n env
          "nat (uint (hdrHeight bh) - uint (previousHeight n) - 1)" s] uint_ge_0 [of "previousHeight n"]
      by fastforce
  qed (use moves_refl in auto)
  then obtain bs where bs: "moves n bs n1" ..
  show ?thesis
  proof (cases "ok \<and> hdrPrev bh = previousHash n1")
    case True
    then obtain cs where "moves n1 cs (fst (finish_block env bh n1 s1))"
      using finish_block_moves by metis
    then show ?thesis
      using moves_trans [OF bs] True False cu by (auto simp: processBlock_def)
  next
    case other: False
    then show ?thesis
      using False cu bs by (auto simp: processBlock_def split: bool.split)
  qed
qed

end
