(* ===== verification/NotifierSync.thy ===== *)
theory NotifierSync
  imports Notifier
begin

text \<open>
  The properties of the notifier: the blocks that it records form a chain without holes, one
  notification is enough to catch up, and what an aborted reorganisation leaves behind.
\<close>

section \<open>Safety\<close>

text \<open>
  Whatever headers dcrd announces, and however the handlers fail, the blocks recorded as processed
  follow each other by their previous hashes, starting at the last processed block: none is left out
  and none is processed out of order. The nodes answer with linked blocks.
\<close>

theorem recorded_blocks_link:
  assumes "\<forall>(node, msg) \<in> set q. node_linked node \<and> (\<exists>bh. msg = BlockMsg bh)"
  shows "\<exists>bs. recorded (fst (superQueue env q (n, s))) = recorded n @ bs \<and> links (previousHash n) bs \<and>
    (previousHash (fst (superQueue env q (n, s))), previousHeight (fst (superQueue env q (n, s))))
      = tip_after (previousHash n, previousHeight n) bs"
proof -
  have "\<exists>bs. moves n bs (fst (superQueue env q (n, s)))"
    using assms
  proof (induction q arbitrary: n s)
    case Nil
    then show ?case
      using moves_refl by simp
  next
    case (Cons x q)
    obtain node bh where x: "x = (node, BlockMsg bh)" "node_linked node"
      using Cons.prems by (cases x) auto
    obtain n1 s1 where p: "processBlock env node bh n s = (n1, s1)"
      by fastforce
    obtain bs where "moves n bs n1"
      using processBlock_moves [OF x(2), of n env bh s] p by auto
    moreover obtain cs where "moves n1 cs (fst (superQueue env q (n1, s1)))"
      using Cons.IH Cons.prems by fastforce
    ultimately show ?case
      using moves_trans x(1) p by (fastforce simp: handle_message_def)
  qed
  then show ?thesis
    by (auto simp: moves_def)
qed

definition ex_header :: "u8 \<Rightarrow> u8 \<Rightarrow> u32 \<Rightarrow> BlockHeader" where
  "ex_header h p i = \<lparr>hdrHash = [h], hdrPrev = [p], hdrHeight = i\<rparr>"

text \<open>A node with the blocks 1, 2, 3 and 4 at the heights 7 to 10.\<close>

definition ex_headers :: "BlockHeader list" where
  "ex_headers = [ex_header 1 0 7, ex_header 2 1 8, ex_header 3 2 9, ex_header 4 3 10]"

definition ex_node :: DCRDNode where
  "ex_node = \<lparr>nodeBlockHash = map_of ([(6, [0])] @ map (\<lambda>b. (uint (hdrHeight b), hdrHash b)) ex_headers),
    nodeBlock = map_of (map (\<lambda>b. (hdrHash b, b)) ex_headers)\<rparr>"

text \<open>One handler that collects the heights it has seen, and fails for the block at height 9 once.\<close>

definition ex_handlers :: "(unit, unit, u32 list) handler_env" where
  "ex_handlers =
    \<lparr>onBlock = (\<lambda>_ b s. (s @ [hdrHeight b], if hdrHeight b = 9 \<and> 9 \<notin> set s then Failed else Completed)),
     onReorg = (\<lambda>_ _ s. (s, Completed)), onTx = (\<lambda>_ _ s. (s, Completed))\<rparr>"

definition ex_notifier :: "unit Notifier" where
  "ex_notifier = \<lparr>tx = [], block = [[()]], reorg = [], previousHash = [1], previousHeight = 7, recorded = []\<rparr>"

lemma ex_node_linked: "node_linked ex_node"
  by (auto simp: node_linked_def ex_node_def ex_headers_def ex_header_def split: if_splits)

lemmas ex_run = superQueue.simps handle_message_def processBlock_def catchUpMissedBlocks_def finish_block_def
  runBlockHandlers_def ex_node_def ex_headers_def ex_header_def ex_handlers_def ex_notifier_def
  maxBlockCatchUp_def zeroHash_neq record_block_def SetPreviousBlock_def

theorem recorded_blocks_link_witness:
  "\<exists>bs. recorded (fst (superQueue ex_handlers [(ex_node, BlockMsg (ex_header 4 3 10)),
        (ex_node, BlockMsg (ex_header 4 3 10))] (ex_notifier, []))) = bs \<and> links [1] bs"
  using recorded_blocks_link [of "[(ex_node, BlockMsg (ex_header 4 3 10)), (ex_node, BlockMsg (ex_header 4 3 10))]"
      ex_handlers ex_notifier "[]"] ex_node_linked
  by (auto simp: ex_notifier_def)

text \<open>
  The fetched blocks are not compared with the last processed one: with a node that answers with a
  block of another chain in the middle, as when it reorganises, that block is processed and recorded.
\<close>

definition ex_switching_node :: DCRDNode where
  "ex_switching_node = ex_node\<lparr>nodeBlockHash := (nodeBlockHash ex_node)(8 \<mapsto> [9]),
    nodeBlock := (nodeBlock ex_node)([9] \<mapsto> ex_header 9 5 8)\<rparr>"

lemma catch_up_trusts_node:
  "\<not> links [1] (recorded (fst (processBlock (ex_handlers\<lparr>onBlock := \<lambda>_ _ s. (s, Completed)\<rparr>)
      ex_switching_node (ex_header 3 2 9) ex_notifier [])))"
  by (simp add: ex_run ex_switching_node_def)

section \<open>Catching up\<close>

text \<open>The state after the handlers of a list of blocks.\<close>

definition handle_all :: "('h, 't, 's) handler_env \<Rightarrow> 'h Notifier \<Rightarrow> BlockHeader list \<Rightarrow> 's \<Rightarrow> 's" where
  "handle_all env n bs s = foldl (\<lambda>s b. fst (runBlockHandlers env b n s)) s bs"

definition completes :: "('h, 't, 's) handler_env \<Rightarrow> 'h Notifier \<Rightarrow> BlockHeader \<Rightarrow> bool" where
  "completes env n b \<longleftrightarrow> (\<forall>g \<in> set (block n). \<forall>h \<in> set g. \<forall>s. snd (onBlock env h b s) = Completed)"

lemma run_group_completes:
  "\<forall>h \<in> set g. \<forall>s. snd (f h a s) = Completed \<Longrightarrow> snd (run_group f a g s) = Completed"
proof (induction g arbitrary: s)
  case (Cons h g)
  obtain s1 where s1: "f h a s = (s1, Completed)"
    using Cons.prems by (metis list.set_intros(1) prod.collapse)
  obtain s2 where "run_group f a g s1 = (s2, Completed)"
    using Cons by (metis list.set_intros(2) prod.collapse)
  with s1 show ?case
    by simp
qed simp

lemma block_groups_complete:
  "\<forall>g \<in> set gs. \<forall>h \<in> set g. \<forall>s. snd (f h a s) = Completed \<Longrightarrow> snd (block_groups f a gs s)"
proof (induction gs arbitrary: s)
  case (Cons g gs)
  obtain s1 where "run_group f a g s = (s1, Completed)"
    using run_group_completes [of g f a s] Cons.prems by (metis list.set_intros(1) prod.collapse)
  then show ?case
    using Cons by simp
qed simp

lemma completes_run: "completes env n b \<Longrightarrow> runBlockHandlers env b n s = (fst (runBlockHandlers env b n s), True)"
  using block_groups_complete [of "block n" "onBlock env" b s]
  by (simp add: completes_def runBlockHandlers_def prod_eq_iff)

lemma run_record_block: "runBlockHandlers env b (record_block b' n) s = runBlockHandlers env b n s"
  by (simp add: runBlockHandlers_def record_block_def SetPreviousBlock_def)

definition record_all :: "BlockHeader list \<Rightarrow> 'h Notifier \<Rightarrow> 'h Notifier" where
  "record_all bs n = foldl (\<lambda>n b. record_block b n) n bs"

lemma record_all_fields:
  "recorded (record_all bs n) = recorded n @ bs"
  "(previousHash (record_all bs n), previousHeight (record_all bs n)) = tip_after (previousHash n, previousHeight n) bs"
  "block (record_all bs n) = block n"
  unfolding record_all_def
  by (induction bs arbitrary: n) (simp_all add: record_block_def SetPreviousBlock_def)

text \<open>The node has the blocks at the heights from \<open>h\<close> on.\<close>

definition serves_from :: "DCRDNode \<Rightarrow> int \<Rightarrow> BlockHeader list \<Rightarrow> bool" where
  "serves_from node h bs \<longleftrightarrow> (\<forall>i < length bs. nodeBlockHash node (h + int i) = Some (hdrHash (bs ! i)) \<and>
     nodeBlock node (hdrHash (bs ! i)) = Some (bs ! i))"

lemma serves_from_Cons:
  assumes "serves_from node h (b # bs)"
  shows "nodeBlockHash node h = Some (hdrHash b)" "nodeBlock node (hdrHash b) = Some b"
    "serves_from node (h + 1) bs"
proof -
  show "nodeBlockHash node h = Some (hdrHash b)" "nodeBlock node (hdrHash b) = Some b"
    using assms [unfolded serves_from_def, rule_format, of 0] by simp_all
  show "serves_from node (h + 1) bs"
    unfolding serves_from_def
  proof (intro allI impI)
    fix i
    assume "i < length bs"
    then show "nodeBlockHash node (h + 1 + int i) = Some (hdrHash (bs ! i)) \<and>
        nodeBlock node (hdrHash (bs ! i)) = Some (bs ! i)"
      using assms [unfolded serves_from_def, rule_format, of "Suc i"] by (simp add: add.assoc)
  qed
qed

lemma catch_up_loop_complete:
  assumes "serves_from node h bs" "\<forall>b \<in> set bs. completes env n b"
  shows "catch_up_loop env node (length bs) h n s = (record_all bs n, handle_all env n bs s, True)"
  using assms
proof (induction bs arbitrary: h n s)
  case (Cons b bs)
  note serves = serves_from_Cons [OF Cons.prems(1)]
  have "completes env (record_block b n) b'" if "b' \<in> set bs" for b'
    using Cons.prems(2) that by (simp add: completes_def record_block_def SetPreviousBlock_def)
  then have "catch_up_loop env node (length bs) (h + 1) (record_block b n) s'
      = (record_all bs (record_block b n), handle_all env (record_block b n) bs s', True)" for s'
    using Cons.IH [OF serves(3)] by blast
  moreover obtain s1 where "runBlockHandlers env b n s = (s1, True)"
    using completes_run [of env n b s] Cons.prems(2) by auto
  ultimately show ?case
    using serves(1,2) by (simp add: record_all_def handle_all_def run_record_block)
qed (simp add: record_all_def handle_all_def)

text \<open>
  C31. Liveness: when notifications were missed, the next one makes up for them. If the last processed
  block is on the main chain of the node, at most \<open>maxBlockCatchUp\<close> blocks are missing, and the
  handlers complete, then one call runs the handlers on every missing block in order and then on the
  announced one, which becomes the last processed block.
\<close>

theorem processBlock_catches_up:
  assumes "serves_from node (uint (previousHeight n) + 1) bs"
    and "nodeBlockHash node (uint (previousHeight n)) = Some (previousHash n)" "previousHash n \<noteq> zeroHash"
    and "bs \<noteq> []" "int (length bs) \<le> maxBlockCatchUp"
    and "uint (hdrHeight bh) = uint (previousHeight n) + 1 + int (length bs)"
    and "hdrPrev bh = hdrHash (last bs)" "previousHash n \<noteq> hdrHash (last bs)"
    and "\<forall>b \<in> set (bs @ [bh]). completes env n b"
  shows "\<exists>n'. processBlock env node bh n s = (n', handle_all env n (bs @ [bh]) s) \<and>
    recorded n' = recorded n @ bs @ [bh] \<and> previousHash n' = hdrHash bh \<and> previousHeight n' = hdrHeight bh"
proof -
  have "uint (previousHeight n) + 1 < 2 ^ 32"
    using assms(4,6) uint_lt2p [of "hdrHeight bh"] by (cases bs) auto
  then have "uint (previousHeight n + 1) = uint (previousHeight n) + 1"
    by (simp add: uint_word_ariths mod_pos_pos_trivial)
  then have gap: "\<not> hdrHeight bh \<le> previousHeight n + 1"
    using assms(4,6) by (cases bs) (auto simp: word_le_def)
  have "catchUpMissedBlocks env node bh n s = (record_all bs n, handle_all env n bs s, True)"
    using catch_up_loop_complete [OF assms(1), of env n s] assms(2,3,5,6,9) gap
    by (simp add: catchUpMissedBlocks_def Let_def)
  moreover have "previousHash (record_all bs n) = hdrHash (last bs)"
    using record_all_fields(2) [of bs n] tip_after_last [OF assms(4)] by simp
  moreover have "finish_block env bh (record_all bs n) (handle_all env n bs s)
      = (record_all (bs @ [bh]) n, handle_all env n (bs @ [bh]) s)"
  proof -
    have "runBlockHandlers env bh (record_all bs n) s' = runBlockHandlers env bh n s'" for s'
      using record_all_fields(3) [of bs n] by (simp add: runBlockHandlers_def)
    moreover obtain s1 where "runBlockHandlers env bh n (handle_all env n bs s) = (s1, True)"
      using completes_run [of env n bh "handle_all env n bs s"] assms(9) by auto
    ultimately show ?thesis
      by (simp add: finish_block_def record_all_def handle_all_def)
  qed
  ultimately have "processBlock env node bh n s = (record_all (bs @ [bh]) n, handle_all env n (bs @ [bh]) s)"
    using assms(7,8) by (simp add: processBlock_def)
  then show ?thesis
    using record_all_fields [of "bs @ [bh]" n] by simp
qed

theorem processBlock_catches_up_witness:
  "\<exists>n'. processBlock (ex_handlers\<lparr>onBlock := \<lambda>_ b s. (s @ [hdrHeight b], Completed)\<rparr>) ex_node
      (ex_header 4 3 10) ex_notifier [] = (n', [8, 9, 10]) \<and> previousHash n' = [4] \<and> previousHeight n' = 10"
proof -
  let ?env = "ex_handlers\<lparr>onBlock := \<lambda>_ b s. (s @ [hdrHeight b], Completed)\<rparr>"
  let ?bs = "[ex_header 2 1 8, ex_header 3 2 9]"
  have serves: "serves_from ex_node (uint (previousHeight ex_notifier) + 1) ?bs"
    by (simp add: serves_from_def ex_node_def ex_headers_def ex_header_def ex_notifier_def All_less_Suc)
  have main: "nodeBlockHash ex_node (uint (previousHeight ex_notifier)) = Some (previousHash ex_notifier)"
    by (simp add: ex_node_def ex_headers_def ex_header_def ex_notifier_def)
  have "handle_all ?env ex_notifier (?bs @ [ex_header 4 3 10]) [] = [8, 9, 10]"
    by (simp add: handle_all_def runBlockHandlers_def ex_notifier_def ex_header_def)
  then show ?thesis
    using processBlock_catches_up [OF serves main, of "ex_header 4 3 10" ?env "[]"]
    by (auto simp: ex_notifier_def ex_header_def zeroHash_neq maxBlockCatchUp_def completes_def)
qed

section \<open>An aborted reorganisation\<close>

lemma off_chain_ignored:
  assumes "nodeBlockHash node (uint (previousHeight n)) \<noteq> Some (previousHash n)" "hdrPrev bh \<noteq> previousHash n"
  shows "processBlock env node bh n s = (n, s)"
  using assms by (auto simp: processBlock_def catchUpMissedBlocks_def Let_def split: option.split)

text \<open>
  When the common ancestor of a reorganisation cannot be determined, for instance because the node
  does not answer, the notification is dropped. From then on no block of the new main chain is
  processed, however many are announced: the last processed block is not on that chain.
\<close>

theorem aborted_reorg_stalls:
  assumes "nodeBlock node (btNewChainHead d) = None"
    and "\<forall>(nd, bh) \<in> set q. nodeBlockHash nd (uint (previousHeight n)) \<noteq> Some (previousHash n) \<and>
      hdrPrev bh \<noteq> previousHash n"
  shows "superQueue env ((node, ReorgMsg d) # map (\<lambda>(nd, bh). (nd, BlockMsg bh)) q) (n, s) = (n, s)"
proof -
  have "signalReorg env node d n s = (n, s)"
    using assms(1) by (simp add: signalReorg_def CommonAncestor_loop.simps maxAncestorChainLength_def)
  moreover have "superQueue env (map (\<lambda>(nd, bh). (nd, BlockMsg bh)) q) (n, s) = (n, s)"
    using assms(2)
  proof (induction q)
    case (Cons x q)
    then show ?case
      by (cases x) (simp add: handle_message_def off_chain_ignored)
  qed simp
  ultimately show ?thesis
    by (simp add: handle_message_def)
qed

theorem aborted_reorg_stalls_witness:
  "superQueue ex_handlers [(ex_node, ReorgMsg \<lparr>btOldChainHead = [7], btOldChainHeight = 8, btNewChainHead = [9],
      btNewChainHeight = 9\<rparr>), (ex_node, BlockMsg (ex_header 3 2 9)), (ex_node, BlockMsg (ex_header 4 3 10))]
      (ex_notifier\<lparr>previousHash := [7], previousHeight := 8\<rparr>, []) =
    (ex_notifier\<lparr>previousHash := [7], previousHeight := 8\<rparr>, [])"
  using aborted_reorg_stalls [of ex_node "\<lparr>btOldChainHead = [7], btOldChainHeight = 8, btNewChainHead = [9],
      btNewChainHeight = 9\<rparr>" "[(ex_node, ex_header 3 2 9), (ex_node, ex_header 4 3 10)]"
      "ex_notifier\<lparr>previousHash := [7], previousHeight := 8\<rparr>" ex_handlers "[]"]
  by (simp add: ex_node_def ex_headers_def ex_header_def)

text \<open>Errors of reorganisation handlers do not stop the notifier from moving to the new tip.\<close>

lemma reorg_errors_ignored:
  fixes n :: "'h Notifier" and s :: 's
  assumes "CommonAncestor (Some (nodeBlock node)) (btNewChainHead d) (btOldChainHead d) = Ancestor (Some a) new old None"
    and "onReorg env = (\<lambda>_ _ s. (s, Failed))"
  shows "previousHash (fst (signalReorg env node d n s)) = btNewChainHead d"
proof -
  have group: "run_group (\<lambda>_ _ s. (s, Failed)) r g s' = (s', if g = [] then Completed else Failed)" 
    for r :: ReorgData and g :: "'h list" and s' :: 's
    by (induction g) auto
  have "other_groups (\<lambda>_ _ s. (s, Failed)) r gs s = (s, True)" for r :: ReorgData and gs :: "'h list list"
    by (induction gs) (auto simp: group split: if_splits)
  then show ?thesis
    using assms by (simp add: signalReorg_def SetPreviousBlock_def)
qed

end

