(* ===== verification/Charts.thy ===== *)
theory Charts
  imports Prelude
begin

text \<open>
  The chart data of \<open>db/cache/charts.go\<close> and \<open>db/cache/mutilchaincharts.go\<close>: the sets of numbers per
  block, per window and per day, their validation and truncation, the days that \<open>Lengthen\<close> makes from
  the blocks, the reorg handlers, and the average block times.

  Floating-point arithmetic is a parameter: the operations that the code uses on \<open>float64\<close>, as a
  record, over any type of numbers. The mutexes, the log and the capacities of the slices are left
  out. A slice of indices in range is \<open>subslice\<close>; that they are in range is proved.
\<close>

section \<open>Data sets\<close>

record 'f float_ops =
  fzero :: 'f
  fadd :: "'f \<Rightarrow> 'f \<Rightarrow> 'f"
  fdiv :: "'f \<Rightarrow> 'f \<Rightarrow> 'f"
  fof :: "int \<Rightarrow> 'f"

type_synonym ChartUints = "u64 list"
type_synonym 'f ChartFloats = "'f list"

record 'f AgeBandData =
  Less1Day :: 'f
  DayToWeek :: 'f
  WeekToMonth :: 'f
  MonthToHalfYear :: 'f
  HalfYearToYear :: 'f
  YearTo2Year :: 'f
  TwoYearTo3Year :: 'f
  ThreeYearTo5Year :: 'f
  FiveYearTo7Year :: 'f
  GreaterThan7Year :: 'f

record 'f MoneroDecoyData =
  NoTx :: 'f
  Decoy03 :: 'f
  Decoy47 :: 'f
  Decoy811 :: 'f
  Decoy1214 :: 'f
  DecoyGt15 :: 'f

definition aDay :: u64 where
  "aDay = 86400"

definition snip :: "nat \<Rightarrow> 'a list \<Rightarrow> 'a list" where
  "snip n data = take (if length data < n then length data else n) data"

definition uints_Sum :: "ChartUints \<Rightarrow> nat \<Rightarrow> nat \<Rightarrow> u64" where
  "uints_Sum data s e = (if e \<le> s then 0 else foldl (+) 0 (subslice data s e))"

definition uints_Avg :: "ChartUints \<Rightarrow> nat \<Rightarrow> nat \<Rightarrow> u64" where
  "uints_Avg data s e = (if e \<le> s then 0 else foldl (+) 0 (subslice data s e) div of_nat (e - s))"

definition floats_Sum :: "'f float_ops \<Rightarrow> 'f ChartFloats \<Rightarrow> nat \<Rightarrow> nat \<Rightarrow> 'f" where
  "floats_Sum ops data s e =
     (if e \<le> s then fzero ops else foldl (fadd ops) (fzero ops) (subslice data s e))"

definition floats_Avg :: "'f float_ops \<Rightarrow> 'f ChartFloats \<Rightarrow> nat \<Rightarrow> nat \<Rightarrow> 'f" where
  "floats_Avg ops data s e =
     (if e \<le> s then fzero ops
      else fdiv ops (foldl (fadd ops) (fzero ops) (subslice data s e)) (fof ops (int (e - s))))"

definition no_bands :: "'f float_ops \<Rightarrow> 'f AgeBandData" where
  "no_bands ops =
     \<lparr>Less1Day = fzero ops, DayToWeek = fzero ops, WeekToMonth = fzero ops, MonthToHalfYear = fzero ops, HalfYearToYear = fzero ops, YearTo2Year = fzero ops, TwoYearTo3Year = fzero ops, ThreeYearTo5Year = fzero ops, FiveYearTo7Year = fzero ops, GreaterThan7Year = fzero ops\<rparr>"

definition add_bands :: "'f float_ops \<Rightarrow> 'f AgeBandData \<Rightarrow> 'f AgeBandData \<Rightarrow> 'f AgeBandData" where
  "add_bands ops a v =
     \<lparr>Less1Day = fadd ops (Less1Day a) (Less1Day v),
      DayToWeek = fadd ops (DayToWeek a) (DayToWeek v),
      WeekToMonth = fadd ops (WeekToMonth a) (WeekToMonth v),
      MonthToHalfYear = fadd ops (MonthToHalfYear a) (MonthToHalfYear v),
      HalfYearToYear = fadd ops (HalfYearToYear a) (HalfYearToYear v),
      YearTo2Year = fadd ops (YearTo2Year a) (YearTo2Year v),
      TwoYearTo3Year = fadd ops (TwoYearTo3Year a) (TwoYearTo3Year v),
      ThreeYearTo5Year = fadd ops (ThreeYearTo5Year a) (ThreeYearTo5Year v),
      FiveYearTo7Year = fadd ops (FiveYearTo7Year a) (FiveYearTo7Year v),
      GreaterThan7Year = fadd ops (GreaterThan7Year a) (GreaterThan7Year v)\<rparr>"

definition bands_Sum :: "'f float_ops \<Rightarrow> 'f AgeBandData list \<Rightarrow> nat \<Rightarrow> nat \<Rightarrow> 'f AgeBandData" where
  "bands_Sum ops data s e =
     (if e \<le> s then no_bands ops else foldl (add_bands ops) (no_bands ops) (subslice data s e))"

definition no_decoy :: "'f float_ops \<Rightarrow> 'f MoneroDecoyData" where
  "no_decoy ops =
     \<lparr>NoTx = fzero ops, Decoy03 = fzero ops, Decoy47 = fzero ops, Decoy811 = fzero ops, Decoy1214 = fzero ops, DecoyGt15 = fzero ops\<rparr>"

definition add_decoy :: "'f float_ops \<Rightarrow> 'f MoneroDecoyData \<Rightarrow> 'f MoneroDecoyData \<Rightarrow> 'f MoneroDecoyData" where
  "add_decoy ops a v =
     \<lparr>NoTx = fadd ops (NoTx a) (NoTx v),
      Decoy03 = fadd ops (Decoy03 a) (Decoy03 v),
      Decoy47 = fadd ops (Decoy47 a) (Decoy47 v),
      Decoy811 = fadd ops (Decoy811 a) (Decoy811 v),
      Decoy1214 = fadd ops (Decoy1214 a) (Decoy1214 v),
      DecoyGt15 = fadd ops (DecoyGt15 a) (DecoyGt15 v)\<rparr>"

definition decoy_Avg :: "'f float_ops \<Rightarrow> 'f MoneroDecoyData list \<Rightarrow> nat \<Rightarrow> nat \<Rightarrow> 'f MoneroDecoyData" where
  "decoy_Avg ops data s e =
     (if e \<le> s then no_decoy ops
      else
        let avgBand = foldl (add_decoy ops) (no_decoy ops) (subslice data s e); n = fof ops (int (e - s))
        in \<lparr>NoTx = fdiv ops (NoTx avgBand) n,
            Decoy03 = fdiv ops (Decoy03 avgBand) n,
            Decoy47 = fdiv ops (Decoy47 avgBand) n,
            Decoy811 = fdiv ops (Decoy811 avgBand) n,
            Decoy1214 = fdiv ops (Decoy1214 avgBand) n,
            DecoyGt15 = fdiv ops (DecoyGt15 avgBand) n\<rparr>)"

section \<open>Sets per block, per day and per window\<close>

record 'f ZoomSet =
  zcacheID :: u64
  zHeight :: ChartUints
  zTime :: ChartUints
  zPoolSize :: ChartUints
  zPoolValue :: ChartUints
  zBlockSize :: ChartUints
  zTxCount :: ChartUints
  zTxPerBlock :: ChartUints
  zAPIBlockchainSize :: ChartUints
  zAPITxAverage :: ChartUints
  zAPIMinedBlocks :: ChartUints
  zAPIMinedSize :: ChartUints
  zAPIAddressCount :: ChartUints
  zAPIMempoolTxNum :: ChartUints
  zAPIMempoolSize :: ChartUints
  zNewAtoms :: ChartUints
  zChainwork :: ChartUints
  zFees :: ChartUints
  zTotalMixed :: ChartUints
  zAnonymitySet :: ChartUints
  zReward :: "'f ChartFloats"
  zDifficulty :: "'f ChartFloats"
  zHashrate :: "'f ChartFloats"
  zMarketPrice :: "'f ChartFloats"
  zCoinDaysDestroyed :: "'f ChartFloats"
  zAvgCoinAge :: "'f ChartFloats"
  zCoinAgeBands :: "'f AgeBandData list"
  zMoneroDecoyBands :: "'f MoneroDecoyData list"
  zMeanCoinAge :: "'f ChartFloats"
  zTotalCoinDays :: "'f ChartFloats"
  zTotalRingSize :: ChartUints
  zAverageRingSize :: ChartUints
  zFeeRate :: ChartUints
  zAverageTxSize :: ChartUints

text \<open>\<open>Snip\<close> truncates some of the sets.\<close>

definition Snip :: "int \<Rightarrow> 'f ZoomSet \<Rightarrow> 'f ZoomSet" where
  "Snip l st =
     (let n = nat (if l < 0 then 0 else l) in
      st\<lparr>zHeight := snip n (zHeight st),
        zTime := snip n (zTime st),
        zPoolSize := snip n (zPoolSize st),
        zPoolValue := snip n (zPoolValue st),
        zBlockSize := snip n (zBlockSize st),
        zTxCount := snip n (zTxCount st),
        zNewAtoms := snip n (zNewAtoms st),
        zChainwork := snip n (zChainwork st),
        zDifficulty := snip n (zDifficulty st),
        zFees := snip n (zFees st),
        zTotalMixed := snip n (zTotalMixed st),
        zAnonymitySet := snip n (zAnonymitySet st),
        zCoinDaysDestroyed := snip n (zCoinDaysDestroyed st),
        zAvgCoinAge := snip n (zAvgCoinAge st),
        zCoinAgeBands := snip n (zCoinAgeBands st),
        zMeanCoinAge := snip n (zMeanCoinAge st),
        zTotalCoinDays := snip n (zTotalCoinDays st),
        zMarketPrice := snip n (zMarketPrice st)\<rparr>)"

record 'f windowSet =
  wcacheID :: u64
  wTime :: ChartUints
  wPowDiff :: "'f ChartFloats"
  wTicketPrice :: ChartUints
  wStakeCount :: ChartUints
  wMissedVotes :: ChartUints

definition window_Snip :: "int \<Rightarrow> 'f windowSet \<Rightarrow> 'f windowSet" where
  "window_Snip l st =
     (let n = nat (if l < 0 then 0 else l) in
      st\<lparr>wTime := snip n (wTime st), wPowDiff := snip n (wPowDiff st),
        wTicketPrice := snip n (wTicketPrice st), wStakeCount := snip n (wStakeCount st),
        wMissedVotes := snip n (wMissedVotes st)\<rparr>)"

text \<open>The length and whether there is an error, a data length mismatch.\<close>

fun lengths_loop :: "nat \<Rightarrow> nat \<Rightarrow> nat \<Rightarrow> nat list \<Rightarrow> nat \<times> nat" where
  "lengths_loop firstLen shortest longest [] = (shortest, longest)"
| "lengths_loop firstLen shortest longest (dLen # ls) =
     (if dLen \<noteq> firstLen
      then (if dLen < shortest then lengths_loop firstLen dLen longest ls
            else if dLen > longest then lengths_loop firstLen shortest dLen ls
            else lengths_loop firstLen shortest longest ls)
      else lengths_loop firstLen shortest longest ls)"

definition ValidateLengths :: "nat list \<Rightarrow> nat \<times> bool" where
  "ValidateLengths lens =
     (case lens of
        [] \<Rightarrow> (0, False)
      | firstLen # ls \<Rightarrow>
          (case lengths_loop firstLen firstLen firstLen ls of (shortest, longest) \<Rightarrow>
             if shortest \<noteq> longest then (shortest, True) else (firstLen, False)))"

section \<open>Days\<close>

definition midnight :: "u64 \<Rightarrow> u64" where
  "midnight t = (if t > 0 then t - t mod aDay else 0)"

text \<open>The index of the first block after a time, 0 if there is none.\<close>

fun find_offset :: "u64 \<Rightarrow> nat \<Rightarrow> ChartUints \<Rightarrow> nat" where
  "find_offset start i [] = 0"
| "find_offset start i (t # ts) = (if t > start then i else find_offset start (Suc i) ts)"

text \<open>The loop that cuts the blocks into days: the intervals and the times of the days.\<close>

fun day_loop ::
  "u64 \<Rightarrow> nat \<Rightarrow> u64 \<Rightarrow> u64 \<Rightarrow> nat \<Rightarrow> nat \<Rightarrow> ChartUints \<Rightarrow> (nat \<times> nat) list \<times> ChartUints" where
  "day_loop endT offset start next startIdx i [] = ([], [])"
| "day_loop endT offset start next startIdx i (t # ts) =
     (if t \<ge> next
      then
        (case (if t > endT then ([], []) else day_loop endT offset next (next + aDay) i (Suc i) ts) of
           (intervals, dayTimes) \<Rightarrow> ((startIdx + offset, i + offset) # intervals, start # dayTimes))
      else day_loop endT offset start next startIdx (Suc i) ts)"

definition new_days :: "ChartUints \<Rightarrow> ChartUints \<Rightarrow> (nat \<times> nat) list \<times> ChartUints" where
  "new_days blockTime dayTime =
     (let endT = midnight (last blockTime);
          start = (if length dayTime > 0 then last dayTime + aDay else midnight (hd blockTime));
          offset = find_offset start 0 blockTime
      in if endT > start + aDay
         then day_loop endT offset start (start + aDay) 0 0 (drop offset blockTime)
         else ([], []))"

definition append_day :: "'f float_ops \<Rightarrow> 'f ZoomSet \<Rightarrow> 'f ZoomSet \<Rightarrow> nat \<times> nat \<Rightarrow> 'f ZoomSet" where
  "append_day ops blocks days interval =
     (case interval of (s, e) \<Rightarrow>
        days\<lparr>zHeight := zHeight days @ [of_int (int e - 1)],
           zPoolSize := zPoolSize days @ [uints_Avg (zPoolSize blocks) s e],
           zPoolValue := zPoolValue days @ [uints_Avg (zPoolValue blocks) s e],
           zBlockSize := zBlockSize days @ [uints_Sum (zBlockSize blocks) s e],
           zTxCount := zTxCount days @ [uints_Sum (zTxCount blocks) s e],
           zNewAtoms := zNewAtoms days @ [uints_Sum (zNewAtoms blocks) s e],
           zChainwork := zChainwork days @ [zChainwork blocks ! e],
           zDifficulty := zDifficulty days @ [zDifficulty blocks ! e],
           zFees := zFees days @ [uints_Sum (zFees blocks) s e],
           zTotalMixed := zTotalMixed days @ [uints_Sum (zTotalMixed blocks) s e],
           zAnonymitySet := zAnonymitySet days @ [uints_Avg (zAnonymitySet blocks) s e],
           zCoinDaysDestroyed := zCoinDaysDestroyed days @ [floats_Sum ops (zCoinDaysDestroyed blocks) s e],
           zAvgCoinAge := zAvgCoinAge days @ [floats_Avg ops (zAvgCoinAge blocks) s e],
           zCoinAgeBands := zCoinAgeBands days @ [bands_Sum ops (zCoinAgeBands blocks) s e],
           zMeanCoinAge := zMeanCoinAge days @ [floats_Avg ops (zMeanCoinAge blocks) s e],
           zTotalCoinDays := zTotalCoinDays days @ [floats_Sum ops (zTotalCoinDays blocks) s e],
           zMarketPrice := zMarketPrice days @ [floats_Avg ops (zMarketPrice blocks) s e]\<rparr>)"

section \<open>The charts of Decred\<close>

record 'f ChartData =
  Blocks :: "'f ZoomSet"
  Windows :: "'f windowSet"
  Days :: "'f ZoomSet"

datatype chart_error = ZeroLengthWindows | DayBinMismatch

definition block_lengths :: "'f ZoomSet \<Rightarrow> nat list" where
  "block_lengths blocks =
     [length (zHeight blocks), length (zTime blocks), length (zPoolSize blocks),
      length (zPoolValue blocks), length (zBlockSize blocks), length (zTxCount blocks),
      length (zNewAtoms blocks), length (zChainwork blocks), length (zDifficulty blocks),
      length (zFees blocks), length (zTotalMixed blocks), length (zAnonymitySet blocks),
      length (zAvgCoinAge blocks), length (zCoinDaysDestroyed blocks),
      length (zMeanCoinAge blocks), length (zTotalCoinDays blocks),
      length (zCoinAgeBands blocks), length (zMarketPrice blocks)]"

definition day_lengths :: "'f ZoomSet \<Rightarrow> nat list" where
  "day_lengths days =
     [length (zHeight days), length (zTime days), length (zPoolSize days),
      length (zPoolValue days), length (zBlockSize days), length (zTxCount days),
      length (zNewAtoms days), length (zChainwork days), length (zDifficulty days),
      length (zFees days), length (zTotalMixed days), length (zAnonymitySet days),
      length (zAvgCoinAge days), length (zCoinDaysDestroyed days),
      length (zCoinAgeBands days), length (zMeanCoinAge days), length (zTotalCoinDays days),
      length (zMarketPrice days)]"

definition window_lengths :: "'f windowSet \<Rightarrow> nat list" where
  "window_lengths windows =
     [length (wTime windows), length (wPowDiff windows), length (wTicketPrice windows),
      length (wStakeCount windows), length (wMissedVotes windows)]"

definition Lengthen :: "'f float_ops \<Rightarrow> 'f ChartData \<Rightarrow> 'f ChartData \<times> chart_error status" where
  "Lengthen ops charts =
     (let (shortest, err) = ValidateLengths (block_lengths (Blocks charts));
          c1 = (if err then charts\<lparr>Blocks := Snip (int shortest) (Blocks charts)\<rparr> else charts)
      in if shortest = 0 then (c1, Ok)
      else
        let (wshortest, werr) = ValidateLengths (window_lengths (Windows c1));
            c2 = (if werr then c1\<lparr>Windows := window_Snip (int wshortest) (Windows c1)\<rparr> else c1)
        in if wshortest = 0 then (c2, Err ZeroLengthWindows)
        else
          let blocks = Blocks c2;
              (intervals, dayTimes) = new_days (zTime blocks) (zTime (Days c2));
              days = foldl (append_day ops blocks) ((Days c2)\<lparr>zTime := zTime (Days c2) @ dayTimes\<rparr>) intervals;
              (daysLen, derr) = ValidateLengths (day_lengths days)
          in if derr then (c2\<lparr>Days := days\<rparr>, Err DayBinMismatch)
          else
            (c2\<lparr>Days := (if length intervals > 0 then days\<lparr>zcacheID := zcacheID days + 1\<rparr> else days),
                Blocks := blocks\<lparr>zcacheID := last (zTime blocks)\<rparr>,
                Windows := (Windows c2)\<lparr>wcacheID := last (wTime (Windows c2))\<rparr>\<rparr>, Ok))"

text \<open>A reorganisation: the new height and the new blocks, of which the code takes the number.\<close>

definition ReorgHandler :: "int \<Rightarrow> Hash list \<Rightarrow> 'f ChartData \<Rightarrow> 'f ChartData" where
  "ReorgHandler newChainHeight newChain charts =
     (let commonAncestorHeight = newChainHeight - int (length newChain);
          newHeight = commonAncestorHeight + 1
      in charts\<lparr>Blocks := Snip newHeight (Blocks charts),
                Days := Snip (int (length (zTime (Days charts))) - 2) (Days charts),
                Windows := window_Snip (int (length (wTime (Windows charts))) - 1) (Windows charts)\<rparr>)"

section \<open>The charts of the other chains\<close>

text \<open>The fields that these operations use; \<open>TYPEXMR\<close> is the type of the Monero chain.\<close>

record 'f MutilchainChartData =
  xBlocks :: "'f ZoomSet"
  xDays :: "'f ZoomSet"
  ChainType :: string

definition TYPEXMR :: string where
  "TYPEXMR = ''xmr''"

definition xblock_lengths :: "string \<Rightarrow> 'f ZoomSet \<Rightarrow> nat list" where
  "xblock_lengths chainType blocks =
     (if chainType = TYPEXMR
      then [length (zHeight blocks), length (zTime blocks), length (zBlockSize blocks),
      length (zTxCount blocks), length (zTxPerBlock blocks), length (zFees blocks),
      length (zDifficulty blocks), length (zHashrate blocks), length (zReward blocks),
      length (zTotalRingSize blocks), length (zAverageRingSize blocks),
      length (zFeeRate blocks), length (zAverageTxSize blocks),
      length (zMoneroDecoyBands blocks)]
      else [length (zHeight blocks), length (zTime blocks), length (zBlockSize blocks),
      length (zTxCount blocks), length (zFees blocks), length (zDifficulty blocks),
      length (zHashrate blocks), length (zReward blocks)])"

definition xday_lengths :: "string \<Rightarrow> 'f ZoomSet \<Rightarrow> nat list" where
  "xday_lengths chainType days =
     (if chainType = TYPEXMR
      then [length (zHeight days), length (zTime days), length (zBlockSize days),
      length (zTxCount days), length (zTxPerBlock days), length (zReward days),
      length (zFees days), length (zDifficulty days), length (zHashrate days),
      length (zTotalRingSize days), length (zAverageRingSize days), length (zFeeRate days),
      length (zAverageTxSize days), length (zMoneroDecoyBands days)]
      else [length (zHeight days), length (zTime days), length (zBlockSize days),
      length (zTxCount days), length (zReward days), length (zFees days),
      length (zDifficulty days), length (zHashrate days)])"

definition append_xday ::
  "'f float_ops \<Rightarrow> string \<Rightarrow> 'f ZoomSet \<Rightarrow> 'f ZoomSet \<Rightarrow> nat \<times> nat \<Rightarrow> 'f ZoomSet" where
  "append_xday ops chainType blocks days interval =
     (case interval of (s, e) \<Rightarrow>
        let d1 = days\<lparr>zHeight := zHeight days @ [of_int (int e - 1)],
           zBlockSize := zBlockSize days @ [uints_Sum (zBlockSize blocks) s e]\<rparr>;
            d2 = (if chainType = TYPEXMR
              then d1\<lparr>zTotalRingSize := zTotalRingSize d1 @ [uints_Sum (zTotalRingSize blocks) s e],
           zAverageRingSize := zAverageRingSize d1 @ [uints_Avg (zAverageRingSize blocks) s e],
           zFeeRate := zFeeRate d1 @ [uints_Avg (zFeeRate blocks) s e],
           zAverageTxSize := zAverageTxSize d1 @ [uints_Avg (zAverageTxSize blocks) s e],
           zMoneroDecoyBands := zMoneroDecoyBands d1 @ [decoy_Avg ops (zMoneroDecoyBands blocks) s e],
           zTxPerBlock := zTxPerBlock d1 @ [uints_Avg (zTxPerBlock blocks) s e]\<rparr>
              else d1)
        in d2\<lparr>zTxCount := zTxCount d2 @ [uints_Sum (zTxCount blocks) s e],
           zReward := zReward d2 @ [floats_Sum ops (zReward blocks) s e],
           zFees := zFees d2 @ [uints_Sum (zFees blocks) s e],
           zDifficulty := zDifficulty d2 @ [floats_Avg ops (zDifficulty blocks) s e],
           zHashrate := zHashrate d2 @ [floats_Avg ops (zHashrate blocks) s e]\<rparr>)"

definition mutilchain_Lengthen ::
  "'f float_ops \<Rightarrow> 'f MutilchainChartData \<Rightarrow> 'f MutilchainChartData \<times> chart_error status" where
  "mutilchain_Lengthen ops charts =
     (let (shortest, err) = ValidateLengths (xblock_lengths (ChainType charts) (xBlocks charts));
          c1 = (if err then charts\<lparr>xBlocks := Snip (int shortest) (xBlocks charts)\<rparr> else charts)
      in if shortest = 0 then (c1, Ok)
      else
        let blocks = xBlocks c1;
            (intervals, dayTimes) = new_days (zTime blocks) (zTime (xDays c1));
            days = foldl (append_xday ops (ChainType c1) blocks) ((xDays c1)\<lparr>zTime := zTime (xDays c1) @ dayTimes\<rparr>) intervals;
            (daysLen, derr) = ValidateLengths (xday_lengths (ChainType c1) days)
        in if derr then (c1\<lparr>xDays := days\<rparr>, Err DayBinMismatch)
        else
          (c1\<lparr>xDays := (if length intervals > 0 then days\<lparr>zcacheID := zcacheID days + 1\<rparr> else days),
              xBlocks := blocks\<lparr>zcacheID := last (zTime blocks)\<rparr>\<rparr>, Ok))"

definition mutilchain_ReorgHandler ::
  "int \<Rightarrow> Hash list \<Rightarrow> 'f MutilchainChartData \<Rightarrow> 'f MutilchainChartData" where
  "mutilchain_ReorgHandler newChainHeight newChain charts =
     (let commonAncestorHeight = newChainHeight - int (length newChain);
          newHeight = commonAncestorHeight + 1
      in charts\<lparr>xBlocks := Snip newHeight (xBlocks charts),
                xDays := Snip (int (length (zTime (xDays charts))) - 2) (xDays charts)\<rparr>)"

section \<open>Block times\<close>

fun accumulate_loop :: "u64 \<Rightarrow> ChartUints \<Rightarrow> ChartUints" where
  "accumulate_loop accumulator [] = []"
| "accumulate_loop accumulator (v # vs) = (accumulator + v) # accumulate_loop (accumulator + v) vs"

definition accumulate :: "ChartUints \<Rightarrow> ChartUints" where
  "accumulate data = accumulate_loop 0 data"

fun blockTimes_loop :: "u64 \<Rightarrow> ChartUints \<Rightarrow> ChartUints" where
  "blockTimes_loop prev [] = []"
| "blockTimes_loop prev (v # vs) =
     (if sint (v - prev) < 0 then 0 else v - prev) # blockTimes_loop v vs"

definition blockTimes :: "ChartUints \<Rightarrow> ChartUints \<times> ChartUints" where
  "blockTimes blocks =
     (if length blocks < 2 then ([], []) else (tl blocks, blockTimes_loop (hd blocks) (tl blocks)))"

text \<open>The average time between the blocks of a part of the set.\<close>

definition avg_of :: "ChartUints \<Rightarrow> nat \<Rightarrow> nat \<Rightarrow> u64" where
  "avg_of blocks s e = (let pts = snd (blockTimes (subslice blocks s e)) in uints_Avg pts 0 (length pts))"

fun avgBlockTimes_loop ::
  "ChartUints \<Rightarrow> ChartUints \<Rightarrow> nat \<Rightarrow> u64 \<Rightarrow> u64 \<Rightarrow> nat \<Rightarrow> nat \<Rightarrow> ChartUints \<Rightarrow> ChartUints \<times> ChartUints" where
  "avgBlockTimes_loop ticks blocks nextIdx workingOn next lastIdx i [] = ([], [])"
| "avgBlockTimes_loop ticks blocks nextIdx workingOn next lastIdx i (t # ts) =
     (if t > next
      then
        (case (if Suc nextIdx > length ticks - 1 then ([], [])
               else let next' = ticks ! Suc nextIdx in
                    avgBlockTimes_loop ticks blocks (Suc nextIdx) next' next' i (Suc i) ts) of
           (timesOut, avgDiffs) \<Rightarrow> (workingOn # timesOut, avg_of blocks lastIdx i # avgDiffs))
      else avgBlockTimes_loop ticks blocks nextIdx workingOn next lastIdx (Suc i) ts)"

definition avgBlockTimes :: "ChartUints \<Rightarrow> ChartUints \<Rightarrow> ChartUints \<times> ChartUints" where
  "avgBlockTimes ticks blocks =
     (if length ticks < 2 then ([], [])
      else avgBlockTimes_loop ticks blocks 1 (ticks ! 0) (ticks ! 1) 0 0 blocks)"

text \<open>The total of the averages and the index of the next tick when the loop is left.\<close>

fun calculateAvg_loop ::
  "ChartUints \<Rightarrow> ChartUints \<Rightarrow> nat \<Rightarrow> u64 \<Rightarrow> nat \<Rightarrow> u64 \<Rightarrow> nat \<Rightarrow> ChartUints \<Rightarrow> u64 \<times> nat" where
  "calculateAvg_loop ticks blocks nextIdx next lastIdx totalTime i [] = (totalTime, nextIdx)"
| "calculateAvg_loop ticks blocks nextIdx next lastIdx totalTime i (t # ts) =
     (if t > next
      then
        (let totalTime' = totalTime + avg_of blocks lastIdx i in
         if Suc nextIdx > length ticks - 1 then (totalTime', Suc nextIdx)
         else calculateAvg_loop ticks blocks (Suc nextIdx) (ticks ! Suc nextIdx) i totalTime' (Suc i) ts)
      else calculateAvg_loop ticks blocks nextIdx next lastIdx totalTime (Suc i) ts)"

definition calculateAvgBlockTime :: "ChartUints \<Rightarrow> ChartUints \<Rightarrow> u64" where
  "calculateAvgBlockTime ticks blocks =
     (if length ticks < 2 then 0
      else case calculateAvg_loop ticks blocks 1 (ticks ! 1) 0 0 0 blocks of
        (totalTime, nextIdx) \<Rightarrow> totalTime div of_nat nextIdx)"

end
