(* ===== verification/ChartsContract.thy ===== *)
theory ChartsContract
  imports Charts
begin

text \<open>
  What \<open>Lengthen\<close> and the reorg handlers of the charts establish: the lengths of the sets, the days
  that are cut from the blocks, and the labels of the average block times.
\<close>

section \<open>Lengths\<close>

lemma lengths_loop_eq:
  "shortest \<le> firstLen \<Longrightarrow> firstLen \<le> longest \<Longrightarrow>
     lengths_loop firstLen shortest longest ls = (fold min ls shortest, fold max ls longest)"
proof (induction ls arbitrary: shortest longest)
  case (Cons d ls)
  consider "d = firstLen" | "d < shortest" | "longest < d" | "shortest \<le> d" "d \<le> longest" "d \<noteq> firstLen"
    by linarith
  then show ?case
    by cases (use Cons in \<open>simp_all add: min_def max_def\<close>)
qed simp

lemma Min_Max_singleton: "finite A \<Longrightarrow> d \<in> A \<Longrightarrow> Min A = Max A \<longleftrightarrow> A = {d}" for A :: "nat set"
proof
  assume A: "finite A" "d \<in> A" "Min A = Max A"
  have max: "x = Max A" if "x \<in> A" for x
  proof (rule order_antisym)
    show "x \<le> Max A" using A(1) that by simp
    show "Max A \<le> x" using Min_le [OF A(1) that] by (simp only: A(3))
  qed
  have eq: "x = d" if "x \<in> A" for x by (rule trans [OF max [OF that] max [OF A(2), symmetric]])
  show "A = {d}" using A(2) eq by blast
qed simp

lemma ValidateLengths_eq:
  assumes "ls \<noteq> []"
  shows "ValidateLengths ls = (Min (set ls), set ls \<noteq> {Min (set ls)})"
proof -
  obtain d ds where ls: "ls = d # ds" using assms by (cases ls) auto
  have m: "Min (set ls) = fold min ds d" "Max (set ls) = fold max ds d"
    using ls by (simp_all only: Min.set_eq_fold Max.set_eq_fold)
  have s: "Min (set ls) = Max (set ls) \<longleftrightarrow> set ls = {d}" using ls by (intro Min_Max_singleton) simp_all
  show ?thesis
  proof (cases "set ls = {d}")
    case True
    then have "fold min ds d = d" "fold max ds d = d" using m by simp_all
    then have "ValidateLengths ls = (d, False)"
      using lengths_loop_eq [of d d d ds] by (simp add: ValidateLengths_def ls)
    then show ?thesis using True by simp
  next
    case False
    have "set ls \<noteq> {Min (set ls)}"
    proof
      assume e: "set ls = {Min (set ls)}"
      have "d \<in> set ls" using ls by simp
      then have "d = Min (set ls)" using e by (metis singletonD)
      then show False using e False by simp
    qed
    moreover have "fold min ds d \<noteq> fold max ds d" using False s m by simp
    then have "ValidateLengths ls = (fold min ds d, True)"
      using lengths_loop_eq [of d d d ds] by (simp add: ValidateLengths_def ls)
    ultimately show ?thesis using m by simp
  qed
qed

definition all_len :: "nat \<Rightarrow> nat list \<Rightarrow> bool" where
  "all_len n ls \<longleftrightarrow> ls \<noteq> [] \<and> list_all (\<lambda>l. l = n) ls"

lemma all_len_set: "all_len n ls \<longleftrightarrow> set ls = {n}"
  by (cases ls) (auto simp: all_len_def list_all_iff)

lemma ValidateLengths_all_len: "all_len n ls \<Longrightarrow> ValidateLengths ls = (n, False)"
  by (cases "ls = []") (simp_all add: ValidateLengths_eq all_len_set)

lemma ValidateLengths_mismatch:
  assumes "x \<in> set ls" "y \<in> set ls" "x \<noteq> y"
  shows "snd (ValidateLengths ls)"
proof -
  have "ls \<noteq> []" "set ls \<noteq> {m}" for m using assms by auto
  then show ?thesis using ValidateLengths_eq [of ls] by simp
qed

lemma length_snip [simp]: "length (snip n xs) = min n (length xs)"
  by (simp add: snip_def)

lemma snip_eq_take: "snip n xs = take n xs"
  by (simp add: snip_def)

lemma snip_same [simp]: "n = length xs \<Longrightarrow> snip n xs = xs"
  by (simp add: snip_def)

definition shortest_block :: "'f ZoomSet \<Rightarrow> nat" where
  "shortest_block b = Min (set (block_lengths b))"

definition shortest_window :: "'f windowSet \<Rightarrow> nat" where
  "shortest_window w = Min (set (window_lengths w))"

lemma block_lengths_Snip: "block_lengths (Snip (int n) b) = map (min n) (block_lengths b)"
  by (simp add: block_lengths_def Snip_def Let_def)

lemma day_lengths_Snip: "day_lengths (Snip (int n) b) = map (min n) (day_lengths b)"
  by (simp add: day_lengths_def Snip_def Let_def)

lemma window_lengths_Snip: "window_lengths (window_Snip (int n) w) = map (min n) (window_lengths w)"
  by (simp add: window_lengths_def window_Snip_def Let_def)

lemma Snip_same: "all_len n (block_lengths b) \<Longrightarrow> Snip (int n) b = b"
  by (simp add: all_len_def block_lengths_def Snip_def Let_def)

lemma window_Snip_same: "all_len n (window_lengths w) \<Longrightarrow> window_Snip (int n) w = w"
  by (simp add: all_len_def window_lengths_def window_Snip_def Let_def)

lemma all_len_min:
  assumes "ls \<noteq> []" "n = Min (set ls)"
  shows "all_len n (map (min n) ls)"
proof -
  have "min n x = n" if "x \<in> set ls" for x using that assms(2) by simp
  then have "min n ` set ls = (\<lambda>_. n) ` set ls" by (intro image_cong) simp_all
  then show ?thesis using assms(1) by (simp add: all_len_set image_constant_conv)
qed

lemma lengths_not_Nil [simp]: "block_lengths b \<noteq> []" "window_lengths w \<noteq> []" "day_lengths d \<noteq> []"
  by (simp_all add: block_lengths_def window_lengths_def day_lengths_def)

lemma all_len_Min: "ls \<noteq> [] \<Longrightarrow> set ls = {Min (set ls)} \<Longrightarrow> all_len (Min (set ls)) ls"
  by (simp add: all_len_set)

text \<open>The truncation of \<open>Lengthen\<close>, which is to the shortest in any case.\<close>

lemma validated_blocks:
  "ValidateLengths (block_lengths b) = (shortest_block b, err) \<Longrightarrow>
     (if err then Snip (int (shortest_block b)) b else b) = Snip (int (shortest_block b)) b"
  using Snip_same [OF all_len_Min [of "block_lengths b"]]
  by (auto simp: ValidateLengths_eq shortest_block_def)

lemma validated_windows:
  "ValidateLengths (window_lengths w) = (shortest_window w, err) \<Longrightarrow>
     (if err then window_Snip (int (shortest_window w)) w else w) = window_Snip (int (shortest_window w)) w"
  using window_Snip_same [OF all_len_Min [of "window_lengths w"]]
  by (auto simp: ValidateLengths_eq shortest_window_def)

lemma trimmed_lengths:
  "all_len (shortest_block b) (block_lengths (Snip (int (shortest_block b)) b))"
  "all_len (shortest_window w) (window_lengths (window_Snip (int (shortest_window w)) w))"
  by (simp_all add: block_lengths_Snip window_lengths_Snip all_len_min shortest_block_def shortest_window_def)

section \<open>Days\<close>

text \<open>
  A cut of the blocks into days: each interval begins where the one before ended, its end is the
  first later block that is past the day, and the days follow each other.
\<close>

fun day_cuts :: "ChartUints \<Rightarrow> u64 \<Rightarrow> nat \<Rightarrow> (nat \<times> nat) list \<Rightarrow> ChartUints \<Rightarrow> bool" where
  "day_cuts bt start s [] [] \<longleftrightarrow> True"
| "day_cuts bt start s ((a, e) # ivs) (d # ds) \<longleftrightarrow>
     a = s \<and> s \<le> e \<and> e < length bt \<and> d = start \<and> start + aDay \<le> bt ! e \<and>
     (\<forall>j. s < j \<and> j < e \<longrightarrow> bt ! j < start + aDay) \<and> day_cuts bt (start + aDay) e ivs ds"
| "day_cuts bt start s _ _ \<longleftrightarrow> False"

lemma day_loop_cuts:
  assumes "ts = drop (offset + i) bt" "startIdx \<le> i" "offset + i \<le> length bt"
    "\<forall>j. startIdx + offset < j \<and> j < offset + i \<longrightarrow> bt ! j < start + aDay"
    "day_loop endT offset start (start + aDay) startIdx i ts = (ivs, ds)"
  shows "day_cuts bt start (startIdx + offset) ivs ds"
  using assms
proof (induction ts arbitrary: start startIdx i ivs ds)
  case (Cons t ts)
  have len: "offset + i < length bt" using Cons.prems(1,3) by (cases "offset + i = length bt") auto
  then have t: "t = bt ! (offset + i)" and ts: "ts = drop (offset + Suc i) bt"
    using Cons.prems(1) by (simp_all add: Cons_nth_drop_Suc [symmetric])
  show ?case
  proof (cases "start + aDay \<le> t")
    case True
    obtain ivs' ds' where r: "(if t > endT then ([], [])
        else day_loop endT offset (start + aDay) (start + aDay + aDay) i (Suc i) ts) = (ivs', ds')"
      by (cases "if t > endT then ([], []) else day_loop endT offset (start + aDay) (start + aDay + aDay) i (Suc i) ts")
    then have e: "ivs = (startIdx + offset, i + offset) # ivs'" "ds = start # ds'"
      using Cons.prems(5) True by simp_all
    have "day_cuts bt (start + aDay) (i + offset) ivs' ds'"
    proof (cases "t > endT")
      case True
      then show ?thesis using r by simp
    next
      case False
      then have "day_loop endT offset (start + aDay) (start + aDay + aDay) i (Suc i) ts = (ivs', ds')"
        using r by simp
      moreover have "\<forall>j. i + offset < j \<and> j < offset + Suc i \<longrightarrow> bt ! j < start + aDay + aDay" by auto
      ultimately show ?thesis using Cons.IH [OF ts] len by simp
    qed
    then show ?thesis
      using e Cons.prems(2,4) True len t by (auto simp: add.commute)
  next
    case False
    then have "\<forall>j. startIdx + offset < j \<and> j < offset + Suc i \<longrightarrow> bt ! j < start + aDay"
      using Cons.prems(4) t by (auto simp: less_Suc_eq)
    then show ?thesis
      using Cons.IH [OF ts, of startIdx start ivs ds] Cons.prems(2,5) False len by simp
  qed
qed simp

lemma find_offset_bound: "i + length ts \<le> n \<Longrightarrow> find_offset start i ts \<le> n"
  by (induction ts arbitrary: i) auto

definition first_day :: "ChartUints \<Rightarrow> ChartUints \<Rightarrow> u64" where
  "first_day bt dt = (if dt \<noteq> [] then last dt + aDay else midnight (hd bt))"

definition first_block :: "ChartUints \<Rightarrow> ChartUints \<Rightarrow> nat" where
  "first_block bt dt = find_offset (first_day bt dt) 0 bt"

lemma new_days_cuts:
  assumes "new_days bt dt = (ivs, ds)"
  shows "day_cuts bt (first_day bt dt) (first_block bt dt) ivs ds"
proof -
  let ?start = "first_day bt dt" and ?off = "first_block bt dt"
  have n: "new_days bt dt = (if midnight (last bt) > ?start + aDay
      then day_loop (midnight (last bt)) ?off ?start (?start + aDay) 0 0 (drop ?off bt) else ([], []))"
    by (simp add: new_days_def first_day_def first_block_def Let_def)
  have "?off \<le> length bt" using find_offset_bound [of 0 bt "length bt"] by (simp add: first_block_def)
  moreover have "\<forall>j. 0 + ?off < j \<and> j < ?off + 0 \<longrightarrow> bt ! j < ?start + aDay" by auto
  ultimately show ?thesis
    using day_loop_cuts [of "drop ?off bt" ?off 0 bt 0 ?start "midnight (last bt)" ivs ds] assms n
    by (cases "midnight (last bt) > ?start + aDay") auto
qed

lemma day_cuts_lengths: "day_cuts bt start s ivs ds \<Longrightarrow> length ds = length ivs"
  by (induction bt start s ivs ds rule: day_cuts.induct) auto

text \<open>The sums of the days add up to the sum of the blocks they are cut from.\<close>

lemma uints_Sum_sum_list: "uints_Sum xs s e = sum_list (subslice xs s e)"
proof -
  have "foldl (+) a ys = a + sum_list ys" for a :: u64 and ys
    by (induction ys arbitrary: a) (simp_all add: add.assoc)
  then show ?thesis by (simp add: uints_Sum_def subslice_def)
qed

lemma subslice_split: "s \<le> e \<Longrightarrow> e \<le> f \<Longrightarrow> subslice xs s f = subslice xs s e @ subslice xs e f"
  unfolding subslice_eq_take_drop
  using take_add [of "e - s" "f - e" "drop s xs"] by (simp add: add.commute)

lemma day_cuts_end: "day_cuts bt start s ivs ds \<Longrightarrow> ivs \<noteq> [] \<Longrightarrow> s \<le> snd (last ivs)"
  by (induction bt start s ivs ds rule: day_cuts.induct) auto

lemma day_cuts_sum:
  "day_cuts bt start s ivs ds \<Longrightarrow> ivs \<noteq> [] \<Longrightarrow>
     sum_list (map (\<lambda>(a, e). uints_Sum xs a e) ivs) = uints_Sum xs s (snd (last ivs))"
proof (induction bt start s ivs ds rule: day_cuts.induct)
  case (2 bt start s a e ivs d ds)
  show ?case
  proof (cases "ivs = []")
    case True
    then show ?thesis using "2.prems" by simp
  next
    case False
    have c: "s \<le> e" "day_cuts bt (start + aDay) e ivs ds" using "2.prems" by simp_all
    have "e \<le> snd (last ivs)" using day_cuts_end [OF c(2) False] .
    then show ?thesis
      using "2.IH" [OF c(2) False] "2.prems" c False by (simp add: uints_Sum_sum_list
        subslice_split [of s e "snd (last ivs)" xs])
  qed
qed simp_all

lemma append_days_fields:
  "zHeight (foldl (append_day ops b) d ivs) = zHeight d @ map (\<lambda>(s, e). of_int (int e - 1)) ivs"
  "zPoolSize (foldl (append_day ops b) d ivs) = zPoolSize d @ map (\<lambda>(s, e). uints_Avg (zPoolSize b) s e) ivs"
  "zPoolValue (foldl (append_day ops b) d ivs) = zPoolValue d @ map (\<lambda>(s, e). uints_Avg (zPoolValue b) s e) ivs"
  "zBlockSize (foldl (append_day ops b) d ivs) = zBlockSize d @ map (\<lambda>(s, e). uints_Sum (zBlockSize b) s e) ivs"
  "zTxCount (foldl (append_day ops b) d ivs) = zTxCount d @ map (\<lambda>(s, e). uints_Sum (zTxCount b) s e) ivs"
  "zNewAtoms (foldl (append_day ops b) d ivs) = zNewAtoms d @ map (\<lambda>(s, e). uints_Sum (zNewAtoms b) s e) ivs"
  "zChainwork (foldl (append_day ops b) d ivs) = zChainwork d @ map (\<lambda>(s, e). zChainwork b ! e) ivs"
  "zDifficulty (foldl (append_day ops b) d ivs) = zDifficulty d @ map (\<lambda>(s, e). zDifficulty b ! e) ivs"
  "zFees (foldl (append_day ops b) d ivs) = zFees d @ map (\<lambda>(s, e). uints_Sum (zFees b) s e) ivs"
  "zTotalMixed (foldl (append_day ops b) d ivs) = zTotalMixed d @ map (\<lambda>(s, e). uints_Sum (zTotalMixed b) s e) ivs"
  "zAnonymitySet (foldl (append_day ops b) d ivs) = zAnonymitySet d @ map (\<lambda>(s, e). uints_Avg (zAnonymitySet b) s e) ivs"
  "zCoinDaysDestroyed (foldl (append_day ops b) d ivs) = zCoinDaysDestroyed d @ map (\<lambda>(s, e). floats_Sum ops (zCoinDaysDestroyed b) s e) ivs"
  "zAvgCoinAge (foldl (append_day ops b) d ivs) = zAvgCoinAge d @ map (\<lambda>(s, e). floats_Avg ops (zAvgCoinAge b) s e) ivs"
  "zCoinAgeBands (foldl (append_day ops b) d ivs) = zCoinAgeBands d @ map (\<lambda>(s, e). bands_Sum ops (zCoinAgeBands b) s e) ivs"
  "zMeanCoinAge (foldl (append_day ops b) d ivs) = zMeanCoinAge d @ map (\<lambda>(s, e). floats_Avg ops (zMeanCoinAge b) s e) ivs"
  "zTotalCoinDays (foldl (append_day ops b) d ivs) = zTotalCoinDays d @ map (\<lambda>(s, e). floats_Sum ops (zTotalCoinDays b) s e) ivs"
  "zMarketPrice (foldl (append_day ops b) d ivs) = zMarketPrice d @ map (\<lambda>(s, e). floats_Avg ops (zMarketPrice b) s e) ivs"
  "zTime (foldl (append_day ops b) d ivs) = zTime d" "zcacheID (foldl (append_day ops b) d ivs) = zcacheID d"
  by (induction ivs arbitrary: d) (simp_all add: append_day_def split_beta)

lemma day_lengths_append:
  "all_len n (day_lengths d) \<Longrightarrow> length ds = length ivs \<Longrightarrow>
     all_len (n + length ivs) (day_lengths (foldl (append_day ops b) (d\<lparr>zTime := zTime d @ ds\<rparr>) ivs))"
  by (simp add: all_len_def day_lengths_def append_days_fields)

section \<open>Lengthen\<close>

definition kept_blocks :: "'f ChartData \<Rightarrow> 'f ZoomSet" where
  "kept_blocks c = Snip (int (shortest_block (Blocks c))) (Blocks c)"

definition kept_windows :: "'f ChartData \<Rightarrow> 'f windowSet" where
  "kept_windows c = window_Snip (int (shortest_window (Windows c))) (Windows c)"

lemma Lengthen_no_blocks:
  assumes "shortest_block (Blocks c) = 0"
  shows "Lengthen ops c = (c\<lparr>Blocks := kept_blocks c\<rparr>, Ok)"
proof -
  obtain err where v: "ValidateLengths (block_lengths (Blocks c)) = (shortest_block (Blocks c), err)"
    by (simp add: ValidateLengths_eq shortest_block_def)
  have "kept_blocks c = (if err then Snip (int (shortest_block (Blocks c))) (Blocks c) else Blocks c)"
    using validated_blocks [OF v] by (simp add: kept_blocks_def)
  then show ?thesis using assms by (cases err) (simp_all add: Lengthen_def v)
qed

lemma Lengthen_steps:
  fixes ops :: "'f float_ops" and c :: "'f ChartData"
  assumes n: "0 < shortest_block (Blocks c)"
  defines "c' \<equiv> c\<lparr>Blocks := kept_blocks c, Windows := kept_windows c\<rparr>"
  shows "Lengthen ops c =
    (if shortest_window (Windows c) = 0 then (c', Err ZeroLengthWindows)
     else
       let (intervals, dayTimes) = new_days (zTime (kept_blocks c)) (zTime (Days c));
           days = foldl (append_day ops (kept_blocks c)) ((Days c)\<lparr>zTime := zTime (Days c) @ dayTimes\<rparr>) intervals
       in if snd (ValidateLengths (day_lengths days)) then (c'\<lparr>Days := days\<rparr>, Err DayBinMismatch)
       else (c'\<lparr>Days := (if length intervals > 0 then days\<lparr>zcacheID := zcacheID days + 1\<rparr> else days),
               Blocks := (kept_blocks c)\<lparr>zcacheID := last (zTime (kept_blocks c))\<rparr>,
               Windows := (kept_windows c)\<lparr>wcacheID := last (wTime (kept_windows c))\<rparr>\<rparr>, Ok))"
proof -
  obtain err where v: "ValidateLengths (block_lengths (Blocks c)) = (shortest_block (Blocks c), err)"
    by (simp add: ValidateLengths_eq shortest_block_def)
  obtain werr where w: "ValidateLengths (window_lengths (Windows c)) = (shortest_window (Windows c), werr)"
    by (simp add: ValidateLengths_eq shortest_window_def)
  have kb: "kept_blocks c = (if err then Snip (int (shortest_block (Blocks c))) (Blocks c) else Blocks c)"
    using validated_blocks [OF v] by (simp add: kept_blocks_def)
  have kw: "kept_windows c = (if werr then window_Snip (int (shortest_window (Windows c))) (Windows c) else Windows c)"
    using validated_windows [OF w] by (simp add: kept_windows_def)
  show ?thesis
    using n by (cases err; cases werr) (simp_all add: Lengthen_def v w c'_def kb kw split_beta Let_def)
qed

lemma all_fields: "c\<lparr>Days := d, Blocks := b, Windows := w\<rparr> = \<lparr>Blocks = b, Windows = w, Days = d\<rparr>"
  by (cases c) simp

lemma Lengthen_Ok:
  fixes ops :: "'f float_ops" and c :: "'f ChartData"
  assumes n: "0 < shortest_block (Blocks c)" and w: "0 < shortest_window (Windows c)"
    and d: "all_len d (day_lengths (Days c))"
    and iv: "new_days (zTime (kept_blocks c)) (zTime (Days c)) = (ivs, ds)"
  defines "days \<equiv> foldl (append_day ops (kept_blocks c)) ((Days c)\<lparr>zTime := zTime (Days c) @ ds\<rparr>) ivs"
  shows "Lengthen ops c =
      (\<lparr>Blocks = (kept_blocks c)\<lparr>zcacheID := last (zTime (kept_blocks c))\<rparr>,
        Windows = (kept_windows c)\<lparr>wcacheID := last (wTime (kept_windows c))\<rparr>,
        Days = (if length ivs > 0 then days\<lparr>zcacheID := zcacheID days + 1\<rparr> else days)\<rparr>, Ok)"
    "all_len (d + length ivs) (day_lengths days)"
proof -
  have "length ds = length ivs" using day_cuts_lengths [OF new_days_cuts [OF iv]] .
  then show l: "all_len (d + length ivs) (day_lengths days)" unfolding days_def by (rule day_lengths_append [OF d])
  then have "\<not> snd (ValidateLengths (day_lengths days))" by (simp add: ValidateLengths_all_len)
  then show "Lengthen ops c =
      (\<lparr>Blocks = (kept_blocks c)\<lparr>zcacheID := last (zTime (kept_blocks c))\<rparr>,
        Windows = (kept_windows c)\<lparr>wcacheID := last (wTime (kept_windows c))\<rparr>,
        Days = (if length ivs > 0 then days\<lparr>zcacheID := zcacheID days + 1\<rparr> else days)\<rparr>, Ok)"
    using w by (simp add: Lengthen_steps [OF n] iv days_def [symmetric] all_fields del: ChartData.update_convs)
qed

lemma day_lengths_cacheID [simp]: "day_lengths (d\<lparr>zcacheID := i\<rparr>) = day_lengths d"
  by (simp add: day_lengths_def)

text \<open>
  When the sets per day have one length, \<open>Lengthen\<close> leaves every set per block cut to the shortest
  of them. Without blocks that is all and no error; without windows it reports that. Otherwise it
  returns normally with the windows cut to the shortest, the sets per day of one length again, as many
  days longer as it cut from the blocks, the cache identifiers of blocks and windows at their last
  times, and the one of the days counted up exactly if there are new days.
\<close>

theorem Lengthen_lengths:
  assumes d: "all_len d (day_lengths (Days c))"
  shows "all_len (shortest_block (Blocks c)) (block_lengths (kept_blocks c)) \<and>
    all_len (shortest_window (Windows c)) (window_lengths (kept_windows c)) \<and>
    (if shortest_block (Blocks c) = 0 then Lengthen ops c = (c\<lparr>Blocks := kept_blocks c\<rparr>, Ok)
     else if shortest_window (Windows c) = 0
     then Lengthen ops c = (c\<lparr>Blocks := kept_blocks c, Windows := kept_windows c\<rparr>, Err ZeroLengthWindows)
     else \<exists>k days. Lengthen ops c =
         (\<lparr>Blocks = (kept_blocks c)\<lparr>zcacheID := last (zTime (kept_blocks c))\<rparr>,
           Windows = (kept_windows c)\<lparr>wcacheID := last (wTime (kept_windows c))\<rparr>, Days = days\<rparr>, Ok) \<and>
       all_len (d + k) (day_lengths days) \<and>
       zcacheID days = zcacheID (Days c) + (if k = 0 then 0 else 1))"
proof -
  obtain ivs ds where iv: "new_days (zTime (kept_blocks c)) (zTime (Days c)) = (ivs, ds)"
    by (cases "new_days (zTime (kept_blocks c)) (zTime (Days c))")
  have full: "\<exists>k days. Lengthen ops c =
         (\<lparr>Blocks = (kept_blocks c)\<lparr>zcacheID := last (zTime (kept_blocks c))\<rparr>,
           Windows = (kept_windows c)\<lparr>wcacheID := last (wTime (kept_windows c))\<rparr>, Days = days\<rparr>, Ok) \<and>
       all_len (d + k) (day_lengths days) \<and> zcacheID days = zcacheID (Days c) + (if k = 0 then 0 else 1)"
    if nw: "0 < shortest_block (Blocks c)" "0 < shortest_window (Windows c)"
  proof -
    let ?days = "foldl (append_day ops (kept_blocks c)) ((Days c)\<lparr>zTime := zTime (Days c) @ ds\<rparr>) ivs"
    let ?new = "if length ivs > 0 then ?days\<lparr>zcacheID := zcacheID ?days + 1\<rparr> else ?days"
    note ok = Lengthen_Ok [OF nw d iv, of ops]
    have "all_len (d + length ivs) (day_lengths ?new)" using ok(2) by (simp only: day_lengths_cacheID split: if_split) simp
    moreover have "zcacheID ?new = zcacheID (Days c) + (if length ivs = 0 then 0 else 1)"
      by (simp add: append_days_fields)
    ultimately show ?thesis using ok(1) by blast
  qed
  show ?thesis
    using trimmed_lengths(1) [of "Blocks c"] trimmed_lengths(2) [of "Windows c"] Lengthen_no_blocks [of c ops]
      Lengthen_steps [of c ops] full
    unfolding kept_blocks_def [symmetric] kept_windows_def [symmetric] by simp
qed

text \<open>Charts with blocks at the given times, and floating-point numbers that are natural numbers.\<close>

definition nat_ops :: "nat float_ops" where
  "nat_ops = \<lparr>fzero = 0, fadd = (+), fdiv = (div), fof = nat\<rparr>"

definition demo_set :: "ChartUints \<Rightarrow> nat ZoomSet" where
  "demo_set ts =
     (let u = map (\<lambda>_. 1) ts; f = map (\<lambda>_. 1) ts in
      \<lparr>zcacheID = 0, zHeight = u, zTime = ts, zPoolSize = u, zPoolValue = u, zBlockSize = u, zTxCount = u, zTxPerBlock = u, zAPIBlockchainSize = u, zAPITxAverage = u, zAPIMinedBlocks = u, zAPIMinedSize = u, zAPIAddressCount = u, zAPIMempoolTxNum = u, zAPIMempoolSize = u, zNewAtoms = u, zChainwork = u, zFees = u, zTotalMixed = u, zAnonymitySet = u, zReward = f, zDifficulty = f, zHashrate = f, zMarketPrice = f, zCoinDaysDestroyed = f, zAvgCoinAge = f, zCoinAgeBands = map (\<lambda>_. no_bands nat_ops) ts, zMoneroDecoyBands = map (\<lambda>_. no_decoy nat_ops) ts, zMeanCoinAge = f, zTotalCoinDays = f, zTotalRingSize = u, zAverageRingSize = u, zFeeRate = u, zAverageTxSize = u\<rparr>)"

definition demo_charts :: "ChartUints \<Rightarrow> nat ChartData" where
  "demo_charts ts =
     \<lparr>Blocks = demo_set ts,
      Windows = \<lparr>wcacheID = 0, wTime = [0, 1], wPowDiff = [1, 1], wTicketPrice = [1, 1], wStakeCount = [1, 1],
        wMissedVotes = [1, 1]\<rparr>,
      Days = demo_set []\<rparr>"

lemma demo_lengths:
  "block_lengths (demo_set ts) = replicate 18 (length ts)" "day_lengths (demo_set ts) = replicate 18 (length ts)"
  "window_lengths (Windows (demo_charts ts)) = [2, 2, 2, 2, 2]"
  by (simp_all add: block_lengths_def day_lengths_def window_lengths_def demo_set_def demo_charts_def
      numeral_eq_Suc Let_def)

lemma demo_all_len:
  "all_len (length ts) (block_lengths (demo_set ts))" "all_len (length ts) (day_lengths (demo_set ts))"
  "all_len 2 (window_lengths (Windows (demo_charts ts)))"
  by (simp_all add: demo_lengths all_len_set)

lemma demo_shortest:
  "shortest_block (demo_set ts) = length ts" "shortest_window (Windows (demo_charts ts)) = 2"
  by (simp_all add: shortest_block_def shortest_window_def demo_lengths)

definition demo_times :: ChartUints where
  "demo_times = [100, 50000, 90000, 180000, 260000]"

theorem Lengthen_lengths_witness:
  "\<exists>k days. Lengthen nat_ops (demo_charts demo_times) =
      (\<lparr>Blocks = (kept_blocks (demo_charts demo_times))\<lparr>zcacheID := last (zTime (kept_blocks (demo_charts demo_times)))\<rparr>,
        Windows = (kept_windows (demo_charts demo_times))\<lparr>wcacheID := last (wTime (kept_windows (demo_charts demo_times)))\<rparr>,
        Days = days\<rparr>, Ok) \<and> all_len k (day_lengths days)"
proof -
  have "all_len 0 (day_lengths (Days (demo_charts demo_times)))"
    using demo_all_len(2) [of "[]"] by (simp add: demo_charts_def)
  moreover have "shortest_block (Blocks (demo_charts demo_times)) = 5" "shortest_window (Windows (demo_charts demo_times)) = 2"
    by (simp_all add: demo_shortest) (simp add: demo_charts_def demo_shortest demo_times_def)
  ultimately show ?thesis using Lengthen_lengths [of 0 "demo_charts demo_times" nat_ops] by auto
qed

text \<open>
  The days that \<open>Lengthen\<close> adds are a cut of the blocks: each takes the blocks from where the one
  before ended up to the first block past its midnight, and carries their sum, their average, or for
  chain work and difficulty the value of the first block of the next day. The sums of the new days add
  up to the sum over all blocks that were cut.
\<close>

theorem Lengthen_days:
  assumes n: "0 < shortest_block (Blocks c)" and w: "0 < shortest_window (Windows c)"
    and d: "all_len d (day_lengths (Days c))"
  shows "\<exists>c' ivs ds. Lengthen ops c = (c', Ok) \<and>
    day_cuts (zTime (kept_blocks c)) (first_day (zTime (kept_blocks c)) (zTime (Days c)))
      (first_block (zTime (kept_blocks c)) (zTime (Days c))) ivs ds \<and>
    zTime (Days c') = zTime (Days c) @ ds \<and>
    zHeight (Days c') = zHeight (Days c) @ map (\<lambda>(s, e). of_int (int e - 1)) ivs \<and>
    zTxCount (Days c') = zTxCount (Days c) @ map (\<lambda>(s, e). uints_Sum (zTxCount (kept_blocks c)) s e) ivs \<and>
    zFees (Days c') = zFees (Days c) @ map (\<lambda>(s, e). uints_Sum (zFees (kept_blocks c)) s e) ivs \<and>
    zPoolSize (Days c') = zPoolSize (Days c) @ map (\<lambda>(s, e). uints_Avg (zPoolSize (kept_blocks c)) s e) ivs \<and>
    zCoinAgeBands (Days c')
      = zCoinAgeBands (Days c) @ map (\<lambda>(s, e). bands_Sum ops (zCoinAgeBands (kept_blocks c)) s e) ivs \<and>
    zChainwork (Days c') = zChainwork (Days c) @ map (\<lambda>(s, e). zChainwork (kept_blocks c) ! e) ivs \<and>
    zDifficulty (Days c') = zDifficulty (Days c) @ map (\<lambda>(s, e). zDifficulty (kept_blocks c) ! e) ivs \<and>
    (ivs \<noteq> [] \<longrightarrow> sum_list (map (\<lambda>(s, e). uints_Sum (zTxCount (kept_blocks c)) s e) ivs)
      = uints_Sum (zTxCount (kept_blocks c)) (first_block (zTime (kept_blocks c)) (zTime (Days c))) (snd (last ivs)))"
proof -
  obtain ivs ds where iv: "new_days (zTime (kept_blocks c)) (zTime (Days c)) = (ivs, ds)"
    by (cases "new_days (zTime (kept_blocks c)) (zTime (Days c))")
  note cuts = new_days_cuts [OF iv]
  let ?days = "foldl (append_day ops (kept_blocks c)) ((Days c)\<lparr>zTime := zTime (Days c) @ ds\<rparr>) ivs"
  let ?new = "if length ivs > 0 then ?days\<lparr>zcacheID := zcacheID ?days + 1\<rparr> else ?days"
  let ?c = "\<lparr>Blocks = (kept_blocks c)\<lparr>zcacheID := last (zTime (kept_blocks c))\<rparr>,
    Windows = (kept_windows c)\<lparr>wcacheID := last (wTime (kept_windows c))\<rparr>, Days = ?new\<rparr>"
  have "Lengthen ops c = (?c, Ok)" by (rule Lengthen_Ok(1) [OF n w d iv])
  then show ?thesis
    using cuts day_cuts_sum [OF cuts]
    by (intro exI [of _ ?c] exI [of _ ivs] exI [of _ ds]) (simp add: append_days_fields)
qed

lemma demo_kept: "zTime (kept_blocks (demo_charts ts)) = ts" "zTime (Days (demo_charts ts)) = []"
  by (simp_all add: kept_blocks_def demo_charts_def demo_shortest Snip_def Let_def)
    (simp_all add: demo_set_def Let_def)

theorem Lengthen_days_witness:
  "\<exists>c'. Lengthen nat_ops (demo_charts demo_times) = (c', Ok) \<and> length (zTime (Days c')) = length (zTxCount (Days c'))"
proof -
  have d: "all_len 0 (day_lengths (Days (demo_charts demo_times)))"
    using demo_all_len(2) [of "[]"] by (simp add: demo_charts_def)
  have n: "0 < shortest_block (Blocks (demo_charts demo_times))"
    by (simp add: demo_charts_def demo_shortest demo_times_def)
  have w: "0 < shortest_window (Windows (demo_charts demo_times))" by (simp add: demo_shortest)
  have e: "zTxCount (Days (demo_charts demo_times)) = []" by (simp add: demo_charts_def demo_set_def Let_def)
  show ?thesis using Lengthen_days [OF n w d, of nat_ops] by (auto simp: demo_kept e dest!: day_cuts_lengths)
qed

text \<open>
  A block whose time is exactly the midnight after the last day is in no day: the search for the first
  new block is for a later time, while the loop that cut the last day ended before this block. Cutting
  in one call counts it.
\<close>

lemma midnight_block_in_no_day:
  "new_days [100, 86400, 90000, 180000, 260000] [0] = ([(2, 3), (3, 4)], [86400, 172800])"
  "new_days [100, 86400, 90000, 180000, 260000] [] = ([(0, 1), (1, 3), (3, 4)], [0, 86400, 172800])"
  by (simp_all add: new_days_def midnight_def aDay_def)

section \<open>Reorganisations\<close>

text \<open>The entries of the sets that \<open>Snip\<close> truncates, at an index.\<close>

definition block_row where
  "block_row b j = (zHeight b ! j, zTime b ! j, zPoolSize b ! j, zPoolValue b ! j, zBlockSize b ! j, zTxCount b ! j, zNewAtoms b ! j, zChainwork b ! j, zDifficulty b ! j, zFees b ! j, zTotalMixed b ! j, zAnonymitySet b ! j, zCoinDaysDestroyed b ! j, zAvgCoinAge b ! j, zCoinAgeBands b ! j, zMeanCoinAge b ! j, zTotalCoinDays b ! j, zMarketPrice b ! j)"

lemma Snip_nat: "Snip l b = Snip (int (nat l)) b" "window_Snip l w = window_Snip (int (nat l)) w"
  by (cases "l < 0"; simp add: Snip_def window_Snip_def Let_def)+

lemma all_len_map_min: "all_len n ls \<Longrightarrow> m \<le> n \<Longrightarrow> all_len m (map (min m) ls)"
  by (simp add: all_len_set)

lemma block_row_Snip: "j < n \<Longrightarrow> block_row (Snip (int n) b) j = block_row b j"
  by (simp add: block_row_def Snip_def Let_def snip_eq_take)

lemma shortest_all_len:
  "all_len n (block_lengths b) \<Longrightarrow> shortest_block b = n" "all_len m (window_lengths w) \<Longrightarrow> shortest_window w = m"
  by (simp_all add: shortest_block_def shortest_window_def all_len_set)

lemma all_len_time: "all_len d (day_lengths s) \<Longrightarrow> length (zTime s) = d"
  "all_len m (window_lengths w) \<Longrightarrow> length (wTime w) = m"
  by (simp_all add: all_len_def day_lengths_def window_lengths_def)

lemma reorg_keeps_rows:
  assumes b: "all_len n (block_lengths (Blocks c))" and d: "all_len d (day_lengths (Days c))"
    and w: "all_len m (window_lengths (Windows c))" "2 \<le> m"
    and a: "int a = newHeight - int (length newChain)" "a < n"
  shows "all_len (Suc a) (block_lengths (Blocks (ReorgHandler newHeight newChain c))) \<and>
    (\<forall>j \<le> a. block_row (Blocks (ReorgHandler newHeight newChain c)) j = block_row (Blocks c) j) \<and>
    all_len (d - 2) (day_lengths (Days (ReorgHandler newHeight newChain c))) \<and>
    all_len (m - 1) (window_lengths (Windows (ReorgHandler newHeight newChain c))) \<and>
    snd (Lengthen ops (ReorgHandler newHeight newChain c)) = Ok"
proof -
  let ?c = "ReorgHandler newHeight newChain c"
  have h: "nat (newHeight - int (length newChain) + 1) = Suc a" using a(1) by simp
  have B: "Blocks ?c = Snip (int (Suc a)) (Blocks c)"
    unfolding ReorgHandler_def Let_def using Snip_nat(1) [of "newHeight - int (length newChain) + 1"] h by simp
  have D: "Days ?c = Snip (int (d - 2)) (Days c)"
    unfolding ReorgHandler_def Let_def using Snip_nat(1) [of "int d - 2"] all_len_time(1) [OF d]
    by (simp add: nat_diff_distrib')
  have W: "Windows ?c = window_Snip (int (m - 1)) (Windows c)"
    unfolding ReorgHandler_def Let_def using Snip_nat(2) [of "int m - 1"] all_len_time(2) [OF w(1)]
    by (simp add: nat_diff_distrib')
  have lens: "all_len (Suc a) (block_lengths (Blocks ?c))" "all_len (d - 2) (day_lengths (Days ?c))"
    "all_len (m - 1) (window_lengths (Windows ?c))"
    unfolding B D W block_lengths_Snip day_lengths_Snip window_lengths_Snip
    using b d w a(2) by (auto intro: all_len_map_min)
  have n: "0 < shortest_block (Blocks ?c)" "0 < shortest_window (Windows ?c)"
    using shortest_all_len(1) [OF lens(1)] shortest_all_len(2) [OF lens(3)] w(2) by simp_all
  obtain ivs ds where iv: "new_days (zTime (kept_blocks ?c)) (zTime (Days ?c)) = (ivs, ds)"
    by (cases "new_days (zTime (kept_blocks ?c)) (zTime (Days ?c))")
  have "snd (Lengthen ops ?c) = Ok" using Lengthen_Ok(1) [OF n lens(2) iv, of ops] by simp
  moreover have "\<forall>j \<le> a. block_row (Blocks ?c) j = block_row (Blocks c) j"
    unfolding B using block_row_Snip [of _ "Suc a" "Blocks c"] by (simp add: less_Suc_eq_le)
  ultimately show ?thesis using lens by blast
qed

text \<open>
  From charts whose sets agree in length, a reorganisation keeps of every set per block exactly
  the entries up to the common ancestor, drops the last two days and the last window, and leaves sets
  that agree in length, so that the next \<open>Lengthen\<close> returns normally.
\<close>

theorem ReorgHandler_keeps_ancestors:
  assumes b: "all_len n (block_lengths (Blocks c))" and d: "all_len d (day_lengths (Days c))"
    and w: "all_len m (window_lengths (Windows c))" "2 \<le> m"
    and a: "int a = newHeight - int (length newChain)" "a < n"
  shows "all_len (Suc a) (block_lengths (Blocks (ReorgHandler newHeight newChain c))) \<and>
    (\<forall>j \<le> a. block_row (Blocks (ReorgHandler newHeight newChain c)) j = block_row (Blocks c) j) \<and>
    all_len (d - 2) (day_lengths (Days (ReorgHandler newHeight newChain c))) \<and>
    all_len (m - 1) (window_lengths (Windows (ReorgHandler newHeight newChain c))) \<and>
    snd (Lengthen ops (ReorgHandler newHeight newChain c)) = Ok"
  by (rule reorg_keeps_rows [OF assms])

theorem ReorgHandler_keeps_ancestors_witness:
  "all_len 3 (block_lengths (Blocks (ReorgHandler 4 [zeroHash, zeroHash] (demo_charts demo_times)))) \<and>
   snd (Lengthen nat_ops (ReorgHandler 4 [zeroHash, zeroHash] (demo_charts demo_times))) = Ok"
proof -
  have b: "all_len 5 (block_lengths (Blocks (demo_charts demo_times)))"
  proof -
    have "length demo_times = 5" by (simp add: demo_times_def)
    then show ?thesis using demo_all_len(1) [of demo_times] by (simp add: demo_charts_def)
  qed
  have d: "all_len 0 (day_lengths (Days (demo_charts demo_times)))"
    using demo_all_len(2) [of "[]"] by (simp add: demo_charts_def)
  have a: "int 2 = 4 - int (length [zeroHash, zeroHash])" by simp
  from ReorgHandler_keeps_ancestors [OF b d demo_all_len(3) _ a, of nat_ops] show ?thesis
    by (simp add: numeral_3_eq_3)
qed

lemma append_xdays_fields:
  "zTime (foldl (append_xday ops ct b) d ivs) = zTime d"
  "length (zReward (foldl (append_xday ops ct b) d ivs)) = length (zReward d) + length ivs"
  by (induction ivs arbitrary: d) (simp_all add: append_xday_def split_beta Let_def)

lemma xday_lengths_in: "length (zTime d) \<in> set (xday_lengths ct d)" "length (zReward d) \<in> set (xday_lengths ct d)"
  by (simp_all add: xday_lengths_def)

text \<open>
  For the other chains \<open>Snip\<close> leaves the rewards and hash rates per day alone, which \<open>Lengthen\<close>
  there compares. So after one reorganisation of charts with at least one day, every later \<open>Lengthen\<close>
  fails, whatever blocks have been appended or replaced.
\<close>

theorem mutilchain_reorg_breaks_Lengthen:
  assumes d: "all_len d (xday_lengths (ChainType c) (xDays c))" "0 < d"
    and b: "0 < Min (set (xblock_lengths (ChainType c) blocks))"
  shows "snd (mutilchain_Lengthen ops ((mutilchain_ReorgHandler newHeight newChain c)\<lparr>xBlocks := blocks\<rparr>))
    = Err DayBinMismatch"
proof -
  let ?c = "(mutilchain_ReorgHandler newHeight newChain c)\<lparr>xBlocks := blocks\<rparr>"
  let ?ls = "xblock_lengths (ChainType c) blocks"
  have ct: "ChainType ?c = ChainType c" by (simp add: mutilchain_ReorgHandler_def Let_def)
  have "length (zTime (xDays c)) = d" "length (zReward (xDays c)) = d"
    using d(1) xday_lengths_in [where d = "xDays c" and ct = "ChainType c"] by (auto simp: all_len_set)
  then have t: "length (zTime (xDays ?c)) = d - 2" "length (zReward (xDays ?c)) = d"
    by (simp_all add: mutilchain_ReorgHandler_def Snip_def Let_def nat_diff_distrib')
  obtain err where v: "ValidateLengths ?ls = (Min (set ?ls), err)"
    by (cases "?ls = []") (simp_all add: ValidateLengths_eq xblock_lengths_def split: if_splits)
  let ?b = "if err then Snip (int (Min (set ?ls))) blocks else blocks"
  obtain ivs ds where iv: "new_days (zTime ?b) (zTime (xDays ?c)) = (ivs, ds)"
    by (cases "new_days (zTime ?b) (zTime (xDays ?c))")
  let ?days = "foldl (append_xday ops (ChainType c) ?b) ((xDays ?c)\<lparr>zTime := zTime (xDays ?c) @ ds\<rparr>) ivs"
  have "length (zTime ?days) = d - 2 + length ivs" "length (zReward ?days) = d + length ivs"
    using t day_cuts_lengths [OF new_days_cuts [OF iv]] by (simp_all add: append_xdays_fields)
  then have "snd (ValidateLengths (xday_lengths (ChainType c) ?days))"
    using ValidateLengths_mismatch [OF xday_lengths_in(1) [of ?days "ChainType c"] xday_lengths_in(2)] d(2) by auto
  then show ?thesis
    using b v ct iv by (cases err) (simp_all add: mutilchain_Lengthen_def split_beta Let_def)
qed

definition demo_xcharts :: "nat MutilchainChartData" where
  "demo_xcharts = \<lparr>xBlocks = demo_set demo_times, xDays = demo_set [0], ChainType = ''btc''\<rparr>"

theorem mutilchain_reorg_breaks_Lengthen_witness:
  "snd (mutilchain_Lengthen nat_ops
     ((mutilchain_ReorgHandler 4 [zeroHash] demo_xcharts)\<lparr>xBlocks := demo_set demo_times\<rparr>)) = Err DayBinMismatch"
proof -
  have d: "all_len 1 (xday_lengths (ChainType demo_xcharts) (xDays demo_xcharts))"
    by (simp add: all_len_set xday_lengths_def demo_xcharts_def TYPEXMR_def demo_set_def Let_def)
  have b: "0 < Min (set (xblock_lengths (ChainType demo_xcharts) (demo_set demo_times)))"
    by (simp add: xblock_lengths_def demo_xcharts_def TYPEXMR_def demo_set_def demo_times_def Let_def)
  show ?thesis by (rule mutilchain_reorg_breaks_Lengthen [OF d zero_less_one b])
qed

section \<open>Block times\<close>

text \<open>The places at which the blocks pass the ticks from one on, and the averages between them.\<close>

fun tick_cuts :: "ChartUints \<Rightarrow> ChartUints \<Rightarrow> nat \<Rightarrow> nat \<Rightarrow> nat list \<Rightarrow> ChartUints \<Rightarrow> bool" where
  "tick_cuts ticks blocks k s [] [] \<longleftrightarrow> True"
| "tick_cuts ticks blocks k s (e # es) (v # vs) \<longleftrightarrow>
     k < length ticks \<and> s \<le> e \<and> e < length blocks \<and> ticks ! k < blocks ! e \<and>
     (\<forall>j. s < j \<and> j < e \<longrightarrow> blocks ! j \<le> ticks ! k) \<and> v = avg_of blocks s e \<and>
     tick_cuts ticks blocks (Suc k) e es vs"
| "tick_cuts ticks blocks k s _ _ \<longleftrightarrow> False"

lemma avgBlockTimes_loop_cuts:
  assumes "ts = drop i blocks" "s \<le> i" "i \<le> length blocks" "k < length ticks"
    "\<forall>j. s < j \<and> j < i \<longrightarrow> blocks ! j \<le> ticks ! k"
    "avgBlockTimes_loop ticks blocks k w (ticks ! k) s i ts = (labels, avgs)"
  shows "labels = take (length avgs) (w # drop (Suc k) ticks) \<and> (\<exists>es. tick_cuts ticks blocks k s es avgs)"
  using assms
proof (induction ts arbitrary: i s k w labels avgs)
  case Nil
  then show ?case by (auto intro: exI [of _ "[]"])
next
  case (Cons t ts)
  have i: "i < length blocks" using Cons.prems(1,3) by (cases "i = length blocks") auto
  then have t: "t = blocks ! i" and ts: "ts = drop (Suc i) blocks"
    using Cons.prems(1) by (simp_all add: Cons_nth_drop_Suc [symmetric])
  show ?case
  proof (cases "ticks ! k < t")
    case False
    then have below: "\<forall>j. s < j \<and> j < Suc i \<longrightarrow> blocks ! j \<le> ticks ! k"
      using Cons.prems(5) t by (auto simp: less_Suc_eq)
    have r: "avgBlockTimes_loop ticks blocks k w (ticks ! k) s (Suc i) ts = (labels, avgs)"
      using Cons.prems(6) False by simp
    show ?thesis using Cons.IH [OF ts _ _ Cons.prems(4) below r] Cons.prems(2) i by simp
  next
    case True
    show ?thesis
    proof (cases "Suc k < length ticks")
      case more: True
      then have last: "\<not> length ticks - Suc 0 < Suc k" by simp
      obtain l' a' where r: "avgBlockTimes_loop ticks blocks (Suc k) (ticks ! Suc k) (ticks ! Suc k) i (Suc i) ts = (l', a')"
        by (cases "avgBlockTimes_loop ticks blocks (Suc k) (ticks ! Suc k) (ticks ! Suc k) i (Suc i) ts")
      have e: "labels = w # l'" "avgs = avg_of blocks s i # a'"
        using Cons.prems(6) True last r by (simp_all add: Let_def)
      have "\<forall>j. i < j \<and> j < Suc i \<longrightarrow> blocks ! j \<le> ticks ! Suc k" by auto
      from Cons.IH [OF ts _ _ more this r] i
      obtain es where "l' = take (length a') (ticks ! Suc k # drop (Suc (Suc k)) ticks)" "tick_cuts ticks blocks (Suc k) i es a'"
        by auto
      moreover from this(2) have "tick_cuts ticks blocks k s (i # es) avgs"
        using e(2) Cons.prems(2,4,5) i t True by simp
      moreover have "drop (Suc k) ticks = ticks ! Suc k # drop (Suc (Suc k)) ticks"
        using more by (simp add: Cons_nth_drop_Suc)
      ultimately show ?thesis using e by (intro conjI exI [of _ "i # es"]) simp_all
    next
      case False
      then have "length ticks - Suc 0 < Suc k" using Cons.prems(4) by simp
      then have e: "labels = [w]" "avgs = [avg_of blocks s i]"
        using Cons.prems(6) True by simp_all
      have "tick_cuts ticks blocks k s [i] avgs" using e Cons.prems(2,4,5) i t True by simp
      then show ?thesis using e(1) e(2) by (intro conjI exI [of _ "[i]"]) simp_all
    qed
  qed
qed

text \<open>
  The k-th average block time is over the blocks up to the first that is past tick k + 1, from
  where the one before ended. The first one is labelled with tick 0, where its interval starts, but
  every other with the tick after that, where its interval ends: no label is tick 1.
\<close>

theorem avgBlockTimes_labels:
  assumes "2 \<le> length ticks" "avgBlockTimes ticks blocks = (labels, avgs)"
  shows "labels = take (length avgs) (ticks ! 0 # drop 2 ticks) \<and> (\<exists>es. tick_cuts ticks blocks 1 0 es avgs)"
  using assms avgBlockTimes_loop_cuts [of blocks 0 blocks 0 1 ticks "ticks ! 0" labels avgs]
  by (auto simp: avgBlockTimes_def numeral_2_eq_2)

theorem avgBlockTimes_labels_witness:
  "avgBlockTimes [0, 100, 200, 300] [10, 30, 110, 150, 210, 250, 310] = ([0, 200, 300], [20, 40, 40]) \<and>
   (\<exists>es. tick_cuts [0, 100, 200, 300] [10, 30, 110, 150, 210, 250, 310] 1 0 es [20, 40, 40])"
proof -
  have e: "avgBlockTimes [0, 100, 200, 300] [10, 30, 110, 150, 210, 250, 310] = ([0, 200, 300], [20, 40, 40])"
    by code_simp
  moreover have "2 \<le> length [0, 100, 200, 300 :: u64]" by simp
  from avgBlockTimes_labels [OF this e] have
    "\<exists>es. tick_cuts [0, 100, 200, 300] [10, 30, 110, 150, 210, 250, 310] 1 0 es [20, 40, 40]" ..
  ultimately show ?thesis ..
qed

text \<open>The total of the averages is divided by one more than their number: with one interval, by two.\<close>

lemma calculateAvgBlockTime_halves:
  "avg_of [1, 5, 11] 0 2 = 4" "calculateAvgBlockTime [0, 10] [1, 5, 11] = 2"
  by code_simp+

end
