(* ===== verification/ReorgFlow.thy ===== *)
theory ReorgFlow
  imports StakeDBSync NotifierSync ChartsContract
begin

text \<open>
  A reorganisation from dcrd's notification to the data: \<open>signalReorg\<close> finds the common ancestor through
  the node, and the handlers that \<open>main.go\<close> registers are run with what it found. Those of the stake
  database and of the chart data are the modelled ones. Those of the block data collector and of the
  PostgreSQL database are a parameter that works on the rest of the state. The state of the program is
  the triple of the three.
\<close>

datatype reorg_user = StakeMonitor | BlockDataMonitor | ChainDBMonitor | Charts

type_synonym ('n, 'db, 'p, 'f, 'r) app = "('n, 'db, 'p) StakeDatabase \<times> 'f ChartData \<times> 'r"

type_synonym 'r other_handlers = "reorg_user \<Rightarrow> ReorgData \<Rightarrow> 'r \<Rightarrow> 'r \<times> outcome"

definition stake_handler :: "('n, 'u, 'db, 'p) stake_env \<Rightarrow> client \<Rightarrow> ReorgData \<Rightarrow>
    ('n, 'db, 'p, 'f, 'r) app \<Rightarrow> ('n, 'db, 'p, 'f, 'r) app \<times> outcome" where
  "stake_handler senv cl r app =
    (case stake_ReorgHandler senv cl r (fst app) of
       (db, Ok) \<Rightarrow> ((db, snd app), Completed)
     | (db, _) \<Rightarrow> ((db, snd app), Failed))"

definition charts_handler :: "ReorgData \<Rightarrow> ('n, 'db, 'p, 'f, 'r) app \<Rightarrow> ('n, 'db, 'p, 'f, 'r) app \<times> outcome" where
  "charts_handler r app =
    (case app of (db, charts, rest) \<Rightarrow>
       ((db, ReorgHandler (sint (NewChainHeight r)) (NewChain r) charts, rest), Completed))"

definition rest_handler :: "'r other_handlers \<Rightarrow> reorg_user \<Rightarrow> ReorgData \<Rightarrow>
    ('n, 'db, 'p, 'f, 'r) app \<Rightarrow> ('n, 'db, 'p, 'f, 'r) app \<times> outcome" where
  "rest_handler others h r app =
    (case app of (db, charts, rest) \<Rightarrow>
       (case others h r rest of (rest', result) \<Rightarrow> ((db, charts, rest'), result)))"

definition app_env :: "('n, 'u, 'db, 'p) stake_env \<Rightarrow> client \<Rightarrow> 'r other_handlers \<Rightarrow>
    (reorg_user, unit, ('n, 'db, 'p, 'f, 'r) app) handler_env" where
  "app_env senv cl others =
    \<lparr>onBlock = (\<lambda>_ _ s. (s, Completed)),
     onReorg = (\<lambda>h. case h of
         StakeMonitor \<Rightarrow> stake_handler senv cl
       | BlockDataMonitor \<Rightarrow> rest_handler others BlockDataMonitor
       | ChainDBMonitor \<Rightarrow> rest_handler others ChainDBMonitor
       | Charts \<Rightarrow> charts_handler),
     onTx = (\<lambda>_ _ s. (s, Completed))\<rparr>"

text \<open>The groups in the order of \<open>main.go\<close>.\<close>

definition main_groups :: "reorg_user Notifier \<Rightarrow> reorg_user Notifier" where
  "main_groups n =
    RegisterReorgHandlerGroup [Charts]
      (RegisterReorgHandlerGroup [BlockDataMonitor, ChainDBMonitor]
        (RegisterReorgHandlerGroup [StakeMonitor] n))"

definition in_time :: "'r other_handlers \<Rightarrow> bool" where
  "in_time others \<longleftrightarrow> (\<forall>h r s. snd (others h r s) \<noteq> TimedOut)"

lemma worse_in_time: "worse x y = TimedOut \<longleftrightarrow> x = TimedOut \<or> y = TimedOut"
  by (cases x; cases y) simp_all

lemma rest_group:
  assumes "in_time others"
  obtains rest' result where "run_group (onReorg (app_env senv cl others)) r [BlockDataMonitor, ChainDBMonitor]
      (db, charts, rest) = ((db, charts, rest'), result)" "result \<noteq> TimedOut"
proof -
  obtain r1 o1 where 1: "others BlockDataMonitor r rest = (r1, o1)" by fastforce
  obtain r2 o2 where 2: "others ChainDBMonitor r r1 = (r2, o2)" by fastforce
  have "o1 \<noteq> TimedOut" "o2 \<noteq> TimedOut"
    using assms 1 2 unfolding in_time_def by (metis snd_conv)+
  with 1 2 show ?thesis
    by (intro that [of r2 "worse o1 (worse o2 Completed)"])
      (simp_all add: app_env_def rest_handler_def worse_in_time)
qed

lemma run_main_groups:
  assumes "in_time others" "stake_ReorgHandler senv cl r db = (db', Ok)"
  obtains rest' where "other_groups (onReorg (app_env senv cl others)) r
      [[StakeMonitor], [BlockDataMonitor, ChainDBMonitor], [Charts]] (db, charts, rest)
    = ((db', ReorgHandler (sint (NewChainHeight r)) (NewChain r) charts, rest'), True)"
proof -
  let ?f = "onReorg (app_env senv cl others)"
  have "run_group ?f r [StakeMonitor] (db, charts, rest) = ((db', charts, rest), Completed)"
    using assms(2) by (simp add: app_env_def stake_handler_def)
  moreover obtain rest' result where "run_group ?f r [BlockDataMonitor, ChainDBMonitor]
      (db', charts, rest) = ((db', charts, rest'), result)" "result \<noteq> TimedOut"
    by (rule rest_group [OF assms(1)])
  moreover have "run_group ?f r [Charts] (db', charts, rest')
      = ((db', ReorgHandler (sint (NewChainHeight r)) (NewChain r) charts, rest'), Completed)"
    by (simp add: app_env_def charts_handler_def)
  ultimately show ?thesis
    by (intro that [of rest']) (cases result; simp del: run_group.simps)
qed

lemma common_prefix_append:
  "common_prefix (xs @ ys) (xs @ zs) = length xs + common_prefix ys zs"
  by (induction xs) auto

lemma ancestor_of_branches:
  assumes "common \<noteq> []" "new \<noteq> []" "old \<noteq> []" "hd new \<noteq> hd old"
    and "int (max (length new) (length old)) \<le> maxAncestorChainLength"
  shows "ancestor_of (common @ new) (common @ old) = Ancestor (Some (last common)) new old None"
proof -
  have "common_prefix new old = 0"
    using assms(2-4) by (cases new; cases old) auto
  then have "fork_height (common @ new) (common @ old) = length common"
    using assms(2,3) by (cases new; cases old) (auto simp: fork_height_def common_prefix_append)
  moreover have "\<not> maxAncestorChainLength
      < int (max (length (common @ new)) (length (common @ old))) - int (length common)"
    using assms(5) by (simp add: max_def split: if_splits)
  moreover have "(common @ new) ! (length common - 1) = last common"
    using assms(1) by (simp add: nth_append last_conv_nth)
  ultimately show ?thesis
    using assms(1) unfolding ancestor_of_def Let_def by simp
qed

text \<open>What the node reports for a reorganisation between two branches on a common chain.\<close>

definition reports :: "DCRDNode \<Rightarrow> BranchTips \<Rightarrow> Block list \<Rightarrow> Block list \<Rightarrow> Block list \<Rightarrow> bool" where
  "reports node d common new old \<longleftrightarrow>
    known_path (nodeBlock node) (map block_hash (common @ new)) \<and>
    known_path (nodeBlock node) (map block_hash (common @ old)) \<and>
    btNewChainHead d = block_hash (last new) \<and> btOldChainHead d = block_hash (last old) \<and>
    sint (btNewChainHeight d) = int (length (common @ new)) - 1 \<and>
    new \<noteq> [] \<and> old \<noteq> [] \<and> block_hash (hd new) \<noteq> block_hash (hd old) \<and>
    int (max (length new) (length old)) \<le> maxAncestorChainLength"

lemma reported_ancestor:
  assumes "reports node d common new old" "common \<noteq> []"
  shows "CommonAncestor (Some (nodeBlock node)) (btNewChainHead d) (btOldChainHead d)
    = Ancestor (Some (block_hash (last common))) (map block_hash new) (map block_hash old) None"
proof -
  have "last (map block_hash (common @ new)) = block_hash (last new)"
    "last (map block_hash (common @ old)) = block_hash (last old)"
    using assms by (simp_all add: reports_def last_map)
  then have "CommonAncestor (Some (nodeBlock node)) (btNewChainHead d) (btOldChainHead d)
      = ancestor_of (map block_hash (common @ new)) (map block_hash (common @ old))"
    using CommonAncestor_loop_tips assms unfolding reports_def by metis
  then show ?thesis
    using ancestor_of_branches [of "map block_hash common" "map block_hash new" "map block_hash old"] assms
    by (simp add: reports_def last_map hd_map)
qed

text \<open>
  C4. From the notification to the data: after a reorganisation the stake database stands for the new
  chain, the block charts have exactly the rows of the blocks up to the common ancestor, as they were,
  and the notifier is at the new tip, ready for its next block. The handlers of the other data end in time.
\<close>

theorem reorg_reaches_the_data:
  assumes "stake_package senv node_of holds V" "common \<noteq> []" "common @ new \<in> V" "common @ old \<in> V"
    and "reports node d common new old"
    and "node_on_chain cl (common @ new)" "prices_in senv price (common @ new)" "pool_writes senv"
    and "sdb_rel senv node_of holds price (common @ old) db" "serves_old senv cl node_of price common old"
    and "all_len (length (common @ old)) (block_lengths (Blocks charts))" "all_len nd (day_lengths (Days charts))"
      "all_len m (window_lengths (Windows charts))" "2 \<le> m"
    and "reorg n = []" "in_time others"
  shows "\<exists>n' db' charts' rest'.
    signalReorg (app_env senv cl others) node d (main_groups n) (db, charts, rest) = (n', db', charts', rest') \<and>
    sdb_rel senv node_of holds price (common @ new) db' \<and>
    all_len (length common) (block_lengths (Blocks charts')) \<and>
    (\<forall>j < length common. block_row (Blocks charts') j = block_row (Blocks charts) j) \<and>
    previousHash n' = block_hash (last new) \<and> uint (previousHeight n') = int (length (common @ new)) - 1"
proof -
  have rep: "new \<noteq> []" "old \<noteq> []" "sint (btNewChainHeight d) = int (length (common @ new)) - 1"
    "btNewChainHead d = block_hash (last new)"
    using assms(5) by (simp_all add: reports_def)
  let ?r = "\<lparr>ReorgAncestor = block_hash (last common), OldChainHead = btOldChainHead d,
    OldChainHeight = btOldChainHeight d, OldChain = map block_hash old, NewChainHead = btNewChainHead d,
    NewChainHeight = btNewChainHeight d, NewChain = map block_hash new\<rparr>"
  have reorg: "reorg_to ?r common new"
    using rep by (simp add: reorg_to_def)
  have at_old: "(\<exists>o'. common @ old = common @ o' \<and> serves_old senv cl node_of price common o') \<or>
      (\<exists>rest. common = (common @ old) @ rest)"
    using assms(10) by blast
  have "common @ old \<noteq> []"
    using assms(2) by simp
  from stake_handler_chain [OF assms(1,2) rep(1) assms(3,6-8) reorg assms(9,4) this at_old]
  obtain db' where db': "stake_ReorgHandler senv cl ?r db = (db', Ok)"
    "sdb_rel senv node_of holds price (common @ new) db'"
    by blast
  let ?charts = "ReorgHandler (sint (btNewChainHeight d)) (map block_hash new) charts"
  have a: "int (length common - 1) = sint (btNewChainHeight d) - int (length (map block_hash new))"
    "length common - 1 < length (common @ old)"
    using rep(3) assms(2) by (cases common; simp)+
  have suc: "Suc (length common - 1) = length common"
    using assms(2) by (cases common) simp_all
  have charts: "all_len (length common) (block_lengths (Blocks ?charts))"
    "\<forall>j \<le> length common - 1. block_row (Blocks ?charts) j = block_row (Blocks charts) j"
    using reorg_keeps_rows [OF assms(11-14) a] unfolding suc by blast+
  have rows: "\<forall>j < length common. block_row (Blocks ?charts) j = block_row (Blocks charts) j"
    using charts(2) suc by (metis less_Suc_eq_le)
  obtain rest' where "other_groups (onReorg (app_env senv cl others)) ?r
      [[StakeMonitor], [BlockDataMonitor, ChainDBMonitor], [Charts]] (db, charts, rest) = ((db', ?charts, rest'), True)"
    using run_main_groups [OF assms(16) db'(1)] by auto
  then have "signalReorg (app_env senv cl others) node d (main_groups n) (db, charts, rest)
      = (SetPreviousBlock (btNewChainHead d) (ucast (btNewChainHeight d)) (main_groups n), db', ?charts, rest')"
    using reported_ancestor [OF assms(5,2)] assms(15)
    by (simp add: signalReorg_def Let_def main_groups_def RegisterReorgHandlerGroup_def
        del: other_groups.simps run_group.simps)
  moreover have "uint (ucast (btNewChainHeight d) :: u32) = int (length (common @ new)) - 1"
    using rep(1,3) sint_lt [of "btNewChainHeight d"] by (cases new) (simp_all add: uint_sint take_bit_int_eq_self)
  ultimately show ?thesis
    using db'(2) charts(1) rows rep(4) by (simp add: SetPreviousBlock_def)
qed

text \<open>The node of the example: the blocks of both branches by hash, those of the new one by height.\<close>

definition ex_dcrd :: DCRDNode where
  "ex_dcrd =
    \<lparr>nodeBlockHash = (\<lambda>i. if 0 \<le> i \<and> i < 4 then Some (block_hash ([bG, b1, x2, x3] ! nat i)) else None),
     nodeBlock = (\<lambda>h. map_option bHeader (List.find (\<lambda>b. block_hash b = h) ex_blocks))\<rparr>"

definition ex_tips :: BranchTips where
  "ex_tips = \<lparr>btOldChainHead = hash_of 3, btOldChainHeight = 2, btNewChainHead = hash_of 5, btNewChainHeight = 3\<rparr>"

lemma ex_headers_by_hash:
  "List.find (\<lambda>b. block_hash b = hash_of 1) ex_blocks = Some bG"
  "bHeader bG = \<lparr>hdrHash = hash_of 1, hdrPrev = zeroHash, hdrHeight = 0\<rparr>"
  "bHeader b1 = \<lparr>hdrHash = hash_of 2, hdrPrev = hash_of 1, hdrHeight = 1\<rparr>"
  "bHeader b2 = \<lparr>hdrHash = hash_of 3, hdrPrev = hash_of 2, hdrHeight = 2\<rparr>"
  "bHeader x2 = \<lparr>hdrHash = hash_of 4, hdrPrev = hash_of 2, hdrHeight = 2\<rparr>"
  "bHeader x3 = \<lparr>hdrHash = hash_of 5, hdrPrev = hash_of 4, hdrHeight = 3\<rparr>"
  by (simp_all add: ex_blocks_def ex_defs hash_of_def zeroHash_def HashSize_def)

lemma ex_paths:
  "known_path (nodeBlock ex_dcrd) [hash_of 1, hash_of 2, hash_of 4, hash_of 5]"
  "known_path (nodeBlock ex_dcrd) [hash_of 1, hash_of 2, hash_of 3]"
proof -
  have zero: "zeroHash = hash_of 0"
    by (simp add: zeroHash_def hash_of_def HashSize_def)
  show "known_path (nodeBlock ex_dcrd) [hash_of 1, hash_of 2, hash_of 4, hash_of 5]"
    "known_path (nodeBlock ex_dcrd) [hash_of 1, hash_of 2, hash_of 3]"
    unfolding known_path_def by (auto simp: zero less_Suc_eq ex_dcrd_def ex_headers_by_hash)
qed

lemma ex_reports: "reports ex_dcrd ex_tips [bG, b1] [x2, x3] [b2]"
  using ex_paths by (simp add: reports_def ex_tips_def maxAncestorChainLength_def)

definition ex_others :: "unit other_handlers" where
  "ex_others = (\<lambda>h r s. (s, Completed))"

theorem reorg_reaches_the_data_witness:
  "\<exists>n' db' charts'. signalReorg (app_env ex_env ex_client ex_others) ex_dcrd ex_tips (main_groups NewNotifier)
      (ex_db [bG, b1, b2], demo_charts [0, 300, 600], ()) = (n', db', charts', ()) \<and>
    BestNode db' = Some [bG, b1, x2, x3] \<and> length (zTime (Blocks charts')) = 2 \<and> previousHash n' = hash_of 5"
proof -
  have V: "[bG, b1] @ [x2, x3] \<in> ex_chains" "[bG, b1] @ [b2] \<in> ex_chains"
    by (simp_all add: ex_chains_def)
  have node: "node_on_chain ex_client ([bG, b1] @ [x2, x3])"
    using ex_node by simp
  have prices: "prices_in ex_env ex_price ([bG, b1] @ [x2, x3])"
    by (rule ex_prices) (simp add: ex_blocks_def)
  have old: "serves_old ex_env ex_client id ex_price [bG, b1] [b2]"
    using ex_serves by (auto simp: serves_old_def Cons_eq_append_conv)
  have rel: "sdb_rel ex_env id (\<lambda>sdb c. sdb = c) ex_price ([bG, b1] @ [b2]) (ex_db [bG, b1, b2])"
    using ex_rel [OF V(2)] by simp
  have b: "all_len (length ([bG, b1] @ [b2])) (block_lengths (Blocks (demo_charts [0, 300, 600])))"
    using demo_all_len(1) [of "[0, 300, 600]"] by (simp add: demo_charts_def)
  have d: "all_len 0 (day_lengths (Days (demo_charts [0, 300, 600])))"
    using demo_all_len(2) [of "[]"] by (simp add: demo_charts_def)
  have others: "in_time ex_others"
    by (simp add: in_time_def ex_others_def)
  have idle: "reorg NewNotifier = []"
    by (simp add: NewNotifier_def)
  obtain n' :: "reorg_user Notifier" and db' charts' where
    "signalReorg (app_env ex_env ex_client ex_others) ex_dcrd ex_tips (main_groups NewNotifier)
      (ex_db [bG, b1, b2], demo_charts [0, 300, 600], ()) = (n', db', charts', ())"
    "sdb_rel ex_env id (\<lambda>sdb c. sdb = c) ex_price ([bG, b1] @ [x2, x3]) db'"
    "all_len (length [bG, b1]) (block_lengths (Blocks charts'))" "previousHash n' = block_hash (last [x2, x3])"
    using reorg_reaches_the_data [OF ex_package _ V ex_reports node prices ex_writes rel old b d demo_all_len(3) _ idle others]
    by auto
  moreover have "length (zTime (Blocks charts')) \<in> set (block_lengths (Blocks charts'))"
    by (simp add: block_lengths_def)
  ultimately show ?thesis
    using sdb_relD(1) by (fastforce simp: all_len_set)
qed

end
