(* ===== verification/ChartMakers.thy ===== *)
theory ChartMakers
  imports Charts Chain
begin

text \<open>
  The chart makers of \<open>db/cache/charts.go\<close>: each chooses sets of the chart data for a bin and an axis and
  encodes them as a JSON object, truncated to the shortest. Encoding a Go map as JSON is a parameter, as
  are the conversion of a difficulty and a time to a hash rate, and the calendar of the local time zone.
  A slice or an index beyond the length of a set panics: the capacities of the slices, up to which Go
  would show elements that were cut off before, are not kept. The configuration that \<open>NewChartData\<close> sets once
  is part of the environment.
\<close>

section \<open>Names\<close>

datatype binLevel = DayBin | BlockBin | WindowBin
datatype axisType = HeightAxis | TimeAxis

fun binName :: "binLevel \<Rightarrow> string" where
  "binName DayBin = ''day''"
| "binName BlockBin = ''block''"
| "binName WindowBin = ''window''"

fun axisName :: "axisType \<Rightarrow> string" where
  "axisName HeightAxis = ''height''"
| "axisName TimeAxis = ''time''"

definition isWindowBin :: "string \<Rightarrow> bool" where
  "isWindowBin chart \<longleftrightarrow> chart \<in> {''pow-difficulty'', ''ticket-price'', ''missed-votes''}"

definition ParseBin :: "string \<Rightarrow> binLevel" where
  "ParseBin bin =
    (if bin = binName BlockBin then BlockBin else if bin = binName WindowBin then WindowBin else DayBin)"

definition ParseAxis :: "string \<Rightarrow> axisType" where
  "ParseAxis aType = (if aType = axisName HeightAxis then HeightAxis else TimeAxis)"

lemma parse_names [simp]: "ParseBin (binName b) = b" "ParseAxis (axisName a) = a"
  by (cases b; simp add: ParseBin_def) (cases a; simp add: ParseAxis_def)

definition heightKey :: string where
  "heightKey = ''h''"

definition timeKey :: string where
  "timeKey = ''t''"

definition binKey :: string where
  "binKey = ''bin''"

definition axisKey :: string where
  "axisKey = ''axis''"

definition supplyKey :: string where
  "supplyKey = ''supply''"

definition windowKey :: string where
  "windowKey = ''window''"

definition diffKey :: string where
  "diffKey = ''diff''"

definition priceKey :: string where
  "priceKey = ''price''"

definition countKey :: string where
  "countKey = ''count''"

definition offsetKey :: string where
  "offsetKey = ''offset''"

definition circulationKey :: string where
  "circulationKey = ''circulation''"

definition poolValKey :: string where
  "poolValKey = ''poolval''"

definition missedKey :: string where
  "missedKey = ''missed''"

definition sizeKey :: string where
  "sizeKey = ''size''"

definition feesKey :: string where
  "feesKey = ''fees''"

definition anonymitySetKey :: string where
  "anonymitySetKey = ''anonymitySet''"

definition durationKey :: string where
  "durationKey = ''duration''"

definition workKey :: string where
  "workKey = ''work''"

definition rateKey :: string where
  "rateKey = ''rate''"

definition cddKey :: string where
  "cddKey = ''cdd''"

definition avgCoinAgeKey :: string where
  "avgCoinAgeKey = ''avgAge''"

definition ageBandKey :: string where
  "ageBandKey = ''ageBands''"

definition meanCoinAgeKey :: string where
  "meanCoinAgeKey = ''meanCoinAge''"

definition totalCoinDaysKey :: string where
  "totalCoinDaysKey = ''totalCoinDays''"

definition marketPriceKey :: string where
  "marketPriceKey = ''marketPrice''"


section \<open>Encoding\<close>

text \<open>The sets that have a length and can be truncated, and the values of a response.\<close>

datatype 'f lengther = Uints ChartUints | Floats "'f ChartFloats" | Bands "'f AgeBandData list"

fun set_Length :: "'f lengther \<Rightarrow> nat" where
  "set_Length (Uints xs) = length xs"
| "set_Length (Floats xs) = length xs"
| "set_Length (Bands xs) = length xs"

fun Truncate :: "nat \<Rightarrow> 'f lengther \<Rightarrow> 'f lengther" where
  "Truncate l (Uints xs) = Uints (take l xs)"
| "Truncate l (Floats xs) = Floats (take l xs)"
| "Truncate l (Bands xs) = Bands (take l xs)"

lemma set_Length_Truncate [simp]: "set_Length (Truncate l s) = min (set_Length s) l"
  by (cases s) simp_all

lemma Truncate_all [simp]: "set_Length s \<le> l \<Longrightarrow> Truncate l s = s"
  by (cases s) simp_all

datatype 'f json_value = JString string | JNumber int | JSet "'f lengther"

type_synonym 'f chartResponse = "(string, 'f json_value) gomap"

datatype maker_error =
    UnknownChartErr
  | InvalidBinErr
  | NoSets
  | MarshalFailed string
  | NotEnoughBlocks
  | NotEnoughDays
  | TooFewDayHeights

text \<open>
  \<open>blake3Hash\<close> and \<open>blake3Window\<close> are the two midnights of 2023-09-01 and 2023-09-02; \<open>dayStart\<close> and
  \<open>dayEnd\<close> the first and the last second of the day of a time; \<open>rateOf\<close> is
  \<open>uint64((diff * 2^32 / float64(timeAvg)) / 1e12)\<close>.
\<close>

record ('f, 'b) chart_env =
  marshal :: "'f chartResponse \<Rightarrow> string + 'b"
  float :: "'f float_ops"
  isZero :: "'f \<Rightarrow> bool"
  rateOf :: "'f \<Rightarrow> u64 \<Rightarrow> u64"
  blake3Hash :: u64
  blake3Window :: u64
  dayStart :: "u64 \<Rightarrow> u64"
  dayEnd :: "u64 \<Rightarrow> u64"
  DiffInterval :: i32
  StartPOS :: i32

type_synonym ('f, 'b) maker =
  "('f, 'b) chart_env \<Rightarrow> 'f ChartData \<Rightarrow> binLevel \<Rightarrow> axisType \<Rightarrow> string \<Rightarrow> ('b, maker_error) go_result"

definition binAxisSeed :: "binLevel \<Rightarrow> axisType \<Rightarrow> 'f chartResponse" where
  "binAxisSeed bin axis = [(binKey, JString (binName bin)), (axisKey, JString (axisName axis))]"

text \<open>The sets are a map literal: their keys are distinct. The shortest length starts at the sentinel -1.\<close>

fun smaller_loop :: "int \<Rightarrow> 'f lengther list \<Rightarrow> int" where
  "smaller_loop smaller [] = smaller"
| "smaller_loop smaller (s # ss) =
    (let l = int (set_Length s)
     in smaller_loop (if smaller = -1 then l else if l < smaller then l else smaller) ss)"

fun put_sets :: "nat \<Rightarrow> (string \<times> 'f lengther) list \<Rightarrow> 'f chartResponse \<Rightarrow> 'f chartResponse" where
  "put_sets n [] seed = seed"
| "put_sets n ((k, v) # sets) seed = put_sets n sets (mput k (JSet (Truncate n v)) seed)"

definition encode :: "('f, 'b) chart_env \<Rightarrow> (string \<times> 'f lengther) list \<Rightarrow> 'f chartResponse \<Rightarrow>
    ('b, maker_error) go_result" where
  "encode env sets seed =
    (if length sets = 0 then Fail NoSets
     else
       (let smaller = smaller_loop (-1) (map snd sets)
        in case marshal env (put_sets (nat smaller) sets seed) of
             Inl e \<Rightarrow> Fail (MarshalFailed e)
           | Inr data \<Rightarrow> Ret data))"

section \<open>Charts of sets\<close>

definition blockSizeChart :: "('f, 'b) maker" where
  "blockSizeChart env c bin axis rangeOpt =
    (let seed = binAxisSeed bin axis
     in case bin of
          BlockBin \<Rightarrow>
            (case axis of
               HeightAxis \<Rightarrow> encode env [(sizeKey, Uints (zBlockSize (Blocks c)))] seed
             | TimeAxis \<Rightarrow> encode env [(timeKey, Uints (zTime (Blocks c))),
                   (sizeKey, Uints (zBlockSize (Blocks c)))] seed)
        | DayBin \<Rightarrow>
            (case axis of
               HeightAxis \<Rightarrow> encode env [(heightKey, Uints (zHeight (Days c))),
                   (sizeKey, Uints (zBlockSize (Days c)))] seed
             | TimeAxis \<Rightarrow> encode env [(timeKey, Uints (zTime (Days c))),
                   (sizeKey, Uints (zBlockSize (Days c)))] seed)
        | WindowBin \<Rightarrow> Fail InvalidBinErr)"

definition blockchainSizeChart :: "('f, 'b) maker" where
  "blockchainSizeChart env c bin axis rangeOpt =
    (let seed = binAxisSeed bin axis
     in case bin of
          BlockBin \<Rightarrow>
            (case axis of
               HeightAxis \<Rightarrow> encode env [(sizeKey, Uints (accumulate (zBlockSize (Blocks c))))] seed
             | TimeAxis \<Rightarrow> encode env [(timeKey, Uints (zTime (Blocks c))),
                   (sizeKey, Uints (accumulate (zBlockSize (Blocks c))))] seed)
        | DayBin \<Rightarrow>
            (case axis of
               HeightAxis \<Rightarrow> encode env [(heightKey, Uints (zHeight (Days c))),
                   (sizeKey, Uints (accumulate (zBlockSize (Days c))))] seed
             | TimeAxis \<Rightarrow> encode env [(timeKey, Uints (zTime (Days c))),
                   (sizeKey, Uints (accumulate (zBlockSize (Days c))))] seed)
        | WindowBin \<Rightarrow> Fail InvalidBinErr)"

definition chainWorkChart :: "('f, 'b) maker" where
  "chainWorkChart env c bin axis rangeOpt =
    (let seed = binAxisSeed bin axis
     in case bin of
          BlockBin \<Rightarrow>
            (case axis of
               HeightAxis \<Rightarrow> encode env [(workKey, Uints (zChainwork (Blocks c)))] seed
             | TimeAxis \<Rightarrow> encode env [(timeKey, Uints (zTime (Blocks c))),
                   (workKey, Uints (zChainwork (Blocks c)))] seed)
        | DayBin \<Rightarrow>
            (case axis of
               HeightAxis \<Rightarrow> encode env [(heightKey, Uints (zHeight (Days c))),
                   (workKey, Uints (zChainwork (Days c)))] seed
             | TimeAxis \<Rightarrow> encode env [(timeKey, Uints (zTime (Days c))),
                   (workKey, Uints (zChainwork (Days c)))] seed)
        | WindowBin \<Rightarrow> Fail InvalidBinErr)"

definition avgAgeDaysChart :: "('f, 'b) maker" where
  "avgAgeDaysChart env c bin axis rangeOpt =
    (let seed = binAxisSeed bin axis
     in case bin of
          BlockBin \<Rightarrow>
            (case axis of
               HeightAxis \<Rightarrow> encode env [(avgCoinAgeKey, Floats (zAvgCoinAge (Blocks c))),
                   (marketPriceKey, Floats (zMarketPrice (Blocks c)))] seed
             | TimeAxis \<Rightarrow> encode env [(timeKey, Uints (zTime (Blocks c))),
                   (avgCoinAgeKey, Floats (zAvgCoinAge (Blocks c))),
                   (marketPriceKey, Floats (zMarketPrice (Blocks c)))] seed)
        | DayBin \<Rightarrow>
            (case axis of
               HeightAxis \<Rightarrow> encode env [(heightKey, Uints (zHeight (Days c))),
                   (avgCoinAgeKey, Floats (zAvgCoinAge (Days c))),
                   (marketPriceKey, Floats (zMarketPrice (Days c)))] seed
             | TimeAxis \<Rightarrow> encode env [(timeKey, Uints (zTime (Days c))),
                   (avgCoinAgeKey, Floats (zAvgCoinAge (Days c))),
                   (marketPriceKey, Floats (zMarketPrice (Days c)))] seed)
        | WindowBin \<Rightarrow> Fail InvalidBinErr)"

definition coinDaysDestroyed :: "('f, 'b) maker" where
  "coinDaysDestroyed env c bin axis rangeOpt =
    (let seed = binAxisSeed bin axis
     in case bin of
          BlockBin \<Rightarrow>
            (case axis of
               HeightAxis \<Rightarrow> encode env [(cddKey, Floats (zCoinDaysDestroyed (Blocks c))),
                   (marketPriceKey, Floats (zMarketPrice (Blocks c)))] seed
             | TimeAxis \<Rightarrow> encode env [(timeKey, Uints (zTime (Blocks c))),
                   (cddKey, Floats (zCoinDaysDestroyed (Blocks c))),
                   (marketPriceKey, Floats (zMarketPrice (Blocks c)))] seed)
        | DayBin \<Rightarrow>
            (case axis of
               HeightAxis \<Rightarrow> encode env [(heightKey, Uints (zHeight (Days c))),
                   (cddKey, Floats (zCoinDaysDestroyed (Days c))),
                   (marketPriceKey, Floats (zMarketPrice (Days c)))] seed
             | TimeAxis \<Rightarrow> encode env [(timeKey, Uints (zTime (Days c))),
                   (cddKey, Floats (zCoinDaysDestroyed (Days c))),
                   (marketPriceKey, Floats (zMarketPrice (Days c)))] seed)
        | WindowBin \<Rightarrow> Fail InvalidBinErr)"

definition coinAgeBands :: "('f, 'b) maker" where
  "coinAgeBands env c bin axis rangeOpt =
    (let seed = binAxisSeed bin axis
     in case bin of
          BlockBin \<Rightarrow>
            (case axis of
               HeightAxis \<Rightarrow> encode env [(ageBandKey, Bands (zCoinAgeBands (Blocks c))),
                   (marketPriceKey, Floats (zMarketPrice (Blocks c)))] seed
             | TimeAxis \<Rightarrow> encode env [(timeKey, Uints (zTime (Blocks c))),
                   (ageBandKey, Bands (zCoinAgeBands (Blocks c))),
                   (marketPriceKey, Floats (zMarketPrice (Blocks c)))] seed)
        | DayBin \<Rightarrow>
            (case axis of
               HeightAxis \<Rightarrow> encode env [(heightKey, Uints (zHeight (Days c))),
                   (ageBandKey, Bands (zCoinAgeBands (Days c))),
                   (marketPriceKey, Floats (zMarketPrice (Days c)))] seed
             | TimeAxis \<Rightarrow> encode env [(timeKey, Uints (zTime (Days c))),
                   (ageBandKey, Bands (zCoinAgeBands (Days c))),
                   (marketPriceKey, Floats (zMarketPrice (Days c)))] seed)
        | WindowBin \<Rightarrow> Fail InvalidBinErr)"

definition meanCoinAge :: "('f, 'b) maker" where
  "meanCoinAge env c bin axis rangeOpt =
    (let seed = binAxisSeed bin axis
     in case bin of
          BlockBin \<Rightarrow>
            (case axis of
               HeightAxis \<Rightarrow> encode env [(meanCoinAgeKey, Floats (zMeanCoinAge (Blocks c))),
                   (marketPriceKey, Floats (zMarketPrice (Blocks c)))] seed
             | TimeAxis \<Rightarrow> encode env [(timeKey, Uints (zTime (Blocks c))),
                   (meanCoinAgeKey, Floats (zMeanCoinAge (Blocks c))),
                   (marketPriceKey, Floats (zMarketPrice (Blocks c)))] seed)
        | DayBin \<Rightarrow>
            (case axis of
               HeightAxis \<Rightarrow> encode env [(heightKey, Uints (zHeight (Days c))),
                   (meanCoinAgeKey, Floats (zMeanCoinAge (Days c))),
                   (marketPriceKey, Floats (zMarketPrice (Days c)))] seed
             | TimeAxis \<Rightarrow> encode env [(timeKey, Uints (zTime (Days c))),
                   (meanCoinAgeKey, Floats (zMeanCoinAge (Days c))),
                   (marketPriceKey, Floats (zMarketPrice (Days c)))] seed)
        | WindowBin \<Rightarrow> Fail InvalidBinErr)"

definition totalCoinDays :: "('f, 'b) maker" where
  "totalCoinDays env c bin axis rangeOpt =
    (let seed = binAxisSeed bin axis
     in case bin of
          BlockBin \<Rightarrow>
            (case axis of
               HeightAxis \<Rightarrow> encode env [(totalCoinDaysKey, Floats (zTotalCoinDays (Blocks c))),
                   (marketPriceKey, Floats (zMarketPrice (Blocks c)))] seed
             | TimeAxis \<Rightarrow> encode env [(timeKey, Uints (zTime (Blocks c))),
                   (totalCoinDaysKey, Floats (zTotalCoinDays (Blocks c))),
                   (marketPriceKey, Floats (zMarketPrice (Blocks c)))] seed)
        | DayBin \<Rightarrow>
            (case axis of
               HeightAxis \<Rightarrow> encode env [(heightKey, Uints (zHeight (Days c))),
                   (totalCoinDaysKey, Floats (zTotalCoinDays (Days c))),
                   (marketPriceKey, Floats (zMarketPrice (Days c)))] seed
             | TimeAxis \<Rightarrow> encode env [(timeKey, Uints (zTime (Days c))),
                   (totalCoinDaysKey, Floats (zTotalCoinDays (Days c))),
                   (marketPriceKey, Floats (zMarketPrice (Days c)))] seed)
        | WindowBin \<Rightarrow> Fail InvalidBinErr)"

definition coinSupplyChart :: "('f, 'b) maker" where
  "coinSupplyChart env c bin axis rangeOpt =
    (let seed = binAxisSeed bin axis
     in case bin of
          BlockBin \<Rightarrow>
            (case axis of
               HeightAxis \<Rightarrow> encode env [(supplyKey, Uints (accumulate (zNewAtoms (Blocks c)))),
                   (anonymitySetKey, Uints (zAnonymitySet (Blocks c)))] seed
             | TimeAxis \<Rightarrow> encode env [(timeKey, Uints (zTime (Blocks c))),
                   (supplyKey, Uints (accumulate (zNewAtoms (Blocks c)))),
                   (anonymitySetKey, Uints (zAnonymitySet (Blocks c)))] seed)
        | DayBin \<Rightarrow>
            (case axis of
               HeightAxis \<Rightarrow> encode env [(heightKey, Uints (zHeight (Days c))),
                   (supplyKey, Uints (accumulate (zNewAtoms (Days c)))),
                   (anonymitySetKey, Uints (zAnonymitySet (Days c)))] seed
             | TimeAxis \<Rightarrow> encode env [(timeKey, Uints (zTime (Days c))),
                   (supplyKey, Uints (accumulate (zNewAtoms (Days c)))),
                   (anonymitySetKey, Uints (zAnonymitySet (Days c))),
                   (heightKey, Uints (zHeight (Days c)))] seed)
        | WindowBin \<Rightarrow> Fail InvalidBinErr)"

definition txCountChart :: "('f, 'b) maker" where
  "txCountChart env c bin axis rangeOpt =
    (let seed = binAxisSeed bin axis
     in case bin of
          BlockBin \<Rightarrow>
            (case axis of
               HeightAxis \<Rightarrow> encode env [(countKey, Uints (zTxCount (Blocks c)))] seed
             | TimeAxis \<Rightarrow> encode env [(timeKey, Uints (zTime (Blocks c))),
                   (countKey, Uints (zTxCount (Blocks c)))] seed)
        | DayBin \<Rightarrow>
            (case axis of
               HeightAxis \<Rightarrow> encode env [(heightKey, Uints (zHeight (Days c))),
                   (countKey, Uints (zTxCount (Days c)))] seed
             | TimeAxis \<Rightarrow> encode env [(timeKey, Uints (zTime (Days c))),
                   (countKey, Uints (zTxCount (Days c)))] seed)
        | WindowBin \<Rightarrow> Fail InvalidBinErr)"

definition feesChart :: "('f, 'b) maker" where
  "feesChart env c bin axis rangeOpt =
    (let seed = binAxisSeed bin axis
     in case bin of
          BlockBin \<Rightarrow>
            (case axis of
               HeightAxis \<Rightarrow> encode env [(feesKey, Uints (zFees (Blocks c)))] seed
             | TimeAxis \<Rightarrow> encode env [(timeKey, Uints (zTime (Blocks c))),
                   (feesKey, Uints (zFees (Blocks c)))] seed)
        | DayBin \<Rightarrow>
            (case axis of
               HeightAxis \<Rightarrow> encode env [(heightKey, Uints (zHeight (Days c))),
                   (feesKey, Uints (zFees (Days c)))] seed
             | TimeAxis \<Rightarrow> encode env [(timeKey, Uints (zTime (Days c))),
                   (feesKey, Uints (zFees (Days c)))] seed)
        | WindowBin \<Rightarrow> Fail InvalidBinErr)"

definition anonymitySetChart :: "('f, 'b) maker" where
  "anonymitySetChart env c bin axis rangeOpt =
    (let seed = binAxisSeed bin axis
     in case bin of
          BlockBin \<Rightarrow>
            (case axis of
               HeightAxis \<Rightarrow> encode env [(heightKey, Uints (zHeight (Blocks c))),
                   (anonymitySetKey, Uints (zTotalMixed (Blocks c)))] seed
             | TimeAxis \<Rightarrow> encode env [(timeKey, Uints (zTime (Blocks c))),
                   (anonymitySetKey, Uints (zTotalMixed (Blocks c)))] seed)
        | DayBin \<Rightarrow>
            (case axis of
               HeightAxis \<Rightarrow> encode env [(heightKey, Uints (zHeight (Days c))),
                   (anonymitySetKey, Uints (zTotalMixed (Days c)))] seed
             | TimeAxis \<Rightarrow> encode env [(timeKey, Uints (zTime (Days c))),
                   (anonymitySetKey, Uints (zTotalMixed (Days c)))] seed)
        | WindowBin \<Rightarrow> Fail InvalidBinErr)"

definition ticketPoolSizeChart :: "('f, 'b) maker" where
  "ticketPoolSizeChart env c bin axis rangeOpt =
    (let seed = binAxisSeed bin axis
     in case bin of
          BlockBin \<Rightarrow>
            (case axis of
               HeightAxis \<Rightarrow> encode env [(countKey, Uints (zPoolSize (Blocks c)))] seed
             | TimeAxis \<Rightarrow> encode env [(timeKey, Uints (zTime (Blocks c))),
                   (countKey, Uints (zPoolSize (Blocks c)))] seed)
        | DayBin \<Rightarrow>
            (case axis of
               HeightAxis \<Rightarrow> encode env [(heightKey, Uints (zHeight (Days c))),
                   (countKey, Uints (zPoolSize (Days c)))] seed
             | TimeAxis \<Rightarrow> encode env [(timeKey, Uints (zTime (Days c))),
                   (countKey, Uints (zPoolSize (Days c)))] seed)
        | WindowBin \<Rightarrow> Fail InvalidBinErr)"

definition poolValueChart :: "('f, 'b) maker" where
  "poolValueChart env c bin axis rangeOpt =
    (let seed = binAxisSeed bin axis
     in case bin of
          BlockBin \<Rightarrow>
            (case axis of
               HeightAxis \<Rightarrow> encode env [(poolValKey, Uints (zPoolValue (Blocks c)))] seed
             | TimeAxis \<Rightarrow> encode env [(timeKey, Uints (zTime (Blocks c))),
                   (poolValKey, Uints (zPoolValue (Blocks c)))] seed)
        | DayBin \<Rightarrow>
            (case axis of
               HeightAxis \<Rightarrow> encode env [(heightKey, Uints (zHeight (Days c))),
                   (poolValKey, Uints (zPoolValue (Days c)))] seed
             | TimeAxis \<Rightarrow> encode env [(timeKey, Uints (zTime (Days c))),
                   (poolValKey, Uints (zPoolValue (Days c)))] seed)
        | WindowBin \<Rightarrow> Fail InvalidBinErr)"

definition stakedCoinsChart :: "('f, 'b) maker" where
  "stakedCoinsChart env c bin axis rangeOpt =
    (let seed = binAxisSeed bin axis
     in case bin of
          BlockBin \<Rightarrow>
            (case axis of
               HeightAxis \<Rightarrow> encode env [(circulationKey, Uints (accumulate (zNewAtoms (Blocks c)))),
                   (poolValKey, Uints (zPoolValue (Blocks c)))] seed
             | TimeAxis \<Rightarrow> encode env [(timeKey, Uints (zTime (Blocks c))),
                   (circulationKey, Uints (accumulate (zNewAtoms (Blocks c)))),
                   (poolValKey, Uints (zPoolValue (Blocks c)))] seed)
        | DayBin \<Rightarrow>
            (case axis of
               HeightAxis \<Rightarrow> encode env [(heightKey, Uints (zHeight (Days c))),
                   (circulationKey, Uints (accumulate (zNewAtoms (Days c)))),
                   (poolValKey, Uints (zPoolValue (Days c)))] seed
             | TimeAxis \<Rightarrow> encode env [(timeKey, Uints (zTime (Days c))),
                   (circulationKey, Uints (accumulate (zNewAtoms (Days c)))),
                   (poolValKey, Uints (zPoolValue (Days c)))] seed)
        | WindowBin \<Rightarrow> Fail InvalidBinErr)"


section \<open>Times between blocks\<close>

definition durationBTWChart :: "('f, 'b) maker" where
  "durationBTWChart env c bin axis rangeOpt =
    (let seed = binAxisSeed bin axis
     in case bin of
          BlockBin \<Rightarrow>
            (case blockTimes (zTime (Blocks c)) of (timesOut, diffs) \<Rightarrow>
               (case axis of
                  HeightAxis \<Rightarrow> encode env [(durationKey, Uints diffs)] seed
                | TimeAxis \<Rightarrow> encode env [(timeKey, Uints timesOut), (durationKey, Uints diffs)] seed))
        | DayBin \<Rightarrow>
            (case axis of
               HeightAxis \<Rightarrow>
                 if length (zHeight (Days c)) < 2 then Fail TooFewDayHeights
                 else
                   (case avgBlockTimes (zTime (Days c)) (zTime (Blocks c)) of (_, diffs) \<Rightarrow>
                      encode env [(heightKey, Uints (take (length (zHeight (Days c)) - 1) (zHeight (Days c)))),
                        (durationKey, Uints diffs)] seed)
             | TimeAxis \<Rightarrow>
                 (case avgBlockTimes (zTime (Days c)) (zTime (Blocks c)) of (timesOut, diffs) \<Rightarrow>
                    encode env [(timeKey, Uints timesOut), (durationKey, Uints diffs)] seed))
        | WindowBin \<Rightarrow> Fail InvalidBinErr)"

definition durationBTWCustom :: "'f ChartData \<Rightarrow> u64" where
  "durationBTWCustom c = calculateAvgBlockTime (zTime (Days c)) (zTime (Blocks c))"

section \<open>Hash rates\<close>

definition HashrateAvgLength :: nat where
  "HashrateAvgLength = 120"

text \<open>The loop over the block times; \<open>None\<close> is an index out of range.\<close>

fun hashrate_loop :: "('f, 'b) chart_env \<Rightarrow> ChartUints \<Rightarrow> 'f ChartFloats \<Rightarrow> nat \<Rightarrow> ChartUints \<Rightarrow>
    (ChartUints \<times> ChartUints) option" where
  "hashrate_loop env blockTime difficults i [] = Some ([], [])"
| "hashrate_loop env blockTime difficults i (t # ts) =
    (if i < HashrateAvgLength then hashrate_loop env blockTime difficults (Suc i) ts
     else
       (let pts = snd (blockTimes (subslice blockTime (i - HashrateAvgLength) i));
            timeAvg = uints_Avg pts 0 (length pts)
        in case idx difficults (int i) of
             None \<Rightarrow> None
           | Some diff \<Rightarrow>
               map_option (\<lambda>(timesOut, rates). (t # timesOut, rateOf env diff timeAvg # rates))
                 (hashrate_loop env blockTime difficults (Suc i) ts)))"

definition blake3BlocksHashrateHandler :: "('f, 'b) chart_env \<Rightarrow> ChartUints \<Rightarrow> 'f ChartFloats \<Rightarrow>
    (ChartUints \<times> ChartUints) option" where
  "blake3BlocksHashrateHandler env blockTime difficults =
    (let hrLen = int (length difficults) - int HashrateAvgLength
     in if hrLen \<le> 0 then Some ([], []) else hashrate_loop env blockTime difficults 0 blockTime)"

definition isAll :: "string \<Rightarrow> bool" where
  "isAll rangeOpt \<longleftrightarrow> rangeOpt = ''all'' \<or> rangeOpt = ''''"

text \<open>\<open>xs[:k]\<close> and \<open>xs[k:]\<close>.\<close>

definition slice_to :: "nat \<Rightarrow> 'a list \<Rightarrow> 'a list option" where
  "slice_to k xs = (if k \<le> length xs then Some (take k xs) else None)"

definition slice_from :: "nat \<Rightarrow> 'a list \<Rightarrow> 'a list option" where
  "slice_from k xs = (if k \<le> length xs then Some (drop k xs) else None)"

text \<open>The options of the range are exclusive, and any other string selects nothing.\<close>

definition hashrate :: "('f, 'b) chart_env \<Rightarrow> ChartUints \<Rightarrow> 'f ChartFloats \<Rightarrow> string \<Rightarrow>
    (ChartUints \<times> ChartUints) option" where
  "hashrate env blockTime difficults rangeOpt =
    (let hrLen = int (length difficults) - int HashrateAvgLength
     in if hrLen \<le> 0 then Some ([], [])
     else
       (let indexSplitBlockTime = find_offset (blake3Hash env) 0 blockTime
        in if isAll rangeOpt then blake3BlocksHashrateHandler env blockTime difficults
           else if rangeOpt = ''before''
           then (case slice_to indexSplitBlockTime difficults of
               None \<Rightarrow> None
             | Some ds \<Rightarrow> blake3BlocksHashrateHandler env (take indexSplitBlockTime blockTime) ds)
           else if rangeOpt = ''after''
           then (case slice_from indexSplitBlockTime difficults of
               None \<Rightarrow> None
             | Some ds \<Rightarrow> blake3BlocksHashrateHandler env (drop indexSplitBlockTime blockTime) ds)
           else Some ([], [])))"

text \<open>
  The loop over the block times that makes a rate per day. A block after the day at hand closes it with
  the averages over its blocks but the last one; the block itself belongs to the next day.
\<close>

definition day_rate :: "('f, 'b) chart_env \<Rightarrow> ChartUints \<Rightarrow> 'f ChartFloats \<Rightarrow> nat \<Rightarrow> nat \<Rightarrow> u64 option" where
  "day_rate env blockTime difficults startBlockTimeIndex curHandlerIndex =
    (if curHandlerIndex \<ge> startBlockTimeIndex
     then
       (let pts = snd (blockTimes (subslice blockTime startBlockTimeIndex curHandlerIndex));
            avgTimeDiff = uints_Avg pts 0 (length pts)
        in if length difficults < curHandlerIndex then None
           else
             (let diffArray = subslice difficults startBlockTimeIndex curHandlerIndex;
                  avgDifficulty = floats_Avg (float env) diffArray 0 (length diffArray)
              in Some (if isZero env avgDifficulty \<or> avgTimeDiff = 0 then 0 else rateOf env avgDifficulty avgTimeDiff)))
     else Some 0)"

fun daily_loop :: "('f, 'b) chart_env \<Rightarrow> ChartUints \<Rightarrow> 'f ChartFloats \<Rightarrow> ChartUints \<Rightarrow>
    u64 \<Rightarrow> nat \<Rightarrow> nat \<Rightarrow> nat \<Rightarrow> nat \<Rightarrow> ChartUints \<Rightarrow> (ChartUints \<times> ChartUints) option" where
  "daily_loop env dayTime difficults blockTime curDay curDayIndex startBlockTimeIndex curHandlerIndex i [] =
    Some ([], [])"
| "daily_loop env dayTime difficults blockTime curDay curDayIndex startBlockTimeIndex curHandlerIndex i (t # ts) =
    (if t < dayStart env curDay
     then daily_loop env dayTime difficults blockTime curDay curDayIndex startBlockTimeIndex curHandlerIndex (Suc i) ts
     else if t \<le> dayEnd env curDay
     then daily_loop env dayTime difficults blockTime curDay curDayIndex startBlockTimeIndex i (Suc i) ts
     else
       (case day_rate env blockTime difficults startBlockTimeIndex curHandlerIndex of
          None \<Rightarrow> None
        | Some rate \<Rightarrow>
            map_option (\<lambda>(timesOut, rates). (curDay # timesOut, rate # rates))
              (if Suc curDayIndex = length dayTime then Some ([], [])
               else daily_loop env dayTime difficults blockTime (dayTime ! Suc curDayIndex) (Suc curDayIndex)
                      i curHandlerIndex (Suc i) ts)))"

definition dayilyHashrateBlake3Handler :: "('f, 'b) chart_env \<Rightarrow> ChartUints \<Rightarrow> 'f ChartFloats \<Rightarrow> ChartUints \<Rightarrow>
    (ChartUints \<times> ChartUints) option" where
  "dayilyHashrateBlake3Handler env dayTime difficults blockTime =
    (if dayTime = [] \<or> difficults = [] \<or> blockTime = [] then Some ([], [])
     else daily_loop env dayTime difficults blockTime (hd dayTime) 0 0 0 0 blockTime)"

definition dailyHashrate :: "('f, 'b) chart_env \<Rightarrow> ChartUints \<Rightarrow> 'f ChartFloats \<Rightarrow> ChartUints \<Rightarrow> string \<Rightarrow>
    (u64 \<times> ChartUints \<times> ChartUints) option" where
  "dailyHashrate env dayTime difficults blockTime rangeOpt =
    (if dayTime = [] \<or> difficults = [] \<or> blockTime = [] then Some (1, [], [])
     else
       (let daySplitIndex = find_offset (blake3Hash env) 0 dayTime;
            indexSplitBlockTime = find_offset (dayTime ! daySplitIndex) 0 blockTime
        in if isAll rangeOpt
           then map_option (Pair 1) (dayilyHashrateBlake3Handler env dayTime difficults blockTime)
           else if rangeOpt = ''before''
           then (case slice_to indexSplitBlockTime difficults of
               None \<Rightarrow> None
             | Some ds \<Rightarrow> map_option (Pair 1) (dayilyHashrateBlake3Handler env (take daySplitIndex dayTime) ds
                 (take indexSplitBlockTime blockTime)))
           else if rangeOpt = ''after''
           then (case slice_from indexSplitBlockTime difficults of
               None \<Rightarrow> None
             | Some ds \<Rightarrow> map_option (Pair (1 + of_nat indexSplitBlockTime))
                 (dayilyHashrateBlake3Handler env (drop daySplitIndex dayTime) ds
                   (drop indexSplitBlockTime blockTime)))
           else Some (1, [], [])))"

definition hashRateChart :: "('f, 'b) maker" where
  "hashRateChart env c bin axis rangeOpt =
    (let seed = binAxisSeed bin axis
     in case bin of
          BlockBin \<Rightarrow>
            if length (zTime (Blocks c)) < 2 then Fail NotEnoughBlocks
            else
              (let seed' = mput offsetKey (JNumber (int HashrateAvgLength)) seed
               in case hashrate env (zTime (Blocks c)) (zDifficulty (Blocks c)) rangeOpt of
                    None \<Rightarrow> Panics
                  | Some (timesOut, rates) \<Rightarrow>
                      (case axis of
                         HeightAxis \<Rightarrow>
                           (let startHeight =
                              (if rangeOpt = ''after'' then int (length (zTime (Blocks c))) - int (length timesOut) else 0)
                            in encode env [(heightKey, Uints (map (\<lambda>i. of_int (startHeight + int i)) [0..<length timesOut])),
                                 (rateKey, Uints rates)] seed')
                       | TimeAxis \<Rightarrow> encode env [(timeKey, Uints timesOut), (rateKey, Uints rates)] seed'))
        | DayBin \<Rightarrow>
            if length (zTime (Days c)) < 2 then Fail NotEnoughDays
            else
              (case dailyHashrate env (zTime (Days c)) (zDifficulty (Blocks c)) (zTime (Blocks c)) rangeOpt of
                 None \<Rightarrow> Panics
               | Some (offset, timesOut, rates) \<Rightarrow>
                   (let seed' = mput offsetKey (JNumber (uint offset)) seed
                    in case axis of
                         HeightAxis \<Rightarrow>
                           (case slice_from 1 (zHeight (Days c)) of
                              None \<Rightarrow> Panics
                            | Some heights \<Rightarrow> encode env [(heightKey, Uints heights), (rateKey, Uints rates)] seed')
                       | TimeAxis \<Rightarrow> encode env [(timeKey, Uints timesOut), (rateKey, Uints rates)] seed'))
        | WindowBin \<Rightarrow> Fail InvalidBinErr)"

section \<open>Charts of windows\<close>

definition powDifficultyChart :: "('f, 'b) maker" where
  "powDifficultyChart env c bin axis rangeOpt =
    (let indexSplitBlockTime = find_offset (blake3Window env) 0 (wTime (Windows c));
         isBefore = (rangeOpt = ''before'');
         isAfter = (rangeOpt = ''after'')
     in if (isAll rangeOpt \<or> isBefore \<or> isAfter) \<and> length (wPowDiff (Windows c)) < indexSplitBlockTime then Panics
        else
          (let firstTimeArr = (if isAll rangeOpt \<or> isBefore then take indexSplitBlockTime (wTime (Windows c)) else []);
               firstPowDiffArr = (if isAll rangeOpt \<or> isBefore then take indexSplitBlockTime (wPowDiff (Windows c)) else []);
               afterTimeArr = (if isAll rangeOpt \<or> isAfter then drop indexSplitBlockTime (wTime (Windows c)) else []);
               afterPowDiffArr = (if isAll rangeOpt \<or> isAfter then drop indexSplitBlockTime (wPowDiff (Windows c)) else []);
               powDiff = firstPowDiffArr @ afterPowDiffArr;
               offset = (if isAfter then of_nat indexSplitBlockTime * of_int (sint (DiffInterval env)) else 1 :: u64);
               seed = [(windowKey, JNumber (sint (DiffInterval env)))]
           in case axis of
                HeightAxis \<Rightarrow> encode env [(diffKey, Floats powDiff)] (mput offsetKey (JNumber (uint offset)) seed)
              | TimeAxis \<Rightarrow> encode env [(diffKey, Floats powDiff), (timeKey, Uints (firstTimeArr @ afterTimeArr))] seed))"

definition ticketPriceChart :: "('f, 'b) maker" where
  "ticketPriceChart env c bin axis rangeOpt =
    (let seed = [(windowKey, JNumber (sint (DiffInterval env)))]
     in case axis of
          HeightAxis \<Rightarrow> encode env [(priceKey, Uints (wTicketPrice (Windows c))),
                   (countKey, Uints (wStakeCount (Windows c)))] seed
        | TimeAxis \<Rightarrow> encode env [(timeKey, Uints (wTime (Windows c))),
                   (priceKey, Uints (wTicketPrice (Windows c))),
                   (countKey, Uints (wStakeCount (Windows c)))] seed)"

text \<open>
  The division of two \<open>int32\<close> panics when the interval is zero and truncates; a negative number of
  windows cannot index a set.
\<close>

definition missedVotesChart :: "('f, 'b) maker" where
  "missedVotesChart env c bin axis rangeOpt =
    (if DiffInterval env = 0 then Panics
     else
       (let windows = sint (of_int (trunc_div (sint (StartPOS env)) (sint (DiffInterval env))) :: i32);
            prestakeWindows = (if windows \<ge> int (length (wMissedVotes (Windows c))) \<or>
                windows \<ge> int (length (wTime (Windows c))) then 0 else windows);
            seed = [(windowKey, JNumber (sint (DiffInterval env))), (offsetKey, JNumber prestakeWindows)]
        in if prestakeWindows < 0 then Panics
           else
             (case axis of
                HeightAxis \<Rightarrow> encode env [(missedKey, Uints (drop (nat prestakeWindows) (wMissedVotes (Windows c))))] seed
              | TimeAxis \<Rightarrow> encode env [(timeKey, Uints (drop (nat prestakeWindows) (wTime (Windows c)))),
                   (missedKey, Uints (drop (nat prestakeWindows) (wMissedVotes (Windows c))))] seed)))"

section \<open>The table\<close>

definition chartMakers :: "(string \<times> ('f, 'b) maker) list" where
  "chartMakers =
    [(''block-size'', blockSizeChart),
     (''blockchain-size'', blockchainSizeChart),
     (''chainwork'', chainWorkChart),
     (''coin-supply'', coinSupplyChart),
     (''duration-btw-blocks'', durationBTWChart),
     (''hashrate'', hashRateChart),
     (''pow-difficulty'', powDifficultyChart),
     (''ticket-price'', ticketPriceChart),
     (''tx-count'', txCountChart),
     (''fees'', feesChart),
     (''privacy-participation'', anonymitySetChart),
     (''ticket-pool-size'', ticketPoolSizeChart),
     (''ticket-pool-value'', poolValueChart),
     (''missed-votes'', missedVotesChart),
     (''stake-participation'', stakedCoinsChart),
     (''avg-age-days'', avgAgeDaysChart),
     (''coin-days-destroyed'', coinDaysDestroyed),
     (''coin-age-bands'', coinAgeBands),
     (''mean-coin-age'', meanCoinAge),
     (''total-coin-days'', totalCoinDays)]"

definition customMakers :: "(string \<times> ('f ChartData \<Rightarrow> u64)) list" where
  "customMakers = [(''duration-btw-blocks'', durationBTWCustom)]"

end
