(* ===== verification/ChartServe.thy ===== *)
theory ChartServe
  imports ChartMakers
begin

text \<open>
  Serving and updating the charts (\<open>db/cache/charts.go\<close>): the cache of encoded charts, which is valid for
  as long as the identifier of the sets of its bin does not change, the loop over the updaters, the tips
  that the updaters ask for, and the data that is saved to a file and read back.
\<close>

section \<open>The cache of encoded charts\<close>

text \<open>\<open>ccData\<close> is nil in the entry of a custom value.\<close>

record 'b cachedChart =
  ccID :: u64
  ccData :: "'b option"
  ccInt :: u64

record ('f, 'b) chart_server =
  csData :: "'f ChartData"
  csCache :: "(string, 'b cachedChart) gomap"

definition cacheKey :: "string \<Rightarrow> binLevel \<Rightarrow> axisType \<Rightarrow> string \<Rightarrow> string" where
  "cacheKey chartID bin axis rangeOpt =
    (let key = chartID @ ''-'' @ binName bin @ ''-'' @ axisName axis
     in if rangeOpt \<noteq> [] then key @ ''-'' @ rangeOpt else key)"

definition customCacheKey :: "string \<Rightarrow> string" where
  "customCacheKey chartID = chartID @ ''-custome''"

fun cacheID :: "binLevel \<Rightarrow> 'f ChartData \<Rightarrow> u64" where
  "cacheID BlockBin c = zcacheID (Blocks c)"
| "cacheID DayBin c = zcacheID (Days c)"
| "cacheID WindowBin c = wcacheID (Windows c)"

definition getCache :: "string \<Rightarrow> binLevel \<Rightarrow> axisType \<Rightarrow> string \<Rightarrow> ('f, 'b) chart_server \<Rightarrow>
    'b cachedChart option \<times> u64" where
  "getCache chartID bin axis rangeOpt s =
    (mget (csCache s) (cacheKey chartID bin axis rangeOpt), cacheID bin (csData s))"

definition getCustomCache :: "string \<Rightarrow> ('f, 'b) chart_server \<Rightarrow> 'b cachedChart option" where
  "getCustomCache chartID s = mget (csCache s) (customCacheKey chartID)"

definition cacheChart :: "string \<Rightarrow> binLevel \<Rightarrow> axisType \<Rightarrow> string \<Rightarrow> 'b \<Rightarrow>
    ('f, 'b) chart_server \<Rightarrow> ('f, 'b) chart_server" where
  "cacheChart chartID bin axis rangeOpt data s =
    s\<lparr>csCache := mput (cacheKey chartID bin axis rangeOpt)
       \<lparr>ccID = cacheID bin (csData s), ccData = Some data, ccInt = 0\<rparr> (csCache s)\<rparr>"

definition cacheCustomIntValue :: "string \<Rightarrow> u64 \<Rightarrow> ('f, 'b) chart_server \<Rightarrow> ('f, 'b) chart_server" where
  "cacheCustomIntValue chartID data s =
    s\<lparr>csCache := mput (customCacheKey chartID) \<lparr>ccID = 0, ccData = None, ccInt = data\<rparr> (csCache s)\<rparr>"

text \<open>
  \<open>Chart\<close> looks into the cache, makes the chart, and stores it in three critical sections; the data may
  change between them. \<open>meanwhile\<close> is what happens to the server before the chart is stored; \<open>id\<close> when
  nothing does. The data of a cached entry may be nil.
\<close>

definition Chart_with :: "('f, 'b) chart_env \<Rightarrow> (('f, 'b) chart_server \<Rightarrow> ('f, 'b) chart_server) \<Rightarrow>
    string \<Rightarrow> string \<Rightarrow> string \<Rightarrow> string \<Rightarrow>
    ('f, 'b) chart_server \<Rightarrow> ('f, 'b) chart_server \<times> ('b option, maker_error) go_result" where
  "Chart_with env meanwhile chartID binString axisString rangeString s =
    (let bin = ParseBin (if isWindowBin chartID then binName WindowBin else binString);
         axis = ParseAxis axisString;
         make =
           (case map_of chartMakers chartID of
              None \<Rightarrow> (s, Fail UnknownChartErr)
            | Some maker \<Rightarrow>
                (case maker env (csData s) bin axis rangeString of
                   Ret data \<Rightarrow> (cacheChart chartID bin axis rangeString data (meanwhile s), Ret (Some data))
                 | Fail e \<Rightarrow> (s, Fail e)
                 | Panics \<Rightarrow> (s, Panics)))
     in case getCache chartID bin axis rangeString s of
          (Some entry, current) \<Rightarrow> if ccID entry = current then (s, Ret (ccData entry)) else make
        | (None, _) \<Rightarrow> make)"

definition Chart :: "('f, 'b) chart_env \<Rightarrow> string \<Rightarrow> string \<Rightarrow> string \<Rightarrow> string \<Rightarrow>
    ('f, 'b) chart_server \<Rightarrow> ('f, 'b) chart_server \<times> ('b option, maker_error) go_result" where
  "Chart env = Chart_with env id"

definition GetAverageBlockTime :: "string \<Rightarrow> ('f, 'b) chart_server \<Rightarrow>
    ('f, 'b) chart_server \<times> (u64, maker_error) go_result" where
  "GetAverageBlockTime chartID s =
    (case getCustomCache chartID s of
       Some entry \<Rightarrow> (s, Ret (ccInt entry))
     | None \<Rightarrow>
         (case map_of customMakers chartID of
            None \<Rightarrow> (s, Fail UnknownChartErr)
          | Some maker \<Rightarrow>
              (let data = maker (csData s) in (cacheCustomIntValue chartID data s, Ret data))))"

section \<open>Updating\<close>

definition stateID :: "'f ChartData \<Rightarrow> u64" where
  "stateID c =
    (let timeLen = length (zTime (Blocks c)) in if timeLen > 0 then zTime (Blocks c) ! (timeLen - 1) else 0)"

definition validState :: "u64 \<Rightarrow> 'f ChartData \<Rightarrow> bool" where
  "validState sid c \<longleftrightarrow> stateID c = sid"

text \<open>
  An updater queries the database for what the charts need and appends the rows; both can fail, and the
  appender may have appended a part by then. The tag is for messages.
\<close>

record ('f, 'rows) updater =
  Tag :: string
  Fetcher :: "'f ChartData \<Rightarrow> string + 'rows"
  Appender :: "'f ChartData \<Rightarrow> 'rows \<Rightarrow> 'f ChartData \<times> string option"

datatype update_error =
    FetchFailed string string
  | StateChanged string
  | AppendFailed string string
  | LengthenFailed chart_error

text \<open>
  The query runs without the lock of the data: every updater comes with what other goroutines do to the
  charts during its query.
\<close>

fun run_updaters :: "(('f, 'rows) updater \<times> ('f ChartData \<Rightarrow> 'f ChartData)) list \<Rightarrow>
    'f ChartData \<Rightarrow> 'f ChartData \<times> update_error option" where
  "run_updaters [] c = (c, None)"
| "run_updaters ((u, meanwhile) # us) c =
    (let sid = stateID c;
         c1 = meanwhile c
     in case Fetcher u c of
          Inl e \<Rightarrow> (c1, Some (FetchFailed (Tag u) e))
        | Inr rows \<Rightarrow>
            if \<not> validState sid c1 then (c1, Some (StateChanged (Tag u)))
            else
              (case Appender u c1 rows of
                 (c2, Some e) \<Rightarrow> (c2, Some (AppendFailed (Tag u) e))
               | (c2, None) \<Rightarrow> run_updaters us c2))"

definition Update :: "'f float_ops \<Rightarrow> (('f, 'rows) updater \<times> ('f ChartData \<Rightarrow> 'f ChartData)) list \<Rightarrow>
    'f ChartData \<Rightarrow> 'f ChartData \<times> update_error option" where
  "Update ops us c =
    (case run_updaters us c of
       (c1, Some e) \<Rightarrow> (c1, Some e)
     | (c1, None) \<Rightarrow>
         (case Lengthen ops c1 of
            (c2, Err e) \<Rightarrow> (c2, Some (LengthenFailed e))
          | (c2, _) \<Rightarrow> (c2, None)))"

section \<open>Tips\<close>

text \<open>The lengths are converted to \<open>int32\<close>.\<close>

definition tip_of :: "'a list \<Rightarrow> i32" where
  "tip_of xs = of_nat (length xs) - 1"

definition charts_Height :: "'f ChartData \<Rightarrow> i32" where
  "charts_Height c = tip_of (zTime (Blocks c))"

definition FeesTip :: "'f ChartData \<Rightarrow> i32" where
  "FeesTip c = tip_of (zFees (Blocks c))"

definition TotalMixedTip :: "'f ChartData \<Rightarrow> i32" where
  "TotalMixedTip c = tip_of (zTotalMixed (Blocks c))"

definition CoinAgeTip :: "'f ChartData \<Rightarrow> i32" where
  "CoinAgeTip c = tip_of (zAvgCoinAge (Blocks c))"

definition CoinAgeBandsTip :: "'f ChartData \<Rightarrow> i32" where
  "CoinAgeBandsTip c = tip_of (zCoinAgeBands (Blocks c))"

definition McaSnapshotsTip :: "'f ChartData \<Rightarrow> i32" where
  "McaSnapshotsTip c = tip_of (zMeanCoinAge (Blocks c))"

definition AnonymitySetTip :: "'f ChartData \<Rightarrow> i32" where
  "AnonymitySetTip c = tip_of (zAnonymitySet (Blocks c))"

definition NewAtomsTip :: "'f ChartData \<Rightarrow> i32" where
  "NewAtomsTip c = tip_of (zNewAtoms (Blocks c))"

definition PoolSizeTip :: "'f ChartData \<Rightarrow> i32" where
  "PoolSizeTip c = tip_of (zPoolSize (Blocks c))"


definition TicketPriceTip :: "('f, 'b) chart_env \<Rightarrow> 'f ChartData \<Rightarrow> i32" where
  "TicketPriceTip env c = of_nat (length (wTicketPrice (Windows c))) * DiffInterval env - 1"

definition MissedVotesTip :: "('f, 'b) chart_env \<Rightarrow> 'f ChartData \<Rightarrow> i32" where
  "MissedVotesTip env c = of_nat (length (wMissedVotes (Windows c))) * DiffInterval env - 1"

definition AnonymitySet_of :: "'f ChartData \<Rightarrow> u64" where
  "AnonymitySet_of c =
    (let count = length (zAnonymitySet (Blocks c)) in if count = 0 then 0 else zAnonymitySet (Blocks c) ! (count - 1))"

definition LastMarketPriceTimeAndHeight :: "'f ChartData \<Rightarrow> u64 \<times> i32" where
  "LastMarketPriceTimeAndHeight c =
    (if length (zMarketPrice (Blocks c)) = 0 then (0, -1)
     else
       (let i = length (zMarketPrice (Blocks c)) - 1
        in if int (length (zHeight (Blocks c))) - 1 < int i \<or> int (length (zTime (Blocks c))) - 1 < int i
           then (0, -1)
           else (zTime (Blocks c) ! i, ucast (zHeight (Blocks c) ! i))))"

section \<open>The file\<close>

text \<open>What is saved: the sets per block and per window, with the fields that \<open>gobject\<close> fills.\<close>

record 'f ChartGobject =
  gHeight :: ChartUints
  gTime :: ChartUints
  gPoolSize :: ChartUints
  gPoolValue :: ChartUints
  gBlockSize :: ChartUints
  gTxCount :: ChartUints
  gNewAtoms :: ChartUints
  gChainwork :: ChartUints
  gDifficulty :: "'f ChartFloats"
  gFees :: ChartUints
  gTotalMixed :: ChartUints
  gAnonymitySet :: ChartUints
  gWindowTime :: ChartUints
  gPowDiff :: "'f ChartFloats"
  gTicketPrice :: ChartUints
  gStakeCount :: ChartUints
  gMissedVotes :: ChartUints
  gHashrate :: "'f ChartFloats"
  gCoinDaysDestroyed :: "'f ChartFloats"
  gAvgCoinAge :: "'f ChartFloats"
  gCoinAgeBands :: "'f AgeBandData list"
  gMeanCoinAge :: "'f ChartFloats"
  gTotalCoinDays :: "'f ChartFloats"
  gMarketPrice :: "'f ChartFloats"

definition gobject :: "'f ChartData \<Rightarrow> 'f ChartGobject" where
  "gobject c =
    \<lparr>gHeight = zHeight (Blocks c), gTime = zTime (Blocks c), gPoolSize = zPoolSize (Blocks c),
     gPoolValue = zPoolValue (Blocks c), gBlockSize = zBlockSize (Blocks c), gTxCount = zTxCount (Blocks c),
     gNewAtoms = zNewAtoms (Blocks c), gChainwork = zChainwork (Blocks c), gDifficulty = zDifficulty (Blocks c),
     gFees = zFees (Blocks c), gTotalMixed = zTotalMixed (Blocks c), gAnonymitySet = zAnonymitySet (Blocks c),
     gWindowTime = wTime (Windows c), gPowDiff = wPowDiff (Windows c), gTicketPrice = wTicketPrice (Windows c),
     gStakeCount = wStakeCount (Windows c), gMissedVotes = wMissedVotes (Windows c),
     gHashrate = zHashrate (Blocks c), gCoinDaysDestroyed = zCoinDaysDestroyed (Blocks c),
     gAvgCoinAge = zAvgCoinAge (Blocks c), gCoinAgeBands = zCoinAgeBands (Blocks c),
     gMeanCoinAge = zMeanCoinAge (Blocks c), gTotalCoinDays = zTotalCoinDays (Blocks c),
     gMarketPrice = zMarketPrice (Blocks c)\<rparr>"

definition restore :: "'f ChartGobject \<Rightarrow> 'f ChartData \<Rightarrow> 'f ChartData" where
  "restore g c =
    c\<lparr>Blocks := (Blocks c)
        \<lparr>zHeight := gHeight g, zTime := gTime g, zPoolSize := gPoolSize g, zPoolValue := gPoolValue g,
         zBlockSize := gBlockSize g, zTxCount := gTxCount g, zNewAtoms := gNewAtoms g,
         zChainwork := gChainwork g, zDifficulty := gDifficulty g, zFees := gFees g,
         zTotalMixed := gTotalMixed g, zAnonymitySet := gAnonymitySet g,
         zCoinDaysDestroyed := gCoinDaysDestroyed g, zAvgCoinAge := gAvgCoinAge g,
         zMeanCoinAge := gMeanCoinAge g, zCoinAgeBands := gCoinAgeBands g,
         zTotalCoinDays := gTotalCoinDays g, zMarketPrice := gMarketPrice g\<rparr>,
      Windows := (Windows c)
        \<lparr>wTime := gWindowTime g, wPowDiff := gPowDiff g, wTicketPrice := gTicketPrice g,
         wStakeCount := gStakeCount g, wMissedVotes := gMissedVotes g\<rparr>\<rparr>"

text \<open>
  \<open>readCacheFile\<close> once the file is decoded: a version or decoding error leaves the charts alone; when the
  sets cannot be lengthened they are all cleared.
\<close>

definition readCacheFile :: "'f float_ops \<Rightarrow> string \<Rightarrow> string + (string \<times> 'f ChartGobject) \<Rightarrow>
    'f ChartData \<Rightarrow> 'f ChartData \<times> string option" where
  "readCacheFile ops version file c =
    (case file of
       Inl e \<Rightarrow> (c, Some e)
     | Inr (v, g) \<Rightarrow>
         if v \<noteq> version then (c, Some v)
         else
           (case Lengthen ops (restore g c) of
              (c1, Err _) \<Rightarrow>
                (c1\<lparr>Blocks := Snip 0 (Blocks c1), Windows := window_Snip 0 (Windows c1),
                   Days := Snip 0 (Days c1)\<rparr>, None)
            | (c1, _) \<Rightarrow> (c1, None)))"

definition Load :: "'f float_ops \<Rightarrow> string \<Rightarrow> string + (string \<times> 'f ChartGobject) \<Rightarrow>
    (('f, 'rows) updater \<times> ('f ChartData \<Rightarrow> 'f ChartData)) list \<Rightarrow> 'f ChartData \<Rightarrow> 'f ChartData \<times> update_error option" where
  "Load ops version file us c = Update ops us (fst (readCacheFile ops version file c))"

end
