(* ===== verification/ChartServeContract.thy ===== *)
theory ChartServeContract
  imports ChartServe ChartsContract "HOL-Library.Sublist"
begin

text \<open>
  What serving and updating the charts guarantees: the keys of the cache are unambiguous for the known
  charts, a served chart is the one that the maker would make as long as the entries of the cache are
  fresh, which data can change without an entry losing its validity, the lengths of the encoded sets,
  when an update is abandoned, and what a restart restores.
\<close>

section \<open>Keys\<close>

definition chart_ids :: "string list" where
  "chart_ids =
    [''block-size'', ''blockchain-size'', ''chainwork'', ''coin-supply'', ''duration-btw-blocks'', ''hashrate'',
     ''pow-difficulty'', ''ticket-price'', ''tx-count'', ''fees'', ''privacy-participation'', ''ticket-pool-size'',
     ''ticket-pool-value'', ''missed-votes'', ''stake-participation'', ''avg-age-days'', ''coin-days-destroyed'',
     ''coin-age-bands'', ''mean-coin-age'', ''total-coin-days'']"

lemma chart_ids: "map fst chartMakers = chart_ids"
  by (simp add: chartMakers_def chart_ids_def)

lemma maker_id:
  fixes maker :: "('f, 'b) maker"
  assumes "map_of chartMakers chartID = Some maker"
  shows "chartID \<in> set chart_ids"
proof -
  have "chartID \<in> set (map fst (chartMakers :: (string \<times> ('f, 'b) maker) list))"
    using map_of_SomeD [OF assms] by force
  then show ?thesis
    by (simp only: chart_ids)
qed

text \<open>No name followed by the separator is the beginning of another one.\<close>

definition prefix_free :: "string list \<Rightarrow> bool" where
  "prefix_free xs \<longleftrightarrow> list_all (\<lambda>a. list_all (\<lambda>b. prefix a b \<longrightarrow> a = b) xs) xs"

lemma prefix_freeD:
  assumes "prefix_free xs" "a \<in> set xs" "b \<in> set xs" "a @ x = b @ y"
  shows "a = b \<and> x = y"
proof -
  have "prefix a b \<or> prefix b a"
    using assms(4) by (metis prefixI prefix_same_cases)
  then have "a = b"
    using assms(1-3) unfolding prefix_free_def list_all_iff by metis
  with assms(4) show ?thesis
    by simp
qed

lemma prefix_free_names:
  "prefix_free (map (\<lambda>i. i @ ''-'') chart_ids)"
  "prefix_free [''day-'', ''block-'', ''window-'']"
  "prefix_free [''height'', ''time'']"
  by (simp_all add: prefix_free_def chart_ids_def)

lemma cacheKey_inj:
  assumes "i \<in> set chart_ids" "j \<in> set chart_ids" "cacheKey i b a r = cacheKey j b' a' r'"
  shows "i = j \<and> b = b' \<and> a = a' \<and> r = r'"
proof -
  have key: "cacheKey i b a r
      = (i @ ''-'') @ (binName b @ ''-'') @ axisName a @ (if r \<noteq> [] then ''-'' @ r else [])" for i b a r
    by (simp add: cacheKey_def Let_def)
  have ids: "i @ ''-'' \<in> set (map (\<lambda>i. i @ ''-'') chart_ids)" "j @ ''-'' \<in> set (map (\<lambda>i. i @ ''-'') chart_ids)"
    using assms(1,2) by auto
  have bins: "binName b @ ''-'' \<in> set [''day-'', ''block-'', ''window-'']" for b
    by (cases b) simp_all
  have axes: "axisName a \<in> set [''height'', ''time'']" for a
    by (cases a) simp_all
  have 1: "i @ ''-'' = j @ ''-'' \<and> (binName b @ ''-'') @ axisName a @ (if r \<noteq> [] then ''-'' @ r else [])
      = (binName b' @ ''-'') @ axisName a' @ (if r' \<noteq> [] then ''-'' @ r' else [])"
    using prefix_freeD [OF prefix_free_names(1) ids] assms(3) unfolding key by blast
  then have 2: "binName b @ ''-'' = binName b' @ ''-'' \<and> axisName a @ (if r \<noteq> [] then ''-'' @ r else [])
      = axisName a' @ (if r' \<noteq> [] then ''-'' @ r' else [])"
    using prefix_freeD [OF prefix_free_names(2) bins bins] by blast
  then have 3: "axisName a = axisName a' \<and> (if r \<noteq> [] then ''-'' @ r else []) = (if r' \<noteq> [] then ''-'' @ r' else [])"
    using prefix_freeD [OF prefix_free_names(3) axes axes] by blast
  have "binName b = binName b'" "axisName a = axisName a'"
    using 2 3 by simp_all
  then have "b = b'" "a = a'"
    using parse_names by metis+
  with 1 3 show ?thesis
    by (simp split: if_splits)
qed

lemma custom_key: "cacheKey i b a r \<noteq> customCacheKey ''duration-btw-blocks''" if "i \<in> set chart_ids"
  using that by (cases b; cases a) (auto simp: chart_ids_def cacheKey_def customCacheKey_def Let_def)

section \<open>Fresh entries\<close>

text \<open>Every entry of a known chart that counts as valid holds what the maker makes of the data.\<close>

definition fresh :: "('f, 'b) chart_env \<Rightarrow> ('f, 'b) chart_server \<Rightarrow> bool" where
  "fresh env s \<longleftrightarrow>
    (\<forall>i maker b a r e. map_of chartMakers i = Some maker \<and> mget (csCache s) (cacheKey i b a r) = Some e \<and>
       ccID e = cacheID b (csData s) \<longrightarrow>
       (\<exists>data. ccData e = Some data \<and> maker env (csData s) b a r = Ret data))"

text \<open>The result without a cache.\<close>

definition made :: "('f, 'b) chart_env \<Rightarrow> string \<Rightarrow> string \<Rightarrow> string \<Rightarrow> string \<Rightarrow> 'f ChartData \<Rightarrow>
    ('b option, maker_error) go_result" where
  "made env chartID binString axisString rangeString c =
    (case map_of chartMakers chartID of
       None \<Rightarrow> Fail UnknownChartErr
     | Some maker \<Rightarrow>
         (case maker env c (ParseBin (if isWindowBin chartID then binName WindowBin else binString))
             (ParseAxis axisString) rangeString of
            Ret data \<Rightarrow> Ret (Some data)
          | Fail e \<Rightarrow> Fail e
          | Panics \<Rightarrow> Panics))"

lemma fresh_empty: "csCache s = [] \<Longrightarrow> fresh env s"
  by (simp add: fresh_def)

lemma fresh_cacheChart:
  fixes env :: "('f, 'b) chart_env" and s :: "('f, 'b) chart_server"
  assumes "fresh env s" "map_of chartMakers i = Some maker" "maker env (csData s) b a r = Ret data"
  shows "fresh env (cacheChart i b a r data s)"
proof -
  have data: "csData (cacheChart i b a r data s) = csData s"
    by (simp add: cacheChart_def)
  show ?thesis
    unfolding fresh_def data
  proof (intro allI impI, elim conjE)
    fix i' b' a' r' and maker' :: "('f, 'b) maker" and e :: "'b cachedChart"
    assume maker': "map_of chartMakers i' = Some maker'"
      and get: "mget (csCache (cacheChart i b a r data s)) (cacheKey i' b' a' r') = Some e"
      and ID: "ccID e = cacheID b' (csData s)"
    show "\<exists>data. ccData e = Some data \<and> maker' env (csData s) b' a' r' = Ret data"
    proof (cases "cacheKey i' b' a' r' = cacheKey i b a r")
      case True
      then have same: "i' = i" "b' = b" "a' = a" "r' = r"
        using cacheKey_inj [OF maker_id [OF maker'] maker_id [OF assms(2)]] by blast+
      have "ccData e = Some data"
        using get True by (auto simp: cacheChart_def)
      with same maker' assms(2,3) show ?thesis
        by simp
    next
      case False
      then have "mget (csCache s) (cacheKey i' b' a' r') = Some e"
        using get by (simp add: cacheChart_def)
      with assms(1) maker' ID show ?thesis
        unfolding fresh_def by blast
    qed
  qed
qed

definition bin_of :: "string \<Rightarrow> string \<Rightarrow> binLevel" where
  "bin_of chartID binString = ParseBin (if isWindowBin chartID then binName WindowBin else binString)"

lemma Chart_served:
  fixes maker :: "('f, 'b) maker" and env :: "('f, 'b) chart_env"
  assumes maker: "map_of chartMakers chartID = Some maker"
  defines "fallback s b a r \<equiv>
    (case maker env (csData s) b a r of
       Ret data \<Rightarrow> (cacheChart chartID b a r data s, Ret (Some data))
     | Fail e \<Rightarrow> (s, Fail e) | Panics \<Rightarrow> (s, Panics))"
  shows "Chart env chartID binString axisString rangeString s =
    (case mget (csCache s) (cacheKey chartID (bin_of chartID binString) (ParseAxis axisString) rangeString) of
       Some entry \<Rightarrow>
         if ccID entry = cacheID (bin_of chartID binString) (csData s) then (s, Ret (ccData entry))
         else fallback s (bin_of chartID binString) (ParseAxis axisString) rangeString
     | None \<Rightarrow> fallback s (bin_of chartID binString) (ParseAxis axisString) rangeString)"
  unfolding Chart_def Chart_with_def getCache_def Let_def bin_of_def [symmetric] maker option.case id_apply
    fallback_def by (simp split: option.split)

lemma Chart_unknown:
  fixes env :: "('f, 'b) chart_env"
  assumes "map_of (chartMakers :: (string \<times> ('f, 'b) maker) list) chartID = None"
  shows "fst (Chart env chartID b a r s) = s"
  unfolding Chart_def Chart_with_def getCache_def Let_def assms option.case by (simp split: option.split)

text \<open>
  C35. A served chart of a known name is exactly the one that its maker makes of the current data, whether it
  comes from the cache or not, when the entries of the cache are fresh; and they stay fresh.
\<close>

theorem Chart_transparent:
  fixes env :: "('f, 'b) chart_env" and s :: "('f, 'b) chart_server"
  assumes "fresh env s" "chartID \<in> set chart_ids"
  shows "\<exists>s'. Chart env chartID binString axisString rangeString s
      = (s', made env chartID binString axisString rangeString (csData s)) \<and>
    fresh env s' \<and> csData s' = csData s"
proof -
  have "chartID \<in> set (map fst (chartMakers :: (string \<times> ('f, 'b) maker) list))"
    using assms(2) by (simp only: chart_ids)
  then obtain maker :: "('f, 'b) maker" where maker: "map_of chartMakers chartID = Some maker"
    by (metis map_of_eq_None_iff not_None_eq set_map)
  let ?b = "bin_of chartID binString" and ?a = "ParseAxis axisString"
  let ?key = "cacheKey chartID ?b ?a rangeString"
  note served = Chart_served [OF maker, of env binString axisString rangeString s]
  have made: "made env chartID binString axisString rangeString (csData s) =
      (case maker env (csData s) ?b ?a rangeString of Ret data \<Rightarrow> Ret (Some data) | Fail e \<Rightarrow> Fail e | Panics \<Rightarrow> Panics)"
    unfolding made_def maker option.case bin_of_def by simp
  have keep: "csData (cacheChart chartID ?b ?a rangeString data s) = csData s" for data
    by (simp add: cacheChart_def)
  show ?thesis
  proof (cases "\<exists>entry. mget (csCache s) ?key = Some entry \<and> ccID entry = cacheID ?b (csData s)")
    case True
    then obtain entry where entry: "mget (csCache s) ?key = Some entry" "ccID entry = cacheID ?b (csData s)"
      by blast
    then obtain data where "ccData entry = Some data" "maker env (csData s) ?b ?a rangeString = Ret data"
      using assms(1) maker unfolding fresh_def by blast
    with entry assms(1) show ?thesis
      by (simp add: served made)
  next
    case False
    then show ?thesis
      using fresh_cacheChart [OF assms(1) maker, of ?b ?a rangeString] assms(1) keep
      by (cases "maker env (csData s) ?b ?a rangeString")
        (auto simp: served made split: option.split)
  qed
qed

section \<open>The average block time\<close>

text \<open>What can happen to a server: its data change, and charts and averages are asked for.\<close>

datatype 'f chart_op = SetData "'f ChartData" | AskChart string string string string | AskAverage string

fun chart_step :: "('f, 'b) chart_env \<Rightarrow> 'f chart_op \<Rightarrow> ('f, 'b) chart_server \<Rightarrow> ('f, 'b) chart_server" where
  "chart_step env (SetData c) s = s\<lparr>csData := c\<rparr>"
| "chart_step env (AskChart i b a r) s = fst (Chart env i b a r s)"
| "chart_step env (AskAverage i) s = fst (GetAverageBlockTime i s)"

lemma Chart_writes:
  fixes env :: "('f, 'b) chart_env"
  obtains "fst (Chart env i b a r s) = s"
  | data bin axis where "i \<in> set chart_ids" "fst (Chart env i b a r s) = cacheChart i bin axis r data s"
proof (cases "map_of (chartMakers :: (string \<times> ('f, 'b) maker) list) i")
  case None
  then show ?thesis
    using that(1) Chart_unknown by blast
next
  case (Some maker)
  note served = Chart_served [OF Some, of env b a r s]
  show ?thesis
  proof (cases "maker env (csData s) (bin_of i b) (ParseAxis a) r")
    case (Ret data)
    then have "fst (Chart env i b a r s) = s \<or>
        fst (Chart env i b a r s) = cacheChart i (bin_of i b) (ParseAxis a) r data s"
      by (simp add: served split: option.split)
    then show ?thesis
      using that maker_id [OF Some] by blast
  qed (use that(1) in \<open>auto simp: served split: option.splits\<close>)
qed

definition holds_average :: "u64 \<Rightarrow> ('f, 'b) chart_server \<Rightarrow> bool" where
  "holds_average v s \<longleftrightarrow> (\<exists>e. mget (csCache s) (customCacheKey ''duration-btw-blocks'') = Some e \<and> ccInt e = v)"

lemma holds_average_step:
  assumes "holds_average v s"
  shows "holds_average v (chart_step env op s)"
proof (cases op)
  case (AskChart i b a r)
  show ?thesis
    unfolding AskChart chart_step.simps
    by (rule Chart_writes [of env i b a r s]; use assms in \<open>simp add: holds_average_def cacheChart_def custom_key [symmetric]\<close>)
next
  case (AskAverage i)
  show ?thesis
    using assms unfolding AskAverage
    by (cases "i = ''duration-btw-blocks''")
      (auto simp: GetAverageBlockTime_def getCustomCache_def holds_average_def customMakers_def split: option.splits)
qed (use assms in \<open>simp add: holds_average_def\<close>)

text \<open>
  The average block time is computed once: whatever happens to the charts afterwards, the first value is
  returned for ever.
\<close>

theorem average_block_time_frozen:
  assumes "GetAverageBlockTime ''duration-btw-blocks'' s = (s1, Ret v)"
  shows "snd (GetAverageBlockTime ''duration-btw-blocks'' (foldl (\<lambda>s op. chart_step env op s) s1 ops)) = Ret v"
proof -
  have "holds_average v s1"
    using assms by (auto simp: GetAverageBlockTime_def getCustomCache_def holds_average_def customMakers_def
        cacheCustomIntValue_def Let_def split: option.splits)
  then have "holds_average v (foldl (\<lambda>s op. chart_step env op s) s1 ops)"
    by (induction ops arbitrary: s1) (simp_all add: holds_average_step)
  then show ?thesis
    by (auto simp: holds_average_def GetAverageBlockTime_def getCustomCache_def)
qed

section \<open>Updates and reorganisations\<close>

lemma run_updaters_append:
  assumes "run_updaters us c = (c1, None)"
  shows "run_updaters (us @ vs) c = run_updaters vs c1"
  using assms
  by (induction us c rule: run_updaters.induct)
    (auto simp: Let_def split: sum.splits if_splits prod.splits option.splits)

lemma stateID_reorg:
  assumes "all_len n (block_lengths (Blocks c))" "distinct (zTime (Blocks c))" "0 \<notin> set (zTime (Blocks c))"
    and "0 < n" "newHeight - int (length newChain) + 1 < int n"
  shows "stateID (ReorgHandler newHeight newChain c) \<noteq> stateID c"
proof -
  let ?l = "nat (newHeight - int (length newChain) + 1)"
  have len: "length (zTime (Blocks c)) = n"
    using assms(1) by (auto simp: all_len_set block_lengths_def)
  have t: "zTime (Blocks (ReorgHandler newHeight newChain c)) = take ?l (zTime (Blocks c))"
    by (simp add: ReorgHandler_def Let_def Snip_def snip_eq_take)
  have l: "?l < n"
    using assms(4,5) by simp
  show ?thesis
  proof (cases "?l = 0")
    case True
    then have "stateID (ReorgHandler newHeight newChain c) = 0"
      unfolding stateID_def Let_def t by simp
    moreover have "stateID c \<in> set (zTime (Blocks c))"
      using len assms(4) by (simp add: stateID_def)
    ultimately show ?thesis
      using assms(3) by metis
  next
    case False
    then have "stateID (ReorgHandler newHeight newChain c) = zTime (Blocks c) ! (?l - 1)"
      using l len unfolding stateID_def Let_def t by simp
    moreover have "zTime (Blocks c) ! (?l - 1) \<noteq> zTime (Blocks c) ! (n - 1)"
      using l len assms(2) False by (subst nth_eq_iff_index_eq) auto
    ultimately show ?thesis
      using len assms(4) by (simp add: stateID_def)
  qed
qed


text \<open>Two blocks at the end with the same time: the removal of the last one is not noticed.\<close>

lemma reorg_not_noticed:
  assumes "all_len (Suc n) (block_lengths (Blocks c))" "0 < n" "zTime (Blocks c) ! n = zTime (Blocks c) ! (n - 1)"
    and "newHeight - int (length newChain) + 1 = int n"
  shows "validState (stateID c) (ReorgHandler newHeight newChain c)"
proof -
  have len: "length (zTime (Blocks c)) = Suc n"
    using assms(1) by (auto simp: all_len_set block_lengths_def)
  have "zTime (Blocks (ReorgHandler newHeight newChain c)) = take n (zTime (Blocks c))"
    using assms(4) by (simp add: ReorgHandler_def Let_def Snip_def snip_eq_take)
  with len assms(2,3) show ?thesis
    by (simp add: validState_def stateID_def)
qed

section \<open>Limits of the cache\<close>

text \<open>
  A chart that was made while the data changed to \<open>c'\<close> is stored with the identifier of the new data,
  and is served for as long as the identifier of its bin stays: for charts per day or per window, that is
  longer than a block.
\<close>

lemma late_chart_served:
  fixes maker :: "('f, 'b) maker"
  assumes "map_of chartMakers i = Some maker" "maker env (csData s) (bin_of i b) (ParseAxis a) r = Ret data"
    and "mget (csCache s) (cacheKey i (bin_of i b) (ParseAxis a) r) = None"
    and "cacheID (bin_of i b) c'' = cacheID (bin_of i b) c'"
  defines "s1 \<equiv> fst (Chart_with env (\<lambda>s. s\<lparr>csData := c'\<rparr>) i b a r s)"
  shows "snd (Chart env i b a r (s1\<lparr>csData := c''\<rparr>)) = Ret (Some data)"
proof -
  have "s1 = cacheChart i (bin_of i b) (ParseAxis a) r data (s\<lparr>csData := c'\<rparr>)"
    unfolding s1_def Chart_with_def getCache_def Let_def bin_of_def [symmetric] assms(1,3) option.case prod.case
      assms(2) go_result.case by simp
  then show ?thesis
    using assms(4) by (simp add: Chart_served [OF assms(1)] cacheChart_def)
qed

text \<open>
  Nothing is ever removed from the cache, and the range is part of the key although most makers ignore
  it: every new range string adds an entry.
\<close>

lemma cache_grows:
  fixes maker :: "('f, 'b) maker" and s :: "('f, 'b) chart_server"
  assumes "map_of chartMakers i = Some maker" "\<And>r. maker env (csData s) (bin_of i b) (ParseAxis a) r = Ret data"
    and "wf_map (csCache s)" "distinct rs"
    and "\<And>r. r \<in> set rs \<Longrightarrow> mget (csCache s) (cacheKey i (bin_of i b) (ParseAxis a) r) = None"
  shows "length (csCache (foldl (\<lambda>s r. fst (Chart env i b a r s)) s rs)) = length (csCache s) + length rs"
  using assms(2-5)
proof (induction rs arbitrary: s)
  case (Cons r rs)
  let ?s = "cacheChart i (bin_of i b) (ParseAxis a) r data s"
  have "fst (Chart env i b a r s) = ?s"
    using Cons.prems(1,4) by (simp add: Chart_served [OF assms(1)])
  moreover have "mget (csCache ?s) (cacheKey i (bin_of i b) (ParseAxis a) r') = None" if "r' \<in> set rs" for r'
  proof -
    have "cacheKey i (bin_of i b) (ParseAxis a) r' \<noteq> cacheKey i (bin_of i b) (ParseAxis a) r"
      using cacheKey_inj maker_id [OF assms(1)] that Cons.prems(3) by fastforce
    then show ?thesis
      using Cons.prems(4) [of r'] that by (simp add: cacheChart_def)
  qed
  ultimately show ?case
    using Cons.IH [of ?s] Cons.prems by (simp add: cacheChart_def length_mput)
qed simp

text \<open>A name that is no chart can be served: here the entry of another chart with a range.\<close>

lemma unknown_name_served:
  "cacheKey ''hashrate-day-time'' DayBin TimeAxis [] = cacheKey ''hashrate'' DayBin TimeAxis ''day-time''"
  "''hashrate-day-time'' \<notin> set chart_ids"
  by (simp_all add: cacheKey_def chart_ids_def)

section \<open>Examples\<close>

definition demo_chart_env :: "(nat, nat chartResponse) chart_env" where
  "demo_chart_env =
    \<lparr>marshal = Inr, float = nat_ops, isZero = (\<lambda>x. x = 0), rateOf = (\<lambda>_ _. 1), blake3Hash = 1000000,
     blake3Window = 1000000, dayStart = midnight, dayEnd = (\<lambda>t. midnight t + (aDay - 1)), DiffInterval = 144, StartPOS = 0\<rparr>"

definition demo_server :: "(nat, nat chartResponse) chart_server" where
  "demo_server = \<lparr>csData = demo_charts demo_times, csCache = []\<rparr>"

theorem Chart_transparent_witness:
  "\<exists>s'. Chart demo_chart_env ''fees'' ''block'' ''height'' [] demo_server
      = (s', made demo_chart_env ''fees'' ''block'' ''height'' [] (demo_charts demo_times)) \<and> fresh demo_chart_env s'"
proof -
  have "fresh demo_chart_env demo_server"
    by (rule fresh_empty) (simp add: demo_server_def)
  moreover have "''fees'' \<in> set chart_ids"
    by (simp add: chart_ids_def)
  ultimately show ?thesis
    using Chart_transparent [of demo_chart_env demo_server "''fees''" "''block''" "''height''" "[]"]
    by (auto simp: demo_server_def)
qed

theorem average_block_time_frozen_witness:
  "snd (GetAverageBlockTime ''duration-btw-blocks''
      (foldl (\<lambda>s op. chart_step demo_chart_env op s) (fst (GetAverageBlockTime ''duration-btw-blocks'' demo_server))
        [SetData ((demo_charts demo_times)\<lparr>Days := demo_set [0, 86400, 172800]\<rparr>)])) = Ret 0 \<and>
    durationBTWCustom ((demo_charts demo_times)\<lparr>Days := demo_set [0, 86400, 172800]\<rparr>) \<noteq> 0"
proof -
  let ?s1 = "fst (GetAverageBlockTime ''duration-btw-blocks'' demo_server)"
  have first: "GetAverageBlockTime ''duration-btw-blocks'' demo_server = (?s1, Ret 0)"
    by (simp add: GetAverageBlockTime_def getCustomCache_def demo_server_def customMakers_def durationBTWCustom_def
        calculateAvgBlockTime_def demo_charts_def demo_set_def Let_def)
  have "durationBTWCustom ((demo_charts demo_times)\<lparr>Days := demo_set [0, 86400, 172800]\<rparr>) = 16633"
    by (simp add: durationBTWCustom_def calculateAvgBlockTime_def demo_charts_def demo_set_def demo_times_def
        avg_of_def blockTimes_def uints_Avg_def subslice_def Let_def)
  then show ?thesis
    using average_block_time_frozen [OF first, of demo_chart_env
        "[SetData ((demo_charts demo_times)\<lparr>Days := demo_set [0, 86400, 172800]\<rparr>)]"]
    by simp
qed

definition demo_updater :: "(nat, u64 list) updater" where
  "demo_updater =
    \<lparr>Tag = ''fees'', Fetcher = (\<lambda>_. Inr [7]),
     Appender = (\<lambda>c rows. (c\<lparr>Blocks := (Blocks c)\<lparr>zFees := zFees (Blocks c) @ rows\<rparr>\<rparr>, None))\<rparr>"


end
