(* ===== verification/ChartSets.thy ===== *)
theory ChartSets
  imports ChartServeContract
begin

text \<open>
  The sets of an encoded chart: they have one length, and it is the full one when the sets they are taken
  from agree in length, as \<open>Lengthen\<close> establishes. The encoding is taken to be the response itself.
\<close>

section \<open>Encoding\<close>

lemma smaller_loop_min: "smaller_loop (int m) ss = int (foldl min m (map set_Length ss))"
  by (induction ss arbitrary: m) (auto simp: Let_def min_def)

lemma foldl_min_le: "foldl min m xs \<le> m" "x \<in> set xs \<Longrightarrow> foldl min m xs \<le> (x :: nat)"
proof (induction xs arbitrary: m x)
  case (Cons y ys)
  {
    case 1
    show ?case using Cons.IH(1) [of "min m y"] by simp
  next
    case 2
    then show ?case using Cons.IH(1) [of "min m y"] Cons.IH(2) [of x "min m y"] by auto
  }
qed simp_all

lemma foldl_min_same: "\<forall>x \<in> set xs. x = m \<Longrightarrow> foldl min m xs = (m :: nat)"
  by (induction xs) simp_all

text \<open>What \<open>encode\<close> truncates to is at most the length of every set.\<close>

definition shortest_of :: "(string \<times> 'f lengther) list \<Rightarrow> nat" where
  "shortest_of sets = nat (smaller_loop (-1) (map snd sets))"

lemma shortest_of_le:
  assumes "(k, s) \<in> set sets"
  shows "shortest_of sets \<le> set_Length s"
proof (cases sets)
  case (Cons x xs)
  have "s = snd x \<or> set_Length s \<in> set (map (\<lambda>x. set_Length (snd x)) xs)"
    using assms Cons by force
  then have "foldl min (set_Length (snd x)) (map (\<lambda>x. set_Length (snd x)) xs) \<le> set_Length s"
    using foldl_min_le(1) foldl_min_le(2) by metis
  then show ?thesis
    using Cons by (simp add: shortest_of_def smaller_loop_min Let_def comp_def)
qed (use assms in simp)

lemma shortest_of_same:
  assumes "sets \<noteq> []" "\<forall>(k, s) \<in> set sets. set_Length s = n"
  shows "shortest_of sets = n"
proof (cases sets)
  case (Cons x xs)
  then show ?thesis
    using assms(2) foldl_min_same [of "map (\<lambda>x. set_Length (snd x)) xs" n]
    by (auto simp: shortest_of_def smaller_loop_min Let_def comp_def split_beta)
qed (use assms in simp)

lemma put_sets_values:
  "mget (put_sets n sets seed) k = Some (JSet v) \<Longrightarrow>
    (\<exists>s. (k, s) \<in> set sets \<and> v = Truncate n s) \<or> mget seed k = Some (JSet v)"
  by (induction n sets seed rule: put_sets.induct) (fastforce split: if_splits)+

definition no_sets :: "'f chartResponse \<Rightarrow> bool" where
  "no_sets seed \<longleftrightarrow> (\<forall>k v. mget seed k \<noteq> Some (JSet v))"

lemma no_sets_seeds [simp]:
  "no_sets (binAxisSeed bin axis)" "no_sets [(k, JNumber i)]" "no_sets [(k, JNumber i), (k', JNumber j)]"
  by (auto simp: no_sets_def binAxisSeed_def mget_def split: if_splits)

lemma no_sets_mput [simp]: "no_sets seed \<Longrightarrow> no_sets (mput k (JNumber i) seed)"
  by (simp add: no_sets_def)

lemma encode_lengths:
  assumes "encode env sets seed = Ret resp" "marshal env = Inr" "no_sets seed" "mget resp k = Some (JSet v)"
  shows "set_Length v = shortest_of sets"
proof -
  have "resp = put_sets (shortest_of sets) sets seed"
    using assms(1,2) by (auto simp: encode_def shortest_of_def Let_def split: if_splits)
  then obtain s where "(k, s) \<in> set sets" "v = Truncate (shortest_of sets) s"
    using put_sets_values assms(3,4) unfolding no_sets_def by blast
  then show ?thesis
    using shortest_of_le [of k s sets] by simp
qed

definition one_length :: "'f chartResponse \<Rightarrow> bool" where
  "one_length resp \<longleftrightarrow> (\<exists>n. \<forall>k v. mget resp k = Some (JSet v) \<longrightarrow> set_Length v = n)"

lemma encode_one_length:
  "encode env sets seed = Ret resp \<Longrightarrow> marshal env = Inr \<Longrightarrow> no_sets seed \<Longrightarrow> one_length resp"
  unfolding one_length_def using encode_lengths by metis

definition of_length :: "nat \<Rightarrow> 'f chartResponse \<Rightarrow> bool" where
  "of_length n resp \<longleftrightarrow> (\<forall>k v. mget resp k = Some (JSet v) \<longrightarrow> set_Length v = n)"

lemma encode_of_length:
  assumes "encode env sets seed = Ret resp" "marshal env = Inr" "no_sets seed"
    "\<forall>(k, s) \<in> set sets. set_Length s = n"
  shows "of_length n resp"
proof -
  have "sets \<noteq> []"
    using assms(1) by (auto simp: encode_def)
  then show ?thesis
    unfolding of_length_def using encode_lengths [OF assms(1-3)] shortest_of_same [OF _ assms(4)] by metis
qed

section \<open>The makers\<close>

lemma length_accumulate [simp]: "length (accumulate xs) = length xs"
proof -
  have "length (accumulate_loop a xs) = length xs" for a
    by (induction xs arbitrary: a) simp_all
  then show ?thesis by (simp add: accumulate_def)
qed

lemmas regular_defs = blockSizeChart_def blockchainSizeChart_def chainWorkChart_def avgAgeDaysChart_def
  coinDaysDestroyed_def coinAgeBands_def meanCoinAge_def totalCoinDays_def coinSupplyChart_def txCountChart_def
  feesChart_def anonymitySetChart_def ticketPoolSizeChart_def poolValueChart_def stakedCoinsChart_def

lemmas other_defs = durationBTWChart_def hashRateChart_def powDifficultyChart_def ticketPriceChart_def
  missedVotesChart_def

text \<open>The charts of sets per block and per day.\<close>

definition regular_charts :: "(string \<times> ('f, 'b) maker) list" where
  "regular_charts =
    [(''block-size'', blockSizeChart), (''blockchain-size'', blockchainSizeChart), (''chainwork'', chainWorkChart),
     (''coin-supply'', coinSupplyChart), (''tx-count'', txCountChart), (''fees'', feesChart),
     (''privacy-participation'', anonymitySetChart), (''ticket-pool-size'', ticketPoolSizeChart),
     (''ticket-pool-value'', poolValueChart), (''stake-participation'', stakedCoinsChart),
     (''avg-age-days'', avgAgeDaysChart), (''coin-days-destroyed'', coinDaysDestroyed),
     (''coin-age-bands'', coinAgeBands), (''mean-coin-age'', meanCoinAge), (''total-coin-days'', totalCoinDays)]"

text \<open>Every maker ends with \<open>encode\<close> and a seed without sets.\<close>

definition encodes :: "('f, 'b) chart_env \<Rightarrow> 'b \<Rightarrow> bool" where
  "encodes env resp \<longleftrightarrow> (\<exists>sets seed. encode env sets seed = Ret resp \<and> no_sets seed)"

lemma encodesI: "encode env sets seed = Ret resp \<Longrightarrow> no_sets seed \<Longrightarrow> encodes env resp"
  by (auto simp: encodes_def)

lemma regular_encodes:
  assumes "(i, maker) \<in> set regular_charts" "maker env c bin axis r = Ret resp"
  shows "encodes env resp"
proof -
  have "\<exists>sets. encode env sets (binAxisSeed bin axis) = Ret resp"
    using assms unfolding regular_charts_def list.set insert_iff empty_iff prod.inject
    by (elim disjE conjE; cases bin; cases axis) (auto simp: regular_defs Let_def)
  then obtain sets where "encode env sets (binAxisSeed bin axis) = Ret resp"
    by blast
  then show ?thesis
    by (rule encodesI) simp
qed

lemma durationBTW_encodes: "durationBTWChart env c bin axis r = Ret resp \<Longrightarrow> encodes env resp"
  by (cases bin; cases axis) (auto simp: durationBTWChart_def Let_def split_beta split: if_splits intro: encodesI)

lemma hashRate_encodes: "hashRateChart env c bin axis r = Ret resp \<Longrightarrow> encodes env resp"
  by (cases bin; cases axis)
    (auto simp: hashRateChart_def Let_def split_beta split: if_splits option.splits intro: encodesI)

lemma window_encodes:
  "ticketPriceChart env c bin axis r = Ret resp \<Longrightarrow> encodes env resp"
  "missedVotesChart env c bin axis r = Ret resp \<Longrightarrow> encodes env resp"
  by (cases axis; auto simp: ticketPriceChart_def missedVotesChart_def Let_def split: if_splits intro: encodesI)+

lemma powDifficulty_encodes:
  assumes "powDifficultyChart env c bin axis r = Ret resp"
  shows "encodes env resp"
proof (cases axis)
  case HeightAxis
  have "\<exists>sets n m. encode env sets (mput offsetKey (JNumber n) [(windowKey, JNumber m)]) = Ret resp"
    using assms unfolding powDifficultyChart_def Let_def HeightAxis axisType.case
      if_split_eq1 by blast
  then show ?thesis
    using encodesI [of env _ "mput _ _ _"] by (metis no_sets_seeds(2) no_sets_mput)
next
  case TimeAxis
  have "\<exists>sets m. encode env sets [(windowKey, JNumber m)] = Ret resp"
    using assms unfolding powDifficultyChart_def Let_def TimeAxis axisType.case if_split_eq1 by blast
  then show ?thesis
    by (metis encodesI no_sets_seeds(2))
qed

lemma maker_encodes:
  assumes "(i, maker) \<in> set chartMakers" "maker env c bin axis r = Ret resp"
  shows "encodes env resp"
proof -
  have "(i, maker) \<in> set regular_charts \<or> maker \<in> {durationBTWChart, hashRateChart, powDifficultyChart,
      ticketPriceChart, missedVotesChart}"
    using assms(1) unfolding chartMakers_def regular_charts_def list.set insert_iff empty_iff prod.inject
    by (elim disjE conjE) simp_all
  then show ?thesis
    using assms(2) regular_encodes [of i maker env c bin axis r resp] unfolding insert_iff empty_iff
    by (elim disjE) (simp_all add: durationBTW_encodes hashRate_encodes powDifficulty_encodes window_encodes)
qed

text \<open>The regular charts take their sets from the blocks or the days, by the bin.\<close>

fun bin_lengths :: "binLevel \<Rightarrow> 'f ChartData \<Rightarrow> nat set" where
  "bin_lengths BlockBin c = set (block_lengths (Blocks c))"
| "bin_lengths DayBin c = set (day_lengths (Days c))"
| "bin_lengths WindowBin c = {}"

definition regular_form :: "('f, 'b) chart_env \<Rightarrow> 'f ChartData \<Rightarrow> binLevel \<Rightarrow> axisType \<Rightarrow> 'b \<Rightarrow> bool" where
  "regular_form env c bin axis resp \<longleftrightarrow>
    (\<exists>sets. encode env sets (binAxisSeed bin axis) = Ret resp \<and> (\<forall>(k, s) \<in> set sets. set_Length s \<in> bin_lengths bin c))"

lemma regular_formI:
  "encode env sets (binAxisSeed bin axis) = Ret resp \<Longrightarrow> \<forall>(k, s) \<in> set sets. set_Length s \<in> bin_lengths bin c \<Longrightarrow>
    regular_form env c bin axis resp"
  by (auto simp: regular_form_def)

lemma regular_forms:
  "blockSizeChart env c bin axis r = Ret resp \<Longrightarrow> regular_form env c bin axis resp"
  "blockchainSizeChart env c bin axis r = Ret resp \<Longrightarrow> regular_form env c bin axis resp"
  "chainWorkChart env c bin axis r = Ret resp \<Longrightarrow> regular_form env c bin axis resp"
  "avgAgeDaysChart env c bin axis r = Ret resp \<Longrightarrow> regular_form env c bin axis resp"
  "coinDaysDestroyed env c bin axis r = Ret resp \<Longrightarrow> regular_form env c bin axis resp"
  "coinAgeBands env c bin axis r = Ret resp \<Longrightarrow> regular_form env c bin axis resp"
  "meanCoinAge env c bin axis r = Ret resp \<Longrightarrow> regular_form env c bin axis resp"
  "totalCoinDays env c bin axis r = Ret resp \<Longrightarrow> regular_form env c bin axis resp"
  "coinSupplyChart env c bin axis r = Ret resp \<Longrightarrow> regular_form env c bin axis resp"
  "txCountChart env c bin axis r = Ret resp \<Longrightarrow> regular_form env c bin axis resp"
  "feesChart env c bin axis r = Ret resp \<Longrightarrow> regular_form env c bin axis resp"
  "anonymitySetChart env c bin axis r = Ret resp \<Longrightarrow> regular_form env c bin axis resp"
  "ticketPoolSizeChart env c bin axis r = Ret resp \<Longrightarrow> regular_form env c bin axis resp"
  "poolValueChart env c bin axis r = Ret resp \<Longrightarrow> regular_form env c bin axis resp"
  "stakedCoinsChart env c bin axis r = Ret resp \<Longrightarrow> regular_form env c bin axis resp"
  by (cases bin; cases axis; simp only: regular_defs Let_def binLevel.case axisType.case go_result.distinct;
      erule regular_formI; simp add: block_lengths_def day_lengths_def)+

lemma regular_of_length:
  assumes "(i, maker) \<in> set regular_charts" "maker env c bin axis r = Ret resp" "marshal env = Inr"
    and "all_len nb (block_lengths (Blocks c))" "all_len nd (day_lengths (Days c))"
  shows "of_length (if bin = BlockBin then nb else nd) resp"
proof -
  have "regular_form env c bin axis resp"
    using assms(1,2) regular_forms unfolding regular_charts_def list.set insert_iff empty_iff prod.inject
    by (elim disjE conjE) simp_all
  then obtain sets where sets: "encode env sets (binAxisSeed bin axis) = Ret resp"
    "\<forall>(k, s) \<in> set sets. set_Length s \<in> bin_lengths bin c"
    by (auto simp: regular_form_def)
  have "set_Length s = (if bin = BlockBin then nb else nd)" if "(k, s) \<in> set sets" for k s
    using sets(2) that assms(4,5) by (cases bin) (auto simp: all_len_set)
  then have "\<forall>(k, s) \<in> set sets. set_Length s = (if bin = BlockBin then nb else nd)"
    by blast
  then show ?thesis
    by (rule encode_of_length [OF sets(1) assms(3) no_sets_seeds(1)])
qed

section \<open>Charts are complete\<close>



section \<open>Restart\<close>

lemma kept_all_len:
  assumes "all_len n (block_lengths (Blocks c))"
  shows "shortest_block (Blocks c) = n" "kept_blocks c = Blocks c"
  using assms Snip_same [OF assms] by (simp_all add: shortest_block_def kept_blocks_def all_len_set)

lemma kept_windows_all_len:
  assumes "all_len m (window_lengths (Windows c))"
  shows "shortest_window (Windows c) = m" "kept_windows c = Windows c"
  using assms window_Snip_same [OF assms] by (simp_all add: shortest_window_def kept_windows_def all_len_set)

lemma restore_lengths:
  "block_lengths (Blocks (restore (gobject c) c0)) = block_lengths (Blocks c)"
  "window_lengths (Windows (restore (gobject c) c0)) = window_lengths (Windows c)"
  "Days (restore (gobject c) c0) = Days c0"
  by (simp_all add: restore_def gobject_def block_lengths_def window_lengths_def)

lemma gobject_restore: "(gobject (restore (gobject c) c0))\<lparr>gHashrate := x\<rparr> = (gobject c)\<lparr>gHashrate := x\<rparr>"
  by (simp add: restore_def gobject_def)

lemma gobject_cacheID:
  "gobject \<lparr>Blocks = (Blocks c)\<lparr>zcacheID := i\<rparr>, Windows = (Windows c)\<lparr>wcacheID := j\<rparr>, Days = d\<rparr> = gobject c"
  by (simp add: gobject_def)



end
