(* ===== verification/SqlTables.thy ===== *)
theory SqlTables
  imports Prelude
begin

text \<open>
  The tables of the PostgreSQL database of \<open>db/dcrpg\<close> and what the statements of \<open>db/dcrpg/internal\<close> do to
  them. A table is the list of its rows in the order in which the server returns them; the columns that no
  modelled statement reads or writes after the row is inserted are left out. The statements that create
  tables and indexes are not modelled: the unique indexes are invariants of the tables. A statement fails
  when the server or the connection does, which the outcomes of a connection say; a failed statement
  changes nothing.
\<close>

section \<open>Rows\<close>

text \<open>Hashes are the hexadecimal strings of the TEXT columns; times are seconds.\<close>

record blocks_row =
  b_id :: nat
  b_hash :: string
  b_height :: int
  b_is_valid :: bool
  b_is_mainchain :: bool
  b_txDbIDs :: "nat list"
  b_stxDbIDs :: "nat list"
  b_previous_hash :: string
  b_winners :: "string list"

record block_chain_row =
  c_block_db_id :: nat
  c_prev_hash :: string
  c_this_hash :: string
  c_next_hash :: string

record transactions_row =
  t_id :: nat
  t_block_hash :: string
  t_block_height :: int
  t_block_time :: int
  t_tx_type :: int
  t_tree :: int
  t_tx_hash :: string
  t_block_index :: nat
  t_mix_count :: int
  t_mix_denom :: int
  t_vin_db_ids :: "nat list"
  t_vout_db_ids :: "nat list"
  t_is_valid :: bool
  t_is_mainchain :: bool

record vins_row =
  i_id :: nat
  i_tx_hash :: string
  i_tx_index :: nat
  i_tx_tree :: int
  i_is_valid :: bool
  i_is_mainchain :: bool
  i_block_time :: int
  i_prev_tx_hash :: string
  i_prev_tx_index :: nat
  i_prev_tx_tree :: int
  i_value_in :: int
  i_tx_type :: int

record vouts_row =
  o_id :: nat
  o_tx_hash :: string
  o_tx_index :: nat
  o_tx_tree :: int
  o_value :: int
  o_script_addresses :: "string list"
  o_mixed :: bool
  o_spend_tx_row_id :: "nat option"

record addresses_row =
  a_id :: nat
  a_address :: string
  a_tx_hash :: string
  a_valid_mainchain :: bool
  a_matching_tx_hash :: string
  a_value :: int
  a_block_time :: int
  a_is_funding :: bool
  a_tx_vin_vout_index :: nat
  a_tx_vin_vout_row_id :: nat
  a_tx_type :: int

record tickets_row =
  k_id :: nat
  k_tx_hash :: string
  k_block_hash :: string
  k_block_height :: int
  k_purchase_tx_db_id :: nat
  k_spend_type :: int
  k_pool_status :: int
  k_is_mainchain :: bool
  k_spend_height :: "int option"
  k_spend_tx_db_id :: "nat option"

record votes_row =
  v_id :: nat
  v_height :: int
  v_tx_hash :: string
  v_block_hash :: string
  v_candidate_block_hash :: string
  v_ticket_hash :: string
  v_is_mainchain :: bool

record misses_row =
  m_id :: nat
  m_height :: int
  m_block_hash :: string
  m_candidate_block_hash :: string
  m_ticket_hash :: string

record treasury_row =
  y_tx_hash :: string
  y_tx_type :: int
  y_value :: int
  y_block_hash :: string
  y_block_height :: int
  y_block_time :: int
  y_is_mainchain :: bool

record swaps_row =
  w_spend_tx :: string
  w_spend_vin :: nat
  w_spend_height :: int

record stats_row =
  s_blocks_id :: nat
  s_height :: int
  s_pool_size :: int
  s_pool_val :: int

record meta_row =
  best_block_height :: int
  best_block_hash :: string

text \<open>
  The sequences behind the SERIAL columns count on when an insertion meets an existing row, and a
  transaction that is rolled back does not set them back.
\<close>

record sequences =
  next_block :: nat
  next_tx :: nat
  next_vin :: nat
  next_vout :: nat
  next_address :: nat
  next_ticket :: nat
  next_vote :: nat
  next_miss :: nat

record db =
  t_blocks :: "blocks_row list"
  t_block_chain :: "block_chain_row list"
  t_transactions :: "transactions_row list"
  t_vins :: "vins_row list"
  t_vouts :: "vouts_row list"
  t_addresses :: "addresses_row list"
  t_tickets :: "tickets_row list"
  t_votes :: "votes_row list"
  t_misses :: "misses_row list"
  t_treasury :: "treasury_row list"
  t_swaps :: "swaps_row list"
  t_stats :: "stats_row list"
  t_meta :: "meta_row list"
  seqs :: sequences

section \<open>Statements\<close>

definition update_where :: "('r \<Rightarrow> bool) \<Rightarrow> ('r \<Rightarrow> 'r) \<Rightarrow> 'r list \<Rightarrow> 'r list" where
  "update_where P f rs = map (\<lambda>r. if P r then f r else r) rs"

definition delete_where :: "('r \<Rightarrow> bool) \<Rightarrow> 'r list \<Rightarrow> 'r list" where
  "delete_where P rs = filter (\<lambda>r. \<not> P r) rs"

definition count_where :: "('r \<Rightarrow> bool) \<Rightarrow> 'r list \<Rightarrow> nat" where
  "count_where P rs = length (filter P rs)"

lemma length_update_where [simp]: "length (update_where P f rs) = length rs"
  by (simp add: update_where_def)

lemma update_where_simps [simp]:
  "update_where P f [] = []"
  "update_where P f (r # rs) = (if P r then f r else r) # update_where P f rs"
  by (simp_all add: update_where_def)

lemma set_update_where: "r \<in> set (update_where P f rs) \<longleftrightarrow> (\<exists>r' \<in> set rs. r = (if P r' then f r' else r'))"
  by (auto simp: update_where_def)

lemma ball_update_where: "(\<forall>r \<in> set (update_where P f rs). Q r) \<longleftrightarrow> (\<forall>r \<in> set rs. Q (if P r then f r else r))"
  by (auto simp: update_where_def)

lemma map_update_where: "(\<And>r. g (f r) = g r) \<Longrightarrow> map g (update_where P f rs) = map g rs"
  by (simp add: update_where_def)

lemma update_where_same: "(\<And>r. r \<in> set rs \<Longrightarrow> \<not> P r) \<Longrightarrow> update_where P f rs = rs"
  by (induction rs) auto

lemma delete_where_twice: "delete_where Q (delete_where P rs) = delete_where (\<lambda>r. P r \<or> Q r) rs"
  by (simp add: delete_where_def conj_commute)

lemma set_delete_where [simp]: "set (delete_where P rs) = {r \<in> set rs. \<not> P r}"
  by (auto simp: delete_where_def)

lemma count_where_0: "count_where P rs = 0 \<longleftrightarrow> (\<forall>r \<in> set rs. \<not> P r)"
  by (auto simp: count_where_def filter_empty_conv)

text \<open>A row of an index that is unique on \<open>key\<close> is found wherever it is.\<close>

lemma find_unique:
  assumes "distinct (map key rs)" "r \<in> set rs"
  shows "filter (\<lambda>r'. key r' = key r) rs = [r]"
  using assms by (induction rs) (auto simp: filter_empty_conv rev_image_eqI)

section \<open>Running statements\<close>

datatype sql_error =
    ErrNoRows
  | ErrDB
  | ErrNotOneRow nat
  | ErrOther string
  | Panics string

text \<open>
  The outcomes of the next statements, \<open>True\<close> for a failure; after them every statement succeeds.
\<close>

record conn =
  data :: db
  outcomes :: "bool list"

type_synonym 'a sql = "conn \<Rightarrow> conn \<times> (sql_error + 'a)"

definition exec :: "(db \<Rightarrow> db \<times> 'a) \<Rightarrow> 'a sql" where
  "exec stmt c =
    (if outcomes c \<noteq> [] \<and> hd (outcomes c) then (c\<lparr>outcomes := tl (outcomes c)\<rparr>, Inl ErrDB)
     else (case stmt (data c) of
       (d, x) \<Rightarrow> (c\<lparr>data := d, outcomes := tl (outcomes c)\<rparr>, Inr x)))"

text \<open>\<open>QueryRow(..).Scan(..)\<close> takes the first row of the answer.\<close>

fun first_row :: "'a list \<Rightarrow> sql_error + 'a" where
  "first_row [] = Inl ErrNoRows"
| "first_row (r # rs) = Inr r"

definition query_row :: "(db \<Rightarrow> db \<times> 'a list) \<Rightarrow> 'a sql" where
  "query_row stmt c =
    (case exec stmt c of
       (c', Inl e) \<Rightarrow> (c', Inl e)
     | (c', Inr rs) \<Rightarrow> (c', first_row rs))"

definition sql_bind :: "'a sql \<Rightarrow> ('a \<Rightarrow> 'b sql) \<Rightarrow> 'b sql" where
  "sql_bind m f c =
    (case m c of
       (c', Inl e) \<Rightarrow> (c', Inl e)
     | (c', Inr x) \<Rightarrow> f x c')"

definition sql_return :: "'a \<Rightarrow> 'a sql" where
  "sql_return x c = (c, Inr x)"

definition sql_fail :: "sql_error \<Rightarrow> 'a sql" where
  "sql_fail e c = (c, Inl e)"

text \<open>
  A database transaction: it begins, runs its statements and is committed; when it cannot be committed, or
  the statements end in an error, it is rolled back, which resets the tables and not the sequences.
\<close>

definition rollback :: "conn \<Rightarrow> conn \<Rightarrow> conn" where
  "rollback c c' = c'\<lparr>data := (data c)\<lparr>seqs := seqs (data c')\<rparr>\<rparr>"

definition in_transaction :: "'a sql \<Rightarrow> 'a sql" where
  "in_transaction body c =
    (case exec (\<lambda>d. (d, ())) c of
       (c1, Inl e) \<Rightarrow> (c1, Inl e)
     | (c1, Inr _) \<Rightarrow>
         (case body c1 of
            (c2, Inl e) \<Rightarrow> (rollback c1 c2, Inl e)
          | (c2, Inr x) \<Rightarrow>
              (case exec (\<lambda>d. (d, ())) c2 of
                 (c3, Inl e) \<Rightarrow> (rollback c1 c3, Inl e)
               | (c3, Inr _) \<Rightarrow> (c3, Inr x))))"

lemma exec_ok [simp]:
  "outcomes c = [] \<Longrightarrow> exec stmt c = (c\<lparr>data := fst (stmt (data c))\<rparr>, Inr (snd (stmt (data c))))"
  by (simp add: exec_def split: prod.split)

lemma query_row_ok [simp]:
  "outcomes c = [] \<Longrightarrow> query_row stmt c = (c\<lparr>data := fst (stmt (data c))\<rparr>, first_row (snd (stmt (data c))))"
  by (simp add: query_row_def)

lemma sql_bind_ok [simp]: "m c = (c', Inr x) \<Longrightarrow> sql_bind m f c = f x c'"
  by (simp add: sql_bind_def)

lemma sql_bind_fail [simp]: "m c = (c', Inl e) \<Longrightarrow> sql_bind m f c = (c', Inl e)"
  by (simp add: sql_bind_def)

lemma sql_return_apply [simp]: "sql_return x c = (c, Inr x)"
  by (simp add: sql_return_def)

lemma sql_fail_apply [simp]: "sql_fail e c = (c, Inl e)"
  by (simp add: sql_fail_def)

lemma in_transaction_ok:
  "outcomes c = [] \<Longrightarrow> body c = (c', Inr x) \<Longrightarrow> outcomes c' = [] \<Longrightarrow> in_transaction body c = (c', Inr x)"
  by (simp add: in_transaction_def)

text \<open>A transaction that does not succeed leaves the tables as they were.\<close>

lemma in_transaction_fail:
  assumes "in_transaction body c = (c', Inl e)"
  shows "(data c')\<lparr>seqs := q\<rparr> = (data c)\<lparr>seqs := q\<rparr>"
  using assms by (auto simp: in_transaction_def exec_def rollback_def split: prod.splits sum.splits if_splits)

text \<open>
  A run that no failure stopped is the run on a connection that does not fail: failures have no other
  effect than their errors. \<open>ErrDB\<close> is the error of a statement that failed.
\<close>

definition steady :: "'a sql \<Rightarrow> bool" where
  "steady m \<longleftrightarrow> (\<forall>c c' r. m c = (c', r) \<longrightarrow> r \<noteq> Inl ErrDB \<longrightarrow>
    m (c\<lparr>outcomes := []\<rparr>) = (c'\<lparr>outcomes := []\<rparr>, r))"

named_theorems steady_intros

lemma steadyD: "steady m \<Longrightarrow> m c = (c', r) \<Longrightarrow> r \<noteq> Inl ErrDB \<Longrightarrow> m (c\<lparr>outcomes := []\<rparr>) = (c'\<lparr>outcomes := []\<rparr>, r)"
  by (simp add: steady_def)

lemma steady_exec [steady_intros]: "steady (exec stmt)"
  by (auto simp: steady_def exec_def split: prod.splits if_splits)

lemma steady_query_row [steady_intros]: "steady (query_row stmt)"
  by (auto simp: steady_def query_row_def exec_def split: prod.splits if_splits)

lemma steady_return [steady_intros]: "steady (sql_return x)"
  by (simp add: steady_def)

lemma steady_fail [steady_intros]: "steady (sql_fail e)"
  by (simp add: steady_def)

lemma steady_bind [steady_intros]:
  assumes "steady m" "\<And>x. steady (f x)"
  shows "steady (sql_bind m f)"
  unfolding steady_def
proof (intro allI impI)
  fix c c' r assume r: "sql_bind m f c = (c', r)" "r \<noteq> Inl ErrDB"
  obtain c1 r1 where m: "m c = (c1, r1)" by fastforce
  show "sql_bind m f (c\<lparr>outcomes := []\<rparr>) = (c'\<lparr>outcomes := []\<rparr>, r)"
  proof (cases r1)
    case (Inl e)
    with m r have "m (c\<lparr>outcomes := []\<rparr>) = (c'\<lparr>outcomes := []\<rparr>, Inl e)" "r = Inl e"
      using steadyD [OF assms(1) m] by auto
    then show ?thesis by simp
  next
    case (Inr x)
    then have "m (c\<lparr>outcomes := []\<rparr>) = (c1\<lparr>outcomes := []\<rparr>, Inr x)" "f x c1 = (c', r)"
      using steadyD [OF assms(1) m] m r(1) by auto
    then show ?thesis
      using steadyD [OF assms(2)] r(2) by simp
  qed
qed

lemma steady_transaction [steady_intros]:
  assumes "steady body"
  shows "steady (in_transaction body)"
proof -
  let ?bgn = "exec (\<lambda>d. (d, ()))"
  have "in_transaction body (c\<lparr>outcomes := []\<rparr>) = (c'\<lparr>outcomes := []\<rparr>, r)"
    if t: "in_transaction body c = (c', r)" "r \<noteq> Inl ErrDB" for c c' r
  proof -
    obtain c1 r1 where b: "?bgn c = (c1, r1)" by fastforce
    with t obtain u where u: "r1 = Inr u"
      by (cases r1) (auto simp: in_transaction_def exec_def split: prod.splits if_splits)
    have b': "?bgn (c\<lparr>outcomes := []\<rparr>) = (c1\<lparr>outcomes := []\<rparr>, Inr ())"
      using steadyD [OF steady_exec b] u by simp
    obtain c2 r2 where c2: "body c1 = (c2, r2)" by fastforce
    have ne: "r2 \<noteq> Inl ErrDB"
      using t b u c2 by (auto simp: in_transaction_def)
    have body': "body (c1\<lparr>outcomes := []\<rparr>) = (c2\<lparr>outcomes := []\<rparr>, r2)"
      using steadyD [OF assms c2 ne] .
    show ?thesis
    proof (cases r2)
      case (Inl e)
      with t b u c2 have "c' = rollback c1 c2" "r = Inl e"
        by (simp_all add: in_transaction_def)
      with b' body' Inl show ?thesis
        by (simp add: in_transaction_def rollback_def)
    next
      case (Inr x)
      obtain c3 r3 where c3: "?bgn c2 = (c3, r3)" by fastforce
      with t b u c2 Inr have "r3 \<noteq> Inl ErrDB"
        by (auto simp: in_transaction_def)
      with c3 have c3': "?bgn (c2\<lparr>outcomes := []\<rparr>) = (c3\<lparr>outcomes := []\<rparr>, r3)"
        by (rule steadyD [OF steady_exec])
      from c3 have "r3 = Inr () \<or> r3 = Inl ErrDB"
        by (auto simp: exec_def split: prod.splits if_splits)
      with \<open>r3 \<noteq> Inl ErrDB\<close> have r3: "r3 = Inr ()" by simp
      with t b u c2 Inr c3 have "c' = c3" "r = Inr x"
        by (simp_all add: in_transaction_def)
      with b' body' Inr c3' r3 show ?thesis
        by (simp add: in_transaction_def)
    qed
  qed
  then show ?thesis
    by (simp add: steady_def)
qed

end
