(* ===== verification/ChainStatements.thy ===== *)
theory ChainStatements
  imports SqlTables
begin

text \<open>
  The statements and queries that move blocks between the main chain and a side chain
  (\<open>db/dcrpg/queries.go\<close> and \<open>db/dcrpg/internal\<close>): for each statement what it does to the tables and what it
  answers, and for each Go function the statements that it runs.
\<close>

section \<open>Blocks\<close>

definition UpdateBlockMainchain :: "string \<Rightarrow> bool \<Rightarrow> db \<Rightarrow> db \<times> string list" where
  "UpdateBlockMainchain hash m d =
    (d\<lparr>t_blocks := update_where (\<lambda>r. b_hash r = hash) (\<lambda>r. r\<lparr>b_is_mainchain := m\<rparr>) (t_blocks d)\<rparr>,
     map b_previous_hash (filter (\<lambda>r. b_hash r = hash) (t_blocks d)))"

definition SelectBlockHeightByHash :: "string \<Rightarrow> db \<Rightarrow> db \<times> int list" where
  "SelectBlockHeightByHash hash d = (d, map b_height (filter (\<lambda>r. b_hash r = hash) (t_blocks d)))"

definition SelectBlockFlags :: "string \<Rightarrow> db \<Rightarrow> db \<times> (bool \<times> bool) list" where
  "SelectBlockFlags hash d =
    (d, map (\<lambda>r. (b_is_valid r, b_is_mainchain r)) (filter (\<lambda>r. b_hash r = hash) (t_blocks d)))"

definition UpdateLastBlockValid_sql :: "nat \<Rightarrow> bool \<Rightarrow> db \<Rightarrow> db \<times> nat" where
  "UpdateLastBlockValid_sql i valid d =
    (d\<lparr>t_blocks := update_where (\<lambda>r. b_id r = i) (\<lambda>r. r\<lparr>b_is_valid := valid\<rparr>) (t_blocks d)\<rparr>,
     count_where (\<lambda>r. b_id r = i) (t_blocks d))"

text \<open>
  \<open>ORDER BY height DESC LIMIT 1\<close>: a row of the greatest height; among several the first.
\<close>

fun highest :: "('r \<Rightarrow> int) \<Rightarrow> 'r list \<Rightarrow> 'r list" where
  "highest h [] = []"
| "highest h (r # rs) =
    (case highest h rs of
       [] \<Rightarrow> [r]
     | r' # _ \<Rightarrow> if h r \<ge> h r' then [r] else [r'])"

definition RetrieveBestBlockHeight_sql :: "db \<Rightarrow> db \<times> (nat \<times> string \<times> int) list" where
  "RetrieveBestBlockHeight_sql d =
    (d, map (\<lambda>r. (b_id r, b_hash r, b_height r)) (highest b_height (filter b_is_mainchain (t_blocks d))))"

definition SetMainchainByBlockHash :: "string \<Rightarrow> bool \<Rightarrow> string sql" where
  "SetMainchainByBlockHash hash m = query_row (UpdateBlockMainchain hash m)"

definition RetrieveBlockHeight :: "string \<Rightarrow> int sql" where
  "RetrieveBlockHeight hash = query_row (SelectBlockHeightByHash hash)"

definition RetrieveBlockFlags :: "string \<Rightarrow> (bool \<times> bool) sql" where
  "RetrieveBlockFlags hash = query_row (SelectBlockFlags hash)"

definition UpdateLastBlockValid :: "nat \<Rightarrow> bool \<Rightarrow> unit sql" where
  "UpdateLastBlockValid i valid =
    sql_bind (exec (UpdateLastBlockValid_sql i valid))
      (\<lambda>numRows. if numRows \<noteq> 1 then sql_fail (ErrOther ''UpdateLastBlockValid failed to update exactly 1 row'')
         else sql_return ())"

text \<open>No block is not an error: the height is -1 and the hash is empty.\<close>

definition RetrieveBestBlock :: "(int \<times> string) sql" where
  "RetrieveBestBlock c =
    (case query_row RetrieveBestBlockHeight_sql c of
       (c', Inl ErrNoRows) \<Rightarrow> (c', Inr (-1, []))
     | (c', Inl e) \<Rightarrow> (c', Inl e)
     | (c', Inr (i, hash, height)) \<Rightarrow> (c', Inr (height, hash)))"

section \<open>The linked list of blocks\<close>

definition SelectBlockChainRowIDByHash :: "string \<Rightarrow> db \<Rightarrow> db \<times> nat list" where
  "SelectBlockChainRowIDByHash hash d =
    (d, map c_block_db_id (filter (\<lambda>r. c_this_hash r = hash) (t_block_chain d)))"

definition UpdateBlockNext_sql :: "nat \<Rightarrow> string \<Rightarrow> db \<Rightarrow> db \<times> nat" where
  "UpdateBlockNext_sql i next d =
    (d\<lparr>t_block_chain := update_where (\<lambda>r. c_block_db_id r = i) (\<lambda>r. r\<lparr>c_next_hash := next\<rparr>) (t_block_chain d)\<rparr>,
     count_where (\<lambda>r. c_block_db_id r = i) (t_block_chain d))"

definition UpdateBlockNextByHash_sql :: "string \<Rightarrow> string \<Rightarrow> db \<Rightarrow> db \<times> nat" where
  "UpdateBlockNextByHash_sql this next d =
    (d\<lparr>t_block_chain := update_where (\<lambda>r. c_this_hash r = this) (\<lambda>r. r\<lparr>c_next_hash := next\<rparr>) (t_block_chain d)\<rparr>,
     count_where (\<lambda>r. c_this_hash r = this) (t_block_chain d))"

definition UpdateBlockNextByNextHash_sql :: "string \<Rightarrow> string \<Rightarrow> db \<Rightarrow> db \<times> nat" where
  "UpdateBlockNextByNextHash_sql current next d =
    (d\<lparr>t_block_chain := update_where (\<lambda>r. c_next_hash r = current) (\<lambda>r. r\<lparr>c_next_hash := next\<rparr>) (t_block_chain d)\<rparr>,
     count_where (\<lambda>r. c_next_hash r = current) (t_block_chain d))"

definition RetrieveBlockChainDbID :: "string \<Rightarrow> nat sql" where
  "RetrieveBlockChainDbID hash = query_row (SelectBlockChainRowIDByHash hash)"

definition one_row :: "nat sql \<Rightarrow> unit sql" where
  "one_row m = sql_bind m (\<lambda>numRows. if numRows \<noteq> 1 then sql_fail (ErrNotOneRow numRows) else sql_return ())"

definition UpdateBlockNext :: "nat \<Rightarrow> string \<Rightarrow> unit sql" where
  "UpdateBlockNext i next = one_row (exec (UpdateBlockNext_sql i next))"

definition UpdateBlockNextByHash :: "string \<Rightarrow> string \<Rightarrow> unit sql" where
  "UpdateBlockNextByHash this next = one_row (exec (UpdateBlockNextByHash_sql this next))"

definition UpdateBlockNextByNextHash :: "string \<Rightarrow> string \<Rightarrow> unit sql" where
  "UpdateBlockNextByNextHash current next = one_row (exec (UpdateBlockNextByNextHash_sql current next))"

section \<open>Transactions\<close>

definition TxTreeRegular :: int where
  "TxTreeRegular = 0"

definition TxTreeStake :: int where
  "TxTreeStake = 1"

definition UpdateTxnsMainchainByBlock :: "bool \<Rightarrow> string \<Rightarrow> db \<Rightarrow> db \<times> nat list" where
  "UpdateTxnsMainchainByBlock m hash d =
    (d\<lparr>t_transactions := update_where (\<lambda>r. t_block_hash r = hash) (\<lambda>r. r\<lparr>t_is_mainchain := m\<rparr>) (t_transactions d)\<rparr>,
     map t_id (filter (\<lambda>r. t_block_hash r = hash) (t_transactions d)))"

text \<open>The statement has no RETURNING clause, so it answers with no rows.\<close>

definition UpdateRegularTxnsValidByBlock :: "bool \<Rightarrow> string \<Rightarrow> db \<Rightarrow> db \<times> nat list" where
  "UpdateRegularTxnsValidByBlock valid hash d =
    (d\<lparr>t_transactions := update_where (\<lambda>r. t_block_hash r = hash \<and> t_tree r = 0) (\<lambda>r. r\<lparr>t_is_valid := valid\<rparr>)
       (t_transactions d)\<rparr>, [])"

definition SelectTxnsVinsVoutsByBlock :: "string \<Rightarrow> db \<Rightarrow> db \<times> (nat list \<times> nat list \<times> bool) list" where
  "SelectTxnsVinsVoutsByBlock hash d =
    (d, map (\<lambda>r. (t_vin_db_ids r, t_vout_db_ids r, t_is_mainchain r))
      (filter (\<lambda>r. t_block_hash r = hash) (t_transactions d)))"

definition SelectRegularTxnsVinsVoutsByBlock :: "string \<Rightarrow> db \<Rightarrow> db \<times> (nat list \<times> nat list \<times> bool) list" where
  "SelectRegularTxnsVinsVoutsByBlock hash d =
    (d, map (\<lambda>r. (t_vin_db_ids r, t_vout_db_ids r, t_is_mainchain r))
      (filter (\<lambda>r. t_block_hash r = hash \<and> t_tree r = 0) (t_transactions d)))"

definition SelectTxsByBlockHash :: "string \<Rightarrow> db \<Rightarrow> db \<times> (nat \<times> string \<times> nat \<times> int \<times> int) list" where
  "SelectTxsByBlockHash hash d =
    (d, map (\<lambda>r. (t_id r, t_tx_hash r, t_block_index r, t_tree r, t_block_time r))
      (filter (\<lambda>r. t_block_hash r = hash) (t_transactions d)))"

definition SelectTxsBestBlock :: "db \<Rightarrow> db \<times> (int \<times> string) list" where
  "SelectTxsBestBlock d =
    (d, map (\<lambda>r. (t_block_height r, t_block_hash r)) (highest t_block_height (filter t_is_mainchain (t_transactions d))))"

definition UpdateTransactionsMainchain :: "string \<Rightarrow> bool \<Rightarrow> (nat \<times> nat list) sql" where
  "UpdateTransactionsMainchain hash m =
    sql_bind (exec (UpdateTxnsMainchainByBlock m hash)) (\<lambda>ids. sql_return (length ids, ids))"

definition UpdateTransactionsValid :: "string \<Rightarrow> bool \<Rightarrow> (nat \<times> nat list) sql" where
  "UpdateTransactionsValid hash valid =
    sql_bind (exec (UpdateRegularTxnsValidByBlock valid hash)) (\<lambda>ids. sql_return (length ids, ids))"

definition RetrieveTxnsVinsVoutsByBlock :: "string \<Rightarrow> bool \<Rightarrow> (nat list \<times> nat list \<times> bool) list sql" where
  "RetrieveTxnsVinsVoutsByBlock hash onlyRegular =
    exec (if onlyRegular then SelectRegularTxnsVinsVoutsByBlock hash else SelectTxnsVinsVoutsByBlock hash)"

definition RetrieveTxsByBlockHash :: "string \<Rightarrow> (nat \<times> string \<times> nat \<times> int \<times> int) list sql" where
  "RetrieveTxsByBlockHash hash = exec (SelectTxsByBlockHash hash)"

text \<open>No transaction is not an error: the height is -1 and the hash is empty.\<close>

definition RetrieveTxsBestBlockMainchain :: "(int \<times> string) sql" where
  "RetrieveTxsBestBlockMainchain c =
    (case query_row SelectTxsBestBlock c of
       (c', Inl ErrNoRows) \<Rightarrow> (c', Inr (-1, []))
     | (c', r) \<Rightarrow> (c', r))"

section \<open>Inputs and outputs\<close>

definition SetIsMainchainByVinID :: "nat \<Rightarrow> bool \<Rightarrow> db \<Rightarrow> db \<times> nat" where
  "SetIsMainchainByVinID i m d =
    (d\<lparr>t_vins := update_where (\<lambda>r. i_id r = i) (\<lambda>r. r\<lparr>i_is_mainchain := m\<rparr>) (t_vins d)\<rparr>,
     count_where (\<lambda>r. i_id r = i) (t_vins d))"

definition SetIsValidIsMainchainByTxHash :: "bool \<Rightarrow> bool \<Rightarrow> string \<Rightarrow> int \<Rightarrow> db \<Rightarrow> db \<times> nat" where
  "SetIsValidIsMainchainByTxHash valid m hash time d =
    (d\<lparr>t_vins := update_where (\<lambda>r. i_tx_hash r = hash \<and> i_block_time r = time)
       (\<lambda>r. r\<lparr>i_is_valid := valid, i_is_mainchain := m\<rparr>) (t_vins d)\<rparr>,
     count_where (\<lambda>r. i_tx_hash r = hash \<and> i_block_time r = time) (t_vins d))"

text \<open>
  Both statements join the outputs with the transactions of a block that spend them; a NULL spender matches
  no transaction.
\<close>

definition spent_by :: "(transactions_row \<Rightarrow> bool) \<Rightarrow> db \<Rightarrow> vouts_row \<Rightarrow> bool" where
  "spent_by P d o1 \<longleftrightarrow> (\<exists>t \<in> set (t_transactions d). P t \<and> o_spend_tx_row_id o1 = Some (t_id t))"

definition clear_spent :: "(transactions_row \<Rightarrow> bool) \<Rightarrow> db \<Rightarrow> db \<times> nat" where
  "clear_spent P d =
    (d\<lparr>t_vouts := update_where (spent_by P d) (\<lambda>r. r\<lparr>o_spend_tx_row_id := None\<rparr>) (t_vouts d)\<rparr>,
     count_where (spent_by P d) (t_vouts d))"

definition clearVoutRegularSpendTxRowIDs :: "string \<Rightarrow> nat sql" where
  "clearVoutRegularSpendTxRowIDs hash = exec (clear_spent (\<lambda>t. t_tree t = 0 \<and> t_block_hash t = hash))"

definition clearVoutAllSpendTxRowIDs :: "string \<Rightarrow> nat sql" where
  "clearVoutAllSpendTxRowIDs hash = exec (clear_spent (\<lambda>t. t_block_hash t = hash))"

fun setVinsMainchainOneTxn :: "nat list \<Rightarrow> bool \<Rightarrow> nat sql" where
  "setVinsMainchainOneTxn [] m = sql_return 0"
| "setVinsMainchainOneTxn (i # is) m =
    sql_bind (exec (SetIsMainchainByVinID i m)) (\<lambda>n.
      sql_bind (setVinsMainchainOneTxn is m) (\<lambda>k. sql_return (n + k)))"

fun setVinsMainchainForMany :: "(nat list \<times> bool) list \<Rightarrow> nat sql" where
  "setVinsMainchainForMany [] = sql_return 0"
| "setVinsMainchainForMany ((vs, m) # rest) =
    sql_bind (setVinsMainchainOneTxn vs m) (\<lambda>n.
      sql_bind (setVinsMainchainForMany rest) (\<lambda>k. sql_return (n + k)))"

text \<open>
  The identifiers are returned with an error too when only the update of the inputs failed: \<open>None\<close> are the
  nil slices of a failed query.
\<close>

definition SetVinsMainchainByBlock :: "string \<Rightarrow>
    conn \<Rightarrow> conn \<times> (nat list list \<times> nat list list) \<times> (sql_error + nat)" where
  "SetVinsMainchainByBlock hash c =
    (case RetrieveTxnsVinsVoutsByBlock hash False c of
       (c1, Inl e) \<Rightarrow> (c1, ([], []), Inl e)
     | (c1, Inr rows) \<Rightarrow>
         (case setVinsMainchainForMany (map (\<lambda>(vs, os, m). (vs, m)) rows) c1 of
            (c2, r) \<Rightarrow> (c2, (map (\<lambda>(vs, os, m). vs) rows, map (\<lambda>(vs, os, m). os) rows), r)))"

text \<open>Whether an input belongs to the stake tree: those stay valid.\<close>

fun UpdateLastVins_loop :: "bool \<Rightarrow> bool \<Rightarrow> (nat \<times> string \<times> nat \<times> int \<times> int) list \<Rightarrow> unit sql" where
  "UpdateLastVins_loop valid m [] = sql_return ()"
| "UpdateLastVins_loop valid m ((i, hash, ind, tree, time) # txs) =
    sql_bind (exec (SetIsValidIsMainchainByTxHash (valid \<or> tree = TxTreeStake) m hash time))
      (\<lambda>n. if n < 1 then sql_fail (ErrOther ''failed to update at least 1 row'')
         else UpdateLastVins_loop valid m txs)"

definition UpdateLastVins :: "string \<Rightarrow> bool \<Rightarrow> bool \<Rightarrow> unit sql" where
  "UpdateLastVins hash valid m =
    sql_bind (RetrieveTxsByBlockHash hash) (\<lambda>txs. UpdateLastVins_loop valid m txs)"

section \<open>Addresses\<close>

definition SetAddressMainchainForVinIDs :: "bool \<Rightarrow> nat \<Rightarrow> db \<Rightarrow> db \<times> string list" where
  "SetAddressMainchainForVinIDs m i d =
    (d\<lparr>t_addresses := update_where (\<lambda>r. \<not> a_is_funding r \<and> a_tx_vin_vout_row_id r = i)
       (\<lambda>r. r\<lparr>a_valid_mainchain := m\<rparr>) (t_addresses d)\<rparr>,
     map a_address (filter (\<lambda>r. \<not> a_is_funding r \<and> a_tx_vin_vout_row_id r = i) (t_addresses d)))"

definition SetAddressMainchainForVoutIDs :: "bool \<Rightarrow> nat \<Rightarrow> db \<Rightarrow> db \<times> string list" where
  "SetAddressMainchainForVoutIDs m i d =
    (d\<lparr>t_addresses := update_where (\<lambda>r. a_is_funding r \<and> a_tx_vin_vout_row_id r = i)
       (\<lambda>r. r\<lparr>a_valid_mainchain := m\<rparr>) (t_addresses d)\<rparr>,
     map a_address (filter (\<lambda>r. a_is_funding r \<and> a_tx_vin_vout_row_id r = i) (t_addresses d)))"

text \<open>
  One statement per identifier; its rows are updated all, and the address of the first is remembered. The
  result is the slice of the keys of a map, here in the order of their insertion, and is nil after an error.
\<close>

fun update_addresses :: "(nat \<Rightarrow> db \<Rightarrow> db \<times> string list) \<Rightarrow> nat list \<Rightarrow> string list \<Rightarrow> nat \<Rightarrow>
    (string list \<times> nat) sql" where
  "update_addresses stmt [] addrs n c = (c, Inr (addrs, n))"
| "update_addresses stmt (i # is) addrs n c =
    (case query_row (stmt i) c of
       (c', Inl ErrNoRows) \<Rightarrow> update_addresses stmt is addrs n c'
     | (c', Inl e) \<Rightarrow> (c', Inl e)
     | (c', Inr address) \<Rightarrow> update_addresses stmt is (List.insert address addrs) (n + 1) c')"

definition UpdateAddressesMainchainByIDs :: "nat list list \<Rightarrow> nat list list \<Rightarrow> bool \<Rightarrow>
    (string list \<times> nat \<times> nat) sql" where
  "UpdateAddressesMainchainByIDs vinsBlk voutsBlk m =
    sql_bind (update_addresses (SetAddressMainchainForVinIDs m) (concat vinsBlk) [] 0) (\<lambda>(addrs, numSpending).
      sql_bind (update_addresses (SetAddressMainchainForVoutIDs m) (concat voutsBlk) addrs 0) (\<lambda>(addrs', numFunding).
        sql_return (addrs', numSpending, numFunding)))"

definition UpdateLastAddressesValid :: "string \<Rightarrow> bool \<Rightarrow> string list sql" where
  "UpdateLastAddressesValid hash valid =
    sql_bind (RetrieveTxnsVinsVoutsByBlock hash True) (\<lambda>rows.
      sql_bind (UpdateAddressesMainchainByIDs (map (\<lambda>(vs, os, m). vs) rows) (map (\<lambda>(vs, os, m). os) rows) valid)
        (\<lambda>(addrs, ns, nf). sql_return addrs))"

section \<open>Votes, tickets and the treasury\<close>

definition UpdateVotesMainchainByBlock :: "bool \<Rightarrow> string \<Rightarrow> db \<Rightarrow> db \<times> nat" where
  "UpdateVotesMainchainByBlock m hash d =
    (d\<lparr>t_votes := update_where (\<lambda>r. v_block_hash r = hash) (\<lambda>r. r\<lparr>v_is_mainchain := m\<rparr>) (t_votes d)\<rparr>,
     count_where (\<lambda>r. v_block_hash r = hash) (t_votes d))"

definition UpdateTicketsMainchainByBlock :: "bool \<Rightarrow> string \<Rightarrow> db \<Rightarrow> db \<times> nat" where
  "UpdateTicketsMainchainByBlock m hash d =
    (d\<lparr>t_tickets := update_where (\<lambda>r. k_block_hash r = hash) (\<lambda>r. r\<lparr>k_is_mainchain := m\<rparr>) (t_tickets d)\<rparr>,
     count_where (\<lambda>r. k_block_hash r = hash) (t_tickets d))"

definition UpdateTreasuryMainchainByBlock :: "bool \<Rightarrow> string \<Rightarrow> db \<Rightarrow> db \<times> nat" where
  "UpdateTreasuryMainchainByBlock m hash d =
    (d\<lparr>t_treasury := update_where (\<lambda>r. y_block_hash r = hash) (\<lambda>r. r\<lparr>y_is_mainchain := m\<rparr>) (t_treasury d)\<rparr>,
     count_where (\<lambda>r. y_block_hash r = hash) (t_treasury d))"

definition UpdateVotesMainchain :: "string \<Rightarrow> bool \<Rightarrow> nat sql" where
  "UpdateVotesMainchain hash m = exec (UpdateVotesMainchainByBlock m hash)"

definition UpdateTicketsMainchain :: "string \<Rightarrow> bool \<Rightarrow> nat sql" where
  "UpdateTicketsMainchain hash m = exec (UpdateTicketsMainchainByBlock m hash)"

definition UpdateTreasuryMainchain :: "string \<Rightarrow> bool \<Rightarrow> nat sql" where
  "UpdateTreasuryMainchain hash m = exec (UpdateTreasuryMainchainByBlock m hash)"

section \<open>The best block of the meta table\<close>

definition SetMetaDBBestBlock :: "int \<Rightarrow> string \<Rightarrow> db \<Rightarrow> db \<times> nat" where
  "SetMetaDBBestBlock height hash d =
    (d\<lparr>t_meta := map (\<lambda>r. r\<lparr>best_block_height := height, best_block_hash := hash\<rparr>) (t_meta d)\<rparr>, length (t_meta d))"

definition SelectMetaDBBestBlock :: "db \<Rightarrow> db \<times> (int \<times> string) list" where
  "SelectMetaDBBestBlock d = (d, map (\<lambda>r. (best_block_height r, best_block_hash r)) (t_meta d))"

definition SetDBBestBlock :: "string \<Rightarrow> int \<Rightarrow> unit sql" where
  "SetDBBestBlock hash height =
    sql_bind (exec (SetMetaDBBestBlock height hash))
      (\<lambda>numRows. if numRows \<noteq> 1 then sql_fail (ErrOther ''failed to update exactly 1 row in meta table'')
         else sql_return ())"

definition DBBestBlock :: "(string \<times> int) sql" where
  "DBBestBlock c =
    (case query_row SelectMetaDBBestBlock c of
       (c', Inl ErrNoRows) \<Rightarrow> (c', Inr ([], -1))
     | (c', Inl e) \<Rightarrow> (c', Inl e)
     | (c', Inr (height, hash)) \<Rightarrow> (c', Inr (hash, height)))"

end
