(* ===== verification/UtxoStore.thy ===== *)
theory UtxoStore
  imports SqlTables
begin

text \<open>
  The cache of unspent outputs and the cache of ticket identifiers of \<open>db/dcrpg/pgblockchain.go\<close>. The
  store of outputs is a map of maps; what it promises is that of one map from outpoints, which loses an
  output when it is taken.
\<close>

section \<open>The store of unspent outputs\<close>

record UTXOData =
  ud_Addresses :: "string list"
  ud_Value :: int
  ud_Mixed :: bool
  ud_VoutDbID :: int

record UTXO =
  ux_TxHash :: string
  ux_TxIndex :: nat
  ux_Data :: UTXOData

type_synonym utxoStore = "(string, (nat, UTXOData) gomap) gomap"

definition newUtxoStore :: utxoStore where
  "newUtxoStore = []"

definition utxo_Peek :: "string \<Rightarrow> nat \<Rightarrow> utxoStore \<Rightarrow> UTXOData option" where
  "utxo_Peek txHash txIndex u =
    (case mget u txHash of
       None \<Rightarrow> None
     | Some txVals \<Rightarrow> mget txVals txIndex)"

text \<open>An output that is found is taken out, and with the last of its transaction the map of that one.\<close>

definition utxo_Get :: "string \<Rightarrow> nat \<Rightarrow> utxoStore \<Rightarrow> utxoStore \<times> UTXOData option" where
  "utxo_Get txHash txIndex u =
    (case mget u txHash of
       None \<Rightarrow> (u, None)
     | Some txVals \<Rightarrow>
         (case mget txVals txIndex of
            None \<Rightarrow> (u, None)
          | Some utxoData \<Rightarrow>
              (let txVals' = mdel txIndex txVals
               in (if length txVals' = 0 then mdel txHash u else mput txHash txVals' u, Some utxoData))))"

definition utxo_Set :: "string \<Rightarrow> nat \<Rightarrow> UTXOData \<Rightarrow> utxoStore \<Rightarrow> utxoStore" where
  "utxo_Set txHash txIndex utxoData u =
    (case mget u txHash of
       None \<Rightarrow> mput txHash [(txIndex, utxoData)] u
     | Some txUTXOVals \<Rightarrow> mput txHash (mput txIndex utxoData txUTXOVals) u)"

definition utxo_Reinit :: "UTXO list \<Rightarrow> utxoStore \<Rightarrow> utxoStore" where
  "utxo_Reinit utxos u =
    (if utxos = [] then u
     else foldl (\<lambda>u x. utxo_Set (ux_TxHash x) (ux_TxIndex x) (ux_Data x) u) newUtxoStore utxos)"

definition utxo_Size :: "utxoStore \<Rightarrow> nat" where
  "utxo_Size u = sum_list (map (\<lambda>(txHash, m). length m) u)"

section \<open>What the store promises\<close>

definition utxo_inv :: "utxoStore \<Rightarrow> bool" where
  "utxo_inv u \<longleftrightarrow> wf_map u \<and> (\<forall>(h, m) \<in> set u. wf_map m \<and> m \<noteq> [])"

lemma utxo_inv_get: "utxo_inv u \<Longrightarrow> mget u h = Some m \<Longrightarrow> wf_map m \<and> m \<noteq> []"
  unfolding utxo_inv_def using mget_in_set by fastforce

lemma set_mput: "wf_map m \<Longrightarrow> (k', v') \<in> set (mput k v m) \<longleftrightarrow> (if k' = k then v' = v else (k', v') \<in> set m)"
  using gm.get_put [of k v m k'] gm.invar_put [of m k v] in_set_mget mget_in_set
  by (metis option.inject)

lemma set_mdel: "wf_map m \<Longrightarrow> (k', v') \<in> set (mdel k m) \<longleftrightarrow> k' \<noteq> k \<and> (k', v') \<in> set m"
  using gm.get_del [of k m k'] gm.invar_del [of m k] in_set_mget mget_in_set
  by (metis option.distinct(1))

lemma utxo_inv_new: "utxo_inv newUtxoStore"
  by (simp add: utxo_inv_def newUtxoStore_def)

lemma mput_not_Nil [simp]: "mput k v m \<noteq> []"
  using gm.get_put [of k v m k] by (metis gm.get_empty option.distinct(1))

lemma utxo_inv_put:
  assumes "utxo_inv u" "wf_map m" "m \<noteq> []"
  shows "utxo_inv (mput h m u)"
  using assms unfolding utxo_inv_def by (auto simp: set_mput split: if_splits)

lemma utxo_inv_Set: "utxo_inv u \<Longrightarrow> utxo_inv (utxo_Set h i x u)"
  by (auto simp: utxo_Set_def wf_map_Cons dest: utxo_inv_get intro!: utxo_inv_put split: option.split)

lemma utxo_inv_Get: "utxo_inv u \<Longrightarrow> utxo_inv (fst (utxo_Get h i u))"
proof -
  assume u: "utxo_inv u"
  have "utxo_inv (mdel h u)"
    using u by (auto simp: utxo_inv_def set_mdel)
  with u show ?thesis
    by (auto simp: utxo_Get_def Let_def dest: utxo_inv_get intro!: utxo_inv_put split: option.split)
qed

lemma Peek_Set:
  "utxo_Peek h' i' (utxo_Set h i x u) = (if h' = h \<and> i' = i then Some x else utxo_Peek h' i' u)"
  by (auto simp: utxo_Peek_def utxo_Set_def mget_def [of "[(i, x)]"] split: option.split)

lemma Get_result: "snd (utxo_Get h i u) = utxo_Peek h i u"
  by (simp add: utxo_Get_def utxo_Peek_def Let_def split: option.split)

lemma Peek_Get:
  "utxo_Peek h' i' (fst (utxo_Get h i u)) = (if h' = h \<and> i' = i then None else utxo_Peek h' i' u)"
proof (cases "mget u h")
  case (Some m)
  have "mget m i' = None" if "mdel i m = []" "i' \<noteq> i" for i'
    using gm.get_del [of i m i'] that by simp
  then show ?thesis
    by (auto simp: utxo_Get_def utxo_Peek_def Let_def Some split: option.splits)
qed (simp add: utxo_Get_def utxo_Peek_def)

text \<open>The size is the number of outpoints.\<close>

definition outpoints :: "utxoStore \<Rightarrow> (string \<times> nat) list" where
  "outpoints u = concat (map (\<lambda>(h, m). map (Pair h) (mkeys m)) u)"

lemma Size_outpoints: "utxo_Size u = length (outpoints u)"
  by (simp add: utxo_Size_def outpoints_def length_concat comp_def case_prod_unfold)

lemma in_outpoints:
  assumes "utxo_inv u"
  shows "(h, i) \<in> set (outpoints u) \<longleftrightarrow> utxo_Peek h i u \<noteq> None"
proof
  assume "(h, i) \<in> set (outpoints u)"
  then obtain m x where m: "(h, m) \<in> set u" "(i, x) \<in> set m"
    by (auto simp: outpoints_def mkeys_def)
  with assms have "mget u h = Some m" "mget m i = Some x"
    by (auto simp: utxo_inv_def intro!: in_set_mget)
  then show "utxo_Peek h i u \<noteq> None"
    by (simp add: utxo_Peek_def)
next
  assume "utxo_Peek h i u \<noteq> None"
  then obtain m x where "mget u h = Some m" "mget m i = Some x"
    by (auto simp: utxo_Peek_def split: option.splits)
  then have "(h, m) \<in> set u" "(i, x) \<in> set m"
    by (simp_all add: mget_in_set)
  then show "(h, i) \<in> set (outpoints u)"
    by (force simp: outpoints_def mkeys_def)
qed

lemma set_outpoints: "utxo_inv u \<Longrightarrow> set (outpoints u) = {(h, i). utxo_Peek h i u \<noteq> None}"
  using in_outpoints by auto

lemma distinct_outpoints: "utxo_inv u \<Longrightarrow> distinct (outpoints u)"
proof (induction u)
  case (Cons hm u)
  obtain h m where hm: "hm = (h, m)" by fastforce
  have "utxo_inv u" "wf_map m" "mget u h = None"
    using Cons.prems by (auto simp: utxo_inv_def hm wf_map_Cons)
  moreover have "h \<notin> fst ` set u"
    using \<open>mget u h = None\<close> by (simp add: mget_def map_of_eq_None_iff)
  ultimately show ?case
    using Cons.IH by (auto simp: outpoints_def hm distinct_map wf_map_def mkeys_def inj_on_def image_iff)
qed (simp add: outpoints_def)

lemma Size_card: "utxo_inv u \<Longrightarrow> utxo_Size u = card {(h, i). utxo_Peek h i u \<noteq> None}"
  by (metis Size_outpoints distinct_card distinct_outpoints set_outpoints)

section \<open>Ticket identifiers\<close>

text \<open>
  \<open>TicketTxnIDGetter\<close>: an identifier that is not in the cache is looked up in the tickets table, where a
  ticket can be in several blocks; those of the main chain come first.
\<close>

type_synonym idCache = "(string, nat) gomap"

definition SelectTicketIDByHash :: "string \<Rightarrow> db \<Rightarrow> db \<times> nat list" where
  "SelectTicketIDByHash txid d =
    (d, map k_id (filter (\<lambda>r. k_tx_hash r = txid \<and> k_is_mainchain r) (t_tickets d)
      @ filter (\<lambda>r. k_tx_hash r = txid \<and> \<not> k_is_mainchain r) (t_tickets d)))"

definition TxnDbID :: "string \<Rightarrow> bool \<Rightarrow> idCache \<Rightarrow> conn \<Rightarrow> conn \<times> idCache \<times> (sql_error + nat)" where
  "TxnDbID txid expire ids c =
    (case mget ids txid of
       Some dbID \<Rightarrow> (c, if expire then mdel txid ids else ids, Inr dbID)
     | None \<Rightarrow> (case query_row (SelectTicketIDByHash txid) c of (c', r) \<Rightarrow> (c', ids, r)))"

definition ids_Set :: "string \<Rightarrow> nat \<Rightarrow> idCache \<Rightarrow> idCache" where
  "ids_Set txid txDbID ids = mput txid txDbID ids"

definition ids_SetN :: "(string \<times> nat) list \<Rightarrow> idCache \<Rightarrow> idCache" where
  "ids_SetN pairs ids = foldl (\<lambda>m (txid, txDbID). mput txid txDbID m) ids pairs"

end
