(* ===== verification/ChainTip.thy ===== *)
theory ChainTip
  imports ChainStatements UtxoStore AddressCache
begin

text \<open>
  The chain database (\<open>ChainDB\<close> of \<open>db/dcrpg/pgblockchain.go\<close>) and the move of its best blocks to a side
  chain. The loop of \<open>TipToSideChain\<close> ends when it meets the given block, and only then: a failed query does
  not end it. \<open>None\<close> stands for a loop that goes on for ever.
\<close>

section \<open>State\<close>

text \<open>
  The connection, the best block, the caches, and the configuration that storing a block reads.
  \<open>lastBlock\<close> holds the row identifiers of the blocks that were stored since the start.
\<close>

record 'c ChainDB =
  db_conn :: conn
  bb_height :: int
  bb_hash :: string
  db_AddressCache :: "'c AddressCache"
  db_utxoCache :: utxoStore
  db_unspentTicketCache :: idCache
  db_lastBlock :: "(string, nat) gomap"
  db_mixSetDiffs :: "(int, int) gomap"
  db_dupChecks :: bool
  db_InBatchSync :: bool

section \<open>Moving one block\<close>

text \<open>
  The eight updates for a block. Errors are logged and the next update is made; without an answer the
  previous hash is empty. The addresses are the keys of a map.
\<close>

definition unset_block :: "string \<Rightarrow> conn \<times> string list \<Rightarrow> conn \<times> string list \<times> string" where
  "unset_block tipHash s =
    (let (c1, r1) = SetMainchainByBlockHash tipHash False (fst s);
         previousHash = (case r1 of Inl _ \<Rightarrow> [] | Inr h \<Rightarrow> h);
         c2 = fst (UpdateTransactionsMainchain tipHash False c1);
         c3 = fst (clearVoutAllSpendTxRowIDs tipHash c2);
         (c4, (vinDbIDsBlk, voutDbIDsBlk), _) = SetVinsMainchainByBlock tipHash c3;
         (c5, r5) = UpdateAddressesMainchainByIDs vinDbIDsBlk voutDbIDsBlk False c4;
         addresses = (case r5 of Inl _ \<Rightarrow> snd s | Inr (found, _) \<Rightarrow> List.union found (snd s));
         c6 = fst (UpdateVotesMainchain tipHash False c5);
         c7 = fst (UpdateTicketsMainchain tipHash False c6);
         c8 = fst (UpdateTreasuryMainchain tipHash False c7)
     in (c8, addresses, previousHash))"

section \<open>The loop\<close>

text \<open>The best block follows; its height is 0 when it cannot be retrieved.\<close>

definition tip_step :: "string \<Rightarrow> conn \<times> string list \<times> int \<times> nat \<Rightarrow> string \<times> conn \<times> string list \<times> int \<times> nat" where
  "tip_step tipHash s =
    (case s of (c, addresses, best, blocksMoved) \<Rightarrow>
      (let (c1, addresses1, previousHash) = unset_block tipHash (c, addresses);
           (c2, r) = RetrieveBlockHeight previousHash c1
       in (previousHash, c2, addresses1, (case r of Inl _ \<Rightarrow> 0 | Inr h \<Rightarrow> h), blocksMoved + 1)))"

partial_function (option) TipToSideChain_loop :: "string \<Rightarrow> string \<Rightarrow> conn \<times> string list \<times> int \<times> nat \<Rightarrow>
    (string \<times> conn \<times> string list \<times> int \<times> nat) option" where
  "TipToSideChain_loop mainRoot tipHash s =
    (if tipHash = mainRoot then Some (tipHash, s)
     else (case tip_step tipHash s of (previousHash, s') \<Rightarrow> TipToSideChain_loop mainRoot previousHash s'))"

definition TipToSideChain :: "string \<Rightarrow> 'c ChainDB \<Rightarrow> ('c ChainDB \<times> string \<times> nat) option" where
  "TipToSideChain mainRoot pgb =
    (case TipToSideChain_loop mainRoot (bb_hash pgb) (db_conn pgb, [], bb_height pgb, 0) of
       None \<Rightarrow> None
     | Some (tipHash, c, addresses, best, blocksMoved) \<Rightarrow>
         (let pgb1 = pgb\<lparr>db_conn := c, bb_height := best, bb_hash := tipHash\<rparr>
          in Some (if length addresses > 0
               then pgb1\<lparr>db_AddressCache := fst (Clear (Some addresses) (db_AddressCache pgb1))\<rparr>
               else pgb1, tipHash, blocksMoved)))"

end
