(* ===== verification/ChainTipContract.thy ===== *)
theory ChainTipContract
  imports ChainTip CacheContract
begin

text \<open>
  What the move of the best blocks to a side chain does to the tables: \<open>side_moved\<close> says it for a list of
  blocks at once, and \<open>TipToSideChain\<close> does it for the blocks from the tip down to the given one. It returns
  if and only if that block is met on the way.
\<close>

section \<open>The specification\<close>

definition parent_hash :: "db \<Rightarrow> string \<Rightarrow> string" where
  "parent_hash d h =
    (case filter (\<lambda>r. b_hash r = h) (t_blocks d) of [] \<Rightarrow> [] | r # _ \<Rightarrow> b_previous_hash r)"

definition height_of :: "db \<Rightarrow> string \<Rightarrow> int" where
  "height_of d h = (case filter (\<lambda>r. b_hash r = h) (t_blocks d) of [] \<Rightarrow> 0 | r # _ \<Rightarrow> b_height r)"

definition vins_of :: "string list \<Rightarrow> db \<Rightarrow> nat list" where
  "vins_of hs d = concat (map t_vin_db_ids (filter (\<lambda>t. t_block_hash t \<in> set hs) (t_transactions d)))"

definition vouts_of :: "string list \<Rightarrow> db \<Rightarrow> nat list" where
  "vouts_of hs d = concat (map t_vout_db_ids (filter (\<lambda>t. t_block_hash t \<in> set hs) (t_transactions d)))"

definition touched :: "string list \<Rightarrow> db \<Rightarrow> addresses_row \<Rightarrow> bool" where
  "touched hs d a \<longleftrightarrow>
    a_tx_vin_vout_row_id a \<in> set (if a_is_funding a then vouts_of hs d else vins_of hs d)"

definition side_moved :: "string list \<Rightarrow> db \<Rightarrow> db" where
  "side_moved hs d =
    d\<lparr>t_blocks := update_where (\<lambda>r. b_hash r \<in> set hs) (\<lambda>r. r\<lparr>b_is_mainchain := False\<rparr>) (t_blocks d),
      t_transactions := update_where (\<lambda>r. t_block_hash r \<in> set hs) (\<lambda>r. r\<lparr>t_is_mainchain := False\<rparr>)
        (t_transactions d),
      t_vouts := update_where (spent_by (\<lambda>t. t_block_hash t \<in> set hs) d) (\<lambda>r. r\<lparr>o_spend_tx_row_id := None\<rparr>)
        (t_vouts d),
      t_vins := update_where (\<lambda>r. i_id r \<in> set (vins_of hs d)) (\<lambda>r. r\<lparr>i_is_mainchain := False\<rparr>) (t_vins d),
      t_addresses := update_where (touched hs d) (\<lambda>r. r\<lparr>a_valid_mainchain := False\<rparr>) (t_addresses d),
      t_votes := update_where (\<lambda>r. v_block_hash r \<in> set hs) (\<lambda>r. r\<lparr>v_is_mainchain := False\<rparr>) (t_votes d),
      t_tickets := update_where (\<lambda>r. k_block_hash r \<in> set hs) (\<lambda>r. r\<lparr>k_is_mainchain := False\<rparr>) (t_tickets d),
      t_treasury := update_where (\<lambda>r. y_block_hash r \<in> set hs) (\<lambda>r. r\<lparr>y_is_mainchain := False\<rparr>) (t_treasury d)\<rparr>"

section \<open>The parts that a move leaves alone\<close>

lemma filter_update_where:
  assumes "\<And>r. Q (f r) = Q r"
  shows "filter Q (update_where P f rs) = update_where P f (filter Q rs)"
  using assms by (induction rs) auto

lemma map_filter_update_where:
  assumes "\<And>r. Q (f r) = Q r" "\<And>r. g (f r) = g r"
  shows "map g (filter Q (update_where P f rs)) = map g (filter Q rs)"
  using assms by (simp add: filter_update_where map_update_where)

lemma ex_update_where:
  assumes "\<And>r. Q (f r) = Q r"
  shows "(\<exists>r \<in> set (update_where P f rs). Q r) \<longleftrightarrow> (\<exists>r \<in> set rs. Q r)"
  using assms by (auto simp: update_where_def)

lemma first_by_map:
  "(case filter Q rs of [] \<Rightarrow> e | r # _ \<Rightarrow> g r) = (case map g (filter Q rs) of [] \<Rightarrow> e | x # _ \<Rightarrow> x)"
  by (simp split: list.split)

lemma parent_hash_moved [simp]: "parent_hash (side_moved hs d) = parent_hash d"
  by (rule ext) (simp add: parent_hash_def first_by_map side_moved_def map_filter_update_where)

lemma height_of_moved [simp]: "height_of (side_moved hs d) = height_of d"
  by (rule ext) (simp add: height_of_def first_by_map side_moved_def map_filter_update_where)

lemma vins_of_moved [simp]: "vins_of hs (side_moved hs' d) = vins_of hs d"
  by (simp add: vins_of_def side_moved_def map_filter_update_where)

lemma vouts_of_moved [simp]: "vouts_of hs (side_moved hs' d) = vouts_of hs d"
  by (simp add: vouts_of_def side_moved_def map_filter_update_where)

lemma touched_moved [simp]: "touched hs (side_moved hs' d) = touched hs d"
  by (simp add: touched_def fun_eq_iff)

lemma spent_by_moved:
  assumes "\<And>r. P (r\<lparr>t_is_mainchain := False\<rparr>) = P r"
  shows "spent_by P (side_moved hs' d) = spent_by P d"
  using assms by (simp add: spent_by_def side_moved_def fun_eq_iff ex_update_where)

lemma update_where_compose:
  assumes "\<And>r. Q (f r) = Q r" "\<And>r. f (f r) = f r"
  shows "update_where Q f (update_where P f rs) = update_where (\<lambda>r. P r \<or> Q r) f rs"
  using assms by (induction rs) auto

lemma vins_of_append: "set (vins_of (hs @ hs') d) = set (vins_of hs d) \<union> set (vins_of hs' d)"
  by (auto simp: vins_of_def)

lemma vouts_of_append: "set (vouts_of (hs @ hs') d) = set (vouts_of hs d) \<union> set (vouts_of hs' d)"
  by (auto simp: vouts_of_def)

lemma touched_append: "touched (hs @ hs') d a \<longleftrightarrow> touched hs d a \<or> touched hs' d a"
  by (auto simp: touched_def vins_of_append vouts_of_append)

lemma touched_flag [simp]: "touched hs d (a\<lparr>a_valid_mainchain := m\<rparr>) = touched hs d a"
  by (simp add: touched_def)

lemma spent_by_disj: "spent_by (\<lambda>t. P t \<or> Q t) d = (\<lambda>o1. spent_by P d o1 \<or> spent_by Q d o1)"
  by (rule ext) (auto simp: spent_by_def)

lemma spent_by_None [simp]: "\<not> spent_by P d (o1\<lparr>o_spend_tx_row_id := None\<rparr>)"
  by (simp add: spent_by_def)

lemma side_moved_Nil [simp]: "side_moved [] d = d"
  by (simp add: side_moved_def vins_of_def vouts_of_def touched_def spent_by_def update_where_def cong: if_cong)

lemma side_moved_append: "side_moved hs' (side_moved hs d) = side_moved (hs @ hs') d"
proof -
  have v: "update_where (spent_by (\<lambda>t. t_block_hash t \<in> set hs') (side_moved hs d)) (\<lambda>r. r\<lparr>o_spend_tx_row_id := None\<rparr>)
      (t_vouts (side_moved hs d))
    = update_where (spent_by (\<lambda>t. t_block_hash t \<in> set (hs @ hs')) d) (\<lambda>r. r\<lparr>o_spend_tx_row_id := None\<rparr>) (t_vouts d)"
  proof -
    have "update_where (spent_by (\<lambda>t. t_block_hash t \<in> set hs') d) (\<lambda>r. r\<lparr>o_spend_tx_row_id := None\<rparr>)
        (update_where (spent_by (\<lambda>t. t_block_hash t \<in> set hs) d) (\<lambda>r. r\<lparr>o_spend_tx_row_id := None\<rparr>) rs)
      = update_where (\<lambda>r. spent_by (\<lambda>t. t_block_hash t \<in> set hs) d r \<or> spent_by (\<lambda>t. t_block_hash t \<in> set hs') d r)
          (\<lambda>r. r\<lparr>o_spend_tx_row_id := None\<rparr>) rs" for rs
      by (induction rs) auto
    moreover have "t_vouts (side_moved hs d) = update_where (spent_by (\<lambda>t. t_block_hash t \<in> set hs) d)
        (\<lambda>r. r\<lparr>o_spend_tx_row_id := None\<rparr>) (t_vouts d)"
      by (simp add: side_moved_def)
    ultimately show ?thesis
      by (simp add: spent_by_moved spent_by_disj)
  qed
  show ?thesis
    unfolding side_moved_def [of hs'] vins_of_moved touched_moved v
    by (simp add: side_moved_def update_where_compose touched_append [abs_def] vins_of_append)
qed

section \<open>Moving one block\<close>

text \<open>Without failures each statement does what it says, and the connection stays healthy.\<close>

definition addr_stmt :: "bool \<Rightarrow> bool \<Rightarrow> nat \<Rightarrow> db \<Rightarrow> db \<times> string list" where
  "addr_stmt fnd m i d =
    (d\<lparr>t_addresses := update_where (\<lambda>r. a_is_funding r = fnd \<and> a_tx_vin_vout_row_id r = i)
       (\<lambda>r. r\<lparr>a_valid_mainchain := m\<rparr>) (t_addresses d)\<rparr>,
     map a_address (filter (\<lambda>r. a_is_funding r = fnd \<and> a_tx_vin_vout_row_id r = i) (t_addresses d)))"

lemma addr_stmts:
  "SetAddressMainchainForVinIDs m = addr_stmt False m"
  "SetAddressMainchainForVoutIDs m = addr_stmt True m"
  by (simp_all add: fun_eq_iff SetAddressMainchainForVinIDs_def SetAddressMainchainForVoutIDs_def addr_stmt_def)

definition found_addrs :: "bool \<Rightarrow> nat \<Rightarrow> db \<Rightarrow> string list" where
  "found_addrs fnd i d =
    take 1 (map a_address (filter (\<lambda>r. a_is_funding r = fnd \<and> a_tx_vin_vout_row_id r = i) (t_addresses d)))"

lemma found_addrs_update [simp]:
  "found_addrs fnd i (d\<lparr>t_addresses := update_where P (\<lambda>r. r\<lparr>a_valid_mainchain := m\<rparr>) (t_addresses d)\<rparr>)
    = found_addrs fnd i d"
  by (simp add: found_addrs_def map_filter_update_where)

lemma update_addresses_ok:
  assumes "outcomes c = []"
  shows "\<exists>as' n'. update_addresses (addr_stmt fnd m) ids as n c =
      (c\<lparr>data := (data c)\<lparr>t_addresses := update_where (\<lambda>r. a_is_funding r = fnd \<and> a_tx_vin_vout_row_id r \<in> set ids)
         (\<lambda>r. r\<lparr>a_valid_mainchain := m\<rparr>) (t_addresses (data c))\<rparr>\<rparr>, Inr (as', n')) \<and>
    set as' = set as \<union> (\<Union>i \<in> set ids. set (found_addrs fnd i (data c)))"
  using assms
proof (induction ids arbitrary: as n c)
  case Nil
  then show ?case
    by (simp add: update_where_def cong: if_cong)
next
  case (Cons i ids)
  let ?c = "c\<lparr>data := fst (addr_stmt fnd m i (data c))\<rparr>"
  let ?as = "map a_address (filter (\<lambda>r. a_is_funding r = fnd \<and> a_tx_vin_vout_row_id r = i) (t_addresses (data c)))"
  have ok: "outcomes ?c = []"
    using Cons.prems by simp
  have comp: "update_where (\<lambda>r. a_is_funding r = fnd \<and> a_tx_vin_vout_row_id r \<in> set ids) (\<lambda>r. r\<lparr>a_valid_mainchain := m\<rparr>)
      (t_addresses (data ?c)) = update_where (\<lambda>r. a_is_funding r = fnd \<and> a_tx_vin_vout_row_id r \<in> set (i # ids))
      (\<lambda>r. r\<lparr>a_valid_mainchain := m\<rparr>) (t_addresses (data c))" (is "?l = _")
    unfolding addr_stmt_def by (simp add: update_where_compose conj_disj_distribL [symmetric])
  have q: "query_row (addr_stmt fnd m i) c = (?c, first_row ?as)"
    using Cons.prems by (simp add: addr_stmt_def)
  let ?X = "update_where (\<lambda>r. a_is_funding r = fnd \<and> a_tx_vin_vout_row_id r \<in> set (i # ids))
      (\<lambda>r. r\<lparr>a_valid_mainchain := m\<rparr>) (t_addresses (data c))"
  have f: "found_addrs fnd j (data ?c) = found_addrs fnd j (data c)" for j
    by (simp add: addr_stmt_def)
  have d: "?c\<lparr>data := (data ?c)\<lparr>t_addresses := X\<rparr>\<rparr> = c\<lparr>data := (data c)\<lparr>t_addresses := X\<rparr>\<rparr>" for X
    by (simp add: addr_stmt_def)
  note IH = Cons.IH [OF ok, unfolded comp f d]
  show ?case
  proof (cases ?as)
    case Nil
    then have "update_addresses (addr_stmt fnd m) (i # ids) as n c = update_addresses (addr_stmt fnd m) ids as n ?c"
      using q by (simp only: update_addresses.simps first_row.simps prod.case sum.case sql_error.case)
    moreover have "found_addrs fnd i (data c) = []"
      using Nil by (simp add: found_addrs_def)
    ultimately show ?thesis
      using IH [of as n] by (simp only: set_simps UN_insert list.set Un_empty_left)
  next
    case (Cons x xs)
    then have "update_addresses (addr_stmt fnd m) (i # ids) as n c
        = update_addresses (addr_stmt fnd m) ids (List.insert x as) (n + 1) ?c"
      using q by (simp only: update_addresses.simps first_row.simps prod.case sum.case)
    moreover have "found_addrs fnd i (data c) = [x]"
      using Cons by (simp add: found_addrs_def)
    ultimately show ?thesis
      using IH [of "List.insert x as" "n + 1"]
      by (simp only: set_insert list.set UN_insert Un_insert_left Un_insert_right Un_empty_left)
  qed
qed

lemma update_addresses_both:
  assumes "outcomes c = []"
  shows "\<exists>as ns nf. UpdateAddressesMainchainByIDs vs os m c =
      (c\<lparr>data := (data c)\<lparr>t_addresses := update_where
         (\<lambda>a. a_tx_vin_vout_row_id a \<in> set (concat (if a_is_funding a then os else vs)))
         (\<lambda>r. r\<lparr>a_valid_mainchain := m\<rparr>) (t_addresses (data c))\<rparr>\<rparr>, Inr (as, ns, nf)) \<and>
    set as = (\<Union>i \<in> set (concat vs). set (found_addrs False i (data c))) \<union>
      (\<Union>i \<in> set (concat os). set (found_addrs True i (data c)))"
proof -
  let ?upd = "\<lambda>P. update_where P (\<lambda>r. r\<lparr>a_valid_mainchain := m\<rparr>)"
  let ?V = "\<lambda>r. a_is_funding r = False \<and> a_tx_vin_vout_row_id r \<in> set (concat vs)"
  let ?O = "\<lambda>r. a_is_funding r = True \<and> a_tx_vin_vout_row_id r \<in> set (concat os)"
  define c1 where "c1 = c\<lparr>data := (data c)\<lparr>t_addresses := ?upd ?V (t_addresses (data c))\<rparr>\<rparr>"
  obtain as n where v: "update_addresses (addr_stmt False m) (concat vs) [] 0 c = (c1, Inr (as, n))"
    "set as = (\<Union>i \<in> set (concat vs). set (found_addrs False i (data c)))"
    using update_addresses_ok [OF assms, of False m "concat vs" "[]" 0] unfolding c1_def by auto
  have ok: "outcomes c1 = []"
    using assms by (simp add: c1_def)
  define c2 where "c2 = c1\<lparr>data := (data c1)\<lparr>t_addresses := ?upd ?O (t_addresses (data c1))\<rparr>\<rparr>"
  obtain as' n' where o: "update_addresses (addr_stmt True m) (concat os) as 0 c1 = (c2, Inr (as', n'))"
    "set as' = set as \<union> (\<Union>i \<in> set (concat os). set (found_addrs True i (data c1)))"
    using update_addresses_ok [OF ok, of True m "concat os" as 0] unfolding c2_def by auto
  have "found_addrs True i (data c1) = found_addrs True i (data c)" for i
    by (simp add: c1_def)
  moreover have "?upd ?O (t_addresses (data c1)) = ?upd (\<lambda>a. a_tx_vin_vout_row_id a \<in> set (concat (if a_is_funding a then os else vs)))
      (t_addresses (data c))"
    by (simp add: c1_def update_where_compose) (rule arg_cong [where f = "\<lambda>P. update_where P _ _"], auto)
  moreover have "c2 = c\<lparr>data := (data c)\<lparr>t_addresses := ?upd ?O (t_addresses (data c1))\<rparr>\<rparr>"
    by (simp add: c2_def c1_def)
  ultimately show ?thesis
    using v o unfolding UpdateAddressesMainchainByIDs_def addr_stmts by (simp add: sql_bind_def)
qed

lemma setVins_one_ok:
  "outcomes c = [] \<Longrightarrow> \<exists>n. setVinsMainchainOneTxn is m c =
    (c\<lparr>data := (data c)\<lparr>t_vins := update_where (\<lambda>r. i_id r \<in> set is) (\<lambda>r. r\<lparr>i_is_mainchain := m\<rparr>) (t_vins (data c))\<rparr>\<rparr>, Inr n)"
proof (induction "is" arbitrary: c)
  case (Cons i "is")
  let ?c = "c\<lparr>data := fst (SetIsMainchainByVinID i m (data c))\<rparr>"
  have "outcomes ?c = []"
    using Cons.prems by simp
  from Cons.IH [OF this] show ?case
    using Cons.prems by (auto simp: sql_bind_def SetIsMainchainByVinID_def update_where_compose)
qed (simp add: update_where_def cong: if_cong)

lemma setVins_many_ok:
  "outcomes c = [] \<Longrightarrow> \<exists>n. setVinsMainchainForMany (map (\<lambda>vs. (vs, m)) vss) c =
    (c\<lparr>data := (data c)\<lparr>t_vins := update_where (\<lambda>r. i_id r \<in> set (concat vss)) (\<lambda>r. r\<lparr>i_is_mainchain := m\<rparr>) (t_vins (data c))\<rparr>\<rparr>, Inr n)"
proof (induction vss arbitrary: c)
  case (Cons vs vss)
  let ?c = "c\<lparr>data := (data c)\<lparr>t_vins := update_where (\<lambda>r. i_id r \<in> set vs) (\<lambda>r. r\<lparr>i_is_mainchain := m\<rparr>) (t_vins (data c))\<rparr>\<rparr>"
  obtain n where "setVinsMainchainOneTxn vs m c = (?c, Inr n)"
    using setVins_one_ok Cons.prems by blast
  moreover have "outcomes ?c = []"
    using Cons.prems by simp
  ultimately show ?case
    using Cons.IH [of ?c] by (auto simp: sql_bind_def update_where_compose)
qed (simp add: update_where_def cong: if_cong)

text \<open>The addresses that the updates for some blocks answer with: one for each input and each output.\<close>

definition found_of :: "string list \<Rightarrow> db \<Rightarrow> string set" where
  "found_of hs d =
    (\<Union>i \<in> set (vins_of hs d). set (found_addrs False i d)) \<union> (\<Union>i \<in> set (vouts_of hs d). set (found_addrs True i d))"

lemma found_of_moved [simp]: "found_of hs (side_moved hs' d) = found_of hs d"
  by (simp add: found_of_def found_addrs_def side_moved_def [of hs'] map_filter_update_where
      vins_of_moved [unfolded side_moved_def] vouts_of_moved [unfolded side_moved_def])

lemma found_of_append: "found_of (hs @ hs') d = found_of hs d \<union> found_of hs' d"
  by (auto simp: found_of_def vins_of_append vouts_of_append)

lemma unset_block_ok:
  assumes "outcomes c = []"
  shows "\<exists>as'. unset_block h (c, as) = (c\<lparr>data := side_moved [h] (data c)\<rparr>, as', parent_hash (data c) h) \<and>
    set as' = set as \<union> found_of [h] (data c)"
proof -
  let ?d = "data c"
  define d2 where "d2 = fst (UpdateTxnsMainchainByBlock False h (fst (UpdateBlockMainchain h False ?d)))"
  define d3 where "d3 = fst (clear_spent (\<lambda>t. t_block_hash t = h) d2)"
  let ?ts = "filter (\<lambda>t. t_block_hash t = h) (t_transactions ?d)"
  define d4 where "d4 = d3\<lparr>t_vins := update_where (\<lambda>r. i_id r \<in> set (vins_of [h] ?d)) (\<lambda>r. r\<lparr>i_is_mainchain := False\<rparr>) (t_vins d3)\<rparr>"
  define d5 where "d5 = d4\<lparr>t_addresses := update_where (touched [h] ?d) (\<lambda>r. r\<lparr>a_valid_mainchain := False\<rparr>) (t_addresses d4)\<rparr>"
  have r1: "snd (SetMainchainByBlockHash h False c) = first_row (map b_previous_hash (filter (\<lambda>r. b_hash r = h) (t_blocks ?d)))"
    using assms by (simp add: SetMainchainByBlockHash_def UpdateBlockMainchain_def)
  have p: "(case snd (SetMainchainByBlockHash h False c) of Inl _ \<Rightarrow> [] | Inr h \<Rightarrow> h) = parent_hash ?d h"
    unfolding r1 parent_hash_def by (cases "filter (\<lambda>r. b_hash r = h) (t_blocks ?d)") simp_all
  have c2: "fst (UpdateTransactionsMainchain h False (fst (SetMainchainByBlockHash h False c))) = c\<lparr>data := d2\<rparr>"
    using assms by (simp add: SetMainchainByBlockHash_def UpdateTransactionsMainchain_def sql_bind_def d2_def)
  have c3: "fst (clearVoutAllSpendTxRowIDs h (c\<lparr>data := d2\<rparr>)) = c\<lparr>data := d3\<rparr>"
    using assms by (simp add: clearVoutAllSpendTxRowIDs_def d3_def)
  have ts: "filter (\<lambda>t. t_block_hash t = h) (t_transactions d3)
      = map (\<lambda>t. t\<lparr>t_is_mainchain := False\<rparr>) ?ts"
    by (simp add: d3_def d2_def clear_spent_def UpdateTxnsMainchainByBlock_def UpdateBlockMainchain_def update_where_def
        filter_map comp_def cong: if_cong)
  have sel: "RetrieveTxnsVinsVoutsByBlock h False (c\<lparr>data := d3\<rparr>)
      = (c\<lparr>data := d3\<rparr>, Inr (map (\<lambda>t. (t_vin_db_ids t, t_vout_db_ids t, False)) ?ts))"
    using assms by (simp add: RetrieveTxnsVinsVoutsByBlock_def SelectTxnsVinsVoutsByBlock_def ts comp_def)
  have "outcomes (c\<lparr>data := d3\<rparr>) = []"
    using assms by simp
  from setVins_many_ok [OF this, of False "map t_vin_db_ids ?ts"]
  obtain n where vs: "setVinsMainchainForMany (map (\<lambda>t. (t_vin_db_ids t, False)) ?ts) (c\<lparr>data := d3\<rparr>) = (c\<lparr>data := d4\<rparr>, Inr n)"
    by (auto simp: d4_def vins_of_def comp_def)
  have c4: "SetVinsMainchainByBlock h (c\<lparr>data := d3\<rparr>) = (c\<lparr>data := d4\<rparr>, (map t_vin_db_ids ?ts, map t_vout_db_ids ?ts), Inr n)"
    unfolding SetVinsMainchainByBlock_def sel by (simp add: comp_def vs)
  have "outcomes (c\<lparr>data := d4\<rparr>) = []"
    using assms by simp
  note u = update_addresses_both [OF this, of "map t_vin_db_ids ?ts" "map t_vout_db_ids ?ts" False]
  obtain bs ns nf where c5: "UpdateAddressesMainchainByIDs (map t_vin_db_ids ?ts) (map t_vout_db_ids ?ts) False (c\<lparr>data := d4\<rparr>)
      = (c\<lparr>data := d5\<rparr>, Inr (bs, ns, nf))" and bs: "set bs = found_of [h] ?d"
  proof -
    have addrs: "t_addresses d4 = t_addresses ?d"
      by (simp add: d4_def d3_def d2_def clear_spent_def UpdateTxnsMainchainByBlock_def UpdateBlockMainchain_def)
    have w: "(\<lambda>a. a_tx_vin_vout_row_id a \<in> set (concat (if a_is_funding a then map t_vout_db_ids ?ts else map t_vin_db_ids ?ts)))
        = touched [h] ?d"
      by (rule ext) (simp add: touched_def vins_of_def vouts_of_def)
    have f: "found_of [h] ?d = (\<Union>i \<in> set (concat (map t_vin_db_ids ?ts)). set (found_addrs False i d4)) \<union>
        (\<Union>i \<in> set (concat (map t_vout_db_ids ?ts)). set (found_addrs True i d4))"
      by (simp add: found_of_def found_addrs_def addrs vins_of_def vouts_of_def)
    from u obtain bs ns nf where e: "UpdateAddressesMainchainByIDs (map t_vin_db_ids ?ts) (map t_vout_db_ids ?ts) False
        (c\<lparr>data := d4\<rparr>) = (c\<lparr>data := d5\<rparr>, Inr (bs, ns, nf))" and s: "set bs = found_of [h] ?d"
      unfolding w f d5_def by auto
    show ?thesis
      by (rule that [OF e s])
  qed
  let ?c8 = "fst (UpdateTreasuryMainchain h False (fst (UpdateTicketsMainchain h False (fst (UpdateVotesMainchain h False
      (c\<lparr>data := d5\<rparr>))))))"
  have "?c8 = c\<lparr>data := side_moved [h] ?d\<rparr>"
  proof -
    have v: "spent_by (\<lambda>t. t_block_hash t = h) d2 = spent_by (\<lambda>t. t_block_hash t = h) ?d"
      by (simp add: d2_def spent_by_def UpdateTxnsMainchainByBlock_def UpdateBlockMainchain_def fun_eq_iff ex_update_where)
    show ?thesis
      using assms
      by (simp add: UpdateTreasuryMainchain_def UpdateTicketsMainchain_def UpdateVotesMainchain_def
          UpdateTreasuryMainchainByBlock_def UpdateTicketsMainchainByBlock_def UpdateVotesMainchainByBlock_def
          d5_def d4_def d3_def clear_spent_def v)
        (simp add: d2_def side_moved_def UpdateTxnsMainchainByBlock_def UpdateBlockMainchain_def)
  qed
  moreover have "unset_block h (c, as) = (?c8, List.union bs as, parent_hash ?d h)"
    unfolding unset_block_def fst_conv snd_conv Let_def
    by (cases "SetMainchainByBlockHash h False c") (use p c2 in \<open>simp add: c3 c4 c5 case_prod_unfold\<close>)
  ultimately show ?thesis
    using bs by (auto simp: set_union)
qed

section \<open>Moving the blocks down to the root\<close>

text \<open>The blocks from the tip down.\<close>

definition walk :: "db \<Rightarrow> string \<Rightarrow> nat \<Rightarrow> string list" where
  "walk d tip n = map (\<lambda>i. (parent_hash d ^^ i) tip) [0..<n]"

lemma walk_0 [simp]: "walk d tip 0 = []"
  by (simp add: walk_def)

lemma walk_Suc: "walk d tip (Suc n) = tip # walk d (parent_hash d tip) n"
  by (simp add: walk_def upt_conv_Cons map_Suc_upt [symmetric] funpow_swap1 comp_def del: upt_Suc)

lemma walk_moved [simp]: "walk (side_moved hs d) tip n = walk d tip n"
  by (simp add: walk_def)

lemma tip_step_ok:
  assumes "outcomes c = []"
  shows "\<exists>as'. tip_step h (c, as, best, k) =
      (parent_hash (data c) h, c\<lparr>data := side_moved [h] (data c)\<rparr>, as', height_of (data c) (parent_hash (data c) h), Suc k) \<and>
    set as' = set as \<union> found_of [h] (data c)"
proof -
  obtain as' where u: "unset_block h (c, as) = (c\<lparr>data := side_moved [h] (data c)\<rparr>, as', parent_hash (data c) h)"
    and s: "set as' = set as \<union> found_of [h] (data c)"
    using unset_block_ok [OF assms] by blast
  have "RetrieveBlockHeight x (c\<lparr>data := d\<rparr>) = (c\<lparr>data := d\<rparr>, first_row (map b_height (filter (\<lambda>r. b_hash r = x) (t_blocks d))))"
    for x d using assms by (simp add: RetrieveBlockHeight_def SelectBlockHeightByHash_def)
  moreover have "(case first_row (map b_height (filter (\<lambda>r. b_hash r = x) (t_blocks d))) of Inl _ \<Rightarrow> 0 | Inr h \<Rightarrow> h) = height_of d x"
    for x d by (cases "filter (\<lambda>r. b_hash r = x) (t_blocks d)") (simp_all add: height_of_def)
  ultimately show ?thesis
    using s by (simp add: tip_step_def u)
qed

lemma TipToSideChain_loop_moves:
  assumes "outcomes c = []" "(parent_hash (data c) ^^ n) tip = root" "\<forall>i < n. (parent_hash (data c) ^^ i) tip \<noteq> root"
  shows "\<exists>as'. TipToSideChain_loop root tip (c, as, best, k) =
      Some (root, c\<lparr>data := side_moved (walk (data c) tip n) (data c)\<rparr>, as',
        (if n = 0 then best else height_of (data c) root), k + n) \<and>
    set as' = set as \<union> found_of (walk (data c) tip n) (data c)"
  using assms
proof (induction n arbitrary: c tip as best k)
  case 0
  then show ?case
    by (subst TipToSideChain_loop.simps) (simp add: found_of_def vins_of_def vouts_of_def)
next
  case (Suc n)
  let ?d = "data c" and ?p = "parent_hash (data c) tip"
  let ?c = "c\<lparr>data := side_moved [tip] ?d\<rparr>"
  have ne: "tip \<noteq> root"
    using Suc.prems(3) by (metis funpow_0 zero_less_Suc)
  obtain as1 where st: "tip_step tip (c, as, best, k) = (?p, ?c, as1, height_of ?d ?p, Suc k)"
    and s1: "set as1 = set as \<union> found_of [tip] ?d"
    using tip_step_ok [OF Suc.prems(1)] by blast
  have f: "(parent_hash ?d ^^ i) ?p = (parent_hash ?d ^^ Suc i) tip" for i
    by (simp add: funpow_swap1)
  have e: "parent_hash (data ?c) = parent_hash ?d"
    by simp
  have ok: "outcomes ?c = []" "(parent_hash (data ?c) ^^ n) ?p = root" "\<forall>i < n. (parent_hash (data ?c) ^^ i) ?p \<noteq> root"
    using Suc.prems(1) unfolding e f using Suc.prems(2,3) by (simp, blast, blast intro: Suc_mono)
  obtain as' where l: "TipToSideChain_loop root ?p (?c, as1, height_of ?d ?p, Suc k) =
      Some (root, ?c\<lparr>data := side_moved (walk (data ?c) ?p n) (data ?c)\<rparr>, as',
        (if n = 0 then height_of ?d ?p else height_of (data ?c) root), Suc k + n)"
    and s': "set as' = set as1 \<union> found_of (walk (data ?c) ?p n) (data ?c)"
    using Suc.IH [OF ok] by blast
  have h: "(if n = 0 then height_of ?d ?p else height_of (data ?c) root) = height_of ?d root"
    using ok(2) by (cases n) simp_all
  have "TipToSideChain_loop root tip (c, as, best, k) = TipToSideChain_loop root ?p (?c, as1, height_of ?d ?p, Suc k)"
    using ne by (subst TipToSideChain_loop.simps) (simp add: st)
  moreover have "set as' = set as \<union> found_of (walk ?d tip (Suc n)) ?d"
    using s' found_of_append [of "[tip]" "walk ?d ?p n" ?d] by (simp add: s1 walk_Suc Un_assoc)
  ultimately show ?case
    using l unfolding h walk_Suc by (simp add: side_moved_append)
qed

text \<open>A walk that never meets the root never ends.\<close>

lemma TipToSideChain_loop_meets:
  assumes "TipToSideChain_loop root tip s = Some r" "outcomes (fst s) = []"
  shows "\<exists>n. (parent_hash (data (fst s)) ^^ n) tip = root"
proof -
  have "outcomes (fst s) = [] \<longrightarrow> (\<exists>n. (parent_hash (data (fst s)) ^^ n) tip = root)"
  proof (rule TipToSideChain_loop.raw_induct [OF _ assms(1),
        where P = "\<lambda>root tip s r. outcomes (fst s) = [] \<longrightarrow> (\<exists>n. (parent_hash (data (fst s)) ^^ n) tip = root)"])
    fix loop :: "string \<Rightarrow> string \<Rightarrow> conn \<times> string list \<times> int \<times> nat \<Rightarrow> (string \<times> conn \<times> string list \<times> int \<times> nat) option"
    fix root tip s r
    assume IH: "\<And>root tip s r. loop root tip s = Some r \<Longrightarrow>
        outcomes (fst s) = [] \<longrightarrow> (\<exists>n. (parent_hash (data (fst s)) ^^ n) tip = root)"
      and r: "(if tip = root then Some (tip, s)
        else (case tip_step tip s of (previousHash, s') \<Rightarrow> loop root previousHash s')) = Some r"
    show "outcomes (fst s) = [] \<longrightarrow> (\<exists>n. (parent_hash (data (fst s)) ^^ n) tip = root)"
    proof (cases "tip = root")
      case True
      then show ?thesis
        by (metis funpow_0)
    next
      case False
      obtain c as best k where s: "s = (c, as, best, k)"
        by (metis prod_cases4)
      show ?thesis
      proof
        assume ok: "outcomes (fst s) = []"
        let ?c = "c\<lparr>data := side_moved [tip] (data c)\<rparr>"
        obtain as' where "tip_step tip s = (parent_hash (data c) tip, ?c, as', height_of (data c) (parent_hash (data c) tip), Suc k)"
          using tip_step_ok [of c tip as best k] ok unfolding s by auto
        with False r have "loop root (parent_hash (data c) tip) (?c, as', height_of (data c) (parent_hash (data c) tip), Suc k) = Some r"
          by simp
        from IH [OF this] ok obtain n where "(parent_hash (data c) ^^ n) (parent_hash (data c) tip) = root"
          by (auto simp: s)
        then have "(parent_hash (data c) ^^ Suc n) tip = root"
          by (simp add: funpow_swap1)
        then show "\<exists>n. (parent_hash (data (fst s)) ^^ n) tip = root"
          unfolding s by (metis fst_conv)
      qed
    qed
  qed
  with assms(2) show ?thesis
    by blast
qed

lemma Clear_items:
  assumes "ac_reachable ac" "a_map ac \<noteq> None"
  shows "mget (items (fst (Clear (Some as) ac))) k = (if k \<in> set as then None else mget (items ac) k)"
proof (cases "as = []")
  case False
  obtain ac' n where c: "Clear_loop as 0 ac = (ac', n)"
    by fastforce
  have "wf_map (items ac)"
    using ac_reachable_ok [OF assms(1)] by (simp add: ac_ok_def fits_def)
  from Clear_loop_eq [OF assms(2) this c] False c show ?thesis
    by (simp add: Clear_def)
qed (simp add: Clear_def)

section \<open>Properties\<close>

text \<open>
  The number of blocks that the walk from the tip to the root passes.
\<close>

definition first_hit :: "db \<Rightarrow> string \<Rightarrow> string \<Rightarrow> nat \<Rightarrow> bool" where
  "first_hit d tip root n \<longleftrightarrow>
    (parent_hash d ^^ n) tip = root \<and> (\<forall>i < n. (parent_hash d ^^ i) tip \<noteq> root)"

lemma first_hit_ex: "(parent_hash d ^^ n) tip = root \<Longrightarrow> \<exists>n. first_hit d tip root n"
  using LeastI [of "\<lambda>n. (parent_hash d ^^ n) tip = root"] not_less_Least [of _ "\<lambda>n. (parent_hash d ^^ n) tip = root"]
  unfolding first_hit_def by blast

lemma first_hit_unique: "first_hit d tip root n \<Longrightarrow> first_hit d tip root m \<Longrightarrow> m = n"
  unfolding first_hit_def by (metis linorder_neqE_nat)

text \<open>
  When no statement fails, \<open>TipToSideChain\<close> returns if and only if the given block is met on the way
  down from the tip: a block that is not an ancestor of the tip, or is not stored, makes it loop for ever.
\<close>

theorem TipToSideChain_returns_iff:
  assumes "outcomes (db_conn pgb) = []"
  shows "TipToSideChain root pgb \<noteq> None \<longleftrightarrow> (\<exists>n. (parent_hash (data (db_conn pgb)) ^^ n) (bb_hash pgb) = root)"
proof
  assume "TipToSideChain root pgb \<noteq> None"
  then obtain r where "TipToSideChain_loop root (bb_hash pgb) (db_conn pgb, [], bb_height pgb, 0) = Some r"
    by (auto simp: TipToSideChain_def split: option.splits)
  from TipToSideChain_loop_meets [OF this] assms
  show "\<exists>n. (parent_hash (data (db_conn pgb)) ^^ n) (bb_hash pgb) = root"
    by simp
next
  assume "\<exists>n. (parent_hash (data (db_conn pgb)) ^^ n) (bb_hash pgb) = root"
  then obtain n where "first_hit (data (db_conn pgb)) (bb_hash pgb) root n"
    using first_hit_ex by blast
  from TipToSideChain_loop_moves [OF assms, of n "bb_hash pgb" root "[]" "bb_height pgb" 0] this
  show "TipToSideChain root pgb \<noteq> None"
    by (auto simp: TipToSideChain_def first_hit_def Let_def)
qed

lemma TipToSideChain_result:
  assumes "outcomes (db_conn pgb) = []" "first_hit (data (db_conn pgb)) (bb_hash pgb) root n"
  defines "d \<equiv> data (db_conn pgb)"
  defines "hs \<equiv> walk d (bb_hash pgb) n"
  obtains as where "TipToSideChain root pgb = Some (pgb\<lparr>db_conn := (db_conn pgb)\<lparr>data := side_moved hs d\<rparr>,
      bb_height := (if n = 0 then bb_height pgb else height_of d root), bb_hash := root,
      db_AddressCache := fst (Clear (Some as) (db_AddressCache pgb))\<rparr>, root, n)"
    "set as = found_of hs d"
proof -
  obtain as where l: "TipToSideChain_loop root (bb_hash pgb) (db_conn pgb, [], bb_height pgb, 0) =
      Some (root, (db_conn pgb)\<lparr>data := side_moved hs d\<rparr>, as, (if n = 0 then bb_height pgb else height_of d root), n)"
    and s: "set as = found_of hs d"
    using TipToSideChain_loop_moves [OF assms(1), of n "bb_hash pgb" root "[]" "bb_height pgb" 0] assms(2)
    unfolding first_hit_def d_def hs_def by auto
  show ?thesis
    by (rule that [OF _ s]) (simp add: TipToSideChain_def l Let_def Clear_def)
qed

lemma found_of_touched:
  assumes "distinct (map (\<lambda>a. (a_is_funding a, a_tx_vin_vout_row_id a)) (t_addresses d))"
  shows "found_of hs d = a_address ` {a \<in> set (t_addresses d). touched hs d a}"
proof -
  have one: "filter (\<lambda>r. a_is_funding r = a_is_funding a \<and> a_tx_vin_vout_row_id r = a_tx_vin_vout_row_id a) (t_addresses d) = [a]"
    if "a \<in> set (t_addresses d)" for a
    using find_unique [OF assms that] by simp
  have found: "set (found_addrs fnd i d) = a_address ` {a \<in> set (t_addresses d). a_is_funding a = fnd \<and> a_tx_vin_vout_row_id a = i}"
    for fnd i
  proof (cases "\<exists>a \<in> set (t_addresses d). a_is_funding a = fnd \<and> a_tx_vin_vout_row_id a = i")
    case True
    then obtain a where a: "a \<in> set (t_addresses d)" "a_is_funding a = fnd" "a_tx_vin_vout_row_id a = i"
      by blast
    have f: "filter (\<lambda>r. a_is_funding r = fnd \<and> a_tx_vin_vout_row_id r = i) (t_addresses d) = [a]"
      using one [OF a(1)] a(2,3) by simp
    have "{a \<in> set (t_addresses d). a_is_funding a = fnd \<and> a_tx_vin_vout_row_id a = i}
        = set (filter (\<lambda>r. a_is_funding r = fnd \<and> a_tx_vin_vout_row_id r = i) (t_addresses d))"
      by simp
    also have "\<dots> = {a}"
      by (simp only: f list.set)
    finally show ?thesis
      using f by (simp add: found_addrs_def)
  next
    case False
    then have "filter (\<lambda>r. a_is_funding r = fnd \<and> a_tx_vin_vout_row_id r = i) (t_addresses d) = []"
      by (auto simp: filter_empty_conv)
    with False show ?thesis
      by (auto simp: found_addrs_def)
  qed
  show ?thesis
    by (auto simp: found_of_def found touched_def split: if_splits)
qed


text \<open>
  The rows that carry a flag for the main chain carry that of their block, and no output has a spender
  that is not on the main chain.
\<close>

definition flags_agree :: "db \<Rightarrow> bool" where
  "flags_agree d \<longleftrightarrow>
    (\<forall>b \<in> set (t_blocks d).
      (\<forall>t \<in> set (t_transactions d). t_block_hash t = b_hash b \<longrightarrow> t_is_mainchain t = b_is_mainchain b) \<and>
      (\<forall>v \<in> set (t_votes d). v_block_hash v = b_hash b \<longrightarrow> v_is_mainchain v = b_is_mainchain b) \<and>
      (\<forall>k \<in> set (t_tickets d). k_block_hash k = b_hash b \<longrightarrow> k_is_mainchain k = b_is_mainchain b) \<and>
      (\<forall>y \<in> set (t_treasury d). y_block_hash y = b_hash b \<longrightarrow> y_is_mainchain y = b_is_mainchain b))"

definition spenders_on_mainchain :: "db \<Rightarrow> bool" where
  "spenders_on_mainchain d \<longleftrightarrow>
    (\<forall>o1 \<in> set (t_vouts d). \<forall>t \<in> set (t_transactions d). o_spend_tx_row_id o1 = Some (t_id t) \<longrightarrow> t_is_mainchain t)"

lemma flags_agree_moved: "flags_agree d \<Longrightarrow> flags_agree (side_moved hs d)"
  unfolding flags_agree_def side_moved_def by (simp add: ball_update_where) (auto split: if_splits)

lemma spenders_moved: "spenders_on_mainchain d \<Longrightarrow> spenders_on_mainchain (side_moved hs d)"
  unfolding spenders_on_mainchain_def side_moved_def
  by (simp add: ball_update_where) (auto simp: spent_by_def split: if_splits)


section \<open>What the move leaves behind\<close>

text \<open>
  The unspent outputs of an address that \<open>SelectAddressUnspentCountANDValue\<close> counts and adds up.
\<close>

definition SelectAddressUnspentCountANDValue :: "string \<Rightarrow> db \<Rightarrow> db \<times> (nat \<times> int) list" where
  "SelectAddressUnspentCountANDValue address d =
    (let rs = filter (\<lambda>r. a_address r = address \<and> a_is_funding r \<and> a_matching_tx_hash r = [] \<and> a_valid_mainchain r)
       (t_addresses d)
     in (d, [(length rs, sum_list (map a_value rs))]))"

lemma side_moved_address:
  assumes "a \<in> set (t_addresses d)" "\<not> touched hs d a"
  shows "a \<in> set (t_addresses (side_moved hs d))"
  using assms by (force simp: side_moved_def set_update_where)

text \<open>
  An output of a block that stays, spent by a transaction of a block that is moved: the table of outputs
  has it unspent again, but the row of its address keeps the spending transaction, and is not counted as
  unspent.
\<close>

theorem orphaned_spend_stays:
  assumes "outcomes (db_conn pgb) = []" "first_hit (data (db_conn pgb)) (bb_hash pgb) root n"
    and "o1 \<in> set (t_vouts (data (db_conn pgb)))" "t \<in> set (t_transactions (data (db_conn pgb)))"
    and "t_block_hash t \<in> set (walk (data (db_conn pgb)) (bb_hash pgb) n)" "o_spend_tx_row_id o1 = Some (t_id t)"
    and "a \<in> set (t_addresses (data (db_conn pgb)))" "a_is_funding a" "a_matching_tx_hash a = t_tx_hash t"
    and "\<not> touched (walk (data (db_conn pgb)) (bb_hash pgb) n) (data (db_conn pgb)) a"
  shows "\<exists>pgb'. TipToSideChain root pgb = Some (pgb', root, n) \<and>
    o1\<lparr>o_spend_tx_row_id := None\<rparr> \<in> set (t_vouts (data (db_conn pgb'))) \<and> a \<in> set (t_addresses (data (db_conn pgb')))"
proof -
  let ?d = "data (db_conn pgb)" and ?hs = "walk (data (db_conn pgb)) (bb_hash pgb) n"
  obtain pgb' where p: "TipToSideChain root pgb = Some (pgb', root, n)" "data (db_conn pgb') = side_moved ?hs ?d"
    by (rule TipToSideChain_result [OF assms(1,2)]) auto
  have "spent_by (\<lambda>t. t_block_hash t \<in> set ?hs) ?d o1"
    using assms(4-6) by (auto simp: spent_by_def)
  then have "o1\<lparr>o_spend_tx_row_id := None\<rparr> \<in> set (t_vouts (side_moved ?hs ?d))"
    using assms(3) by (force simp: side_moved_def set_update_where)
  with p side_moved_address [OF assms(7,10)] show ?thesis
    by auto
qed

text \<open>
  Nor does the move touch what the tickets table says of the spending of tickets: a ticket that voted in a
  moved block stays a ticket that voted.
\<close>

lemma ticket_spends_stay:
  "map (\<lambda>k. (k_spend_type k, k_pool_status k, k_spend_height k, k_spend_tx_db_id k)) (t_tickets (side_moved hs d))
    = map (\<lambda>k. (k_spend_type k, k_pool_status k, k_spend_height k, k_spend_tx_db_id k)) (t_tickets d)"
  by (simp add: side_moved_def map_update_where)

section \<open>Examples\<close>

definition empty_db :: db where
  "empty_db =
    \<lparr>t_blocks = [], t_block_chain = [], t_transactions = [], t_vins = [], t_vouts = [], t_addresses = [], t_tickets = [],
     t_votes = [], t_misses = [], t_treasury = [], t_swaps = [], t_stats = [], t_meta = [],
     seqs = \<lparr>next_block = 10, next_tx = 10, next_vin = 10, next_vout = 10, next_address = 10, next_ticket = 10,
       next_vote = 10, next_miss = 10\<rparr>\<rparr>"

definition ex_bk :: "nat \<Rightarrow> string \<Rightarrow> int \<Rightarrow> nat list \<Rightarrow> string \<Rightarrow> blocks_row" where
  "ex_bk i h n txs prev =
    \<lparr>b_id = i, b_hash = h, b_height = n, b_is_valid = True, b_is_mainchain = True, b_txDbIDs = txs, b_stxDbIDs = [],
     b_previous_hash = prev, b_winners = []\<rparr>"

definition ex_tr :: "nat \<Rightarrow> string \<Rightarrow> int \<Rightarrow> string \<Rightarrow> nat list \<Rightarrow> nat list \<Rightarrow> transactions_row" where
  "ex_tr i h n txh vs os =
    \<lparr>t_id = i, t_block_hash = h, t_block_height = n, t_block_time = n, t_tx_type = 0, t_tree = 0, t_tx_hash = txh,
     t_block_index = 0, t_mix_count = 0, t_mix_denom = 0, t_vin_db_ids = vs, t_vout_db_ids = os,
     t_is_valid = True, t_is_mainchain = True\<rparr>"

definition ex_vin :: "nat \<Rightarrow> string \<Rightarrow> string \<Rightarrow> int \<Rightarrow> vins_row" where
  "ex_vin i txh prev n =
    \<lparr>i_id = i, i_tx_hash = txh, i_tx_index = 0, i_tx_tree = 0, i_is_valid = True, i_is_mainchain = True,
     i_block_time = n, i_prev_tx_hash = prev, i_prev_tx_index = 0, i_prev_tx_tree = 0, i_value_in = 5, i_tx_type = 0\<rparr>"

definition ex_vout :: "nat \<Rightarrow> string \<Rightarrow> string list \<Rightarrow> nat option \<Rightarrow> vouts_row" where
  "ex_vout i txh as sp =
    \<lparr>o_id = i, o_tx_hash = txh, o_tx_index = 0, o_tx_tree = 0, o_value = 5, o_script_addresses = as, o_mixed = False,
     o_spend_tx_row_id = sp\<rparr>"

definition ex_addr :: "nat \<Rightarrow> string \<Rightarrow> string \<Rightarrow> string \<Rightarrow> bool \<Rightarrow> nat \<Rightarrow> addresses_row" where
  "ex_addr i address txh matching fnd row =
    \<lparr>a_id = i, a_address = address, a_tx_hash = txh, a_valid_mainchain = True, a_matching_tx_hash = matching,
     a_value = 5, a_block_time = 1, a_is_funding = fnd, a_tx_vin_vout_index = 0, a_tx_vin_vout_row_id = row, a_tx_type = 0\<rparr>"

text \<open>A genesis block that pays to \<open>x\<close>, and a block above it that spends this output and pays to \<open>y\<close>.\<close>

definition ex_tables :: db where
  "ex_tables = empty_db
    \<lparr>t_blocks := [ex_bk 1 ''G'' 0 [1] [], ex_bk 2 ''A'' 1 [2] ''G''],
     t_block_chain := [\<lparr>c_block_db_id = 1, c_prev_hash = [], c_this_hash = ''G'', c_next_hash = ''A''\<rparr>,
       \<lparr>c_block_db_id = 2, c_prev_hash = ''G'', c_this_hash = ''A'', c_next_hash = []\<rparr>],
     t_transactions := [ex_tr 1 ''G'' 0 ''tg'' [] [1], ex_tr 2 ''A'' 1 ''ta'' [1] [2]],
     t_vins := [ex_vin 1 ''ta'' ''tg'' 1],
     t_vouts := [ex_vout 1 ''tg'' [''x''] (Some 2), ex_vout 2 ''ta'' [''y''] None],
     t_addresses := [ex_addr 1 ''x'' ''tg'' ''ta'' True 1, ex_addr 2 ''x'' ''ta'' ''tg'' False 1,
       ex_addr 3 ''y'' ''ta'' [] True 2],
     t_meta := [\<lparr>best_block_height = 1, best_block_hash = ''A''\<rparr>]\<rparr>"

definition ex_pgb :: "db \<Rightarrow> string \<Rightarrow> int \<Rightarrow> unit ChainDB" where
  "ex_pgb d h n =
    \<lparr>db_conn = \<lparr>data = d, outcomes = []\<rparr>, bb_height = n, bb_hash = h, db_AddressCache = demo_cache 3 2,
     db_utxoCache = [], db_unspentTicketCache = [], db_lastBlock = [], db_mixSetDiffs = [], db_dupChecks = True,
     db_InBatchSync = False\<rparr>"

lemmas ex_rows = empty_db_def ex_bk_def ex_tr_def ex_vin_def ex_vout_def ex_addr_def ex_tables_def ex_pgb_def

lemma ex_hit: "first_hit ex_tables ''A'' ''G'' 1" "walk ex_tables ''A'' 1 = [''A'']"
  by (simp_all add: first_hit_def walk_def parent_hash_def ex_rows)

theorem TipToSideChain_returns_iff_witness:
  "TipToSideChain ''G'' (ex_pgb ex_tables ''A'' 1) \<noteq> None"
proof -
  have "\<exists>n. (parent_hash ex_tables ^^ n) ''A'' = ''G''"
    using ex_hit(1) unfolding first_hit_def by blast
  then show ?thesis
    using TipToSideChain_returns_iff [of "ex_pgb ex_tables ''A'' 1" "''G''"] by (simp add: ex_pgb_def)
qed



text \<open>
  In the example: after the block is moved, the payment to \<open>x\<close> is unspent in the table of outputs, and
  \<open>x\<close> still has nothing.
\<close>

theorem orphaned_spend_stays_witness:
  "\<exists>pgb'. TipToSideChain ''G'' (ex_pgb ex_tables ''A'' 1) = Some (pgb', ''G'', 1) \<and>
    ex_vout 1 ''tg'' [''x''] None \<in> set (t_vouts (data (db_conn pgb'))) \<and>
    ex_addr 1 ''x'' ''tg'' ''ta'' True 1 \<in> set (t_addresses (data (db_conn pgb')))"
proof -
  have hit: "first_hit (data (db_conn (ex_pgb ex_tables ''A'' 1))) (bb_hash (ex_pgb ex_tables ''A'' 1)) ''G'' 1"
    using ex_hit(1) by (simp add: ex_pgb_def)
  have "(ex_vout 1 ''tg'' [''x''] (Some 2))\<lparr>o_spend_tx_row_id := None\<rparr> = ex_vout 1 ''tg'' [''x''] None"
    by (simp add: ex_vout_def)
  with orphaned_spend_stays [OF _ hit, of "ex_vout 1 ''tg'' [''x''] (Some 2)" "ex_tr 2 ''A'' 1 ''ta'' [1] [2]"
      "ex_addr 1 ''x'' ''tg'' ''ta'' True 1"]
  show ?thesis
    by (simp add: ex_pgb_def ex_hit(2) del: One_nat_def) (simp add: ex_rows touched_def vouts_of_def)
qed

lemma ex_unspent:
  "snd (SelectAddressUnspentCountANDValue ''x'' (side_moved [''A''] ex_tables)) = [(0, 0)]"
  by (simp add: SelectAddressUnspentCountANDValue_def side_moved_def touched_def vins_of_def vouts_of_def ex_rows)

text \<open>
  An output that pays to two addresses: only the first one is answered, and the other keeps its cached
  data, although its row was changed.
\<close>

lemma second_address_not_found:
  "found_of [''A''] (ex_tables\<lparr>t_addresses := [ex_addr 3 ''y'' ''ta'' [] True 2, ex_addr 4 ''z'' ''ta'' [] True 2]\<rparr>) = {''y''}"
  "touched [''A''] (ex_tables\<lparr>t_addresses := [ex_addr 3 ''y'' ''ta'' [] True 2, ex_addr 4 ''z'' ''ta'' [] True 2]\<rparr>)
    (ex_addr 4 ''z'' ''ta'' [] True 2)"
  by (simp_all add: found_of_def found_addrs_def touched_def vins_of_def vouts_of_def ex_rows)

end
