(* ===== verification/ChainRewind.thy ===== *)
theory ChainRewind
  imports ChainStatements
begin

text \<open>
  Removing the data of blocks from the chain database (\<open>db/dcrpg/rewind.go\<close>, with the statements of
  \<open>db/dcrpg/internal/rewind.go\<close>) and the purge at the start (\<open>NewChainDB\<close> of \<open>db/dcrpg/pgblockchain.go\<close>). The
  rows of a block are found through the identifiers that the rows of the blocks and transactions tables
  hold. The durations of the summary are left out.
\<close>

section \<open>Statements\<close>

text \<open>\<open>array_cat(blocks.txdbids, blocks.stxdbids)\<close> of the block with the hash.\<close>

definition block_tx_ids :: "string \<Rightarrow> db \<Rightarrow> nat list" where
  "block_tx_ids hash d =
    concat (map (\<lambda>b. b_txDbIDs b @ b_stxDbIDs b) (filter (\<lambda>b. b_hash b = hash) (t_blocks d)))"

definition txs_of_block :: "string \<Rightarrow> db \<Rightarrow> transactions_row list" where
  "txs_of_block hash d = filter (\<lambda>t. t_id t \<in> set (block_tx_ids hash d)) (t_transactions d)"

definition vinsForBlockHash :: "string \<Rightarrow> db \<Rightarrow> nat list" where
  "vinsForBlockHash hash d =
    map i_id (filter (\<lambda>r. \<exists>t \<in> set (txs_of_block hash d). i_id r \<in> set (t_vin_db_ids t)) (t_vins d))"

definition voutsForBlockHash :: "string \<Rightarrow> db \<Rightarrow> nat list" where
  "voutsForBlockHash hash d =
    map o_id (filter (\<lambda>r. \<exists>t \<in> set (txs_of_block hash d). o_id r \<in> set (t_vout_db_ids t)) (t_vouts d))"

definition addressesForBlockHash :: "string \<Rightarrow> db \<Rightarrow> nat list" where
  "addressesForBlockHash hash d =
    map a_id (filter (\<lambda>r. \<exists>t \<in> set (txs_of_block hash d).
      a_tx_vin_vout_row_id r \<in> set (if a_is_funding r then t_vout_db_ids t else t_vin_db_ids t)) (t_addresses d))"

definition DeleteVinsSubQry :: "string \<Rightarrow> db \<Rightarrow> db \<times> nat" where
  "DeleteVinsSubQry hash d =
    (let P = (\<lambda>r. i_id r \<in> set (vinsForBlockHash hash d))
     in (d\<lparr>t_vins := delete_where P (t_vins d)\<rparr>, count_where P (t_vins d)))"

definition DeleteVoutsSubQry :: "string \<Rightarrow> db \<Rightarrow> db \<times> nat" where
  "DeleteVoutsSubQry hash d =
    (let P = (\<lambda>r. o_id r \<in> set (voutsForBlockHash hash d))
     in (d\<lparr>t_vouts := delete_where P (t_vouts d)\<rparr>, count_where P (t_vouts d)))"

definition DeleteAddressesSubQry :: "string \<Rightarrow> db \<Rightarrow> db \<times> nat" where
  "DeleteAddressesSubQry hash d =
    (let P = (\<lambda>r. a_id r \<in> set (addressesForBlockHash hash d))
     in (d\<lparr>t_addresses := delete_where P (t_addresses d)\<rparr>, count_where P (t_addresses d)))"

definition DeleteTransactionsSimple :: "string \<Rightarrow> db \<Rightarrow> db \<times> nat list" where
  "DeleteTransactionsSimple hash d =
    (d\<lparr>t_transactions := delete_where (\<lambda>r. t_block_hash r = hash) (t_transactions d)\<rparr>,
     map t_id (filter (\<lambda>r. t_block_hash r = hash) (t_transactions d)))"

definition ResetVoutSpendTxRowIDs :: "nat list \<Rightarrow> db \<Rightarrow> db \<times> nat" where
  "ResetVoutSpendTxRowIDs ids d =
    (let P = (\<lambda>r. \<exists>i \<in> set ids. o_spend_tx_row_id r = Some i)
     in (d\<lparr>t_vouts := update_where P (\<lambda>r. r\<lparr>o_spend_tx_row_id := None\<rparr>) (t_vouts d)\<rparr>, count_where P (t_vouts d)))"

definition DeleteTickets :: "string \<Rightarrow> db \<Rightarrow> db \<times> nat" where
  "DeleteTickets hash d =
    (let P = (\<lambda>r. \<exists>b \<in> set (t_blocks d). b_hash b = hash \<and> k_purchase_tx_db_id r \<in> set (b_stxDbIDs b))
     in (d\<lparr>t_tickets := delete_where P (t_tickets d)\<rparr>, count_where P (t_tickets d)))"

definition DeleteVotes :: "string \<Rightarrow> db \<Rightarrow> db \<times> nat" where
  "DeleteVotes hash d =
    (let P = (\<lambda>r. v_block_hash r = hash)
     in (d\<lparr>t_votes := delete_where P (t_votes d)\<rparr>, count_where P (t_votes d)))"

definition DeleteMisses :: "string \<Rightarrow> db \<Rightarrow> db \<times> nat" where
  "DeleteMisses hash d =
    (let P = (\<lambda>r. m_block_hash r = hash)
     in (d\<lparr>t_misses := delete_where P (t_misses d)\<rparr>, count_where P (t_misses d)))"

definition DeleteTreasuryTxns :: "string \<Rightarrow> db \<Rightarrow> db \<times> nat" where
  "DeleteTreasuryTxns hash d =
    (let P = (\<lambda>r. y_block_hash r = hash)
     in (d\<lparr>t_treasury := delete_where P (t_treasury d)\<rparr>, count_where P (t_treasury d)))"

definition DeleteSwaps :: "int \<Rightarrow> db \<Rightarrow> db \<times> nat" where
  "DeleteSwaps height d =
    (let P = (\<lambda>r. w_spend_height r = height)
     in (d\<lparr>t_swaps := delete_where P (t_swaps d)\<rparr>, count_where P (t_swaps d)))"

text \<open>The rows of the stats table refer to blocks and go with them (\<open>ON DELETE CASCADE\<close>).\<close>

definition DeleteBlock :: "string \<Rightarrow> db \<Rightarrow> db \<times> nat" where
  "DeleteBlock hash d =
    (let P = (\<lambda>r. b_hash r = hash);
         ids = map b_id (filter P (t_blocks d))
     in (d\<lparr>t_blocks := delete_where P (t_blocks d), t_stats := delete_where (\<lambda>r. s_blocks_id r \<in> set ids) (t_stats d)\<rparr>,
         count_where P (t_blocks d)))"

definition DeleteBlockFromChain :: "string \<Rightarrow> db \<Rightarrow> db \<times> string list" where
  "DeleteBlockFromChain hash d =
    (d\<lparr>t_block_chain := delete_where (\<lambda>r. c_this_hash r = hash) (t_block_chain d)\<rparr>,
     map c_prev_hash (filter (\<lambda>r. c_this_hash r = hash) (t_block_chain d)))"

section \<open>Deletion of a block\<close>

record DeletionSummary =
  ds_Blocks :: nat
  ds_Vins :: nat
  ds_Vouts :: nat
  ds_Addresses :: nat
  ds_Transactions :: nat
  ds_VoutSpendTxIDs :: nat
  ds_Tickets :: nat
  ds_Votes :: nat
  ds_Misses :: nat
  ds_Treasury :: nat
  ds_Swaps :: nat

definition deleteMissesForBlock :: "string \<Rightarrow> nat sql" where
  "deleteMissesForBlock hash = exec (DeleteMisses hash)"

definition deleteVotesForBlock :: "string \<Rightarrow> nat sql" where
  "deleteVotesForBlock hash = exec (DeleteVotes hash)"

definition deleteTicketsForBlock :: "string \<Rightarrow> nat sql" where
  "deleteTicketsForBlock hash = exec (DeleteTickets hash)"

definition deleteTreasuryTxnsForBlock :: "string \<Rightarrow> nat sql" where
  "deleteTreasuryTxnsForBlock hash = exec (DeleteTreasuryTxns hash)"

definition deleteSwapsForBlockHeight :: "int \<Rightarrow> nat sql" where
  "deleteSwapsForBlockHeight height = exec (DeleteSwaps height)"

definition deleteTransactionsForBlock :: "string \<Rightarrow> nat list sql" where
  "deleteTransactionsForBlock hash = exec (DeleteTransactionsSimple hash)"

definition deleteVoutsForBlockSubQry :: "string \<Rightarrow> nat sql" where
  "deleteVoutsForBlockSubQry hash = exec (DeleteVoutsSubQry hash)"

definition deleteVinsForBlockSubQry :: "string \<Rightarrow> nat sql" where
  "deleteVinsForBlockSubQry hash = exec (DeleteVinsSubQry hash)"

definition deleteAddressesForBlockSubQry :: "string \<Rightarrow> nat sql" where
  "deleteAddressesForBlockSubQry hash = exec (DeleteAddressesSubQry hash)"

definition deleteBlock :: "string \<Rightarrow> nat sql" where
  "deleteBlock hash = exec (DeleteBlock hash)"

definition resetSpendingForVoutsByTxRowID :: "nat list \<Rightarrow> nat sql" where
  "resetSpendingForVoutsByTxRowID ids = exec (ResetVoutSpendTxRowIDs ids)"

text \<open>
  The row of the block is removed, and the next hash of its predecessor is cleared; without such a row the
  next hash of a row that points to the block is.
\<close>

definition deleteBlockFromChain :: "string \<Rightarrow> unit sql" where
  "deleteBlockFromChain hash c =
    (case query_row (DeleteBlockFromChain hash) c of
       (c', Inl ErrNoRows) \<Rightarrow> UpdateBlockNextByNextHash hash [] c'
     | (c', Inl e) \<Rightarrow> (c', Inl e)
     | (c', Inr prevHash) \<Rightarrow> UpdateBlockNextByHash prevHash [] c')"

text \<open>
  A chain row that is missing, or another number of changed rows than one, is not an error: the deletion
  is committed.
\<close>

definition unlink_block :: "string \<Rightarrow> unit sql" where
  "unlink_block hash c =
    (case deleteBlockFromChain hash c of
       (c', Inl ErrNoRows) \<Rightarrow> (c', Inr ())
     | (c', Inl (ErrNotOneRow n)) \<Rightarrow> (c', Inr ())
     | r \<Rightarrow> r)"

definition purge_block :: "string \<Rightarrow> int \<Rightarrow> DeletionSummary sql" where
  "purge_block hash height =
    sql_bind (deleteVinsForBlockSubQry hash) (\<lambda>vins.
    sql_bind (deleteVoutsForBlockSubQry hash) (\<lambda>vouts.
    sql_bind (deleteAddressesForBlockSubQry hash) (\<lambda>adrs.
    sql_bind (deleteTransactionsForBlock hash) (\<lambda>txIDsRemoved.
    sql_bind (resetSpendingForVoutsByTxRowID txIDsRemoved) (\<lambda>voutsReset.
    sql_bind (deleteTicketsForBlock hash) (\<lambda>tickets.
    sql_bind (deleteVotesForBlock hash) (\<lambda>votes.
    sql_bind (deleteMissesForBlock hash) (\<lambda>misses.
    sql_bind (deleteTreasuryTxnsForBlock hash) (\<lambda>treasury.
    sql_bind (deleteSwapsForBlockHeight height) (\<lambda>swaps.
    sql_bind (deleteBlock hash) (\<lambda>blocks.
    sql_bind (unlink_block hash) (\<lambda>_.
      sql_return \<lparr>ds_Blocks = blocks, ds_Vins = vins, ds_Vouts = vouts, ds_Addresses = adrs,
        ds_Transactions = length txIDsRemoved, ds_VoutSpendTxIDs = voutsReset, ds_Tickets = tickets,
        ds_Votes = votes, ds_Misses = misses, ds_Treasury = treasury, ds_Swaps = swaps\<rparr>))))))))))))"

definition DeleteBlockData :: "string \<Rightarrow> int \<Rightarrow> DeletionSummary sql" where
  "DeleteBlockData hash height = in_transaction (purge_block hash height)"

section \<open>Deletion of the best blocks\<close>

definition DeleteBestBlock :: "(DeletionSummary \<times> int \<times> string) sql" where
  "DeleteBestBlock =
    sql_bind RetrieveBestBlock (\<lambda>(height, hash).
    sql_bind (DeleteBlockData hash height) (\<lambda>res.
    sql_bind RetrieveBestBlock (\<lambda>(height', hash').
    sql_bind (SetDBBestBlock hash' height') (\<lambda>_.
      sql_return (res, height', hash')))))"

fun DeleteBlocks_loop :: "nat \<Rightarrow> (DeletionSummary list \<times> int \<times> string) sql" where
  "DeleteBlocks_loop 0 = sql_return ([], 0, [])"
| "DeleteBlocks_loop (Suc n) =
    sql_bind DeleteBestBlock (\<lambda>(resi, height, hash).
      if hash = [] \<or> n = 0 then sql_return ([resi], height, hash)
      else sql_bind (DeleteBlocks_loop n) (\<lambda>(res, height', hash').
        sql_return (resi # res, height', hash')))"

definition DeleteBlocks :: "int \<Rightarrow> (DeletionSummary list \<times> int \<times> string) sql" where
  "DeleteBlocks n =
    (if n < 1 then sql_bind RetrieveBestBlock (\<lambda>(height, hash). sql_return ([], height, hash))
     else DeleteBlocks_loop (nat n))"

section \<open>The purge at the start\<close>

text \<open>
  Blocks are purged until the best hashes of the meta table and of the blocks table agree, and down to the
  height of the meta table. The height of the meta table is not read again in the loop. \<open>None\<close> stands for a
  loop that goes on for ever.
\<close>

partial_function (option) purge_loop :: "int \<Rightarrow> string \<Rightarrow> int \<Rightarrow> string \<Rightarrow> conn \<Rightarrow>
    (conn \<times> (sql_error + (int \<times> string))) option" where
  "purge_loop dbHeightInit dbHash bestHeight bestHash c =
    (if dbHash \<noteq> bestHash \<or> dbHeightInit < bestHeight
     then (case DeleteBestBlock c of
         (c1, Inl e) \<Rightarrow> Some (c1, Inl e)
       | (c1, Inr (_, bestHeight', bestHash')) \<Rightarrow>
           (if bestHeight' = -1 then Some (c1, Inr (bestHeight', bestHash'))
            else (case DBBestBlock c1 of
                (c2, Inl e) \<Rightarrow> Some (c2, Inl e)
              | (c2, Inr (dbHash', _)) \<Rightarrow>
                  (if dbHash' \<noteq> bestHash'
                   then Some (c2, Inl (ErrOther ''best block hash in meta and blocks tables do not match''))
                   else purge_loop dbHeightInit dbHash' bestHeight' bestHash' c2))))
     else Some (c, Inr (bestHeight, bestHash)))"

text \<open>
  The best block is the one of the transactions table when that is ahead. When the meta table is ahead of
  both, a block is deleted, which brings the meta table back.
\<close>

definition first_purge :: "int \<Rightarrow> string \<Rightarrow> int \<times> string \<Rightarrow> (int \<times> string \<times> int \<times> string) sql" where
  "first_purge dbHeightInit dbHash best =
    (if dbHeightInit > fst best
     then sql_bind DeleteBestBlock (\<lambda>(_, bestHeight, bestHash).
            sql_bind DBBestBlock (\<lambda>(dbHash', dbHeightInit').
              sql_return (dbHeightInit', dbHash', bestHeight, bestHash)))
     else sql_return (dbHeightInit, dbHash, best))"

definition best_at_start :: "(int \<times> string \<times> int \<times> string) sql" where
  "best_at_start =
    sql_bind RetrieveBestBlock (\<lambda>(bestHeight, bestHash).
    sql_bind DBBestBlock (\<lambda>(dbHash, dbHeightInit).
    sql_bind RetrieveTxsBestBlockMainchain (\<lambda>(bestTxsBlockHeight, bestTxsBlockHash).
      first_purge dbHeightInit dbHash
        (if bestTxsBlockHeight > bestHeight then (bestTxsBlockHeight, bestTxsBlockHash) else (bestHeight, bestHash)))))"

definition purge_at_start :: "conn \<Rightarrow> (conn \<times> (sql_error + (int \<times> string))) option" where
  "purge_at_start c =
    (case best_at_start c of
       (c', Inl e) \<Rightarrow> Some (c', Inl e)
     | (c', Inr (dbHeightInit, dbHash, bestHeight, bestHash)) \<Rightarrow>
         purge_loop dbHeightInit dbHash bestHeight bestHash c')"

end
