(* ===== verification/ChainRewindContract.thy ===== *)
theory ChainRewindContract
  imports ChainRewind
begin

text \<open>
  What the deletion of blocks promises: a deletion happens in full or not at all, it keeps the references
  between the tables, and \<open>DeleteBlocks\<close> takes the main chain back block by block. The purge at the start ends
  in every case, and brings the tables back to a best block that the meta table knows, unless the tables
  hold a block in part.
\<close>

section \<open>In full or not at all\<close>

lemma steady_one_row [steady_intros]: "steady m \<Longrightarrow> steady (one_row m)"
  unfolding one_row_def by (rule steady_bind) (auto intro: steady_intros)

lemma not_one_row: "one_row (exec stmt) c = (c', Inl e) \<Longrightarrow> e \<noteq> ErrNoRows"
  by (auto simp: one_row_def sql_bind_def exec_def split: prod.splits if_splits)

lemma steady_deleteBlockFromChain [steady_intros]: "steady (deleteBlockFromChain hash)"
proof -
  have "deleteBlockFromChain hash (c\<lparr>outcomes := []\<rparr>) = (c'\<lparr>outcomes := []\<rparr>, r)"
    if t: "deleteBlockFromChain hash c = (c', r)" "r \<noteq> Inl ErrDB" for c c' r
  proof -
    obtain c1 r1 where q: "query_row (DeleteBlockFromChain hash) c = (c1, r1)" by fastforce
    with t have "r1 \<noteq> Inl ErrDB"
      by (auto simp: deleteBlockFromChain_def)
    then have q': "query_row (DeleteBlockFromChain hash) (c\<lparr>outcomes := []\<rparr>) = (c1\<lparr>outcomes := []\<rparr>, r1)"
      by (rule steadyD [OF steady_query_row q])
    have n: "steady (UpdateBlockNextByNextHash h [])" "steady (UpdateBlockNextByHash h [])" for h
      unfolding UpdateBlockNextByNextHash_def UpdateBlockNextByHash_def by (intro steady_intros)+
    show ?thesis
      using t q q' steadyD [OF n(1)] steadyD [OF n(2)]
      by (auto simp: deleteBlockFromChain_def split: sum.splits sql_error.splits)
  qed
  then show ?thesis by (simp add: steady_def)
qed

lemma steady_unlink_block [steady_intros]: "steady (unlink_block hash)"
proof -
  have "unlink_block hash (c\<lparr>outcomes := []\<rparr>) = (c'\<lparr>outcomes := []\<rparr>, r)"
    if t: "unlink_block hash c = (c', r)" "r \<noteq> Inl ErrDB" for c c' r
  proof -
    obtain c1 r1 where q: "deleteBlockFromChain hash c = (c1, r1)" by fastforce
    with t have "r1 \<noteq> Inl ErrDB"
      by (auto simp: unlink_block_def)
    then show ?thesis
      using t q steadyD [OF steady_deleteBlockFromChain q]
      by (auto simp: unlink_block_def split: sum.splits sql_error.splits)
  qed
  then show ?thesis by (simp add: steady_def)
qed

lemmas delete_defs = deleteMissesForBlock_def deleteVotesForBlock_def deleteTicketsForBlock_def
  deleteTreasuryTxnsForBlock_def deleteSwapsForBlockHeight_def deleteTransactionsForBlock_def
  deleteVoutsForBlockSubQry_def deleteVinsForBlockSubQry_def deleteAddressesForBlockSubQry_def deleteBlock_def
  resetSpendingForVoutsByTxRowID_def

lemma steady_purge_block [steady_intros]: "steady (purge_block hash h)"
  unfolding purge_block_def delete_defs by (intro steady_intros)

lemma steady_DeleteBlockData [steady_intros]: "steady (DeleteBlockData hash h)"
  unfolding DeleteBlockData_def by (intro steady_intros)

section \<open>What a deletion does\<close>

definition own_txs :: "string \<Rightarrow> db \<Rightarrow> transactions_row set" where
  "own_txs hash d = {t \<in> set (t_transactions d). t_id t \<in> set (block_tx_ids hash d)}"

definition unlinked :: "string \<Rightarrow> block_chain_row list \<Rightarrow> block_chain_row list" where
  "unlinked hash rs =
    (case filter (\<lambda>r. c_this_hash r = hash) rs of
       [] \<Rightarrow> update_where (\<lambda>r. c_next_hash r = hash) (\<lambda>r. r\<lparr>c_next_hash := []\<rparr>) rs
     | r # _ \<Rightarrow> update_where (\<lambda>r'. c_this_hash r' = c_prev_hash r) (\<lambda>r. r\<lparr>c_next_hash := []\<rparr>)
         (delete_where (\<lambda>r. c_this_hash r = hash) rs))"

text \<open>
  The tables without the block: a row of the inputs, outputs or addresses is removed when a transaction
  that the block lists refers to it.
\<close>

definition without_block :: "string \<Rightarrow> int \<Rightarrow> db \<Rightarrow> db" where
  "without_block hash h d = d\<lparr>
    t_vins := delete_where (\<lambda>r. \<exists>t \<in> own_txs hash d. i_id r \<in> set (t_vin_db_ids t)) (t_vins d),
    t_vouts := update_where (\<lambda>r. \<exists>t \<in> set (t_transactions d). t_block_hash t = hash \<and> o_spend_tx_row_id r = Some (t_id t))
      (\<lambda>r. r\<lparr>o_spend_tx_row_id := None\<rparr>)
      (delete_where (\<lambda>r. \<exists>t \<in> own_txs hash d. o_id r \<in> set (t_vout_db_ids t)) (t_vouts d)),
    t_addresses := delete_where (\<lambda>r. \<exists>t \<in> own_txs hash d.
      a_tx_vin_vout_row_id r \<in> set (if a_is_funding r then t_vout_db_ids t else t_vin_db_ids t)) (t_addresses d),
    t_transactions := delete_where (\<lambda>r. t_block_hash r = hash) (t_transactions d),
    t_tickets := delete_where (\<lambda>r. \<exists>b \<in> set (t_blocks d). b_hash b = hash \<and> k_purchase_tx_db_id r \<in> set (b_stxDbIDs b))
      (t_tickets d),
    t_votes := delete_where (\<lambda>r. v_block_hash r = hash) (t_votes d),
    t_misses := delete_where (\<lambda>r. m_block_hash r = hash) (t_misses d),
    t_treasury := delete_where (\<lambda>r. y_block_hash r = hash) (t_treasury d),
    t_swaps := delete_where (\<lambda>r. w_spend_height r = h) (t_swaps d),
    t_blocks := delete_where (\<lambda>r. b_hash r = hash) (t_blocks d),
    t_stats := delete_where (\<lambda>r. \<exists>b \<in> set (t_blocks d). b_hash b = hash \<and> s_blocks_id r = b_id b) (t_stats d),
    t_block_chain := unlinked hash (t_block_chain d)\<rparr>"

lemma without_block_simps [simp]:
  "t_vins (without_block hash h d) =
    delete_where (\<lambda>r. \<exists>t \<in> own_txs hash d. i_id r \<in> set (t_vin_db_ids t)) (t_vins d)"
  "t_vouts (without_block hash h d) =
    update_where (\<lambda>r. \<exists>t \<in> set (t_transactions d). t_block_hash t = hash \<and> o_spend_tx_row_id r = Some (t_id t))
      (\<lambda>r. r\<lparr>o_spend_tx_row_id := None\<rparr>)
      (delete_where (\<lambda>r. \<exists>t \<in> own_txs hash d. o_id r \<in> set (t_vout_db_ids t)) (t_vouts d))"
  "t_addresses (without_block hash h d) = delete_where (\<lambda>r. \<exists>t \<in> own_txs hash d.
      a_tx_vin_vout_row_id r \<in> set (if a_is_funding r then t_vout_db_ids t else t_vin_db_ids t)) (t_addresses d)"
  "t_transactions (without_block hash h d) = delete_where (\<lambda>r. t_block_hash r = hash) (t_transactions d)"
  "t_tickets (without_block hash h d) =
    delete_where (\<lambda>r. \<exists>b \<in> set (t_blocks d). b_hash b = hash \<and> k_purchase_tx_db_id r \<in> set (b_stxDbIDs b)) (t_tickets d)"
  "t_votes (without_block hash h d) = delete_where (\<lambda>r. v_block_hash r = hash) (t_votes d)"
  "t_misses (without_block hash h d) = delete_where (\<lambda>r. m_block_hash r = hash) (t_misses d)"
  "t_treasury (without_block hash h d) = delete_where (\<lambda>r. y_block_hash r = hash) (t_treasury d)"
  "t_blocks (without_block hash h d) = delete_where (\<lambda>r. b_hash r = hash) (t_blocks d)"
  "t_stats (without_block hash h d) =
    delete_where (\<lambda>r. \<exists>b \<in> set (t_blocks d). b_hash b = hash \<and> s_blocks_id r = b_id b) (t_stats d)"
  "t_meta (without_block hash h d) = t_meta d"
  by (simp_all add: without_block_def)

lemma delete_ids:
  assumes "distinct (map key rs)"
  shows "delete_where (\<lambda>r. key r \<in> key ` {x \<in> set rs. P x}) rs = delete_where P rs"
  unfolding delete_where_def using assms by (intro filter_cong) (auto dest: distinct_map [THEN iffD1] inj_onD)

lemma own_txs_eq: "set (txs_of_block hash d) = own_txs hash d"
  by (auto simp: txs_of_block_def own_txs_def)

text \<open>On a connection that does not fail, a deletion succeeds.\<close>

lemma first_row_cases: "first_row rs = (case rs of [] \<Rightarrow> Inl ErrNoRows | r # _ \<Rightarrow> Inr r)"
  by (cases rs) auto

lemma unlink_block_ok:
  assumes "outcomes c = []"
  shows "unlink_block hash c = (c\<lparr>data := (data c)\<lparr>t_block_chain := unlinked hash (t_block_chain (data c))\<rparr>\<rparr>, Inr ())"
  using assms unfolding unlink_block_def deleteBlockFromChain_def UpdateBlockNextByNextHash_def
    UpdateBlockNextByHash_def one_row_def unlinked_def DeleteBlockFromChain_def UpdateBlockNextByHash_sql_def
    UpdateBlockNextByNextHash_sql_def
  by (cases "filter (\<lambda>r. c_this_hash r = hash) (t_block_chain (data c))")
    (auto simp: first_row_cases delete_where_def filter_empty_conv intro!: arg_cong [where f = "update_where _ _"])

definition unique_ids :: "db \<Rightarrow> bool" where
  "unique_ids d \<longleftrightarrow> distinct (map i_id (t_vins d)) \<and> distinct (map o_id (t_vouts d)) \<and>
    distinct (map a_id (t_addresses d)) \<and> distinct (map t_id (t_transactions d)) \<and>
    distinct (map b_id (t_blocks d)) \<and> distinct (map b_hash (t_blocks d))"

lemma purge_block_ok:
  assumes "outcomes c = []" "unique_ids (data c)"
  shows "\<exists>res. purge_block hash h c = (c\<lparr>data := without_block hash h (data c)\<rparr>, Inr res)"
proof -
  let ?d = "data c"
  have u: "distinct (map i_id (t_vins ?d))" "distinct (map o_id (t_vouts ?d))" "distinct (map a_id (t_addresses ?d))"
    using assms(2) by (simp_all add: unique_ids_def)
  have vins: "delete_where (\<lambda>r. i_id r \<in> set (vinsForBlockHash hash ?d)) (t_vins ?d) =
      delete_where (\<lambda>r. \<exists>t \<in> own_txs hash ?d. i_id r \<in> set (t_vin_db_ids t)) (t_vins ?d)"
    using delete_ids [OF u(1)] by (simp add: vinsForBlockHash_def own_txs_eq)
  have vouts: "delete_where (\<lambda>r. o_id r \<in> set (voutsForBlockHash hash ?d)) (t_vouts ?d) =
      delete_where (\<lambda>r. \<exists>t \<in> own_txs hash ?d. o_id r \<in> set (t_vout_db_ids t)) (t_vouts ?d)"
    using delete_ids [OF u(2)] by (simp add: voutsForBlockHash_def own_txs_eq)
  have adrs: "delete_where (\<lambda>r. a_id r \<in> set (addressesForBlockHash hash ?d)) (t_addresses ?d) =
      delete_where (\<lambda>r. \<exists>t \<in> own_txs hash ?d.
        a_tx_vin_vout_row_id r \<in> set (if a_is_funding r then t_vout_db_ids t else t_vin_db_ids t)) (t_addresses ?d)"
    using delete_ids [OF u(3)] by (simp add: addressesForBlockHash_def own_txs_eq)
  have other: "voutsForBlockHash hash (?d\<lparr>t_vins := x\<rparr>) = voutsForBlockHash hash ?d"
    "addressesForBlockHash hash (?d\<lparr>t_vins := x, t_vouts := y\<rparr>) = addressesForBlockHash hash ?d" for x y
    by (simp_all add: voutsForBlockHash_def addressesForBlockHash_def txs_of_block_def block_tx_ids_def)
  have spent: "update_where (\<lambda>r. \<exists>i \<in> set (map t_id (filter (\<lambda>t. t_block_hash t = hash) (t_transactions ?d))).
        o_spend_tx_row_id r = Some i) f rs =
      update_where (\<lambda>r. \<exists>t \<in> set (t_transactions ?d). t_block_hash t = hash \<and> o_spend_tx_row_id r = Some (t_id t)) f rs"
    for f rs
    by (rule arg_cong [where f = "\<lambda>P. update_where P f rs"]) auto
  have stats: "delete_where (\<lambda>r. s_blocks_id r \<in> b_id ` {b \<in> set (t_blocks ?d). b_hash b = hash}) (t_stats ?d) =
      delete_where (\<lambda>r. \<exists>b \<in> set (t_blocks ?d). b_hash b = hash \<and> s_blocks_id r = b_id b) (t_stats ?d)"
    by (rule arg_cong [where f = "\<lambda>P. delete_where P (t_stats ?d)"]) auto
  show ?thesis
    unfolding purge_block_def delete_defs
    by (simp add: assms(1) DeleteVinsSubQry_def DeleteVoutsSubQry_def DeleteAddressesSubQry_def
      DeleteTransactionsSimple_def ResetVoutSpendTxRowIDs_def DeleteTickets_def DeleteVotes_def DeleteMisses_def
      DeleteTreasuryTxns_def DeleteSwaps_def DeleteBlock_def Let_def unlink_block_ok other vins vouts adrs
      spent [simplified] stats without_block_def)
qed

lemma DeleteBlockData_ok:
  assumes "outcomes c = []" "unique_ids (data c)"
  shows "\<exists>res. DeleteBlockData hash h c = (c\<lparr>data := without_block hash h (data c)\<rparr>, Inr res)"
  using purge_block_ok [OF assms] assms(1) unfolding DeleteBlockData_def by (fastforce intro: in_transaction_ok)

lemma DeleteBlockData_result:
  assumes "unique_ids (data c)" "DeleteBlockData hash h c = (c', Inr res)"
  shows "data c' = without_block hash h (data c)"
proof -
  have "DeleteBlockData hash h (c\<lparr>outcomes := []\<rparr>) = (c'\<lparr>outcomes := []\<rparr>, Inr res)"
    using steadyD [OF steady_DeleteBlockData assms(2)] by simp
  with DeleteBlockData_ok [of "c\<lparr>outcomes := []\<rparr>" hash h] assms(1) have
    "c'\<lparr>outcomes := []\<rparr> = c\<lparr>outcomes := [], data := without_block hash h (data c)\<rparr>"
    by auto
  then have "data (c'\<lparr>outcomes := []\<rparr>) = without_block hash h (data c)"
    by simp
  then show ?thesis by simp
qed

lemma DeleteBlockData_failed: "DeleteBlockData hash h c = (c', Inl e) \<Longrightarrow> (data c')\<lparr>seqs := seqs (data c)\<rparr> = data c"
  unfolding DeleteBlockData_def by (drule in_transaction_fail [where q = "seqs (data c)"]) simp

text \<open>
  C27. Whatever statement fails, the begin and the commit of the transaction included: either the error is
  returned and the tables are as before, or they are the tables without the block; and a deletion
  on a connection that does not fail succeeds.
\<close>

theorem DeleteBlockData_all_or_nothing:
  assumes "unique_ids (data c)"
  shows "(case DeleteBlockData hash h c of
      (c', Inl e) \<Rightarrow> (data c')\<lparr>seqs := seqs (data c)\<rparr> = data c \<and> outcomes c \<noteq> []
    | (c', Inr res) \<Rightarrow> data c' = without_block hash h (data c))"
proof -
  obtain c' r where r: "DeleteBlockData hash h c = (c', r)" by fastforce
  show ?thesis
  proof (cases r)
    case (Inl e)
    then show ?thesis
      using r DeleteBlockData_failed [of hash h c c' e] DeleteBlockData_ok [OF _ assms, of hash h] by auto
  next
    case (Inr res)
    then show ?thesis
      using r DeleteBlockData_result [OF assms, of hash h c' res] by simp
  qed
qed

section \<open>References between the tables\<close>

text \<open>Every transaction is listed by its block, and its inputs and outputs are there.\<close>

definition tx_refs :: "db \<Rightarrow> bool" where
  "tx_refs d \<longleftrightarrow> (\<forall>t \<in> set (t_transactions d).
    (\<exists>b \<in> set (t_blocks d). b_hash b = t_block_hash t \<and> t_id t \<in> set (b_txDbIDs b @ b_stxDbIDs b)) \<and>
    set (t_vin_db_ids t) \<subseteq> i_id ` set (t_vins d) \<and> set (t_vout_db_ids t) \<subseteq> o_id ` set (t_vouts d))"

text \<open>Every input, output and address row has a transaction, and a spender is a transaction.\<close>

definition row_refs :: "db \<Rightarrow> bool" where
  "row_refs d \<longleftrightarrow>
    (\<forall>r \<in> set (t_vins d). \<exists>t \<in> set (t_transactions d). i_id r \<in> set (t_vin_db_ids t)) \<and>
    (\<forall>r \<in> set (t_vouts d). \<exists>t \<in> set (t_transactions d). o_id r \<in> set (t_vout_db_ids t)) \<and>
    (\<forall>r \<in> set (t_addresses d). \<exists>t \<in> set (t_transactions d).
      a_tx_vin_vout_row_id r \<in> set (if a_is_funding r then t_vout_db_ids t else t_vin_db_ids t))"

definition spent_refs :: "db \<Rightarrow> bool" where
  "spent_refs d \<longleftrightarrow> (\<forall>r \<in> set (t_vouts d). \<forall>i. o_spend_tx_row_id r = Some i \<longrightarrow> i \<in> t_id ` set (t_transactions d))"

text \<open>What belongs to a block belongs to one that is there, with the transactions it lists.\<close>

definition block_refs :: "db \<Rightarrow> bool" where
  "block_refs d \<longleftrightarrow>
    (\<forall>b \<in> set (t_blocks d). \<forall>i \<in> set (b_txDbIDs b @ b_stxDbIDs b).
      \<exists>t \<in> set (t_transactions d). t_id t = i \<and> t_block_hash t = b_hash b) \<and>
    (\<forall>k \<in> set (t_tickets d). \<exists>b \<in> set (t_blocks d). b_hash b = k_block_hash k \<and> k_purchase_tx_db_id k \<in> set (b_stxDbIDs b)) \<and>
    v_block_hash ` set (t_votes d) \<subseteq> b_hash ` set (t_blocks d) \<and>
    m_block_hash ` set (t_misses d) \<subseteq> b_hash ` set (t_blocks d) \<and>
    y_block_hash ` set (t_treasury d) \<subseteq> b_hash ` set (t_blocks d) \<and>
    s_blocks_id ` set (t_stats d) \<subseteq> b_id ` set (t_blocks d)"

definition refs_ok :: "db \<Rightarrow> bool" where
  "refs_ok d \<longleftrightarrow> tx_refs d \<and> row_refs d \<and> spent_refs d \<and> block_refs d"

definition unshared :: "db \<Rightarrow> bool" where
  "unshared d \<longleftrightarrow> (\<forall>t \<in> set (t_transactions d). \<forall>t' \<in> set (t_transactions d). t \<noteq> t' \<longrightarrow>
    set (t_vin_db_ids t) \<inter> set (t_vin_db_ids t') = {} \<and> set (t_vout_db_ids t) \<inter> set (t_vout_db_ids t') = {})"

lemma tx_refsD:
  assumes "tx_refs d" "t \<in> set (t_transactions d)"
  shows "\<exists>b \<in> set (t_blocks d). b_hash b = t_block_hash t \<and> t_id t \<in> set (b_txDbIDs b @ b_stxDbIDs b)"
    "set (t_vin_db_ids t) \<subseteq> i_id ` set (t_vins d)" "set (t_vout_db_ids t) \<subseteq> o_id ` set (t_vouts d)"
  using assms by (simp_all add: tx_refs_def)

lemma block_refsD:
  assumes "block_refs d"
  shows "b \<in> set (t_blocks d) \<Longrightarrow> i \<in> set (b_txDbIDs b @ b_stxDbIDs b) \<Longrightarrow>
      \<exists>t \<in> set (t_transactions d). t_id t = i \<and> t_block_hash t = b_hash b"
    "k \<in> set (t_tickets d) \<Longrightarrow>
      \<exists>b \<in> set (t_blocks d). b_hash b = k_block_hash k \<and> k_purchase_tx_db_id k \<in> set (b_stxDbIDs b)"
    "r1 \<in> set (t_votes d) \<Longrightarrow> \<exists>b \<in> set (t_blocks d). b_hash b = v_block_hash r1"
    "r2 \<in> set (t_misses d) \<Longrightarrow> \<exists>b \<in> set (t_blocks d). b_hash b = m_block_hash r2"
    "r3 \<in> set (t_treasury d) \<Longrightarrow> \<exists>b \<in> set (t_blocks d). b_hash b = y_block_hash r3"
    "r4 \<in> set (t_stats d) \<Longrightarrow> \<exists>b \<in> set (t_blocks d). b_id b = s_blocks_id r4"
  using assms unfolding block_refs_def image_subset_iff by (blast, blast, (metis imageE)+)

lemma block_refsI:
  assumes "\<And>b i. b \<in> set (t_blocks d) \<Longrightarrow> i \<in> set (b_txDbIDs b @ b_stxDbIDs b) \<Longrightarrow>
      \<exists>t \<in> set (t_transactions d). t_id t = i \<and> t_block_hash t = b_hash b"
    "\<And>k. k \<in> set (t_tickets d) \<Longrightarrow>
      \<exists>b \<in> set (t_blocks d). b_hash b = k_block_hash k \<and> k_purchase_tx_db_id k \<in> set (b_stxDbIDs b)"
    "\<And>r. r \<in> set (t_votes d) \<Longrightarrow> \<exists>b \<in> set (t_blocks d). b_hash b = v_block_hash r"
    "\<And>r. r \<in> set (t_misses d) \<Longrightarrow> \<exists>b \<in> set (t_blocks d). b_hash b = m_block_hash r"
    "\<And>r. r \<in> set (t_treasury d) \<Longrightarrow> \<exists>b \<in> set (t_blocks d). b_hash b = y_block_hash r"
    "\<And>r. r \<in> set (t_stats d) \<Longrightarrow> \<exists>b \<in> set (t_blocks d). b_id b = s_blocks_id r"
  shows "block_refs d"
  unfolding block_refs_def image_subset_iff
  using assms by (intro conjI ballI) (blast, blast, (metis imageI)+)

lemma own_txs_refs:
  assumes "unique_ids d" "tx_refs d" "block_refs d"
  shows "own_txs hash d = {t \<in> set (t_transactions d). t_block_hash t = hash}"
proof -
  have d: "distinct (map t_id (t_transactions d))"
    using assms(1) by (simp add: unique_ids_def)
  have "t_block_hash t = hash" if t: "t \<in> set (t_transactions d)" "t_id t \<in> set (block_tx_ids hash d)" for t
  proof -
    from t(2) obtain b where b: "b \<in> set (t_blocks d)" "b_hash b = hash" "t_id t \<in> set (b_txDbIDs b @ b_stxDbIDs b)"
      by (auto simp: block_tx_ids_def)
    then obtain t' where t': "t' \<in> set (t_transactions d)" "t_id t' = t_id t" "t_block_hash t' = hash"
      using block_refsD(1) [OF assms(3) b(1,3)] by auto
    with d t(1) have "t' = t"
      by (meson distinct_map inj_onD)
    with t' show ?thesis by simp
  qed
  moreover have "t_id t \<in> set (block_tx_ids hash d)" if "t \<in> set (t_transactions d)" "t_block_hash t = hash" for t
    using tx_refsD(1) [OF assms(2) that(1)] that(2) by (auto simp: block_tx_ids_def)
  ultimately show ?thesis
    by (auto simp: own_txs_def)
qed

lemma distinct_delete_where: "distinct (map key rs) \<Longrightarrow> distinct (map key (delete_where P rs))"
  by (simp add: delete_where_def distinct_map_filter)

lemma unique_ids_without: "unique_ids d \<Longrightarrow> unique_ids (without_block hash h d)"
  unfolding unique_ids_def by (simp add: map_update_where distinct_delete_where)

lemma unshared_without: "unshared d \<Longrightarrow> unshared (without_block hash h d)"
  unfolding unshared_def by simp

lemma ids_kept:
  assumes "ids \<subseteq> key ` set rs" "\<And>t'. t' \<in> S \<Longrightarrow> ids \<inter> idsof t' = {}"
  shows "ids \<subseteq> key ` {r \<in> set rs. \<not> (\<exists>t \<in> S. key r \<in> idsof t)}"
proof
  fix i assume i: "i \<in> ids"
  with assms(1) obtain r where "r \<in> set rs" "i = key r" by blast
  with i assms(2) show "i \<in> key ` {r \<in> set rs. \<not> (\<exists>t \<in> S. key r \<in> idsof t)}" by blast
qed

lemma image_update_where: "(\<And>r. key (f r) = key r) \<Longrightarrow> key ` set (update_where P f rs) = key ` set rs"
  using map_update_where [of key f P rs] by (metis set_map)

lemma tx_refs_without:
  assumes own: "own_txs hash d = {t \<in> set (t_transactions d). t_block_hash t = hash}" and "tx_refs d" "unshared d"
  shows "tx_refs (without_block hash h d)"
  unfolding tx_refs_def
proof (intro ballI conjI)
  fix t assume "t \<in> set (t_transactions (without_block hash h d))"
  then have t: "t \<in> set (t_transactions d)" "t_block_hash t \<noteq> hash"
    by simp_all
  have apart: "set (t_vin_db_ids t) \<inter> set (t_vin_db_ids t') = {}" "set (t_vout_db_ids t) \<inter> set (t_vout_db_ids t') = {}"
    if "t' \<in> own_txs hash d" for t'
  proof -
    have "t' \<in> set (t_transactions d)" "t \<noteq> t'" using that t by (auto simp: own)
    then show "set (t_vin_db_ids t) \<inter> set (t_vin_db_ids t') = {}" "set (t_vout_db_ids t) \<inter> set (t_vout_db_ids t') = {}"
      using assms(3) t(1) by (simp_all add: unshared_def)
  qed
  note kept = tx_refsD [OF assms(2) t(1)]
  show "\<exists>b \<in> set (t_blocks (without_block hash h d)). b_hash b = t_block_hash t \<and> t_id t \<in> set (b_txDbIDs b @ b_stxDbIDs b)"
    using kept(1) t(2) by auto
  show "set (t_vin_db_ids t) \<subseteq> i_id ` set (t_vins (without_block hash h d))"
    using ids_kept [OF kept(2) apart(1)] by simp
  show "set (t_vout_db_ids t) \<subseteq> o_id ` set (t_vouts (without_block hash h d))"
    using ids_kept [OF kept(3) apart(2)] by (simp add: image_update_where)
qed

lemma row_refs_without:
  assumes own: "own_txs hash d = {t \<in> set (t_transactions d). t_block_hash t = hash}" and "row_refs d"
  shows "row_refs (without_block hash h d)"
proof -
  let ?T = "set (t_transactions (without_block hash h d))"
  have other: "\<exists>t \<in> ?T. P t" if "\<exists>t \<in> set (t_transactions d). P t" "\<not> (\<exists>t \<in> own_txs hash d. P t)" for P
    using that by (auto simp: own)
  have "\<exists>t \<in> ?T. i_id r \<in> set (t_vin_db_ids t)" if "r \<in> set (t_vins (without_block hash h d))" for r
    by (rule other) (use that assms(2) in \<open>auto simp: row_refs_def\<close>)
  moreover have "\<exists>t \<in> ?T. o_id r \<in> set (t_vout_db_ids t)" if r: "r \<in> set (t_vouts (without_block hash h d))" for r
  proof -
    obtain r' where r': "r' \<in> set (t_vouts d)" "\<not> (\<exists>t \<in> own_txs hash d. o_id r' \<in> set (t_vout_db_ids t))"
        "o_id r = o_id r'"
      using imageI [OF r, of o_id] by (auto simp: image_update_where)
    then have "\<exists>t \<in> set (t_transactions d). o_id r' \<in> set (t_vout_db_ids t)"
      using assms(2) by (simp add: row_refs_def)
    then show ?thesis
      unfolding r'(3) using r'(2) by (rule other)
  qed
  moreover have "\<exists>t \<in> ?T. a_tx_vin_vout_row_id r \<in> set (if a_is_funding r then t_vout_db_ids t else t_vin_db_ids t)"
    if "r \<in> set (t_addresses (without_block hash h d))" for r
    by (rule other) (use that assms(2) in \<open>simp_all add: row_refs_def\<close>)
  ultimately show ?thesis
    unfolding row_refs_def by blast
qed

lemma spent_refs_without: "spent_refs d \<Longrightarrow> spent_refs (without_block hash h d)"
  unfolding spent_refs_def without_block_simps ball_update_where by (auto simp: image_iff) metis

lemma block_refs_without:
  assumes "block_refs d"
  shows "block_refs (without_block hash h d)"
proof (rule block_refsI, goal_cases)
  case (1 b i) then show ?case using block_refsD(1) [OF assms, of b i] by auto
next
  case (2 k) then show ?case using block_refsD(2) [OF assms, of k] by auto
next
  case (3 r) then show ?case using block_refsD(3) [OF assms, of r] by auto
next
  case (4 r) then show ?case using block_refsD(4) [OF assms, of r] by auto
next
  case (5 r) then show ?case using block_refsD(5) [OF assms, of r] by auto
next
  case (6 r) then show ?case using block_refsD(6) [OF assms, of r] by auto
qed

lemma refs_ok_without: "unique_ids d \<Longrightarrow> refs_ok d \<Longrightarrow> unshared d \<Longrightarrow> refs_ok (without_block hash h d)"
  by (simp add: refs_ok_def own_txs_refs tx_refs_without row_refs_without spent_refs_without block_refs_without)

definition no_rows_of :: "string \<Rightarrow> db \<Rightarrow> bool" where
  "no_rows_of hash d \<longleftrightarrow> hash \<notin> b_hash ` set (t_blocks d) \<and> hash \<notin> t_block_hash ` set (t_transactions d) \<and>
    hash \<notin> k_block_hash ` set (t_tickets d) \<and> hash \<notin> v_block_hash ` set (t_votes d) \<and>
    hash \<notin> m_block_hash ` set (t_misses d) \<and> hash \<notin> y_block_hash ` set (t_treasury d)"

lemma no_rows_without:
  assumes "refs_ok (without_block hash h d)"
  shows "no_rows_of hash (without_block hash h d)"
proof -
  let ?d = "without_block hash h d"
  have b: "hash \<notin> b_hash ` set (t_blocks ?d)" by auto
  have "tx_refs ?d" "block_refs ?d"
    using assms by (simp_all add: refs_ok_def)
  note refs = tx_refsD(1) [OF this(1)] block_refsD [OF this(2)]
  show ?thesis
    unfolding no_rows_of_def using b refs(1,3-6) by (safe; metis imageI)
qed

lemma refs_ok_seqs: "refs_ok (d\<lparr>seqs := q\<rparr>) = refs_ok d" "unique_ids (d\<lparr>seqs := q\<rparr>) = unique_ids d"
    "unshared (d\<lparr>seqs := q\<rparr>) = unshared d"
  by (simp_all add: refs_ok_def tx_refs_def row_refs_def spent_refs_def block_refs_def unique_ids_def unshared_def)


text \<open>
  A transaction that its block's successor invalidated can be mined again in a later block. Then both rows
  of the transactions table refer to the same inputs, whose table has one row for each input of a hash.
  When the later block is deleted these rows are, and the transaction of the earlier block has lost them.
\<close>

theorem shared_rows_lost:
  assumes "unique_ids (data c)" "DeleteBlockData hash h c = (c', Inr res)"
    and "t \<in> own_txs hash (data c)" "t' \<in> set (t_transactions (data c))" "t_block_hash t' \<noteq> hash"
    and "i \<in> set (t_vin_db_ids t)" "i \<in> set (t_vin_db_ids t')"
  shows "t' \<in> set (t_transactions (data c')) \<and> i \<notin> i_id ` set (t_vins (data c')) \<and> \<not> refs_ok (data c')"
proof -
  have d: "data c' = without_block hash h (data c)"
    by (rule DeleteBlockData_result [OF assms(1,2)])
  then have "t' \<in> set (t_transactions (data c'))" "i \<notin> i_id ` set (t_vins (data c'))"
    using assms(3-6) by auto
  with assms(7) show ?thesis
    by (auto simp: refs_ok_def dest: tx_refsD(2))
qed

section \<open>The best blocks\<close>

definition mains :: "db \<Rightarrow> blocks_row list" where
  "mains d = filter b_is_mainchain (t_blocks d)"

definition best_of :: "db \<Rightarrow> int \<times> string" where
  "best_of d = (case highest b_height (mains d) of [] \<Rightarrow> (-1, []) | r # _ \<Rightarrow> (b_height r, b_hash r))"

lemma highest_result: "rs \<noteq> [] \<Longrightarrow> \<exists>r \<in> set rs. highest f rs = [r] \<and> (\<forall>r' \<in> set rs. f r' \<le> f r)"
proof (induction rs)
  case (Cons r rs)
  show ?case
  proof (cases "rs = []")
    case False
    then obtain r' where "r' \<in> set rs" "highest f rs = [r']" "\<forall>x \<in> set rs. f x \<le> f r'"
      using Cons.IH by blast
    then show ?thesis by auto
  qed simp
qed simp

lemma RetrieveBestBlock_value: "RetrieveBestBlock c = (c', Inr x) \<Longrightarrow> data c' = data c \<and> x = best_of (data c)"
  by (auto simp: RetrieveBestBlock_def RetrieveBestBlockHeight_sql_def query_row_def exec_def best_of_def mains_def
    first_row_cases split: prod.splits sum.splits if_splits list.splits sql_error.splits)

lemma RetrieveBestBlock_ok: "outcomes c = [] \<Longrightarrow> RetrieveBestBlock c = (c, Inr (best_of (data c)))"
  by (auto simp: RetrieveBestBlock_def RetrieveBestBlockHeight_sql_def best_of_def mains_def first_row_cases
    split: prod.splits sum.splits list.splits)

text \<open>A main chain whose heights are those from 0 to a best height.\<close>

definition chain_upto :: "int \<Rightarrow> db \<Rightarrow> bool" where
  "chain_upto tp d \<longleftrightarrow> b_height ` set (mains d) = {0..tp} \<and> distinct (map b_height (mains d)) \<and>
    [] \<notin> b_hash ` set (mains d)"

definition hash_at :: "int \<Rightarrow> db \<Rightarrow> string" where
  "hash_at h d = (case filter (\<lambda>b. b_height b = h) (mains d) of [] \<Rightarrow> [] | r # _ \<Rightarrow> b_hash r)"

lemma hash_at_eq: "chain_upto tp d \<Longrightarrow> b \<in> set (mains d) \<Longrightarrow> hash_at (b_height b) d = b_hash b"
  unfolding hash_at_def chain_upto_def by (simp add: find_unique)

lemma hash_at_no: "chain_upto tp d \<Longrightarrow> h < 0 \<or> tp < h \<Longrightarrow> hash_at h d = []"
proof -
  assume "chain_upto tp d" "h < 0 \<or> tp < h"
  then have "h \<notin> b_height ` set (mains d)"
    unfolding chain_upto_def by auto
  then have "filter (\<lambda>b. b_height b = h) (mains d) = []"
    by (auto simp: filter_empty_conv)
  then show ?thesis by (simp add: hash_at_def)
qed

lemma hash_at_yes: "chain_upto tp d \<Longrightarrow> 0 \<le> h \<Longrightarrow> h \<le> tp \<Longrightarrow>
    \<exists>b \<in> set (mains d). b_height b = h \<and> b_hash b = hash_at h d \<and> hash_at h d \<noteq> []"
proof -
  assume c: "chain_upto tp d" and h: "0 \<le> h" "h \<le> tp"
  then have "h \<in> b_height ` set (mains d)"
    unfolding chain_upto_def by simp
  then obtain b where b: "b \<in> set (mains d)" "b_height b = h" by blast
  moreover from b c have "b_hash b \<noteq> []"
    unfolding chain_upto_def by force
  ultimately show ?thesis
    using hash_at_eq [OF c b(1)] by auto
qed

lemma best_of_chain:
  assumes c: "chain_upto tp d" and "-1 \<le> tp"
  shows "best_of d = (tp, hash_at tp d)"
proof (cases "mains d = []")
  case True
  with c have "{0..tp} = {}" unfolding chain_upto_def by auto
  with assms(2) have "tp = -1" by simp
  with True show ?thesis
    by (simp add: best_of_def hash_at_def)
next
  case False
  then obtain r where r: "r \<in> set (mains d)" "highest b_height (mains d) = [r]" "\<forall>r' \<in> set (mains d). b_height r' \<le> b_height r"
    using highest_result by blast
  have "b_height r \<in> {0..tp}"
    using c r(1) unfolding chain_upto_def by blast
  moreover from this have "tp \<in> b_height ` set (mains d)"
    using c unfolding chain_upto_def by simp
  ultimately have "b_height r = tp"
    using r(3) by fastforce
  with r(1,2) hash_at_eq [OF c r(1)] show ?thesis
    by (simp add: best_of_def)
qed

text \<open>Without its best block the main chain ends one lower, and the other blocks are there.\<close>

lemma blocks_without_best:
  assumes "chain_upto tp d" "0 \<le> tp" "unique_ids d"
  shows "t_blocks (without_block (hash_at tp d) tp d) = filter (\<lambda>b. \<not> (b_is_mainchain b \<and> tp - 1 < b_height b)) (t_blocks d)"
proof -
  obtain b where b: "b \<in> set (mains d)" "b_height b = tp" "b_hash b = hash_at tp d"
    using hash_at_yes [OF assms(1,2)] by auto
  have "b_hash b' = hash_at tp d \<longleftrightarrow> b_is_mainchain b' \<and> tp - 1 < b_height b'" if b': "b' \<in> set (t_blocks d)" for b'
  proof
    assume "b_hash b' = hash_at tp d"
    with b b' assms(3) have "b' = b"
      unfolding unique_ids_def mains_def by (metis distinct_map filter_is_subset inj_onD subsetD)
    with b show "b_is_mainchain b' \<and> tp - 1 < b_height b'"
      by (simp add: mains_def)
  next
    assume m: "b_is_mainchain b' \<and> tp - 1 < b_height b'"
    with b' have m': "b' \<in> set (mains d)" by (simp add: mains_def)
    then have "b_height b' \<in> {0..tp}"
      using assms(1) unfolding chain_upto_def by blast
    with m have "b_height b' = tp" by simp
    with hash_at_eq [OF assms(1) m'] show "b_hash b' = hash_at tp d" by simp
  qed
  then show ?thesis
    by (auto simp: delete_where_def intro!: filter_cong)
qed

lemma chain_upto_filter:
  assumes "chain_upto tp d" "0 \<le> tp" "t_blocks d' = filter (\<lambda>b. \<not> (b_is_mainchain b \<and> k < b_height b)) (t_blocks d)" "k \<le> tp"
  shows "chain_upto k d'" "h \<le> k \<Longrightarrow> hash_at h d' = hash_at h d"
proof -
  have m: "mains d' = filter (\<lambda>b. b_height b \<le> k) (mains d)"
    by (simp add: mains_def assms(3) not_less) (auto intro!: filter_cong)
  show "chain_upto k d'"
    using assms(1,4) unfolding chain_upto_def m
    by (auto simp: distinct_map_filter image_iff set_eq_iff) (metis order_trans)+
  show "hash_at h d' = hash_at h d" if "h \<le> k"
    unfolding hash_at_def m using that by (simp cong: conj_cong) (metis (no_types, lifting) filter_cong)
qed

text \<open>The state after the best blocks down to a height were deleted.\<close>

definition rewound :: "int \<Rightarrow> db \<Rightarrow> db \<Rightarrow> bool" where
  "rewound k d d' \<longleftrightarrow> unique_ids d' \<and>
    t_blocks d' = filter (\<lambda>b. \<not> (b_is_mainchain b \<and> k < b_height b)) (t_blocks d) \<and>
    t_meta d' = [\<lparr>best_block_height = k, best_block_hash = hash_at k d\<rparr>]"

lemma SetDBBestBlock_ok:
  assumes "outcomes c = []" "length (t_meta (data c)) = 1"
  shows "SetDBBestBlock hash h c =
    (c\<lparr>data := (data c)\<lparr>t_meta := [\<lparr>best_block_height = h, best_block_hash = hash\<rparr>]\<rparr>\<rparr>, Inr ())"
proof -
  obtain m where "t_meta (data c) = [m]"
    using assms(2) by (auto simp: length_Suc_conv)
  then show ?thesis
    using assms(1) by (cases m) (simp add: SetDBBestBlock_def SetMetaDBBestBlock_def)
qed

lemma best_of_cong: "t_blocks d' = t_blocks d \<Longrightarrow> best_of d' = best_of d"
  by (simp add: best_of_def mains_def)

lemma DeleteBestBlock_ok:
  assumes "outcomes c = []" "unique_ids (data c)" "chain_upto tp (data c)" "0 \<le> tp" "length (t_meta (data c)) = 1"
  shows "\<exists>c' res. DeleteBestBlock c = (c', Inr (res, tp - 1, hash_at (tp - 1) (data c))) \<and> outcomes c' = [] \<and>
    rewound (tp - 1) (data c) (data c')"
proof -
  let ?d = "without_block (hash_at tp (data c)) tp (data c)"
  let ?c = "c\<lparr>data := ?d\<rparr>"
  have best: "RetrieveBestBlock c = (c, Inr (tp, hash_at tp (data c)))"
    using RetrieveBestBlock_ok [OF assms(1)] best_of_chain [OF assms(3)] assms(4) by simp
  obtain res where del: "DeleteBlockData (hash_at tp (data c)) tp c = (?c, Inr res)"
    using DeleteBlockData_ok [OF assms(1,2)] by blast
  have blocks: "t_blocks ?d = filter (\<lambda>b. \<not> (b_is_mainchain b \<and> tp - 1 < b_height b)) (t_blocks (data c))"
    by (rule blocks_without_best [OF assms(3,4,2)])
  note after = chain_upto_filter [OF assms(3,4) blocks]
  have best': "RetrieveBestBlock ?c = (?c, Inr (tp - 1, hash_at (tp - 1) (data c)))"
    using RetrieveBestBlock_ok [of ?c] best_of_chain [OF after(1)] after(2) assms(1,4) by simp
  have meta: "SetDBBestBlock (hash_at (tp - 1) (data c)) (tp - 1) ?c =
      (?c\<lparr>data := ?d\<lparr>t_meta := [\<lparr>best_block_height = tp - 1, best_block_hash = hash_at (tp - 1) (data c)\<rparr>]\<rparr>\<rparr>, Inr ())"
    using SetDBBestBlock_ok [of ?c] assms(1,5) by simp
  have "DeleteBestBlock c =
      (?c\<lparr>data := ?d\<lparr>t_meta := [\<lparr>best_block_height = tp - 1, best_block_hash = hash_at (tp - 1) (data c)\<rparr>]\<rparr>\<rparr>,
       Inr (res, tp - 1, hash_at (tp - 1) (data c)))"
    unfolding DeleteBestBlock_def by (simp add: best del best' meta)
  moreover have "unique_ids (?d\<lparr>t_meta := x\<rparr>)" for x
    using unique_ids_without [OF assms(2)] by (simp add: unique_ids_def)
  ultimately show ?thesis
    using blocks assms(1) by (simp add: rewound_def)
qed

lemma rewound_chain:
  assumes "rewound k d d'" "chain_upto tp d" "0 \<le> tp" "k \<le> tp"
  shows "chain_upto k d'" "h \<le> k \<Longrightarrow> hash_at h d' = hash_at h d" "unique_ids d'" "length (t_meta d') = 1"
  using chain_upto_filter [OF assms(2,3) _ assms(4)] assms(1) by (simp_all add: rewound_def)

lemma rewound_trans:
  assumes "rewound k d d'" "rewound k' d' d''" "k' \<le> k" "chain_upto tp d" "0 \<le> tp" "k \<le> tp"
  shows "rewound k' d d''"
  using assms(1-3) rewound_chain(2) [OF assms(1,4-6), of k'] unfolding rewound_def
  by (auto intro!: filter_cong)

lemma DeleteBlocks_loop_rewinds:
  assumes "outcomes c = []" "unique_ids (data c)" "chain_upto tp (data c)" "0 \<le> tp" "length (t_meta (data c)) = 1"
    and "k = max (-1) (tp - 1 - int n)"
  shows "\<exists>c' res. DeleteBlocks_loop (Suc n) c = (c', Inr (res, k, hash_at k (data c))) \<and> outcomes c' = [] \<and>
    length res = nat (tp - k) \<and> rewound k (data c) (data c')"
  using assms
proof (induction n arbitrary: c tp)
  case 0
  then show ?case
    using DeleteBestBlock_ok [OF 0(1-5)] by fastforce
next
  case (Suc n)
  obtain c1 resi where d: "DeleteBestBlock c = (c1, Inr (resi, tp - 1, hash_at (tp - 1) (data c)))" "outcomes c1 = []"
      "rewound (tp - 1) (data c) (data c1)"
    using DeleteBestBlock_ok [OF Suc.prems(1-5)] by blast
  have tp: "tp - 1 \<le> tp" by simp
  note after = rewound_chain [OF d(3) Suc.prems(3,4) tp]
  show ?case
  proof (cases "tp = 0")
    case True
    with d Suc.prems(6) hash_at_no [OF Suc.prems(3), of "-1"] show ?thesis
      by (auto intro!: exI [of _ c1])
  next
    case False
    then have tp1: "0 \<le> tp - 1" and k: "k = max (-1) (tp - 1 - 1 - int n)" "k \<le> tp - 1"
      using Suc.prems(4,6) by auto
    obtain c2 res where l: "DeleteBlocks_loop (Suc n) c1 = (c2, Inr (res, k, hash_at k (data c1)))" "outcomes c2 = []"
        "length res = nat (tp - 1 - k)" "rewound k (data c1) (data c2)"
      using Suc.IH [OF d(2) after(3,1) tp1 after(4) k(1)] by blast
    have "hash_at (tp - 1) (data c) \<noteq> []"
      using hash_at_yes [OF Suc.prems(3) tp1] by auto
    moreover have "hash_at k (data c1) = hash_at k (data c)"
      using after(2) k(2) by simp
    ultimately have "DeleteBlocks_loop (Suc (Suc n)) c = (c2, Inr (resi # res, k, hash_at k (data c)))"
      using d(1) l(1) by simp
    moreover have "rewound k (data c) (data c2)"
      by (rule rewound_trans [OF d(3) l(4) k(2) Suc.prems(3,4) tp])
    ultimately show ?thesis
      using l(2,3) k(2) by (auto simp: nat_eq_iff)
  qed
qed

text \<open>
  C25. On a connection that does not fail, \<open>DeleteBlocks\<close> takes back the given number of blocks, or all there
  are: the main chain blocks above the new height are gone and every other block is there, the meta table
  holds the new best block, which is also what is returned, and there is one summary for each block.
\<close>

theorem DeleteBlocks_rewinds:
  assumes "outcomes c = []" "unique_ids (data c)" "chain_upto tp (data c)" "0 \<le> tp" "length (t_meta (data c)) = 1"
    and "1 \<le> n" "k = max (-1) (tp - n)"
  shows "\<exists>c' res. DeleteBlocks n c = (c', Inr (res, k, hash_at k (data c))) \<and>
    length res = nat (tp - k) \<and> rewound k (data c) (data c')"
proof -
  obtain m where m: "nat n = Suc m"
    using assms(6) by (cases "nat n") auto
  then have "k = max (-1) (tp - 1 - int m)"
    using assms(6,7) by auto
  from DeleteBlocks_loop_rewinds [OF assms(1-5) this] show ?thesis
    using assms(6) m by (auto simp: DeleteBlocks_def)
qed

section \<open>The purge at the start\<close>

text \<open>A deletion of the best block that succeeds and leaves a best block has removed one.\<close>

lemma SetDBBestBlock_value:
  "SetDBBestBlock hash h c = (c', Inr u) \<Longrightarrow> t_blocks (data c') = t_blocks (data c) \<and> (unique_ids (data c) \<longrightarrow> unique_ids (data c'))"
  by (auto simp: SetDBBestBlock_def SetMetaDBBestBlock_def sql_bind_def exec_def unique_ids_def
    split: prod.splits sum.splits if_splits)

lemma sql_bindE:
  assumes "sql_bind m f c = (c', Inr y)"
  obtains c1 x where "m c = (c1, Inr x)" "f x c1 = (c', Inr y)"
  using assms by (cases "m c"; cases "snd (m c)") auto

lemma DeleteBestBlock_fewer:
  assumes "DeleteBestBlock c = (c', Inr (res, h', hash'))" "unique_ids (data c)"
  shows "unique_ids (data c')" "h' \<noteq> -1 \<Longrightarrow> length (mains (data c')) < length (mains (data c))"
proof -
  obtain c1 h hash c2 res1 c3 x c4 u where s: "RetrieveBestBlock c = (c1, Inr (h, hash))"
      "DeleteBlockData hash h c1 = (c2, Inr res1)" "RetrieveBestBlock c2 = (c3, Inr (h', hash'))"
      "SetDBBestBlock hash' h' c3 = (c4, Inr u)" "c' = c4"
    using assms(1) unfolding DeleteBestBlock_def by (auto elim!: sql_bindE)
  have d1: "data c1 = data c" "(h, hash) = best_of (data c)"
    using RetrieveBestBlock_value [OF s(1)] by auto
  have d2: "data c2 = without_block hash h (data c)"
    using DeleteBlockData_result [OF _ s(2)] assms(2) d1 by simp
  have d3: "data c3 = data c2" "(h', hash') = best_of (data c2)"
    using RetrieveBestBlock_value [OF s(3)] by auto
  show "unique_ids (data c')"
    using SetDBBestBlock_value [OF s(4)] s(5) d2 d3 unique_ids_without [OF assms(2)] by simp
  have same: "mains (data c') = mains (data c2)"
    using SetDBBestBlock_value [OF s(4)] s(5) d3 by (simp add: mains_def)
  have sub: "mains (data c2) = filter (\<lambda>b. b_hash b \<noteq> hash) (mains (data c))"
    by (simp add: mains_def d2 delete_where_def conj_commute)
  assume "h' \<noteq> -1"
  then have "mains (data c2) \<noteq> []"
    using d3(2) by (auto simp: best_of_def)
  then have "mains (data c) \<noteq> []" using sub by auto
  then obtain r where r: "r \<in> set (mains (data c))" "highest b_height (mains (data c)) = [r]"
    using highest_result by blast
  then have "b_hash r = hash"
    using d1(2) by (simp add: best_of_def)
  then have "length (filter (\<lambda>b. b_hash b \<noteq> hash) (mains (data c))) < length (mains (data c))"
    using r(1) by (auto intro!: length_filter_less)
  with same sub show "length (mains (data c')) < length (mains (data c))" by simp
qed

lemma DBBestBlock_data: "DBBestBlock c = (c', r) \<Longrightarrow> data c' = data c"
  by (auto simp: DBBestBlock_def SelectMetaDBBestBlock_def query_row_def exec_def first_row_cases
    split: prod.splits sum.splits if_splits list.splits sql_error.splits)

lemma purge_loop_ends: "unique_ids (data c) \<Longrightarrow> purge_loop m mh bh bhash c \<noteq> None"
proof (induction "length (mains (data c))" arbitrary: c mh bh bhash rule: less_induct)
  case less
  show ?case
  proof (cases "mh \<noteq> bhash \<or> m < bh")
    case True
    obtain c1 r where d: "DeleteBestBlock c = (c1, r)" by fastforce
    show ?thesis
    proof (cases r)
      case (Inl e)
      with True d show ?thesis by (subst purge_loop.simps) simp
    next
      case (Inr x)
      then obtain res h' hash' where x: "r = Inr (res, h', hash')" by (cases x) auto
      obtain c2 q where q: "DBBestBlock c1 = (c2, q)" by fastforce
      have "purge_loop m a h' hash' c2 \<noteq> None" if "h' \<noteq> -1" for a
        using DeleteBestBlock_fewer [OF d [unfolded x] less.prems] that less.hyps DBBestBlock_data [OF q] by simp
      with True d x q show ?thesis
        by (subst purge_loop.simps) (auto split: sum.split)
    qed
  next
    case False
    then show ?thesis by (subst purge_loop.simps) simp
  qed
qed

lemma RetrieveTxsBestBlockMainchain_data: "RetrieveTxsBestBlockMainchain c = (c', r) \<Longrightarrow> data c' = data c"
  by (auto simp: RetrieveTxsBestBlockMainchain_def SelectTxsBestBlock_def query_row_def exec_def first_row_cases
    split: prod.splits sum.splits if_splits list.splits sql_error.splits)

lemma first_purge_unique:
  "first_purge m mh best c = (c', Inr y) \<Longrightarrow> unique_ids (data c) \<Longrightarrow> unique_ids (data c')"
  unfolding first_purge_def by (auto elim!: sql_bindE split: if_splits dest!: DBBestBlock_data DeleteBestBlock_fewer(1))

text \<open>The purge ends, whatever the tables hold and whichever statements fail.\<close>

theorem purge_at_start_ends:
  assumes "unique_ids (data c)"
  shows "purge_at_start c \<noteq> None"
proof -
  have "unique_ids (data c')" if "best_at_start c = (c', Inr y)" for c' y
    using that assms unfolding best_at_start_def
    by (auto elim!: sql_bindE dest!: RetrieveBestBlock_value DBBestBlock_data RetrieveTxsBestBlockMainchain_data
      dest: first_purge_unique)
  then have "purge_loop m mh bh bhash c' \<noteq> None" if "best_at_start c = (c', Inr (m, mh, bh, bhash))" for c' m mh bh bhash
    using that by (simp add: purge_loop_ends del: not_None_eq)
  then show ?thesis
    unfolding purge_at_start_def by (simp del: not_None_eq split: prod.split sum.split)
qed

text \<open>
  The best block of the transactions table, and the best block that the meta table has.
\<close>

definition txs_best :: "db \<Rightarrow> int \<times> string" where
  "txs_best d = (case highest t_block_height (filter t_is_mainchain (t_transactions d)) of
    [] \<Rightarrow> (-1, []) | t # _ \<Rightarrow> (t_block_height t, t_block_hash t))"

lemma RetrieveTxsBestBlockMainchain_ok: "outcomes c = [] \<Longrightarrow> RetrieveTxsBestBlockMainchain c = (c, Inr (txs_best (data c)))"
  by (auto simp: RetrieveTxsBestBlockMainchain_def SelectTxsBestBlock_def txs_best_def first_row_cases split: list.split)

lemma DBBestBlock_ok:
  "outcomes c = [] \<Longrightarrow> t_meta (data c) = [\<lparr>best_block_height = h, best_block_hash = hash\<rparr>] \<Longrightarrow> DBBestBlock c = (c, Inr (hash, h))"
  by (simp add: DBBestBlock_def SelectMetaDBBestBlock_def)

lemma purge_loop_rewinds:
  assumes "outcomes c = []" "unique_ids (data c)" "chain_upto tp (data c)" "0 \<le> tp" "-1 \<le> m"
    and "t_meta (data c) = [\<lparr>best_block_height = mh', best_block_hash = mh\<rparr>]"
    and "mh \<noteq> bhash \<or> m < bh" "k = (if m < tp then m else tp - 1)"
  shows "\<exists>c'. purge_loop m mh bh bhash c = Some (c', Inr (k, hash_at k (data c))) \<and> rewound k (data c) (data c')"
  using assms
proof (induction "nat tp" arbitrary: c tp mh mh' bh bhash)
  case (0 tp)
  have l: "length (t_meta (data c)) = 1" using 0(7) by simp
  obtain c1 res where d: "DeleteBestBlock c = (c1, Inr (res, tp - 1, hash_at (tp - 1) (data c)))" "rewound (tp - 1) (data c) (data c1)"
    using DeleteBestBlock_ok [OF 0(2-5) l] by blast
  have "tp = 0" "k = -1" using 0 by auto
  with d 0(8) show ?case
    by (subst purge_loop.simps) simp
next
  case (Suc n tp)
  have l: "length (t_meta (data c)) = 1" using Suc.prems(6) by simp
  obtain c1 res where d: "DeleteBestBlock c = (c1, Inr (res, tp - 1, hash_at (tp - 1) (data c)))" "outcomes c1 = []"
      "rewound (tp - 1) (data c) (data c1)"
    using DeleteBestBlock_ok [OF Suc.prems(1-4) l] by blast
  have tp: "tp - 1 \<le> tp" "0 \<le> tp - 1" "n = nat (tp - 1)" "tp - 1 \<noteq> -1"
    using Suc.hyps(2) by auto
  note after = rewound_chain [OF d(3) Suc.prems(3,4) tp(1)]
  have meta: "t_meta (data c1) = [\<lparr>best_block_height = tp - 1, best_block_hash = hash_at (tp - 1) (data c)\<rparr>]"
    using d(3) by (simp add: rewound_def)
  have step: "purge_loop m mh bh bhash c =
      purge_loop m (hash_at (tp - 1) (data c)) (tp - 1) (hash_at (tp - 1) (data c)) c1"
    using Suc.prems(7) d(1) tp(4) DBBestBlock_ok [OF d(2) meta] by (subst purge_loop.simps) simp
  show ?case
  proof (cases "m < tp - 1")
    case True
    with Suc.prems(8) have k: "k = (if m < tp - 1 then m else tp - 1 - 1)" "k \<le> tp - 1"
      by auto
    obtain c' where "purge_loop m (hash_at (tp - 1) (data c)) (tp - 1) (hash_at (tp - 1) (data c)) c1 =
        Some (c', Inr (k, hash_at k (data c1)))" "rewound k (data c1) (data c')"
      using Suc.hyps(1) [OF tp(3) d(2) after(3,1) tp(2) Suc.prems(5) meta _ k(1)] True by blast
    with step after(2) k(2) rewound_trans [OF d(3) _ k(2) Suc.prems(3,4) tp(1)] show ?thesis by auto
  next
    case False
    with Suc.prems(8) have "k = tp - 1" by auto
    with step d(3) False show ?thesis
      by (subst (asm) (2) purge_loop.simps) simp
  qed
qed

lemma best_at_start_ok:
  assumes "outcomes c = []" "chain_upto tp (data c)" "0 \<le> tp"
    and "t_meta (data c) = [\<lparr>best_block_height = mh, best_block_hash = mhash\<rparr>]"
  shows "best_at_start c = first_purge mh mhash
    (if tp < fst (txs_best (data c)) then txs_best (data c) else (tp, hash_at tp (data c))) c"
proof -
  have "best_of (data c) = (tp, hash_at tp (data c))"
    using best_of_chain [OF assms(2)] assms(3) by simp
  then show ?thesis
    unfolding best_at_start_def
    by (simp add: RetrieveBestBlock_ok [OF assms(1)] DBBestBlock_ok [OF assms(1,4)] RetrieveTxsBestBlockMainchain_ok [OF assms(1)]
      split: prod.split)
qed

lemma rewound_refl:
  assumes "chain_upto tp d" "unique_ids d" "t_meta d = [\<lparr>best_block_height = tp, best_block_hash = hash_at tp d\<rparr>]"
  shows "rewound tp d d"
proof -
  have "b_height b \<in> {0..tp}" if "b \<in> set (t_blocks d)" "b_is_mainchain b" for b
    using assms(1) that unfolding chain_upto_def mains_def by auto
  then have "filter (\<lambda>b. \<not> (b_is_mainchain b \<and> tp < b_height b)) (t_blocks d) = t_blocks d"
    by (intro filter_True) fastforce
  with assms(2,3) show ?thesis by (simp add: rewound_def)
qed

text \<open>
  C28. When the transactions table is not ahead of the blocks table, the purge leaves the block of the meta table as
  the best block of both tables; when the meta table is ahead, or names another block of the best
  height, one block is deleted. Blocks up to the new height are kept.
\<close>

theorem purge_at_start_recovers:
  assumes "outcomes c = []" "unique_ids (data c)" "chain_upto tp (data c)" "0 \<le> tp"
    and "t_meta (data c) = [\<lparr>best_block_height = mh, best_block_hash = mhash\<rparr>]" "-1 \<le> mh"
    and "fst (txs_best (data c)) \<le> tp"
    and "k = (if tp < mh \<or> mh = tp \<and> mhash \<noteq> hash_at tp (data c) then tp - 1 else mh)"
  shows "\<exists>c'. purge_at_start c = Some (c', Inr (k, hash_at k (data c))) \<and> rewound k (data c) (data c')"
proof -
  have start: "best_at_start c = first_purge mh mhash (tp, hash_at tp (data c)) c"
    using best_at_start_ok [OF assms(1,3,4,5)] assms(7) by simp
  show ?thesis
  proof (cases "tp < mh")
    case True
    obtain c1 res where d: "DeleteBestBlock c = (c1, Inr (res, tp - 1, hash_at (tp - 1) (data c)))" "outcomes c1 = []"
        "rewound (tp - 1) (data c) (data c1)"
      using DeleteBestBlock_ok [OF assms(1-4)] assms(5) by fastforce
    then have "t_meta (data c1) = [\<lparr>best_block_height = tp - 1, best_block_hash = hash_at (tp - 1) (data c)\<rparr>]"
      by (simp add: rewound_def)
    note m = DBBestBlock_ok [OF d(2) this]
    have "purge_at_start c = Some (c1, Inr (tp - 1, hash_at (tp - 1) (data c)))"
      using True d(1) m unfolding purge_at_start_def start first_purge_def by (simp add: purge_loop.simps)
    with True d(3) assms(8) show ?thesis by simp
  next
    case False
    then have p: "purge_at_start c = purge_loop mh mhash tp (hash_at tp (data c)) c"
      unfolding purge_at_start_def start first_purge_def by simp
    show ?thesis
    proof (cases "mhash \<noteq> hash_at tp (data c) \<or> mh < tp")
      case True
      with False assms(8) have "k = (if mh < tp then mh else tp - 1)" by auto
      from purge_loop_rewinds [OF assms(1-4,6,5) True this] p show ?thesis by simp
    next
      case same: False
      with False assms(8) have "k = tp" "mh = tp" "mhash = hash_at tp (data c)" by auto
      with same p rewound_refl [OF assms(3,2)] assms(5) show ?thesis
        by (simp add: purge_loop.simps)
    qed
  qed
qed

lemma DeleteBestBlock_txs:
  assumes "DeleteBestBlock c = (c', Inr r)" "unique_ids (data c)"
  shows "t_transactions (data c') = delete_where (\<lambda>t. t_block_hash t = snd (best_of (data c))) (t_transactions (data c))"
proof -
  obtain c1 h hash c2 res1 c3 x c4 u where s: "RetrieveBestBlock c = (c1, Inr (h, hash))"
      "DeleteBlockData hash h c1 = (c2, Inr res1)" "RetrieveBestBlock c2 = (c3, Inr x)"
      "SetDBBestBlock (snd x) (fst x) c3 = (c', Inr u)"
    using assms(1) unfolding DeleteBestBlock_def by (auto elim!: sql_bindE)
  have "t_transactions (data c') = t_transactions (data c3)"
    using s(4) by (auto simp: SetDBBestBlock_def SetMetaDBBestBlock_def sql_bind_def exec_def
      split: prod.splits sum.splits if_splits)
  then show ?thesis
    using RetrieveBestBlock_value [OF s(1)] RetrieveBestBlock_value [OF s(3)] DeleteBlockData_result [OF _ s(2)] assms(2)
    by (metis snd_conv without_block_simps(4))
qed

text \<open>
  A block whose transactions were stored, and which itself was not when the program stopped: the purge
  takes the transactions table for ahead, deletes the best block of the blocks table, which is complete, and
  stops, as the tables of blocks and the meta table agree. The transactions of the unfinished block stay.
\<close>

theorem partial_block_stays:
  assumes "outcomes c = []" "unique_ids (data c)" "chain_upto tp (data c)" "0 \<le> tp"
    and "t_meta (data c) = [\<lparr>best_block_height = tp, best_block_hash = hash_at tp (data c)\<rparr>]"
    and "tp < fst (txs_best (data c))"
    and "t \<in> set (t_transactions (data c))" "t_block_hash t \<noteq> hash_at tp (data c)"
  shows "\<exists>c'. purge_at_start c = Some (c', Inr (tp - 1, hash_at (tp - 1) (data c))) \<and>
    rewound (tp - 1) (data c) (data c') \<and> t \<in> set (t_transactions (data c'))"
proof -
  let ?b = "txs_best (data c)"
  obtain c1 res where d: "DeleteBestBlock c = (c1, Inr (res, tp - 1, hash_at (tp - 1) (data c)))" "outcomes c1 = []"
      "rewound (tp - 1) (data c) (data c1)"
    using DeleteBestBlock_ok [OF assms(1-4)] assms(5) by fastforce
  have m: "DBBestBlock c1 = (c1, Inr (hash_at (tp - 1) (data c), tp - 1))"
    using d(3) by (intro DBBestBlock_ok [OF d(2)]) (simp add: rewound_def)
  have "best_at_start c = (c, Inr (tp, hash_at tp (data c), ?b))"
    using best_at_start_ok [OF assms(1,3,4,5)] assms(6) by (simp add: first_purge_def)
  then have "purge_at_start c = purge_loop tp (hash_at tp (data c)) (fst ?b) (snd ?b) c"
    by (simp add: purge_at_start_def split: prod.split)
  also have "\<dots> = Some (c1, Inr (tp - 1, hash_at (tp - 1) (data c)))"
    using assms(6) d(1) m
    by (subst purge_loop.simps, simp) (subst purge_loop.simps, simp)
  moreover have "t \<in> set (t_transactions (data c1))"
    using DeleteBestBlock_txs [OF d(1) assms(2)] best_of_chain [OF assms(3)] assms(4,7,8) by simp
  ultimately show ?thesis
    using d(3) by auto
qed

end
