(* ===== verification/ChainRewindExamples.thy ===== *)
theory ChainRewindExamples
  imports ChainRewindContract
begin

text \<open>
  The deletion of blocks and the purge at the start on a small database.
\<close>

section \<open>Examples\<close>

text \<open>
  A block \<open>G\<close> with one transaction, and a block \<open>A\<close> with a transaction that spends its output and a ticket.
\<close>

definition rw_block :: "nat \<Rightarrow> string \<Rightarrow> int \<Rightarrow> string \<Rightarrow> nat list \<Rightarrow> nat list \<Rightarrow> blocks_row" where
  "rw_block i hash h prev txs stxs = \<lparr>b_id = i, b_hash = hash, b_height = h, b_is_valid = True, b_is_mainchain = True,
    b_txDbIDs = txs, b_stxDbIDs = stxs, b_previous_hash = prev, b_winners = []\<rparr>"

definition rw_tx :: "nat \<Rightarrow> string \<Rightarrow> int \<Rightarrow> int \<Rightarrow> nat list \<Rightarrow> nat list \<Rightarrow> transactions_row" where
  "rw_tx i hash h tree vins vouts = \<lparr>t_id = i, t_block_hash = hash, t_block_height = h, t_block_time = h, t_tx_type = tree,
    t_tree = tree, t_tx_hash = ''t'' @ hash, t_block_index = 0, t_mix_count = 0, t_mix_denom = 0, t_vin_db_ids = vins,
    t_vout_db_ids = vouts, t_is_valid = True, t_is_mainchain = True\<rparr>"

definition rw_vin :: "nat \<Rightarrow> vins_row" where
  "rw_vin i = \<lparr>i_id = i, i_tx_hash = [], i_tx_index = 0, i_tx_tree = 0, i_is_valid = True, i_is_mainchain = True,
    i_block_time = 0, i_prev_tx_hash = [], i_prev_tx_index = 0, i_prev_tx_tree = 0, i_value_in = 1, i_tx_type = 0\<rparr>"

definition rw_vout :: "nat \<Rightarrow> nat option \<Rightarrow> vouts_row" where
  "rw_vout i spender = \<lparr>o_id = i, o_tx_hash = [], o_tx_index = 0, o_tx_tree = 0, o_value = 1, o_script_addresses = [''x''],
    o_mixed = False, o_spend_tx_row_id = spender\<rparr>"

definition rw_address :: "nat \<Rightarrow> bool \<Rightarrow> nat \<Rightarrow> addresses_row" where
  "rw_address i funding row_id = \<lparr>a_id = i, a_address = ''x'', a_tx_hash = [], a_valid_mainchain = True,
    a_matching_tx_hash = [], a_value = 1, a_block_time = 0, a_is_funding = funding, a_tx_vin_vout_index = 0,
    a_tx_vin_vout_row_id = row_id, a_tx_type = 0\<rparr>"

definition rw_tables :: "transactions_row list \<Rightarrow> int \<Rightarrow> string \<Rightarrow> db" where
  "rw_tables txs mh mhash = \<lparr>
    t_blocks = [rw_block 1 ''G'' 0 [] [1] [], rw_block 2 ''A'' 1 ''G'' [2] [3]],
    t_block_chain = [\<lparr>c_block_db_id = 1, c_prev_hash = [], c_this_hash = ''G'', c_next_hash = ''A''\<rparr>,
      \<lparr>c_block_db_id = 2, c_prev_hash = ''G'', c_this_hash = ''A'', c_next_hash = []\<rparr>],
    t_transactions = [rw_tx 1 ''G'' 0 0 [1] [1], rw_tx 2 ''A'' 1 0 [2] [2], rw_tx 3 ''A'' 1 1 [3] [3]] @ txs,
    t_vins = [rw_vin 1, rw_vin 2, rw_vin 3],
    t_vouts = [rw_vout 1 (Some 2), rw_vout 2 None, rw_vout 3 None],
    t_addresses = [rw_address 1 True 1, rw_address 2 False 2, rw_address 3 True 2],
    t_tickets = [\<lparr>k_id = 1, k_tx_hash = [], k_block_hash = ''A'', k_block_height = 1, k_purchase_tx_db_id = 3, k_spend_type = 0,
      k_pool_status = 0, k_is_mainchain = True, k_spend_height = None, k_spend_tx_db_id = None\<rparr>],
    t_votes = [], t_misses = [], t_treasury = [], t_swaps = [],
    t_stats = [\<lparr>s_blocks_id = 2, s_height = 1, s_pool_size = 0, s_pool_val = 0\<rparr>],
    t_meta = [\<lparr>best_block_height = mh, best_block_hash = mhash\<rparr>],
    seqs = \<lparr>next_block = 3, next_tx = 4, next_vin = 4, next_vout = 4, next_address = 4, next_ticket = 2, next_vote = 1, next_miss = 1\<rparr>\<rparr>"

lemmas rw_defs = rw_tables_def rw_block_def rw_tx_def rw_vin_def rw_vout_def rw_address_def

lemma rw_facts:
  "unique_ids (rw_tables [] mh mhash)" "refs_ok (rw_tables [] mh mhash)" "unshared (rw_tables [] mh mhash)"
  "chain_upto 1 (rw_tables txs mh mhash)" "hash_at 1 (rw_tables txs mh mhash) = ''A''"
  "hash_at 0 (rw_tables txs mh mhash) = ''G''" "txs_best (rw_tables [] mh mhash) = (1, ''A'')"
  "unique_ids (rw_tables [rw_tx 4 ''P'' 2 0 [2] []] mh mhash)" "txs_best (rw_tables [rw_tx 4 ''P'' 2 0 [2] []] mh mhash) = (2, ''P'')"
  by (auto simp: unique_ids_def refs_ok_def tx_refs_def row_refs_def spent_refs_def block_refs_def unshared_def
    chain_upto_def mains_def hash_at_def txs_best_def rw_defs)

definition rw_conn :: "transactions_row list \<Rightarrow> int \<Rightarrow> string \<Rightarrow> conn" where
  "rw_conn txs mh mhash = \<lparr>data = rw_tables txs mh mhash, outcomes = []\<rparr>"

theorem DeleteBlockData_all_or_nothing_witness:
  "data (fst (DeleteBlockData ''A'' 1 (rw_conn [] 1 ''A''))) = without_block ''A'' 1 (rw_tables [] 1 ''A'')"
proof -
  have "unique_ids (data (rw_conn [] 1 ''A''))" "outcomes (rw_conn [] 1 ''A'') = []"
    using rw_facts(1) by (simp_all add: rw_conn_def)
  with DeleteBlockData_all_or_nothing [of "rw_conn [] 1 ''A''" "''A''" 1] show ?thesis
    by (auto simp: rw_conn_def split: prod.splits sum.splits)
qed


text \<open>Here the second transaction was mined again in a block \<open>P\<close>.\<close>

theorem shared_rows_lost_witness:
  "\<exists>c' res. DeleteBlockData ''A'' 1 (rw_conn [rw_tx 4 ''P'' 2 0 [2] []] 1 ''A'') = (c', Inr res) \<and>
    rw_tx 4 ''P'' 2 0 [2] [] \<in> set (t_transactions (data c')) \<and> 2 \<notin> i_id ` set (t_vins (data c'))"
proof -
  let ?c = "rw_conn [rw_tx 4 ''P'' 2 0 [2] []] 1 ''A''"
  have u: "unique_ids (data ?c)" "outcomes ?c = []"
    using rw_facts(8) by (simp_all add: rw_conn_def)
  obtain res c' where d: "DeleteBlockData ''A'' 1 ?c = (c', Inr res)"
    using DeleteBlockData_ok [OF u(2,1), of "''A''" 1] by blast
  have "rw_tx 2 ''A'' 1 0 [2] [2] \<in> own_txs ''A'' (data ?c)" "rw_tx 4 ''P'' 2 0 [2] [] \<in> set (t_transactions (data ?c))"
    by (simp_all add: own_txs_def block_tx_ids_def rw_conn_def rw_defs)
  from shared_rows_lost [OF u(1) d this, of 2] d show ?thesis
    by (simp add: rw_tx_def)
qed

theorem DeleteBlocks_rewinds_witness:
  "\<exists>c' res. DeleteBlocks 1 (rw_conn [] 1 ''A'') = (c', Inr (res, 0, ''G'')) \<and> rewound 0 (rw_tables [] 1 ''A'') (data c')"
proof -
  have "length (t_meta (rw_tables [] 1 ''A'')) = 1"
    by (simp add: rw_tables_def)
  with DeleteBlocks_rewinds [of "rw_conn [] 1 ''A''" 1 1 0] rw_facts(1,4,6) show ?thesis
    by (auto simp: rw_conn_def)
qed

theorem purge_at_start_ends_witness: "purge_at_start (rw_conn [] 0 ''G'') \<noteq> None"
  using purge_at_start_ends [of "rw_conn [] 0 ''G''"] rw_facts(1) by (simp add: rw_conn_def)

theorem purge_at_start_recovers_witness:
  "\<exists>c'. purge_at_start (rw_conn [] 0 ''G'') = Some (c', Inr (0, ''G'')) \<and> rewound 0 (rw_tables [] 0 ''G'') (data c')"
proof -
  have "t_meta (data (rw_conn [] 0 ''G'')) = [\<lparr>best_block_height = 0, best_block_hash = ''G''\<rparr>]"
    by (simp add: rw_conn_def rw_tables_def)
  with purge_at_start_recovers [of "rw_conn [] 0 ''G''" 1 0 "''G''" 0] rw_facts(1,4,6,7) show ?thesis
    by (simp add: rw_conn_def)
qed

theorem partial_block_stays_witness:
  "\<exists>c'. purge_at_start (rw_conn [rw_tx 4 ''P'' 2 0 [2] []] 1 ''A'') = Some (c', Inr (0, ''G'')) \<and>
    rw_tx 4 ''P'' 2 0 [2] [] \<in> set (t_transactions (data c'))"
proof -
  let ?c = "rw_conn [rw_tx 4 ''P'' 2 0 [2] []] 1 ''A''"
  have "t_meta (data ?c) = [\<lparr>best_block_height = 1, best_block_hash = ''A''\<rparr>]"
    "rw_tx 4 ''P'' 2 0 [2] [] \<in> set (t_transactions (data ?c))" "t_block_hash (rw_tx 4 ''P'' 2 0 [2] []) \<noteq> ''A''"
    by (simp_all add: rw_conn_def rw_tables_def rw_tx_def)
  with partial_block_stays [of ?c 1 "rw_tx 4 ''P'' 2 0 [2] []"] rw_facts(4,5,6,8,9) show ?thesis
    by (auto simp: rw_conn_def)
qed

end
