(* ===== verification/ChainInsert.thy ===== *)
theory ChainInsert
  imports ChainStatements UtxoStore
begin

text \<open>
  The insertion of rows (\<open>db/dcrpg/queries.go\<close> with the INSERT statements of \<open>db/dcrpg/internal\<close>). A row to be
  inserted is given without its identifier, which the sequence of its table provides. Every table has three
  statements: the insertion without a check, which is used before the unique indexes exist, the one that
  updates some columns of a row with the same key, and the one that leaves such a row as it is.
\<close>

section \<open>Transactions, inputs and outputs to be stored\<close>

text \<open>\<open>dbtypes.Vout\<close>, \<open>dbtypes.VinTxProperty\<close> and \<open>dbtypes.Tx\<close> with the fields that reach a modelled column.\<close>

record Vout =
  vo_TxHash :: string
  vo_TxIndex :: nat
  vo_TxTree :: int
  vo_TxType :: int
  vo_Value :: int
  vo_Addresses :: "string list"
  vo_Mixed :: bool

record VinTxProperty =
  vi_PrevTxHash :: string
  vi_PrevTxIndex :: nat
  vi_PrevTxTree :: int
  vi_ValueIn :: int
  vi_TxID :: string
  vi_TxIndex :: nat
  vi_TxTree :: int
  vi_TxType :: int
  vi_IsValid :: bool
  vi_IsMainchain :: bool
  vi_Time :: int

record Tx =
  tx_BlockHash :: string
  tx_BlockHeight :: int
  tx_BlockTime :: int
  tx_TxType :: int
  tx_Tree :: int
  tx_TxID :: string
  tx_BlockIndex :: nat
  tx_Spent :: int
  tx_Sent :: int
  tx_MixCount :: int
  tx_MixDenom :: int
  tx_VinDbIds :: "nat list"
  tx_VoutDbIds :: "nat list"
  tx_Vouts :: "Vout list"
  tx_IsValid :: bool
  tx_IsMainchainBlock :: bool

section \<open>Blocks of the node\<close>

text \<open>
  The message block with what the code reads of it. Of the functions of dcrd and \<open>txhelpers\<close> that look into
  scripts the results are given: the kind of a transaction, the denomination and number of its mixed
  outputs, the addresses of an output, and whether \<open>stake.CheckSSGenVotes\<close> accepts a vote.
\<close>

record TxIn =
  ti_PrevHash :: string
  ti_PrevIndex :: nat
  ti_PrevTree :: int
  ti_ValueIn :: int

record TxOut =
  to_Value :: int
  to_Addresses :: "string list"

record MsgTx =
  mt_Hash :: string
  mt_TxIn :: "TxIn list"
  mt_TxOut :: "TxOut list"
  mt_Type :: int
  mt_Mix :: "int \<times> int"
  mt_VoteOk :: bool

record MsgBlock =
  mb_Hash :: string
  mb_Height :: int
  mb_PrevBlock :: string
  mb_Timestamp :: int
  mb_VoteBits :: nat
  mb_Transactions :: "MsgTx list"
  mb_STransactions :: "MsgTx list"

text \<open>The vins of a transaction, and its vouts, of which those of the mix denomination are mixed.\<close>

definition extract_vins :: "MsgBlock \<Rightarrow> int \<Rightarrow> bool \<Rightarrow> bool \<Rightarrow> MsgTx \<Rightarrow> VinTxProperty list" where
  "extract_vins mb tree isValid isMainchain tx =
    map (\<lambda>(idx, txin). \<lparr>vi_PrevTxHash = ti_PrevHash txin, vi_PrevTxIndex = ti_PrevIndex txin, vi_PrevTxTree = ti_PrevTree txin,
        vi_ValueIn = ti_ValueIn txin, vi_TxID = mt_Hash tx, vi_TxIndex = idx, vi_TxTree = tree, vi_TxType = mt_Type tx,
        vi_IsValid = isValid \<or> tree = TxTreeStake, vi_IsMainchain = isMainchain, vi_Time = mb_Timestamp mb\<rparr>)
      (List.enumerate 0 (mt_TxIn tx))"

definition extract_vouts :: "int \<Rightarrow> MsgTx \<Rightarrow> Vout list" where
  "extract_vouts tree tx =
    (let mixDenom = (if mt_Type tx = 0 then fst (mt_Mix tx) else 0)
     in map (\<lambda>(io, txout). \<lparr>vo_TxHash = mt_Hash tx, vo_TxIndex = io, vo_TxTree = tree, vo_TxType = mt_Type tx,
          vo_Value = to_Value txout, vo_Addresses = to_Addresses txout,
          vo_Mixed = mixDenom > 0 \<and> mixDenom = to_Value txout\<rparr>)
        (List.enumerate 0 (mt_TxOut tx)))"

definition extract_tx :: "MsgBlock \<Rightarrow> int \<Rightarrow> bool \<Rightarrow> bool \<Rightarrow> nat \<Rightarrow> MsgTx \<Rightarrow> Tx" where
  "extract_tx mb tree isValid isMainchain txIndex tx =
    \<lparr>tx_BlockHash = mb_Hash mb, tx_BlockHeight = mb_Height mb, tx_BlockTime = mb_Timestamp mb, tx_TxType = mt_Type tx,
     tx_Tree = tree, tx_TxID = mt_Hash tx, tx_BlockIndex = txIndex,
     tx_Spent = sum_list (map ti_ValueIn (mt_TxIn tx)), tx_Sent = sum_list (map to_Value (mt_TxOut tx)),
     tx_MixCount = (if mt_Type tx = 0 then snd (mt_Mix tx) else 0),
     tx_MixDenom = (if mt_Type tx = 0 then fst (mt_Mix tx) else 0),
     tx_VinDbIds = [], tx_VoutDbIds = [], tx_Vouts = [],
     tx_IsValid = isValid \<or> tree = TxTreeStake, tx_IsMainchainBlock = isMainchain\<rparr>"

text \<open>
  A stake transaction in the regular tree is left out of the transactions, while the slices of inputs and
  outputs keep an empty element for it.
\<close>

definition inconsistent_tree :: "int \<Rightarrow> MsgTx \<Rightarrow> bool" where
  "inconsistent_tree tree tx \<longleftrightarrow> mt_Type tx \<noteq> 0 \<and> tree \<noteq> TxTreeStake"

definition processTransactions :: "MsgBlock \<Rightarrow> int \<Rightarrow> bool \<Rightarrow> bool \<Rightarrow>
    Tx list \<times> Vout list list \<times> VinTxProperty list list" where
  "processTransactions mb tree isValid isMainchain =
    (let txs = (if tree = TxTreeRegular then mb_Transactions mb else if tree = TxTreeStake then mb_STransactions mb else [])
     in (map (\<lambda>(txIndex, tx). extract_tx mb tree isValid isMainchain txIndex tx)
           (filter (\<lambda>(txIndex, tx). \<not> inconsistent_tree tree tx) (List.enumerate 0 txs)),
         map (\<lambda>tx. if inconsistent_tree tree tx then [] else extract_vouts tree tx) txs,
         map (\<lambda>tx. if inconsistent_tree tree tx then [] else extract_vins mb tree isValid isMainchain tx) txs))"

section \<open>Insertion with a unique key\<close>

text \<open>
  \<open>checked\<close> and \<open>upsert\<close> choose the statement; \<open>same\<close> says which rows have the key of the new one and
  \<open>change\<close> what an upsert does to them.
\<close>

definition insert_row :: "bool \<Rightarrow> bool \<Rightarrow> ('r \<Rightarrow> bool) \<Rightarrow> ('r \<Rightarrow> 'r) \<Rightarrow> ('r \<Rightarrow> nat) \<Rightarrow> 'r \<Rightarrow> 'r list \<Rightarrow> 'r list \<times> nat list" where
  "insert_row checked upsert same change ident row rows =
    (if checked \<and> filter same rows \<noteq> []
     then (if upsert then update_where same change rows else rows, [ident (hd (filter same rows))])
     else (rows @ [row], [ident row]))"

definition VinInsert :: "bool \<Rightarrow> bool \<Rightarrow> VinTxProperty \<Rightarrow> db \<Rightarrow> db \<times> nat list" where
  "VinInsert checked upsert vin d =
    (let row = \<lparr>i_id = next_vin (seqs d), i_tx_hash = vi_TxID vin, i_tx_index = vi_TxIndex vin, i_tx_tree = vi_TxTree vin,
           i_is_valid = vi_IsValid vin, i_is_mainchain = vi_IsMainchain vin, i_block_time = vi_Time vin,
           i_prev_tx_hash = vi_PrevTxHash vin, i_prev_tx_index = vi_PrevTxIndex vin, i_prev_tx_tree = vi_PrevTxTree vin,
           i_value_in = vi_ValueIn vin, i_tx_type = vi_TxType vin\<rparr>;
         same = (\<lambda>r. i_tx_hash r = i_tx_hash row \<and> i_tx_index r = i_tx_index row \<and> i_tx_tree r = i_tx_tree row);
         change = (\<lambda>r. r\<lparr>i_is_valid := i_is_valid row, i_is_mainchain := i_is_mainchain row, i_block_time := i_block_time row,
           i_prev_tx_hash := i_prev_tx_hash row, i_prev_tx_index := i_prev_tx_index row, i_prev_tx_tree := i_prev_tx_tree row\<rparr>);
         (rows, ids) = insert_row checked upsert same change i_id row (t_vins d)
     in (d\<lparr>t_vins := rows, seqs := (seqs d)\<lparr>next_vin := next_vin (seqs d) + 1\<rparr>\<rparr>, ids))"

text \<open>An upsert of an output changes its script version only, which is not modelled.\<close>

definition VoutInsert :: "bool \<Rightarrow> bool \<Rightarrow> Vout \<Rightarrow> db \<Rightarrow> db \<times> nat list" where
  "VoutInsert checked upsert vout d =
    (let row = \<lparr>o_id = next_vout (seqs d), o_tx_hash = vo_TxHash vout, o_tx_index = vo_TxIndex vout, o_tx_tree = vo_TxTree vout,
           o_value = vo_Value vout, o_script_addresses = vo_Addresses vout, o_mixed = vo_Mixed vout, o_spend_tx_row_id = None\<rparr>;
         same = (\<lambda>r. o_tx_hash r = o_tx_hash row \<and> o_tx_index r = o_tx_index row \<and> o_tx_tree r = o_tx_tree row);
         (rows, ids) = insert_row checked upsert same id o_id row (t_vouts d)
     in (d\<lparr>t_vouts := rows, seqs := (seqs d)\<lparr>next_vout := next_vout (seqs d) + 1\<rparr>\<rparr>, ids))"

definition TxInsert :: "bool \<Rightarrow> bool \<Rightarrow> Tx \<Rightarrow> db \<Rightarrow> db \<times> nat list" where
  "TxInsert checked upsert tx d =
    (let row = \<lparr>t_id = next_tx (seqs d), t_block_hash = tx_BlockHash tx, t_block_height = tx_BlockHeight tx,
           t_block_time = tx_BlockTime tx, t_tx_type = tx_TxType tx, t_tree = tx_Tree tx, t_tx_hash = tx_TxID tx,
           t_block_index = tx_BlockIndex tx, t_mix_count = tx_MixCount tx, t_mix_denom = tx_MixDenom tx,
           t_vin_db_ids = tx_VinDbIds tx, t_vout_db_ids = tx_VoutDbIds tx, t_is_valid = tx_IsValid tx,
           t_is_mainchain = tx_IsMainchainBlock tx\<rparr>;
         same = (\<lambda>r. t_tx_hash r = t_tx_hash row \<and> t_block_hash r = t_block_hash row);
         change = (\<lambda>r. r\<lparr>t_is_valid := t_is_valid row, t_is_mainchain := t_is_mainchain row\<rparr>);
         (rows, ids) = insert_row checked upsert same change t_id row (t_transactions d)
     in (d\<lparr>t_transactions := rows, seqs := (seqs d)\<lparr>next_tx := next_tx (seqs d) + 1\<rparr>\<rparr>, ids))"

text \<open>The identifier of the row that is given is not used.\<close>

definition AddressInsert :: "bool \<Rightarrow> bool \<Rightarrow> addresses_row \<Rightarrow> db \<Rightarrow> db \<times> nat list" where
  "AddressInsert checked upsert a d =
    (let row = a\<lparr>a_id := next_address (seqs d)\<rparr>;
         same = (\<lambda>r. a_tx_vin_vout_row_id r = a_tx_vin_vout_row_id row \<and> a_address r = a_address row \<and>
           a_is_funding r = a_is_funding row);
         change = (\<lambda>r. r\<lparr>a_matching_tx_hash := a_matching_tx_hash row, a_tx_hash := a_tx_hash row,
           a_tx_vin_vout_index := a_tx_vin_vout_index row, a_block_time := a_block_time row,
           a_valid_mainchain := a_valid_mainchain row\<rparr>);
         (rows, ids) = insert_row checked upsert same change a_id row (t_addresses d)
     in (d\<lparr>t_addresses := rows, seqs := (seqs d)\<lparr>next_address := next_address (seqs d) + 1\<rparr>\<rparr>, ids))"

definition TicketInsert :: "bool \<Rightarrow> bool \<Rightarrow> tickets_row \<Rightarrow> db \<Rightarrow> db \<times> nat list" where
  "TicketInsert checked upsert k d =
    (let row = k\<lparr>k_id := next_ticket (seqs d)\<rparr>;
         same = (\<lambda>r. k_tx_hash r = k_tx_hash row \<and> k_block_hash r = k_block_hash row);
         change = (\<lambda>r. r\<lparr>k_is_mainchain := k_is_mainchain row\<rparr>);
         (rows, ids) = insert_row checked upsert same change k_id row (t_tickets d)
     in (d\<lparr>t_tickets := rows, seqs := (seqs d)\<lparr>next_ticket := next_ticket (seqs d) + 1\<rparr>\<rparr>, ids))"

definition VoteInsert :: "bool \<Rightarrow> bool \<Rightarrow> votes_row \<Rightarrow> db \<Rightarrow> db \<times> nat list" where
  "VoteInsert checked upsert v d =
    (let row = v\<lparr>v_id := next_vote (seqs d)\<rparr>;
         same = (\<lambda>r. v_tx_hash r = v_tx_hash row \<and> v_block_hash r = v_block_hash row);
         change = (\<lambda>r. r\<lparr>v_is_mainchain := v_is_mainchain row\<rparr>);
         (rows, ids) = insert_row checked upsert same change v_id row (t_votes d)
     in (d\<lparr>t_votes := rows, seqs := (seqs d)\<lparr>next_vote := next_vote (seqs d) + 1\<rparr>\<rparr>, ids))"

definition MissInsert :: "bool \<Rightarrow> bool \<Rightarrow> misses_row \<Rightarrow> db \<Rightarrow> db \<times> nat list" where
  "MissInsert checked upsert m d =
    (let row = m\<lparr>m_id := next_miss (seqs d)\<rparr>;
         same = (\<lambda>r. m_ticket_hash r = m_ticket_hash row \<and> m_block_hash r = m_block_hash row);
         (rows, ids) = insert_row checked upsert same id m_id row (t_misses d)
     in (d\<lparr>t_misses := rows, seqs := (seqs d)\<lparr>next_miss := next_miss (seqs d) + 1\<rparr>\<rparr>, ids))"

text \<open>The rows of the treasury table have no identifier, and its statements answer with no row.\<close>

definition TreasuryInsert :: "bool \<Rightarrow> bool \<Rightarrow> treasury_row \<Rightarrow> db \<Rightarrow> db \<times> unit" where
  "TreasuryInsert checked upsert y d =
    (let same = (\<lambda>r. y_tx_hash r = y_tx_hash y \<and> y_block_hash r = y_block_hash y);
         change = (\<lambda>r. r\<lparr>y_is_mainchain := y_is_mainchain y\<rparr>)
     in (d\<lparr>t_treasury := fst (insert_row checked upsert same change (\<lambda>_. 0) y (t_treasury d))\<rparr>, ()))"

text \<open>The statement for blocks is an upsert whenever it is checked.\<close>

definition BlockInsert :: "bool \<Rightarrow> blocks_row \<Rightarrow> db \<Rightarrow> db \<times> nat list" where
  "BlockInsert checked b d =
    (let row = b\<lparr>b_id := next_block (seqs d)\<rparr>;
         same = (\<lambda>r. b_hash r = b_hash row);
         change = (\<lambda>r. r\<lparr>b_is_valid := b_is_valid row, b_is_mainchain := b_is_mainchain row\<rparr>);
         (rows, ids) = insert_row checked True same change b_id row (t_blocks d)
     in (d\<lparr>t_blocks := rows, seqs := (seqs d)\<lparr>next_block := next_block (seqs d) + 1\<rparr>\<rparr>, ids))"

text \<open>\<open>ON CONFLICT (this_hash) DO NOTHING\<close>; another row with the identifier violates the primary key.\<close>

definition BlockPrevNextInsert :: "block_chain_row \<Rightarrow> db \<Rightarrow> db \<times> bool" where
  "BlockPrevNextInsert r d =
    (if \<exists>r' \<in> set (t_block_chain d). c_this_hash r' = c_this_hash r then (d, True)
     else if \<exists>r' \<in> set (t_block_chain d). c_block_db_id r' = c_block_db_id r then (d, False)
     else (d\<lparr>t_block_chain := t_block_chain d @ [r]\<rparr>, True))"

definition UpsertStats :: "stats_row \<Rightarrow> db \<Rightarrow> db \<times> unit" where
  "UpsertStats s d =
    (d\<lparr>t_stats := fst (insert_row True True (\<lambda>r. s_height r = s_height s) (\<lambda>_. s) (\<lambda>_. 0) s (t_stats d))\<rparr>, ())"

section \<open>Insertion of many rows\<close>

text \<open>A statement without an answer ends the insertion, with the identifiers so far.\<close>

fun InsertVinsStmt :: "bool \<Rightarrow> bool \<Rightarrow> VinTxProperty list \<Rightarrow> conn \<Rightarrow> conn \<times> nat list \<times> sql_error option" where
  "InsertVinsStmt checked upsert [] c = (c, [], None)"
| "InsertVinsStmt checked upsert (vin # vins) c =
    (case query_row (VinInsert checked upsert vin) c of
       (c', Inl e) \<Rightarrow> (c', [], Some e)
     | (c', Inr i) \<Rightarrow> (case InsertVinsStmt checked upsert vins c' of (c'', ids, e) \<Rightarrow> (c'', i # ids, e)))"

text \<open>The rows of the addresses that an output pays to, with the columns that are known here.\<close>

definition funding_rows :: "Vout \<Rightarrow> nat \<Rightarrow> addresses_row list" where
  "funding_rows vout i = map (\<lambda>addr. \<lparr>a_id = 0, a_address = addr, a_tx_hash = vo_TxHash vout, a_valid_mainchain = False,
    a_matching_tx_hash = [], a_value = vo_Value vout, a_block_time = 0, a_is_funding = False,
    a_tx_vin_vout_index = vo_TxIndex vout, a_tx_vin_vout_row_id = i, a_tx_type = vo_TxType vout\<rparr>) (vo_Addresses vout)"

text \<open>A statement without an answer is passed over, other errors lose the identifiers.\<close>

fun InsertVoutsStmt :: "bool \<Rightarrow> bool \<Rightarrow> Vout list \<Rightarrow> (nat list \<times> addresses_row list) sql" where
  "InsertVoutsStmt checked upsert [] c = (c, Inr ([], []))"
| "InsertVoutsStmt checked upsert (vout # vouts) c =
    (case query_row (VoutInsert checked upsert vout) c of
       (c', Inl ErrNoRows) \<Rightarrow> InsertVoutsStmt checked upsert vouts c'
     | (c', Inl e) \<Rightarrow> (c', Inl e)
     | (c', Inr i) \<Rightarrow>
         sql_bind (InsertVoutsStmt checked upsert vouts)
           (\<lambda>(ids, addressRows). sql_return (i # ids, funding_rows vout i @ addressRows)) c')"

fun InsertTxnsStmt :: "bool \<Rightarrow> bool \<Rightarrow> Tx list \<Rightarrow> nat list sql" where
  "InsertTxnsStmt checked upsert [] c = (c, Inr [])"
| "InsertTxnsStmt checked upsert (tx # txs) c =
    (case query_row (TxInsert checked upsert tx) c of
       (c', Inl ErrNoRows) \<Rightarrow> InsertTxnsStmt checked upsert txs c'
     | (c', Inl e) \<Rightarrow> (c', Inl e)
     | (c', Inr i) \<Rightarrow> sql_bind (InsertTxnsStmt checked upsert txs) (\<lambda>ids. sql_return (i # ids)) c')"

fun InsertAddressRowsDbTx :: "bool \<Rightarrow> bool \<Rightarrow> addresses_row list \<Rightarrow> nat list sql" where
  "InsertAddressRowsDbTx checked upsert [] c = (c, Inr [])"
| "InsertAddressRowsDbTx checked upsert (a # as) c =
    (case query_row (AddressInsert checked upsert a) c of
       (c', Inl ErrNoRows) \<Rightarrow> InsertAddressRowsDbTx checked upsert as c'
     | (c', Inl e) \<Rightarrow> (c', Inl e)
     | (c', Inr i) \<Rightarrow> sql_bind (InsertAddressRowsDbTx checked upsert as) (\<lambda>ids. sql_return (i # ids)) c')"

end
