(* ===== verification/ChainStake.thy ===== *)
theory ChainStake
  imports ChainInsert
begin

text \<open>
  The stake transactions of a block in the database (\<open>db/dcrpg/queries.go\<close>): tickets, votes and misses,
  treasury transactions, and what is recorded for tickets that were spent, missed or expired; and the rows
  for spent outputs. The kinds of transactions are the constants of dcrd. The tables of agendas and of the
  votes on treasury spends are left out.
\<close>

section \<open>Constants\<close>

definition TxTypeRegular :: int where
  "TxTypeRegular = 0"

definition TxTypeSStx :: int where
  "TxTypeSStx = 1"

definition TxTypeSSGen :: int where
  "TxTypeSSGen = 2"

definition TxTypeSSRtx :: int where
  "TxTypeSSRtx = 3"

definition TxTypeTAdd :: int where
  "TxTypeTAdd = 4"

definition TxTypeTSpend :: int where
  "TxTypeTSpend = 5"

definition TxTypeTreasuryBase :: int where
  "TxTypeTreasuryBase = 6"

definition TicketUnspent :: int where
  "TicketUnspent = 0"

definition TicketRevoked :: int where
  "TicketRevoked = 1"

definition TicketVoted :: int where
  "TicketVoted = 2"

definition PoolStatusLive :: int where
  "PoolStatusLive = 0"

definition PoolStatusVoted :: int where
  "PoolStatusVoted = 1"

definition PoolStatusExpired :: int where
  "PoolStatusExpired = 2"

definition PoolStatusMissed :: int where
  "PoolStatusMissed = 3"

section \<open>Tickets, votes and treasury transactions\<close>

text \<open>The hashes of the transactions whose outputs a transaction spends.\<close>

definition mt_PrevHashes :: "MsgTx \<Rightarrow> string list" where
  "mt_PrevHashes msgTx = map ti_PrevHash (mt_TxIn msgTx)"

fun ticket_rows :: "Tx list \<Rightarrow> nat list \<Rightarrow> (Tx \<times> nat) list" where
  "ticket_rows txs ids = filter (\<lambda>(tx, i). tx_TxType tx = TxTypeSStx) (zip txs ids)"

fun InsertTickets_loop :: "bool \<Rightarrow> bool \<Rightarrow> (Tx \<times> nat) list \<Rightarrow> nat list sql" where
  "InsertTickets_loop checked upsert [] c = (c, Inr [])"
| "InsertTickets_loop checked upsert ((tx, i) # ts) c =
    (if tx_Vouts tx = [] then (c, Inl (Panics ''index out of range''))
     else
       (case query_row (TicketInsert checked upsert
            \<lparr>k_id = 0, k_tx_hash = tx_TxID tx, k_block_hash = tx_BlockHash tx, k_block_height = tx_BlockHeight tx,
             k_purchase_tx_db_id = i, k_spend_type = TicketUnspent, k_pool_status = PoolStatusLive,
             k_is_mainchain = tx_IsMainchainBlock tx, k_spend_height = None, k_spend_tx_db_id = None\<rparr>) c of
          (c', Inl ErrNoRows) \<Rightarrow> InsertTickets_loop checked upsert ts c'
        | (c', Inl e) \<Rightarrow> (c', Inl e)
        | (c', Inr k) \<Rightarrow> sql_bind (InsertTickets_loop checked upsert ts) (\<lambda>ids. sql_return (k # ids)) c'))"

definition InsertTickets :: "Tx list \<Rightarrow> nat list \<Rightarrow> bool \<Rightarrow> bool \<Rightarrow> (nat list \<times> Tx list) sql" where
  "InsertTickets txs txDbIDs checked upsert =
    (let tickets = ticket_rows txs txDbIDs
     in in_transaction (sql_bind (InsertTickets_loop checked upsert tickets)
          (\<lambda>ids. sql_return (ids, map fst tickets))))"

text \<open>The first occurrence is overwritten by the last element, and the slice is shortened.\<close>

definition remove_miss :: "string \<Rightarrow> string list \<Rightarrow> string list" where
  "remove_miss h misses =
    (let i = length (takeWhile (\<lambda>m. m \<noteq> h) misses)
     in if i < length misses then butlast (misses[i := last misses]) else misses)"

text \<open>The votes that were inserted are counted, and the misses are those validators that did not vote.\<close>

fun InsertVotes_loop :: "bool \<Rightarrow> bool \<Rightarrow> idCache \<Rightarrow> string \<Rightarrow> (Tx \<times> MsgTx) list \<Rightarrow> string list \<Rightarrow> nat \<Rightarrow>
    (nat \<times> string list) sql" where
  "InsertVotes_loop checked upsert fTx candidate [] misses n c = (c, Inr (n, misses))"
| "InsertVotes_loop checked upsert fTx candidate ((tx, msgTx) # vs) misses n c =
    (if \<not> mt_VoteOk msgTx then (c, Inl (ErrOther ''not a vote transaction''))
     else if length (mt_PrevHashes msgTx) < 2 then (c, Inl (Panics ''index out of range''))
     else
       (let ticket = mt_PrevHashes msgTx ! 1
        in (case TxnDbID ticket False fTx c of
              (c1, _, Inl e) \<Rightarrow> (c1, Inl e)
            | (c1, _, Inr _) \<Rightarrow>
                (let misses' = remove_miss ticket misses
                 in (case query_row (VoteInsert checked upsert
                        \<lparr>v_id = 0, v_height = tx_BlockHeight tx, v_tx_hash = tx_TxID tx, v_block_hash = tx_BlockHash tx,
                         v_candidate_block_hash = candidate, v_ticket_hash = ticket, v_is_mainchain = tx_IsMainchainBlock tx\<rparr>) c1 of
                       (c2, Inl ErrNoRows) \<Rightarrow> InsertVotes_loop checked upsert fTx candidate vs misses' n c2
                     | (c2, Inl e) \<Rightarrow> (c2, Inl e)
                     | (c2, Inr _) \<Rightarrow> InsertVotes_loop checked upsert fTx candidate vs misses' (n + 1) c2)))))"

fun InsertMisses_loop :: "bool \<Rightarrow> bool \<Rightarrow> int \<Rightarrow> string \<Rightarrow> string \<Rightarrow> string list \<Rightarrow> (string, nat) gomap \<Rightarrow>
    (string, nat) gomap sql" where
  "InsertMisses_loop checked upsert h hash candidate [] missHashMap c = (c, Inr missHashMap)"
| "InsertMisses_loop checked upsert h hash candidate (miss # ms) missHashMap c =
    (case query_row (MissInsert checked upsert
         \<lparr>m_id = 0, m_height = h, m_block_hash = hash, m_candidate_block_hash = candidate, m_ticket_hash = miss\<rparr>) c of
       (c', Inl ErrNoRows) \<Rightarrow> InsertMisses_loop checked upsert h hash candidate ms missHashMap c'
     | (c', Inl e) \<Rightarrow> (c', Inl e)
     | (c', Inr i) \<Rightarrow> InsertMisses_loop checked upsert h hash candidate ms (mput miss i missHashMap) c')"

text \<open>
  Nothing is done for a block without votes, whose misses are not stored either. With validators there must be
  five votes and misses.
\<close>

definition InsertVotes :: "Tx list \<Rightarrow> MsgTx list \<Rightarrow> idCache \<Rightarrow> string list \<Rightarrow> int \<Rightarrow> string \<Rightarrow> string \<Rightarrow> bool \<Rightarrow> bool \<Rightarrow>
    (string, nat) gomap sql" where
  "InsertVotes txs msgTxs fTx validators h hash candidate checked upsert =
    (let votes = filter (\<lambda>(tx, msgTx). tx_TxType tx = TxTypeSSGen) (zip txs msgTxs)
     in if votes = [] then sql_return []
        else in_transaction
          (sql_bind (InsertVotes_loop checked upsert fTx candidate votes validators 0) (\<lambda>(n, misses).
             if validators \<noteq> [] \<and> n + length misses \<noteq> 5 then sql_fail (Panics ''votes + misses != 5'')
             else InsertMisses_loop checked upsert h hash candidate misses [])))"

fun InsertTreasury_loop :: "bool \<Rightarrow> bool \<Rightarrow> Tx list \<Rightarrow> unit sql" where
  "InsertTreasury_loop checked upsert [] c = (c, Inr ())"
| "InsertTreasury_loop checked upsert (tx # txs) c =
    (if tx_TxType tx \<notin> {TxTypeTreasuryBase, TxTypeTSpend, TxTypeTAdd} then InsertTreasury_loop checked upsert txs c
     else if tx_TxType tx = TxTypeTAdd \<and> tx_Vouts tx = [] then (c, Inl (Panics ''index out of range''))
     else
       sql_bind (exec (TreasuryInsert checked upsert
           \<lparr>y_tx_hash = tx_TxID tx, y_tx_type = tx_TxType tx,
            y_value = (if tx_TxType tx = TxTypeTreasuryBase then tx_Sent tx
              else if tx_TxType tx = TxTypeTSpend then - tx_Spent tx else vo_Value (hd (tx_Vouts tx))),
            y_block_hash = tx_BlockHash tx, y_block_height = tx_BlockHeight tx, y_block_time = tx_BlockTime tx,
            y_is_mainchain = tx_IsMainchainBlock tx\<rparr>))
         (\<lambda>_. InsertTreasury_loop checked upsert txs) c)"

definition InsertTreasuryTxns :: "Tx list \<Rightarrow> bool \<Rightarrow> bool \<Rightarrow> unit sql" where
  "InsertTreasuryTxns txs checked upsert = in_transaction (InsertTreasury_loop checked upsert txs)"

section \<open>Tickets that are spent, missed or expired\<close>

text \<open>
  The votes and revocations, each with the row of its transaction, the kind of spending, the ticket and the
  row of the ticket. The identifiers of tickets are taken out of the cache for main chain blocks.
\<close>

fun CollectTicketSpend_loop :: "(Tx \<times> nat \<times> MsgTx) list \<Rightarrow> bool \<Rightarrow> conn \<times> idCache \<Rightarrow>
    (conn \<times> idCache) \<times> (sql_error + (nat \<times> int \<times> string \<times> nat) list)" where
  "CollectTicketSpend_loop [] m s = (s, Inr [])"
| "CollectTicketSpend_loop ((tx, txDbID, msgTx) # ts) m s =
    (if tx_TxType tx \<notin> {TxTypeSSGen, TxTypeSSRtx} then CollectTicketSpend_loop ts m s
     else if tx_TxID tx \<noteq> mt_Hash msgTx then (s, Inl (ErrOther ''txid of dbtypes.Tx does not match that of msgTx''))
     else
       (let spendType = (if tx_TxType tx = TxTypeSSGen then TicketVoted else TicketRevoked);
            i = (if tx_TxType tx = TxTypeSSGen then 1 else 0)
        in if length (mt_PrevHashes msgTx) \<le> i then CollectTicketSpend_loop ts m s
           else
             (let ticket = mt_PrevHashes msgTx ! i
              in (case TxnDbID ticket m (snd s) (fst s) of
                    (c, ids, Inl e) \<Rightarrow> ((c, ids), Inl e)
                  | (c, ids, Inr k) \<Rightarrow>
                      (case CollectTicketSpend_loop ts m (c, ids) of
                         (s', Inl e) \<Rightarrow> (s', Inl e)
                       | (s', Inr rest) \<Rightarrow> (s', Inr ((txDbID, spendType, ticket, k) # rest)))))))"

definition CollectTicketSpendDBInfo :: "Tx list \<Rightarrow> nat list \<Rightarrow> MsgTx list \<Rightarrow> bool \<Rightarrow> conn \<times> idCache \<Rightarrow>
    (conn \<times> idCache) \<times> (sql_error + (nat \<times> int \<times> string \<times> nat) list)" where
  "CollectTicketSpendDBInfo txs txDbIDs msgTxs m s =
    (if length msgTxs \<noteq> length txs then (s, Inl (ErrOther ''number of stake transactions not as expected''))
     else CollectTicketSpend_loop (zip txs (zip txDbIDs msgTxs)) m s)"

definition SetTicketSpendingInfoForTicketDbID :: "nat \<Rightarrow> int \<Rightarrow> nat \<Rightarrow> int \<Rightarrow> int \<Rightarrow> db \<Rightarrow> db \<times> nat" where
  "SetTicketSpendingInfoForTicketDbID i h txDbID spendType status d =
    (d\<lparr>t_tickets := update_where (\<lambda>r. k_id r = i)
       (\<lambda>r. r\<lparr>k_spend_type := spendType, k_spend_height := Some h, k_spend_tx_db_id := Some txDbID, k_pool_status := status\<rparr>)
       (t_tickets d)\<rparr>,
     count_where (\<lambda>r. k_id r = i) (t_tickets d))"

definition SetTicketPoolStatusForTicketDbID :: "nat \<Rightarrow> int \<Rightarrow> db \<Rightarrow> db \<times> nat" where
  "SetTicketPoolStatusForTicketDbID i status d =
    (d\<lparr>t_tickets := update_where (\<lambda>r. k_id r = i) (\<lambda>r. r\<lparr>k_pool_status := status\<rparr>) (t_tickets d)\<rparr>,
     count_where (\<lambda>r. k_id r = i) (t_tickets d))"

fun exec_all :: "(db \<Rightarrow> db \<times> nat) list \<Rightarrow> nat sql" where
  "exec_all [] = sql_return 0"
| "exec_all (stmt # stmts) = sql_bind (exec stmt) (\<lambda>n. sql_bind (exec_all stmts) (\<lambda>k. sql_return (n + k)))"

text \<open>
  A statement that fails rolls the transaction back, and the error that is returned is that of the
  rollback, so there is none.
\<close>

definition swallow_transaction :: "nat sql \<Rightarrow> nat sql" where
  "swallow_transaction body c =
    (case exec (\<lambda>d. (d, ())) c of
       (c1, Inl e) \<Rightarrow> (c1, Inl e)
     | (c1, Inr _) \<Rightarrow>
         (case body c1 of
            (c2, Inl e) \<Rightarrow> (rollback c1 c2, Inr 0)
          | (c2, Inr n) \<Rightarrow>
              (case exec (\<lambda>d. (d, ())) c2 of
                 (c3, Inl e) \<Rightarrow> (rollback c1 c3, Inl e)
               | (c3, Inr _) \<Rightarrow> (c3, Inr n))))"

definition SetSpendingForTickets :: "(nat \<times> nat \<times> int \<times> int \<times> int) list \<Rightarrow> nat sql" where
  "SetSpendingForTickets infos = swallow_transaction (exec_all
    (map (\<lambda>(i, txDbID, h, spendType, status). SetTicketSpendingInfoForTicketDbID i h txDbID spendType status) infos))"

definition SetPoolStatusForTickets :: "(nat \<times> int) list \<Rightarrow> nat sql" where
  "SetPoolStatusForTickets infos =
    (if infos = [] then sql_return 0
     else swallow_transaction (exec_all (map (\<lambda>(i, status). SetTicketPoolStatusForTicketDbID i status) infos)))"

section \<open>Spent outputs\<close>

definition SelectVoutAddressesByTxOut :: "string \<Rightarrow> nat \<Rightarrow> int \<Rightarrow> db \<Rightarrow> db \<times> (nat \<times> string list \<times> int \<times> bool) list" where
  "SelectVoutAddressesByTxOut txid ind tree d =
    (d, map (\<lambda>r. (o_id r, o_script_addresses r, o_value r, o_mixed r))
      (filter (\<lambda>r. o_tx_hash r = txid \<and> o_tx_index r = ind \<and> o_tx_tree r = tree) (t_vouts d)))"

text \<open>
  The column of addresses is scanned as the text of an array, without its braces and split at its commas:
  that of no address is one empty string.
\<close>

definition scan_addresses :: "string list \<Rightarrow> string list" where
  "scan_addresses as = (if as = [] then [[]] else as)"

definition retrieveTxOutData :: "string \<Rightarrow> nat \<Rightarrow> int \<Rightarrow> UTXOData sql" where
  "retrieveTxOutData txid ind tree =
    sql_bind (query_row (SelectVoutAddressesByTxOut txid ind tree)) (\<lambda>(i, as, value, mixed).
      sql_return \<lparr>ud_Addresses = scan_addresses as, ud_Value = value, ud_Mixed = mixed, ud_VoutDbID = int i\<rparr>)"

definition SetAddressMatchingTxHashForOutpoint :: "string \<Rightarrow> string \<Rightarrow> nat \<Rightarrow> bool \<Rightarrow> db \<Rightarrow> db \<times> nat" where
  "SetAddressMatchingTxHashForOutpoint spending funding ind m d =
    (let P = (\<lambda>r. a_tx_hash r = funding \<and> a_is_funding r \<and> a_tx_vin_vout_index r = ind \<and> a_valid_mainchain r = m)
     in (d\<lparr>t_addresses := update_where P (\<lambda>r. r\<lparr>a_matching_tx_hash := spending\<rparr>) (t_addresses d)\<rparr>,
         count_where P (t_addresses d)))"

definition SetSpendingForFundingOP :: "string \<Rightarrow> nat \<Rightarrow> string \<Rightarrow> bool \<Rightarrow> nat sql" where
  "SetSpendingForFundingOP funding ind spending forMainchain =
    exec (SetAddressMatchingTxHashForOutpoint spending funding ind forMainchain)"

definition UpdateVoutSpendTxRowID :: "nat \<Rightarrow> int list \<Rightarrow> db \<Rightarrow> db \<times> nat" where
  "UpdateVoutSpendTxRowID txDbID ids d =
    (let P = (\<lambda>r. int (o_id r) \<in> set ids)
     in (d\<lparr>t_vouts := update_where P (\<lambda>r. r\<lparr>o_spend_tx_row_id := Some txDbID\<rparr>) (t_vouts d)\<rparr>, count_where P (t_vouts d)))"

definition setSpendingForVout :: "int \<Rightarrow> nat \<Rightarrow> unit sql" where
  "setSpendingForVout voutDbID txDbID =
    sql_bind (exec (UpdateVoutSpendTxRowID txDbID [voutDbID])) (\<lambda>n.
      if n \<noteq> 1 then sql_fail (ErrOther ''updated rows, expected 1'') else sql_return ())"

definition setSpendingForVouts :: "int list \<Rightarrow> nat \<Rightarrow> unit sql" where
  "setSpendingForVouts voutDbIDs txDbID =
    (case voutDbIDs of
       [i] \<Rightarrow> setSpendingForVout i txDbID
     | _ \<Rightarrow>
         sql_bind (exec (UpdateVoutSpendTxRowID txDbID voutDbIDs)) (\<lambda>n.
           if n \<noteq> length voutDbIDs then sql_fail (ErrOther ''updated rows, expected'') else sql_return ()))"

definition no_utxo :: UTXOData where
  "no_utxo = \<lparr>ud_Addresses = [], ud_Value = 0, ud_Mixed = False, ud_VoutDbID = 0\<rparr>"

fun insert_spending_rows :: "bool \<Rightarrow> bool \<Rightarrow> addresses_row list \<Rightarrow> unit sql" where
  "insert_spending_rows checked upsert [] = sql_return ()"
| "insert_spending_rows checked upsert (a # as) =
    sql_bind (query_row (AddressInsert checked upsert a)) (\<lambda>_. insert_spending_rows checked upsert as)"

text \<open>
  The rows for an input: a spending row for each address of the output it spends, and the hash of the
  spending transaction in the rows that fund it. An output that is not found is only warned about.
\<close>

definition record_spend :: "VinTxProperty \<Rightarrow> nat \<Rightarrow> bool \<Rightarrow> bool \<Rightarrow> bool \<Rightarrow> bool \<Rightarrow> bool \<Rightarrow> int \<Rightarrow> UTXOData \<Rightarrow>
    (string list \<times> int \<times> bool) sql" where
  "record_spend vin vinDbID checked upsert m valid updateFundingRow blockTime u =
    sql_bind (insert_spending_rows checked upsert
        (map (\<lambda>addr. \<lparr>a_id = 0, a_address = addr, a_tx_hash = vi_TxID vin, a_valid_mainchain = m \<and> valid,
           a_matching_tx_hash = vi_PrevTxHash vin, a_value = ud_Value u, a_block_time = blockTime, a_is_funding = False,
           a_tx_vin_vout_index = vi_TxIndex vin, a_tx_vin_vout_row_id = vinDbID, a_tx_type = vi_TxType vin\<rparr>)
         (ud_Addresses u)))
      (\<lambda>_. sql_bind
         (if updateFundingRow \<and> valid
          then SetSpendingForFundingOP (vi_PrevTxHash vin) (vi_PrevTxIndex vin) (vi_TxID vin) m
          else sql_return 0)
         (\<lambda>_. sql_return (ud_Addresses u, ud_VoutDbID u, ud_Mixed u)))"

definition insertSpendingAddressRow :: "VinTxProperty \<Rightarrow> nat \<Rightarrow> UTXOData option \<Rightarrow> bool \<Rightarrow> bool \<Rightarrow> bool \<Rightarrow> bool \<Rightarrow> bool \<Rightarrow> int \<Rightarrow>
    (string list \<times> int \<times> bool) sql" where
  "insertSpendingAddressRow vin vinDbID spent checked upsert m valid updateFundingRow blockTime c =
    (let record_it = record_spend vin vinDbID checked upsert m valid updateFundingRow blockTime
     in case spent of
          Some u \<Rightarrow> record_it u c
        | None \<Rightarrow>
            (case retrieveTxOutData (vi_PrevTxHash vin) (vi_PrevTxIndex vin) (vi_PrevTxTree vin) c of
               (c1, Inl ErrNoRows) \<Rightarrow> record_it no_utxo c1
             | (c1, Inl e) \<Rightarrow> (c1, Inl e)
             | (c1, Inr u) \<Rightarrow> record_it u c1))"

section \<open>Blocks\<close>

definition InsertBlock :: "blocks_row \<Rightarrow> bool \<Rightarrow> nat sql" where
  "InsertBlock b checked = query_row (BlockInsert checked b)"

definition InsertBlockPrevNext :: "nat \<Rightarrow> string \<Rightarrow> string \<Rightarrow> string \<Rightarrow> unit sql" where
  "InsertBlockPrevNext blockDbID hash prev next =
    sql_bind (exec (BlockPrevNextInsert \<lparr>c_block_db_id = blockDbID, c_prev_hash = prev, c_this_hash = hash, c_next_hash = next\<rparr>))
      (\<lambda>ok. if ok then sql_return () else sql_fail (ErrOther ''duplicate key value violates unique constraint''))"

definition InsertBlockStats :: "nat \<Rightarrow> int \<Rightarrow> int \<Rightarrow> int \<Rightarrow> unit sql" where
  "InsertBlockStats blockDbID h size1 value =
    exec (UpsertStats \<lparr>s_blocks_id = blockDbID, s_height = h, s_pool_size = size1, s_pool_val = value\<rparr>)"

end
