(* ===== verification/ChainStore.thy ===== *)
theory ChainStore
  imports ChainTip ChainStake
begin

text \<open>
  Storing a block (\<open>StoreBlock\<close> of \<open>db/dcrpg/pgblockchain.go\<close>). The two transaction trees of a block are stored
  by two goroutines, which meet only in the caches and in the sequences of the tables: here one after the
  other, in either order. The counts of rows that are only reported and the atomic swaps are left out.
\<close>

section \<open>Operations on the chain database\<close>

type_synonym ('c, 'a) chain_op = "'c ChainDB \<Rightarrow> 'c ChainDB \<times> (sql_error + 'a)"

definition on_db :: "'a sql \<Rightarrow> ('c, 'a) chain_op" where
  "on_db m pgb = (case m (db_conn pgb) of (c, r) \<Rightarrow> (pgb\<lparr>db_conn := c\<rparr>, r))"

definition db_bind :: "('c, 'a) chain_op \<Rightarrow> ('a \<Rightarrow> ('c, 'b) chain_op) \<Rightarrow> ('c, 'b) chain_op" where
  "db_bind m f pgb = (case m pgb of (pgb', Inl e) \<Rightarrow> (pgb', Inl e) | (pgb', Inr x) \<Rightarrow> f x pgb')"

definition db_return :: "'a \<Rightarrow> ('c, 'a) chain_op" where
  "db_return x pgb = (pgb, Inr x)"

definition db_fail :: "sql_error \<Rightarrow> ('c, 'a) chain_op" where
  "db_fail e pgb = (pgb, Inl e)"

text \<open>An error of no rows is passed over.\<close>

definition but_no_rows :: "'a \<Rightarrow> 'a sql \<Rightarrow> 'a sql" where
  "but_no_rows x m c = (case m c of (c', Inl ErrNoRows) \<Rightarrow> (c', Inr x) | r \<Rightarrow> r)"

text \<open>A database transaction rolls back the tables and not the caches.\<close>

definition db_transaction :: "('c, 'a) chain_op \<Rightarrow> ('c, 'a) chain_op" where
  "db_transaction body pgb =
    (case on_db (exec (\<lambda>d. (d, ()))) pgb of
       (p1, Inl e) \<Rightarrow> (p1, Inl e)
     | (p1, Inr _) \<Rightarrow>
         (case body p1 of
            (p2, Inl e) \<Rightarrow> (p2\<lparr>db_conn := rollback (db_conn p1) (db_conn p2)\<rparr>, Inl e)
          | (p2, Inr x) \<Rightarrow>
              (case on_db (exec (\<lambda>d. (d, ()))) p2 of
                 (p3, Inl e) \<Rightarrow> (p3\<lparr>db_conn := rollback (db_conn p1) (db_conn p3)\<rparr>, Inl e)
               | (p3, Inr _) \<Rightarrow> (p3, Inr x))))"

section \<open>The cache of unspent outputs\<close>

text \<open>
  Outputs without value are not cached; the identifiers of the rows are -1 as long as they are not known
  for all outputs.
\<close>

definition cache_vouts :: "Tx \<Rightarrow> Vout list \<Rightarrow> utxoStore \<Rightarrow> utxoStore" where
  "cache_vouts tx vouts u =
    foldl (\<lambda>u (iv, vout).
        if vo_Value vout = 0 then u
        else utxo_Set (vo_TxHash vout) (vo_TxIndex vout)
          \<lparr>ud_Addresses = vo_Addresses vout, ud_Value = vo_Value vout, ud_Mixed = vo_Mixed vout,
           ud_VoutDbID = (if length (tx_VoutDbIds tx) = length vouts then int (tx_VoutDbIds tx ! iv) else -1)\<rparr> u)
      u (List.enumerate 0 vouts)"

definition updateUtxoCache :: "Vout list list \<Rightarrow> Tx list \<Rightarrow> utxoStore \<Rightarrow> utxoStore" where
  "updateUtxoCache dbVouts txns u = foldl (\<lambda>u (vouts, tx). cache_vouts tx vouts u) u (zip dbVouts txns)"

section \<open>Mixed outputs\<close>

definition zeroHashStr :: string where
  "zeroHashStr = replicate 64 CHR ''0''"

text \<open>
  Whether all outputs that a transaction spends are mixed; an output that is not cached is read from the
  table and cached.
\<close>

fun all_mixed :: "VinTxProperty list \<Rightarrow> conn \<times> utxoStore \<Rightarrow> (conn \<times> utxoStore) \<times> bool" where
  "all_mixed [] s = (s, True)"
| "all_mixed (vin # vins) (c, u) =
    (if vi_PrevTxHash vin = zeroHashStr then all_mixed vins (c, u)
     else
       (case utxo_Peek (vi_PrevTxHash vin) (vi_PrevTxIndex vin) u of
          Some x \<Rightarrow> if ud_Mixed x then all_mixed vins (c, u) else ((c, u), False)
        | None \<Rightarrow>
            (case retrieveTxOutData (vi_PrevTxHash vin) (vi_PrevTxIndex vin) (vi_PrevTxTree vin) c of
               (c', Inl e) \<Rightarrow> ((c', u), False)
             | (c', Inr x) \<Rightarrow>
                 (let u' = utxo_Set (vi_PrevTxHash vin) (vi_PrevTxIndex vin) x u
                  in if ud_Mixed x then all_mixed vins (c', u') else ((c', u'), False)))))"

fun tag_mixed :: "(Tx \<times> Vout list \<times> VinTxProperty list) list \<Rightarrow> conn \<times> utxoStore \<Rightarrow>
    (conn \<times> utxoStore) \<times> (Tx \<times> Vout list \<times> VinTxProperty list) list" where
  "tag_mixed [] s = (s, [])"
| "tag_mixed ((tx, vouts, vins) # txs) s =
    (if tx_MixCount tx > 0 \<or> tx_TxType tx = TxTypeRegular
     then (case tag_mixed txs s of (s', rest) \<Rightarrow> (s', (tx, vouts, vins) # rest))
     else
       (case all_mixed vins s of
          (s1, mixed) \<Rightarrow>
            (case tag_mixed txs s1 of
               (s', rest) \<Rightarrow>
                 (s', (tx, if mixed then map (\<lambda>vout. vout\<lparr>vo_Mixed := True\<rparr>) vouts else vouts, vins) # rest))))"

definition mixed_value :: "(Tx \<times> Vout list \<times> VinTxProperty list) list \<Rightarrow> int" where
  "mixed_value txs = sum_list (map (\<lambda>(tx, vouts, vins).
     if tx_IsValid tx then sum_list (map vo_Value (filter vo_Mixed vouts)) else 0) txs)"

section \<open>Transactions with their inputs and outputs\<close>

text \<open>The identifiers of the rows are put into the transactions, before these are inserted.\<close>

fun storeTxns_loop :: "bool \<Rightarrow> bool \<Rightarrow> (Tx \<times> Vout list \<times> VinTxProperty list) list \<Rightarrow> (Tx \<times> addresses_row list) list sql" where
  "storeTxns_loop checked upsert [] c = (c, Inr [])"
| "storeTxns_loop checked upsert ((tx, vouts, vins) # txs) c =
    (case but_no_rows ([], []) (InsertVoutsStmt checked upsert vouts) c of
       (c1, Inl e) \<Rightarrow> (c1, Inl e)
     | (c1, Inr (voutDbIDs, adrs)) \<Rightarrow>
         (case InsertVinsStmt checked upsert vins c1 of
            (c2, vinDbIDs, e) \<Rightarrow>
              if e \<noteq> None \<and> e \<noteq> Some ErrNoRows then (c2, Inl (the e))
              else
                sql_bind (storeTxns_loop checked upsert txs)
                  (\<lambda>rest. sql_return ((tx\<lparr>tx_VoutDbIds := voutDbIDs, tx_VinDbIds := vinDbIDs, tx_Vouts := vouts\<rparr>, adrs) # rest))
                  c2))"

definition storeTxns :: "bool \<Rightarrow> bool \<Rightarrow> (Tx \<times> Vout list \<times> VinTxProperty list) list \<Rightarrow>
    ((Tx \<times> addresses_row list) list \<times> nat list) sql" where
  "storeTxns checked upsert txs =
    in_transaction
      (sql_bind (storeTxns_loop checked upsert txs) (\<lambda>stored.
        sql_bind (but_no_rows [] (InsertTxnsStmt checked upsert (map fst stored))) (\<lambda>txDbIDs.
          sql_return (stored, txDbIDs))))"

text \<open>The rows of outputs with a value, completed with what the transaction says.\<close>

definition flattenAddressRows :: "(Tx \<times> addresses_row list) list \<Rightarrow> addresses_row list" where
  "flattenAddressRows stored =
    concat (map (\<lambda>(tx, adrs). map (\<lambda>a. a\<lparr>a_block_time := tx_BlockTime tx, a_is_funding := True,
        a_valid_mainchain := tx_IsMainchainBlock tx \<and> (tx_IsValid tx \<or> tx_Tree tx = TxTreeStake)\<rparr>)
      (filter (\<lambda>a. a_value a \<noteq> 0) adrs)) stored)"

section \<open>The stake tree\<close>

text \<open>What the code asks of the stake database: the pool information of a block, and of its best node the expired and missed tickets.\<close>

record PoolInfoView =
  pi_Height :: int
  pi_Size :: int
  pi_Value :: int
  pi_Winners :: "string list"

record stake_view =
  se_PoolInfo :: "string \<Rightarrow> PoolInfoView option"
  se_ExistsExpiredTicket :: "string \<Rightarrow> bool"
  se_MissedByBlock :: "string list"

definition spent_status :: "stake_view \<Rightarrow> int \<Rightarrow> string \<Rightarrow> int" where
  "spent_status sv spendType ticket =
    (if spendType = TicketVoted then PoolStatusVoted
     else if se_ExistsExpiredTicket sv ticket then PoolStatusExpired else PoolStatusMissed)"

text \<open>The tickets that are missed or expired and were not revoked, with their status.\<close>

definition unspent_statuses :: "stake_view \<Rightarrow> string list \<Rightarrow> string list \<Rightarrow> (string \<times> int) list" where
  "unspent_statuses sv misses revokes =
    (let unspentMissed = filter (\<lambda>t. t \<notin> set revokes) misses
     in map (\<lambda>t. (t, PoolStatusMissed)) unspentMissed @
        map (\<lambda>t. (t, PoolStatusExpired))
          (filter (\<lambda>t. se_ExistsExpiredTicket sv t \<and> t \<notin> set unspentMissed \<and> t \<notin> set revokes) (se_MissedByBlock sv)))"

fun ticket_ids :: "(string \<times> int) list \<Rightarrow> idCache \<Rightarrow> (nat \<times> int) list sql" where
  "ticket_ids [] ids c = (c, Inr [])"
| "ticket_ids ((ticket, status) # ts) ids c =
    (case TxnDbID ticket False ids c of
       (c', _, Inl e) \<Rightarrow> (c', Inl e)
     | (c', _, Inr i) \<Rightarrow> sql_bind (ticket_ids ts ids) (\<lambda>rest. sql_return ((i, status) # rest)) c')"

text \<open>The errors of the updates of tickets are only logged.\<close>

definition ignore_errors :: "'a sql \<Rightarrow> unit sql" where
  "ignore_errors m c = (fst (m c), Inr ())"

definition insert_tickets :: "bool \<Rightarrow> Tx list \<Rightarrow> nat list \<Rightarrow> ('c, unit) chain_op" where
  "insert_tickets upsert txs txDbIDs pgb =
    db_bind (on_db (but_no_rows ([], []) (InsertTickets txs txDbIDs (db_dupChecks pgb) upsert))) (\<lambda>(newIDs, newTx) p.
      (p\<lparr>db_unspentTicketCache := ids_SetN (zip (map tx_TxID newTx) newIDs) (db_unspentTicketCache p)\<rparr>, Inr ())) pgb"

definition insert_votes :: "MsgBlock \<Rightarrow> string list \<Rightarrow> bool \<Rightarrow> Tx list \<Rightarrow> ('c, (string, nat) gomap) chain_op" where
  "insert_votes mb validators upsert txs pgb =
    on_db (but_no_rows [] (InsertVotes txs (mb_STransactions mb) (db_unspentTicketCache pgb) validators
      (mb_Height mb) (mb_Hash mb) (mb_PrevBlock mb) (db_dupChecks pgb) upsert)) pgb"

definition insert_treasury :: "bool \<Rightarrow> Tx list \<Rightarrow> ('c, unit) chain_op" where
  "insert_treasury upsert txs pgb = on_db (but_no_rows () (InsertTreasuryTxns txs (db_dupChecks pgb) upsert)) pgb"

definition collect_spends :: "MsgBlock \<Rightarrow> bool \<Rightarrow> Tx list \<Rightarrow> nat list \<Rightarrow> ('c, (nat \<times> int \<times> string \<times> nat) list) chain_op" where
  "collect_spends mb isMainchain txs txDbIDs pgb =
    (case CollectTicketSpendDBInfo txs txDbIDs (mb_STransactions mb) isMainchain (db_conn pgb, db_unspentTicketCache pgb) of
       ((c, ids), r) \<Rightarrow> (pgb\<lparr>db_conn := c, db_unspentTicketCache := ids\<rparr>, r))"

definition revoked_tickets :: "(nat \<times> int \<times> string \<times> nat) list \<Rightarrow> string list" where
  "revoked_tickets spends = map (\<lambda>(_, _, ticket, _). ticket) (filter (\<lambda>(_, spendType, _, _). spendType = TicketRevoked) spends)"

definition update_tickets :: "stake_view \<Rightarrow> MsgBlock \<Rightarrow> string list \<Rightarrow> (nat \<times> int \<times> string \<times> nat) list \<Rightarrow> ('c, unit) chain_op" where
  "update_tickets sv mb misses spends =
    db_bind (on_db (ignore_errors (SetSpendingForTickets (map (\<lambda>(txDbID, spendType, ticket, i).
        (i, txDbID, mb_Height mb, spendType, spent_status sv spendType ticket)) spends)))) (\<lambda>_ pgb.
      db_bind (on_db (ticket_ids (unspent_statuses sv misses (revoked_tickets spends)) (db_unspentTicketCache pgb)))
        (\<lambda>statuses. on_db (ignore_errors (SetPoolStatusForTickets statuses))) pgb)"

definition store_stake :: "stake_view \<Rightarrow> MsgBlock \<Rightarrow> string list \<Rightarrow> bool \<Rightarrow> bool \<Rightarrow> Tx list \<Rightarrow> nat list \<Rightarrow> ('c, unit) chain_op" where
  "store_stake sv mb validators isMainchain upsert txs txDbIDs =
    db_bind (insert_tickets upsert txs txDbIDs) (\<lambda>_.
    db_bind (insert_votes mb validators upsert txs) (\<lambda>missesHashIDs.
    db_bind (insert_treasury upsert txs) (\<lambda>_.
    db_bind (collect_spends mb isMainchain txs txDbIDs) (\<lambda>spends.
      update_tickets sv mb (mkeys missesHashIDs) spends))))"

section \<open>Spending\<close>

text \<open>
  The inputs of a transaction, from the given index on: addresses, the rows of the outputs that are
  spent, and the value of the mixed ones. What is taken out of the cache stays out when the database
  transaction is rolled back.
\<close>

fun spend_vins :: "bool \<Rightarrow> bool \<Rightarrow> bool \<Rightarrow> bool \<Rightarrow> Tx \<Rightarrow> nat \<Rightarrow> VinTxProperty list \<Rightarrow>
    ('c, string list \<times> int list \<times> int) chain_op" where
  "spend_vins checked upsert isMainchain upd tx iv [] pgb = (pgb, Inr ([], [], 0))"
| "spend_vins checked upsert isMainchain upd tx iv (vin # vins) pgb =
    (if vi_PrevTxHash vin = zeroHashStr then spend_vins checked upsert isMainchain upd tx (Suc iv) vins pgb
     else if length (tx_VinDbIds tx) \<le> iv then (pgb, Inl (Panics ''index out of range''))
     else
       (case utxo_Get (vi_PrevTxHash vin) (vi_PrevTxIndex vin) (db_utxoCache pgb) of
          (u, utxoData) \<Rightarrow>
            db_bind (on_db (insertSpendingAddressRow vin (tx_VinDbIds tx ! iv) utxoData checked upsert
                (tx_IsMainchainBlock tx) (tx_IsValid tx) upd (tx_BlockTime tx)))
              (\<lambda>(fromAddrs, voutDbID, mixedVout).
                db_bind (spend_vins checked upsert isMainchain upd tx (Suc iv) vins) (\<lambda>(addrs, voutDbIDs, spent).
                  db_return (fromAddrs @ addrs, voutDbID # voutDbIDs,
                    (if mixedVout \<and> tx_IsValid tx \<and> isMainchain then vi_ValueIn vin else 0) + spent)))
              (pgb\<lparr>db_utxoCache := u\<rparr>)))"

fun spend_txs :: "bool \<Rightarrow> bool \<Rightarrow> bool \<Rightarrow> bool \<Rightarrow> (Tx \<times> VinTxProperty list) list \<Rightarrow> nat list \<Rightarrow> ('c, string list \<times> int) chain_op" where
  "spend_txs checked upsert isMainchain upd [] txDbIDs pgb = (pgb, Inr ([], 0))"
| "spend_txs checked upsert isMainchain upd ((tx, vins) # txs) [] pgb = (pgb, Inl (Panics ''index out of range''))"
| "spend_txs checked upsert isMainchain upd ((tx, vins) # txs) (txDbID # txDbIDs) pgb =
    db_bind (spend_vins checked upsert isMainchain upd tx 0 vins) (\<lambda>(addrs, voutDbIDs, spent).
      db_bind (if tx_IsValid tx \<and> isMainchain \<and> voutDbIDs \<noteq> []
          then on_db (setSpendingForVouts voutDbIDs txDbID) else db_return ())
        (\<lambda>_. db_bind (spend_txs checked upsert isMainchain upd txs txDbIDs)
          (\<lambda>(addrs', spent'). db_return (addrs @ addrs', spent + spent')))) pgb"

section \<open>A tree of a block\<close>

text \<open>The result holds the rows of the transactions, the set of affected addresses and the change of the mixed value.\<close>

definition tag_outputs :: "(Tx \<times> Vout list \<times> VinTxProperty list) list \<Rightarrow>
    ('c, (Tx \<times> Vout list \<times> VinTxProperty list) list) chain_op" where
  "tag_outputs txs pgb =
    (case tag_mixed txs (db_conn pgb, updateUtxoCache (map (\<lambda>(tx, vouts, vins). vouts) txs) (map fst txs) (db_utxoCache pgb)) of
       ((c, u), tagged) \<Rightarrow> (pgb\<lparr>db_conn := c, db_utxoCache := u\<rparr>, Inr tagged))"

text \<open>The cache is updated again, now with the identifiers of the rows.\<close>

definition store_rows :: "bool \<Rightarrow> (Tx \<times> Vout list \<times> VinTxProperty list) list \<Rightarrow>
    ('c, (Tx \<times> addresses_row list) list \<times> nat list) chain_op" where
  "store_rows upsert tagged pgb =
    db_bind (on_db (storeTxns (db_dupChecks pgb) upsert tagged)) (\<lambda>(stored, txDbIDs) p.
      (p\<lparr>db_utxoCache := updateUtxoCache (map (\<lambda>(tx, vouts, vins). vouts) tagged) (map fst stored) (db_utxoCache p)\<rparr>,
       Inr (stored, txDbIDs))) pgb"

text \<open>Swaps are left out, but the search for them skips the coinbase of the regular tree, which must be there.\<close>

definition skip_coinbase :: "MsgBlock \<Rightarrow> int \<Rightarrow> ('c, unit) chain_op" where
  "skip_coinbase mb tree =
    (if tree \<noteq> TxTreeStake \<and> mb_Transactions mb = [] then db_fail (Panics ''slice bounds out of range'') else db_return ())"

definition store_addresses :: "MsgBlock \<Rightarrow> int \<Rightarrow> bool \<Rightarrow> bool \<Rightarrow> bool \<Rightarrow> addresses_row list \<Rightarrow> (Tx \<times> VinTxProperty list) list \<Rightarrow> nat list \<Rightarrow>
    ('c, string list \<times> int) chain_op" where
  "store_addresses mb tree upsert isMainchain upd rs txs txDbIDs pgb =
    db_transaction
      (db_bind (on_db (InsertAddressRowsDbTx (db_dupChecks pgb) upsert rs)) (\<lambda>_.
        db_bind (spend_txs (db_dupChecks pgb) upsert isMainchain upd txs txDbIDs) (\<lambda>result.
          db_bind (skip_coinbase mb tree) (\<lambda>_. db_return result)))) pgb"

definition storeBlockTxnTree :: "stake_view \<Rightarrow> MsgBlock \<Rightarrow> string list \<Rightarrow> int \<Rightarrow> bool \<Rightarrow> bool \<Rightarrow> bool \<Rightarrow> bool \<Rightarrow>
    ('c, nat list \<times> string list \<times> int) chain_op" where
  "storeBlockTxnTree sv mb validators tree isValid isMainchain upsert upd =
    (let (txs, vouts, vins) = processTransactions mb tree isValid isMainchain
     in db_bind (tag_outputs (zip txs (zip vouts vins))) (\<lambda>tagged.
        db_bind (store_rows upsert tagged) (\<lambda>(stored, txDbIDs).
        db_bind (if tree = TxTreeStake
            then store_stake sv mb (if isMainchain then validators else []) isMainchain upsert (map fst stored) txDbIDs
            else db_return ()) (\<lambda>_.
        db_bind (store_addresses mb tree upsert isMainchain upd (flattenAddressRows stored)
            (zip (map fst stored) (map (\<lambda>(tx, vouts, vins). vins) tagged)) txDbIDs) (\<lambda>(addrs, spent).
          db_return (txDbIDs, remdups (map a_address (flattenAddressRows stored) @ addrs),
            (if isMainchain then mixed_value tagged else 0) - spent))))))"

section \<open>The previous block\<close>

text \<open>
  The previous block is linked to the new one, if both are on the same side, and when the votes of the new
  block disapprove it its regular transactions are invalidated.
\<close>

definition invalidate_last :: "nat \<Rightarrow> string \<Rightarrow> bool \<Rightarrow> ('c, unit) chain_op" where
  "invalidate_last lastBlockDbID lastHash isMainchain =
    db_bind (on_db (UpdateLastBlockValid lastBlockDbID False)) (\<lambda>_.
    db_bind (on_db (clearVoutRegularSpendTxRowIDs lastHash)) (\<lambda>_.
    db_bind (on_db (UpdateLastVins lastHash False isMainchain)) (\<lambda>_.
    db_bind (on_db (UpdateTransactionsValid lastHash False)) (\<lambda>_.
    db_bind (on_db (UpdateLastAddressesValid lastHash False)) (\<lambda>addrs pgb.
      (if length addrs > 0 then pgb\<lparr>db_AddressCache := fst (Clear (Some addrs) (db_AddressCache pgb))\<rparr> else pgb, Inr ()))))))"

definition last_row_id :: "MsgBlock \<Rightarrow> ('c, nat) chain_op" where
  "last_row_id mb pgb =
    (case mget (db_lastBlock pgb) (mb_PrevBlock mb) of
       Some i \<Rightarrow> (pgb, Inr i)
     | None \<Rightarrow> on_db (RetrieveBlockChainDbID (mb_PrevBlock mb)) pgb)"

definition link_last :: "MsgBlock \<Rightarrow> bool \<Rightarrow> ('c, unit) chain_op" where
  "link_last mb isMainchain =
    db_bind (last_row_id mb) (\<lambda>lastBlockDbID.
    db_bind (on_db (UpdateBlockNext lastBlockDbID (mb_Hash mb))) (\<lambda>_.
      if mb_VoteBits mb mod 2 = 0 then invalidate_last lastBlockDbID (mb_PrevBlock mb) isMainchain else db_return ()))"

definition UpdateLastBlock :: "MsgBlock \<Rightarrow> bool \<Rightarrow> ('c, unit) chain_op" where
  "UpdateLastBlock mb isMainchain pgb =
    (if mb_PrevBlock mb = zeroHashStr then (pgb, Inr ())
     else if isMainchain then link_last mb isMainchain pgb
     else
       (case on_db (RetrieveBlockFlags (mb_PrevBlock mb)) pgb of
          (pgb', Inl e) \<Rightarrow> (pgb', Inr ())
        | (pgb', Inr (_, lastIsMainchain)) \<Rightarrow>
            if lastIsMainchain \<noteq> isMainchain then (pgb', Inr ()) else link_last mb isMainchain pgb'))"

section \<open>StoreBlock\<close>

text \<open>Both trees are stored, whatever the result of the other is.\<close>

definition store_trees :: "bool \<Rightarrow> (int \<Rightarrow> ('c, 'a) chain_op) \<Rightarrow> ('c, 'a \<times> 'a) chain_op" where
  "store_trees stakeFirst store pgb =
    (let (first, second) = (if stakeFirst then (TxTreeStake, TxTreeRegular) else (TxTreeRegular, TxTreeStake));
         (p1, r1) = store first pgb;
         (p2, r2) = store second p1;
         (resReg, resStk) = (if stakeFirst then (r2, r1) else (r1, r2))
     in (p2, (case (resStk, resReg) of
           (Inl e, _) \<Rightarrow> Inl e
         | (Inr _, Inl e) \<Rightarrow> Inl e
         | (Inr stk, Inr reg) \<Rightarrow> Inr (reg, stk))))"

definition set_best :: "int \<Rightarrow> string \<Rightarrow> ('c, unit) chain_op" where
  "set_best h hs pgb = (pgb\<lparr>bb_height := h, bb_hash := hs\<rparr>, Inr ())"

definition finish_main :: "MsgBlock \<Rightarrow> nat \<Rightarrow> PoolInfoView \<Rightarrow> ('c, unit) chain_op" where
  "finish_main mb blockDbID tpi =
    db_bind (set_best (mb_Height mb) (mb_Hash mb)) (\<lambda>_.
    db_bind (on_db (InsertBlockStats blockDbID (pi_Height tpi) (pi_Size tpi) (pi_Value tpi))) (\<lambda>_.
      on_db (SetDBBestBlock (mb_Hash mb) (mb_Height mb))))"

definition insert_the_block :: "blocks_row \<Rightarrow> ('c, nat) chain_op" where
  "insert_the_block b pgb =
    db_bind (on_db (InsertBlock b (db_dupChecks pgb))) (\<lambda>blockDbID p.
      (p\<lparr>db_lastBlock := mput (b_hash b) blockDbID (db_lastBlock p)\<rparr>, Inr blockDbID)) pgb"

definition store_block_row :: "MsgBlock \<Rightarrow> bool \<Rightarrow> bool \<Rightarrow> string list \<Rightarrow> nat list \<Rightarrow> nat list \<Rightarrow> ('c, nat) chain_op" where
  "store_block_row mb isValid isMainchain winners txDbIDs stxDbIDs =
    db_bind (insert_the_block
        \<lparr>b_id = 0, b_hash = mb_Hash mb, b_height = mb_Height mb, b_is_valid = isValid, b_is_mainchain = isMainchain,
         b_txDbIDs = txDbIDs, b_stxDbIDs = stxDbIDs, b_previous_hash = mb_PrevBlock mb, b_winners = winners\<rparr>) (\<lambda>blockDbID.
      db_bind (on_db (but_no_rows () (InsertBlockPrevNext blockDbID (mb_Hash mb) (mb_PrevBlock mb) [])))
        (\<lambda>_. db_return blockDbID))"

text \<open>The address cache is cleared of the addresses of the block, but not in a batch synchronisation.\<close>

definition clear_addresses :: "string list \<Rightarrow> ('c, unit) chain_op" where
  "clear_addresses as pgb =
    (if db_InBatchSync pgb then pgb
     else pgb\<lparr>db_AddressCache := fst (Clear (Some as) (db_AddressCache pgb))\<rparr>, Inr ())"

text \<open>No row for the previous block is not an error.\<close>

definition update_last :: "MsgBlock \<Rightarrow> bool \<Rightarrow> ('c, unit) chain_op" where
  "update_last mb isMainchain pgb =
    (case UpdateLastBlock mb isMainchain pgb of
       (p, Inl ErrNoRows) \<Rightarrow> (p, Inr ())
     | r \<Rightarrow> r)"

definition set_mix_diff :: "int \<Rightarrow> bool \<Rightarrow> int \<Rightarrow> ('c, unit) chain_op" where
  "set_mix_diff h isMainchain diff pgb =
    (if isMainchain then pgb\<lparr>db_mixSetDiffs := mput h diff (db_mixSetDiffs pgb)\<rparr> else pgb, Inr ())"

text \<open>The pool information of a main chain block and of the block before it, where they are needed.\<close>

definition pool_infos :: "stake_view \<Rightarrow> MsgBlock \<Rightarrow> bool \<Rightarrow> sql_error + (PoolInfoView option \<times> PoolInfoView option)" where
  "pool_infos sv mb isMainchain =
    (let tpi = (if isMainchain then se_PoolInfo sv (mb_Hash mb) else None);
         lastTpi = (if isMainchain \<and> mb_PrevBlock mb \<noteq> zeroHashStr then se_PoolInfo sv (mb_PrevBlock mb) else None)
     in if isMainchain \<and> tpi = None then Inl (ErrOther ''TicketPoolInfo not found'')
        else if isMainchain \<and> pi_Height (the tpi) \<noteq> mb_Height mb then Inl (ErrOther ''TicketPoolInfo height mismatch'')
        else if isMainchain \<and> mb_PrevBlock mb \<noteq> zeroHashStr \<and> lastTpi = None then Inl (ErrOther ''stakedb.PoolInfo failed'')
        else Inr (tpi, lastTpi))"

definition winners_of :: "PoolInfoView option \<Rightarrow> string list" where
  "winners_of t = (case t of None \<Rightarrow> [] | Some t \<Rightarrow> pi_Winners t)"

definition StoreBlock :: "bool \<Rightarrow> stake_view \<Rightarrow> MsgBlock \<Rightarrow> bool \<Rightarrow> bool \<Rightarrow> bool \<Rightarrow> bool \<Rightarrow> ('c, unit) chain_op" where
  "StoreBlock stakeFirst sv mb isValid isMainchain upsert upd =
    (case pool_infos sv mb isMainchain of
       Inl e \<Rightarrow> db_fail e
     | Inr (tpi, lastTpi) \<Rightarrow>
         db_bind (store_trees stakeFirst (\<lambda>tree. storeBlockTxnTree sv mb (winners_of lastTpi) tree isValid isMainchain upsert upd))
           (\<lambda>((txDbIDs, addrs, mixReg), (stxDbIDs, stkAddrs, mixStk)).
             db_bind (set_mix_diff (mb_Height mb) isMainchain (mixReg + mixStk)) (\<lambda>_.
             db_bind (store_block_row mb isValid isMainchain (winners_of tpi) txDbIDs stxDbIDs) (\<lambda>blockDbID.
             db_bind (update_last mb isMainchain) (\<lambda>_.
             db_bind (if isMainchain then finish_main mb blockDbID (the tpi) else db_return ()) (\<lambda>_.
               clear_addresses (remdups (addrs @ stkAddrs))))))))"

end
