(* ===== verification/ChainStoreFrame.thy ===== *)
theory ChainStoreFrame
  imports ChainStore ChainRewindContract
begin

text \<open>
  What storing a block may do to the tables, from what its statements do: a relation between the tables
  before and after that every statement respects is respected by \<open>StoreBlock\<close>, whatever statements fail
  and wherever it stops. The relation is the parameter of a locale, and its laws are one per statement.
\<close>

section \<open>Relations between tables\<close>

definition within :: "(db \<Rightarrow> db \<Rightarrow> bool) \<Rightarrow> (conn \<Rightarrow> conn \<times> 'x) \<Rightarrow> bool" where
  "within R m \<longleftrightarrow> (\<forall>c. R (data c) (data (fst (m c))))"

text \<open>The maps in memory have every key once, and the store of outputs no transaction without outputs.\<close>

definition caches_wf :: "'c ChainDB \<Rightarrow> bool" where
  "caches_wf p \<longleftrightarrow> utxo_inv (db_utxoCache p) \<and> wf_map (db_unspentTicketCache p) \<and> wf_map (db_lastBlock p) \<and>
    wf_map (db_mixSetDiffs p)"

lemma caches_wf_updates [simp]:
  "caches_wf (p\<lparr>db_conn := c\<rparr>) = caches_wf p" "caches_wf (p\<lparr>bb_height := h\<rparr>) = caches_wf p"
  "caches_wf (p\<lparr>bb_hash := hs\<rparr>) = caches_wf p" "caches_wf (p\<lparr>db_AddressCache := a\<rparr>) = caches_wf p"
  "caches_wf p \<Longrightarrow> utxo_inv u \<Longrightarrow> caches_wf (p\<lparr>db_utxoCache := u\<rparr>)"
  "caches_wf p \<Longrightarrow> wf_map ids \<Longrightarrow> caches_wf (p\<lparr>db_unspentTicketCache := ids\<rparr>)"
  "caches_wf p \<Longrightarrow> wf_map l \<Longrightarrow> caches_wf (p\<lparr>db_lastBlock := l\<rparr>)"
  "caches_wf p \<Longrightarrow> wf_map x \<Longrightarrow> caches_wf (p\<lparr>db_mixSetDiffs := x\<rparr>)"
  by (simp_all add: caches_wf_def)

lemma caches_wfD:
  assumes "caches_wf p"
  shows "utxo_inv (db_utxoCache p)" "wf_map (db_unspentTicketCache p)" "wf_map (db_lastBlock p)" "wf_map (db_mixSetDiffs p)"
  using assms by (simp_all add: caches_wf_def)

lemma utxo_inv_foldl: "(\<And>u x. utxo_inv u \<Longrightarrow> utxo_inv (f u x)) \<Longrightarrow> utxo_inv u \<Longrightarrow> utxo_inv (foldl f u xs)"
  by (induction xs arbitrary: u) simp_all

lemma utxo_inv_updateUtxoCache: "utxo_inv u \<Longrightarrow> utxo_inv (updateUtxoCache vouts txns u)"
  unfolding updateUtxoCache_def cache_vouts_def case_prod_unfold
  by (rule utxo_inv_foldl) (auto intro!: utxo_inv_foldl utxo_inv_Set)

lemma utxo_inv_all_mixed: "all_mixed vins (c, u) = ((c', u'), b) \<Longrightarrow> utxo_inv u \<Longrightarrow> utxo_inv u'"
  by (induction vins arbitrary: c u)
    (auto simp: Let_def utxo_inv_Set split: if_splits option.splits prod.splits sum.splits)

lemma utxo_inv_tag_mixed: "tag_mixed txs (c, u) = ((c', u'), tagged) \<Longrightarrow> utxo_inv u \<Longrightarrow> utxo_inv u'"
proof (induction txs arbitrary: c u tagged)
  case (Cons x txs)
  obtain tx vouts vins where x: "x = (tx, vouts, vins)" by (cases x)
  obtain c1 u1 b where 1: "all_mixed vins (c, u) = ((c1, u1), b)" by (metis prod.exhaust)
  show ?case
    using Cons utxo_inv_all_mixed [OF 1] by (auto simp: x 1 split: if_splits prod.splits)
qed simp

lemma wf_map_ids_SetN: "wf_map ids \<Longrightarrow> wf_map (ids_SetN pairs ids)"
  unfolding ids_SetN_def by (induction pairs arbitrary: ids) auto

lemma wf_map_TxnDbID: "TxnDbID t e ids c = (c', ids', r) \<Longrightarrow> wf_map ids \<Longrightarrow> wf_map ids'"
  by (auto simp: TxnDbID_def split: option.splits prod.splits if_splits)

lemma wf_map_collect: "CollectTicketSpend_loop ts m (c, ids) = ((c', ids'), r) \<Longrightarrow> wf_map ids \<Longrightarrow> wf_map ids'"
proof (induction ts arbitrary: c ids c' ids' r)
  case (Cons x ts)
  obtain tx i msgTx where x: "x = (tx, i, msgTx)" by (metis prod_cases3)
  let ?t = "mt_PrevHashes msgTx ! (if tx_TxType tx = TxTypeSSGen then 1 else 0)"
  obtain c1 ids1 r1 where 1: "TxnDbID ?t m ids c = (c1, ids1, r1)" by (metis prod_cases3)
  show ?case
    using Cons wf_map_TxnDbID [OF 1] 1 by (auto simp: x Let_def split: if_splits sum.splits prod.splits)
qed simp

text \<open>
  An operation on the chain database, whose duplicate checks do not change, and which leaves the best block
  or makes it \<open>B\<close>.
\<close>

definition op_step :: "(db \<Rightarrow> db \<Rightarrow> bool) \<Rightarrow> bool \<Rightarrow> (int \<times> string) option \<Rightarrow> 'c ChainDB \<Rightarrow> 'c ChainDB \<Rightarrow> bool" where
  "op_step R checked B p p' \<longleftrightarrow> db_dupChecks p' = checked \<and> R (data (db_conn p)) (data (db_conn p')) \<and>
    (bb_height p' = bb_height p \<and> bb_hash p' = bb_hash p \<or> B = Some (bb_height p', bb_hash p')) \<and>
    (caches_wf p \<longrightarrow> caches_wf p')"

definition op_within :: "(db \<Rightarrow> db \<Rightarrow> bool) \<Rightarrow> bool \<Rightarrow> (int \<times> string) option \<Rightarrow> ('c ChainDB \<Rightarrow> 'c ChainDB \<times> 'x) \<Rightarrow> bool" where
  "op_within R checked B m \<longleftrightarrow> (\<forall>p. db_dupChecks p = checked \<longrightarrow> op_step R checked B p (fst (m p)))"

lemma withinI: "(\<And>c. R (data c) (data (fst (m c)))) \<Longrightarrow> within R m"
  by (simp add: within_def)

lemma withinD: "within R m \<Longrightarrow> m c = (c', r) \<Longrightarrow> R (data c) (data c')"
  unfolding within_def by (metis fst_conv)

lemma op_withinI:
  "(\<And>p. db_dupChecks p = checked \<Longrightarrow> op_step R checked B p (fst (m p))) \<Longrightarrow> op_within R checked B m"
  by (simp add: op_within_def)

lemma op_withinD: "op_within R checked B m \<Longrightarrow> m p = (p', r) \<Longrightarrow> db_dupChecks p = checked \<Longrightarrow> op_step R checked B p p'"
  unfolding op_within_def by (metis fst_conv)

lemma op_step_checked: "op_step R checked B p p' \<Longrightarrow> db_dupChecks p' = checked"
  by (simp add: op_step_def)

locale table_relation =
  fixes R :: "db \<Rightarrow> db \<Rightarrow> bool"
  assumes refl [simp, intro]: "R d d"
    and trans: "R d1 d2 \<Longrightarrow> R d2 d3 \<Longrightarrow> R d1 d3"
    and rollback_law: "R d d' \<Longrightarrow> R d (d\<lparr>seqs := seqs d'\<rparr>)"
begin

lemma within_exec: "(\<And>d. R d (fst (stmt d))) \<Longrightarrow> within R (exec stmt)"
  by (simp add: within_def exec_def case_prod_unfold)

lemma within_query_row: "(\<And>d. R d (fst (stmt d))) \<Longrightarrow> within R (query_row stmt)"
  using within_exec [of stmt] by (auto simp: within_def query_row_def split: prod.splits sum.splits) (metis fst_conv)+

lemma within_return: "within R (sql_return x)" "within R (sql_fail e)" "within R (\<lambda>c. (c, y))"
  by (simp_all add: within_def)

lemma within_bind:
  assumes "within R m" "\<And>x. within R (f x)"
  shows "within R (sql_bind m f)"
proof (rule withinI)
  fix c
  obtain c1 r where m: "m c = (c1, r)" by fastforce
  have 1: "R (data c) (data c1)"
    using withinD [OF assms(1) m] .
  show "R (data c) (data (fst (sql_bind m f c)))"
  proof (cases r)
    case (Inl e)
    with m 1 show ?thesis by simp
  next
    case (Inr x)
    with m 1 assms(2) [of x] show ?thesis
      by (auto simp: within_def intro: trans)
  qed
qed

lemma rollback_within: "R (data c) (data c') \<Longrightarrow> R (data c) (data (rollback c c'))"
  by (simp add: rollback_def rollback_law)

lemma empty_exec: "exec (\<lambda>d. (d, ())) c = (c', r) \<Longrightarrow> data c' = data c"
  by (auto simp: exec_def split: if_splits)

lemma within_transaction:
  assumes "within R body"
  shows "within R (in_transaction body)"
proof (rule withinI)
  fix c
  obtain c1 r1 where 1: "exec (\<lambda>d. (d, ())) c = (c1, r1)" by fastforce
  obtain c2 r2 where 2: "body c1 = (c2, r2)" by fastforce
  obtain c3 r3 where 3: "exec (\<lambda>d. (d, ())) c2 = (c3, r3)" by fastforce
  have d: "data c1 = data c" "R (data c1) (data c2)" "data c3 = data c2"
    using empty_exec [OF 1] withinD [OF assms 2] empty_exec [OF 3] by simp_all
  then show "R (data c) (data (fst (in_transaction body c)))"
    using rollback_within [of c1 c2] rollback_within [of c1 c3]
    by (simp add: in_transaction_def 1 2 3 split: sum.split)
qed

lemma within_swallow:
  assumes "within R body"
  shows "within R (swallow_transaction body)"
proof (rule withinI)
  fix c
  obtain c1 r1 where 1: "exec (\<lambda>d. (d, ())) c = (c1, r1)" by fastforce
  obtain c2 r2 where 2: "body c1 = (c2, r2)" by fastforce
  obtain c3 r3 where 3: "exec (\<lambda>d. (d, ())) c2 = (c3, r3)" by fastforce
  have d: "data c1 = data c" "R (data c1) (data c2)" "data c3 = data c2"
    using empty_exec [OF 1] withinD [OF assms 2] empty_exec [OF 3] by simp_all
  then show "R (data c) (data (fst (swallow_transaction body c)))"
    using rollback_within [of c1 c2] rollback_within [of c1 c3]
    by (simp add: swallow_transaction_def 1 2 3 split: sum.split)
qed

lemma within_but_no_rows: "within R m \<Longrightarrow> within R (but_no_rows x m)"
  by (auto simp: within_def but_no_rows_def split: prod.splits sum.splits sql_error.splits) (metis fst_conv)+

lemma within_ignore: "within R m \<Longrightarrow> within R (ignore_errors m)"
  by (simp add: within_def ignore_errors_def)

lemma within_exec_all: "(\<And>stmt d. stmt \<in> set stmts \<Longrightarrow> R d (fst (stmt d))) \<Longrightarrow> within R (exec_all stmts)"
  by (induction stmts) (auto intro!: within_bind within_exec within_return)

lemmas within_intros = within_exec within_query_row within_return within_bind within_transaction within_swallow
  within_but_no_rows within_ignore

text \<open>Operations on the chain database.\<close>

lemma op_step_refl: "db_dupChecks p = checked \<Longrightarrow> op_step R checked B p p"
  by (simp add: op_step_def)

lemma op_step_trans: "op_step R checked B p1 p2 \<Longrightarrow> op_step R checked B p2 p3 \<Longrightarrow> op_step R checked B p1 p3"
  unfolding op_step_def using trans by auto

lemma op_within_on_db: "within R m \<Longrightarrow> op_within R checked B (on_db m)"
  by (auto simp: op_within_def op_step_def on_db_def split: prod.split dest: withinD)

lemma op_within_return: "op_within R checked B (db_return x)" "op_within R checked B (db_fail e)" "op_within R checked B (\<lambda>p. (p, y))"
  by (simp_all add: op_within_def op_step_refl db_return_def db_fail_def)

lemma op_within_bind:
  assumes "op_within R checked B m" "\<And>x. op_within R checked B (f x)"
  shows "op_within R checked B (db_bind m f)"
proof -
  have "op_step R checked B p (fst (db_bind m f p))"
    if c: "db_dupChecks p = checked" for p
  proof -
    obtain p1 r where m: "m p = (p1, r)" by fastforce
    note 1 = op_withinD [OF assms(1) m c]
    show ?thesis
    proof (cases r)
      case (Inl e)
      with m 1 show ?thesis by (simp add: db_bind_def)
    next
      case (Inr x)
      obtain p2 r2 where f: "f x p1 = (p2, r2)" by fastforce
      note 2 = op_withinD [OF assms(2) f op_step_checked [OF 1]]
      from m f Inr 1 2 show ?thesis
        by (auto simp: db_bind_def intro: op_step_trans)
    qed
  qed
  then show ?thesis by (simp add: op_within_def)
qed

text \<open>An operation may read the chain database, and change what is not its connection.\<close>

lemma op_within_eq:
  "op_within R checked B q \<Longrightarrow> (\<And>p. db_dupChecks p = checked \<Longrightarrow> q' p = q p) \<Longrightarrow> op_within R checked B q'"
  by (simp add: op_within_def)

lemma op_within_reads:
  "(\<And>p0. db_dupChecks p0 = checked \<Longrightarrow> within R (q p0)) \<Longrightarrow> op_within R checked B (\<lambda>p. on_db (q p) p)"
  by (auto simp: op_within_def op_step_def on_db_def split: prod.split dest: withinD)

lemma op_within_depends: "(\<And>k. op_within R checked B (g k)) \<Longrightarrow> op_within R checked B (\<lambda>p. g (h p) p)"
  by (simp add: op_within_def)

lemma op_within_pure:
  assumes "\<And>p. db_conn (fst (g p)) = db_conn p" "\<And>p. db_dupChecks (fst (g p)) = db_dupChecks p"
    "\<And>p. bb_height (fst (g p)) = bb_height p" "\<And>p. bb_hash (fst (g p)) = bb_hash p"
    "\<And>p. caches_wf p \<Longrightarrow> caches_wf (fst (g p))"
  shows "op_within R checked B g"
  using assms by (simp add: op_within_def op_step_def)

lemma op_within_transaction:
  assumes "op_within R checked B body"
  shows "op_within R checked B (db_transaction body)"
proof (rule op_withinI)
  fix p :: "'a ChainDB" assume c: "db_dupChecks p = checked"
  let ?bgn = "on_db (exec (\<lambda>d. (d, ())))"
  have e: "data (db_conn q') = data (db_conn q)" "db_dupChecks q' = db_dupChecks q" "bb_height q' = bb_height q"
      "bb_hash q' = bb_hash q" "caches_wf q' = caches_wf q" if "?bgn q = (q', r)" for q q' :: "'a ChainDB" and r
    using that empty_exec [of "db_conn q"] by (auto simp: on_db_def split: prod.splits)
  obtain p1 r1 where 1: "?bgn p = (p1, r1)" by fastforce
  obtain p2 r2 where 2: "body p1 = (p2, r2)" by fastforce
  obtain p3 r3 where 3: "?bgn p2 = (p3, r3)" by fastforce
  have 12: "op_step R checked B p1 p2"
    using op_withinD [OF assms 2] e [OF 1] c by simp
  show "op_step R checked B p (fst (db_transaction body p))"
    using e [OF 1] 12 e [OF 3] c rollback_within [of "db_conn p1" "db_conn p2"] rollback_within [of "db_conn p1" "db_conn p3"]
    by (auto simp: op_step_def db_transaction_def 1 2 3 split: sum.split)
qed

lemmas op_within_intros = op_within_on_db op_within_return op_within_bind op_within_transaction

end

section \<open>The statements of StoreBlock\<close>

lemma fst_bind_return1: "fst (sql_bind q (\<lambda>x. sql_return (f x)) c) = fst (q c)"
  by (auto simp: sql_bind_def split: prod.split sum.split)

lemma fst_bind_return2: "fst (sql_bind q (\<lambda>(a, b). sql_return (g a b)) c) = fst (q c)"
  by (auto simp: sql_bind_def split: prod.split sum.split)

lemmas fst_bind_return = fst_bind_return1 fst_bind_return2

lemma pool_infos_main: "pool_infos sv mb True = Inr (tpi, lastTpi) \<Longrightarrow> pi_Height (the tpi) = mb_Height mb"
  by (auto simp: pool_infos_def Let_def split: if_splits) (metis option.sel)+

text \<open>The transactions of a block, as they are inserted.\<close>

definition of_block :: "MsgBlock \<Rightarrow> bool \<Rightarrow> Tx \<Rightarrow> bool" where
  "of_block mb m tx \<longleftrightarrow> tx_BlockHash tx = mb_Hash mb \<and> tx_IsMainchainBlock tx = m"

text \<open>
  \<open>m\<close> is whether the block \<open>mb\<close> is on the main chain. Its rows carry its hash and this flag; the statements on
  the best block, the statistics and the spender of an output are only run for the main chain. The first
  contract is that of the trees, the second adds the rows of the block and of the one before it, the third
  the best block.
\<close>

locale tree_contract = table_relation R for R :: "db \<Rightarrow> db \<Rightarrow> bool" +
  fixes checked m :: bool and mb :: MsgBlock
  assumes vin_insert: "R d (fst (VinInsert checked upsert vin d))"
    and vout_insert: "R d (fst (VoutInsert checked upsert vout d))"
    and tx_insert: "tx_BlockHash tx = mb_Hash mb \<Longrightarrow> tx_IsMainchainBlock tx = m \<Longrightarrow> R d (fst (TxInsert checked upsert tx d))"
    and address_insert: "R d (fst (AddressInsert checked upsert a d))"
    and ticket_insert: "k_block_hash k = mb_Hash mb \<Longrightarrow> k_is_mainchain k = m \<Longrightarrow> R d (fst (TicketInsert checked upsert k d))"
    and vote_insert: "v_block_hash v = mb_Hash mb \<Longrightarrow> v_is_mainchain v = m \<Longrightarrow> R d (fst (VoteInsert checked upsert v d))"
    and miss_insert: "m_block_hash ms = mb_Hash mb \<Longrightarrow> R d (fst (MissInsert checked upsert ms d))"
    and treasury_insert: "y_block_hash y = mb_Hash mb \<Longrightarrow> y_is_mainchain y = m \<Longrightarrow>
      R d (fst (TreasuryInsert checked upsert y d))"
    and ticket_spent: "R d (fst (SetTicketSpendingInfoForTicketDbID i h txDbID spendType status d))"
    and ticket_status: "R d (fst (SetTicketPoolStatusForTicketDbID i status d))"
    and matching: "R d (fst (SetAddressMatchingTxHashForOutpoint spending funding ind m d))"
    and vout_spent: "m \<Longrightarrow> R d (fst (UpdateVoutSpendTxRowID txDbID ids d))"
begin

text \<open>Reading changes nothing.\<close>

lemma within_ticket_id: "within R (TxnDbID txid expire ids)"
  by (rule withinI) (auto simp: TxnDbID_def split: option.split prod.split
    intro: withinD [OF within_query_row [of "SelectTicketIDByHash txid"]] simp: SelectTicketIDByHash_def)

lemma within_vout_data: "within R (retrieveTxOutData txid ind tree)"
  unfolding retrieveTxOutData_def
  by (auto intro!: within_bind within_query_row within_return simp: SelectVoutAddressesByTxOut_def split: prod.split)

text \<open>The rows of transactions.\<close>

lemma within_step:
  assumes "within R q" "q c = (c1, r)" "R (data c1) (data c2)"
  shows "R (data c) (data c2)"
  using trans withinD [OF assms(1,2)] assms(3) .

lemma within_vins: "within R (InsertVinsStmt checked upsert vins)"
proof (rule withinI)
  show "R (data c) (data (fst (InsertVinsStmt checked upsert vins c)))" for c
  proof (induction vins arbitrary: c)
    case (Cons vin vins)
    obtain c1 r where 1: "query_row (VinInsert checked upsert vin) c = (c1, r)" by fastforce
    then have "R (data c) (data c1)"
      by (rule withinD [OF within_query_row [OF vin_insert]])
    with Cons [of c1] show ?case
      by (auto simp: 1 split: sum.split prod.split intro: trans)
  qed simp
qed

lemma within_vouts: "within R (InsertVoutsStmt checked upsert vouts)"
proof (rule withinI)
  show "R (data c) (data (fst (InsertVoutsStmt checked upsert vouts c)))" for c
  proof (induction vouts arbitrary: c)
    case (Cons vout vouts)
    obtain c1 r where 1: "query_row (VoutInsert checked upsert vout) c = (c1, r)" by fastforce
    then have "R (data c) (data c1)"
      by (rule withinD [OF within_query_row [OF vout_insert]])
    with Cons [of c1] show ?case
      by (auto simp: 1 fst_bind_return split: sum.split sql_error.split intro: trans)
  qed simp
qed

lemma within_txns: "\<forall>tx \<in> set txs. of_block mb m tx \<Longrightarrow> within R (InsertTxnsStmt checked upsert txs)"
proof (rule withinI)
  show "\<forall>tx \<in> set txs. of_block mb m tx \<Longrightarrow> R (data c) (data (fst (InsertTxnsStmt checked upsert txs c)))" for c
  proof (induction txs arbitrary: c)
    case (Cons tx txs)
    obtain c1 r where 1: "query_row (TxInsert checked upsert tx) c = (c1, r)" by fastforce
    have "tx_BlockHash tx = mb_Hash mb" "tx_IsMainchainBlock tx = m"
      using Cons.prems by (simp_all add: of_block_def)
    then have "R (data c) (data c1)"
      by (rule withinD [OF within_query_row [OF tx_insert] 1])
    with Cons.IH [of c1] Cons.prems show ?case
      by (auto simp: 1 fst_bind_return split: sum.split sql_error.split intro: trans)
  qed simp
qed

lemma within_addresses: "within R (InsertAddressRowsDbTx checked upsert rs)"
proof (rule withinI)
  show "R (data c) (data (fst (InsertAddressRowsDbTx checked upsert rs c)))" for c
  proof (induction rs arbitrary: c)
    case (Cons a rs)
    obtain c1 r where 1: "query_row (AddressInsert checked upsert a) c = (c1, r)" by fastforce
    then have "R (data c) (data c1)"
      by (rule withinD [OF within_query_row [OF address_insert]])
    with Cons [of c1] show ?case
      by (auto simp: 1 fst_bind_return split: sum.split sql_error.split intro: trans)
  qed simp
qed

text \<open>Transactions get the identifiers of their rows, and stay transactions of the block.\<close>

lemma storeTxns_loop_rows:
  assumes "storeTxns_loop checked upsert txs c = (c', r)" "\<forall>x \<in> set txs. of_block mb m (fst x)"
  shows "R (data c) (data c')" "r = Inr stored \<Longrightarrow> \<forall>x \<in> set stored. of_block mb m (fst x)"
proof -
  have "R (data c) (data c') \<and> (\<forall>stored. r = Inr stored \<longrightarrow> (\<forall>x \<in> set stored. of_block mb m (fst x)))"
    using assms
  proof (induction txs arbitrary: c c' r)
    case Nil
    then show ?case by auto
  next
    case (Cons x txs)
    obtain tx vouts vins where x: "x = (tx, vouts, vins)" by (cases x)
    obtain c1 r1 where 1: "but_no_rows ([], []) (InsertVoutsStmt checked upsert vouts) c = (c1, r1)" by fastforce
    have R1: "R (data c) (data c1)"
      using 1 by (rule withinD [OF within_but_no_rows [OF within_vouts]])
    obtain c2 ids e where 2: "InsertVinsStmt checked upsert vins c1 = (c2, ids, e)" by (metis prod_cases3)
    have R2: "R (data c1) (data c2)"
      using 2 by (rule withinD [OF within_vins])
    obtain c3 r3 where 3: "storeTxns_loop checked upsert txs c2 = (c3, r3)" by fastforce
    have IH: "R (data c2) (data c3)" "\<forall>stored. r3 = Inr stored \<longrightarrow> (\<forall>x \<in> set stored. of_block mb m (fst x))"
      using Cons.IH [OF 3] Cons.prems by simp_all
    have "of_block mb m tx"
      using Cons.prems x by simp
    then show ?case
      using Cons.prems(1) R1 R2 IH trans [OF R1 R2] trans [OF trans [OF R1 R2] IH(1)]
      by (auto simp: x 1 2 3 sql_bind_def of_block_def split: sum.splits prod.splits if_splits)
  qed
  then show "R (data c) (data c')" "r = Inr stored \<Longrightarrow> \<forall>x \<in> set stored. of_block mb m (fst x)" by auto
qed

lemma storeTxns_body:
  assumes "\<forall>x \<in> set txs. of_block mb m (fst x)"
  shows "within R (sql_bind (storeTxns_loop checked upsert txs) (\<lambda>stored.
    sql_bind (but_no_rows [] (InsertTxnsStmt checked upsert (map fst stored))) (\<lambda>txDbIDs. sql_return (stored, txDbIDs))))"
proof (rule withinI)
  fix c
  obtain c1 r1 where 1: "storeTxns_loop checked upsert txs c = (c1, r1)" by fastforce
  note R1 = storeTxns_loop_rows [OF 1 assms]
  show "R (data c) (data (fst (sql_bind (storeTxns_loop checked upsert txs) (\<lambda>stored.
    sql_bind (but_no_rows [] (InsertTxnsStmt checked upsert (map fst stored))) (\<lambda>txDbIDs. sql_return (stored, txDbIDs))) c)))"
  proof (cases r1)
    case (Inl e)
    with 1 R1(1) show ?thesis by simp
  next
    case (Inr stored)
    have "\<forall>tx \<in> set (map fst stored). of_block mb m tx"
      using R1(2) [OF Inr] by simp
    then have "within R (but_no_rows [] (InsertTxnsStmt checked upsert (map fst stored)))"
      by (intro within_but_no_rows within_txns)
    then have "R (data c1) (data (fst (but_no_rows [] (InsertTxnsStmt checked upsert (map fst stored)) c1)))"
      by (simp add: within_def)
    with 1 Inr R1(1) show ?thesis
      by (auto simp: fst_bind_return intro: trans)
  qed
qed

lemma storeTxns_rows:
  assumes "storeTxns checked upsert txs c = (c', r)" "\<forall>x \<in> set txs. of_block mb m (fst x)"
  shows "R (data c) (data c')" "r = Inr (stored, txDbIDs) \<Longrightarrow> \<forall>x \<in> set stored. of_block mb m (fst x)"
proof -
  show "R (data c) (data c')"
    by (rule withinD [OF within_transaction [OF storeTxns_body [OF assms(2)]] assms(1) [unfolded storeTxns_def]])
  assume "r = Inr (stored, txDbIDs)"
  with assms(1) obtain c1 c2 where "storeTxns_loop checked upsert txs c1 = (c2, Inr stored)"
    unfolding storeTxns_def in_transaction_def
    by (auto elim!: sql_bindE split: prod.splits sum.splits)
  then show "\<forall>x \<in> set stored. of_block mb m (fst x)"
    using storeTxns_loop_rows(2) [OF _ assms(2)] by blast
qed

text \<open>The stake tree.\<close>

lemma within_tickets_loop: "\<forall>x \<in> set ts. of_block mb m (fst x) \<Longrightarrow> within R (InsertTickets_loop checked upsert ts)"
proof (rule withinI)
  show "\<forall>x \<in> set ts. of_block mb m (fst x) \<Longrightarrow> R (data c) (data (fst (InsertTickets_loop checked upsert ts c)))" for c
  proof (induction ts arbitrary: c)
    case (Cons x ts)
    obtain tx i where x: "x = (tx, i)" by fastforce
    let ?k = "\<lparr>k_id = 0, k_tx_hash = tx_TxID tx, k_block_hash = tx_BlockHash tx, k_block_height = tx_BlockHeight tx,
             k_purchase_tx_db_id = i, k_spend_type = TicketUnspent, k_pool_status = PoolStatusLive,
             k_is_mainchain = tx_IsMainchainBlock tx, k_spend_height = None, k_spend_tx_db_id = None\<rparr>"
    obtain c1 r where 1: "query_row (TicketInsert checked upsert ?k) c = (c1, r)" by fastforce
    have "k_block_hash ?k = mb_Hash mb" "k_is_mainchain ?k = m"
      using Cons.prems x by (simp_all add: of_block_def)
    then have "R (data c) (data c1)"
      by (rule withinD [OF within_query_row [OF ticket_insert] 1])
    with Cons.IH [of c1] Cons.prems show ?case
      by (auto simp: x 1 fst_bind_return split: sum.split sql_error.split intro: trans)
  qed simp
qed

lemma within_tickets: "\<forall>tx \<in> set txs. of_block mb m tx \<Longrightarrow> within R (InsertTickets txs ids checked upsert)"
  unfolding InsertTickets_def Let_def
  by (intro within_transaction within_bind within_return within_tickets_loop) (auto dest: set_zip_leftD)

lemma within_votes_loop:
  "\<forall>x \<in> set vs. of_block mb m (fst x) \<Longrightarrow> within R (InsertVotes_loop checked upsert ids candidate vs misses n)"
proof (rule withinI)
  show "\<forall>x \<in> set vs. of_block mb m (fst x) \<Longrightarrow>
      R (data c) (data (fst (InsertVotes_loop checked upsert ids candidate vs misses n c)))" for c
  proof (induction vs arbitrary: c misses n)
    case (Cons x vs)
    obtain tx msgTx where x: "x = (tx, msgTx)" by fastforce
    let ?ticket = "mt_PrevHashes msgTx ! Suc 0"
    let ?v = "\<lparr>v_id = 0, v_height = tx_BlockHeight tx, v_tx_hash = tx_TxID tx, v_block_hash = tx_BlockHash tx,
        v_candidate_block_hash = candidate, v_ticket_hash = ?ticket, v_is_mainchain = tx_IsMainchainBlock tx\<rparr>"
    obtain c1 k r1 where 1: "TxnDbID ?ticket False ids c = (c1, k, r1)" by (metis prod_cases3)
    have R1: "R (data c) (data c1)"
      by (rule withinD [OF within_ticket_id 1])
    obtain c2 r2 where 2: "query_row (VoteInsert checked upsert ?v) c1 = (c2, r2)" by fastforce
    have "v_block_hash ?v = mb_Hash mb" "v_is_mainchain ?v = m"
      using Cons.prems x by (simp_all add: of_block_def)
    then have "R (data c1) (data c2)"
      by (rule withinD [OF within_query_row [OF vote_insert] 2])
    with R1 have R2: "R (data c) (data c2)" by (rule trans)
    have IH: "R (data c) (data (fst (InsertVotes_loop checked upsert ids candidate vs misses' n' c2)))" for misses' n'
      using trans [OF R2 Cons.IH] Cons.prems by simp
    show ?case
      using R1 R2 IH by (auto simp: x 1 2 Let_def split: sum.split sql_error.split)
  qed simp
qed

lemma within_misses_loop: "within R (InsertMisses_loop checked upsert h (mb_Hash mb) candidate ms k)"
proof (rule withinI)
  show "R (data c) (data (fst (InsertMisses_loop checked upsert h (mb_Hash mb) candidate ms k c)))" for c
  proof (induction ms arbitrary: c k)
    case (Cons miss ms)
    let ?ms = "\<lparr>m_id = 0, m_height = h, m_block_hash = mb_Hash mb, m_candidate_block_hash = candidate, m_ticket_hash = miss\<rparr>"
    obtain c1 r where 1: "query_row (MissInsert checked upsert ?ms) c = (c1, r)" by fastforce
    have "m_block_hash ?ms = mb_Hash mb" by simp
    then have "R (data c) (data c1)"
      by (rule withinD [OF within_query_row [OF miss_insert] 1])
    with Cons.IH [of c1] show ?case
      by (auto simp: 1 split: sum.split sql_error.split intro: trans)
  qed simp
qed

lemma within_votes:
  "\<forall>tx \<in> set txs. of_block mb m tx \<Longrightarrow> within R (InsertVotes txs msgTxs ids validators h (mb_Hash mb) candidate checked upsert)"
  unfolding InsertVotes_def Let_def
  by (auto simp: case_prod_unfold intro!: within_transaction within_bind within_return within_votes_loop within_misses_loop
    dest!: set_zip_leftD)

lemma within_treasury_loop: "\<forall>tx \<in> set txs. of_block mb m tx \<Longrightarrow> within R (InsertTreasury_loop checked upsert txs)"
proof (rule withinI)
  show "\<forall>tx \<in> set txs. of_block mb m tx \<Longrightarrow> R (data c) (data (fst (InsertTreasury_loop checked upsert txs c)))" for c
  proof (induction txs arbitrary: c)
    case (Cons tx txs)
    have 1: "within R (exec (TreasuryInsert checked upsert
        \<lparr>y_tx_hash = h, y_tx_type = ty, y_value = v, y_block_hash = tx_BlockHash tx, y_block_height = n, y_block_time = tm,
         y_is_mainchain = tx_IsMainchainBlock tx\<rparr>))" for h ty v n tm
      using Cons.prems by (intro within_exec treasury_insert) (simp_all add: of_block_def)
    have 2: "within R (InsertTreasury_loop checked upsert txs)"
      using Cons by (intro withinI) simp
    then show ?case
      using within_bind [OF 1 2] by (auto simp: within_def)
  qed simp
qed

lemma within_treasury: "\<forall>tx \<in> set txs. of_block mb m tx \<Longrightarrow> within R (InsertTreasuryTxns txs checked upsert)"
  unfolding InsertTreasuryTxns_def by (intro within_transaction within_treasury_loop)

lemma within_collect: "R (data (fst s)) (data (fst (fst (CollectTicketSpend_loop ts mc s))))"
proof (induction ts arbitrary: s)
  case (Cons x ts)
  obtain tx i msgTx where x: "x = (tx, i, msgTx)" by (metis prod_cases3)
  let ?t = "mt_PrevHashes msgTx ! (if tx_TxType tx = TxTypeSSGen then 1 else 0)"
  obtain c ids where s: "s = (c, ids)" by fastforce
  obtain c1 ids1 r1 where 1: "TxnDbID ?t mc ids c = (c1, ids1, r1)" by (metis prod_cases3)
  have R1: "R (data c) (data c1)"
    by (rule withinD [OF within_ticket_id 1])
  obtain s2 r2 where 2: "CollectTicketSpend_loop ts mc (c1, ids1) = (s2, r2)" by fastforce
  obtain c2 ids2 where s2: "s2 = (c2, ids2)" by fastforce
  have "R (data c1) (data c2)"
    using Cons.IH [of "(c1, ids1)"] 2 s2 by simp
  with R1 have R2: "R (data c) (data c2)" by (rule trans)
  have R3: "R (data c) (data (fst (fst (CollectTicketSpend_loop ts mc (c, ids)))))"
    using Cons.IH [of "(c, ids)"] by simp
  show ?case
    using R1 R2 R3 1 2 by (auto simp: x s s2 Let_def split: sum.split if_splits)
qed simp

lemma within_collectD: "CollectTicketSpend_loop ts mc (c, k) = ((c', k'), r) \<Longrightarrow> R (data c) (data c')"
  using within_collect [of "(c, k)" ts mc] by simp

lemma within_ids: "within R (ticket_ids ts ids)"
proof (induction ts)
  case (Cons x ts)
  obtain ticket st where x: "x = (ticket, st)" by fastforce
  show ?case
  proof (rule withinI)
    fix c
    obtain c1 ids1 r1 where 1: "TxnDbID ticket False ids c = (c1, ids1, r1)" by (metis prod_cases3)
    have "R (data c) (data c1)"
      by (rule withinD [OF within_ticket_id 1])
    with Cons show "R (data c) (data (fst (ticket_ids (x # ts) ids c)))"
      by (auto simp: x 1 fst_bind_return within_def split: sum.split intro: trans)
  qed
qed (simp add: within_def)

lemma within_spending: "within R (SetSpendingForTickets infos)" "within R (SetPoolStatusForTickets statuses)"
  by (auto simp: SetSpendingForTickets_def SetPoolStatusForTickets_def ticket_spent ticket_status
      intro!: within_swallow within_exec_all within_return)

lemma op_within_stake:
  assumes "\<forall>tx \<in> set txs. of_block mb m tx"
  shows "op_within R checked B (store_stake sv mb validators mc upsert txs ids)"
proof -
  have "op_within R checked B (db_bind (on_db (but_no_rows ([], []) (InsertTickets txs ids checked upsert))) (\<lambda>(newIDs, newTx) p.
      (p\<lparr>db_unspentTicketCache := ids_SetN (zip (map tx_TxID newTx) newIDs) (db_unspentTicketCache p)\<rparr>, Inr ())))"
  proof (rule op_within_bind)
    show "op_within R checked B (on_db (but_no_rows ([], []) (InsertTickets txs ids checked upsert)))"
      by (intro op_within_on_db within_but_no_rows within_tickets assms)
  qed (rule op_within_pure; simp add: wf_map_ids_SetN caches_wfD split: prod.split)
  then have 1: "op_within R checked B (insert_tickets upsert txs ids)"
    by (rule op_within_eq) (simp add: insert_tickets_def)
  have 2: "op_within R checked B (insert_votes mb validators upsert txs)"
    unfolding insert_votes_def [abs_def] by (rule op_within_reads) (simp add: within_but_no_rows within_votes assms)
  have 3: "op_within R checked B (insert_treasury upsert txs)"
    unfolding insert_treasury_def [abs_def] by (rule op_within_reads) (simp add: within_but_no_rows within_treasury assms)
  have 4: "op_within R checked B (collect_spends mb mc txs ids)"
    by (auto simp: op_within_def op_step_def collect_spends_def CollectTicketSpendDBInfo_def caches_wfD split: prod.split dest: within_collectD wf_map_collect)
  have "op_within R checked B (\<lambda>pgb. db_bind (on_db (ticket_ids (unspent_statuses sv misses (revoked_tickets spends))
      (db_unspentTicketCache pgb))) (\<lambda>statuses. on_db (ignore_errors (SetPoolStatusForTickets statuses))) pgb)"
    for misses spends
    by (rule op_within_depends [where h = db_unspentTicketCache and g = "\<lambda>k. db_bind (on_db (ticket_ids (unspent_statuses sv misses
        (revoked_tickets spends)) k)) (\<lambda>statuses. on_db (ignore_errors (SetPoolStatusForTickets statuses)))"])
      (intro op_within_bind op_within_on_db within_ids within_ignore within_spending)
  then have 5: "op_within R checked B (update_tickets sv mb misses spends)" for misses spends
    unfolding update_tickets_def by (intro op_within_bind op_within_on_db within_ignore within_spending)
  show ?thesis
    unfolding store_stake_def using 1 2 3 4 5 by (intro op_within_bind)
qed

text \<open>Spending.\<close>

lemma within_spending_rows: "within R (insert_spending_rows checked upsert rs)"
  by (induction rs) (auto intro!: within_bind within_query_row within_return address_insert)

lemma within_record_spend: "within R (record_spend vin i checked upsert m valid upd tm u)"
  unfolding record_spend_def SetSpendingForFundingOP_def
  by (auto intro!: within_bind within_return within_spending_rows within_exec matching)

lemma within_spending_address: "within R (insertSpendingAddressRow vin i spent checked upsert m valid upd tm)"
proof (rule withinI)
  fix c
  obtain c1 r where 1: "retrieveTxOutData (vi_PrevTxHash vin) (vi_PrevTxIndex vin) (vi_PrevTxTree vin) c = (c1, r)" by fastforce
  have R1: "R (data c) (data c1)"
    by (rule withinD [OF within_vout_data 1])
  have rec: "R (data c') (data (fst (record_spend vin i checked upsert m valid upd tm u c')))" for c' u
    using within_record_spend by (simp add: within_def)
  show "R (data c) (data (fst (insertSpendingAddressRow vin i spent checked upsert m valid upd tm c)))"
    using R1 rec trans [OF R1 rec]
    by (simp add: insertSpendingAddressRow_def Let_def 1 split: option.split sum.split sql_error.split)
qed

lemma within_setSpending: "m \<Longrightarrow> within R (setSpendingForVouts ids i)"
proof -
  assume m
  have "within R (setSpendingForVout k i)" for k
    unfolding setSpendingForVout_def by (auto intro!: within_bind within_exec within_return vout_spent \<open>m\<close>)
  moreover have "within R (sql_bind (exec (UpdateVoutSpendTxRowID i ids)) (\<lambda>n.
      if n \<noteq> length ids then sql_fail (ErrOther e) else sql_return ()))" for ids e
    by (auto intro!: within_bind within_exec within_return vout_spent \<open>m\<close>)
  ultimately show ?thesis
    unfolding setSpendingForVouts_def by (simp only: split: list.split) blast
qed

lemma op_within_spend_vins:
  assumes "of_block mb m tx"
  shows "op_within R checked B (spend_vins checked upsert mc upd tx iv vins :: ('c, string list \<times> int list \<times> int) chain_op)"
proof (induction vins arbitrary: iv)
  case Nil
  show ?case by (simp add: op_within_def op_step_refl)
next
  case (Cons vin vins)
  have tx: "tx_IsMainchainBlock tx = m" using assms by (simp add: of_block_def)
  define g :: "UTXOData option \<Rightarrow> ('c, string list \<times> int list \<times> int) chain_op" where "g utxoData = db_bind (on_db (insertSpendingAddressRow vin (tx_VinDbIds tx ! iv) utxoData checked upsert
                m (tx_IsValid tx) upd (tx_BlockTime tx)))
              (\<lambda>(fromAddrs, voutDbID, mixedVout).
                db_bind (spend_vins checked upsert mc upd tx (Suc iv) vins) (\<lambda>(addrs, voutDbIDs, spent).
                  db_return (fromAddrs @ addrs, voutDbID # voutDbIDs,
                    (if mixedVout \<and> tx_IsValid tx \<and> mc then vi_ValueIn vin else 0) + spent)))" for utxoData
  have g: "op_within R checked B (g u)" for u
    unfolding g_def case_prod_unfold by (intro op_within_bind op_within_on_db within_spending_address Cons op_within_return)
  have "spend_vins checked upsert mc upd tx iv (vin # vins) p =
     (if vi_PrevTxHash vin = zeroHashStr then spend_vins checked upsert mc upd tx (Suc iv) vins p
     else if length (tx_VinDbIds tx) \<le> iv then (p, Inl (Panics ''index out of range''))
     else g (snd (utxo_Get (vi_PrevTxHash vin) (vi_PrevTxIndex vin) (db_utxoCache p)))
       (p\<lparr>db_utxoCache := fst (utxo_Get (vi_PrevTxHash vin) (vi_PrevTxIndex vin) (db_utxoCache p))\<rparr>))" for p
    by (simp add: g_def tx case_prod_unfold)
  moreover have "op_step R checked B p (fst (g u (p\<lparr>db_utxoCache := fst (utxo_Get h i (db_utxoCache p))\<rparr>)))"
    if "db_dupChecks p = checked" for p u h i
    using g [of u, unfolded op_within_def, rule_format, of "p\<lparr>db_utxoCache := fst (utxo_Get h i (db_utxoCache p))\<rparr>"] that
    by (auto simp: op_step_def utxo_inv_Get caches_wfD)
  ultimately show ?case
    using Cons by (simp add: op_within_def op_step_refl del: spend_vins.simps)
qed

lemma op_within_spend_txs:
  assumes "\<forall>x \<in> set txs. of_block mb m (fst x)"
  shows "op_within R checked B (spend_txs checked upsert m upd txs ids :: ('c, string list \<times> int) chain_op)"
  using assms
proof (induction txs arbitrary: ids)
  case Nil
  show ?case by (simp add: op_within_def op_step_refl)
next
  case (Cons x txs)
  obtain tx vins where x: "x = (tx, vins)" by fastforce
  show ?case
  proof (cases ids)
    case Nil
    then show ?thesis by (simp add: op_within_def op_step_refl x)
  next
    case (Cons i ids')
    have IH: "op_within R checked B (spend_txs checked upsert m upd txs ids' :: ('c, string list \<times> int) chain_op)"
      using Cons.IH Cons.prems by simp
    have step: "op_within R checked B (if b \<and> m \<and> voutIDs \<noteq> [] then on_db (setSpendingForVouts voutIDs i) else db_return ())"
      for b voutIDs by (auto intro!: op_within_on_db within_setSpending op_within_return)
    have eq: "(spend_txs checked upsert m upd (x # txs) ids :: ('c, string list \<times> int) chain_op) =
      db_bind (spend_vins checked upsert m upd tx 0 vins) (\<lambda>(addrs, voutDbIDs, spent).
        db_bind (if tx_IsValid tx \<and> m \<and> voutDbIDs \<noteq> [] then on_db (setSpendingForVouts voutDbIDs i) else db_return ())
        (\<lambda>_. db_bind (spend_txs checked upsert m upd txs ids')
          (\<lambda>(addrs', spent'). db_return (addrs @ addrs', spent + spent'))))"
      by (rule ext) (simp add: x Cons)
    have tx: "of_block mb m tx"
      using Cons.prems x by simp
    show ?thesis
      unfolding eq case_prod_unfold
      by (intro op_within_bind op_within_spend_vins op_within_return IH step tx)
  qed
qed

text \<open>A tree of the block.\<close>

lemma all_mixed_within: "all_mixed vins (c, u) = ((c', u'), b) \<Longrightarrow> R (data c) (data c')"
proof (induction vins arbitrary: c u)
  case (Cons vin vins)
  obtain c1 r where 1: "retrieveTxOutData (vi_PrevTxHash vin) (vi_PrevTxIndex vin) (vi_PrevTxTree vin) c = (c1, r)" by fastforce
  have R1: "R (data c) (data c1)"
    by (rule withinD [OF within_vout_data 1])
  show ?case
    using Cons.prems Cons.IH [of c u] trans [OF R1] Cons.IH [of c1] R1
    by (auto simp: 1 Let_def split: if_splits option.splits sum.splits)
qed simp

lemma tag_mixed_within:
  assumes "tag_mixed txs (c, u) = ((c', u'), tagged)"
  shows "R (data c) (data c')" "map fst tagged = map fst txs"
proof -
  have "R (data c) (data c') \<and> map fst tagged = map fst txs"
    using assms
  proof (induction txs arbitrary: c u tagged)
    case (Cons x txs)
    obtain tx vouts vins where x: "x = (tx, vouts, vins)" by (cases x)
    obtain c1 u1 b where 1: "all_mixed vins (c, u) = ((c1, u1), b)" by (metis prod.exhaust)
    show ?case
      using Cons.prems Cons.IH trans [OF all_mixed_within [OF 1]]
      by (auto simp: x 1 split: if_splits prod.splits)
  qed auto
  then show "R (data c) (data c')" "map fst tagged = map fst txs" by simp_all
qed

lemma op_within_tag: "op_within R checked B (tag_outputs txs)"
proof (rule op_withinI)
  fix p :: "'c ChainDB" assume c: "db_dupChecks p = checked"
  let ?u = "updateUtxoCache (map (\<lambda>(tx, vouts, vins). vouts) txs) (map fst txs) (db_utxoCache p)"
  obtain c' u' tagged where t: "tag_mixed txs (db_conn p, ?u) = ((c', u'), tagged)" by (metis prod.exhaust)
  have "caches_wf p \<Longrightarrow> utxo_inv u'"
    by (rule utxo_inv_tag_mixed [OF t]) (simp add: utxo_inv_updateUtxoCache caches_wfD)
  then show "op_step R checked B p (fst (tag_outputs txs p))"
    using tag_mixed_within(1) [OF t] c by (simp add: op_step_def tag_outputs_def t)
qed

lemma tag_outputs_txs: "tag_outputs txs p = (p', Inr tagged) \<Longrightarrow> map fst tagged = map fst txs"
  by (auto simp: tag_outputs_def split: prod.splits dest: tag_mixed_within(2))

lemma op_within_store_rows:
  assumes "\<forall>x \<in> set tagged. of_block mb m (fst x)"
  shows "op_within R checked B (store_rows upsert tagged)"
proof -
  have "op_within R checked B (db_bind (on_db (storeTxns checked upsert tagged)) (\<lambda>(stored, txDbIDs) p.
      (p\<lparr>db_utxoCache := updateUtxoCache (map (\<lambda>(tx, vouts, vins). vouts) tagged) (map fst stored) (db_utxoCache p)\<rparr>,
       Inr (stored, txDbIDs))))"
  proof (rule op_within_bind)
    show "op_within R checked B (on_db (storeTxns checked upsert tagged))"
      using within_transaction [OF storeTxns_body [OF assms]] by (intro op_within_on_db) (simp add: storeTxns_def)
  qed (rule op_within_pure; simp add: utxo_inv_updateUtxoCache caches_wfD split: prod.split)
  then show ?thesis
    by (rule op_within_eq) (simp add: store_rows_def)
qed

lemma store_rows_txs:
  assumes "store_rows upsert tagged p = (p', Inr (stored, ids))" "\<forall>x \<in> set tagged. of_block mb m (fst x)" "db_dupChecks p = checked"
  shows "\<forall>x \<in> set stored. of_block mb m (fst x)"
  using assms(1,3) storeTxns_rows(2) [OF _ assms(2)]
  by (auto simp: store_rows_def db_bind_def on_db_def split: prod.splits sum.splits)

lemma op_within_store_addresses:
  assumes "\<forall>x \<in> set txs. of_block mb m (fst x)"
  shows "op_within R checked B (store_addresses mb' tree upsert m upd rs txs ids :: ('c, string list \<times> int) chain_op)"
proof -
  have "op_within R checked B (db_transaction (db_bind (on_db (InsertAddressRowsDbTx checked upsert rs)) (\<lambda>_.
      db_bind (spend_txs checked upsert m upd txs ids) (\<lambda>r. db_bind (skip_coinbase mb' tree) (\<lambda>_. db_return r)))) :: ('c, string list \<times> int) chain_op)"
    unfolding skip_coinbase_def
    by (intro op_within_transaction op_within_bind op_within_on_db within_addresses op_within_spend_txs assms)
      (auto intro: op_within_return)
  then show ?thesis
    by (rule op_within_eq) (simp add: store_addresses_def)
qed

text \<open>What follows an operation needs only to be considered for its results.\<close>

lemma op_within_bind_results:
  assumes "op_within R checked B q"
    "\<And>p p' x. db_dupChecks p = checked \<Longrightarrow> q p = (p', Inr x) \<Longrightarrow> op_within R checked B (f x)"
  shows "op_within R checked B (db_bind q f)"
proof -
  have "op_step R checked B p (fst (db_bind q f p))"
    if c: "db_dupChecks p = checked" for p
  proof -
    obtain p1 r where q: "q p = (p1, r)" by fastforce
    note 1 = op_withinD [OF assms(1) q c]
    show ?thesis
    proof (cases r)
      case (Inl e)
      with q 1 show ?thesis by (simp add: db_bind_def)
    next
      case (Inr x)
      obtain p2 r2 where f: "f x p1 = (p2, r2)" by fastforce
      have "op_within R checked B (f x)"
        using assms(2) [OF c] q Inr by simp
      note 2 = op_withinD [OF this f op_step_checked [OF 1]]
      from q f Inr 1 2 show ?thesis
        by (auto simp: db_bind_def intro: op_step_trans)
    qed
  qed
  then show ?thesis by (simp add: op_within_def)
qed

lemma processTransactions_of_block:
  assumes "processTransactions mb tree isValid m = (txs, vouts, vins)"
  shows "\<forall>tx \<in> set txs. of_block mb m tx"
  using assms by (auto simp: processTransactions_def of_block_def extract_tx_def Let_def)

lemma op_within_tree: "op_within R checked B (storeBlockTxnTree sv mb validators tree isValid m upsert upd)"
proof -
  obtain txs vouts vins where p: "processTransactions mb tree isValid m = (txs, vouts, vins)" by (metis prod_cases3)
  have txs: "\<forall>x \<in> set (zip txs (zip vouts vins)). of_block mb m (fst x)"
    using processTransactions_of_block [OF p] by (auto dest!: set_zip_leftD)
  show ?thesis
    unfolding storeBlockTxnTree_def p Let_def prod.case
  proof (rule op_within_bind_results [OF op_within_tag])
    fix p p' tagged assume "tag_outputs (zip txs (zip vouts vins)) p = (p', Inr tagged)"
    from tag_outputs_txs [OF this] txs have tagged: "\<forall>x \<in> set tagged. of_block mb m (fst x)"
      by (metis (no_types, lifting) imageE image_eqI list.set_map)
    show "op_within R checked B (db_bind (store_rows upsert tagged) (\<lambda>(stored, txDbIDs).
        db_bind (if tree = TxTreeStake
            then store_stake sv mb (if m then validators else []) m upsert (map fst stored) txDbIDs
            else db_return ()) (\<lambda>_.
        db_bind (store_addresses mb tree upsert m upd (flattenAddressRows stored)
            (zip (map fst stored) (map (\<lambda>(tx, vouts, vins). vins) tagged)) txDbIDs) (\<lambda>(addrs, spent).
          db_return (txDbIDs, remdups (map a_address (flattenAddressRows stored) @ addrs),
            (if m then mixed_value tagged else 0) - spent)))))"
    proof (rule op_within_bind_results [OF op_within_store_rows [OF tagged]])
      fix p p' x assume c: "db_dupChecks p = checked" and s: "store_rows upsert tagged p = (p', Inr x)"
      obtain stored ids where x: "x = (stored, ids)" by fastforce
      have stored: "\<forall>x \<in> set stored. of_block mb m (fst x)"
        using store_rows_txs [OF s [unfolded x] tagged c] .
      then have 1: "\<forall>tx \<in> set (map fst stored). of_block mb m tx"
        "\<forall>x \<in> set (zip (map fst stored) vs). of_block mb m (fst x)" for vs :: "'x list"
        by (auto dest!: set_zip_leftD)
      show "op_within R checked B (case x of (stored, txDbIDs) \<Rightarrow>
        db_bind (if tree = TxTreeStake
            then store_stake sv mb (if m then validators else []) m upsert (map fst stored) txDbIDs
            else db_return ()) (\<lambda>_.
        db_bind (store_addresses mb tree upsert m upd (flattenAddressRows stored)
            (zip (map fst stored) (map (\<lambda>(tx, vouts, vins). vins) tagged)) txDbIDs) (\<lambda>(addrs, spent).
          db_return (txDbIDs, remdups (map a_address (flattenAddressRows stored) @ addrs),
            (if m then mixed_value tagged else 0) - spent))))"
        unfolding x prod.case case_prod_unfold
        using op_within_stake [OF 1(1)] op_within_store_addresses [OF 1(2)]
        by (auto intro!: op_within_bind op_within_return)
    qed
  qed
qed

end

locale block_contract = tree_contract R checked m mb for R checked m mb +
  assumes block_insert: "b_hash b = mb_Hash mb \<Longrightarrow> b_is_mainchain b = m \<Longrightarrow> R d (fst (BlockInsert checked b d))"
    and prev_next_insert: "c_this_hash r = mb_Hash mb \<Longrightarrow> R d (fst (BlockPrevNextInsert r d))"
    and block_next: "R d (fst (UpdateBlockNext_sql i (mb_Hash mb) d))"
    and last_valid: "R d (fst (UpdateLastBlockValid_sql i False d))"
    and last_spent: "R d (fst (clear_spent (\<lambda>t. t_tree t = 0 \<and> t_block_hash t = mb_PrevBlock mb) d))"
    and last_vins: "R d (fst (SetIsValidIsMainchainByTxHash valid m txh tm d))"
    and last_txs: "R d (fst (UpdateRegularTxnsValidByBlock False (mb_PrevBlock mb) d))"
    and last_spending: "R d (fst (SetAddressMainchainForVinIDs False i d))"
    and last_funding: "R d (fst (SetAddressMainchainForVoutIDs False i d))"
begin

text \<open>The previous block.\<close>

lemma within_update_addresses:
  assumes "\<And>i d. R d (fst (stmt i d))"
  shows "within R (update_addresses stmt is found n)"
proof (rule withinI)
  show "R (data c) (data (fst (update_addresses stmt is found n c)))" for c
  proof (induction "is" arbitrary: c found n)
    case (Cons i "is")
    obtain c1 r where 1: "query_row (stmt i) c = (c1, r)" by fastforce
    then have "R (data c) (data c1)"
      by (rule withinD [OF within_query_row [OF assms]])
    with Cons show ?case
      by (auto simp: 1 split: sum.split sql_error.split intro: trans)
  qed simp
qed

lemma within_one_row: "within R q \<Longrightarrow> within R (one_row q)"
  unfolding one_row_def by (auto intro!: within_bind within_return)

lemma within_last_vins: "within R (UpdateLastVins_loop valid m txs)"
proof (induction txs)
  case (Cons x txs)
  obtain i h k t tm where x: "x = (i, h, k, t, tm)" by (cases x)
  from Cons show ?case
    by (auto simp: x intro!: within_bind within_exec within_return last_vins)
qed (simp add: within_return)

lemma within_last:
  "within R (UpdateLastBlockValid i False)" "within R (clearVoutRegularSpendTxRowIDs (mb_PrevBlock mb))"
  "within R (UpdateLastVins (mb_PrevBlock mb) valid m)" "within R (UpdateTransactionsValid (mb_PrevBlock mb) False)"
  "within R (UpdateLastAddressesValid (mb_PrevBlock mb) False)" "within R (UpdateBlockNext i (mb_Hash mb))"
  "within R (RetrieveBlockChainDbID h)" "within R (RetrieveBlockFlags h)"
  unfolding UpdateLastBlockValid_def clearVoutRegularSpendTxRowIDs_def UpdateLastVins_def UpdateTransactionsValid_def
    UpdateLastAddressesValid_def UpdateBlockNext_def UpdateAddressesMainchainByIDs_def RetrieveTxsByBlockHash_def
    RetrieveTxnsVinsVoutsByBlock_def RetrieveBlockChainDbID_def RetrieveBlockFlags_def case_prod_unfold
  by (auto intro!: within_bind within_exec within_query_row within_return within_one_row within_update_addresses within_last_vins
      last_valid last_spent last_txs block_next last_spending last_funding
      simp: SelectTxsByBlockHash_def SelectRegularTxnsVinsVoutsByBlock_def SelectBlockChainRowIDByHash_def SelectBlockFlags_def)

lemma op_within_last_row: "op_within R checked B (last_row_id mb)"
  by (rule op_withinI) (auto simp: op_step_def last_row_id_def on_db_def split: option.split prod.split dest: withinD [OF within_last(7)])

lemma op_within_link: "op_within R checked B (link_last mb m)"
proof -
  have "op_within R checked B (invalidate_last i (mb_PrevBlock mb) m)" for i
    unfolding invalidate_last_def by (intro op_within_bind op_within_on_db within_last op_within_pure) auto
  then show ?thesis
    unfolding link_last_def
    by (auto intro!: op_within_bind op_within_on_db within_last op_within_last_row op_within_return)
qed

lemma update_last_fst: "fst (update_last mb m p) = fst (UpdateLastBlock mb m p)"
  by (simp add: update_last_def split: prod.split sum.split sql_error.split)

lemma op_within_update_last: "op_within R checked B (update_last mb m)"
proof -
  have link: "db_dupChecks q = checked \<Longrightarrow> op_step R checked B q (fst (link_last mb m q))" for q :: "'c ChainDB"
    using op_within_link unfolding op_within_def by blast
  have flags: "op_within R checked B (on_db (RetrieveBlockFlags (mb_PrevBlock mb)))"
    by (rule op_within_on_db [OF within_last(8)])
  have "op_within R checked B (UpdateLastBlock mb m :: ('c, unit) chain_op)"
    unfolding op_within_def
  proof (intro allI impI)
    fix p :: "'c ChainDB" assume c: "db_dupChecks p = checked"
    obtain p1 r where 1: "on_db (RetrieveBlockFlags (mb_PrevBlock mb)) p = (p1, r)" by fastforce
    note R1 = op_withinD [OF flags 1 c]
    show "op_step R checked B p (fst (UpdateLastBlock mb m p))"
      using link [OF c] op_step_trans [OF R1 link [OF op_step_checked [OF R1]]] R1 op_step_refl [OF c]
      unfolding UpdateLastBlock_def 1 by (auto split: sum.split)
  qed
  then show "op_within R checked B (update_last mb m :: ('c, unit) chain_op)"
    by (simp add: op_within_def update_last_fst)
qed

text \<open>The block.\<close>

lemma op_within_trees:
  assumes "\<And>tree. op_within R checked B (store tree :: ('c, 'x) chain_op)"
  shows "op_within R checked B (store_trees stakeFirst store)"
proof (rule op_withinI)
  fix p :: "'c ChainDB" assume c: "db_dupChecks p = checked"
  let ?t1 = "if stakeFirst then TxTreeStake else TxTreeRegular"
  let ?t2 = "if stakeFirst then TxTreeRegular else TxTreeStake"
  obtain p1 r1 where 1: "store ?t1 p = (p1, r1)" by fastforce
  obtain p2 r2 where 2: "store ?t2 p1 = (p2, r2)" by fastforce
  note R1 = op_withinD [OF assms 1 c]
  note R2 = op_withinD [OF assms 2 op_step_checked [OF R1]]
  have "fst (store_trees stakeFirst store p) = p2"
    using 1 2 by (cases stakeFirst) (simp_all add: store_trees_def)
  with op_step_trans [OF R1 R2]
  show "op_step R checked B p (fst (store_trees stakeFirst store p))" by simp
qed

lemma op_within_insert_block:
  assumes "b_hash b = mb_Hash mb" "b_is_mainchain b = m"
  shows "op_within R checked B (insert_the_block b)"
proof -
  have "op_within R checked B (db_bind (on_db (InsertBlock b checked)) (\<lambda>blockDbID p.
      (p\<lparr>db_lastBlock := mput (b_hash b) blockDbID (db_lastBlock p)\<rparr>, Inr blockDbID)))"
  proof (rule op_within_bind)
    show "op_within R checked B (on_db (InsertBlock b checked))"
      unfolding InsertBlock_def by (intro op_within_on_db within_query_row block_insert assms)
  qed (rule op_within_pure; simp add: caches_wfD)
  then show ?thesis
    by (rule op_within_eq) (simp add: insert_the_block_def)
qed

lemma op_within_block_row: "op_within R checked B (store_block_row mb isValid m winners ids sids)"
  unfolding store_block_row_def InsertBlockPrevNext_def
  by (auto intro!: op_within_bind op_within_on_db within_but_no_rows within_bind within_exec within_return prev_next_insert
    op_within_return op_within_insert_block)

end

lemma db_bind_Inl: "q p = (p1, Inl e) \<Longrightarrow> db_bind q f p = (p1, Inl e)"
  by (simp add: db_bind_def)

lemma db_bind_Inr: "q p = (p1, Inr x) \<Longrightarrow> db_bind q f p = f x p1"
  by (simp add: db_bind_def)

lemma db_bindE:
  assumes "db_bind q f p = (p', Inr y)"
  obtains p1 x where "q p = (p1, Inr x)" "f x p1 = (p', Inr y)"
  using assms by (cases "q p"; cases "snd (q p)") (auto simp: db_bind_def)

lemma finish_best:
  "bb_height (fst (finish_main mb i tpi p)) = mb_Height mb \<and> bb_hash (fst (finish_main mb i tpi p)) = mb_Hash mb"
proof -
  have c: "bb_height (fst (on_db q p)) = bb_height p" "bb_hash (fst (on_db q p)) = bb_hash p"
    for q :: "'y sql" and p :: "'z ChainDB"
    by (simp_all add: on_db_def split: prod.split)
  obtain p1 r where 1: "on_db (InsertBlockStats i (pi_Height tpi) (pi_Size tpi) (pi_Value tpi))
      (p\<lparr>bb_height := mb_Height mb, bb_hash := mb_Hash mb\<rparr>) = (p1, r)" by fastforce
  then have "bb_height p1 = mb_Height mb" "bb_hash p1 = mb_Hash mb"
    using c [of "InsertBlockStats i (pi_Height tpi) (pi_Size tpi) (pi_Value tpi)" "p\<lparr>bb_height := mb_Height mb, bb_hash := mb_Hash mb\<rparr>"]
    by simp_all
  then show ?thesis
    by (simp add: finish_main_def set_best_def db_bind_def 1 c split: sum.split)
qed

locale statement_contract = block_contract R checked m mb for R checked m mb +
  assumes stats_upsert: "m \<Longrightarrow> s_height st = mb_Height mb \<Longrightarrow> R d (fst (UpsertStats st d))"
    and best_block: "m \<Longrightarrow> R d (fst (SetMetaDBBestBlock (mb_Height mb) (mb_Hash mb) d))"
begin

lemma op_within_set_best: "op_within R checked (Some (h, hs)) (set_best h hs)"
  by (simp add: op_within_def op_step_def set_best_def)

lemma op_within_finish:
  assumes m "pi_Height tpi = mb_Height mb"
  shows "op_within R checked (Some (mb_Height mb, mb_Hash mb)) (finish_main mb i tpi)"
  unfolding finish_main_def InsertBlockStats_def SetDBBestBlock_def
  by (auto intro!: op_within_bind op_within_on_db within_bind within_exec within_return op_within_set_best best_block stats_upsert
    simp: assms)

lemma StoreBlock_within: "op_within R checked (Some (mb_Height mb, mb_Hash mb)) (StoreBlock stakeFirst sv mb isValid m upsert upd)"
proof (cases "pool_infos sv mb m")
  case (Inl e)
  then show ?thesis by (simp add: StoreBlock_def op_within_return)
next
  case (Inr x)
  obtain tpi lastTpi where x: "x = (tpi, lastTpi)" by fastforce
  have last: "op_within R checked (Some (mb_Height mb, mb_Hash mb)) (if m then finish_main mb i (the tpi) else db_return ())" for i
    using Inr x by (auto intro!: op_within_finish op_within_return dest: pool_infos_main)
  have pure: "op_within R checked (Some (mb_Height mb, mb_Hash mb)) (set_mix_diff (mb_Height mb) m d)" "op_within R checked (Some (mb_Height mb, mb_Hash mb)) (clear_addresses as)" for d as
    by (rule op_within_pure; simp add: set_mix_diff_def clear_addresses_def caches_wfD)+
  show ?thesis
    unfolding StoreBlock_def Inr sum.case x prod.case case_prod_unfold fst_conv
    by (intro op_within_bind op_within_trees op_within_tree pure op_within_block_row op_within_update_last last)
qed

lemma StoreBlock_step:
  "db_dupChecks p = checked \<Longrightarrow>
    op_step R checked (Some (mb_Height mb, mb_Hash mb)) p (fst (StoreBlock stakeFirst sv mb isValid m upsert upd p))"
  using StoreBlock_within unfolding op_within_def by blast

lemma StoreBlock_R:
  "db_dupChecks p = checked \<Longrightarrow>
    R (data (db_conn p)) (data (db_conn (fst (StoreBlock stakeFirst sv mb isValid m upsert upd p))))"
  using StoreBlock_step unfolding op_step_def by blast

end

end
