(* ===== verification/ChainStoreContract.thy ===== *)
theory ChainStoreContract
  imports ChainStoreFrame "HOL-Library.Sublist"
begin

text \<open>
  What storing a block keeps: the unique indexes of the tables, every row that is there, and the rows of
  other blocks; each is a relation between the tables, and an interpretation of the contract of the
  statements.
\<close>

section \<open>Unique indexes\<close>

text \<open>A table with a serial column and a unique index.\<close>

definition indexed :: "('r \<Rightarrow> nat) \<Rightarrow> ('r \<Rightarrow> 'k) \<Rightarrow> nat \<Rightarrow> 'r list \<Rightarrow> bool" where
  "indexed ident key n rs \<longleftrightarrow> distinct (map ident rs) \<and> distinct (map key rs) \<and> (\<forall>r \<in> set rs. ident r < n)"

lemma indexed_mono: "indexed ident key n rs \<Longrightarrow> n \<le> k \<Longrightarrow> indexed ident key k rs"
  by (auto simp: indexed_def)

lemma indexed_update:
  assumes "indexed ident key n rs" "\<And>r. ident (f r) = ident r" "\<And>r. key (f r) = key r"
  shows "indexed ident key n (update_where P f rs)"
  using assms by (auto simp: indexed_def map_update_where set_update_where)

lemma indexed_insert:
  assumes "indexed ident key n rs" "ident row = n" "\<And>r. same r \<longleftrightarrow> key r = key row"
    "\<And>r. ident (change r) = ident r" "\<And>r. key (change r) = key r"
  shows "indexed ident key (Suc n) (fst (insert_row True upsert same change ident row rs))"
proof (cases "filter same rs = []")
  case True
  then have "key row \<notin> set (map key rs)" using assms(3) by (auto simp: filter_empty_conv)
  with assms(1,2) show ?thesis
    by (auto simp: insert_row_def indexed_def True)
next
  case False
  then show ?thesis
    using assms indexed_update [OF assms(1), of change same] by (auto simp: insert_row_def intro: indexed_mono)
qed

definition vin_key :: "vins_row \<Rightarrow> string \<times> nat \<times> int" where
  "vin_key r = (i_tx_hash r, i_tx_index r, i_tx_tree r)"

definition vout_key :: "vouts_row \<Rightarrow> string \<times> nat \<times> int" where
  "vout_key r = (o_tx_hash r, o_tx_index r, o_tx_tree r)"

definition address_key :: "addresses_row \<Rightarrow> nat \<times> string \<times> bool" where
  "address_key r = (a_tx_vin_vout_row_id r, a_address r, a_is_funding r)"

definition serial_tables :: "db \<Rightarrow> bool" where
  "serial_tables d \<longleftrightarrow>
    indexed i_id vin_key (next_vin (seqs d)) (t_vins d) \<and>
    indexed o_id vout_key (next_vout (seqs d)) (t_vouts d) \<and>
    indexed t_id (\<lambda>r. (t_tx_hash r, t_block_hash r)) (next_tx (seqs d)) (t_transactions d) \<and>
    indexed a_id address_key (next_address (seqs d)) (t_addresses d) \<and>
    indexed b_id b_hash (next_block (seqs d)) (t_blocks d) \<and>
    indexed k_id (\<lambda>r. (k_tx_hash r, k_block_hash r)) (next_ticket (seqs d)) (t_tickets d) \<and>
    indexed v_id (\<lambda>r. (v_tx_hash r, v_block_hash r)) (next_vote (seqs d)) (t_votes d) \<and>
    indexed m_id (\<lambda>r. (m_ticket_hash r, m_block_hash r)) (next_miss (seqs d)) (t_misses d)"

definition other_tables :: "db \<Rightarrow> bool" where
  "other_tables d \<longleftrightarrow>
    distinct (map (\<lambda>r. (y_tx_hash r, y_block_hash r)) (t_treasury d)) \<and>
    distinct (map c_this_hash (t_block_chain d)) \<and> distinct (map c_block_db_id (t_block_chain d)) \<and>
    distinct (map s_height (t_stats d))"

definition tables_ok :: "db \<Rightarrow> bool" where
  "tables_ok d \<longleftrightarrow> serial_tables d \<and> other_tables d"

definition seqs_le :: "sequences \<Rightarrow> sequences \<Rightarrow> bool" where
  "seqs_le s s' \<longleftrightarrow> next_block s \<le> next_block s' \<and> next_tx s \<le> next_tx s' \<and> next_vin s \<le> next_vin s' \<and>
    next_vout s \<le> next_vout s' \<and> next_address s \<le> next_address s' \<and> next_ticket s \<le> next_ticket s' \<and>
    next_vote s \<le> next_vote s' \<and> next_miss s \<le> next_miss s'"

definition keeps_tables :: "db \<Rightarrow> db \<Rightarrow> bool" where
  "keeps_tables d d' \<longleftrightarrow> (tables_ok d \<longrightarrow> tables_ok d') \<and> seqs_le (seqs d) (seqs d')"

lemma serial_tables_mono: "serial_tables d \<Longrightarrow> seqs_le (seqs d) q \<Longrightarrow> serial_tables (d\<lparr>seqs := q\<rparr>)"
  unfolding serial_tables_def seqs_le_def by (auto intro: indexed_mono)

lemma distinct_insert_row:
  assumes "distinct (map key rs)" "\<And>r. same r \<longleftrightarrow> key r = key row" "\<And>r. same r \<Longrightarrow> key (change r) = key r"
  shows "distinct (map key (fst (insert_row True upsert same change ident row rs)))"
proof -
  have "map key (update_where same change rs) = map key rs"
    using assms(3) by (simp add: update_where_def)
  then show ?thesis
    using assms(1,2) by (auto simp: insert_row_def filter_empty_conv)
qed

lemma distinct_update_where: "distinct (map key rs) \<Longrightarrow> (\<And>r. key (f r) = key r) \<Longrightarrow> distinct (map key (update_where P f rs))"
  by (simp add: map_update_where)

lemma seqs_le_refl [simp]: "seqs_le s s"
  by (simp add: seqs_le_def)

lemma keeps_tables_same:
  "(tables_ok d \<Longrightarrow> tables_ok d') \<Longrightarrow> seqs_le (seqs d) (seqs d') \<Longrightarrow> keeps_tables d d'"
  by (simp add: keeps_tables_def)

lemmas keeps_defs = tables_ok_def serial_tables_def other_tables_def

lemma keeps_VinInsert: "keeps_tables d (fst (VinInsert True upsert vin d))"
  by (rule keeps_tables_same; simp add: VinInsert_def Let_def case_prod_unfold keeps_defs seqs_le_def)
    (rule indexed_insert; auto simp: vin_key_def)

lemma keeps_VoutInsert: "keeps_tables d (fst (VoutInsert True upsert vout d))"
  by (rule keeps_tables_same; simp add: VoutInsert_def Let_def case_prod_unfold keeps_defs seqs_le_def)
    (rule indexed_insert; auto simp: vout_key_def)

lemma keeps_TxInsert: "keeps_tables d (fst (TxInsert True upsert tx d))"
  by (rule keeps_tables_same; simp add: TxInsert_def Let_def case_prod_unfold keeps_defs seqs_le_def)
    (rule indexed_insert; auto)

lemma keeps_AddressInsert: "keeps_tables d (fst (AddressInsert True upsert a d))"
  by (rule keeps_tables_same; simp add: AddressInsert_def Let_def case_prod_unfold keeps_defs seqs_le_def)
    (rule indexed_insert; auto simp: address_key_def)

lemma keeps_TicketInsert: "keeps_tables d (fst (TicketInsert True upsert k d))"
  by (rule keeps_tables_same; simp add: TicketInsert_def Let_def case_prod_unfold keeps_defs seqs_le_def)
    (rule indexed_insert; auto)

lemma keeps_VoteInsert: "keeps_tables d (fst (VoteInsert True upsert v d))"
  by (rule keeps_tables_same; simp add: VoteInsert_def Let_def case_prod_unfold keeps_defs seqs_le_def)
    (rule indexed_insert; auto)

lemma keeps_MissInsert: "keeps_tables d (fst (MissInsert True upsert ms d))"
  by (rule keeps_tables_same; simp add: MissInsert_def Let_def case_prod_unfold keeps_defs seqs_le_def)
    (rule indexed_insert; auto)

lemma keeps_BlockInsert: "keeps_tables d (fst (BlockInsert True b d))"
  by (rule keeps_tables_same; simp add: BlockInsert_def Let_def case_prod_unfold keeps_defs seqs_le_def)
    (rule indexed_insert; auto)

lemma keeps_other_inserts:
  "keeps_tables d (fst (TreasuryInsert True upsert y d))"
  "keeps_tables d (fst (BlockPrevNextInsert r d))"
  "keeps_tables d (fst (UpsertStats st d))"
  by (rule keeps_tables_same;
    auto simp: TreasuryInsert_def BlockPrevNextInsert_def UpsertStats_def Let_def keeps_defs intro!: distinct_insert_row)+

lemma keeps_updates:
  "keeps_tables d (fst (SetTicketSpendingInfoForTicketDbID i h txDbID spendType status d))"
  "keeps_tables d (fst (SetTicketPoolStatusForTicketDbID i status d))"
  "keeps_tables d (fst (SetAddressMatchingTxHashForOutpoint spending funding ind m d))"
  "keeps_tables d (fst (UpdateVoutSpendTxRowID txDbID ids d))"
  "keeps_tables d (fst (UpdateBlockNext_sql i hs d))"
  "keeps_tables d (fst (UpdateLastBlockValid_sql i valid d))"
  "keeps_tables d (fst (clear_spent P d))"
  "keeps_tables d (fst (SetIsValidIsMainchainByTxHash valid m hs tm d))"
  "keeps_tables d (fst (UpdateRegularTxnsValidByBlock valid hs d))"
  "keeps_tables d (fst (SetAddressMainchainForVinIDs m i d))"
  "keeps_tables d (fst (SetAddressMainchainForVoutIDs m i d))"
  "keeps_tables d (fst (SetMetaDBBestBlock n hs d))"
  by (rule keeps_tables_same;
    auto simp: SetTicketSpendingInfoForTicketDbID_def SetTicketPoolStatusForTicketDbID_def SetAddressMatchingTxHashForOutpoint_def
      UpdateVoutSpendTxRowID_def UpdateBlockNext_sql_def UpdateLastBlockValid_sql_def clear_spent_def
      SetIsValidIsMainchainByTxHash_def UpdateRegularTxnsValidByBlock_def SetAddressMainchainForVinIDs_def
      SetAddressMainchainForVoutIDs_def SetMetaDBBestBlock_def Let_def keeps_defs vin_key_def vout_key_def address_key_def
      intro!: indexed_update distinct_update_where)+

interpretation kt: statement_contract keeps_tables True m mb for m mb
proof (unfold_locales, goal_cases)
  case (2 d1 d2 d3)
  then show ?case by (auto simp: keeps_tables_def seqs_le_def)
next
  case (3 d d')
  then show ?case
    using serial_tables_mono [of d "seqs d'"] by (auto simp: keeps_tables_def tables_ok_def other_tables_def)
qed (simp_all add: keeps_VinInsert keeps_VoutInsert keeps_TxInsert keeps_AddressInsert keeps_TicketInsert keeps_VoteInsert
    keeps_MissInsert keeps_BlockInsert keeps_other_inserts keeps_updates, simp add: keeps_tables_def)

section \<open>Rows stay\<close>

text \<open>A row without the columns that a later block may change.\<close>

definition tx_fixed :: "transactions_row \<Rightarrow> transactions_row" where
  "tx_fixed r = r\<lparr>t_is_valid := False, t_is_mainchain := False\<rparr>"

definition vin_fixed :: "vins_row \<Rightarrow> vins_row" where
  "vin_fixed r = r\<lparr>i_is_valid := False, i_is_mainchain := False, i_block_time := 0, i_prev_tx_hash := [], i_prev_tx_index := 0,
    i_prev_tx_tree := 0\<rparr>"

definition vout_fixed :: "vouts_row \<Rightarrow> vouts_row" where
  "vout_fixed r = r\<lparr>o_spend_tx_row_id := None\<rparr>"

definition address_fixed :: "addresses_row \<Rightarrow> addresses_row" where
  "address_fixed r = r\<lparr>a_matching_tx_hash := [], a_tx_hash := [], a_tx_vin_vout_index := 0, a_block_time := 0,
    a_valid_mainchain := False\<rparr>"

definition ticket_fixed :: "tickets_row \<Rightarrow> tickets_row" where
  "ticket_fixed r = r\<lparr>k_is_mainchain := False, k_spend_type := 0, k_pool_status := 0, k_spend_height := None,
    k_spend_tx_db_id := None\<rparr>"

definition block_fixed :: "blocks_row \<Rightarrow> blocks_row" where
  "block_fixed r = r\<lparr>b_is_valid := False, b_is_mainchain := False\<rparr>"

lemmas fixed_defs = tx_fixed_def vin_fixed_def vout_fixed_def address_fixed_def ticket_fixed_def block_fixed_def

definition only_adds :: "db \<Rightarrow> db \<Rightarrow> bool" where
  "only_adds d d' \<longleftrightarrow>
    prefix (map block_fixed (t_blocks d)) (map block_fixed (t_blocks d')) \<and>
    prefix (map (\<lambda>r. r\<lparr>c_next_hash := []\<rparr>) (t_block_chain d)) (map (\<lambda>r. r\<lparr>c_next_hash := []\<rparr>) (t_block_chain d')) \<and>
    prefix (map tx_fixed (t_transactions d)) (map tx_fixed (t_transactions d')) \<and>
    prefix (map vin_fixed (t_vins d)) (map vin_fixed (t_vins d')) \<and>
    prefix (map vout_fixed (t_vouts d)) (map vout_fixed (t_vouts d')) \<and>
    prefix (map address_fixed (t_addresses d)) (map address_fixed (t_addresses d')) \<and>
    prefix (map ticket_fixed (t_tickets d)) (map ticket_fixed (t_tickets d')) \<and>
    prefix (map (\<lambda>r. r\<lparr>v_is_mainchain := False\<rparr>) (t_votes d)) (map (\<lambda>r. r\<lparr>v_is_mainchain := False\<rparr>) (t_votes d')) \<and>
    prefix (t_misses d) (t_misses d') \<and>
    prefix (map (\<lambda>r. r\<lparr>y_is_mainchain := False\<rparr>) (t_treasury d)) (map (\<lambda>r. r\<lparr>y_is_mainchain := False\<rparr>) (t_treasury d')) \<and>
    prefix (map s_height (t_stats d)) (map s_height (t_stats d')) \<and> t_swaps d' = t_swaps d"

lemma prefix_insert_row:
  assumes "\<And>r. same r \<Longrightarrow> fx (change r) = fx r"
  shows "prefix (map fx rs) (map fx (fst (insert_row checked upsert same change ident row rs)))"
proof -
  have "map fx (update_where same change rs) = map fx rs"
    using assms by (simp add: update_where_def)
  then show ?thesis by (simp add: insert_row_def)
qed

lemma prefix_insert_row_id: "prefix rs (fst (insert_row checked upsert same id ident row rs))"
  using prefix_insert_row [of same id id] by simp

lemma adds_inserts:
  "only_adds d (fst (VinInsert checked upsert vin d))"
  "only_adds d (fst (VoutInsert checked upsert vout d))"
  "only_adds d (fst (TxInsert checked upsert tx d))"
  "only_adds d (fst (AddressInsert checked upsert a d))"
  "only_adds d (fst (TicketInsert checked upsert k d))"
  "only_adds d (fst (VoteInsert checked upsert v d))"
  "only_adds d (fst (MissInsert checked upsert ms d))"
  "only_adds d (fst (BlockInsert checked b d))"
  "only_adds d (fst (TreasuryInsert checked upsert y d))"
  "only_adds d (fst (BlockPrevNextInsert r d))"
  "only_adds d (fst (UpsertStats st d))"
  by (auto simp: VinInsert_def VoutInsert_def TxInsert_def AddressInsert_def TicketInsert_def VoteInsert_def MissInsert_def
      BlockInsert_def TreasuryInsert_def BlockPrevNextInsert_def UpsertStats_def Let_def case_prod_unfold only_adds_def fixed_defs
    intro!: prefix_insert_row prefix_insert_row_id)

lemma adds_updates:
  "only_adds d (fst (SetTicketSpendingInfoForTicketDbID i h txDbID spendType status d))"
  "only_adds d (fst (SetTicketPoolStatusForTicketDbID i status d))"
  "only_adds d (fst (SetAddressMatchingTxHashForOutpoint spending funding ind m d))"
  "only_adds d (fst (UpdateVoutSpendTxRowID txDbID ids d))"
  "only_adds d (fst (UpdateBlockNext_sql i hs d))"
  "only_adds d (fst (UpdateLastBlockValid_sql i valid d))"
  "only_adds d (fst (clear_spent P d))"
  "only_adds d (fst (SetIsValidIsMainchainByTxHash valid m hs tm d))"
  "only_adds d (fst (UpdateRegularTxnsValidByBlock valid hs d))"
  "only_adds d (fst (SetAddressMainchainForVinIDs m i d))"
  "only_adds d (fst (SetAddressMainchainForVoutIDs m i d))"
  "only_adds d (fst (SetMetaDBBestBlock n hs d))"
  by (simp_all add: SetTicketSpendingInfoForTicketDbID_def SetTicketPoolStatusForTicketDbID_def SetAddressMatchingTxHashForOutpoint_def
      UpdateVoutSpendTxRowID_def UpdateBlockNext_sql_def UpdateLastBlockValid_sql_def clear_spent_def
      SetIsValidIsMainchainByTxHash_def UpdateRegularTxnsValidByBlock_def SetAddressMainchainForVinIDs_def
      SetAddressMainchainForVoutIDs_def SetMetaDBBestBlock_def Let_def only_adds_def fixed_defs map_update_where)

interpretation oa: statement_contract only_adds checked m mb for checked m mb
proof (unfold_locales, goal_cases)
  case (2 d1 d2 d3)
  then show ?case unfolding only_adds_def by (elim conjE) (intro conjI; (erule (1) prefix_order.trans | simp))
next
  case (3 d d')
  then show ?case by (simp add: only_adds_def)
qed (simp_all add: adds_inserts adds_updates, simp add: only_adds_def)

section \<open>Other blocks\<close>

definition others_kept :: "MsgBlock \<Rightarrow> bool \<Rightarrow> db \<Rightarrow> db \<Rightarrow> bool" where
  "others_kept mb m d d' \<longleftrightarrow>
    filter (\<lambda>r. t_block_hash r \<noteq> mb_Hash mb \<and> t_block_hash r \<noteq> mb_PrevBlock mb) (t_transactions d') =
      filter (\<lambda>r. t_block_hash r \<noteq> mb_Hash mb \<and> t_block_hash r \<noteq> mb_PrevBlock mb) (t_transactions d) \<and>
    filter (\<lambda>r. v_block_hash r \<noteq> mb_Hash mb) (t_votes d') = filter (\<lambda>r. v_block_hash r \<noteq> mb_Hash mb) (t_votes d) \<and>
    filter (\<lambda>r. m_block_hash r \<noteq> mb_Hash mb) (t_misses d') = filter (\<lambda>r. m_block_hash r \<noteq> mb_Hash mb) (t_misses d) \<and>
    filter (\<lambda>r. y_block_hash r \<noteq> mb_Hash mb) (t_treasury d') = filter (\<lambda>r. y_block_hash r \<noteq> mb_Hash mb) (t_treasury d) \<and>
    filter (\<lambda>r. s_height r \<noteq> mb_Height mb) (t_stats d') = filter (\<lambda>r. s_height r \<noteq> mb_Height mb) (t_stats d)"

definition side_kept :: "db \<Rightarrow> db \<Rightarrow> bool" where
  "side_kept d d' \<longleftrightarrow> t_meta d' = t_meta d \<and> t_stats d' = t_stats d \<and>
    (\<forall>r' \<in> set (t_vouts d'). o_spend_tx_row_id r' \<noteq> None \<longrightarrow>
      (\<exists>r \<in> set (t_vouts d). o_id r = o_id r' \<and> o_spend_tx_row_id r = o_spend_tx_row_id r'))"

lemma filter_insert_row:
  assumes "\<not> P row" "\<And>r. same r \<Longrightarrow> P (change r) \<longleftrightarrow> P r" "\<And>r. P r \<Longrightarrow> \<not> same r"
  shows "filter P (fst (insert_row checked upsert same change ident row rs)) = filter P rs"
proof -
  have "filter P (update_where same change rs) = filter P rs"
    using assms by (induction rs) auto
  with assms(1) show ?thesis by (simp add: insert_row_def)
qed

lemma filter_update_other:
  assumes "\<And>r. u r \<Longrightarrow> P (f r) \<longleftrightarrow> P r" "\<And>r. P r \<Longrightarrow> \<not> u r"
  shows "filter P (update_where u f rs) = filter P rs"
  using assms by (induction rs) auto

interpretation ok: statement_contract "others_kept mb m" checked m mb for checked m mb
proof (unfold_locales, goal_cases)
  case (3 d d')
  then show ?case by (simp add: others_kept_def)
qed (auto simp: others_kept_def VinInsert_def VoutInsert_def TxInsert_def AddressInsert_def TicketInsert_def VoteInsert_def
    MissInsert_def BlockInsert_def TreasuryInsert_def BlockPrevNextInsert_def UpsertStats_def
    SetTicketSpendingInfoForTicketDbID_def SetTicketPoolStatusForTicketDbID_def SetAddressMatchingTxHashForOutpoint_def
    UpdateVoutSpendTxRowID_def UpdateBlockNext_sql_def UpdateLastBlockValid_sql_def clear_spent_def
    SetIsValidIsMainchainByTxHash_def UpdateRegularTxnsValidByBlock_def SetAddressMainchainForVinIDs_def
    SetAddressMainchainForVoutIDs_def SetMetaDBBestBlock_def Let_def case_prod_unfold
    intro!: filter_insert_row filter_update_other)

lemma set_insert_row_id: "r \<in> set (fst (insert_row checked upsert same id ident row rs)) \<Longrightarrow> r = row \<or> r \<in> set rs"
  by (auto simp: insert_row_def set_update_where split: if_splits)

interpretation sk: statement_contract side_kept checked False mb for checked mb
proof (unfold_locales, goal_cases)
  case (2 d1 d2 d3)
  then show ?case unfolding side_kept_def by (metis option.distinct(1))
next
  case (3 d d')
  then show ?case by (auto simp: side_kept_def)
next
  case (5 d upsert vout)
  show ?case
    by (auto simp: side_kept_def VoutInsert_def Let_def case_prod_unfold dest!: set_insert_row_id)
next
  case (20 d)
  show ?case
    by (auto simp: side_kept_def clear_spent_def set_update_where split: if_splits)
qed (auto simp: side_kept_def VinInsert_def TxInsert_def AddressInsert_def TicketInsert_def VoteInsert_def
    MissInsert_def BlockInsert_def TreasuryInsert_def BlockPrevNextInsert_def
    SetTicketSpendingInfoForTicketDbID_def SetTicketPoolStatusForTicketDbID_def SetAddressMatchingTxHashForOutpoint_def
    UpdateBlockNext_sql_def UpdateLastBlockValid_sql_def
    SetIsValidIsMainchainByTxHash_def UpdateRegularTxnsValidByBlock_def SetAddressMainchainForVinIDs_def
    SetAddressMainchainForVoutIDs_def Let_def case_prod_unfold)

text \<open>Before the best block is set, the meta table is as it was; and main chain blocks stay.\<close>

definition meta_same :: "db \<Rightarrow> db \<Rightarrow> bool" where
  "meta_same d d' \<longleftrightarrow> t_meta d' = t_meta d"

definition main_hashes :: "db \<Rightarrow> string set" where
  "main_hashes d = b_hash ` {b \<in> set (t_blocks d). b_is_mainchain b}"

definition mains_stay :: "db \<Rightarrow> db \<Rightarrow> bool" where
  "mains_stay d d' \<longleftrightarrow> main_hashes d \<subseteq> main_hashes d'"

lemma meta_of_statements [simp]:
  "meta_same d (fst (VinInsert checked upsert vin d))" "meta_same d (fst (VoutInsert checked upsert vout d))"
  "meta_same d (fst (TxInsert checked upsert tx d))" "meta_same d (fst (AddressInsert checked upsert a d))"
  "meta_same d (fst (TicketInsert checked upsert k d))" "meta_same d (fst (VoteInsert checked upsert v d))"
  "meta_same d (fst (MissInsert checked upsert ms d))" "meta_same d (fst (BlockInsert checked b d))"
  "meta_same d (fst (TreasuryInsert checked upsert y d))" "meta_same d (fst (BlockPrevNextInsert r d))"
  "meta_same d (fst (SetTicketSpendingInfoForTicketDbID i h txDbID spendType status d))"
  "meta_same d (fst (SetTicketPoolStatusForTicketDbID i status d))"
  "meta_same d (fst (SetAddressMatchingTxHashForOutpoint spending funding ind m d))"
  "meta_same d (fst (UpdateVoutSpendTxRowID txDbID ids d))" "meta_same d (fst (UpdateBlockNext_sql i hs d))"
  "meta_same d (fst (UpdateLastBlockValid_sql i valid d))" "meta_same d (fst (clear_spent P d))"
  "meta_same d (fst (SetIsValidIsMainchainByTxHash valid m hs tm d))"
  "meta_same d (fst (UpdateRegularTxnsValidByBlock valid hs d))"
  "meta_same d (fst (SetAddressMainchainForVinIDs m i d))" "meta_same d (fst (SetAddressMainchainForVoutIDs m i d))"
  by (simp_all add: meta_same_def VinInsert_def VoutInsert_def TxInsert_def AddressInsert_def TicketInsert_def VoteInsert_def
    MissInsert_def BlockInsert_def TreasuryInsert_def BlockPrevNextInsert_def
    SetTicketSpendingInfoForTicketDbID_def SetTicketPoolStatusForTicketDbID_def SetAddressMatchingTxHashForOutpoint_def
    UpdateVoutSpendTxRowID_def UpdateBlockNext_sql_def UpdateLastBlockValid_sql_def clear_spent_def
    SetIsValidIsMainchainByTxHash_def UpdateRegularTxnsValidByBlock_def SetAddressMainchainForVinIDs_def
    SetAddressMainchainForVoutIDs_def Let_def case_prod_unfold)

interpretation ms: block_contract meta_same checked m mb for checked m mb
  by unfold_locales (simp_all, simp_all add: meta_same_def)

lemma mains_stay_blocks: "t_blocks d' = t_blocks d \<Longrightarrow> mains_stay d d'"
  by (simp add: mains_stay_def main_hashes_def)

lemma blocks_of_statements [simp]:
  "t_blocks (fst (VinInsert checked upsert vin d)) = t_blocks d" "t_blocks (fst (VoutInsert checked upsert vout d)) = t_blocks d"
  "t_blocks (fst (TxInsert checked upsert tx d)) = t_blocks d" "t_blocks (fst (AddressInsert checked upsert a d)) = t_blocks d"
  "t_blocks (fst (TicketInsert checked upsert k d)) = t_blocks d" "t_blocks (fst (VoteInsert checked upsert v d)) = t_blocks d"
  "t_blocks (fst (MissInsert checked upsert ms d)) = t_blocks d" "t_blocks (fst (TreasuryInsert checked upsert y d)) = t_blocks d"
  "t_blocks (fst (BlockPrevNextInsert r d)) = t_blocks d" "t_blocks (fst (UpsertStats st d)) = t_blocks d"
  "t_blocks (fst (SetTicketSpendingInfoForTicketDbID i h txDbID spendType status d)) = t_blocks d"
  "t_blocks (fst (SetTicketPoolStatusForTicketDbID i status d)) = t_blocks d"
  "t_blocks (fst (SetAddressMatchingTxHashForOutpoint spending funding ind m d)) = t_blocks d"
  "t_blocks (fst (UpdateVoutSpendTxRowID txDbID ids d)) = t_blocks d" "t_blocks (fst (UpdateBlockNext_sql i hs d)) = t_blocks d"
  "t_blocks (fst (clear_spent P d)) = t_blocks d" "t_blocks (fst (SetIsValidIsMainchainByTxHash valid m hs tm d)) = t_blocks d"
  "t_blocks (fst (UpdateRegularTxnsValidByBlock valid hs d)) = t_blocks d"
  "t_blocks (fst (SetAddressMainchainForVinIDs m i d)) = t_blocks d"
  "t_blocks (fst (SetAddressMainchainForVoutIDs m i d)) = t_blocks d" "t_blocks (fst (SetMetaDBBestBlock n hs d)) = t_blocks d"
  by (simp_all add: VinInsert_def VoutInsert_def TxInsert_def AddressInsert_def TicketInsert_def VoteInsert_def
    MissInsert_def TreasuryInsert_def BlockPrevNextInsert_def UpsertStats_def SetMetaDBBestBlock_def
    SetTicketSpendingInfoForTicketDbID_def SetTicketPoolStatusForTicketDbID_def SetAddressMatchingTxHashForOutpoint_def
    UpdateVoutSpendTxRowID_def UpdateBlockNext_sql_def clear_spent_def
    SetIsValidIsMainchainByTxHash_def UpdateRegularTxnsValidByBlock_def SetAddressMainchainForVinIDs_def
    SetAddressMainchainForVoutIDs_def Let_def case_prod_unfold)

lemma in_main_hashes: "h \<in> main_hashes d \<longleftrightarrow> (\<exists>b \<in> set (t_blocks d). b_hash b = h \<and> b_is_mainchain b)"
  by (auto simp: main_hashes_def)

lemma mains_stay_update:
  assumes "t_blocks d' = update_where P f (t_blocks d)" "\<And>r. b_hash (f r) = b_hash r"
    "\<And>r. b_is_mainchain r \<Longrightarrow> b_is_mainchain (f r)"
  shows "mains_stay d d'"
  unfolding mains_stay_def subset_iff in_main_hashes assms(1)
proof (intro allI impI, elim bexE conjE)
  fix h b assume b: "b \<in> set (t_blocks d)" "b_hash b = h" "b_is_mainchain b"
  show "\<exists>b \<in> set (update_where P f (t_blocks d)). b_hash b = h \<and> b_is_mainchain b"
    by (rule bexI [where x = "if P b then f b else b"]) (use b assms(2,3) in \<open>auto simp: update_where_def\<close>)
qed

lemma mains_BlockInsert: "b_is_mainchain b \<Longrightarrow> mains_stay d (fst (BlockInsert checked b d))"
  by (cases "checked \<and> filter (\<lambda>r. b_hash r = b_hash b) (t_blocks d) \<noteq> []")
    (auto simp: BlockInsert_def insert_row_def Let_def intro: mains_stay_update, auto simp: mains_stay_def main_hashes_def)

lemma mains_last_valid: "mains_stay d (fst (UpdateLastBlockValid_sql i valid d))"
  by (rule mains_stay_update [where f = "\<lambda>r. r\<lparr>b_is_valid := valid\<rparr>" and P = "\<lambda>r. b_id r = i"])
    (simp_all add: UpdateLastBlockValid_sql_def)

interpretation mm: statement_contract mains_stay checked True mb for checked mb
proof (unfold_locales, goal_cases)
  case (2 d1 d2 d3)
  then show ?case by (auto simp: mains_stay_def)
next
  case (3 d d')
  then show ?case by (simp add: mains_stay_def main_hashes_def)
next
  case (16 b d)
  then show ?case by (simp add: mains_BlockInsert)
qed (simp_all add: mains_stay_blocks mains_last_valid)

section \<open>The best block\<close>

lemma BlockInsert_main: "b_is_mainchain b \<Longrightarrow> b_hash b \<in> main_hashes (fst (BlockInsert checked b d))"
proof (cases "checked \<and> filter (\<lambda>r. b_hash r = b_hash b) (t_blocks d) \<noteq> []")
  case True
  assume b: "b_is_mainchain b"
  from True obtain r where "r \<in> set (t_blocks d)" "b_hash r = b_hash b"
    by (auto simp: filter_empty_conv)
  then have "r\<lparr>b_is_valid := b_is_valid b, b_is_mainchain := True\<rparr> \<in> set (t_blocks (fst (BlockInsert checked b d)))"
    using True b by (auto simp: BlockInsert_def insert_row_def Let_def set_update_where intro!: bexI [of _ r])
  then show ?thesis
    unfolding in_main_hashes by (rule bexI [rotated]) (simp add: \<open>b_hash r = b_hash b\<close>)
next
  case False
  assume "b_is_mainchain b"
  with False show ?thesis
    by (auto simp: in_main_hashes BlockInsert_def insert_row_def Let_def)
qed

lemma insert_block_main:
  assumes "insert_the_block b p = (p', Inr i)" "b_is_mainchain b"
  shows "b_hash b \<in> main_hashes (data (db_conn p'))"
proof -
  have "b_hash b \<in> main_hashes d'" if "BlockInsert checked b d = (d', x)" for checked d d' x
    using BlockInsert_main [OF assms(2)] that by (metis fst_conv)
  then show ?thesis
    using assms(1) by (auto simp: insert_the_block_def InsertBlock_def on_db_def db_bind_def query_row_def exec_def case_prod_unfold
      split: prod.splits sum.splits if_splits)
qed

definition blocks_same :: "db \<Rightarrow> db \<Rightarrow> bool" where
  "blocks_same d d' \<longleftrightarrow> t_blocks d' = t_blocks d"

interpretation bs: table_relation blocks_same
  by unfold_locales (simp_all add: blocks_same_def)

lemma store_block_row_main:
  assumes "store_block_row mb isValid True winners ids sids p = (p', Inr i)"
  shows "mb_Hash mb \<in> main_hashes (data (db_conn p'))"
proof -
  obtain p1 j where 1: "insert_the_block \<lparr>b_id = 0, b_hash = mb_Hash mb, b_height = mb_Height mb, b_is_valid = isValid,
      b_is_mainchain = True, b_txDbIDs = ids, b_stxDbIDs = sids, b_previous_hash = mb_PrevBlock mb, b_winners = winners\<rparr> p
      = (p1, Inr j)"
    "db_bind (on_db (but_no_rows () (InsertBlockPrevNext j (mb_Hash mb) (mb_PrevBlock mb) []))) (\<lambda>_. db_return j) p1 = (p', Inr i)"
    by (rule db_bindE [OF assms [unfolded store_block_row_def]])
  obtain p2 where "on_db (but_no_rows () (InsertBlockPrevNext j (mb_Hash mb) (mb_PrevBlock mb) [])) p1 = (p2, Inr ())" "p' = p2"
    by (rule db_bindE [OF 1(2)]) (simp add: db_return_def)
  moreover have "within blocks_same (but_no_rows () (InsertBlockPrevNext j h h' n))" for h h' n
    unfolding InsertBlockPrevNext_def
    by (auto simp: blocks_same_def intro!: bs.within_but_no_rows bs.within_bind bs.within_exec bs.within_return)
  ultimately have "t_blocks (data (db_conn p')) = t_blocks (data (db_conn p1))"
    using withinD by (fastforce simp: on_db_def blocks_same_def split: prod.splits)
  then show ?thesis
    using insert_block_main [OF 1(1)] by (simp add: main_hashes_def)
qed

text \<open>The steps of \<open>StoreBlock\<close> after the trees, up to the best block.\<close>

definition link_block :: "MsgBlock \<Rightarrow> bool \<Rightarrow> bool \<Rightarrow> string list \<Rightarrow> int \<Rightarrow> nat list \<Rightarrow> nat list \<Rightarrow> ('c, nat) chain_op" where
  "link_block mb isValid isMainchain winners mix ids sids =
    db_bind (set_mix_diff (mb_Height mb) isMainchain mix) (\<lambda>_.
    db_bind (store_block_row mb isValid isMainchain winners ids sids) (\<lambda>blockDbID.
    db_bind (update_last mb isMainchain) (\<lambda>_. db_return blockDbID)))"

lemma db_bind_assoc: "db_bind (db_bind q f) g = db_bind q (\<lambda>x. db_bind (f x) g)"
  by (rule ext) (simp add: db_bind_def split: prod.split sum.split)

lemma db_bind_return: "db_bind (db_return x) f = f x"
  by (rule ext) (simp add: db_bind_def db_return_def)

lemma StoreBlock_stages:
  assumes "pool_infos sv mb m = Inr (tpi, lastTpi)"
  shows "StoreBlock stakeFirst sv mb isValid m upsert upd =
    db_bind (store_trees stakeFirst (\<lambda>tree. storeBlockTxnTree sv mb (winners_of lastTpi) tree isValid m upsert upd)) (\<lambda>((ids, as, mix1), (sids, sas, mix2)).
    db_bind (link_block mb isValid m (winners_of tpi) (mix1 + mix2) ids sids) (\<lambda>blockDbID.
    db_bind (if m then finish_main mb blockDbID (the tpi) else db_return ()) (\<lambda>_. clear_addresses (remdups (as @ sas)))))"
  by (simp add: StoreBlock_def assms link_block_def db_bind_assoc db_bind_return case_prod_unfold cong: if_cong)

context block_contract
begin

lemma op_within_link_block: "op_within R checked B (link_block mb isValid m winners mix ids sids)"
proof -
  have "op_within R checked B (set_mix_diff h m d)" for h d
    by (rule op_within_pure; simp add: set_mix_diff_def caches_wfD)
  then show ?thesis
    unfolding link_block_def by (intro op_within_bind op_within_block_row op_within_update_last op_within_return)
qed

end

lemma link_block_main:
  assumes "link_block mb isValid True winners mix ids sids p = (p', Inr i)" "db_dupChecks p = checked"
  shows "mb_Hash mb \<in> main_hashes (data (db_conn p'))"
proof -
  obtain p1 where 1: "set_mix_diff (mb_Height mb) True mix p = (p1, Inr ())"
      "db_bind (store_block_row mb isValid True winners ids sids) (\<lambda>blockDbID.
        db_bind (update_last mb True) (\<lambda>_. db_return blockDbID)) p1 = (p', Inr i)"
    by (rule db_bindE [OF assms(1) [unfolded link_block_def]]) simp
  obtain p2 j where 2: "store_block_row mb isValid True winners ids sids p1 = (p2, Inr j)"
      "db_bind (update_last mb True) (\<lambda>_. db_return j) p2 = (p', Inr i)"
    by (rule db_bindE [OF 1(2)])
  obtain p3 where 3: "update_last mb True p2 = (p3, Inr ())" "p' = p3"
    by (rule db_bindE [OF 2(2)]) (simp add: db_return_def)
  have "db_dupChecks p1 = checked"
    using 1(1) assms(2) by (auto simp: set_mix_diff_def)
  then have "db_dupChecks p2 = checked"
    by (rule op_step_checked [OF op_withinD [OF ms.op_within_block_row 2(1)]])
  then have "mains_stay (data (db_conn p2)) (data (db_conn p3))"
    using op_withinD [OF mm.op_within_update_last 3(1)] by (simp add: op_step_def)
  then show ?thesis
    using store_block_row_main [OF 2(1)] 3(2) by (auto simp: mains_stay_def)
qed

definition best_ok :: "MsgBlock \<Rightarrow> bool \<Rightarrow> 'c ChainDB \<Rightarrow> 'c ChainDB \<Rightarrow> bool" where
  "best_ok mb m p p' \<longleftrightarrow>
    bb_height p' = bb_height p \<and> bb_hash p' = bb_hash p \<and> t_meta (data (db_conn p')) = t_meta (data (db_conn p)) \<or>
    m \<and> bb_height p' = mb_Height mb \<and> bb_hash p' = mb_Hash mb \<and> mb_Hash mb \<in> main_hashes (data (db_conn p'))"

lemma clear_addresses_simps [simp]:
  "db_conn (fst (clear_addresses as p)) = db_conn p" "bb_height (fst (clear_addresses as p)) = bb_height p"
  "bb_hash (fst (clear_addresses as p)) = bb_hash p" "db_dupChecks (fst (clear_addresses as p)) = db_dupChecks p"
  by (simp_all add: clear_addresses_def)

text \<open>
  Whatever fails on the way, \<open>StoreBlock\<close> leaves the best block of memory and of the meta table as they were,
  or it is the stored block that is best in memory, on the main chain, and its row is in the table of blocks:
  the best block never is one that the tables do not have.
\<close>

theorem StoreBlock_best: "best_ok mb m p (fst (StoreBlock stakeFirst sv mb isValid m upsert upd p))"
proof (cases "pool_infos sv mb m")
  case (Inl e)
  then show ?thesis by (simp add: StoreBlock_def best_ok_def db_fail_def)
next
  case (Inr x)
  obtain tpi lastTpi where x: "x = (tpi, lastTpi)" by fastforce
  define checked where "checked = db_dupChecks p"
  have untouched: "best_ok mb m p p'" if "op_step meta_same checked None p p'" for p'
    using that by (simp add: best_ok_def op_step_def meta_same_def)
  let ?trees = "store_trees stakeFirst (\<lambda>tree. storeBlockTxnTree sv mb (winners_of lastTpi) tree isValid m upsert upd)"
  have trees: "op_within meta_same checked None ?trees"
    by (intro ms.op_within_trees ms.op_within_tree)
  obtain p1 r1 where t: "?trees p = (p1, r1)" by fastforce
  have 1: "op_step meta_same checked None p p1"
    using op_withinD [OF trees t] by (simp add: checked_def)
  show ?thesis
  proof (cases r1)
    case Err: (Inl e)
    show ?thesis
      unfolding StoreBlock_stages [OF Inr [unfolded x]] db_bind_Inl [of ?trees p, OF t [unfolded Err]] using untouched [OF 1] by simp
  next
    case Res: (Inr y)
    obtain ids as mix1 sids sas mix2 where y: "y = ((ids, as, mix1), (sids, sas, mix2))" by (metis prod_cases3 surj_pair)
    let ?link = "link_block mb isValid m (winners_of tpi) (mix1 + mix2) ids sids"
    obtain p2 r2 where l: "?link p1 = (p2, r2)" by fastforce
    have 2: "op_step meta_same checked None p p2"
      using ms.op_step_trans [OF 1 op_withinD [OF ms.op_within_link_block l op_step_checked [OF 1]]] .
    note stages = StoreBlock_stages [OF Inr [unfolded x]] db_bind_Inr [of ?trees p, OF t [unfolded Res]] y prod.case
    show ?thesis
    proof (cases r2)
      case (Inl e)
      show ?thesis
        unfolding stages db_bind_Inl [of ?link p1, OF l [unfolded Inl]] using untouched [OF 2] by simp
    next
      case Linked: (Inr i)
      let ?fin = "if m then finish_main mb i (the tpi) else db_return ()"
      have "best_ok mb m p (fst (?fin p2))"
      proof (cases m)
        case False
        then show ?thesis
          using untouched [OF 2] by (simp add: db_return_def)
      next
        case True
        have f: "op_within mains_stay checked (Some (mb_Height mb, mb_Hash mb)) (finish_main mb i (the tpi))"
          using Inr x True by (auto intro!: mm.op_within_finish dest: pool_infos_main)
        have "mb_Hash mb \<in> main_hashes (data (db_conn p2))"
          using l Linked True by (auto intro: link_block_main [OF _ op_step_checked [OF 1]])
        moreover have "mains_stay (data (db_conn p2)) (data (db_conn (fst (finish_main mb i (the tpi) p2))))"
          using op_withinD [OF f _ op_step_checked [OF 2]] by (metis op_step_def prod.collapse)
        ultimately show ?thesis
          using True finish_best [of mb i "the tpi" p2] by (auto simp: best_ok_def mains_stay_def)
      qed
      then show ?thesis
        unfolding stages db_bind_Inr [of ?link p1, OF l [unfolded Linked]]
        by (cases "?fin p2") (auto simp: db_bind_def best_ok_def split: sum.split)
    qed
  qed
qed

lemma StoreBlock_done:
  assumes "StoreBlock stakeFirst sv mb isValid m upsert upd p = (p', Inr ())"
  obtains tpi lastTpi p1 ids as mix1 sids sas mix2 p2 i p3 where
    "pool_infos sv mb m = Inr (tpi, lastTpi)"
    "store_trees stakeFirst (\<lambda>tree. storeBlockTxnTree sv mb (winners_of lastTpi) tree isValid m upsert upd) p =
      (p1, Inr ((ids, as, mix1), (sids, sas, mix2)))"
    "link_block mb isValid m (winners_of tpi) (mix1 + mix2) ids sids p1 = (p2, Inr i)"
    "(if m then finish_main mb i (the tpi) else db_return ()) p2 = (p3, Inr ())"
    "p' = fst (clear_addresses (remdups (as @ sas)) p3)"
proof (cases "pool_infos sv mb m")
  case (Inl e)
  with assms show ?thesis by (simp add: StoreBlock_def db_fail_def)
next
  case (Inr x)
  obtain tpi lastTpi where x: "x = (tpi, lastTpi)" by fastforce
  obtain p1 y where 1: "store_trees stakeFirst (\<lambda>tree. storeBlockTxnTree sv mb (winners_of lastTpi) tree isValid m upsert upd) p =
      (p1, Inr y)"
    and r: "(\<lambda>((ids, as, mix1), (sids, sas, mix2)).
      db_bind (link_block mb isValid m (winners_of tpi) (mix1 + mix2) ids sids) (\<lambda>blockDbID.
      db_bind (if m then finish_main mb blockDbID (the tpi) else db_return ()) (\<lambda>_. clear_addresses (remdups (as @ sas))))) y p1 = (p', Inr ())"
    by (rule db_bindE [OF assms [unfolded StoreBlock_stages [OF Inr [unfolded x]]]])
  obtain ids as mix1 sids sas mix2 where y: "y = ((ids, as, mix1), (sids, sas, mix2))" by (metis prod_cases3 surj_pair)
  obtain p2 i where 2: "link_block mb isValid m (winners_of tpi) (mix1 + mix2) ids sids p1 = (p2, Inr i)"
    and r2: "db_bind (if m then finish_main mb i (the tpi) else db_return ()) (\<lambda>_. clear_addresses (remdups (as @ sas))) p2 = (p', Inr ())"
    by (rule db_bindE [OF r [unfolded y prod.case]])
  obtain p3 u where 3: "(if m then finish_main mb i (the tpi) else db_return ()) p2 = (p3, Inr u)"
    and r3: "clear_addresses (remdups (as @ sas)) p3 = (p', Inr ())"
    by (rule db_bindE [OF r2])
  show ?thesis
  proof (rule that [OF Inr [unfolded x] 1 [unfolded y] 2])
    show "(if m then finish_main mb i (the tpi) else db_return ()) p2 = (p3, Inr ())"
      using 3 by simp
    show "p' = fst (clear_addresses (remdups (as @ sas)) p3)"
      unfolding r3 by simp
  qed
qed

lemma on_dbE:
  assumes "on_db q p = (p', Inr x)"
  obtains c where "q (db_conn p) = (c, Inr x)" "p' = p\<lparr>db_conn := c\<rparr>"
  using assms by (auto simp: on_db_def split: prod.splits)

lemma exec_result: "exec stmt c = (c', Inr x) \<Longrightarrow> stmt (data c) = (data c', x)"
  by (auto simp: exec_def split: prod.splits if_splits)

lemma UpsertStats_height: "s_height st \<in> s_height ` set (t_stats (fst (UpsertStats st d)))"
  by (cases "filter (\<lambda>r. s_height r = s_height st) (t_stats d) = []")
    (force simp: UpsertStats_def insert_row_def set_update_where filter_empty_conv)+

lemma finish_main_done:
  assumes "finish_main mb i tpi p = (p', Inr ())" "pi_Height tpi = mb_Height mb"
  shows "t_meta (data (db_conn p')) = [\<lparr>best_block_height = mb_Height mb, best_block_hash = mb_Hash mb\<rparr>]"
    "mb_Height mb \<in> s_height ` set (t_stats (data (db_conn p')))"
proof -
  obtain p1 u where 1: "on_db (InsertBlockStats i (pi_Height tpi) (pi_Size tpi) (pi_Value tpi))
        (p\<lparr>bb_height := mb_Height mb, bb_hash := mb_Hash mb\<rparr>) = (p1, Inr u)"
      "on_db (SetDBBestBlock (mb_Hash mb) (mb_Height mb)) p1 = (p', Inr ())"
    using assms(1) unfolding finish_main_def set_best_def by (auto elim!: db_bindE)
  obtain c1 where c1: "InsertBlockStats i (pi_Height tpi) (pi_Size tpi) (pi_Value tpi) (db_conn p) = (c1, Inr u)" "db_conn p1 = c1"
    by (rule on_dbE [OF 1(1)]) simp
  obtain c2 where c2: "SetDBBestBlock (mb_Hash mb) (mb_Height mb) c1 = (c2, Inr ())" "db_conn p' = c2"
    by (rule on_dbE [OF 1(2)]) (simp add: c1(2))
  obtain n where n: "exec (SetMetaDBBestBlock (mb_Height mb) (mb_Hash mb)) c1 = (c2, Inr n)" "n = 1"
    using c2(1) unfolding SetDBBestBlock_def by (auto elim!: sql_bindE split: if_splits)
  have m: "SetMetaDBBestBlock (mb_Height mb) (mb_Hash mb) (data c1) = (data c2, 1)"
    using exec_result [OF n(1)] n(2) by simp
  then obtain r where "t_meta (data c1) = [r]"
    by (auto simp: SetMetaDBBestBlock_def length_Suc_conv)
  moreover have d2: "data c2 = fst (SetMetaDBBestBlock (mb_Height mb) (mb_Hash mb) (data c1))"
    using m by simp
  ultimately show "t_meta (data (db_conn p')) = [\<lparr>best_block_height = mb_Height mb, best_block_hash = mb_Hash mb\<rparr>]"
    by (cases r) (simp add: SetMetaDBBestBlock_def c2(2))
  have "s_height \<lparr>s_blocks_id = i, s_height = pi_Height tpi, s_pool_size = pi_Size tpi, s_pool_val = pi_Value tpi\<rparr>
      \<in> s_height ` set (t_stats (data c1))"
    using exec_result [OF c1(1) [unfolded InsertBlockStats_def]] UpsertStats_height by (metis fst_conv)
  moreover have "t_stats (data c2) = t_stats (data c1)"
    by (simp add: d2 SetMetaDBBestBlock_def)
  ultimately show "mb_Height mb \<in> s_height ` set (t_stats (data (db_conn p')))"
    using assms(2) by (simp add: c2(2))
qed

lemma StoreBlock_makes_tip:
  assumes "StoreBlock stakeFirst sv mb isValid True upsert upd p = (p', Inr ())"
  shows "bb_height p' = mb_Height mb \<and> bb_hash p' = mb_Hash mb \<and>
    t_meta (data (db_conn p')) = [\<lparr>best_block_height = mb_Height mb, best_block_hash = mb_Hash mb\<rparr>] \<and>
    mb_Hash mb \<in> main_hashes (data (db_conn p')) \<and> mb_Height mb \<in> s_height ` set (t_stats (data (db_conn p')))"
proof (rule StoreBlock_done [OF assms])
  fix tpi lastTpi p1 ids as mix1 sids sas mix2 p2 i p3
  assume pool: "pool_infos sv mb True = Inr (tpi, lastTpi)"
    and trees: "store_trees stakeFirst (\<lambda>tree. storeBlockTxnTree sv mb (winners_of lastTpi) tree isValid True upsert upd) p =
      (p1, Inr ((ids, as, mix1), (sids, sas, mix2)))"
    and link: "link_block mb isValid True (winners_of tpi) (mix1 + mix2) ids sids p1 = (p2, Inr i)"
    and fin: "(if True then finish_main mb i (the tpi) else db_return ()) p2 = (p3, Inr ())"
    and p': "p' = fst (clear_addresses (remdups (as @ sas)) p3)"
  have fin': "finish_main mb i (the tpi) p2 = (p3, Inr ())" using fin by simp
  have best: "bb_height p3 = mb_Height mb \<and> bb_hash p3 = mb_Hash mb"
    using finish_best [of mb i "the tpi" p2] fin' by simp
  have t: "pi_Height (the tpi) = mb_Height mb"
    by (rule pool_infos_main [OF pool])
  have c1: "db_dupChecks p1 = db_dupChecks p"
    by (rule op_step_checked [OF op_withinD [OF ms.op_within_trees [OF ms.op_within_tree] trees]]) simp
  have c2: "db_dupChecks p2 = db_dupChecks p"
    by (rule op_step_checked [OF op_withinD [OF ms.op_within_link_block link c1]])
  have "mains_stay (data (db_conn p2)) (data (db_conn p3))"
    using op_withinD [OF mm.op_within_finish [OF _ t] fin' c2] by (simp add: op_step_def)
  then have "mb_Hash mb \<in> main_hashes (data (db_conn p3))"
    using link_block_main [OF link c1] by (auto simp: mains_stay_def)
  then show ?thesis
    using best finish_main_done [OF fin' t] by (simp add: p')
qed

text \<open>
  C7. A main chain block that was stored without an error is the best block of memory and of the one row of the
  meta table, has a main chain row in the table of blocks, and a row of statistics for its height.
\<close>

theorem StoreBlock_tip:
  assumes "StoreBlock stakeFirst sv mb isValid True upsert upd p = (p', Inr ())"
  shows "bb_height p' = mb_Height mb \<and> bb_hash p' = mb_Hash mb \<and>
    t_meta (data (db_conn p')) = [\<lparr>best_block_height = mb_Height mb, best_block_hash = mb_Hash mb\<rparr>] \<and>
    mb_Hash mb \<in> main_hashes (data (db_conn p')) \<and> mb_Height mb \<in> s_height ` set (t_stats (data (db_conn p')))"
  by (rule StoreBlock_makes_tip [OF assms])

section \<open>What storing keeps\<close>



text \<open>
  Storing a block leaves the transactions of all blocks but it and its parent, and the votes, misses, treasury
  rows and statistics of all other blocks exactly as they were; and a side chain block changes neither the
  best block nor the statistics, and marks no output as spent.
\<close>

theorem StoreBlock_other_blocks:
  "others_kept mb m (data (db_conn p)) (data (db_conn (fst (StoreBlock stakeFirst sv mb isValid m upsert upd p)))) \<and>
    side_kept (data (db_conn p)) (data (db_conn (fst (StoreBlock stakeFirst sv mb isValid False upsert upd p))))"
  by (rule conjI [OF ok.StoreBlock_R [OF HOL.refl] sk.StoreBlock_R [OF HOL.refl]])


end
