(* ===== verification/ChainStoreRows.thy ===== *)
theory ChainStoreRows
  imports ChainStoreContract
begin

text \<open>
  What the rows of a stored block say: the identifiers that a transaction lists are those of the rows of its
  inputs and outputs.
\<close>

section \<open>Identifiers\<close>

definition vout_stored :: "db \<Rightarrow> nat \<Rightarrow> Vout \<Rightarrow> bool" where
  "vout_stored d i vout \<longleftrightarrow> (\<exists>r \<in> set (t_vouts d). o_id r = i \<and> vout_key r = (vo_TxHash vout, vo_TxIndex vout, vo_TxTree vout))"

definition vin_stored :: "db \<Rightarrow> nat \<Rightarrow> VinTxProperty \<Rightarrow> bool" where
  "vin_stored d i vin \<longleftrightarrow> (\<exists>r \<in> set (t_vins d). i_id r = i \<and> vin_key r = (vi_TxID vin, vi_TxIndex vin, vi_TxTree vin))"

definition tx_stored :: "db \<Rightarrow> nat \<Rightarrow> Tx \<Rightarrow> bool" where
  "tx_stored d i tx \<longleftrightarrow> (\<exists>r \<in> set (t_transactions d). t_id r = i \<and> t_tx_hash r = tx_TxID tx \<and> t_block_hash r = tx_BlockHash tx)"

lemma prefix_ex:
  assumes "prefix (map fx rs) (map fx rs')" "r \<in> set rs"
  obtains r' where "r' \<in> set rs'" "fx r' = fx r"
proof -
  have "fx r \<in> set (map fx rs')"
    using set_mono_prefix [OF assms(1)] assms(2) by auto
  then show ?thesis using that by auto
qed

lemma stored_mono:
  assumes "only_adds d d'"
  shows "vout_stored d i vout \<Longrightarrow> vout_stored d' i vout" "vin_stored d j vin \<Longrightarrow> vin_stored d' j vin"
    "tx_stored d k tx \<Longrightarrow> tx_stored d' k tx"
proof -
  have p: "prefix (map vout_fixed (t_vouts d)) (map vout_fixed (t_vouts d'))"
    "prefix (map vin_fixed (t_vins d)) (map vin_fixed (t_vins d'))"
    "prefix (map tx_fixed (t_transactions d)) (map tx_fixed (t_transactions d'))"
    using assms by (simp_all add: only_adds_def)
  have o: "o_id r' = o_id r \<and> vout_key r' = vout_key r" if "vout_fixed r' = vout_fixed r" for r r'
    using arg_cong [OF that, of o_id] arg_cong [OF that, of vout_key] by (simp add: vout_fixed_def vout_key_def)
  have i: "i_id r' = i_id r \<and> vin_key r' = vin_key r" if "vin_fixed r' = vin_fixed r" for r r'
    using arg_cong [OF that, of i_id] arg_cong [OF that, of vin_key] by (simp add: vin_fixed_def vin_key_def)
  have t: "t_id r' = t_id r \<and> t_tx_hash r' = t_tx_hash r \<and> t_block_hash r' = t_block_hash r" if "tx_fixed r' = tx_fixed r" for r r'
    using arg_cong [OF that, of t_id] arg_cong [OF that, of t_tx_hash] arg_cong [OF that, of t_block_hash] by (simp add: tx_fixed_def)
  show "vout_stored d i vout \<Longrightarrow> vout_stored d' i vout"
    unfolding vout_stored_def using prefix_ex [OF p(1)] o by metis
  show "vin_stored d j vin \<Longrightarrow> vin_stored d' j vin"
    unfolding vin_stored_def using prefix_ex [OF p(2)] i by metis
  show "tx_stored d k tx \<Longrightarrow> tx_stored d' k tx"
    unfolding tx_stored_def using prefix_ex [OF p(3)] t by metis
qed

text \<open>A statement for one row answers with the identifier of a row with its key.\<close>

lemma insert_row_answer:
  assumes "\<And>r. ident (change r) = ident r" "same row" "\<And>r. same r \<Longrightarrow> same (change r)"
  shows "\<exists>i. snd (insert_row checked upsert same change ident row rs) = [i] \<and>
    (\<exists>r \<in> set (fst (insert_row checked upsert same change ident row rs)). ident r = i \<and> same r)"
proof (cases "checked \<and> filter same rs \<noteq> []")
  case True
  then obtain r rest where r: "filter same rs = r # rest" by (cases "filter same rs") auto
  then have "r \<in> set (filter same rs)" by simp
  then have m: "r \<in> set rs" "same r" by simp_all
  show ?thesis
  proof (cases upsert)
    case True
    have "change r \<in> set (update_where same change rs)"
      using m by (auto simp: set_update_where intro!: bexI [of _ r])
    then show ?thesis
      using \<open>checked \<and> _\<close> True r m assms(1,3) by (auto simp: insert_row_def intro!: bexI [of _ "change r"])
  next
    case False
    then show ?thesis
      using \<open>checked \<and> _\<close> r m by (auto simp: insert_row_def)
  qed
next
  case False
  then show ?thesis
    using assms(2) by (auto simp: insert_row_def)
qed

lemma query_row_one:
  assumes "query_row stmt c = (c', r)" "snd (stmt (data c)) = [i]"
  shows "r \<noteq> Inl ErrNoRows" "r = Inr j \<Longrightarrow> j = i \<and> data c' = fst (stmt (data c))"
  using assms by (auto simp: query_row_def exec_def split: prod.splits if_splits)

lemma vout_insert_stored:
  assumes "query_row (VoutInsert checked upsert vout) c = (c', r)"
  shows "r \<noteq> Inl ErrNoRows" "r = Inr i \<Longrightarrow> vout_stored (data c') i vout"
proof -
  obtain j where j: "snd (VoutInsert checked upsert vout (data c)) = [j]" "vout_stored (fst (VoutInsert checked upsert vout (data c))) j vout"
    using insert_row_answer [of o_id id "\<lambda>r. o_tx_hash r = vo_TxHash vout \<and> o_tx_index r = vo_TxIndex vout \<and> o_tx_tree r = vo_TxTree vout"
      "\<lparr>o_id = next_vout (seqs (data c)), o_tx_hash = vo_TxHash vout, o_tx_index = vo_TxIndex vout, o_tx_tree = vo_TxTree vout,
           o_value = vo_Value vout, o_script_addresses = vo_Addresses vout, o_mixed = vo_Mixed vout, o_spend_tx_row_id = None\<rparr>"
      checked upsert "t_vouts (data c)"]
    by (auto simp: VoutInsert_def Let_def case_prod_unfold vout_stored_def vout_key_def)
  show "r \<noteq> Inl ErrNoRows" "r = Inr i \<Longrightarrow> vout_stored (data c') i vout"
    using query_row_one [OF assms j(1)] j(2) by auto
qed

lemma vin_insert_stored:
  assumes "query_row (VinInsert checked upsert vin) c = (c', r)"
  shows "r = Inr i \<Longrightarrow> vin_stored (data c') i vin"
proof -
  let ?row = "\<lparr>i_id = next_vin (seqs (data c)), i_tx_hash = vi_TxID vin, i_tx_index = vi_TxIndex vin, i_tx_tree = vi_TxTree vin,
    i_is_valid = vi_IsValid vin, i_is_mainchain = vi_IsMainchain vin, i_block_time = vi_Time vin,
    i_prev_tx_hash = vi_PrevTxHash vin, i_prev_tx_index = vi_PrevTxIndex vin, i_prev_tx_tree = vi_PrevTxTree vin,
    i_value_in = vi_ValueIn vin, i_tx_type = vi_TxType vin\<rparr>"
  obtain j where j: "snd (VinInsert checked upsert vin (data c)) = [j]" "vin_stored (fst (VinInsert checked upsert vin (data c))) j vin"
    using insert_row_answer [of i_id "\<lambda>r. r\<lparr>i_is_valid := vi_IsValid vin, i_is_mainchain := vi_IsMainchain vin,
        i_block_time := vi_Time vin, i_prev_tx_hash := vi_PrevTxHash vin, i_prev_tx_index := vi_PrevTxIndex vin,
        i_prev_tx_tree := vi_PrevTxTree vin\<rparr>"
      "\<lambda>r. i_tx_hash r = vi_TxID vin \<and> i_tx_index r = vi_TxIndex vin \<and> i_tx_tree r = vi_TxTree vin" ?row
      checked upsert "t_vins (data c)"]
    by (auto simp: VinInsert_def Let_def case_prod_unfold vin_stored_def vin_key_def)
  show "r = Inr i \<Longrightarrow> vin_stored (data c') i vin"
    using query_row_one [OF assms j(1)] j(2) by auto
qed

lemma tx_insert_stored:
  assumes "query_row (TxInsert checked upsert tx) c = (c', r)"
  shows "r \<noteq> Inl ErrNoRows" "r = Inr i \<Longrightarrow> tx_stored (data c') i tx"
proof -
  let ?row = "\<lparr>t_id = next_tx (seqs (data c)), t_block_hash = tx_BlockHash tx, t_block_height = tx_BlockHeight tx,
           t_block_time = tx_BlockTime tx, t_tx_type = tx_TxType tx, t_tree = tx_Tree tx, t_tx_hash = tx_TxID tx,
           t_block_index = tx_BlockIndex tx, t_mix_count = tx_MixCount tx, t_mix_denom = tx_MixDenom tx,
           t_vin_db_ids = tx_VinDbIds tx, t_vout_db_ids = tx_VoutDbIds tx, t_is_valid = tx_IsValid tx,
           t_is_mainchain = tx_IsMainchainBlock tx\<rparr>"
  obtain j where j: "snd (TxInsert checked upsert tx (data c)) = [j]" "tx_stored (fst (TxInsert checked upsert tx (data c))) j tx"
    using insert_row_answer [of t_id "\<lambda>r. r\<lparr>t_is_valid := tx_IsValid tx, t_is_mainchain := tx_IsMainchainBlock tx\<rparr>"
      "\<lambda>r. t_tx_hash r = tx_TxID tx \<and> t_block_hash r = tx_BlockHash tx" ?row checked upsert "t_transactions (data c)"]
    by (auto simp: TxInsert_def Let_def case_prod_unfold tx_stored_def)
  show "r \<noteq> Inl ErrNoRows" "r = Inr i \<Longrightarrow> tx_stored (data c') i tx"
    using query_row_one [OF assms j(1)] j(2) by auto
qed

text \<open>Many rows; the statements of one do not take away what those of another stored.\<close>

lemma InsertVouts_stored:
  "InsertVoutsStmt checked upsert vouts c = (c', Inr (ids, rs)) \<Longrightarrow> list_all2 (vout_stored (data c')) ids vouts"
  "InsertVoutsStmt checked upsert vouts c \<noteq> (c', Inl ErrNoRows)"
proof -
  have "(\<forall>ids rs. r = Inr (ids, rs) \<longrightarrow> list_all2 (vout_stored (data c')) ids vouts) \<and> r \<noteq> Inl ErrNoRows"
    if "InsertVoutsStmt checked upsert vouts c = (c', r)" for c' r
    using that
  proof (induction vouts arbitrary: c c' r)
    case (Cons vout vouts)
    obtain c1 r1 where 1: "query_row (VoutInsert checked upsert vout) c = (c1, r1)" by fastforce
    obtain c2 r2 where 2: "InsertVoutsStmt checked upsert vouts c1 = (c2, r2)" by fastforce
    have oa: "only_adds (data c1) (data c2)"
      using withinD [OF oa.within_vouts 2] .
    show ?case
      using Cons.prems Cons.IH [OF 2] vout_insert_stored [OF 1] stored_mono(1) [OF oa]
      by (auto simp: 1 2 sql_bind_def split: sum.splits sql_error.splits prod.splits)
  qed auto
  then show "InsertVoutsStmt checked upsert vouts c = (c', Inr (ids, rs)) \<Longrightarrow> list_all2 (vout_stored (data c')) ids vouts"
    "InsertVoutsStmt checked upsert vouts c \<noteq> (c', Inl ErrNoRows)" by blast+
qed

lemma InsertVins_stored:
  "InsertVinsStmt checked upsert vins c = (c', ids, None) \<Longrightarrow> list_all2 (vin_stored (data c')) ids vins"
proof (induction vins arbitrary: c c' ids)
  case (Cons vin vins)
  obtain c1 r1 where 1: "query_row (VinInsert checked upsert vin) c = (c1, r1)" by fastforce
  obtain c2 ids2 e2 where 2: "InsertVinsStmt checked upsert vins c1 = (c2, ids2, e2)" by (metis prod_cases3)
  have oa: "only_adds (data c1) (data c2)"
    using withinD [OF oa.within_vins 2] by simp
  show ?case
    using Cons.prems Cons.IH [of c1 c2 ids2] 2 vin_insert_stored [OF 1] stored_mono(2) [OF oa]
    by (auto simp: 1 2 split: sum.splits)
qed auto

lemma InsertVins_rows: "InsertVinsStmt checked upsert vins c \<noteq> (c', ids, Some ErrNoRows)"
proof (induction vins arbitrary: c c' ids)
  case (Cons vin vins)
  obtain c1 r1 where 1: "query_row (VinInsert checked upsert vin) c = (c1, r1)" by fastforce
  obtain c2 ids2 e2 where 2: "InsertVinsStmt checked upsert vins c1 = (c2, ids2, e2)" by (metis prod_cases3)
  have "snd (VinInsert checked upsert vin (data c)) \<noteq> []"
    by (simp add: VinInsert_def Let_def case_prod_unfold insert_row_def)
  then have "r1 \<noteq> Inl ErrNoRows"
    using 1 by (cases "snd (VinInsert checked upsert vin (data c))")
      (auto simp: query_row_def exec_def split: prod.splits if_splits)
  then show ?case
    using Cons.IH [of c1 c2 ids2] by (auto simp: 1 2 split: sum.splits)
qed simp

definition tx_complete :: "db \<Rightarrow> Tx \<times> addresses_row list \<Rightarrow> Tx \<times> Vout list \<times> VinTxProperty list \<Rightarrow> bool" where
  "tx_complete d st x \<longleftrightarrow> (case (st, x) of ((tx', rs), (tx, vouts, vins)) \<Rightarrow>
    tx_TxID tx' = tx_TxID tx \<and> tx_BlockHash tx' = tx_BlockHash tx \<and>
    list_all2 (vout_stored d) (tx_VoutDbIds tx') vouts \<and> list_all2 (vin_stored d) (tx_VinDbIds tx') vins)"

lemma tx_complete_mono: "only_adds d d' \<Longrightarrow> tx_complete d st x \<Longrightarrow> tx_complete d' st x"
  by (auto simp: tx_complete_def elim!: list_all2_mono dest: stored_mono)

lemma storeTxns_loop_complete:
  assumes "storeTxns_loop checked upsert txs c = (c', Inr stored)" "\<forall>x \<in> set txs. of_block mb m (fst x)"
  shows "list_all2 (tx_complete (data c')) stored txs"
  using assms
proof (induction txs arbitrary: c c' stored)
  case (Cons x txs)
  obtain tx vouts vins where x: "x = (tx, vouts, vins)" by (cases x)
  obtain c1 r1 where 1: "InsertVoutsStmt checked upsert vouts c = (c1, r1)" by fastforce
  obtain c2 vinIDs e where 2: "InsertVinsStmt checked upsert vins c1 = (c2, vinIDs, e)" by (metis prod_cases3)
  obtain c3 r3 where 3: "storeTxns_loop checked upsert txs c2 = (c3, r3)" by fastforce
  have r1: "r1 \<noteq> Inl ErrNoRows"
    using InsertVouts_stored(2) [of checked upsert vouts c c1] 1 by auto
  have e: "e \<noteq> Some ErrNoRows"
    using InsertVins_rows [of checked upsert vins c1 c2 vinIDs] 2 by auto
  have b: "but_no_rows ([], []) (InsertVoutsStmt checked upsert vouts) c = (c1, r1)"
    using 1 r1 by (auto simp: but_no_rows_def split: sum.split sql_error.split)
  obtain ids adrs where r1': "r1 = Inr (ids, adrs)"
    using Cons.prems(1) by (cases r1) (auto simp: x b)
  have e': "e = None"
    using Cons.prems(1) e by (auto simp: x b r1' 2 split: if_splits)
  obtain rest where r3: "r3 = Inr rest" "stored = (tx\<lparr>tx_VoutDbIds := ids, tx_VinDbIds := vinIDs, tx_Vouts := vouts\<rparr>, adrs) # rest" "c' = c3"
    using Cons.prems(1) by (cases r3) (auto simp: x b r1' 2 e' 3 sql_bind_def)
  have 12: "only_adds (data c1) (data c2)"
    using withinD [OF oa.within_vins 2] by simp
  have 23: "only_adds (data c2) (data c3)"
    using oa.storeTxns_loop_rows(1) [OF 3, of mb m] Cons.prems(2) by simp
  have "list_all2 (vout_stored (data c3)) ids vouts"
    using InsertVouts_stored(1) [OF 1 [unfolded r1']] stored_mono(1) [OF oa.trans [OF 12 23]]
    by (auto elim!: list_all2_mono)
  moreover have "list_all2 (vin_stored (data c3)) vinIDs vins"
    using InsertVins_stored [OF 2 [unfolded e']] stored_mono(2) [OF 23] by (auto elim!: list_all2_mono)
  moreover have "list_all2 (tx_complete (data c3)) rest txs"
    using Cons.IH [OF 3 [unfolded r3(1)]] Cons.prems(2) by simp
  ultimately show ?case
    by (auto simp: r3 x tx_complete_def [of _ _ "(tx, vouts, vins)"])
qed auto

lemma InsertTxns_stored:
  assumes "InsertTxnsStmt checked upsert txs c = (c', r)" "\<forall>tx \<in> set txs. of_block mb m tx"
  shows "r = Inr ids \<Longrightarrow> list_all2 (tx_stored (data c')) ids txs" "r \<noteq> Inl ErrNoRows"
proof -
  have "(\<forall>ids. r = Inr ids \<longrightarrow> list_all2 (tx_stored (data c')) ids txs) \<and> r \<noteq> Inl ErrNoRows"
    using assms
  proof (induction txs arbitrary: c c' r)
    case (Cons tx txs)
    obtain c1 r1 where 1: "query_row (TxInsert checked upsert tx) c = (c1, r1)" by fastforce
    obtain c2 r2 where 2: "InsertTxnsStmt checked upsert txs c1 = (c2, r2)" by fastforce
    have oa: "only_adds (data c1) (data c2)"
      using withinD [OF oa.within_txns [where mb = mb and m = m] 2] Cons.prems(2) by simp
    show ?case
      using Cons.prems Cons.IH [OF 2] tx_insert_stored [OF 1] stored_mono(3) [OF oa]
      by (auto simp: 1 2 sql_bind_def split: sum.splits sql_error.splits)
  qed auto
  then show "r = Inr ids \<Longrightarrow> list_all2 (tx_stored (data c')) ids txs" "r \<noteq> Inl ErrNoRows" by blast+
qed

lemma storeTxns_all:
  assumes "storeTxns checked upsert txs c = (c', Inr (stored, txDbIDs))" "\<forall>x \<in> set txs. of_block mb m (fst x)"
  shows "list_all2 (tx_complete (data c')) stored txs \<and> list_all2 (tx_stored (data c')) txDbIDs (map fst stored)"
proof -
  obtain c0 c1 c2 where 1: "storeTxns_loop checked upsert txs c0 = (c1, Inr stored)"
      and 2: "but_no_rows [] (InsertTxnsStmt checked upsert (map fst stored)) c1 = (c2, Inr txDbIDs)"
      and d: "data c' = data c2"
    using assms(1) unfolding storeTxns_def in_transaction_def
    by (auto elim!: sql_bindE split: prod.splits sum.splits simp: exec_def split: if_splits)
  have stored: "\<forall>tx \<in> set (map fst stored). of_block mb m tx"
    using oa.storeTxns_loop_rows(2) [OF 1 assms(2)] by simp
  have 3: "InsertTxnsStmt checked upsert (map fst stored) c1 = (c2, Inr txDbIDs)"
    using 2 by (auto simp: but_no_rows_def split: prod.splits sum.splits sql_error.splits dest: InsertTxns_stored(2) [OF _ stored])
  have "only_adds (data c1) (data c2)"
    using withinD [OF oa.within_txns [OF stored] 3] .
  then show ?thesis
    using storeTxns_loop_complete [OF 1 assms(2)] InsertTxns_stored(1) [OF 3 stored] tx_complete_mono
    by (auto simp: d elim!: list_all2_mono)
qed

section \<open>All of a block\<close>

definition tx_in_tables :: "db \<Rightarrow> string \<Rightarrow> int \<Rightarrow> MsgTx \<Rightarrow> bool" where
  "tx_in_tables d blockHash tree tx \<longleftrightarrow>
    (mt_Hash tx, blockHash) \<in> (\<lambda>r. (t_tx_hash r, t_block_hash r)) ` set (t_transactions d) \<and>
    (\<forall>i < length (mt_TxOut tx). (mt_Hash tx, i, tree) \<in> vout_key ` set (t_vouts d)) \<and>
    (\<forall>i < length (mt_TxIn tx). (mt_Hash tx, i, tree) \<in> vin_key ` set (t_vins d))"

lemma keys_mono:
  assumes "only_adds d d'"
  shows "vout_key ` set (t_vouts d) \<subseteq> vout_key ` set (t_vouts d')" "vin_key ` set (t_vins d) \<subseteq> vin_key ` set (t_vins d')"
    "(\<lambda>r. (t_tx_hash r, t_block_hash r)) ` set (t_transactions d) \<subseteq> (\<lambda>r. (t_tx_hash r, t_block_hash r)) ` set (t_transactions d')"
proof -
  have sub: "key ` set rs \<subseteq> key ` set rs'" if p: "prefix (map fx rs) (map fx rs')" and k: "\<And>r. key (fx r) = key r"
    for key :: "'r \<Rightarrow> 'k" and fx rs rs'
  proof
    fix x assume "x \<in> key ` set rs"
    then obtain r where r: "r \<in> set rs" "x = key r" by blast
    obtain r' where "r' \<in> set rs'" "fx r' = fx r"
      using prefix_ex [OF p r(1)] by blast
    then show "x \<in> key ` set rs'"
      using k [of r] k [of r'] r(2) by (metis imageI)
  qed
  show "vout_key ` set (t_vouts d) \<subseteq> vout_key ` set (t_vouts d')" "vin_key ` set (t_vins d) \<subseteq> vin_key ` set (t_vins d')"
    "(\<lambda>r. (t_tx_hash r, t_block_hash r)) ` set (t_transactions d) \<subseteq> (\<lambda>r. (t_tx_hash r, t_block_hash r)) ` set (t_transactions d')"
    using assms unfolding only_adds_def
    by (elim conjE; intro sub [of vout_fixed] sub [of vin_fixed] sub [of tx_fixed]; simp add: fixed_defs vout_key_def vin_key_def)+
qed

lemma tx_in_tables_mono:
  assumes "only_adds d d'" "tx_in_tables d h tree tx"
  shows "tx_in_tables d' h tree tx"
  using assms(2) subsetD [OF keys_mono(1) [OF assms(1)]] subsetD [OF keys_mono(2) [OF assms(1)]] subsetD [OF keys_mono(3) [OF assms(1)]]
  unfolding tx_in_tables_def by (elim conjE) (intro conjI allI impI, simp_all)

lemma list_all2_keys:
  assumes "list_all2 P ids xs" "\<And>i x. P i x \<Longrightarrow> key x \<in> K" "x \<in> set xs"
  shows "key x \<in> K"
  using assms by (induction rule: list_all2_induct) auto

text \<open>Tagging changes no key.\<close>

definition same_keys :: "Tx \<times> Vout list \<times> VinTxProperty list \<Rightarrow> Tx \<times> Vout list \<times> VinTxProperty list \<Rightarrow> bool" where
  "same_keys x y \<longleftrightarrow> fst x = fst y \<and> snd (snd x) = snd (snd y) \<and>
    map (\<lambda>v. (vo_TxHash v, vo_TxIndex v, vo_TxTree v)) (fst (snd x)) = map (\<lambda>v. (vo_TxHash v, vo_TxIndex v, vo_TxTree v)) (fst (snd y))"

lemma same_keys_refl: "same_keys x x"
  by (simp add: same_keys_def)

lemma tag_mixed_keys: "tag_mixed txs s = (s', tagged) \<Longrightarrow> list_all2 same_keys tagged txs"
proof (induction txs arbitrary: s s' tagged)
  case (Cons x txs)
  obtain tx vouts vins where x: "x = (tx, vouts, vins)" by (cases x)
  obtain s1 mixed where 1: "all_mixed vins s = (s1, mixed)" by fastforce
  obtain s2 rest where 2: "tag_mixed txs s1 = (s2, rest)" by fastforce
  obtain s3 rest' where 3: "tag_mixed txs s = (s3, rest')" by fastforce
  have "same_keys (tx, map (\<lambda>vout. vout\<lparr>vo_Mixed := True\<rparr>) vouts, vins) x"
    by (simp add: same_keys_def x)
  then show ?case
    using Cons.prems Cons.IH [OF 2] Cons.IH [OF 3] same_keys_refl [of x] by (auto simp: x 1 2 3 split: if_splits)
qed simp

lemma extract_vouts_key:
  assumes "i < length (mt_TxOut tx)"
  shows "(mt_Hash tx, i, tree) \<in> (\<lambda>v. (vo_TxHash v, vo_TxIndex v, vo_TxTree v)) ` set (extract_vouts tree tx)"
proof -
  have "(i, mt_TxOut tx ! i) \<in> set (List.enumerate 0 (mt_TxOut tx))"
    using assms by (simp add: in_set_enumerate_eq)
  then show ?thesis
    by (force simp: extract_vouts_def Let_def)
qed

lemma extract_vins_key:
  assumes "i < length (mt_TxIn tx)"
  shows "(mt_Hash tx, i, tree) \<in> (\<lambda>v. (vi_TxID v, vi_TxIndex v, vi_TxTree v)) ` set (extract_vins mb tree valid m tx)"
proof -
  have "(i, mt_TxIn tx ! i) \<in> set (List.enumerate 0 (mt_TxIn tx))"
    using assms by (simp add: in_set_enumerate_eq)
  then show ?thesis
    by (force simp: extract_vins_def)
qed

text \<open>The transactions of a tree, when none of them is left out.\<close>

definition tree_txs :: "MsgBlock \<Rightarrow> int \<Rightarrow> MsgTx list" where
  "tree_txs mb tree = (if tree = TxTreeRegular then mb_Transactions mb else if tree = TxTreeStake then mb_STransactions mb else [])"

definition tree_consistent :: "MsgBlock \<Rightarrow> int \<Rightarrow> bool" where
  "tree_consistent mb tree \<longleftrightarrow> (\<forall>tx \<in> set (tree_txs mb tree). \<not> inconsistent_tree tree tx)"

lemma processTransactions_zip:
  assumes "processTransactions mb tree valid m = (txs, vouts, vins)" "tree_consistent mb tree" "tx \<in> set (tree_txs mb tree)"
  shows "\<exists>x. (x, extract_vouts tree tx, extract_vins mb tree valid m tx) \<in> set (zip txs (zip vouts vins)) \<and>
    tx_TxID x = mt_Hash tx \<and> tx_BlockHash x = mb_Hash mb"
proof -
  obtain k where k: "k < length (tree_txs mb tree)" "tree_txs mb tree ! k = tx"
    using assms(3) by (auto simp: in_set_conv_nth)
  have all: "filter (\<lambda>(txIndex, tx). \<not> inconsistent_tree tree tx) (List.enumerate 0 (tree_txs mb tree)) = List.enumerate 0 (tree_txs mb tree)"
    using assms(2) by (auto simp: tree_consistent_def filter_id_conv in_set_enumerate_eq)
  have eqs: "txs = map (\<lambda>(txIndex, tx). extract_tx mb tree valid m txIndex tx) (List.enumerate 0 (tree_txs mb tree))"
      "vouts = map (\<lambda>tx. if inconsistent_tree tree tx then [] else extract_vouts tree tx) (tree_txs mb tree)"
      "vins = map (\<lambda>tx. if inconsistent_tree tree tx then [] else extract_vins mb tree valid m tx) (tree_txs mb tree)"
    using assms(1) all by (simp_all add: processTransactions_def tree_txs_def Let_def)
  have tx: "\<not> inconsistent_tree tree tx"
    using assms(2,3) by (simp add: tree_consistent_def)
  have "zip txs (zip vouts vins) ! k = (extract_tx mb tree valid m k tx, extract_vouts tree tx, extract_vins mb tree valid m tx)"
    using k tx by (simp add: eqs nth_enumerate_eq)
  then have "(extract_tx mb tree valid m k tx, extract_vouts tree tx, extract_vins mb tree valid m tx) \<in> set (zip txs (zip vouts vins))"
    using k(1) by (metis (no_types, lifting) eqs length_enumerate length_map length_zip min.idem nth_mem)
  then show ?thesis
    by (intro exI [of _ "extract_tx mb tree valid m k tx"]) (simp add: extract_tx_def)
qed

text \<open>What was stored for a tagged transaction is there for the one that was extracted.\<close>

lemma complete_tables:
  assumes st: "tx_complete d st y" and y: "same_keys y (x, extract_vouts tree tx, extract_vins mb tree valid m tx)"
    and i: "tx_stored d i (fst st)" and x: "tx_TxID x = mt_Hash tx" "tx_BlockHash x = h"
  shows "tx_in_tables d h tree tx"
proof -
  obtain tx' rs where s: "st = (tx', rs)" by fastforce
  obtain vouts where y': "y = (x, vouts, extract_vins mb tree valid m tx)"
      and k: "map (\<lambda>v. (vo_TxHash v, vo_TxIndex v, vo_TxTree v)) vouts =
        map (\<lambda>v. (vo_TxHash v, vo_TxIndex v, vo_TxTree v)) (extract_vouts tree tx)"
    using y by (cases y) (auto simp: same_keys_def)
  have c: "tx_TxID tx' = mt_Hash tx" "tx_BlockHash tx' = h" "list_all2 (vout_stored d) (tx_VoutDbIds tx') vouts"
      "list_all2 (vin_stored d) (tx_VinDbIds tx') (extract_vins mb tree valid m tx)"
    using st x by (simp_all add: tx_complete_def s y')
  have "(mt_Hash tx, h) \<in> (\<lambda>r. (t_tx_hash r, t_block_hash r)) ` set (t_transactions d)"
    using i c(1,2) by (force simp: tx_stored_def s)
  moreover have "(mt_Hash tx, j, tree) \<in> vout_key ` set (t_vouts d)" if j: "j < length (mt_TxOut tx)" for j
  proof -
    have "(mt_Hash tx, j, tree) \<in> set (map (\<lambda>v. (vo_TxHash v, vo_TxIndex v, vo_TxTree v)) vouts)"
      unfolding k using extract_vouts_key [OF j] by simp
    then obtain v where v: "v \<in> set vouts" "(mt_Hash tx, j, tree) = (vo_TxHash v, vo_TxIndex v, vo_TxTree v)" by auto
    show ?thesis
      unfolding v(2) by (rule list_all2_keys [OF c(3) _ v(1)]) (metis vout_stored_def imageI)
  qed
  moreover have "(mt_Hash tx, j, tree) \<in> vin_key ` set (t_vins d)" if j: "j < length (mt_TxIn tx)" for j
  proof -
    obtain v where v: "v \<in> set (extract_vins mb tree valid m tx)" "(mt_Hash tx, j, tree) = (vi_TxID v, vi_TxIndex v, vi_TxTree v)"
      using extract_vins_key [OF j] by blast
    show ?thesis
      unfolding v(2) by (rule list_all2_keys [OF c(4) _ v(1)]) (metis vin_stored_def imageI)
  qed
  ultimately show ?thesis by (simp add: tx_in_tables_def)
qed

lemma list_all2_in2: "list_all2 P xs ys \<Longrightarrow> y \<in> set ys \<Longrightarrow> \<exists>x \<in> set xs. P x y"
  by (induction rule: list_all2_induct) auto

lemma list_all2_in1: "list_all2 P xs ys \<Longrightarrow> x \<in> set xs \<Longrightarrow> \<exists>y \<in> set ys. P x y"
  by (induction rule: list_all2_induct) auto

lemma storeBlockTxnTree_tables:
  assumes "storeBlockTxnTree sv mb validators tree valid m upsert upd p = (p', Inr res)" "tree_consistent mb tree"
    "tx \<in> set (tree_txs mb tree)"
  shows "tx_in_tables (data (db_conn p')) (mb_Hash mb) tree tx"
proof -
  define checked where "checked = db_dupChecks p"
  obtain txs vouts vins where pt: "processTransactions mb tree valid m = (txs, vouts, vins)" by (metis prod_cases3)
  let ?raw = "zip txs (zip vouts vins)"
  have raw: "\<forall>x \<in> set ?raw. of_block mb m (fst x)"
    using oa.processTransactions_of_block [OF pt] by (auto dest!: set_zip_leftD)
  obtain p1 tagged where tag: "tag_outputs ?raw p = (p1, Inr tagged)"
    and rest: "db_bind (store_rows upsert tagged) (\<lambda>(stored, txDbIDs).
        db_bind (if tree = TxTreeStake
            then store_stake sv mb (if m then validators else []) m upsert (map fst stored) txDbIDs
            else db_return ()) (\<lambda>_.
        db_bind (store_addresses mb tree upsert m upd (flattenAddressRows stored)
            (zip (map fst stored) (map (\<lambda>(tx, vouts, vins). vins) tagged)) txDbIDs) (\<lambda>(as, spent).
          db_return (txDbIDs, remdups (map a_address (flattenAddressRows stored) @ as),
            (if m then mixed_value tagged else 0) - spent)))) p1 = (p', Inr res)"
    by (rule db_bindE [OF assms(1) [unfolded storeBlockTxnTree_def pt Let_def prod.case]])
  have keys: "list_all2 same_keys tagged ?raw"
    using tag by (auto simp: tag_outputs_def split: prod.splits dest: tag_mixed_keys)
  have tagged: "\<forall>x \<in> set tagged. of_block mb m (fst x)"
    using list_all2_in1 [OF keys] raw unfolding same_keys_def by metis
  have c1: "db_dupChecks p1 = checked"
    by (rule op_step_checked [OF op_withinD [OF oa.op_within_tag tag]]) (simp add: checked_def)
  obtain p2 x where sr: "store_rows upsert tagged p1 = (p2, Inr x)"
    and rest2: "(\<lambda>(stored, txDbIDs).
        db_bind (if tree = TxTreeStake
            then store_stake sv mb (if m then validators else []) m upsert (map fst stored) txDbIDs
            else db_return ()) (\<lambda>_.
        db_bind (store_addresses mb tree upsert m upd (flattenAddressRows stored)
            (zip (map fst stored) (map (\<lambda>(tx, vouts, vins). vins) tagged)) txDbIDs) (\<lambda>(as, spent).
          db_return (txDbIDs, remdups (map a_address (flattenAddressRows stored) @ as),
            (if m then mixed_value tagged else 0) - spent)))) x p2 = (p', Inr res)"
    by (rule db_bindE [OF rest])
  obtain stored ids where x: "x = (stored, ids)" by fastforce
  have c2: "db_dupChecks p2 = checked"
    by (rule op_step_checked [OF op_withinD [OF oa.op_within_store_rows [OF tagged] sr c1]])
  have complete: "list_all2 (tx_complete (data (db_conn p2))) stored tagged \<and>
      list_all2 (tx_stored (data (db_conn p2))) ids (map fst stored)"
    using sr storeTxns_all [OF _ tagged] by (auto simp: store_rows_def x db_bind_def on_db_def split: prod.splits sum.splits)
  have stored: "\<forall>x \<in> set stored. of_block mb m (fst x)"
    by (rule oa.store_rows_txs [OF sr [unfolded x] tagged c1])
  then have of1: "\<forall>tx \<in> set (map fst stored). of_block mb m tx"
      "\<forall>x \<in> set (zip (map fst stored) vs). of_block mb m (fst x)" for vs :: "'x list"
    by (auto dest!: set_zip_leftD)
  have later: "op_within only_adds checked None (db_bind (if tree = TxTreeStake
            then store_stake sv mb (if m then validators else []) m upsert (map fst stored) ids
            else db_return ()) (\<lambda>_.
        db_bind (store_addresses mb tree upsert m upd (flattenAddressRows stored)
            (zip (map fst stored) (map (\<lambda>(tx, vouts, vins). vins) tagged)) ids) (\<lambda>(as, spent).
          db_return (ids, remdups (map a_address (flattenAddressRows stored) @ as),
            (if m then mixed_value tagged else 0) - spent))))"
    unfolding case_prod_unfold
    using oa.op_within_stake [OF of1(1)] oa.op_within_store_addresses [OF of1(2)]
    by (auto intro!: oa.op_within_bind oa.op_within_return)
  have adds: "only_adds (data (db_conn p2)) (data (db_conn p'))"
    using op_withinD [OF later rest2 [unfolded x prod.case] c2] by (simp add: op_step_def)
  obtain z where z: "(z, extract_vouts tree tx, extract_vins mb tree valid m tx) \<in> set ?raw"
      "tx_TxID z = mt_Hash tx" "tx_BlockHash z = mb_Hash mb"
    using processTransactions_zip [OF pt assms(2,3)] by blast
  obtain y where y: "y \<in> set tagged" "same_keys y (z, extract_vouts tree tx, extract_vins mb tree valid m tx)"
    using list_all2_in2 [OF keys z(1)] by blast
  obtain st where st: "st \<in> set stored" "tx_complete (data (db_conn p2)) st y"
    using list_all2_in2 [OF conjunct1 [OF complete] y(1)] by blast
  obtain i where i: "tx_stored (data (db_conn p2)) i (fst st)"
    using list_all2_in2 [OF conjunct2 [OF complete], of "fst st"] st(1) by auto
  show ?thesis
    by (rule tx_in_tables_mono [OF adds complete_tables [OF st(2) y(2) i z(2,3)]])
qed

lemma store_trees_done:
  assumes "store_trees stakeFirst store p = (p', Inr (reg, stk))"
  shows "\<exists>t1 t2 p1 r1 r2. {t1, t2} = {TxTreeRegular, TxTreeStake} \<and> store t1 p = (p1, Inr r1) \<and> store t2 p1 = (p', Inr r2)"
proof (cases stakeFirst)
  case True
  then show ?thesis
    using assms by (intro exI [of _ TxTreeStake] exI [of _ TxTreeRegular])
      (auto simp: store_trees_def split: prod.splits sum.splits)
next
  case False
  then show ?thesis
    using assms by (intro exI [of _ TxTreeRegular] exI [of _ TxTreeStake])
      (auto simp: store_trees_def split: prod.splits sum.splits)
qed


end
