(* ===== verification/ChainSpend.thy ===== *)
theory ChainSpend
  imports ChainStoreRows
begin

text \<open>
  Spending with and without the cache of unspent outputs: what is cached for an output is what the table says,
  so the cache saves a query and changes nothing else, but for outputs without addresses.
\<close>

section \<open>What the table says about an output\<close>

definition vout_data :: "db \<Rightarrow> VinTxProperty \<Rightarrow> UTXOData option" where
  "vout_data d vin =
    (case filter (\<lambda>r. o_tx_hash r = vi_PrevTxHash vin \<and> o_tx_index r = vi_PrevTxIndex vin \<and> o_tx_tree r = vi_PrevTxTree vin) (t_vouts d) of
       [] \<Rightarrow> None
     | r # _ \<Rightarrow> Some \<lparr>ud_Addresses = o_script_addresses r, ud_Value = o_value r, ud_Mixed = o_mixed r, ud_VoutDbID = int (o_id r)\<rparr>)"

definition vouts_fixed :: "db \<Rightarrow> db \<Rightarrow> bool" where
  "vouts_fixed d d' \<longleftrightarrow> map vout_fixed (t_vouts d') = map vout_fixed (t_vouts d)"

interpretation vf: table_relation vouts_fixed
  by unfold_locales (simp_all add: vouts_fixed_def)

lemma filter_map_first:
  assumes "map fx rs' = map fx rs" "\<And>r. P (fx r) \<longleftrightarrow> P r"
  shows "map fx (filter P rs') = map fx (filter P rs)"
proof -
  have "map fx (filter P xs) = filter P (map fx xs)" for xs
    using assms(2) by (induction xs) auto
  then show ?thesis using assms(1) by simp
qed

lemma vout_data_fixed:
  assumes "vouts_fixed d d'"
  shows "vout_data d' vin = vout_data d vin"
proof -
  let ?P = "\<lambda>r. o_tx_hash r = vi_PrevTxHash vin \<and> o_tx_index r = vi_PrevTxIndex vin \<and> o_tx_tree r = vi_PrevTxTree vin"
  let ?f = "\<lambda>r. \<lparr>ud_Addresses = o_script_addresses r, ud_Value = o_value r, ud_Mixed = o_mixed r, ud_VoutDbID = int (o_id r)\<rparr>"
  have m: "map vout_fixed (filter ?P (t_vouts d')) = map vout_fixed (filter ?P (t_vouts d))"
    using assms by (intro filter_map_first) (simp_all add: vouts_fixed_def vout_fixed_def)
  have f: "map ?f (filter ?P (t_vouts d')) = map ?f (filter ?P (t_vouts d))"
    using arg_cong [OF m, of "map ?f"] by (simp add: comp_def vout_fixed_def)
  have "vout_data e vin = (case map ?f (filter ?P (t_vouts e)) of [] \<Rightarrow> None | x # _ \<Rightarrow> Some x)" for e
    unfolding vout_data_def by (cases "filter ?P (t_vouts e)") simp_all
  then show ?thesis by (simp only: f)
qed

lemma retrieve_vout_data:
  assumes "outcomes c = []" "vout_data (data c) vin = Some x" "ud_Addresses x \<noteq> []"
  shows "retrieveTxOutData (vi_PrevTxHash vin) (vi_PrevTxIndex vin) (vi_PrevTxTree vin) c = (c, Inr x)"
  using assms
  by (auto simp: retrieveTxOutData_def SelectVoutAddressesByTxOut_def vout_data_def sql_bind_def scan_addresses_def split: list.splits)

text \<open>An input is recorded in the same way with and without cached data.\<close>

lemma spending_row_same:
  assumes "outcomes c = []" "vout_data (data c) vin = Some x" "ud_Addresses x \<noteq> []"
  shows "insertSpendingAddressRow vin i None checked upsert m valid upd tm c =
    insertSpendingAddressRow vin i (Some x) checked upsert m valid upd tm c"
  using retrieve_vout_data [OF assms] by (simp add: insertSpendingAddressRow_def)

section \<open>Connections that do not fail\<close>

definition calm :: "(conn \<Rightarrow> conn \<times> 'x) \<Rightarrow> bool" where
  "calm q \<longleftrightarrow> (\<forall>c. outcomes c = [] \<longrightarrow> outcomes (fst (q c)) = [])"

lemma calm_exec: "calm (exec stmt)" "calm (query_row stmt')"
  by (simp_all add: calm_def)

lemma calm_return: "calm (sql_return x)" "calm (sql_fail e)" "calm (\<lambda>c. (c, y))"
  by (simp_all add: calm_def)

lemma calm_bind: "calm q \<Longrightarrow> (\<And>x. calm (f x)) \<Longrightarrow> calm (sql_bind q f)"
  by (simp add: calm_def sql_bind_def split: prod.split sum.split) (metis fst_conv)

lemma calmD: "calm q \<Longrightarrow> q c = (c', r) \<Longrightarrow> outcomes c = [] \<Longrightarrow> outcomes c' = []"
  unfolding calm_def by (metis fst_conv)

lemma calm_rows: "calm (insert_spending_rows checked upsert rs)"
  by (induction rs) (auto intro!: calm_bind calm_exec calm_return)

lemma calm_retrieve: "calm (retrieveTxOutData txid ind tree)"
  unfolding retrieveTxOutData_def by (auto intro!: calm_bind calm_exec calm_return split: prod.split)

lemma calm_spending: "calm (setSpendingForVouts ids i)"
proof -
  have 1: "calm (setSpendingForVout k i)" for k
    unfolding setSpendingForVout_def by (auto intro!: calm_bind calm_exec calm_return)
  have 2: "calm (sql_bind (exec (UpdateVoutSpendTxRowID i ids)) (\<lambda>n. if n \<noteq> k then sql_fail e else sql_return ()))" for k e
    by (auto intro!: calm_bind calm_exec calm_return)
  show ?thesis
    unfolding setSpendingForVouts_def using 1 2 by (simp only: split: list.split) blast
qed

lemma record_spend_facts: "calm (record_spend vin i checked upsert m valid upd tm u)"
  "within vouts_fixed (record_spend vin i checked upsert m valid upd tm u)"
proof -
  show "calm (record_spend vin i checked upsert m valid upd tm u)"
    unfolding record_spend_def SetSpendingForFundingOP_def
    by (auto intro!: calm_bind calm_rows calm_exec calm_return)
  have insert: "vouts_fixed d (fst (AddressInsert checked upsert a d))" for a d
    by (simp add: vouts_fixed_def AddressInsert_def Let_def case_prod_unfold)
  have "within vouts_fixed (insert_spending_rows checked upsert rs)" for rs
    by (induction rs) (simp_all add: insert vf.within_bind vf.within_query_row vf.within_return)
  then show "within vouts_fixed (record_spend vin i checked upsert m valid upd tm u)"
    unfolding record_spend_def SetSpendingForFundingOP_def
    by (auto intro!: vf.within_bind vf.within_exec vf.within_return
      simp: SetAddressMatchingTxHashForOutpoint_def Let_def) (simp add: vouts_fixed_def)
qed

section \<open>The inputs of a transaction\<close>

text \<open>What is cached for the outputs that are spent is what the table says, and has an address.\<close>

definition cache_agrees :: "utxoStore \<Rightarrow> db \<Rightarrow> VinTxProperty list \<Rightarrow> bool" where
  "cache_agrees u d vins \<longleftrightarrow> (\<forall>vin \<in> set vins. \<forall>x. utxo_Peek (vi_PrevTxHash vin) (vi_PrevTxIndex vin) u = Some x \<longrightarrow>
    vout_data d vin = Some x \<and> ud_Addresses x \<noteq> [])"

definition cache_shrinks :: "utxoStore \<Rightarrow> utxoStore \<Rightarrow> bool" where
  "cache_shrinks u u' \<longleftrightarrow> (\<forall>h i x. utxo_Peek h i u' = Some x \<longrightarrow> utxo_Peek h i u = Some x)"

lemma cache_agrees_later:
  "cache_agrees u d vins \<Longrightarrow> cache_shrinks u u' \<Longrightarrow> vouts_fixed d d' \<Longrightarrow> set vins' \<subseteq> set vins \<Longrightarrow> cache_agrees u' d' vins'"
  by (auto simp: cache_agrees_def cache_shrinks_def vout_data_fixed)

lemma cache_shrinks_refl [simp]: "cache_shrinks u u"
  by (simp add: cache_shrinks_def)

lemma cache_shrinks_trans: "cache_shrinks u1 u2 \<Longrightarrow> cache_shrinks u2 u3 \<Longrightarrow> cache_shrinks u1 u3"
  by (simp add: cache_shrinks_def)

lemma cache_shrinks_Get: "cache_shrinks u (fst (utxo_Get h i u))"
  by (auto simp: cache_shrinks_def Peek_Get split: if_splits)

lemma utxo_Get_empty [simp]: "utxo_Get h i [] = ([], None)"
  by (simp add: utxo_Get_def)

text \<open>Two runs that differ in the cache only, the second without one.\<close>

definition same_but_cache :: "utxoStore \<Rightarrow> 'c ChainDB \<times> 'x \<Rightarrow> 'c ChainDB \<times> 'x \<Rightarrow> bool" where
  "same_but_cache u pr qr \<longleftrightarrow> snd pr = snd qr \<and> db_utxoCache (fst qr) = [] \<and>
    (\<exists>u'. fst pr = (fst qr)\<lparr>db_utxoCache := u'\<rparr> \<and> cache_shrinks u u')"

lemma same_but_cache_bind:
  assumes "same_but_cache u (q p1) (q' p2)"
    "\<And>u' c r x. q p1 = (c\<lparr>db_utxoCache := u'\<rparr>, r) \<Longrightarrow> q' p2 = (c, r) \<Longrightarrow> r = Inr x \<Longrightarrow> cache_shrinks u u' \<Longrightarrow> db_utxoCache c = [] \<Longrightarrow>
      same_but_cache u' (f x (c\<lparr>db_utxoCache := u'\<rparr>)) (f' x c)"
  shows "same_but_cache u (db_bind q f p1) (db_bind q' f' p2)"
proof -
  obtain c r where q': "q' p2 = (c, r)" by fastforce
  with assms(1) obtain u' where u': "q p1 = (c\<lparr>db_utxoCache := u'\<rparr>, r)" "cache_shrinks u u'" "db_utxoCache c = []"
    by (cases "q p1") (auto simp: same_but_cache_def)
  show ?thesis
  proof (cases r)
    case (Inl e)
    then show ?thesis using q' u' by (auto simp: db_bind_def same_but_cache_def)
  next
    case (Inr x)
    have "same_but_cache u' (f x (c\<lparr>db_utxoCache := u'\<rparr>)) (f' x c)"
      by (rule assms(2) [OF u'(1) q' Inr u'(2,3)])
    then show ?thesis
      using q' u' Inr by (auto simp: db_bind_def same_but_cache_def intro: cache_shrinks_trans)
  qed
qed

text \<open>The connection stays calm and the outputs keep what is cached of them.\<close>

definition settled :: "'c ChainDB \<Rightarrow> 'c ChainDB \<Rightarrow> bool" where
  "settled p p' \<longleftrightarrow> (outcomes (db_conn p) = [] \<longrightarrow> outcomes (db_conn p') = []) \<and> vouts_fixed (data (db_conn p)) (data (db_conn p'))"

lemma settled_refl [simp]: "settled p p" "settled p (p\<lparr>db_utxoCache := u\<rparr>)"
  by (simp_all add: settled_def vouts_fixed_def)

lemma settled_cache [simp]: "settled (p\<lparr>db_utxoCache := u\<rparr>) p' = settled p p'"
  by (simp add: settled_def)

lemma settled_trans: "settled p1 p2 \<Longrightarrow> settled p2 p3 \<Longrightarrow> settled p1 p3"
  by (auto simp: settled_def vouts_fixed_def)

lemma settled_on_db:
  assumes "calm q" "within vouts_fixed q"
  shows "settled p (fst (on_db q p))"
proof -
  obtain c r where q: "q (db_conn p) = (c, r)" by fastforce
  have "vouts_fixed (data (db_conn p)) (data c)"
    using assms(2) q unfolding within_def by (metis fst_conv)
  then show ?thesis
    using calmD [OF assms(1) q] by (simp add: settled_def on_db_def q)
qed

lemma settled_bind:
  assumes "settled p (fst (q p))" "\<And>x p'. settled p' (fst (f x p'))"
  shows "settled p (fst (db_bind q f p))"
proof -
  obtain p' r where q: "q p = (p', r)" by fastforce
  with assms(1) have "settled p p'" by simp
  then show ?thesis
    using q assms(2) [of p'] by (cases r) (auto simp: db_bind_def intro: settled_trans)
qed

lemma settled_insert: "settled p (fst (on_db (insertSpendingAddressRow vin i spent checked upsert m valid upd tm) p))"
proof (rule settled_on_db)
  show "calm (insertSpendingAddressRow vin i spent checked upsert m valid upd tm)"
    using record_spend_facts(1) calm_retrieve
    unfolding calm_def insertSpendingAddressRow_def Let_def
    by (auto split: option.split prod.split sum.split sql_error.split) (metis fst_conv)+
  have r: "within vouts_fixed (retrieveTxOutData h i t)" for h i t
    unfolding retrieveTxOutData_def
    by (auto intro!: vf.within_intros simp: SelectVoutAddressesByTxOut_def vouts_fixed_def split: prod.split)
  show "within vouts_fixed (insertSpendingAddressRow vin i spent checked upsert m valid upd tm)"
    using record_spend_facts(2) r vf.trans
    unfolding within_def insertSpendingAddressRow_def Let_def
    by (auto split: option.split prod.split sum.split sql_error.split) (metis fst_conv)+
qed

text \<open>With the cache and without it, the inputs of a transaction are spent in the same way.\<close>

lemma same_but_cache_refl: "db_utxoCache p = [] \<Longrightarrow> same_but_cache u (p\<lparr>db_utxoCache := u\<rparr>, r) (p, r)"
  by (auto simp: same_but_cache_def)

lemma same_but_cache_weaken: "same_but_cache u' pr qr \<Longrightarrow> cache_shrinks u u' \<Longrightarrow> same_but_cache u pr qr"
  by (auto simp: same_but_cache_def intro: cache_shrinks_trans)

lemma on_db_cache: "on_db q (p\<lparr>db_utxoCache := u\<rparr>) = (case on_db q p of (p', r) \<Rightarrow> (p'\<lparr>db_utxoCache := u\<rparr>, r))"
  by (simp add: on_db_def split: prod.split)

lemma same_but_cache_on_db:
  assumes "q (db_conn p) = q' (db_conn p)" "db_utxoCache p = []"
  shows "same_but_cache u (on_db q (p\<lparr>db_utxoCache := u\<rparr>)) (on_db q' p)"
  using assms by (cases p) (auto simp: on_db_def same_but_cache_def split: prod.split)

lemma same_but_cache_insert:
  assumes "outcomes (db_conn p) = []" "cache_agrees u (data (db_conn p)) (vin # vins)" "db_utxoCache p = []"
    "utxo_Get (vi_PrevTxHash vin) (vi_PrevTxIndex vin) u = (u', found)"
  shows "same_but_cache u' (on_db (insertSpendingAddressRow vin i found checked upsert m valid upd tm) (p\<lparr>db_utxoCache := u'\<rparr>))
    (on_db (insertSpendingAddressRow vin i None checked upsert m valid upd tm) p)"
proof (rule same_but_cache_on_db [OF _ assms(3)], cases found)
  case None
  then show "insertSpendingAddressRow vin i found checked upsert m valid upd tm (db_conn p) =
    insertSpendingAddressRow vin i None checked upsert m valid upd tm (db_conn p)" by simp
next
  case (Some x)
  then have "utxo_Peek (vi_PrevTxHash vin) (vi_PrevTxIndex vin) u = Some x"
    using Get_result [of "vi_PrevTxHash vin" "vi_PrevTxIndex vin" u] assms(4) by simp
  then have "vout_data (data (db_conn p)) vin = Some x" "ud_Addresses x \<noteq> []"
    using assms(2) by (simp_all add: cache_agrees_def)
  then show "insertSpendingAddressRow vin i found checked upsert m valid upd tm (db_conn p) =
    insertSpendingAddressRow vin i None checked upsert m valid upd tm (db_conn p)"
    using Some spending_row_same [OF assms(1)] by simp
qed

lemma settled_spend_vins: "settled p (fst (spend_vins checked upsert m upd tx iv vins p))"
proof (induction vins arbitrary: iv p)
  case Nil
  then show ?case by simp
next
  case (Cons vin vins)
  have r: "settled p' (fst (db_return y p'))" for p' :: "'a ChainDB" and y :: "string list \<times> int list \<times> int"
    by (simp add: db_return_def)
  obtain u found where g: "utxo_Get (vi_PrevTxHash vin) (vi_PrevTxIndex vin) (db_utxoCache p) = (u, found)" by fastforce
  have "settled (p\<lparr>db_utxoCache := u\<rparr>) (fst (db_bind (on_db (insertSpendingAddressRow vin (tx_VinDbIds tx ! iv) found checked upsert
      (tx_IsMainchainBlock tx) (tx_IsValid tx) upd (tx_BlockTime tx))) (\<lambda>(fromAddrs, voutDbID, mixedVout).
        db_bind (spend_vins checked upsert m upd tx (Suc iv) vins) (\<lambda>(addrs, voutDbIDs, spent).
          db_return (fromAddrs @ addrs, voutDbID # voutDbIDs, (if mixedVout \<and> tx_IsValid tx \<and> m then vi_ValueIn vin else 0) + spent)))
      (p\<lparr>db_utxoCache := u\<rparr>)))"
    by (intro settled_bind settled_insert)
      (simp only: split_paired_all prod.case, intro settled_bind Cons.IH, simp only: split_paired_all prod.case, rule r)
  then show ?case
    using Cons.IH [of p "Suc iv"] g by simp
qed

lemma spend_vins_cache:
  assumes "outcomes (db_conn p) = []" "cache_agrees u (data (db_conn p)) vins" "db_utxoCache p = []"
  shows "same_but_cache u (spend_vins checked upsert m upd tx iv vins (p\<lparr>db_utxoCache := u\<rparr>)) (spend_vins checked upsert m upd tx iv vins p)"
  using assms
proof (induction vins arbitrary: p u iv)
  case Nil
  then show ?case by (auto simp: same_but_cache_def)
next
  case (Cons vin vins)
  obtain u' found where g: "utxo_Get (vi_PrevTxHash vin) (vi_PrevTxIndex vin) u = (u', found)" by fastforce
  then have shr: "cache_shrinks u u'"
    using cache_shrinks_Get [of u "vi_PrevTxHash vin" "vi_PrevTxIndex vin"] by simp
  let ?ins = "\<lambda>found. insertSpendingAddressRow vin (tx_VinDbIds tx ! iv) found checked upsert (tx_IsMainchainBlock tx) (tx_IsValid tx) upd (tx_BlockTime tx)"
  let ?rest = "\<lambda>(fromAddrs, voutDbID :: int, mixedVout). db_bind (spend_vins checked upsert m upd tx (Suc iv) vins) (\<lambda>(addrs, voutDbIDs, spent).
    db_return (fromAddrs @ addrs, voutDbID # voutDbIDs, (if mixedVout \<and> tx_IsValid tx \<and> m then vi_ValueIn vin else 0) + spent))"
  have agree: "cache_agrees u (data (db_conn p)) vins"
    by (rule cache_agrees_later [OF Cons.prems(2)]) (auto simp: vouts_fixed_def)
  have step: "same_but_cache u' (db_bind (on_db (?ins found)) ?rest (p\<lparr>db_utxoCache := u'\<rparr>)) (db_bind (on_db (?ins None)) ?rest p)"
  proof (rule same_but_cache_bind)
    show "same_but_cache u' (on_db (?ins found) (p\<lparr>db_utxoCache := u'\<rparr>)) (on_db (?ins None) p)"
      by (rule same_but_cache_insert [OF Cons.prems g])
  next
    fix u2 r and c :: "'a ChainDB" and x :: "string list \<times> int \<times> bool"
    assume c: "on_db (?ins None) p = (c, r)" and u2: "cache_shrinks u' u2" and e: "db_utxoCache c = []"
    have "settled p c"
      using settled_insert [of p vin "tx_VinDbIds tx ! iv" None checked upsert "tx_IsMainchainBlock tx" "tx_IsValid tx" upd "tx_BlockTime tx"] c
      by simp
    then have o: "outcomes (db_conn c) = []" and f: "vouts_fixed (data (db_conn p)) (data (db_conn c))"
      using Cons.prems(1) by (simp_all add: settled_def)
    have a: "cache_agrees u2 (data (db_conn c)) vins"
      by (rule cache_agrees_later [OF agree cache_shrinks_trans [OF shr u2] f]) simp
    obtain fa vi mx where x: "x = (fa, vi, mx)" by (cases x)
    show "same_but_cache u2 (?rest x (c\<lparr>db_utxoCache := u2\<rparr>)) (?rest x c)"
      unfolding x prod.case
      by (rule same_but_cache_bind, rule Cons.IH [OF o a e]) (auto simp: db_return_def same_but_cache_refl)
  qed
  have p: "p\<lparr>db_utxoCache := []\<rparr> = p"
    using Cons.prems(3) by (cases p) simp
  show ?case
    using Cons.IH [OF Cons.prems(1) agree Cons.prems(3)] same_but_cache_weaken [OF step shr] Cons.prems(3) g
    by (simp add: p same_but_cache_refl)
qed

section \<open>The transactions of a tree\<close>

definition all_vins :: "(Tx \<times> VinTxProperty list) list \<Rightarrow> VinTxProperty list" where
  "all_vins txs = concat (map snd txs)"

lemma settled_set_spending: "settled p (fst (on_db (setSpendingForVouts ids i) p))"
proof (rule settled_on_db [OF calm_spending])
  have upd: "vouts_fixed d (fst (UpdateVoutSpendTxRowID i ks d))" for ks d
    by (simp add: vouts_fixed_def UpdateVoutSpendTxRowID_def Let_def map_update_where vout_fixed_def)
  have 1: "within vouts_fixed (setSpendingForVout k i)" for k
    unfolding setSpendingForVout_def by (auto intro!: vf.within_intros upd)
  have 2: "within vouts_fixed (sql_bind (exec (UpdateVoutSpendTxRowID i ids)) (\<lambda>n. if n \<noteq> k then sql_fail e else sql_return ()))" for k e
    by (auto intro!: vf.within_intros upd)
  show "within vouts_fixed (setSpendingForVouts ids i)"
    unfolding setSpendingForVouts_def using 1 2 by (simp only: split: list.split) blast
qed

lemma cache_agrees_append: "cache_agrees u d (vs @ ws) \<longleftrightarrow> cache_agrees u d vs \<and> cache_agrees u d ws"
  by (auto simp: cache_agrees_def)

lemma spend_txs_cache:
  assumes "outcomes (db_conn p) = []" "cache_agrees u (data (db_conn p)) (all_vins txs)" "db_utxoCache p = []"
  shows "same_but_cache u (spend_txs checked upsert m upd txs is (p\<lparr>db_utxoCache := u\<rparr>)) (spend_txs checked upsert m upd txs is p)"
  using assms
proof (induction checked upsert m upd txs "is" p arbitrary: u rule: spend_txs.induct)
  case (3 checked upsert m upd tx vins txs i "is" p)
  have now: "cache_agrees u (data (db_conn p)) vins" and later: "cache_agrees u (data (db_conn p)) (all_vins txs)"
    using "3.prems"(2) by (simp_all add: all_vins_def cache_agrees_append)
  show ?case
    unfolding spend_txs.simps
  proof (rule same_but_cache_bind, rule spend_vins_cache [OF "3.prems"(1) now "3.prems"(3)])
    fix u2 r and c :: "'a ChainDB" and x :: "string list \<times> int list \<times> int"
    assume c: "spend_vins checked upsert m upd tx 0 vins p = (c, r)" "r = Inr x"
      and u2: "cache_shrinks u u2" and e: "db_utxoCache c = []"
    obtain as vs sp where x: "x = (as, vs, sp)" by (cases x)
    have sc: "settled p c"
      using settled_spend_vins [of p checked upsert m upd tx 0 vins] c by simp
    let ?set = "if tx_IsValid tx \<and> m \<and> vs \<noteq> [] then on_db (setSpendingForVouts vs i) else db_return ()"
    show "same_but_cache u2
      ((case x of (ad, voutDbIDs, spent) \<Rightarrow>
          db_bind (if tx_IsValid tx \<and> m \<and> voutDbIDs \<noteq> [] then on_db (setSpendingForVouts voutDbIDs i) else db_return ())
            (\<lambda>_. db_bind (spend_txs checked upsert m upd txs is) (\<lambda>(ad', spent'). db_return (ad @ ad', spent + spent'))))
        (c\<lparr>db_utxoCache := u2\<rparr>))
      ((case x of (ad, voutDbIDs, spent) \<Rightarrow>
          db_bind (if tx_IsValid tx \<and> m \<and> voutDbIDs \<noteq> [] then on_db (setSpendingForVouts voutDbIDs i) else db_return ())
            (\<lambda>_. db_bind (spend_txs checked upsert m upd txs is) (\<lambda>(ad', spent'). db_return (ad @ ad', spent + spent'))))
        c)"
      unfolding x prod.case
    proof (rule same_but_cache_bind)
      show "same_but_cache u2 (?set (c\<lparr>db_utxoCache := u2\<rparr>)) (?set c)"
        using same_but_cache_on_db [where q = "setSpendingForVouts vs i" and q' = "setSpendingForVouts vs i" and p = c, OF refl e]
        by (simp add: db_return_def same_but_cache_refl [OF e])
    next
      fix u3 r' and c' :: "'a ChainDB" and y :: unit
      assume c': "?set c = (c', r')" and u3: "cache_shrinks u2 u3" and e': "db_utxoCache c' = []"
      have "settled c c'"
        using settled_set_spending [of c vs i] c' by (auto simp: db_return_def split: if_splits)
      then have "settled p c'"
        by (rule settled_trans [OF sc])
      then have o: "outcomes (db_conn c') = []" and f: "vouts_fixed (data (db_conn p)) (data (db_conn c'))"
        using "3.prems"(1) by (simp_all add: settled_def)
      have a: "cache_agrees u3 (data (db_conn c')) (all_vins txs)"
        by (rule cache_agrees_later [OF later cache_shrinks_trans [OF u2 u3] f]) simp
      show "same_but_cache u3
        (db_bind (spend_txs checked upsert m upd txs is) (\<lambda>(ad', spent'). db_return (as @ ad', sp + spent')) (c'\<lparr>db_utxoCache := u3\<rparr>))
        (db_bind (spend_txs checked upsert m upd txs is) (\<lambda>(ad', spent'). db_return (as @ ad', sp + spent')) c')"
        by (rule same_but_cache_bind, rule "3.IH" [OF o a e']) (auto simp: db_return_def same_but_cache_refl)
    qed
  qed
qed (auto simp: same_but_cache_refl)

text \<open>
  C13. Spending with the cache of outputs and without it: as long as what the cache has of the spent outputs is
  what the table says and has an address, and no statement fails, the same rows are written, with the same
  answer; the runs differ in what is left in the cache only.
\<close>

theorem cached_spending_same:
  assumes "outcomes (db_conn p) = []" "cache_agrees u (data (db_conn p)) (all_vins txs)" "db_utxoCache p = []"
  shows "\<exists>p' r u'. spend_txs checked upsert m upd txs is p = (p', r) \<and>
    spend_txs checked upsert m upd txs is (p\<lparr>db_utxoCache := u\<rparr>) = (p'\<lparr>db_utxoCache := u'\<rparr>, r) \<and> cache_shrinks u u'"
proof -
  obtain p' r where r: "spend_txs checked upsert m upd txs is p = (p', r)" by fastforce
  have "same_but_cache u (spend_txs checked upsert m upd txs is (p\<lparr>db_utxoCache := u\<rparr>)) (p', r)"
    using spend_txs_cache [OF assms, of checked upsert m upd "is"] by (simp only: r)
  then obtain u' where "spend_txs checked upsert m upd txs is (p\<lparr>db_utxoCache := u\<rparr>) = (p'\<lparr>db_utxoCache := u'\<rparr>, r)" "cache_shrinks u u'"
    by (auto simp: same_but_cache_def prod_eq_iff)
  with r show ?thesis by blast
qed

end
