(* ===== verification/ChainStoreExamples.thy ===== *)
theory ChainStoreExamples
  imports ChainSpend ChainTipContract
begin

text \<open>
  A block to which the properties of storing apply: its coinbase pays to \<open>x\<close>; a side chain block that votes with a
  ticket of the main chain; and an output that is spent with the cache of outputs.
\<close>

definition ex_view :: stake_view where
  "ex_view = \<lparr>se_PoolInfo = (\<lambda>h. Some \<lparr>pi_Height = 1, pi_Size = 5, pi_Value = 10, pi_Winners = []\<rparr>),
     se_ExistsExpiredTicket = (\<lambda>_. False), se_MissedByBlock = []\<rparr>"

definition ex_coinbase :: MsgTx where
  "ex_coinbase = \<lparr>mt_Hash = ''c1'', mt_TxIn = [\<lparr>ti_PrevHash = zeroHashStr, ti_PrevIndex = 0, ti_PrevTree = 0, ti_ValueIn = 5\<rparr>],
     mt_TxOut = [\<lparr>to_Value = 5, to_Addresses = [''x'']\<rparr>], mt_Type = 0, mt_Mix = (0, 0), mt_VoteOk = False\<rparr>"

definition ex_msg :: MsgBlock where
  "ex_msg = \<lparr>mb_Hash = ''A'', mb_Height = 1, mb_PrevBlock = ''G'', mb_Timestamp = 9, mb_VoteBits = 1,
     mb_Transactions = [ex_coinbase], mb_STransactions = []\<rparr>"

definition ex_before :: "unit ChainDB" where
  "ex_before = ex_pgb (empty_db\<lparr>t_meta := [\<lparr>best_block_height = 0, best_block_hash = ''G''\<rparr>]\<rparr>) ''G'' 0"

definition ex_after :: "unit ChainDB" where
  "ex_after = fst (StoreBlock False ex_view ex_msg True True False False ex_before)"

lemma ex_stored: "StoreBlock False ex_view ex_msg True True False False ex_before = (ex_after, Inr ())"
proof -
  have "snd (StoreBlock False ex_view ex_msg True True False False ex_before) = Inr ()" by code_simp
  then show ?thesis by (metis ex_after_def prod.collapse)
qed

theorem StoreBlock_tip_witness:
  "bb_height ex_after = mb_Height ex_msg \<and> bb_hash ex_after = mb_Hash ex_msg \<and>
    t_meta (data (db_conn ex_after)) = [\<lparr>best_block_height = mb_Height ex_msg, best_block_hash = mb_Hash ex_msg\<rparr>] \<and>
    mb_Hash ex_msg \<in> main_hashes (data (db_conn ex_after)) \<and> mb_Height ex_msg \<in> s_height ` set (t_stats (data (db_conn ex_after)))"
  by (rule StoreBlock_tip [OF ex_stored])




section \<open>Votes on a side chain\<close>

text \<open>The block \<open>S\<close> is on a side chain; it has the vote of the ticket \<open>k\<close>, which the main chain block \<open>G\<close> bought.\<close>

definition ex_vote :: MsgTx where
  "ex_vote = \<lparr>mt_Hash = ''v1'', mt_TxIn = [\<lparr>ti_PrevHash = zeroHashStr, ti_PrevIndex = 0, ti_PrevTree = 0, ti_ValueIn = 1\<rparr>,
       \<lparr>ti_PrevHash = ''k'', ti_PrevIndex = 0, ti_PrevTree = 1, ti_ValueIn = 5\<rparr>],
     mt_TxOut = [\<lparr>to_Value = 6, to_Addresses = [''y'']\<rparr>], mt_Type = 2, mt_Mix = (0, 0), mt_VoteOk = True\<rparr>"

definition ex_side :: MsgBlock where
  "ex_side = \<lparr>mb_Hash = ''S'', mb_Height = 1, mb_PrevBlock = ''G'', mb_Timestamp = 9, mb_VoteBits = 1,
     mb_Transactions = [ex_coinbase], mb_STransactions = [ex_vote]\<rparr>"

definition ex_ticket :: tickets_row where
  "ex_ticket = \<lparr>k_id = 1, k_tx_hash = ''k'', k_block_hash = ''G'', k_block_height = 0, k_purchase_tx_db_id = 1,
     k_spend_type = TicketUnspent, k_pool_status = PoolStatusLive, k_is_mainchain = True, k_spend_height = None,
     k_spend_tx_db_id = None\<rparr>"

definition ex_live :: "unit ChainDB" where
  "ex_live = ex_pgb (empty_db
    \<lparr>t_blocks := [ex_bk 1 ''G'' 0 [1] []], t_tickets := [ex_ticket],
     t_meta := [\<lparr>best_block_height = 0, best_block_hash = ''G''\<rparr>]\<rparr>) ''G'' 0"

definition ex_side_after :: "unit ChainDB" where
  "ex_side_after = fst (StoreBlock False ex_view ex_side True False False False ex_live)"

lemma ex_side_tickets: "t_tickets (data (db_conn ex_side_after)) =
    [ex_ticket\<lparr>k_spend_type := TicketVoted, k_pool_status := PoolStatusVoted, k_spend_height := Some 1, k_spend_tx_db_id := Some 11\<rparr>]"
  by code_simp

lemma ex_side_rest:
  "snd (StoreBlock False ex_view ex_side True False False False ex_live) = Inr ()"
  "map (\<lambda>r. (t_id r, t_block_hash r, t_is_mainchain r)) (t_transactions (data (db_conn ex_side_after))) = [(10, ''S'', False), (11, ''S'', False)]"
  by code_simp+


section \<open>Spending with the cache\<close>

text \<open>The output \<open>o\<close> of the main chain is spent by \<open>t\<close>; it is cached as the table has it.\<close>

definition ex_spent :: vouts_row where
  "ex_spent = \<lparr>o_id = 4, o_tx_hash = ''o'', o_tx_index = 0, o_tx_tree = 0, o_value = 7, o_script_addresses = [''x''],
     o_mixed = False, o_spend_tx_row_id = None\<rparr>"

definition ex_spender :: Tx where
  "ex_spender = \<lparr>tx_BlockHash = ''A'', tx_BlockHeight = 1, tx_BlockTime = 9, tx_TxType = 0, tx_Tree = 0, tx_TxID = ''t'',
     tx_BlockIndex = 0, tx_Spent = 7, tx_Sent = 7, tx_MixCount = 0, tx_MixDenom = 0, tx_VinDbIds = [3], tx_VoutDbIds = [5],
     tx_Vouts = [], tx_IsValid = True, tx_IsMainchainBlock = True\<rparr>"

definition ex_input :: VinTxProperty where
  "ex_input = \<lparr>vi_PrevTxHash = ''o'', vi_PrevTxIndex = 0, vi_PrevTxTree = 0, vi_ValueIn = 7, vi_TxID = ''t'', vi_TxIndex = 0,
     vi_TxTree = 0, vi_TxType = 0, vi_IsValid = True, vi_IsMainchain = True, vi_Time = 9\<rparr>"

definition ex_funded :: "unit ChainDB" where
  "ex_funded = ex_pgb (empty_db\<lparr>t_vouts := [ex_spent]\<rparr>) ''G'' 0"

definition ex_cache :: utxoStore where
  "ex_cache = utxo_Set ''o'' 0 \<lparr>ud_Addresses = [''x''], ud_Value = 7, ud_Mixed = False, ud_VoutDbID = 4\<rparr> []"

theorem cached_spending_same_witness:
  "\<exists>p' r u'. spend_txs True False True True [(ex_spender, [ex_input])] [8] ex_funded = (p', r) \<and>
    spend_txs True False True True [(ex_spender, [ex_input])] [8] (ex_funded\<lparr>db_utxoCache := ex_cache\<rparr>) =
      (p'\<lparr>db_utxoCache := u'\<rparr>, r) \<and> cache_shrinks ex_cache u'"
proof (rule cached_spending_same)
  have "utxo_Peek ''o'' 0 ex_cache = Some \<lparr>ud_Addresses = [''x''], ud_Value = 7, ud_Mixed = False, ud_VoutDbID = 4\<rparr>"
    by code_simp
  then show "cache_agrees ex_cache (data (db_conn ex_funded)) (all_vins [(ex_spender, [ex_input])])"
    by (simp add: cache_agrees_def all_vins_def ex_input_def vout_data_def ex_funded_def ex_pgb_def ex_spent_def)
qed (simp_all add: ex_funded_def ex_pgb_def)

end
