(* ===== verification/ChainReorg.thy ===== *)
theory ChainReorg
  imports ChainStoreExamples Chain
begin

text \<open>
  The chain monitor of the database (\<open>db/dcrpg/chainmonitor.go\<close>): a reorganisation moves the blocks above the
  common ancestor to a side chain and stores the blocks of the new chain. The node and the stake database
  are asked for blocks; their answers are parameters. \<open>None\<close> is a reorganisation that never ends, since
  \<open>TipToSideChain\<close> does not.
\<close>

section \<open>What is asked of the node\<close>

text \<open>
  \<open>GetBlockHash\<close>, \<open>GetBlock\<close> and \<open>GetChainWork\<close> of the RPC client (an answer, or an error), \<open>BlockCached\<close> of the
  stake database, the string of a hash, and the pool information that storing reads.
\<close>

record reorg_env =
  re_GetBlockHash :: "int \<Rightarrow> string option"
  re_GetBlock :: "string \<Rightarrow> MsgBlock option"
  re_GetChainWork :: "string \<Rightarrow> bool"
  re_BlockCached :: "int \<Rightarrow> MsgBlock option"
  re_String :: "Hash \<Rightarrow> string"
  re_stake :: stake_view

datatype reorg_failure =
    NoSideChainGiven
  | NotFlagged
  | DisconnectFailedAt int int
  | GetBlockHashFailed int
  | NoSideChainBlock string
  | NoChainWork string
  | ConnectError string sql_error
  | NotAtTip int int
  | NotAtNewHeight int
  | NotAtNewHash string

section \<open>Connecting the blocks\<close>

text \<open>The hashes of the blocks from a height on, which the tables lack.\<close>

fun missing_hashes :: "reorg_env \<Rightarrow> int \<Rightarrow> nat \<Rightarrow> reorg_failure + string list" where
  "missing_hashes env h 0 = Inr []"
| "missing_hashes env h (Suc n) =
    (case re_GetBlockHash env h of
       None \<Rightarrow> Inl (GetBlockHashFailed h)
     | Some hs \<Rightarrow> (case missing_hashes env (h + 1) n of Inl e \<Rightarrow> Inl e | Inr rest \<Rightarrow> Inr (hs # rest)))"

text \<open>A cached block is used only when it is the one that is asked for.\<close>

definition find_block :: "reorg_env \<Rightarrow> int \<Rightarrow> string \<Rightarrow> MsgBlock option" where
  "find_block env currentHeight hs =
    (case re_BlockCached env currentHeight of
       Some mb \<Rightarrow> if mb_Hash mb = hs then Some mb else re_GetBlock env hs
     | None \<Rightarrow> re_GetBlock env hs)"

text \<open>The result is the height and the hash of the last block that was stored.\<close>

fun connect_blocks :: "bool \<Rightarrow> reorg_env \<Rightarrow> string list \<Rightarrow> int \<Rightarrow> int \<times> string \<Rightarrow> 'c ChainDB \<Rightarrow>
    'c ChainDB \<times> (reorg_failure + (int \<times> string))" where
  "connect_blocks stakeFirst env [] currentHeight end p = (p, Inr end)"
| "connect_blocks stakeFirst env (hs # rest) currentHeight end p =
    (case find_block env currentHeight hs of
       None \<Rightarrow> (p, Inl (NoSideChainBlock hs))
     | Some mb \<Rightarrow>
         if \<not> re_GetChainWork env (mb_Hash mb) then (p, Inl (NoChainWork (mb_Hash mb)))
         else
           (case StoreBlock stakeFirst (re_stake env) mb True True True True p of
              (p', Inl e) \<Rightarrow> (p', Inl (ConnectError hs e))
            | (p', Inr _) \<Rightarrow> connect_blocks stakeFirst env rest (currentHeight + 1) (mb_Height mb, mb_Hash mb) p'))"

section \<open>The switch\<close>

text \<open>The move to the side chain, when the tables reach the common ancestor: the height of the best block follows.\<close>

definition rewind_to :: "string \<Rightarrow> int \<Rightarrow> 'c ChainDB \<Rightarrow> ('c ChainDB \<times> (reorg_failure + int)) option" where
  "rewind_to mainRoot commonAncestorHeight p =
    (if bb_height p < commonAncestorHeight then Some (p, Inr (bb_height p))
     else
       (case TipToSideChain mainRoot p of
          None \<Rightarrow> None
        | Some (p', newMainRoot, n) \<Rightarrow>
            Some (p', if mainRoot \<noteq> newMainRoot then Inl NotFlagged
              else if bb_height p' \<noteq> commonAncestorHeight then Inl (DisconnectFailedAt (bb_height p') commonAncestorHeight)
              else Inr (bb_height p'))))"

definition connect_new_chain :: "bool \<Rightarrow> reorg_env \<Rightarrow> string list \<Rightarrow> int \<Rightarrow> int \<Rightarrow> 'c ChainDB \<Rightarrow>
    'c ChainDB \<times> (reorg_failure + (int \<times> string))" where
  "connect_new_chain stakeFirst env newChain commonAncestorHeight mainTip p =
    (case missing_hashes env (mainTip + 1) (nat (commonAncestorHeight - mainTip)) of
       Inl e \<Rightarrow> (p, Inl e)
     | Inr missing \<Rightarrow>
         (case connect_blocks stakeFirst env (missing @ newChain) (mainTip + 1) (0, zeroHashStr) p of
            (p', Inl e) \<Rightarrow> (p', Inl e)
          | (p', Inr (endHeight, endHash)) \<Rightarrow>
              (p', if bb_height p' \<noteq> endHeight then Inl (NotAtTip endHeight (bb_height p')) else Inr (endHeight, endHash))))"

definition switch_main_chain :: "bool \<Rightarrow> reorg_env \<Rightarrow> ReorgData option \<Rightarrow> 'c ChainDB \<Rightarrow>
    ('c ChainDB \<times> (reorg_failure + (int \<times> string))) option" where
  "switch_main_chain stakeFirst env reorgData p =
    (case reorgData of
       None \<Rightarrow> Some (p, Inl NoSideChainGiven)
     | Some r \<Rightarrow>
         if NewChain r = [] then Some (p, Inl NoSideChainGiven)
         else
           (let commonAncestorHeight = sint (NewChainHeight r) - int (length (NewChain r))
            in case rewind_to (re_String env (ReorgAncestor r)) commonAncestorHeight p of
                 None \<Rightarrow> None
               | Some (p', Inl e) \<Rightarrow> Some (p', Inl e)
               | Some (p', Inr mainTip) \<Rightarrow>
                   Some (connect_new_chain stakeFirst env (map (re_String env) (NewChain r)) commonAncestorHeight mainTip p')))"

text \<open>The handler of the notifier.\<close>

definition db_ReorgHandler :: "bool \<Rightarrow> reorg_env \<Rightarrow> ReorgData \<Rightarrow> 'c ChainDB \<Rightarrow> ('c ChainDB \<times> reorg_failure option) option" where
  "db_ReorgHandler stakeFirst env r p =
    (case switch_main_chain stakeFirst env (Some r) p of
       None \<Rightarrow> None
     | Some (p', Inl e) \<Rightarrow> Some (p', Some e)
     | Some (p', Inr (tipHeight, tipHash)) \<Rightarrow>
         Some (p', if tipHeight \<noteq> sint (NewChainHeight r) then Some (NotAtNewHeight tipHeight)
           else if tipHash \<noteq> re_String env (NewChainHead r) then Some (NotAtNewHash tipHash)
           else None))"

section \<open>The main chain\<close>

text \<open>Storing a block puts no other block on the main chain, and takes none from it.\<close>

definition mains_grow :: "string \<Rightarrow> db \<Rightarrow> db \<Rightarrow> bool" where
  "mains_grow h d d' \<longleftrightarrow> main_hashes d \<subseteq> main_hashes d' \<and> main_hashes d' \<subseteq> insert h (main_hashes d)"

lemma mains_grow_trans: "mains_grow h d1 d2 \<Longrightarrow> mains_grow h d2 d3 \<Longrightarrow> mains_grow h d1 d3"
  unfolding mains_grow_def by blast

lemma mains_grow_blocks: "t_blocks d' = t_blocks d \<Longrightarrow> mains_grow h d d'"
  by (auto simp: mains_grow_def main_hashes_def)

lemma main_BlockInsert_only: "main_hashes (fst (BlockInsert checked b d)) \<subseteq> insert (b_hash b) (main_hashes d)"
  by (cases "checked \<and> filter (\<lambda>r. b_hash r = b_hash b) (t_blocks d) \<noteq> []")
    (auto simp: BlockInsert_def insert_row_def Let_def main_hashes_def set_update_where split: if_splits)

lemma main_last_valid: "main_hashes (fst (UpdateLastBlockValid_sql i valid d)) \<subseteq> main_hashes d"
  by (auto simp: UpdateLastBlockValid_sql_def main_hashes_def set_update_where)

interpretation mg: statement_contract "mains_grow (mb_Hash mb)" checked True mb for checked mb
proof (unfold_locales, goal_cases)
  case (1 d)
  then show ?case by (auto simp: mains_grow_def)
next
  case (2 d1 d2 d3)
  then show ?case by (rule mains_grow_trans)
next
  case (3 d d')
  then show ?case by (simp add: mains_grow_def main_hashes_def subset_insertI)
next
  case (16 b d)
  then show ?case
    using mains_BlockInsert [of b d checked] main_BlockInsert_only [of checked b d] by (simp add: mains_grow_def mains_stay_def)
next
  case (19 d i)
  then show ?case
    using mains_last_valid [of d i False] main_last_valid [of i False d] by (auto simp: mains_grow_def mains_stay_def)
qed (simp_all add: mains_grow_blocks)

lemma StoreBlock_mains:
  assumes "StoreBlock stakeFirst sv mb isValid True upsert upd p = (p', r)"
  shows "main_hashes (data (db_conn p)) \<subseteq> main_hashes (data (db_conn p'))"
    "main_hashes (data (db_conn p')) \<subseteq> insert (mb_Hash mb) (main_hashes (data (db_conn p)))"
  using mg.StoreBlock_R [of p "db_dupChecks p" mb stakeFirst sv isValid upsert upd] assms by (simp_all add: mains_grow_def)

text \<open>The node answers with the block that is asked for.\<close>

definition serves_asked :: "reorg_env \<Rightarrow> bool" where
  "serves_asked env \<longleftrightarrow> (\<forall>k mb. re_GetBlock env k = Some mb \<longrightarrow> mb_Hash mb = k)"

text \<open>The tables after the blocks, of which the first were stored.\<close>

lemma connect_blocks_mains:
  assumes "connect_blocks stakeFirst env hs h start p = (p', r)" "serves_asked env"
  shows "main_hashes (data (db_conn p)) \<subseteq> main_hashes (data (db_conn p'))"
    "main_hashes (data (db_conn p')) \<subseteq> main_hashes (data (db_conn p)) \<union> set hs"
    "\<And>e. r = Inr e \<Longrightarrow> set hs \<subseteq> main_hashes (data (db_conn p'))"
proof -
  have "main_hashes (data (db_conn p)) \<subseteq> main_hashes (data (db_conn p')) \<and>
      main_hashes (data (db_conn p')) \<subseteq> main_hashes (data (db_conn p)) \<union> set hs \<and>
      (\<forall>e. r = Inr e \<longrightarrow> set hs \<subseteq> main_hashes (data (db_conn p')))"
    using assms(1)
  proof (induction hs arbitrary: h start p)
    case Nil
    then show ?case by auto
  next
    case (Cons k hs)
    show ?case
    proof (cases "find_block env h k")
      case None
      then show ?thesis using Cons.prems by auto
    next
      case (Some mb)
      have k: "mb_Hash mb = k"
        using Some assms(2) by (auto simp: serves_asked_def find_block_def split: option.splits if_splits)
      obtain p1 r1 where st: "StoreBlock stakeFirst (re_stake env) mb True True True True p = (p1, r1)" by fastforce
      note mains = StoreBlock_mains [OF st, unfolded k]
      show ?thesis
      proof (cases "re_GetChainWork env k")
        case False
        then show ?thesis using Cons.prems Some k by auto
      next
        case work: True
        show ?thesis
        proof (cases r1)
          case (Inl e)
          then show ?thesis using Cons.prems Some k st work mains by auto
        next
          case (Inr u)
          have rest: "connect_blocks stakeFirst env hs (h + 1) (mb_Height mb, mb_Hash mb) p1 = (p', r)"
            using Cons.prems Some st work Inr k by simp
          have "k \<in> main_hashes (data (db_conn p1))"
            using StoreBlock_makes_tip [OF st [unfolded Inr unit_eq [of u]]] k by simp
          then show ?thesis
            using Cons.IH [OF rest] mains by auto
        qed
      qed
    qed
  qed
  then show "main_hashes (data (db_conn p)) \<subseteq> main_hashes (data (db_conn p'))"
    "main_hashes (data (db_conn p')) \<subseteq> main_hashes (data (db_conn p)) \<union> set hs"
    "\<And>e. r = Inr e \<Longrightarrow> set hs \<subseteq> main_hashes (data (db_conn p'))"
    by blast+
qed

text \<open>The best block after the last block.\<close>

lemma connect_blocks_best:
  assumes "connect_blocks stakeFirst env hs h start p = (p', Inr (n, e))" "hs \<noteq> []"
  shows "bb_height p' = n \<and> bb_hash p' = e \<and> e \<in> main_hashes (data (db_conn p')) \<and>
    t_meta (data (db_conn p')) = [\<lparr>best_block_height = n, best_block_hash = e\<rparr>]"
  using assms
proof (induction hs arbitrary: h start p)
  case (Cons k hs)
  then obtain mb where mb: "find_block env h k = Some mb" "re_GetChainWork env (mb_Hash mb)"
    by (auto split: option.splits if_splits)
  obtain p1 r1 where st: "StoreBlock stakeFirst (re_stake env) mb True True True True p = (p1, r1)" by fastforce
  with Cons.prems mb obtain u where u: "r1 = Inr u"
    by (auto split: sum.splits)
  then have rest: "connect_blocks stakeFirst env hs (h + 1) (mb_Height mb, mb_Hash mb) p1 = (p', Inr (n, e))"
    using Cons.prems mb st by simp
  show ?case
  proof (cases "hs = []")
    case True
    then show ?thesis
      using rest StoreBlock_makes_tip [OF st [unfolded u unit_eq [of u]]] by simp
  next
    case False
    then show ?thesis by (rule Cons.IH [OF rest])
  qed
qed simp

section \<open>The handler\<close>

lemma main_hashes_filter: "main_hashes d = set (map b_hash (filter b_is_mainchain (t_blocks d)))"
  by (auto simp: main_hashes_def)

lemma main_hashes_moved: "main_hashes (side_moved hs d) = main_hashes d - set hs"
  by (auto simp: main_hashes_def side_moved_def set_update_where dest: arg_cong [where f = b_is_mainchain])

lemma rewind_moves:
  assumes "outcomes (db_conn p) = []" "first_hit (data (db_conn p)) (bb_hash p) root n" "commonAncestorHeight \<le> bb_height p"
  obtains p1 r1 where "rewind_to root commonAncestorHeight p = Some (p1, r1)" "bb_hash p1 = root"
    "main_hashes (data (db_conn p1)) = main_hashes (data (db_conn p)) - set (walk (data (db_conn p)) (bb_hash p) n)"
    "\<And>h. r1 = Inr h \<Longrightarrow> h = commonAncestorHeight"
proof (rule TipToSideChain_result [OF assms(1,2)])
  fix as
  assume "TipToSideChain root p = Some (p\<lparr>db_conn := (db_conn p)\<lparr>data := side_moved (walk (data (db_conn p)) (bb_hash p) n) (data (db_conn p))\<rparr>,
      bb_height := (if n = 0 then bb_height p else height_of (data (db_conn p)) root), bb_hash := root,
      db_AddressCache := fst (Clear (Some as) (db_AddressCache p))\<rparr>, root, n)"
  then obtain p1 where p1: "TipToSideChain root p = Some (p1, root, n)" "bb_hash p1 = root"
      "data (db_conn p1) = side_moved (walk (data (db_conn p)) (bb_hash p) n) (data (db_conn p))"
    by simp
  show ?thesis
  proof (rule that)
    show "rewind_to root commonAncestorHeight p = Some (p1, if bb_height p1 \<noteq> commonAncestorHeight
        then Inl (DisconnectFailedAt (bb_height p1) commonAncestorHeight) else Inr (bb_height p1))"
      using assms(3) p1(1) by (simp add: rewind_to_def)
  qed (use p1(2,3) in \<open>simp_all add: main_hashes_moved split: if_splits\<close>)
qed


text \<open>
  C11. A reorganisation that reports no failure leaves the new head as the best block, in memory, in the meta
  table and on the main chain of the table of blocks, at the height that was announced; also when the tables
  were behind the common ancestor, and whatever the node answered on the way.
\<close>

theorem reorg_reaches_head:
  assumes "db_ReorgHandler stakeFirst env r p = Some (p', None)"
  shows "bb_hash p' = re_String env (NewChainHead r) \<and> bb_height p' = sint (NewChainHeight r) \<and>
    t_meta (data (db_conn p')) =
      [\<lparr>best_block_height = sint (NewChainHeight r), best_block_hash = re_String env (NewChainHead r)\<rparr>] \<and>
    re_String env (NewChainHead r) \<in> main_hashes (data (db_conn p'))"
proof -
  obtain h e where s: "switch_main_chain stakeFirst env (Some r) p = Some (p', Inr (h, e))"
      and at: "h = sint (NewChainHeight r)" "e = re_String env (NewChainHead r)"
    using assms by (auto simp: db_ReorgHandler_def split: option.splits sum.splits prod.splits if_splits)
  from s obtain p1 mainTip where "NewChain r \<noteq> []"
      "connect_new_chain stakeFirst env (map (re_String env) (NewChain r)) (sint (NewChainHeight r) - int (length (NewChain r))) mainTip p1
        = (p', Inr (h, e))"
    by (auto simp: switch_main_chain_def Let_def split: option.splits sum.splits prod.splits if_splits)
  then obtain hs where "connect_blocks stakeFirst env hs (mainTip + 1) (0, zeroHashStr) p1 = (p', Inr (h, e))" "hs \<noteq> []"
    by (auto simp: connect_new_chain_def split: sum.splits prod.splits if_splits)
  then show ?thesis
    using connect_blocks_best at by blast
qed

section \<open>An example\<close>

text \<open>The block \<open>A\<close> on the block \<open>G\<close> is replaced by the block \<open>B\<close>.\<close>

definition ex_new :: MsgBlock where
  "ex_new = ex_msg\<lparr>mb_Hash := ''B'', mb_Transactions := [ex_coinbase\<lparr>mt_Hash := ''cb''\<rparr>]\<rparr>"

definition ex_reorg_env :: reorg_env where
  "ex_reorg_env = \<lparr>re_GetBlockHash = (\<lambda>_. None), re_GetBlock = (\<lambda>h. if h = ''B'' then Some ex_new else None),
     re_GetChainWork = (\<lambda>_. True), re_BlockCached = (\<lambda>_. None), re_String = (\<lambda>h. if h = zeroHash then ''G'' else ''B''),
     re_stake = ex_view\<rparr>"

definition ex_head :: Hash where
  "ex_head = replicate 32 1"

definition ex_reorg :: ReorgData where
  "ex_reorg = \<lparr>ReorgAncestor = zeroHash, OldChainHead = [], OldChainHeight = 1, OldChain = [], NewChainHead = ex_head,
     NewChainHeight = 1, NewChain = [ex_head]\<rparr>"

declare TipToSideChain_loop.simps [code]

definition ex_switched :: "unit ChainDB" where
  "ex_switched = fst (the (db_ReorgHandler False ex_reorg_env ex_reorg (ex_pgb ex_tables ''A'' 1)))"

lemma ex_switch: "db_ReorgHandler False ex_reorg_env ex_reorg (ex_pgb ex_tables ''A'' 1) = Some (ex_switched, None)"
proof -
  have "map_option snd (db_ReorgHandler False ex_reorg_env ex_reorg (ex_pgb ex_tables ''A'' 1)) = Some None"
    by code_simp
  then show ?thesis by (auto simp: ex_switched_def)
qed

theorem reorg_reaches_head_witness:
  "bb_hash ex_switched = ''B'' \<and> bb_height ex_switched = 1 \<and>
    t_meta (data (db_conn ex_switched)) = [\<lparr>best_block_height = 1, best_block_hash = ''B''\<rparr>] \<and>
    ''B'' \<in> main_hashes (data (db_conn ex_switched))"
proof -
  have "sint (NewChainHeight ex_reorg) = 1" "re_String ex_reorg_env (NewChainHead ex_reorg) = ''B''"
    by (simp_all add: ex_reorg_def ex_reorg_env_def ex_head_def zeroHash_def HashSize_def)
  then show ?thesis
    using reorg_reaches_head [OF ex_switch] by simp
qed


end
