(* ===== verification/PubSub.thy ===== *)
theory PubSub
  imports Prelude
begin

text \<open>
  The websocket hub that distributes new blocks and transactions to its clients (\<open>pubsub/websocket.go\<close>, with the
  signals of \<open>pubsub/types/pubsub_types.go\<close> and the send loop of \<open>pubsub/pubsubhub.go\<close>). A connection is known by
  the number of its channel; the hub and the loops of the connection share its data. Transactions are given
  by their hashes. The order in which \<open>range\<close> visits the clients and the choices of \<open>select\<close> are parameters.
\<close>

section \<open>Signals and messages\<close>

text \<open>The constants of \<open>HubSignal\<close>, and any other integer.\<close>

datatype HubSignal =
    SigSubscribe | SigUnsubscribe | SigDecodeTx | SigGetMempoolTxs | SigSendTx | SigVersion | SigNewBlock
  | SigNewLTCBlock | SigNewBTCBlock | SigMempoolUpdate | SigPingAndUserCount | SigNewTx | SigNewTxs | SigAddressTx
  | SigSyncStatus | SigByeNow | SigUnknown | SigSummaryInfo | SigSummary24h | SigNewXMRBlock | SigXmrMempoolStatus
  | SigOther int

text \<open>What an interface value can hold: pointers may be nil.\<close>

datatype HubPayload =
    NoPayload
  | AddressMessage "(string \<times> string) option"
  | TxPayload "string option"
  | TxsPayload "string list"

record HubMessage =
  Signal :: HubSignal
  Msg :: HubPayload

definition Subscriptions :: "string \<Rightarrow> HubSignal option" where
  "Subscriptions = map_of
    [(''newblock'', SigNewBlock), (''newltcblock'', SigNewLTCBlock), (''newbtcblock'', SigNewBTCBlock),
     (''mempool'', SigMempoolUpdate), (''ping'', SigPingAndUserCount), (''newtxs'', SigNewTxs), (''address'', SigAddressTx),
     (''blockchainSync'', SigSyncStatus), (''summaryinfo'', SigSummaryInfo), (''summary24h'', SigSummary24h),
     (''xmrMempoolStatus'', SigXmrMempoolStatus), (''newxmrblock'', SigNewXMRBlock)]"

text \<open>\<open>checkDecode\<close> is whether \<open>base58.CheckDecode\<close> accepts an address.\<close>

definition ValidateSubscription :: "(string \<Rightarrow> bool) \<Rightarrow> string \<Rightarrow> HubSignal \<times> HubPayload \<times> bool" where
  "ValidateSubscription checkDecode event =
    (let sig = takeWhile (\<lambda>ch. ch \<noteq> CHR '':'') event;
         msgStr = drop 1 (dropWhile (\<lambda>ch. ch \<noteq> CHR '':'') event)
     in case Subscriptions sig of
          None \<Rightarrow> (SigUnknown, NoPayload, False)
        | Some SigAddressTx \<Rightarrow>
            if checkDecode msgStr then (SigAddressTx, AddressMessage (Some (msgStr, [])), True)
            else (SigUnknown, NoPayload, False)
        | Some sub \<Rightarrow> if msgStr \<noteq> [] then (SigUnknown, NoPayload, False) else (sub, NoPayload, True))"

definition Signal_IsValid :: "HubSignal \<Rightarrow> bool" where
  "Signal_IsValid s = (case s of SigOther _ \<Rightarrow> False | _ \<Rightarrow> True)"

definition HubMessage_IsValid :: "HubMessage \<Rightarrow> bool" where
  "HubMessage_IsValid m =
    (if \<not> Signal_IsValid (Signal m) then False
     else
       (case (Signal m, Msg m) of
          (SigAddressTx, AddressMessage _) \<Rightarrow> True
        | (SigAddressTx, _) \<Rightarrow> False
        | (SigNewTx, TxPayload _) \<Rightarrow> True
        | (SigNewTx, _) \<Rightarrow> False
        | (SigNewTxs, TxsPayload _) \<Rightarrow> True
        | (SigNewTxs, _) \<Rightarrow> False
        | _ \<Rightarrow> True))"

section \<open>Clients\<close>

text \<open>The client of a connection, with its channel (the hub spoke), which holds up to 16 messages.\<close>

record ws_client =
  wc_subs :: "HubSignal set"
  wc_addrs :: "string set"
  wc_newTxs :: "string list"
  wc_killed :: bool
  wc_spoke :: "HubMessage list"
  wc_closed :: bool

definition NewTxBufferSize :: nat where
  "NewTxBufferSize = 5"

definition spokeSize :: nat where
  "spokeSize = 16"

definition newClient :: ws_client where
  "newClient = \<lparr>wc_subs = {}, wc_addrs = {}, wc_newTxs = [], wc_killed = False, wc_spoke = [], wc_closed = False\<rparr>"

definition isSubscribed :: "HubMessage \<Rightarrow> ws_client \<Rightarrow> (bool, unit) go_result" where
  "isSubscribed msg c =
    (if Signal msg \<notin> wc_subs c then Ret False
     else if Signal msg = SigAddressTx
     then (case Msg msg of
             AddressMessage None \<Rightarrow> Panics
           | AddressMessage (Some am) \<Rightarrow> Ret (fst am \<in> wc_addrs c)
           | _ \<Rightarrow> Ret False)
     else Ret True)"

definition not_subscribable :: "HubSignal set" where
  "not_subscribable = {SigPingAndUserCount, SigByeNow, SigDecodeTx, SigSendTx, SigSubscribe, SigUnsubscribe}"

definition subscribe :: "HubMessage \<Rightarrow> ws_client \<Rightarrow> ws_client \<times> (bool, unit) go_result" where
  "subscribe msg c =
    (if Signal msg = SigAddressTx
     then (case Msg msg of
             AddressMessage None \<Rightarrow> (c, Panics)
           | AddressMessage (Some am) \<Rightarrow>
               (c\<lparr>wc_addrs := insert (fst am) (wc_addrs c), wc_subs := insert SigAddressTx (wc_subs c)\<rparr>, Ret True)
           | _ \<Rightarrow> (c, Fail ()))
     else if Signal msg \<in> not_subscribable then (c, Ret False)
     else (c\<lparr>wc_subs := insert (Signal msg) (wc_subs c)\<rparr>, Ret True))"

text \<open>Address messages end only with the last address.\<close>

definition unsubscribe :: "HubMessage \<Rightarrow> ws_client \<Rightarrow> ws_client \<times> (unit, unit) go_result" where
  "unsubscribe msg c =
    (if Signal msg = SigAddressTx
     then (case Msg msg of
             AddressMessage None \<Rightarrow> (c, Panics)
           | AddressMessage (Some am) \<Rightarrow>
               (let as = wc_addrs c - {fst am}
                in (c\<lparr>wc_addrs := as, wc_subs := (if as = {} then wc_subs c - {SigAddressTx} else wc_subs c)\<rparr>, Ret ()))
           | _ \<Rightarrow> (c, Fail ()))
     else (c\<lparr>wc_subs := wc_subs c - {Signal msg}\<rparr>, Ret ()))"

definition unsubscribeAll :: "ws_client \<Rightarrow> ws_client" where
  "unsubscribeAll c = c\<lparr>wc_subs := {}, wc_addrs := {}\<rparr>"

text \<open>
  The requests of a client that change its subscriptions, with the success that is answered; the legacy
  subscription for pings is answered with success, and is none.
\<close>

definition request_subscribe :: "(string \<Rightarrow> bool) \<Rightarrow> string \<Rightarrow> ws_client \<Rightarrow> ws_client \<times> (bool, unit) go_result" where
  "request_subscribe checkDecode event c =
    (case ValidateSubscription checkDecode event of
       (sig, msg, valid) \<Rightarrow>
         if \<not> valid then (c, Ret False)
         else
           (case subscribe \<lparr>Signal = sig, Msg = msg\<rparr> c of
              (c', Ret ok) \<Rightarrow> (c', Ret (ok \<or> sig = SigPingAndUserCount))
            | (c', Fail _) \<Rightarrow> (c', Ret False)
            | (c', Panics) \<Rightarrow> (c', Panics)))"

definition request_unsubscribe :: "(string \<Rightarrow> bool) \<Rightarrow> string \<Rightarrow> ws_client \<Rightarrow> ws_client \<times> (bool, unit) go_result" where
  "request_unsubscribe checkDecode event c =
    (case ValidateSubscription checkDecode event of
       (sig, msg, valid) \<Rightarrow>
         if \<not> valid then (c, Ret False)
         else
           (case unsubscribe \<lparr>Signal = sig, Msg = msg\<rparr> c of
              (c', Ret _) \<Rightarrow> (c', Ret True)
            | (c', Fail _) \<Rightarrow> (c', Ret False)
            | (c', Panics) \<Rightarrow> (c', Panics)))"

section \<open>The send loop of a connection\<close>

text \<open>What is pushed to the client: the state for a signal, the buffered transactions, or the number of clients.\<close>

datatype push = NoPush | PushState HubSignal | PushTxs "string list" | PushUserCount nat | PushBye | PushAddress "string \<times> string"

definition push_of :: "nat \<Rightarrow> HubMessage \<Rightarrow> ws_client \<Rightarrow> ws_client \<times> push" where
  "push_of n msg c =
    (if \<not> HubMessage_IsValid msg then (c, NoPush)
     else if Signal msg \<notin> {SigByeNow, SigPingAndUserCount} \<and> isSubscribed msg c \<noteq> Ret True then (c, NoPush)
     else
       (case Signal msg of
          SigAddressTx \<Rightarrow> (c, case Msg msg of AddressMessage (Some am) \<Rightarrow> PushAddress am | _ \<Rightarrow> NoPush)
        | SigPingAndUserCount \<Rightarrow> (c, PushUserCount n)
        | SigByeNow \<Rightarrow> (c, PushBye)
        | SigNewTxs \<Rightarrow> if wc_newTxs c = [] then (c, NoPush) else (c\<lparr>wc_newTxs := []\<rparr>, PushTxs (wc_newTxs c))
        | s \<Rightarrow>
            if s \<in> {SigNewBlock, SigSummaryInfo, SigSummary24h, SigNewLTCBlock, SigNewBTCBlock, SigMempoolUpdate}
            then (c, PushState s) else (c, NoPush)))"

text \<open>The loops have ended, and with them the connection.\<close>

definition end_of_connection :: "ws_client \<Rightarrow> ws_client" where
  "end_of_connection c = (unsubscribeAll c)\<lparr>wc_killed := True\<rparr>"

text \<open>
  One turn of the loop; \<open>sent\<close> is whether writing to the connection works. The connection ends when the write
  fails, and when the channel is closed and empty.
\<close>

definition sendLoop_turn :: "bool \<Rightarrow> nat \<Rightarrow> ws_client \<Rightarrow> ws_client \<times> push" where
  "sendLoop_turn sent n c =
    (case wc_spoke c of
       [] \<Rightarrow> (if wc_closed c then end_of_connection c else c, NoPush)
     | msg # rest \<Rightarrow>
         (case push_of n msg (c\<lparr>wc_spoke := rest\<rparr>) of
            (c', NoPush) \<Rightarrow> (c', NoPush)
          | (c', p) \<Rightarrow> if sent then (c', p) else (end_of_connection c', NoPush)))"

text \<open>
  What the hub waits for after it has closed the channel: the loop takes what is queued and ends. With a write
  that fails it only ends earlier.
\<close>

fun run_to_end :: "nat \<Rightarrow> HubMessage list \<Rightarrow> ws_client \<Rightarrow> ws_client" where
  "run_to_end n [] c = end_of_connection c"
| "run_to_end n (msg # rest) c = run_to_end n rest (fst (push_of n msg c))"

definition close_spoke :: "nat \<Rightarrow> ws_client \<Rightarrow> ws_client" where
  "close_spoke n c =
    (if wc_killed c then c\<lparr>wc_closed := True\<rparr>
     else (run_to_end n (wc_spoke c) c)\<lparr>wc_closed := True, wc_spoke := []\<rparr>)"

section \<open>The hub\<close>

text \<open>
  \<open>wsh_conns\<close> are the connections, also those that the hub does not know any more; \<open>wsh_clients\<close> are the keys of
  its map of clients.
\<close>

record WebsocketHub =
  wsh_conns :: "(nat, ws_client) gomap"
  wsh_clients :: "nat list"
  wsh_numClients :: nat
  wsh_timeToSend :: bool

definition NewWebsocketHub :: WebsocketHub where
  "NewWebsocketHub = \<lparr>wsh_conns = [], wsh_clients = [], wsh_numClients = 0, wsh_timeToSend = False\<rparr>"

definition put_conn :: "nat \<Rightarrow> ws_client \<Rightarrow> WebsocketHub \<Rightarrow> WebsocketHub" where
  "put_conn i c h = h\<lparr>wsh_conns := mput i c (wsh_conns h)\<rparr>"

definition registerClient :: "nat \<Rightarrow> ws_client \<Rightarrow> WebsocketHub \<Rightarrow> WebsocketHub" where
  "registerClient i c h =
    (let cs = (if i \<in> set (wsh_clients h) then wsh_clients h else i # wsh_clients h)
     in (put_conn i c h)\<lparr>wsh_clients := cs, wsh_numClients := length cs\<rparr>)"

definition unregisterClient :: "nat \<Rightarrow> WebsocketHub \<Rightarrow> WebsocketHub \<times> unit status" where
  "unregisterClient i h =
    (if i \<notin> set (wsh_clients h) then (h, Ok)
     else
       (case mget (wsh_conns h) i of
          None \<Rightarrow> (h, Panic)
        | Some c \<Rightarrow>
            (let cs = remove1 i (wsh_clients h);
                 h' = h\<lparr>wsh_clients := cs, wsh_numClients := length cs\<rparr>
             in if wc_closed c then (h', Panic)
                else (put_conn i (close_spoke (length cs) c) h', Ok))))"

fun unregister_spokes :: "nat list \<Rightarrow> WebsocketHub \<Rightarrow> WebsocketHub \<times> unit status" where
  "unregister_spokes [] h = (h, Ok)"
| "unregister_spokes (i # is) h =
    (case mget (wsh_conns h) i of
       None \<Rightarrow> (h, Panic)
     | Some c \<Rightarrow>
         if wc_closed c then (h\<lparr>wsh_clients := remove1 i (wsh_clients h)\<rparr>, Panic)
         else unregister_spokes is
           (put_conn i (close_spoke 0 c) (h\<lparr>wsh_clients := remove1 i (wsh_clients h)\<rparr>)))"

definition unregisterAllClients :: "WebsocketHub \<Rightarrow> WebsocketHub \<times> unit status" where
  "unregisterAllClients h =
    (case unregister_spokes (wsh_clients h) h of
       (h', Ok) \<Rightarrow> (h'\<lparr>wsh_numClients := 0\<rparr>, Ok)
     | r \<Rightarrow> r)"

section \<open>The run loop\<close>

text \<open>
  What \<open>select\<close> takes when it sends to a client: the news that it is gone, the send, or the timer; it can take
  only what is ready, and otherwise the timer fires.
\<close>

datatype send_choice = TakeKilled | TakeSend | TakeTimer

definition sendMsg :: "(nat \<Rightarrow> send_choice) \<Rightarrow> HubMessage \<Rightarrow> nat \<Rightarrow> WebsocketHub \<Rightarrow> WebsocketHub \<times> unit status" where
  "sendMsg choice msg i h =
    (case mget (wsh_conns h) i of
       None \<Rightarrow> (h, Panic)
     | Some c \<Rightarrow>
         (case choice i of
            TakeKilled \<Rightarrow> if wc_killed c then unregisterClient i h else (h, Ok)
          | TakeSend \<Rightarrow>
              if wc_closed c then (h, Panic)
              else if length (wc_spoke c) < spokeSize then (put_conn i (c\<lparr>wc_spoke := wc_spoke c @ [msg]\<rparr>) h, Ok)
              else (h, Ok)
          | TakeTimer \<Rightarrow> (h, Ok)))"

fun sendToAll :: "(nat \<Rightarrow> send_choice) \<Rightarrow> HubMessage \<Rightarrow> nat list \<Rightarrow> WebsocketHub \<Rightarrow> WebsocketHub \<times> unit status" where
  "sendToAll choice msg [] h = (h, Ok)"
| "sendToAll choice msg (i # is) h =
    (case sendMsg choice msg i h of
       (h', Ok) \<Rightarrow> sendToAll choice msg is h'
     | r \<Rightarrow> r)"

fun sendToSubscribed :: "(nat \<Rightarrow> send_choice) \<Rightarrow> HubMessage \<Rightarrow> nat list \<Rightarrow> WebsocketHub \<Rightarrow> WebsocketHub \<times> unit status" where
  "sendToSubscribed choice msg [] h = (h, Ok)"
| "sendToSubscribed choice msg (i # is) h =
    (case mget (wsh_conns h) i of
       None \<Rightarrow> (h, Panic)
     | Some c \<Rightarrow>
         (case isSubscribed msg c of
            Ret True \<Rightarrow>
              (case sendMsg choice msg i h of
                 (h', Ok) \<Rightarrow> sendToSubscribed choice msg is h'
               | r \<Rightarrow> r)
          | Panics \<Rightarrow> (h, Panic)
          | _ \<Rightarrow> sendToSubscribed choice msg is h))"

text \<open>A new transaction goes to the buffer of every client; the answer is that for the last one.\<close>

fun addTxToBuffer_loop :: "string \<Rightarrow> nat list \<Rightarrow> bool \<Rightarrow> WebsocketHub \<Rightarrow> WebsocketHub \<times> bool" where
  "addTxToBuffer_loop tx [] ready h = (h, ready)"
| "addTxToBuffer_loop tx (i # is) ready h =
    (case mget (wsh_conns h) i of
       None \<Rightarrow> addTxToBuffer_loop tx is ready h
     | Some c \<Rightarrow>
         (let c' = c\<lparr>wc_newTxs := wc_newTxs c @ [tx]\<rparr>
          in addTxToBuffer_loop tx is (length (wc_newTxs c') \<ge> NewTxBufferSize) (put_conn i c' h)))"

definition addTxToBuffer :: "string \<Rightarrow> nat list \<Rightarrow> WebsocketHub \<Rightarrow> WebsocketHub \<times> bool" where
  "addTxToBuffer tx order h = addTxToBuffer_loop tx order False h"

text \<open>
  A message on \<open>HubRelay\<close>. A new transaction that is not to be sent yet leaves the switch only, and goes on to
  the clients as \<open>SigNewTx\<close>, to which none can subscribe.
\<close>

definition relay :: "(nat \<Rightarrow> send_choice) \<Rightarrow> nat list \<Rightarrow> nat list \<Rightarrow> HubMessage \<Rightarrow> WebsocketHub \<Rightarrow> WebsocketHub \<times> unit status" where
  "relay choice order1 order2 msg h =
    (if wsh_clients h = [] then (h, Ok)
     else if \<not> HubMessage_IsValid msg then (h, Ok)
     else if Signal msg \<in> {SigPingAndUserCount, SigByeNow} then sendToAll choice msg order2 h
     else if Signal msg = SigAddressTx
     then (if Msg msg = AddressMessage None then (h, Ok) else sendToSubscribed choice msg order2 h)
     else if Signal msg = SigNewTx
     then (case Msg msg of
             TxPayload (Some tx) \<Rightarrow>
               (case addTxToBuffer tx order1 h of
                  (h1, ready) \<Rightarrow>
                    if ready \<or> wsh_timeToSend h1
                    then (case sendToSubscribed choice \<lparr>Signal = SigNewTxs, Msg = TxsPayload []\<rparr> order2 h1 of
                            (h2, Ok) \<Rightarrow> (h2\<lparr>wsh_timeToSend := False\<rparr>, Ok)
                          | r \<Rightarrow> r)
                    else sendToSubscribed choice msg order2 h1)
           | _ \<Rightarrow> (h, Ok))
     else if Signal msg \<in> {SigNewBlock, SigNewLTCBlock, SigNewBTCBlock, SigSummaryInfo, SigSummary24h, SigMempoolUpdate, SigSyncStatus}
     then sendToSubscribed choice msg order2 h
     else (h, Ok))"

end
