(* ===== verification/PubSubContract.thy ===== *)
theory PubSubContract
  imports PubSub
begin

text \<open>
  What the websocket hub keeps: which connections it knows, that their channels are open and the others closed,
  and the subscriptions; that it never sends on or closes a closed channel; and to whom a signal goes.
\<close>

section \<open>Clients\<close>

definition client_ok :: "ws_client \<Rightarrow> bool" where
  "client_ok c \<longleftrightarrow> length (wc_spoke c) \<le> spokeSize \<and> (SigAddressTx \<in> wc_subs c \<longleftrightarrow> wc_addrs c \<noteq> {}) \<and>
    wc_subs c \<inter> insert SigNewTx not_subscribable = {}"

lemma newClient_ok [simp]: "client_ok newClient"
  by (simp add: client_ok_def newClient_def spokeSize_def)

lemma end_of_connection_ok [simp]: "client_ok c \<Longrightarrow> client_ok (end_of_connection c)"
  by (simp add: client_ok_def end_of_connection_def unsubscribeAll_def)

lemma push_of_fields:
  "wc_spoke (fst (push_of n msg c)) = wc_spoke c" "wc_subs (fst (push_of n msg c)) = wc_subs c"
  "wc_addrs (fst (push_of n msg c)) = wc_addrs c" "wc_killed (fst (push_of n msg c)) = wc_killed c"
  "wc_closed (fst (push_of n msg c)) = wc_closed c"
  by (simp_all add: push_of_def split: HubSignal.split)

lemma push_of_ok [simp]: "client_ok (fst (push_of n msg c)) = client_ok c"
  by (simp add: client_ok_def push_of_fields)

lemma run_to_end_ok [simp]: "client_ok c \<Longrightarrow> client_ok (run_to_end n q c)"
  by (induction n q c rule: run_to_end.induct) simp_all

lemma run_to_end_killed [simp]: "wc_killed (run_to_end n q c)"
  by (induction n q c rule: run_to_end.induct) (simp_all add: end_of_connection_def)

lemma close_spoke_ok: "client_ok c \<Longrightarrow> client_ok (close_spoke n c)"
  using run_to_end_ok [of c n "wc_spoke c"] by (simp add: close_spoke_def client_ok_def)

lemma close_spoke_closed [simp]: "wc_closed (close_spoke n c)" "wc_killed (close_spoke n c)"
  by (simp_all add: close_spoke_def)

lemma sendLoop_turn_ok:
  assumes "client_ok c" "sendLoop_turn sent n c = (c', p)"
  shows "client_ok c' \<and> wc_closed c' = wc_closed c"
proof (cases "wc_spoke c")
  case Nil
  then show ?thesis
    using assms by (auto simp: sendLoop_turn_def end_of_connection_def unsubscribeAll_def client_ok_def split: if_splits)
next
  case (Cons msg rest)
  have rest: "client_ok (c\<lparr>wc_spoke := rest\<rparr>)"
    using assms(1) Cons by (simp add: client_ok_def)
  obtain c1 q where q: "push_of n msg (c\<lparr>wc_spoke := rest\<rparr>) = (c1, q)" by fastforce
  have 1: "client_ok c1" "wc_closed c1 = wc_closed c"
    using rest push_of_ok [of n msg "c\<lparr>wc_spoke := rest\<rparr>"] push_of_fields(5) [of n msg "c\<lparr>wc_spoke := rest\<rparr>"] q by simp_all
  have "c' = c1 \<or> c' = end_of_connection c1"
    using assms(2) Cons q by (auto simp: sendLoop_turn_def split: push.splits if_splits)
  then show ?thesis
    using 1 by (auto simp: end_of_connection_def unsubscribeAll_def client_ok_def)
qed

lemma ValidateSubscription_address:
  "ValidateSubscription chk event = (sig, msg, valid) \<Longrightarrow> msg \<noteq> AddressMessage None"
  by (auto simp: ValidateSubscription_def Let_def split: option.splits HubSignal.splits if_splits)

lemma ValidateSubscription_newtx:
  "ValidateSubscription chk event = (sig, msg, valid) \<Longrightarrow> valid \<Longrightarrow> sig \<noteq> SigNewTx"
  by (auto simp: ValidateSubscription_def Subscriptions_def Let_def split: option.splits HubSignal.splits if_splits)

lemma request_subscribe_ok:
  assumes "client_ok c" "request_subscribe chk event c = (c', r)"
  shows "client_ok c' \<and> r \<noteq> Panics \<and> wc_closed c' = wc_closed c \<and> wc_killed c' = wc_killed c"
proof -
  obtain sig msg valid where v: "ValidateSubscription chk event = (sig, msg, valid)" by (metis prod_cases3)
  show ?thesis
    using assms ValidateSubscription_address [OF v] ValidateSubscription_newtx [OF v]
    by (auto simp: request_subscribe_def v subscribe_def client_ok_def not_subscribable_def
        split: if_splits HubPayload.splits option.splits)
qed

lemma request_unsubscribe_ok:
  assumes "client_ok c" "request_unsubscribe chk event c = (c', r)"
  shows "client_ok c' \<and> r \<noteq> Panics \<and> wc_closed c' = wc_closed c \<and> wc_killed c' = wc_killed c"
proof -
  obtain sig msg valid where v: "ValidateSubscription chk event = (sig, msg, valid)" by (metis prod_cases3)
  show ?thesis
    using assms ValidateSubscription_address [OF v]
    by (auto simp: request_unsubscribe_def v unsubscribe_def client_ok_def not_subscribable_def Let_def
        split: if_splits HubPayload.splits option.splits)
qed

section \<open>The hub\<close>

definition hub_ok :: "WebsocketHub \<Rightarrow> bool" where
  "hub_ok h \<longleftrightarrow> wf_map (wsh_conns h) \<and> distinct (wsh_clients h) \<and> wsh_numClients h = length (wsh_clients h) \<and>
    (\<forall>i \<in> set (wsh_clients h). mget (wsh_conns h) i \<noteq> None) \<and>
    (\<forall>i c. mget (wsh_conns h) i = Some c \<longrightarrow> client_ok c \<and> (wc_closed c \<longleftrightarrow> i \<notin> set (wsh_clients h)) \<and>
      (wc_closed c \<longrightarrow> wc_killed c))"

lemma hub_okD:
  assumes "hub_ok h"
  shows "wf_map (wsh_conns h)" "distinct (wsh_clients h)" "wsh_numClients h = length (wsh_clients h)"
    "i \<in> set (wsh_clients h) \<Longrightarrow> \<exists>c. mget (wsh_conns h) i = Some c \<and> \<not> wc_closed c \<and> client_ok c"
    "mget (wsh_conns h) i = Some c \<Longrightarrow> client_ok c"
    "mget (wsh_conns h) i = Some c \<Longrightarrow> wc_closed c \<longleftrightarrow> i \<notin> set (wsh_clients h)"
    "mget (wsh_conns h) i = Some c \<Longrightarrow> wc_closed c \<Longrightarrow> wc_killed c"
  using assms by (fastforce simp: hub_ok_def)+

lemma put_conn_fields [simp]:
  "wsh_clients (put_conn i c h) = wsh_clients h" "wsh_numClients (put_conn i c h) = wsh_numClients h"
  "wsh_timeToSend (put_conn i c h) = wsh_timeToSend h" "wsh_conns (put_conn i c h) = mput i c (wsh_conns h)"
  by (simp_all add: put_conn_def)

lemma put_conn_ok:
  assumes "hub_ok h" "mget (wsh_conns h) i = Some c" "client_ok c'" "wc_closed c' = wc_closed c" "wc_closed c' \<Longrightarrow> wc_killed c'"
  shows "hub_ok (put_conn i c' h)"
  using assms unfolding hub_ok_def by auto

lemma unregisterClient_ok:
  assumes "hub_ok h" "i \<in> set (wsh_clients h)"
  obtains h' where "unregisterClient i h = (h', Ok)" "hub_ok h'" "wsh_clients h' = remove1 i (wsh_clients h)"
proof -
  obtain c where c: "mget (wsh_conns h) i = Some c" "\<not> wc_closed c" "client_ok c"
    using hub_okD(4) [OF assms] by blast
  let ?cs = "remove1 i (wsh_clients h)"
  let ?h' = "put_conn i (close_spoke (length ?cs) c) (h\<lparr>wsh_clients := ?cs, wsh_numClients := length ?cs\<rparr>)"
  have "unregisterClient i h = (?h', Ok)"
    using assms(2) c by (simp add: unregisterClient_def Let_def)
  moreover have "hub_ok ?h'"
    using assms(1) close_spoke_ok [OF c(3)] hub_okD(2) [OF assms(1)] unfolding hub_ok_def by (auto simp: set_remove1_eq)
  ultimately show ?thesis using that by simp
qed

lemma unregister_spokes_ok:
  assumes "hub_ok (h\<lparr>wsh_numClients := length (wsh_clients h)\<rparr>)" "distinct is" "set is \<subseteq> set (wsh_clients h)"
  obtains h' where "unregister_spokes is h = (h', Ok)" "hub_ok (h'\<lparr>wsh_numClients := length (wsh_clients h')\<rparr>)"
    "set (wsh_clients h') = set (wsh_clients h) - set is"
  using assms
proof (induction "is" arbitrary: h thesis)
  case Nil
  then show ?case by simp
next
  case (Cons i "is")
  let ?g = "h\<lparr>wsh_numClients := length (wsh_clients h)\<rparr>"
  obtain c where c: "mget (wsh_conns h) i = Some c" "\<not> wc_closed c" "client_ok c"
    using hub_okD(4) [OF Cons.prems(2), of i] Cons.prems(4) by auto
  let ?h1 = "put_conn i (close_spoke 0 c) (h\<lparr>wsh_clients := remove1 i (wsh_clients h)\<rparr>)"
  have d: "distinct (wsh_clients h)" using hub_okD(2) [OF Cons.prems(2)] by simp
  have "hub_ok (?h1\<lparr>wsh_numClients := length (wsh_clients ?h1)\<rparr>)"
    using Cons.prems(2) close_spoke_ok [OF c(3)] d unfolding hub_ok_def by (auto simp: put_conn_def set_remove1_eq)
  moreover have "distinct is" "set is \<subseteq> set (wsh_clients ?h1)"
    using Cons.prems(3,4) d by (auto simp: set_remove1_eq)
  ultimately obtain h' where "unregister_spokes is ?h1 = (h', Ok)" "hub_ok (h'\<lparr>wsh_numClients := length (wsh_clients h')\<rparr>)"
      "set (wsh_clients h') = set (wsh_clients ?h1) - set is"
    using Cons.IH by blast
  then show ?case
    using Cons.prems(1) c d by (auto simp: set_remove1_eq)
qed

lemma unregisterAllClients_ok:
  assumes "hub_ok h"
  obtains h' where "unregisterAllClients h = (h', Ok)" "hub_ok h'" "wsh_clients h' = []"
proof -
  have "h\<lparr>wsh_numClients := length (wsh_clients h)\<rparr> = h"
    using hub_okD(3) [OF assms] by simp
  then obtain h' where "unregister_spokes (wsh_clients h) h = (h', Ok)" "hub_ok (h'\<lparr>wsh_numClients := length (wsh_clients h')\<rparr>)"
      "set (wsh_clients h') = set (wsh_clients h) - set (wsh_clients h)"
    using unregister_spokes_ok [of h "wsh_clients h"] hub_okD(2) [OF assms] assms by auto
  then show ?thesis
    using that by (simp add: unregisterAllClients_def)
qed

section \<open>Sending\<close>

lemma sendMsg_ok:
  assumes "hub_ok h" "i \<in> set (wsh_clients h)"
  obtains h' where "sendMsg choice msg i h = (h', Ok)" "hub_ok h'" "set (wsh_clients h) - {i} \<subseteq> set (wsh_clients h')"
proof -
  obtain c where c: "mget (wsh_conns h) i = Some c" "\<not> wc_closed c" "client_ok c"
    using hub_okD(4) [OF assms] by blast
  have d: "set (remove1 i (wsh_clients h)) = set (wsh_clients h) - {i}"
    using hub_okD(2) [OF assms(1)] by (simp add: set_remove1_eq)
  show ?thesis
  proof (cases "choice i = TakeKilled \<and> wc_killed c")
    case True
    show ?thesis
    proof (rule unregisterClient_ok [OF assms])
      fix h1 assume 1: "unregisterClient i h = (h1, Ok)" "hub_ok h1" "wsh_clients h1 = remove1 i (wsh_clients h)"
      have "sendMsg choice msg i h = (h1, Ok)"
        using True c(1) 1(1) by (simp add: sendMsg_def)
      then show ?thesis
        by (rule that) (simp_all add: 1 d)
    qed
  next
    case no_kill: False
    show ?thesis
    proof (cases "choice i = TakeSend \<and> length (wc_spoke c) < spokeSize")
      case True
      let ?h1 = "put_conn i (c\<lparr>wc_spoke := wc_spoke c @ [msg]\<rparr>) h"
      have "hub_ok ?h1"
        using True c by (intro put_conn_ok [OF assms(1) c(1)]) (simp_all add: client_ok_def)
      moreover have "sendMsg choice msg i h = (?h1, Ok)"
        using True c by (simp add: sendMsg_def)
      ultimately show ?thesis
        by (intro that [of ?h1]) auto
    next
      case False
      have "sendMsg choice msg i h = (h, Ok)"
        using False no_kill c by (cases "choice i") (simp_all add: sendMsg_def)
      then show ?thesis
        by (rule that) (auto simp: assms)
    qed
  qed
qed

lemma sendToAll_ok:
  assumes "hub_ok h" "distinct is" "set is \<subseteq> set (wsh_clients h)"
  shows "\<exists>h'. sendToAll choice msg is h = (h', Ok) \<and> hub_ok h'"
  using assms
proof (induction "is" arbitrary: h)
  case (Cons i "is")
  obtain h1 where h1: "sendMsg choice msg i h = (h1, Ok)" "hub_ok h1" "set (wsh_clients h) - {i} \<subseteq> set (wsh_clients h1)"
    by (rule sendMsg_ok [OF Cons.prems(1), of i]) (use Cons.prems(3) in auto)
  then have "set is \<subseteq> set (wsh_clients h1)"
    using Cons.prems(2,3) by auto
  then show ?case
    using Cons.IH [OF h1(2)] Cons.prems(2) h1(1) by simp
qed simp

lemma sendToSubscribed_ok:
  assumes "hub_ok h" "distinct is" "set is \<subseteq> set (wsh_clients h)" "Signal msg = SigAddressTx \<Longrightarrow> Msg msg \<noteq> AddressMessage None"
  shows "\<exists>h'. sendToSubscribed choice msg is h = (h', Ok) \<and> hub_ok h'"
  using assms
proof (induction "is" arbitrary: h)
  case (Cons i "is")
  obtain c where c: "mget (wsh_conns h) i = Some c"
    using hub_okD(4) [OF Cons.prems(1)] Cons.prems(3) by auto
  have s: "\<exists>b. isSubscribed msg c = Ret b"
    using Cons.prems(4) by (auto simp: isSubscribed_def split: HubPayload.splits option.splits)
  obtain h1 where h1: "sendMsg choice msg i h = (h1, Ok)" "hub_ok h1" "set (wsh_clients h) - {i} \<subseteq> set (wsh_clients h1)"
    by (rule sendMsg_ok [OF Cons.prems(1), of i]) (use Cons.prems(3) in auto)
  then have "set is \<subseteq> set (wsh_clients h1)"
    using Cons.prems(2,3) by auto
  then show ?case
    using Cons.IH [OF h1(2)] Cons.IH [OF Cons.prems(1)] Cons.prems h1(1) c s by (auto split: bool.split)
qed simp

lemma addTxToBuffer_ok:
  assumes "hub_ok h" "addTxToBuffer_loop tx is ready h = (h', ready')"
  shows "hub_ok h' \<and> wsh_clients h' = wsh_clients h"
  using assms
proof (induction tx "is" ready h rule: addTxToBuffer_loop.induct)
  case (2 tx i "is" ready h)
  show ?case
  proof (cases "mget (wsh_conns h) i")
    case None
    then show ?thesis using 2 by simp
  next
    case (Some c)
    have "hub_ok (put_conn i (c\<lparr>wc_newTxs := wc_newTxs c @ [tx]\<rparr>) h)"
      using hub_okD(5-7) [OF "2.prems"(1) Some] by (intro put_conn_ok [OF "2.prems"(1) Some]) (simp_all add: client_ok_def)
    then show ?thesis
      using "2.IH"(2) [OF Some refl] "2.prems"(2) Some by (simp add: Let_def)
  qed
qed simp

definition visits :: "nat list \<Rightarrow> WebsocketHub \<Rightarrow> bool" where
  "visits order h \<longleftrightarrow> distinct order \<and> set order = set (wsh_clients h)"

lemma timeToSend_ok [simp]: "hub_ok (h\<lparr>wsh_timeToSend := b\<rparr>) = hub_ok h"
  by (simp add: hub_ok_def)

lemma relay_ok:
  assumes "hub_ok h" "visits order1 h" "visits order2 h"
  shows "\<exists>h'. relay choice order1 order2 msg h = (h', Ok) \<and> hub_ok h'"
proof -
  have o: "distinct order2" "set order2 = set (wsh_clients h)" using assms(3) by (simp_all add: visits_def)
  note all = sendToAll_ok [OF assms(1) o(1), of choice msg] and subd = sendToSubscribed_ok [OF assms(1) o(1), of msg choice]
  have newtx: "\<exists>h'. (case addTxToBuffer tx order1 h of
      (h1, ready) \<Rightarrow>
        if ready \<or> wsh_timeToSend h1
        then (case sendToSubscribed choice \<lparr>Signal = SigNewTxs, Msg = TxsPayload []\<rparr> order2 h1 of
                (h2, Ok) \<Rightarrow> (h2\<lparr>wsh_timeToSend := False\<rparr>, Ok) | r \<Rightarrow> r)
        else sendToSubscribed choice msg order2 h1) = (h', Ok) \<and> hub_ok h'"
    if m: "Msg msg = TxPayload (Some tx)" for tx
  proof -
    obtain h1 ready where 1: "addTxToBuffer tx order1 h = (h1, ready)" by fastforce
    then have h1: "hub_ok h1" "wsh_clients h1 = wsh_clients h"
      using addTxToBuffer_ok [OF assms(1)] by (auto simp: addTxToBuffer_def)
    show ?thesis
      using sendToSubscribed_ok [OF h1(1) o(1), of "\<lparr>Signal = SigNewTxs, Msg = TxsPayload []\<rparr>" choice]
        sendToSubscribed_ok [OF h1(1) o(1), of msg choice] o(2) h1(2) m 1 by auto
  qed
  show ?thesis
    using all subd newtx o(2) assms(1) by (auto simp: relay_def split: HubPayload.split option.split)
qed

section \<open>Steps\<close>

text \<open>
  What happens to a hub and its connections: a new connection, the two ways to unregister clients, a message on
  the relay, the ticker of the transaction buffers, the requests of a client, and a turn of its send loop.
\<close>

inductive hub_step :: "(string \<Rightarrow> bool) \<Rightarrow> WebsocketHub \<Rightarrow> WebsocketHub \<Rightarrow> bool" for chk where
  registers: "mget (wsh_conns h) i = None \<Longrightarrow> hub_step chk h (registerClient i newClient h)"
| unregisters: "hub_step chk h (fst (unregisterClient i h))"
| quits: "hub_step chk h (fst (unregisterAllClients h))"
| relays: "visits order1 h \<Longrightarrow> visits order2 h \<Longrightarrow> hub_step chk h (fst (relay choice order1 order2 msg h))"
| ticks: "hub_step chk h (h\<lparr>wsh_timeToSend := True\<rparr>)"
| subscribes: "mget (wsh_conns h) i = Some c \<Longrightarrow> \<not> wc_killed c \<Longrightarrow>
    hub_step chk h (put_conn i (fst (request_subscribe chk event c)) h)"
| unsubscribes: "mget (wsh_conns h) i = Some c \<Longrightarrow> \<not> wc_killed c \<Longrightarrow>
    hub_step chk h (put_conn i (fst (request_unsubscribe chk event c)) h)"
| pushes: "mget (wsh_conns h) i = Some c \<Longrightarrow> \<not> wc_killed c \<Longrightarrow>
    hub_step chk h (put_conn i (fst (sendLoop_turn sent (wsh_numClients h) c)) h)"

definition hub_reachable :: "(string \<Rightarrow> bool) \<Rightarrow> WebsocketHub \<Rightarrow> bool" where
  "hub_reachable chk h \<longleftrightarrow> (hub_step chk)\<^sup>*\<^sup>* NewWebsocketHub h"

lemma hub_reachable_new [simp]: "hub_reachable chk NewWebsocketHub"
  by (simp add: hub_reachable_def)

lemma hub_reachable_step: "hub_reachable chk h \<Longrightarrow> hub_step chk h h' \<Longrightarrow> hub_reachable chk h'"
  unfolding hub_reachable_def by (rule rtranclp.rtrancl_into_rtrancl)

lemma registerClient_ok:
  assumes "hub_ok h" "mget (wsh_conns h) i = None"
  shows "hub_ok (registerClient i newClient h)"
proof -
  have "i \<notin> set (wsh_clients h)"
    using hub_okD(4) [OF assms(1), of i] assms(2) by auto
  then show ?thesis
    using assms unfolding hub_ok_def by (auto simp: registerClient_def Let_def) (auto simp: newClient_def)
qed

lemma hub_step_ok: "hub_step chk h h' \<Longrightarrow> hub_ok h \<Longrightarrow> hub_ok h'"
proof (induction rule: hub_step.induct)
  case (registers h i)
  then show ?case by (simp add: registerClient_ok)
next
  case (unregisters h i)
  show ?case
  proof (cases "i \<in> set (wsh_clients h)")
    case True
    show ?thesis by (rule unregisterClient_ok [OF unregisters True]) simp
  qed (use unregisters in \<open>simp add: unregisterClient_def\<close>)
next
  case (quits h)
  show ?case by (rule unregisterAllClients_ok [OF quits]) simp
next
  case (relays order1 h order2 choice msg)
  then show ?case using relay_ok by (metis fst_conv)
next
  case (ticks h)
  then show ?case by simp
next
  case (subscribes h i c event)
  then show ?case
    using request_subscribe_ok [of c chk event] hub_okD(5-7) [OF subscribes(3,1)]
    by (cases "request_subscribe chk event c") (auto intro!: put_conn_ok)
next
  case (unsubscribes h i c event)
  then show ?case
    using request_unsubscribe_ok [of c chk event] hub_okD(5-7) [OF unsubscribes(3,1)]
    by (cases "request_unsubscribe chk event c") (auto intro!: put_conn_ok)
next
  case (pushes h i c sent)
  then show ?case
    using sendLoop_turn_ok [of c sent "wsh_numClients h"] hub_okD(5-7) [OF pushes(3,1)]
    by (cases "sendLoop_turn sent (wsh_numClients h) c") (auto intro!: put_conn_ok)
qed

lemma hub_reachable_ok: "hub_reachable chk h \<Longrightarrow> hub_ok h"
  unfolding hub_reachable_def
proof (induction rule: rtranclp_induct)
  case base
  then show ?case by (simp add: hub_ok_def NewWebsocketHub_def)
next
  case (step h h')
  then show ?case by (simp add: hub_step_ok)
qed

text \<open>
  C15. In every state that the hub can reach, the channels of its clients are open and those of all other
  connections are closed, with the connection ended; the number of clients is the size of the map; a client
  watches addresses exactly if it is subscribed to their messages; and whatever is done next, nothing is
  sent on a closed channel, no channel is closed twice, and no request of a client panics.
\<close>

theorem hub_never_panics:
  assumes "hub_reachable chk h"
  shows "hub_ok h \<and> (\<forall>i. snd (unregisterClient i h) = Ok) \<and> snd (unregisterAllClients h) = Ok \<and>
    (\<forall>choice order1 order2 msg. visits order1 h \<longrightarrow> visits order2 h \<longrightarrow> snd (relay choice order1 order2 msg h) = Ok) \<and>
    (\<forall>i c event. mget (wsh_conns h) i = Some c \<longrightarrow>
      snd (request_subscribe chk event c) \<noteq> Panics \<and> snd (request_unsubscribe chk event c) \<noteq> Panics)"
proof -
  note ok = hub_reachable_ok [OF assms]
  have "snd (unregisterClient i h) = Ok" for i
  proof (cases "i \<in> set (wsh_clients h)")
    case True
    show ?thesis by (rule unregisterClient_ok [OF ok True]) simp
  qed (simp add: unregisterClient_def)
  moreover have "snd (unregisterAllClients h) = Ok"
    by (rule unregisterAllClients_ok [OF ok]) simp
  moreover have "snd (relay choice order1 order2 msg h) = Ok" if o: "visits order1 h" "visits order2 h" for choice order1 order2 msg
    using relay_ok [OF ok o, of choice msg] by auto
  moreover have "snd (request_subscribe chk event c) \<noteq> Panics \<and> snd (request_unsubscribe chk event c) \<noteq> Panics"
    if c: "mget (wsh_conns h) i = Some c" for i c event
    using request_subscribe_ok [OF hub_okD(5) [OF ok c]] request_unsubscribe_ok [OF hub_okD(5) [OF ok c]]
    by (metis prod.collapse)
  ultimately show ?thesis using ok by blast
qed

text \<open>A hub with one client, which is subscribed to new blocks.\<close>

definition ex_client :: ws_client where
  "ex_client = newClient\<lparr>wc_subs := {SigNewBlock}\<rparr>"

definition ex_hub :: WebsocketHub where
  "ex_hub = \<lparr>wsh_conns = mput 7 ex_client [], wsh_clients = [7], wsh_numClients = 1, wsh_timeToSend = False\<rparr>"

lemma ex_hub_simps [simp]:
  "wsh_clients ex_hub = [7]" "mget (wsh_conns ex_hub) i = (if i = 7 then Some ex_client else None)"
  by (simp_all add: ex_hub_def)

lemma ex_hub_reachable [simp]: "hub_reachable chk ex_hub"
proof -
  let ?h = "registerClient 7 newClient NewWebsocketHub"
  have c: "mget (wsh_conns ?h) 7 = Some newClient"
    by (simp add: registerClient_def put_conn_def NewWebsocketHub_def)
  have "hub_step chk NewWebsocketHub ?h"
    by (rule registers) (simp add: NewWebsocketHub_def)
  moreover have "hub_step chk ?h (put_conn 7 (fst (request_subscribe chk ''newblock'' newClient)) ?h)"
    by (rule subscribes [OF c]) (simp add: newClient_def)
  moreover have "mput 7 x (mput 7 y []) = mput 7 x []" for x y :: ws_client
    by (simp add: mput_def)
  then have "put_conn 7 (fst (request_subscribe chk ''newblock'' newClient)) ?h = ex_hub"
    by (simp add: request_subscribe_def ValidateSubscription_def Subscriptions_def subscribe_def not_subscribable_def
        registerClient_def put_conn_def NewWebsocketHub_def ex_hub_def ex_client_def newClient_def)
  ultimately show ?thesis
    using hub_reachable_step [OF hub_reachable_step [OF hub_reachable_new]] by metis
qed

theorem hub_never_panics_witness:
  "hub_ok ex_hub \<and> snd (unregisterClient 7 ex_hub) = Ok \<and> snd (unregisterAllClients ex_hub) = Ok \<and>
    snd (relay (\<lambda>_. TakeSend) [7] [7] \<lparr>Signal = SigNewBlock, Msg = NoPayload\<rparr> ex_hub) = Ok"
proof -
  have "visits [7] ex_hub" by (simp add: visits_def ex_hub_def)
  then show ?thesis using hub_never_panics [of "\<lambda>_. False" ex_hub] by simp
qed

section \<open>To whom a signal goes\<close>

definition state_signals :: "HubSignal set" where
  "state_signals = {SigNewBlock, SigNewLTCBlock, SigNewBTCBlock, SigSummaryInfo, SigSummary24h, SigMempoolUpdate}"

lemma sendToSubscribed_delivers:
  assumes "\<And>i. i \<in> set is \<Longrightarrow> choice i = TakeSend \<and> (\<exists>c. mget (wsh_conns h) i = Some c \<and> \<not> wc_closed c \<and> length (wc_spoke c) < spokeSize)"
    and "distinct is" "Signal msg \<noteq> SigAddressTx" "wf_map (wsh_conns h)"
  shows "\<exists>h'. sendToSubscribed choice msg is h = (h', Ok) \<and> wsh_clients h' = wsh_clients h \<and> wf_map (wsh_conns h') \<and>
    (\<forall>i. mget (wsh_conns h') i = (if i \<in> set is
       then map_option (\<lambda>c. if Signal msg \<in> wc_subs c then c\<lparr>wc_spoke := wc_spoke c @ [msg]\<rparr> else c) (mget (wsh_conns h) i)
       else mget (wsh_conns h) i))"
  using assms
proof (induction "is" arbitrary: h)
  case (Cons i "is")
  obtain c where c: "mget (wsh_conns h) i = Some c" "\<not> wc_closed c" "length (wc_spoke c) < spokeSize" "choice i = TakeSend"
    using Cons.prems(1) [of i] by auto
  show ?case
  proof (cases "Signal msg \<in> wc_subs c")
    case True
    let ?h1 = "put_conn i (c\<lparr>wc_spoke := wc_spoke c @ [msg]\<rparr>) h"
    have 1: "sendToSubscribed choice msg (i # is) h = sendToSubscribed choice msg is ?h1"
      using c True Cons.prems(3) by (simp add: isSubscribed_def sendMsg_def)
    have "\<exists>h'. sendToSubscribed choice msg is ?h1 = (h', Ok) \<and> wsh_clients h' = wsh_clients ?h1 \<and> wf_map (wsh_conns h') \<and>
      (\<forall>j. mget (wsh_conns h') j = (if j \<in> set is
       then map_option (\<lambda>c. if Signal msg \<in> wc_subs c then c\<lparr>wc_spoke := wc_spoke c @ [msg]\<rparr> else c) (mget (wsh_conns ?h1) j)
       else mget (wsh_conns ?h1) j))"
      using Cons.prems by (intro Cons.IH) auto
    then show ?thesis
      unfolding 1 using c True Cons.prems(2,4) by auto
  next
    case False
    have 1: "sendToSubscribed choice msg (i # is) h = sendToSubscribed choice msg is h"
      using c False by (simp add: isSubscribed_def)
    have "\<exists>h'. sendToSubscribed choice msg is h = (h', Ok) \<and> wsh_clients h' = wsh_clients h \<and> wf_map (wsh_conns h') \<and>
      (\<forall>j. mget (wsh_conns h') j = (if j \<in> set is
       then map_option (\<lambda>c. if Signal msg \<in> wc_subs c then c\<lparr>wc_spoke := wc_spoke c @ [msg]\<rparr> else c) (mget (wsh_conns h) j)
       else mget (wsh_conns h) j))"
      using Cons.prems by (intro Cons.IH) auto
    then show ?thesis
      unfolding 1 using c False Cons.prems(2) by auto
  qed
qed simp

text \<open>
  C16. A signal for a new state of the chains or of the mempool reaches exactly the subscribed clients, once each
  and after what they have still to read, when every client can be sent to: nothing else changes in any
  connection, and no client is dropped.
\<close>

theorem relay_reaches_subscribed:
  assumes "hub_reachable chk h" "visits order2 h" "Signal msg \<in> state_signals"
    and "\<And>i. i \<in> set (wsh_clients h) \<Longrightarrow> choice i = TakeSend"
    and "\<And>i c. mget (wsh_conns h) i = Some c \<Longrightarrow> length (wc_spoke c) < spokeSize"
  shows "\<exists>h'. relay choice order1 order2 msg h = (h', Ok) \<and> wsh_clients h' = wsh_clients h \<and>
    (\<forall>i. mget (wsh_conns h') i =
      map_option (\<lambda>c. if i \<in> set (wsh_clients h) \<and> Signal msg \<in> wc_subs c then c\<lparr>wc_spoke := wc_spoke c @ [msg]\<rparr> else c)
        (mget (wsh_conns h) i))"
proof -
  note ok = hub_reachable_ok [OF assms(1)]
  have o: "distinct order2" "set order2 = set (wsh_clients h)" using assms(2) by (simp_all add: visits_def)
  have valid: "HubMessage_IsValid msg"
    using assms(3) by (auto simp: state_signals_def HubMessage_IsValid_def Signal_IsValid_def)
  obtain h' where h': "sendToSubscribed choice msg order2 h = (h', Ok)" "wsh_clients h' = wsh_clients h"
      "\<And>i. mget (wsh_conns h') i = (if i \<in> set order2
       then map_option (\<lambda>c. if Signal msg \<in> wc_subs c then c\<lparr>wc_spoke := wc_spoke c @ [msg]\<rparr> else c) (mget (wsh_conns h) i)
       else mget (wsh_conns h) i)"
    using sendToSubscribed_delivers [of order2 choice h msg] o assms(3-5) hub_okD(4) [OF ok] hub_okD(1) [OF ok]
    by (force simp: state_signals_def)
  have same: "map_option (\<lambda>c. c) x = x" for x :: "ws_client option" by (cases x) simp_all
  show ?thesis
  proof (cases "wsh_clients h = []")
    case True
    then show ?thesis by (simp add: relay_def same)
  next
    case False
    then have "relay choice order1 order2 msg h = sendToSubscribed choice msg order2 h"
      using assms(3) valid by (auto simp: relay_def state_signals_def)
    then show ?thesis
      using h' o(2) by (intro exI [of _ h']) (auto simp: same)
  qed
qed

theorem relay_reaches_subscribed_witness:
  "\<exists>h'. relay (\<lambda>_. TakeSend) [7] [7] \<lparr>Signal = SigNewBlock, Msg = NoPayload\<rparr> ex_hub = (h', Ok) \<and> wsh_clients h' = [7] \<and>
    mget (wsh_conns h') 7 = Some (ex_client\<lparr>wc_spoke := [\<lparr>Signal = SigNewBlock, Msg = NoPayload\<rparr>]\<rparr>)"
proof -
  have "\<exists>h'. relay (\<lambda>_. TakeSend) [7] [7] \<lparr>Signal = SigNewBlock, Msg = NoPayload\<rparr> ex_hub = (h', Ok) \<and> wsh_clients h' = wsh_clients ex_hub \<and>
    (\<forall>i. mget (wsh_conns h') i =
      map_option (\<lambda>c. if i \<in> set (wsh_clients ex_hub) \<and> Signal \<lparr>Signal = SigNewBlock, Msg = NoPayload\<rparr> \<in> wc_subs c
          then c\<lparr>wc_spoke := wc_spoke c @ [\<lparr>Signal = SigNewBlock, Msg = NoPayload\<rparr>]\<rparr> else c)
        (mget (wsh_conns ex_hub) i))"
    by (rule relay_reaches_subscribed [of "\<lambda>_. False"])
      (auto simp: visits_def state_signals_def ex_client_def newClient_def spokeSize_def split: if_splits)
  then show ?thesis
    by (auto simp: ex_client_def newClient_def)
qed

section \<open>The buffers of new transactions\<close>

lemma addTxToBuffer_loop_snoc:
  "mget (wsh_conns h) i = Some c \<Longrightarrow> i \<notin> set is \<Longrightarrow>
    snd (addTxToBuffer_loop tx (is @ [i]) ready h) = (length (wc_newTxs c) + 1 \<ge> NewTxBufferSize)"
proof (induction tx "is" ready h rule: addTxToBuffer_loop.induct)
  case (2 tx j "is" ready h)
  then show ?case by (cases "mget (wsh_conns h) j") (simp_all add: Let_def)
qed simp

text \<open>
  Whether the buffers are sent at once depends on the client that the map is ranged over last, and on no other
  client, however many transactions the other ones have buffered.
\<close>

theorem addTxToBuffer_last:
  assumes "hub_reachable chk h" "visits (order @ [i]) h" "mget (wsh_conns h) i = Some c"
  shows "snd (addTxToBuffer tx (order @ [i]) h) = (length (wc_newTxs c) + 1 \<ge> NewTxBufferSize)"
  using assms addTxToBuffer_loop_snoc [OF assms(3), of order tx False] by (simp add: addTxToBuffer_def visits_def)

theorem addTxToBuffer_last_witness:
  "\<not> snd (addTxToBuffer ''tx'' [7] ex_hub)"
  using addTxToBuffer_last [of "\<lambda>_. False" ex_hub "[]" 7 ex_client "''tx''"]
  by (simp add: visits_def ex_client_def newClient_def NewTxBufferSize_def)

lemma relay_to_unsubscribed:
  assumes "wsh_clients h = [i]" "mget (wsh_conns h) i = Some c" "wc_subs c = {}"
  shows "\<exists>h'. fst (relay choice [i] [i] \<lparr>Signal = SigNewTx, Msg = TxPayload (Some tx)\<rparr> h) = h' \<and> wsh_clients h' = [i] \<and>
    mget (wsh_conns h') i = Some (c\<lparr>wc_newTxs := wc_newTxs c @ [tx]\<rparr>)"
  using assms
  by (simp add: relay_def HubMessage_IsValid_def Signal_IsValid_def addTxToBuffer_def Let_def isSubscribed_def)

text \<open>
  The buffer of a client that never subscribes to transactions is never emptied: it holds any number of
  transactions, although its size is meant to be five.
\<close>

theorem unsubscribed_buffer_grows:
  "\<exists>h i c. hub_reachable chk h \<and> mget (wsh_conns h) i = Some c \<and> wc_subs c = {} \<and> length (wc_newTxs c) = n"
proof -
  have "\<exists>h c. hub_reachable chk h \<and> wsh_clients h = [7] \<and> mget (wsh_conns h) 7 = Some c \<and> wc_subs c = {} \<and> length (wc_newTxs c) = n"
  proof (induction n)
    case 0
    let ?h = "registerClient 7 newClient NewWebsocketHub"
    have "hub_step chk NewWebsocketHub ?h"
      by (rule registers) (simp add: NewWebsocketHub_def)
    then have "hub_reachable chk ?h"
      by (rule hub_reachable_step [OF hub_reachable_new])
    then show ?case
      by (intro exI [of _ ?h] exI [of _ newClient]) (simp add: registerClient_def put_conn_def NewWebsocketHub_def newClient_def)
  next
    case (Suc n)
    then obtain h c where h: "hub_reachable chk h" "wsh_clients h = [7]" "mget (wsh_conns h) 7 = Some c" "wc_subs c = {}" "length (wc_newTxs c) = n"
      by blast
    let ?r = "relay (\<lambda>_. TakeTimer) [7] [7] \<lparr>Signal = SigNewTx, Msg = TxPayload (Some ''tx'')\<rparr> h"
    have "hub_step chk h (fst ?r)"
      by (rule relays) (simp_all add: visits_def h)
    then have "hub_reachable chk (fst ?r)"
      by (rule hub_reachable_step [OF h(1)])
    then show ?case
      using relay_to_unsubscribed [OF h(2-4), of "\<lambda>_. TakeTimer" "''tx''"] h(4,5) by auto
  qed
  then show ?thesis by blast
qed

text \<open>
  A client can subscribe to the blocks and to the mempool of Monero, with a success for an answer, and is
  never sent anything for it: the run loop ignores the signals, whoever is connected.
\<close>

theorem xmr_subscription_is_void:
  "request_subscribe chk ''newxmrblock'' c = (c\<lparr>wc_subs := insert SigNewXMRBlock (wc_subs c)\<rparr>, Ret True) \<and>
    request_subscribe chk ''xmrMempoolStatus'' c = (c\<lparr>wc_subs := insert SigXmrMempoolStatus (wc_subs c)\<rparr>, Ret True) \<and>
    relay choice order1 order2 \<lparr>Signal = SigNewXMRBlock, Msg = m\<rparr> h = (h, Ok) \<and>
    relay choice order1 order2 \<lparr>Signal = SigXmrMempoolStatus, Msg = m\<rparr> h = (h, Ok)"
  by (simp add: request_subscribe_def ValidateSubscription_def Subscriptions_def subscribe_def not_subscribable_def relay_def)

end
