(* ===== verification/ChainMaintain.thy ===== *)
theory ChainMaintain
  imports ChainReorg
begin

text \<open>
  The maintenance of the tables around a synchronisation: the unique indexes (\<open>db/dcrpg/indexing.go\<close>), the
  removal of duplicate rows (\<open>DeleteDuplicates\<close> of \<open>db/dcrpg/tables.go\<close>), the update of the matching
  transactions of all address rows, and filling the cache of unspent outputs. Indexes that are not unique
  have no effect on what the tables hold and are left out, like the agenda tables.
\<close>

section \<open>Unique indexes\<close>

datatype unique_index =
    BlocksOnHash
  | TransactionsOnHashes
  | TransactionsOnBlockIn
  | VinsOnVins
  | VoutsOnTxHashInd
  | VotesOnHashes
  | MissesOnHashes
  | AddressesOnVoutID
  | TreasuryOnTxHash
  | TicketsOnHashes
  | TicketsOnTxDbID

primrec index_holds :: "unique_index \<Rightarrow> db \<Rightarrow> bool" where
  "index_holds BlocksOnHash d = distinct (map b_hash (t_blocks d))"
| "index_holds TransactionsOnHashes d = distinct (map (\<lambda>r. (t_tx_hash r, t_block_hash r)) (t_transactions d))"
| "index_holds TransactionsOnBlockIn d = distinct (map (\<lambda>r. (t_block_hash r, t_block_index r, t_tree r)) (t_transactions d))"
| "index_holds VinsOnVins d = distinct (map vin_key (t_vins d))"
| "index_holds VoutsOnTxHashInd d = distinct (map vout_key (t_vouts d))"
| "index_holds VotesOnHashes d = distinct (map (\<lambda>r. (v_tx_hash r, v_block_hash r)) (t_votes d))"
| "index_holds MissesOnHashes d = distinct (map (\<lambda>r. (m_ticket_hash r, m_block_hash r)) (t_misses d))"
| "index_holds AddressesOnVoutID d = distinct (map address_key (t_addresses d))"
| "index_holds TreasuryOnTxHash d = distinct (map (\<lambda>r. (y_tx_hash r, y_block_hash r)) (t_treasury d))"
| "index_holds TicketsOnHashes d = distinct (map (\<lambda>r. (k_tx_hash r, k_block_hash r)) (t_tickets d))"
| "index_holds TicketsOnTxDbID d = distinct (map k_purchase_tx_db_id (t_tickets d))"

text \<open>The connection with the unique indexes that exist.\<close>

type_synonym indexed_conn = "conn \<times> unique_index set"

text \<open>An index that cannot be dropped is only a warning.\<close>

definition drop_index :: "unique_index \<Rightarrow> indexed_conn \<Rightarrow> indexed_conn" where
  "drop_index ix s =
    (case exec (\<lambda>d. (d, ())) (fst s) of
       (c, Inl _) \<Rightarrow> (c, snd s)
     | (c, Inr _) \<Rightarrow> (c, snd s - {ix}))"

definition DeindexAll :: "indexed_conn \<Rightarrow> indexed_conn" where
  "DeindexAll s =
    foldl (\<lambda>s ix. drop_index ix s) s
      [BlocksOnHash, TransactionsOnHashes, TransactionsOnBlockIn, VinsOnVins, VoutsOnTxHashInd, AddressesOnVoutID,
       VotesOnHashes, MissesOnHashes, TreasuryOnTxHash, TicketsOnHashes, TicketsOnTxDbID]"

text \<open>Which of the statements have \<open>IF NOT EXISTS\<close>.\<close>

definition if_not_exists :: "unique_index set" where
  "if_not_exists = {VoutsOnTxHashInd, AddressesOnVoutID, TicketsOnHashes, TicketsOnTxDbID}"

definition create_index :: "unique_index \<Rightarrow> indexed_conn \<Rightarrow> indexed_conn \<times> (sql_error + unit)" where
  "create_index ix s =
    (case exec (\<lambda>d. (d, ())) (fst s) of
       (c, Inl e) \<Rightarrow> ((c, snd s), Inl e)
     | (c, Inr _) \<Rightarrow>
         if ix \<in> snd s
         then ((c, snd s), if ix \<in> if_not_exists then Inr () else Inl (ErrOther ''relation already exists''))
         else if \<not> index_holds ix (data c) then ((c, snd s), Inl (ErrOther ''could not create unique index''))
         else ((c, insert ix (snd s)), Inr ()))"

fun create_indexes :: "unique_index list \<Rightarrow> indexed_conn \<Rightarrow> indexed_conn \<times> (sql_error + unit)" where
  "create_indexes [] s = (s, Inr ())"
| "create_indexes (ix # ixs) s =
    (case create_index ix s of
       (s', Inl e) \<Rightarrow> (s', Inl e)
     | (s', Inr _) \<Rightarrow> create_indexes ixs s')"

definition IndexAll :: "indexed_conn \<Rightarrow> indexed_conn \<times> (sql_error + unit)" where
  "IndexAll =
    create_indexes
      [BlocksOnHash, TransactionsOnHashes, TransactionsOnBlockIn, VinsOnVins, VoutsOnTxHashInd, VotesOnHashes, MissesOnHashes,
       AddressesOnVoutID, TreasuryOnTxHash]"

definition IndexTicketsTable :: "indexed_conn \<Rightarrow> indexed_conn \<times> (sql_error + unit)" where
  "IndexTicketsTable = create_indexes [TicketsOnHashes, TicketsOnTxDbID]"

section \<open>Duplicate rows\<close>

text \<open>Of the rows with the same key, numbered from the highest identifier on, the first one stays.\<close>

definition delete_duplicates :: "('r \<Rightarrow> nat) \<Rightarrow> ('r \<Rightarrow> 'k) \<Rightarrow> 'r list \<Rightarrow> 'r list" where
  "delete_duplicates ident key rs = delete_where (\<lambda>r. list_ex (\<lambda>r'. key r' = key r \<and> ident r < ident r') rs) rs"

definition DeleteVinsDuplicateRows :: "db \<Rightarrow> db" where
  "DeleteVinsDuplicateRows d = d\<lparr>t_vins := delete_duplicates i_id vin_key (t_vins d)\<rparr>"

definition DeleteVoutDuplicateRows :: "db \<Rightarrow> db" where
  "DeleteVoutDuplicateRows d = d\<lparr>t_vouts := delete_duplicates o_id vout_key (t_vouts d)\<rparr>"

definition DeleteTxDuplicateRows :: "db \<Rightarrow> db" where
  "DeleteTxDuplicateRows d =
    d\<lparr>t_transactions := delete_duplicates t_id (\<lambda>r. (t_tx_hash r, t_block_hash r)) (t_transactions d)\<rparr>"

text \<open>Nothing is deleted where the unique index exists.\<close>

definition unless_unique :: "unique_index \<Rightarrow> (db \<Rightarrow> db) \<Rightarrow> unique_index set \<Rightarrow> unit sql" where
  "unless_unique ix stmt ixs =
    sql_bind (exec (\<lambda>d. (d, ix \<in> ixs))) (\<lambda>existsIdx.
      if existsIdx then exec (\<lambda>d. (d, ())) else exec (\<lambda>d. (stmt d, ())))"

definition DeleteDuplicateVins :: "unique_index set \<Rightarrow> unit sql" where
  "DeleteDuplicateVins = unless_unique VinsOnVins DeleteVinsDuplicateRows"

definition DeleteDuplicateVouts :: "unique_index set \<Rightarrow> unit sql" where
  "DeleteDuplicateVouts = unless_unique VoutsOnTxHashInd DeleteVoutDuplicateRows"

definition DeleteDuplicateTxns :: "unique_index set \<Rightarrow> unit sql" where
  "DeleteDuplicateTxns = unless_unique TransactionsOnHashes DeleteTxDuplicateRows"

definition DeleteDuplicates :: "unique_index set \<Rightarrow> unit sql" where
  "DeleteDuplicates ixs =
    sql_bind (DeleteDuplicateVins ixs) (\<lambda>_.
    sql_bind (DeleteDuplicateVouts ixs) (\<lambda>_. DeleteDuplicateTxns ixs))"

section \<open>Matching transactions of all address rows\<close>

text \<open>
  The transactions that spend the output of a row and are in the range of heights; when there are several,
  which of them is used is not specified.
\<close>

definition spenders_between :: "int \<Rightarrow> int \<Rightarrow> db \<Rightarrow> addresses_row \<Rightarrow> string list" where
  "spenders_between lo hi d a =
    concat (map (\<lambda>v. map t_tx_hash (filter (\<lambda>t. lo \<le> t_block_height t \<and> t_block_height t < hi \<and> o_value v > 0 \<and> a_is_funding a \<and>
        o_tx_hash v = a_tx_hash a \<and> o_tx_index v = a_tx_vin_vout_index a \<and> o_spend_tx_row_id v = Some (t_id t))
      (t_transactions d))) (t_vouts d))"

definition UpdateAllAddressesMatchingTxHashRange :: "int \<Rightarrow> int \<Rightarrow> db \<Rightarrow> db \<times> unit" where
  "UpdateAllAddressesMatchingTxHashRange lo hi d =
    (d\<lparr>t_addresses := map (\<lambda>a. case spenders_between lo hi d a of [] \<Rightarrow> a | h # _ \<Rightarrow> a\<lparr>a_matching_tx_hash := h\<rparr>) (t_addresses d)\<rparr>, ())"

definition address_chunk :: int where
  "address_chunk = 10000"

function update_chunks :: "int \<Rightarrow> int \<Rightarrow> unit sql" where
  "update_chunks heightDB i c =
    (if i \<le> heightDB
     then sql_bind (exec (UpdateAllAddressesMatchingTxHashRange i (min (i + address_chunk) (heightDB + 1))))
       (\<lambda>_. update_chunks heightDB (i + address_chunk)) c
     else (c, Inr ()))"
  by pat_completeness auto
termination
  by (relation "measure (\<lambda>(heightDB, i, _). nat (heightDB + 1 - i))") (auto simp: address_chunk_def)

declare update_chunks.simps [simp del]

definition UpdateSpendingInfoInAllAddresses :: "unit sql" where
  "UpdateSpendingInfoInAllAddresses = sql_bind DBBestBlock (\<lambda>(_, heightDB). update_chunks heightDB 0)"

section \<open>Unspent outputs\<close>

text \<open>The join has a row for each transaction with the hash on the main chain.\<close>

definition SelectUTXOs :: "db \<Rightarrow> UTXO list" where
  "SelectUTXOs d =
    concat (map (\<lambda>v. map (\<lambda>_. \<lparr>ux_TxHash = o_tx_hash v, ux_TxIndex = o_tx_index v,
        ux_Data = \<lparr>ud_Addresses = o_script_addresses v, ud_Value = o_value v, ud_Mixed = o_mixed v, ud_VoutDbID = int (o_id v)\<rparr>\<rparr>)
      (filter (\<lambda>t. t_tx_hash t = o_tx_hash v \<and> o_spend_tx_row_id v = None \<and> o_value v > 0 \<and> t_is_mainchain t \<and> t_is_valid t)
        (t_transactions d))) (t_vouts d))"

definition RetrieveUTXOs :: "UTXO list sql" where
  "RetrieveUTXOs =
    sql_bind DBBestBlock (\<lambda>(_, h). if h < 1 then sql_return [] else exec (\<lambda>d. (d, SelectUTXOs d)))"

definition InitUtxoCache :: "UTXO list \<Rightarrow> 'c ChainDB \<Rightarrow> 'c ChainDB" where
  "InitUtxoCache us pgb = pgb\<lparr>db_utxoCache := utxo_Reinit us (db_utxoCache pgb)\<rparr>"

end
