(* ===== verification/SyncChain.thy ===== *)
theory SyncChain
  imports ChainMaintain StakeDB
begin

text \<open>
  The synchronisation of the chain database with the node at the start (\<open>SyncChainDB\<close> of \<open>db/dcrpg/sync.go\<close>): the
  stake database is rewound to the height of the tables, indexes are dropped, the blocks up to the height
  of the node are connected to the stake database and stored, duplicates are removed and the indexes
  created, and the blocks that came in the meantime are imported. \<open>None\<close> is a synchronisation that never
  ends. Progress reports, the analysis of tables, indexes that are not unique and the agenda tables are left
  out, apart from the failures of the statements that create and drop the temporary index.
\<close>

section \<open>State\<close>

text \<open>
  What the code asks others for: the answers of \<open>GetBestBlock\<close> in their order, the blocks by height, the
  chain work, whether the context is cancelled when it is looked at, the order in which the trees of a block
  are stored, the block and the hashes as the stake database sees them, and the expired and missed tickets
  of its best node.
\<close>

record ('n, 'u, 'db, 'p) sync_env =
  sy_GetBestBlock :: "nat \<Rightarrow> int option"
  sy_GetBlock :: "int \<Rightarrow> MsgBlock option"
  sy_GetChainWork :: "string \<Rightarrow> bool"
  sy_Done :: "nat \<Rightarrow> bool"
  sy_stakeFirst :: "int \<Rightarrow> bool"
  sy_env :: "('n, 'u, 'db, 'p) stake_env"
  sy_client :: client
  sy_Block :: "MsgBlock \<Rightarrow> Block"
  sy_Hash :: "string \<Rightarrow> Hash"
  sy_coins :: "float64 \<Rightarrow> int"
  sy_Expired :: "'n option \<Rightarrow> string \<Rightarrow> bool"
  sy_Missed :: "'n option \<Rightarrow> string list"

record ('c, 'n, 'db, 'p) sync_state =
  sy_pgb :: "'c ChainDB"
  sy_stake :: "('n, 'db, 'p) StakeDatabase"
  sy_indexes :: "unique_index set"
  sy_ibd :: bool
  sy_asked :: nat
  sy_looked :: nat

datatype sync_error =
    NodeFailed
  | SqlFailed sql_error
  | InvalidHeight
  | DeleteStakeDB
  | RewindFailed
  | Cancelled
  | BlockFailed int
  | WrongBlock int int
  | ConnectFailed int
  | ChainWorkFailed string
  | StoreFailed sql_error

type_synonym ('c, 'n, 'db, 'p, 'a) sync_op =
  "('c, 'n, 'db, 'p) sync_state \<Rightarrow> ('c, 'n, 'db, 'p) sync_state \<times> (sync_error + 'a)"

definition sync_bind :: "('c, 'n, 'db, 'p, 'a) sync_op \<Rightarrow> ('a \<Rightarrow> ('c, 'n, 'db, 'p, 'b) sync_op) \<Rightarrow> ('c, 'n, 'db, 'p, 'b) sync_op" where
  "sync_bind m f s = (case m s of (s', Inl e) \<Rightarrow> (s', Inl e) | (s', Inr x) \<Rightarrow> f x s')"

definition sync_return :: "'a \<Rightarrow> ('c, 'n, 'db, 'p, 'a) sync_op" where
  "sync_return x s = (s, Inr x)"

definition sync_fail :: "sync_error \<Rightarrow> ('c, 'n, 'db, 'p, 'a) sync_op" where
  "sync_fail e s = (s, Inl e)"

text \<open>Operations on the parts of the state.\<close>

definition on_chain :: "(sql_error \<Rightarrow> sync_error) \<Rightarrow> ('c, 'a) chain_op \<Rightarrow> ('c, 'n, 'db, 'p, 'a) sync_op" where
  "on_chain err m s =
    (case m (sy_pgb s) of
       (p, Inl e) \<Rightarrow> (s\<lparr>sy_pgb := p\<rparr>, Inl (err e))
     | (p, Inr x) \<Rightarrow> (s\<lparr>sy_pgb := p\<rparr>, Inr x))"

definition on_indexes :: "(indexed_conn \<Rightarrow> indexed_conn \<times> (sql_error + 'a)) \<Rightarrow> ('c, 'n, 'db, 'p, 'a) sync_op" where
  "on_indexes m s =
    (case m (db_conn (sy_pgb s), sy_indexes s) of
       ((c, ixs), r) \<Rightarrow>
         (s\<lparr>sy_pgb := (sy_pgb s)\<lparr>db_conn := c\<rparr>, sy_indexes := ixs\<rparr>, case r of Inl e \<Rightarrow> Inl (SqlFailed e) | Inr x \<Rightarrow> Inr x))"

definition statement :: "('c, 'n, 'db, 'p, unit) sync_op" where
  "statement = on_chain SqlFailed (on_db (exec (\<lambda>d. (d, ()))))"

definition ask_best_block :: "('n, 'u, 'db, 'p) sync_env \<Rightarrow> ('c, 'n, 'db, 'p, int) sync_op" where
  "ask_best_block env s =
    (s\<lparr>sy_asked := Suc (sy_asked s)\<rparr>,
     case sy_GetBestBlock env (sy_asked s) of None \<Rightarrow> Inl NodeFailed | Some h \<Rightarrow> Inr h)"

definition check_cancelled :: "('n, 'u, 'db, 'p) sync_env \<Rightarrow> ('c, 'n, 'db, 'p, unit) sync_op" where
  "check_cancelled env s =
    (s\<lparr>sy_looked := Suc (sy_looked s)\<rparr>, if sy_Done env (sy_looked s) then Inl Cancelled else Inr ())"

definition stake_height :: "('n, 'u, 'db, 'p) sync_env \<Rightarrow> ('c, 'n, 'db, 'p) sync_state \<Rightarrow> int" where
  "stake_height env s = uint (Height (sy_env env) (sy_stake s))"

definition set_dup_checks :: "bool \<Rightarrow> ('c, 'n, 'db, 'p, unit) sync_op" where
  "set_dup_checks b s = (s\<lparr>sy_pgb := (sy_pgb s)\<lparr>db_dupChecks := b\<rparr>\<rparr>, Inr ())"

text \<open>The flag is a column of the meta table, whose one row the setup of the tables inserts.\<close>

definition IBDComplete :: "('c, 'n, 'db, 'p, bool) sync_op" where
  "IBDComplete =
    sync_bind statement (\<lambda>_ s. (s, if t_meta (data (db_conn (sy_pgb s))) = [] then Inl (SqlFailed ErrNoRows) else Inr (sy_ibd s)))"

definition SetIBDComplete :: "bool \<Rightarrow> ('c, 'n, 'db, 'p, unit) sync_op" where
  "SetIBDComplete b =
    sync_bind statement (\<lambda>_ s.
      (s\<lparr>sy_ibd := (if t_meta (data (db_conn (sy_pgb s))) = [] then sy_ibd s else b)\<rparr>,
       if length (t_meta (data (db_conn (sy_pgb s)))) = 1 then Inr ()
       else Inl (SqlFailed (ErrOther ''failed to update exactly 1 row in meta table''))))"

section \<open>Rewinding the stake database\<close>

text \<open>A cancelled rewind is no error; the import that follows is cancelled then.\<close>

partial_function (option) rewind_stake :: "('n, 'u, 'db, 'p) sync_env \<Rightarrow> int \<Rightarrow> ('c, 'n, 'db, 'p) sync_state \<Rightarrow>
    (('c, 'n, 'db, 'p) sync_state \<times> (sync_error + unit)) option" where
  "rewind_stake env toHeight s =
    (if stake_height env s \<le> toHeight then Some (s, Inr ())
     else if sy_Done env (sy_looked s) then Some (s\<lparr>sy_looked := Suc (sy_looked s)\<rparr>, Inr ())
     else
       (case DisconnectBlock (sy_env env) (sy_client env) False (sy_stake s) of
          (db', Ok) \<Rightarrow> rewind_stake env toHeight (s\<lparr>sy_looked := Suc (sy_looked s), sy_stake := db'\<rparr>)
        | (db', _) \<Rightarrow> Some (s\<lparr>sy_looked := Suc (sy_looked s), sy_stake := db'\<rparr>, Inl RewindFailed)))"

declare rewind_stake.simps [code]

definition RewindStakeDB :: "('n, 'u, 'db, 'p) sync_env \<Rightarrow> int \<Rightarrow> ('c, 'n, 'db, 'p) sync_state \<Rightarrow>
    (('c, 'n, 'db, 'p) sync_state \<times> (sync_error + unit)) option" where
  "RewindStakeDB env toHeight s = rewind_stake env (if toHeight < 0 then 0 else toHeight) s"

section \<open>Importing blocks\<close>

definition rescanLogBlockChunk :: int where
  "rescanLogBlockChunk = 500"

text \<open>What the stake database says about a block, as storing the block reads it.\<close>

definition view_of :: "('n, 'u, 'db, 'p) sync_env \<Rightarrow> ('n, 'db, 'p) StakeDatabase \<Rightarrow> stake_view" where
  "view_of env sdb =
    \<lparr>se_PoolInfo = (\<lambda>h. map_option (\<lambda>t. \<lparr>pi_Height = uint (tpiHeight t), pi_Size = uint (tpiSize t),
         pi_Value = sy_coins env (tpiValue t), pi_Winners = tpiWinners t\<rparr>) (PoolInfo (sy_Hash env h) sdb)),
     se_ExistsExpiredTicket = sy_Expired env (BestNode sdb),
     se_MissedByBlock = sy_Missed env (BestNode sdb)\<rparr>"

text \<open>The stake database must be at the height before, or it has the block already.\<close>

definition advance_stake :: "('n, 'u, 'db, 'p) sync_env \<Rightarrow> int \<Rightarrow> MsgBlock \<Rightarrow> ('c, 'n, 'db, 'p, unit) sync_op" where
  "advance_stake env ib mb s =
    (let stakeDBHeight = stake_height env s
     in if ib > stakeDBHeight
        then (if ib - stakeDBHeight \<noteq> 1 then (s, Inl (WrongBlock ib stakeDBHeight))
          else
            (case ConnectBlock (sy_env env) (sy_client env) (sy_Block env mb) (sy_stake s) of
               (db', Ok) \<Rightarrow> (s\<lparr>sy_stake := db'\<rparr>, Inr ())
             | (db', _) \<Rightarrow> (s\<lparr>sy_stake := db'\<rparr>, Inl (ConnectFailed ib))))
        else (s, Inr ()))"

text \<open>The height of the node is asked for at the start, at intervals, and when it is reached.\<close>

definition refresh_height :: "('n, 'u, 'db, 'p) sync_env \<Rightarrow> int \<Rightarrow> int \<Rightarrow> int \<Rightarrow> ('c, 'n, 'db, 'p, int) sync_op" where
  "refresh_height env startHeight ib nh =
    (if ((ib - 1) mod rescanLogBlockChunk = 0 \<or> ib = startHeight) \<and> ib \<noteq> 0 then ask_best_block env else sync_return nh)"

definition store_next :: "('n, 'u, 'db, 'p) sync_env \<Rightarrow> bool \<Rightarrow> int \<Rightarrow> MsgBlock \<Rightarrow> ('c, 'n, 'db, 'p, unit) sync_op" where
  "store_next env updateAllAddresses ib mb s =
    (if \<not> sy_GetChainWork env (mb_Hash mb) then (s, Inl (ChainWorkFailed (mb_Hash mb)))
     else on_chain StoreFailed
       (StoreBlock (sy_stakeFirst env ib) (view_of env (sy_stake s)) mb True True True (\<not> updateAllAddresses)) s)"

definition import_block :: "('n, 'u, 'db, 'p) sync_env \<Rightarrow> bool \<Rightarrow> int \<Rightarrow> int \<Rightarrow> int \<Rightarrow> ('c, 'n, 'db, 'p, int) sync_op" where
  "import_block env updateAllAddresses startHeight ib nh =
    sync_bind (check_cancelled env) (\<lambda>_.
    sync_bind (refresh_height env startHeight ib nh) (\<lambda>nh.
      case sy_GetBlock env ib of
        None \<Rightarrow> sync_fail (BlockFailed ib)
      | Some mb \<Rightarrow>
          sync_bind (advance_stake env ib mb) (\<lambda>_.
          sync_bind (store_next env updateAllAddresses ib mb) (\<lambda>_.
            if ib = nh then ask_best_block env else sync_return nh))))"

partial_function (option) import_blocks :: "('n, 'u, 'db, 'p) sync_env \<Rightarrow> bool \<Rightarrow> int \<Rightarrow> int \<Rightarrow> int \<Rightarrow> ('c, 'n, 'db, 'p) sync_state \<Rightarrow>
    (('c, 'n, 'db, 'p) sync_state \<times> (sync_error + int)) option" where
  "import_blocks env updateAllAddresses startHeight ib nh s =
    (if nh < ib then Some (s, Inr nh)
     else
       (case import_block env updateAllAddresses startHeight ib nh s of
          (s', Inl e) \<Rightarrow> Some (s', Inl e)
        | (s', Inr nh') \<Rightarrow> import_blocks env updateAllAddresses startHeight (ib + 1) nh' s'))"

declare import_blocks.simps [code]

section \<open>The synchronisation\<close>

definition warm_utxo_cache :: "('c, 'n, 'db, 'p, unit) sync_op" where
  "warm_utxo_cache s =
    (if utxo_Size (db_utxoCache (sy_pgb s)) = 0
     then sync_bind (on_chain SqlFailed (on_db RetrieveUTXOs))
       (\<lambda>us s. (s\<lparr>sy_pgb := InitUtxoCache us (sy_pgb s)\<rparr>, Inr ())) s
     else (s, Inr ()))"

definition deindex :: "indexed_conn \<Rightarrow> indexed_conn \<times> (sql_error + unit)" where
  "deindex s = (DeindexAll s, Inr ())"

definition prepare_indexes :: "bool \<Rightarrow> ('c, 'n, 'db, 'p, unit) sync_op" where
  "prepare_indexes reindexing =
    (if reindexing
     then sync_bind (on_indexes deindex) (\<lambda>_. sync_bind statement (\<lambda>_. set_dup_checks False))
     else set_dup_checks True)"

definition prepare_tables :: "bool \<Rightarrow> bool \<Rightarrow> bool \<Rightarrow> ('c, 'n, 'db, 'p, unit) sync_op" where
  "prepare_tables ibdComplete reindexing updateAllAddresses =
    sync_bind warm_utxo_cache (\<lambda>_.
    sync_bind (prepare_indexes reindexing) (\<lambda>_.
      if ibdComplete \<and> (reindexing \<or> updateAllAddresses) then SetIBDComplete False else sync_return ()))"

definition clean_duplicates :: "('c, 'n, 'db, 'p, unit) sync_op" where
  "clean_duplicates s = on_chain SqlFailed (on_db (DeleteDuplicates (sy_indexes s))) s"

definition reindex :: "bool \<Rightarrow> ('c, 'n, 'db, 'p, unit) sync_op" where
  "reindex reindexing =
    (if reindexing
     then sync_bind statement (\<lambda>_.
       sync_bind clean_duplicates (\<lambda>_.
       sync_bind (on_indexes IndexAll) (\<lambda>_. on_indexes IndexTicketsTable)))
     else sync_return ())"

definition finish_tables :: "('n, 'u, 'db, 'p) sync_env \<Rightarrow> bool \<Rightarrow> bool \<Rightarrow> ('c, 'n, 'db, 'p, unit) sync_op" where
  "finish_tables env reindexing updateAllAddresses =
    sync_bind (reindex reindexing) (\<lambda>_.
    sync_bind (check_cancelled env) (\<lambda>_.
    sync_bind (if updateAllAddresses then on_chain SqlFailed (on_db UpdateSpendingInfoInAllAddresses) else sync_return ()) (\<lambda>_.
    sync_bind (check_cancelled env) (\<lambda>_.
    sync_bind (SetIBDComplete True) (\<lambda>_.
    sync_bind (check_cancelled env) (\<lambda>_. set_dup_checks True))))))"

text \<open>The import of the blocks that came in the meantime starts with the last block that was imported.\<close>

definition import_missed :: "('n, 'u, 'db, 'p) sync_env \<Rightarrow> bool \<Rightarrow> int \<Rightarrow> int \<Rightarrow> ('c, 'n, 'db, 'p) sync_state \<Rightarrow>
    (('c, 'n, 'db, 'p) sync_state \<times> (sync_error + int)) option" where
  "import_missed env updateAllAddresses startHeight endHeight s =
    (case ask_best_block env s of
       (s', Inl e) \<Rightarrow> Some (s', Inl e)
     | (s', Inr nh) \<Rightarrow>
         if nh > endHeight then import_blocks env updateAllAddresses startHeight endHeight nh s'
         else Some (s', Inr nh))"

definition sync_blocks :: "('n, 'u, 'db, 'p) sync_env \<Rightarrow> bool \<Rightarrow> bool \<Rightarrow> int \<Rightarrow> int \<Rightarrow> ('c, 'n, 'db, 'p) sync_state \<Rightarrow>
    (('c, 'n, 'db, 'p) sync_state \<times> (sync_error + int)) option" where
  "sync_blocks env reindexing updateAllAddresses startHeight nh s =
    (case import_blocks env updateAllAddresses startHeight startHeight nh s of
       None \<Rightarrow> None
     | Some (s1, Inl e) \<Rightarrow> Some (s1, Inl e)
     | Some (s1, Inr endHeight) \<Rightarrow>
         (case finish_tables env reindexing updateAllAddresses s1 of
            (s2, Inl e) \<Rightarrow> Some (s2, Inl e)
          | (s2, Inr _) \<Rightarrow> import_missed env updateAllAddresses startHeight endHeight s2))"

text \<open>The heights of the node and of the tables, and whether the initial synchronisation was completed.\<close>

definition start_heights :: "('n, 'u, 'db, 'p) sync_env \<Rightarrow> ('c, 'n, 'db, 'p, int \<times> int \<times> bool) sync_op" where
  "start_heights env =
    sync_bind (ask_best_block env) (\<lambda>nh.
    sync_bind (on_chain SqlFailed (on_db DBBestBlock)) (\<lambda>(_, lastBlock).
    sync_bind IBDComplete (\<lambda>ibdComplete.
      if lastBlock < -1 then sync_fail InvalidHeight else sync_return (nh, lastBlock, ibdComplete))))"

definition rewind_if_ahead :: "('n, 'u, 'db, 'p) sync_env \<Rightarrow> int \<Rightarrow> ('c, 'n, 'db, 'p) sync_state \<Rightarrow>
    (('c, 'n, 'db, 'p) sync_state \<times> (sync_error + unit)) option" where
  "rewind_if_ahead env lastBlock s =
    (if stake_height env s > lastBlock \<and> stake_height env s > 0
     then (if lastBlock < 0 \<or> stake_height env s > 2 * lastBlock then Some (s, Inl DeleteStakeDB)
       else RewindStakeDB env lastBlock s)
     else Some (s, Inr ()))"

definition in_batch :: "bool \<Rightarrow> ('c, 'n, 'db, 'p) sync_state \<Rightarrow> ('c, 'n, 'db, 'p) sync_state" where
  "in_batch b s = s\<lparr>sy_pgb := (sy_pgb s)\<lparr>db_InBatchSync := b\<rparr>\<rparr>"

definition sync_all :: "('n, 'u, 'db, 'p) sync_env \<Rightarrow> bool \<Rightarrow> bool \<Rightarrow> ('c, 'n, 'db, 'p) sync_state \<Rightarrow>
    (('c, 'n, 'db, 'p) sync_state \<times> (sync_error + int)) option" where
  "sync_all env updateAll newIndexes s =
    (case start_heights env s of
       (s1, Inl e) \<Rightarrow> Some (s1, Inl e)
     | (s1, Inr (nh, lastBlock, ibdComplete)) \<Rightarrow>
         (case rewind_if_ahead env lastBlock s1 of
            None \<Rightarrow> None
          | Some (s2, Inl e) \<Rightarrow> Some (s2, Inl e)
          | Some (s2, Inr _) \<Rightarrow>
              (let reindexing = (newIndexes \<or> lastBlock = -1 \<or> \<not> ibdComplete);
                   updateAllAddresses = (updateAll \<or> \<not> ibdComplete)
               in case prepare_tables ibdComplete reindexing updateAllAddresses s2 of
                    (s3, Inl e) \<Rightarrow> Some (s3, Inl e)
                  | (s3, Inr _) \<Rightarrow> sync_blocks env reindexing updateAllAddresses (lastBlock + 1) nh s3)))"

definition SyncChainDB :: "('n, 'u, 'db, 'p) sync_env \<Rightarrow> bool \<Rightarrow> bool \<Rightarrow> ('c, 'n, 'db, 'p) sync_state \<Rightarrow>
    (('c, 'n, 'db, 'p) sync_state \<times> (sync_error + int)) option" where
  "SyncChainDB env updateAllAddresses newIndexes s =
    map_option (\<lambda>(s', r). (in_batch False s', r)) (sync_all env updateAllAddresses newIndexes (in_batch True s))"

end
