(* ===== verification/ChainMaintainContract.thy ===== *)
theory ChainMaintainContract
  imports ChainMaintain
begin

text \<open>
  What maintaining the tables promises: removing duplicates leaves the newest row of each key and makes the
  indexes on vins, vouts and transactions possible; creating the indexes succeeds only on tables that keep
  them; the update by ranges of heights gives address rows their spenders; the cache holds the unspent
  outputs.
\<close>

section \<open>Identifiers\<close>

text \<open>What no index is needed for: serial identifiers, and the primary keys.\<close>

definition serial :: "('r \<Rightarrow> nat) \<Rightarrow> nat \<Rightarrow> 'r list \<Rightarrow> bool" where
  "serial ident n rs \<longleftrightarrow> distinct (map ident rs) \<and> (\<forall>r \<in> set rs. ident r < n)"

lemma serial_mono: "serial ident n rs \<Longrightarrow> n \<le> k \<Longrightarrow> serial ident k rs"
  by (auto simp: serial_def)

lemma serial_update: "serial ident n rs \<Longrightarrow> (\<And>r. ident (f r) = ident r) \<Longrightarrow> serial ident n (update_where P f rs)"
  by (auto simp: serial_def map_update_where set_update_where)

lemma serial_delete: "serial ident n rs \<Longrightarrow> serial ident n (delete_where P rs)"
  by (auto simp: serial_def delete_where_def distinct_map_filter)

lemma serial_insert:
  assumes "serial ident n rs" "ident row = n" "\<And>r. ident (change r) = ident r"
  shows "serial ident (Suc n) (fst (insert_row checked upsert same change ident row rs))"
proof -
  have "serial ident (Suc n) rs" by (rule serial_mono [OF assms(1)]) simp
  moreover have "serial ident (Suc n) (rs @ [row])"
    using assms(1,2) by (auto simp: serial_def)
  ultimately show ?thesis
    by (simp add: insert_row_def serial_update assms(3))
qed

definition serial_ids :: "db \<Rightarrow> bool" where
  "serial_ids d \<longleftrightarrow>
    serial i_id (next_vin (seqs d)) (t_vins d) \<and> serial o_id (next_vout (seqs d)) (t_vouts d) \<and>
    serial t_id (next_tx (seqs d)) (t_transactions d) \<and> serial a_id (next_address (seqs d)) (t_addresses d) \<and>
    serial b_id (next_block (seqs d)) (t_blocks d) \<and> serial k_id (next_ticket (seqs d)) (t_tickets d) \<and>
    serial v_id (next_vote (seqs d)) (t_votes d) \<and> serial m_id (next_miss (seqs d)) (t_misses d) \<and>
    distinct (map c_this_hash (t_block_chain d)) \<and> distinct (map c_block_db_id (t_block_chain d)) \<and>
    distinct (map s_height (t_stats d))"

text \<open>The indexes that insertions name when they check for conflicts.\<close>

definition named_indexes :: "unique_index set" where
  "named_indexes = {BlocksOnHash, TransactionsOnHashes, VinsOnVins, VoutsOnTxHashInd, VotesOnHashes, MissesOnHashes,
    AddressesOnVoutID, TreasuryOnTxHash, TicketsOnHashes}"

lemma tables_ok_split: "tables_ok d \<longleftrightarrow> serial_ids d \<and> (\<forall>ix \<in> named_indexes. index_holds ix d)"
  by (auto simp: keeps_defs serial_ids_def serial_def indexed_def named_indexes_def)

definition keeps_serials :: "db \<Rightarrow> db \<Rightarrow> bool" where
  "keeps_serials d d' \<longleftrightarrow> (serial_ids d \<longrightarrow> serial_ids d') \<and> seqs_le (seqs d) (seqs d')"

lemma keeps_serialsI: "(serial_ids d \<Longrightarrow> serial_ids d') \<Longrightarrow> seqs_le (seqs d) (seqs d') \<Longrightarrow> keeps_serials d d'"
  by (simp add: keeps_serials_def)

lemma serials_inserts:
  "keeps_serials d (fst (VinInsert checked upsert vin d))"
  "keeps_serials d (fst (VoutInsert checked upsert vout d))"
  "keeps_serials d (fst (TxInsert checked upsert tx d))"
  "keeps_serials d (fst (AddressInsert checked upsert a d))"
  "keeps_serials d (fst (TicketInsert checked upsert k d))"
  "keeps_serials d (fst (VoteInsert checked upsert v d))"
  "keeps_serials d (fst (MissInsert checked upsert ms d))"
  "keeps_serials d (fst (BlockInsert checked b d))"
  by (rule keeps_serialsI; simp add: VinInsert_def VoutInsert_def TxInsert_def AddressInsert_def TicketInsert_def VoteInsert_def
    MissInsert_def BlockInsert_def Let_def case_prod_unfold serial_ids_def seqs_le_def; rule serial_insert; simp)+

lemma serials_other_inserts:
  "keeps_serials d (fst (TreasuryInsert checked upsert y d))"
  "keeps_serials d (fst (BlockPrevNextInsert r d))"
  "keeps_serials d (fst (UpsertStats st d))"
  by (rule keeps_serialsI;
    auto simp: TreasuryInsert_def BlockPrevNextInsert_def UpsertStats_def Let_def serial_ids_def intro!: distinct_insert_row)+

lemma serials_updates:
  "keeps_serials d (fst (SetTicketSpendingInfoForTicketDbID i h txDbID spendType status d))"
  "keeps_serials d (fst (SetTicketPoolStatusForTicketDbID i status d))"
  "keeps_serials d (fst (SetAddressMatchingTxHashForOutpoint spending funding ind m d))"
  "keeps_serials d (fst (UpdateVoutSpendTxRowID txDbID ids d))"
  "keeps_serials d (fst (UpdateBlockNext_sql i hs d))"
  "keeps_serials d (fst (UpdateLastBlockValid_sql i valid d))"
  "keeps_serials d (fst (clear_spent P d))"
  "keeps_serials d (fst (SetIsValidIsMainchainByTxHash valid m hs tm d))"
  "keeps_serials d (fst (UpdateRegularTxnsValidByBlock valid hs d))"
  "keeps_serials d (fst (SetAddressMainchainForVinIDs m i d))"
  "keeps_serials d (fst (SetAddressMainchainForVoutIDs m i d))"
  "keeps_serials d (fst (SetMetaDBBestBlock n hs d))"
  by (rule keeps_serialsI;
    auto simp: SetTicketSpendingInfoForTicketDbID_def SetTicketPoolStatusForTicketDbID_def SetAddressMatchingTxHashForOutpoint_def
      UpdateVoutSpendTxRowID_def UpdateBlockNext_sql_def UpdateLastBlockValid_sql_def clear_spent_def
      SetIsValidIsMainchainByTxHash_def UpdateRegularTxnsValidByBlock_def SetAddressMainchainForVinIDs_def
      SetAddressMainchainForVoutIDs_def SetMetaDBBestBlock_def Let_def serial_ids_def intro!: serial_update distinct_update_where)+

lemma serial_ids_seqs: "serial_ids d \<Longrightarrow> seqs_le (seqs d) q \<Longrightarrow> serial_ids (d\<lparr>seqs := q\<rparr>)"
  unfolding serial_ids_def seqs_le_def by (auto intro: serial_mono)

interpretation sn: statement_contract keeps_serials checked m mb for checked m mb
proof (unfold_locales, goal_cases)
  case (2 d1 d2 d3)
  then show ?case by (auto simp: keeps_serials_def seqs_le_def)
next
  case (3 d d')
  then show ?case using serial_ids_seqs [of d "seqs d'"] by (auto simp: keeps_serials_def)
qed (simp_all add: serials_inserts serials_other_inserts serials_updates, simp add: keeps_serials_def)

section \<open>Duplicates\<close>

text \<open>What is left of the rows: for each key that was there the row with the highest identifier, and no other row.\<close>

definition newest_per_key :: "('r \<Rightarrow> nat) \<Rightarrow> ('r \<Rightarrow> 'k) \<Rightarrow> 'r list \<Rightarrow> 'r list \<Rightarrow> bool" where
  "newest_per_key ident key rs rs' \<longleftrightarrow>
    distinct (map key rs') \<and> key ` set rs' = key ` set rs \<and> set rs' \<subseteq> set rs \<and>
    (\<forall>r' \<in> set rs'. \<forall>r \<in> set rs. key r = key r' \<longrightarrow> ident r \<le> ident r')"

lemma in_delete_duplicates:
  "r \<in> set (delete_duplicates ident key rs) \<longleftrightarrow> r \<in> set rs \<and> (\<forall>r' \<in> set rs. key r' = key r \<longrightarrow> ident r' \<le> ident r)"
  by (auto simp: delete_duplicates_def list_ex_iff linorder_not_le [symmetric])

lemma delete_duplicates_newest:
  assumes "distinct (map ident rs)"
  shows "newest_per_key ident key rs (delete_duplicates ident key rs)"
proof -
  let ?rs' = "delete_duplicates ident key rs"
  have "distinct rs" "inj_on ident (set rs)"
    using assms by (auto simp: distinct_map)
  then have "distinct ?rs'"
    by (simp add: delete_duplicates_def delete_where_def)
  moreover have "inj_on key (set ?rs')"
  proof (rule inj_onI)
    fix r1 r2
    assume "r1 \<in> set ?rs'" "r2 \<in> set ?rs'" "key r1 = key r2"
    then have "ident r1 = ident r2" "r1 \<in> set rs" "r2 \<in> set rs"
      by (auto simp: in_delete_duplicates intro: order_antisym)
    then show "r1 = r2"
      using \<open>inj_on ident (set rs)\<close> by (simp add: inj_on_def)
  qed
  moreover have "key r \<in> key ` set ?rs'" if r: "r \<in> set rs" for r
  proof -
    let ?same = "{r' \<in> set rs. key r' = key r}"
    have "finite ?same" "?same \<noteq> {}" using r by auto
    then obtain r' where "r' \<in> ?same" "\<And>x. x \<in> ?same \<Longrightarrow> ident x \<le> ident r'"
      using Max_in [of "ident ` ?same"] Max_ge [of "ident ` ?same"] by (fastforce simp: image_iff)
    then have "r' \<in> set ?rs'" "key r' = key r"
      by (auto simp: in_delete_duplicates)
    then show ?thesis by (metis image_eqI)
  qed
  ultimately show ?thesis
    by (auto simp: newest_per_key_def distinct_map in_delete_duplicates)
qed

lemma newest_same: "newest_per_key ident key rs rs \<longleftrightarrow> distinct (map key rs)" if "distinct (map ident rs)"
  by (auto simp: newest_per_key_def dest: distinct_map [THEN iffD1] inj_onD)

definition without_duplicates :: "db \<Rightarrow> db" where
  "without_duplicates d =
    d\<lparr>t_vins := delete_duplicates i_id vin_key (t_vins d), t_vouts := delete_duplicates o_id vout_key (t_vouts d),
      t_transactions := delete_duplicates t_id (\<lambda>r. (t_tx_hash r, t_block_hash r)) (t_transactions d)\<rparr>"

lemma serial_without_duplicates: "serial_ids d \<Longrightarrow> serial_ids (without_duplicates d)"
  by (simp add: serial_ids_def without_duplicates_def delete_duplicates_def serial_delete)

lemma DeleteDuplicates_ok:
  assumes "outcomes c = []" "ixs \<inter> {VinsOnVins, VoutsOnTxHashInd, TransactionsOnHashes} = {}"
  shows "DeleteDuplicates ixs c = (c\<lparr>data := without_duplicates (data c)\<rparr>, Inr ())"
  using assms by (simp add: DeleteDuplicates_def DeleteDuplicateVins_def DeleteDuplicateVouts_def DeleteDuplicateTxns_def
      unless_unique_def sql_bind_def DeleteVinsDuplicateRows_def DeleteVoutDuplicateRows_def DeleteTxDuplicateRows_def
      without_duplicates_def)

text \<open>Without regard to failures: only rows of the three tables go.\<close>

definition fewer_rows :: "db \<Rightarrow> db \<Rightarrow> bool" where
  "fewer_rows d d' \<longleftrightarrow> keeps_serials d d' \<and> t_blocks d' = t_blocks d \<and> t_meta d' = t_meta d"

interpretation fr: table_relation fewer_rows
  by unfold_locales (auto simp: fewer_rows_def keeps_serials_def seqs_le_def serial_ids_seqs)

lemma DeleteDuplicates_fewer: "within fewer_rows (DeleteDuplicates ixs)"
  unfolding DeleteDuplicates_def DeleteDuplicateVins_def DeleteDuplicateVouts_def DeleteDuplicateTxns_def unless_unique_def
    DeleteVinsDuplicateRows_def DeleteVoutDuplicateRows_def DeleteTxDuplicateRows_def
  by (auto intro!: fr.within_bind fr.within_exec
    simp: fewer_rows_def keeps_serials_def serial_ids_def delete_duplicates_def serial_delete)


section \<open>Indexes\<close>

text \<open>The next \<open>k\<close> statements do not fail.\<close>

definition healthy :: "nat \<Rightarrow> conn \<Rightarrow> bool" where
  "healthy k c \<longleftrightarrow> True \<notin> set (take k (outcomes c))"

lemma healthy_exec:
  assumes "healthy (Suc k) c"
  shows "exec stmt c = (c\<lparr>data := fst (stmt (data c)), outcomes := tl (outcomes c)\<rparr>, Inr (snd (stmt (data c))))"
    "healthy k (c\<lparr>data := d, outcomes := tl (outcomes c)\<rparr>)"
  using assms by (cases "outcomes c"; auto simp: healthy_def exec_def split: prod.split)+

lemma healthy_mono: "healthy k c \<Longrightarrow> j \<le> k \<Longrightarrow> healthy j c"
  by (auto simp: healthy_def dest: set_take_subset_set_take [THEN subsetD])

lemma healthy_drop:
  assumes "healthy (Suc k) (fst s)"
  shows "snd (drop_index ix s) = snd s - {ix}" "healthy k (fst (drop_index ix s))" "data (fst (drop_index ix s)) = data (fst s)"
  using healthy_exec(1) [OF assms, where stmt = "\<lambda>d. (d, ())"] healthy_exec(2) [OF assms, of "data (fst s)"]
  by (simp_all add: drop_index_def)

lemma healthy_drops:
  assumes "healthy (k + length ixs) (fst s)"
  shows "snd (foldl (\<lambda>s ix. drop_index ix s) s ixs) = snd s - set ixs \<and> healthy k (fst (foldl (\<lambda>s ix. drop_index ix s) s ixs)) \<and>
    data (fst (foldl (\<lambda>s ix. drop_index ix s) s ixs)) = data (fst s)"
  using assms
proof (induction ixs arbitrary: s)
  case (Cons ix ixs)
  then show ?case
    using healthy_drop [of "k + length ixs" s ix] Cons.IH [of "drop_index ix s"] by auto
qed simp

lemma DeindexAll_all:
  assumes "healthy (k + 11) (fst s)"
  shows "snd (DeindexAll s) = {}" "healthy k (fst (DeindexAll s))" "data (fst (DeindexAll s)) = data (fst s)"
proof -
  let ?ixs = "[BlocksOnHash, TransactionsOnHashes, TransactionsOnBlockIn, VinsOnVins, VoutsOnTxHashInd, AddressesOnVoutID,
       VotesOnHashes, MissesOnHashes, TreasuryOnTxHash, TicketsOnHashes, TicketsOnTxDbID]"
  have "ix \<in> set ?ixs" for ix
    by (cases ix) simp_all
  then have "snd s - set ?ixs = {}" by blast
  moreover have "k + length ?ixs = k + 11" by simp
  ultimately show "snd (DeindexAll s) = {}" "healthy k (fst (DeindexAll s))" "data (fst (DeindexAll s)) = data (fst s)"
    using healthy_drops [of k ?ixs s] assms unfolding DeindexAll_def by metis+
qed

lemma create_index_result:
  assumes "create_index ix s = (s', r)"
  shows "data (fst s') = data (fst s)" "snd s \<subseteq> snd s'"
    "r = Inr () \<Longrightarrow> ix \<in> snd s' \<and> (ix \<in> snd s \<or> index_holds ix (data (fst s)))"
    "\<And>jx. jx \<in> snd s' \<Longrightarrow> jx \<in> snd s \<or> index_holds jx (data (fst s))"
  using assms by (auto simp: create_index_def exec_def split: prod.splits sum.splits if_splits)

text \<open>Every index that was created holds.\<close>

lemma create_indexes_result:
  assumes "create_indexes ixs s = (s', r)"
  shows "data (fst s') = data (fst s) \<and> snd s \<subseteq> snd s' \<and> (\<forall>jx. jx \<in> snd s' \<longrightarrow> jx \<in> snd s \<or> index_holds jx (data (fst s))) \<and>
    (r = Inr () \<longrightarrow> set ixs \<subseteq> snd s')"
  using assms
proof (induction ixs arbitrary: s)
  case (Cons ix ixs)
  obtain s1 r1 where 1: "create_index ix s = (s1, r1)" by fastforce
  note res = create_index_result [OF 1]
  show ?case
  proof (cases r1)
    case (Inl e)
    then show ?thesis using Cons.prems 1 res by auto
  next
    case (Inr u)
    then have "create_indexes ixs s1 = (s', r)" using Cons.prems 1 by simp
    note rest = Cons.IH [OF this]
    have "ix \<in> snd s1" using res(3) Inr by simp
    with rest res show ?thesis by (metis in_mono insert_subset list.simps(15) subset_trans)
  qed
qed simp

section \<open>Spending information of address rows\<close>

lemma serial_map: "serial ident n rs \<Longrightarrow> (\<And>r. ident (f r) = ident r) \<Longrightarrow> serial ident n (map f rs)"
  by (auto simp: serial_def comp_def)

text \<open>The update changes only the matching transactions.\<close>

definition matching_changes :: "db \<Rightarrow> db \<Rightarrow> bool" where
  "matching_changes d d' \<longleftrightarrow> d' = d\<lparr>t_addresses := t_addresses d'\<rparr> \<and>
    map (\<lambda>a. a\<lparr>a_matching_tx_hash := []\<rparr>) (t_addresses d') = map (\<lambda>a. a\<lparr>a_matching_tx_hash := []\<rparr>) (t_addresses d)"

lemma matching_changes_map:
  assumes "matching_changes d d'" "\<And>a. f (a\<lparr>a_matching_tx_hash := []\<rparr>) = f a"
  shows "map f (t_addresses d') = map f (t_addresses d)"
proof -
  have "map f (map (\<lambda>a. a\<lparr>a_matching_tx_hash := []\<rparr>) (t_addresses d')) = map f (map (\<lambda>a. a\<lparr>a_matching_tx_hash := []\<rparr>) (t_addresses d))"
    using assms(1) by (simp add: matching_changes_def)
  then show ?thesis by (simp add: comp_def assms(2))
qed

lemma matching_changes_serials:
  assumes "matching_changes d d'"
  shows "keeps_serials d d'" "tables_ok d \<longleftrightarrow> tables_ok d'"
proof -
  have same: "map a_id (t_addresses d') = map a_id (t_addresses d)" "map address_key (t_addresses d') = map address_key (t_addresses d)"
    by (rule matching_changes_map [OF assms]; simp add: address_key_def)+
  have ids: "(\<forall>a \<in> set (t_addresses d). a_id a < n) \<longleftrightarrow> (\<forall>a \<in> set (t_addresses d'). a_id a < n)" for n
    using arg_cong [OF same(1), of set] by (metis (no_types, lifting) image_iff set_map)
  obtain as where d': "d' = d\<lparr>t_addresses := as\<rparr>" "t_addresses d' = as" using assms unfolding matching_changes_def by metis
  have "serial_ids d \<longleftrightarrow> serial_ids d'"
    using same(1) ids unfolding serial_ids_def serial_def d' by simp
  moreover have "index_holds ix d \<longleftrightarrow> index_holds ix d'" for ix
    using same(2) unfolding d' by (cases ix) simp_all
  ultimately show "keeps_serials d d'" "tables_ok d \<longleftrightarrow> tables_ok d'"
    by (auto simp: keeps_serials_def tables_ok_split d')
qed

interpretation mc: table_relation matching_changes
proof (unfold_locales, goal_cases)
  case (2 d1 d2 d3)
  then show ?case unfolding matching_changes_def by (metis db.update_convs(6) db.surjective)
next
  case (3 d d')
  have "seqs d' = seqs d" using arg_cong [OF conjunct1 [OF 3 [unfolded matching_changes_def]], of seqs] by simp
  then show ?case by (simp add: matching_changes_def)
qed (auto simp: matching_changes_def)

lemma matching_changes_range: "matching_changes d (fst (UpdateAllAddressesMatchingTxHashRange lo hi d))"
  by (auto simp: matching_changes_def UpdateAllAddressesMatchingTxHashRange_def split: list.split)

lemma update_chunks_changes: "within matching_changes (update_chunks heightDB i)"
proof (rule withinI)
  show "matching_changes (data c) (data (fst (update_chunks heightDB i c)))" for c
  proof (induction heightDB i c rule: update_chunks.induct)
    case (1 heightDB i c)
    obtain c1 r where e: "exec (UpdateAllAddressesMatchingTxHashRange i (min (i + address_chunk) (heightDB + 1))) c = (c1, r)"
      by fastforce
    have c1: "matching_changes (data c) (data c1)"
      by (rule withinD [OF mc.within_exec [OF matching_changes_range] e])
    show ?case
    proof (cases "i \<le> heightDB")
      case True
      show ?thesis
      proof (cases r)
        case (Inl x)
        then show ?thesis using True e c1 by (subst update_chunks.simps) (simp add: sql_bind_def)
      next
        case (Inr x)
        then show ?thesis using 1 [OF True] True e c1
          by (subst update_chunks.simps) (auto simp: sql_bind_def intro: mc.trans)
      qed
    qed (subst update_chunks.simps, simp)
  qed
qed

lemma UpdateSpending_changes: "within matching_changes UpdateSpendingInfoInAllAddresses"
proof -
  have "within matching_changes DBBestBlock"
  proof (rule withinI)
    show "matching_changes (data c) (data (fst (DBBestBlock c)))" for c
      using mc.within_query_row [of SelectMetaDBBestBlock]
      by (auto simp: DBBestBlock_def SelectMetaDBBestBlock_def within_def split: prod.split sum.split sql_error.split) (metis fst_conv)+
  qed
  then show ?thesis
    unfolding UpdateSpendingInfoInAllAddresses_def by (auto intro!: mc.within_bind update_chunks_changes split: prod.split)
qed

text \<open>The spenders of a row with their heights.\<close>

definition spends_of :: "db \<Rightarrow> addresses_row \<Rightarrow> (int \<times> string) list" where
  "spends_of d a =
    concat (map (\<lambda>v. map (\<lambda>t. (t_block_height t, t_tx_hash t)) (filter (\<lambda>t. o_value v > 0 \<and> a_is_funding a \<and>
        o_tx_hash v = a_tx_hash a \<and> o_tx_index v = a_tx_vin_vout_index a \<and> o_spend_tx_row_id v = Some (t_id t))
      (t_transactions d))) (t_vouts d))"

lemma spenders_between_spends:
  "spenders_between lo hi d a = map snd (filter (\<lambda>(k, h). lo \<le> k \<and> k < hi) (spends_of d a))"
proof -
  have "map t_tx_hash (filter (\<lambda>t. lo \<le> t_block_height t \<and> t_block_height t < hi \<and> P t) ts) =
      map snd (filter (\<lambda>(k, h). lo \<le> k \<and> k < hi) (map (\<lambda>t. (t_block_height t, t_tx_hash t)) (filter P ts)))" for P ts
    by (induction ts) auto
  note pairs = this
  show ?thesis
    unfolding spenders_between_def spends_of_def filter_concat map_concat map_map comp_def pairs ..
qed

text \<open>Transaction identifiers and outpoints name one row.\<close>

definition one_spender :: "db \<Rightarrow> bool" where
  "one_spender d \<longleftrightarrow> distinct (map t_id (t_transactions d)) \<and> distinct (map (\<lambda>v. (o_tx_hash v, o_tx_index v)) (t_vouts d))"

lemma one_with_id: "distinct (map f rs) \<Longrightarrow> length (filter (\<lambda>r. P r \<and> k = Some (f r)) rs) \<le> 1"
  by (induction rs) (auto simp: filter_empty_conv)

lemma spends_of_one:
  assumes "one_spender d"
  shows "length (spends_of d a) \<le> 1"
proof -
  have "length (concat (map (\<lambda>v. map f (filter (\<lambda>t. o_value v > 0 \<and> a_is_funding a \<and>
        o_tx_hash v = a_tx_hash a \<and> o_tx_index v = a_tx_vin_vout_index a \<and> o_spend_tx_row_id v = Some (t_id t)) ts)) vs)) \<le> 1"
    if "distinct (map t_id ts)" "distinct (map (\<lambda>v. (o_tx_hash v, o_tx_index v)) vs)" for vs ts and f :: "transactions_row \<Rightarrow> int \<times> string"
    using that(2)
  proof (induction vs)
    case (Cons v vs)
    let ?here = "o_tx_hash v = a_tx_hash a \<and> o_tx_index v = a_tx_vin_vout_index a"
    show ?case
    proof (cases ?here)
      case True
      then have other: "\<not> (o_tx_hash w = a_tx_hash a \<and> o_tx_index w = a_tx_vin_vout_index a)" if "w \<in> set vs" for w
        using Cons.prems that by force
      have "filter (\<lambda>t. o_value w > 0 \<and> a_is_funding a \<and> o_tx_hash w = a_tx_hash a \<and> o_tx_index w = a_tx_vin_vout_index a \<and>
          o_spend_tx_row_id w = Some (t_id t)) ts = []" if "w \<in> set vs" for w
        using other [OF that] by (auto simp: filter_empty_conv)
      then have "concat (map (\<lambda>w. map f (filter (\<lambda>t. o_value w > 0 \<and> a_is_funding a \<and> o_tx_hash w = a_tx_hash a \<and>
          o_tx_index w = a_tx_vin_vout_index a \<and> o_spend_tx_row_id w = Some (t_id t)) ts)) vs) = []"
        by simp
      then show ?thesis
        using one_with_id [OF that(1), of "\<lambda>t. o_value v > 0 \<and> a_is_funding a" "o_spend_tx_row_id v"] True
        by (simp only: list.map concat.simps append_Nil2 length_map) (simp add: conj_assoc)
    next
      case False
      then have "filter (\<lambda>t. o_value v > 0 \<and> a_is_funding a \<and> o_tx_hash v = a_tx_hash a \<and> o_tx_index v = a_tx_vin_vout_index a \<and>
          o_spend_tx_row_id v = Some (t_id t)) ts = []"
        by (auto simp: filter_empty_conv)
      then show ?thesis using Cons by simp
    qed
  qed simp
  then show ?thesis
    using assms unfolding spends_of_def one_spender_def by blast
qed

lemma spends_of_addresses [simp]: "spends_of (d\<lparr>t_addresses := as\<rparr>) a = spends_of d a"
  by (simp add: spends_of_def)

lemma spends_of_matching [simp]: "spends_of d (a\<lparr>a_matching_tx_hash := h\<rparr>) = spends_of d a"
  by (simp add: spends_of_def)

lemma range_twice:
  assumes "one_spender d" "lo \<le> mid" "mid \<le> hi"
  shows "fst (UpdateAllAddressesMatchingTxHashRange mid hi (fst (UpdateAllAddressesMatchingTxHashRange lo mid d))) =
    fst (UpdateAllAddressesMatchingTxHashRange lo hi d)"
proof -
  have "(case spenders_between mid hi d a' of [] \<Rightarrow> a' | h # _ \<Rightarrow> a'\<lparr>a_matching_tx_hash := h\<rparr>) =
      (case spenders_between lo hi d a of [] \<Rightarrow> a | h # _ \<Rightarrow> a\<lparr>a_matching_tx_hash := h\<rparr>)"
    if "a' = (case spenders_between lo mid d a of [] \<Rightarrow> a | h # _ \<Rightarrow> a\<lparr>a_matching_tx_hash := h\<rparr>)" for a a'
  proof (cases "spends_of d a")
    case Nil
    then show ?thesis using that by (simp add: spenders_between_spends)
  next
    case (Cons x xs)
    then have "spends_of d a = [x]" using spends_of_one [OF assms(1), of a] by simp
    then show ?thesis
      using that assms(2,3) by (auto simp: spenders_between_spends case_prod_unfold)
  qed
  then show ?thesis
    by (simp add: UpdateAllAddressesMatchingTxHashRange_def spenders_between_spends)
qed

lemma range_nothing: "fst (UpdateAllAddressesMatchingTxHashRange lo lo d) = d"
proof -
  have "spenders_between lo lo d a = []" for a
    by (simp add: spenders_between_spends filter_empty_conv case_prod_unfold)
  then show ?thesis by (simp add: UpdateAllAddressesMatchingTxHashRange_def)
qed

lemma one_spender_range [simp]: "one_spender (fst (UpdateAllAddressesMatchingTxHashRange lo hi d)) = one_spender d"
  by (simp add: one_spender_def UpdateAllAddressesMatchingTxHashRange_def)

lemma update_chunks_all:
  assumes "outcomes c = []" "one_spender (data c)" "i \<le> heightDB + 1"
  shows "update_chunks heightDB i c = (c\<lparr>data := fst (UpdateAllAddressesMatchingTxHashRange i (heightDB + 1) (data c))\<rparr>, Inr ())"
  using assms
proof (induction heightDB i c rule: update_chunks.induct)
  case (1 heightDB i c)
  show ?case
  proof (cases "i \<le> heightDB")
    case True
    let ?mid = "min (i + address_chunk) (heightDB + 1)"
    let ?c1 = "c\<lparr>data := fst (UpdateAllAddressesMatchingTxHashRange i ?mid (data c))\<rparr>"
    have step: "update_chunks heightDB i c = update_chunks heightDB (i + address_chunk) ?c1"
      using True 1(2) by (subst update_chunks.simps) (simp add: sql_bind_def)
    show ?thesis
    proof (cases "i + address_chunk \<le> heightDB + 1")
      case within: True
      then show ?thesis
        using 1(1) [OF True, of ?c1] 1(2,3) range_twice [OF 1(3), of i "i + address_chunk" "heightDB + 1"]
        unfolding step by (simp add: address_chunk_def)
    next
      case False
      then show ?thesis
        unfolding step by (subst update_chunks.simps) simp
    qed
  next
    case False
    then have "i = heightDB + 1" using 1(4) by simp
    then show ?thesis using range_nothing by (subst update_chunks.simps) simp
  qed
qed

text \<open>The height of the best block in the meta table.\<close>

definition db_height :: "db \<Rightarrow> int" where
  "db_height d = (case t_meta d of [] \<Rightarrow> -1 | m # _ \<Rightarrow> best_block_height m)"

lemma DBBestBlock_height:
  assumes "outcomes c = []"
  obtains h where "DBBestBlock c = (c, Inr (h, db_height (data c)))"
  using assms by (cases "t_meta (data c)") (auto simp: DBBestBlock_def SelectMetaDBBestBlock_def db_height_def)

text \<open>
  The update of the address rows by ranges of ten thousand blocks is the update by one statement over all
  heights up to that of the best block: each row of a funding output gets the transaction that spends the
  output, whatever range it is in, and no other row changes.
\<close>

theorem UpdateSpendingInfo_all:
  assumes "outcomes c = []" "one_spender (data c)" "db_height (data c) \<ge> -1"
  shows "UpdateSpendingInfoInAllAddresses c =
    (c\<lparr>data := fst (UpdateAllAddressesMatchingTxHashRange 0 (db_height (data c) + 1) (data c))\<rparr>, Inr ())"
proof (rule DBBestBlock_height [OF assms(1)])
  fix h
  assume "DBBestBlock c = (c, Inr (h, db_height (data c)))"
  then show ?thesis
    using update_chunks_all [OF assms(1,2), of 0 "db_height (data c)"] assms(3)
    by (simp add: UpdateSpendingInfoInAllAddresses_def sql_bind_def)
qed

section \<open>Unspent outputs\<close>

definition utxo_of :: "vouts_row \<Rightarrow> UTXOData" where
  "utxo_of v = \<lparr>ud_Addresses = o_script_addresses v, ud_Value = o_value v, ud_Mixed = o_mixed v, ud_VoutDbID = int (o_id v)\<rparr>"

text \<open>An output with a value that nothing spends, of a valid transaction of the main chain.\<close>

definition unspent_on_main :: "db \<Rightarrow> vouts_row \<Rightarrow> bool" where
  "unspent_on_main d v \<longleftrightarrow> v \<in> set (t_vouts d) \<and> o_spend_tx_row_id v = None \<and> o_value v > 0 \<and>
    (\<exists>t \<in> set (t_transactions d). t_tx_hash t = o_tx_hash v \<and> t_is_mainchain t \<and> t_is_valid t)"

lemma in_SelectUTXOs:
  "x \<in> set (SelectUTXOs d) \<longleftrightarrow>
    (\<exists>v. unspent_on_main d v \<and> x = \<lparr>ux_TxHash = o_tx_hash v, ux_TxIndex = o_tx_index v, ux_Data = utxo_of v\<rparr>)"
  by (auto simp: SelectUTXOs_def unspent_on_main_def utxo_of_def)

lemma SelectUTXOsE:
  assumes "x \<in> set (SelectUTXOs d)"
  obtains w where "unspent_on_main d w" "x = \<lparr>ux_TxHash = o_tx_hash w, ux_TxIndex = o_tx_index w, ux_Data = utxo_of w\<rparr>"
  using assms unfolding in_SelectUTXOs by (elim exE conjE)

lemma Peek_foldl_other:
  "\<forall>x \<in> set us. \<not> (ux_TxHash x = h \<and> ux_TxIndex x = i) \<Longrightarrow>
    utxo_Peek h i (foldl (\<lambda>u x. utxo_Set (ux_TxHash x) (ux_TxIndex x) (ux_Data x) u) u us) = utxo_Peek h i u"
  by (induction us arbitrary: u) (auto simp: Peek_Set)

lemma Peek_foldl_in:
  "\<exists>x \<in> set us. ux_TxHash x = h \<and> ux_TxIndex x = i \<Longrightarrow>
    (\<And>x. x \<in> set us \<Longrightarrow> ux_TxHash x = h \<Longrightarrow> ux_TxIndex x = i \<Longrightarrow> ux_Data x = r) \<Longrightarrow>
    utxo_Peek h i (foldl (\<lambda>u x. utxo_Set (ux_TxHash x) (ux_TxIndex x) (ux_Data x) u) u us) = Some r"
proof (induction us arbitrary: u)
  case (Cons y us)
  show ?case
  proof (cases "\<exists>x \<in> set us. ux_TxHash x = h \<and> ux_TxIndex x = i")
    case True
    then show ?thesis using Cons.IH [OF True] Cons.prems(2) by simp
  next
    case False
    then have "ux_TxHash y = h" "ux_TxIndex y = i" "ux_Data y = r" using Cons.prems by auto
    moreover have "\<forall>x \<in> set us. \<not> (ux_TxHash x = h \<and> ux_TxIndex x = i)" using False by blast
    ultimately show ?thesis by (simp add: Peek_foldl_other Peek_Set)
  qed
qed simp

lemma Reinit_in:
  assumes "unspent_on_main d v" "\<And>w. unspent_on_main d w \<Longrightarrow> o_tx_hash w = o_tx_hash v \<Longrightarrow> o_tx_index w = o_tx_index v \<Longrightarrow> w = v"
  shows "utxo_Peek (o_tx_hash v) (o_tx_index v) (utxo_Reinit (SelectUTXOs d) u) = Some (utxo_of v)"
proof -
  let ?x = "\<lparr>ux_TxHash = o_tx_hash v, ux_TxIndex = o_tx_index v, ux_Data = utxo_of v\<rparr>"
  have x: "?x \<in> set (SelectUTXOs d)"
    using assms(1) by (auto simp: in_SelectUTXOs)
  have "ux_Data y = utxo_of v" if y: "y \<in> set (SelectUTXOs d)" and k: "ux_TxHash y = o_tx_hash v" "ux_TxIndex y = o_tx_index v" for y
  proof -
    obtain w where w: "unspent_on_main d w" "y = \<lparr>ux_TxHash = o_tx_hash w, ux_TxIndex = o_tx_index w, ux_Data = utxo_of w\<rparr>"
      by (rule SelectUTXOsE [OF y])
    have "o_tx_hash w = o_tx_hash v" "o_tx_index w = o_tx_index v"
      using k unfolding w(2) by (simp_all only: UTXO.select_convs)
    then have "w = v" by (rule assms(2) [OF w(1)])
    then show ?thesis unfolding w(2) by (simp only: UTXO.select_convs)
  qed
  moreover have "\<exists>y \<in> set (SelectUTXOs d). ux_TxHash y = o_tx_hash v \<and> ux_TxIndex y = o_tx_index v"
    using x by (rule bexI [rotated]) simp
  ultimately have "utxo_Peek (o_tx_hash v) (o_tx_index v)
      (foldl (\<lambda>u x. utxo_Set (ux_TxHash x) (ux_TxIndex x) (ux_Data x) u) newUtxoStore (SelectUTXOs d)) = Some (utxo_of v)"
    by (intro Peek_foldl_in)
  moreover have "SelectUTXOs d \<noteq> []" using x by auto
  ultimately show ?thesis by (simp add: utxo_Reinit_def)
qed

lemma Reinit_out:
  assumes "\<And>w. unspent_on_main d w \<Longrightarrow> \<not> (o_tx_hash w = h \<and> o_tx_index w = i)"
  shows "utxo_Peek h i (utxo_Reinit (SelectUTXOs d) []) = None"
proof -
  have "\<forall>x \<in> set (SelectUTXOs d). \<not> (ux_TxHash x = h \<and> ux_TxIndex x = i)"
  proof (intro ballI notI)
    fix x
    assume x: "x \<in> set (SelectUTXOs d)" and k: "ux_TxHash x = h \<and> ux_TxIndex x = i"
    obtain w where w: "unspent_on_main d w" "x = \<lparr>ux_TxHash = o_tx_hash w, ux_TxIndex = o_tx_index w, ux_Data = utxo_of w\<rparr>"
      by (rule SelectUTXOsE [OF x])
    show False using assms [OF w(1)] k unfolding w(2) by (simp only: UTXO.select_convs simp_thms)
  qed
  then show ?thesis
    by (simp add: utxo_Reinit_def newUtxoStore_def Peek_foldl_other) (simp add: utxo_Peek_def)
qed

text \<open>
  C22. The cache that is filled from the tables holds exactly the outputs with a value that are unspent and belong
  to a valid transaction of the main chain, with their addresses, value, mixing and row.
\<close>

theorem warm_cache_exact:
  assumes "outcomes c = []" "db_height (data c) \<ge> 1" "one_spender (data c)" "db_utxoCache p = []"
  shows "\<exists>us. RetrieveUTXOs c = (c, Inr us) \<and>
    (\<forall>h i x. utxo_Peek h i (db_utxoCache (InitUtxoCache us p)) = Some x \<longleftrightarrow>
      (\<exists>v. unspent_on_main (data c) v \<and> o_tx_hash v = h \<and> o_tx_index v = i \<and> x = utxo_of v))"
proof (rule DBBestBlock_height [OF assms(1)])
  fix b
  assume "DBBestBlock c = (c, Inr (b, db_height (data c)))"
  then have us: "RetrieveUTXOs c = (c, Inr (SelectUTXOs (data c)))"
    using assms(1,2) by (simp add: RetrieveUTXOs_def sql_bind_def)
  have one: "v = w" if "v \<in> set (t_vouts (data c))" "w \<in> set (t_vouts (data c))" "o_tx_hash v = o_tx_hash w" "o_tx_index v = o_tx_index w" for v w
    using assms(3) that by (auto simp: one_spender_def distinct_map inj_on_def)
  have peek: "utxo_Peek h i (utxo_Reinit (SelectUTXOs (data c)) []) = Some x \<longleftrightarrow>
      (\<exists>v. unspent_on_main (data c) v \<and> o_tx_hash v = h \<and> o_tx_index v = i \<and> x = utxo_of v)" for h i x
  proof (cases "\<exists>v. unspent_on_main (data c) v \<and> o_tx_hash v = h \<and> o_tx_index v = i")
    case True
    then obtain v where v: "unspent_on_main (data c) v" "o_tx_hash v = h" "o_tx_index v = i" by blast
    have only: "w = v" if "unspent_on_main (data c) w" "o_tx_hash w = o_tx_hash v" "o_tx_index w = o_tx_index v" for w
      using one [of w v] that v by (simp add: unspent_on_main_def)
    have "utxo_Peek h i (utxo_Reinit (SelectUTXOs (data c)) []) = Some (utxo_of v)"
      using Reinit_in [OF v(1) only, of "[]"] unfolding v(2,3) .
    moreover have "w = v" if "unspent_on_main (data c) w" "o_tx_hash w = h" "o_tx_index w = i" for w
      using only [OF that(1)] that v by simp
    ultimately show ?thesis using v by (metis option.inject)
  next
    case False
    then have "utxo_Peek h i (utxo_Reinit (SelectUTXOs (data c)) []) = None"
      by (intro Reinit_out) blast
    with False show ?thesis by auto
  qed
  show ?thesis
    using us peek assms(4) by (intro exI [of _ "SelectUTXOs (data c)"]) (simp add: InitUtxoCache_def)
qed

end
