(* ===== verification/SyncChainContract.thy ===== *)
theory SyncChainContract
  imports SyncChain ChainMaintainContract
begin

text \<open>
  What the synchronisation at the start promises: that the flag of a completed initial synchronisation is set
  only on tables whose unique indexes exist and hold, however the run ends.
\<close>

section \<open>Steps\<close>

abbreviation tables_of :: "('c, 'n, 'db, 'p) sync_state \<Rightarrow> db" where
  "tables_of s \<equiv> data (db_conn (sy_pgb s))"

definition step_within :: "(('c, 'n, 'db, 'p) sync_state \<Rightarrow> ('c, 'n, 'db, 'p) sync_state \<Rightarrow> bool) \<Rightarrow> ('c, 'n, 'db, 'p, 'a) sync_op \<Rightarrow> bool" where
  "step_within R m \<longleftrightarrow> (\<forall>s. R s (fst (m s)))"

lemma step_withinD: "step_within R m \<Longrightarrow> m s = (s', r) \<Longrightarrow> R s s'"
  unfolding step_within_def by (metis fst_conv)

lemma sync_bindE:
  assumes "sync_bind m f s = (s', r)"
  obtains (fails) e where "m s = (s', Inl e)" "r = Inl e"
  | (goes_on) s1 x where "m s = (s1, Inr x)" "f x s1 = (s', r)"
proof (cases "m s")
  case (Pair s1 r1)
  show thesis
  proof (cases r1)
    case (Inl e)
    then show ?thesis using Pair assms fails by (simp add: sync_bind_def)
  next
    case (Inr x)
    then show ?thesis using Pair assms goes_on by (simp add: sync_bind_def)
  qed
qed

locale state_relation =
  fixes R :: "('c, 'n, 'db, 'p) sync_state \<Rightarrow> ('c, 'n, 'db, 'p) sync_state \<Rightarrow> bool"
  assumes refl [simp, intro]: "R s s"
    and trans: "R s1 s2 \<Longrightarrow> R s2 s3 \<Longrightarrow> R s1 s3"
begin

lemma step_bind: "step_within R m \<Longrightarrow> (\<And>x. step_within R (f x)) \<Longrightarrow> step_within R (sync_bind m f)"
  unfolding step_within_def sync_bind_def by (auto split: prod.split sum.split intro: trans)

lemma step_pure: "step_within R (sync_return x)" "step_within R (sync_fail e)"
  by (simp_all add: step_within_def sync_return_def sync_fail_def)

end

text \<open>Relations that leave the stake database and the context free, and those that leave the node free as well.\<close>

locale stake_relation = state_relation R
  for R :: "('c, 'n, 'db, 'p) sync_state \<Rightarrow> ('c, 'n, 'db, 'p) sync_state \<Rightarrow> bool" +
  assumes looked: "R s (s\<lparr>sy_looked := l\<rparr>)"
    and stakes: "R s (s\<lparr>sy_stake := k\<rparr>)"
begin

lemma step_advance: "step_within R (advance_stake env ib mb)"
  by (auto simp: step_within_def advance_stake_def Let_def stakes split: prod.split status.split)

lemma step_check: "step_within R (check_cancelled env)"
  by (simp add: step_within_def check_cancelled_def looked)

lemma step_rewind:
  assumes "rewind_stake env h s = Some y"
  shows "R s (fst y)"
proof (rule rewind_stake.raw_induct [where P = "\<lambda>env h s y. R s (fst y)", OF _ assms])
  fix rec env h s y
  assume IH: "\<And>env h s y. rec env h s = Some y \<Longrightarrow> R s (fst y)"
    and step: "(if stake_height env s \<le> h then Some (s, Inr ())
     else if sy_Done env (sy_looked s) then Some (s\<lparr>sy_looked := Suc (sy_looked s)\<rparr>, Inr ())
     else
       (case DisconnectBlock (sy_env env) (sy_client env) False (sy_stake s) of
          (db', Ok) \<Rightarrow> rec env h (s\<lparr>sy_looked := Suc (sy_looked s), sy_stake := db'\<rparr>)
        | (db', _) \<Rightarrow> Some (s\<lparr>sy_looked := Suc (sy_looked s), sy_stake := db'\<rparr>, Inl RewindFailed))) = Some y"
  obtain db' st where dis: "DisconnectBlock (sy_env env) (sy_client env) False (sy_stake s) = (db', st)" by fastforce
  have went: "R s (s\<lparr>sy_looked := Suc (sy_looked s), sy_stake := db'\<rparr>)"
    by (rule trans [OF looked [of s "Suc (sy_looked s)"] stakes])
  show "R s (fst y)"
    using step went looked [of s] IH trans [OF went]
    by (cases st) (auto simp: dis split: if_splits)
qed

lemma step_rewind_if_ahead: "rewind_if_ahead env lastBlock s = Some (s', r) \<Longrightarrow> R s s'"
  using step_rewind by (auto simp: rewind_if_ahead_def RewindStakeDB_def split: if_splits) fastforce+

end

locale chain_relation = stake_relation R
  for R :: "('c, 'n, 'db, 'p) sync_state \<Rightarrow> ('c, 'n, 'db, 'p) sync_state \<Rightarrow> bool" +
  assumes asked: "R s (s\<lparr>sy_asked := a\<rparr>)"
begin

lemma step_ask: "step_within R (ask_best_block env)"
  by (simp add: step_within_def ask_best_block_def asked)

end

text \<open>Operations on the chain database, and what the relation of its states needs to be.\<close>

definition chain_step :: "(('c ChainDB \<Rightarrow> 'c ChainDB \<Rightarrow> bool)) \<Rightarrow> ('c, 'n, 'db, 'p) sync_state \<Rightarrow> ('c, 'n, 'db, 'p) sync_state \<Rightarrow> bool" where
  "chain_step Q s s' \<longleftrightarrow> Q (sy_pgb s) (sy_pgb s') \<and> sy_ibd s' = sy_ibd s \<and> sy_indexes s' = sy_indexes s"

lemma step_on_chain: "(\<And>p. Q p (fst (m p))) \<Longrightarrow> step_within (chain_step Q) (on_chain err m)"
  by (auto simp: step_within_def chain_step_def on_chain_def split: prod.split sum.split) (metis fst_conv)+

section \<open>Importing\<close>

text \<open>What an import keeps of the tables, and what of the main chain.\<close>

definition import_keeps :: "'c ChainDB \<Rightarrow> 'c ChainDB \<Rightarrow> bool" where
  "import_keeps p p' \<longleftrightarrow> db_dupChecks p' = db_dupChecks p \<and> keeps_serials (data (db_conn p)) (data (db_conn p')) \<and>
    (db_dupChecks p \<longrightarrow> tables_ok (data (db_conn p)) \<longrightarrow> tables_ok (data (db_conn p'))) \<and>
    main_hashes (data (db_conn p)) \<subseteq> main_hashes (data (db_conn p'))"

interpretation ik: chain_relation "chain_step import_keeps"
  by unfold_locales (auto simp: chain_step_def import_keeps_def keeps_serials_def seqs_le_def)

lemma StoreBlock_import_keeps: "import_keeps p (fst (StoreBlock stakeFirst sv mb isValid True upsert upd p))"
proof -
  let ?p' = "fst (StoreBlock stakeFirst sv mb isValid True upsert upd p)"
  have "db_dupChecks ?p' = db_dupChecks p" "keeps_serials (data (db_conn p)) (data (db_conn ?p'))"
    using sn.StoreBlock_step [of p "db_dupChecks p" mb stakeFirst sv isValid True upsert upd] by (simp_all add: op_step_def)
  moreover have "tables_ok (data (db_conn ?p'))" if "db_dupChecks p" "tables_ok (data (db_conn p))"
    using kt.StoreBlock_R [of p stakeFirst sv mb isValid True upsert upd] that by (simp add: keeps_tables_def)
  moreover have "main_hashes (data (db_conn p)) \<subseteq> main_hashes (data (db_conn ?p'))"
    using StoreBlock_mains(1) [of stakeFirst sv mb isValid upsert upd p ?p'] by (metis prod.collapse)
  ultimately show ?thesis by (simp add: import_keeps_def)
qed

lemma store_next_keeps: "step_within (chain_step import_keeps) (store_next env updAll ib mb)"
  unfolding step_within_def
proof
  fix s
  have "chain_step import_keeps s (fst (on_chain StoreFailed
      (StoreBlock (sy_stakeFirst env ib) (view_of env (sy_stake s)) mb True True True (\<not> updAll)) s))"
    by (rule step_on_chain [unfolded step_within_def, rule_format]) (rule StoreBlock_import_keeps)
  then show "chain_step import_keeps s (fst (store_next env updAll ib mb s))"
    by (simp add: store_next_def)
qed

lemma import_block_keeps: "step_within (chain_step import_keeps) (import_block env updAll startHeight ib nh)"
  unfolding import_block_def refresh_height_def
  by (auto intro!: ik.step_bind ik.step_ask ik.step_check ik.step_pure ik.step_advance store_next_keeps split: option.split)

lemma import_blocks_keep:
  assumes "import_blocks env updAll startHeight ib nh s = Some y"
  shows "chain_step import_keeps s (fst y)"
proof (rule import_blocks.raw_induct [where P = "\<lambda>env updAll startHeight ib nh s y. chain_step import_keeps s (fst y)", OF _ assms])
  fix rec env updAll startHeight ib nh s y
  assume IH: "\<And>env updAll startHeight ib nh s y. rec env updAll startHeight ib nh s = Some y \<Longrightarrow> chain_step import_keeps s (fst y)"
    and step: "(if nh < ib then Some (s, Inr nh)
     else
       (case import_block env updAll startHeight ib nh s of
          (s', Inl e) \<Rightarrow> Some (s', Inl e)
        | (s', Inr nh') \<Rightarrow> rec env updAll startHeight (ib + 1) nh' s')) = Some y"
  show "chain_step import_keeps s (fst y)"
  proof (cases "nh < ib")
    case False
    obtain s1 r where 1: "import_block env updAll startHeight ib nh s = (s1, r)" by fastforce
    have s1: "chain_step import_keeps s s1" by (rule step_withinD [OF import_block_keeps 1])
    show ?thesis
    proof (cases r)
      case (Inl e)
      then show ?thesis using step False s1 by (auto simp: 1)
    next
      case (Inr nh')
      then have "rec env updAll startHeight (ib + 1) nh' s1 = Some y" using step False by (simp add: 1)
      then show ?thesis by (rule ik.trans [OF s1 IH])
    qed
  qed (use step in auto)
qed

section \<open>Unique indexes\<close>

text \<open>
  The flag of a completed initial synchronisation is read at the next start: with it, insertions check for
  conflicts, which needs the unique indexes.
\<close>

definition sync_ok :: "('c, 'n, 'db, 'p) sync_state \<Rightarrow> bool" where
  "sync_ok s \<longleftrightarrow> serial_ids (tables_of s) \<and> (sy_ibd s \<longrightarrow> named_indexes \<subseteq> sy_indexes s \<and> tables_ok (tables_of s))"

text \<open>While the indexes are dropped, and while they exist.\<close>

definition without_indexes :: "('c, 'n, 'db, 'p) sync_state \<Rightarrow> bool" where
  "without_indexes s \<longleftrightarrow> \<not> sy_ibd s \<and> sy_indexes s = {} \<and> serial_ids (tables_of s)"

definition with_indexes :: "('c, 'n, 'db, 'p) sync_state \<Rightarrow> bool" where
  "with_indexes s \<longleftrightarrow> named_indexes \<subseteq> sy_indexes s \<and> tables_ok (tables_of s)"

lemma without_indexes_ok: "without_indexes s \<Longrightarrow> sync_ok s"
  by (simp add: without_indexes_def sync_ok_def)

lemma with_indexes_ok: "with_indexes s \<Longrightarrow> sync_ok s"
  by (simp add: with_indexes_def sync_ok_def tables_ok_split)

lemma import_without: "chain_step import_keeps s s' \<Longrightarrow> without_indexes s \<Longrightarrow> without_indexes s'"
  by (auto simp: chain_step_def import_keeps_def without_indexes_def keeps_serials_def)

lemma import_with:
  "chain_step import_keeps s s' \<Longrightarrow> with_indexes s \<Longrightarrow> db_dupChecks (sy_pgb s) \<Longrightarrow> with_indexes s' \<and> db_dupChecks (sy_pgb s')"
  by (auto simp: chain_step_def import_keeps_def with_indexes_def)

lemma statement_fields:
  "statement s = (s', r) \<Longrightarrow> tables_of s' = tables_of s \<and> sy_ibd s' = sy_ibd s \<and> sy_indexes s' = sy_indexes s \<and>
    db_dupChecks (sy_pgb s') = db_dupChecks (sy_pgb s)"
  by (auto simp: statement_def on_chain_def on_db_def exec_def split: if_splits)

lemma on_indexes_fields:
  assumes "on_indexes m s = (s', r)"
  shows "sy_ibd s' = sy_ibd s" "db_dupChecks (sy_pgb s') = db_dupChecks (sy_pgb s)"
    "fst (m (db_conn (sy_pgb s), sy_indexes s)) = (db_conn (sy_pgb s'), sy_indexes s')"
    "r = Inr x \<Longrightarrow> snd (m (db_conn (sy_pgb s), sy_indexes s)) = Inr x"
  using assms by (auto simp: on_indexes_def split: prod.splits sum.splits)

lemma on_chain_fields:
  assumes "on_chain err (on_db m) s = (s', r)"
  shows "sy_ibd s' = sy_ibd s" "sy_indexes s' = sy_indexes s" "db_dupChecks (sy_pgb s') = db_dupChecks (sy_pgb s)"
    "fst (m (db_conn (sy_pgb s))) = db_conn (sy_pgb s')"
  using assms by (auto simp: on_chain_def on_db_def split: prod.splits sum.splits)

lemma DeleteDuplicates_without:
  assumes "clean_duplicates s = (s', r)" "without_indexes s"
  shows "without_indexes s'"
proof -
  have "fewer_rows (tables_of s) (tables_of s')"
    using DeleteDuplicates_fewer [of "sy_indexes s"] on_chain_fields(4) [OF assms(1) [unfolded clean_duplicates_def]] unfolding within_def by metis
  then show ?thesis
    using assms(2) on_chain_fields(1,2) [OF assms(1) [unfolded clean_duplicates_def]] by (simp add: without_indexes_def fewer_rows_def keeps_serials_def)
qed

text \<open>All indexes were created, and hold.\<close>

lemma create_both:
  assumes "on_indexes IndexAll s = (s1, Inr ())" "on_indexes IndexTicketsTable s1 = (s2, Inr ())" "without_indexes s"
  shows "with_indexes s2"
proof -
  let ?p = "(db_conn (sy_pgb s), sy_indexes s)"
  have 1: "IndexAll ?p = ((db_conn (sy_pgb s1), sy_indexes s1), Inr ())"
    using on_indexes_fields(3,4) [OF assms(1)] by (metis prod.collapse)
  have 2: "IndexTicketsTable (db_conn (sy_pgb s1), sy_indexes s1) = ((db_conn (sy_pgb s2), sy_indexes s2), Inr ())"
    using on_indexes_fields(3,4) [OF assms(2)] by (metis prod.collapse)
  note all = create_indexes_result [OF 1 [unfolded IndexAll_def]] and tickets = create_indexes_result [OF 2 [unfolded IndexTicketsTable_def]]
  have "named_indexes \<subseteq> sy_indexes s2"
    using all tickets by (auto simp: named_indexes_def)
  moreover have "tables_of s2 = tables_of s" using all tickets by simp
  moreover have "index_holds ix (tables_of s)" if "ix \<in> sy_indexes s2" for ix
    using all tickets that assms(3) by (auto simp: without_indexes_def)
  ultimately show ?thesis
    using assms(3) by (auto simp: with_indexes_def tables_ok_split without_indexes_def)
qed

lemma reindex_result:
  assumes "reindex True s = (s', r)" "without_indexes s"
  shows "sync_ok s'" "r = Inr () \<Longrightarrow> with_indexes s'"
proof -
  have ok: "without_indexes s1" if "statement s = (s1, r1)" for s1 r1
    using statement_fields [OF that] assms(2) by (simp add: without_indexes_def)
  have index: "sync_ok s2" if "on_indexes m s1 = (s2, r2)" "without_indexes s1" "\<And>p. data (fst (fst (m p))) = data (fst p)" for m s1 s2 r2
    using on_indexes_fields(1,3) [OF that(1)] that(2,3) by (metis fst_conv sync_ok_def without_indexes_def)
  have same: "data (fst (fst (IndexAll p))) = data (fst p)" "data (fst (fst (IndexTicketsTable p))) = data (fst p)" for p
    unfolding IndexAll_def IndexTicketsTable_def by (metis create_indexes_result prod.collapse)+
  have "sync_ok s' \<and> (r = Inr () \<longrightarrow> with_indexes s')"
    using assms(1) unfolding reindex_def if_True
  proof (cases rule: sync_bindE)
    case (fails e)
    then show ?thesis using without_indexes_ok [OF ok [OF fails(1)]] by simp
  next
    case (goes_on s1 x)
    note s1 = ok [OF goes_on(1)]
    from goes_on(2) show ?thesis
    proof (cases rule: sync_bindE)
      case (fails e)
      then show ?thesis using without_indexes_ok [OF DeleteDuplicates_without [OF _ s1]] by blast
    next
      case (goes_on s2 x)
      note s2 = DeleteDuplicates_without [OF goes_on(1) s1]
      from goes_on(2) show ?thesis
      proof (cases rule: sync_bindE)
        case (fails e)
        then show ?thesis using index [OF fails(1) s2 same(1)] by simp
      next
        case (goes_on s3 y)
        have s3: "\<not> sy_ibd s3" "serial_ids (tables_of s3)"
          using on_indexes_fields(1,3) [OF goes_on(1)] s2 same(1) [of "(db_conn (sy_pgb s2), sy_indexes s2)"]
          by (auto simp: without_indexes_def)
        have "\<not> sy_ibd s'" "serial_ids (tables_of s')"
          using on_indexes_fields(1,3) [OF goes_on(2)] s3 same(2) [of "(db_conn (sy_pgb s3), sy_indexes s3)"] by auto
        moreover have "r = Inr () \<Longrightarrow> with_indexes s'"
          using create_both [OF _ _ s2] goes_on by simp
        ultimately show ?thesis by (simp add: sync_ok_def)
      qed
    qed
  qed
  then show "sync_ok s'" "r = Inr () \<Longrightarrow> with_indexes s'" by blast+
qed

lemma check_cancelled_fields: "check_cancelled env s = (s', r) \<Longrightarrow> sy_pgb s' = sy_pgb s \<and> sy_ibd s' = sy_ibd s \<and> sy_indexes s' = sy_indexes s"
  by (auto simp: check_cancelled_def)

lemma same_fields:
  assumes "tables_of s' = tables_of s" "sy_ibd s' = sy_ibd s" "sy_indexes s' = sy_indexes s"
  shows "sync_ok s' = sync_ok s" "with_indexes s' = with_indexes s" "without_indexes s' = without_indexes s"
  using assms by (simp_all add: sync_ok_def with_indexes_def without_indexes_def)

lemma UpdateSpending_keeps:
  assumes "on_chain SqlFailed (on_db UpdateSpendingInfoInAllAddresses) s = (s', r)"
  shows "sync_ok s \<Longrightarrow> sync_ok s'" "with_indexes s \<Longrightarrow> with_indexes s'"
proof -
  have "matching_changes (tables_of s) (tables_of s')"
    using UpdateSpending_changes on_chain_fields(4) [OF assms(1)] unfolding within_def by metis
  note tables = matching_changes_serials [OF this]
  show "sync_ok s \<Longrightarrow> sync_ok s'" "with_indexes s \<Longrightarrow> with_indexes s'"
    using tables on_chain_fields(1,2) [OF assms] by (auto simp: sync_ok_def with_indexes_def keeps_serials_def)
qed

lemma SetIBDComplete_result:
  assumes "SetIBDComplete b s = (s', r)"
  shows "tables_of s' = tables_of s" "sy_indexes s' = sy_indexes s" "db_dupChecks (sy_pgb s') = db_dupChecks (sy_pgb s)"
    "sy_ibd s' = sy_ibd s \<or> sy_ibd s' = b" "r = Inr () \<Longrightarrow> sy_ibd s' = b"
proof -
  obtain s1 r1 where 1: "statement s = (s1, r1)" by fastforce
  note s1 = statement_fields [OF 1]
  show "tables_of s' = tables_of s" "sy_indexes s' = sy_indexes s" "db_dupChecks (sy_pgb s') = db_dupChecks (sy_pgb s)"
    "sy_ibd s' = sy_ibd s \<or> sy_ibd s' = b" "r = Inr () \<Longrightarrow> sy_ibd s' = b"
    using assms s1 by (cases r1; force simp: SetIBDComplete_def sync_bind_def 1 split: if_splits)+
qed

text \<open>What follows the indexes: only with the flag set, and the checks on, the rest is imported.\<close>

lemma after_indexes:
  assumes "sync_bind (check_cancelled env) (\<lambda>_.
      sync_bind (if updAll then on_chain SqlFailed (on_db UpdateSpendingInfoInAllAddresses) else sync_return ()) (\<lambda>_.
      sync_bind (check_cancelled env) (\<lambda>_.
      sync_bind (SetIBDComplete True) (\<lambda>_.
      sync_bind (check_cancelled env) (\<lambda>_. set_dup_checks True))))) s = (s', r)" and s: "with_indexes s"
  shows "with_indexes s'" "r = Inr () \<Longrightarrow> sy_ibd s' \<and> db_dupChecks (sy_pgb s')"
proof -
  have check: "with_indexes s2" if "check_cancelled env s1 = (s2, r2)" "with_indexes s1" for s1 s2 r2
    using check_cancelled_fields [OF that(1)] that(2) by (simp add: with_indexes_def)
  have "with_indexes s' \<and> (r = Inr () \<longrightarrow> sy_ibd s' \<and> db_dupChecks (sy_pgb s'))"
    using assms(1)
  proof (cases rule: sync_bindE)
    case (fails e)
    then show ?thesis using check s by simp
  next
    case (goes_on s1 x)
    note s1 = check [OF goes_on(1) s]
    from goes_on(2) show ?thesis
    proof (cases rule: sync_bindE)
      case (fails e)
      then show ?thesis using UpdateSpending_keeps(2) [of s1] s1 by (auto simp: sync_return_def split: if_splits)
    next
      case (goes_on s2 x)
      then have s2: "with_indexes s2" using UpdateSpending_keeps(2) [of s1] s1 by (auto simp: sync_return_def split: if_splits)
      from goes_on(2) show ?thesis
      proof (cases rule: sync_bindE)
        case (fails e)
        then show ?thesis using check s2 by simp
      next
        case (goes_on s3 x)
        note s3 = check [OF goes_on(1) s2]
        from goes_on(2) show ?thesis
        proof (cases rule: sync_bindE)
          case (fails e)
          then show ?thesis using SetIBDComplete_result(1,2) [OF fails(1)] s3 by (simp add: with_indexes_def)
        next
          case (goes_on s4 x)
          then have s4: "with_indexes s4" "sy_ibd s4"
            using SetIBDComplete_result [OF goes_on(1)] s3 by (simp_all add: with_indexes_def)
          from goes_on(2) show ?thesis
          proof (cases rule: sync_bindE)
            case (fails e)
            then show ?thesis using check s4 by simp
          next
            case (goes_on s5 x)
            then show ?thesis
              using check [OF goes_on(1) s4(1)] check_cancelled_fields [OF goes_on(1)] s4(2)
              by (auto simp: set_dup_checks_def with_indexes_def)
          qed
        qed
      qed
    qed
  qed
  then show "with_indexes s'" "r = Inr () \<Longrightarrow> sy_ibd s' \<and> db_dupChecks (sy_pgb s')" by blast+
qed

lemma finish_tables_result:
  assumes "finish_tables env reindexing updAll s = (s', r)" "if reindexing then without_indexes s else with_indexes s"
  shows "sync_ok s' \<and> (r = Inr () \<longrightarrow> with_indexes s' \<and> sy_ibd s' \<and> db_dupChecks (sy_pgb s'))"
  using assms(1) unfolding finish_tables_def
proof (cases rule: sync_bindE)
  case (fails e)
  then show ?thesis
    using assms(2) reindex_result(1) [of s s'] with_indexes_ok by (auto simp: reindex_def sync_return_def split: if_splits)
next
  case (goes_on s1 x)
  then have "with_indexes s1"
    using assms(2) reindex_result(2) [of s s1] by (auto simp: reindex_def sync_return_def split: if_splits)
  then show ?thesis
    using after_indexes [OF goes_on(2)] with_indexes_ok by blast
qed

lemma import_missed_result:
  assumes "import_missed env updAll startHeight endHeight s = Some (s', r)" "with_indexes s" "sy_ibd s" "db_dupChecks (sy_pgb s)"
  shows "with_indexes s' \<and> sy_ibd s' \<and> db_dupChecks (sy_pgb s')"
proof -
  obtain s1 r1 where 1: "ask_best_block env s = (s1, r1)" by fastforce
  then have s1: "with_indexes s1" "sy_ibd s1" "db_dupChecks (sy_pgb s1)"
    using assms(2-4) by (auto simp: ask_best_block_def with_indexes_def)
  show ?thesis
  proof (cases "\<exists>nh. r1 = Inr nh \<and> nh > endHeight")
    case True
    then obtain nh where nh: "import_blocks env updAll startHeight endHeight nh s1 = Some (s', r)"
      using assms(1) 1 by (auto simp: import_missed_def)
    have "chain_step import_keeps s1 s'"
      using import_blocks_keep [OF nh] by simp
    then show ?thesis
      using import_with [of s1 s'] s1 by (simp add: chain_step_def)
  next
    case False
    then have "s' = s1" using assms(1) 1 by (auto simp: import_missed_def split: sum.splits)
    then show ?thesis using s1 by simp
  qed
qed

lemma sync_blocks_result:
  assumes "sync_blocks env reindexing updAll startHeight nh s = Some (s', r)"
    and "if reindexing then without_indexes s else with_indexes s \<and> db_dupChecks (sy_pgb s)"
  shows "sync_ok s' \<and> (\<forall>n. r = Inr n \<longrightarrow> sy_ibd s' \<and> db_dupChecks (sy_pgb s'))"
proof -
  obtain s1 r1 where 1: "import_blocks env updAll startHeight startHeight nh s = Some (s1, r1)"
    using assms(1) by (auto simp: sync_blocks_def split: option.splits)
  have "chain_step import_keeps s s1" using import_blocks_keep [OF 1] by simp
  then have s1: "if reindexing then without_indexes s1 else with_indexes s1"
    using assms(2) import_without [of s s1] import_with [of s s1] by (auto split: if_splits)
  show ?thesis
  proof (cases r1)
    case (Inl e)
    then have "s' = s1" "r = Inl e" using assms(1) 1 by (auto simp: sync_blocks_def)
    then show ?thesis using s1 without_indexes_ok with_indexes_ok by (auto split: if_splits)
  next
    case (Inr endHeight)
    obtain s2 r2 where 2: "finish_tables env reindexing updAll s1 = (s2, r2)" by fastforce
    note s2 = finish_tables_result [OF 2 s1]
    show ?thesis
    proof (cases r2)
      case (Inl e)
      then have "s' = s2" "r = Inl e" using assms(1) 1 2 Inr by (auto simp: sync_blocks_def)
      then show ?thesis using s2 by simp
    next
      case (Inr u)
      then have "import_missed env updAll startHeight endHeight s2 = Some (s', r)" "r2 = Inr ()"
        using assms(1) 1 2 \<open>r1 = Inr endHeight\<close> by (auto simp: sync_blocks_def)
      then show ?thesis
        using import_missed_result s2 with_indexes_ok by blast
    qed
  qed
qed

text \<open>Before the import: the statements that a server answers.\<close>

abbreviation conn_of :: "('c, 'n, 'db, 'p) sync_state \<Rightarrow> conn" where
  "conn_of s \<equiv> db_conn (sy_pgb s)"

definition same_tables :: "('c, 'n, 'db, 'p) sync_state \<Rightarrow> ('c, 'n, 'db, 'p) sync_state \<Rightarrow> bool" where
  "same_tables s s' \<longleftrightarrow> tables_of s' = tables_of s \<and> sy_ibd s' = sy_ibd s \<and> sy_indexes s' = sy_indexes s"

definition same_chain :: "('c, 'n, 'db, 'p) sync_state \<Rightarrow> ('c, 'n, 'db, 'p) sync_state \<Rightarrow> bool" where
  "same_chain s s' \<longleftrightarrow> sy_pgb s' = sy_pgb s \<and> sy_ibd s' = sy_ibd s \<and> sy_indexes s' = sy_indexes s"

interpretation st: chain_relation same_chain
  by unfold_locales (auto simp: same_chain_def)

lemma healthy_data [simp]: "healthy k (c\<lparr>data := d\<rparr>) = healthy k c"
  by (simp add: healthy_def)

lemma healthy_tl: "healthy (Suc k) c \<Longrightarrow> healthy k (c\<lparr>outcomes := tl (outcomes c)\<rparr>)"
  using healthy_exec(2) [of k c "data c"] by simp

lemma healthy_query:
  assumes "healthy (Suc k) c"
  shows "exec (\<lambda>d. (d, f d)) c = (c\<lparr>outcomes := tl (outcomes c)\<rparr>, Inr (f (data c)))"
  using healthy_exec(1) [OF assms, of "\<lambda>d. (d, f d)"] by simp

definition with_conn :: "conn \<Rightarrow> ('c, 'n, 'db, 'p) sync_state \<Rightarrow> ('c, 'n, 'db, 'p) sync_state" where
  "with_conn c s = s\<lparr>sy_pgb := (sy_pgb s)\<lparr>db_conn := c\<rparr>\<rparr>"

lemma with_conn_fields [simp]:
  "conn_of (with_conn c s) = c" "sy_ibd (with_conn c s) = sy_ibd s" "sy_indexes (with_conn c s) = sy_indexes s"
  "db_dupChecks (sy_pgb (with_conn c s)) = db_dupChecks (sy_pgb s)" "db_utxoCache (sy_pgb (with_conn c s)) = db_utxoCache (sy_pgb s)"
  by (simp_all add: with_conn_def)

lemma on_chain_ok: "m (conn_of s) = (c, Inr x) \<Longrightarrow> on_chain err (on_db m) s = (with_conn c s, Inr x)"
  by (simp add: on_chain_def on_db_def with_conn_def)

lemma same_tables_conn: "data c = tables_of s \<Longrightarrow> same_tables s (with_conn c s)"
  by (simp add: same_tables_def)

lemma same_tables_trans: "same_tables s1 s2 \<Longrightarrow> same_tables s2 s3 \<Longrightarrow> same_tables s1 s3"
  by (simp add: same_tables_def)

lemma healthy_statement:
  assumes "healthy (Suc k) (conn_of s)"
  obtains s' where "statement s = (s', Inr ())" "same_tables s s'" "healthy k (conn_of s')"
proof (rule that)
  let ?c = "(conn_of s)\<lparr>outcomes := tl (outcomes (conn_of s))\<rparr>"
  show "statement s = (with_conn ?c s, Inr ())"
    unfolding statement_def by (rule on_chain_ok, rule healthy_query [OF assms])
  show "same_tables s (with_conn ?c s)" by (rule same_tables_conn) simp
  show "healthy k (conn_of (with_conn ?c s))" using healthy_tl [OF assms] by simp
qed

lemma healthy_best_block:
  assumes "healthy (Suc k) c"
  obtains c' h where "DBBestBlock c = (c', Inr (h, db_height (data c)))" "data c' = data c" "healthy k c'"
proof -
  let ?c = "c\<lparr>outcomes := tl (outcomes c)\<rparr>"
  have q: "query_row SelectMetaDBBestBlock c = (?c, first_row (map (\<lambda>r. (best_block_height r, best_block_hash r)) (t_meta (data c))))"
    using healthy_exec(1) [OF assms, of SelectMetaDBBestBlock] by (simp add: query_row_def SelectMetaDBBestBlock_def)
  show ?thesis
    using that [of ?c] healthy_tl [OF assms] by (cases "t_meta (data c)") (simp_all add: DBBestBlock_def q db_height_def)
qed

lemma start_heights_healthy:
  assumes "healthy (k + 2) (conn_of s)" "start_heights env s = (s', r)"
  shows "same_tables s s'" "r = Inr (nh, lastBlock, ibd) \<Longrightarrow> healthy k (conn_of s') \<and> ibd = sy_ibd s \<and> lastBlock = db_height (tables_of s) \<and> t_meta (tables_of s) \<noteq> []"
proof -
  have "same_tables s s' \<and> (r = Inr (nh, lastBlock, ibd) \<longrightarrow> healthy k (conn_of s') \<and> ibd = sy_ibd s \<and> lastBlock = db_height (tables_of s) \<and> t_meta (tables_of s) \<noteq> [])"
    using assms(2) unfolding start_heights_def
  proof (cases rule: sync_bindE)
    case (fails e)
    then show ?thesis by (auto simp: ask_best_block_def same_tables_def)
  next
    case (goes_on s1 x)
    then have s1: "same_tables s s1" "conn_of s1 = conn_of s"
      by (auto simp: ask_best_block_def same_tables_def)
    obtain c h where best: "DBBestBlock (conn_of s1) = (c, Inr (h, db_height (tables_of s)))" "data c = tables_of s" "healthy (Suc k) c"
      using healthy_best_block [of "Suc k" "conn_of s1"] assms(1) s1 by (auto simp: same_tables_def)
    let ?s2 = "with_conn c s1"
    have on: "on_chain SqlFailed (on_db DBBestBlock) s1 = (?s2, Inr (h, db_height (tables_of s)))"
      by (rule on_chain_ok, rule best(1))
    have s2: "same_tables s ?s2"
      using s1 best(2) by (simp add: same_tables_def)
    obtain s3 where s3: "statement ?s2 = (s3, Inr ())" "same_tables ?s2 s3" "healthy k (conn_of s3)"
      by (rule healthy_statement [of k ?s2]) (simp_all add: best(3))
    note s3' = same_tables_trans [OF s2 s3(2)]
    have "(s', r) = (s3, if t_meta (tables_of s3) = [] then Inl (SqlFailed ErrNoRows) else if db_height (tables_of s) < -1 then Inl InvalidHeight else Inr (x, db_height (tables_of s), sy_ibd s3))"
      using goes_on(2) by (auto simp: sync_bind_def on IBDComplete_def s3(1) sync_fail_def sync_return_def)
    then show ?thesis
      using s3(3) s3' by (auto simp: same_tables_def)
  qed
  then show "same_tables s s'"
    "r = Inr (nh, lastBlock, ibd) \<Longrightarrow> healthy k (conn_of s') \<and> ibd = sy_ibd s \<and> lastBlock = db_height (tables_of s) \<and> t_meta (tables_of s) \<noteq> []"
    by blast+
qed

lemma warm_healthy:
  assumes "healthy (k + 2) (conn_of s)"
  obtains s' where "warm_utxo_cache s = (s', Inr ())" "same_tables s s'" "healthy k (conn_of s')"
proof (cases "utxo_Size (db_utxoCache (sy_pgb s)) = 0")
  case False
  then show ?thesis
    using that [of s] healthy_mono [OF assms, of k] by (simp add: warm_utxo_cache_def same_tables_def)
next
  case True
  obtain c h where best: "DBBestBlock (conn_of s) = (c, Inr (h, db_height (tables_of s)))" "data c = tables_of s" "healthy (Suc k) c"
    using healthy_best_block [of "Suc k" "conn_of s"] assms by auto
  obtain c' us where us: "RetrieveUTXOs (conn_of s) = (c', Inr us)" "data c' = tables_of s" "healthy k c'"
  proof (cases "db_height (tables_of s) < 1")
    case True
    then show thesis
      using best healthy_mono [OF best(3), of k] by (intro that [of c "[]"]) (simp_all add: RetrieveUTXOs_def)
  next
    case False
    then show thesis
      using best healthy_tl [OF best(3)] healthy_query [OF best(3), of SelectUTXOs]
      by (intro that [of "c\<lparr>outcomes := tl (outcomes c)\<rparr>" "SelectUTXOs (data c)"]) (simp_all add: RetrieveUTXOs_def)
  qed
  let ?s' = "(with_conn c' s)\<lparr>sy_pgb := InitUtxoCache us (sy_pgb (with_conn c' s))\<rparr>"
  show ?thesis
  proof (rule that)
    show "warm_utxo_cache s = (?s', Inr ())"
      by (simp add: warm_utxo_cache_def True sync_bind_def on_chain_ok [where m = RetrieveUTXOs and s = s, OF us(1)])
    show "same_tables s ?s'" "healthy k (conn_of ?s')"
      using us(2,3) by (simp_all add: same_tables_def InitUtxoCache_def)
  qed
qed

lemma prepare_tables_result:
  assumes "healthy 15 (conn_of s)" "sync_ok s" "sy_ibd s = ibd" "reindexing \<or> ibd" "t_meta (tables_of s) \<noteq> []"
  obtains s' r where "prepare_tables ibd reindexing updAll s = (s', r)"
    "if reindexing then without_indexes s' else with_indexes s' \<and> db_dupChecks (sy_pgb s')" "tables_of s' = tables_of s"
proof -
  note prepared = that
  obtain s1 where s1: "warm_utxo_cache s = (s1, Inr ())" "same_tables s s1" "healthy 13 (conn_of s1)"
    using warm_healthy [of 13 s] assms(1) by auto
  have flag: thesis
    if s2: "prepare_indexes reindexing s1 = (s2, Inr ())" "healthy (Suc 0) (conn_of s2)" "tables_of s2 = tables_of s" "sy_ibd s2 = ibd"
      and fin: "\<And>s'. same_tables s2 (s'\<lparr>sy_ibd := ibd\<rparr>) \<Longrightarrow> db_dupChecks (sy_pgb s') = db_dupChecks (sy_pgb s2) \<Longrightarrow> (reindexing \<Longrightarrow> \<not> sy_ibd s') \<Longrightarrow>
        (if reindexing then without_indexes s' else with_indexes s' \<and> db_dupChecks (sy_pgb s'))" for s2
  proof (cases "ibd \<and> (reindexing \<or> updAll)")
    case True
    obtain s3 where s3: "statement s2 = (s3, Inr ())" "same_tables s2 s3"
      using healthy_statement [OF s2(2)] by blast
    show thesis
    proof (rule prepared [of "s3\<lparr>sy_ibd := False\<rparr>"])
      show "prepare_tables ibd reindexing updAll s = (s3\<lparr>sy_ibd := False\<rparr>, if length (t_meta (tables_of s3)) = 1 then Inr ()
          else Inl (SqlFailed (ErrOther ''failed to update exactly 1 row in meta table'')))"
        using True assms(5) s2(3) s3(2)
        by (simp add: prepare_tables_def sync_bind_def s1(1) s2(1) SetIBDComplete_def s3(1) same_tables_def)
      show "if reindexing then without_indexes (s3\<lparr>sy_ibd := False\<rparr>)
          else with_indexes (s3\<lparr>sy_ibd := False\<rparr>) \<and> db_dupChecks (sy_pgb (s3\<lparr>sy_ibd := False\<rparr>))"
        using fin [of "s3\<lparr>sy_ibd := False\<rparr>"] s3(2) statement_fields [OF s3(1)] s2(4) by (simp add: same_tables_def)
      show "tables_of (s3\<lparr>sy_ibd := False\<rparr>) = tables_of s"
        using s3(2) s2(3) by (simp add: same_tables_def)
    qed
  next
    case False
    show thesis
    proof (rule prepared [of s2])
      show "prepare_tables ibd reindexing updAll s = (s2, Inr ())"
        using False by (auto simp: prepare_tables_def sync_bind_def s1(1) s2(1) sync_return_def)
      show "if reindexing then without_indexes s2 else with_indexes s2 \<and> db_dupChecks (sy_pgb s2)"
        using fin [of s2] False s2(4) by (auto simp: same_tables_def)
    qed (rule s2(3))
  qed
  show thesis
  proof (cases reindexing)
    case True
    let ?d = "DeindexAll (conn_of s1, sy_indexes s1)"
    have d: "snd ?d = {}" "healthy 2 (fst ?d)" "data (fst ?d) = tables_of s1"
      using DeindexAll_all [of 2 "(conn_of s1, sy_indexes s1)"] s1(3) by simp_all
    let ?t = "s1\<lparr>sy_pgb := (sy_pgb s1)\<lparr>db_conn := fst ?d\<rparr>, sy_indexes := snd ?d\<rparr>"
    have on: "on_indexes deindex s1 = (?t, Inr ())"
      by (simp add: on_indexes_def deindex_def case_prod_unfold)
    obtain t where t: "statement ?t = (t, Inr ())" "same_tables ?t t" "healthy (Suc 0) (conn_of t)"
      using healthy_statement [of "Suc 0" ?t] d(2) by (auto simp: eval_nat_numeral)
    show thesis
    proof (rule flag [of "t\<lparr>sy_pgb := (sy_pgb t)\<lparr>db_dupChecks := False\<rparr>\<rparr>"])
      show "prepare_indexes reindexing s1 = (t\<lparr>sy_pgb := (sy_pgb t)\<lparr>db_dupChecks := False\<rparr>\<rparr>, Inr ())"
        using True on t(1) by (simp add: prepare_indexes_def sync_bind_def set_dup_checks_def)
    qed (use True t(2,3) d s1(2) assms(2,3) in \<open>auto simp: same_tables_def without_indexes_def sync_ok_def\<close>)
  next
    case False
    show thesis
    proof (rule flag [of "s1\<lparr>sy_pgb := (sy_pgb s1)\<lparr>db_dupChecks := True\<rparr>\<rparr>"])
      show "prepare_indexes reindexing s1 = (s1\<lparr>sy_pgb := (sy_pgb s1)\<lparr>db_dupChecks := True\<rparr>\<rparr>, Inr ())"
        using False by (simp add: prepare_indexes_def set_dup_checks_def)
    qed (use False s1(2,3) assms in \<open>auto simp: same_tables_def with_indexes_def sync_ok_def intro: healthy_mono\<close>)
  qed
qed

lemma in_batch_fields [simp]: "tables_of (in_batch b s) = tables_of s" "conn_of (in_batch b s) = conn_of s"
    "sy_ibd (in_batch b s) = sy_ibd s" "sy_indexes (in_batch b s) = sy_indexes s" "sync_ok (in_batch b s) = sync_ok s"
    "db_dupChecks (sy_pgb (in_batch b s)) = db_dupChecks (sy_pgb s)"
  by (simp_all add: in_batch_def sync_ok_def)

text \<open>
  C18. However a synchronisation ends, the flag of a completed initial synchronisation is set afterwards only if the
  unique indexes that insertions need exist and hold, provided that the server answers the first
  seventeen statements, up to the one that clears the flag; without an error, the flag is set and the
  checks for duplicates are on.
\<close>

theorem SyncChainDB_flag:
  assumes "sync_ok s" "healthy 17 (db_conn (sy_pgb s))" "SyncChainDB env updateAll newIndexes s = Some (s', r)"
  shows "sync_ok s' \<and> (\<forall>n. r = Inr n \<longrightarrow> sy_ibd s' \<and> db_dupChecks (sy_pgb s'))"
proof -
  obtain t where t: "sync_all env updateAll newIndexes (in_batch True s) = Some (t, r)" "s' = in_batch False t"
    using assms(3) by (auto simp: SyncChainDB_def)
  obtain s1 r1 where 1: "start_heights env (in_batch True s) = (s1, r1)" by fastforce
  note s1 = start_heights_healthy [where k = 15, OF _ 1]
  have ok1: "sync_ok s1"
    using s1(1) assms(1,2) same_fields(1) [of s1 "in_batch True s"] by (simp add: same_tables_def)
  have "sync_ok t \<and> (\<forall>n. r = Inr n \<longrightarrow> sy_ibd t \<and> db_dupChecks (sy_pgb t))"
  proof (cases r1)
    case (Inl e)
    then show ?thesis using t(1) 1 ok1 by (auto simp: sync_all_def)
  next
    case (Inr x)
    obtain nh lastBlock ibd where x: "x = (nh, lastBlock, ibd)" by (metis prod_cases3)
    have h1: "healthy 15 (conn_of s1)" "ibd = sy_ibd s1" "t_meta (tables_of s1) \<noteq> []"
      using s1 assms(2) Inr x by (auto simp: same_tables_def)
    obtain s2 r2 where 2: "rewind_if_ahead env lastBlock s1 = Some (s2, r2)"
      using t(1) 1 Inr x by (auto simp: sync_all_def split: option.splits)
    have s2: "same_tables s1 s2" "conn_of s2 = conn_of s1"
      using st.step_rewind_if_ahead [OF 2] by (simp_all add: same_chain_def same_tables_def)
    have ok2: "sync_ok s2" "healthy 15 (conn_of s2)" "sy_ibd s2 = ibd" "t_meta (tables_of s2) \<noteq> []"
      using s2 ok1 h1 same_fields(1) [of s2 s1] by (auto simp: same_tables_def)
    show ?thesis
    proof (cases r2)
      case (Inl e)
      then show ?thesis using t(1) 1 \<open>r1 = Inr x\<close> x 2 ok2 by (auto simp: sync_all_def)
    next
      case (Inr u)
      let ?reindexing = "newIndexes \<or> lastBlock = -1 \<or> \<not> ibd" and ?upd = "updateAll \<or> \<not> ibd"
      obtain s3 r3 where s3: "prepare_tables ibd ?reindexing ?upd s2 = (s3, r3)"
        "if ?reindexing then without_indexes s3 else with_indexes s3 \<and> db_dupChecks (sy_pgb s3)"
        by (rule prepare_tables_result [OF ok2(2,1,3) _ ok2(4), of ?reindexing ?upd]) auto
      have ok3: "sync_ok s3"
        using s3(2) without_indexes_ok with_indexes_ok by (auto split: if_splits)
      show ?thesis
      proof (cases r3)
        case (Inl e)
        then have "t = s3" "r = Inl e"
          using t(1) 1 \<open>r1 = Inr x\<close> x 2 \<open>r2 = Inr u\<close> s3(1) by (simp_all add: sync_all_def Let_def)
        then show ?thesis using ok3 by simp
      next
        case (Inr v)
        then have "sync_blocks env ?reindexing ?upd (lastBlock + 1) nh s3 = Some (t, r)"
          using t(1) 1 \<open>r1 = Inr x\<close> x 2 \<open>r2 = Inr u\<close> s3(1) by (simp add: sync_all_def Let_def)
        then show ?thesis by (rule sync_blocks_result [OF _ s3(2)])
      qed
    qed
  qed
  then show ?thesis by (simp add: t(2))
qed

end
