(* ===== verification/SyncChainReach.thy ===== *)
theory SyncChainReach
  imports SyncChainContract
begin

text \<open>
  Where a synchronisation without an error ends: at the height of the node, with the blocks up to it on the main
  chain, the node's block as best block, and nothing taken from the main chain. That it ends at all when
  the node does not grow for ever.
\<close>

section \<open>Reaching the node\<close>

text \<open>The node serves the block at a height, and its height does not shrink.\<close>

definition serves_heights :: "('n, 'u, 'db, 'p) sync_env \<Rightarrow> bool" where
  "serves_heights env \<longleftrightarrow> (\<forall>h mb. sy_GetBlock env h = Some mb \<longrightarrow> mb_Height mb = h)"

definition heights_grow :: "('n, 'u, 'db, 'p) sync_env \<Rightarrow> bool" where
  "heights_grow env \<longleftrightarrow> (\<forall>i j a b. i \<le> j \<longrightarrow> sy_GetBestBlock env i = Some a \<longrightarrow> sy_GetBestBlock env j = Some b \<longrightarrow> a \<le> b)"

definition known :: "('n, 'u, 'db, 'p) sync_env \<Rightarrow> ('c, 'n, 'db, 'p) sync_state \<Rightarrow> int \<Rightarrow> bool" where
  "known env s nh \<longleftrightarrow> (\<exists>i < sy_asked s. sy_GetBestBlock env i = Some nh)"

definition imported :: "('n, 'u, 'db, 'p) sync_env \<Rightarrow> int \<Rightarrow> int \<Rightarrow> db \<Rightarrow> bool" where
  "imported env lo hi d \<longleftrightarrow> (\<forall>h. lo \<le> h \<longrightarrow> h \<le> hi \<longrightarrow> (\<exists>mb. sy_GetBlock env h = Some mb \<and> mb_Hash mb \<in> main_hashes d))"

definition tip_at :: "('n, 'u, 'db, 'p) sync_env \<Rightarrow> int \<Rightarrow> 'c ChainDB \<Rightarrow> bool" where
  "tip_at env h p \<longleftrightarrow> (\<exists>mb. sy_GetBlock env h = Some mb \<and> bb_height p = h \<and> bb_hash p = mb_Hash mb \<and>
    t_meta (data (db_conn p)) = [\<lparr>best_block_height = h, best_block_hash = mb_Hash mb\<rparr>])"

lemma ask_known:
  assumes "ask_best_block env s = (s', Inr h)" "heights_grow env" "known env s nh"
  shows "known env s' h" "nh \<le> h" "sy_pgb s' = sy_pgb s"
proof -
  have s': "s' = s\<lparr>sy_asked := Suc (sy_asked s)\<rparr>" "sy_GetBestBlock env (sy_asked s) = Some h"
    using assms(1) by (auto simp: ask_best_block_def split: option.splits)
  then show "known env s' h" "sy_pgb s' = sy_pgb s" by (auto simp: known_def)
  show "nh \<le> h"
    using assms(2,3) s'(2) unfolding heights_grow_def known_def by (meson less_imp_le)
qed

lemma refresh_known:
  assumes "refresh_height env startHeight ib nh s = (s', Inr h)" "heights_grow env" "known env s nh"
  shows "known env s' h" "nh \<le> h" "sy_pgb s' = sy_pgb s"
  using assms ask_known [OF _ assms(2,3), of s' h] by (auto simp: refresh_height_def sync_return_def split: if_splits)

lemma advance_fields: "advance_stake env ib mb s = (s', r) \<Longrightarrow> sy_pgb s' = sy_pgb s \<and> sy_asked s' = sy_asked s"
  by (auto simp: advance_stake_def Let_def split: prod.splits status.splits if_splits)

lemma store_next_done:
  assumes "store_next env updAll ib mb s = (s', Inr ())" "mb_Height mb = ib" "sy_GetBlock env ib = Some mb"
  shows "tip_at env ib (sy_pgb s')" "mb_Hash mb \<in> main_hashes (tables_of s')" "sy_asked s' = sy_asked s"
proof -
  let ?store = "StoreBlock (sy_stakeFirst env ib) (view_of env (sy_stake s)) mb True True True (\<not> updAll) (sy_pgb s)"
  obtain p r where st: "?store = (p, r)" by fastforce
  then have s': "s' = s\<lparr>sy_pgb := p\<rparr>" "r = Inr ()"
    using assms(1) by (auto simp: store_next_def on_chain_def split: if_splits sum.splits)
  show "tip_at env ib (sy_pgb s')" "mb_Hash mb \<in> main_hashes (tables_of s')" "sy_asked s' = sy_asked s"
    using StoreBlock_makes_tip [OF st [unfolded s'(2)]] assms(2,3) by (auto simp: s'(1) tip_at_def)
qed

lemma import_block_done:
  assumes "import_block env updAll startHeight ib nh s = (s', Inr nh')"
    and "serves_heights env" "heights_grow env" "known env s nh"
  shows "tip_at env ib (sy_pgb s')" "imported env ib ib (tables_of s')" "known env s' nh'" "nh \<le> nh'"
proof -
  have "tip_at env ib (sy_pgb s') \<and> imported env ib ib (tables_of s') \<and> known env s' nh' \<and> nh \<le> nh'"
    using assms(1) unfolding import_block_def
  proof (cases rule: sync_bindE)
    case (goes_on s1 x)
    then have s1: "known env s1 nh" using assms(4) by (auto simp: check_cancelled_def known_def)
    from goes_on(2) show ?thesis
    proof (cases rule: sync_bindE)
      case (goes_on s2 h)
      note s2 = refresh_known [OF goes_on(1) assms(3) s1]
      obtain mb where mb: "sy_GetBlock env ib = Some mb" "mb_Height mb = ib"
        using goes_on(2) assms(2) by (auto simp: sync_fail_def serves_heights_def split: option.splits)
      from goes_on(2) [unfolded mb(1) option.case] show ?thesis
      proof (cases rule: sync_bindE)
        case (goes_on s3 y)
        then have s3: "known env s3 h"
          using s2(1) advance_fields [OF goes_on(1)] by (simp add: known_def)
        from goes_on(2) show ?thesis
        proof (cases rule: sync_bindE)
          case (goes_on s4 z)
          note st = store_next_done [OF goes_on(1) [unfolded unit_eq [of z]] mb(2,1)]
          have s4: "known env s4 h" using s3 st(3) by (simp add: known_def)
          have "known env s' nh' \<and> h \<le> nh' \<and> sy_pgb s' = sy_pgb s4"
          proof (cases "ib = h")
            case True
            then have "ask_best_block env s4 = (s', Inr nh')" using goes_on(2) by simp
            from ask_known [OF this assms(3) s4] show ?thesis by blast
          next
            case False
            then have "s' = s4" "nh' = h" using goes_on(2) by (simp_all add: sync_return_def)
            then show ?thesis using s4 by simp
          qed
          moreover have "imported env ib ib (tables_of s4)"
            using st(2) mb(1) by (auto simp: imported_def dest: order_antisym)
          ultimately show ?thesis
            using st(1) s2(2) by (metis order_trans)
        qed simp
      qed simp
    qed simp
  qed simp
  then show "tip_at env ib (sy_pgb s')" "imported env ib ib (tables_of s')" "known env s' nh'" "nh \<le> nh'" by blast+
qed

lemma imported_more: "imported env lo hi d \<Longrightarrow> main_hashes d \<subseteq> main_hashes d' \<Longrightarrow> imported env lo hi d'"
  unfolding imported_def by blast

lemma imported_join: "imported env lo mid d \<Longrightarrow> imported env (mid + 1) hi d \<Longrightarrow> imported env lo hi d"
  unfolding imported_def by (metis le_less_linear zless_imp_add1_zle)

definition import_done :: "('n, 'u, 'db, 'p) sync_env \<Rightarrow> int \<Rightarrow> int \<Rightarrow> ('c, 'n, 'db, 'p) sync_state \<Rightarrow> ('c, 'n, 'db, 'p) sync_state \<Rightarrow> int \<Rightarrow> bool" where
  "import_done env ib nh s s' n \<longleftrightarrow>
    (if nh < ib then s' = s \<and> n = nh
     else tip_at env n (sy_pgb s') \<and> imported env ib n (tables_of s') \<and> known env s' n \<and> nh \<le> n)"

lemma import_done_step:
  assumes "tip_at env ib (sy_pgb s1)" "imported env ib ib (tables_of s1)" "known env s1 nh'" "nh \<le> nh'" "ib \<le> nh"
    and "import_done env (ib + 1) nh' s1 s' n" "main_hashes (tables_of s1) \<subseteq> main_hashes (tables_of s')"
  shows "import_done env ib nh s s' n"
proof (cases "nh' < ib + 1")
  case True
  then have "nh' = ib" "nh = ib" "s' = s1" "n = ib"
    using assms(4-6) by (auto simp: import_done_def)
  then show ?thesis
    using assms(1-3) by (simp add: import_done_def)
next
  case False
  then have d: "tip_at env n (sy_pgb s')" "imported env (ib + 1) n (tables_of s')" "known env s' n" "nh' \<le> n"
    using assms(6) by (simp_all add: import_done_def)
  then show ?thesis
    using imported_join [OF imported_more [OF assms(2,7)] d(2)] assms(4,5) by (simp add: import_done_def)
qed

lemma import_blocks_done:
  assumes "import_blocks env updAll startHeight ib nh s = Some (s', Inr n)"
    and "serves_heights env" "heights_grow env" "known env s nh"
  shows "import_done env ib nh s s' n"
proof -
  have "\<forall>s' n. y = (s', Inr n) \<longrightarrow> serves_heights env \<longrightarrow> heights_grow env \<longrightarrow>
      known env s nh \<longrightarrow> import_done env ib nh s s' n \<and> main_hashes (tables_of s) \<subseteq> main_hashes (tables_of s')"
    if "import_blocks env updAll startHeight ib nh s = Some y" for y
  proof (rule import_blocks.raw_induct [where P = "\<lambda>env updAll startHeight ib nh s y. \<forall>s' n. y = (s', Inr n) \<longrightarrow> serves_heights env \<longrightarrow> heights_grow env \<longrightarrow>
      known env s nh \<longrightarrow> import_done env ib nh s s' n \<and> main_hashes (tables_of s) \<subseteq> main_hashes (tables_of s')", OF _ that], intro allI impI)
    fix rec env updAll startHeight ib nh s y s' n
    assume IH: "\<And>env updAll startHeight ib nh s y. rec env updAll startHeight ib nh s = Some y \<Longrightarrow> \<forall>s' n. y = (s', Inr n) \<longrightarrow> serves_heights env \<longrightarrow> heights_grow env \<longrightarrow>
      known env s nh \<longrightarrow> import_done env ib nh s s' n \<and> main_hashes (tables_of s) \<subseteq> main_hashes (tables_of s')"
      and step: "(if nh < ib then Some (s, Inr nh)
       else
         (case import_block env updAll startHeight ib nh s of
            (s', Inl e) \<Rightarrow> Some (s', Inl e)
          | (s', Inr nh') \<Rightarrow> rec env updAll startHeight (ib + 1) nh' s')) = Some y"
      and y: "y = (s', Inr n)" and env: "serves_heights env" "heights_grow env" and k: "known env s nh"
    show "import_done env ib nh s s' n \<and> main_hashes (tables_of s) \<subseteq> main_hashes (tables_of s')"
    proof (cases "nh < ib")
      case True
      then show ?thesis using step y by (simp add: import_done_def)
    next
      case False
      obtain s1 r1 where 1: "import_block env updAll startHeight ib nh s = (s1, r1)" by fastforce
      obtain nh' where nh': "r1 = Inr nh'" "rec env updAll startHeight (ib + 1) nh' s1 = Some (s', Inr n)"
        using step y False 1 by (auto split: sum.splits)
      note d = import_block_done [OF 1 [unfolded nh'(1)] env k]
      have mains: "main_hashes (tables_of s) \<subseteq> main_hashes (tables_of s1)"
        using step_withinD [OF import_block_keeps 1] by (simp add: chain_step_def import_keeps_def)
      have rest: "import_done env (ib + 1) nh' s1 s' n" "main_hashes (tables_of s1) \<subseteq> main_hashes (tables_of s')"
        using IH [OF nh'(2)] env d(3) by blast+
      have "import_done env ib nh s s' n"
        by (rule import_done_step [OF d _ rest]) (use False in simp)
      then show ?thesis using mains rest(2) by blast
    qed
  qed
  then show ?thesis using assms by blast
qed

text \<open>What the other steps leave as it is: the best block, the blocks, and the questions asked of the node.\<close>

definition best_kept :: "('c, 'n, 'db, 'p) sync_state \<Rightarrow> ('c, 'n, 'db, 'p) sync_state \<Rightarrow> bool" where
  "best_kept s s' \<longleftrightarrow> bb_height (sy_pgb s') = bb_height (sy_pgb s) \<and> bb_hash (sy_pgb s') = bb_hash (sy_pgb s) \<and>
    t_meta (tables_of s') = t_meta (tables_of s) \<and> t_blocks (tables_of s') = t_blocks (tables_of s) \<and> sy_asked s' = sy_asked s"

interpretation bk: state_relation best_kept
  by unfold_locales (auto simp: best_kept_def)

definition rows_kept :: "db \<Rightarrow> db \<Rightarrow> bool" where
  "rows_kept d d' \<longleftrightarrow> t_meta d' = t_meta d \<and> t_blocks d' = t_blocks d"

interpretation rk: table_relation rows_kept
  by unfold_locales (auto simp: rows_kept_def)

lemma step_on_db: "within rows_kept m \<Longrightarrow> step_within best_kept (on_chain err (on_db m))"
  unfolding step_within_def within_def rows_kept_def best_kept_def on_chain_def on_db_def
  by (auto split: prod.split sum.split) (metis fst_conv)+

lemma step_statement: "step_within best_kept statement"
  unfolding statement_def by (rule step_on_db, rule rk.within_exec) (simp add: rows_kept_def)

lemma step_ibd: "step_within best_kept (SetIBDComplete b)"
  unfolding SetIBDComplete_def by (intro bk.step_bind step_statement) (simp add: step_within_def best_kept_def)

lemma step_dup_checks: "step_within best_kept (set_dup_checks b)" "step_within best_kept (check_cancelled env)"
  by (simp_all add: step_within_def best_kept_def set_dup_checks_def check_cancelled_def)

lemma step_on_indexes:
  assumes "\<And>x. data (fst (fst (m x))) = data (fst x)"
  shows "step_within best_kept (on_indexes m)"
  unfolding step_within_def
proof
  fix s
  show "best_kept s (fst (on_indexes m s))"
    using assms [of "(db_conn (sy_pgb s), sy_indexes s)"] by (auto simp: best_kept_def on_indexes_def split: prod.split)
qed

lemma foldl_drop_data: "data (fst (foldl (\<lambda>s ix. drop_index ix s) s ixs)) = data (fst s)"
  by (induction ixs arbitrary: s) (auto simp: drop_index_def exec_def split: prod.split sum.split)

lemma index_data:
  "data (fst (fst (IndexAll x))) = data (fst x)" "data (fst (fst (IndexTicketsTable x))) = data (fst x)"
  "data (fst (fst (deindex x))) = data (fst x)"
proof -
  show "data (fst (fst (IndexAll x))) = data (fst x)" "data (fst (fst (IndexTicketsTable x))) = data (fst x)"
    unfolding IndexAll_def IndexTicketsTable_def by (metis create_indexes_result prod.collapse)+
  show "data (fst (fst (deindex x))) = data (fst x)"
    unfolding deindex_def DeindexAll_def fst_conv by (rule foldl_drop_data)
qed

lemma duplicates_rows: "within rows_kept (DeleteDuplicates ixs)"
  using DeleteDuplicates_fewer [of ixs] by (simp add: within_def fewer_rows_def rows_kept_def)

lemma spending_rows: "within rows_kept UpdateSpendingInfoInAllAddresses"
proof (rule withinI)
  fix c
  have "matching_changes (data c) (data (fst (UpdateSpendingInfoInAllAddresses c)))"
    using UpdateSpending_changes by (simp add: within_def)
  then show "rows_kept (data c) (data (fst (UpdateSpendingInfoInAllAddresses c)))"
    unfolding matching_changes_def rows_kept_def by (metis db.select_convs db.surjective db.update_convs(6))
qed

lemma finish_tables_best: "step_within best_kept (finish_tables env reindexing updAll)"
proof -
  have "step_within best_kept clean_duplicates"
    using step_on_db [OF duplicates_rows] by (auto simp: step_within_def clean_duplicates_def)
  then show ?thesis
    unfolding finish_tables_def reindex_def
    by (auto intro!: bk.step_bind bk.step_pure step_statement step_ibd step_dup_checks step_on_db spending_rows step_on_indexes index_data
      split: if_split)
qed

lemma RetrieveUTXOs_rows: "within rows_kept RetrieveUTXOs" "within rows_kept DBBestBlock"
proof -
  have best: "within rows_kept DBBestBlock"
  proof (rule withinI)
    show "rows_kept (data c) (data (fst (DBBestBlock c)))" for c
      using rk.within_query_row [of SelectMetaDBBestBlock]
      by (auto simp: DBBestBlock_def SelectMetaDBBestBlock_def within_def split: prod.split sum.split sql_error.split) (metis fst_conv)+
  qed
  then show "within rows_kept DBBestBlock" .
  show "within rows_kept RetrieveUTXOs"
    unfolding RetrieveUTXOs_def by (auto intro!: rk.within_bind rk.within_exec rk.within_return best split: prod.split)
qed

lemma warm_best: "step_within best_kept (warm_utxo_cache :: ('c, 'n, 'db, 'p, unit) sync_op)"
proof -
  have fill: "step_within best_kept ((sync_bind (on_chain SqlFailed (on_db RetrieveUTXOs)) (\<lambda>us s. (s\<lparr>sy_pgb := InitUtxoCache us (sy_pgb s)\<rparr>, Inr ()))) :: ('c, 'n, 'db, 'p, unit) sync_op)"
    by (intro bk.step_bind step_on_db RetrieveUTXOs_rows) (simp add: step_within_def best_kept_def InitUtxoCache_def)
  show ?thesis
    unfolding step_within_def warm_utxo_cache_def using fill by (simp add: step_within_def)
qed

lemma prepare_tables_best: "step_within best_kept (prepare_tables ibd reindexing updAll)"
  unfolding prepare_tables_def prepare_indexes_def
  by (auto intro!: bk.step_bind bk.step_pure warm_best step_statement step_ibd step_dup_checks step_on_indexes index_data split: if_split)

text \<open>Rewinding the stake database changes nothing else.\<close>

definition tables_apart :: "('c, 'n, 'db, 'p) sync_state \<Rightarrow> ('c, 'n, 'db, 'p) sync_state \<Rightarrow> bool" where
  "tables_apart s s' \<longleftrightarrow> sy_pgb s' = sy_pgb s \<and> sy_asked s' = sy_asked s"

interpretation ta: stake_relation tables_apart
  by unfold_locales (auto simp: tables_apart_def)

lemma DBBestBlock_value: "DBBestBlock c = (c', Inr (h, k)) \<Longrightarrow> k = db_height (data c)"
  by (cases "t_meta (data c)") (auto simp: DBBestBlock_def query_row_def exec_def SelectMetaDBBestBlock_def db_height_def
    split: if_splits sql_error.splits)

lemma start_heights_done:
  assumes "start_heights env s = (s', Inr (nh, lastBlock, ibd))"
  shows "known env s' nh" "lastBlock = db_height (tables_of s)" "t_blocks (tables_of s') = t_blocks (tables_of s)"
proof -
  have "known env s' nh \<and> lastBlock = db_height (tables_of s) \<and> t_blocks (tables_of s') = t_blocks (tables_of s)"
    using assms unfolding start_heights_def
  proof (cases rule: sync_bindE)
    case (goes_on s1 x)
    then have s1: "known env s1 x" "tables_of s1 = tables_of s"
      by (auto simp: ask_best_block_def known_def split: option.splits)
    from goes_on(2) show ?thesis
    proof (cases rule: sync_bindE)
      case (goes_on s2 y)
      obtain h k where y: "y = (h, k)" by fastforce
      have k: "k = db_height (tables_of s)"
        using goes_on(1) s1(2) DBBestBlock_value [of "conn_of s1" _ h k] unfolding y on_chain_def on_db_def
        by (auto split: prod.splits sum.splits)
      have s2: "best_kept s1 s2"
        by (rule step_withinD [OF step_on_db [OF RetrieveUTXOs_rows(2)] goes_on(1)])
      from goes_on(2) [unfolded y prod.case] show ?thesis
      proof (cases rule: sync_bindE)
        case (goes_on s3 b)
        have "step_within best_kept IBDComplete"
          unfolding IBDComplete_def by (intro bk.step_bind step_statement) (simp add: step_within_def)
        then have "best_kept s2 s3" using step_withinD goes_on(1) by blast
        then have s3: "best_kept s1 s3" by (rule bk.trans [OF s2])
        have "s' = s3" "nh = x" "lastBlock = k"
          using goes_on(2) by (auto simp: sync_fail_def sync_return_def split: if_splits)
        then show ?thesis
          using s1 s3 k by (auto simp: best_kept_def known_def)
      qed simp
    qed simp
  qed simp
  then show "known env s' nh" "lastBlock = db_height (tables_of s)" "t_blocks (tables_of s') = t_blocks (tables_of s)" by blast+
qed

lemma mains_of_blocks: "t_blocks d' = t_blocks d \<Longrightarrow> main_hashes d' = main_hashes d"
  by (simp add: main_hashes_def)

lemma import_mains:
  "import_blocks env updAll startHeight ib nh s = Some (s', r) \<Longrightarrow> main_hashes (tables_of s) \<subseteq> main_hashes (tables_of s')"
  using import_blocks_keep [of env updAll startHeight ib nh s "(s', r)"] by (simp add: chain_step_def import_keeps_def)

lemma sync_blocks_done:
  assumes "sync_blocks env reindexing updAll (lastBlock + 1) nh s = Some (s', Inr n)"
    and "serves_heights env" "heights_grow env" "known env s nh" "lastBlock < n"
  shows "tip_at env n (sy_pgb s')" "imported env (lastBlock + 1) n (tables_of s')"
    "main_hashes (tables_of s) \<subseteq> main_hashes (tables_of s')"
proof -
  obtain s1 h where 1: "import_blocks env updAll (lastBlock + 1) (lastBlock + 1) nh s = Some (s1, Inr h)"
    using assms(1) by (auto simp: sync_blocks_def split: option.splits sum.splits)
  obtain s2 where 2: "finish_tables env reindexing updAll s1 = (s2, Inr ())"
    using assms(1) 1 by (auto simp: sync_blocks_def split: prod.splits sum.splits)
  have 3: "import_missed env updAll (lastBlock + 1) h s2 = Some (s', Inr n)"
    using assms(1) 1 2 by (simp add: sync_blocks_def)
  note first = import_blocks_done [OF 1 assms(2-4)] and m1 = import_mains [OF 1]
  have s2: "best_kept s1 s2" by (rule step_withinD [OF finish_tables_best 2])
  then have m2: "main_hashes (tables_of s2) = main_hashes (tables_of s1)" by (intro mains_of_blocks) (simp add: best_kept_def)
  have "known env s1 h"
    using first assms(4) by (cases "nh < lastBlock + 1") (simp_all add: import_done_def)
  then have k2: "known env s2 h" using s2 by (simp add: best_kept_def known_def)
  obtain s3 h3 where ask: "ask_best_block env s2 = (s3, Inr h3)"
    using 3 by (auto simp: import_missed_def split: prod.splits sum.splits)
  note k3 = ask_known [OF ask assms(3) k2]
  have "tip_at env n (sy_pgb s') \<and> imported env (lastBlock + 1) n (tables_of s') \<and> main_hashes (tables_of s) \<subseteq> main_hashes (tables_of s')"
  proof (cases "h3 > h")
    case True
    then have 4: "import_blocks env updAll (lastBlock + 1) h h3 s3 = Some (s', Inr n)"
      using 3 ask by (simp add: import_missed_def)
    have rest: "tip_at env n (sy_pgb s')" "imported env h n (tables_of s')"
      using import_blocks_done [OF 4 assms(2,3) k3(1)] True by (simp_all add: import_done_def)
    have m: "main_hashes (tables_of s1) \<subseteq> main_hashes (tables_of s')"
      using import_mains [OF 4] m2 k3(3) by simp
    have "imported env (lastBlock + 1) n (tables_of s')"
    proof (cases "nh < lastBlock + 1")
      case True
      then have "h \<le> lastBlock" using first by (simp add: import_done_def)
      then show ?thesis using rest(2) by (auto simp: imported_def)
    next
      case False
      then have "imported env (lastBlock + 1) h (tables_of s1)" using first by (simp add: import_done_def)
      then have "imported env (lastBlock + 1) h (tables_of s')" by (rule imported_more [OF _ m])
      moreover have "imported env (h + 1) n (tables_of s')" using rest(2) by (auto simp: imported_def)
      ultimately show ?thesis by (rule imported_join)
    qed
    then show ?thesis using rest(1) m m1 by blast
  next
    case False
    then have s': "s' = s3" "n = h3" "h3 = h"
      using 3 ask k3(2) by (simp_all add: import_missed_def)
    have "\<not> nh < lastBlock + 1" using first s' assms(5) by (auto simp: import_done_def)
    then have "tip_at env h (sy_pgb s1)" "imported env (lastBlock + 1) h (tables_of s1)"
      using first by (simp_all add: import_done_def)
    moreover have "tip_at env h (sy_pgb s2) = tip_at env h (sy_pgb s1)"
      using s2 by (simp add: best_kept_def tip_at_def)
    ultimately show ?thesis
      using s' k3(3) m1 m2 by (simp add: imported_def)
  qed
  then show "tip_at env n (sy_pgb s')" "imported env (lastBlock + 1) n (tables_of s')"
    "main_hashes (tables_of s) \<subseteq> main_hashes (tables_of s')" by blast+
qed

text \<open>
  C17. A synchronisation that ends without an error at a height above that of the tables has stored every block
  in between on the main chain, took none from it, and left the node's block at that height as best block
  in memory and in the meta table, also when blocks came while indexes were created.
\<close>

theorem SyncChainDB_reaches_node:
  assumes "SyncChainDB env updateAll newIndexes s = Some (s', Inr n)" "serves_heights env" "heights_grow env"
    and "db_height (data (db_conn (sy_pgb s))) < n"
  shows "tip_at env n (sy_pgb s') \<and>
    imported env (db_height (data (db_conn (sy_pgb s))) + 1) n (data (db_conn (sy_pgb s'))) \<and>
    main_hashes (data (db_conn (sy_pgb s))) \<subseteq> main_hashes (data (db_conn (sy_pgb s'))) \<and> \<not> db_InBatchSync (sy_pgb s')"
proof -
  obtain t where t: "sync_all env updateAll newIndexes (in_batch True s) = Some (t, Inr n)" "s' = in_batch False t"
    using assms(1) by (auto simp: SyncChainDB_def)
  obtain s1 nh lastBlock ibd where 1: "start_heights env (in_batch True s) = (s1, Inr (nh, lastBlock, ibd))"
    using t(1) by (auto simp: sync_all_def split: prod.splits sum.splits)
  note h = start_heights_done [OF 1, simplified]
  obtain s2 where 2: "rewind_if_ahead env lastBlock s1 = Some (s2, Inr ())"
    using t(1) 1 by (auto simp: sync_all_def split: option.splits sum.splits)
  have s2: "tables_apart s1 s2" by (rule ta.step_rewind_if_ahead [OF 2])
  obtain s3 where 3: "prepare_tables ibd (newIndexes \<or> lastBlock = -1 \<or> \<not> ibd) (updateAll \<or> \<not> ibd) s2 = (s3, Inr ())"
      "sync_blocks env (newIndexes \<or> lastBlock = -1 \<or> \<not> ibd) (updateAll \<or> \<not> ibd) (lastBlock + 1) nh s3 = Some (t, Inr n)"
    using t(1) 1 2 by (auto simp: sync_all_def Let_def split: prod.splits sum.splits)
  have s3: "best_kept s2 s3" by (rule step_withinD [OF prepare_tables_best 3(1)])
  have k: "known env s3 nh" using h(1) s2 s3 by (simp add: known_def tables_apart_def best_kept_def)
  have m: "main_hashes (tables_of s3) = main_hashes (tables_of s)"
    using h(3) s2 s3 by (intro mains_of_blocks) (simp add: tables_apart_def best_kept_def)
  have t': "tip_at env n (sy_pgb t)" "imported env (lastBlock + 1) n (tables_of t)" "main_hashes (tables_of s3) \<subseteq> main_hashes (tables_of t)"
    using sync_blocks_done [OF 3(2) assms(2,3) k] assms(4) h(2) by simp_all
  have "sy_pgb s' = (sy_pgb t)\<lparr>db_InBatchSync := False\<rparr>" by (simp add: t(2) in_batch_def)
  then show ?thesis
    using t' m h(2) by (simp add: tip_at_def)
qed

section \<open>Termination\<close>

text \<open>A node that was disconnected is one below; the heights that the node of the chain answers stay below a bound.\<close>

definition lowers_height :: "('n, 'u, 'db, 'p) stake_env \<Rightarrow> bool" where
  "lowers_height env \<longleftrightarrow> (\<forall>n iv sdb n'. DisconnectNode env n iv sdb = Inr (Some n') \<longrightarrow> 0 < uint (nodeHeight env n) \<longrightarrow>
    uint (nodeHeight env n') = uint (nodeHeight env n) - 1)"

definition height_bounded :: "('n, 'u, 'db, 'p) sync_env \<Rightarrow> int \<Rightarrow> bool" where
  "height_bounded env B \<longleftrightarrow> (\<forall>i h. sy_GetBestBlock env i = Some h \<longrightarrow> h \<le> B)"

lemma disconnect_lowers:
  assumes "DisconnectBlock env cl neglectCache db = (db', Ok)" "lowers_height env"
  shows "uint (Height env db') = uint (Height env db) - 1"
proof -
  obtain n where n: "BestNode db = Some n"
    using assms(1) by (cases "BestNode db") (simp_all add: DisconnectBlock_def disconnectBlock_def)
  obtain b where b: "dbPrevBlock env cl (StakeDB db) = Some (Inr b)"
    using assms(1) n by (auto simp: DisconnectBlock_def disconnectBlock_def split: option.splits sum.splits)
  then have height: "block_height b = uint (nodeHeight env n) - 1"
    using assms(1) n by (auto simp: DisconnectBlock_def disconnectBlock_def split: if_splits)
  then have positive: "0 < uint (nodeHeight env n)"
    by (metis block_height_def diff_ge_0_iff_ge uint_ge_0 zless_iff_Suc_zadd zle_iff_zadd int_one_le_iff_zero_less)
  obtain db2 where "disconnect_node env b n db2 = (db', Ok)"
    using assms(1) n b height
    by (auto simp: DisconnectBlock_def disconnectBlock_def Let_def split: option.splits prod.splits if_splits)
  then obtain iv n' where n': "DisconnectNode env n iv (StakeDB db2) = Inr (Some n')" "BestNode db' = Some n'"
    by (auto simp: disconnect_node_def Let_def split: sum.splits option.splits)
  then show ?thesis
    using assms(2) positive n by (simp add: lowers_height_def Height_def)
qed

lemma rewind_stake_returns:
  assumes "lowers_height (sy_env env)" "0 \<le> toHeight"
  shows "\<exists>y. rewind_stake env toHeight s = Some y"
proof (induction "nat (stake_height env s)" arbitrary: s rule: less_induct)
  case less
  obtain db' st where dis: "DisconnectBlock (sy_env env) (sy_client env) False (sy_stake s) = (db', st)" by fastforce
  show ?case
  proof (cases "stake_height env s \<le> toHeight \<or> sy_Done env (sy_looked s) \<or> st \<noteq> Ok")
    case True
    then show ?thesis by (cases st) (auto simp: rewind_stake.simps [of env toHeight s] dis)
  next
    case False
    let ?s = "s\<lparr>sy_looked := Suc (sy_looked s), sy_stake := db'\<rparr>"
    have "stake_height env ?s = stake_height env s - 1"
      using False disconnect_lowers [OF _ assms(1), of "sy_client env" False "sy_stake s" db'] dis
      by (simp add: stake_height_def)
    then have "nat (stake_height env ?s) < nat (stake_height env s)"
      using False assms(2) by linarith
    from less [OF this] show ?thesis
      using False dis by (simp add: rewind_stake.simps [of env toHeight s])
  qed
qed

lemma asked_bounded: "ask_best_block env s = (s', Inr h) \<Longrightarrow> height_bounded env B \<Longrightarrow> h \<le> B"
  by (auto simp: ask_best_block_def height_bounded_def split: option.splits)

lemma import_block_bounded:
  assumes "import_block env updAll startHeight ib nh s = (s', Inr nh')" "height_bounded env B" "nh \<le> B"
  shows "nh' \<le> B"
  using assms(1) unfolding import_block_def
proof (cases rule: sync_bindE)
  case (goes_on s1 x)
  from goes_on(2) show ?thesis
  proof (cases rule: sync_bindE)
    case (goes_on s2 h)
    then have h: "h \<le> B"
      using asked_bounded [OF _ assms(2), of s1 s2] assms(3) by (auto simp: refresh_height_def sync_return_def split: if_splits)
    obtain mb where mb: "sy_GetBlock env ib = Some mb"
      using goes_on(2) by (auto simp: sync_fail_def split: option.splits)
    from goes_on(2) [unfolded mb option.case] show ?thesis
    proof (cases rule: sync_bindE)
      case (goes_on s3 y)
      from goes_on(2) show ?thesis
      proof (cases rule: sync_bindE)
        case (goes_on s4 z)
        then show ?thesis
          using asked_bounded [OF _ assms(2), of s4 s'] h by (auto simp: sync_return_def split: if_splits)
      qed simp
    qed simp
  qed simp
qed simp

lemma import_blocks_returns:
  assumes "height_bounded env B" "nh \<le> B"
  shows "\<exists>y. import_blocks env updAll startHeight ib nh s = Some y"
  using assms(2)
proof (induction "nat (B + 1 - ib)" arbitrary: ib nh s rule: less_induct)
  case less
  obtain s1 r1 where 1: "import_block env updAll startHeight ib nh s = (s1, r1)" by fastforce
  show ?case
  proof (cases "nh < ib \<or> (\<exists>e. r1 = Inl e)")
    case True
    then show ?thesis by (auto simp: import_blocks.simps [of env updAll startHeight ib nh s] 1)
  next
    case False
    then obtain nh' where nh': "r1 = Inr nh'" by (cases r1) auto
    have "\<exists>y. import_blocks env updAll startHeight (ib + 1) nh' s1 = Some y"
      by (rule less.hyps) (use False less.prems import_block_bounded [OF 1 [unfolded nh'] assms(1) less.prems] in simp_all)
    then show ?thesis
      using False nh' by (simp add: import_blocks.simps [of env updAll startHeight ib nh s] 1)
  qed
qed

lemma import_blocks_bounded:
  assumes "import_blocks env updAll startHeight ib nh s = Some (s', Inr n)" "height_bounded env B" "nh \<le> B"
  shows "n \<le> B"
  using assms(1,3)
proof (induction "nat (B + 1 - ib)" arbitrary: ib nh s rule: less_induct)
  case less
  obtain s1 r1 where 1: "import_block env updAll startHeight ib nh s = (s1, r1)" by fastforce
  show ?case
  proof (cases "nh < ib")
    case True
    then show ?thesis using less.prems by (simp add: import_blocks.simps [of env updAll startHeight ib nh s])
  next
    case False
    then obtain nh' where nh': "r1 = Inr nh'" "import_blocks env updAll startHeight (ib + 1) nh' s1 = Some (s', Inr n)"
      using less.prems(1) 1 by (cases r1) (auto simp: import_blocks.simps [of env updAll startHeight ib nh s])
    show ?thesis
      by (rule less.hyps [OF _ nh'(2)]) (use False less.prems import_block_bounded [OF 1 [unfolded nh'(1)] assms(2)] in simp_all)
  qed
qed

lemma sync_blocks_returns:
  assumes "height_bounded env B" "nh \<le> B"
  shows "\<exists>y. sync_blocks env reindexing updAll startHeight nh s = Some y"
proof -
  obtain s1 r1 where 1: "import_blocks env updAll startHeight startHeight nh s = Some (s1, r1)"
    using import_blocks_returns [OF assms] by fastforce
  have "\<exists>y. import_missed env updAll startHeight h s2 = Some y" for h s2
    using import_blocks_returns [OF assms(1) asked_bounded [OF _ assms(1)]]
    by (auto simp: import_missed_def split: prod.split sum.split)
  then show ?thesis
    using 1 by (auto simp: sync_blocks_def split: prod.split sum.split)
qed

text \<open>
  C19. A synchronisation ends, whatever the server answers, when the heights of the node stay below a bound and a
  disconnected stake node is one lower: neither the rewinding of the stake database nor the two imports
  run for ever.
\<close>

theorem SyncChainDB_returns:
  assumes "lowers_height (sy_env env)" "height_bounded env B"
  shows "\<exists>y. SyncChainDB env updateAll newIndexes s = Some y"
proof -
  have rewinds: "\<exists>y. rewind_if_ahead env lastBlock s1 = Some y" for lastBlock s1
    using rewind_stake_returns [OF assms(1), of lastBlock s1]
    by (cases "lastBlock < 0") (simp_all add: rewind_if_ahead_def RewindStakeDB_def)
  have "\<exists>y. sync_all env updateAll newIndexes s1 = Some y" for s1
  proof (cases "start_heights env s1")
    case (Pair s2 r2)
    show ?thesis
    proof (cases r2)
      case (Inl e)
      then show ?thesis by (simp add: sync_all_def Pair)
    next
      case (Inr x)
      obtain nh lastBlock ibd where x: "x = (nh, lastBlock, ibd)" by (metis prod_cases3)
      have "known env s2 nh"
        using start_heights_done(1) [of env s1 s2 nh lastBlock ibd] Pair Inr x by simp
      then have nh: "nh \<le> B" using assms(2) by (auto simp: known_def height_bounded_def)
      show ?thesis
        using rewinds [of lastBlock s2] sync_blocks_returns [OF assms(2) nh]
        by (auto simp: sync_all_def Pair Inr x Let_def split: prod.split sum.split)
    qed
  qed
  then obtain y where "sync_all env updateAll newIndexes (in_batch True s) = Some y" by blast
  then show ?thesis by (simp add: SyncChainDB_def)
qed

end
