(* ===== verification/SyncStuck.thy ===== *)
theory SyncStuck
  imports SyncChainReach
begin

text \<open>
  Rows that are in a table twice and that the removal of duplicates does not look at: the synchronisation fails at
  the creation of their index, at this start and at every later one, since nothing that it does before
  takes the rows away.
\<close>

section \<open>Duplicates that stay\<close>

text \<open>The unique indexes of the tables whose duplicate rows are not removed.\<close>

definition never_cleaned :: "unique_index set" where
  "never_cleaned =
    {BlocksOnHash, VotesOnHashes, MissesOnHashes, AddressesOnVoutID, TreasuryOnTxHash, TicketsOnHashes, TicketsOnTxDbID}"

definition stuck :: "unique_index \<Rightarrow> ('c, 'n, 'db, 'p) sync_state \<Rightarrow> bool" where
  "stuck ix s \<longleftrightarrow> \<not> sy_ibd s \<and> ix \<notin> sy_indexes s \<and> \<not> index_holds ix (tables_of s)"

definition still_stuck :: "unique_index \<Rightarrow> ('c, 'n, 'db, 'p) sync_state \<Rightarrow> ('c, 'n, 'db, 'p) sync_state \<Rightarrow> bool" where
  "still_stuck ix s s' \<longleftrightarrow> (stuck ix s \<longrightarrow> stuck ix s')"

interpretation sk: chain_relation "still_stuck ix"
  by unfold_locales (auto simp: still_stuck_def stuck_def)

text \<open>Tables whose rows stay as far as the index looks at them.\<close>

definition violates_on :: "unique_index \<Rightarrow> db \<Rightarrow> db \<Rightarrow> bool" where
  "violates_on ix d d' \<longleftrightarrow> (index_holds ix d' \<longrightarrow> index_holds ix d)"

lemma index_holds_seqs [simp]: "index_holds ix (d\<lparr>seqs := q\<rparr>) = index_holds ix d"
  by (cases ix) simp_all

interpretation vo: table_relation "violates_on ix"
  by unfold_locales (auto simp: violates_on_def)

lemma distinct_prefix:
  assumes "prefix (map f xs) (map f ys)" "\<And>r. key (f r) = key r" "distinct (map key ys)"
  shows "distinct (map key xs)"
proof -
  obtain zs where "map f ys = map f xs @ zs" using assms(1) by (auto simp: prefix_def)
  then have "map key (map f ys) = map key (map f xs) @ map key zs" by simp
  then show ?thesis using assms(2,3) by (simp add: comp_def)
qed

lemma only_adds_violates:
  assumes "only_adds d d'" "ix \<in> never_cleaned"
  shows "violates_on ix d d'"
proof -
  have p: "prefix (map block_fixed (t_blocks d)) (map block_fixed (t_blocks d'))"
      "prefix (map (\<lambda>r. r\<lparr>v_is_mainchain := False\<rparr>) (t_votes d)) (map (\<lambda>r. r\<lparr>v_is_mainchain := False\<rparr>) (t_votes d'))"
      "prefix (map (\<lambda>r. r) (t_misses d)) (map (\<lambda>r. r) (t_misses d'))"
      "prefix (map address_fixed (t_addresses d)) (map address_fixed (t_addresses d'))"
      "prefix (map (\<lambda>r. r\<lparr>y_is_mainchain := False\<rparr>) (t_treasury d)) (map (\<lambda>r. r\<lparr>y_is_mainchain := False\<rparr>) (t_treasury d'))"
      "prefix (map ticket_fixed (t_tickets d)) (map ticket_fixed (t_tickets d'))"
    using assms(1) by (simp_all add: only_adds_def)
  show ?thesis
    using assms(2) distinct_prefix [OF p(1), of b_hash] distinct_prefix [OF p(2), of "\<lambda>r. (v_tx_hash r, v_block_hash r)"]
      distinct_prefix [OF p(3), of "\<lambda>r. (m_ticket_hash r, m_block_hash r)"] distinct_prefix [OF p(4), of address_key]
      distinct_prefix [OF p(5), of "\<lambda>r. (y_tx_hash r, y_block_hash r)"]
      distinct_prefix [OF p(6), of "\<lambda>r. (k_tx_hash r, k_block_hash r)"] distinct_prefix [OF p(6), of k_purchase_tx_db_id]
    by (auto simp: never_cleaned_def violates_on_def fixed_defs address_key_def)
qed

section \<open>Every step keeps them\<close>

lemma stuck_chain:
  assumes "\<And>p. violates_on ix (data (db_conn p)) (data (db_conn (fst (m p))))"
  shows "step_within (still_stuck ix) (on_chain err m)"
  unfolding step_within_def
proof
  fix s
  show "still_stuck ix s (fst (on_chain err m s))"
    using assms [of "sy_pgb s"]
    by (auto simp: still_stuck_def stuck_def violates_on_def on_chain_def split: prod.split sum.split)
qed

lemma stuck_db:
  assumes "within (violates_on ix) m"
  shows "step_within (still_stuck ix) (on_chain err (on_db m))"
proof (rule stuck_chain)
  fix p
  show "violates_on ix (data (db_conn p)) (data (db_conn (fst (on_db m p))))"
    using assms by (auto simp: within_def on_db_def split: prod.split) (metis fst_conv)
qed

lemma stuck_statement: "step_within (still_stuck ix) statement"
  unfolding statement_def by (rule stuck_db, rule vo.within_exec) (simp add: violates_on_def)

lemma stuck_store_next:
  assumes "ix \<in> never_cleaned"
  shows "step_within (still_stuck ix) (store_next env updAll ib mb :: ('c, 'n, 'db, 'p, unit) sync_op)"
  unfolding step_within_def
proof
  fix s :: "('c, 'n, 'db, 'p) sync_state"
  have "step_within (still_stuck ix) (on_chain StoreFailed
      (StoreBlock (sy_stakeFirst env ib) (view_of env (sy_stake s)) mb True True True (\<not> updAll)) :: ('c, 'n, 'db, 'p, unit) sync_op)"
    by (rule stuck_chain, rule only_adds_violates [OF oa.StoreBlock_R [OF HOL.refl] assms])
  then show "still_stuck ix s (fst (store_next env updAll ib mb s))"
    by (simp add: store_next_def step_within_def)
qed

lemma stuck_import_block:
  "ix \<in> never_cleaned \<Longrightarrow> step_within (still_stuck ix) (import_block env updAll startHeight ib nh)"
  unfolding import_block_def refresh_height_def
  by (auto intro!: sk.step_bind sk.step_ask sk.step_check sk.step_pure sk.step_advance stuck_store_next split: option.split)

lemma stuck_import_blocks:
  assumes "import_blocks env updAll startHeight ib nh s = Some y" "ix \<in> never_cleaned"
  shows "still_stuck ix s (fst y)"
proof (rule import_blocks.raw_induct [where P = "\<lambda>env updAll startHeight ib nh s y. still_stuck ix s (fst y)", OF _ assms(1)])
  fix rec env updAll startHeight ib nh s y
  assume IH: "\<And>env updAll startHeight ib nh s y. rec env updAll startHeight ib nh s = Some y \<Longrightarrow> still_stuck ix s (fst y)"
    and step: "(if nh < ib then Some (s, Inr nh)
     else
       (case import_block env updAll startHeight ib nh s of
          (s', Inl e) \<Rightarrow> Some (s', Inl e)
        | (s', Inr nh') \<Rightarrow> rec env updAll startHeight (ib + 1) nh' s')) = Some y"
  obtain s1 r where 1: "import_block env updAll startHeight ib nh s = (s1, r)" by fastforce
  have s1: "still_stuck ix s s1" by (rule step_withinD [OF stuck_import_block [OF assms(2)] 1])
  show "still_stuck ix s (fst y)"
    using step s1 sk.trans [OF s1 IH] by (cases r) (auto simp: 1 split: if_splits)
qed

lemma stuck_DeindexAll: "step_within (still_stuck ix) (on_indexes deindex :: ('c, 'n, 'db, 'p, unit) sync_op)"
proof -
  have drop: "snd (drop_index jx s) \<subseteq> snd s" for jx s
    by (auto simp: drop_index_def split: prod.split sum.split)
  have fold: "snd (foldl (\<lambda>s ix. drop_index ix s) s ixs) \<subseteq> snd s" for s and ixs :: "unique_index list"
  proof (induction ixs arbitrary: s)
    case (Cons jx ixs)
    show ?case using Cons [of "drop_index jx s"] drop [of jx s] by (simp add: subset_trans)
  qed simp
  show ?thesis
    unfolding step_within_def
  proof
    fix s :: "('c, 'n, 'db, 'p) sync_state"
    let ?p = "(db_conn (sy_pgb s), sy_indexes s)"
    have "data (fst (DeindexAll ?p)) = tables_of s" "snd (DeindexAll ?p) \<subseteq> sy_indexes s"
      using index_data(3) [of ?p] fold [of ?p] by (simp_all add: deindex_def DeindexAll_def del: foldl_Cons)
    then show "still_stuck ix s (fst (on_indexes deindex s))"
      by (auto simp: deindex_def still_stuck_def stuck_def on_indexes_def split: prod.split)
  qed
qed

lemma stuck_create:
  assumes "on_indexes (create_indexes ixs) s = (s', r)" "stuck ix s"
  shows "stuck ix s'" "ix \<in> set ixs \<Longrightarrow> r \<noteq> Inr ()"
proof -
  obtain r' where 1: "create_indexes ixs (db_conn (sy_pgb s), sy_indexes s) = ((db_conn (sy_pgb s'), sy_indexes s'), r')"
    using on_indexes_fields(3) [OF assms(1)] by (metis prod.collapse)
  note res = create_indexes_result [OF 1]
  show "stuck ix s'"
    using res assms(2) on_indexes_fields(1) [OF assms(1)] by (auto simp: stuck_def)
  show "r \<noteq> Inr ()" if "ix \<in> set ixs"
    using res that assms(2) on_indexes_fields(4) [OF assms(1)] 1 by (auto simp: stuck_def)
qed

lemma stuck_clean:
  assumes "ix \<in> never_cleaned"
  shows "step_within (still_stuck ix) (clean_duplicates :: ('c, 'n, 'db, 'p, unit) sync_op)"
proof -
  have "within (violates_on ix) (DeleteDuplicates ixs)" for ixs
    unfolding DeleteDuplicates_def DeleteDuplicateVins_def DeleteDuplicateVouts_def DeleteDuplicateTxns_def unless_unique_def
      DeleteVinsDuplicateRows_def DeleteVoutDuplicateRows_def DeleteTxDuplicateRows_def
    using assms by (auto intro!: vo.within_bind vo.within_exec simp: violates_on_def never_cleaned_def)
  then have "step_within (still_stuck ix) (on_chain SqlFailed (on_db (DeleteDuplicates ixs)) :: ('c, 'n, 'db, 'p, unit) sync_op)" for ixs
    by (rule stuck_db)
  then show ?thesis by (simp add: step_within_def clean_duplicates_def)
qed

lemma stuck_reindex:
  assumes "reindex True s = (s', r)" "stuck ix s" "ix \<in> never_cleaned"
  shows "stuck ix s'" "r \<noteq> Inr ()"
proof -
  have "stuck ix s' \<and> r \<noteq> Inr ()"
    using assms(1) unfolding reindex_def if_True
  proof (cases rule: sync_bindE)
    case (fails e)
    then show ?thesis using step_withinD [OF stuck_statement fails(1)] assms(2) by (auto simp: still_stuck_def)
  next
    case (goes_on s1 x)
    then have s1: "stuck ix s1" using step_withinD [OF stuck_statement goes_on(1)] assms(2) by (auto simp: still_stuck_def)
    from goes_on(2) show ?thesis
    proof (cases rule: sync_bindE)
      case (fails e)
      then show ?thesis using step_withinD [OF stuck_clean [OF assms(3)] fails(1)] s1 by (auto simp: still_stuck_def)
    next
      case (goes_on s2 y)
      then have s2: "stuck ix s2" using step_withinD [OF stuck_clean [OF assms(3)] goes_on(1)] s1 by (auto simp: still_stuck_def)
      from goes_on(2) show ?thesis
      proof (cases rule: sync_bindE)
        case (fails e)
        then show ?thesis using stuck_create(1) [OF fails(1) [unfolded IndexAll_def] s2] by simp
      next
        case (goes_on s3 z)
        have ix: "ix \<in> {TicketsOnHashes, TicketsOnTxDbID}"
          using stuck_create(2) [OF goes_on(1) [unfolded IndexAll_def] s2] assms(3) by (auto simp: never_cleaned_def)
        note s3 = stuck_create(1) [OF goes_on(1) [unfolded IndexAll_def] s2]
        show ?thesis
          using stuck_create [OF goes_on(2) [unfolded IndexTicketsTable_def] s3] ix by auto
      qed
    qed
  qed
  then show "stuck ix s'" "r \<noteq> Inr ()" by blast+
qed

lemma stuck_best_block: "within (violates_on ix) DBBestBlock"
proof (rule withinI)
  show "violates_on ix (data c) (data (fst (DBBestBlock c)))" for c
    using DBBestBlock_data [of c] by (metis prod.collapse violates_on_def)
qed

lemma stuck_prepare: "step_within (still_stuck ix) (prepare_tables ibd reindexing updAll :: ('c, 'n, 'db, 'p, unit) sync_op)"
proof -
  have utxos: "within (violates_on ix) RetrieveUTXOs"
    unfolding RetrieveUTXOs_def by (auto intro!: vo.within_bind vo.within_exec vo.within_return stuck_best_block simp: violates_on_def split: prod.split)
  have fill: "step_within (still_stuck ix) ((sync_bind (on_chain SqlFailed (on_db RetrieveUTXOs)) (\<lambda>us s. (s\<lparr>sy_pgb := InitUtxoCache us (sy_pgb s)\<rparr>, Inr ())))
      :: ('c, 'n, 'db, 'p, unit) sync_op)"
    by (intro sk.step_bind stuck_db utxos) (simp add: step_within_def still_stuck_def stuck_def InitUtxoCache_def)
  have warm: "step_within (still_stuck ix) (warm_utxo_cache :: ('c, 'n, 'db, 'p, unit) sync_op)"
    unfolding step_within_def warm_utxo_cache_def using fill by (simp add: step_within_def)
  have flag: "step_within (still_stuck ix) (SetIBDComplete False)"
    unfolding SetIBDComplete_def by (intro sk.step_bind stuck_statement) (simp add: step_within_def still_stuck_def stuck_def)
  have checks: "step_within (still_stuck ix) (set_dup_checks b)" for b
    by (simp add: step_within_def still_stuck_def stuck_def set_dup_checks_def)
  show ?thesis
    unfolding prepare_tables_def prepare_indexes_def
    by (auto intro!: sk.step_bind sk.step_pure warm stuck_statement flag checks stuck_DeindexAll split: if_split)
qed

lemma stuck_heights: "step_within (still_stuck ix) (start_heights env)"
  unfolding start_heights_def IBDComplete_def
  by (auto intro!: sk.step_bind sk.step_ask sk.step_pure stuck_db stuck_best_block stuck_statement split: prod.split)
    (simp add: step_within_def)

lemma heights_flag:
  assumes "start_heights env s = (s', Inr (nh, lastBlock, ibd))" "stuck ix s"
  shows "\<not> ibd"
proof -
  have "\<not> ibd \<or> stuck ix s'" using step_withinD [OF stuck_heights assms(1)] assms(2) by (simp add: still_stuck_def)
  moreover have "ibd = sy_ibd s'"
    using assms(1) unfolding start_heights_def
  proof (cases rule: sync_bindE)
    case (goes_on s1 x)
    from goes_on(2) show ?thesis
    proof (cases rule: sync_bindE)
      case (goes_on s2 y)
      from goes_on(2) show ?thesis
        by (cases y) (auto simp: IBDComplete_def sync_bind_def sync_fail_def sync_return_def split: prod.splits sum.splits if_splits)
    qed simp
  qed simp
  ultimately show ?thesis by (auto simp: stuck_def)
qed

text \<open>The rest of the synchronisation is not reached.\<close>

lemma stuck_blocks:
  assumes "sync_blocks env True updAll startHeight nh s = Some (s', r)" "stuck ix s" "ix \<in> never_cleaned"
  shows "stuck ix s' \<and> (\<exists>e. r = Inl e)"
proof -
  obtain s1 r1 where 1: "import_blocks env updAll startHeight startHeight nh s = Some (s1, r1)"
    using assms(1) by (auto simp: sync_blocks_def split: option.splits)
  have s1: "stuck ix s1"
    using stuck_import_blocks [OF 1 assms(3)] assms(2) by (simp add: still_stuck_def)
  show ?thesis
  proof (cases r1)
    case (Inl e)
    then show ?thesis using assms(1) 1 s1 by (auto simp: sync_blocks_def)
  next
    case (Inr h)
    obtain s2 r2 where 2: "reindex True s1 = (s2, r2)" by fastforce
    note s2 = stuck_reindex [OF 2 s1 assms(3)]
    then obtain e where "r2 = Inl e" by (cases r2) auto
    then have "finish_tables env True updAll s1 = (s2, Inl e)"
      by (simp add: finish_tables_def sync_bind_def 2)
    then show ?thesis using assms(1) 1 Inr s2 by (auto simp: sync_blocks_def)
  qed
qed

lemma stuck_batch [simp]: "stuck ix (in_batch b s) = stuck ix s"
  by (simp add: stuck_def)

text \<open>
  C20. Once a table without clean-up holds two rows for which its unique index allows one, no synchronisation ever ends
  without an error, whatever the node and the server do, and each leaves the tables in this state.
\<close>

theorem stuck_for_ever:
  assumes "stuck ix s" "ix \<in> never_cleaned" "SyncChainDB env updateAll newIndexes s = Some (s', r)"
  shows "stuck ix s' \<and> (\<exists>e. r = Inl e)"
proof -
  obtain t where t: "sync_all env updateAll newIndexes (in_batch True s) = Some (t, r)" "s' = in_batch False t"
    using assms(3) by (auto simp: SyncChainDB_def)
  obtain s1 r1 where 1: "start_heights env (in_batch True s) = (s1, r1)" by fastforce
  have s1: "stuck ix s1"
    using step_withinD [OF stuck_heights 1] assms(1) by (simp add: still_stuck_def)
  have "stuck ix t \<and> (\<exists>e. r = Inl e)"
  proof (cases r1)
    case (Inl e)
    then show ?thesis using t(1) 1 s1 by (auto simp: sync_all_def)
  next
    case (Inr x)
    obtain nh lastBlock ibd where x: "x = (nh, lastBlock, ibd)" by (metis prod_cases3)
    have ibd: "\<not> ibd" using heights_flag [of env "in_batch True s" s1 nh lastBlock ibd ix] 1 Inr x assms(1) by simp
    obtain s2 r2 where 2: "rewind_if_ahead env lastBlock s1 = Some (s2, r2)"
      using t(1) 1 Inr x by (auto simp: sync_all_def split: option.splits)
    have s2: "stuck ix s2" using sk.step_rewind_if_ahead [OF 2] s1 by (simp add: still_stuck_def)
    show ?thesis
    proof (cases r2)
      case (Inl e)
      then show ?thesis using t(1) 1 \<open>r1 = Inr x\<close> x 2 s2 by (auto simp: sync_all_def)
    next
      case (Inr u)
      obtain s3 r3 where 3: "prepare_tables ibd True True s2 = (s3, r3)" by fastforce
      have s3: "stuck ix s3" using step_withinD [OF stuck_prepare 3] s2 by (simp add: still_stuck_def)
      show ?thesis
      proof (cases r3)
        case (Inl e)
        then show ?thesis using t(1) 1 \<open>r1 = Inr x\<close> x 2 Inr ibd 3 s3 by (auto simp: sync_all_def Let_def)
      next
        case (Inr v)
        have "sync_blocks env True True (lastBlock + 1) nh s3 = Some (t, r)"
          using t(1) 1 \<open>r1 = Inr x\<close> x 2 \<open>r2 = Inr u\<close> ibd 3 Inr by (simp add: sync_all_def Let_def)
        then show ?thesis by (rule stuck_blocks [OF _ s3 assms(2)])
      qed
    qed
  qed
  then show ?thesis by (simp add: t(2))
qed

end
