(* ===== verification/SyncChainExamples.thy ===== *)
theory SyncChainExamples
  imports SyncStuck ChainStoreExamples StakeDBSync
begin

text \<open>
  Synchronisations of small tables to which the properties apply, and two that end badly: the flag of a completed
  initial synchronisation survives the loss of the unique indexes, and a block that was stored in part
  leaves rows for which the indexes can never be created again.
\<close>

section \<open>A synchronisation by one block\<close>

text \<open>The tables are at the genesis block \<open>G\<close>, the node is at the block \<open>A\<close> above it.\<close>

definition ex_sync_env :: "(Block list, unit, Block list, unit) sync_env" where
  "ex_sync_env =
    \<lparr>sy_GetBestBlock = (\<lambda>_. Some 1), sy_GetBlock = (\<lambda>h. if h = 1 then Some ex_msg else None), sy_GetChainWork = (\<lambda>_. True),
     sy_Done = (\<lambda>_. False), sy_stakeFirst = (\<lambda>_. False), sy_env = StakeDBSync.ex_env, sy_client = StakeDBSync.ex_client,
     sy_Block = (\<lambda>_. b1), sy_Hash = (\<lambda>_. hash_of 2), sy_coins = (\<lambda>_. 5), sy_Expired = (\<lambda>_ _. False), sy_Missed = (\<lambda>_. [])\<rparr>"

definition ex_sync_start :: "(unit, Block list, Block list, unit) sync_state" where
  "ex_sync_start =
    \<lparr>sy_pgb = ex_before, sy_stake = ex_db [bG], sy_indexes = named_indexes, sy_ibd = True, sy_asked = 0, sy_looked = 0\<rparr>"

definition ex_sync_end :: "(unit, Block list, Block list, unit) sync_state" where
  "ex_sync_end = fst (the (SyncChainDB ex_sync_env False False ex_sync_start))"

lemma ex_synced: "SyncChainDB ex_sync_env False False ex_sync_start = Some (ex_sync_end, Inr 1)"
proof -
  have "map_option snd (SyncChainDB ex_sync_env False False ex_sync_start) = Some (Inr 1)" by code_simp
  then show ?thesis by (auto simp: ex_sync_end_def)
qed

lemma ex_sync_tables: "data (db_conn (sy_pgb ex_sync_start)) = empty_db\<lparr>t_meta := [\<lparr>best_block_height = 0, best_block_hash = ''G''\<rparr>]\<rparr>"
    "outcomes (db_conn (sy_pgb ex_sync_start)) = []"
  by (simp_all add: ex_sync_start_def ex_before_def ex_pgb_def)

lemma ex_sync_heights: "serves_heights ex_sync_env" "heights_grow ex_sync_env" "height_bounded ex_sync_env 1"
  by (simp_all add: serves_heights_def heights_grow_def height_bounded_def ex_sync_env_def ex_msg_def)

lemma ex_lowers: "lowers_height StakeDBSync.ex_env"
proof -
  have "uint (w - 1) = uint w - 1" if "0 < uint w" for w :: u32
    using that uint_minus_simple_alt [of 1 w] by (simp add: word_le_def)
  moreover have "of_nat (length n - 1 - 1) = (of_nat (length n - 1) - 1 :: u32)" if "0 < uint (of_nat (length n - 1) :: u32)" for n :: "Block list"
  proof -
    have "1 \<le> length n - 1" using that by (cases "length n - 1") auto
    then show ?thesis by (simp add: of_nat_diff)
  qed
  ultimately show ?thesis by (auto simp: lowers_height_def StakeDBSync.ex_env_def)
qed

lemma ex_start_ok: "sync_ok ex_sync_start"
  by (simp add: sync_ok_def ex_sync_tables) (simp add: ex_sync_start_def empty_db_def serial_ids_def serial_def tables_ok_def
        serial_tables_def other_tables_def indexed_def)

theorem SyncChainDB_flag_witness:
  "sync_ok ex_sync_end \<and> sy_ibd ex_sync_end \<and> db_dupChecks (sy_pgb ex_sync_end)"
proof -
  have "healthy 17 (db_conn (sy_pgb ex_sync_start))"
    by (simp add: healthy_def ex_sync_tables)
  then show ?thesis
    using SyncChainDB_flag [OF ex_start_ok _ ex_synced] by simp
qed

theorem SyncChainDB_reaches_node_witness:
  "tip_at ex_sync_env 1 (sy_pgb ex_sync_end) \<and> imported ex_sync_env 1 1 (data (db_conn (sy_pgb ex_sync_end)))"
  using SyncChainDB_reaches_node [OF ex_synced ex_sync_heights(1,2)] by (simp add: ex_sync_tables db_height_def)

theorem SyncChainDB_returns_witness:
  "\<exists>y. SyncChainDB ex_sync_env True True ex_sync_start = Some y"
  by (rule SyncChainDB_returns [OF _ ex_sync_heights(3)]) (simp add: ex_sync_env_def ex_lowers)

section \<open>A block that was stored in part\<close>

text \<open>
  The block \<open>A\<close> buys a ticket. While duplicates are not checked for, the server fails once, after the ticket was
  inserted; the block is stored again, and the ticket is in its table twice.
\<close>

definition ex_buy :: MsgTx where
  "ex_buy = \<lparr>mt_Hash = ''k1'', mt_TxIn = [\<lparr>ti_PrevHash = ''f1'', ti_PrevIndex = 0, ti_PrevTree = 0, ti_ValueIn = 5\<rparr>],
     mt_TxOut = [\<lparr>to_Value = 4, to_Addresses = [''x'']\<rparr>, \<lparr>to_Value = 0, to_Addresses = [''x'']\<rparr>, \<lparr>to_Value = 1, to_Addresses = [''x'']\<rparr>],
     mt_Type = 1, mt_Mix = (0, 0), mt_VoteOk = False\<rparr>"

definition ex_buying :: MsgBlock where
  "ex_buying = ex_msg\<lparr>mb_STransactions := [ex_buy]\<rparr>"

definition ex_store :: "unit ChainDB \<Rightarrow> unit ChainDB \<times> (sql_error + unit)" where
  "ex_store = StoreBlock False ex_view ex_buying True True True False"

definition ex_part :: "unit ChainDB" where
  "ex_part = fst (ex_store (ex_before\<lparr>db_dupChecks := False, db_conn := \<lparr>data = (data (db_conn ex_before))
     \<lparr>t_blocks := [ex_bk 1 ''G'' 0 [] []], t_block_chain := [\<lparr>c_block_db_id = 1, c_prev_hash = [], c_this_hash = ''G'', c_next_hash = []\<rparr>],
       t_vouts := [ex_vout 1 ''f1'' [''x''] None]\<rparr>,
       outcomes = [False, True]\<rparr>\<rparr>))"

text \<open>The rows of the ticket after the second attempt, and tables that hold them.\<close>

definition ex_bought :: "nat \<Rightarrow> nat \<Rightarrow> tickets_row" where
  "ex_bought i tx = \<lparr>k_id = i, k_tx_hash = ''k1'', k_block_hash = ''A'', k_block_height = 1, k_purchase_tx_db_id = tx,
     k_spend_type = 0, k_pool_status = 0, k_is_mainchain = True, k_spend_height = None, k_spend_tx_db_id = None\<rparr>"

lemma ex_part_rows: "t_tickets (data (db_conn ex_part)) = [ex_bought 10 10]" "t_meta (data (db_conn ex_part)) = t_meta (data (db_conn ex_before))"
  by code_simp+

theorem stored_twice:
  "snd (ex_store ex_part) = Inr () \<and> t_tickets (data (db_conn (fst (ex_store ex_part)))) = [ex_bought 10 10, ex_bought 11 12]"
  by code_simp

definition ex_stuck :: "(unit, Block list, Block list, unit) sync_state" where
  "ex_stuck = ex_sync_start
    \<lparr>sy_pgb := ex_before\<lparr>db_conn := (db_conn ex_before)\<lparr>data := (data (db_conn ex_before))\<lparr>t_tickets := [ex_bought 10 10, ex_bought 11 12]\<rparr>\<rparr>\<rparr>,
     sy_indexes := {}, sy_ibd := False\<rparr>"

lemma ex_stuck_again: "map_option snd (SyncChainDB ex_sync_env False False ex_stuck)
    = Some (Inl (SqlFailed (ErrOther ''could not create unique index'')))"
  by code_simp

theorem stuck_for_ever_witness:
  "stuck TicketsOnHashes ex_stuck \<and> stuck TicketsOnHashes (fst (the (SyncChainDB ex_sync_env False False ex_stuck)))"
proof -
  have s: "stuck TicketsOnHashes ex_stuck"
    by (simp add: stuck_def ex_stuck_def ex_bought_def)
  obtain s' r where run: "SyncChainDB ex_sync_env False False ex_stuck = Some (s', r)"
    using ex_stuck_again by auto
  show ?thesis
    using stuck_for_ever [OF s _ run] s by (simp add: never_cleaned_def run)
qed

section \<open>Indexes dropped\<close>

text \<open>The server fails at the statement after those that drop the indexes.\<close>

definition ex_dropped :: "(unit, Block list, Block list, unit) sync_state" where
  "ex_dropped = fst (the (SyncChainDB ex_sync_env False True
    (ex_sync_start\<lparr>sy_pgb := ex_before\<lparr>db_conn := (db_conn ex_before)\<lparr>outcomes := replicate 14 False @ [True]\<rparr>\<rparr>\<rparr>)))"

lemma ex_dropped_flag: "sy_ibd ex_dropped = True" "sy_indexes ex_dropped = {}"
  by code_simp+


section \<open>Maintenance\<close>

text \<open>Two rows of one input, and address rows whose outputs are spent.\<close>

definition ex_twice :: conn where
  "ex_twice = \<lparr>data = ex_tables\<lparr>t_vins := [ex_vin 1 ''ta'' ''tg'' 1, ex_vin 2 ''ta'' ''tg'' 1]\<rparr>, outcomes = []\<rparr>"


theorem UpdateSpendingInfo_all_witness:
  "UpdateSpendingInfoInAllAddresses \<lparr>data = ex_tables, outcomes = []\<rparr> =
    (\<lparr>data = fst (UpdateAllAddressesMatchingTxHashRange 0 2 ex_tables), outcomes = []\<rparr>, Inr ())"
  using UpdateSpendingInfo_all [of "\<lparr>data = ex_tables, outcomes = []\<rparr>"]
  by (simp add: one_spender_def db_height_def ex_rows)

theorem warm_cache_exact_witness:
  "\<exists>us. RetrieveUTXOs \<lparr>data = ex_tables, outcomes = []\<rparr> = (\<lparr>data = ex_tables, outcomes = []\<rparr>, Inr us) \<and>
    utxo_Peek ''ta'' 0 (db_utxoCache (InitUtxoCache us ex_before)) = Some (utxo_of (ex_vout 2 ''ta'' [''y''] None))"
proof -
  have "unspent_on_main ex_tables (ex_vout 2 ''ta'' [''y''] None)"
    by (simp add: unspent_on_main_def ex_rows)
  moreover have "o_tx_hash (ex_vout 2 ''ta'' [''y''] None) = ''ta''" "o_tx_index (ex_vout 2 ''ta'' [''y''] None) = 0"
    by (simp_all add: ex_rows)
  ultimately show ?thesis
    using warm_cache_exact [of "\<lparr>data = ex_tables, outcomes = []\<rparr>" ex_before]
    by (fastforce simp: one_spender_def db_height_def ex_rows ex_before_def)
qed

end
