(* ===== verification/Spec2Isabelle.thy ===== *)
theory Spec2Isabelle
  imports PoolStore CacheContract BlockCacheSync StakeRecover StakeWait ReorgFlow ChartSets ChainTipContract ChainRewindExamples ChainReorg PubSubContract SyncChainExamples
begin

text \<open>
  A model of the parts of bisonexplorer that keep state of their own. The program is an explorer of the Decred block
  chain (with pages for Bitcoin, Litecoin and Monero): it follows a node over RPC, stores blocks in PostgreSQL,
  and serves pages, an API and websockets from the database and from structures in memory.

  How the parts interact. At the start, the stake database and the chain database are brought to a common block
  (\<open>StakeRecover\<close>, the purge of \<open>ChainRewind\<close>) and then to the best block of the node (\<open>SyncChain\<close>). From then on the
  notifier takes what the node announces, one at a time, and calls the handlers for a block or for a
  reorganisation in their order (\<open>Notifier\<close>, \<open>ReorgFlow\<close>). A block is connected to the stake database, whose ticket
  pool it changes, and stored in the tables (\<open>ChainStore\<close>), where the new block becomes the best one; a
  reorganisation disconnects blocks from the stake database, moves those of the tables to a side chain
  (\<open>ChainTip\<close>), stores the new ones (\<open>ChainReorg\<close>), and cuts the charts back. Rows of addresses are answered
  from the address cache, which the chain database clears for the addresses that a block touches; blocks from the block
  cache of the API; charts from a cache of encoded charts. The websocket hub tells the clients.

  \<^bold>\<open>Prelude.\<close> The vocabulary: words for the integer types of Go, nil and empty slices, checked indexing, the
  outcome of a method (a value, an error, or a panic), built-in maps as association lists with distinct keys. Its
  interfaces are \<open>go_map\<close>, the laws of a map, interpreted on the model's maps, and \<open>reversible_log\<close>, a log whose entries
  can be undone, interpreted on the diffs of the ticket pool.

  \<^bold>\<open>TicketPool\<close>, \<^bold>\<open>PoolStore\<close> (\<open>stakedb/ticketpool.go\<close>). The pool of live tickets at a cursor, the tip and the log of
  diffs; its abstract value is \<open>pool_at\<close>, the replay of the first diffs. Advancing and retreating move along it, every
  sequence of exported calls keeps the invariant, a diff trimmed after it was appended comes back. The second theory
  has the bytes of a stored diff and the load of the whole store, with round trips and a named error for each return.

  \<^bold>\<open>Chain\<close>, \<^bold>\<open>Ancestor\<close> (\<open>rpcutils\<close>, \<open>txhelpers\<close>). Headers, blocks and reorganisations as the components exchange them; the
  walks to a common ancestor. \<^bold>\<open>PoolInfoCache\<close>, \<^bold>\<open>StakeDB\<close>, \<^bold>\<open>StakeDBContract\<close>, \<^bold>\<open>StakeDBReorg\<close>, \<^bold>\<open>StakeDBSync\<close>,
  \<^bold>\<open>StakeRecover\<close>, \<^bold>\<open>StakeWait\<close> (\<open>stakedb/stakedb.go\<close>, \<open>stakedb/chainmonitor.go\<close>). The state is refined to a chain of blocks
  (\<open>sdb_rel\<close>): connecting and disconnecting are adding and removing its last block, a reorganisation follows the new
  chain, a start recovers a common height, a waiter for a height is signalled on an open channel. dcrd's stake node
  and its database are parameters, with their laws in \<open>stake_package\<close>.

  \<^bold>\<open>Notifier\<close>, \<^bold>\<open>NotifierSync\<close>, \<^bold>\<open>ReorgFlow\<close> (\<open>cmd/dcrdata/internal/notification\<close>). The queue, the handlers, the catch-up of
  missed blocks; the recorded blocks have no hole; and a reorganisation from the notification to the stake database and
  the charts. Handlers are functions on a state, run in a fixed order within a group.

  \<^bold>\<open>AddressRows\<close>, \<^bold>\<open>RowMerge\<close> (\<open>db/dbtypes/types.go\<close>). Counting, paging, merging by transaction and conversion, against
  specifications by filtering and grouping. \<^bold>\<open>CacheItems\<close>, \<^bold>\<open>AddressCache\<close>, \<^bold>\<open>CacheEviction\<close>, \<^bold>\<open>CacheContract\<close>
  (\<open>db/cache/addresscache.go\<close>). The lock per address, the items, the cache with its stores, reads and clears, eviction, and
  the contract over every sequence of operations. The order in which a map is visited is a parameter. The eviction
  loops can run forever, so they take fuel: the theorem on their end says for which caches some fuel is enough and how
  much.

  \<^bold>\<open>BlockHeap\<close>, \<^bold>\<open>BlockCache\<close>, \<^bold>\<open>BlockCacheContract\<close>, \<^bold>\<open>BlockCacheSync\<close> (\<open>api/types/apicache.go\<close>). The routines of
  \<open>container/heap\<close> with the interfaces \<open>heap_swaps\<close> (what they keep for any comparator) and \<open>heap_order\<close> (what they
  establish for an order), interpreted on the comparators of the code; the queue and \<open>APICache\<close>; and the invariant that
  ties them together. The clock is a parameter.

  \<^bold>\<open>Charts\<close>, \<^bold>\<open>ChartsContract\<close>, \<^bold>\<open>ChartMakers\<close>, \<^bold>\<open>ChartServe\<close>, \<^bold>\<open>ChartServeContract\<close>, \<^bold>\<open>ChartSets\<close> (\<open>db/cache/charts.go\<close>,
  \<open>db/cache/mutilchaincharts.go\<close>). The sets of numbers, \<open>Lengthen\<close> and the reorganisation handlers, the makers, the cache of
  encoded charts, the update loop with its state check, the file. A served chart is the one its maker would make; the
  sets of a chart have one length; an update during a reorganisation is abandoned. Floating-point operations,
  JSON and the calendar are parameters.

  \<^bold>\<open>SqlTables\<close>, \<^bold>\<open>ChainStatements\<close>, \<^bold>\<open>UtxoStore\<close> (\<open>db/dcrpg/internal\<close>, \<open>db/dcrpg/queries.go\<close>). A table is the list of its
  rows, with the columns that modelled statements use; a statement is a function on the tables that the server may
  refuse, which the \<open>outcomes\<close> of a connection say, statement by statement; a transaction that fails rolls back all but
  the sequences. \<^bold>\<open>ChainTip\<close>, \<^bold>\<open>ChainTipContract\<close> (\<open>TipToSideChain\<close>), \<^bold>\<open>ChainRewind\<close>, \<^bold>\<open>ChainRewindContract\<close>,
  \<^bold>\<open>ChainRewindExamples\<close> (\<open>db/dcrpg/rewind.go\<close>), \<^bold>\<open>ChainInsert\<close>, \<^bold>\<open>ChainStake\<close>, \<^bold>\<open>ChainStore\<close> (\<open>StoreBlock\<close>), \<^bold>\<open>ChainReorg\<close>
  (\<open>db/dcrpg/chainmonitor.go\<close>). \<open>side_moved\<close>, \<open>without_block\<close> and the rows of a stored block say what each operation
  makes of the tables. What storing keeps is proved once in \<^bold>\<open>ChainStoreFrame\<close>: the locales \<open>table_relation\<close>,
  \<open>tree_contract\<close>, \<open>block_contract\<close> and \<open>statement_contract\<close> extend each other, from the laws of a relation between tables
  and of the single statements to the whole of \<open>StoreBlock\<close>, whatever statements fail; \<^bold>\<open>ChainStoreContract\<close> interprets them
  for the unique indexes, the rows that stay, other blocks and the main chain. \<^bold>\<open>ChainStoreRows\<close>, \<^bold>\<open>ChainSpend\<close> and
  \<^bold>\<open>ChainStoreExamples\<close> have the identifiers of rows, the cache of outputs, and examples.

  \<^bold>\<open>ChainMaintain\<close>, \<^bold>\<open>ChainMaintainContract\<close> (\<open>db/dcrpg/indexing.go\<close>, \<open>DeleteDuplicates\<close>, \<open>UpdateSpendingInfoInAllAddresses\<close>,
  \<open>InitUtxoCache\<close>), \<^bold>\<open>SyncChain\<close>, \<^bold>\<open>SyncChainContract\<close>, \<^bold>\<open>SyncChainReach\<close>, \<^bold>\<open>SyncStuck\<close>, \<^bold>\<open>SyncChainExamples\<close>
  (\<open>SyncChainDB\<close> of \<open>db/dcrpg/sync.go\<close>). The unique indexes and the synchronisation at the start. The locales
  \<open>state_relation\<close>, \<open>stake_relation\<close> and \<open>chain_relation\<close> carry a relation between states through its steps. The flag of a
  completed initial synchronisation implies the indexes; a run without an error reaches the height of the node with all
  blocks stored; it ends when the node does not grow for ever; duplicates in a table that is not cleaned make every
  later run fail.

  \<^bold>\<open>PubSub\<close>, \<^bold>\<open>PubSubContract\<close> (\<open>pubsub\<close>). The websocket hub with its clients and channels: it never sends on a closed
  channel, and a signal goes to exactly those who subscribed.

  Loops without a bound of their own (\<open>TipToSideChain_loop\<close>, \<open>Rewind\<close>, \<open>rewind_stake\<close>, \<open>import_blocks\<close>) are partial functions
  whose \<open>None\<close> is a run that does not end; theorems say when they return. Mutexes are left out: every modelled operation
  of the caches, the charts and the pool does its work under the mutex of its receiver, so operations are steps and an
  interleaving is a sequence of them, which \<open>tp_step\<close>, \<open>ac_step\<close>, \<open>cl_step\<close>, \<open>api_step\<close>, \<open>wait_step\<close> and \<open>hub_step\<close>
  list. The two trees of a block, stored by two goroutines, are stored one after the other in either order. Log output
  and progress reports are left out. Lengths and indices are natural numbers where the code guards their sign and
  integers where it does not; integers of fixed width are words where their arithmetic can wrap.

  Not modelled: the queries of \<open>db/dcrpg\<close> that only read for pages and the API, its agenda tables, tables of other chains
  and upgrades; the badger and ffldb access of the stake database; RPC and HTTP clients and handlers (\<open>blockdata\<close>,
  \<open>exchanges\<close>, \<open>mutilchain\<close>, \<open>xmr\<close>, \<open>mempool\<close>, \<open>gov\<close>, \<open>cmd/dcrdata\<close>), which collect answers of others and turn them into pages and
  JSON; the helpers of \<open>txhelpers\<close> over the transaction types of dcrd; \<open>semver\<close> and \<open>trylock\<close>, which are a few lines each.
\<close>

end
